(* ===== verification/Prelude.thy ===== *)
theory Prelude
  imports Main "HOL-Library.Word" "HOL-Library.Tree" "HOL-Library.Multiset"
begin

text \<open>
  Shared vocabulary of the development: the names of the machine types, the successor and the
  predecessor of an element in an intrusive kernel list, the power-of-two rounding that the
  C code writes with masks, and the lemma collections that the component theories extend.
\<close>

unbundle bit_operations_syntax

type_synonym u8 = "8 word"
type_synonym u32 = "32 word"
type_synonym u64 = "64 word"

named_theorems wf_dests \<open>consequences of a well-formedness invariant\<close>
named_theorems frame_simps \<open>fields an operation leaves alone\<close>

section \<open>Signed integers of the kernel\<close>

text \<open>The kernel is compiled with wrapping signed arithmetic: a value stored in an \<^verbatim>\<open>int\<close> is truncated to 32 bits.\<close>

definition s32 :: "int \<Rightarrow> int" where
  "s32 x = (x + 2147483648) mod 4294967296 - 2147483648"

definition is_s32 :: "int \<Rightarrow> bool" where
  "is_s32 x \<longleftrightarrow> - 2147483648 \<le> x \<and> x < 2147483648"

lemma s32_id [simp]: "is_s32 x \<Longrightarrow> s32 x = x"
  by (simp add: s32_def is_s32_def)

lemma s32_range [simp]: "is_s32 (s32 x)"
proof -
  have "0 \<le> (x + 2147483648) mod 4294967296" "(x + 2147483648) mod 4294967296 < 4294967296" by simp_all
  then show ?thesis unfolding s32_def is_s32_def by linarith
qed

section \<open>Masks and power-of-two rounding on words\<close>

lemma and_not_mask_minus: "(a :: 'a::len word) AND NOT (mask n) = a - take_bit n a"
proof -
  have "(a AND NOT (mask n)) + take_bit n a = a"
    by (subst disjunctive_add) (auto simp: bit_simps intro!: bit_word_eqI)
  then show ?thesis by (simp add: algebra_simps)
qed

lemma unat_and_not_mask: "unat ((a :: 'a::len word) AND NOT (mask n)) = 2 ^ n * (unat a div 2 ^ n)"
proof -
  have "unat (a - take_bit n a) = unat a - unat (take_bit n a)"
    by (rule unat_sub) (simp only: word_le_nat_alt unsigned_take_bit_eq take_bit_nat_less_eq_self)
  also have "\<dots> = 2 ^ n * (unat a div 2 ^ n)"
    by (simp only: unsigned_take_bit_eq) (simp add: take_bit_eq_mod minus_mod_eq_mult_div)
  finally show ?thesis by (simp add: and_not_mask_minus)
qed

lemma unat_lt: "unat (v :: u32) < 4294967296" "unat (w :: u64) < 18446744073709551616"
  by (rule order_less_le_trans [OF unsigned_less], simp)+

text \<open>Rounding a natural number up to a multiple of \<open>m\<close>.\<close>

definition round_up :: "nat \<Rightarrow> nat \<Rightarrow> nat" where
  "round_up m x = m * ((x + m - 1) div m)"

lemma round_up_ge: "0 < m \<Longrightarrow> x \<le> round_up m x"
proof -
  assume "0 < m"
  then have "(x + m - 1) mod m \<le> m - 1" using mod_less_divisor [of m "x + m - 1"] by linarith
  moreover have "m * ((x + m - 1) div m) + (x + m - 1) mod m = x + m - 1" by simp
  ultimately show ?thesis using \<open>0 < m\<close> unfolding round_up_def by linarith
qed

lemma round_up_less: "0 < m \<Longrightarrow> round_up m x < x + m"
proof -
  assume "0 < m"
  moreover have "m * ((x + m - 1) div m) \<le> x + m - 1" by simp
  ultimately show ?thesis unfolding round_up_def by linarith
qed

lemma dvd_round_up [simp]: "m dvd round_up m x"
  by (simp add: round_up_def)

lemma round_up_0 [simp]: "0 < m \<Longrightarrow> round_up m 0 = 0"
  by (simp add: round_up_def)

section \<open>Successor and predecessor in a list of distinct nodes\<close>

text \<open>
  An intrusive \<^verbatim>\<open>struct list_head\<close> list is the list of its nodes; \<open>list_next\<close> and
  \<open>list_prev\<close> follow the \<^verbatim>\<open>next\<close> and \<^verbatim>\<open>prev\<close> pointers, with \<open>None\<close> for the list head
  itself (\<^verbatim>\<open>list_is_last\<close>, respectively the first node).
\<close>

fun list_next :: "'a list \<Rightarrow> 'a \<Rightarrow> 'a option" where
  "list_next [] x = None"
| "list_next [y] x = None"
| "list_next (y # z # zs) x = (if y = x then Some z else list_next (z # zs) x)"

fun list_prev :: "'a list \<Rightarrow> 'a \<Rightarrow> 'a option" where
  "list_prev [] x = None"
| "list_prev [y] x = None"
| "list_prev (y # z # zs) x = (if z = x then Some y else list_prev (z # zs) x)"

text \<open>\<^verbatim>\<open>list_add(new, at)\<close>: the new node right after an existing one.\<close>

fun list_add_after :: "'a \<Rightarrow> 'a \<Rightarrow> 'a list \<Rightarrow> 'a list" where
  "list_add_after n x [] = []"
| "list_add_after n x (y # ys) = (if y = x then y # n # ys else y # list_add_after n x ys)"

lemma list_next_notin: "x \<notin> set xs \<Longrightarrow> list_next xs x = None"
  by (induction xs x rule: list_next.induct) auto

lemma list_next_app [simp]:
  "x \<notin> set xs \<Longrightarrow> list_next (xs @ x # ys) x = (case ys of [] \<Rightarrow> None | y # _ \<Rightarrow> Some y)"
proof (induction xs)
  case Nil
  then show ?case by (cases ys) auto
next
  case (Cons z zs)
  then show ?case by (cases zs) auto
qed

lemma list_next_app2:
  "distinct (xs @ y # ys) \<Longrightarrow> x \<in> set (y # ys) \<Longrightarrow> list_next (xs @ y # ys) x = list_next (y # ys) x"
proof (induction xs)
  case Nil
  then show ?case by simp
next
  case (Cons z zs)
  then show ?case by (cases zs) auto
qed

lemma list_next_app1:
  "x \<in> set xs \<Longrightarrow> x \<noteq> last xs \<Longrightarrow> distinct xs \<Longrightarrow> list_next (xs @ ys) x = list_next xs x"
proof (induction xs x rule: list_next.induct)
  case (3 y z zs x)
  then show ?case by (cases "y = x") auto
qed auto

lemma list_prev_notin_tl: "x \<notin> set (tl xs) \<Longrightarrow> list_prev xs x = None"
  by (induction xs x rule: list_prev.induct) auto

lemma list_prev_app [simp]:
  "x \<notin> set xs \<Longrightarrow> x \<notin> set ys \<Longrightarrow>
   list_prev (xs @ x # ys) x = (if xs = [] then None else Some (last xs))"
proof (induction xs)
  case Nil
  then show ?case by (simp add: list_prev_notin_tl)
next
  case (Cons z zs)
  then show ?case by (cases zs) auto
qed

lemma list_add_after_app [simp]:
  "x \<notin> set xs \<Longrightarrow> list_add_after n x (xs @ x # ys) = xs @ x # n # ys"
  by (induction xs) auto

lemma list_next_in_set: "list_next xs x = Some y \<Longrightarrow> x \<in> set xs \<and> y \<in> set xs"
  by (induction xs x rule: list_next.induct) (auto split: if_splits)

lemma split_at_distinct:
  assumes "x \<in> set xs" "distinct xs"
  obtains as bs where "xs = as @ x # bs" "x \<notin> set as" "x \<notin> set bs"
  using assms by (metis distinct_append distinct.simps(2) split_list not_distinct_conv_prefix)

lemma remove1_app_mid [simp]: "x \<notin> set xs \<Longrightarrow> remove1 x (xs @ x # ys) = xs @ ys"
  by (induction xs) auto

end
