(* ===== verification/C_Memory.thy ===== *)
theory C_Memory
  imports Prelude "HOL-Library.Monad_Syntax"
begin

text \<open>
  The C memory of the data-structure programs. An \<^verbatim>\<open>int\<close> array is the list of its cells; a read
  or write outside of it is undefined behaviour and gives \<open>None\<close>. Linked structures live in a
  heap, a map from addresses to nodes; following \<^verbatim>\<open>NULL\<close> or a freed pointer gives \<open>None\<close>. What
  \<^verbatim>\<open>malloc\<close> returns (an address with whatever the memory held, or \<^verbatim>\<open>NULL\<close>) is a parameter.
\<close>

section \<open>Arrays\<close>

definition rd :: "'a list \<Rightarrow> int \<Rightarrow> 'a option" where
  "rd xs i = (if 0 \<le> i \<and> nat i < length xs then Some (xs ! nat i) else None)"

definition wr :: "'a list \<Rightarrow> int \<Rightarrow> 'a \<Rightarrow> 'a list option" where
  "wr xs i v = (if 0 \<le> i \<and> nat i < length xs then Some (xs[nat i := v]) else None)"

lemma rd_nat [simp]: "i < length xs \<Longrightarrow> rd xs (int i) = Some (xs ! i)"
  by (simp add: rd_def)

lemma wr_nat [simp]: "i < length xs \<Longrightarrow> wr xs (int i) v = Some (xs[i := v])"
  by (simp add: wr_def)

lemma rd_Suc [simp]: "Suc i < length xs \<Longrightarrow> rd xs (1 + int i) = Some (xs ! Suc i)" "Suc i < length xs \<Longrightarrow> rd xs (int i + 1) = Some (xs ! Suc i)"
  by (simp_all add: rd_def nat_add_distrib)

lemma wr_Suc [simp]: "Suc i < length xs \<Longrightarrow> wr xs (1 + int i) v = Some (xs[Suc i := v])" "Suc i < length xs \<Longrightarrow> wr xs (int i + 1) v = Some (xs[Suc i := v])"
  by (simp_all add: wr_def nat_add_distrib)

lemma wr_length: "wr xs i v = Some ys \<Longrightarrow> length ys = length xs"
  by (auto simp: wr_def split: if_splits)

lemma take_Suc_update: "n < length xs \<Longrightarrow> take (Suc n) (xs[n := v]) = take n xs @ [v]"
  by (simp add: take_Suc_conv_app_nth)

section \<open>Signed arithmetic\<close>

text \<open>Signed overflow is undefined behaviour; \<^verbatim>\<open>/\<close> and \<^verbatim>\<open>%\<close> truncate towards zero.\<close>

definition in_int :: "nat \<Rightarrow> int \<Rightarrow> bool" where
  "in_int w x \<longleftrightarrow> - (2 ^ (w - 1)) \<le> x \<and> x < 2 ^ (w - 1)"

definition checked :: "nat \<Rightarrow> int \<Rightarrow> int option" where
  "checked w x = (if in_int w x then Some x else None)"

definition cdiv :: "int \<Rightarrow> int \<Rightarrow> int" where
  "cdiv a b = sgn a * sgn b * (\<bar>a\<bar> div \<bar>b\<bar>)"

definition cmod :: "int \<Rightarrow> int \<Rightarrow> int" where
  "cmod a b = a - cdiv a b * b"

lemma checked_Some [simp]: "in_int w x \<Longrightarrow> checked w x = Some x"
  by (simp add: checked_def)

lemma cdiv_nonneg [simp]: "0 \<le> a \<Longrightarrow> 0 < b \<Longrightarrow> cdiv a b = a div b"
  by (auto simp: cdiv_def sgn_if)

lemma cmod_nonneg [simp]: "0 \<le> a \<Longrightarrow> 0 < b \<Longrightarrow> cmod a b = a mod b"
  by (simp add: cmod_def minus_div_mult_eq_mod)

lemma cmod_abs_less: "b \<noteq> 0 \<Longrightarrow> \<bar>cmod a b\<bar> < \<bar>b\<bar>"
proof -
  assume "b \<noteq> 0"
  have "a - sgn a * sgn b * (\<bar>a\<bar> div \<bar>b\<bar>) * b = sgn a * (\<bar>a\<bar> - \<bar>a\<bar> div \<bar>b\<bar> * \<bar>b\<bar>)"
    by (simp add: algebra_simps sgn_mult_abs abs_mult_sgn) (metis abs_sgn mult.assoc mult.commute)
  also have "\<dots> = sgn a * (\<bar>a\<bar> mod \<bar>b\<bar>)" by (simp add: minus_div_mult_eq_mod)
  finally have "cmod a b = sgn a * (\<bar>a\<bar> mod \<bar>b\<bar>)" by (simp add: cmod_def cdiv_def)
  moreover have "\<bar>a\<bar> mod \<bar>b\<bar> < \<bar>b\<bar>" "0 \<le> \<bar>a\<bar> mod \<bar>b\<bar>" using \<open>b \<noteq> 0\<close> by auto
  ultimately show ?thesis by (auto simp: abs_mult sgn_if)
qed

section \<open>Linked nodes\<close>

record 'a cell =
  element :: 'a
  nextp :: "nat option"

type_synonym 'a heap = "nat \<rightharpoonup> 'a cell"
type_synonym 'a allocator = "'a heap \<Rightarrow> (nat \<times> 'a cell) option"

text \<open>An allocator returns memory that is not in use.\<close>

definition malloc_ok :: "'a allocator \<Rightarrow> bool" where
  "malloc_ok malloc \<longleftrightarrow> (\<forall>h a c. malloc h = Some (a, c) \<longrightarrow> h a = None)"

definition set_next :: "nat \<Rightarrow> nat option \<Rightarrow> 'a heap \<Rightarrow> 'a heap option" where
  "set_next p q h = (case h p of None \<Rightarrow> None | Some c \<Rightarrow> Some (h(p \<mapsto> c\<lparr>nextp := q\<rparr>)))"

definition set_element :: "nat \<Rightarrow> 'a \<Rightarrow> 'a heap \<Rightarrow> 'a heap option" where
  "set_element p x h = (case h p of None \<Rightarrow> None | Some c \<Rightarrow> Some (h(p \<mapsto> c\<lparr>element := x\<rparr>)))"

definition get_next :: "'a heap \<Rightarrow> nat \<Rightarrow> nat option option" where
  "get_next h p = map_option nextp (h p)"

definition get_element :: "'a heap \<Rightarrow> nat \<Rightarrow> 'a option" where
  "get_element h p = map_option element (h p)"

definition free_cell :: "nat \<Rightarrow> 'a heap \<Rightarrow> 'a heap option" where
  "free_cell p h = (if h p = None then None else Some (h(p := None)))"

text \<open>The loops \<^verbatim>\<open>while (p->next != NULL) p = p->next\<close> and \<^verbatim>\<open>while (pre->next != p) pre = pre->next\<close>.\<close>

partial_function (option) walk_end :: "'a heap \<Rightarrow> nat \<Rightarrow> nat option" where
  "walk_end h p = do { n \<leftarrow> get_next h p; case n of None \<Rightarrow> Some p | Some q \<Rightarrow> walk_end h q }"

partial_function (option) walk_before :: "'a heap \<Rightarrow> nat option \<Rightarrow> nat \<Rightarrow> nat option" where
  "walk_before h target pre =
     do { n \<leftarrow> get_next h pre; if n = target then Some pre else case n of None \<Rightarrow> None | Some q \<Rightarrow> walk_before h target q }"

text \<open>The printing loops: the elements from a pointer on.\<close>

partial_function (option) elements_from :: "'a heap \<Rightarrow> nat option \<Rightarrow> 'a list option" where
  "elements_from h p =
     (case p of None \<Rightarrow> Some []
      | Some a \<Rightarrow> do { c \<leftarrow> h a; xs \<leftarrow> elements_from h (nextp c); Some (element c # xs) })"

declare walk_end.simps [code] walk_before.simps [code] elements_from.simps [code]

text \<open>\<open>chain h p as q\<close>: from \<open>p\<close> the nodes \<open>as\<close> lead to \<open>q\<close>.\<close>

fun chain :: "'a heap \<Rightarrow> nat option \<Rightarrow> nat list \<Rightarrow> nat option \<Rightarrow> bool" where
  "chain h p [] q \<longleftrightarrow> p = q"
| "chain h p (a # as) q \<longleftrightarrow> p = Some a \<and> (case h a of None \<Rightarrow> False | Some c \<Rightarrow> chain h (nextp c) as q)"

definition elem_at :: "'a heap \<Rightarrow> nat \<Rightarrow> 'a" where
  "elem_at h a = element (the (h a))"

text \<open>A header node followed by the nodes \<open>as\<close>, without repetition.\<close>

definition list_at :: "'a heap \<Rightarrow> nat \<Rightarrow> nat list \<Rightarrow> bool" where
  "list_at h hdr as \<longleftrightarrow> chain h (Some hdr) (hdr # as) None \<and> distinct (hdr # as)"

lemma chain_append: "chain h p (as @ bs) q \<longleftrightarrow> (\<exists>r. chain h p as r \<and> chain h r bs q)"
  by (induction as arbitrary: p) (auto split: option.splits)

lemma chain_snoc: "chain h p (as @ [a]) q \<longleftrightarrow> chain h p as (Some a) \<and> (\<exists>c. h a = Some c \<and> nextp c = q)"
  by (auto simp: chain_append split: option.splits)

lemma chain_cong: "(\<And>a. a \<in> set as \<Longrightarrow> h a = h' a) \<Longrightarrow> chain h p as q = chain h' p as q"
  by (induction as arbitrary: p) (auto split: option.splits)

lemma chain_upd [simp]: "a \<notin> set as \<Longrightarrow> chain (h(a := c)) p as q = chain h p as q"
  by (rule chain_cong) auto

lemma chain_live: "chain h p as q \<Longrightarrow> a \<in> set as \<Longrightarrow> h a \<noteq> None"
  by (induction as arbitrary: p) (auto split: option.splits)

lemma chain_unique: "chain h p as None \<Longrightarrow> chain h p bs None \<Longrightarrow> as = bs"
proof (induction as arbitrary: p bs)
  case Nil
  then show ?case by (cases bs) auto
next
  case (Cons a as)
  then show ?case by (cases bs) (auto split: option.splits)
qed

lemma elem_at_upd [simp]: "elem_at (h(a := Some c)) b = (if b = a then element c else elem_at h b)"
  by (simp add: elem_at_def)

lemma walk_end_chain:
  "chain h (Some p) (as @ [a]) None \<Longrightarrow> walk_end h p = Some a"
proof (induction as arbitrary: p)
  case Nil
  then show ?case by (subst walk_end.simps) (auto simp: get_next_def split: option.splits)
next
  case (Cons b as)
  then obtain c where c: "p = b" "h b = Some c" "chain h (nextp c) (as @ [a]) None" by (auto split: option.splits)
  then obtain q where "nextp c = Some q" by (cases as) auto
  with c Cons.IH [of q] show ?case by (subst walk_end.simps) (simp add: get_next_def)
qed

lemma walk_before_chain:
  "chain h (Some p) (as @ [a]) q \<Longrightarrow> q \<notin> Some ` set (as @ [a]) \<Longrightarrow> walk_before h q p = Some a"
proof (induction as arbitrary: p)
  case Nil
  then show ?case by (subst walk_before.simps) (auto simp: get_next_def split: option.splits)
next
  case (Cons b as)
  then obtain c where c: "p = b" "h b = Some c" "chain h (nextp c) (as @ [a]) q" by (auto split: option.splits)
  then obtain r where r: "nextp c = Some r" "r \<in> set (as @ [a])" by (cases as) auto
  with Cons.prems(2) have "nextp c \<noteq> q" by auto
  with c r Cons.IH [of r] Cons.prems(2) show ?case by (subst walk_before.simps) (auto simp: get_next_def)
qed

lemma elements_from_chain: "chain h p as None \<Longrightarrow> elements_from h p = Some (map (elem_at h) as)"
proof (induction as arbitrary: p)
  case Nil
  then show ?case by (subst elements_from.simps) simp
next
  case (Cons a as)
  then show ?case by (subst elements_from.simps) (auto simp: elem_at_def split: option.splits)
qed

lemma list_atD:
  assumes "list_at h hdr as"
  shows "\<exists>c. h hdr = Some c \<and> chain h (nextp c) as None" "distinct (hdr # as)" "\<And>a. a \<in> set (hdr # as) \<Longrightarrow> h a \<noteq> None"
  using assms chain_live [of h "Some hdr" "hdr # as" None] unfolding list_at_def by (auto split: option.splits)

end
