(* ===== verification/Contracts.thy ===== *)
theory Contracts
  imports Main
begin

text \<open>
  The contracts that components of the repository promise to each other and to their callers,
  as locales: first-in first-out queues, last-in first-out stacks, sets of keys. The theories of the
  components interpret them on the C code's operations.
\<close>

section \<open>Queues\<close>

text \<open>Taking \<open>k\<close> elements, and adding a list of elements one by one.\<close>

primrec drain :: "('s \<Rightarrow> ('a \<times> 's) option) \<Rightarrow> nat \<Rightarrow> 's \<Rightarrow> ('a list \<times> 's) option" where
  "drain get 0 s = Some ([], s)"
| "drain get (Suc k) s =
     (case get s of None \<Rightarrow> None
      | Some (x, s') \<Rightarrow> map_option (\<lambda>(xs, t). (x # xs, t)) (drain get k s'))"

primrec fill :: "('a \<Rightarrow> 's \<Rightarrow> 's option) \<Rightarrow> 'a list \<Rightarrow> 's \<Rightarrow> 's option" where
  "fill put [] s = Some s"
| "fill put (x # xs) s = (case put x s of None \<Rightarrow> None | Some s' \<Rightarrow> fill put xs s')"

text \<open>
  A run is a sequence of insertions and removals; \<open>run\<close> collects what the removals return.
  \<open>list_put\<close>, \<open>list_get\<close> and \<open>list_push\<close> are the abstract queue and stack on lists.
\<close>

datatype 'a container_op = Add 'a | Take

fun run :: "('a \<Rightarrow> 's \<Rightarrow> 's option) \<Rightarrow> ('s \<Rightarrow> ('a \<times> 's) option) \<Rightarrow> 'a container_op list \<Rightarrow> 's \<Rightarrow>
    ('a list \<times> 's) option" where
  "run put get [] s = Some ([], s)"
| "run put get (Add x # ops) s = (case put x s of None \<Rightarrow> None | Some s' \<Rightarrow> run put get ops s')"
| "run put get (Take # ops) s =
     (case get s of None \<Rightarrow> None
      | Some (x, s') \<Rightarrow> map_option (\<lambda>(xs, t). (x # xs, t)) (run put get ops s'))"

definition list_put :: "'a \<Rightarrow> 'a list \<Rightarrow> 'a list option" where
  "list_put x xs = Some (xs @ [x])"

definition list_push :: "'a \<Rightarrow> 'a list \<Rightarrow> 'a list option" where
  "list_push x xs = Some (x # xs)"

fun list_get :: "'a list \<Rightarrow> ('a \<times> 'a list) option" where
  "list_get [] = None"
| "list_get (x # xs) = Some (x, xs)"

text \<open>A queue that answers with a fixed value when it is empty, and stays empty.\<close>

fun list_get_or :: "'a \<Rightarrow> 'a list \<Rightarrow> ('a \<times> 'a list) option" where
  "list_get_or d [] = Some (d, [])"
| "list_get_or d (x # xs) = Some (x, xs)"

text \<open>Every insertion of a run finds room.\<close>

fun room_for :: "('a \<Rightarrow> 's \<Rightarrow> bool) \<Rightarrow> ('a \<Rightarrow> 's \<Rightarrow> 's option) \<Rightarrow> ('s \<Rightarrow> ('a \<times> 's) option) \<Rightarrow>
    'a container_op list \<Rightarrow> 's \<Rightarrow> bool" where
  "room_for can put get [] s = True"
| "room_for can put get (Add x # ops) s =
     (can x s \<and> (case put x s of None \<Rightarrow> True | Some s' \<Rightarrow> room_for can put get ops s'))"
| "room_for can put get (Take # ops) s =
     (case get s of None \<Rightarrow> True | Some (x, s') \<Rightarrow> room_for can put get ops s')"

locale fifo =
  fixes wf :: "'s \<Rightarrow> bool"
    and contents :: "'s \<Rightarrow> 'a list"
    and can_put :: "'a \<Rightarrow> 's \<Rightarrow> bool"
    and put :: "'a \<Rightarrow> 's \<Rightarrow> 's option"
    and get :: "'s \<Rightarrow> ('a \<times> 's) option"
  assumes put_total: "wf s \<Longrightarrow> can_put x s \<Longrightarrow> put x s \<noteq> None"
    and put_contents: "wf s \<Longrightarrow> can_put x s \<Longrightarrow> put x s = Some s' \<Longrightarrow> wf s' \<and> contents s' = contents s @ [x]"
    and get_head: "wf s \<Longrightarrow> contents s = x # xs \<Longrightarrow> \<exists>s'. get s = Some (x, s') \<and> wf s' \<and> contents s' = xs"
begin

lemma drain_prefix:
  assumes "wf s" "contents s = xs @ ys"
  shows "\<exists>s'. drain get (length xs) s = Some (xs, s') \<and> wf s' \<and> contents s' = ys"
  using assms
proof (induction xs arbitrary: s)
  case (Cons x xs)
  then obtain s' where "get s = Some (x, s')" "wf s'" "contents s' = xs @ ys"
    using get_head [of s x "xs @ ys"] by auto
  with Cons.IH [of s'] show ?case by auto
qed simp

lemma drain_all:
  assumes "wf s"
  shows "\<exists>s'. drain get (length (contents s)) s = Some (contents s, s') \<and> wf s' \<and> contents s' = []"
  using drain_prefix [OF assms, of "contents s" "[]"] by simp

lemma put_get_empty:
  assumes "wf s" "contents s = []" "can_put x s"
  shows "\<exists>s' s''. put x s = Some s' \<and> get s' = Some (x, s'') \<and> wf s'' \<and> contents s'' = []"
proof -
  obtain s' where "put x s = Some s'" using put_total [OF assms(1,3)] by auto
  moreover from put_contents [OF assms(1,3) this] assms(2) have "wf s'" "contents s' = [x]" by auto
  moreover from get_head [OF this] obtain s'' where "get s' = Some (x, s'')" "wf s''" "contents s'' = []" by blast
  ultimately show ?thesis by blast
qed

text \<open>Any run that the abstract queue can do is done by the implementation with the same results.\<close>

lemma run_refines:
  assumes "wf s" "room_for can_put put get ops s" "run list_put list_get ops (contents s) = Some (out, xs)"
  shows "\<exists>s'. run put get ops s = Some (out, s') \<and> wf s' \<and> contents s' = xs"
  using assms
proof (induction ops arbitrary: s out)
  case (Cons p ops)
  show ?case
  proof (cases p)
    case (Add x)
    with Cons.prems have can: "can_put x s" by simp
    obtain s1 where s1: "put x s = Some s1" using put_total [OF Cons.prems(1) can] by auto
    with put_contents [OF Cons.prems(1) can s1] Cons.prems Add show ?thesis
      by (auto simp: list_put_def intro!: Cons.IH)
  next
    case Take
    with Cons.prems(3) obtain x rest where split: "contents s = x # rest" by (cases "contents s") auto
    obtain s1 where s1: "get s = Some (x, s1)" "wf s1" "contents s1 = rest" using get_head [OF Cons.prems(1) split] by blast
    obtain out1 where out1: "run list_put list_get ops rest = Some (out1, xs)" "out = x # out1"
      using Cons.prems(3) Take split by auto
    obtain s' where "run put get ops s1 = Some (out1, s')" "wf s'" "contents s' = xs"
      using Cons.IH [OF s1(2) _ out1(1) [folded s1(3)]] Cons.prems(2) Take s1 by auto
    with s1 out1 Take show ?thesis by auto
  qed
qed simp

end

text \<open>A queue whose users can see that it is empty.\<close>

locale fifo_checked = fifo +
  assumes get_empty: "wf s \<Longrightarrow> contents s = [] \<Longrightarrow> get s = None"
begin

text \<open>Such a queue does exactly the runs of the abstract queue.\<close>

lemma run_exact:
  assumes "wf s" "room_for can_put put get ops s"
  shows "map_option (\<lambda>(out, s'). (out, contents s')) (run put get ops s) = run list_put list_get ops (contents s)"
  using assms
proof (induction ops arbitrary: s)
  case (Cons p ops)
  show ?case
  proof (cases p)
    case (Add x)
    with Cons.prems have can: "can_put x s" by simp
    obtain s1 where s1: "put x s = Some s1" using put_total [OF Cons.prems(1) can] by auto
    with put_contents [OF Cons.prems(1) can s1] Cons.prems Cons.IH [of s1] Add show ?thesis
      by (simp add: list_put_def)
  next
    case Take
    show ?thesis
    proof (cases "contents s")
      case Nil
      with get_empty [OF Cons.prems(1)] Take show ?thesis by simp
    next
      case (Cons x rest)
      obtain s1 where s1: "get s = Some (x, s1)" "wf s1" "contents s1 = rest" using get_head [OF Cons.prems(1) Cons] by blast
      have "run list_put list_get ops rest = map_option (\<lambda>(out, s'). (out, contents s')) (run put get ops s1)"
        using Cons.IH [OF s1(2)] Cons.prems(2) Take s1 by simp
      then show ?thesis using Take s1(1) Cons by (cases "run put get ops s1") auto
    qed
  qed
qed simp

end

text \<open>A queue that answers when it is empty does exactly the runs of the abstract queue with the same answer.\<close>

locale fifo_default = fifo +
  fixes dflt :: 'a
  assumes get_default: "wf s \<Longrightarrow> contents s = [] \<Longrightarrow> \<exists>s'. get s = Some (dflt, s') \<and> wf s' \<and> contents s' = []"
begin

lemma get_list:
  assumes "wf s"
  obtains x s' where "get s = Some (x, s')" "wf s'" "list_get_or dflt (contents s) = Some (x, contents s')"
proof (cases "contents s")
  case Nil
  then show ?thesis using get_default [OF assms] that by fastforce
next
  case (Cons x rest)
  then show ?thesis using get_head [OF assms Cons] that by fastforce
qed

lemma run_default:
  assumes "wf s" "room_for can_put put get ops s"
  shows "map_option (\<lambda>(out, s'). (out, contents s')) (run put get ops s) = run list_put (list_get_or dflt) ops (contents s)"
  using assms
proof (induction ops arbitrary: s)
  case (Cons p ops)
  show ?case
  proof (cases p)
    case (Add x)
    with Cons.prems have can: "can_put x s" by simp
    obtain s1 where s1: "put x s = Some s1" using put_total [OF Cons.prems(1) can] by auto
    with put_contents [OF Cons.prems(1) can s1] Cons.prems Cons.IH [of s1] Add show ?thesis
      by (simp add: list_put_def)
  next
    case Take
    obtain x s1 where s1: "get s = Some (x, s1)" "wf s1" "list_get_or dflt (contents s) = Some (x, contents s1)"
      using get_list [OF Cons.prems(1)] by blast
    have "run list_put (list_get_or dflt) ops (contents s1) = map_option (\<lambda>(out, s'). (out, contents s')) (run put get ops s1)"
      using Cons.IH [OF s1(2)] Cons.prems(2) Take s1 by simp
    then show ?thesis using Take s1 by (cases "run put get ops s1") auto
  qed
qed simp

end

text \<open>A queue of items that can each be in one place only: distinct items can be added in a row.\<close>

locale fifo_items = fifo_checked +
  assumes can_put_other: "wf s \<Longrightarrow> can_put x s \<Longrightarrow> can_put y s \<Longrightarrow> x \<noteq> y \<Longrightarrow> put x s = Some s' \<Longrightarrow> can_put y s'"
begin

lemma fill_all:
  assumes "wf s" "distinct xs" "\<forall>x \<in> set xs. can_put x s"
  shows "\<exists>s'. fill put xs s = Some s' \<and> wf s' \<and> contents s' = contents s @ xs"
  using assms
proof (induction xs arbitrary: s)
  case (Cons x xs)
  then obtain s1 where s1: "put x s = Some s1" using put_total by fastforce
  have "wf s1" "contents s1 = contents s @ [x]" using put_contents [OF _ _ s1] Cons.prems by auto
  moreover have "\<forall>y \<in> set xs. can_put y s1" using can_put_other [OF _ _ _ _ s1] Cons.prems by auto
  ultimately show ?case using Cons.IH [of s1] Cons.prems s1 by auto
qed simp

lemma fill_drain:
  assumes "wf s" "distinct xs" "\<forall>x \<in> set xs. can_put x s"
  shows "\<exists>s' s''. fill put xs s = Some s' \<and> drain get (length (contents s @ xs)) s' = Some (contents s @ xs, s'') \<and>
     wf s'' \<and> contents s'' = []"
proof -
  obtain s' where s': "fill put xs s = Some s'" "wf s'" "contents s' = contents s @ xs"
    using fill_all [OF assms] by blast
  with drain_all [OF s'(2)] show ?thesis by auto
qed

end

section \<open>Stacks\<close>

locale lifo =
  fixes wf :: "'s \<Rightarrow> bool"
    and contents :: "'s \<Rightarrow> 'a list"
    and can_push :: "'a \<Rightarrow> 's \<Rightarrow> bool"
    and push :: "'a \<Rightarrow> 's \<Rightarrow> 's option"
    and pop :: "'s \<Rightarrow> ('a \<times> 's) option"
  assumes push_total: "wf s \<Longrightarrow> can_push x s \<Longrightarrow> push x s \<noteq> None"
    and push_contents: "wf s \<Longrightarrow> can_push x s \<Longrightarrow> push x s = Some s' \<Longrightarrow> wf s' \<and> contents s' = x # contents s"
    and pop_head: "wf s \<Longrightarrow> contents s = x # xs \<Longrightarrow> \<exists>s'. pop s = Some (x, s') \<and> wf s' \<and> contents s' = xs"
begin

lemma push_pop:
  assumes "wf s" "can_push x s"
  shows "\<exists>s' s''. push x s = Some s' \<and> pop s' = Some (x, s'') \<and> wf s'' \<and> contents s'' = contents s"
proof -
  obtain s' where "push x s = Some s'" using push_total [OF assms] by auto
  moreover from this have "wf s'" "contents s' = x # contents s" using push_contents [OF assms] by auto
  moreover from pop_head [OF this] obtain s'' where "pop s' = Some (x, s'')" "wf s''" "contents s'' = contents s" by blast
  ultimately show ?thesis by blast
qed

lemma pop_all:
  assumes "wf s"
  shows "\<exists>s'. drain pop (length (contents s)) s = Some (contents s, s') \<and> wf s' \<and> contents s' = []"
  using assms
proof (induction "contents s" arbitrary: s)
  case (Cons x xs)
  then obtain s' where "pop s = Some (x, s')" "wf s'" "contents s' = xs" using pop_head [of s x xs] by metis
  with Cons.hyps(1) [of s'] Cons.hyps(2) [symmetric] show ?case by auto
qed simp

lemma stack_run_refines:
  assumes "wf s" "room_for can_push push pop ops s" "run list_push list_get ops (contents s) = Some (out, xs)"
  shows "\<exists>s'. run push pop ops s = Some (out, s') \<and> wf s' \<and> contents s' = xs"
  using assms
proof (induction ops arbitrary: s out)
  case (Cons p ops)
  show ?case
  proof (cases p)
    case (Add x)
    with Cons.prems have can: "can_push x s" by simp
    obtain s1 where s1: "push x s = Some s1" using push_total [OF Cons.prems(1) can] by auto
    with push_contents [OF Cons.prems(1) can s1] Cons.prems Add show ?thesis
      by (auto simp: list_push_def intro!: Cons.IH)
  next
    case Take
    with Cons.prems(3) obtain x rest where split: "contents s = x # rest" by (cases "contents s") auto
    obtain s1 where s1: "pop s = Some (x, s1)" "wf s1" "contents s1 = rest" using pop_head [OF Cons.prems(1) split] by blast
    obtain out1 where out1: "run list_push list_get ops rest = Some (out1, xs)" "out = x # out1"
      using Cons.prems(3) Take split by auto
    obtain s' where "run push pop ops s1 = Some (out1, s')" "wf s'" "contents s' = xs"
      using Cons.IH [OF s1(2) _ out1(1) [folded s1(3)]] Cons.prems(2) Take s1 by auto
    with s1 out1 Take show ?thesis by auto
  qed
qed simp

end

section \<open>Sets of keys\<close>

text \<open>A container of keys: what an insertion adds and what a search answers; and what a removal takes away.\<close>

locale key_set =
  fixes wf :: "'s \<Rightarrow> bool"
    and keys :: "'s \<Rightarrow> 'k set"
    and usable :: "'k \<Rightarrow> bool"
    and add :: "'k \<Rightarrow> 's \<Rightarrow> 's option"
    and has :: "'s \<Rightarrow> 'k \<Rightarrow> bool option"
  assumes add_key: "wf s \<Longrightarrow> usable k \<Longrightarrow> \<exists>s'. add k s = Some s' \<and> wf s' \<and> keys s' = insert k (keys s)"
    and has_key: "wf s \<Longrightarrow> usable k \<Longrightarrow> has s k = Some (k \<in> keys s)"
begin

lemma fill_keys:
  assumes "wf s" "\<forall>k \<in> set ks. usable k"
  shows "\<exists>s'. fill add ks s = Some s' \<and> wf s' \<and> keys s' = keys s \<union> set ks"
  using assms
proof (induction ks arbitrary: s)
  case (Cons k ks)
  then obtain s1 where "add k s = Some s1" "wf s1" "keys s1 = insert k (keys s)" using add_key by fastforce
  then show ?case using Cons.IH [of s1] Cons.prems(2) by auto
qed simp

end

locale key_set_del = key_set +
  fixes del :: "'s \<Rightarrow> 'k \<Rightarrow> 's option"
  assumes del_key: "wf s \<Longrightarrow> usable k \<Longrightarrow> \<exists>s'. del s k = Some s' \<and> wf s' \<and> keys s' = keys s - {k}"
begin

text \<open>A run of insertions (\<open>True\<close>) and removals (\<open>False\<close>) ends with the keys of the same run on a set.\<close>

lemma run_keys:
  assumes "wf s" "\<forall>(b, k) \<in> set ops. usable k"
  shows "\<exists>s'. fill (\<lambda>(b, k) s. if b then add k s else del s k) ops s = Some s' \<and> wf s' \<and>
    keys s' = fold (\<lambda>(b, k) S. if b then insert k S else S - {k}) ops (keys s)"
  using assms
proof (induction ops arbitrary: s)
  case (Cons op ops)
  obtain b k where op: "op = (b, k)" by (cases op)
  then have k: "usable k" using Cons.prems(2) by simp
  obtain s1 where "(if b then add k s else del s k) = Some s1" "wf s1" "keys s1 = (if b then insert k (keys s) else keys s - {k})"
    using add_key [OF Cons.prems(1) k] del_key [OF Cons.prems(1) k] by (cases b) auto
  then show ?case using Cons.IH [of s1] Cons.prems(2) op by auto
qed simp

end

end
