(* ===== verification/Search_Trees.thy ===== *)
theory Search_Trees
  imports C_Memory Contracts
begin

text \<open>
  The binary search tree (\<^verbatim>\<open>BinarySearchTree.c\<close>) and the balanced tree (\<^verbatim>\<open>BinaryBalanceTree.c\<close>).

  A tree is reached only through its root pointer, so that it is a value here: a node with its fields or
  \<^verbatim>\<open>NULL\<close>. A function that returns the new root returns the new tree; freed nodes are gone. A pointer to a
  node is the subtree below it. The result \<open>None\<close> is the use of a null pointer. Allocation succeeds.
\<close>

section \<open>The search tree\<close>

datatype BST = Null_BST | BST int BST BST

fun MakeEmpty :: "BST \<Rightarrow> BST" where
  "MakeEmpty root = Null_BST"

fun Insert_BST :: "int \<Rightarrow> BST \<Rightarrow> BST" where
  "Insert_BST e Null_BST = BST e Null_BST Null_BST"
| "Insert_BST e (BST x l r) =
     (if x < e then BST x l (Insert_BST e r) else if x > e then BST x (Insert_BST e l) r else BST x l r)"

fun Find_BST :: "BST \<Rightarrow> int \<Rightarrow> BST" where
  "Find_BST Null_BST e = Null_BST"
| "Find_BST (BST x l r) e = (if e < x then Find_BST l e else if e > x then Find_BST r e else BST x l r)"

fun FindMax_BST :: "BST \<Rightarrow> BST" where
  "FindMax_BST Null_BST = Null_BST"
| "FindMax_BST (BST x l r) = (if r = Null_BST then BST x l r else FindMax_BST r)"

fun FindMin_BST :: "BST \<Rightarrow> BST" where
  "FindMin_BST Null_BST = Null_BST"
| "FindMin_BST (BST x l r) = (if l = Null_BST then BST x l r else FindMin_BST l)"

definition element_of :: "BST \<Rightarrow> int option" where
  "element_of t = (case t of Null_BST \<Rightarrow> None | BST x l r \<Rightarrow> Some x)"

text \<open>With two children the element of the successor is copied, and the old element is searched below.\<close>

fun Delete_BST :: "BST \<Rightarrow> int \<Rightarrow> BST option" where
  "Delete_BST Null_BST e = Some Null_BST"
| "Delete_BST (BST x l r) e =
     (if e < x then do { l' \<leftarrow> Delete_BST l e; Some (BST x l' r) }
      else if e > x then do { r' \<leftarrow> Delete_BST r e; Some (BST x l r') }
      else if l \<noteq> Null_BST \<and> r \<noteq> Null_BST
      then do { m \<leftarrow> element_of (FindMin_BST r); r' \<leftarrow> Delete_BST r e; Some (BST m l r') }
      else Some (if l = Null_BST then r else l))"

text \<open>The numbers printed by the traversal.\<close>

fun Inorder_BST :: "BST \<Rightarrow> int list" where
  "Inorder_BST Null_BST = []"
| "Inorder_BST (BST x l r) = Inorder_BST l @ [x] @ Inorder_BST r"

section \<open>The balanced tree\<close>

text \<open>The fields of a node are its value, its height and the two subtrees.\<close>

datatype Node = Null_Node | Node int int Node Node

definition CreateNode :: "int \<Rightarrow> Node" where
  "CreateNode v = Node v 1 Null_Node Null_Node"

fun Find_AVL :: "Node \<Rightarrow> int \<Rightarrow> int \<Rightarrow> Node \<times> int" where
  "Find_AVL Null_Node target cnt = (Null_Node, cnt)"
| "Find_AVL (Node v h l r) target cnt =
     (if v > target then Find_AVL l target (cnt + 1)
      else if v < target then Find_AVL r target (cnt + 1)
      else (Node v h l r, cnt))"

definition Max_int :: "int \<Rightarrow> int \<Rightarrow> int" where
  "Max_int a b = (if a > b then a else b)"

fun Height :: "Node \<Rightarrow> int" where
  "Height Null_Node = 0"
| "Height (Node v h l r) = h"

fun GetBalance :: "Node \<Rightarrow> int" where
  "GetBalance Null_Node = 0"
| "GetBalance (Node v h l r) = Height l - Height r"

fun FindMin_AVL :: "Node \<Rightarrow> Node" where
  "FindMin_AVL Null_Node = Null_Node"
| "FindMin_AVL (Node v h l r) = (if l = Null_Node then Node v h l r else FindMin_AVL r)"

text \<open>A node after its height has been updated.\<close>

definition update_height :: "int \<Rightarrow> Node \<Rightarrow> Node \<Rightarrow> Node" where
  "update_height v l r = Node v (Max_int (Height l) (Height r) + 1) l r"

fun LeftRotate :: "Node \<Rightarrow> Node option" where
  "LeftRotate (Node v h l (Node v' h' T2 r')) = Some (update_height v' (update_height v l T2) r')"
| "LeftRotate _ = None"

fun RightRotate :: "Node \<Rightarrow> Node option" where
  "RightRotate (Node v h (Node v' h' l' T2) r) = Some (update_height v' l' (update_height v T2 r))"
| "RightRotate _ = None"

text \<open>The second half of an insertion: the height, the balance and the rotations.\<close>

fun insert_balance :: "Node \<Rightarrow> Node option" where
  "insert_balance Null_Node = None"
| "insert_balance (Node v h l r) =
     (let h = 1 + Max_int (Height l) (Height r); balance = GetBalance (Node v h l r)
      in if balance > 1 \<and> GetBalance l > 0 then RightRotate (Node v h l r)
         else if balance < - 1 \<and> GetBalance r < 0 then LeftRotate (Node v h l r)
         else if balance > 1 \<and> GetBalance l < 0 then do { l' \<leftarrow> LeftRotate l; RightRotate (Node v h l' r) }
         else if balance < - 1 \<and> GetBalance r > 0 then do { r' \<leftarrow> RightRotate r; LeftRotate (Node v h l r') }
         else Some (Node v h l r))"

fun InsertNode :: "Node \<Rightarrow> int \<Rightarrow> Node option" where
  "InsertNode Null_Node val = Some (CreateNode val)"
| "InsertNode (Node v h l r) val =
     (if val < v then do { l' \<leftarrow> InsertNode l val; insert_balance (Node v h l' r) }
      else if val > v then do { r' \<leftarrow> InsertNode r val; insert_balance (Node v h l r') }
      else Some (Node v h l r))"

definition val_of :: "Node \<Rightarrow> int option" where
  "val_of t = (case t of Null_Node \<Rightarrow> None | Node v h l r \<Rightarrow> Some v)"

text \<open>The second half of a deletion; heights are not updated there.\<close>

fun delete_balance :: "Node \<Rightarrow> Node option" where
  "delete_balance Null_Node = Some Null_Node"
| "delete_balance (Node v h l r) =
     (let balance = GetBalance (Node v h l r)
      in if balance > 1 \<and> GetBalance l \<ge> 0 then RightRotate (Node v h l r)
         else if balance > 1 \<and> GetBalance l < 0 then do { l' \<leftarrow> LeftRotate l; RightRotate (Node v h l' r) }
         else if balance < - 1 \<and> GetBalance r \<le> 0 then LeftRotate (Node v h l r)
         else if balance < - 1 \<and> GetBalance r > 0 then do { r' \<leftarrow> LeftRotate r; LeftRotate (Node v h l r') }
         else Some (Node v h l r))"

fun DeleteNode :: "Node \<Rightarrow> int \<Rightarrow> Node option" where
  "DeleteNode Null_Node val = Some Null_Node"
| "DeleteNode (Node v h l r) val =
     do {
       root \<leftarrow> (if v > val then do { l' \<leftarrow> DeleteNode l val; Some (Node v h l' r) }
                else if v < val then do { r' \<leftarrow> DeleteNode r val; Some (Node v h l r') }
                else if l \<noteq> Null_Node \<and> r \<noteq> Null_Node
                then do { m \<leftarrow> val_of (FindMin_AVL r); r' \<leftarrow> DeleteNode r val; Some (Node m h l r') }
                else Some (if r = Null_Node then l else r));
       delete_balance root
     }"

fun PreOrder_AVL :: "Node \<Rightarrow> int list" where
  "PreOrder_AVL Null_Node = []"
| "PreOrder_AVL (Node v h l r) = [v] @ PreOrder_AVL l @ PreOrder_AVL r"

fun MidOrder :: "Node \<Rightarrow> int list" where
  "MidOrder Null_Node = []"
| "MidOrder (Node v h l r) = MidOrder l @ [v] @ MidOrder r"

section \<open>Ordered lists of keys\<close>

fun ins :: "int \<Rightarrow> int list \<Rightarrow> int list" where
  "ins k [] = [k]"
| "ins k (x # xs) = (if k < x then k # x # xs else if k = x then x # xs else x # ins k xs)"

lemma set_ins [simp]: "set (ins k xs) = insert k (set xs)"
  by (induction xs) auto

lemma sorted_ins: "sorted_wrt (<) xs \<Longrightarrow> sorted_wrt (<) (ins k xs)"
  by (induction xs) auto

lemma ins_append:
  assumes "sorted_wrt (<) (xs @ [x] @ ys)"
  shows "k < x \<Longrightarrow> ins k (xs @ [x] @ ys) = ins k xs @ [x] @ ys"
    "x < k \<Longrightarrow> ins k (xs @ [x] @ ys) = xs @ [x] @ ins k ys" "ins x (xs @ [x] @ ys) = xs @ [x] @ ys"
  using assms by (induction xs) auto

lemma ordered_key:
  assumes "sorted_wrt (<) (xs @ [x] @ ys)"
  shows "sorted_wrt (<) xs" "sorted_wrt (<) ys" "(k :: int) < x \<Longrightarrow> k \<notin> set ys" "x < k \<Longrightarrow> k \<notin> set xs"
  using assms by (auto simp: sorted_wrt_append)

section \<open>The search tree is a set of keys\<close>

lemma Insert_BST_inorder: "sorted_wrt (<) (Inorder_BST t) \<Longrightarrow> Inorder_BST (Insert_BST e t) = ins e (Inorder_BST t)"
proof (induction t)
  case (BST x l r)
  note s = BST.prems [unfolded Inorder_BST.simps]
  show ?case using BST.IH ordered_key(1,2) [OF s] ins_append(1,2) [OF s, of e] ins_append(3) [OF s] by (cases e x rule: linorder_cases) auto
qed simp

lemma Find_BST_key: "sorted_wrt (<) (Inorder_BST t) \<Longrightarrow> element_of (Find_BST t e) = (if e \<in> set (Inorder_BST t) then Some e else None)"
proof (induction t)
  case (BST x l r)
  note s = BST.prems [unfolded Inorder_BST.simps]
  show ?case
    using BST.IH ordered_key(1,2) [OF s] ordered_key(3,4) [OF s, of e]
    by (cases e x rule: linorder_cases) (auto simp: element_of_def)
qed (simp add: element_of_def)

definition BST_ordered :: "BST \<Rightarrow> bool" where
  "BST_ordered t \<longleftrightarrow> sorted_wrt (<) (Inorder_BST t)"

interpretation bst: key_set BST_ordered "\<lambda>t. set (Inorder_BST t)" "\<lambda>_. True" "\<lambda>k t. Some (Insert_BST k t)"
    "\<lambda>t k. Some (Find_BST t k \<noteq> Null_BST)"
proof
  fix t k
  assume t: "BST_ordered t"
  then show "\<exists>t'. Some (Insert_BST k t) = Some t' \<and> BST_ordered t' \<and> set (Inorder_BST t') = insert k (set (Inorder_BST t))"
    by (simp add: BST_ordered_def Insert_BST_inorder sorted_ins)
  show "Some (Find_BST t k \<noteq> Null_BST) = Some (k \<in> set (Inorder_BST t))"
    using Find_BST_key [of t k] t by (auto simp: BST_ordered_def element_of_def split: BST.splits if_splits)
qed

lemma Inorder_BST_Nil [simp]: "Inorder_BST t = [] \<longleftrightarrow> t = Null_BST"
  by (cases t) simp_all

lemma FindMin_BST_first: "t \<noteq> Null_BST \<Longrightarrow> element_of (FindMin_BST t) = Some (hd (Inorder_BST t))"
  by (induction t) (auto simp: element_of_def)

lemma FindMax_BST_last: "t \<noteq> Null_BST \<Longrightarrow> element_of (FindMax_BST t) = Some (last (Inorder_BST t))"
  by (induction t) (auto simp: element_of_def)

text \<open>
  Deletion removes a key below which there is at most one subtree. A key with two subtrees is overwritten by its
  successor, which stays where it was: the key is gone, and its successor is there twice.
\<close>

lemma Delete_BST_absent:
  "sorted_wrt (<) (Inorder_BST t) \<Longrightarrow> e \<notin> set (Inorder_BST t) \<Longrightarrow> Delete_BST t e = Some t"
proof (induction t)
  case (BST x l r)
  note s = BST.prems(1) [unfolded Inorder_BST.simps]
  show ?case using BST ordered_key(1,2) [OF s] by (cases e x rule: linorder_cases) auto
qed simp

lemma Delete_BST_leaf:
  assumes "sorted_wrt (<) (Inorder_BST t)" "Find_BST t e = BST e l r" "l = Null_BST \<or> r = Null_BST"
  shows "\<exists>t'. Delete_BST t e = Some t' \<and> Inorder_BST t' = remove1 e (Inorder_BST t)"
  using assms(1,2)
proof (induction t)
  case (BST x l' r')
  note s = BST.prems(1) [unfolded Inorder_BST.simps]
  have len: "e \<in> set (Inorder_BST t) \<longleftrightarrow> Find_BST t e \<noteq> Null_BST" if "sorted_wrt (<) (Inorder_BST t)" for t
    using bst.has_key [of t e] that by (simp add: BST_ordered_def)
  show ?case
  proof (cases e x rule: linorder_cases)
    case less
    then have f: "Find_BST l' e = BST e l r" using BST.prems(2) by simp
    then have "e \<in> set (Inorder_BST l')" using len [OF ordered_key(1) [OF s]] by simp
    then show ?thesis using BST.IH(1) [OF ordered_key(1) [OF s] f] less by (auto simp: remove1_append)
  next
    case equal
    then have "l' = l" "r' = r" using BST.prems(2) by simp_all
    moreover have "e \<notin> set (Inorder_BST l')" using s equal by (auto simp: sorted_wrt_append)
    ultimately show ?thesis using assms(3) equal by (auto simp: remove1_append)
  next
    case greater
    then have f: "Find_BST r' e = BST e l r" using BST.prems(2) by simp
    have "e \<notin> set (Inorder_BST l')" using ordered_key(4) [OF s greater] .
    then show ?thesis using BST.IH(2) [OF ordered_key(2) [OF s] f] greater by (auto simp: remove1_append)
  qed
qed simp

lemma Delete_BST_duplicates:
  assumes "sorted_wrt (<) (Inorder_BST (BST x l r))" "l \<noteq> Null_BST" "r \<noteq> Null_BST"
  shows "\<exists>t'. Delete_BST (BST x l r) x = Some t' \<and> Inorder_BST t' = Inorder_BST l @ hd (Inorder_BST r) # Inorder_BST r \<and>
    \<not> distinct (Inorder_BST t')"
proof -
  note s = assms(1) [unfolded Inorder_BST.simps]
  have "x \<notin> set (Inorder_BST r)" using s by (auto simp: sorted_wrt_append)
  then have "Delete_BST r x = Some r" using Delete_BST_absent ordered_key(2) [OF s] by blast
  then show ?thesis using assms(2,3) FindMin_BST_first [OF assms(3)] by (cases "Inorder_BST r") auto
qed

section \<open>The balanced tree stays balanced\<close>

fun ht :: "Node \<Rightarrow> int" where
  "ht Null_Node = 0"
| "ht (Node v h l r) = max (ht l) (ht r) + 1"

fun avl :: "Node \<Rightarrow> bool" where
  "avl Null_Node = True"
| "avl (Node v h l r) = (\<bar>ht l - ht r\<bar> \<le> 1 \<and> h = max (ht l) (ht r) + 1 \<and> avl l \<and> avl r)"

lemma Height_ht [simp]: "avl t \<Longrightarrow> Height t = ht t"
  by (cases t) simp_all

lemma ht_nonneg: "0 \<le> ht t"
  by (induction t) simp_all

lemma ht_0 [simp]: "ht t = 0 \<longleftrightarrow> t = Null_Node"
proof (cases t)
  case (Node v h l r)
  then show ?thesis using ht_nonneg [of l] ht_nonneg [of r] by (auto simp: max_def)
qed simp

lemma update_height_avl:
  assumes "avl l" "avl r" "\<bar>ht l - ht r\<bar> \<le> 1"
  shows "avl (update_height v l r)" "ht (update_height v l r) = max (ht l) (ht r) + 1" "GetBalance (update_height v l r) = ht l - ht r"
  using assms by (auto simp: update_height_def Max_int_def max_def)

lemma update_height_order [simp]: "MidOrder (update_height v l r) = MidOrder l @ [v] @ MidOrder r"
  by (simp add: update_height_def)

lemma insert_balance_even:
  assumes "avl l" "avl r" "\<bar>ht l - ht r\<bar> \<le> 1"
  shows "insert_balance (Node v h l r) = Some (update_height v l r)"
proof -
  have "\<not> ht l - ht r > 1" "\<not> ht l - ht r < - 1" using assms(3) by auto
  then show ?thesis using assms(1,2) by (simp add: Let_def update_height_def)
qed

text \<open>
  One step of rebalancing: a subtree that may have grown by one and is not evenly balanced then.
\<close>

lemma insert_balance_left:
  assumes "avl l" "avl l'" "avl r" "\<bar>ht l - ht r\<bar> \<le> 1" "ht l' = ht l \<or> ht l' = ht l + 1 \<and> (l = Null_Node \<or> GetBalance l' \<noteq> 0)"
  shows "\<exists>t. insert_balance (Node v h l' r) = Some t \<and> avl t \<and> MidOrder t = MidOrder l' @ [v] @ MidOrder r \<and>
    (ht t = max (ht l) (ht r) + 1 \<or> ht t = max (ht l) (ht r) + 2 \<and> GetBalance t \<noteq> 0)"
proof (cases "ht l' = ht r + 2")
  case False
  then have even: "\<bar>ht l' - ht r\<bar> \<le> 1" using assms(4,5) by auto
  note u = update_height_avl [OF assms(2,3) even, of v]
  have "ht (update_height v l' r) = max (ht l) (ht r) + 1 \<or>
      ht (update_height v l' r) = max (ht l) (ht r) + 2 \<and> GetBalance (update_height v l' r) \<noteq> 0"
    using u(2,3) assms(4,5) by auto
  then show ?thesis using insert_balance_even [OF assms(2,3) even, of v h] u(1) by simp
next
  case True
  then have g: "ht l' = ht l + 1" "ht l = ht r + 1" using assms(4,5) by auto
  then have "l \<noteq> Null_Node" using ht_nonneg [of r] by auto
  then have b: "GetBalance l' \<noteq> 0" using assms(5) g by auto
  obtain v1 h1 a c where l': "l' = Node v1 h1 a c" using g ht_nonneg [of l] by (cases l') auto
  have a: "avl a" "avl c" "\<bar>ht a - ht c\<bar> \<le> 1" "max (ht a) (ht c) = ht r + 1" "h1 = ht r + 2" using assms(2) True l' by auto
  show ?thesis
  proof (cases "ht a > ht c")
    case True
    then have "ht a = ht r + 1" "ht c = ht r" using a by auto
    then show ?thesis using a l' assms(3) g update_height_avl [of c r v] update_height_avl [of a "update_height v c r" v1]
      by (auto simp: Max_int_def max_def Let_def)
  next
    case False
    then have c: "ht c = ht r + 1" "ht a = ht r" using a b l' by auto
    then obtain v2 h2 d e where ce: "c = Node v2 h2 d e" using ht_nonneg [of r] by (cases c) auto
    then have d: "avl d" "avl e" "\<bar>ht d - ht e\<bar> \<le> 1" "max (ht d) (ht e) = ht r" using a(2) c by auto
    have near: "\<bar>ht a - ht d\<bar> \<le> 1" "\<bar>ht e - ht r\<bar> \<le> 1" "ht d \<le> ht r" "ht e \<le> ht r" using d(3,4) c(2) by (auto simp: max_def split: if_splits)
    have u: "avl (update_height v1 a d)" "ht (update_height v1 a d) = ht r + 1" "avl (update_height v e r)" "ht (update_height v e r) = ht r + 1"
      using update_height_avl [OF a(1) d(1), of v1] update_height_avl [OF d(2) assms(3), of v] near c(2) by auto
    then have "avl (update_height v2 (update_height v1 a d) (update_height v e r))"
        "ht (update_height v2 (update_height v1 a d) (update_height v e r)) = ht r + 2"
      using update_height_avl [of "update_height v1 a d" "update_height v e r" v2] by auto
    moreover have "insert_balance (Node v h l' r) = Some (update_height v2 (update_height v1 a d) (update_height v e r))"
      using l' ce c a assms(3) True by (simp add: Let_def update_height_def)
    ultimately show ?thesis using l' ce g by auto
  qed
qed

text \<open>The other side is the mirror image.\<close>

fun flip :: "Node \<Rightarrow> Node" where
  "flip Null_Node = Null_Node"
| "flip (Node v h l r) = Node v h (flip r) (flip l)"

lemma flip_flip [simp]: "flip (flip t) = t"
  by (induction t) simp_all

lemma flip_ht [simp]: "ht (flip t) = ht t"
  by (induction t) (simp_all add: max.commute)

lemma flip_avl [simp]: "avl (flip t) = avl t"
  by (induction t) (auto simp: max.commute)

lemma flip_Height [simp]: "Height (flip t) = Height t"
  by (cases t) simp_all

lemma flip_facts [simp]: "GetBalance (flip t) = - GetBalance t" "flip t = Null_Node \<longleftrightarrow> t = Null_Node"
  by (cases t; simp)+

lemma flip_order [simp]: "MidOrder (flip t) = rev (MidOrder t)"
  by (induction t) simp_all

lemma flip_update [simp]: "flip (update_height v l r) = update_height v (flip r) (flip l)"
  by (auto simp: update_height_def Max_int_def)

lemma flip_rotate: "RightRotate (flip t) = map_option flip (LeftRotate t)" "LeftRotate (flip t) = map_option flip (RightRotate t)"
  by (induction t rule: LeftRotate.induct; simp) (induction t rule: RightRotate.induct; simp)

lemma flip_balance: "insert_balance (Node v h (flip r) (flip l)) = map_option flip (insert_balance (Node v h l r))"
proof -
  have m: "Max_int (Height r) (Height l) = Max_int (Height l) (Height r)" by (simp add: Max_int_def)
  have rot: "RightRotate (Node v h (flip r) (flip l)) = map_option flip (LeftRotate (Node v h l r))"
    "LeftRotate (Node v h (flip r) (flip l)) = map_option flip (RightRotate (Node v h l r))" for h l r
    using flip_rotate [of "Node v h l r"] by simp_all
  show ?thesis
    by (cases "LeftRotate l"; cases "RightRotate r") (simp_all add: Let_def m rot flip_rotate)
qed

declare insert_balance.simps [simp del]

lemma insert_balance_right:
  assumes "avl r" "avl r'" "avl l" "\<bar>ht l - ht r\<bar> \<le> 1" "ht r' = ht r \<or> ht r' = ht r + 1 \<and> (r = Null_Node \<or> GetBalance r' \<noteq> 0)"
  shows "\<exists>t. insert_balance (Node v h l r') = Some t \<and> avl t \<and> MidOrder t = MidOrder l @ [v] @ MidOrder r' \<and>
    (ht t = max (ht l) (ht r) + 1 \<or> ht t = max (ht l) (ht r) + 2 \<and> GetBalance t \<noteq> 0)"
proof -
  obtain t where "insert_balance (Node v h (flip r') (flip l)) = Some t" "avl t" "MidOrder t = rev (MidOrder r') @ [v] @ rev (MidOrder l)"
      "ht t = max (ht r) (ht l) + 1 \<or> ht t = max (ht r) (ht l) + 2 \<and> GetBalance t \<noteq> 0"
    using insert_balance_left [of "flip r" "flip r'" "flip l" v h] assms by (auto simp: abs_minus_commute)
  then have "insert_balance (Node v h l r') = Some (flip t)" "avl (flip t)" "MidOrder (flip t) = MidOrder l @ [v] @ MidOrder r'"
      "ht (flip t) = max (ht l) (ht r) + 1 \<or> ht (flip t) = max (ht l) (ht r) + 2 \<and> GetBalance (flip t) \<noteq> 0"
    using flip_balance [of v h r' l] by (auto simp: max.commute)
  then show ?thesis by blast
qed

lemma InsertNode_avl:
  assumes "avl t" "sorted_wrt (<) (MidOrder t)"
  shows "\<exists>t'. InsertNode t val = Some t' \<and> avl t' \<and> MidOrder t' = ins val (MidOrder t) \<and>
    (ht t' = ht t \<or> ht t' = ht t + 1 \<and> (t = Null_Node \<or> GetBalance t' \<noteq> 0))"
  using assms
proof (induction t)
  case Null_Node
  then show ?case by (simp add: CreateNode_def)
next
  case (Node v h l r)
  note s = Node.prems(2) [unfolded MidOrder.simps]
  have t: "avl l" "avl r" "\<bar>ht l - ht r\<bar> \<le> 1" using Node.prems(1) by auto
  show ?case
  proof (cases val v rule: linorder_cases)
    case less
    obtain l' where l': "InsertNode l val = Some l'" "avl l'" "MidOrder l' = ins val (MidOrder l)"
        "ht l' = ht l \<or> ht l' = ht l + 1 \<and> (l = Null_Node \<or> GetBalance l' \<noteq> 0)"
      using Node.IH(1) [OF t(1) ordered_key(1) [OF s]] by blast
    then show ?thesis using insert_balance_left [OF t(1) l'(2) t(2,3) l'(4), of v h] less ins_append(1) [OF s less] by auto
  next
    case equal
    then show ?thesis using Node.prems(1) ins_append(3) [OF s] by simp
  next
    case greater
    obtain r' where r': "InsertNode r val = Some r'" "avl r'" "MidOrder r' = ins val (MidOrder r)"
        "ht r' = ht r \<or> ht r' = ht r + 1 \<and> (r = Null_Node \<or> GetBalance r' \<noteq> 0)"
      using Node.IH(2) [OF t(2) ordered_key(2) [OF s]] by blast
    then show ?thesis using insert_balance_right [OF t(2) r'(2) t(1,3) r'(4), of v h] greater ins_append(2) [OF s greater] by auto
  qed
qed

text \<open>A search makes as many comparisons as the tree is high, and a balanced tree is not high.\<close>

lemma Find_AVL_key:
  assumes "sorted_wrt (<) (MidOrder t)"
  shows "val_of (fst (Find_AVL t k c)) = (if k \<in> set (MidOrder t) then Some k else None)" "snd (Find_AVL t k c) \<le> c + ht t"
proof -
  have "val_of (fst (Find_AVL t k c)) = (if k \<in> set (MidOrder t) then Some k else None) \<and> snd (Find_AVL t k c) \<le> c + ht t"
    using assms
  proof (induction t arbitrary: c)
    case (Node v h l r)
    note s = Node.prems [unfolded MidOrder.simps]
    show ?case
      using Node.IH(1) [OF ordered_key(1) [OF s], of "c + 1"] Node.IH(2) [OF ordered_key(2) [OF s], of "c + 1"] ordered_key(3,4) [OF s, of k]
        ht_nonneg [of l] ht_nonneg [of r]
      by (cases k v rule: linorder_cases) (auto simp: val_of_def)
  qed (simp add: val_of_def)
  then show "val_of (fst (Find_AVL t k c)) = (if k \<in> set (MidOrder t) then Some k else None)" "snd (Find_AVL t k c) \<le> c + ht t" by blast+
qed

lemma square_sum:
  fixes a b :: nat
  assumes "2 ^ Suc n \<le> a\<^sup>2" "2 ^ n \<le> b\<^sup>2"
  shows "2 ^ Suc (Suc n) \<le> (a + b)\<^sup>2"
proof -
  have "2 ^ n \<le> a * b"
  proof (cases "a \<le> b")
    case True
    then have "a\<^sup>2 \<le> a * b" by (simp add: power2_eq_square)
    then show ?thesis using assms(1) by simp
  next
    case False
    then have "b\<^sup>2 \<le> a * b" by (simp add: power2_eq_square)
    then show ?thesis using assms(2) by simp
  qed
  then show ?thesis using assms by (simp add: power2_sum)
qed

lemma avl_size:
  assumes "avl t"
  shows "2 ^ nat (ht t) \<le> (length (MidOrder t) + 1)\<^sup>2"
  using assms
proof (induction t)
  case (Node v h l r)
  let ?a = "length (MidOrder l) + 1" and ?b = "length (MidOrder r) + 1"
  have t: "2 ^ nat (ht l) \<le> ?a\<^sup>2" "2 ^ nat (ht r) \<le> ?b\<^sup>2" "\<bar>ht l - ht r\<bar> \<le> 1" using Node by auto
  have goal: "2 ^ nat (max (ht l) (ht r) + 1) \<le> (?a + ?b)\<^sup>2"
  proof (cases "ht l = ht r")
    case True
    show ?thesis
    proof (cases "nat (ht l)")
      case 0
      then show ?thesis using True ht_nonneg [of l] by (simp add: power2_eq_square)
    next
      case (Suc n)
      then have b: "2 ^ n \<le> ?b\<^sup>2" and n: "nat (max (ht l) (ht r) + 1) = Suc (Suc n)" using t(2) True by auto
      show ?thesis unfolding n using square_sum [OF _ b, of ?a] t(1) Suc by simp
    qed
  next
    case False
    then consider "ht l = ht r + 1" | "ht r = ht l + 1" using t(3) by linarith
    then show ?thesis
    proof cases
      case 1
      then have "nat (ht l) = Suc (nat (ht r))" "nat (max (ht l) (ht r) + 1) = Suc (Suc (nat (ht r)))" using ht_nonneg [of r] by auto
      then show ?thesis using square_sum [of "nat (ht r)" ?a ?b] t(1,2) by simp
    next
      case 2
      then have "nat (ht r) = Suc (nat (ht l))" "nat (max (ht l) (ht r) + 1) = Suc (Suc (nat (ht l)))" using ht_nonneg [of l] by auto
      then show ?thesis using square_sum [of "nat (ht l)" ?b ?a] t(1,2) by (simp add: add.commute)
    qed
  qed
  have "length (MidOrder (Node v h l r)) + 1 = ?a + ?b" by simp
  then show ?case using goal by (simp only: ht.simps)
qed simp

definition AVL_ordered :: "Node \<Rightarrow> bool" where
  "AVL_ordered t \<longleftrightarrow> avl t \<and> sorted_wrt (<) (MidOrder t)"

interpretation avl_tree: key_set AVL_ordered "\<lambda>t. set (MidOrder t)" "\<lambda>_. True" "\<lambda>k t. InsertNode t k"
    "\<lambda>t k. Some (fst (Find_AVL t k 0) \<noteq> Null_Node)"
proof
  fix t k
  assume t: "AVL_ordered t"
  then show "\<exists>t'. InsertNode t k = Some t' \<and> AVL_ordered t' \<and> set (MidOrder t') = insert k (set (MidOrder t))"
    using InsertNode_avl [of t k] sorted_ins by (auto simp: AVL_ordered_def)
  show "Some (fst (Find_AVL t k 0) \<noteq> Null_Node) = Some (k \<in> set (MidOrder t))"
    using Find_AVL_key(1) [of t k 0] t by (auto simp: AVL_ordered_def val_of_def split: Node.splits if_splits)
qed

text \<open>
  C19. The balanced tree: inserting any sequence of numbers into the empty tree never follows a null pointer and
  gives a tree whose stored heights are right and whose subtrees differ in height by at most one; its inorder
  traversal prints the inserted numbers in ascending order, each once; a search finds exactly the inserted numbers,
  and with \<open>n\<close> different numbers its counter \<open>c\<close> satisfies \<open>2 ^ c \<le> (n + 1) ^ 2\<close>.
\<close>

theorem avl_search_tree:
  "\<exists>t. fill (\<lambda>k t. InsertNode t k) ks Null_Node = Some t \<and> avl t \<and> MidOrder t = sorted_list_of_set (set ks) \<and>
    (\<forall>k. (fst (Find_AVL t k 0) \<noteq> Null_Node \<longleftrightarrow> k \<in> set ks) \<and> 2 ^ nat (snd (Find_AVL t k 0)) \<le> (card (set ks) + 1)\<^sup>2)"
proof -
  have "AVL_ordered Null_Node" by (simp add: AVL_ordered_def)
  then obtain t where t: "fill (\<lambda>k t. InsertNode t k) ks Null_Node = Some t" "AVL_ordered t" "set (MidOrder t) = set ks"
    using avl_tree.fill_keys [of Null_Node ks] by auto
  then have ord: "avl t" "sorted_wrt (<) (MidOrder t)" by (simp_all add: AVL_ordered_def)
  then have eq: "MidOrder t = sorted_list_of_set (set ks)"
    using t(3) sorted_list_of_set.idem_if_sorted_distinct [of "MidOrder t"] by (simp add: strict_sorted_iff)
  have "2 ^ nat (snd (Find_AVL t k 0)) \<le> (card (set ks) + 1)\<^sup>2" for k
  proof -
    have "(2 :: nat) ^ nat (snd (Find_AVL t k 0)) \<le> 2 ^ nat (ht t)"
      using Find_AVL_key(2) [OF ord(2), of k 0] by (intro power_increasing) auto
    also have "\<dots> \<le> (card (set ks) + 1)\<^sup>2" using avl_size [OF ord(1)] eq by simp
    finally show ?thesis .
  qed
  then show ?thesis using t ord eq avl_tree.has_key [OF t(2)] by auto
qed

text \<open>
  Deletion from the balanced tree. The heights on the path are left as they were, so that the tree gets out of
  balance; a key with two subtrees is overwritten by a number that is searched on the wrong side; the last rotation
  takes the wrong direction and may follow a null pointer.
\<close>

lemma delete_keeps_heights:
  "DeleteNode (Node 2 2 (Node 1 1 Null_Node Null_Node) Null_Node) 1 = Some (Node 2 2 Null_Node Null_Node)"
  by (simp add: Let_def)

lemma delete_unbalances:
  "\<exists>t. fill (\<lambda>k t. InsertNode t k) [4, 2, 6, 1, 5, 7, 8] Null_Node = Some t \<and> avl t \<and>
    (\<exists>l r. DeleteNode t 1 = Some (Node 4 4 l r) \<and> ht l = 1 \<and> ht r = 3)"
  by (simp add: Let_def insert_balance.simps CreateNode_def Max_int_def)

lemma delete_loses_order:
  "\<exists>t. fill (\<lambda>k t. InsertNode t k) [2, 1, 4, 3, 5] Null_Node = Some t \<and>
    (\<exists>t1. DeleteNode t 2 = Some t1 \<and> MidOrder t1 = [1, 5, 3, 4, 5])"
  by (simp add: Let_def insert_balance.simps CreateNode_def Max_int_def val_of_def)

end
