(* ===== verification/Hash_Tables.thy ===== *)
theory Hash_Tables
  imports C_Memory Contracts
begin

text \<open>
  Hashing with separate chaining (\<^verbatim>\<open>SeparateChaining.c\<close>) and with double hashing in the table itself
  (\<^verbatim>\<open>OpenAddressing.c\<close>).

  A chain is reached only through its header in the table, and is the list of its elements. \<open>None\<close> is an access
  outside of the table, a division by zero, or a search that never returns. Allocation succeeds.
\<close>

section \<open>Separate chaining\<close>

record chain_table =
  ct_tablesize :: int
  ct_arr :: "int list list"

definition InitializeHashTable_SC :: "int \<Rightarrow> chain_table" where
  "InitializeHashTable_SC n = \<lparr>ct_tablesize = n, ct_arr = replicate (nat n) []\<rparr>"

definition Hash_SC :: "int \<Rightarrow> int \<Rightarrow> int option" where
  "Hash_SC n key = (if n = 0 then None else Some (cmod key n))"

text \<open>The pointer that the search returns, as the rest of the chain from there; the empty list is \<^verbatim>\<open>NULL\<close>.\<close>

fun find_chain :: "int \<Rightarrow> int list \<Rightarrow> int list" where
  "find_chain key [] = []"
| "find_chain key (e # es) = (if e \<noteq> key then find_chain key es else e # es)"

definition Find_SC :: "int \<Rightarrow> chain_table \<Rightarrow> int list option" where
  "Find_SC key H = do { i \<leftarrow> Hash_SC (ct_tablesize H) key; L \<leftarrow> rd (ct_arr H) i; Some (find_chain key L) }"

definition Insert_SC :: "int \<Rightarrow> chain_table \<Rightarrow> chain_table option" where
  "Insert_SC key H =
     do {
       POS \<leftarrow> Find_SC key H;
       if POS = []
       then do {
         i \<leftarrow> Hash_SC (ct_tablesize H) key;
         L \<leftarrow> rd (ct_arr H) i;
         a \<leftarrow> wr (ct_arr H) i (key # L);
         Some (H\<lparr>ct_arr := a\<rparr>)
       }
       else Some H
     }"

text \<open>The chain without the node that the search found, which has \<open>n\<close> nodes from there on.\<close>

definition unlink :: "nat \<Rightarrow> int list \<Rightarrow> int list" where
  "unlink n L = take (length L - n) L @ drop (length L - n + 1) L"

definition Delete_SC :: "chain_table \<Rightarrow> int \<Rightarrow> (int \<times> chain_table) option" where
  "Delete_SC H e =
     do {
       i \<leftarrow> Hash_SC (ct_tablesize H) e;
       L \<leftarrow> rd (ct_arr H) i;
       p \<leftarrow> Find_SC e H;
       (case p of
          [] \<Rightarrow> Some (- 1, H)
        | v # rest \<Rightarrow> do { a \<leftarrow> wr (ct_arr H) i (unlink (length p) L); Some (v, H\<lparr>ct_arr := a\<rparr>) })
     }"

section \<open>Open addressing\<close>

datatype cell_status = EMPTY | OCCUPIED

record open_table =
  ot_tablesize :: int
  ot_Arr :: "(int \<times> cell_status) list"

definition Hash_OA :: "int \<Rightarrow> int \<Rightarrow> int option" where
  "Hash_OA e n = (if n = 0 then None else Some (cmod e n))"

definition InitializeHashTable_OA :: "int \<Rightarrow> open_table" where
  "InitializeHashTable_OA n = \<lparr>ot_tablesize = n, ot_Arr = replicate (nat n) (- 1, EMPTY)\<rparr>"

definition Hash2 :: "int \<Rightarrow> int \<Rightarrow> int option" where
  "Hash2 e n = (if n - 5 = 0 then None else Some (5 + cmod e (n - 5)))"

partial_function (option) probe :: "open_table \<Rightarrow> int \<Rightarrow> int \<Rightarrow> int \<Rightarrow> int option" where
  "probe H e off i =
     do {
       (x, st) \<leftarrow> rd (ot_Arr H) i;
       if st \<noteq> EMPTY \<and> x \<noteq> e then probe H e off (cmod (i + off) (ot_tablesize H)) else Some i
     }"

definition Find_OA :: "open_table \<Rightarrow> int \<Rightarrow> int option" where
  "Find_OA H e = do { i \<leftarrow> Hash_OA e (ot_tablesize H); off \<leftarrow> Hash2 e (ot_tablesize H); probe H e off i }"

definition Insert_OA :: "open_table \<Rightarrow> int \<Rightarrow> open_table option" where
  "Insert_OA H e =
     do {
       i \<leftarrow> Find_OA H e;
       (x, st) \<leftarrow> rd (ot_Arr H) i;
       if st = EMPTY then do { a \<leftarrow> wr (ot_Arr H) i (e, OCCUPIED); Some (H\<lparr>ot_Arr := a\<rparr>) } else Some H
     }"

definition Delete_OA :: "open_table \<Rightarrow> int \<Rightarrow> (int \<times> open_table) option" where
  "Delete_OA H e =
     do {
       i \<leftarrow> Find_OA H e;
       (x, st) \<leftarrow> rd (ot_Arr H) i;
       a \<leftarrow> wr (ot_Arr H) i (- 1, EMPTY);
       Some (x, H\<lparr>ot_Arr := a\<rparr>)
     }"

section \<open>Chaining is a set of keys\<close>

definition chains_ok :: "chain_table \<Rightarrow> bool" where
  "chains_ok H \<longleftrightarrow> 0 < ct_tablesize H \<and> length (ct_arr H) = nat (ct_tablesize H) \<and>
     (\<forall>i < length (ct_arr H). distinct (ct_arr H ! i) \<and> (\<forall>e \<in> set (ct_arr H ! i). 0 \<le> e \<and> nat (e mod ct_tablesize H) = i))"

definition chain_keys :: "chain_table \<Rightarrow> int set" where
  "chain_keys H = \<Union> (set (map set (ct_arr H)))"

lemma find_chain_dropWhile: "find_chain k L = dropWhile (\<lambda>e. e \<noteq> k) L"
  by (induction L) simp_all

lemma chain_keys_nth:
  assumes "i < length (ct_arr H)"
  shows "set (ct_arr H ! i) \<subseteq> chain_keys H"
proof -
  have "ct_arr H ! i \<in> set (ct_arr H)" using assms by (rule nth_mem)
  then show ?thesis by (auto simp: chain_keys_def)
qed

lemma chain_keys_obtain:
  assumes "k \<in> chain_keys H" "chains_ok H"
  obtains i where "i < length (ct_arr H)" "k \<in> set (ct_arr H ! i)" "nat (k mod ct_tablesize H) = i" "0 \<le> k"
proof -
  obtain L where "L \<in> set (ct_arr H)" "k \<in> set L" using assms(1) by (auto simp: chain_keys_def)
  then obtain i where "i < length (ct_arr H)" "k \<in> set (ct_arr H ! i)" by (metis in_set_conv_nth)
  then show thesis using that assms(2) by (auto simp: chains_ok_def)
qed

text \<open>The chain of a key.\<close>

lemma chain_of_key:
  assumes "chains_ok H" "0 \<le> k"
  obtains i where "i < length (ct_arr H)" "Hash_SC (ct_tablesize H) k = Some (int i)" "rd (ct_arr H) (int i) = Some (ct_arr H ! i)"
    "k \<in> chain_keys H \<longleftrightarrow> k \<in> set (ct_arr H ! i)" "distinct (ct_arr H ! i)" "nat (k mod ct_tablesize H) = i"
proof
  let ?i = "nat (k mod ct_tablesize H)"
  have n: "0 < ct_tablesize H" "length (ct_arr H) = nat (ct_tablesize H)" using assms(1) by (simp_all add: chains_ok_def)
  then show i: "?i < length (ct_arr H)" by simp
  show "Hash_SC (ct_tablesize H) k = Some (int ?i)" using n assms(2) by (simp add: Hash_SC_def)
  show "rd (ct_arr H) (int ?i) = Some (ct_arr H ! ?i)" using i by (rule rd_nat)
  show "k \<in> chain_keys H \<longleftrightarrow> k \<in> set (ct_arr H ! ?i)"
    using chain_keys_nth [OF i] chain_keys_obtain [OF _ assms(1), of k] by blast
  show "distinct (ct_arr H ! ?i)" using assms(1) i by (simp add: chains_ok_def)
qed simp

text \<open>Changing one chain.\<close>

lemma chain_updated:
  assumes "chains_ok H" "i < length (ct_arr H)" "distinct L" "\<forall>e \<in> set L. 0 \<le> e \<and> nat (e mod ct_tablesize H) = i"
  shows "chains_ok (H\<lparr>ct_arr := (ct_arr H)[i := L]\<rparr>)"
    "chain_keys (H\<lparr>ct_arr := (ct_arr H)[i := L]\<rparr>) = chain_keys H - set (ct_arr H ! i) \<union> set L"
proof -
  let ?H = "H\<lparr>ct_arr := (ct_arr H)[i := L]\<rparr>"
  show ok: "chains_ok ?H" using assms by (auto simp: chains_ok_def nth_list_update)
  have other: "k \<in> chain_keys ?H \<longleftrightarrow> k \<in> chain_keys H - set (ct_arr H ! i) \<union> set L" if k: "0 \<le> k" for k
  proof -
    obtain j where "j < length (ct_arr H)" "k \<in> chain_keys H \<longleftrightarrow> k \<in> set (ct_arr H ! j)" "nat (k mod ct_tablesize H) = j"
      using chain_of_key [OF assms(1) k] by metis
    moreover obtain j' where "k \<in> chain_keys ?H \<longleftrightarrow> k \<in> set (ct_arr ?H ! j')" "nat (k mod ct_tablesize ?H) = j'"
      using chain_of_key [OF ok k] by metis
    ultimately show ?thesis using assms(1,2,4) by (cases "j = i") (auto simp: chains_ok_def)
  qed
  have nonneg: "0 \<le> k" if "k \<in> chain_keys H \<or> k \<in> chain_keys ?H \<or> k \<in> set L" for k
    using that assms(4) chain_keys_obtain [OF _ assms(1), of k] chain_keys_obtain [OF _ ok, of k] by blast
  show "chain_keys ?H = chain_keys H - set (ct_arr H ! i) \<union> set L" using other nonneg by blast
qed

lemma find_chain_split: "find_chain k L = v # rest \<Longrightarrow> v = k \<and> (\<exists>a. L = a @ k # rest \<and> k \<notin> set a)"
proof (induction L)
  case (Cons e L)
  show ?case
  proof (cases "e = k")
    case False
    then obtain a where "v = k" "L = a @ k # rest" "k \<notin> set a" using Cons by auto
    then show ?thesis using False by (intro conjI exI [of _ "e # a"]) simp_all
  qed (use Cons in auto)
qed simp

lemma unlink_found:
  assumes "find_chain k L = v # rest"
  shows "v = k" "k \<in> set L" "unlink (length (v # rest)) L = remove1 k L"
proof -
  obtain a where "v = k" "L = a @ k # rest" "k \<notin> set a" using find_chain_split [OF assms] by blast
  then show "v = k" "k \<in> set L" "unlink (length (v # rest)) L = remove1 k L" by (simp_all add: unlink_def remove1_append)
qed

lemma find_chain_Nil: "find_chain k L = [] \<longleftrightarrow> k \<notin> set L"
  by (induction L) auto

lemma Insert_SC_keys:
  assumes "chains_ok H" "0 \<le> k"
  shows "\<exists>H'. Insert_SC k H = Some H' \<and> chains_ok H' \<and> chain_keys H' = insert k (chain_keys H)"
  using assms
proof (cases rule: chain_of_key)
  case (1 i)
  let ?L = "ct_arr H ! i"
  show ?thesis
  proof (cases "k \<in> set ?L")
    case True
    then show ?thesis using assms 1 by (auto simp: Insert_SC_def Find_SC_def find_chain_Nil)
  next
    case False
    have "\<forall>e \<in> set (k # ?L). 0 \<le> e \<and> nat (e mod ct_tablesize H) = i" using assms 1 by (auto simp: chains_ok_def)
    note u = chain_updated [OF assms(1) 1(1) _ this]
    have "set ?L \<subseteq> chain_keys H" using chain_keys_nth [OF 1(1)] .
    then show ?thesis using u 1 False by (auto simp: Insert_SC_def Find_SC_def find_chain_Nil)
  qed
qed

lemma Delete_SC_keys:
  assumes "chains_ok H" "0 \<le> k"
  shows "\<exists>H'. Delete_SC H k = Some (if k \<in> chain_keys H then k else - 1, H') \<and> chains_ok H' \<and> chain_keys H' = chain_keys H - {k}"
  using assms
proof (cases rule: chain_of_key)
  case (1 i)
  let ?L = "ct_arr H ! i"
  show ?thesis
  proof (cases "find_chain k ?L")
    case Nil
    then show ?thesis using assms 1 find_chain_Nil [of k ?L] by (auto simp: Delete_SC_def Find_SC_def)
  next
    case (Cons v rest)
    note f = unlink_found [OF Cons]
    have s: "set (remove1 k ?L) = set ?L - {k}" using 1(5) by simp
    have "\<forall>e \<in> set (remove1 k ?L). 0 \<le> e \<and> nat (e mod ct_tablesize H) = i" using assms(1) 1(1) s by (auto simp: chains_ok_def)
    note u = chain_updated [OF assms(1) 1(1) _ this]
    have "set ?L \<subseteq> chain_keys H" using chain_keys_nth [OF 1(1)] .
    then have "chain_keys H - set ?L \<union> set (remove1 k ?L) = chain_keys H - {k}" using s f(2) by auto
    then show ?thesis using u 1 f Cons by (auto simp: Delete_SC_def Find_SC_def)
  qed
qed

interpretation chaining: key_set_del chains_ok chain_keys "\<lambda>k. 0 \<le> k" Insert_SC "\<lambda>H k. map_option (\<lambda>p. p \<noteq> []) (Find_SC k H)"
    "\<lambda>H k. map_option snd (Delete_SC H k)"
proof
  fix H k
  assume a: "chains_ok H" "(0 :: int) \<le> k"
  show "\<exists>H'. Insert_SC k H = Some H' \<and> chains_ok H' \<and> chain_keys H' = insert k (chain_keys H)" by (rule Insert_SC_keys [OF a])
  show "map_option (\<lambda>p. p \<noteq> []) (Find_SC k H) = Some (k \<in> chain_keys H)"
    using a by (cases rule: chain_of_key) (simp add: Find_SC_def find_chain_Nil)
  show "\<exists>H'. map_option snd (Delete_SC H k) = Some H' \<and> chains_ok H' \<and> chain_keys H' = chain_keys H - {k}"
    using Delete_SC_keys [OF a] by auto
qed

text \<open>
  C18. Hashing with separate chaining is a set: from a fresh table of any positive size, every sequence of
  insertions (\<open>True\<close>) and deletions (\<open>False\<close>) of non-negative numbers stays inside the table, and afterwards a search
  finds a non-negative number exactly if the same sequence of operations on a set leaves it in the set.
\<close>

theorem chaining_is_set:
  assumes "0 < n" "\<forall>(b, k) \<in> set ops. 0 \<le> k"
  shows "\<exists>H. fill (\<lambda>(b, k) H. if b then Insert_SC k H else map_option snd (Delete_SC H k)) ops (InitializeHashTable_SC n) = Some H \<and>
    (\<forall>k. 0 \<le> k \<longrightarrow> map_option (\<lambda>p. p \<noteq> []) (Find_SC k H) =
       Some (k \<in> fold (\<lambda>(b, k) S. if b then insert k S else S - {k}) ops {}))"
proof -
  have "chains_ok (InitializeHashTable_SC n)" "chain_keys (InitializeHashTable_SC n) = {}"
    using assms(1) by (auto simp: chains_ok_def chain_keys_def InitializeHashTable_SC_def)
  then obtain H where "fill (\<lambda>(b, k) H. if b then Insert_SC k H else map_option snd (Delete_SC H k)) ops (InitializeHashTable_SC n) = Some H"
      "chains_ok H" "chain_keys H = fold (\<lambda>(b, k) S. if b then insert k S else S - {k}) ops {}"
    using chaining.run_keys [of "InitializeHashTable_SC n" ops] assms(2) by auto
  then show ?thesis using chaining.has_key [of H] by auto
qed

theorem chaining_is_set_witness:
  "\<exists>H. fill (\<lambda>(b, k) H. if b then Insert_SC k H else map_option snd (Delete_SC H k)) [(True, 3), (True, 13), (False, 3)]
      (InitializeHashTable_SC 10) = Some H \<and> map_option (\<lambda>p. p \<noteq> []) (Find_SC 13 H) = Some True \<and>
    map_option (\<lambda>p. p \<noteq> []) (Find_SC 3 H) = Some False"
proof -
  let ?ops = "[(True, 3), (True, 13), (False, 3)]"
  obtain H where H: "fill (\<lambda>(b, k) H. if b then Insert_SC k H else map_option snd (Delete_SC H k)) ?ops (InitializeHashTable_SC 10) = Some H"
      "\<And>k. 0 \<le> k \<Longrightarrow> map_option (\<lambda>p. p \<noteq> []) (Find_SC k H) = Some (k \<in> fold (\<lambda>(b, k) S. if b then insert k S else S - {k}) ?ops {})"
    using chaining_is_set [of 10 ?ops] by auto
  show ?thesis using H(1) H(2) [of 13] H(2) [of 3] by (intro exI [of _ H] conjI) simp_all
qed

section \<open>What double hashing gets wrong\<close>

text \<open>A search that returns has reached a cell that is empty or holds the number.\<close>

lemma probe_end:
  assumes "probe H e off i = Some r"
  shows "\<exists>x st. rd (ot_Arr H) r = Some (x, st) \<and> (st = EMPTY \<or> x = e)"
  by (rule probe.raw_induct [of "\<lambda>H e off i r. \<exists>x st. rd (ot_Arr H) r = Some (x, st) \<and> (st = EMPTY \<or> x = e)", OF _ assms])
    (fastforce simp: bind_eq_Some_conv split: if_splits)

lemma full_table_never_returns:
  assumes "\<forall>(x, st) \<in> set (ot_Arr H). st = OCCUPIED \<and> x \<noteq> e"
  shows "Find_OA H e = None"
proof -
  have "probe H e off i = None" for off i
  proof (rule ccontr)
    assume "probe H e off i \<noteq> None"
    then obtain r x st where "rd (ot_Arr H) r = Some (x, st)" "st = EMPTY \<or> x = e" using probe_end by fastforce
    then have "(x, st) \<in> set (ot_Arr H)" "st = EMPTY \<or> x = e" by (auto simp: rd_def in_set_conv_nth split: if_splits)
    then show False using assms by auto
  qed
  then show ?thesis by (cases "Hash_OA e (ot_tablesize H)"; cases "Hash2 e (ot_tablesize H)") (simp_all add: Find_OA_def)
qed

text \<open>
  The step of the second hash may have a common divisor with the size of the table: the third number with the
  same two cells is never inserted, although the table is almost empty.
\<close>

definition two_cells :: open_table where
  "two_cells = \<lparr>ot_tablesize = 10, ot_Arr = (replicate 10 (- 1, EMPTY))[0 := (0, OCCUPIED), 5 := (10, OCCUPIED)]\<rparr>"

lemma two_cells_reached: "do { H \<leftarrow> Insert_OA (InitializeHashTable_OA 10) 0; Insert_OA H 10 } = Some two_cells"
  by (simp add: Insert_OA_def Find_OA_def Hash_OA_def Hash2_def InitializeHashTable_OA_def two_cells_def rd_def wr_def
      probe.simps [of _ _ _ 0] probe.simps [of _ _ _ 5] nth_list_update)

lemma probe_two_cells:
  assumes "probe H e off i = Some r"
  shows "H = two_cells \<longrightarrow> e = 20 \<longrightarrow> off = 5 \<longrightarrow> i \<noteq> 0 \<and> i \<noteq> 5"
proof (rule probe.raw_induct [of "\<lambda>H e off i r. H = two_cells \<longrightarrow> e = 20 \<longrightarrow> off = 5 \<longrightarrow> i \<noteq> 0 \<and> i \<noteq> 5", OF _ assms])
  fix probe H e off i y
  assume 1: "\<And>H e off i y. probe H e off i = Some y \<Longrightarrow> H = two_cells \<longrightarrow> e = 20 \<longrightarrow> off = 5 \<longrightarrow> i \<noteq> 0 \<and> i \<noteq> 5"
    "do { (x, st) \<leftarrow> rd (ot_Arr H) i; if st \<noteq> EMPTY \<and> x \<noteq> e then probe H e off (cmod (i + off) (ot_tablesize H)) else Some i } = Some y"
  have "rd (ot_Arr two_cells) 0 = Some (0, OCCUPIED)" "rd (ot_Arr two_cells) 5 = Some (10, OCCUPIED)" "ot_tablesize two_cells = 10"
    by (simp_all add: two_cells_def rd_def)
  then show "H = two_cells \<longrightarrow> e = 20 \<longrightarrow> off = 5 \<longrightarrow> i \<noteq> 0 \<and> i \<noteq> 5" using 1(1) [of H e off "cmod (i + off) (ot_tablesize H)" y] 1(2) by auto
qed

lemma insert_never_returns: "Insert_OA two_cells 20 = None"
proof -
  have "probe two_cells 20 5 0 = None" using probe_two_cells [of two_cells 20 5 0] by (cases "probe two_cells 20 5 0") auto
  moreover have "ot_tablesize two_cells = 10" by (simp add: two_cells_def)
  ultimately show ?thesis by (simp add: Insert_OA_def Find_OA_def Hash_OA_def Hash2_def)
qed

text \<open>Deleting a number empties its cell, and a number behind it on the same path is no longer found.\<close>

lemma delete_breaks_path:
  "do { H \<leftarrow> Insert_OA (InitializeHashTable_OA 10) 3; H \<leftarrow> Insert_OA H 13; (v, H) \<leftarrow> Delete_OA H 3; i \<leftarrow> Find_OA H 13; rd (ot_Arr H) i }
    = Some (- 1, EMPTY)"
  by (simp add: Insert_OA_def Delete_OA_def Find_OA_def Hash_OA_def Hash2_def InitializeHashTable_OA_def rd_def wr_def
      probe.simps [of _ _ _ 3] probe.simps [of _ _ _ 1] nth_list_update)

text \<open>A negative number gives a negative index.\<close>

lemma negative_key: "0 < ct_tablesize H \<Longrightarrow> - ct_tablesize H < k \<Longrightarrow> k < 0 \<Longrightarrow> Find_SC k H = None"
  by (simp add: Find_SC_def Hash_SC_def cmod_def cdiv_def rd_def)

end
