(* ===== verification/Tree_Walks.thy ===== *)
theory Tree_Walks
  imports C_Memory
begin

text \<open>
  The traversals of a binary tree (\<^verbatim>\<open>BinaryTree.c\<close>) and the expression tree of a postfix expression
  (\<^verbatim>\<open>BinaryExpressionTree.c\<close>).

  Trees are values as in \<open>Search_Trees\<close>; the linked queue and stack of these programs are reached only through
  their header node and are the lists of what they hold. \<open>None\<close> is the use of a null pointer or a failed
  \<^verbatim>\<open>assert\<close>. Allocation succeeds. Traversals give what they print.
\<close>

section \<open>Binary trees\<close>

datatype BTN = Null_BTN | BTN int BTN BTN

definition CreateBTN :: "int \<Rightarrow> BTN" where
  "CreateBTN e = BTN e Null_BTN Null_BTN"

fun PreOrder_BTN :: "BTN \<Rightarrow> int list" where
  "PreOrder_BTN Null_BTN = []"
| "PreOrder_BTN (BTN e l r) = [e] @ PreOrder_BTN l @ PreOrder_BTN r"

fun InOrder_BTN :: "BTN \<Rightarrow> int list" where
  "InOrder_BTN Null_BTN = []"
| "InOrder_BTN (BTN e l r) = InOrder_BTN l @ [e] @ InOrder_BTN r"

fun PostOrder_BTN :: "BTN \<Rightarrow> int list" where
  "PostOrder_BTN Null_BTN = []"
| "PostOrder_BTN (BTN e l r) = PostOrder_BTN l @ PostOrder_BTN r @ [e]"

definition push_TQ :: "BTN list \<Rightarrow> BTN \<Rightarrow> BTN list option" where
  "push_TQ q t = (if t = Null_BTN then None else Some (q @ [t]))"

fun pop_TQ :: "BTN list \<Rightarrow> (BTN \<times> BTN list) option" where
  "pop_TQ [] = None"
| "pop_TQ (t # q) = Some (t, q)"

text \<open>One round of the loop: the printed element and the queue.\<close>

definition level_step :: "BTN list \<Rightarrow> (int \<times> BTN list) option" where
  "level_step q =
     do {
       (current, q1) \<leftarrow> pop_TQ q;
       case current of
         Null_BTN \<Rightarrow> None
       | BTN e l r \<Rightarrow>
           do {
             q2 \<leftarrow> (if l \<noteq> Null_BTN then push_TQ q1 l else Some q1);
             q3 \<leftarrow> (if r \<noteq> Null_BTN then push_TQ q2 r else Some q2);
             Some (e, q3)
           }
     }"

lemma level_step_size:
  assumes "level_step q = Some (e, q')"
  shows "sum_list (map (\<lambda>t. size t) q') < sum_list (map (\<lambda>t. size t) q)"
  using assms by (cases q) (auto simp: level_step_def push_TQ_def split: BTN.splits if_splits)

function level_loop :: "BTN list \<Rightarrow> int list option" where
  "level_loop q =
     (if q = [] then Some []
      else case level_step q of None \<Rightarrow> None | Some (e, q') \<Rightarrow> map_option ((#) e) (level_loop q'))"
  by pat_completeness auto
termination by (relation "measure (\<lambda>q. sum_list (map (\<lambda>t. size t) q))") (auto dest: level_step_size)

definition LevelOrder :: "BTN \<Rightarrow> int list option" where
  "LevelOrder root = (if root = Null_BTN then Some [] else do { tq \<leftarrow> push_TQ [] root; level_loop tq })"

definition show_TQ :: "BTN list \<Rightarrow> int list option" where
  "show_TQ q = those (map (\<lambda>t. case t of Null_BTN \<Rightarrow> None | BTN e l r \<Rightarrow> Some e) q)"

section \<open>Expression trees\<close>

datatype ETN = Null_ETN | ETN char ETN ETN

definition Push_ETN :: "ETN list \<Rightarrow> ETN \<Rightarrow> ETN list" where
  "Push_ETN s t = s @ [t]"

text \<open>On an empty stack the search for the predecessor of the header runs into a null pointer.\<close>

definition Pop_ETN :: "ETN list \<Rightarrow> (ETN \<times> ETN list) option" where
  "Pop_ETN s = (if s = [] then None else Some (last s, butlast s))"

definition CreateETN :: "char \<Rightarrow> ETN" where
  "CreateETN c = ETN c Null_ETN Null_ETN"

definition is_operator :: "char \<Rightarrow> bool" where
  "is_operator c \<longleftrightarrow> c = CHR ''+'' \<or> c = CHR ''-'' \<or> c = CHR ''*'' \<or> c = CHR ''/''"

fun build_loop :: "string \<Rightarrow> ETN list \<Rightarrow> ETN list option" where
  "build_loop [] s = Some s"
| "build_loop (c # cs) s =
     (if is_operator c
      then do { (t2, s1) \<leftarrow> Pop_ETN s; (t1, s2) \<leftarrow> Pop_ETN s1; build_loop cs (Push_ETN s2 (ETN c t1 t2)) }
      else build_loop cs (Push_ETN s (CreateETN c)))"

definition BuildPostfixExpressionTree :: "string \<Rightarrow> ETN option" where
  "BuildPostfixExpressionTree posfix = do { s \<leftarrow> build_loop posfix []; (root, s') \<leftarrow> Pop_ETN s; Some root }"

fun PostOrder_ETN :: "ETN \<Rightarrow> string" where
  "PostOrder_ETN Null_ETN = []"
| "PostOrder_ETN (ETN c l r) = PostOrder_ETN l @ PostOrder_ETN r @ [c]"

section \<open>Level order\<close>

declare level_loop.simps [simp del]

lemma level_loop_Nil [simp]: "level_loop [] = Some []"
  by (simp add: level_loop.simps)

fun root_of :: "BTN \<Rightarrow> int" where
  "root_of (BTN e l r) = e"
| "root_of Null_BTN = 0"

definition nonnull :: "BTN \<Rightarrow> BTN list" where
  "nonnull t = (if t = Null_BTN then [] else [t])"

fun children :: "BTN \<Rightarrow> BTN list" where
  "children Null_BTN = []"
| "children (BTN e l r) = nonnull l @ nonnull r"

lemma level_loop_Cons:
  "t \<noteq> Null_BTN \<Longrightarrow> level_loop (t # q) = map_option ((#) (root_of t)) (level_loop (q @ children t))"
  using level_loop.simps [of "t # q"] by (cases t) (auto simp: level_step_def push_TQ_def nonnull_def)

text \<open>A whole level is printed before the next one, which has gathered in the queue behind it.\<close>

lemma level_loop_row:
  "\<forall>t \<in> set ts. t \<noteq> Null_BTN \<Longrightarrow>
    level_loop (ts @ q) = map_option (\<lambda>xs. map root_of ts @ xs) (level_loop (q @ concat (map children ts)))"
proof (induction ts arbitrary: q)
  case Nil
  show ?case by (cases "level_loop q") simp_all
next
  case (Cons t ts)
  then show ?case by (cases "level_loop (q @ children t @ concat (map children ts))") (simp_all add: level_loop_Cons)
qed

fun level :: "BTN \<Rightarrow> nat \<Rightarrow> int list" where
  "level Null_BTN n = []"
| "level (BTN e l r) 0 = [e]"
| "level (BTN e l r) (Suc n) = level l n @ level r n"

fun tree_height :: "BTN \<Rightarrow> nat" where
  "tree_height Null_BTN = 0"
| "tree_height (BTN e l r) = Suc (max (tree_height l) (tree_height r))"

lemma level_root: "t \<noteq> Null_BTN \<Longrightarrow> level t 0 = [root_of t]"
  by (cases t) simp_all

lemma level_children: "level t (Suc n) = concat (map (\<lambda>c. level c n) (children t))"
  by (cases t) (auto simp: nonnull_def)

lemma children_height: "c \<in> set (children t) \<Longrightarrow> tree_height c < tree_height t \<and> c \<noteq> Null_BTN"
  by (cases t) (auto simp: nonnull_def split: if_splits)

lemma level_loop_levels:
  "\<forall>t \<in> set ts. t \<noteq> Null_BTN \<and> tree_height t \<le> h \<Longrightarrow>
    level_loop ts = Some (concat (map (\<lambda>n. concat (map (\<lambda>t. level t n) ts)) [0..<h]))"
proof (induction h arbitrary: ts)
  case 0
  have "ts = []"
  proof (cases ts)
    case (Cons t ts')
    then have "t \<noteq> Null_BTN" "tree_height t = 0" using 0 by auto
    then show ?thesis by (cases t) auto
  qed
  then show ?case by simp
next
  case (Suc h)
  let ?cs = "concat (map children ts)"
  have "\<forall>c \<in> set ?cs. c \<noteq> Null_BTN \<and> tree_height c \<le> h" using Suc.prems children_height by fastforce
  note IH = Suc.IH [OF this]
  have nn: "\<forall>t \<in> set ts. t \<noteq> Null_BTN" using Suc.prems by blast
  have rows: "concat (map (\<lambda>c. level c n) ?cs) = concat (map (\<lambda>t. level t (Suc n)) ts)" for n
    by (induction ts) (simp_all add: level_children)
  have first: "concat (map (\<lambda>t. level t 0) ts) = map root_of ts" using nn by (induction ts) (simp_all add: level_root)
  have upt: "map f [0..<Suc h] = f 0 # map (\<lambda>n. f (Suc n)) [0..<h]" for f :: "nat \<Rightarrow> int list"
    by (simp add: upt_conv_Cons map_Suc_upt [symmetric] o_def del: upt_Suc)
  show ?case using level_loop_row [OF nn, of "[]"] IH unfolding upt by (simp add: rows first)
qed

text \<open>
  C14. The level order traversal terminates without following a null pointer and prints the elements level by
  level from the root down, each level from left to right.
\<close>

theorem level_order_by_levels: "LevelOrder t = Some (concat (map (level t) [0..<tree_height t]))"
proof (cases "t = Null_BTN")
  case False
  then show ?thesis using level_loop_levels [of "[t]" "tree_height t"] by (simp add: LevelOrder_def push_TQ_def)
qed (simp add: LevelOrder_def)

section \<open>Building and printing postfix expressions\<close>

fun expression :: "ETN \<Rightarrow> bool" where
  "expression Null_ETN = False"
| "expression (ETN c l r) =
     (if is_operator c then expression l \<and> expression r else l = Null_ETN \<and> r = Null_ETN)"

lemma Pop_snoc [simp]: "Pop_ETN (s @ [t]) = Some (t, s)" "Pop_ETN (s @ [t1, t2]) = Some (t2, s @ [t1])"
  by (simp_all add: Pop_ETN_def butlast_append)

lemma Pop_SomeD: "Pop_ETN s = Some (t, s1) \<Longrightarrow> s = s1 @ [t]"
  by (auto simp: Pop_ETN_def split: if_splits)

lemma build_loop_tree: "expression t \<Longrightarrow> build_loop (PostOrder_ETN t @ cs) s = build_loop cs (s @ [t])"
proof (induction t arbitrary: cs s)
  case (ETN c l r)
  then show ?case by (auto simp: Push_ETN_def CreateETN_def split: if_splits)
qed simp

lemma build_loop_text:
  assumes "build_loop cs s = Some s'" "\<forall>t \<in> set s. expression t"
  shows "concat (map PostOrder_ETN s') = concat (map PostOrder_ETN s) @ cs \<and> (\<forall>t \<in> set s'. expression t)"
  using assms
proof (induction cs s rule: build_loop.induct)
  case (2 c cs s)
  show ?case
  proof (cases "is_operator c")
    case True
    then obtain t2 s1 t1 s2 where pop: "Pop_ETN s = Some (t2, s1)" "Pop_ETN s1 = Some (t1, s2)"
        "build_loop cs (Push_ETN s2 (ETN c t1 t2)) = Some s'"
      using 2(3) by (auto simp: bind_eq_Some_conv)
    have s: "s = s2 @ [t1, t2]" using Pop_SomeD [OF pop(1)] Pop_SomeD [OF pop(2)] by simp
    have "\<forall>t \<in> set (Push_ETN s2 (ETN c t1 t2)). expression t" using 2(4) s True by (auto simp: Push_ETN_def)
    note IH = 2(1) [OF True pop(1) refl pop(2) refl pop(3) this]
    then show ?thesis unfolding s by (simp add: Push_ETN_def)
  next
    case False
    then show ?thesis using 2(2) [OF False] 2(3,4) by (simp add: Push_ETN_def CreateETN_def)
  qed
qed simp

text \<open>
  Building the tree of a printed expression gives the tree back, and printing a tree that was built from a text
  which leaves one tree on the stack gives the text back.
\<close>

lemma postfix_roundtrip: "expression t \<Longrightarrow> BuildPostfixExpressionTree (PostOrder_ETN t) = Some t"
  using build_loop_tree [of t "[]" "[]"] by (simp add: BuildPostfixExpressionTree_def Pop_ETN_def)

lemma postfix_text:
  assumes "build_loop cs [] = Some [t]"
  shows "BuildPostfixExpressionTree cs = Some t" "PostOrder_ETN t = cs" "expression t"
  using build_loop_text [OF assms] assms by (simp_all add: BuildPostfixExpressionTree_def Pop_ETN_def)

end
