(* ===== verification/Array_Containers.thy ===== *)
theory Array_Containers
  imports C_Memory Contracts
begin

text \<open>
  The containers over \<^verbatim>\<open>int\<close> arrays: the queues of \<^verbatim>\<open>ArrayQuene.c\<close> and \<^verbatim>\<open>ArrayQuene2.c\<close>, the stacks
  of \<^verbatim>\<open>ArrayStack.c\<close> and \<^verbatim>\<open>ArrayStack2.c\<close> and the growing array of \<^verbatim>\<open>DynamicArray.c\<close>. An
  operation gives \<open>None\<close> where the C code reads or writes outside of its array.
\<close>

type_synonym array_malloc = "nat \<Rightarrow> int list option"

text \<open>A null array pointer has no cells.\<close>

definition cells :: "int list option \<Rightarrow> int list" where
  "cells p = (case p of None \<Rightarrow> [] | Some xs \<Rightarrow> xs)"

section \<open>Shifting loops\<close>

text \<open>\<^verbatim>\<open>for (; i < n; i++) arr[i] = arr[i + 1];\<close>\<close>

function shift_left :: "'a list \<Rightarrow> int \<Rightarrow> int \<Rightarrow> 'a list option" where
  "shift_left arr i n =
     (if i < n then do { v \<leftarrow> rd arr (i + 1); arr \<leftarrow> wr arr i v; shift_left arr (i + 1) n } else Some arr)"
  by pat_completeness auto
termination by (relation "measure (\<lambda>(arr, i, n). nat (n - i))") auto

text \<open>\<^verbatim>\<open>for (; i > index; i--) arr[i] = arr[i - 1];\<close>\<close>

function shift_right :: "'a list \<Rightarrow> int \<Rightarrow> int \<Rightarrow> 'a list option" where
  "shift_right arr i index =
     (if i > index then do { v \<leftarrow> rd arr (i - 1); arr \<leftarrow> wr arr i v; shift_right arr (i - 1) index } else Some arr)"
  by pat_completeness auto
termination by (relation "measure (\<lambda>(arr, i, n). nat (i - n))") auto

text \<open>\<^verbatim>\<open>for (; i < n; i++) printf("%d ", arr[i]);\<close>, as the list of the numbers printed.\<close>

function print_range :: "'a list \<Rightarrow> int \<Rightarrow> int \<Rightarrow> 'a list option" where
  "print_range arr i n =
     (if i < n then do { v \<leftarrow> rd arr i; vs \<leftarrow> print_range arr (i + 1) n; Some (v # vs) } else Some [])"
  by pat_completeness auto
termination by (relation "measure (\<lambda>(arr, i, n). nat (n - i))") auto

declare shift_left.simps [simp del] shift_right.simps [simp del] print_range.simps [simp del]

lemma shift_left_eq:
  "i \<le> n \<Longrightarrow> n < length arr \<Longrightarrow>
   shift_left arr (int i) (int n) = Some (take i arr @ take (n - i) (drop (Suc i) arr) @ drop n arr)"
proof (induction "n - i" arbitrary: i arr)
  case 0
  then show ?case by (subst shift_left.simps) simp
next
  case (Suc k)
  let ?arr = "arr[i := arr ! Suc i]"
  have *: "int i + 1 = int (Suc i)" by simp
  have "shift_left arr (int i) (int n) = shift_left ?arr (int (Suc i)) (int n)"
    using Suc.hyps(2) Suc.prems by (subst shift_left.simps) (auto simp: algebra_simps)
  also have "\<dots> = Some (take (Suc i) ?arr @ take (n - Suc i) (drop (Suc (Suc i)) ?arr) @ drop n ?arr)"
    using Suc.hyps(2) Suc.prems by (intro Suc.hyps(1)) auto
  also have "take (Suc i) ?arr @ take (n - Suc i) (drop (Suc (Suc i)) ?arr) @ drop n ?arr =
      take i arr @ take (n - i) (drop (Suc i) arr) @ drop n arr"
    using Suc.hyps(2) Suc.prems
    by (simp add: take_Suc_update Cons_nth_drop_Suc [symmetric, of "Suc i"] take_Cons' drop_update_cancel)
  finally show ?case .
qed

lemma shift_right_eq:
  "i \<le> n \<Longrightarrow> n < length arr \<Longrightarrow>
   shift_right arr (int n) (int i) = Some (take (Suc i) arr @ take (n - i) (drop i arr) @ drop (Suc n) arr)"
proof (induction "n - i" arbitrary: n arr)
  case 0
  then show ?case by (subst shift_right.simps) simp
next
  case (Suc k)
  then obtain m where m: "n = Suc m" by (cases n) auto
  let ?arr = "arr[n := arr ! m]"
  have *: "int n - 1 = int m" using m by simp
  have "shift_right arr (int n) (int i) = shift_right ?arr (int m) (int i)"
    using Suc.hyps(2) Suc.prems m by (subst shift_right.simps) auto
  also have "\<dots> = Some (take (Suc i) ?arr @ take (m - i) (drop i ?arr) @ drop (Suc m) ?arr)"
    using Suc.hyps(2) Suc.prems m by (intro Suc.hyps(1)) auto
  also have "take (Suc i) ?arr @ take (m - i) (drop i ?arr) @ drop (Suc m) ?arr =
      take (Suc i) arr @ take (n - i) (drop i arr) @ drop (Suc n) arr"
  proof -
    have "drop (Suc m) ?arr = arr ! m # drop (Suc n) arr"
      using Suc.prems m by (simp add: Cons_nth_drop_Suc [symmetric] drop_update_cancel)
    moreover have "take (Suc i) ?arr = take (Suc i) arr" "take (m - i) (drop i ?arr) = take (m - i) (drop i arr)"
      using Suc.hyps(2) Suc.prems m by (simp_all add: drop_update_swap)
    moreover have "take (n - i) (drop i arr) = take (m - i) (drop i arr) @ [arr ! m]"
      using Suc.hyps(2) Suc.prems m by (simp add: Suc_diff_le take_Suc_conv_app_nth)
    ultimately show ?thesis by simp
  qed
  finally show ?case .
qed

lemma print_range_eq:
  "i \<le> n \<Longrightarrow> n \<le> length arr \<Longrightarrow> print_range arr (int i) (int n) = Some (take (n - i) (drop i arr))"
proof (induction "n - i" arbitrary: i)
  case 0
  then show ?case by (subst print_range.simps) simp
next
  case (Suc k)
  have *: "int i + 1 = int (Suc i)" by simp
  from Suc.hyps(1) [of "Suc i"] Suc.hyps(2) Suc.prems show ?case
    by (subst print_range.simps) (simp only: *, simp add: Cons_nth_drop_Suc [symmetric, of i] take_Cons')
qed

section \<open>ArrayQuene.c\<close>

record AQ =
  aq_arr :: "int list"
  aq_length :: int
  aq_capacity :: int

definition CreateAQ :: "array_malloc \<Rightarrow> AQ" where
  "CreateAQ malloc = \<lparr>aq_arr = cells (malloc 10), aq_length = 0, aq_capacity = 10\<rparr>"

definition Enquene_AQ :: "int \<Rightarrow> AQ \<Rightarrow> AQ option" where
  "Enquene_AQ x aq = do {
     arr \<leftarrow> wr (aq_arr aq) (aq_length aq) x;
     Some (aq\<lparr>aq_arr := arr, aq_length := aq_length aq + 1\<rparr>)
   }"

definition Dequene_AQ :: "AQ \<Rightarrow> (int \<times> AQ) option" where
  "Dequene_AQ aq = do {
     val \<leftarrow> rd (aq_arr aq) 0;
     arr \<leftarrow> shift_left (aq_arr aq) 0 (aq_length aq);
     Some (val, aq\<lparr>aq_arr := arr, aq_length := aq_length aq - 1\<rparr>)
   }"

definition ShowAQ :: "AQ \<Rightarrow> int list option" where
  "ShowAQ aq = print_range (aq_arr aq) 0 (aq_length aq)"

text \<open>
  One cell stays unused: the shifting loop of \<^verbatim>\<open>Dequene\<close> reads the cell after the last element.
\<close>

definition AQ_wf :: "AQ \<Rightarrow> bool" where
  "AQ_wf aq \<longleftrightarrow> 0 \<le> aq_length aq \<and> nat (aq_length aq) < length (aq_arr aq)"

definition AQ_contents :: "AQ \<Rightarrow> int list" where
  "AQ_contents aq = take (nat (aq_length aq)) (aq_arr aq)"

definition AQ_room :: "int \<Rightarrow> AQ \<Rightarrow> bool" where
  "AQ_room x aq \<longleftrightarrow> nat (aq_length aq) + 1 < length (aq_arr aq)"

lemma Enquene_AQ_contents:
  assumes "AQ_wf aq" "AQ_room x aq"
  shows "\<exists>aq'. Enquene_AQ x aq = Some aq' \<and> AQ_wf aq' \<and> AQ_contents aq' = AQ_contents aq @ [x]"
proof -
  obtain n where n: "aq_length aq = int n" "Suc n < length (aq_arr aq)"
    using assms by (auto simp: AQ_wf_def AQ_room_def dest: nonneg_int_cases)
  then have "nat (int n + 1) = Suc n" by simp
  with n show ?thesis
    by (simp add: Enquene_AQ_def AQ_wf_def AQ_contents_def take_Suc_update)
qed

lemma Dequene_AQ_contents:
  assumes "AQ_wf aq" "AQ_contents aq = x # xs"
  shows "\<exists>aq'. Dequene_AQ aq = Some (x, aq') \<and> AQ_wf aq' \<and> AQ_contents aq' = xs"
proof -
  obtain n where n: "aq_length aq = int n" "n < length (aq_arr aq)"
    using assms by (auto simp: AQ_wf_def dest: nonneg_int_cases)
  have tk: "take n (aq_arr aq) = x # xs" using assms(2) n by (simp add: AQ_contents_def)
  then obtain m where m: "n = Suc m" by (cases n) auto
  obtain y ys where arr: "aq_arr aq = y # ys" using n by (cases "aq_arr aq") auto
  have "shift_left (aq_arr aq) 0 (int n) = Some (take n (drop 1 (aq_arr aq)) @ drop n (aq_arr aq))"
    using shift_left_eq [of 0 n "aq_arr aq"] n by simp
  moreover have "rd (aq_arr aq) 0 = Some x" using tk arr m by (simp add: rd_def)
  moreover have "nat (int n - 1) = m" using m by simp
  moreover have "take m (take n ys @ drop n (aq_arr aq)) = xs" using tk arr m n by simp
  ultimately show ?thesis using n arr m
    by (simp add: Dequene_AQ_def AQ_wf_def AQ_contents_def)
qed

interpretation aq: fifo AQ_wf AQ_contents AQ_room Enquene_AQ Dequene_AQ
proof
  show "Enquene_AQ x s \<noteq> None" if "AQ_wf s" "AQ_room x s" for s x using Enquene_AQ_contents [OF that] by auto
  show "AQ_wf s' \<and> AQ_contents s' = AQ_contents s @ [x]" if "AQ_wf s" "AQ_room x s" "Enquene_AQ x s = Some s'" for s x s'
    using Enquene_AQ_contents [OF that(1,2)] that(3) by auto
  show "\<exists>s'. Dequene_AQ s = Some (x, s') \<and> AQ_wf s' \<and> AQ_contents s' = xs" if "AQ_wf s" "AQ_contents s = x # xs" for s x xs
    by (rule Dequene_AQ_contents [OF that])
qed

lemma ShowAQ_contents: "AQ_wf aq \<Longrightarrow> ShowAQ aq = Some (AQ_contents aq)"
  using print_range_eq [of 0 "nat (aq_length aq)" "aq_arr aq"] by (simp add: ShowAQ_def AQ_wf_def AQ_contents_def)

section \<open>ArrayQuene2.c\<close>

abbreviation MaxNodes :: int where "MaxNodes \<equiv> 100"

record Quene =
  q_data :: "int list"
  front :: int
  rear :: int

definition InitQuene :: "Quene \<Rightarrow> Quene" where
  "InitQuene q = q\<lparr>front := -1, rear := -1\<rparr>"

definition IsEmpty :: "Quene \<Rightarrow> bool" where
  "IsEmpty q \<longleftrightarrow> front q = -1 \<and> rear q = -1"

definition Enquene :: "int \<Rightarrow> Quene \<Rightarrow> Quene option" where
  "Enquene x q =
     (if rear q = MaxNodes then Some q
      else do {
        q \<leftarrow> Some (if IsEmpty q then q\<lparr>front := 0\<rparr> else q);
        q \<leftarrow> Some (q\<lparr>rear := rear q + 1\<rparr>);
        d \<leftarrow> wr (q_data q) (rear q) x;
        Some (q\<lparr>q_data := d\<rparr>)
      })"

definition Dequene :: "Quene \<Rightarrow> (int \<times> Quene) option" where
  "Dequene q =
     (if IsEmpty q then Some (-1, q)
      else do {
        val \<leftarrow> rd (q_data q) (front q);
        Some (val, if front q = rear q then q\<lparr>front := -1, rear := -1\<rparr> else q\<lparr>front := front q + 1\<rparr>)
      })"

definition Quene_wf :: "Quene \<Rightarrow> bool" where
  "Quene_wf q \<longleftrightarrow> length (q_data q) = nat MaxNodes \<and> (IsEmpty q \<or> 0 \<le> front q \<and> front q \<le> rear q \<and> rear q < MaxNodes)"

definition Quene_contents :: "Quene \<Rightarrow> int list" where
  "Quene_contents q = (if IsEmpty q then [] else drop (nat (front q)) (take (nat (rear q + 1)) (q_data q)))"

definition Quene_room :: "int \<Rightarrow> Quene \<Rightarrow> bool" where
  "Quene_room x q \<longleftrightarrow> rear q < MaxNodes - 1"

lemma InitQuene_wf: "length (q_data q) = 100 \<Longrightarrow> Quene_wf (InitQuene q) \<and> Quene_contents (InitQuene q) = []"
  by (simp add: InitQuene_def Quene_wf_def Quene_contents_def IsEmpty_def)

lemma Quene_indices:
  assumes "Quene_wf q" "\<not> IsEmpty q"
  obtains f r where "front q = int f" "rear q = int r" "f \<le> r" "r < 100" "length (q_data q) = 100"
proof -
  have "front q = int (nat (front q))" "rear q = int (nat (rear q))" using assms by (auto simp: Quene_wf_def)
  with assms show ?thesis by (intro that [of "nat (front q)" "nat (rear q)"]) (auto simp: Quene_wf_def)
qed

lemma Enquene_contents:
  assumes "Quene_wf q" "Quene_room x q"
  shows "\<exists>q'. Enquene x q = Some q' \<and> Quene_wf q' \<and> Quene_contents q' = Quene_contents q @ [x] \<and> rear q' = rear q + 1"
proof (cases "IsEmpty q")
  case True
  then show ?thesis using assms
    by (auto simp: Enquene_def IsEmpty_def Quene_wf_def Quene_contents_def wr_def take_Suc_update)
next
  case False
  then obtain f r where fr: "front q = int f" "rear q = int r" "f \<le> r" "length (q_data q) = 100"
    using Quene_indices [OF assms(1)] by metis
  then have "r < 99" using assms(2) by (simp add: Quene_room_def)
  have "take (Suc (Suc r)) ((q_data q)[Suc r := x]) = take (Suc r) (q_data q) @ [x]"
    using fr \<open>r < 99\<close> by (intro take_Suc_update) simp
  with fr \<open>r < 99\<close> False show ?thesis
    by (simp add: Enquene_def IsEmpty_def Quene_wf_def Quene_contents_def nat_add_distrib)
qed

lemma Dequene_contents:
  assumes "Quene_wf q" "Quene_contents q = x # xs"
  shows "\<exists>q'. Dequene q = Some (x, q') \<and> Quene_wf q' \<and> Quene_contents q' = xs \<and> rear q' \<le> rear q"
proof -
  have ne: "\<not> IsEmpty q" using assms(2) by (auto simp: Quene_contents_def)
  then obtain f r where fr: "front q = int f" "rear q = int r" "f \<le> r" "r < 100" "length (q_data q) = 100"
    using Quene_indices [OF assms(1)] by metis
  have split: "drop f (take (Suc r) (q_data q)) = q_data q ! f # drop (Suc f) (take (Suc r) (q_data q))"
    using fr by (simp add: Cons_nth_drop_Suc [symmetric])
  then have x: "q_data q ! f = x" "drop (Suc f) (take (Suc r) (q_data q)) = xs"
    using assms(2) ne fr by (auto simp: Quene_contents_def nat_add_distrib)
  with ne fr show ?thesis
    by (auto simp: Dequene_def IsEmpty_def Quene_wf_def Quene_contents_def nat_add_distrib)
qed

lemma Dequene_empty: "Quene_wf q \<Longrightarrow> Quene_contents q = [] \<Longrightarrow> Dequene q = Some (- 1, q)"
  by (auto simp: Dequene_def Quene_wf_def Quene_contents_def)

interpretation quene: fifo_default Quene_wf Quene_contents Quene_room Enquene Dequene "- 1"
proof
  show "Enquene x s \<noteq> None" if "Quene_wf s" "Quene_room x s" for s x using Enquene_contents [OF that] by auto
  show "Quene_wf s' \<and> Quene_contents s' = Quene_contents s @ [x]" if "Quene_wf s" "Quene_room x s" "Enquene x s = Some s'" for s x s'
    using Enquene_contents [OF that(1,2)] that(3) by auto
  show "\<exists>s'. Dequene s = Some (x, s') \<and> Quene_wf s' \<and> Quene_contents s' = xs" if "Quene_wf s" "Quene_contents s = x # xs" for s x xs
    using Dequene_contents [OF that] by blast
  show "\<exists>s'. Dequene s = Some (- 1, s') \<and> Quene_wf s' \<and> Quene_contents s' = []" if "Quene_wf s" "Quene_contents s = []" for s
    using Dequene_empty [OF that] that by simp
qed

text \<open>A run that inserts at most as many elements as there are cells left behind \<^verbatim>\<open>rear\<close> has room.\<close>

fun adds :: "'a container_op list \<Rightarrow> nat" where
  "adds [] = 0"
| "adds (Add x # ops) = Suc (adds ops)"
| "adds (Take # ops) = adds ops"

lemma Quene_room_for:
  "Quene_wf q \<Longrightarrow> rear q + int (adds ops) < MaxNodes \<Longrightarrow> room_for Quene_room Enquene Dequene ops q"
proof (induction ops arbitrary: q rule: adds.induct)
  case (2 x ops)
  have room: "Quene_room x q" using "2.prems"(2) by (simp add: Quene_room_def)
  obtain q' where q': "Enquene x q = Some q'" "Quene_wf q'" "rear q' = rear q + 1"
    using Enquene_contents [OF "2.prems"(1) room] by blast
  then have "rear q' + int (adds ops) < MaxNodes" using "2.prems"(2) by simp
  with "2.IH" [OF q'(2)] q'(1) room show ?case by simp
next
  case (3 ops)
  show ?case
  proof (cases "Quene_contents q")
    case Nil
    then have "Dequene q = Some (- 1, q)" using "3.prems" Dequene_empty by blast
    then show ?thesis using "3.IH" [OF "3.prems"(1)] "3.prems"(2) by simp
  next
    case (Cons x xs)
    obtain q' where q': "Dequene q = Some (x, q')" "Quene_wf q'" "rear q' \<le> rear q"
      using Dequene_contents [OF "3.prems"(1) Cons] by blast
    with "3.IH" [OF q'(2)] "3.prems"(2) show ?thesis by simp
  qed
qed simp

text \<open>The full test comes one insertion too late: the insertion after the hundredth leaves the array.\<close>

lemma Enquene_overruns:
  "Quene_wf q \<Longrightarrow> rear q = MaxNodes - 1 \<Longrightarrow> Enquene x q = None"
  by (auto simp: Enquene_def Quene_wf_def IsEmpty_def wr_def)

text \<open>
  C13. From a fresh queue, every sequence of insertions and removals with at most 100 insertions
  behaves exactly like the abstract queue that answers \<^verbatim>\<open>-1\<close> when it is empty: it never leaves the array, returns
  the same elements in the same order, \<^verbatim>\<open>-1\<close> for every removal from the empty queue, and leaves the same contents.
\<close>

theorem quene_runs_exact:
  assumes "length (q_data q) = 100" "adds ops \<le> 100"
  shows "map_option (\<lambda>(out, q'). (out, Quene_contents q')) (run Enquene Dequene ops (InitQuene q)) =
    run list_put (list_get_or (- 1)) ops []"
proof -
  have "Quene_wf (InitQuene q)" "Quene_contents (InitQuene q) = []" using InitQuene_wf [OF assms(1)] by auto
  moreover have "rear (InitQuene q) + int (adds ops) < MaxNodes" using assms(2) by (simp add: InitQuene_def)
  ultimately show ?thesis using quene.run_default [OF _ Quene_room_for] by metis
qed

theorem quene_runs_exact_witness:
  "map_option (\<lambda>(out, q'). (out, Quene_contents q'))
     (run Enquene Dequene [Take, Add 3, Add 5, Take, Take, Take, Add 4] (InitQuene \<lparr>q_data = replicate 100 7, front = 0, rear = 9\<rparr>)) =
   Some ([- 1, 3, 5, - 1], [4])"
  using quene_runs_exact [of "\<lparr>q_data = replicate 100 7, front = 0, rear = 9\<rparr>" "[Take, Add 3, Add 5, Take, Take, Take, Add 4]"]
  by (simp add: list_put_def)

section \<open>ArrayStack.c\<close>

record AS =
  as_arr :: "int list"
  as_length :: int
  as_capacity :: int

definition CreateAS :: "array_malloc \<Rightarrow> AS" where
  "CreateAS malloc = \<lparr>as_arr = cells (malloc 10), as_length = 0, as_capacity = 10\<rparr>"

definition push_AS :: "int \<Rightarrow> AS \<Rightarrow> AS option" where
  "push_AS x as = do {
     arr \<leftarrow> wr (as_arr as) (as_length as) x;
     Some (as\<lparr>as_arr := arr, as_length := as_length as + 1\<rparr>)
   }"

definition pop_AS :: "AS \<Rightarrow> (int \<times> AS) option" where
  "pop_AS as =
     (if as_length as = 0 then Some (-1, as)
      else do {
        as \<leftarrow> Some (as\<lparr>as_length := as_length as - 1\<rparr>);
        val \<leftarrow> rd (as_arr as) (as_length as);
        Some (val, as)
      })"

definition ShowStark :: "AS \<Rightarrow> int list option" where
  "ShowStark as = print_range (as_arr as) 0 (as_length as)"

section \<open>ArrayStack2.c\<close>

abbreviation Max_Stack :: int where "Max_Stack \<equiv> 100"

record Stack =
  s_data :: "int list"
  top :: int

definition InitStack :: "Stack \<Rightarrow> Stack" where
  "InitStack s = s\<lparr>top := -1\<rparr>"

definition IsStackEmpty :: "Stack \<Rightarrow> bool" where
  "IsStackEmpty s \<longleftrightarrow> top s = -1"

definition Push :: "int \<Rightarrow> Stack \<Rightarrow> Stack option" where
  "Push x s =
     (if top s = Max_Stack - 1 then Some s
      else do {
        s \<leftarrow> Some (s\<lparr>top := top s + 1\<rparr>);
        d \<leftarrow> wr (s_data s) (top s) x;
        Some (s\<lparr>s_data := d\<rparr>)
      })"

definition Pop :: "Stack \<Rightarrow> (int \<times> Stack) option" where
  "Pop s =
     (if top s = -1 then Some (-1, s)
      else do {
        val \<leftarrow> rd (s_data s) (top s);
        Some (val, s\<lparr>top := top s - 1\<rparr>)
      })"

section \<open>Both stacks keep the stack contract\<close>

definition AS_wf :: "AS \<Rightarrow> bool" where
  "AS_wf s \<longleftrightarrow> 0 \<le> as_length s \<and> nat (as_length s) \<le> length (as_arr s)"

definition AS_contents :: "AS \<Rightarrow> int list" where
  "AS_contents s = rev (take (nat (as_length s)) (as_arr s))"

definition AS_room :: "int \<Rightarrow> AS \<Rightarrow> bool" where
  "AS_room x s \<longleftrightarrow> nat (as_length s) < length (as_arr s)"

definition Stack_wf :: "Stack \<Rightarrow> bool" where
  "Stack_wf s \<longleftrightarrow> length (s_data s) = nat Max_Stack \<and> -1 \<le> top s \<and> top s < Max_Stack"

definition Stack_contents :: "Stack \<Rightarrow> int list" where
  "Stack_contents s = rev (take (nat (top s + 1)) (s_data s))"

definition Stack_room :: "int \<Rightarrow> Stack \<Rightarrow> bool" where
  "Stack_room x s \<longleftrightarrow> top s < Max_Stack - 1"

lemma rev_take_Cons:
  assumes "rev (take n xs) = y # ys" "n \<le> length xs"
  obtains m where "n = Suc m" "xs ! m = y" "rev (take m xs) = ys"
proof (cases n)
  case (Suc m)
  with assms show ?thesis using that by (simp add: take_Suc_conv_app_nth)
qed (use assms in simp)

lemma push_AS_contents:
  assumes "AS_wf s" "AS_room x s"
  shows "\<exists>s'. push_AS x s = Some s' \<and> AS_wf s' \<and> AS_contents s' = x # AS_contents s"
proof -
  obtain n where n: "as_length s = int n" "n < length (as_arr s)"
    using assms by (auto simp: AS_wf_def AS_room_def elim!: nonneg_int_cases)
  then show ?thesis
    by (simp add: push_AS_def AS_wf_def AS_contents_def take_Suc_update nat_add_distrib)
qed

lemma pop_AS_contents:
  assumes "AS_wf s" "AS_contents s = x # xs"
  shows "\<exists>s'. pop_AS s = Some (x, s') \<and> AS_wf s' \<and> AS_contents s' = xs"
proof -
  obtain n where n: "as_length s = int n" "n \<le> length (as_arr s)"
    using assms by (auto simp: AS_wf_def elim!: nonneg_int_cases)
  have "rev (take n (as_arr s)) = x # xs" using assms(2) n(1) by (simp only: AS_contents_def nat_int)
  then obtain m where m: "n = Suc m" "as_arr s ! m = x" "rev (take m (as_arr s)) = xs"
    using n(2) by (rule rev_take_Cons)
  with n show ?thesis by (auto simp: pop_AS_def AS_wf_def AS_contents_def)
qed

lemma Push_contents:
  assumes "Stack_wf s" "Stack_room x s"
  shows "\<exists>s'. Push x s = Some s' \<and> Stack_wf s' \<and> Stack_contents s' = x # Stack_contents s"
proof -
  define n where "n = nat (top s + 1)"
  have n: "top s = int n - 1" "n < length (s_data s)" "length (s_data s) = 100" "n < 100"
    using assms by (auto simp: Stack_wf_def Stack_room_def n_def)
  then show ?thesis
    by (auto simp: Push_def Stack_wf_def Stack_contents_def take_Suc_update nat_add_distrib)
qed

lemma Pop_contents:
  assumes "Stack_wf s" "Stack_contents s = x # xs"
  shows "\<exists>s'. Pop s = Some (x, s') \<and> Stack_wf s' \<and> Stack_contents s' = xs"
proof -
  define n where "n = nat (top s + 1)"
  have n: "top s = int n - 1" "n \<le> length (s_data s)" "length (s_data s) = 100" "n \<le> 100"
    using assms by (auto simp: Stack_wf_def n_def)
  have "rev (take n (s_data s)) = x # xs" using assms(2) by (simp only: Stack_contents_def n_def)
  then obtain m where m: "n = Suc m" "s_data s ! m = x" "rev (take m (s_data s)) = xs"
    using n(2) by (rule rev_take_Cons)
  with n show ?thesis by (auto simp: Pop_def Stack_wf_def Stack_contents_def)
qed

interpretation as: lifo AS_wf AS_contents AS_room push_AS pop_AS
  by unfold_locales (use push_AS_contents pop_AS_contents in \<open>fastforce+\<close>)

interpretation stack: lifo Stack_wf Stack_contents Stack_room Push Pop
  by unfold_locales (use Push_contents Pop_contents in \<open>fastforce+\<close>)

end
