(* ===== verification/Graph_Search.thy ===== *)
theory Graph_Search
  imports Array_Containers
begin

text \<open>
  Breadth-first search (\<^verbatim>\<open>BreadthFirstSearch.c\<close>) on an adjacency matrix. The program has its own copy of the queue of
  \<^verbatim>\<open>ArrayQuene2.c\<close>, which is the one of \<open>Array_Containers\<close>. A row of the matrix has \<^verbatim>\<open>MaxNodes\<close> cells; \<open>None\<close> is an access
  outside of the matrix, the marks or the queue, or a search that does not return.
\<close>

section \<open>The program\<close>

text \<open>The inner loop over the possible neighbours of a node.\<close>

function scan_row :: "int list list \<Rightarrow> int \<Rightarrow> int \<Rightarrow> int \<Rightarrow> bool list \<Rightarrow> Quene \<Rightarrow> (bool list \<times> Quene) option" where
  "scan_row graph current NumNode i visited q =
     (if i \<le> NumNode
      then do {
        row \<leftarrow> rd graph current;
        x \<leftarrow> rd row i;
        seen \<leftarrow> (if x = 1 then rd visited i else Some True);
        if x = 1 \<and> \<not> seen
        then do { visited \<leftarrow> wr visited i True; q \<leftarrow> Enquene i q; scan_row graph current NumNode (i + 1) visited q }
        else scan_row graph current NumNode (i + 1) visited q
      }
      else Some (visited, q))"
  by pat_completeness auto
termination by (relation "measure (\<lambda>(graph, current, NumNode, i, visited, q). nat (NumNode + 1 - i))") auto

partial_function (option) bfs_loop :: "int list list \<Rightarrow> int \<Rightarrow> bool list \<Rightarrow> Quene \<Rightarrow> int list option" where
  "bfs_loop graph NumNode visited q =
     (if IsEmpty q then Some []
      else do {
        (current, q) \<leftarrow> Dequene q;
        (visited, q) \<leftarrow> scan_row graph current NumNode 0 visited q;
        out \<leftarrow> bfs_loop graph NumNode visited q;
        Some (current # out)
      })"

text \<open>\<open>q0\<close> is the uninitialised queue on the stack; the result is what is printed.\<close>

definition bfs :: "Quene \<Rightarrow> int list list \<Rightarrow> int \<Rightarrow> int \<Rightarrow> int list option" where
  "bfs q0 graph NumNode StartNode =
     do {
       visited \<leftarrow> wr (replicate (nat MaxNodes) False) StartNode True;
       q \<leftarrow> Enquene StartNode (InitQuene q0);
       bfs_loop graph NumNode visited q
     }"

section \<open>Scanning a row\<close>

declare scan_row.simps [simp del]

definition marked :: "bool list \<Rightarrow> int set" where
  "marked visited = {i. 0 \<le> i \<and> nat i < length visited \<and> visited ! nat i}"

lemma marked_update: "0 \<le> i \<Longrightarrow> nat i < length visited \<Longrightarrow> marked (visited[nat i := True]) = insert i (marked visited)"
  by (auto simp: marked_def nth_list_update split: if_splits)

text \<open>The nodes from \<open>i\<close> on that a scan adds.\<close>

definition fresh_neighbours :: "int list \<Rightarrow> int \<Rightarrow> int \<Rightarrow> bool list \<Rightarrow> int list" where
  "fresh_neighbours row i n visited = filter (\<lambda>j. row ! nat j = 1 \<and> j \<notin> marked visited) [i..n]"

lemma scan_row_spec:
  assumes "rd graph current = Some row" "length row = 100" "length visited = 100" "0 \<le> i" "n < 100" "Quene_wf q"
    "rear q + int (length (fresh_neighbours row i n visited)) < 100"
  shows "\<exists>visited' q'. scan_row graph current n i visited q = Some (visited', q') \<and> length visited' = 100 \<and>
    marked visited' = marked visited \<union> set (fresh_neighbours row i n visited) \<and> Quene_wf q' \<and>
    Quene_contents q' = Quene_contents q @ fresh_neighbours row i n visited \<and>
    rear q' = rear q + int (length (fresh_neighbours row i n visited))"
  using assms
proof (induction "nat (n + 1 - i)" arbitrary: i visited q)
  case 0
  then have "\<not> i \<le> n" by simp
  then show ?case using 0 by (subst scan_row.simps) (simp add: fresh_neighbours_def)
next
  case (Suc k)
  have i: "i \<le> n" "nat i < 100" and k: "k = nat (n + 1 - (i + 1))" using Suc.hyps(2) Suc.prems by auto
  have up: "[i..n] = i # [i + 1..n]" using i(1) by (rule upto_rec1)
  have rdrow: "rd row i = Some (row ! nat i)" "rd visited i = Some (visited ! nat i)"
    using i Suc.prems by (auto simp: rd_def)
  have seen: "i \<in> marked visited \<longleftrightarrow> visited ! nat i" using i Suc.prems by (simp add: marked_def)
  show ?case
  proof (cases "row ! nat i = 1 \<and> \<not> visited ! nat i")
    case True
    let ?v = "visited[nat i := True]"
    have m: "marked ?v = insert i (marked visited)" using marked_update i Suc.prems by simp
    have "filter (\<lambda>j. row ! nat j = 1 \<and> j \<notin> marked ?v) [i + 1..n] = filter (\<lambda>j. row ! nat j = 1 \<and> j \<notin> marked visited) [i + 1..n]"
      unfolding m by (rule filter_cong) auto
    then have f: "fresh_neighbours row i n visited = i # fresh_neighbours row (i + 1) n ?v"
      using True seen unfolding fresh_neighbours_def up by simp
    have "Quene_room i q" using Suc.prems(7) f by (simp add: Quene_room_def)
    then obtain q1 where q1: "Enquene i q = Some q1" "Quene_wf q1" "Quene_contents q1 = Quene_contents q @ [i]" "rear q1 = rear q + 1"
      using Enquene_contents [OF Suc.prems(6)] by blast
    obtain visited' q' where IH: "scan_row graph current n (i + 1) ?v q1 = Some (visited', q')" "length visited' = 100"
        "marked visited' = marked ?v \<union> set (fresh_neighbours row (i + 1) n ?v)" "Quene_wf q'"
        "Quene_contents q' = Quene_contents q1 @ fresh_neighbours row (i + 1) n ?v"
        "rear q' = rear q1 + int (length (fresh_neighbours row (i + 1) n ?v))"
      using Suc.hyps(1) [OF k, of ?v q1] Suc.prems q1 f by auto
    have "scan_row graph current n i visited q = Some (visited', q')"
      using True i rdrow Suc.prems IH(1) q1(1) by (subst scan_row.simps) (simp add: wr_def)
    then show ?thesis using IH(2-) q1 m f by simp
  next
    case False
    then have f: "fresh_neighbours row i n visited = fresh_neighbours row (i + 1) n visited"
      using seen unfolding fresh_neighbours_def up by auto
    have "scan_row graph current n i visited q = scan_row graph current n (i + 1) visited q"
      using False i rdrow Suc.prems by (subst scan_row.simps) auto
    then show ?thesis using Suc.hyps(1) [OF k, of visited q] Suc.prems f by auto
  qed
qed

section \<open>The search\<close>

text \<open>A matrix for \<open>n\<close> nodes: the cells behind the last column, of which the program reads one, are not 1.\<close>

definition adjacency :: "int list list \<Rightarrow> int \<Rightarrow> bool" where
  "adjacency graph n \<longleftrightarrow> 0 < n \<and> n < 100 \<and> length graph = nat n \<and> (\<forall>row \<in> set graph. length row = 100 \<and> row ! nat n \<noteq> 1)"

definition edges :: "int list list \<Rightarrow> int \<Rightarrow> (int \<times> int) set" where
  "edges graph n = {(u, v). 0 \<le> u \<and> u < n \<and> 0 \<le> v \<and> v < n \<and> graph ! nat u ! nat v = 1}"

definition search_inv :: "int list list \<Rightarrow> int \<Rightarrow> int \<Rightarrow> int list \<Rightarrow> bool list \<Rightarrow> Quene \<Rightarrow> bool" where
  "search_inv graph n s out visited q \<longleftrightarrow> length visited = 100 \<and> Quene_wf q \<and> distinct (out @ Quene_contents q) \<and>
     marked visited = set (out @ Quene_contents q) \<and> marked visited \<subseteq> {v. (s, v) \<in> (edges graph n)\<^sup>*} \<inter> {0..<n} \<and>
     s \<in> marked visited \<and> (\<forall>u \<in> set out. edges graph n `` {u} \<subseteq> marked visited) \<and> rear q < int (card (marked visited))"

lemma fresh_set:
  assumes "adjacency graph n" "0 \<le> u" "u < n" "row = graph ! nat u"
  shows "set (fresh_neighbours row 0 n visited) = edges graph n `` {u} - marked visited" "distinct (fresh_neighbours row 0 n visited)"
proof -
  have "row \<in> set graph" using assms by (auto simp: adjacency_def)
  then have "row ! nat n \<noteq> 1" using assms(1) by (auto simp: adjacency_def)
  then show "set (fresh_neighbours row 0 n visited) = edges graph n `` {u} - marked visited"
    using assms by (auto simp: fresh_neighbours_def edges_def order.order_iff_strict)
  show "distinct (fresh_neighbours row 0 n visited)" by (simp add: fresh_neighbours_def)
qed

lemma Quene_empty:
  assumes "Quene_wf q"
  shows "Quene_contents q = [] \<longleftrightarrow> IsEmpty q"
proof (cases "IsEmpty q")
  case False
  then have "0 \<le> front q" "front q \<le> rear q" "rear q < 100" "length (q_data q) = 100" using assms by (auto simp: Quene_wf_def)
  then have "\<not> length (take (nat (rear q + 1)) (q_data q)) \<le> nat (front q)" by simp
  then show ?thesis using False by (simp add: Quene_contents_def del: length_take)
qed (simp add: Quene_contents_def)

text \<open>One round of the outer loop.\<close>

lemma search_round:
  assumes "adjacency graph n" "search_inv graph n s out visited q" "Quene_contents q = u # rest"
  shows "\<exists>q1 visited' q'. Dequene q = Some (u, q1) \<and> scan_row graph u n 0 visited q1 = Some (visited', q') \<and>
    search_inv graph n s (out @ [u]) visited' q'"
proof -
  let ?E = "edges graph n" and ?M = "marked visited"
  have inv: "length visited = 100" "Quene_wf q" "distinct (out @ u # rest)" "?M = set (out @ u # rest)" "?M \<subseteq> {v. (s, v) \<in> ?E\<^sup>*} \<inter> {0..<n}"
      "s \<in> ?M" "\<forall>w \<in> set out. ?E `` {w} \<subseteq> ?M" "rear q < int (card ?M)"
    using assms(2) unfolding search_inv_def assms(3) by blast+
  have u: "0 \<le> u" "u < n" "(s, u) \<in> ?E\<^sup>*" using inv(4,5) by auto
  have n: "n < 100" "length graph = nat n" using assms(1) by (simp_all add: adjacency_def)
  let ?row = "graph ! nat u"
  have row: "rd graph u = Some ?row" "length ?row = 100" using u n assms(1) by (auto simp: rd_def adjacency_def)
  obtain q1 where q1: "Dequene q = Some (u, q1)" "Quene_wf q1" "Quene_contents q1 = rest" "rear q1 \<le> rear q"
    using Dequene_contents [OF inv(2) assms(3)] by auto
  let ?f = "fresh_neighbours ?row 0 n visited"
  note f = fresh_set [OF assms(1) u(1,2) refl, of visited]
  have sub: "?M \<union> set ?f \<subseteq> {0..<n}" using inv(5) f(1) by (auto simp: edges_def)
  have fin: "finite ?M" using sub by (meson finite_Un finite_atLeastLessThan_int finite_subset)
  have "?M \<inter> set ?f = {}" using f(1) by blast
  then have "card (?M \<union> set ?f) = card ?M + length ?f" using card_Un_disjoint [OF fin, of "set ?f"] distinct_card [OF f(2)] by simp
  moreover have "card (?M \<union> set ?f) \<le> card {0..<n}" using sub by (intro card_mono) auto
  ultimately have cards: "card (?M \<union> set ?f) = card ?M + length ?f" "int (card ?M + length ?f) \<le> n" using u by simp_all
  have "rear q1 + int (length ?f) < 100" using cards(2) inv(8) q1(4) n(1) by linarith
  then obtain visited' q' where sc: "scan_row graph u n 0 visited q1 = Some (visited', q')" "length visited' = 100"
      "marked visited' = ?M \<union> set ?f" "Quene_wf q'" "Quene_contents q' = rest @ ?f" "rear q' = rear q1 + int (length ?f)"
    using scan_row_spec [OF row inv(1) order_refl n(1) q1(2)] q1(3) by auto
  have "search_inv graph n s (out @ [u]) visited' q'"
    unfolding search_inv_def
  proof (intro conjI)
    show "distinct ((out @ [u]) @ Quene_contents q')" using inv(3,4) f sc(5) by auto
    show "marked visited' = set ((out @ [u]) @ Quene_contents q')" using inv(4) sc(3,5) by auto
    show "marked visited' \<subseteq> {v. (s, v) \<in> ?E\<^sup>*} \<inter> {0..<n}"
      using inv(5) sub sc(3) f(1) u(3) by (auto intro: rtrancl_into_rtrancl)
    show "\<forall>w \<in> set (out @ [u]). ?E `` {w} \<subseteq> marked visited'" using inv(7) sc(3) f(1) by auto
    show "rear q' < int (card (marked visited'))" using sc(3,6) cards(1) inv(8) q1(4) by simp
  qed (use sc inv(6) in auto)
  then show ?thesis using q1(1) sc(1) by blast
qed

lemma search_done:
  assumes "search_inv graph n s out visited q" "IsEmpty q"
  shows "set out = {v. (s, v) \<in> (edges graph n)\<^sup>*}"
proof -
  have inv: "set out = marked visited" "marked visited \<subseteq> {v. (s, v) \<in> (edges graph n)\<^sup>*}" "s \<in> marked visited"
      "\<forall>u \<in> set out. edges graph n `` {u} \<subseteq> marked visited"
    using assms Quene_empty [of q] unfolding search_inv_def by (metis append_Nil2, blast+)
  have "v \<in> set out" if "(s, v) \<in> (edges graph n)\<^sup>*" for v
    using that by (induction rule: rtrancl_induct) (use inv in auto)
  then show ?thesis using inv by auto
qed

lemma bfs_loop_visits:
  assumes "adjacency graph n" "search_inv graph n s out visited q"
  shows "\<exists>more. bfs_loop graph n visited q = Some more \<and> distinct (out @ more) \<and> set (out @ more) = {v. (s, v) \<in> (edges graph n)\<^sup>*}"
  using assms(2)
proof (induction "nat n - length out" arbitrary: out visited q rule: less_induct)
  case less
  have wf: "Quene_wf q" "distinct out" "set out \<subseteq> {0..<n}" using less.prems by (auto simp: search_inv_def)
  show ?case
  proof (cases "IsEmpty q")
    case True
    then have "bfs_loop graph n visited q = Some []" by (subst bfs_loop.simps) simp
    then show ?thesis using search_done [OF less.prems True] wf(2) by simp
  next
    case False
    then obtain u rest where ur: "Quene_contents q = u # rest" using Quene_empty [OF wf(1)] by (cases "Quene_contents q") auto
    obtain q1 visited' q' where st: "Dequene q = Some (u, q1)" "scan_row graph u n 0 visited q1 = Some (visited', q')"
        "search_inv graph n s (out @ [u]) visited' q'"
      using search_round [OF assms(1) less.prems ur] by blast
    have "distinct (out @ [u])" "set (out @ [u]) \<subseteq> {0..<n}" using st(3) by (auto simp: search_inv_def)
    then have "length (out @ [u]) \<le> nat n" using card_mono [of "{0..<n}" "set (out @ [u])"] by (simp add: distinct_card del: set_append)
    then obtain more where more: "bfs_loop graph n visited' q' = Some more" "distinct ((out @ [u]) @ more)"
        "set ((out @ [u]) @ more) = {v. (s, v) \<in> (edges graph n)\<^sup>*}"
      using less.hyps [OF _ st(3)] by (metis Suc_diff_Suc Suc_le_lessD length_append_singleton lessI)
    have "bfs_loop graph n visited q = Some (u # more)" using False st more(1) by (subst bfs_loop.simps) simp
    then show ?thesis using more(2,3) by auto
  qed
qed

text \<open>
  C33. Breadth-first search on the matrix of fewer than 100 nodes returns, never leaves the matrix, the marks or the
  queue, and prints every node that can be reached from the start node, each exactly once. (The loop over the
  neighbours reads one column too many; the cells there must not be 1, as in the zero-initialised matrix of the
  program.)
\<close>

theorem bfs_visits_reachable:
  assumes "adjacency graph n" "0 \<le> s" "s < n" "length (q_data q0) = 100"
  shows "\<exists>out. bfs q0 graph n s = Some out \<and> distinct out \<and> set out = {v. (s, v) \<in> (edges graph n)\<^sup>*}"
proof -
  let ?v = "(replicate (nat MaxNodes) False)[nat s := True]"
  have n: "n < 100" using assms(1) by (simp add: adjacency_def)
  have q: "Quene_wf (InitQuene q0)" "Quene_contents (InitQuene q0) = []" "rear (InitQuene q0) = - 1"
    using InitQuene_wf [OF assms(4)] by (simp_all add: InitQuene_def)
  then obtain q1 where q1: "Enquene s (InitQuene q0) = Some q1" "Quene_wf q1" "Quene_contents q1 = [s]" "rear q1 = 0"
    using Enquene_contents [OF q(1), of s] by (auto simp: Quene_room_def)
  have "marked (replicate 100 False) = {}" by (auto simp: marked_def)
  then have m: "marked ?v = {s}" using marked_update [of s "replicate 100 False"] assms(2,3) n by simp
  have "search_inv graph n s [] ?v q1" using m q1 assms(2,3) by (simp add: search_inv_def)
  then obtain out where "bfs_loop graph n ?v q1 = Some out" "distinct out" "set out = {v. (s, v) \<in> (edges graph n)\<^sup>*}"
    using bfs_loop_visits [OF assms(1)] by fastforce
  moreover have "wr (replicate (nat MaxNodes) False) s True = Some ?v" using assms(2,3) n by (simp add: wr_def)
  ultimately show ?thesis using q1(1) by (simp add: bfs_def)
qed

definition two_nodes :: "int list list" where
  "two_nodes = [[0, 1] @ replicate 98 0, replicate 100 0]"

theorem bfs_visits_reachable_witness:
  "\<exists>out. bfs \<lparr>q_data = replicate 100 0, front = 0, rear = 0\<rparr> two_nodes 2 0 = Some out \<and> distinct out \<and>
    set out = {v. (0, v) \<in> (edges two_nodes 2)\<^sup>*}"
  by (rule bfs_visits_reachable) (auto simp: adjacency_def two_nodes_def nth_append)

end
