(* ===== verification/Heap_Array.thy ===== *)
theory Heap_Array
  imports C_Memory
begin

text \<open>
  The priority queue of \<^verbatim>\<open>Heap.c\<close>: a binary heap in an array whose cell 0 holds the sentinel -1. \<open>None\<close> is an access
  outside of the array, the use of an uninitialised index, or a loop that does not end.
\<close>

record Heap =
  Capacity :: int
  Size :: int
  Arr :: "int list"

text \<open>Only one \<^verbatim>\<open>int\<close> is allocated for the array.\<close>

definition Initialize_Heap :: "int \<Rightarrow> Heap" where
  "Initialize_Heap MaxCapacity = \<lparr>Capacity = MaxCapacity, Size = 0, Arr = [- 1]\<rparr>"

text \<open>The loop of an insertion. At index 0 the parent is the cell itself, and the loop does not end.\<close>

function sift_up :: "int list \<Rightarrow> nat \<Rightarrow> int \<Rightarrow> int list option" where
  "sift_up a i e =
     do {
       p \<leftarrow> rd a (int (i div 2));
       if p > e
       then if i = 0 then None else do { a \<leftarrow> wr a (int i) p; sift_up a (i div 2) e }
       else wr a (int i) e
     }"
  by pat_completeness auto
termination by (relation "measure (\<lambda>(a, i, e). i)") auto

definition Insert_Heap :: "Heap \<Rightarrow> int \<Rightarrow> Heap option" where
  "Insert_Heap H e =
     do { let n = Size H + 1; a \<leftarrow> sift_up (Arr H) (nat n) e; Some (H\<lparr>Size := n, Arr := a\<rparr>) }"

text \<open>The loop of a removal, with the value of \<^verbatim>\<open>child\<close>, which is uninitialised before the first round.\<close>

function sift_down :: "int list \<Rightarrow> nat \<Rightarrow> int \<Rightarrow> nat \<Rightarrow> nat option \<Rightarrow> (int list \<times> nat option) option" where
  "sift_down a n e i child =
     (if 0 < i \<and> i * 2 \<le> n
      then do {
        x \<leftarrow> rd a (int (i * 2));
        y \<leftarrow> (if i * 2 \<noteq> n then rd a (int (i * 2 + 1)) else Some x);
        let c = (if i * 2 \<noteq> n \<and> y < x then i * 2 + 1 else i * 2);
        z \<leftarrow> rd a (int c);
        if e > z then do { a \<leftarrow> wr a (int i) z; sift_down a n e c (Some c) } else Some (a, Some c)
      }
      else Some (a, child))"
  by pat_completeness auto
termination by (relation "measure (\<lambda>(a, n, e, i, child). n + 1 - i)") (auto split: if_splits)

definition DeleteMin :: "Heap \<Rightarrow> (int \<times> Heap) option" where
  "DeleteMin H =
     do {
       m \<leftarrow> rd (Arr H) 1;
       l \<leftarrow> rd (Arr H) (Size H);
       let n = Size H - 1;
       (a, child) \<leftarrow> sift_down (Arr H) (nat n) l 1 None;
       c \<leftarrow> child;
       a \<leftarrow> wr a (int c) l;
       Some (m, H\<lparr>Size := n, Arr := a\<rparr>)
     }"

section \<open>Insertion into a large enough array\<close>

declare sift_up.simps [simp del] sift_down.simps [simp del]

definition heap_edges :: "int list \<Rightarrow> nat \<Rightarrow> bool" where
  "heap_edges a n \<longleftrightarrow> (\<forall>j. 2 \<le> j \<longrightarrow> j \<le> n \<longrightarrow> a ! (j div 2) \<le> a ! j)"

text \<open>The heap with a hole at \<open>i\<close> that is to be filled with \<open>e\<close>.\<close>

definition hole_at :: "int list \<Rightarrow> nat \<Rightarrow> nat \<Rightarrow> int \<Rightarrow> bool" where
  "hole_at a n i e \<longleftrightarrow> 1 \<le> i \<and> i \<le> n \<and> n < length a \<and> a ! 0 = - 1 \<and>
     (\<forall>j. 2 \<le> j \<longrightarrow> j \<le> n \<longrightarrow> j \<noteq> i \<longrightarrow> j div 2 \<noteq> i \<longrightarrow> a ! (j div 2) \<le> a ! j) \<and>
     (\<forall>j. 2 \<le> j \<longrightarrow> j \<le> n \<longrightarrow> j div 2 = i \<longrightarrow> e \<le> a ! j \<and> (2 \<le> i \<longrightarrow> a ! (i div 2) \<le> a ! j))"

lemma hole_moves_up:
  assumes "hole_at a n i e" "a ! (i div 2) > e" "- 1 \<le> e"
  shows "hole_at (a[i := a ! (i div 2)]) n (i div 2) e"
proof -
  let ?p = "i div 2" and ?a = "a[i := a ! (i div 2)]"
  have h: "1 \<le> i" "i \<le> n" "n < length a" "a ! 0 = - 1"
    "\<And>j. 2 \<le> j \<Longrightarrow> j \<le> n \<Longrightarrow> j \<noteq> i \<Longrightarrow> j div 2 \<noteq> i \<Longrightarrow> a ! (j div 2) \<le> a ! j"
    "\<And>j. 2 \<le> j \<Longrightarrow> j \<le> n \<Longrightarrow> j div 2 = i \<Longrightarrow> e \<le> a ! j \<and> (2 \<le> i \<longrightarrow> a ! (i div 2) \<le> a ! j)"
    using assms(1) unfolding hole_at_def by blast+
  have p: "1 \<le> ?p" using assms(2,3) h(4) by (cases "?p = 0") auto
  then have i2: "2 \<le> i" by simp
  have pi: "?p < i" "?p \<noteq> i" using h(1) by simp_all
  have self: "?a ! i = a ! ?p" "\<And>j. j \<noteq> i \<Longrightarrow> ?a ! j = a ! j" using h by auto
  have up: "2 \<le> ?p \<Longrightarrow> a ! (?p div 2) \<le> a ! ?p" using h(5) [of ?p] pi h(2) by simp
  show ?thesis
    unfolding hole_at_def
  proof (intro conjI allI impI)
    fix j assume j: "2 \<le> j" "j \<le> n" "j \<noteq> ?p" "j div 2 \<noteq> ?p"
    then have "j \<noteq> i" by auto
    show "?a ! (j div 2) \<le> ?a ! j"
    proof (cases "j div 2 = i")
      case True
      then show ?thesis using h(6) [OF j(1,2) True] i2 self \<open>j \<noteq> i\<close> by simp
    next
      case False
      then show ?thesis using h(5) [OF j(1,2) \<open>j \<noteq> i\<close> False] self(2) [OF \<open>j \<noteq> i\<close>] self(2) [OF False] by simp
    qed
  next
    fix j assume j: "2 \<le> j" "j \<le> n" "j div 2 = ?p"
    show "e \<le> ?a ! j" using h(5) [OF j(1,2)] assms(2) self j(3) pi by (cases "j = i") force+
    assume "2 \<le> ?p"
    then have "?p div 2 \<noteq> i" using pi by simp
    then show "?a ! (?p div 2) \<le> ?a ! j" using up \<open>2 \<le> ?p\<close> h(5) [OF j(1,2)] self j(3) pi by (cases "j = i") force+
  qed (use p pi h in auto)
qed

lemma hole_filled:
  assumes "hole_at a n i e" "a ! (i div 2) \<le> e"
  shows "heap_edges (a[i := e]) n"
  unfolding heap_edges_def
proof (intro allI impI)
  fix j assume j: "2 \<le> j" "j \<le> n"
  have i: "i < length a" "1 \<le> i" using assms(1) by (auto simp: hole_at_def)
  then have "i div 2 \<noteq> i" by simp
  then show "a[i := e] ! (j div 2) \<le> a[i := e] ! j"
    using assms j i by (cases "j = i"; cases "j div 2 = i") (auto simp: hole_at_def)
qed

lemma sift_up_heap:
  assumes "hole_at a n i e" "- 1 \<le> e"
  shows "\<exists>a'. sift_up a i e = Some a' \<and> heap_edges a' n \<and> length a' = length a \<and> a' ! 0 = - 1 \<and>
    mset a' = mset (a[i := e]) \<and> drop (Suc n) a' = drop (Suc n) a"
  using assms
proof (induction a i e rule: sift_up.induct)
  case (1 a i e)
  let ?p = "a ! (i div 2)"
  have b: "i < length a" "i div 2 < length a" "1 \<le> i" "i \<le> n" "a ! 0 = - 1" using 1(2) by (auto simp: hole_at_def)
  show ?case
  proof (cases "?p > e")
    case True
    note h = hole_moves_up [OF 1(2) True 1(3)]
    obtain a' where a': "sift_up (a[i := ?p]) (i div 2) e = Some a'" "heap_edges a' n" "length a' = length a" "a' ! 0 = - 1"
        "mset a' = mset (a[i := ?p, i div 2 := e])" "drop (Suc n) a' = drop (Suc n) (a[i := ?p])"
      using 1(1) [OF _ True, of "a[i := ?p]"] b h 1(3) by fastforce
    have ne: "i div 2 \<noteq> i" using b(3) by simp
    let ?x = "a[i := e]"
    have "a[i := ?p, i div 2 := e] = ?x[i div 2 := ?x ! i, i := ?x ! (i div 2)]"
      using ne b by (intro nth_equalityI) (auto simp: nth_list_update)
    then have "mset (a[i := ?p, i div 2 := e]) = mset ?x" using mset_swap [of i ?x "i div 2"] b(1,2) by (simp only: length_list_update)
    moreover have "sift_up a i e = Some a'" using True b a'(1) by (subst sift_up.simps) simp
    ultimately show ?thesis using a' b by simp
  next
    case False
    then have "sift_up a i e = Some (a[i := e])" using b by (subst sift_up.simps) simp
    then show ?thesis using hole_filled [OF 1(2)] False b by auto
  qed
qed

definition heap_elems :: "Heap \<Rightarrow> int list" where
  "heap_elems H = take (nat (Size H)) (drop 1 (Arr H))"

definition heap_ok :: "Heap \<Rightarrow> bool" where
  "heap_ok H \<longleftrightarrow> 0 \<le> Size H \<and> nat (Size H) < length (Arr H) \<and> Arr H ! 0 = - 1 \<and> heap_edges (Arr H) (nat (Size H))"

text \<open>With a free cell, inserting a number that is not below the sentinel keeps the heap and adds the number.\<close>

lemma Insert_Heap_ok:
  assumes "heap_ok H" "nat (Size H) + 1 < length (Arr H)" "- 1 \<le> e"
  shows "\<exists>H'. Insert_Heap H e = Some H' \<and> heap_ok H' \<and> Size H' = Size H + 1 \<and> mset (heap_elems H') = add_mset e (mset (heap_elems H))"
proof -
  let ?n = "nat (Size H)" and ?a = "Arr H"
  have n: "nat (Size H + 1) = Suc ?n" "0 \<le> Size H" using assms(1) by (auto simp: heap_ok_def)
  have "\<not> (2 \<le> j \<and> j \<le> Suc ?n \<and> j div 2 = Suc ?n)" for j by auto
  then have "hole_at ?a (Suc ?n) (Suc ?n) e"
    using assms n unfolding hole_at_def heap_ok_def heap_edges_def by (auto simp: le_Suc_eq)
  then obtain a' where a': "sift_up ?a (Suc ?n) e = Some a'" "heap_edges a' (Suc ?n)" "length a' = length ?a" "a' ! 0 = - 1"
      "mset a' = mset (?a[Suc ?n := e])" "drop (Suc (Suc ?n)) a' = drop (Suc (Suc ?n)) ?a"
    using sift_up_heap [of ?a "Suc ?n" "Suc ?n" e] assms(3) by blast
  have split: "xs = xs ! 0 # take k (drop 1 xs) @ drop (Suc k) xs" if "xs \<noteq> []" for xs :: "int list" and k
    using that by (cases xs) simp_all
  have ne: "a' \<noteq> []" "?a[Suc ?n := e] \<noteq> []" using a'(3) assms(2) by auto
  have "mset a' = add_mset (- 1) (mset (take (Suc ?n) (drop 1 a')) + mset (drop (Suc (Suc ?n)) ?a))"
    using arg_cong [OF split [OF ne(1), of "Suc ?n"], of mset] a'(4,6) by simp
  moreover have "take (Suc ?n) (drop 1 (?a[Suc ?n := e])) = take ?n (drop 1 ?a) @ [e]"
    using assms(2) by (cases ?a) (simp_all add: take_Suc_update)
  then have "mset (?a[Suc ?n := e]) = add_mset (- 1) (add_mset e (mset (take ?n (drop 1 ?a))) + mset (drop (Suc (Suc ?n)) ?a))"
    using arg_cong [OF split [OF ne(2), of "Suc ?n"], of mset] assms(1) by (simp add: heap_ok_def)
  ultimately have "mset (take (Suc ?n) (drop 1 a')) = add_mset e (mset (take ?n (drop 1 ?a)))" using a'(5) by simp
  then show ?thesis using a' n assms(2) by (simp add: Insert_Heap_def heap_ok_def heap_elems_def)
qed

lemma heap_min:
  assumes "heap_edges a n" "1 \<le> j" "j \<le> n"
  shows "a ! 1 \<le> a ! j"
  using assms(2,3)
proof (induction j rule: less_induct)
  case (less j)
  show ?case
  proof (cases "j = 1")
    case False
    then have "a ! (j div 2) \<le> a ! j" "1 \<le> j div 2" "j div 2 < j" using assms(1) less.prems by (auto simp: heap_edges_def)
    moreover have "j div 2 \<le> n" using less.prems by simp
    ultimately show ?thesis using less.IH [of "j div 2"] by (meson order_trans)
  qed simp
qed

section \<open>What goes wrong\<close>

text \<open>Only the sentinel was allocated, so that the first insertion already leaves the array.\<close>

lemma insert_out_of_bounds: "Insert_Heap (Initialize_Heap n) e = None"
proof -
  have "sift_up [- 1] 1 e = None" by (subst sift_up.simps) (simp add: rd_def wr_def)
  then show ?thesis by (simp add: Insert_Heap_def Initialize_Heap_def)
qed

text \<open>A number below the sentinel is carried up to cell 0, where the loop does not end.\<close>

lemma below_sentinel_loops: "a \<noteq> [] \<Longrightarrow> e < a ! 0 \<Longrightarrow> sift_up a 0 e = None"
  by (subst sift_up.simps) (simp add: rd_def)

text \<open>
  After a \<^verbatim>\<open>break\<close> the last number is written to the child and not to the hole: a number is lost and another one
  appears twice. With fewer than three numbers the index is uninitialised.
\<close>

lemma delete_loses_number:
  "DeleteMin \<lparr>Capacity = 15, Size = 6, Arr = [- 1, 1, 2, 3, 10, 11, 4]\<rparr> =
    Some (1, \<lparr>Capacity = 15, Size = 5, Arr = [- 1, 2, 2, 3, 4, 11, 4]\<rparr>)"
  by (simp add: DeleteMin_def sift_down.simps [of _ 5 _ "Suc 0"] sift_down.simps [of _ 5 _ 2] rd_def wr_def Let_def)

lemma delete_uninitialised:
  assumes "1 \<le> Size H" "Size H \<le> 2"
  shows "DeleteMin H = None"
proof -
  have "sift_down (Arr H) (nat (Size H - 1)) l 1 None = Some (Arr H, None)" for l
    using assms by (subst sift_down.simps) auto
  then show ?thesis by (cases "rd (Arr H) 1"; cases "rd (Arr H) (Size H)") (simp_all add: DeleteMin_def)
qed

end
