(* ===== verification/Number_Programs.thy ===== *)
theory Number_Programs
  imports C_Memory
begin

text \<open>
  The programs on numbers: greatest common divisor and least common multiple (\<^verbatim>\<open>Gcd.c\<close>), powers (\<^verbatim>\<open>BinPow.c\<close>), binary
  search (\<^verbatim>\<open>BinarySearch.c\<close>), the prime number programs (\<^verbatim>\<open>Ordinary _sieve_method.c\<close>, \<^verbatim>\<open>Eratosthene_sieve_method.c\<close>,
  \<^verbatim>\<open>Euler_sieve_method.c\<close>) and the array with a flexible member (\<^verbatim>\<open>FlexibleArray.c\<close>).

  An \<^verbatim>\<open>unsigned int\<close> is a 32-bit word; signed arithmetic that can overflow is checked. \<open>None\<close> is a signed overflow, a
  division by zero or an access outside of an array.
\<close>

section \<open>Greatest common divisor\<close>

function Gcd_uint :: "u32 \<Rightarrow> u32 \<Rightarrow> u32" where
  "Gcd_uint M N = (if N > 0 then Gcd_uint N (M mod N) else M)"
  by pat_completeness auto
termination by (relation "measure (\<lambda>(M, N). unat N)") (auto simp: unat_mod_distrib word_less_nat_alt)

definition crem :: "int \<Rightarrow> int \<Rightarrow> int option" where
  "crem m n = (if n = 0 \<or> m = - (2 ^ 63) \<and> n = - 1 then None else Some (cmod m n))"

function gcd_ll :: "int \<Rightarrow> int \<Rightarrow> int option" where
  "gcd_ll m n = (if n = 0 then Some m else case crem m n of None \<Rightarrow> None | Some r \<Rightarrow> gcd_ll n r)"
  by pat_completeness auto
termination
  by (relation "measure (\<lambda>(m, n). nat \<bar>n\<bar>)") (use cmod_abs_less in \<open>auto simp: crem_def split: if_splits\<close>)

definition Lcm_ll :: "int \<Rightarrow> int \<Rightarrow> int option" where
  "Lcm_ll m n = do { g \<leftarrow> gcd_ll m n; if g = 0 then None else do { q \<leftarrow> checked 64 (cdiv m g); checked 64 (q * n) } }"

section \<open>Powers\<close>

function BinPow :: "int \<Rightarrow> int \<Rightarrow> int option" where
  "BinPow x y =
     (if y = 0 then Some 1
      else do {
        ans \<leftarrow> BinPow x (cdiv y 2);
        sq \<leftarrow> checked 64 (ans * ans);
        if cmod y 2 \<noteq> 0 then checked 64 (sq * x) else Some sq
      })"
  by pat_completeness auto
termination by (relation "measure (\<lambda>(x, y). nat \<bar>y\<bar>)") (auto simp: cdiv_def abs_mult sgn_if)

section \<open>Binary search\<close>

function search_loop :: "int list \<Rightarrow> int \<Rightarrow> int \<Rightarrow> int \<Rightarrow> int option" where
  "search_loop arr goal lo hi =
     (if lo < hi
      then do {
        let mid = lo + cdiv (hi - lo) 2;
        x \<leftarrow> rd arr mid;
        if x < goal then search_loop arr goal (mid + 1) hi
        else if x > goal then search_loop arr goal lo (mid - 1)
        else Some mid
      }
      else Some (- 1))"
  by pat_completeness auto
termination by (relation "measure (\<lambda>(arr, goal, lo, hi). nat (hi - lo))") auto

definition BinarySearch :: "int list \<Rightarrow> int \<Rightarrow> int \<Rightarrow> int option" where
  "BinarySearch arr goal len = search_loop arr goal 0 (len - 1)"

section \<open>Prime numbers by trial division\<close>

text \<open>The inner loop: the flag for \<open>i\<close> with divisors \<open>j\<close> up to below \<open>lim\<close>.\<close>

function no_divisor :: "int \<Rightarrow> int \<Rightarrow> int \<Rightarrow> bool" where
  "no_divisor i j lim = (if j < lim then if cmod i j = 0 then False else no_divisor i (j + 1) lim else True)"
  by pat_completeness auto
termination by (relation "measure (\<lambda>(i, j, lim). nat (lim - j))") auto

text \<open>The loop of the last program runs while \<^verbatim>\<open>j <= sqrt(i)\<close>, which holds exactly if the square of \<open>j\<close> is at most \<open>i\<close>.\<close>

function no_divisor_sqrt :: "int \<Rightarrow> int \<Rightarrow> bool" where
  "no_divisor_sqrt i j = (if 0 < j \<and> j * j \<le> i then if cmod i j = 0 then False else no_divisor_sqrt i (j + 1) else True)"
  by pat_completeness auto
termination
proof (relation "measure (\<lambda>(i, j). nat (i + 1 - j))")
  fix i j :: int
  assume "0 < j \<and> j * j \<le> i"
  moreover from this have "j \<le> j * j" by simp
  ultimately have "j \<le> i" by linarith
  then show "((i, j + 1), i, j) \<in> measure (\<lambda>(i, j). nat (i + 1 - j))" by auto
qed simp

text \<open>The outer loop: the printed numbers, of which the program returns the count.\<close>

definition Ordinary_sieve_method :: "int \<Rightarrow> int list" where
  "Ordinary_sieve_method n = (if n = 2 then [2] else filter (\<lambda>i. no_divisor i 2 i) [2..n - 1])"

definition Ordinary_sieve_method1 :: "int \<Rightarrow> int list" where
  "Ordinary_sieve_method1 n = (if n = 2 then [2] else filter (\<lambda>i. no_divisor i 2 (cdiv i 2 + 1)) [2..n - 1])"

definition Ordinary_sieve_method2 :: "int \<Rightarrow> int list" where
  "Ordinary_sieve_method2 n =
     (if n = 2 then [2]
      else (if n \<noteq> 2 \<and> cmod n 2 = 0 then [2] else []) @
        filter (\<lambda>i. no_divisor i 3 (cdiv i 2)) (filter (\<lambda>i. i mod 2 = 1) [3..n - 1]))"

definition Ordinary_sieve_method3 :: "int \<Rightarrow> int list" where
  "Ordinary_sieve_method3 n = (if n = 2 then [2] else filter (\<lambda>i. no_divisor_sqrt i 2) [2..n - 1])"

section \<open>Sieves\<close>

abbreviation MAXNUM :: int where "MAXNUM \<equiv> 100000"

text \<open>\<open>for (j = 2; i * j < N; j++) access[i * j] = 1;\<close> and the loop around it.\<close>

function cross_out :: "int \<Rightarrow> int list \<Rightarrow> int \<Rightarrow> int \<Rightarrow> int list option" where
  "cross_out N access i j =
     (if 0 < i \<and> i * j < N then do { access \<leftarrow> wr access (i * j) 1; cross_out N access i (j + 1) } else Some access)"
  by pat_completeness auto
termination by (relation "measure (\<lambda>(N, access, i, j). nat (N - i * j))") (auto simp: algebra_simps)

function eratosthenes_loop :: "int \<Rightarrow> int list \<Rightarrow> int list \<Rightarrow> int \<Rightarrow> int \<Rightarrow> (int \<times> int list) option" where
  "eratosthenes_loop N access prime k i =
     (if i \<le> N
      then do {
        x \<leftarrow> rd access i;
        (prime, k) \<leftarrow> (if x = 0 then do { prime \<leftarrow> wr prime k i; Some (prime, k + 1) } else Some (prime, k));
        access \<leftarrow> cross_out N access i 2;
        eratosthenes_loop N access prime k (i + 1)
      }
      else Some (k, prime))"
  by pat_completeness auto
termination by (relation "measure (\<lambda>(N, access, prime, k, i). nat (N + 1 - i))") auto

definition Eratosthene_sieve_method :: "int list \<Rightarrow> int list \<Rightarrow> (int \<times> int list) option" where
  "Eratosthene_sieve_method access prime = eratosthenes_loop MAXNUM access prime 0 2"

text \<open>The inner loop of the linear sieve; \<open>j\<close> may reach the cell behind the primes found so far.\<close>

function euler_inner :: "int \<Rightarrow> int list \<Rightarrow> int list \<Rightarrow> int \<Rightarrow> int \<Rightarrow> int \<Rightarrow> int list option" where
  "euler_inner N access prime k i j =
     (if j \<le> k
      then do {
        p \<leftarrow> rd prime j;
        if i * p \<le> N
        then do {
          access \<leftarrow> wr access (i * p) 1;
          if p = 0 then None
          else if cmod i p = 0 then Some access
          else euler_inner N access prime k i (j + 1)
        }
        else Some access
      }
      else Some access)"
  by pat_completeness auto
termination by (relation "measure (\<lambda>(N, access, prime, k, i, j). nat (k + 1 - j))") auto

function euler_loop :: "int \<Rightarrow> int list \<Rightarrow> int list \<Rightarrow> int \<Rightarrow> int \<Rightarrow> (int \<times> int list) option" where
  "euler_loop N access prime k i =
     (if i < N
      then do {
        x \<leftarrow> rd access i;
        (prime, k) \<leftarrow> (if x = 0 then do { prime \<leftarrow> wr prime k i; Some (prime, k + 1) } else Some (prime, k));
        access \<leftarrow> euler_inner N access prime k i 0;
        euler_loop N access prime k (i + 1)
      }
      else Some (k, prime))"
  by pat_completeness auto
termination by (relation "measure (\<lambda>(N, access, prime, k, i). nat (N - i))") auto

definition Euler_sieve_method :: "int list \<Rightarrow> int list \<Rightarrow> (int \<times> int list) option" where
  "Euler_sieve_method access prime = euler_loop MAXNUM access prime 0 2"

section \<open>The flexible array\<close>

record FA =
  fa_length :: int
  fa_data :: "int list"

text \<open>\<open>malloc\<close> gives the cells of a fresh block for the given number of \<^verbatim>\<open>int\<close>s; a failed allocation is caught by \<^verbatim>\<open>assert\<close>.\<close>

definition CreateFA :: "(nat \<Rightarrow> int list option) \<Rightarrow> int \<Rightarrow> FA option" where
  "CreateFA malloc n = do { cells \<leftarrow> malloc (nat n); Some \<lparr>fa_length = n, fa_data = cells\<rparr> }"

section \<open>Euclid's algorithm computes the greatest common divisor\<close>

declare Gcd_uint.simps [simp del] gcd_ll.simps [simp del] BinPow.simps [simp del] search_loop.simps [simp del]
  no_divisor.simps [simp del] no_divisor_sqrt.simps [simp del] cross_out.simps [simp del] eratosthenes_loop.simps [simp del]
  euler_inner.simps [simp del] euler_loop.simps [simp del]

lemma Gcd_uint_gcd: "unat (Gcd_uint M N) = gcd (unat M) (unat N)"
proof (induction M N rule: Gcd_uint.induct)
  case (1 M N)
  show ?case
  proof (cases "N > 0")
    case True
    then show ?thesis using 1 gcd_red_nat [of "unat M" "unat N"] by (subst Gcd_uint.simps) (simp add: unat_mod_distrib)
  next
    case False
    then have "N = 0" by (simp add: word_gt_0)
    then show ?thesis by (subst Gcd_uint.simps) simp
  qed
qed

lemma gcd_cmod: "gcd n (cmod m n) = gcd m (n :: int)"
proof -
  have "cmod m n = (- cdiv m n) * n + m" by (simp add: cmod_def)
  then show ?thesis by (simp only: gcd_add_mult gcd.commute)
qed

lemma gcd_ll_gcd: "gcd_ll m n = Some r \<Longrightarrow> \<bar>r\<bar> = gcd m n"
proof (induction m n arbitrary: r rule: gcd_ll.induct)
  case (1 m n)
  show ?case
  proof (cases "n = 0")
    case True
    then show ?thesis using 1(2) by (simp add: gcd_ll.simps)
  next
    case False
    obtain q where q: "crem m n = Some q" "gcd_ll n q = Some r" using 1(2) False by (subst (asm) gcd_ll.simps) (auto split: option.splits)
    then have "q = cmod m n" by (auto simp: crem_def split: if_splits)
    then show ?thesis using 1(1) [OF False q] gcd_cmod by simp
  qed
qed

lemma gcd_ll_returns: "0 \<le> m \<Longrightarrow> 0 \<le> n \<Longrightarrow> gcd_ll m n = Some (gcd m n)"
proof (induction m n rule: gcd_ll.induct)
  case (1 m n)
  show ?case
  proof (cases "n = 0")
    case False
    then have n: "0 < n" "crem m n = Some (m mod n)" "0 \<le> m mod n" using 1(2,3) by (simp_all add: crem_def)
    then show ?thesis using 1(1) [OF False n(2)] 1(3) False gcd_red_int [of m n] by (subst gcd_ll.simps) simp
  qed (use 1 in \<open>simp add: gcd_ll.simps\<close>)
qed

lemma Lcm_ll_lcm:
  assumes "0 < m" "0 < n" "lcm m n < 2 ^ 63"
  shows "Lcm_ll m n = Some (lcm m n)"
proof -
  have g: "0 < gcd m n" using assms(1) by simp
  obtain k where k: "m = gcd m n * k" using gcd_dvd1 [of m n] by (rule dvdE)
  then have d: "m div gcd m n = k" "0 \<le> k" using g assms(1) by (metis nonzero_mult_div_cancel_left less_irrefl, metis zero_less_mult_pos less_imp_le)
  have "gcd m n * lcm m n = m * n" using gcd_mult_lcm [of m n] assms(1,2) by simp
  also have "\<dots> = gcd m n * (k * n)" using k by (metis mult.assoc)
  finally have l: "k * n = lcm m n" using g by (metis mult_cancel_left less_irrefl)
  have "k \<le> k * n" using d(2) assms(2) by (simp add: mult_le_cancel_left1)
  then have "in_int 64 k" "in_int 64 (k * n)" using d(2) l assms by (simp_all add: in_int_def)
  then show ?thesis using assms g d(1) l by (simp add: Lcm_ll_def gcd_ll_returns)
qed

lemma Lcm_zero_divides: "Lcm_ll 0 0 = None"
  by (simp add: Lcm_ll_def gcd_ll.simps)

section \<open>Powers without overflow are exact\<close>

lemma abs_in_int: "\<bar>v\<bar> < 2 ^ 63 \<Longrightarrow> in_int 64 v"
  by (simp add: in_int_def abs_less_iff)

lemma BinPow_nat: "\<bar>x ^ n\<bar> < 2 ^ 63 \<Longrightarrow> BinPow x (int n) = Some (x ^ n)"
proof (induction n rule: less_induct)
  case (less n)
  show ?case
  proof (cases "n = 0")
    case True
    then show ?thesis by (simp add: BinPow.simps)
  next
    case False
    let ?h = "n div 2" and ?r = "n mod 2"
    have n: "n = ?h + ?h + ?r" using mult_div_mod_eq [of 2 n] by linarith
    have split: "x ^ n = (x ^ ?h * x ^ ?h) * x ^ ?r" by (subst n) (simp only: power_add)
    have small: "\<bar>x ^ ?h * x ^ ?h\<bar> < 2 ^ 63 \<and> \<bar>x ^ ?h\<bar> < 2 ^ 63"
    proof (cases "x = 0")
      case True
      then show ?thesis by (simp add: power_0_left)
    next
      case nz: False
      then have one: "1 \<le> \<bar>x ^ ?h\<bar>" "1 \<le> \<bar>x ^ ?r\<bar>" by (simp_all add: power_abs one_le_power)
      have "\<bar>x ^ ?h * x ^ ?h\<bar> \<le> \<bar>x ^ n\<bar>" using one(2) unfolding split by (simp add: abs_mult mult_le_cancel_left1)
      moreover have "\<bar>x ^ ?h\<bar> \<le> \<bar>x ^ ?h * x ^ ?h\<bar>"
        using mult_left_mono [OF one(1), of "\<bar>x ^ ?h\<bar>"] unfolding abs_mult by simp
      ultimately show ?thesis using less.prems by linarith
    qed
    have h: "cdiv (int n) 2 = int ?h" "cmod (int n) 2 = int ?r" by (simp_all add: zdiv_int zmod_int)
    have rec: "BinPow x (int ?h) = Some (x ^ ?h)" using less.IH [of ?h] small False by simp
    have ok: "in_int 64 (x ^ ?h * x ^ ?h)" "in_int 64 (x ^ n)" using small less.prems by (simp_all only: abs_in_int)
    have "?r = 0 \<or> ?r = 1" by auto
    then show ?thesis using False rec ok split h by (subst BinPow.simps) auto
  qed
qed

lemma BinPow_power: "0 \<le> y \<Longrightarrow> \<bar>x ^ nat y\<bar> < 2 ^ 63 \<Longrightarrow> BinPow x y = Some (x ^ nat y)"
  using BinPow_nat [of x "nat y"] by simp

section \<open>Binary search\<close>

text \<open>The search stays inside the array, and a number it returns is the position of the goal.\<close>

lemma search_loop_sound:
  assumes "0 \<le> lo" "hi < int (length arr)"
  shows "\<exists>r. search_loop arr goal lo hi = Some r \<and> (r = - 1 \<or> 0 \<le> r \<and> r < int (length arr) \<and> arr ! nat r = goal)"
  using assms
proof (induction arr goal lo hi rule: search_loop.induct)
  case (1 arr goal lo hi)
  show ?case
  proof (cases "lo < hi")
    case True
    define mid where "mid = lo + (hi - lo) div 2"
    have m: "lo \<le> mid" "mid < hi" using True by (auto simp: mid_def)
    have "rd arr mid = Some (arr ! nat mid)" using m 1(3,4) by (simp add: rd_def nat_less_iff)
    then show ?thesis using 1 m True by (subst search_loop.simps) (auto simp: Let_def simp flip: mid_def)
  next
    case False
    then show ?thesis by (subst search_loop.simps) simp
  qed
qed

lemma BinarySearch_sound:
  "\<exists>r. BinarySearch arr goal (int (length arr)) = Some r \<and> (r = - 1 \<or> 0 \<le> r \<and> r < int (length arr) \<and> arr ! nat r = goal)"
  by (simp add: BinarySearch_def search_loop_sound)

text \<open>The loop ends while one candidate is left: the only element of an array is never found.\<close>

lemma BinarySearch_misses: "BinarySearch [x] x 1 = Some (- 1)" "BinarySearch [1, 2, 3] 3 3 = Some (- 1)"
  by (simp_all add: BinarySearch_def search_loop.simps rd_def Let_def)

section \<open>Trial division\<close>

lemma no_divisor_iff: "0 < j \<Longrightarrow> 0 \<le> i \<Longrightarrow> no_divisor i j lim \<longleftrightarrow> (\<forall>d. j \<le> d \<longrightarrow> d < lim \<longrightarrow> \<not> d dvd i)"
proof (induction i j lim rule: no_divisor.induct)
  case (1 i j lim)
  have step: "(\<forall>d. j \<le> d \<longrightarrow> P d) \<longleftrightarrow> P j \<and> (\<forall>d. j + 1 \<le> d \<longrightarrow> P d)" for P by (metis zless_imp_add1_zle order_le_less add1_zle_eq order_refl)
  have c: "cmod i j = 0 \<longleftrightarrow> j dvd i" using 1(2,3) by (simp add: dvd_eq_mod_eq_0)
  show ?case using 1 c by (subst no_divisor.simps) (auto simp: step [where P = "\<lambda>d. d < lim \<longrightarrow> \<not> d dvd i"])
qed

lemma no_divisor_sqrt_iff: "0 < j \<Longrightarrow> 0 \<le> i \<Longrightarrow> no_divisor_sqrt i j \<longleftrightarrow> (\<forall>d. j \<le> d \<longrightarrow> d * d \<le> i \<longrightarrow> \<not> d dvd i)"
proof (induction i j rule: no_divisor_sqrt.induct)
  case (1 i j)
  have c: "cmod i j = 0 \<longleftrightarrow> j dvd i" using 1(2,3) by (simp add: dvd_eq_mod_eq_0)
  show ?case
  proof (cases "j * j \<le> i")
    case True
    have "j = d \<or> j + 1 \<le> d" if "j \<le> d" for d using that by linarith
    then show ?thesis using 1 c True by (subst no_divisor_sqrt.simps) force
  next
    case False
    have "\<not> d * d \<le> i" if "j \<le> d" for d using mult_mono [of j d j d] that 1(2) False by linarith
    then show ?thesis using False by (subst no_divisor_sqrt.simps) auto
  qed
qed

text \<open>A number with a proper divisor has one up to its half, and one whose square is not larger.\<close>

lemma smaller_divisor:
  assumes "2 \<le> d" "d < i" "d dvd (i :: int)"
  shows "d \<le> i div 2" "\<exists>e. 2 \<le> e \<and> e * e \<le> i \<and> e dvd i"
proof -
  obtain k where k: "i = d * k" using assms(3) by (rule dvdE)
  have k2: "2 \<le> k"
  proof (rule ccontr)
    assume "\<not> 2 \<le> k"
    then have "k \<le> 0 \<or> k = 1" by linarith
    then show False using k assms(1,2) by (auto simp: mult_le_0_iff)
  qed
  then have "d * 2 \<le> i" using k assms(1) by simp
  then show "d \<le> i div 2" by simp
  show "\<exists>e. 2 \<le> e \<and> e * e \<le> i \<and> e dvd i"
  proof (cases "d \<le> k")
    case True
    then have "d * d \<le> i" using k assms(1) by simp
    then show ?thesis using assms by blast
  next
    case False
    then have "k * k \<le> i" using k k2 by simp
    then show ?thesis using k k2 by (intro exI [of _ k]) simp
  qed
qed

text \<open>The three programs without a step of two print the same numbers: those without a proper divisor.\<close>

lemma trial_divisions_agree:
  "Ordinary_sieve_method1 n = Ordinary_sieve_method n" "Ordinary_sieve_method3 n = Ordinary_sieve_method n"
  "n \<noteq> 2 \<Longrightarrow> set (Ordinary_sieve_method n) = {i. 2 \<le> i \<and> i < n \<and> (\<forall>d. 2 \<le> d \<longrightarrow> d < i \<longrightarrow> \<not> d dvd i)}"
proof -
  have half: "no_divisor i 2 (cdiv i 2 + 1) = no_divisor i 2 i" if "2 \<le> i" for i
    using that smaller_divisor(1) [of _ i] by (auto simp: no_divisor_iff)
  have root: "no_divisor_sqrt i 2 = no_divisor i 2 i" if i: "2 \<le> i" for i
  proof -
    have "e < i" if "2 \<le> e" "e * e \<le> i" for e
      using that mult_strict_left_mono [of 1 e e] by linarith
    then show ?thesis using i smaller_divisor(2) [of _ i] by (auto simp: no_divisor_iff no_divisor_sqrt_iff)
  qed
  show "Ordinary_sieve_method1 n = Ordinary_sieve_method n" "Ordinary_sieve_method3 n = Ordinary_sieve_method n"
    using half root by (auto simp: Ordinary_sieve_method_def Ordinary_sieve_method1_def Ordinary_sieve_method3_def intro!: filter_cong)
  show "n \<noteq> 2 \<Longrightarrow> set (Ordinary_sieve_method n) = {i. 2 \<le> i \<and> i < n \<and> (\<forall>d. 2 \<le> d \<longrightarrow> d < i \<longrightarrow> \<not> d dvd i)}"
    by (auto simp: Ordinary_sieve_method_def no_divisor_iff)
qed

text \<open>The program with steps of two forgets the number 2 when its bound is odd.\<close>

lemma step_two_misses: "2 < n \<Longrightarrow> odd n \<Longrightarrow> 2 \<in> set (Ordinary_sieve_method n) \<and> 2 \<notin> set (Ordinary_sieve_method2 n)"
  by (auto simp: Ordinary_sieve_method_def Ordinary_sieve_method2_def no_divisor_iff odd_iff_mod_2_eq_one)

section \<open>The sieves leave their arrays\<close>

lemma cross_out_length: "cross_out N access i j = Some access' \<Longrightarrow> length access' = length access"
proof (induction N access i j rule: cross_out.induct)
  case (1 N access i j)
  then show ?case by (subst (asm) (2) cross_out.simps) (auto simp: bind_eq_Some_conv dest: wr_length split: if_splits)
qed

text \<open>The outer loop of the sieve of Eratosthenes runs up to the bound, one past the end of the array.\<close>

lemma eratosthenes_leaves: "i \<le> N \<Longrightarrow> length access = nat N \<Longrightarrow> eratosthenes_loop N access prime k i = None"
proof (induction N access prime k i rule: eratosthenes_loop.induct)
  case (1 N access prime k i)
  show ?case
  proof (rule ccontr)
    assume "eratosthenes_loop N access prime k i \<noteq> None"
    then obtain r where r: "eratosthenes_loop N access prime k i = Some r" by auto
    then obtain x prime' k' access' where s: "rd access i = Some x"
        "(if x = 0 then do { prime \<leftarrow> wr prime k i; Some (prime, k + 1) } else Some (prime, k)) = Some (prime', k')"
        "cross_out N access i 2 = Some access'" "eratosthenes_loop N access' prime' k' (i + 1) = Some r"
      using 1(2) by (subst (asm) eratosthenes_loop.simps) (auto simp: bind_eq_Some_conv)
    have "i < N" using s(1) 1(3) by (auto simp: rd_def split: if_splits)
    then show False using 1(1) [OF 1(2) s(1,2) refl s(3)] cross_out_length [OF s(3)] 1(3) s(4) by simp
  qed
qed

lemma Eratosthene_leaves_array: "length access = nat MAXNUM \<Longrightarrow> Eratosthene_sieve_method access prime = None"
  by (simp add: Eratosthene_sieve_method_def eratosthenes_leaves)

text \<open>The linear sieve marks the double of half the bound, which is one past the end of the array.\<close>

lemma euler_inner_length: "euler_inner N access prime k i j = Some access' \<Longrightarrow> length access' = length access"
proof (induction N access prime k i j rule: euler_inner.induct)
  case (1 N access prime k i j)
  then show ?case by (subst (asm) (2) euler_inner.simps) (auto simp: bind_eq_Some_conv dest: wr_length split: if_splits)
qed

lemma euler_leaves:
  assumes "rd prime 0 = Some 2" "1 \<le> k" "i \<le> m" "N = 2 * m" "0 < m" "length access = nat N"
  shows "euler_loop N access prime k i = None"
  using assms
proof (induction N access prime k i rule: euler_loop.induct)
  case (1 N access prime k i)
  show ?case
  proof (rule ccontr)
    assume "euler_loop N access prime k i \<noteq> None"
    then obtain r where r: "euler_loop N access prime k i = Some r" by auto
    have lt: "i < N" using 1(4,5,6) by simp
    then obtain x prime' k' access' where s: "rd access i = Some x"
        "(if x = 0 then do { prime \<leftarrow> wr prime k i; Some (prime, k + 1) } else Some (prime, k)) = Some (prime', k')"
        "euler_inner N access prime' k' i 0 = Some access'" "euler_loop N access' prime' k' (i + 1) = Some r"
      using r by (subst (asm) euler_loop.simps) (auto simp: bind_eq_Some_conv)
    have p: "rd prime' 0 = Some 2" "1 \<le> k'" using s(2) 1(2,3) by (auto simp: rd_def wr_def bind_eq_Some_conv split: if_splits)
    have "i \<noteq> m"
    proof
      assume "i = m"
      then have "euler_inner N access prime' k' i 0 = None"
        using p 1(5,7) by (subst euler_inner.simps) (simp add: wr_def)
      then show False using s(3) by simp
    qed
    then show False using 1(1) [OF lt s(1,2) refl s(3) p _ 1(5,6)] euler_inner_length [OF s(3)] 1(4,7) s(4) by simp
  qed
qed

lemma Euler_leaves_array:
  assumes "length access = nat MAXNUM" "set access = {0}" "length prime = nat MAXNUM"
  shows "Euler_sieve_method access prime = None"
proof -
  have a: "rd access 2 = Some 0" using assms(1,2) nth_mem [of 2 access] by (auto simp: rd_def)
  obtain prime' where p: "wr prime 0 2 = Some prime'" "rd prime' 0 = Some 2"
    using assms(3) by (cases prime) (auto simp: wr_def rd_def)
  have "euler_loop MAXNUM access' prime' 1 3 = None" if "length access' = nat MAXNUM" for access'
    using euler_leaves [of prime' 1 3 50000 MAXNUM access'] p that by simp
  then have "euler_loop MAXNUM access prime 0 2 = None"
    using a p assms(1) euler_inner_length [of MAXNUM access prime' 1 2 0]
    by (subst euler_loop.simps) (cases "euler_inner MAXNUM access prime' 1 2 0"; simp)
  then show ?thesis by (simp add: Euler_sieve_method_def)
qed

end
