(* ===== verification/Binder_Alloc.thy ===== *)
theory Binder_Alloc
  imports Prelude
begin

text \<open>
  The buffer allocator of the Binder driver (\<^verbatim>\<open>binder_alloc.c\<close>): the per-process address
  range, the list of buffers that tiles it, the free tree ordered by size, the tree of allocated
  buffers ordered by address, the page array with its LRU marks, and the budget for
  asynchronous transactions. This theory holds the data and every operation; the proofs are in
  the theories that import it.

  Pointers to \<^verbatim>\<open>struct binder_buffer\<close> are natural numbers and the structures live in the store
  \<open>bufs\<close>. User addresses and the sizes derived from them are natural numbers (they stay inside
  one mapped area of at most 4 MB); the sizes a client passes in and the asynchronous budget
  are 64-bit words, because their arithmetic wraps.
\<close>

section \<open>Data\<close>

datatype kerr =
    EPERM | ENOMEM | ESRCH | EINVAL | ENOSPC | EBUSY | EFAULT | EPROTO | EBADF | EAGAIN | ERESTARTSYS | KBUG

record binder_buffer =
  user_data :: nat
  bb_free :: bool
  clear_on_free :: bool
  allow_user_free :: bool
  async_transaction :: bool
  transaction :: "nat option"
  target_node :: "nat option"
  data_size :: u64
  offsets_size :: u64
  extra_buffers_size :: u64
  bb_pid :: int

text \<open>What \<^verbatim>\<open>kzalloc\<close> returns: every field zero.\<close>

definition zeroed_buffer :: binder_buffer where
  "zeroed_buffer =
     \<lparr>user_data = 0, bb_free = False, clear_on_free = False, allow_user_free = False,
      async_transaction = False, transaction = None, target_node = None, data_size = 0, offsets_size = 0,
      extra_buffers_size = 0, bb_pid = 0\<rparr>"

record binder_lru_page =
  page_ptr :: "(nat \<Rightarrow> u8) option"
  on_lru :: bool

record vm_area =
  vm_start :: nat
  vm_end :: nat
  vm_mm :: nat

record binder_alloc =
  ba_pid :: int
  vma :: "vm_area option"
  vma_vm_mm :: "nat option"
  ba_buffer :: nat
  buffer_size :: nat
  buffers :: "nat list"
  bufs :: "nat \<Rightarrow> binder_buffer"
  free_buffers :: "nat tree"
  allocated_buffers :: "nat tree"
  free_async_space :: u64
  pages :: "nat \<Rightarrow> binder_lru_page"
  pages_allocated :: bool
  pages_high :: nat
  warns :: nat

text \<open>
  The kernel services the allocator calls: the page size, the size of the bookkeeping
  structure, the rebalancing steps of the red-black tree library, the reference on the memory
  map, and the outcome of each memory request of the call that is being made.
  \<open>copy_from_user\<close> gives the bytes that arrive and the number of bytes not copied.
\<close>

record kernel_env =
  page_shift :: nat
  sizeof_binder_buffer :: u64
  rb_insert_color :: "nat tree \<Rightarrow> nat tree"
  rb_erase :: "nat \<Rightarrow> nat tree \<Rightarrow> nat tree"
  mmget_not_zero :: bool
  alloc_page_ok :: "nat \<Rightarrow> bool"
  vm_insert_page_ok :: "nat \<Rightarrow> bool"
  kcalloc_pages_ok :: bool
  kzalloc_buffer :: "nat option"
  copy_from_user :: "nat \<Rightarrow> nat \<Rightarrow> u8 list \<times> nat"

definition PAGE_SIZE :: "kernel_env \<Rightarrow> nat" where
  "PAGE_SIZE env = 2 ^ page_shift env"

text \<open>\<^verbatim>\<open>addr & PAGE_MASK\<close>, \<^verbatim>\<open>PAGE_ALIGN(addr)\<close> and \<^verbatim>\<open>PAGE_ALIGNED(addr)\<close>.\<close>

definition page_mask :: "kernel_env \<Rightarrow> nat \<Rightarrow> nat" where
  "page_mask env addr = PAGE_SIZE env * (addr div PAGE_SIZE env)"

definition page_align :: "kernel_env \<Rightarrow> nat \<Rightarrow> nat" where
  "page_align env addr = round_up (PAGE_SIZE env) addr"

definition page_aligned :: "kernel_env \<Rightarrow> nat \<Rightarrow> bool" where
  "page_aligned env addr \<longleftrightarrow> addr mod PAGE_SIZE env = 0"

text \<open>\<^verbatim>\<open>ALIGN(x, sizeof(void *))\<close> on a 64-bit kernel: the addition wraps.\<close>

definition align_ptr :: "u64 \<Rightarrow> u64" where
  "align_ptr x = (x + 7) AND NOT 7"

text \<open>\<^verbatim>\<open>WARN_ON(c)\<close> reports and goes on.\<close>

definition warn_on :: "bool \<Rightarrow> binder_alloc \<Rightarrow> binder_alloc" where
  "warn_on c a = (if c then a\<lparr>warns := Suc (warns a)\<rparr> else a)"

section \<open>Neighbours and sizes\<close>

definition binder_buffer_next :: "binder_alloc \<Rightarrow> nat \<Rightarrow> nat option" where
  "binder_buffer_next a b = list_next (buffers a) b"

definition binder_buffer_prev :: "binder_alloc \<Rightarrow> nat \<Rightarrow> nat option" where
  "binder_buffer_prev a b = list_prev (buffers a) b"

definition binder_alloc_buffer_size :: "binder_alloc \<Rightarrow> nat \<Rightarrow> nat" where
  "binder_alloc_buffer_size a b =
     (case binder_buffer_next a b of
        None \<Rightarrow> ba_buffer a + buffer_size a - user_data (bufs a b)
      | Some n \<Rightarrow> user_data (bufs a n) - user_data (bufs a b))"

section \<open>The two trees\<close>

text \<open>
  Each insertion walks from the root to an empty link and hangs the node there
  (\<^verbatim>\<open>rb_link_node\<close>); \<open>None\<close> is a \<^verbatim>\<open>BUG_ON\<close> that fires on the way.
\<close>

fun free_tree_link :: "binder_alloc \<Rightarrow> nat \<Rightarrow> nat \<Rightarrow> nat tree \<Rightarrow> nat tree option" where
  "free_tree_link a new_buffer_size new_buffer Leaf = Some (Node Leaf new_buffer Leaf)"
| "free_tree_link a new_buffer_size new_buffer (Node l b r) =
     (if \<not> bb_free (bufs a b) then None
      else if new_buffer_size < binder_alloc_buffer_size a b
      then map_option (\<lambda>l'. Node l' b r) (free_tree_link a new_buffer_size new_buffer l)
      else map_option (\<lambda>r'. Node l b r') (free_tree_link a new_buffer_size new_buffer r))"

definition binder_insert_free_buffer ::
  "kernel_env \<Rightarrow> binder_alloc \<Rightarrow> nat \<Rightarrow> binder_alloc option" where
  "binder_insert_free_buffer env a new_buffer =
     (if \<not> bb_free (bufs a new_buffer) then None
      else case free_tree_link a (binder_alloc_buffer_size a new_buffer) new_buffer (free_buffers a) of
             None \<Rightarrow> None
           | Some t \<Rightarrow> Some (a\<lparr>free_buffers := rb_insert_color env t\<rparr>))"

fun allocated_tree_link :: "binder_alloc \<Rightarrow> nat \<Rightarrow> nat tree \<Rightarrow> nat tree option" where
  "allocated_tree_link a new_buffer Leaf = Some (Node Leaf new_buffer Leaf)"
| "allocated_tree_link a new_buffer (Node l b r) =
     (if bb_free (bufs a b) then None
      else if user_data (bufs a new_buffer) < user_data (bufs a b)
      then map_option (\<lambda>l'. Node l' b r) (allocated_tree_link a new_buffer l)
      else if user_data (bufs a new_buffer) > user_data (bufs a b)
      then map_option (\<lambda>r'. Node l b r') (allocated_tree_link a new_buffer r)
      else None)"

definition binder_insert_allocated_buffer_locked ::
  "kernel_env \<Rightarrow> binder_alloc \<Rightarrow> nat \<Rightarrow> binder_alloc option" where
  "binder_insert_allocated_buffer_locked env a new_buffer =
     (if bb_free (bufs a new_buffer) then None
      else case allocated_tree_link a new_buffer (allocated_buffers a) of
             None \<Rightarrow> None
           | Some t \<Rightarrow> Some (a\<lparr>allocated_buffers := rb_insert_color env t\<rparr>))"

text \<open>
  Looking up the buffer a user thread wants to free: \<open>Inr None\<close> when no allocated buffer
  starts at the address, \<open>Inl EPERM\<close> when the kernel still uses it.
\<close>

fun prepare_to_free_search :: "binder_alloc \<Rightarrow> nat \<Rightarrow> nat tree \<Rightarrow> kerr + nat option" where
  "prepare_to_free_search a uptr Leaf = Inr None"
| "prepare_to_free_search a uptr (Node l b r) =
     (if bb_free (bufs a b) then Inl KBUG
      else if uptr < user_data (bufs a b) then prepare_to_free_search a uptr l
      else if uptr > user_data (bufs a b) then prepare_to_free_search a uptr r
      else if \<not> allow_user_free (bufs a b) then Inl EPERM
      else Inr (Some b))"

definition set_buf :: "nat \<Rightarrow> (binder_buffer \<Rightarrow> binder_buffer) \<Rightarrow> binder_alloc \<Rightarrow> binder_alloc" where
  "set_buf b f a = a\<lparr>bufs := (bufs a)(b := f (bufs a b))\<rparr>"

definition binder_alloc_prepare_to_free_locked ::
  "binder_alloc \<Rightarrow> nat \<Rightarrow> (kerr + nat option) \<times> binder_alloc" where
  "binder_alloc_prepare_to_free_locked a user_ptr =
     (case prepare_to_free_search a user_ptr (allocated_buffers a) of
        Inr (Some b) \<Rightarrow> (Inr (Some b), set_buf b (allow_user_free_update (\<lambda>_. False)) a)
      | r \<Rightarrow> (r, a))"

definition binder_alloc_prepare_to_free :: "binder_alloc \<Rightarrow> nat \<Rightarrow> (kerr + nat option) \<times> binder_alloc" where
  "binder_alloc_prepare_to_free a user_ptr = binder_alloc_prepare_to_free_locked a user_ptr"

section \<open>Pages\<close>

definition page_index :: "kernel_env \<Rightarrow> binder_alloc \<Rightarrow> nat \<Rightarrow> nat" where
  "page_index env a page_addr = (page_addr - ba_buffer a) div PAGE_SIZE env"

definition set_page :: "nat \<Rightarrow> binder_lru_page \<Rightarrow> binder_alloc \<Rightarrow> binder_alloc" where
  "set_page i p a = a\<lparr>pages := (pages a)(i := p)\<rparr>"

text \<open>The addresses \<^verbatim>\<open>start, start + PAGE_SIZE, ...\<close> below \<^verbatim>\<open>end\<close>.\<close>

definition page_addrs :: "kernel_env \<Rightarrow> nat \<Rightarrow> nat \<Rightarrow> nat list" where
  "page_addrs env start end' =
     map (\<lambda>k. start + k * PAGE_SIZE env) [0..<(end' - start + PAGE_SIZE env - 1) div PAGE_SIZE env]"

text \<open>The \<^verbatim>\<open>free_range\<close> loop: the pages go back on the LRU list, last page first.\<close>

fun free_range :: "kernel_env \<Rightarrow> nat list \<Rightarrow> binder_alloc \<Rightarrow> binder_alloc" where
  "free_range env [] a = a"
| "free_range env (page_addr # rest) a =
     (let index = page_index env a page_addr; page = pages a index
      in free_range env rest
           (warn_on (on_lru page) (set_page index (page\<lparr>on_lru := True\<rparr>) a)))"

text \<open>
  The allocating loop. A page that is present leaves the LRU list; a missing one is allocated,
  zeroed, and mapped. \<open>done\<close> holds the pages already passed, last first: the error path
  puts exactly these back on the LRU list.
\<close>

fun alloc_range ::
  "kernel_env \<Rightarrow> bool \<Rightarrow> nat list \<Rightarrow> nat list \<Rightarrow> binder_alloc \<Rightarrow> bool \<times> binder_alloc" where
  "alloc_range env has_vma passed [] a = (True, a)"
| "alloc_range env has_vma passed (page_addr # rest) a =
     (let index = page_index env a page_addr; page = pages a index
      in if page_ptr page \<noteq> None
         then alloc_range env has_vma (page_addr # passed) rest
                (warn_on (\<not> on_lru page) (set_page index (page\<lparr>on_lru := False\<rparr>) a))
         else if \<not> has_vma then (False, free_range env passed (warn_on True a))
         else if \<not> alloc_page_ok env index then (False, free_range env passed a)
         else if \<not> vm_insert_page_ok env page_addr
         then (False, free_range env passed (set_page index (page\<lparr>page_ptr := None, on_lru := False\<rparr>) a))
         else let a' = set_page index \<lparr>page_ptr = Some (\<lambda>_. 0), on_lru = False\<rparr> a
              in alloc_range env has_vma (page_addr # passed) rest
                   (if index + 1 > pages_high a' then a'\<lparr>pages_high := index + 1\<rparr> else a'))"

text \<open>
  Freeing falls through to the common exit with no memory area looked up, so it reports
  \<^verbatim>\<open>-ESRCH\<close> although it did its work; its callers ignore the result.
\<close>

definition binder_update_page_range ::
  "kernel_env \<Rightarrow> binder_alloc \<Rightarrow> bool \<Rightarrow> nat \<Rightarrow> nat \<Rightarrow> kerr option \<times> binder_alloc" where
  "binder_update_page_range env a allocate start end' =
     (if end' \<le> start then (None, a)
      else if \<not> allocate then (Some ESRCH, free_range env (rev (page_addrs env start end')) a)
      else let need_mm = list_ex (\<lambda>p. page_ptr (pages a (page_index env a p)) = None) (page_addrs env start end');
               has_mm = (need_mm \<and> mmget_not_zero env);
               has_vma = (has_mm \<and> vma a \<noteq> None)
           in if \<not> has_vma \<and> need_mm then (Some ESRCH, a)
              else case alloc_range env has_vma [] (page_addrs env start end') a of
                     (True, a') \<Rightarrow> (None, a')
                   | (False, a') \<Rightarrow> (Some (if has_vma then ENOMEM else ESRCH), a'))"

section \<open>The mapped area\<close>

definition binder_alloc_set_vma :: "binder_alloc \<Rightarrow> vm_area option \<Rightarrow> binder_alloc" where
  "binder_alloc_set_vma a v =
     (case v of None \<Rightarrow> a\<lparr>vma := None\<rparr>
      | Some w \<Rightarrow> a\<lparr>vma_vm_mm := Some (vm_mm w), vma := Some w\<rparr>)"

definition binder_alloc_get_vma :: "binder_alloc \<Rightarrow> vm_area option" where
  "binder_alloc_get_vma a = vma a"

definition binder_alloc_vma_close :: "binder_alloc \<Rightarrow> binder_alloc" where
  "binder_alloc_vma_close a = binder_alloc_set_vma a None"

section \<open>Allocating a buffer\<close>

text \<open>
  The total size of a request, or \<^verbatim>\<open>-EINVAL\<close> when a sum of rounded sizes wrapped around.
\<close>

definition new_buf_size :: "u64 \<Rightarrow> u64 \<Rightarrow> u64 \<Rightarrow> kerr + u64" where
  "new_buf_size data_size' offsets_size' extra =
     (let data_offsets_size = align_ptr data_size' + align_ptr offsets_size'
      in if data_offsets_size < data_size' \<or> data_offsets_size < offsets_size' then Inl EINVAL
         else let size = data_offsets_size + align_ptr extra
              in if size < data_offsets_size \<or> size < extra then Inl EINVAL else Inr size)"

text \<open>
  The best-fit walk over the free tree: the best node so far and whether the walk stopped at
  a node of exactly the wanted size (\<^verbatim>\<open>n != NULL\<close> after the loop). \<open>None\<close> is the \<^verbatim>\<open>BUG_ON\<close>.
\<close>

fun best_fit_search ::
  "binder_alloc \<Rightarrow> nat \<Rightarrow> nat option \<Rightarrow> nat tree \<Rightarrow> (nat option \<times> bool) option" where
  "best_fit_search a sz best Leaf = Some (best, False)"
| "best_fit_search a sz best (Node l b r) =
     (if \<not> bb_free (bufs a b) then None
      else if sz < binder_alloc_buffer_size a b then best_fit_search a sz (Some b) l
      else if sz > binder_alloc_buffer_size a b then best_fit_search a sz best r
      else Some (Some b, True))"

text \<open>The remainder of the chosen buffer becomes a new free buffer right after it.\<close>

definition split_free_buffer ::
  "kernel_env \<Rightarrow> binder_alloc \<Rightarrow> nat \<Rightarrow> nat \<Rightarrow> nat \<Rightarrow> binder_alloc option" where
  "split_free_buffer env a buffer sz new_buffer =
     binder_insert_free_buffer env
       (a\<lparr>bufs := (bufs a)(new_buffer :=
                    zeroed_buffer\<lparr>user_data := user_data (bufs a buffer) + sz, bb_free := True\<rparr>),
          buffers := list_add_after new_buffer buffer (buffers a)\<rparr>)
       new_buffer"

text \<open>The chosen buffer moves from the free tree to the tree of allocated buffers.\<close>

definition take_free_buffer ::
  "kernel_env \<Rightarrow> binder_alloc \<Rightarrow> nat \<Rightarrow> binder_alloc option" where
  "take_free_buffer env a buffer =
     binder_insert_allocated_buffer_locked env
       (set_buf buffer (\<lambda>b. b\<lparr>bb_free := False, allow_user_free := False\<rparr>)
         (a\<lparr>free_buffers := rb_erase env buffer (free_buffers a)\<rparr>))
       buffer"

definition finish_new_buf ::
  "kernel_env \<Rightarrow> binder_alloc \<Rightarrow> nat \<Rightarrow> u64 \<Rightarrow> u64 \<Rightarrow> u64 \<Rightarrow> u64 \<Rightarrow> bool \<Rightarrow> int \<Rightarrow> binder_alloc" where
  "finish_new_buf env a buffer sz data_size' offsets_size' extra is_async pid =
     (let a' = set_buf buffer (\<lambda>b. b\<lparr>data_size := data_size', offsets_size := offsets_size',
                  async_transaction := is_async, extra_buffers_size := extra, bb_pid := pid\<rparr>) a
      in if is_async
         then a'\<lparr>free_async_space := free_async_space a' - (sz + sizeof_binder_buffer env)\<rparr>
         else a')"

text \<open>
  What follows once the pages are there: split off the remainder (undoing the page range when
  no structure can be allocated for it), take the buffer, record the request.
\<close>

definition commit_new_buf ::
  "kernel_env \<Rightarrow> binder_alloc \<Rightarrow> nat \<Rightarrow> nat \<Rightarrow> u64 \<Rightarrow> u64 \<Rightarrow> u64 \<Rightarrow> u64 \<Rightarrow> bool \<Rightarrow> int \<Rightarrow> nat \<Rightarrow> nat
     \<Rightarrow> (kerr + nat) \<times> binder_alloc" where
  "commit_new_buf env a buffer bsize sz data_size' offsets_size' extra is_async pid start_page end_page =
     (let after_split =
        (if bsize = unat sz then Inr a
         else case kzalloc_buffer env of
                None \<Rightarrow> Inl (ENOMEM, snd (binder_update_page_range env a False start_page end_page))
              | Some new_buffer \<Rightarrow>
                  (case split_free_buffer env a buffer (unat sz) new_buffer of
                     None \<Rightarrow> Inl (KBUG, a) | Some a1 \<Rightarrow> Inr a1))
      in case after_split of
           Inl (e, a1) \<Rightarrow> (Inl e, a1)
         | Inr a1 \<Rightarrow>
             (case take_free_buffer env a1 buffer of
                None \<Rightarrow> (Inl KBUG, a1)
              | Some a2 \<Rightarrow>
                  (Inr buffer, finish_new_buf env a2 buffer sz data_size' offsets_size' extra is_async pid)))"

definition binder_alloc_new_buf_locked ::
  "kernel_env \<Rightarrow> binder_alloc \<Rightarrow> u64 \<Rightarrow> u64 \<Rightarrow> u64 \<Rightarrow> bool \<Rightarrow> int \<Rightarrow> (kerr + nat) \<times> binder_alloc" where
  "binder_alloc_new_buf_locked env a data_size' offsets_size' extra is_async pid =
     (if binder_alloc_get_vma a = None then (Inl ESRCH, a)
      else case new_buf_size data_size' offsets_size' extra of
        Inl e \<Rightarrow> (Inl e, a)
      | Inr size0 \<Rightarrow>
        if is_async \<and> free_async_space a < size0 + sizeof_binder_buffer env then (Inl ENOSPC, a)
        else let size = max size0 8 in
          case best_fit_search a (unat size) None (free_buffers a) of
            None \<Rightarrow> (Inl KBUG, a)
          | Some (None, _) \<Rightarrow> (Inl ENOSPC, a)
          | Some (Some buffer, exact) \<Rightarrow>
            let bsize = binder_alloc_buffer_size a buffer;
                ud = user_data (bufs a buffer);
                has_page_addr = page_mask env (ud + bsize);
                a1 = warn_on (exact \<and> bsize \<noteq> unat size) a;
                end_page_addr = min (page_align env (ud + unat size)) has_page_addr
            in case binder_update_page_range env a1 True (page_align env ud) end_page_addr of
                 (Some e, a2) \<Rightarrow> (Inl e, a2)
               | (None, a2) \<Rightarrow> commit_new_buf env a2 buffer bsize size data_size' offsets_size' extra
                                 is_async pid (page_align env ud) end_page_addr)"

definition binder_alloc_new_buf ::
  "kernel_env \<Rightarrow> binder_alloc \<Rightarrow> u64 \<Rightarrow> u64 \<Rightarrow> u64 \<Rightarrow> bool \<Rightarrow> int \<Rightarrow> (kerr + nat) \<times> binder_alloc" where
  "binder_alloc_new_buf env a data_size' offsets_size' extra is_async pid =
     binder_alloc_new_buf_locked env a data_size' offsets_size' extra is_async pid"

text \<open>
  The report on a process that fills the asynchronous half: number and total size of its
  asynchronous buffers, and whether the message is printed.
\<close>

definition low_async_usage :: "kernel_env \<Rightarrow> binder_alloc \<Rightarrow> int \<Rightarrow> nat \<times> nat" where
  "low_async_usage env a pid =
     (let mine = filter (\<lambda>b. bb_pid (bufs a b) = pid \<and> async_transaction (bufs a b))
                   (inorder (allocated_buffers a))
      in (length mine,
          sum_list (map (\<lambda>b. binder_alloc_buffer_size a b + unat (sizeof_binder_buffer env)) mine)))"

definition debug_low_async_space_locked :: "kernel_env \<Rightarrow> binder_alloc \<Rightarrow> int \<Rightarrow> bool" where
  "debug_low_async_space_locked env a pid =
     (let (num_buffers, total_alloc_size) = low_async_usage env a pid
      in num_buffers > 50 \<or> total_alloc_size > buffer_size a div 4)"

section \<open>Freeing a buffer\<close>

definition buffer_start_page :: "kernel_env \<Rightarrow> binder_alloc \<Rightarrow> nat \<Rightarrow> nat" where
  "buffer_start_page env a b = page_mask env (user_data (bufs a b))"

text \<open>\<^verbatim>\<open>user_data - 1\<close> is computed in \<^verbatim>\<open>uintptr_t\<close>, so it wraps at address 0.\<close>

definition prev_buffer_end_page :: "kernel_env \<Rightarrow> binder_alloc \<Rightarrow> nat \<Rightarrow> nat" where
  "prev_buffer_end_page env a b = page_mask env ((user_data (bufs a b) + 2 ^ 64 - 1) mod 2 ^ 64)"

definition binder_delete_free_buffer ::
  "kernel_env \<Rightarrow> binder_alloc \<Rightarrow> nat \<Rightarrow> binder_alloc option" where
  "binder_delete_free_buffer env a buffer =
     (case binder_buffer_prev a buffer of
        None \<Rightarrow> None
      | Some prev \<Rightarrow>
        if \<not> bb_free (bufs a prev) then None
        else let shares_prev = (prev_buffer_end_page env a prev = buffer_start_page env a buffer);
                 shares_next = (case binder_buffer_next a buffer of None \<Rightarrow> False
                                | Some nxt \<Rightarrow> buffer_start_page env a nxt = buffer_start_page env a buffer);
                 to_free = (\<not> shares_prev \<and> \<not> shares_next
                            \<and> \<not> page_aligned env (user_data (bufs a buffer)));
                 a1 = (if to_free
                       then snd (binder_update_page_range env a False (buffer_start_page env a buffer)
                                   (buffer_start_page env a buffer + PAGE_SIZE env))
                       else a)
             in Some (a1\<lparr>buffers := remove1 buffer (buffers a1)\<rparr>))"

text \<open>The rounded total of the three sizes recorded in a buffer.\<close>

definition recorded_size :: "binder_buffer \<Rightarrow> u64" where
  "recorded_size b =
     align_ptr (data_size b) + align_ptr (offsets_size b) + align_ptr (extra_buffers_size b)"

text \<open>Merging with a free successor, then with a free predecessor, then back into the free tree.\<close>

definition merge_next :: "kernel_env \<Rightarrow> binder_alloc \<Rightarrow> nat \<Rightarrow> binder_alloc option" where
  "merge_next env a buffer =
     (case binder_buffer_next a buffer of
        None \<Rightarrow> Some a
      | Some nxt \<Rightarrow>
        if bb_free (bufs a nxt)
        then binder_delete_free_buffer env (a\<lparr>free_buffers := rb_erase env nxt (free_buffers a)\<rparr>) nxt
        else Some a)"

definition merge_prev :: "kernel_env \<Rightarrow> binder_alloc \<Rightarrow> nat \<Rightarrow> (binder_alloc \<times> nat) option" where
  "merge_prev env a buffer =
     (case binder_buffer_prev a buffer of
        None \<Rightarrow> Some (a, buffer)
      | Some prev \<Rightarrow>
        if bb_free (bufs a prev)
        then map_option (\<lambda>a'. (a'\<lparr>free_buffers := rb_erase env prev (free_buffers a')\<rparr>, prev))
               (binder_delete_free_buffer env a buffer)
        else Some (a, buffer))"

definition binder_free_buf_locked :: "kernel_env \<Rightarrow> binder_alloc \<Rightarrow> nat \<Rightarrow> binder_alloc option" where
  "binder_free_buf_locked env a buffer =
     (let bsize = binder_alloc_buffer_size a buffer; b = bufs a buffer; size = recorded_size b
      in if bb_free b \<or> unat size > bsize \<or> transaction b \<noteq> None
            \<or> user_data b < ba_buffer a \<or> user_data b > ba_buffer a + buffer_size a
         then None
         else let a1 = (if async_transaction b
                        then a\<lparr>free_async_space :=
                                 free_async_space a + (size + sizeof_binder_buffer env)\<rparr>
                        else a);
                  a2 = snd (binder_update_page_range env a1 False
                              (page_align env (user_data b)) (page_mask env (user_data b + bsize)));
                  a3 = set_buf buffer (bb_free_update (\<lambda>_. True))
                         (a2\<lparr>allocated_buffers := rb_erase env buffer (allocated_buffers a2)\<rparr>)
              in case merge_next env a3 buffer of
                   None \<Rightarrow> None
                 | Some a4 \<Rightarrow>
                   (case merge_prev env a4 buffer of
                      None \<Rightarrow> None
                    | Some (a5, buffer') \<Rightarrow> binder_insert_free_buffer env a5 buffer'))"

section \<open>Access to buffer contents\<close>

definition check_buffer :: "binder_alloc \<Rightarrow> nat \<Rightarrow> nat \<Rightarrow> nat \<Rightarrow> bool" where
  "check_buffer a b offset bytes =
     (let bsize = binder_alloc_buffer_size a b
      in bsize \<ge> bytes \<and> offset \<le> bsize - bytes \<and> offset mod 4 = 0 \<and> \<not> bb_free (bufs a b)
         \<and> (\<not> allow_user_free (bufs a b) \<or> transaction (bufs a b) = None))"

text \<open>The index of the page that holds an offset of the buffer, and the offset inside the page.\<close>

definition binder_alloc_get_page :: "kernel_env \<Rightarrow> binder_alloc \<Rightarrow> nat \<Rightarrow> nat \<Rightarrow> nat \<times> nat" where
  "binder_alloc_get_page env a b buffer_offset =
     (let buffer_space_offset = buffer_offset + (user_data (bufs a b) - ba_buffer a)
      in (buffer_space_offset div PAGE_SIZE env, buffer_space_offset mod PAGE_SIZE env))"

definition page_write :: "nat \<Rightarrow> u8 list \<Rightarrow> (nat \<Rightarrow> u8) \<Rightarrow> nat \<Rightarrow> u8" where
  "page_write pgoff bs mem i = (if pgoff \<le> i \<and> i < pgoff + length bs then bs ! (i - pgoff) else mem i)"

text \<open>Writing into the page with the given index; \<open>None\<close> stands for a missing page (\<^verbatim>\<open>kmap(NULL)\<close>).\<close>

definition write_page :: "nat \<Rightarrow> nat \<Rightarrow> u8 list \<Rightarrow> binder_alloc \<Rightarrow> binder_alloc option" where
  "write_page index pgoff bs a =
     (case page_ptr (pages a index) of
        None \<Rightarrow> None
      | Some mem \<Rightarrow> Some (set_page index ((pages a index)\<lparr>page_ptr := Some (page_write pgoff bs mem)\<rparr>) a))"

definition read_page :: "nat \<Rightarrow> nat \<Rightarrow> nat \<Rightarrow> binder_alloc \<Rightarrow> u8 list option" where
  "read_page index pgoff n a = map_option (\<lambda>mem. map mem [pgoff..<pgoff + n]) (page_ptr (pages a index))"

text \<open>The length of the next chunk: up to the end of the page.\<close>

definition chunk :: "kernel_env \<Rightarrow> binder_alloc \<Rightarrow> nat \<Rightarrow> nat \<Rightarrow> nat \<Rightarrow> nat" where
  "chunk env a b buffer_offset bytes =
     min bytes (PAGE_SIZE env - snd (binder_alloc_get_page env a b buffer_offset))"

lemma chunk_pos: "0 < bytes \<Longrightarrow> 0 < chunk env a b buffer_offset bytes"
  by (simp add: chunk_def binder_alloc_get_page_def Let_def PAGE_SIZE_def)

lemma chunk_le: "chunk env a b buffer_offset bytes \<le> bytes"
  by (simp add: chunk_def)

function clear_buf_loop ::
  "kernel_env \<Rightarrow> nat \<Rightarrow> nat \<Rightarrow> nat \<Rightarrow> binder_alloc \<Rightarrow> binder_alloc option" where
  "clear_buf_loop env b buffer_offset bytes a =
     (if bytes = 0 then Some a
      else let (index, pgoff) = binder_alloc_get_page env a b buffer_offset;
               n = chunk env a b buffer_offset bytes
           in case write_page index pgoff (replicate n 0) a of
                None \<Rightarrow> None
              | Some a' \<Rightarrow> clear_buf_loop env b (buffer_offset + n) (bytes - n) a')"
  by pat_completeness auto
termination
  by (relation "measure (\<lambda>(env, b, off, bytes, a). bytes)") (auto simp: chunk_pos)

declare clear_buf_loop.simps [simp del]

definition binder_alloc_clear_buf :: "kernel_env \<Rightarrow> binder_alloc \<Rightarrow> nat \<Rightarrow> binder_alloc option" where
  "binder_alloc_clear_buf env a b = clear_buf_loop env b 0 (binder_alloc_buffer_size a b) a"

text \<open>
  Copying from user space. The result is the number of bytes that were not copied; the state
  is the one the loop stopped in.
\<close>

function copy_user_loop ::
  "kernel_env \<Rightarrow> nat \<Rightarrow> nat \<Rightarrow> nat \<Rightarrow> nat \<Rightarrow> binder_alloc \<Rightarrow> (nat \<times> binder_alloc) option" where
  "copy_user_loop env b buffer_offset from_user bytes a =
     (if bytes = 0 then Some (0, a)
      else let (index, pgoff) = binder_alloc_get_page env a b buffer_offset;
               n = chunk env a b buffer_offset bytes;
               (bs, ret) = copy_from_user env from_user n
           in case write_page index pgoff bs a of
                None \<Rightarrow> None
              | Some a' \<Rightarrow>
                  if ret \<noteq> 0 then Some (bytes - n + ret, a')
                  else copy_user_loop env b (buffer_offset + n) (from_user + n) (bytes - n) a')"
  by pat_completeness auto
termination
  by (relation "measure (\<lambda>(env, b, off, from_user, bytes, a). bytes)") (auto simp: chunk_pos)

declare copy_user_loop.simps [simp del]

definition binder_alloc_copy_user_to_buffer ::
  "kernel_env \<Rightarrow> binder_alloc \<Rightarrow> nat \<Rightarrow> nat \<Rightarrow> nat \<Rightarrow> nat \<Rightarrow> (nat \<times> binder_alloc) option" where
  "binder_alloc_copy_user_to_buffer env a b buffer_offset from_user bytes =
     (if \<not> check_buffer a b buffer_offset bytes then Some (bytes, a)
      else copy_user_loop env b buffer_offset from_user bytes a)"

text \<open>
  Copying between a kernel object and the buffer. \<open>ptr\<close> is the kernel object and \<open>k\<close> the
  position reached in it.
\<close>

function buffer_copy_loop ::
  "kernel_env \<Rightarrow> bool \<Rightarrow> nat \<Rightarrow> nat \<Rightarrow> nat \<Rightarrow> nat \<Rightarrow> u8 list \<Rightarrow> binder_alloc \<Rightarrow> (u8 list \<times> binder_alloc) option" where
  "buffer_copy_loop env to_buffer b buffer_offset k bytes ptr a =
     (if bytes = 0 then Some (ptr, a)
      else let (index, pgoff) = binder_alloc_get_page env a b buffer_offset;
               n = chunk env a b buffer_offset bytes
           in if to_buffer
              then (case write_page index pgoff (take n (drop k ptr)) a of
                      None \<Rightarrow> None
                    | Some a' \<Rightarrow> buffer_copy_loop env to_buffer b (buffer_offset + n) (k + n) (bytes - n) ptr a')
              else (case read_page index pgoff n a of
                      None \<Rightarrow> None
                    | Some bs \<Rightarrow> buffer_copy_loop env to_buffer b (buffer_offset + n) (k + n) (bytes - n)
                                   (take k ptr @ bs @ drop (k + n) ptr) a))"
  by pat_completeness auto
termination
  by (relation "measure (\<lambda>(env, t, b, off, k, bytes, ptr, a). bytes)") (auto simp: chunk_pos)

declare buffer_copy_loop.simps [simp del]

definition binder_alloc_do_buffer_copy ::
  "kernel_env \<Rightarrow> binder_alloc \<Rightarrow> bool \<Rightarrow> nat \<Rightarrow> nat \<Rightarrow> u8 list \<Rightarrow> nat \<Rightarrow> kerr + (u8 list \<times> binder_alloc)" where
  "binder_alloc_do_buffer_copy env a to_buffer b buffer_offset ptr bytes =
     (if \<not> check_buffer a b buffer_offset bytes then Inl EINVAL
      else case buffer_copy_loop env to_buffer b buffer_offset 0 bytes ptr a of
             None \<Rightarrow> Inl KBUG | Some r \<Rightarrow> Inr r)"

definition binder_alloc_copy_to_buffer ::
  "kernel_env \<Rightarrow> binder_alloc \<Rightarrow> nat \<Rightarrow> nat \<Rightarrow> u8 list \<Rightarrow> nat \<Rightarrow> kerr + binder_alloc" where
  "binder_alloc_copy_to_buffer env a b buffer_offset src bytes =
     map_sum id snd (binder_alloc_do_buffer_copy env a True b buffer_offset src bytes)"

definition binder_alloc_copy_from_buffer ::
  "kernel_env \<Rightarrow> binder_alloc \<Rightarrow> u8 list \<Rightarrow> nat \<Rightarrow> nat \<Rightarrow> nat \<Rightarrow> kerr + u8 list" where
  "binder_alloc_copy_from_buffer env a dest b buffer_offset bytes =
     map_sum id fst (binder_alloc_do_buffer_copy env a False b buffer_offset dest bytes)"

section \<open>Life cycle of an allocator\<close>

definition binder_alloc_init :: "int \<Rightarrow> binder_alloc" where
  "binder_alloc_init pid =
     \<lparr>ba_pid = pid, vma = None, vma_vm_mm = None, ba_buffer = 0, buffer_size = 0, buffers = [],
      bufs = (\<lambda>_. zeroed_buffer), free_buffers = Leaf, allocated_buffers = Leaf,
      free_async_space = 0, pages = (\<lambda>_. \<lparr>page_ptr = None, on_lru = False\<rparr>),
      pages_allocated = False, pages_high = 0, warns = 0\<rparr>"

definition SZ_4M :: nat where
  "SZ_4M = 4 * 1024 * 1024"

definition binder_alloc_mmap_handler ::
  "kernel_env \<Rightarrow> binder_alloc \<Rightarrow> vm_area \<Rightarrow> kerr option \<times> binder_alloc" where
  "binder_alloc_mmap_handler env a v =
     (if buffer_size a \<noteq> 0 then (Some EBUSY, a)
      else let a1 = a\<lparr>buffer_size := min (vm_end v - vm_start v) SZ_4M, ba_buffer := vm_start v\<rparr>
           in if \<not> kcalloc_pages_ok env
              then (Some ENOMEM, a1\<lparr>pages_allocated := False, ba_buffer := 0, buffer_size := 0\<rparr>)
              else let a2 = a1\<lparr>pages := (\<lambda>_. \<lparr>page_ptr = None, on_lru = False\<rparr>), pages_allocated := True\<rparr>
                   in case kzalloc_buffer env of
                        None \<Rightarrow> (Some ENOMEM, a2\<lparr>pages_allocated := False, ba_buffer := 0, buffer_size := 0\<rparr>)
                      | Some b \<Rightarrow>
                          (case binder_insert_free_buffer env
                                  (a2\<lparr>bufs := (bufs a2)(b := zeroed_buffer\<lparr>user_data := ba_buffer a2, bb_free := True\<rparr>),
                                      buffers := b # buffers a2\<rparr>) b of
                             None \<Rightarrow> (Some KBUG, a2)
                           | Some a3 \<Rightarrow>
                               (None, binder_alloc_set_vma
                                        (a3\<lparr>free_async_space := of_nat (buffer_size a3 div 2)\<rparr>) (Some v))))"

definition binder_alloc_free_buf :: "kernel_env \<Rightarrow> binder_alloc \<Rightarrow> nat \<Rightarrow> binder_alloc option" where
  "binder_alloc_free_buf env a b =
     (if clear_on_free (bufs a b)
      then (case binder_alloc_clear_buf env a b of
              None \<Rightarrow> None
            | Some a' \<Rightarrow> binder_free_buf_locked env (set_buf b (clear_on_free_update (\<lambda>_. False)) a') b)
      else binder_free_buf_locked env a b)"

definition rb_first :: "'a tree \<Rightarrow> 'a option" where
  "rb_first t = (case inorder t of [] \<Rightarrow> None | x # _ \<Rightarrow> Some x)"

text \<open>
  The release loop frees the first allocated buffer until none is left. The outer \<open>None\<close> is
  running out of fuel.
\<close>

fun release_buffers ::
  "nat \<Rightarrow> kernel_env \<Rightarrow> binder_alloc \<Rightarrow> nat \<Rightarrow> (kerr + nat \<times> binder_alloc) option" where
  "release_buffers 0 env a n = None"
| "release_buffers (Suc fuel) env a n =
     (case rb_first (allocated_buffers a) of
        None \<Rightarrow> Some (Inr (n, a))
      | Some b \<Rightarrow>
          if transaction (bufs a b) \<noteq> None then Some (Inl KBUG)
          else (case binder_alloc_free_buf env a b of
                  None \<Rightarrow> Some (Inl KBUG)
                | Some a' \<Rightarrow> release_buffers fuel env a' (Suc n)))"

fun drop_buffers :: "nat list \<Rightarrow> binder_alloc \<Rightarrow> binder_alloc" where
  "drop_buffers [] a = a\<lparr>buffers := []\<rparr>"
| "drop_buffers (b # bs) a = drop_buffers bs (warn_on (bs \<noteq> []) (warn_on (\<not> bb_free (bufs a b)) a))"

definition resident_pages :: "kernel_env \<Rightarrow> binder_alloc \<Rightarrow> nat list" where
  "resident_pages env a =
     filter (\<lambda>i. page_ptr (pages a i) \<noteq> None) [0..<buffer_size a div PAGE_SIZE env]"

text \<open>The result counts the buffers and the pages that were released.\<close>

definition binder_alloc_deferred_release ::
  "nat \<Rightarrow> kernel_env \<Rightarrow> binder_alloc \<Rightarrow> (kerr + nat \<times> nat \<times> binder_alloc) option" where
  "binder_alloc_deferred_release fuel env a =
     (if vma a \<noteq> None then Some (Inl KBUG)
      else case release_buffers fuel env a 0 of
             None \<Rightarrow> None
           | Some (Inl e) \<Rightarrow> Some (Inl e)
           | Some (Inr (n, a1)) \<Rightarrow>
               let a2 = drop_buffers (buffers a1) a1;
                   page_count = (if pages_allocated a2 then length (resident_pages env a2) else 0)
               in Some (Inr (n, page_count,
                    a2\<lparr>pages := (\<lambda>i. if i \<in> set (resident_pages env a2)
                                 then (pages a2 i)\<lparr>on_lru := False\<rparr> else pages a2 i),
                       pages_allocated := False\<rparr>)))"

section \<open>Counting and shrinking\<close>

definition binder_alloc_get_allocated_count :: "binder_alloc \<Rightarrow> nat" where
  "binder_alloc_get_allocated_count a = length (inorder (allocated_buffers a))"

text \<open>The numbers of active, LRU and absent pages that \<^verbatim>\<open>binder_alloc_print_pages\<close> shows.\<close>

definition binder_alloc_print_pages :: "kernel_env \<Rightarrow> binder_alloc \<Rightarrow> nat \<times> nat \<times> nat" where
  "binder_alloc_print_pages env a =
     (if binder_alloc_get_vma a = None then (0, 0, 0)
      else let is = [0..<buffer_size a div PAGE_SIZE env];
               present = filter (\<lambda>i. page_ptr (pages a i) \<noteq> None) is
           in (length (filter (\<lambda>i. \<not> on_lru (pages a i)) present),
               length (filter (\<lambda>i. on_lru (pages a i)) present),
               length (filter (\<lambda>i. page_ptr (pages a i) = None) is)))"

datatype lru_status = LRU_SKIP | LRU_REMOVED_RETRY

text \<open>
  The shrinker callback for the page with the given index; the two flags say whether the
  allocator's mutex and the memory map's lock could be taken.
\<close>

definition binder_alloc_free_page ::
  "kernel_env \<Rightarrow> bool \<Rightarrow> bool \<Rightarrow> binder_alloc \<Rightarrow> nat \<Rightarrow> lru_status \<times> binder_alloc" where
  "binder_alloc_free_page env mutex_trylock mmap_read_trylock a index =
     (if \<not> mutex_trylock then (LRU_SKIP, a)
      else if page_ptr (pages a index) = None then (LRU_SKIP, a)
      else if \<not> mmget_not_zero env then (LRU_SKIP, a)
      else if \<not> mmap_read_trylock then (LRU_SKIP, a)
      else (LRU_REMOVED_RETRY, set_page index \<lparr>page_ptr = None, on_lru = False\<rparr> a))"

text \<open>One line of the listing of allocated buffers: address, the three sizes, and whether a
  transaction still uses the buffer.\<close>

definition print_binder_buffer :: "binder_buffer \<Rightarrow> nat \<times> u64 \<times> u64 \<times> u64 \<times> bool" where
  "print_binder_buffer b =
     (user_data b, data_size b, offsets_size b, extra_buffers_size b, transaction b \<noteq> None)"

definition binder_alloc_print_allocated :: "binder_alloc \<Rightarrow> (nat \<times> u64 \<times> u64 \<times> u64 \<times> bool) list" where
  "binder_alloc_print_allocated a = map (\<lambda>b. print_binder_buffer (bufs a b)) (inorder (allocated_buffers a))"

end
