(* ===== verification/Binder_State.thy ===== *)
theory Binder_State
  imports Binder_Alloc "HOL-Library.Monad_Syntax"
begin

text \<open>
  The state of the Binder driver (\<^verbatim>\<open>binder.c\<close>) and its work lists. Nodes, references,
  processes, threads and transactions are kept in stores indexed by natural numbers, which
  stand for the C pointers. An intrusive \<^verbatim>\<open>struct binder_work\<close> is identified by what embeds
  it; \<open>work_on\<close> is the list its \<^verbatim>\<open>entry\<close> is linked into, so \<^verbatim>\<open>list_empty(&work->entry)\<close> is
  \<open>work_on s w = None\<close>. Operations run with their locks held, so each is one atomic step; a
  \<^verbatim>\<open>BUG_ON\<close> that fires is the result \<open>None\<close>.
\<close>

section \<open>Data\<close>

datatype binder_work_type =
    BINDER_WORK_TRANSACTION | BINDER_WORK_TRANSACTION_COMPLETE | BINDER_WORK_RETURN_ERROR
  | BINDER_WORK_NODE | BINDER_WORK_DEAD_BINDER | BINDER_WORK_DEAD_BINDER_AND_CLEAR
  | BINDER_WORK_CLEAR_DEATH_NOTIFICATION

datatype binder_stat_types =
    BINDER_STAT_PROC | BINDER_STAT_THREAD | BINDER_STAT_NODE | BINDER_STAT_REF
  | BINDER_STAT_DEATH | BINDER_STAT_TRANSACTION | BINDER_STAT_TRANSACTION_COMPLETE

text \<open>Where a work item is embedded, and the lists it can be linked into.\<close>

datatype work_id =
    Node_work nat | Death_work nat | Txn_work nat | Complete_work nat
  | Return_error_work nat | Reply_error_work nat

datatype worklist = Thread_todo nat | Proc_todo nat | Delivered_death nat | Async_todo nat

record binder_node =
  node_debug_id :: nat
  node_proc :: "nat option"
  node_refs :: "nat list"
  internal_strong_refs :: int
  local_weak_refs :: int
  local_strong_refs :: int
  tmp_refs :: int
  node_ptr :: u64
  node_cookie :: u64
  has_strong_ref :: bool
  pending_strong_ref :: bool
  has_weak_ref :: bool
  pending_weak_ref :: bool
  accept_fds :: bool
  txn_security_ctx :: bool
  min_priority :: u8
  has_async_transaction :: bool

record binder_ref_data =
  ref_debug_id :: nat
  desc :: u32
  strong :: int
  weak :: int

record binder_ref =
  ref_data :: binder_ref_data
  ref_proc :: nat
  ref_node :: "nat option"
  death :: "nat option"

record binder_proc =
  proc_threads :: "nat tree"
  nodes :: "nat tree"
  refs_by_desc :: "nat tree"
  refs_by_node :: "nat tree"
  waiting_threads :: "nat list"
  proc_is_dead :: bool
  proc_tmp_ref :: u32
  max_threads :: int
  requested_threads :: int
  requested_threads_started :: int
  proc_context :: nat
  proc_pid :: int
  proc_tsk :: nat
  deferred_work :: u32
  proc_alloc :: binder_alloc

record binder_thread =
  thread_proc :: nat
  thread_pid :: int
  looper :: u32
  looper_need_return :: bool
  transaction_stack :: "nat option"
  process_todo :: bool
  return_error_cmd :: u32
  reply_error_cmd :: u32
  thread_tmp_ref :: u32
  thread_is_dead :: bool

record struct_binder_transaction =
  txn_from :: "nat option"
  from_parent :: "nat option"
  to_proc :: "nat option"
  to_thread :: "nat option"
  to_parent :: "nat option"
  need_reply :: bool
  txn_buffer :: "nat option"
  txn_flags :: u32
  txn_code :: u32
  sender_euid :: int
  security_ctx :: u64
  fd_fixups :: "(nat \<times> nat) list"

text \<open>
  The whole driver. \<open>binder_last_id\<close> counts debug ids; the lists \<open>freed_*\<close> record what was
  passed to \<^verbatim>\<open>kfree\<close>, \<open>woken\<close> the wake-ups (thread, synchronous), \<open>fputs\<close> the files released.
\<close>

record driver =
  bnode :: "nat \<Rightarrow> binder_node"
  bref :: "nat \<Rightarrow> binder_ref"
  bproc :: "nat \<Rightarrow> binder_proc"
  bthread :: "nat \<Rightarrow> binder_thread"
  btxn :: "nat \<Rightarrow> struct_binder_transaction"
  todo :: "worklist \<Rightarrow> work_id list"
  work_on :: "work_id \<Rightarrow> worklist option"
  work_type :: "work_id \<Rightarrow> binder_work_type"
  binder_context_mgr_node :: "nat \<Rightarrow> nat option"
  binder_context_mgr_uid :: "nat \<Rightarrow> int option"
  binder_procs :: "nat list"
  binder_deferred_list :: "nat list"
  death_cookie :: "nat \<Rightarrow> u64"
  device_ref :: "nat \<Rightarrow> int"
  binder_dead_nodes :: "nat list"
  binder_last_id :: nat
  obj_created :: "binder_stat_types \<Rightarrow> nat"
  obj_deleted :: "binder_stat_types \<Rightarrow> nat"
  freed_nodes :: "nat list"
  freed_refs :: "nat list"
  freed_txns :: "nat list"
  freed_threads :: "nat list"
  freed_procs :: "nat list"
  freed_devices :: "nat list"
  freed_work :: "work_id list"
  fputs :: "nat list"
  closed_fds :: "u32 list"
  woken :: "(nat \<times> bool) list"
  binder_warns :: nat

text \<open>Field updates on one object of a store.\<close>

definition upd_node :: "nat \<Rightarrow> (binder_node \<Rightarrow> binder_node) \<Rightarrow> driver \<Rightarrow> driver" where
  "upd_node n f s = s\<lparr>bnode := (bnode s)(n := f (bnode s n))\<rparr>"

definition upd_ref :: "nat \<Rightarrow> (binder_ref \<Rightarrow> binder_ref) \<Rightarrow> driver \<Rightarrow> driver" where
  "upd_ref r f s = s\<lparr>bref := (bref s)(r := f (bref s r))\<rparr>"

definition upd_proc :: "nat \<Rightarrow> (binder_proc \<Rightarrow> binder_proc) \<Rightarrow> driver \<Rightarrow> driver" where
  "upd_proc p f s = s\<lparr>bproc := (bproc s)(p := f (bproc s p))\<rparr>"

definition upd_thread :: "nat \<Rightarrow> (binder_thread \<Rightarrow> binder_thread) \<Rightarrow> driver \<Rightarrow> driver" where
  "upd_thread t f s = s\<lparr>bthread := (bthread s)(t := f (bthread s t))\<rparr>"

definition upd_txn :: "nat \<Rightarrow> (struct_binder_transaction \<Rightarrow> struct_binder_transaction) \<Rightarrow> driver \<Rightarrow> driver" where
  "upd_txn t f s = s\<lparr>btxn := (btxn s)(t := f (btxn s t))\<rparr>"

definition bug_on :: "bool \<Rightarrow> driver \<Rightarrow> driver option" where
  "bug_on c s = (if c then None else Some s)"

definition binder_warn_on :: "bool \<Rightarrow> driver \<Rightarrow> driver" where
  "binder_warn_on c s = (if c then s\<lparr>binder_warns := Suc (binder_warns s)\<rparr> else s)"

definition binder_stats_created :: "binder_stat_types \<Rightarrow> driver \<Rightarrow> driver" where
  "binder_stats_created ty s = s\<lparr>obj_created := (obj_created s)(ty := Suc (obj_created s ty))\<rparr>"

definition binder_stats_deleted :: "binder_stat_types \<Rightarrow> driver \<Rightarrow> driver" where
  "binder_stats_deleted ty s = s\<lparr>obj_deleted := (obj_deleted s)(ty := Suc (obj_deleted s ty))\<rparr>"

section \<open>Work lists\<close>

definition binder_worklist_empty_ilocked :: "driver \<Rightarrow> worklist \<Rightarrow> bool" where
  "binder_worklist_empty_ilocked s l = (todo s l = [])"

definition binder_worklist_empty :: "driver \<Rightarrow> worklist \<Rightarrow> bool" where
  "binder_worklist_empty s l = binder_worklist_empty_ilocked s l"

definition binder_enqueue_work_ilocked :: "work_id \<Rightarrow> worklist \<Rightarrow> driver \<Rightarrow> driver option" where
  "binder_enqueue_work_ilocked w l s =
     do {
       s \<leftarrow> bug_on (work_on s w \<noteq> None) s;
       Some (s\<lparr>todo := (todo s)(l := todo s l @ [w]), work_on := (work_on s)(w := Some l)\<rparr>)
     }"

definition binder_enqueue_deferred_thread_work_ilocked :: "nat \<Rightarrow> work_id \<Rightarrow> driver \<Rightarrow> driver option" where
  "binder_enqueue_deferred_thread_work_ilocked t w s =
     binder_enqueue_work_ilocked w (Thread_todo t)
       (binder_warn_on (t \<in> set (waiting_threads (bproc s (thread_proc (bthread s t))))) s)"

definition binder_enqueue_thread_work_ilocked :: "nat \<Rightarrow> work_id \<Rightarrow> driver \<Rightarrow> driver option" where
  "binder_enqueue_thread_work_ilocked t w s =
     do {
       s \<leftarrow> binder_enqueue_work_ilocked w (Thread_todo t)
              (binder_warn_on (t \<in> set (waiting_threads (bproc s (thread_proc (bthread s t))))) s);
       Some (upd_thread t (process_todo_update (\<lambda>_. True)) s)
     }"

definition binder_enqueue_thread_work :: "nat \<Rightarrow> work_id \<Rightarrow> driver \<Rightarrow> driver option" where
  "binder_enqueue_thread_work t w s = binder_enqueue_thread_work_ilocked t w s"

text \<open>\<^verbatim>\<open>list_del_init\<close>: harmless when the item is on no list.\<close>

definition binder_dequeue_work_ilocked :: "work_id \<Rightarrow> driver \<Rightarrow> driver" where
  "binder_dequeue_work_ilocked w s =
     (case work_on s w of
        None \<Rightarrow> s
      | Some l \<Rightarrow> s\<lparr>todo := (todo s)(l := remove1 w (todo s l)), work_on := (work_on s)(w := None)\<rparr>)"

definition binder_dequeue_work :: "work_id \<Rightarrow> driver \<Rightarrow> driver" where
  "binder_dequeue_work w s = binder_dequeue_work_ilocked w s"

definition binder_dequeue_work_head_ilocked :: "worklist \<Rightarrow> driver \<Rightarrow> work_id option \<times> driver" where
  "binder_dequeue_work_head_ilocked l s =
     (case todo s l of
        [] \<Rightarrow> (None, s)
      | w # _ \<Rightarrow> (Some w, binder_dequeue_work_ilocked w s))"

section \<open>Choosing and waking threads\<close>

definition BINDER_LOOPER_STATE_REGISTERED :: u32 where "BINDER_LOOPER_STATE_REGISTERED = 0x01"
definition BINDER_LOOPER_STATE_ENTERED :: u32 where "BINDER_LOOPER_STATE_ENTERED = 0x02"
definition BINDER_LOOPER_STATE_EXITED :: u32 where "BINDER_LOOPER_STATE_EXITED = 0x04"
definition BINDER_LOOPER_STATE_INVALID :: u32 where "BINDER_LOOPER_STATE_INVALID = 0x08"
definition BINDER_LOOPER_STATE_WAITING :: u32 where "BINDER_LOOPER_STATE_WAITING = 0x10"
definition BINDER_LOOPER_STATE_POLL :: u32 where "BINDER_LOOPER_STATE_POLL = 0x20"

definition binder_has_work_ilocked :: "driver \<Rightarrow> nat \<Rightarrow> bool \<Rightarrow> bool" where
  "binder_has_work_ilocked s t do_proc_work =
     (let th = bthread s t
      in process_todo th \<or> looper_need_return th
         \<or> (do_proc_work \<and> \<not> binder_worklist_empty_ilocked s (Proc_todo (thread_proc th))))"

definition binder_has_work :: "driver \<Rightarrow> nat \<Rightarrow> bool \<Rightarrow> bool" where
  "binder_has_work s t do_proc_work = binder_has_work_ilocked s t do_proc_work"

definition binder_available_for_proc_work_ilocked :: "driver \<Rightarrow> nat \<Rightarrow> bool" where
  "binder_available_for_proc_work_ilocked s t =
     (transaction_stack (bthread s t) = None \<and> binder_worklist_empty_ilocked s (Thread_todo t)
      \<and> looper (bthread s t) AND (BINDER_LOOPER_STATE_ENTERED OR BINDER_LOOPER_STATE_REGISTERED) \<noteq> 0)"

definition wake_up_interruptible :: "nat \<Rightarrow> bool \<Rightarrow> driver \<Rightarrow> driver" where
  "wake_up_interruptible t sync s = s\<lparr>woken := woken s @ [(t, sync)]\<rparr>"

definition binder_wakeup_poll_threads_ilocked :: "nat \<Rightarrow> bool \<Rightarrow> driver \<Rightarrow> driver" where
  "binder_wakeup_poll_threads_ilocked p sync s =
     foldl (\<lambda>s t. if looper (bthread s t) AND BINDER_LOOPER_STATE_POLL \<noteq> 0
                     \<and> binder_available_for_proc_work_ilocked s t
                  then wake_up_interruptible t sync s else s)
           s (inorder (proc_threads (bproc s p)))"

definition binder_select_thread_ilocked :: "nat \<Rightarrow> driver \<Rightarrow> nat option \<times> driver" where
  "binder_select_thread_ilocked p s =
     (case waiting_threads (bproc s p) of
        [] \<Rightarrow> (None, s)
      | t # ts \<Rightarrow> (Some t, upd_proc p (waiting_threads_update (\<lambda>_. ts)) s))"

definition binder_wakeup_thread_ilocked :: "nat \<Rightarrow> nat option \<Rightarrow> bool \<Rightarrow> driver \<Rightarrow> driver" where
  "binder_wakeup_thread_ilocked p th sync s =
     (case th of
        Some t \<Rightarrow> wake_up_interruptible t sync s
      | None \<Rightarrow> binder_wakeup_poll_threads_ilocked p sync s)"

definition binder_wakeup_proc_ilocked :: "nat \<Rightarrow> driver \<Rightarrow> driver" where
  "binder_wakeup_proc_ilocked p s =
     (let (th, s') = binder_select_thread_ilocked p s in binder_wakeup_thread_ilocked p th False s')"

end
