(* ===== verification/Binder_Nodes.thy ===== *)
theory Binder_Nodes
  imports Binder_State
begin

text \<open>
  Nodes and references of the Binder driver: the search trees of a process, the reference
  counts of a node, and the operations that take and drop references. The red-black tree
  library is the pair of functions in the environment, as for the allocator.
\<close>

section \<open>Search trees\<close>

text \<open>
  The walk that every lookup makes, and the walk that every insertion makes: \<open>Inl\<close> the node
  already there, or \<open>Inr\<close> the tree with the new node linked at the empty place.
\<close>

fun rb_search :: "('a \<Rightarrow> 'k::linorder) \<Rightarrow> 'k \<Rightarrow> 'a tree \<Rightarrow> 'a option" where
  "rb_search key k Leaf = None"
| "rb_search key k (Node l x r) =
     (if k < key x then rb_search key k l else if k > key x then rb_search key k r else Some x)"

fun rb_link :: "('a \<Rightarrow> 'k::linorder) \<Rightarrow> 'k \<Rightarrow> 'a \<Rightarrow> 'a tree \<Rightarrow> 'a + 'a tree" where
  "rb_link key k n Leaf = Inr (Node Leaf n Leaf)"
| "rb_link key k n (Node l x r) =
     (if k < key x then map_sum id (\<lambda>l'. Node l' x r) (rb_link key k n l)
      else if k > key x then map_sum id (\<lambda>r'. Node l x r') (rb_link key k n r)
      else Inl x)"

section \<open>Nodes\<close>

definition binder_inc_node_tmpref_ilocked :: "nat \<Rightarrow> driver \<Rightarrow> driver" where
  "binder_inc_node_tmpref_ilocked n s = upd_node n (tmp_refs_update (\<lambda>c. s32 (c + 1))) s"

definition binder_inc_node_tmpref :: "nat \<Rightarrow> driver \<Rightarrow> driver" where
  "binder_inc_node_tmpref n s = binder_inc_node_tmpref_ilocked n s"

definition binder_get_node_ilocked :: "nat \<Rightarrow> u64 \<Rightarrow> driver \<Rightarrow> nat option \<times> driver" where
  "binder_get_node_ilocked p ptr s =
     (case rb_search (\<lambda>n. node_ptr (bnode s n)) ptr (nodes (bproc s p)) of
        None \<Rightarrow> (None, s)
      | Some n \<Rightarrow> (Some n, binder_inc_node_tmpref_ilocked n s))"

definition binder_get_node :: "nat \<Rightarrow> u64 \<Rightarrow> driver \<Rightarrow> nat option \<times> driver" where
  "binder_get_node p ptr s = binder_get_node_ilocked p ptr s"

text \<open>The fields of \<^verbatim>\<open>struct flat_binder_object\<close> that matter here.\<close>

record flat_binder_object =
  fp_flags :: u32
  fp_binder :: u64
  fp_handle :: u32
  fp_cookie :: u64

definition FLAT_BINDER_FLAG_PRIORITY_MASK :: u32 where "FLAT_BINDER_FLAG_PRIORITY_MASK = 0xff"
definition FLAT_BINDER_FLAG_ACCEPTS_FDS :: u32 where "FLAT_BINDER_FLAG_ACCEPTS_FDS = 0x100"
definition FLAT_BINDER_FLAG_TXN_SECURITY_CTX :: u32 where "FLAT_BINDER_FLAG_TXN_SECURITY_CTX = 0x1000"

definition zeroed_node :: binder_node where
  "zeroed_node = \<lparr>node_debug_id = 0, node_proc = None, node_refs = [], internal_strong_refs = 0,
     local_weak_refs = 0, local_strong_refs = 0, tmp_refs = 0, node_ptr = 0, node_cookie = 0,
     has_strong_ref = False, pending_strong_ref = False, has_weak_ref = False,
     pending_weak_ref = False, accept_fds = False, txn_security_ctx = False, min_priority = 0,
     has_async_transaction = False\<rparr>"

text \<open>\<open>new_node\<close> is a fresh structure from \<^verbatim>\<open>kzalloc\<close>, so its counts start at zero.\<close>

definition binder_init_node_ilocked ::
  "kernel_env \<Rightarrow> nat \<Rightarrow> nat \<Rightarrow> flat_binder_object option \<Rightarrow> driver \<Rightarrow> nat \<times> driver" where
  "binder_init_node_ilocked env p new_node fp s =
     (let ptr = (case fp of None \<Rightarrow> 0 | Some f \<Rightarrow> fp_binder f);
          cookie = (case fp of None \<Rightarrow> 0 | Some f \<Rightarrow> fp_cookie f);
          flags = (case fp of None \<Rightarrow> 0 | Some f \<Rightarrow> fp_flags f)
      in case rb_link (\<lambda>n. node_ptr (bnode s n)) ptr new_node (nodes (bproc s p)) of
           Inl n \<Rightarrow> (n, binder_inc_node_tmpref_ilocked n s)
         | Inr t \<Rightarrow>
             let s1 = binder_stats_created BINDER_STAT_NODE s;
                 s2 = s1\<lparr>binder_last_id := Suc (binder_last_id s1),
                         work_type := (work_type s1)(Node_work new_node := BINDER_WORK_NODE),
                         work_on := (work_on s1)(Node_work new_node := None),
                         todo := (todo s1)(Async_todo new_node := [])\<rparr>;
                 s3 = upd_proc p (nodes_update (\<lambda>_. rb_insert_color env t)) s2
             in (new_node,
                 upd_node new_node (\<lambda>_. zeroed_node
                   \<lparr>tmp_refs := 1, node_debug_id := Suc (binder_last_id s1), node_proc := Some p,
                    node_ptr := ptr, node_cookie := cookie,
                    min_priority := ucast (flags AND FLAT_BINDER_FLAG_PRIORITY_MASK),
                    accept_fds := (flags AND FLAT_BINDER_FLAG_ACCEPTS_FDS \<noteq> 0),
                    txn_security_ctx := (flags AND FLAT_BINDER_FLAG_TXN_SECURITY_CTX \<noteq> 0)\<rparr>) s3))"

text \<open>\<open>new_node = None\<close> is a failed \<^verbatim>\<open>kzalloc\<close>.\<close>

definition binder_new_node ::
  "kernel_env \<Rightarrow> nat \<Rightarrow> nat option \<Rightarrow> flat_binder_object option \<Rightarrow> driver \<Rightarrow> nat option \<times> driver" where
  "binder_new_node env p new_node fp s =
     (case new_node of
        None \<Rightarrow> (None, s)
      | Some m \<Rightarrow> let (n, s') = binder_init_node_ilocked env p m fp s
                  in (Some n, if n \<noteq> m then s'\<lparr>freed_nodes := m # freed_nodes s'\<rparr> else s'))"

definition binder_free_node :: "nat \<Rightarrow> driver \<Rightarrow> driver" where
  "binder_free_node n s = binder_stats_deleted BINDER_STAT_NODE (s\<lparr>freed_nodes := n # freed_nodes s\<rparr>)"

text \<open>
  \<open>binder_inc_node_nilocked\<close>: the error value and the state. \<^verbatim>\<open>container_of\<close> is only
  meaningful on the work list of a thread.
\<close>

definition is_context_mgr :: "driver \<Rightarrow> nat \<Rightarrow> bool" where
  "is_context_mgr s n =
     (case node_proc (bnode s n) of
        None \<Rightarrow> False
      | Some p \<Rightarrow> binder_context_mgr_node s (proc_context (bproc s p)) = Some n)"

definition binder_inc_node_nilocked ::
  "nat \<Rightarrow> bool \<Rightarrow> bool \<Rightarrow> worklist option \<Rightarrow> driver \<Rightarrow> (kerr option \<times> driver) option" where
  "binder_inc_node_nilocked n strong' internal target_list s =
     (if strong'
      then if internal \<and> target_list = None \<and> internal_strong_refs (bnode s n) = 0
              \<and> \<not> (is_context_mgr s n \<and> has_strong_ref (bnode s n))
           then Some (Some EINVAL, s)
           else let s1 = (if internal then upd_node n (internal_strong_refs_update (\<lambda>c. s32 (c + 1))) s
                          else upd_node n (local_strong_refs_update (\<lambda>c. s32 (c + 1))) s)
                in case target_list of
                     None \<Rightarrow> Some (None, s1)
                   | Some l \<Rightarrow>
                       if has_strong_ref (bnode s1 n) then Some (None, s1)
                       else (case l of
                               Thread_todo t \<Rightarrow>
                                 map_option (Pair None)
                                   (binder_enqueue_deferred_thread_work_ilocked t (Node_work n)
                                      (binder_dequeue_work_ilocked (Node_work n) s1))
                             | _ \<Rightarrow> None)
      else let s1 = (if internal then s else upd_node n (local_weak_refs_update (\<lambda>c. s32 (c + 1))) s)
           in if has_weak_ref (bnode s1 n) \<or> work_on s1 (Node_work n) \<noteq> None then Some (None, s1)
              else case target_list of
                     None \<Rightarrow> Some (Some EINVAL, s1)
                   | Some l \<Rightarrow> map_option (Pair None) (binder_enqueue_work_ilocked (Node_work n) l s1))"

definition binder_inc_node ::
  "nat \<Rightarrow> bool \<Rightarrow> bool \<Rightarrow> worklist option \<Rightarrow> driver \<Rightarrow> (kerr option \<times> driver) option" where
  "binder_inc_node n strong' internal target_list s =
     binder_inc_node_nilocked n strong' internal target_list s"

text \<open>
  Dropping a count: the counter itself, then, when nothing of that kind is left, the decision
  whether user space has to be told or the node can go. The result says whether the caller has
  to free the node.
\<close>

definition dec_node_count :: "nat \<Rightarrow> bool \<Rightarrow> bool \<Rightarrow> driver \<Rightarrow> driver" where
  "dec_node_count n strong' internal s =
     (if strong'
      then if internal then upd_node n (internal_strong_refs_update (\<lambda>c. s32 (c - 1))) s
           else upd_node n (local_strong_refs_update (\<lambda>c. s32 (c - 1))) s
      else if internal then s else upd_node n (local_weak_refs_update (\<lambda>c. s32 (c - 1))) s)"

definition dec_node_release :: "kernel_env \<Rightarrow> nat \<Rightarrow> driver \<Rightarrow> (bool \<times> driver) option" where
  "dec_node_release env n s =
     (let nd = bnode s n;
          unused = (node_refs nd = [] \<and> local_strong_refs nd = 0 \<and> local_weak_refs nd = 0 \<and> tmp_refs nd = 0)
      in case node_proc nd of
           Some p \<Rightarrow>
             if has_strong_ref nd \<or> has_weak_ref nd
             then if work_on s (Node_work n) = None
                  then do {
                    s \<leftarrow> binder_enqueue_work_ilocked (Node_work n) (Proc_todo p) s;
                    Some (False, binder_wakeup_proc_ilocked p s)
                  }
                  else Some (False, s)
             else if unused
             then Some (True, upd_proc p (nodes_update (rb_erase env n)) (binder_dequeue_work_ilocked (Node_work n) s))
             else Some (False, s)
         | None \<Rightarrow>
             if unused
             then do {
               s \<leftarrow> bug_on (work_on s (Node_work n) \<noteq> None) s;
               Some (True, s\<lparr>binder_dead_nodes := remove1 n (binder_dead_nodes s)\<rparr>)
             }
             else Some (False, s))"

definition binder_dec_node_nilocked ::
  "kernel_env \<Rightarrow> nat \<Rightarrow> bool \<Rightarrow> bool \<Rightarrow> driver \<Rightarrow> (bool \<times> driver) option" where
  "binder_dec_node_nilocked env n strong' internal s0 =
     (let s = dec_node_count n strong' internal s0; nd = bnode s n
      in if strong' \<and> (local_strong_refs nd \<noteq> 0 \<or> internal_strong_refs nd \<noteq> 0) then Some (False, s)
         else if \<not> strong' \<and> (local_weak_refs nd \<noteq> 0 \<or> tmp_refs nd \<noteq> 0 \<or> node_refs nd \<noteq> [])
         then Some (False, s)
         else dec_node_release env n s)"

definition binder_dec_node :: "kernel_env \<Rightarrow> nat \<Rightarrow> bool \<Rightarrow> bool \<Rightarrow> driver \<Rightarrow> driver option" where
  "binder_dec_node env n strong' internal s =
     do {
       (free_node, s) \<leftarrow> binder_dec_node_nilocked env n strong' internal s;
       Some (if free_node then binder_free_node n s else s)
     }"

definition binder_dec_node_tmpref :: "kernel_env \<Rightarrow> nat \<Rightarrow> driver \<Rightarrow> driver option" where
  "binder_dec_node_tmpref env n s =
     do {
       s \<leftarrow> Some (upd_node n (tmp_refs_update (\<lambda>c. s32 (c - 1))) s);
       s \<leftarrow> bug_on (tmp_refs (bnode s n) < 0) s;
       (free_node, s) \<leftarrow> binder_dec_node_nilocked env n False True s;
       Some (if free_node then binder_free_node n s else s)
     }"

definition binder_put_node :: "kernel_env \<Rightarrow> nat \<Rightarrow> driver \<Rightarrow> driver option" where
  "binder_put_node env n s = binder_dec_node_tmpref env n s"

section \<open>References\<close>

definition binder_get_ref_olocked :: "driver \<Rightarrow> nat \<Rightarrow> u32 \<Rightarrow> bool \<Rightarrow> nat option" where
  "binder_get_ref_olocked s p d need_strong_ref =
     (case rb_search (\<lambda>r. desc (ref_data (bref s r))) d (refs_by_desc (bproc s p)) of
        None \<Rightarrow> None
      | Some r \<Rightarrow> if need_strong_ref \<and> strong (ref_data (bref s r)) = 0 then None else Some r)"

text \<open>The loop over the handles in ascending order that finds the one for a new reference.\<close>

fun pick_desc :: "u32 \<Rightarrow> u32 list \<Rightarrow> u32" where
  "pick_desc d [] = d"
| "pick_desc d (x # xs) = (if x > d then d else pick_desc (x + 1) xs)"

text \<open>\<^verbatim>\<open>node < ref->node\<close> compares pointers; \<open>Inl None\<close> is the \<^verbatim>\<open>BUG()\<close>.\<close>

definition ref_node_key :: "driver \<Rightarrow> nat \<Rightarrow> nat" where
  "ref_node_key s r = (case ref_node (bref s r) of Some n \<Rightarrow> n | None \<Rightarrow> 0)"

definition binder_get_ref_for_node_olocked ::
  "kernel_env \<Rightarrow> nat \<Rightarrow> nat \<Rightarrow> nat option \<Rightarrow> driver \<Rightarrow> (nat option \<times> driver) option" where
  "binder_get_ref_for_node_olocked env p n new_ref s =
     (case new_ref of
        None \<Rightarrow> Some (rb_search (ref_node_key s) n (refs_by_node (bproc s p)), s)
      | Some m \<Rightarrow>
        (case rb_link (ref_node_key s) n m (refs_by_node (bproc s p)) of
           Inl r \<Rightarrow> Some (Some r, s)
         | Inr t \<Rightarrow>
             let s1 = binder_stats_created BINDER_STAT_REF s;
                 start = (if binder_context_mgr_node s (proc_context (bproc s p)) = Some n then 0 else 1);
                 d = pick_desc start (map (\<lambda>r. desc (ref_data (bref s r))) (inorder (refs_by_desc (bproc s p))));
                 s2 = upd_proc p (refs_by_node_update (\<lambda>_. rb_insert_color env t))
                        (s1\<lparr>binder_last_id := Suc (binder_last_id s1)\<rparr>);
                 s3 = upd_ref m (\<lambda>_. \<lparr>ref_data = \<lparr>ref_debug_id = Suc (binder_last_id s1), desc = d, strong = 0, weak = 0\<rparr>,
                                      ref_proc = p, ref_node = Some n, death = None\<rparr>) s2
             in case rb_link (\<lambda>r. desc (ref_data (bref s3 r))) d m (refs_by_desc (bproc s p)) of
                  Inl _ \<Rightarrow> None
                | Inr u \<Rightarrow>
                    Some (Some m, upd_node n (node_refs_update (\<lambda>rs. m # rs))
                                    (upd_proc p (refs_by_desc_update (\<lambda>_. rb_insert_color env u)) s3))))"

definition binder_cleanup_ref_olocked :: "kernel_env \<Rightarrow> nat \<Rightarrow> driver \<Rightarrow> driver option" where
  "binder_cleanup_ref_olocked env r s =
     (case ref_node (bref s r) of
        None \<Rightarrow> None
      | Some n \<Rightarrow>
        do {
          s1 \<leftarrow> Some (upd_proc (ref_proc (bref s r))
                   (\<lambda>pr. pr\<lparr>refs_by_desc := rb_erase env r (refs_by_desc pr),
                           refs_by_node := rb_erase env r (refs_by_node pr)\<rparr>) s);
          s2 \<leftarrow> (if strong (ref_data (bref s1 r)) \<noteq> 0
                 then map_option snd (binder_dec_node_nilocked env n True True s1) else Some s1);
          s3 \<leftarrow> Some (upd_node n (node_refs_update (remove1 r)) s2);
          (delete_node, s4) \<leftarrow> binder_dec_node_nilocked env n False True s3;
          s5 \<leftarrow> Some (if delete_node then s4 else upd_ref r (ref_node_update (\<lambda>_. None)) s4);
          s6 \<leftarrow> Some (case death (bref s5 r) of
                    None \<Rightarrow> s5
                  | Some d \<Rightarrow> binder_stats_deleted BINDER_STAT_DEATH (binder_dequeue_work (Death_work d) s5));
          Some (binder_stats_deleted BINDER_STAT_REF s6)
        })"

definition upd_ref_data :: "nat \<Rightarrow> (binder_ref_data \<Rightarrow> binder_ref_data) \<Rightarrow> driver \<Rightarrow> driver" where
  "upd_ref_data r f s = upd_ref r (ref_data_update f) s"

definition binder_inc_ref_olocked ::
  "nat \<Rightarrow> bool \<Rightarrow> worklist option \<Rightarrow> driver \<Rightarrow> (kerr option \<times> driver) option" where
  "binder_inc_ref_olocked r strong' target_list s =
     (case ref_node (bref s r) of
        None \<Rightarrow> None
      | Some n \<Rightarrow>
        do {
          (ret, s') \<leftarrow>
            (if (if strong' then strong (ref_data (bref s r)) = 0 else weak (ref_data (bref s r)) = 0)
             then binder_inc_node n strong' True target_list s else Some (None, s));
          Some (case ret of
                  Some e \<Rightarrow> (Some e, s')
                | None \<Rightarrow> (None, upd_ref_data r (if strong' then strong_update (\<lambda>c. s32 (c + 1))
                                                 else weak_update (\<lambda>c. s32 (c + 1))) s'))
        })"

definition binder_dec_ref_olocked :: "kernel_env \<Rightarrow> nat \<Rightarrow> bool \<Rightarrow> driver \<Rightarrow> (bool \<times> driver) option" where
  "binder_dec_ref_olocked env r strong' s =
     (if (if strong' then strong (ref_data (bref s r)) = 0 else weak (ref_data (bref s r)) = 0)
      then Some (False, s)
      else do {
        s1 \<leftarrow> Some (upd_ref_data r (if strong' then strong_update (\<lambda>c. s32 (c - 1)) else weak_update (\<lambda>c. s32 (c - 1))) s);
        s2 \<leftarrow> (if strong' \<and> strong (ref_data (bref s1 r)) = 0
               then (case ref_node (bref s1 r) of None \<Rightarrow> None | Some n \<Rightarrow> binder_dec_node env n strong' True s1)
               else Some s1);
        if strong (ref_data (bref s2 r)) = 0 \<and> weak (ref_data (bref s2 r)) = 0
        then map_option (Pair True) (binder_cleanup_ref_olocked env r s2)
        else Some (False, s2)
      })"

definition binder_get_node_from_ref ::
  "nat \<Rightarrow> u32 \<Rightarrow> bool \<Rightarrow> driver \<Rightarrow> (nat \<times> binder_ref_data) option \<times> driver" where
  "binder_get_node_from_ref p d need_strong_ref s =
     (case binder_get_ref_olocked s p d need_strong_ref of
        None \<Rightarrow> (None, s)
      | Some r \<Rightarrow>
          (case ref_node (bref s r) of
             None \<Rightarrow> (None, s)
           | Some n \<Rightarrow> (Some (n, ref_data (bref s r)), binder_inc_node_tmpref n s)))"

definition binder_free_ref :: "nat \<Rightarrow> driver \<Rightarrow> driver" where
  "binder_free_ref r s =
     (let s1 = (case ref_node (bref s r) of None \<Rightarrow> s | Some n \<Rightarrow> binder_free_node n s);
          s2 = (case death (bref s r) of None \<Rightarrow> s1 | Some d \<Rightarrow> s1\<lparr>freed_work := Death_work d # freed_work s1\<rparr>)
      in s2\<lparr>freed_refs := r # freed_refs s2\<rparr>)"

definition binder_update_ref_for_handle ::
  "kernel_env \<Rightarrow> nat \<Rightarrow> u32 \<Rightarrow> bool \<Rightarrow> bool \<Rightarrow> driver \<Rightarrow> ((kerr + binder_ref_data) \<times> driver) option" where
  "binder_update_ref_for_handle env p d increment strong' s =
     (case binder_get_ref_olocked s p d strong' of
        None \<Rightarrow> Some (Inl EINVAL, s)
      | Some r \<Rightarrow>
          if increment
          then do {
            (ret, s1) \<leftarrow> binder_inc_ref_olocked r strong' None s;
            Some (case ret of None \<Rightarrow> Inr (ref_data (bref s1 r)) | Some e \<Rightarrow> Inl e, s1)
          }
          else do {
            (delete_ref, s1) \<leftarrow> binder_dec_ref_olocked env r strong' s;
            Some (Inr (ref_data (bref s1 r)), if delete_ref then binder_free_ref r s1 else s1)
          })"

definition binder_dec_ref_for_handle ::
  "kernel_env \<Rightarrow> nat \<Rightarrow> u32 \<Rightarrow> bool \<Rightarrow> driver \<Rightarrow> ((kerr + binder_ref_data) \<times> driver) option" where
  "binder_dec_ref_for_handle env p d strong' s = binder_update_ref_for_handle env p d False strong' s"

definition binder_inc_ref_for_node ::
  "kernel_env \<Rightarrow> nat \<Rightarrow> nat \<Rightarrow> nat option \<Rightarrow> bool \<Rightarrow> worklist option \<Rightarrow> driver
     \<Rightarrow> ((kerr + binder_ref_data) \<times> driver) option" where
  "binder_inc_ref_for_node env p n new_ref strong' target_list s =
     do {
       (found, s1) \<leftarrow> binder_get_ref_for_node_olocked env p n None s;
       case found of
         Some r \<Rightarrow>
           do {
             (ret, s2) \<leftarrow> binder_inc_ref_olocked r strong' target_list s1;
             Some (case ret of None \<Rightarrow> Inr (ref_data (bref s2 r)) | Some e \<Rightarrow> Inl e, s2)
           }
       | None \<Rightarrow>
           (case new_ref of
              None \<Rightarrow> Some (Inl ENOMEM, s1)
            | Some m \<Rightarrow>
                do {
                  (got, s2) \<leftarrow> binder_get_ref_for_node_olocked env p n (Some m) s1;
                  (case got of
                     None \<Rightarrow> None
                   | Some r \<Rightarrow>
                       do {
                         (ret, s3) \<leftarrow> binder_inc_ref_olocked r strong' target_list s2;
                         Some (case ret of None \<Rightarrow> Inr (ref_data (bref s3 r)) | Some e \<Rightarrow> Inl e,
                               if r \<noteq> m then s3\<lparr>freed_refs := m # freed_refs s3\<rparr> else s3)
                       })
                })
     }"

end
