(* ===== verification/Binder_Txn.thy ===== *)
theory Binder_Txn
  imports Binder_Nodes
begin

text \<open>
  Transactions of the Binder driver: the stack of a thread, the temporary counts that keep
  threads and processes alive, delivery to a thread, a process or the asynchronous queue of a
  node, the translation of objects between processes, and the teardown of threads and nodes.
\<close>

section \<open>Codes\<close>

definition BR_OK :: u32 where "BR_OK = 0x7201"
definition BR_DEAD_REPLY :: u32 where "BR_DEAD_REPLY = 0x7205"
definition TF_ONE_WAY :: u32 where "TF_ONE_WAY = 0x01"

definition one_way :: "struct_binder_transaction \<Rightarrow> bool" where
  "one_way t = (txn_flags t AND TF_ONE_WAY \<noteq> 0)"

section \<open>Keeping threads and processes alive\<close>

text \<open>The allocator is released with as many rounds as it has buffers, and one to notice the end.\<close>

definition binder_free_proc :: "kernel_env \<Rightarrow> nat \<Rightarrow> driver \<Rightarrow> driver option" where
  "binder_free_proc env p s =
     do {
       s \<leftarrow> bug_on (\<not> binder_worklist_empty_ilocked s (Proc_todo p)) s;
       s \<leftarrow> bug_on (\<not> binder_worklist_empty_ilocked s (Delivered_death p)) s;
       c \<leftarrow> Some (proc_context (bproc s p));
       s \<leftarrow> Some (s\<lparr>device_ref := (device_ref s)(c := device_ref s c - 1)\<rparr>);
       s \<leftarrow> Some (if device_ref s c = 0 then s\<lparr>freed_devices := c # freed_devices s\<rparr> else s);
       a \<leftarrow> Some (proc_alloc (bproc s p));
       case binder_alloc_deferred_release (Suc (length (inorder (allocated_buffers a)))) env a of
         Some (Inr (n, page_count, a')) \<Rightarrow>
           Some (let s' = binder_stats_deleted BINDER_STAT_PROC (upd_proc p (proc_alloc_update (\<lambda>_. a')) s)
                 in s'\<lparr>freed_procs := p # freed_procs s'\<rparr>)
       | _ \<Rightarrow> None
     }"

definition binder_proc_dec_tmpref :: "kernel_env \<Rightarrow> nat \<Rightarrow> driver \<Rightarrow> driver option" where
  "binder_proc_dec_tmpref env p s0 =
     (let s = upd_proc p (proc_tmp_ref_update (\<lambda>c. c - 1)) s0; pr = bproc s p
      in if proc_is_dead pr \<and> proc_threads pr = Leaf \<and> proc_tmp_ref pr = 0
         then binder_free_proc env p s else Some s)"

definition binder_free_thread :: "kernel_env \<Rightarrow> nat \<Rightarrow> driver \<Rightarrow> driver option" where
  "binder_free_thread env t s =
     do {
       s \<leftarrow> bug_on (\<not> binder_worklist_empty_ilocked s (Thread_todo t)) s;
       s \<leftarrow> binder_proc_dec_tmpref env (thread_proc (bthread s t)) (binder_stats_deleted BINDER_STAT_THREAD s);
       Some (s\<lparr>freed_threads := t # freed_threads s\<rparr>)
     }"

definition binder_thread_dec_tmpref :: "kernel_env \<Rightarrow> nat \<Rightarrow> driver \<Rightarrow> driver option" where
  "binder_thread_dec_tmpref env t s0 =
     (let s = upd_thread t (thread_tmp_ref_update (\<lambda>c. c - 1)) s0; th = bthread s t
      in if thread_is_dead th \<and> thread_tmp_ref th = 0 then binder_free_thread env t s else Some s)"

section \<open>Transactions\<close>

definition binder_pop_transaction_ilocked :: "nat option \<Rightarrow> nat \<Rightarrow> driver \<Rightarrow> driver option" where
  "binder_pop_transaction_ilocked target_thread t s =
     (case target_thread of
        None \<Rightarrow> None
      | Some th \<Rightarrow>
        do {
          s \<leftarrow> bug_on (transaction_stack (bthread s th) \<noteq> Some t) s;
          s \<leftarrow> bug_on (txn_from (btxn s t) \<noteq> Some th) s;
          s \<leftarrow> Some (upd_thread th (transaction_stack_update (\<lambda>_. from_parent (btxn s t))) s);
          Some (upd_txn t (txn_from_update (\<lambda>_. None)) s)
        })"

definition binder_get_txn_from :: "nat \<Rightarrow> driver \<Rightarrow> nat option \<times> driver" where
  "binder_get_txn_from t s =
     (case txn_from (btxn s t) of
        None \<Rightarrow> (None, s)
      | Some th \<Rightarrow> (Some th, upd_thread th (thread_tmp_ref_update (\<lambda>c. c + 1)) s))"

text \<open>With the locks held throughout, the second look at \<^verbatim>\<open>t->from\<close> sees the same thread.\<close>

definition binder_get_txn_from_and_acq_inner :: "nat \<Rightarrow> driver \<Rightarrow> nat option \<times> driver" where
  "binder_get_txn_from_and_acq_inner t s = binder_get_txn_from t s"

definition binder_free_txn_fixups :: "nat \<Rightarrow> driver \<Rightarrow> driver" where
  "binder_free_txn_fixups t s =
     upd_txn t (fd_fixups_update (\<lambda>_. [])) (s\<lparr>fputs := fputs s @ map fst (fd_fixups (btxn s t))\<rparr>)"

text \<open>The buffer of a transaction lives in the allocator of the target process.\<close>

definition txn_buffer_of :: "driver \<Rightarrow> nat \<Rightarrow> binder_buffer option" where
  "txn_buffer_of s t =
     (case (to_proc (btxn s t), txn_buffer (btxn s t)) of
        (Some p, Some b) \<Rightarrow> Some (bufs (proc_alloc (bproc s p)) b)
      | _ \<Rightarrow> None)"

definition clear_buffer_transaction :: "nat \<Rightarrow> nat \<Rightarrow> driver \<Rightarrow> driver" where
  "clear_buffer_transaction p b s = upd_proc p (proc_alloc_update (set_buf b (transaction_update (\<lambda>_. None)))) s"

definition binder_free_transaction :: "nat \<Rightarrow> driver \<Rightarrow> driver" where
  "binder_free_transaction t s =
     (let s1 = (case (to_proc (btxn s t), txn_buffer (btxn s t)) of
                  (Some p, Some b) \<Rightarrow> clear_buffer_transaction p b s
                | _ \<Rightarrow> s);
          s2 = binder_free_txn_fixups t s1
      in binder_stats_deleted BINDER_STAT_TRANSACTION (s2\<lparr>freed_txns := t # freed_txns s2\<rparr>))"

text \<open>
  The failed reply goes to the first sender up the stack that is still alive; the transactions
  in between are freed. \<open>None\<close> is a \<^verbatim>\<open>BUG_ON\<close>, or the end of the fuel.
\<close>

fun send_failed_reply_loop :: "nat \<Rightarrow> kernel_env \<Rightarrow> nat \<Rightarrow> u32 \<Rightarrow> driver \<Rightarrow> driver option" where
  "send_failed_reply_loop 0 env t error_code s = None"
| "send_failed_reply_loop (Suc fuel) env t error_code s =
     (case binder_get_txn_from_and_acq_inner t s of
        (Some th, s1) \<Rightarrow>
          do {
            s2 \<leftarrow> binder_pop_transaction_ilocked (Some th) t s1;
            s3 \<leftarrow> (if reply_error_cmd (bthread s2 th) = BR_OK
                   then map_option (wake_up_interruptible th False)
                          (binder_enqueue_thread_work_ilocked th (Reply_error_work th)
                             (upd_thread th (reply_error_cmd_update (\<lambda>_. error_code)) s2))
                   else Some s2);
            s4 \<leftarrow> binder_thread_dec_tmpref env th s3;
            Some (binder_free_transaction t s4)
          }
      | (None, s1) \<Rightarrow>
          (let s2 = binder_free_transaction t s1
           in case from_parent (btxn s1 t) of
                None \<Rightarrow> Some s2
              | Some t' \<Rightarrow> send_failed_reply_loop fuel env t' error_code s2))"

definition binder_send_failed_reply :: "nat \<Rightarrow> kernel_env \<Rightarrow> nat \<Rightarrow> u32 \<Rightarrow> driver \<Rightarrow> driver option" where
  "binder_send_failed_reply fuel env t error_code s =
     do {
       s \<leftarrow> bug_on (one_way (btxn s t)) s;
       send_failed_reply_loop fuel env t error_code s
     }"

definition binder_cleanup_transaction :: "nat \<Rightarrow> kernel_env \<Rightarrow> nat \<Rightarrow> u32 \<Rightarrow> driver \<Rightarrow> driver option" where
  "binder_cleanup_transaction fuel env t error_code s =
     (case txn_buffer_of s t of
        None \<Rightarrow> None
      | Some b \<Rightarrow>
          if target_node b \<noteq> None \<and> \<not> one_way (btxn s t)
          then binder_send_failed_reply fuel env t error_code s
          else Some (binder_free_transaction t s))"

section \<open>Delivery\<close>

text \<open>
  The transaction goes to the given thread, else to a waiting thread, else to the process;
  a second asynchronous transaction to the same node waits in the queue of the node. The
  result says whether the target was alive.
\<close>

definition queue_transaction ::
  "nat \<Rightarrow> nat \<Rightarrow> nat option \<Rightarrow> nat \<Rightarrow> bool \<Rightarrow> bool \<Rightarrow> driver \<Rightarrow> (bool \<times> driver) option" where
  "queue_transaction t p th n oneway pending_async s =
     (if proc_is_dead (bproc s p) \<or> (case th of None \<Rightarrow> False | Some x \<Rightarrow> thread_is_dead (bthread s x))
      then Some (False, s)
      else let (th', s3) = (if th = None \<and> \<not> pending_async then binder_select_thread_ilocked p s else (th, s))
           in do {
             s4 \<leftarrow> (case th' of
                      Some x \<Rightarrow> binder_enqueue_thread_work_ilocked x (Txn_work t) s3
                    | None \<Rightarrow> binder_enqueue_work_ilocked (Txn_work t) (if pending_async then Async_todo n else Proc_todo p) s3);
             Some (True, if pending_async then s4 else binder_wakeup_thread_ilocked p th' (\<not> oneway) s4)
           })"

definition binder_proc_transaction :: "nat \<Rightarrow> nat \<Rightarrow> nat option \<Rightarrow> driver \<Rightarrow> (bool \<times> driver) option" where
  "binder_proc_transaction t p th s =
     (case txn_buffer_of s t of
        None \<Rightarrow> None
      | Some buf \<Rightarrow>
        (case target_node buf of
           None \<Rightarrow> None
         | Some n \<Rightarrow>
             let oneway = one_way (btxn s t); pending_async = (oneway \<and> has_async_transaction (bnode s n))
             in do {
               s \<leftarrow> bug_on (oneway \<and> th \<noteq> None) s;
               queue_transaction t p th n oneway pending_async
                 (if oneway \<and> \<not> pending_async then upd_node n (has_async_transaction_update (\<lambda>_. True)) s else s)
             }))"

text \<open>\<open>Inr\<close> the process of the node; \<open>Inl\<close> the error code when it is gone.\<close>

definition binder_get_node_refs_for_txn :: "nat \<Rightarrow> driver \<Rightarrow> ((u32 + nat) \<times> driver) option" where
  "binder_get_node_refs_for_txn n s =
     (case node_proc (bnode s n) of
        None \<Rightarrow> Some (Inl BR_DEAD_REPLY, s)
      | Some p \<Rightarrow>
        do {
          (e, s1) \<leftarrow> binder_inc_node_nilocked n True False None s;
          s2 \<leftarrow> Some (binder_inc_node_tmpref_ilocked n s1);
          Some (Inr p, upd_proc p (proc_tmp_ref_update (\<lambda>c. c + 1)) s2)
        })"

section \<open>Translating objects\<close>

datatype binder_type =
    BINDER_TYPE_BINDER | BINDER_TYPE_WEAK_BINDER | BINDER_TYPE_HANDLE | BINDER_TYPE_WEAK_HANDLE
  | BINDER_TYPE_FD | BINDER_TYPE_FDA | BINDER_TYPE_PTR

text \<open>
  A local object becomes a handle in the target process. \<open>allowed\<close> is the answer of the
  security module; the two fresh structures are what \<^verbatim>\<open>kzalloc\<close> returns.
\<close>

definition binder_translate_binder ::
  "kernel_env \<Rightarrow> nat option \<Rightarrow> nat option \<Rightarrow> bool \<Rightarrow> binder_type \<Rightarrow> flat_binder_object \<Rightarrow> nat \<Rightarrow> nat \<Rightarrow> driver
     \<Rightarrow> ((kerr + binder_type \<times> flat_binder_object) \<times> driver) option" where
  "binder_translate_binder env new_node new_ref allowed ty fp th target s =
     (let p = thread_proc (bthread s th);
          (found, s1) = binder_get_node p (fp_binder fp) s;
          (nd, s2) = (case found of Some n \<Rightarrow> (Some n, s1) | None \<Rightarrow> binder_new_node env p new_node (Some fp) s1)
      in case nd of
           None \<Rightarrow> Some (Inl ENOMEM, s2)
         | Some n \<Rightarrow>
             do {
               (res, s3) \<leftarrow>
                 (if fp_cookie fp \<noteq> node_cookie (bnode s2 n) then Some (Inl EINVAL, s2)
                  else if \<not> allowed then Some (Inl EPERM, s2)
                  else do {
                    (r, s') \<leftarrow> binder_inc_ref_for_node env target n new_ref (ty = BINDER_TYPE_BINDER) (Some (Thread_todo th)) s2;
                    Some (map_sum id (\<lambda>d. (if ty = BINDER_TYPE_BINDER then BINDER_TYPE_HANDLE else BINDER_TYPE_WEAK_HANDLE,
                                           fp\<lparr>fp_binder := 0, fp_handle := desc d, fp_cookie := 0\<rparr>)) r, s')
                  });
               s4 \<leftarrow> binder_put_node env n s3;
               Some (res, s4)
             })"

text \<open>
  A handle becomes the local object when it comes home, and a handle of the target process
  otherwise.
\<close>

definition binder_translate_handle ::
  "kernel_env \<Rightarrow> nat option \<Rightarrow> bool \<Rightarrow> binder_type \<Rightarrow> flat_binder_object \<Rightarrow> nat \<Rightarrow> nat \<Rightarrow> driver
     \<Rightarrow> ((kerr + binder_type \<times> flat_binder_object) \<times> driver) option" where
  "binder_translate_handle env new_ref allowed ty fp th target s =
     (case binder_get_node_from_ref (thread_proc (bthread s th)) (fp_handle fp) (ty = BINDER_TYPE_HANDLE) s of
        (None, s1) \<Rightarrow> Some (Inl EINVAL, s1)
      | (Some (n, src), s1) \<Rightarrow>
          do {
            (res, s3) \<leftarrow>
              (if \<not> allowed then Some (Inl EPERM, s1)
               else if node_proc (bnode s1 n) = Some target
               then do {
                 (e, s2) \<leftarrow> binder_inc_node_nilocked n (ty = BINDER_TYPE_HANDLE) False None s1;
                 Some (Inr (if ty = BINDER_TYPE_HANDLE then BINDER_TYPE_BINDER else BINDER_TYPE_WEAK_BINDER,
                            fp\<lparr>fp_binder := node_ptr (bnode s1 n), fp_cookie := node_cookie (bnode s1 n)\<rparr>), s2)
               }
               else do {
                 (r, s2) \<leftarrow> binder_inc_ref_for_node env target n new_ref (ty = BINDER_TYPE_HANDLE) None s1;
                 Some (map_sum id (\<lambda>d. (ty, fp\<lparr>fp_binder := 0, fp_handle := desc d, fp_cookie := 0\<rparr>)) r, s2)
               });
            s4 \<leftarrow> binder_put_node env n s3;
            Some (res, s4)
          })"

section \<open>Threads\<close>

definition fresh_thread :: "nat \<Rightarrow> int \<Rightarrow> binder_thread" where
  "fresh_thread p pid = \<lparr>thread_proc = p, thread_pid = pid, looper = 0, looper_need_return = True,
     transaction_stack = None, process_todo = False, return_error_cmd = BR_OK, reply_error_cmd = BR_OK,
     thread_tmp_ref = 0, thread_is_dead = False\<rparr>"

definition binder_get_thread_ilocked ::
  "kernel_env \<Rightarrow> nat \<Rightarrow> int \<Rightarrow> nat option \<Rightarrow> driver \<Rightarrow> nat option \<times> driver" where
  "binder_get_thread_ilocked env p pid new_thread s =
     (case new_thread of
        None \<Rightarrow> (rb_search (\<lambda>t. thread_pid (bthread s t)) pid (proc_threads (bproc s p)), s)
      | Some t \<Rightarrow>
          (case rb_link (\<lambda>t. thread_pid (bthread s t)) pid t (proc_threads (bproc s p)) of
             Inl t' \<Rightarrow> (Some t', s)
           | Inr tr \<Rightarrow>
               let s1 = binder_stats_created BINDER_STAT_THREAD s;
                   s2 = s1\<lparr>todo := (todo s1)(Thread_todo t := []),
                          work_type := (work_type s1)(Return_error_work t := BINDER_WORK_RETURN_ERROR,
                                                     Reply_error_work t := BINDER_WORK_RETURN_ERROR)\<rparr>;
                   s3 = upd_proc p (proc_threads_update (\<lambda>_. rb_insert_color env tr)) s2
               in (Some t, upd_thread t (\<lambda>_. fresh_thread p pid) s3)))"

definition binder_get_thread :: "kernel_env \<Rightarrow> nat \<Rightarrow> int \<Rightarrow> nat option \<Rightarrow> driver \<Rightarrow> nat option \<times> driver" where
  "binder_get_thread env p pid new_thread s =
     (case binder_get_thread_ilocked env p pid None s of
        (Some t, s1) \<Rightarrow> (Some t, s1)
      | (None, s1) \<Rightarrow>
          (case new_thread of
             None \<Rightarrow> (None, s1)
           | Some m \<Rightarrow>
               let (t, s2) = binder_get_thread_ilocked env p pid (Some m) s1
               in (t, if t \<noteq> Some m then s2\<lparr>freed_threads := m # freed_threads s2\<rparr> else s2)))"

section \<open>Teardown\<close>

text \<open>One item of a work list that nobody will read any more.\<close>

definition release_one_work :: "nat \<Rightarrow> kernel_env \<Rightarrow> work_id \<Rightarrow> driver \<Rightarrow> driver option" where
  "release_one_work fuel env w s =
     (case work_type s w of
        BINDER_WORK_TRANSACTION \<Rightarrow>
          (case w of Txn_work t \<Rightarrow> binder_cleanup_transaction fuel env t BR_DEAD_REPLY s | _ \<Rightarrow> None)
      | BINDER_WORK_TRANSACTION_COMPLETE \<Rightarrow>
          Some (binder_stats_deleted BINDER_STAT_TRANSACTION_COMPLETE (s\<lparr>freed_work := w # freed_work s\<rparr>))
      | BINDER_WORK_DEAD_BINDER_AND_CLEAR \<Rightarrow>
          Some (binder_stats_deleted BINDER_STAT_DEATH (s\<lparr>freed_work := w # freed_work s\<rparr>))
      | BINDER_WORK_CLEAR_DEATH_NOTIFICATION \<Rightarrow>
          Some (binder_stats_deleted BINDER_STAT_DEATH (s\<lparr>freed_work := w # freed_work s\<rparr>))
      | _ \<Rightarrow> Some s)"

fun binder_release_work :: "nat \<Rightarrow> kernel_env \<Rightarrow> worklist \<Rightarrow> driver \<Rightarrow> driver option" where
  "binder_release_work 0 env l s = None"
| "binder_release_work (Suc fuel) env l s =
     (case binder_dequeue_work_head_ilocked l s of
        (None, s1) \<Rightarrow> Some s1
      | (Some w, s1) \<Rightarrow>
          do {
            s2 \<leftarrow> release_one_work fuel env w s1;
            binder_release_work fuel env l s2
          })"

text \<open>The walk over the transaction stack of a dying thread, with the number of transactions.\<close>

fun detach_transactions :: "nat \<Rightarrow> nat \<Rightarrow> nat option \<Rightarrow> nat \<Rightarrow> driver \<Rightarrow> (nat \<times> driver) option" where
  "detach_transactions fuel th None k s = Some (k, s)"
| "detach_transactions 0 th (Some t) k s = None"
| "detach_transactions (Suc fuel) th (Some t) k s =
     (let tr = btxn s t
      in if to_thread tr = Some th
         then let s1 = (case (to_proc tr, txn_buffer tr) of
                          (Some p, Some b) \<Rightarrow> clear_buffer_transaction p b s
                        | _ \<Rightarrow> s);
                  s2 = upd_txn t (\<lambda>x. x\<lparr>to_proc := None, to_thread := None, txn_buffer := None\<rparr>) s1
              in detach_transactions fuel th (to_parent tr) (Suc k) s2
         else if txn_from tr = Some th
         then detach_transactions fuel th (from_parent tr) (Suc k) (upd_txn t (txn_from_update (\<lambda>_. None)) s)
         else None)"

definition binder_thread_release :: "nat \<Rightarrow> kernel_env \<Rightarrow> nat \<Rightarrow> nat \<Rightarrow> driver \<Rightarrow> (nat \<times> driver) option" where
  "binder_thread_release fuel env p th s0 =
     do {
       s1 \<leftarrow> Some (upd_proc p (\<lambda>pr. pr\<lparr>proc_tmp_ref := proc_tmp_ref pr + 1,
                                     proc_threads := rb_erase env th (proc_threads pr)\<rparr>)
                   (upd_thread th (\<lambda>x. x\<lparr>thread_tmp_ref := thread_tmp_ref x + 1, thread_is_dead := True\<rparr>) s0));
       t \<leftarrow> Some (transaction_stack (bthread s0 th));
       send_reply \<leftarrow> Some (case t of Some x \<Rightarrow> if to_thread (btxn s0 x) = Some th then Some x else None | None \<Rightarrow> None);
       (k, s2) \<leftarrow> detach_transactions fuel th t 0 s1;
       s3 \<leftarrow> (case send_reply of None \<Rightarrow> Some s2 | Some x \<Rightarrow> binder_send_failed_reply fuel env x BR_DEAD_REPLY s2);
       s4 \<leftarrow> binder_release_work fuel env (Thread_todo th) s3;
       s5 \<leftarrow> binder_thread_dec_tmpref env th s4;
       Some (k, s5)
     }"

text \<open>Death notifications for every reference of a node that asked for one.\<close>

fun notify_deaths :: "nat list \<Rightarrow> driver \<Rightarrow> driver option" where
  "notify_deaths [] s = Some s"
| "notify_deaths (r # rs) s =
     (case death (bref s r) of
        None \<Rightarrow> notify_deaths rs s
      | Some d \<Rightarrow>
          do {
            s \<leftarrow> bug_on (work_on s (Death_work d) \<noteq> None) s;
            s \<leftarrow> binder_enqueue_work_ilocked (Death_work d) (Proc_todo (ref_proc (bref s r)))
                   (s\<lparr>work_type := (work_type s)(Death_work d := BINDER_WORK_DEAD_BINDER)\<rparr>);
            notify_deaths rs (binder_wakeup_proc_ilocked (ref_proc (bref s r)) s)
          })"

definition binder_node_release :: "nat \<Rightarrow> kernel_env \<Rightarrow> nat \<Rightarrow> nat \<Rightarrow> driver \<Rightarrow> (nat \<times> driver) option" where
  "binder_node_release fuel env n refs s0 =
     do {
       s1 \<leftarrow> binder_release_work fuel env (Async_todo n) s0;
       s2 \<leftarrow> Some (binder_dequeue_work_ilocked (Node_work n) s1);
       s3 \<leftarrow> bug_on (tmp_refs (bnode s2 n) = 0) s2;
       if node_refs (bnode s3 n) = [] \<and> tmp_refs (bnode s3 n) = 1
       then Some (refs, binder_free_node n s3)
       else do {
         s4 \<leftarrow> Some (upd_node n (\<lambda>x. x\<lparr>node_proc := None, local_strong_refs := 0, local_weak_refs := 0\<rparr>) s3);
         s5 \<leftarrow> Some (s4\<lparr>binder_dead_nodes := n # binder_dead_nodes s4\<rparr>);
         s6 \<leftarrow> notify_deaths (node_refs (bnode s5 n)) s5;
         s7 \<leftarrow> binder_put_node env n s6;
         Some (refs + length (node_refs (bnode s5 n)), s7)
       }
     }"

end
