(* ===== verification/Binder_Objects.thy ===== *)
theory Binder_Objects
  imports Binder_Txn
begin

text \<open>
  The objects inside a transaction buffer (\<^verbatim>\<open>binder.c\<close>, layouts of \<^verbatim>\<open>binder.h\<close>): how they lie in the bytes
  of the buffer, which of them the driver accepts, how embedded pointers and file descriptors are
  fixed up, and how the references they hold are dropped again. Integers are little-endian. The
  outer \<open>None\<close> of a result is a kernel fault (a missing page, a NULL pointer, a \<^verbatim>\<open>BUG_ON\<close>).
\<close>

section \<open>Bytes\<close>

fun le_nat :: "u8 list \<Rightarrow> nat" where
  "le_nat [] = 0"
| "le_nat (b # bs) = unat b + 256 * le_nat bs"

primrec le_bytes :: "nat \<Rightarrow> nat \<Rightarrow> u8 list" where
  "le_bytes 0 n = []"
| "le_bytes (Suc k) n = word_of_nat n # le_bytes k (n div 256)"

definition get_u32 :: "nat \<Rightarrow> u8 list \<Rightarrow> u32" where
  "get_u32 k bs = word_of_nat (le_nat (take 4 (drop k bs)))"

definition get_u64 :: "nat \<Rightarrow> u8 list \<Rightarrow> u64" where
  "get_u64 k bs = word_of_nat (le_nat (take 8 (drop k bs)))"

definition put_u32 :: "u32 \<Rightarrow> u8 list" where
  "put_u32 x = le_bytes 4 (unat x)"

definition put_u64 :: "u64 \<Rightarrow> u8 list" where
  "put_u64 x = le_bytes 8 (unat x)"

section \<open>Object layouts\<close>

text \<open>\<^verbatim>\<open>B_PACK_CHARS\<close> with \<^verbatim>\<open>B_TYPE_LARGE\<close>.\<close>

fun binder_type_code :: "binder_type \<Rightarrow> u32" where
  "binder_type_code BINDER_TYPE_BINDER = 0x73622a85"
| "binder_type_code BINDER_TYPE_WEAK_BINDER = 0x77622a85"
| "binder_type_code BINDER_TYPE_HANDLE = 0x73682a85"
| "binder_type_code BINDER_TYPE_WEAK_HANDLE = 0x77682a85"
| "binder_type_code BINDER_TYPE_FD = 0x66642a85"
| "binder_type_code BINDER_TYPE_FDA = 0x66646185"
| "binder_type_code BINDER_TYPE_PTR = 0x70742a85"

definition binder_type_of :: "u32 \<Rightarrow> binder_type option" where
  "binder_type_of c = List.find (\<lambda>ty. binder_type_code ty = c)
     [BINDER_TYPE_BINDER, BINDER_TYPE_WEAK_BINDER, BINDER_TYPE_HANDLE, BINDER_TYPE_WEAK_HANDLE,
      BINDER_TYPE_FD, BINDER_TYPE_FDA, BINDER_TYPE_PTR]"

fun sizeof_object :: "binder_type \<Rightarrow> u64" where
  "sizeof_object BINDER_TYPE_FDA = 32"
| "sizeof_object BINDER_TYPE_PTR = 40"
| "sizeof_object _ = 24"

record binder_buffer_object =
  bbo_flags :: u32
  bbo_buffer :: u64
  bbo_length :: u64
  bbo_parent :: u64
  bbo_parent_offset :: u64

record binder_fd_array_object =
  fda_pad :: u32
  num_fds :: u64
  fda_parent :: u64
  fda_parent_offset :: u64

text \<open>\<^verbatim>\<open>pad_binder\<close> and \<^verbatim>\<open>fd\<close> share their bytes; the upper half of the union is kept apart.\<close>

record binder_fd_object =
  pad_flags :: u32
  fdo_fd :: u32
  fdo_upper :: u32
  fdo_cookie :: u64

definition BINDER_BUFFER_FLAG_HAS_PARENT :: u32 where "BINDER_BUFFER_FLAG_HAS_PARENT = 0x01"

definition to_flat_binder_object :: "u8 list \<Rightarrow> flat_binder_object" where
  "to_flat_binder_object obj =
     \<lparr>fp_flags = get_u32 4 obj, fp_binder = get_u64 8 obj, fp_handle = get_u32 8 obj, fp_cookie = get_u64 16 obj\<rparr>"

definition to_binder_fd_object :: "u8 list \<Rightarrow> binder_fd_object" where
  "to_binder_fd_object obj =
     \<lparr>pad_flags = get_u32 4 obj, fdo_fd = get_u32 8 obj, fdo_upper = get_u32 12 obj, fdo_cookie = get_u64 16 obj\<rparr>"

definition to_binder_buffer_object :: "u8 list \<Rightarrow> binder_buffer_object" where
  "to_binder_buffer_object obj =
     \<lparr>bbo_flags = get_u32 4 obj, bbo_buffer = get_u64 8 obj, bbo_length = get_u64 16 obj,
      bbo_parent = get_u64 24 obj, bbo_parent_offset = get_u64 32 obj\<rparr>"

definition to_binder_fd_array_object :: "u8 list \<Rightarrow> binder_fd_array_object" where
  "to_binder_fd_array_object obj =
     \<lparr>fda_pad = get_u32 4 obj, num_fds = get_u64 8 obj, fda_parent = get_u64 16 obj, fda_parent_offset = get_u64 24 obj\<rparr>"

text \<open>
  The bytes of an object that the driver writes back. The union of a \<^verbatim>\<open>flat_binder_object\<close> holds the
  handle in its lower half (the driver clears \<^verbatim>\<open>binder\<close> first) or the whole pointer.
\<close>

definition is_handle_type :: "binder_type \<Rightarrow> bool" where
  "is_handle_type ty \<longleftrightarrow> ty = BINDER_TYPE_HANDLE \<or> ty = BINDER_TYPE_WEAK_HANDLE"

definition put_flat_binder_object :: "binder_type \<Rightarrow> flat_binder_object \<Rightarrow> u8 list" where
  "put_flat_binder_object ty fp =
     put_u32 (binder_type_code ty) @ put_u32 (fp_flags fp)
     @ (if is_handle_type ty then put_u32 (fp_handle fp) @ put_u32 0 else put_u64 (fp_binder fp)) @ put_u64 (fp_cookie fp)"

definition put_binder_fd_object :: "binder_fd_object \<Rightarrow> u8 list" where
  "put_binder_fd_object fp =
     put_u32 (binder_type_code BINDER_TYPE_FD) @ put_u32 (pad_flags fp) @ put_u32 (fdo_fd fp) @ put_u32 (fdo_upper fp)
     @ put_u64 (fdo_cookie fp)"

definition put_binder_buffer_object :: "binder_buffer_object \<Rightarrow> u8 list" where
  "put_binder_buffer_object bp =
     put_u32 (binder_type_code BINDER_TYPE_PTR) @ put_u32 (bbo_flags bp) @ put_u64 (bbo_buffer bp) @ put_u64 (bbo_length bp)
     @ put_u64 (bbo_parent bp) @ put_u64 (bbo_parent_offset bp)"

section \<open>Reading and validating objects\<close>

text \<open>A copy out of the buffer: \<open>Some None\<close> is an error return, \<open>None\<close> a fault.\<close>

definition buffer_get :: "kernel_env \<Rightarrow> binder_alloc \<Rightarrow> u8 list \<Rightarrow> nat \<Rightarrow> u64 \<Rightarrow> nat \<Rightarrow> u8 list option option" where
  "buffer_get env a dest b offset bytes =
     (case binder_alloc_copy_from_buffer env a dest b (unat offset) bytes of
        Inl e \<Rightarrow> if e = KBUG then None else Some None
      | Inr bs \<Rightarrow> Some (Some bs))"

text \<open>
  The size of the object at an offset, 0 if there is none, and the structure it was read into.
  \<open>obj\<close> is the content of that structure before the call.
\<close>

definition binder_get_object ::
  "kernel_env \<Rightarrow> binder_alloc \<Rightarrow> nat \<Rightarrow> u64 \<Rightarrow> u8 list \<Rightarrow> (u64 \<times> u8 list) option" where
  "binder_get_object env a b offset obj =
     (let ds = data_size (bufs a b); read_size = min 40 (ds - offset)
      in if offset > ds \<or> read_size < 4 then Some (0, obj)
         else do {
           r \<leftarrow> buffer_get env a obj b offset (unat read_size);
           case r of
             None \<Rightarrow> Some (0, obj)
           | Some obj' \<Rightarrow>
               (case binder_type_of (get_u32 0 obj') of
                  None \<Rightarrow> Some (0, obj')
                | Some ty \<Rightarrow>
                    Some (if offset \<le> ds - sizeof_object ty \<and> ds \<ge> sizeof_object ty then sizeof_object ty else 0, obj'))
         })"

text \<open>
  The local \<^verbatim>\<open>struct binder_object\<close> of a caller is not initialised. What is in it does not matter
  (lemma \<open>get_object_uninit\<close> of the properties); the model starts with zeroes.
\<close>

definition uninit :: "u8 list" where
  "uninit = replicate 40 0"

definition binder_validate_ptr ::
  "kernel_env \<Rightarrow> binder_alloc \<Rightarrow> nat \<Rightarrow> u64 \<Rightarrow> u64 \<Rightarrow> u64 \<Rightarrow> (binder_buffer_object \<times> u64) option option" where
  "binder_validate_ptr env a b index start_offset num_valid =
     (if index \<ge> num_valid then Some None
      else do {
        r \<leftarrow> buffer_get env a (replicate 8 0) b (start_offset + 8 * index) 8;
        case r of
          None \<Rightarrow> Some None
        | Some bs \<Rightarrow>
            do {
              (object_size, obj) \<leftarrow> binder_get_object env a b (get_u64 0 bs) uninit;
              Some (if object_size = 0 \<or> get_u32 0 obj \<noteq> binder_type_code BINDER_TYPE_PTR then None
                    else Some (to_binder_buffer_object obj, get_u64 0 bs))
            }
      })"

partial_function (option) validate_fixup_loop ::
  "kernel_env \<Rightarrow> binder_alloc \<Rightarrow> nat \<Rightarrow> u64 \<Rightarrow> u64 \<Rightarrow> u64 \<Rightarrow> u64 \<Rightarrow> u64 \<Rightarrow> bool option" where
  "validate_fixup_loop env a b objects_start buffer_obj fixup_offset last_obj last_min =
     (if last_obj = buffer_obj then Some (fixup_offset \<ge> last_min)
      else do {
        (object_size, obj) \<leftarrow> binder_get_object env a b last_obj uninit;
        if object_size \<noteq> 40 \<or> bbo_flags (to_binder_buffer_object obj) AND BINDER_BUFFER_FLAG_HAS_PARENT = 0 then Some False
        else do {
          r \<leftarrow> buffer_get env a (put_u64 last_obj) b (objects_start + 8 * bbo_parent (to_binder_buffer_object obj)) 8;
          case r of
            None \<Rightarrow> Some False
          | Some bs \<Rightarrow> validate_fixup_loop env a b objects_start buffer_obj fixup_offset (get_u64 0 bs)
                         (bbo_parent_offset (to_binder_buffer_object obj) + 8)
        }
      })"

definition binder_validate_fixup ::
  "kernel_env \<Rightarrow> binder_alloc \<Rightarrow> nat \<Rightarrow> u64 \<Rightarrow> u64 \<Rightarrow> u64 \<Rightarrow> u64 \<Rightarrow> u64 \<Rightarrow> bool option" where
  "binder_validate_fixup env a b objects_start buffer_obj fixup_offset last_obj last_min =
     (if last_obj = 0 then Some False
      else validate_fixup_loop env a b objects_start buffer_obj fixup_offset last_obj last_min)"

section \<open>Fixing up pointers and file descriptors\<close>

text \<open>A copy into the buffer of a process: the flag tells that it succeeded.\<close>

definition buffer_put :: "kernel_env \<Rightarrow> nat \<Rightarrow> nat \<Rightarrow> u64 \<Rightarrow> u8 list \<Rightarrow> driver \<Rightarrow> (bool \<times> driver) option" where
  "buffer_put env p b offset bs s =
     (case binder_alloc_copy_to_buffer env (proc_alloc (bproc s p)) b (unat offset) bs (length bs) of
        Inl e \<Rightarrow> if e = KBUG then None else Some (False, s)
      | Inr a \<Rightarrow> Some (True, upd_proc p (proc_alloc_update (\<lambda>_. a)) s))"

definition user_base :: "binder_alloc \<Rightarrow> nat \<Rightarrow> u64" where
  "user_base a b = word_of_nat (user_data (bufs a b))"

definition binder_fixup_parent ::
  "kernel_env \<Rightarrow> nat \<Rightarrow> nat \<Rightarrow> binder_buffer_object \<Rightarrow> u64 \<Rightarrow> u64 \<Rightarrow> u64 \<Rightarrow> u64 \<Rightarrow> driver
     \<Rightarrow> (kerr option \<times> driver) option" where
  "binder_fixup_parent env p b bp off_start num_valid last_obj last_min s =
     (let a = proc_alloc (bproc s p)
      in if bbo_flags bp AND BINDER_BUFFER_FLAG_HAS_PARENT = 0 then Some (None, s)
         else do {
           r \<leftarrow> binder_validate_ptr env a b (bbo_parent bp) off_start num_valid;
           case r of
             None \<Rightarrow> Some (Some EINVAL, s)
           | Some (parent, parent_offset) \<Rightarrow>
               do {
                 ok \<leftarrow> binder_validate_fixup env a b off_start parent_offset (bbo_parent_offset bp) last_obj last_min;
                 if \<not> ok then Some (Some EINVAL, s)
                 else if bbo_length parent < 8 \<or> bbo_parent_offset bp > bbo_length parent - 8 then Some (Some EINVAL, s)
                 else do {
                   (put, s') \<leftarrow> buffer_put env p b (bbo_parent_offset bp + bbo_buffer parent - user_base a b)
                                  (put_u64 (bbo_buffer bp)) s;
                   Some (if put then None else Some EINVAL, s')
                 }
               }
         })"

text \<open>
  What the kernel answers during one command: the calling task, its files, the security module and
  the memory allocator. \<open>get_unused_fd k\<close> is the descriptor the \<open>k\<close>-th request gets; the structures for a
  node and a reference are given per offset entry, since one transaction may need several.
\<close>

record task_env =
  group_leader :: nat
  fget :: "u32 \<Rightarrow> nat option"
  transfer_file_ok :: "nat \<Rightarrow> nat \<Rightarrow> nat \<Rightarrow> bool"
  kzalloc_fixup :: "nat \<Rightarrow> bool"
  kzalloc_twcb :: "u32 \<Rightarrow> bool"
  close_fd_get_file :: "u32 \<Rightarrow> nat option"
  get_unused_fd :: "nat \<Rightarrow> u32 option"
  tgid :: int
  task_euid :: "nat \<Rightarrow> int"
  task_tgid_nr :: "nat \<Rightarrow> int"
  transaction_ok :: "nat \<Rightarrow> nat \<Rightarrow> bool"
  transfer_binder_ok :: "nat \<Rightarrow> nat \<Rightarrow> bool"
  secctx_of :: "nat \<Rightarrow> kerr + u8 list"
  kzalloc_txn :: "nat option"
  kzalloc_complete :: "nat option"
  kzalloc_death :: "nat option"
  kzalloc_node :: "u64 \<Rightarrow> nat option"
  kzalloc_ref :: "u64 \<Rightarrow> nat option"

definition binder_deferred_fd_close :: "task_env \<Rightarrow> u32 \<Rightarrow> driver \<Rightarrow> driver" where
  "binder_deferred_fd_close T fd s =
     (if kzalloc_twcb T fd \<and> close_fd_get_file T fd \<noteq> None then s\<lparr>closed_fds := closed_fds s @ [fd]\<rparr> else s)"

definition TF_ACCEPT_FDS :: u32 where "TF_ACCEPT_FDS = 0x10"

definition binder_translate_fd ::
  "task_env \<Rightarrow> u32 \<Rightarrow> u64 \<Rightarrow> nat \<Rightarrow> nat \<Rightarrow> nat option \<Rightarrow> driver \<Rightarrow> (kerr option \<times> driver) option" where
  "binder_translate_fd T fd fd_offset t th in_reply_to s =
     do {
       allows \<leftarrow> (case in_reply_to of
                   Some r \<Rightarrow> Some (txn_flags (btxn s r) AND TF_ACCEPT_FDS \<noteq> 0)
                 | None \<Rightarrow> do { buf \<leftarrow> txn_buffer_of s t; n \<leftarrow> target_node buf; Some (accept_fds (bnode s n)) });
       target \<leftarrow> to_proc (btxn s t);
       if \<not> allows then Some (Some EPERM, s)
       else case fget T fd of
              None \<Rightarrow> Some (Some EBADF, s)
            | Some file \<Rightarrow>
                if \<not> transfer_file_ok T (proc_tsk (bproc s (thread_proc (bthread s th)))) (proc_tsk (bproc s target)) file
                then Some (Some EPERM, s\<lparr>fputs := fputs s @ [file]\<rparr>)
                else if \<not> kzalloc_fixup T (length (fd_fixups (btxn s t)))
                then Some (Some ENOMEM, s\<lparr>fputs := fputs s @ [file]\<rparr>)
                else Some (None, upd_txn t (fd_fixups_update (\<lambda>fs. fs @ [(file, unat fd_offset)])) s)
     }"

text \<open>The loop over the descriptors of an array, \<open>k\<close> of which are still to do.\<close>

fun translate_fds ::
  "kernel_env \<Rightarrow> task_env \<Rightarrow> nat \<Rightarrow> u64 \<Rightarrow> nat \<Rightarrow> nat \<Rightarrow> nat \<Rightarrow> nat \<Rightarrow> nat option \<Rightarrow> driver \<Rightarrow> (kerr option \<times> driver) option" where
  "translate_fds env T 0 offset p b t th in_reply_to s = Some (None, s)"
| "translate_fds env T (Suc k) offset p b t th in_reply_to s =
     do {
       r \<leftarrow> buffer_get env (proc_alloc (bproc s p)) (replicate 4 0) b offset 4;
       case r of
         None \<Rightarrow> Some (Some EINVAL, s)
       | Some bs \<Rightarrow>
           do {
             (e, s1) \<leftarrow> binder_translate_fd T (get_u32 0 bs) offset t th in_reply_to s;
             if e \<noteq> None then Some (e, s1) else translate_fds env T k (offset + 4) p b t th in_reply_to s1
           }
     }"

text \<open>\<^verbatim>\<open>SIZE_MAX / sizeof(u32)\<close>, and the check that an array of descriptors lies inside its parent.\<close>

definition fd_array_fits :: "binder_fd_array_object \<Rightarrow> binder_buffer_object \<Rightarrow> bool" where
  "fd_array_fits fda parent \<longleftrightarrow>
     num_fds fda < 0x3fffffffffffffff \<and> 4 * num_fds fda \<le> bbo_length parent
     \<and> fda_parent_offset fda \<le> bbo_length parent - 4 * num_fds fda"

definition binder_translate_fd_array ::
  "kernel_env \<Rightarrow> task_env \<Rightarrow> binder_fd_array_object \<Rightarrow> binder_buffer_object \<Rightarrow> nat \<Rightarrow> nat \<Rightarrow> nat \<Rightarrow> nat \<Rightarrow> nat option \<Rightarrow> driver
     \<Rightarrow> (kerr option \<times> driver) option" where
  "binder_translate_fd_array env T fda parent p b t th in_reply_to s =
     (let fda_offset = bbo_buffer parent - user_base (proc_alloc (bproc s p)) b + fda_parent_offset fda
      in if \<not> fd_array_fits fda parent \<or> fda_offset AND 3 \<noteq> 0 then Some (Some EINVAL, s)
         else translate_fds env T (unat (num_fds fda)) fda_offset p b t th in_reply_to s)"

text \<open>
  In the context of the receiver: every file of the transaction gets a descriptor, which is written
  into the buffer. \<open>apply_fds\<close> is the first loop; it returns the error and the fixups whose file was
  taken over, and \<open>undo_fds\<close> is the second loop over all fixups.
\<close>

fun apply_fds ::
  "kernel_env \<Rightarrow> task_env \<Rightarrow> nat \<Rightarrow> nat \<Rightarrow> nat \<Rightarrow> (nat \<times> nat) list \<Rightarrow> driver \<Rightarrow> (kerr option \<times> nat \<times> driver) option" where
  "apply_fds env T p b k [] s = Some (None, k, s)"
| "apply_fds env T p b k ((file, offset) # fs) s =
     (case get_unused_fd T k of
        None \<Rightarrow> Some (Some ENOMEM, k, s)
      | Some fd \<Rightarrow>
          do {
            (put, s1) \<leftarrow> buffer_put env p b (word_of_nat offset) (put_u32 fd) s;
            if put then apply_fds env T p b (Suc k) fs s1 else Some (Some EINVAL, Suc k, s1)
          })"

fun undo_fds ::
  "kernel_env \<Rightarrow> task_env \<Rightarrow> bool \<Rightarrow> nat \<Rightarrow> nat \<Rightarrow> nat \<Rightarrow> (nat \<times> nat) list \<Rightarrow> driver \<Rightarrow> driver option" where
  "undo_fds env T failed p b installed [] s = Some s"
| "undo_fds env T failed p b 0 ((file, offset) # fs) s =
     undo_fds env T failed p b 0 fs (s\<lparr>fputs := fputs s @ [file]\<rparr>)"
| "undo_fds env T failed p b (Suc k) ((file, offset) # fs) s =
     (if \<not> failed then undo_fds env T failed p b k fs s
      else do {
        r \<leftarrow> buffer_get env (proc_alloc (bproc s p)) (replicate 4 0) b (word_of_nat offset) 4;
        undo_fds env T failed p b k fs
          (case r of None \<Rightarrow> binder_warn_on True s | Some bs \<Rightarrow> binder_deferred_fd_close T (get_u32 0 bs) s)
      })"

definition binder_apply_fd_fixups ::
  "kernel_env \<Rightarrow> task_env \<Rightarrow> nat \<Rightarrow> nat \<Rightarrow> driver \<Rightarrow> (kerr option \<times> driver) option" where
  "binder_apply_fd_fixups env T p t s =
     do {
       b \<leftarrow> txn_buffer (btxn s t);
       (ret, installed, s1) \<leftarrow> apply_fds env T p b 0 (fd_fixups (btxn s t)) s;
       s2 \<leftarrow> undo_fds env T (ret \<noteq> None) p b installed (fd_fixups (btxn s t)) s1;
       Some (ret, upd_txn t (fd_fixups_update (\<lambda>_. [])) s2)
     }"

section \<open>Releasing the objects of a buffer\<close>

fun close_fds ::
  "kernel_env \<Rightarrow> task_env \<Rightarrow> nat \<Rightarrow> u64 \<Rightarrow> nat \<Rightarrow> nat \<Rightarrow> driver \<Rightarrow> driver option" where
  "close_fds env T 0 offset p b s = Some s"
| "close_fds env T (Suc k) offset p b s =
     do {
       r \<leftarrow> buffer_get env (proc_alloc (bproc s p)) (replicate 4 0) b offset 4;
       close_fds env T k (offset + 4) p b
         (case r of None \<Rightarrow> binder_warn_on True s | Some bs \<Rightarrow> binder_deferred_fd_close T (get_u32 0 bs) s)
     }"

definition release_fd_array ::
  "kernel_env \<Rightarrow> task_env \<Rightarrow> binder_fd_array_object \<Rightarrow> u64 \<Rightarrow> u64 \<Rightarrow> nat \<Rightarrow> nat \<Rightarrow> driver \<Rightarrow> driver option" where
  "release_fd_array env T fda off_start num_valid p b s =
     (if proc_tsk (bproc s p) \<noteq> group_leader T then Some s
      else do {
        r \<leftarrow> binder_validate_ptr env (proc_alloc (bproc s p)) b (fda_parent fda) off_start num_valid;
        case r of
          None \<Rightarrow> Some s
        | Some (parent, _) \<Rightarrow>
            if fd_array_fits fda parent
            then close_fds env T (unat (num_fds fda))
                   (bbo_buffer parent - user_base (proc_alloc (bproc s p)) b + fda_parent_offset fda) p b s
            else Some s
      })"

definition release_object ::
  "kernel_env \<Rightarrow> task_env \<Rightarrow> u8 list \<Rightarrow> u64 \<Rightarrow> u64 \<Rightarrow> nat \<Rightarrow> nat \<Rightarrow> driver \<Rightarrow> driver option" where
  "release_object env T obj off_start buffer_offset p b s =
     (case binder_type_of (get_u32 0 obj) of
        None \<Rightarrow> Some s
      | Some ty \<Rightarrow>
          if ty = BINDER_TYPE_BINDER \<or> ty = BINDER_TYPE_WEAK_BINDER
          then (case binder_get_node p (fp_binder (to_flat_binder_object obj)) s of
                  (None, s1) \<Rightarrow> Some s1
                | (Some n, s1) \<Rightarrow>
                    do {
                      s2 \<leftarrow> binder_dec_node env n (ty = BINDER_TYPE_BINDER) False s1;
                      binder_put_node env n s2
                    })
          else if is_handle_type ty
          then map_option snd (binder_dec_ref_for_handle env p (fp_handle (to_flat_binder_object obj)) (ty = BINDER_TYPE_HANDLE) s)
          else if ty = BINDER_TYPE_FDA
          then release_fd_array env T (to_binder_fd_array_object obj) off_start ((buffer_offset - off_start) div 8) p b s
          else Some s)"

partial_function (option) release_objects ::
  "kernel_env \<Rightarrow> task_env \<Rightarrow> nat \<Rightarrow> nat \<Rightarrow> u64 \<Rightarrow> u64 \<Rightarrow> u64 \<Rightarrow> driver \<Rightarrow> driver option" where
  "release_objects env T p b off_start buffer_offset off_end s =
     (if buffer_offset < off_end
      then do {
        r \<leftarrow> buffer_get env (proc_alloc (bproc s p)) (replicate 8 0) b buffer_offset 8;
        s1 \<leftarrow> (case r of
                 None \<Rightarrow> Some s
               | Some bs \<Rightarrow>
                   do {
                     (object_size, obj) \<leftarrow> binder_get_object env (proc_alloc (bproc s p)) b (get_u64 0 bs) uninit;
                     if object_size = 0 then Some s else release_object env T obj off_start buffer_offset p b s
                   });
        release_objects env T p b off_start (buffer_offset + 8) off_end s1
      }
      else Some s)"

definition binder_transaction_buffer_release ::
  "kernel_env \<Rightarrow> task_env \<Rightarrow> nat \<Rightarrow> nat \<Rightarrow> u64 \<Rightarrow> bool \<Rightarrow> driver \<Rightarrow> driver option" where
  "binder_transaction_buffer_release env T p b failed_at is_failure s =
     (let buf = bufs (proc_alloc (bproc s p)) b; off_start = align_ptr (data_size buf)
      in do {
        s1 \<leftarrow> (case target_node buf of None \<Rightarrow> Some s | Some n \<Rightarrow> binder_dec_node env n True False s);
        release_objects env T p b off_start off_start (if is_failure then failed_at else off_start + offsets_size buf) s1
      })"

end
