(* ===== verification/Parcel.thy ===== *)
theory Parcel
  imports Binder_Objects
begin

text \<open>
  The container for the data of a transaction (\<^verbatim>\<open>libhwbinder/Parcel.cpp\<close>): growing and shrinking its buffer,
  the table of objects, writing and reading values, strings, binders, buffers and native handles.

  \<^verbatim>\<open>size_t\<close> is a natural number below \<open>2 ^ 64\<close>, with the wrap-around of additions written out; values are
  bytes, little-endian. The result \<open>None\<close> stands for an access outside of the allocated memory, the use
  of freed memory or \<^verbatim>\<open>LOG_ALWAYS_FATAL\<close>. The C library, the reference counts of the Android utilities and
  the proxies of the process state are parameters; what is called there is recorded in \<open>events\<close>. The two
  counters \<open>gParcelGlobal\<dots>\<close> are shared by all parcels of a process and are carried along.
\<close>

section \<open>State\<close>

datatype status =
  NO_ERROR | BAD_VALUE | NO_MEMORY | NOT_ENOUGH_DATA | FDS_NOT_ALLOWED | BAD_TYPE | UNEXPECTED_NULL | UNKNOWN_ERROR | NO_INIT

datatype memory = Nullptr | Freed | Mem "u8 list"

datatype object_ref = Local u64 | Proxy nat

datatype ref_event =
  Inc_strong object_ref
| Dec_strong object_ref
| Inc_weak object_ref
| Dec_weak object_ref
| Close_fd u32
| Owner_release nat

record BufferInfo =
  ifo_index :: nat
  ifo_buffer :: u64
  ifo_bufend :: u64

record parcel =
  mError :: status
  mData :: memory
  mDataSize :: nat
  mDataCapacity :: nat
  mDataPos :: nat
  mObjects :: "nat list option"
  mObjectsSize :: nat
  mObjectsCapacity :: nat
  mNextObjectHint :: nat
  mFdsKnown :: bool
  mHasFds :: bool
  mAllowFds :: bool
  mOwner :: "nat option"
  mBufCachePos :: nat
  mBufCache :: "BufferInfo list"
  gParcelGlobalAllocSize :: nat
  gParcelGlobalAllocCount :: nat
  events :: "ref_event list"

text \<open>
  \<open>malloc\<close> gives the contents of a fresh block, \<open>realloc_moves\<close> whether a block of that size is a new one;
  \<open>realloc_objects\<close> and \<open>calloc_objects\<close> that of an object
  table; \<open>peek\<close> reads a pointer from memory outside of the parcel, \<open>native_handle_at\<close> the two counts of a
  native handle.
\<close>

record process =
  malloc :: "nat \<Rightarrow> u8 list option"
  realloc_moves :: "nat \<Rightarrow> bool"
  realloc_objects :: "nat \<Rightarrow> nat list option"
  calloc_objects :: "nat \<Rightarrow> bool"
  getStrongProxyForHandle :: "u32 \<Rightarrow> nat option"
  getWeakProxyForHandle :: "u32 \<Rightarrow> nat option"
  peek :: "u64 \<Rightarrow> u64 option"
  native_handle_at :: "u64 \<Rightarrow> (int \<times> int) option"
  native_handle_max_fds :: int
  native_handle_max_ints :: int
  flag_inherit_rt :: u32
  sched_policy_shift :: nat

abbreviation (input) "SIZE_MAX \<equiv> 2 ^ 64 - 1 :: nat"
abbreviation (input) "INT32_MAX \<equiv> 2 ^ 31 - 1 :: nat"

definition add64 :: "nat \<Rightarrow> nat \<Rightarrow> nat" where
  "add64 a b = (a + b) mod 2 ^ 64"

definition event :: "ref_event \<Rightarrow> parcel \<Rightarrow> parcel" where
  "event e p = p\<lparr>events := events p @ [e]\<rparr>"

section \<open>Memory\<close>

definition load :: "nat \<Rightarrow> nat \<Rightarrow> parcel \<Rightarrow> u8 list option" where
  "load off n p = (case mData p of Mem m \<Rightarrow> if off + n \<le> length m then Some (take n (drop off m)) else None | _ \<Rightarrow> None)"

definition store :: "nat \<Rightarrow> u8 list \<Rightarrow> parcel \<Rightarrow> parcel option" where
  "store off bs p =
     (if bs = [] then Some p
      else case mData p of
             Mem m \<Rightarrow> if off + length bs \<le> length m
                      then Some (p\<lparr>mData := Mem (take off m @ bs @ drop (off + length bs) m)\<rparr>) else None
           | _ \<Rightarrow> None)"

definition object_offset :: "parcel \<Rightarrow> nat \<Rightarrow> nat option" where
  "object_offset p i = (case mObjects p of None \<Rightarrow> None | Some xs \<Rightarrow> if i < length xs then Some (xs ! i) else None)"

text \<open>
  \<^verbatim>\<open>realloc\<close>: the new block with the old contents as far as they fit, and what the old pointer points to
  afterwards; a size of zero frees the block.
\<close>

definition realloc_block :: "process \<Rightarrow> memory \<Rightarrow> nat \<Rightarrow> (u8 list option \<times> memory) option" where
  "realloc_block L d n =
     (case d of
        Nullptr \<Rightarrow> Some (malloc L n, Nullptr)
      | Freed \<Rightarrow> None
      | Mem m \<Rightarrow> if n = 0 then Some (None, Freed)
                 else (case malloc L n of
                         None \<Rightarrow> Some (None, d)
                       | Some junk \<Rightarrow>
                           let m' = take n m @ drop (length m) junk
                           in Some (Some m', if realloc_moves L n then Freed else Mem m')))"

definition pad_size :: "nat \<Rightarrow> nat option" where
  "pad_size s = (if s > SIZE_MAX - 3 then None else Some ((s + 3) div 4 * 4))"

section \<open>References of objects\<close>

text \<open>The first bytes of an object: its type and the fields of a \<^verbatim>\<open>flat_binder_object\<close>.\<close>

definition acquire_binder_object :: "process \<Rightarrow> u8 list \<Rightarrow> parcel \<Rightarrow> parcel" where
  "acquire_binder_object L obj p =
     (let flat = to_flat_binder_object obj
      in case binder_type_of (get_u32 0 obj) of
           Some BINDER_TYPE_BINDER \<Rightarrow> if fp_binder flat \<noteq> 0 then event (Inc_strong (Local (fp_cookie flat))) p else p
         | Some BINDER_TYPE_WEAK_BINDER \<Rightarrow> if fp_binder flat \<noteq> 0 then event (Inc_weak (Local (fp_binder flat))) p else p
         | Some BINDER_TYPE_HANDLE \<Rightarrow>
             (case getStrongProxyForHandle L (fp_handle flat) of None \<Rightarrow> p | Some b \<Rightarrow> event (Inc_strong (Proxy b)) p)
         | Some BINDER_TYPE_WEAK_HANDLE \<Rightarrow>
             (case getWeakProxyForHandle L (fp_handle flat) of None \<Rightarrow> p | Some b \<Rightarrow> event (Inc_weak (Proxy b)) p)
         | _ \<Rightarrow> p)"

definition acquire_object :: "process \<Rightarrow> u8 list \<Rightarrow> parcel \<Rightarrow> parcel" where
  "acquire_object L obj p =
     (if binder_type_of (get_u32 0 obj) \<in>
         {Some BINDER_TYPE_BINDER, Some BINDER_TYPE_WEAK_BINDER, Some BINDER_TYPE_HANDLE, Some BINDER_TYPE_WEAK_HANDLE}
      then acquire_binder_object L obj p else p)"

definition parcel_release_object :: "process \<Rightarrow> u8 list \<Rightarrow> parcel \<Rightarrow> parcel" where
  "parcel_release_object L obj p =
     (let flat = to_flat_binder_object obj
      in case binder_type_of (get_u32 0 obj) of
           Some BINDER_TYPE_BINDER \<Rightarrow> if fp_binder flat \<noteq> 0 then event (Dec_strong (Local (fp_cookie flat))) p else p
         | Some BINDER_TYPE_WEAK_BINDER \<Rightarrow> if fp_binder flat \<noteq> 0 then event (Dec_weak (Local (fp_binder flat))) p else p
         | Some BINDER_TYPE_HANDLE \<Rightarrow>
             (case getStrongProxyForHandle L (fp_handle flat) of None \<Rightarrow> p | Some b \<Rightarrow> event (Dec_strong (Proxy b)) p)
         | Some BINDER_TYPE_WEAK_HANDLE \<Rightarrow>
             (case getWeakProxyForHandle L (fp_handle flat) of None \<Rightarrow> p | Some b \<Rightarrow> event (Dec_weak (Proxy b)) p)
         | Some BINDER_TYPE_FD \<Rightarrow> if fp_cookie flat \<noteq> 0 then event (Close_fd (fp_handle flat)) p else p
         | _ \<Rightarrow> p)"

text \<open>The object at index \<open>i\<close>, read as a \<^verbatim>\<open>flat_binder_object\<close>.\<close>

definition flat_at :: "parcel \<Rightarrow> nat \<Rightarrow> u8 list option" where
  "flat_at p i = do { off \<leftarrow> object_offset p i; load off 24 p }"

primrec releaseObjects_loop :: "process \<Rightarrow> nat \<Rightarrow> parcel \<Rightarrow> parcel option" where
  "releaseObjects_loop L 0 p = Some p"
| "releaseObjects_loop L (Suc i) p = do { obj \<leftarrow> flat_at p i; releaseObjects_loop L i (parcel_release_object L obj p) }"

definition releaseObjects :: "process \<Rightarrow> parcel \<Rightarrow> parcel option" where
  "releaseObjects L p = releaseObjects_loop L (mObjectsSize p) p"

primrec acquireObjects_loop :: "process \<Rightarrow> nat \<Rightarrow> parcel \<Rightarrow> parcel option" where
  "acquireObjects_loop L 0 p = Some p"
| "acquireObjects_loop L (Suc i) p = do { obj \<leftarrow> flat_at p i; acquireObjects_loop L i (acquire_object L obj p) }"

definition acquireObjects :: "process \<Rightarrow> parcel \<Rightarrow> parcel option" where
  "acquireObjects L p = acquireObjects_loop L (mObjectsSize p) p"

section \<open>The buffer\<close>

definition clearCache :: "parcel \<Rightarrow> parcel" where
  "clearCache p = p\<lparr>mBufCachePos := 0, mBufCache := []\<rparr>"

definition initState :: "parcel \<Rightarrow> parcel" where
  "initState p = clearCache (p\<lparr>mError := NO_ERROR, mData := Nullptr, mDataSize := 0, mDataCapacity := 0, mDataPos := 0,
     mObjects := None, mObjectsSize := 0, mObjectsCapacity := 0, mNextObjectHint := 0, mHasFds := False, mFdsKnown := True,
     mAllowFds := True, mOwner := None\<rparr>)"

definition freeDataNoInit :: "process \<Rightarrow> parcel \<Rightarrow> parcel option" where
  "freeDataNoInit L p =
     (case mOwner p of
        Some w \<Rightarrow> Some (event (Owner_release w) p)
      | None \<Rightarrow>
          do {
            p1 \<leftarrow> releaseObjects L p;
            p2 \<leftarrow> (case mData p1 of
                     Nullptr \<Rightarrow> Some p1
                   | Freed \<Rightarrow> None
                   | Mem m \<Rightarrow>
                       Some (p1\<lparr>gParcelGlobalAllocSize := (if mDataCapacity p1 \<le> gParcelGlobalAllocSize p1
                                                          then gParcelGlobalAllocSize p1 - mDataCapacity p1 else 0),
                               gParcelGlobalAllocCount := gParcelGlobalAllocCount p1 - 1, mData := Freed\<rparr>));
            Some (p2\<lparr>mObjects := None\<rparr>)
          })"

definition new_Parcel :: "parcel \<Rightarrow> parcel" where "new_Parcel p = initState p"

definition delete_Parcel :: "process \<Rightarrow> parcel \<Rightarrow> parcel option" where "delete_Parcel L p = freeDataNoInit L p"

definition freeData :: "process \<Rightarrow> parcel \<Rightarrow> parcel option" where
  "freeData L p = map_option initState (freeDataNoInit L p)"

text \<open>Shrinking drops the objects behind the new end.\<close>

fun kept_objects :: "parcel \<Rightarrow> nat \<Rightarrow> nat \<Rightarrow> nat option" where
  "kept_objects p desired 0 = Some 0"
| "kept_objects p desired (Suc n) =
     do { off \<leftarrow> object_offset p n; if off < desired then Some (Suc n) else kept_objects p desired n }"

text \<open>The objects from \<open>i\<close> up to the end are released.\<close>

primrec drop_objects :: "process \<Rightarrow> nat \<Rightarrow> nat \<Rightarrow> parcel \<Rightarrow> parcel option" where
  "drop_objects L i 0 p = Some p"
| "drop_objects L i (Suc n) p =
     do {
       obj \<leftarrow> flat_at p i;
       let p1 = (if binder_type_of (get_u32 0 obj) = Some BINDER_TYPE_FD then p\<lparr>mFdsKnown := False\<rparr> else p);
       drop_objects L (Suc i) n (parcel_release_object L obj p1)
     }"

definition cut_objects :: "process \<Rightarrow> nat \<Rightarrow> parcel \<Rightarrow> parcel option" where
  "cut_objects L objectsSize p =
     (if objectsSize < mObjectsSize p
      then do {
        p1 \<leftarrow> drop_objects L objectsSize (mObjectsSize p - objectsSize) p;
        let p2 = (if objectsSize = 0 then p1\<lparr>mObjects := None\<rparr>
                  else case realloc_objects L objectsSize of
                         None \<Rightarrow> p1
                       | Some junk \<Rightarrow> p1\<lparr>mObjects := map_option (take objectsSize) (mObjects p1)\<rparr>);
        Some (clearCache (p2\<lparr>mObjectsSize := objectsSize, mNextObjectHint := 0\<rparr>))
      }
      else Some p)"

definition continue_owned :: "process \<Rightarrow> nat \<Rightarrow> nat \<Rightarrow> nat \<Rightarrow> parcel \<Rightarrow> (status \<times> parcel) option" where
  "continue_owned L w desired objectsSize p =
     (if desired = 0 then map_option (\<lambda>p1. (NO_ERROR, p1)) (freeData L p)
      else case malloc L desired of
             None \<Rightarrow> Some (NO_MEMORY, p\<lparr>mError := NO_MEMORY\<rparr>)
           | Some junk \<Rightarrow>
               if objectsSize \<noteq> 0 \<and> \<not> calloc_objects L objectsSize then Some (NO_MEMORY, p\<lparr>mError := NO_MEMORY\<rparr>)
               else do {
                 p1 \<leftarrow> (if objectsSize \<noteq> 0
                        then map_option (\<lambda>q. q\<lparr>mObjectsSize := mObjectsSize p\<rparr>) (acquireObjects L (p\<lparr>mObjectsSize := objectsSize\<rparr>))
                        else Some p);
                 kept \<leftarrow> (if mData p1 = Nullptr then Some []
                         else load 0 (min (mDataSize p1) desired) p1);
                 objects \<leftarrow> (if objectsSize = 0 then Some None
                            else case mObjects p1 of
                                   None \<Rightarrow> Some (Some (replicate objectsSize 0))
                                 | Some xs \<Rightarrow> if objectsSize \<le> length xs then Some (Some (take objectsSize xs)) else None);
                 let p2 = event (Owner_release w) p1;
                 Some (NO_ERROR, clearCache (p2\<lparr>mOwner := None,
                   gParcelGlobalAllocSize := add64 (gParcelGlobalAllocSize p2) desired,
                   gParcelGlobalAllocCount := gParcelGlobalAllocCount p2 + 1,
                   mData := Mem (kept @ drop (length kept) junk), mObjects := objects,
                   mDataSize := min (mDataSize p2) desired, mDataCapacity := desired,
                   mObjectsSize := objectsSize, mObjectsCapacity := objectsSize, mNextObjectHint := 0\<rparr>))
               })"

definition continue_own :: "process \<Rightarrow> nat \<Rightarrow> nat \<Rightarrow> parcel \<Rightarrow> (status \<times> parcel) option" where
  "continue_own L desired objectsSize p =
     do {
       p1 \<leftarrow> cut_objects L objectsSize p;
       if desired > mDataCapacity p1
       then do {
         (block, old) \<leftarrow> realloc_block L (mData p1) desired;
         case block of
           None \<Rightarrow> Some (NO_MEMORY, p1\<lparr>mError := NO_MEMORY\<rparr>)
         | Some m \<Rightarrow>
             Some (NO_ERROR, p1\<lparr>gParcelGlobalAllocSize := (gParcelGlobalAllocSize p1 + desired - mDataCapacity p1) mod 2 ^ 64,
               mData := Mem m, mDataCapacity := desired\<rparr>)
       }
       else Some (NO_ERROR, p1\<lparr>mDataSize := min (mDataSize p1) desired, mDataPos := min (mDataPos p1) desired\<rparr>)
     }"

definition continue_first :: "process \<Rightarrow> nat \<Rightarrow> parcel \<Rightarrow> (status \<times> parcel) option" where
  "continue_first L desired p =
     (case malloc L desired of
        None \<Rightarrow> Some (NO_MEMORY, p\<lparr>mError := NO_MEMORY\<rparr>)
      | Some junk \<Rightarrow>
          Some (NO_ERROR, p\<lparr>gParcelGlobalAllocSize := add64 (gParcelGlobalAllocSize p) desired,
            gParcelGlobalAllocCount := gParcelGlobalAllocCount p + 1, mData := Mem junk, mDataSize := 0, mDataPos := 0,
            mDataCapacity := desired\<rparr>))"

definition continueWrite :: "process \<Rightarrow> nat \<Rightarrow> parcel \<Rightarrow> (status \<times> parcel) option" where
  "continueWrite L desired p =
     (if desired > INT32_MAX then Some (BAD_VALUE, p)
      else do {
        objectsSize \<leftarrow> (if desired < mDataSize p
                        then if desired = 0 then Some 0 else kept_objects p desired (mObjectsSize p)
                        else Some (mObjectsSize p));
        case mOwner p of
          Some w \<Rightarrow> continue_owned L w desired objectsSize p
        | None \<Rightarrow> if mData p \<noteq> Nullptr then continue_own L desired objectsSize p else continue_first L desired p
      })"

definition growData :: "process \<Rightarrow> nat \<Rightarrow> parcel \<Rightarrow> (status \<times> parcel) option" where
  "growData L len p =
     (if len > INT32_MAX then Some (BAD_VALUE, p)
      else if len > SIZE_MAX - mDataSize p then Some (NO_MEMORY, p)
      else if mDataSize p + len > SIZE_MAX div 3 then Some (NO_MEMORY, p)
      else continueWrite L ((mDataSize p + len) * 3 div 2) p)"

definition restartWrite :: "process \<Rightarrow> nat \<Rightarrow> parcel \<Rightarrow> (status \<times> parcel) option" where
  "restartWrite L desired p =
     (if desired > INT32_MAX then Some (BAD_VALUE, p)
      else if mOwner p \<noteq> None then do { p1 \<leftarrow> freeData L p; continueWrite L desired p1 }
      else do {
        (block, old) \<leftarrow> realloc_block L (mData p) desired;
        if block = None \<and> desired > mDataCapacity p then Some (NO_MEMORY, p\<lparr>mError := NO_MEMORY\<rparr>)
        else do {
          p1 \<leftarrow> releaseObjects L (p\<lparr>mData := old\<rparr>);
          let p2 = (case block of
                      None \<Rightarrow> p1
                    | Some m \<Rightarrow>
                        p1\<lparr>gParcelGlobalAllocSize := (gParcelGlobalAllocSize p1 + desired + (2 ^ 64 - mDataCapacity p1)) mod 2 ^ 64,
                          gParcelGlobalAllocCount := gParcelGlobalAllocCount p1 + (if mData p = Nullptr then 1 else 0),
                          mData := Mem m, mDataCapacity := desired\<rparr>);
          Some (NO_ERROR, clearCache (p2\<lparr>mDataSize := 0, mDataPos := 0, mObjects := None, mObjectsSize := 0, mObjectsCapacity := 0,
            mNextObjectHint := 0, mHasFds := False, mFdsKnown := True, mAllowFds := True\<rparr>))
        }
      })"

section \<open>Position and size\<close>

definition getGlobalAllocSize :: "parcel \<Rightarrow> nat" where "getGlobalAllocSize p = gParcelGlobalAllocSize p"
definition getGlobalAllocCount :: "parcel \<Rightarrow> nat" where "getGlobalAllocCount p = gParcelGlobalAllocCount p"
definition dataPosition :: "parcel \<Rightarrow> nat" where "dataPosition p = mDataPos p"
definition dataCapacity :: "parcel \<Rightarrow> nat" where "dataCapacity p = mDataCapacity p"
definition objectsCount :: "parcel \<Rightarrow> nat" where "objectsCount p = mObjectsSize p"
definition errorCheck :: "parcel \<Rightarrow> status" where "errorCheck p = mError p"
definition setError :: "status \<Rightarrow> parcel \<Rightarrow> parcel" where "setError err p = p\<lparr>mError := err\<rparr>"

definition dataSize :: "parcel \<Rightarrow> nat" where
  "dataSize p = (if mDataSize p > mDataPos p then mDataSize p else mDataPos p)"

definition dataAvail :: "parcel \<Rightarrow> nat option" where
  "dataAvail p = (let result = dataSize p - mDataPos p in if result > INT32_MAX then None else Some result)"

definition setDataSize :: "process \<Rightarrow> nat \<Rightarrow> parcel \<Rightarrow> (status \<times> parcel) option" where
  "setDataSize L size' p =
     (if size' > INT32_MAX then Some (BAD_VALUE, p)
      else do {
        (err, p1) \<leftarrow> continueWrite L size' p;
        Some (err, if err = NO_ERROR then p1\<lparr>mDataSize := size'\<rparr> else p1)
      })"

definition setDataPosition :: "nat \<Rightarrow> parcel \<Rightarrow> parcel option" where
  "setDataPosition pos p = (if pos > INT32_MAX then None else Some (p\<lparr>mDataPos := pos, mNextObjectHint := 0\<rparr>))"

definition setDataCapacity :: "process \<Rightarrow> nat \<Rightarrow> parcel \<Rightarrow> (status \<times> parcel) option" where
  "setDataCapacity L size' p =
     (if size' > INT32_MAX then Some (BAD_VALUE, p)
      else if size' > mDataCapacity p then continueWrite L size' p
      else Some (NO_ERROR, p))"

definition setData :: "process \<Rightarrow> u8 list \<Rightarrow> parcel \<Rightarrow> (status \<times> parcel) option" where
  "setData L buffer p =
     (let len = length buffer
      in if len > INT32_MAX then Some (BAD_VALUE, p)
         else do {
           (err, p1) \<leftarrow> restartWrite L len p;
           if err = NO_ERROR
           then do { p2 \<leftarrow> store 0 buffer p1; Some (err, p2\<lparr>mDataSize := len, mFdsKnown := False\<rparr>) }
           else Some (err, p1)
         })"

section \<open>Writing\<close>

definition finishWrite :: "nat \<Rightarrow> parcel \<Rightarrow> status \<times> parcel" where
  "finishWrite len p =
     (if len > INT32_MAX then (BAD_VALUE, p)
      else let pos = add64 (mDataPos p) len
           in (NO_ERROR, p\<lparr>mDataPos := pos, mDataSize := (if pos > mDataSize p then pos else mDataSize p)\<rparr>))"

text \<open>The common part behind the label \<^verbatim>\<open>restart_write\<close> of \<^verbatim>\<open>writeUnpadded\<close> and \<^verbatim>\<open>writeAligned\<close>.\<close>

definition put_bytes :: "u8 list \<Rightarrow> parcel \<Rightarrow> (status \<times> parcel) option" where
  "put_bytes bs p = do { p1 \<leftarrow> store (mDataPos p) bs p; Some (finishWrite (length bs) p1) }"

definition writeUnpadded :: "process \<Rightarrow> u8 list \<Rightarrow> parcel \<Rightarrow> (status \<times> parcel) option" where
  "writeUnpadded L data p =
     (let len = length data; end' = add64 (mDataPos p) len
      in if len > INT32_MAX then Some (BAD_VALUE, p)
         else if end' < mDataPos p then Some (BAD_VALUE, p)
         else if end' \<le> mDataCapacity p then put_bytes data p
         else do {
           (err, p1) \<leftarrow> growData L len p;
           if err = NO_ERROR then put_bytes data p1 else Some (err, p1)
         })"

definition writeAligned :: "process \<Rightarrow> u8 list \<Rightarrow> parcel \<Rightarrow> (status \<times> parcel) option" where
  "writeAligned L val p =
     (if add64 (mDataPos p) (length val) \<le> mDataCapacity p then put_bytes val p
      else do {
        (err, p1) \<leftarrow> growData L (length val) p;
        if err = NO_ERROR then put_bytes val p1 else Some (err, p1)
      })"

text \<open>
  \<^verbatim>\<open>writeInplace\<close> gives the offset of the reserved bytes, or \<open>None\<close> for a null pointer. The last word is
  masked so that the padding is zero.
\<close>

definition reserve :: "nat \<Rightarrow> nat \<Rightarrow> parcel \<Rightarrow> (nat option \<times> parcel) option" where
  "reserve len padded p =
     do {
       let data = mDataPos p;
       p1 \<leftarrow> (if padded \<noteq> len
              then do {
                w \<leftarrow> load (data + padded - 4) 4 p;
                store (data + padded - 4) (take (4 - (padded - len)) w @ replicate (padded - len) 0) p
              }
              else Some p);
       Some (if mData p = Nullptr \<and> data = 0 then None else Some data, snd (finishWrite padded p1))
     }"

definition writeInplace :: "process \<Rightarrow> nat \<Rightarrow> parcel \<Rightarrow> (nat option \<times> parcel) option" where
  "writeInplace L len p =
     (if len > INT32_MAX then Some (None, p)
      else do {
        padded \<leftarrow> pad_size len;
        if add64 (mDataPos p) padded < mDataPos p then Some (None, p)
        else if add64 (mDataPos p) padded \<le> mDataCapacity p then reserve len padded p
        else do {
          (err, p1) \<leftarrow> growData L padded p;
          if err = NO_ERROR then reserve len padded p1 else Some (None, p1)
        }
      })"

definition write_bytes :: "process \<Rightarrow> u8 list \<Rightarrow> parcel \<Rightarrow> (status \<times> parcel) option" where
  "write_bytes L data p =
     (if length data > INT32_MAX then Some (BAD_VALUE, p)
      else do {
        (d, p1) \<leftarrow> writeInplace L (length data) p;
        case d of
          None \<Rightarrow> Some (mError p1, p1)
        | Some off \<Rightarrow> do { p2 \<leftarrow> store off data p1; Some (NO_ERROR, p2) }
      })"

definition writeInt8 :: "process \<Rightarrow> u8 \<Rightarrow> parcel \<Rightarrow> (status \<times> parcel) option" where
  "writeInt8 L val = write_bytes L [val]"

definition writeInt16 :: "process \<Rightarrow> 16 word \<Rightarrow> parcel \<Rightarrow> (status \<times> parcel) option" where
  "writeInt16 L val = write_bytes L (le_bytes 2 (unat val))"

definition writeInt32 :: "process \<Rightarrow> u32 \<Rightarrow> parcel \<Rightarrow> (status \<times> parcel) option" where
  "writeInt32 L val = writeAligned L (put_u32 val)"

definition writeInt64 :: "process \<Rightarrow> u64 \<Rightarrow> parcel \<Rightarrow> (status \<times> parcel) option" where
  "writeInt64 L val = writeAligned L (put_u64 val)"

definition writeBool :: "process \<Rightarrow> bool \<Rightarrow> parcel \<Rightarrow> (status \<times> parcel) option" where
  "writeBool L val = writeInt8 L (if val then 1 else 0)"

text \<open>
  The unsigned variants write the same bytes. A \<^verbatim>\<open>float\<close> and a \<^verbatim>\<open>double\<close> are given by their representation.
\<close>

definition writeUint8 :: "process \<Rightarrow> u8 \<Rightarrow> parcel \<Rightarrow> (status \<times> parcel) option" where
  "writeUint8 L val = write_bytes L [val]"

definition writeUint16 :: "process \<Rightarrow> 16 word \<Rightarrow> parcel \<Rightarrow> (status \<times> parcel) option" where
  "writeUint16 L val = write_bytes L (le_bytes 2 (unat val))"

definition writeUint32 :: "process \<Rightarrow> u32 \<Rightarrow> parcel \<Rightarrow> (status \<times> parcel) option" where
  "writeUint32 L val = writeAligned L (put_u32 val)"

definition writeUint64 :: "process \<Rightarrow> u64 \<Rightarrow> parcel \<Rightarrow> (status \<times> parcel) option" where
  "writeUint64 L val = writeAligned L (put_u64 val)"

definition writePointer :: "process \<Rightarrow> u64 \<Rightarrow> parcel \<Rightarrow> (status \<times> parcel) option" where
  "writePointer L val = writeAligned L (put_u64 val)"

definition writeFloat :: "process \<Rightarrow> u32 \<Rightarrow> parcel \<Rightarrow> (status \<times> parcel) option" where
  "writeFloat L bits = writeAligned L (put_u32 bits)"

definition writeDouble :: "process \<Rightarrow> u64 \<Rightarrow> parcel \<Rightarrow> (status \<times> parcel) option" where
  "writeDouble L bits = writeAligned L (put_u64 bits)"

text \<open>A C string is given by its characters without the terminating zero.\<close>

definition writeCString :: "process \<Rightarrow> u8 list \<Rightarrow> parcel \<Rightarrow> (status \<times> parcel) option" where
  "writeCString L str = write_bytes L (str @ [0])"

definition writeInterfaceToken :: "process \<Rightarrow> u8 list \<Rightarrow> parcel \<Rightarrow> (status \<times> parcel) option" where
  "writeInterfaceToken L interface = writeCString L interface"

definition char16_bytes :: "16 word list \<Rightarrow> u8 list" where
  "char16_bytes str = concat (map (\<lambda>c. le_bytes 2 (unat c)) str)"

definition writeString16 :: "process \<Rightarrow> 16 word list option \<Rightarrow> parcel \<Rightarrow> (status \<times> parcel) option" where
  "writeString16 L str p =
     (case str of
        None \<Rightarrow> writeInt32 L (- 1) p
      | Some cs \<Rightarrow>
          do {
            (err, p1) \<leftarrow> writeInt32 L (word_of_nat (length cs)) p;
            if err = NO_ERROR
            then do {
              (data, p2) \<leftarrow> writeInplace L (add64 (length cs * 2 mod 2 ^ 64) 2) p1;
              case data of
                None \<Rightarrow> Some (mError p2, p2)
              | Some off \<Rightarrow>
                  do {
                    p3 \<leftarrow> store off (char16_bytes cs) p2;
                    p4 \<leftarrow> store (off + length cs * 2) [0, 0] p3;
                    Some (NO_ERROR, p4)
                  }
            }
            else Some (err, p1)
          })"

section \<open>Writing objects\<close>

text \<open>\<^verbatim>\<open>mObjects[mObjectsSize++] = mDataPos\<close>\<close>

definition append_object :: "nat \<Rightarrow> parcel \<Rightarrow> parcel option" where
  "append_object off p =
     (case mObjects p of
        None \<Rightarrow> None
      | Some xs \<Rightarrow>
          if mObjectsSize p < length xs
          then Some (p\<lparr>mObjects := Some (xs[mObjectsSize p := off]), mObjectsSize := mObjectsSize p + 1\<rparr>) else None)"

text \<open>The entry in the table of objects, after the test for file descriptors.\<close>

definition index_object :: "process \<Rightarrow> u8 list \<Rightarrow> parcel \<Rightarrow> parcel option" where
  "index_object L val p =
     (let flat = to_flat_binder_object val
      in case binder_type_of (get_u32 0 val) of
           Some BINDER_TYPE_FD \<Rightarrow> append_object (mDataPos p) (p\<lparr>mHasFds := True, mFdsKnown := True\<rparr>)
         | Some BINDER_TYPE_FDA \<Rightarrow> append_object (mDataPos p) p
         | Some BINDER_TYPE_PTR \<Rightarrow>
             if bbo_buffer (to_binder_buffer_object val) \<noteq> 0 then append_object (mDataPos p) p else Some p
         | Some _ \<Rightarrow>
             if fp_binder flat \<noteq> 0 then map_option (acquire_binder_object L val) (append_object (mDataPos p) p) else Some p
         | None \<Rightarrow> Some p)"

definition put_object :: "process \<Rightarrow> u8 list \<Rightarrow> parcel \<Rightarrow> (status \<times> parcel) option" where
  "put_object L val p =
     do {
       p1 \<leftarrow> store (mDataPos p) val p;
       if binder_type_of (get_u32 0 val) = Some BINDER_TYPE_FD \<and> \<not> mAllowFds p1 then Some (FDS_NOT_ALLOWED, p1)
       else do { p2 \<leftarrow> index_object L val p1; Some (finishWrite (length val) p2) }
     }"

definition grow_objects :: "process \<Rightarrow> parcel \<Rightarrow> status \<times> parcel" where
  "grow_objects L p =
     (if mObjectsSize p > SIZE_MAX - 2 then (NO_MEMORY, p)
      else if mObjectsSize p + 2 > SIZE_MAX div 3 then (NO_MEMORY, p)
      else let newSize = (mObjectsSize p + 2) * 3 div 2
           in if newSize > SIZE_MAX div 8 then (NO_MEMORY, p)
              else case realloc_objects L newSize of
                     None \<Rightarrow> (NO_MEMORY, p)
                   | Some junk \<Rightarrow>
                       (NO_ERROR, p\<lparr>mObjects := Some (case mObjects p of
                                                       None \<Rightarrow> junk
                                                     | Some xs \<Rightarrow> take newSize xs @ drop (length xs) junk),
                                    mObjectsCapacity := newSize\<rparr>))"

definition writeObject :: "process \<Rightarrow> u8 list \<Rightarrow> parcel \<Rightarrow> (status \<times> parcel) option" where
  "writeObject L val p =
     (let enoughData = (add64 (mDataPos p) (length val) \<le> mDataCapacity p);
          enoughObjects = (mObjectsSize p < mObjectsCapacity p)
      in do {
        (err, p1) \<leftarrow> (if enoughData then Some (NO_ERROR, p) else growData L (length val) p);
        if err \<noteq> NO_ERROR then Some (err, p1)
        else let (err, p2) = (if enoughObjects then (NO_ERROR, p1) else grow_objects L p1)
             in if err \<noteq> NO_ERROR then Some (err, p2) else put_object L val p2
      })"

section \<open>Buffers and native handles\<close>

definition read_buffer_object :: "parcel \<Rightarrow> nat \<Rightarrow> (u32 \<times> binder_buffer_object) option" where
  "read_buffer_object p i =
     do { off \<leftarrow> object_offset p i; bs \<leftarrow> load off 40 p; Some (get_u32 0 bs, to_binder_buffer_object bs) }"

definition validateBufferChild :: "nat \<Rightarrow> nat \<Rightarrow> parcel \<Rightarrow> bool option" where
  "validateBufferChild handle offset p =
     (if handle \<ge> mObjectsSize p then Some False
      else do {
        (ty, child) \<leftarrow> read_buffer_object p handle;
        Some (\<not> (ty \<noteq> binder_type_code BINDER_TYPE_PTR \<or> offset > unat (bbo_length child)))
      })"

definition validateBufferParent :: "nat \<Rightarrow> nat \<Rightarrow> parcel \<Rightarrow> bool option" where
  "validateBufferParent handle offset p =
     (if handle \<ge> mObjectsSize p then Some False
      else do {
        (ty, parent) \<leftarrow> read_buffer_object p handle;
        Some (\<not> (ty \<noteq> binder_type_code BINDER_TYPE_PTR \<or> 8 > unat (bbo_length parent) \<or> offset > unat (bbo_length parent) - 8))
      })"

text \<open>The handle of a buffer is its index in the table of objects.\<close>

definition writeEmbeddedBuffer ::
    "process \<Rightarrow> u64 \<Rightarrow> u64 \<Rightarrow> nat \<Rightarrow> nat \<Rightarrow> parcel \<Rightarrow> (status \<times> nat \<times> parcel) option" where
  "writeEmbeddedBuffer L buffer len parent offset p =
     do {
       ok \<leftarrow> validateBufferParent parent offset p;
       if \<not> ok then Some (BAD_VALUE, 0, p)
       else do {
         (err, p1) \<leftarrow> writeObject L (put_binder_buffer_object
           \<lparr>bbo_flags = BINDER_BUFFER_FLAG_HAS_PARENT, bbo_buffer = buffer, bbo_length = len, bbo_parent = word_of_nat parent,
            bbo_parent_offset = word_of_nat offset\<rparr>) p;
         Some (err, mObjectsSize p, p1)
       }
     }"

definition writeBuffer :: "process \<Rightarrow> u64 \<Rightarrow> u64 \<Rightarrow> parcel \<Rightarrow> (status \<times> nat \<times> parcel) option" where
  "writeBuffer L buffer len p =
     do {
       (err, p1) \<leftarrow> writeObject L (put_binder_buffer_object
         \<lparr>bbo_flags = 0, bbo_buffer = buffer, bbo_length = len, bbo_parent = 0, bbo_parent_offset = 0\<rparr>) p;
       Some (err, mObjectsSize p, p1)
     }"

primrec cache_from :: "parcel \<Rightarrow> nat \<Rightarrow> nat \<Rightarrow> BufferInfo list option" where
  "cache_from p i 0 = Some []"
| "cache_from p i (Suc n) =
     do {
       (ty, obj) \<leftarrow> read_buffer_object p i;
       rest \<leftarrow> cache_from p (Suc i) n;
       Some (if ty \<noteq> binder_type_code BINDER_TYPE_PTR then rest
             else \<lparr>ifo_index = i, ifo_buffer = bbo_buffer obj, ifo_bufend = bbo_buffer obj + bbo_length obj\<rparr> # rest)
     }"

definition updateCache :: "parcel \<Rightarrow> parcel option" where
  "updateCache p =
     (if mBufCachePos p = mObjectsSize p then Some p
      else do {
        new \<leftarrow> cache_from p (mBufCachePos p) (mObjectsSize p - mBufCachePos p);
        Some (p\<lparr>mBufCache := mBufCache p @ new, mBufCachePos := mObjectsSize p\<rparr>)
      })"

fun find_in_cache :: "u64 \<Rightarrow> u64 \<Rightarrow> bool \<Rightarrow> BufferInfo list \<Rightarrow> status \<times> (nat \<times> u64) option" where
  "find_in_cache ptr len suspect [] = (if suspect then BAD_VALUE else NO_ERROR, None)"
| "find_in_cache ptr len suspect (e # es) =
     (if ifo_buffer e \<le> ptr \<and> ptr < ifo_bufend e
      then if ptr + len \<le> ifo_bufend e then (NO_ERROR, Some (ifo_index e, ptr - ifo_buffer e))
           else find_in_cache ptr len True es
      else find_in_cache ptr len suspect es)"

definition findBuffer :: "u64 \<Rightarrow> u64 \<Rightarrow> parcel \<Rightarrow> (status \<times> (nat \<times> u64) option \<times> parcel) option" where
  "findBuffer ptr len p =
     do {
       p1 \<leftarrow> updateCache p;
       let (st, r) = find_in_cache ptr len False (rev (mBufCache p1));
       Some (st, r, p1)
     }"

definition quickFindBuffer :: "u64 \<Rightarrow> parcel \<Rightarrow> (status \<times> nat \<times> parcel) option" where
  "quickFindBuffer ptr p =
     do {
       p1 \<leftarrow> updateCache p;
       Some (case List.find (\<lambda>e. ifo_buffer e = ptr) (rev (mBufCache p1)) of
               None \<Rightarrow> (NO_INIT, 0, p1)
             | Some e \<Rightarrow> (NO_ERROR, ifo_index e, p1))
     }"

text \<open>
  A native handle has a header of three \<^verbatim>\<open>int\<close>s before its data. \<open>handle\<close> is its address and its numbers of
  file descriptors and integers. The counts are \<^verbatim>\<open>int\<close>s multiplied by a \<^verbatim>\<open>size_t\<close>.
\<close>

definition native_handle_size :: "int \<Rightarrow> int \<Rightarrow> u64" where
  "native_handle_size numFds numInts = 12 + word_of_int numFds * 4 + word_of_int numInts * 4"

definition put_binder_fd_array_object :: "binder_fd_array_object \<Rightarrow> u8 list" where
  "put_binder_fd_array_object fda =
     put_u32 (binder_type_code BINDER_TYPE_FDA) @ put_u32 (fda_pad fda) @ put_u64 (num_fds fda) @ put_u64 (fda_parent fda)
     @ put_u64 (fda_parent_offset fda)"

definition writeNativeHandle ::
    "process \<Rightarrow> (u64 \<times> int \<times> int) option \<Rightarrow> (nat \<times> nat) option \<Rightarrow> parcel \<Rightarrow> (status \<times> parcel) option" where
  "writeNativeHandle L handle embedded p =
     (case handle of
        None \<Rightarrow> writeInt64 L 0 p
      | Some (addr, numFds, numInts) \<Rightarrow>
          do {
            let sz = native_handle_size numFds numInts;
            (_, p1) \<leftarrow> writeInt64 L sz p;
            (st, h, p2) \<leftarrow> (case embedded of
                             Some (parent, offset) \<Rightarrow> writeEmbeddedBuffer L addr sz parent offset p1
                           | None \<Rightarrow> writeBuffer L addr sz p1);
            if st \<noteq> NO_ERROR then Some (st, p2)
            else writeObject L (put_binder_fd_array_object
                   \<lparr>fda_pad = 0, num_fds = word_of_int numFds, fda_parent = word_of_nat h, fda_parent_offset = 12\<rparr>) p2
          })"

section \<open>Reading\<close>

definition read_bytes :: "nat \<Rightarrow> parcel \<Rightarrow> (status \<times> u8 list \<times> parcel) option" where
  "read_bytes len p =
     (if len > INT32_MAX then Some (BAD_VALUE, [], p)
      else do {
        padded \<leftarrow> pad_size len;
        if add64 (mDataPos p) padded \<ge> mDataPos p \<and> add64 (mDataPos p) padded \<le> mDataSize p \<and> len \<le> padded
        then do {
          bs \<leftarrow> (if len = 0 then Some [] else load (mDataPos p) len p);
          Some (NO_ERROR, bs, p\<lparr>mDataPos := add64 (mDataPos p) padded\<rparr>)
        }
        else Some (NOT_ENOUGH_DATA, [], p)
      })"

text \<open>\<^verbatim>\<open>readInplace\<close> gives the offset of the data; \<open>None\<close> is a null pointer.\<close>

definition readInplace :: "nat \<Rightarrow> parcel \<Rightarrow> (nat option \<times> parcel) option" where
  "readInplace len p =
     (if len > INT32_MAX then Some (None, p)
      else do {
        padded \<leftarrow> pad_size len;
        Some (if add64 (mDataPos p) padded \<ge> mDataPos p \<and> add64 (mDataPos p) padded \<le> mDataSize p \<and> len \<le> padded
              then (if mData p = Nullptr \<and> mDataPos p = 0 then None else Some (mDataPos p),
                    p\<lparr>mDataPos := add64 (mDataPos p) padded\<rparr>)
              else (None, p))
      })"

definition readAligned :: "nat \<Rightarrow> parcel \<Rightarrow> (status \<times> u8 list \<times> parcel) option" where
  "readAligned n p =
     (if add64 (mDataPos p) n \<le> mDataSize p
      then do { bs \<leftarrow> load (mDataPos p) n p; Some (NO_ERROR, bs, p\<lparr>mDataPos := add64 (mDataPos p) n\<rparr>) }
      else Some (NOT_ENOUGH_DATA, [], p))"

text \<open>
  The result of a read is the status, the value and the parcel. After an error the value is not
  written in the source, and has no meaning here.
\<close>

definition readInt8 :: "parcel \<Rightarrow> (status \<times> u8 \<times> parcel) option" where
  "readInt8 p = do { (st, bs, p1) \<leftarrow> read_bytes 1 p; Some (st, word_of_nat (le_nat bs), p1) }"

definition readInt16 :: "parcel \<Rightarrow> (status \<times> 16 word \<times> parcel) option" where
  "readInt16 p = do { (st, bs, p1) \<leftarrow> read_bytes 2 p; Some (st, word_of_nat (le_nat bs), p1) }"

definition readInt32 :: "parcel \<Rightarrow> (status \<times> u32 \<times> parcel) option" where
  "readInt32 p = do { (st, bs, p1) \<leftarrow> readAligned 4 p; Some (st, word_of_nat (le_nat bs), p1) }"

definition readInt64 :: "parcel \<Rightarrow> (status \<times> u64 \<times> parcel) option" where
  "readInt64 p = do { (st, bs, p1) \<leftarrow> readAligned 8 p; Some (st, word_of_nat (le_nat bs), p1) }"

definition readUint8 :: "parcel \<Rightarrow> (status \<times> u8 \<times> parcel) option" where
  "readUint8 p = do { (st, bs, p1) \<leftarrow> read_bytes 1 p; Some (st, word_of_nat (le_nat bs), p1) }"

definition readUint16 :: "parcel \<Rightarrow> (status \<times> 16 word \<times> parcel) option" where
  "readUint16 p = do { (st, bs, p1) \<leftarrow> read_bytes 2 p; Some (st, word_of_nat (le_nat bs), p1) }"

definition readUint32 :: "parcel \<Rightarrow> (status \<times> u32 \<times> parcel) option" where
  "readUint32 p = do { (st, bs, p1) \<leftarrow> readAligned 4 p; Some (st, word_of_nat (le_nat bs), p1) }"

definition readUint64 :: "parcel \<Rightarrow> (status \<times> u64 \<times> parcel) option" where
  "readUint64 p = do { (st, bs, p1) \<leftarrow> readAligned 8 p; Some (st, word_of_nat (le_nat bs), p1) }"

definition readPointer :: "parcel \<Rightarrow> (status \<times> u64 \<times> parcel) option" where
  "readPointer p = do { (st, bs, p1) \<leftarrow> readAligned 8 p; Some (st, word_of_nat (le_nat bs), p1) }"

definition readFloat :: "parcel \<Rightarrow> (status \<times> u32 \<times> parcel) option" where
  "readFloat p = do { (st, bs, p1) \<leftarrow> readAligned 4 p; Some (st, word_of_nat (le_nat bs), p1) }"

definition readDouble :: "parcel \<Rightarrow> (status \<times> u64 \<times> parcel) option" where
  "readDouble p = do { (st, bs, p1) \<leftarrow> readAligned 8 p; Some (st, word_of_nat (le_nat bs), p1) }"

text \<open>The variants without a status give 0 after an error.\<close>

definition readAligned_value :: "nat \<Rightarrow> parcel \<Rightarrow> (nat \<times> parcel) option" where
  "readAligned_value n p = do { (st, bs, p1) \<leftarrow> readAligned n p; Some (if st \<noteq> NO_ERROR then 0 else le_nat bs, p1) }"

definition readInt32_value :: "parcel \<Rightarrow> (u32 \<times> parcel) option" where
  "readInt32_value p = do { (n, p1) \<leftarrow> readAligned_value 4 p; Some (word_of_nat n, p1) }"

definition readInt64_value :: "parcel \<Rightarrow> (u64 \<times> parcel) option" where
  "readInt64_value p = do { (n, p1) \<leftarrow> readAligned_value 8 p; Some (word_of_nat n, p1) }"

definition readBool_value :: "parcel \<Rightarrow> (bool \<times> parcel) option" where
  "readBool_value p = do { (st, tmp, p1) \<leftarrow> readInt8 p; Some (if st \<noteq> NO_ERROR then False else tmp \<noteq> 0, p1) }"

definition readBool :: "parcel \<Rightarrow> (status \<times> bool \<times> parcel) option" where
  "readBool p = do { (st, tmp, p1) \<leftarrow> readInt8 p; Some (st, tmp \<noteq> 0, p1) }"

definition readCString :: "parcel \<Rightarrow> (u8 list option \<times> parcel) option" where
  "readCString p =
     (if mDataPos p < mDataSize p
      then do {
        str \<leftarrow> load (mDataPos p) (mDataSize p - mDataPos p) p;
        if 0 \<in> set str
        then do {
          let s = takeWhile (\<lambda>c. c \<noteq> 0) str;
          padded \<leftarrow> pad_size (length s + 1);
          Some (Some s, p\<lparr>mDataPos := add64 (mDataPos p) padded\<rparr>)
        }
        else Some (None, p)
      }
      else Some (None, p))"

definition enforceInterface :: "u8 list \<Rightarrow> parcel \<Rightarrow> (bool \<times> parcel) option" where
  "enforceInterface interface p = do { (str, p1) \<leftarrow> readCString p; Some (str = Some interface, p1) }"

fun chars16 :: "u8 list \<Rightarrow> 16 word list" where
  "chars16 (a # b # bs) = word_of_nat (le_nat [a, b]) # chars16 bs"
| "chars16 _ = []"

text \<open>The length is read as a signed number; a negative one stands for a null string.\<close>

definition readString16Inplace :: "parcel \<Rightarrow> ((nat \<times> nat) option \<times> parcel) option" where
  "readString16Inplace p =
     do {
       (st, w, p1) \<leftarrow> readInt32 p;
       let size' = (if st = NO_ERROR then sint w else 0);
       if size' \<ge> 0 \<and> size' < int INT32_MAX
       then do {
         (str, p2) \<leftarrow> readInplace ((nat size' + 1) * 2) p1;
         Some (case str of None \<Rightarrow> (None, p2) | Some off \<Rightarrow> (Some (off, nat size'), p2))
       }
       else Some (None, p1)
     }"

definition readString16 :: "parcel \<Rightarrow> (status \<times> 16 word list \<times> parcel) option" where
  "readString16 p =
     do {
       (str, p1) \<leftarrow> readString16Inplace p;
       case str of
         None \<Rightarrow> Some (UNEXPECTED_NULL, [], p1)
       | Some (off, len) \<Rightarrow>
           do { bs \<leftarrow> (if len = 0 then Some [] else load off (len * 2) p1); Some (NO_ERROR, chars16 bs, p1) }
     }"

definition readString16_value :: "parcel \<Rightarrow> (16 word list \<times> parcel) option" where
  "readString16_value p =
     do {
       (str, p1) \<leftarrow> readString16Inplace p;
       case str of
         None \<Rightarrow> Some ([], p1)
       | Some (off, len) \<Rightarrow>
           do { bs \<leftarrow> (if len = 0 then Some [] else load off (len * 2) p1); Some (chars16 bs, p1) }
     }"

definition readNullableString16 :: "parcel \<Rightarrow> (status \<times> 16 word list option \<times> parcel) option" where
  "readNullableString16 p =
     do {
       let start = sint (word_of_nat (mDataPos p) :: u32);
       (st, size', p1) \<leftarrow> readInt32 p;
       if st \<noteq> NO_ERROR \<or> sint size' < 0 then Some (st, None, p1)
       else do {
         p2 \<leftarrow> setDataPosition (unat (word_of_int start :: u64)) p1;
         (st, s, p3) \<leftarrow> readString16 p2;
         Some (st, if st = NO_ERROR then Some s else None, p3)
       }
     }"

section \<open>Reading objects\<close>

function forward_search :: "nat list \<Rightarrow> nat \<Rightarrow> nat \<Rightarrow> nat \<Rightarrow> nat" where
  "forward_search OBJS N DPOS opos =
     (if opos < N - 1 \<and> OBJS ! opos < DPOS then forward_search OBJS N DPOS (opos + 1) else opos)"
  by pat_completeness auto
termination by (relation "measure (\<lambda>(_, N, _, opos). N - opos)") auto

fun backward_search :: "nat list \<Rightarrow> nat \<Rightarrow> nat \<Rightarrow> nat" where
  "backward_search OBJS DPOS opos =
     (if opos > 0 \<and> OBJS ! opos > DPOS then backward_search OBJS DPOS (opos - 1) else opos)"

definition search_object :: "parcel \<Rightarrow> nat \<Rightarrow> nat option option" where
  "search_object p DPOS =
     (let N = mObjectsSize p
      in if N = 0 then Some None
         else case mObjects p of
                None \<Rightarrow> None
              | Some OBJS \<Rightarrow>
                  if length OBJS < N then None
                  else let opos = (if mNextObjectHint p < N then forward_search OBJS N DPOS (mNextObjectHint p) else N - 1)
                       in if OBJS ! opos = DPOS then Some (Some opos)
                          else let opos = backward_search OBJS DPOS opos
                               in Some (if OBJS ! opos = DPOS then Some opos else None))"

text \<open>The bytes of the object, \<open>None\<close> for a null pointer, and its index in the table.\<close>

definition readObject :: "nat \<Rightarrow> parcel \<Rightarrow> (u8 list option \<times> nat \<times> parcel) option" where
  "readObject n p =
     (if add64 (mDataPos p) n \<le> mDataSize p
      then do {
        obj \<leftarrow> load (mDataPos p) n p;
        let p1 = p\<lparr>mDataPos := add64 (mDataPos p) n\<rparr>;
        let flat = to_flat_binder_object obj;
        let null = (case binder_type_of (get_u32 0 obj) of
                      Some BINDER_TYPE_FD \<Rightarrow> False
                    | Some BINDER_TYPE_FDA \<Rightarrow> False
                    | Some BINDER_TYPE_PTR \<Rightarrow> bbo_buffer (to_binder_buffer_object obj) = 0
                    | Some _ \<Rightarrow> fp_cookie flat = 0 \<and> fp_binder flat = 0
                    | None \<Rightarrow> False);
        if null then Some (Some obj, 0, p1)
        else do {
          found \<leftarrow> search_object p (mDataPos p);
          Some (case found of
                  Some opos \<Rightarrow> (Some obj, opos, p1\<lparr>mNextObjectHint := opos + 1\<rparr>)
                | None \<Rightarrow> (None, 0, p1))
        }
      }
      else Some (None, 0, p))"

section \<open>Binders\<close>

text \<open>
  What a strong pointer refers to: nothing, an object of this process (its address, the address of its
  reference counts, scheduling policy and priority, and whether it asks for the security context) or
  the handle of a remote object, if there is one.
\<close>

datatype binder_ptr =
  No_binder
| Local_binder u64 u64 int int bool
| Remote_binder "u32 option"

definition flatten_binder :: "process \<Rightarrow> binder_ptr \<Rightarrow> parcel \<Rightarrow> (status \<times> parcel) option" where
  "flatten_binder L b p =
     writeObject L (case b of
        No_binder \<Rightarrow> put_flat_binder_object BINDER_TYPE_BINDER \<lparr>fp_flags = 0, fp_binder = 0, fp_handle = 0, fp_cookie = 0\<rparr>
      | Remote_binder h \<Rightarrow>
          put_flat_binder_object BINDER_TYPE_HANDLE
            \<lparr>fp_flags = 0x100, fp_binder = 0, fp_handle = (case h of None \<Rightarrow> 0 | Some h \<Rightarrow> h), fp_cookie = 0\<rparr>
      | Local_binder addr refs policy priority sid \<Rightarrow>
          put_flat_binder_object BINDER_TYPE_BINDER
            \<lparr>fp_flags = (word_of_int priority AND 0xff) OR 0x100 OR flag_inherit_rt L OR push_bit (sched_policy_shift L) (word_of_int policy AND 3)
                        OR (if sid then 0x1000 else 0),
             fp_binder = refs, fp_handle = 0, fp_cookie = addr\<rparr>) p"

definition writeStrongBinder :: "process \<Rightarrow> binder_ptr \<Rightarrow> parcel \<Rightarrow> (status \<times> parcel) option" where
  "writeStrongBinder L val p = flatten_binder L val p"

datatype binder_value = Null_binder | Pointer u64 | Proxy_binder nat

definition unflatten_binder :: "process \<Rightarrow> parcel \<Rightarrow> (status \<times> binder_value \<times> parcel) option" where
  "unflatten_binder L p =
     do {
       (obj, _, p1) \<leftarrow> readObject 24 p;
       Some (case obj of
               None \<Rightarrow> (BAD_TYPE, Null_binder, p1)
             | Some bs \<Rightarrow>
                 let flat = to_flat_binder_object bs
                 in case binder_type_of (get_u32 0 bs) of
                      Some BINDER_TYPE_BINDER \<Rightarrow>
                        (NO_ERROR, if fp_cookie flat = 0 then Null_binder else Pointer (fp_cookie flat), p1)
                    | Some BINDER_TYPE_HANDLE \<Rightarrow>
                        (NO_ERROR, case getStrongProxyForHandle L (fp_handle flat) of None \<Rightarrow> Null_binder | Some b \<Rightarrow> Proxy_binder b, p1)
                    | _ \<Rightarrow> (BAD_TYPE, Null_binder, p1))
     }"

definition readNullableStrongBinder :: "process \<Rightarrow> parcel \<Rightarrow> (status \<times> binder_value \<times> parcel) option" where
  "readNullableStrongBinder L p = unflatten_binder L p"

definition readStrongBinder :: "process \<Rightarrow> parcel \<Rightarrow> (status \<times> binder_value \<times> parcel) option" where
  "readStrongBinder L p =
     do {
       (st, v, p1) \<leftarrow> readNullableStrongBinder L p;
       Some (if st = NO_ERROR \<and> v = Null_binder then UNEXPECTED_NULL else st, v, p1)
     }"

definition readStrongBinder_value :: "process \<Rightarrow> parcel \<Rightarrow> (binder_value \<times> parcel) option" where
  "readStrongBinder_value L p = do { (_, v, p1) \<leftarrow> readNullableStrongBinder L p; Some (v, p1) }"

section \<open>Reading buffers\<close>

text \<open>The pointer at an offset inside the buffer of another object.\<close>

definition pointer_in_parent :: "process \<Rightarrow> nat \<Rightarrow> u64 \<Rightarrow> parcel \<Rightarrow> u64 option" where
  "pointer_in_parent L parent offset p = do { (_, b) \<leftarrow> read_buffer_object p parent; peek L (bbo_buffer b + offset) }"

definition verifyBufferObject ::
    "process \<Rightarrow> binder_buffer_object \<Rightarrow> u64 \<Rightarrow> u32 \<Rightarrow> nat \<Rightarrow> u64 \<Rightarrow> parcel \<Rightarrow> bool option" where
  "verifyBufferObject L obj size' flags parent offset p =
     (if bbo_length obj \<noteq> size' then Some False
      else if bbo_flags obj \<noteq> flags then Some False
      else if flags AND BINDER_BUFFER_FLAG_HAS_PARENT \<noteq> 0
      then if unat (bbo_parent obj) \<noteq> parent then Some False
           else if bbo_parent_offset obj \<noteq> offset then Some False
           else do { v \<leftarrow> pointer_in_parent L parent offset p; Some (v = bbo_buffer obj) }
      else Some True)"

text \<open>The status, the handle and the address of the buffer (0 is a null pointer).\<close>

definition readBuffer ::
    "process \<Rightarrow> u64 \<Rightarrow> u32 \<Rightarrow> nat \<Rightarrow> u64 \<Rightarrow> parcel \<Rightarrow> (status \<times> nat \<times> u64 \<times> parcel) option" where
  "readBuffer L size' flags parent offset p =
     do {
       (obj, handle, p1) \<leftarrow> readObject 40 p;
       case obj of
         None \<Rightarrow> Some (BAD_VALUE, handle, 0, p1)
       | Some bs \<Rightarrow>
           if get_u32 0 bs \<noteq> binder_type_code BINDER_TYPE_PTR then Some (BAD_VALUE, handle, 0, p1)
           else do {
             ok \<leftarrow> verifyBufferObject L (to_binder_buffer_object bs) size' flags parent offset p1;
             Some (if ok then (NO_ERROR, handle, bbo_buffer (to_binder_buffer_object bs), p1) else (BAD_VALUE, handle, 0, p1))
           }
     }"

definition readNullableBuffer :: "process \<Rightarrow> u64 \<Rightarrow> parcel \<Rightarrow> (status \<times> nat \<times> u64 \<times> parcel) option" where
  "readNullableBuffer L size' p = readBuffer L size' 0 0 0 p"

definition not_null :: "status \<times> nat \<times> u64 \<times> parcel \<Rightarrow> status \<times> nat \<times> u64 \<times> parcel" where
  "not_null r = (case r of (st, h, v, p) \<Rightarrow> (if st = NO_ERROR \<and> v = 0 then UNEXPECTED_NULL else st, h, v, p))"

definition readBuffer_nonnull :: "process \<Rightarrow> u64 \<Rightarrow> parcel \<Rightarrow> (status \<times> nat \<times> u64 \<times> parcel) option" where
  "readBuffer_nonnull L size' p = map_option not_null (readNullableBuffer L size' p)"

definition readNullableEmbeddedBuffer ::
    "process \<Rightarrow> u64 \<Rightarrow> nat \<Rightarrow> u64 \<Rightarrow> parcel \<Rightarrow> (status \<times> nat \<times> u64 \<times> parcel) option" where
  "readNullableEmbeddedBuffer L size' parent offset p = readBuffer L size' BINDER_BUFFER_FLAG_HAS_PARENT parent offset p"

definition readEmbeddedBuffer ::
    "process \<Rightarrow> u64 \<Rightarrow> nat \<Rightarrow> u64 \<Rightarrow> parcel \<Rightarrow> (status \<times> nat \<times> u64 \<times> parcel) option" where
  "readEmbeddedBuffer L size' parent offset p = map_option not_null (readNullableEmbeddedBuffer L size' parent offset p)"

text \<open>The checks on the counts of a native handle and on the array of file descriptors that follows.\<close>

definition check_native_handle :: "process \<Rightarrow> u64 \<Rightarrow> nat \<Rightarrow> u64 \<Rightarrow> parcel \<Rightarrow> (status \<times> u64 \<times> parcel) option" where
  "check_native_handle L size' fdaParent handle p =
     do {
       (numFds, numInts) \<leftarrow> native_handle_at L handle;
       if numFds < 0 \<or> numFds > native_handle_max_fds L then Some (BAD_VALUE, handle, p)
       else if numInts < 0 \<or> numInts > native_handle_max_ints L then Some (BAD_VALUE, handle, p)
       else if size' \<noteq> 12 + word_of_int (numFds + numInts) * 4 then Some (BAD_VALUE, handle, p)
       else do {
         (obj, _, p1) \<leftarrow> readObject 32 p;
         Some (case obj of
                 None \<Rightarrow> BAD_VALUE
               | Some bs \<Rightarrow>
                   let fda = to_binder_fd_array_object bs
                   in if get_u32 0 bs \<noteq> binder_type_code BINDER_TYPE_FDA then BAD_VALUE
                      else if sint (ucast (num_fds fda) :: u32) \<noteq> numFds then BAD_VALUE
                      else if unat (fda_parent fda) \<noteq> fdaParent then BAD_VALUE
                      else if fda_parent_offset fda \<noteq> 12 then BAD_VALUE
                      else NO_ERROR, handle, p1)
       }
     }"

definition readNullableNativeHandle ::
    "process \<Rightarrow> (nat \<times> u64) option \<Rightarrow> parcel \<Rightarrow> (status \<times> u64 \<times> parcel) option" where
  "readNullableNativeHandle L embedded p =
     do {
       (st, size', p1) \<leftarrow> readInt64 p;
       if st \<noteq> NO_ERROR then Some (BAD_VALUE, 0, p1)
       else if size' = 0
       then (case embedded of
               None \<Rightarrow> Some (NO_ERROR, 0, p1)
             | Some (parent, offset) \<Rightarrow>
                 do { v \<leftarrow> pointer_in_parent L parent offset p1; Some (if v \<noteq> 0 then BAD_VALUE else NO_ERROR, 0, p1) })
       else if size' < 12 then Some (BAD_VALUE, 0, p1)
       else do {
         (st, fdaParent, handle, p2) \<leftarrow> (case embedded of
             Some (parent, offset) \<Rightarrow> readNullableEmbeddedBuffer L size' parent offset p1
           | None \<Rightarrow> readNullableBuffer L size' p1);
         if st \<noteq> NO_ERROR then Some (st, handle, p2)
         else if handle = 0 then Some (BAD_VALUE, 0, p2)
         else check_native_handle L size' fdaParent handle p2
       }
     }"

definition readNativeHandle :: "process \<Rightarrow> (nat \<times> u64) option \<Rightarrow> parcel \<Rightarrow> (status \<times> u64 \<times> parcel) option" where
  "readNativeHandle L embedded p =
     do {
       (st, handle, p1) \<leftarrow> readNullableNativeHandle L embedded p;
       Some (if st = NO_ERROR \<and> handle = 0 then UNEXPECTED_NULL else st, handle, p1)
     }"

section \<open>Transfer to and from the driver\<close>

primrec closeFileDescriptors_loop :: "nat \<Rightarrow> parcel \<Rightarrow> parcel option" where
  "closeFileDescriptors_loop 0 p = Some p"
| "closeFileDescriptors_loop (Suc i) p =
     do {
       obj \<leftarrow> flat_at p i;
       closeFileDescriptors_loop i
         (if binder_type_of (get_u32 0 obj) = Some BINDER_TYPE_FD then event (Close_fd (fp_handle (to_flat_binder_object obj))) p else p)
     }"

definition closeFileDescriptors :: "parcel \<Rightarrow> parcel option" where
  "closeFileDescriptors p = closeFileDescriptors_loop (mObjectsSize p) p"

definition ipcDataSize :: "parcel \<Rightarrow> nat" where
  "ipcDataSize p = (if mDataSize p > mDataPos p then mDataSize p else mDataPos p)"

definition ipcObjectsCount :: "parcel \<Rightarrow> nat" where "ipcObjectsCount p = mObjectsSize p"

primrec ipcBufferSize_loop :: "nat \<Rightarrow> nat \<Rightarrow> parcel \<Rightarrow> nat option" where
  "ipcBufferSize_loop 0 acc p = Some acc"
| "ipcBufferSize_loop (Suc i) acc p =
     do {
       (ty, b) \<leftarrow> read_buffer_object p i;
       if ty = binder_type_code BINDER_TYPE_PTR
       then let aligned = unat ((bbo_length b + 7) AND NOT 7)
            in if aligned > SIZE_MAX - acc then Some 0 else ipcBufferSize_loop i (acc + aligned) p
       else ipcBufferSize_loop i acc p
     }"

definition ipcBufferSize :: "parcel \<Rightarrow> nat option" where
  "ipcBufferSize p = ipcBufferSize_loop (mObjectsSize p) 0 p"

primrec scanForFds_loop :: "nat \<Rightarrow> nat \<Rightarrow> parcel \<Rightarrow> bool option" where
  "scanForFds_loop i 0 p = Some False"
| "scanForFds_loop i (Suc n) p =
     do {
       obj \<leftarrow> flat_at p i;
       if binder_type_of (get_u32 0 obj) = Some BINDER_TYPE_FD then Some True else scanForFds_loop (Suc i) n p
     }"

definition scanForFds :: "parcel \<Rightarrow> parcel option" where
  "scanForFds p = do { hasFds \<leftarrow> scanForFds_loop 0 (mObjectsSize p) p; Some (p\<lparr>mHasFds := hasFds, mFdsKnown := True\<rparr>) }"

text \<open>The offsets of the objects must ascend by at least the size of an object.\<close>

fun offsets_ok :: "nat \<Rightarrow> nat list \<Rightarrow> bool" where
  "offsets_ok minOffset [] = True"
| "offsets_ok minOffset (off # offs) = (if off < minOffset then False else offsets_ok (add64 off 24) offs)"

definition ipcSetDataReference :: "process \<Rightarrow> u8 list \<Rightarrow> nat list \<Rightarrow> nat \<Rightarrow> parcel \<Rightarrow> parcel option" where
  "ipcSetDataReference L data objects owner p =
     do {
       p1 \<leftarrow> freeDataNoInit L p;
       let p2 = clearCache (p1\<lparr>mError := NO_ERROR, mData := Mem data, mDataSize := length data, mDataCapacity := length data,
                  mDataPos := 0, mObjects := Some objects, mObjectsSize := length objects, mObjectsCapacity := length objects,
                  mNextObjectHint := 0, mOwner := Some owner\<rparr>);
       scanForFds (if offsets_ok 0 objects then p2 else p2\<lparr>mObjectsSize := 0\<rparr>)
     }"

end
