(* ===== verification/Binder_Alloc_Inv.thy ===== *)
theory Binder_Alloc_Inv
  imports Binder_Alloc
begin

text \<open>
  The structural invariant of the allocator and its preservation by every operation: the
  buffers tile the mapped area without overlap, no two neighbouring buffers are both free,
  the free tree holds exactly the free buffers in order of size, and the tree of allocated
  buffers holds the others in order of address.
\<close>

section \<open>Gaps between consecutive start addresses\<close>

definition gap :: "nat \<Rightarrow> (nat \<Rightarrow> nat) \<Rightarrow> nat list \<Rightarrow> nat \<Rightarrow> nat" where
  "gap e ud bs b = (case list_next bs b of None \<Rightarrow> e | Some n \<Rightarrow> ud n) - ud b"

abbreviation ud_of :: "binder_alloc \<Rightarrow> nat \<Rightarrow> nat" where
  "ud_of a b \<equiv> user_data (bufs a b)"

abbreviation area_end :: "binder_alloc \<Rightarrow> nat" where
  "area_end a \<equiv> ba_buffer a + buffer_size a"

lemma buffer_size_gap:
  "binder_alloc_buffer_size a b = gap (area_end a) (ud_of a) (buffers a) b"
  by (simp add: binder_alloc_buffer_size_def gap_def binder_buffer_next_def split: option.splits)

lemma list_next_insert:
  "distinct (xs @ b # ys) \<Longrightarrow> n \<notin> set (xs @ b # ys) \<Longrightarrow> c \<noteq> b \<Longrightarrow> c \<noteq> n \<Longrightarrow>
   list_next (xs @ b # n # ys) c = list_next (xs @ b # ys) c"
proof (induction xs)
  case Nil
  then show ?case by (cases ys) auto
next
  case (Cons x xs)
  then show ?case by (cases xs) auto
qed

lemma gap_last [simp]: "b \<notin> set xs \<Longrightarrow> gap e ud (xs @ [b]) b = e - ud b"
  by (simp add: gap_def)

lemma gap_mid [simp]: "b \<notin> set xs \<Longrightarrow> gap e ud (xs @ b # n # ys) b = ud n - ud b"
  by (simp add: gap_def)

lemma gap_insert_other:
  "distinct (xs @ b # ys) \<Longrightarrow> n \<notin> set (xs @ b # ys) \<Longrightarrow> c \<noteq> b \<Longrightarrow> c \<noteq> n \<Longrightarrow>
   gap e ud (xs @ b # n # ys) c = gap e ud (xs @ b # ys) c"
  by (simp add: gap_def list_next_insert)

lemma gap_cong:
  "(\<And>b. b \<in> set bs \<Longrightarrow> ud b = ud' b) \<Longrightarrow> c \<in> set bs \<Longrightarrow> gap e ud bs c = gap e ud' bs c"
  by (auto simp: gap_def split: option.splits dest: list_next_in_set)

text \<open>The buffers tile the area from \<open>s\<close> to \<open>e\<close>.\<close>

definition tiles :: "nat \<Rightarrow> nat \<Rightarrow> nat list \<Rightarrow> (nat \<Rightarrow> nat) \<Rightarrow> bool" where
  "tiles s e bs ud \<longleftrightarrow> bs \<noteq> [] \<and> distinct bs \<and> ud (hd bs) = s \<and>
     sorted_wrt (<) (map ud bs) \<and> (\<forall>b \<in> set bs. ud b < e)"

lemma tiles_inj: "tiles s e bs ud \<Longrightarrow> b \<in> set bs \<Longrightarrow> c \<in> set bs \<Longrightarrow> ud b = ud c \<Longrightarrow> b = c"
  using strict_sorted_iff [of "map ud bs"] by (auto simp: tiles_def distinct_map inj_on_def)

lemma tiles_gap_pos: "tiles s e bs ud \<Longrightarrow> b \<in> set bs \<Longrightarrow> 0 < gap e ud bs b"
proof -
  assume t: "tiles s e bs ud" and b: "b \<in> set bs"
  obtain xs ys where bs: "bs = xs @ b # ys" "b \<notin> set xs" "b \<notin> set ys"
    using split_at_distinct [OF b] t by (auto simp: tiles_def)
  with t show ?thesis
    by (cases ys) (auto simp: tiles_def sorted_wrt_append)
qed

lemma tiles_end: "tiles s e bs ud \<Longrightarrow> b \<in> set bs \<Longrightarrow> ud b + gap e ud bs b \<le> e"
proof -
  assume t: "tiles s e bs ud" and b: "b \<in> set bs"
  obtain xs ys where bs: "bs = xs @ b # ys" "b \<notin> set xs" "b \<notin> set ys"
    using split_at_distinct [OF b] t by (auto simp: tiles_def)
  with t show ?thesis
    by (cases ys) (auto simp: tiles_def sorted_wrt_append)
qed

lemma tiles_start: "tiles s e bs ud \<Longrightarrow> b \<in> set bs \<Longrightarrow> s \<le> ud b"
  by (cases bs) (auto simp: tiles_def less_imp_le)

lemma tiles_insert:
  assumes t: "tiles s e (xs @ b # ys) ud" and n: "n \<notin> set (xs @ b # ys)"
    and sz: "0 < sz" "sz < gap e ud (xs @ b # ys) b"
  shows "tiles s e (xs @ b # n # ys) (ud(n := ud b + sz))"
proof -
  have b: "b \<notin> set xs" "b \<notin> set ys" using t by (auto simp: tiles_def)
  have "ud b + sz < e"
    using t sz b by (cases ys) (auto simp: tiles_def)
  moreover have "\<forall>y \<in> set ys. ud b + sz < ud y"
    using t sz b by (cases ys) (auto simp: tiles_def sorted_wrt_append)
  moreover have "map (ud(n := ud b + sz)) xs = map ud xs" "map (ud(n := ud b + sz)) ys = map ud ys"
    using n by auto
  ultimately show ?thesis
    using t n sz(1) unfolding tiles_def
    by (auto simp: sorted_wrt_append hd_append intro: less_trans)
qed

lemma tiles_remove:
  "tiles s e (xs @ p # c # ys) ud \<Longrightarrow> tiles s e (xs @ p # ys) ud"
  by (auto simp: tiles_def sorted_wrt_append hd_append)

lemma gap_remove:
  assumes "tiles s e (xs @ p # c # ys) ud"
  shows "gap e ud (xs @ p # ys) p = gap e ud (xs @ p # c # ys) p + gap e ud (xs @ p # c # ys) c"
proof -
  have "gap e ud ((xs @ [p]) @ c # ys) c = (case ys of [] \<Rightarrow> e | y # _ \<Rightarrow> ud y) - ud c"
    using assms by (cases ys) (auto simp: tiles_def simp del: append_assoc)
  moreover have "ud p < ud c" "ud c < (case ys of [] \<Rightarrow> e | y # _ \<Rightarrow> ud y)"
    using assms by (cases ys; auto simp: tiles_def sorted_wrt_append)+
  ultimately show ?thesis
    using assms by (cases ys) (auto simp: tiles_def)
qed

section \<open>Walks over the trees\<close>

lemma free_tree_link_total:
  "\<forall>b \<in> set_tree t. bb_free (bufs a b) \<Longrightarrow> \<exists>t'. free_tree_link a s n t = Some t'"
  by (induction t) auto

lemma free_tree_link_inorder:
  "free_tree_link a s n t = Some t' \<Longrightarrow> mset (inorder t') = add_mset n (mset (inorder t))"
  by (induction t arbitrary: t') (auto split: if_splits)

lemma free_tree_link_set: "free_tree_link a s n t = Some t' \<Longrightarrow> set_tree t' = insert n (set_tree t)"
  by (induction t arbitrary: t') (auto split: if_splits)

lemma free_tree_link_sorted:
  "free_tree_link a (binder_alloc_buffer_size a n) n t = Some t' \<Longrightarrow>
   sorted (map (binder_alloc_buffer_size a) (inorder t)) \<Longrightarrow>
   sorted (map (binder_alloc_buffer_size a) (inorder t'))"
  by (induction t arbitrary: t')
    (auto simp: sorted_append free_tree_link_set not_less split: if_splits; meson less_imp_le order_trans)+

lemma allocated_tree_link_total:
  "\<forall>b \<in> set_tree t. \<not> bb_free (bufs a b) \<and> ud_of a b \<noteq> ud_of a n \<Longrightarrow>
   \<exists>t'. allocated_tree_link a n t = Some t'"
  by (induction t) auto

lemma allocated_tree_link_inorder:
  "allocated_tree_link a n t = Some t' \<Longrightarrow> mset (inorder t') = add_mset n (mset (inorder t))"
  by (induction t arbitrary: t') (auto split: if_splits)

lemma allocated_tree_link_set:
  "allocated_tree_link a n t = Some t' \<Longrightarrow> set_tree t' = insert n (set_tree t)"
  by (induction t arbitrary: t') (auto split: if_splits)

lemma allocated_tree_link_sorted:
  "allocated_tree_link a n t = Some t' \<Longrightarrow> sorted_wrt (<) (map (ud_of a) (inorder t)) \<Longrightarrow>
   sorted_wrt (<) (map (ud_of a) (inorder t'))"
  by (induction t arbitrary: t')
    (auto simp: sorted_wrt_append allocated_tree_link_set split: if_splits; meson less_trans)+

text \<open>The best-fit walk finds the first buffer in size order that is large enough.\<close>

lemma best_fit_search_total:
  "\<forall>b \<in> set_tree t. bb_free (bufs a b) \<Longrightarrow> \<exists>r. best_fit_search a s best t = Some r"
  by (induction t arbitrary: best) auto

lemma best_fit_search_walk:
  "best_fit_search a s best t = Some (r, False) \<Longrightarrow>
   sorted (map (binder_alloc_buffer_size a) (inorder t)) \<Longrightarrow>
   r = (case find (\<lambda>c. s \<le> binder_alloc_buffer_size a c) (inorder t) of None \<Rightarrow> best | Some c \<Rightarrow> Some c)"
proof (induction t arbitrary: best)
  case Leaf
  then show ?case by simp
next
  case (Node l b r')
  have app: "find P (xs @ y # ys) =
      (case find P xs of None \<Rightarrow> if P y then Some y else find P ys | Some z \<Rightarrow> Some z)"
    for P :: "nat \<Rightarrow> bool" and xs y ys
    by (induction xs) auto
  have none: "find (\<lambda>c. s \<le> binder_alloc_buffer_size a c) (inorder l) = None"
    if "binder_alloc_buffer_size a b < s"
    using Node.prems(2) that by (fastforce simp: find_None_iff sorted_append)
  show ?case
  proof (cases "s < binder_alloc_buffer_size a b")
    case True
    with Node.prems have "best_fit_search a s (Some b) l = Some (r, False)" by (auto split: if_splits)
    from Node.IH(1) [OF this] True Node.prems(2) show ?thesis
      by (auto simp: app sorted_append split: option.splits)
  next
    case False
    with Node.prems have "best_fit_search a s best r' = Some (r, False)" "binder_alloc_buffer_size a b < s"
      by (auto split: if_splits)
    with Node.IH(2) [OF this(1)] Node.prems(2) none show ?thesis
      by (auto simp: app sorted_append)
  qed
qed

lemma best_fit_search_exact:
  "best_fit_search a s best t = Some (r, True) \<Longrightarrow>
   \<exists>b. r = Some b \<and> b \<in> set (inorder t) \<and> binder_alloc_buffer_size a b = s"
  by (induction t arbitrary: best) (auto split: if_splits)

lemma find_Some_split:
  "find P xs = Some x \<Longrightarrow> \<exists>ys zs. xs = ys @ x # zs \<and> P x \<and> (\<forall>y \<in> set ys. \<not> P y)"
proof (induction xs)
  case (Cons y xs)
  show ?case
  proof (cases "P y")
    case True
    with Cons.prems show ?thesis by (intro exI [of _ "[]"] exI [of _ xs]) auto
  next
    case False
    with Cons obtain ys zs where "xs = ys @ x # zs" "P x" "\<forall>y \<in> set ys. \<not> P y" by auto
    with False show ?thesis by (intro exI [of _ "y # ys"] exI [of _ zs]) auto
  qed
qed simp

section \<open>The structural invariant\<close>

text \<open>What the allocator relies on from the red-black tree library: rebalancing keeps the
  in-order sequence, and erasing removes the node.\<close>

definition rbtree_ok :: "kernel_env \<Rightarrow> bool" where
  "rbtree_ok env \<longleftrightarrow> (\<forall>t. inorder (rb_insert_color env t) = inorder t) \<and>
     (\<forall>b t. distinct (inorder t) \<longrightarrow> inorder (rb_erase env b t) = remove1 b (inorder t))"

definition coalesced :: "binder_alloc \<Rightarrow> bool" where
  "coalesced a \<longleftrightarrow> successively (\<lambda>x y. \<not> (bb_free (bufs a x) \<and> bb_free (bufs a y))) (buffers a)"

definition free_tree_wf :: "binder_alloc \<Rightarrow> bool" where
  "free_tree_wf a \<longleftrightarrow> distinct (inorder (free_buffers a)) \<and>
     set (inorder (free_buffers a)) = set (filter (\<lambda>b. bb_free (bufs a b)) (buffers a)) \<and>
     sorted (map (binder_alloc_buffer_size a) (inorder (free_buffers a)))"

definition allocated_tree_wf :: "binder_alloc \<Rightarrow> bool" where
  "allocated_tree_wf a \<longleftrightarrow>
     set (inorder (allocated_buffers a)) = set (filter (\<lambda>b. \<not> bb_free (bufs a b)) (buffers a)) \<and>
     sorted_wrt (<) (map (ud_of a) (inorder (allocated_buffers a)))"

definition sizes_fit :: "binder_alloc \<Rightarrow> bool" where
  "sizes_fit a \<longleftrightarrow> (\<forall>b \<in> set (buffers a). \<not> bb_free (bufs a b) \<longrightarrow>
     unat (recorded_size (bufs a b)) \<le> binder_alloc_buffer_size a b)"

definition alloc_wf :: "binder_alloc \<Rightarrow> bool" where
  "alloc_wf a \<longleftrightarrow> tiles (ba_buffer a) (area_end a) (buffers a) (ud_of a) \<and> coalesced a \<and>
     free_tree_wf a \<and> allocated_tree_wf a \<and> sizes_fit a"

lemmas alloc_wf_defs =
  alloc_wf_def coalesced_def free_tree_wf_def allocated_tree_wf_def sizes_fit_def

text \<open>Only the layout fields decide the size of a buffer.\<close>

lemma buffer_size_frame [simp, frame_simps]:
  "binder_alloc_buffer_size (a\<lparr>free_buffers := t\<rparr>) = binder_alloc_buffer_size a"
  "binder_alloc_buffer_size (a\<lparr>allocated_buffers := t\<rparr>) = binder_alloc_buffer_size a"
  "binder_alloc_buffer_size (a\<lparr>free_async_space := x\<rparr>) = binder_alloc_buffer_size a"
  "binder_alloc_buffer_size (a\<lparr>pages := p\<rparr>) = binder_alloc_buffer_size a"
  "binder_alloc_buffer_size (a\<lparr>pages_high := h\<rparr>) = binder_alloc_buffer_size a"
  "binder_alloc_buffer_size (a\<lparr>warns := w\<rparr>) = binder_alloc_buffer_size a"
  "binder_alloc_buffer_size (a\<lparr>vma := v\<rparr>) = binder_alloc_buffer_size a"
  "binder_alloc_buffer_size (a\<lparr>vma_vm_mm := m\<rparr>) = binder_alloc_buffer_size a"
  by (simp_all add: fun_eq_iff binder_alloc_buffer_size_def binder_buffer_next_def split: option.splits)

lemma buffer_size_set_buf [simp, frame_simps]:
  "(\<And>x. user_data (f x) = user_data x) \<Longrightarrow>
   binder_alloc_buffer_size (set_buf b f a) = binder_alloc_buffer_size a"
  by (simp add: fun_eq_iff binder_alloc_buffer_size_def binder_buffer_next_def set_buf_def
      split: option.splits)

lemma set_buf_sel [simp, frame_simps]:
  "buffers (set_buf b f a) = buffers a" "free_buffers (set_buf b f a) = free_buffers a"
  "allocated_buffers (set_buf b f a) = allocated_buffers a" "ba_buffer (set_buf b f a) = ba_buffer a"
  "buffer_size (set_buf b f a) = buffer_size a" "pages (set_buf b f a) = pages a"
  "free_async_space (set_buf b f a) = free_async_space a" "vma (set_buf b f a) = vma a"
  "warns (set_buf b f a) = warns a"
  "bufs (set_buf b f a) = (bufs a)(b := f (bufs a b))"
  by (simp_all add: set_buf_def)

text \<open>The invariant does not look at pages, warnings, the budget or the mapping.\<close>

lemma alloc_wf_frame [simp, frame_simps]:
  "alloc_wf (a\<lparr>free_async_space := x\<rparr>) = alloc_wf a"
  "alloc_wf (a\<lparr>pages := p\<rparr>) = alloc_wf a"
  "alloc_wf (a\<lparr>pages_high := h\<rparr>) = alloc_wf a"
  "alloc_wf (a\<lparr>warns := w\<rparr>) = alloc_wf a"
  "alloc_wf (a\<lparr>vma := v\<rparr>) = alloc_wf a"
  "alloc_wf (a\<lparr>vma_vm_mm := m\<rparr>) = alloc_wf a"
  by (simp_all add: alloc_wf_defs)

lemma alloc_wf_dests [wf_dests]:
  assumes "alloc_wf a"
  shows "tiles (ba_buffer a) (area_end a) (buffers a) (ud_of a)" "coalesced a"
    "free_tree_wf a" "allocated_tree_wf a" "sizes_fit a" "distinct (buffers a)"
  using assms by (auto simp: alloc_wf_def tiles_def)

section \<open>The page operations leave the structure alone\<close>

text \<open>\<open>skeleton\<close> forgets the pages, their high-water mark and the warning count.\<close>

definition skeleton :: "binder_alloc \<Rightarrow> binder_alloc" where
  "skeleton a = a\<lparr>pages := (\<lambda>_. \<lparr>page_ptr = None, on_lru = False\<rparr>), pages_high := 0, warns := 0\<rparr>"

lemma skeleton_step [simp, frame_simps]:
  "skeleton (set_page i p a) = skeleton a" "skeleton (warn_on c a) = skeleton a"
  "skeleton (a\<lparr>pages_high := h\<rparr>) = skeleton a"
  by (simp_all add: skeleton_def set_page_def warn_on_def)

lemma skeleton_free_range [simp]: "skeleton (free_range env ps a) = skeleton a"
  by (induction ps arbitrary: a) (simp_all add: Let_def)

lemma skeleton_alloc_range [simp]: "skeleton (snd (alloc_range env v passed ps a)) = skeleton a"
  by (induction ps arbitrary: a passed) (auto simp: Let_def)

lemma snd_case_bool:
  "snd (case x of (True, a) \<Rightarrow> (None, a) | (False, a) \<Rightarrow> (y, a)) = snd x"
  by (cases x; cases "fst x") auto

lemma skeleton_update_page_range [simp]:
  "skeleton (snd (binder_update_page_range env a al s e)) = skeleton a"
  by (simp add: binder_update_page_range_def Let_def snd_case_bool)

lemma skeleton_eqD:
  assumes "skeleton a' = skeleton a"
  shows "buffers a' = buffers a" "bufs a' = bufs a" "free_buffers a' = free_buffers a"
    "allocated_buffers a' = allocated_buffers a" "ba_buffer a' = ba_buffer a"
    "buffer_size a' = buffer_size a" "free_async_space a' = free_async_space a" "vma a' = vma a"
    "binder_alloc_buffer_size a' = binder_alloc_buffer_size a" "alloc_wf a' = alloc_wf a"
proof -
  show "buffers a' = buffers a" "bufs a' = bufs a" "free_buffers a' = free_buffers a"
    "allocated_buffers a' = allocated_buffers a" "ba_buffer a' = ba_buffer a"
    "buffer_size a' = buffer_size a" "free_async_space a' = free_async_space a" "vma a' = vma a"
    using arg_cong [OF assms, of buffers] arg_cong [OF assms, of bufs]
      arg_cong [OF assms, of free_buffers] arg_cong [OF assms, of allocated_buffers]
      arg_cong [OF assms, of ba_buffer] arg_cong [OF assms, of buffer_size]
      arg_cong [OF assms, of free_async_space] arg_cong [OF assms, of vma]
    by (simp_all add: skeleton_def)
  show "binder_alloc_buffer_size a' = binder_alloc_buffer_size a" "alloc_wf a' = alloc_wf a"
    using arg_cong [OF assms, of binder_alloc_buffer_size] arg_cong [OF assms, of alloc_wf]
    by (simp_all add: skeleton_def)
qed

lemmas update_page_range_frame [simp] = skeleton_eqD [OF skeleton_update_page_range]

section \<open>Insertion into and removal from the trees\<close>

lemma rbtree_okD:
  assumes "rbtree_ok env"
  shows "inorder (rb_insert_color env t) = inorder t"
    "distinct (inorder t) \<Longrightarrow> inorder (rb_erase env b t) = remove1 b (inorder t)"
    "set_tree (rb_insert_color env t) = set_tree t"
    "distinct (inorder t) \<Longrightarrow> set_tree (rb_erase env b t) = set_tree t - {b}"
proof -
  show io: "inorder (rb_insert_color env t) = inorder t"
    "distinct (inorder t) \<Longrightarrow> inorder (rb_erase env b t) = remove1 b (inorder t)"
    using assms by (auto simp: rbtree_ok_def)
  show "set_tree (rb_insert_color env t) = set_tree t"
    using arg_cong [OF io(1), of set] by simp
  show "set_tree (rb_erase env b t) = set_tree t - {b}" if "distinct (inorder t)"
    using arg_cong [OF io(2) [OF that], of set] that by simp
qed

lemma insert_free_buffer_spec:
  assumes "rbtree_ok env" "distinct (inorder (free_buffers a))" "n \<notin> set_tree (free_buffers a)"
    "\<forall>b \<in> set_tree (free_buffers a). bb_free (bufs a b)" "bb_free (bufs a n)"
    "sorted (map (binder_alloc_buffer_size a) (inorder (free_buffers a)))"
  obtains t where "binder_insert_free_buffer env a n = Some (a\<lparr>free_buffers := t\<rparr>)"
    "distinct (inorder t)" "set_tree t = insert n (set_tree (free_buffers a))"
    "sorted (map (binder_alloc_buffer_size a) (inorder t))"
proof -
  obtain u where u: "free_tree_link a (binder_alloc_buffer_size a n) n (free_buffers a) = Some u"
    using free_tree_link_total [OF assms(4)] by blast
  have "distinct (inorder u)"
    using free_tree_link_inorder [OF u] assms(2,3)
    by (metis distinct.simps(2) mset.simps(2) mset_eq_imp_distinct_iff set_inorder)
  with u assms free_tree_link_sorted [OF u] free_tree_link_set [OF u] show ?thesis
    by (intro that [of "rb_insert_color env u"]) (simp_all add: binder_insert_free_buffer_def rbtree_okD)
qed

lemma insert_allocated_buffer_spec:
  assumes "rbtree_ok env" "\<not> bb_free (bufs a n)"
    "\<forall>b \<in> set_tree (allocated_buffers a). \<not> bb_free (bufs a b) \<and> ud_of a b \<noteq> ud_of a n"
    "sorted_wrt (<) (map (ud_of a) (inorder (allocated_buffers a)))"
  obtains t where
    "binder_insert_allocated_buffer_locked env a n = Some (a\<lparr>allocated_buffers := t\<rparr>)"
    "set_tree t = insert n (set_tree (allocated_buffers a))"
    "sorted_wrt (<) (map (ud_of a) (inorder t))"
proof -
  obtain u where u: "allocated_tree_link a n (allocated_buffers a) = Some u"
    using allocated_tree_link_total [OF assms(3)] by blast
  with assms allocated_tree_link_sorted [OF u] allocated_tree_link_set [OF u] show ?thesis
    by (intro that [of "rb_insert_color env u"])
      (simp_all add: binder_insert_allocated_buffer_locked_def rbtree_okD)
qed

lemma sorted_wrt_map_remove1: "sorted_wrt R (map f xs) \<Longrightarrow> sorted_wrt R (map f (remove1 x xs))"
  by (induction xs) (auto dest!: set_remove1_subset [THEN subsetD])

lemma allocated_distinct: "allocated_tree_wf a \<Longrightarrow> distinct (inorder (allocated_buffers a))"
  using strict_sorted_iff [of "map (ud_of a) (inorder (allocated_buffers a))"]
  by (simp add: allocated_tree_wf_def distinct_map)

section \<open>Allocating keeps the invariant\<close>

text \<open>
  The state between splitting the chosen buffer and taking it: everything holds except that
  the chosen buffer, still free, may stand next to the free remainder.
\<close>

definition before_take :: "binder_alloc \<Rightarrow> nat \<Rightarrow> bool" where
  "before_take a b \<longleftrightarrow> tiles (ba_buffer a) (area_end a) (buffers a) (ud_of a) \<and>
     free_tree_wf a \<and> allocated_tree_wf a \<and> sizes_fit a \<and> b \<in> set (buffers a) \<and> bb_free (bufs a b) \<and>
     successively (\<lambda>x y. \<not> (bb_free (bufs a x) \<and> x \<noteq> b \<and> bb_free (bufs a y) \<and> y \<noteq> b)) (buffers a)"

lemma before_take_exact:
  "alloc_wf a \<Longrightarrow> b \<in> set (buffers a) \<Longrightarrow> bb_free (bufs a b) \<Longrightarrow> before_take a b"
  by (auto simp: before_take_def alloc_wf_def coalesced_def elim: successively_mono)

definition taken :: "kernel_env \<Rightarrow> binder_alloc \<Rightarrow> nat \<Rightarrow> nat tree \<Rightarrow> binder_alloc" where
  "taken env a b u = (set_buf b (\<lambda>b. b\<lparr>bb_free := False, allow_user_free := False\<rparr>)
     (a\<lparr>free_buffers := rb_erase env b (free_buffers a)\<rparr>))\<lparr>allocated_buffers := u\<rparr>"

lemma take_free_buffer_spec:
  assumes rb: "rbtree_ok env" and pre: "before_take a b"
  obtains u where "take_free_buffer env a b = Some (taken env a b u)"
    "set_tree u = insert b (set_tree (allocated_buffers a))" "sorted_wrt (<) (map (ud_of a) (inorder u))"
proof -
  define a1 where "a1 = set_buf b (\<lambda>b. b\<lparr>bb_free := False, allow_user_free := False\<rparr>)
               (a\<lparr>free_buffers := rb_erase env b (free_buffers a)\<rparr>)"
  have sel1: "allocated_buffers a1 = allocated_buffers a" "ud_of a1 = ud_of a"
    by (auto simp: a1_def fun_eq_iff)
  have b: "b \<in> set (buffers a)" "bb_free (bufs a b)"
    and t: "tiles (ba_buffer a) (area_end a) (buffers a) (ud_of a)" and at: "allocated_tree_wf a"
    using pre by (auto simp: before_take_def)
  have "c \<noteq> b \<and> \<not> bb_free (bufs a c) \<and> ud_of a c \<noteq> ud_of a b" if "c \<in> set_tree (allocated_buffers a)" for c
  proof -
    have c: "c \<in> set (buffers a)" "\<not> bb_free (bufs a c)"
      using that at set_inorder [of "allocated_buffers a"] by (auto simp: allocated_tree_wf_def)
    with b have "c \<noteq> b" by auto
    with c tiles_inj [OF t c(1) b(1)] show ?thesis by blast
  qed
  then have p2: "\<forall>c \<in> set_tree (allocated_buffers a1). \<not> bb_free (bufs a1 c) \<and> ud_of a1 c \<noteq> ud_of a1 b"
    unfolding sel1 by (auto simp: a1_def)
  have p1: "\<not> bb_free (bufs a1 b)" by (simp add: a1_def)
  have p3: "sorted_wrt (<) (map (ud_of a1) (inorder (allocated_buffers a1)))"
    unfolding sel1 using at by (simp add: allocated_tree_wf_def)
  obtain u where u: "binder_insert_allocated_buffer_locked env a1 b = Some (a1\<lparr>allocated_buffers := u\<rparr>)"
    "set_tree u = insert b (set_tree (allocated_buffers a))" "sorted_wrt (<) (map (ud_of a) (inorder u))"
    by (rule insert_allocated_buffer_spec [OF rb p1 p2 p3]) (simp only: sel1)
  then show ?thesis by (intro that [of u]) (simp_all add: take_free_buffer_def taken_def a1_def)
qed

lemma finish_new_buf_sel:
  "buffers (finish_new_buf env (taken env a b u) b sz d off ex as pid) = buffers a"
  "ba_buffer (finish_new_buf env (taken env a b u) b sz d off ex as pid) = ba_buffer a"
  "buffer_size (finish_new_buf env (taken env a b u) b sz d off ex as pid) = buffer_size a"
  "free_buffers (finish_new_buf env (taken env a b u) b sz d off ex as pid) = rb_erase env b (free_buffers a)"
  "allocated_buffers (finish_new_buf env (taken env a b u) b sz d off ex as pid) = u"
  "ud_of (finish_new_buf env (taken env a b u) b sz d off ex as pid) = ud_of a"
  "binder_alloc_buffer_size (finish_new_buf env (taken env a b u) b sz d off ex as pid)
     = binder_alloc_buffer_size a"
  "bb_free (bufs (finish_new_buf env (taken env a b u) b sz d off ex as pid) c)
     = (bb_free (bufs a c) \<and> c \<noteq> b)"
  "bufs (finish_new_buf env (taken env a b u) b sz d off ex as pid) =
     (bufs a)(b := (bufs a b)\<lparr>bb_free := False, allow_user_free := False, data_size := d,
        offsets_size := off, async_transaction := as, extra_buffers_size := ex, bb_pid := pid\<rparr>)"
  "free_async_space (finish_new_buf env (taken env a b u) b sz d off ex as pid) =
     free_async_space a - (if as then sz + sizeof_binder_buffer env else 0)"
  "pages (finish_new_buf env (taken env a b u) b sz d off ex as pid) = pages a"
  "warns (finish_new_buf env (taken env a b u) b sz d off ex as pid) = warns a"
  "vma (finish_new_buf env (taken env a b u) b sz d off ex as pid) = vma a"
  by (auto simp: finish_new_buf_def taken_def Let_def fun_eq_iff)

lemma finish_new_buf_wf:
  assumes rb: "rbtree_ok env" and pre: "before_take a b"
    and u: "set_tree u = insert b (set_tree (allocated_buffers a))" "sorted_wrt (<) (map (ud_of a) (inorder u))"
    and fit: "unat (align_ptr d + align_ptr off + align_ptr ex) \<le> binder_alloc_buffer_size a b"
  shows "alloc_wf (finish_new_buf env (taken env a b u) b sz d off ex as pid)"
  unfolding alloc_wf_defs finish_new_buf_sel(1-8)
proof (intro conjI)
  have ft: "free_tree_wf a" and at: "allocated_tree_wf a" and b: "b \<in> set (buffers a)"
    using pre by (auto simp: before_take_def)
  show "tiles (ba_buffer a) (area_end a) (buffers a) (ud_of a)"
    using pre by (simp add: before_take_def)
  show "successively (\<lambda>x y. \<not> ((bb_free (bufs a x) \<and> x \<noteq> b) \<and> bb_free (bufs a y) \<and> y \<noteq> b)) (buffers a)"
    using pre by (simp add: before_take_def)
  show "distinct (inorder (rb_erase env b (free_buffers a)))"
    "set (inorder (rb_erase env b (free_buffers a))) = set (filter (\<lambda>c. bb_free (bufs a c) \<and> c \<noteq> b) (buffers a))"
    "sorted (map (binder_alloc_buffer_size a) (inorder (rb_erase env b (free_buffers a))))"
    using ft rb by (auto simp: free_tree_wf_def rbtree_okD sorted_map_remove1)
  show "set (inorder u) = set (filter (\<lambda>c. \<not> (bb_free (bufs a c) \<and> c \<noteq> b)) (buffers a))"
    using at b u by (auto simp: allocated_tree_wf_def)
  show "sorted_wrt (<) (map (ud_of a) (inorder u))" by (rule u)
  show "\<forall>c \<in> set (buffers a). \<not> (bb_free (bufs a c) \<and> c \<noteq> b) \<longrightarrow>
     unat (recorded_size (bufs (finish_new_buf env (taken env a b u) b sz d off ex as pid) c))
       \<le> binder_alloc_buffer_size a c"
    unfolding finish_new_buf_sel(9) using pre fit
    by (auto simp: before_take_def sizes_fit_def recorded_size_def)
qed

text \<open>The sizes after the remainder of buffer \<open>b\<close> was split off as \<open>n\<close>.\<close>

lemma gap_after_split:
  assumes t: "tiles s e (xs @ b # ys) ud" and n: "n \<notin> set (xs @ b # ys)"
    and sz: "sz < gap e ud (xs @ b # ys) b"
  shows "gap e (ud(n := ud b + sz)) (xs @ b # n # ys) b = sz"
    "gap e (ud(n := ud b + sz)) (xs @ b # n # ys) n = gap e ud (xs @ b # ys) b - sz"
    "c \<in> set (xs @ b # ys) \<Longrightarrow> c \<noteq> b \<Longrightarrow>
       gap e (ud(n := ud b + sz)) (xs @ b # n # ys) c = gap e ud (xs @ b # ys) c"
proof -
  let ?ud = "ud(n := ud b + sz)"
  have b: "b \<notin> set xs" "b \<notin> set ys" and d: "distinct (xs @ b # ys)" using t by (auto simp: tiles_def)
  show "gap e ?ud (xs @ b # n # ys) b = sz" using b n by auto
  have "gap e ?ud ((xs @ [b]) @ n # ys) n = (case ys of [] \<Rightarrow> e | y # _ \<Rightarrow> ud y) - (ud b + sz)"
    using n by (cases ys) (auto simp del: append_assoc)
  moreover have "gap e ud (xs @ b # ys) b = (case ys of [] \<Rightarrow> e | y # _ \<Rightarrow> ud y) - ud b"
    using b by (cases ys) auto
  ultimately show "gap e ?ud (xs @ b # n # ys) n = gap e ud (xs @ b # ys) b - sz" by simp
  assume c: "c \<in> set (xs @ b # ys)" "c \<noteq> b"
  then have "gap e ?ud (xs @ b # n # ys) c = gap e ?ud (xs @ b # ys) c"
    using gap_insert_other [OF d n c(2)] n by auto
  also have "\<dots> = gap e ud (xs @ b # ys) c"
    using c n by (intro gap_cong) auto
  finally show "gap e ?ud (xs @ b # n # ys) c = gap e ud (xs @ b # ys) c" .
qed

definition split_off :: "binder_alloc \<Rightarrow> nat \<Rightarrow> nat \<Rightarrow> nat \<Rightarrow> binder_alloc" where
  "split_off a b sz n = a\<lparr>bufs := (bufs a)(n := zeroed_buffer\<lparr>user_data := ud_of a b + sz, bb_free := True\<rparr>),
                          buffers := list_add_after n b (buffers a)\<rparr>"

lemma split_off_sel:
  "ud_of (split_off a b sz n) = (ud_of a)(n := ud_of a b + sz)"
  "ba_buffer (split_off a b sz n) = ba_buffer a" "buffer_size (split_off a b sz n) = buffer_size a"
  "free_buffers (split_off a b sz n) = free_buffers a"
  "allocated_buffers (split_off a b sz n) = allocated_buffers a"
  "buffers (split_off a b sz n) = list_add_after n b (buffers a)"
  "free_async_space (split_off a b sz n) = free_async_space a" "pages (split_off a b sz n) = pages a"
  "bb_free (bufs (split_off a b sz n) n)" "c \<noteq> n \<Longrightarrow> bufs (split_off a b sz n) c = bufs a c"
  by (auto simp: split_off_def fun_eq_iff)

lemma split_off_sizes:
  assumes "alloc_wf a" "n \<notin> set (buffers a)" "b \<in> set (buffers a)" "sz < binder_alloc_buffer_size a b"
  shows "binder_alloc_buffer_size (split_off a b sz n) b = sz"
    "c \<in> set (buffers a) \<Longrightarrow> c \<noteq> b \<Longrightarrow>
       binder_alloc_buffer_size (split_off a b sz n) c = binder_alloc_buffer_size a c"
proof -
  obtain xs ys where bs: "buffers a = xs @ b # ys" "b \<notin> set xs" "b \<notin> set ys"
    using split_at_distinct [OF assms(3)] alloc_wf_dests(6) [OF assms(1)] by metis
  have prem: "tiles (ba_buffer a) (area_end a) (xs @ b # ys) (ud_of a)" "n \<notin> set (xs @ b # ys)"
    "sz < gap (area_end a) (ud_of a) (xs @ b # ys) b"
    using alloc_wf_dests(1) [OF assms(1)] assms bs by (simp_all add: buffer_size_gap)
  have app: "list_add_after n b (xs @ b # ys) = xs @ b # n # ys" using bs by simp
  show "binder_alloc_buffer_size (split_off a b sz n) b = sz"
    using gap_after_split(1) [OF prem] by (simp only: buffer_size_gap split_off_sel bs app)
  show "binder_alloc_buffer_size (split_off a b sz n) c = binder_alloc_buffer_size a c"
    if "c \<in> set (buffers a)" "c \<noteq> b"
    using gap_after_split(3) [OF prem] that by (simp only: buffer_size_gap split_off_sel bs app)
qed

lemma split_off_tiles:
  assumes "alloc_wf a" "n \<notin> set (buffers a)" "b \<in> set (buffers a)" "0 < sz"
    "sz < binder_alloc_buffer_size a b"
  shows "tiles (ba_buffer a) (area_end a) (list_add_after n b (buffers a)) ((ud_of a)(n := ud_of a b + sz))"
proof -
  obtain xs ys where bs: "buffers a = xs @ b # ys" "b \<notin> set xs" "b \<notin> set ys"
    using split_at_distinct [OF assms(3)] alloc_wf_dests(6) [OF assms(1)] by metis
  then show ?thesis
    using tiles_insert [of "ba_buffer a" "area_end a" xs b ys "ud_of a" n sz]
      alloc_wf_dests(1) [OF assms(1)] assms by (simp add: buffer_size_gap)
qed

lemma sorted_key_lowered:
  assumes "sorted (map f (F1 @ b # F2))" "\<And>c. c \<in> set F1 \<union> set F2 \<Longrightarrow> g c = f c"
    "\<And>c. c \<in> set F1 \<Longrightarrow> f c < g b" "g b \<le> (f b :: nat)"
  shows "sorted (map g (F1 @ b # F2))"
proof -
  have eq: "map g F1 = map f F1" "map g F2 = map f F2" using assms(2) by auto
  have "\<forall>c \<in> set F1. g c \<le> g b" using assms(2,3) by (auto simp: less_imp_le)
  moreover have "\<forall>c \<in> set F2. g b \<le> g c"
    using assms(1,2,4) by (fastforce simp: sorted_append)
  moreover have "\<forall>c \<in> set F1. \<forall>d \<in> set F2. g c \<le> g d"
    using assms(1,2) by (fastforce simp: sorted_append)
  moreover have "sorted (map g F1)" "sorted (map g F2)"
    unfolding eq using assms(1) by (auto simp: sorted_append)
  ultimately show ?thesis by (auto simp: sorted_append)
qed

lemma split_insert_free:
  assumes rb: "rbtree_ok env" and wf: "alloc_wf a" and n: "n \<notin> set (buffers a)"
    and F: "inorder (free_buffers a) = F1 @ b # F2" "\<forall>c \<in> set F1. binder_alloc_buffer_size a c < sz"
    and sz: "sz < binder_alloc_buffer_size a b"
  obtains u where "split_free_buffer env a b sz n = Some ((split_off a b sz n)\<lparr>free_buffers := u\<rparr>)"
    "distinct (inorder u)" "set_tree u = insert n (set_tree (free_buffers a))"
    "sorted (map (binder_alloc_buffer_size (split_off a b sz n)) (inorder u))"
proof -
  let ?a1 = "split_off a b sz n"
  have ft: "set (F1 @ b # F2) = set (filter (\<lambda>c. bb_free (bufs a c)) (buffers a))"
    "distinct (F1 @ b # F2)" "sorted (map (binder_alloc_buffer_size a) (F1 @ b # F2))"
    using alloc_wf_dests(3) [OF wf] F(1) by (auto simp: free_tree_wf_def)
  have mem: "c \<in> set (buffers a) \<and> bb_free (bufs a c) \<and> c \<noteq> n" if "c \<in> set (F1 @ b # F2)" for c
    using that n unfolding ft(1) by auto
  have set_F: "set_tree (free_buffers a) = set (F1 @ b # F2)" using F(1) by (metis set_inorder)
  have b: "b \<in> set (buffers a)" using mem by simp
  have "sorted (map (binder_alloc_buffer_size ?a1) (F1 @ b # F2))"
  proof (rule sorted_key_lowered [OF ft(3)])
    show "binder_alloc_buffer_size ?a1 c = binder_alloc_buffer_size a c" if "c \<in> set F1 \<union> set F2" for c
      using that ft(2) mem by (intro split_off_sizes(2) [OF wf n b sz]) auto
    show "binder_alloc_buffer_size a c < binder_alloc_buffer_size ?a1 b" if "c \<in> set F1" for c
      using that F(2) split_off_sizes(1) [OF wf n b sz] by simp
    show "binder_alloc_buffer_size ?a1 b \<le> binder_alloc_buffer_size a b"
      using split_off_sizes(1) [OF wf n b sz] sz by simp
  qed
  then have s1: "sorted (map (binder_alloc_buffer_size ?a1) (inorder (free_buffers ?a1)))"
    by (simp only: split_off_sel F)
  have f1: "distinct (inorder (free_buffers ?a1))" "n \<notin> set_tree (free_buffers ?a1)"
    "\<forall>c \<in> set_tree (free_buffers ?a1). bb_free (bufs ?a1 c)" "bb_free (bufs ?a1 n)"
    unfolding split_off_sel(4) set_F F(1) using ft(2) mem by (auto simp: split_off_sel)
  obtain u where "binder_insert_free_buffer env ?a1 n = Some (?a1\<lparr>free_buffers := u\<rparr>)"
    "distinct (inorder u)" "set_tree u = insert n (set_tree (free_buffers ?a1))"
    "sorted (map (binder_alloc_buffer_size ?a1) (inorder u))"
    by (rule insert_free_buffer_spec [OF rb f1 s1])
  then show ?thesis
    by (intro that [of u]) (simp_all add: split_free_buffer_def split_off_def)
qed

lemma split_off_coalesced:
  assumes wf: "alloc_wf a" and n: "n \<notin> set (buffers a)" and b: "b \<in> set (buffers a)" "bb_free (bufs a b)"
  shows "successively (\<lambda>x y. \<not> (bb_free (bufs (split_off a b sz n) x) \<and> x \<noteq> b \<and>
           bb_free (bufs (split_off a b sz n) y) \<and> y \<noteq> b)) (list_add_after n b (buffers a))"
proof -
  obtain xs ys where bs: "buffers a = xs @ b # ys" "b \<notin> set xs" "b \<notin> set ys"
    using split_at_distinct [OF b(1)] alloc_wf_dests(6) [OF wf] by metis
  have same: "bufs (split_off a b sz n) c = bufs a c" if "c \<in> set (buffers a)" for c
    using that n by (auto simp: split_off_def)
  let ?Q = "\<lambda>x y. \<not> (bb_free (bufs (split_off a b sz n) x) \<and> x \<noteq> b \<and> bb_free (bufs (split_off a b sz n) y) \<and> y \<noteq> b)"
  have c: "successively (\<lambda>x y. \<not> (bb_free (bufs a x) \<and> bb_free (bufs a y))) (xs @ b # ys)"
    using alloc_wf_dests(2) [OF wf] by (simp add: coalesced_def bs)
  have "successively ?Q xs" "successively ?Q ys"
    using c same bs(1) by (auto simp: successively_append_iff successively_Cons elim!: successively_mono)
  moreover have "\<not> bb_free (bufs (split_off a b sz n) (hd ys))" if "ys \<noteq> []"
    using c that b(2) same bs(1) by (auto simp: successively_append_iff successively_Cons)
  ultimately show ?thesis
    using bs by (auto simp: successively_append_iff successively_Cons)
qed

lemma set_list_add_after: "x \<in> set xs \<Longrightarrow> set (list_add_after n x xs) = insert n (set xs)"
  by (induction xs) auto

lemma split_before_take:
  assumes wf: "alloc_wf a" and n: "n \<notin> set (buffers a)" and b: "b \<in> set (buffers a)" "bb_free (bufs a b)"
    and sz: "0 < sz" "sz < binder_alloc_buffer_size a b"
    and u: "distinct (inorder u)" "set_tree u = insert n (set_tree (free_buffers a))"
      "sorted (map (binder_alloc_buffer_size (split_off a b sz n)) (inorder u))"
  shows "before_take ((split_off a b sz n)\<lparr>free_buffers := u\<rparr>) b"
proof -
  let ?a1 = "split_off a b sz n"
  note wfs = alloc_wf_dests [OF wf]
  have same: "bufs ?a1 c = bufs a c" if "c \<in> set (buffers a)" for c
    using that n by (auto simp: split_off_def)
  have set1: "set (list_add_after n b (buffers a)) = insert n (set (buffers a))"
    by (rule set_list_add_after [OF b(1)])
  have A: "set_tree (allocated_buffers a) = set (filter (\<lambda>c. \<not> bb_free (bufs a c)) (buffers a))"
    and F: "set_tree (free_buffers a) = set (filter (\<lambda>c. bb_free (bufs a c)) (buffers a))"
    using wfs(3,4) by (simp_all add: allocated_tree_wf_def free_tree_wf_def)
  have "map (ud_of ?a1) (inorder (allocated_buffers a)) = map (ud_of a) (inorder (allocated_buffers a))"
    using A n by (auto simp: split_off_sel)
  then have 1: "allocated_tree_wf (?a1\<lparr>free_buffers := u\<rparr>)"
    using wfs(4) set1 same n by (auto simp: allocated_tree_wf_def split_off_sel)
  have 2: "free_tree_wf (?a1\<lparr>free_buffers := u\<rparr>)"
    using u F set1 same n by (auto simp: free_tree_wf_def split_off_sel)
  have 3: "sizes_fit (?a1\<lparr>free_buffers := u\<rparr>)"
  proof -
    have "unat (recorded_size (bufs ?a1 c)) \<le> binder_alloc_buffer_size ?a1 c"
      if c: "c \<in> set (buffers a)" "\<not> bb_free (bufs ?a1 c)" for c
    proof -
      have "\<not> bb_free (bufs a c)" "c \<noteq> b" using c same b(2) by auto
      with wfs(5) split_off_sizes(2) [OF wf n b(1) sz(2) c(1)] same [OF c(1)] c show ?thesis
        by (simp add: sizes_fit_def)
    qed
    then show ?thesis using set1 by (auto simp: sizes_fit_def split_off_sel)
  qed
  have "tiles (ba_buffer a) (area_end a) (list_add_after n b (buffers a)) (ud_of ?a1)"
    using split_off_tiles [OF wf n b(1) sz] by (simp only: split_off_sel)
  with 1 2 3 split_off_coalesced [OF wf n b, of sz] b n same [OF b(1)] show ?thesis
    by (auto simp: before_take_def split_off_sel set1)
qed

text \<open>The search and the split together: whatever buffer is chosen, taking it is safe.\<close>

definition chosen :: "binder_alloc \<Rightarrow> nat \<Rightarrow> nat \<Rightarrow> bool" where
  "chosen a s b \<longleftrightarrow> (\<exists>F1 F2. inorder (free_buffers a) = F1 @ b # F2 \<and> s \<le> binder_alloc_buffer_size a b \<and>
     (s = binder_alloc_buffer_size a b \<or> (\<forall>c \<in> set F1. binder_alloc_buffer_size a c < s)))"

lemma best_fit_chosen:
  assumes "alloc_wf a" "best_fit_search a s None (free_buffers a) = Some (Some b, exact)"
  shows "chosen a s b" "exact \<Longrightarrow> binder_alloc_buffer_size a b = s"
proof -
  have sorted: "sorted (map (binder_alloc_buffer_size a) (inorder (free_buffers a)))"
    using alloc_wf_dests(3) [OF assms(1)] by (simp add: free_tree_wf_def)
  show ex: "binder_alloc_buffer_size a b = s" if exact
    using best_fit_search_exact [of a s None "free_buffers a"] assms(2) that by auto
  show "chosen a s b"
  proof (cases exact)
    case True
    then have "b \<in> set (inorder (free_buffers a))"
      using best_fit_search_exact [of a s None "free_buffers a"] assms(2) by auto
    then obtain F1 F2 where "inorder (free_buffers a) = F1 @ b # F2" by (metis split_list)
    with ex [OF True] show ?thesis by (auto simp: chosen_def)
  next
    case False
    with assms(2) best_fit_search_walk [OF _ sorted, of s None "Some b"]
    have "find (\<lambda>c. s \<le> binder_alloc_buffer_size a c) (inorder (free_buffers a)) = Some b"
      by (auto split: option.splits)
    from find_Some_split [OF this] show ?thesis by (auto simp: chosen_def not_le)
  qed
qed

lemma chosen_free:
  assumes "alloc_wf a" "chosen a s b"
  shows "b \<in> set (buffers a)" "bb_free (bufs a b)" "s \<le> binder_alloc_buffer_size a b"
proof -
  have "b \<in> set (inorder (free_buffers a))" using assms(2) by (auto simp: chosen_def simp del: set_inorder)
  then show "b \<in> set (buffers a)" "bb_free (bufs a b)"
    using alloc_wf_dests(3) [OF assms(1)] by (auto simp: free_tree_wf_def simp del: set_inorder)
  show "s \<le> binder_alloc_buffer_size a b" using assms(2) by (auto simp: chosen_def)
qed

lemma chosen_least:
  assumes "alloc_wf a" "chosen a s b" "c \<in> set (buffers a)" "bb_free (bufs a c)"
    "s \<le> binder_alloc_buffer_size a c"
  shows "binder_alloc_buffer_size a b \<le> binder_alloc_buffer_size a c"
proof -
  from assms(2) obtain F1 F2 where F: "inorder (free_buffers a) = F1 @ b # F2"
    "s = binder_alloc_buffer_size a b \<or> (\<forall>c \<in> set F1. binder_alloc_buffer_size a c < s)"
    by (auto simp: chosen_def)
  have "c \<in> set (F1 @ b # F2)" "sorted (map (binder_alloc_buffer_size a) (F1 @ b # F2))"
    using alloc_wf_dests(3) [OF assms(1)] assms(3,4) F(1)
    by (auto simp: free_tree_wf_def simp del: set_inorder)
  with F(2) assms(5) show ?thesis by (auto simp: sorted_append)
qed

lemma new_buf_size_cases:
  "new_buf_size d off ex = Inl e \<Longrightarrow> e = EINVAL"
  "new_buf_size d off ex = Inr s \<Longrightarrow> s = align_ptr d + align_ptr off + align_ptr ex"
  by (auto simp: new_buf_size_def Let_def split: if_splits)

definition new_buf_post ::
  "kernel_env \<Rightarrow> binder_alloc \<Rightarrow> u64 \<Rightarrow> u64 \<Rightarrow> u64 \<Rightarrow> u64 \<Rightarrow> bool \<Rightarrow> int \<Rightarrow> nat \<Rightarrow> binder_alloc \<Rightarrow> bool" where
  "new_buf_post env a sz d off ex as pid b a' \<longleftrightarrow>
     binder_alloc_buffer_size a' b = unat sz \<and>
     bufs a' b = (bufs a b)\<lparr>bb_free := False, allow_user_free := False, data_size := d,
        offsets_size := off, async_transaction := as, extra_buffers_size := ex, bb_pid := pid\<rparr> \<and>
     (\<forall>c \<in> set (buffers a). c \<noteq> b \<longrightarrow> bufs a' c = bufs a c) \<and> set (buffers a) \<subseteq> set (buffers a') \<and>
     free_async_space a' = free_async_space a - (if as then sz + sizeof_binder_buffer env else 0)"

lemma commit_exact:
  assumes "rbtree_ok env" "before_take a b" "binder_alloc_buffer_size a b = unat sz"
    "unat (align_ptr d + align_ptr off + align_ptr ex) \<le> unat sz"
  obtains a' where "take_free_buffer env a b = Some a'"
    "alloc_wf (finish_new_buf env a' b sz d off ex as pid)"
    "new_buf_post env a sz d off ex as pid b (finish_new_buf env a' b sz d off ex as pid)"
proof -
  obtain u where u: "take_free_buffer env a b = Some (taken env a b u)"
    "set_tree u = insert b (set_tree (allocated_buffers a))" "sorted_wrt (<) (map (ud_of a) (inorder u))"
    by (rule take_free_buffer_spec [OF assms(1,2)])
  moreover have "alloc_wf (finish_new_buf env (taken env a b u) b sz d off ex as pid)"
    by (rule finish_new_buf_wf [OF assms(1,2) u(2,3)]) (simp add: assms(3,4))
  moreover have "new_buf_post env a sz d off ex as pid b (finish_new_buf env (taken env a b u) b sz d off ex as pid)"
    unfolding new_buf_post_def finish_new_buf_sel using assms(3) by auto
  ultimately show ?thesis using that by blast
qed

lemma commit_new_buf_spec:
  assumes rb: "rbtree_ok env" and wf: "alloc_wf a" and ch: "chosen a (unat sz) b"
    and fresh: "\<forall>n. kzalloc_buffer env = Some n \<longrightarrow> n \<notin> set (buffers a)"
    and fit: "unat (align_ptr d + align_ptr off + align_ptr ex) \<le> unat sz" and pos: "0 < unat sz"
    and res: "commit_new_buf env a b (binder_alloc_buffer_size a b) sz d off ex as pid spa epa = (r, a')"
  shows "(r = Inl ENOMEM \<and> skeleton a' = skeleton a) \<or>
         (r = Inr b \<and> alloc_wf a' \<and> new_buf_post env a sz d off ex as pid b a')"
proof (cases "binder_alloc_buffer_size a b = unat sz")
  case True
  note b = chosen_free [OF wf ch]
  obtain a4 where "take_free_buffer env a b = Some a4"
    "alloc_wf (finish_new_buf env a4 b sz d off ex as pid)"
    "new_buf_post env a sz d off ex as pid b (finish_new_buf env a4 b sz d off ex as pid)"
    by (rule commit_exact [OF rb before_take_exact [OF wf b(1,2)] True fit])
  with True res show ?thesis by (auto simp: commit_new_buf_def Let_def)
next
  case False
  note b = chosen_free [OF wf ch]
  have lt: "unat sz < binder_alloc_buffer_size a b" using False b(3) by simp
  show ?thesis
  proof (cases "kzalloc_buffer env")
    case None
    with False res show ?thesis by (auto simp: commit_new_buf_def Let_def)
  next
    case (Some n)
    then have n: "n \<notin> set (buffers a)" using fresh by simp
    then have nb: "n \<noteq> b" using b by auto
    obtain F1 F2 where F: "inorder (free_buffers a) = F1 @ b # F2"
      "\<forall>c \<in> set F1. binder_alloc_buffer_size a c < unat sz"
      using ch False by (auto simp: chosen_def)
    obtain u where u: "split_free_buffer env a b (unat sz) n = Some ((split_off a b (unat sz) n)\<lparr>free_buffers := u\<rparr>)"
      "distinct (inorder u)" "set_tree u = insert n (set_tree (free_buffers a))"
      "sorted (map (binder_alloc_buffer_size (split_off a b (unat sz) n)) (inorder u))"
      by (rule split_insert_free [OF rb wf n F lt])
    let ?a3 = "(split_off a b (unat sz) n)\<lparr>free_buffers := u\<rparr>"
    have s3: "binder_alloc_buffer_size ?a3 b = unat sz"
      using split_off_sizes(1) [OF wf n b(1) lt] by simp
    obtain a4 where a4: "take_free_buffer env ?a3 b = Some a4"
      "alloc_wf (finish_new_buf env a4 b sz d off ex as pid)"
      "new_buf_post env ?a3 sz d off ex as pid b (finish_new_buf env a4 b sz d off ex as pid)"
      by (rule commit_exact [OF rb split_before_take [OF wf n b(1,2) pos lt u(2-4)] s3 fit])
    have "new_buf_post env a sz d off ex as pid b (finish_new_buf env a4 b sz d off ex as pid)"
      using a4(3) b n nb set_list_add_after [OF b(1), of n]
      by (auto simp: new_buf_post_def split_off_def)
    with False Some u(1) a4 res show ?thesis by (auto simp: commit_new_buf_def Let_def)
  qed
qed

lemma chosen_skeleton:
  assumes "skeleton a' = skeleton a"
  shows "chosen a' s b = chosen a s b"
  by (simp add: chosen_def skeleton_eqD [OF assms])

lemma new_buf_post_skeleton:
  assumes "skeleton a2 = skeleton a"
  shows "new_buf_post env a2 sz d off ex as pid b a' = new_buf_post env a sz d off ex as pid b a'"
  by (simp add: new_buf_post_def skeleton_eqD [OF assms])

lemma max_pad: "unat s \<le> unat (max s (8 :: u64))" "0 < unat (max s (8 :: u64))"
  by (auto simp: max_def word_le_nat_alt)

theorem new_buf_locked_spec:
  assumes rb: "rbtree_ok env" and wf: "alloc_wf a"
    and fresh: "\<forall>n. kzalloc_buffer env = Some n \<longrightarrow> n \<notin> set (buffers a)"
    and res: "binder_alloc_new_buf_locked env a d off ex as pid = (r, a')"
  shows "(\<exists>e. r = Inl e \<and> e \<noteq> KBUG \<and> skeleton a' = skeleton a) \<or>
         (\<exists>b s. r = Inr b \<and> new_buf_size d off ex = Inr s \<and> chosen a (unat (max s 8)) b \<and>
            alloc_wf a' \<and> new_buf_post env a (max s 8) d off ex as pid b a')"
proof -
  have "\<forall>c \<in> set_tree (free_buffers a). bb_free (bufs a c)"
    using alloc_wf_dests(3) [OF wf] by (auto simp: free_tree_wf_def)
  note total = best_fit_search_total [OF this]
  show ?thesis
  proof (cases "binder_alloc_get_vma a = None")
    case True
    with res show ?thesis by (auto simp: binder_alloc_new_buf_locked_def)
  next
    case vma: False
    show ?thesis
    proof (cases "new_buf_size d off ex")
      case (Inl e)
      with vma res new_buf_size_cases(1) [OF Inl] show ?thesis
        by (auto simp: binder_alloc_new_buf_locked_def)
    next
      case (Inr s)
      let ?sz = "max s 8"
      obtain best exact where bf: "best_fit_search a (unat ?sz) None (free_buffers a) = Some (best, exact)"
        using total [of "unat ?sz" None] by auto
      consider (no_budget) "as \<and> free_async_space a < s + sizeof_binder_buffer env"
        | (no_fit) "\<not> (as \<and> free_async_space a < s + sizeof_binder_buffer env)" "best = None"
        | (fit) b where "\<not> (as \<and> free_async_space a < s + sizeof_binder_buffer env)" "best = Some b"
        by fastforce
      then show ?thesis
      proof cases
        case no_budget
        with vma Inr res have "(r, a') = (Inl ENOSPC, a)" by (auto simp: binder_alloc_new_buf_locked_def)
        then show ?thesis by simp
      next
        case no_fit
        have "binder_alloc_new_buf_locked env a d off ex as pid = (Inl ENOSPC, a)"
          unfolding binder_alloc_new_buf_locked_def Inr Let_def using vma no_fit bf by simp
        with res show ?thesis by auto
      next
        case fit
        then have b: "best = Some b" and as: "\<not> (as \<and> free_async_space a < s + sizeof_binder_buffer env)"
          by auto
        note ch = best_fit_chosen(1) [OF wf bf [unfolded b]]
        let ?a1 = "warn_on (exact \<and> binder_alloc_buffer_size a b \<noteq> unat ?sz) a"
        let ?epa = "min (page_align env (ud_of a b + unat ?sz)) (page_mask env (ud_of a b + binder_alloc_buffer_size a b))"
        obtain e a2 where upd: "binder_update_page_range env ?a1 True (page_align env (ud_of a b)) ?epa = (e, a2)"
          by fastforce
        have sk: "skeleton a2 = skeleton a"
          using skeleton_update_page_range [of env ?a1 True "page_align env (ud_of a b)" ?epa] upd by simp
        have fit: "unat (align_ptr d + align_ptr off + align_ptr ex) \<le> unat ?sz"
          using max_pad(1) [of s] new_buf_size_cases(2) [OF Inr] by simp
        have eq: "binder_alloc_new_buf_locked env a d off ex as pid =
          (case e of Some e' \<Rightarrow> (Inl e', a2) | None \<Rightarrow> commit_new_buf env a2 b (binder_alloc_buffer_size a2 b) ?sz d off ex as pid
             (page_align env (ud_of a b)) ?epa)"
          unfolding binder_alloc_new_buf_locked_def Inr Let_def
          using vma bf b as upd skeleton_eqD(9) [OF sk] by (cases e) auto
        show ?thesis
        proof (cases e)
          case None
          have "(r = Inl ENOMEM \<and> skeleton a' = skeleton a2) \<or>
                (r = Inr b \<and> alloc_wf a' \<and> new_buf_post env a2 ?sz d off ex as pid b a')"
            using None res eq fresh fit max_pad(2) [of s] wf ch skeleton_eqD [OF sk]
            by (intro commit_new_buf_spec [OF rb, of a2 ?sz b d off ex as pid "page_align env (ud_of a b)" ?epa r a'])
              (simp_all add: chosen_skeleton [OF sk])
          with Inr ch show ?thesis using sk by (auto simp: new_buf_post_skeleton [OF sk])
        next
          case (Some e')
          then have "e' \<noteq> KBUG"
            using upd by (auto simp: binder_update_page_range_def Let_def split: if_splits prod.splits bool.splits)
          with Some res eq sk show ?thesis by auto
        qed
      qed
    qed
  qed
qed

end
