(* ===== verification/Binder_Refs.thy ===== *)
theory Binder_Refs
  imports Binder_Nodes Binder_Alloc_Inv
begin

text \<open>
  Correctness of the reference bookkeeping: the handles of a process are unique and the
  smallest free one is given out, the two trees of a process and the lists of the nodes always
  describe the same references, a node counts exactly its strong references, and a node is
  freed only when nothing refers to it any more.
\<close>

section \<open>Search trees\<close>

lemma rb_search_None:
  assumes "sorted_wrt (<) (map key (inorder t))"
  shows "rb_search key k t = None \<longleftrightarrow> (\<forall>x \<in> set_tree t. key x \<noteq> k)"
  using assms by (induction t) (auto simp: sorted_wrt_append)

lemma rb_search_Some:
  assumes "sorted_wrt (<) (map key (inorder t))"
  shows "rb_search key k t = Some x \<longleftrightarrow> x \<in> set_tree t \<and> key x = k"
  using assms
proof (induction t)
  case (Node l y r)
  then have "\<forall>z \<in> set_tree l. key z < key y" "\<forall>z \<in> set_tree r. key y < key z"
    by (auto simp: sorted_wrt_append)
  with Node show ?case by (auto simp: sorted_wrt_append)
qed simp

lemma rb_link_spec:
  assumes "sorted_wrt (<) (map key (inorder t))"
  shows "case rb_link key k n t of
           Inl x \<Rightarrow> x \<in> set_tree t \<and> key x = k
         | Inr t' \<Rightarrow> (\<forall>x \<in> set_tree t. key x \<noteq> k) \<and> set_tree t' = insert n (set_tree t) \<and>
             (key n = k \<longrightarrow> sorted_wrt (<) (map key (inorder t')))"
  using assms
proof (induction t)
  case (Node l y r)
  have ord: "\<forall>z \<in> set_tree l. key z < key y" "\<forall>z \<in> set_tree r. key y < key z"
    and so: "sorted_wrt (<) (map key (inorder l))" "sorted_wrt (<) (map key (inorder r))"
    using Node.prems by (auto simp: sorted_wrt_append)
  have lr: "\<forall>x \<in> set_tree l. \<forall>z \<in> set_tree r. key x < key z" using ord by fastforce
  note IH = Node.IH(1) [OF so(1)] Node.IH(2) [OF so(2)]
  consider (lt) "k < key y" | (gt) "key y < k" | (eq) "k = key y" by fastforce
  then show ?case
  proof cases
    case lt
    then show ?thesis using IH(1) ord lr so
      by (cases "rb_link key k n l") (auto simp: sorted_wrt_append)
  next
    case gt
    then show ?thesis using IH(2) ord lr so
      by (cases "rb_link key k n r") (auto simp: sorted_wrt_append)
  next
    case eq
    then show ?thesis by simp
  qed
qed simp

lemma rb_link_fresh:
  assumes "sorted_wrt (<) (map key (inorder t))" "\<forall>x \<in> set_tree t. key x \<noteq> k" "key n = k"
  obtains t' where "rb_link key k n t = Inr t'" "set_tree t' = insert n (set_tree t)"
    "sorted_wrt (<) (map key (inorder t'))"
  using rb_link_spec [OF assms(1), of k n] assms(2,3) by (auto split: sum.splits)

lemma rb_link_cong:
  "(\<And>x. x \<in> set_tree t \<Longrightarrow> key x = key' x) \<Longrightarrow> rb_link key k n t = rb_link key' k n t"
  by (induction t) auto

section \<open>Handles\<close>

lemma pick_desc_least:
  assumes "sorted_wrt (<) xs" "\<forall>x \<in> set xs. unat d \<le> unat x + 1" "\<forall>x \<in> set xs. unat x + 1 < 2 ^ 32"
  shows "d \<le> pick_desc d xs \<and> pick_desc d xs \<notin> set xs \<and> (\<forall>e. d \<le> e \<and> e < pick_desc d xs \<longrightarrow> e \<in> set xs)"
  using assms
proof (induction d xs rule: pick_desc.induct)
  case (2 d x xs)
  show ?case
  proof (cases "x > d")
    case True
    then show ?thesis using 2(2) by auto
  next
    case False
    have x1: "unat (x + 1) = unat x + 1" using 2(4) by (simp add: unat_word_ariths)
    have "unat (x + 1) \<le> unat y + 1" if "y \<in> set xs" for y
      using 2(2) that x1 by (auto simp: word_less_nat_alt)
    with 2 False have IH: "x + 1 \<le> pick_desc (x + 1) xs" "pick_desc (x + 1) xs \<notin> set xs"
      "\<forall>e. x + 1 \<le> e \<and> e < pick_desc (x + 1) xs \<longrightarrow> e \<in> set xs" by auto
    have "e \<in> set (x # xs)" if e: "d \<le> e" "e < pick_desc (x + 1) xs" for e
    proof (cases "x + 1 \<le> e")
      case True
      then show ?thesis using IH(3) e by simp
    next
      case n: False
      then have "e = x" using e(1) x1 2(3) False by (auto simp: word_le_nat_alt word_less_nat_alt word_unat_eq_iff)
      then show ?thesis by simp
    qed
    moreover have "d \<le> x + 1" using 2(3) x1 by (simp add: word_le_nat_alt)
    moreover have "x < pick_desc (x + 1) xs" using IH(1) x1 by (simp add: word_le_nat_alt word_less_nat_alt)
    ultimately show ?thesis using IH False by auto
  qed
qed auto


section \<open>What the reference bookkeeping looks at\<close>

text \<open>\<open>rview\<close> is the part of the state that the invariant of the references depends on.\<close>

definition rview :: "driver \<Rightarrow> (nat \<Rightarrow> binder_ref) \<times> (nat \<Rightarrow> nat list \<times> int) \<times> (nat \<Rightarrow> nat tree \<times> nat tree)" where
  "rview s = (bref s, \<lambda>n. (node_refs (bnode s n), internal_strong_refs (bnode s n)),
              \<lambda>p. (refs_by_desc (bproc s p), refs_by_node (bproc s p)))"

lemma rview_eqD:
  assumes "rview s = rview s'"
  shows "bref s = bref s'" "node_refs (bnode s n) = node_refs (bnode s' n)"
    "internal_strong_refs (bnode s n) = internal_strong_refs (bnode s' n)"
    "refs_by_desc (bproc s p) = refs_by_desc (bproc s' p)" "refs_by_node (bproc s p) = refs_by_node (bproc s' p)"
  using assms by (auto simp: rview_def fun_eq_iff)

lemma upd_node_sel [simp, frame_simps]:
  "bref (upd_node n f s) = bref s" "bproc (upd_node n f s) = bproc s" "work_on (upd_node n f s) = work_on s"
  "todo (upd_node n f s) = todo s" "bthread (upd_node n f s) = bthread s"
  "bnode (upd_node n f s) = (bnode s)(n := f (bnode s n))"
  "binder_context_mgr_node (upd_node n f s) = binder_context_mgr_node s"
  "freed_nodes (upd_node n f s) = freed_nodes s" "freed_refs (upd_node n f s) = freed_refs s"
  by (simp_all add: upd_node_def)

lemma upd_ref_sel [simp, frame_simps]:
  "bnode (upd_ref r g s) = bnode s" "bproc (upd_ref r g s) = bproc s" "work_on (upd_ref r g s) = work_on s"
  "todo (upd_ref r g s) = todo s" "bthread (upd_ref r g s) = bthread s"
  "bref (upd_ref r g s) = (bref s)(r := g (bref s r))"
  "binder_context_mgr_node (upd_ref r g s) = binder_context_mgr_node s"
  "freed_nodes (upd_ref r g s) = freed_nodes s" "freed_refs (upd_ref r g s) = freed_refs s"
  by (simp_all add: upd_ref_def)

lemma upd_proc_sel [simp, frame_simps]:
  "bnode (upd_proc p h s) = bnode s" "bref (upd_proc p h s) = bref s" "work_on (upd_proc p h s) = work_on s"
  "todo (upd_proc p h s) = todo s" "bthread (upd_proc p h s) = bthread s"
  "bproc (upd_proc p h s) = (bproc s)(p := h (bproc s p))"
  "binder_context_mgr_node (upd_proc p h s) = binder_context_mgr_node s"
  "freed_nodes (upd_proc p h s) = freed_nodes s" "freed_refs (upd_proc p h s) = freed_refs s"
  by (simp_all add: upd_proc_def)

lemma stats_sel [simp, frame_simps]:
  "binder_last_id (binder_stats_created ty s) = binder_last_id s" "bref (binder_stats_created ty s) = bref s"
  "bnode (binder_stats_created ty s) = bnode s" "bproc (binder_stats_created ty s) = bproc s"
  "work_on (binder_stats_created ty s) = work_on s" "todo (binder_stats_created ty s) = todo s"
  "bref (binder_stats_deleted ty s) = bref s" "bnode (binder_stats_deleted ty s) = bnode s"
  "bproc (binder_stats_deleted ty s) = bproc s" "work_on (binder_stats_deleted ty s) = work_on s"
  "todo (binder_stats_deleted ty s) = todo s" "freed_nodes (binder_stats_deleted ty s) = freed_nodes s"
  "freed_refs (binder_stats_deleted ty s) = freed_refs s"
  by (simp_all add: binder_stats_created_def binder_stats_deleted_def)

text \<open>Counting, warning, waking and moving work leave the references alone.\<close>

lemma rview_step [simp, frame_simps]:
  "rview (binder_warn_on c s) = rview s" "rview (binder_stats_created ty s) = rview s"
  "rview (binder_stats_deleted ty s) = rview s" "rview (binder_dequeue_work_ilocked w s) = rview s"
  "rview (binder_dequeue_work w s) = rview s" "rview (wake_up_interruptible t b s) = rview s"
  "rview (s\<lparr>freed_nodes := xs\<rparr>) = rview s" "rview (s\<lparr>freed_refs := xs\<rparr>) = rview s"
  "rview (s\<lparr>binder_dead_nodes := xs\<rparr>) = rview s" "rview (binder_free_node n s) = rview s"
  by (simp_all add: rview_def binder_warn_on_def binder_stats_created_def binder_stats_deleted_def
      binder_dequeue_work_ilocked_def binder_dequeue_work_def wake_up_interruptible_def binder_free_node_def
      split: option.splits)

lemma rview_foldl:
  "(\<And>s t. rview (f s t) = rview s) \<Longrightarrow> rview (foldl f s ts) = rview s"
  by (induction ts arbitrary: s) auto

lemma rview_wakeup [simp, frame_simps]:
  "rview (binder_wakeup_proc_ilocked p s) = rview s"
proof -
  have poll: "rview (binder_wakeup_poll_threads_ilocked q b s') = rview s'" for q b s'
    unfolding binder_wakeup_poll_threads_ilocked_def by (rule rview_foldl) simp
  have "rview (snd (binder_select_thread_ilocked p s)) = rview s"
    by (auto simp: binder_select_thread_ilocked_def rview_def split: list.splits)
  then show ?thesis
    by (auto simp: binder_wakeup_proc_ilocked_def binder_wakeup_thread_ilocked_def poll
        split: prod.splits option.splits)
qed

lemma rview_enqueue:
  "binder_enqueue_work_ilocked w l s = Some s' \<Longrightarrow> rview s' = rview s"
  "binder_enqueue_deferred_thread_work_ilocked t w s = Some s' \<Longrightarrow> rview s' = rview s"
  by (auto simp: binder_enqueue_deferred_thread_work_ilocked_def binder_enqueue_work_ilocked_def
      bug_on_def rview_def binder_warn_on_def split: if_splits)

text \<open>What the two count functions do to the references.\<close>

definition bump_internal :: "nat \<Rightarrow> int \<Rightarrow> driver \<Rightarrow> driver" where
  "bump_internal n k s = (if k = 0 then s else upd_node n (internal_strong_refs_update (\<lambda>c. s32 (c + k))) s)"

lemma bump_internal_sel [simp]:
  "bref (bump_internal n k s) = bref s" "bproc (bump_internal n k s) = bproc s"
  "node_refs (bnode (bump_internal n k s) m) = node_refs (bnode s m)"
  "ref_node_key (bump_internal n k s) = ref_node_key s"
  "internal_strong_refs (bnode (bump_internal n k s) m) =
     (if m = n \<and> k \<noteq> 0 then s32 (internal_strong_refs (bnode s m) + k) else internal_strong_refs (bnode s m))"
  by (auto simp: bump_internal_def fun_eq_iff ref_node_key_def)

lemma rview_upd_node:
  "(\<And>x. node_refs (f x) = node_refs x) \<Longrightarrow> (\<And>x. internal_strong_refs (f x) = internal_strong_refs x) \<Longrightarrow>
   rview (upd_node n f s) = rview s"
  by (auto simp: rview_def fun_eq_iff)

lemma rview_dec_count: "rview (dec_node_count n st inl s) = rview (if st \<and> inl then bump_internal n (-1) s else s)"
  by (auto simp: dec_node_count_def bump_internal_def rview_upd_node rview_def)

lemma rview_dec_release:
  assumes "dec_node_release env n s = Some (b, s')"
  shows "rview s' = rview s" "b \<Longrightarrow> node_refs (bnode s n) = [] \<and> local_strong_refs (bnode s n) = 0 \<and>
    local_weak_refs (bnode s n) = 0 \<and> tmp_refs (bnode s n) = 0"
proof -
  have np: "rview (upd_proc p (nodes_update f) u) = rview u" for p f u by (auto simp: rview_def fun_eq_iff)
  show "rview s' = rview s"
    using assms by (auto simp: dec_node_release_def Let_def bug_on_def np Option.bind_eq_Some_conv
        split: if_splits option.splits dest: rview_enqueue)
  show "node_refs (bnode s n) = [] \<and> local_strong_refs (bnode s n) = 0 \<and>
    local_weak_refs (bnode s n) = 0 \<and> tmp_refs (bnode s n) = 0" if b
    using assms that by (auto simp: dec_node_release_def Let_def bug_on_def Option.bind_eq_Some_conv
        split: if_splits option.splits)
qed

lemma dec_node_rview:
  assumes "binder_dec_node_nilocked env n st inl s = Some (b, s')"
  shows "rview s' = rview (if st \<and> inl then bump_internal n (-1) s else s)"
    "b \<Longrightarrow> node_refs (bnode s n) = []"
proof -
  have "(b = False \<and> s' = dec_node_count n st inl s) \<or> dec_node_release env n (dec_node_count n st inl s) = Some (b, s')"
    using assms by (auto simp: binder_dec_node_nilocked_def Let_def split: if_splits)
  then have "rview s' = rview (dec_node_count n st inl s)" "b \<Longrightarrow> node_refs (bnode (dec_node_count n st inl s) n) = []"
    using rview_dec_release [of env n "dec_node_count n st inl s" b s'] by auto
  then show "rview s' = rview (if st \<and> inl then bump_internal n (-1) s else s)" "b \<Longrightarrow> node_refs (bnode s n) = []"
    by (simp_all add: rview_dec_count) (simp add: dec_node_count_def split: if_splits)
qed

lemma inc_node_rview:
  assumes "binder_inc_node_nilocked n st inl tgt s = Some (e, s')"
  shows "rview s' = rview (if st \<and> inl \<and> e = None then bump_internal n 1 s else s)"
  using assms
  by (auto simp: binder_inc_node_nilocked_def Let_def bump_internal_def rview_upd_node
      split: if_splits option.splits worklist.splits dest!: rview_enqueue)

section \<open>The invariant of the references\<close>

abbreviation handle :: "driver \<Rightarrow> nat \<Rightarrow> u32" where
  "handle s r \<equiv> desc (ref_data (bref s r))"

abbreviation ref_strong :: "driver \<Rightarrow> nat \<Rightarrow> int" where
  "ref_strong s r \<equiv> strong (ref_data (bref s r))"

abbreviation ref_weak :: "driver \<Rightarrow> nat \<Rightarrow> int" where
  "ref_weak s r \<equiv> weak (ref_data (bref s r))"

text \<open>A count that has not wrapped around.\<close>

abbreviation count_ok :: "int \<Rightarrow> bool" where
  "count_ok c \<equiv> 0 \<le> c \<and> c < 2 ^ 31"

definition proc_refs_wf :: "driver \<Rightarrow> nat \<Rightarrow> bool" where
  "proc_refs_wf s p \<longleftrightarrow>
     sorted_wrt (<) (map (handle s) (inorder (refs_by_desc (bproc s p)))) \<and>
     sorted_wrt (<) (map (ref_node_key s) (inorder (refs_by_node (bproc s p)))) \<and>
     set_tree (refs_by_desc (bproc s p)) = set_tree (refs_by_node (bproc s p)) \<and>
     (\<forall>r \<in> set_tree (refs_by_desc (bproc s p)). ref_proc (bref s r) = p \<and>
        (\<exists>n. ref_node (bref s r) = Some n \<and> r \<in> set (node_refs (bnode s n))))"

definition node_refs_wf :: "driver \<Rightarrow> nat \<Rightarrow> bool" where
  "node_refs_wf s n \<longleftrightarrow> distinct (node_refs (bnode s n)) \<and>
     (\<forall>r \<in> set (node_refs (bnode s n)). ref_node (bref s r) = Some n \<and> count_ok (ref_strong s r) \<and> count_ok (ref_weak s r) \<and>
        r \<in> set_tree (refs_by_desc (bproc s (ref_proc (bref s r))))) \<and>
     internal_strong_refs (bnode s n) = int (card {r \<in> set (node_refs (bnode s n)). 0 < ref_strong s r}) \<and>
     internal_strong_refs (bnode s n) < 2 ^ 31"

definition refs_wf :: "driver \<Rightarrow> bool" where
  "refs_wf s \<longleftrightarrow> (\<forall>p. proc_refs_wf s p) \<and> (\<forall>n. node_refs_wf s n)"

lemma refs_wf_rview:
  assumes "rview s = rview s'"
  shows "refs_wf s = refs_wf s'"
proof -
  have "ref_node_key s = ref_node_key s'" by (simp add: fun_eq_iff ref_node_key_def rview_eqD(1) [OF assms])
  then show ?thesis
    by (simp add: refs_wf_def proc_refs_wf_def node_refs_wf_def rview_eqD [OF assms])
qed

lemma refs_wfD [wf_dests]:
  assumes "refs_wf s"
  shows "sorted_wrt (<) (map (handle s) (inorder (refs_by_desc (bproc s p))))"
    "sorted_wrt (<) (map (ref_node_key s) (inorder (refs_by_node (bproc s p))))"
    "set_tree (refs_by_desc (bproc s p)) = set_tree (refs_by_node (bproc s p))"
    "distinct (node_refs (bnode s n))"
    "r \<in> set_tree (refs_by_desc (bproc s p)) \<Longrightarrow> ref_proc (bref s r) = p"
    "r \<in> set_tree (refs_by_desc (bproc s p)) \<Longrightarrow> \<exists>n. ref_node (bref s r) = Some n \<and> r \<in> set (node_refs (bnode s n))"
    "r \<in> set (node_refs (bnode s n)) \<Longrightarrow> ref_node (bref s r) = Some n"
    "r \<in> set (node_refs (bnode s n)) \<Longrightarrow> 0 \<le> ref_strong s r \<and> 0 \<le> ref_weak s r"
    "r \<in> set (node_refs (bnode s n)) \<Longrightarrow> r \<in> set_tree (refs_by_desc (bproc s (ref_proc (bref s r))))"
    "internal_strong_refs (bnode s n) = int (card {r \<in> set (node_refs (bnode s n)). 0 < ref_strong s r})"
    "r \<in> set (node_refs (bnode s n)) \<Longrightarrow> ref_strong s r < 2 ^ 31 \<and> ref_weak s r < 2 ^ 31"
  using assms by (auto simp: refs_wf_def proc_refs_wf_def node_refs_wf_def)

lemma refs_wf_internal: "refs_wf s \<Longrightarrow> internal_strong_refs (bnode s n) < 2 ^ 31"
  unfolding refs_wf_def node_refs_wf_def by blast

lemma refs_wf_one_node:
  assumes "refs_wf s" "r \<in> set (node_refs (bnode s n))" "r \<in> set (node_refs (bnode s m))"
  shows "m = n"
  using refs_wfD(7) [OF assms(1,2)] refs_wfD(7) [OF assms(1,3)] by simp

lemma card_filter_split:
  assumes "finite A" "r \<in> A"
  shows "card {x \<in> A. P x} = card {x \<in> A - {r}. P x} + of_bool (P r)"
proof -
  have "{x \<in> A. P x} = {x \<in> A - {r}. P x} \<union> (if P r then {r} else {})" using assms by auto
  then show ?thesis using assms(1) by (simp add: card_insert_if)
qed

text \<open>Changing the counts of one reference, with the count of strong references of its node.\<close>

definition set_counts :: "nat \<Rightarrow> int \<Rightarrow> int \<Rightarrow> driver \<Rightarrow> driver" where
  "set_counts r st w s = upd_ref_data r (\<lambda>d. d\<lparr>strong := st, weak := w\<rparr>) s"

lemma set_counts_sel [simp]:
  "bnode (set_counts r st w s) = bnode s" "bproc (set_counts r st w s) = bproc s"
  "work_on (set_counts r st w s) = work_on s"
  "handle (set_counts r st w s) x = handle s x" "ref_node (bref (set_counts r st w s) x) = ref_node (bref s x)"
  "ref_proc (bref (set_counts r st w s) x) = ref_proc (bref s x)" "ref_node_key (set_counts r st w s) = ref_node_key s"
  "ref_strong (set_counts r st w s) x = (if x = r then st else ref_strong s x)"
  "ref_weak (set_counts r st w s) x = (if x = r then w else ref_weak s x)"
  by (auto simp: set_counts_def upd_ref_data_def fun_eq_iff ref_node_key_def)

lemma refs_wf_counts:
  assumes wf: "refs_wf s" and r: "r \<in> set (node_refs (bnode s n))" and nn: "count_ok st" "count_ok w"
    and room: "ref_strong s r = 0 \<Longrightarrow> 0 < st \<Longrightarrow> internal_strong_refs (bnode s n) < 2 ^ 31 - 1"
  shows "refs_wf (bump_internal n (of_bool (0 < st) - of_bool (0 < ref_strong s r)) (set_counts r st w s))"
    (is "refs_wf ?s")
proof -
  have other: "r \<notin> set (node_refs (bnode s m))" if "m \<noteq> n" for m
    using refs_wf_one_node [OF wf r] that by blast
  let ?d = "of_bool (0 < st) - of_bool (0 < ref_strong s r) :: int"
  have exact: "internal_strong_refs (bnode s m) + (if m = n then ?d else 0) = int (card {x \<in> set (node_refs (bnode s m)). 0 < ref_strong (set_counts r st w s) x})" for m
  proof (cases "m = n")
    case True
    have "{x \<in> set (node_refs (bnode s n)) - {r}. 0 < ref_strong (set_counts r st w s) x}
        = {x \<in> set (node_refs (bnode s n)) - {r}. 0 < ref_strong s x}" by auto
    then show ?thesis
      using True r refs_wfD(10) [OF wf, of n]
        card_filter_split [of "set (node_refs (bnode s n))" r "\<lambda>x. 0 < ref_strong (set_counts r st w s) x"]
        card_filter_split [of "set (node_refs (bnode s n))" r "\<lambda>x. 0 < ref_strong s x"]
      by simp
  next
    case False
    then have "{x \<in> set (node_refs (bnode s m)). 0 < ref_strong (set_counts r st w s) x}
        = {x \<in> set (node_refs (bnode s m)). 0 < ref_strong s x}" using other by auto
    then show ?thesis using False refs_wfD(10) [OF wf, of m] by simp
  qed
  have small: "internal_strong_refs (bnode s n) + ?d < 2 ^ 31" "0 \<le> internal_strong_refs (bnode s n) + ?d"
  proof -
    have "0 \<le> internal_strong_refs (bnode s n) + ?d" using exact [of n] by (simp del: set_counts_sel)
    moreover have "?d \<le> 0 \<or> ?d = 1 \<and> internal_strong_refs (bnode s n) < 2 ^ 31 - 1"
      using room refs_wfD(8) [OF wf r] by (cases "0 < st"; cases "0 < ref_strong s r") auto
    ultimately show "internal_strong_refs (bnode s n) + ?d < 2 ^ 31" "0 \<le> internal_strong_refs (bnode s n) + ?d"
      using refs_wf_internal [OF wf, of n] by linarith+
  qed
  then have "is_s32 (internal_strong_refs (bnode s n) + ?d)" by (simp add: is_s32_def)
  then have wrap: "internal_strong_refs (bnode ?s m) = internal_strong_refs (bnode s m) + (if m = n then ?d else 0)" for m
    unfolding bump_internal_sel set_counts_sel by auto
  have "internal_strong_refs (bnode ?s m) < 2 ^ 31" for m
    using small refs_wf_internal [OF wf, of m] unfolding wrap by auto
  moreover have "internal_strong_refs (bnode ?s m) = int (card {x \<in> set (node_refs (bnode s m)). 0 < ref_strong (set_counts r st w s) x})" for m
    unfolding wrap by (rule exact)
  moreover have "count_ok (ref_strong (set_counts r st w s) x) \<and> count_ok (ref_weak (set_counts r st w s) x)"
    if "x \<in> set (node_refs (bnode s m))" for x m
    using refs_wfD(8,11) [OF wf that] nn by simp
  ultimately have "node_refs_wf ?s m" for m
    unfolding node_refs_wf_def bump_internal_sel(1-4)
    using refs_wfD(4,7,9) [OF wf] by (simp del: set_counts_sel(8,9) bump_internal_sel(5))
  moreover have "proc_refs_wf ?s q" for q
    using wf unfolding refs_wf_def proc_refs_wf_def bump_internal_sel set_counts_sel by blast
  ultimately show ?thesis by (simp add: refs_wf_def)
qed

text \<open>Taking one reference without strong count out of both trees and the list of its node.\<close>

definition drop_ref :: "kernel_env \<Rightarrow> nat \<Rightarrow> nat \<Rightarrow> nat \<Rightarrow> driver \<Rightarrow> driver" where
  "drop_ref env r p n s = upd_node n (node_refs_update (remove1 r))
     (upd_proc p (\<lambda>pr. pr\<lparr>refs_by_desc := rb_erase env r (refs_by_desc pr),
                         refs_by_node := rb_erase env r (refs_by_node pr)\<rparr>) s)"

lemma sorted_wrt_less_distinct: "sorted_wrt (<) (map (f :: 'a \<Rightarrow> 'k::linorder) xs) \<Longrightarrow> distinct xs"
  by (metis distinct_map strict_sorted_iff)

lemma refs_wf_drop:
  assumes rb: "rbtree_ok env" and wf: "refs_wf s" and r: "r \<in> set_tree (refs_by_desc (bproc s p))"
    "ref_node (bref s r) = Some n" and st: "ref_strong s r = 0"
  shows "refs_wf (drop_ref env r p n s)" (is "refs_wf ?s")
proof -
  note D = refs_wfD [OF wf]
  have dd: "distinct (inorder (refs_by_desc (bproc s p)))" "distinct (inorder (refs_by_node (bproc s p)))"
    using D(1,2) [of p] by (auto dest: sorted_wrt_less_distinct)
  have rp: "ref_proc (bref s r) = p" using D(5) r by simp
  have rn: "r \<in> set (node_refs (bnode s n))" using D(6) [OF r(1)] r(2) by auto
  have key: "ref_node_key ?s = ref_node_key s" "bref ?s = bref s"
    by (auto simp: drop_ref_def ref_node_key_def fun_eq_iff)
  have tr: "set_tree (refs_by_desc (bproc ?s q)) = set_tree (refs_by_desc (bproc s q)) - (if q = p then {r} else {})"
    "set_tree (refs_by_node (bproc ?s q)) = set_tree (refs_by_node (bproc s q)) - (if q = p then {r} else {})"
    "inorder (refs_by_desc (bproc ?s q)) = (if q = p then remove1 r else id) (inorder (refs_by_desc (bproc s q)))"
    "inorder (refs_by_node (bproc ?s q)) = (if q = p then remove1 r else id) (inorder (refs_by_node (bproc s q)))" for q
    using rbtree_okD(2,4) [OF rb dd(1), of r] rbtree_okD(2,4) [OF rb dd(2), of r] by (auto simp: drop_ref_def)
  have nr: "set (node_refs (bnode ?s m)) = set (node_refs (bnode s m)) - (if m = n then {r} else {})"
    "distinct (node_refs (bnode ?s m))"
    "internal_strong_refs (bnode ?s m) = internal_strong_refs (bnode s m)" for m
    using D(4) by (auto simp: drop_ref_def)
  have "{x \<in> set (node_refs (bnode s m)) - (if m = n then {r} else {}). 0 < ref_strong s x}
      = {x \<in> set (node_refs (bnode s m)). 0 < ref_strong s x}" for m using st by auto
  then have "node_refs_wf ?s m" for m
    unfolding node_refs_wf_def nr key tr
    using D(7-11) refs_wf_internal [OF wf] rp refs_wf_one_node [OF wf rn] nr(2) by (auto split: if_splits) (metis D(9))
  moreover have keep: "\<exists>m. ref_node (bref s x) = Some m \<and> x \<in> set (node_refs (bnode s m)) - (if m = n then {r} else {})"
    if x: "x \<in> set_tree (refs_by_desc (bproc s q)) - (if q = p then {r} else {})" for x q
  proof -
    have "x \<noteq> r" using x D(5) [of x q] rp by (auto split: if_splits)
    moreover obtain m where "ref_node (bref s x) = Some m" "x \<in> set (node_refs (bnode s m))"
      using D(6) [of x q] x by auto
    ultimately show ?thesis by auto
  qed
  have "proc_refs_wf ?s q" for q
    unfolding proc_refs_wf_def key tr nr
    using D(1,2,3,5) [of q] D(5) keep [of _ q] by (auto simp: sorted_wrt_map_remove1)
  ultimately show ?thesis by (simp add: refs_wf_def)
qed

text \<open>Linking a fresh reference into both trees and the list of its node.\<close>

definition add_ref :: "nat \<Rightarrow> nat \<Rightarrow> nat \<Rightarrow> nat \<Rightarrow> u32 \<Rightarrow> nat tree \<Rightarrow> nat tree \<Rightarrow> driver \<Rightarrow> driver" where
  "add_ref m p n i d t u s = upd_node n (node_refs_update (\<lambda>rs. m # rs))
     (upd_proc p (\<lambda>pr. pr\<lparr>refs_by_desc := u, refs_by_node := t\<rparr>)
       (upd_ref m (\<lambda>_. \<lparr>ref_data = \<lparr>ref_debug_id = i, desc = d, strong = 0, weak = 0\<rparr>,
                       ref_proc = p, ref_node = Some n, death = None\<rparr>) s))"

lemma refs_wf_add:
  assumes wf: "refs_wf s" and fresh: "\<forall>k. m \<notin> set (node_refs (bnode s k))"
    and t: "set_tree t = insert m (set_tree (refs_by_node (bproc s p)))"
      "sorted_wrt (<) (map (ref_node_key (add_ref m p n i d t u s)) (inorder t))"
    and u: "set_tree u = insert m (set_tree (refs_by_desc (bproc s p)))"
      "sorted_wrt (<) (map (handle (add_ref m p n i d t u s)) (inorder u))"
  shows "refs_wf (add_ref m p n i d t u s)" (is "refs_wf ?s")
proof -
  note D = refs_wfD [OF wf]
  have nm: "m \<notin> set_tree (refs_by_desc (bproc s q))" "m \<notin> set_tree (refs_by_node (bproc s q))" for q
    using D(6) [of m q] D(3) [of q] fresh by auto
  have ref: "bref ?s x = (if x = m then \<lparr>ref_data = \<lparr>ref_debug_id = i, desc = d, strong = 0, weak = 0\<rparr>,
       ref_proc = p, ref_node = Some n, death = None\<rparr> else bref s x)" for x
    by (simp add: add_ref_def)
  have tr: "refs_by_desc (bproc ?s q) = (if q = p then u else refs_by_desc (bproc s q))"
    "refs_by_node (bproc ?s q) = (if q = p then t else refs_by_node (bproc s q))" for q
    by (auto simp: add_ref_def)
  have nr: "node_refs (bnode ?s k) = (if k = n then m # node_refs (bnode s n) else node_refs (bnode s k))"
    "internal_strong_refs (bnode ?s k) = internal_strong_refs (bnode s k)" for k
    by (auto simp: add_ref_def)
  have "{x \<in> set (node_refs (bnode ?s k)). 0 < ref_strong ?s x} = {x \<in> set (node_refs (bnode s k)). 0 < ref_strong s x}" for k
    using fresh by (auto simp: nr ref)
  then have "node_refs_wf ?s k" for k
    unfolding node_refs_wf_def using D(4,7-11) refs_wf_internal [OF wf] fresh by (auto simp: nr ref tr u split: if_splits)
  moreover have old: "ref_proc (bref ?s x) = q \<and> (\<exists>k. ref_node (bref ?s x) = Some k \<and> x \<in> set (node_refs (bnode ?s k)))"
    if x: "x \<in> set_tree (refs_by_desc (bproc s q))" for x q
  proof -
    have "x \<noteq> m" using x nm by blast
    moreover obtain k where "ref_node (bref s x) = Some k" "x \<in> set (node_refs (bnode s k))" using D(6) [OF x] by blast
    ultimately show ?thesis using D(5) [OF x] by (auto simp: ref nr)
  qed
  have "proc_refs_wf ?s q" for q
  proof (cases "q = p")
    case True
    have "ref_proc (bref ?s m) = p \<and> (\<exists>k. ref_node (bref ?s m) = Some k \<and> m \<in> set (node_refs (bnode ?s k)))"
      by (simp add: ref nr)
    then show ?thesis unfolding proc_refs_wf_def using D(3) [of p] t u True old [of _ p] by (simp add: tr)
  next
    case False
    have m: "map (handle ?s) (inorder (refs_by_desc (bproc s q))) = map (handle s) (inorder (refs_by_desc (bproc s q)))"
      "map (ref_node_key ?s) (inorder (refs_by_node (bproc s q))) = map (ref_node_key s) (inorder (refs_by_node (bproc s q)))"
      using nm [of q] by (auto intro!: map_cong simp: ref ref_node_key_def)
    have "sorted_wrt (<) (map (handle ?s) (inorder (refs_by_desc (bproc s q))))"
      "sorted_wrt (<) (map (ref_node_key ?s) (inorder (refs_by_node (bproc s q))))"
      unfolding m by (rule D(1) D(2))+
    then show ?thesis unfolding proc_refs_wf_def using D(3) [of q] old [of _ q] False by (simp add: tr)
  qed
  ultimately show ?thesis by (simp add: refs_wf_def)
qed

section \<open>Finding or creating the reference of a node\<close>

lemma ref_key_live:
  assumes "refs_wf s" "x \<in> set_tree (refs_by_desc (bproc s p))"
  shows "ref_node_key s x = n \<longleftrightarrow> ref_node (bref s x) = Some n"
  using refs_wfD(6) [OF assms] by (auto simp: ref_node_key_def)

lemma search_ref_node:
  assumes "refs_wf s"
  shows "rb_search (ref_node_key s) n (refs_by_node (bproc s p)) = Some r \<longleftrightarrow>
           r \<in> set_tree (refs_by_desc (bproc s p)) \<and> ref_node (bref s r) = Some n"
    "rb_search (ref_node_key s) n (refs_by_node (bproc s p)) = None \<longleftrightarrow>
       (\<forall>r \<in> set_tree (refs_by_desc (bproc s p)). ref_node (bref s r) \<noteq> Some n)"
  using rb_search_Some [OF refs_wfD(2) [OF assms, of p], of n r] rb_search_None [OF refs_wfD(2) [OF assms, of p], of n]
    refs_wfD(3) [OF assms, of p] ref_key_live [OF assms, of _ p n]
  by auto

lemma search_handle:
  assumes "refs_wf s"
  shows "rb_search (handle s) d (refs_by_desc (bproc s p)) = Some r \<longleftrightarrow>
           r \<in> set_tree (refs_by_desc (bproc s p)) \<and> handle s r = d"
  using rb_search_Some [OF refs_wfD(1) [OF assms, of p], of d r] by simp

definition new_handle :: "driver \<Rightarrow> nat \<Rightarrow> nat \<Rightarrow> u32" where
  "new_handle s p n = pick_desc (if binder_context_mgr_node s (proc_context (bproc s p)) = Some n then 0 else 1)
     (map (handle s) (inorder (refs_by_desc (bproc s p))))"

lemma new_handle_least:
  assumes "refs_wf s" "\<forall>r \<in> set_tree (refs_by_desc (bproc s p)). unat (handle s r) + 1 < 2 ^ 32"
  shows "\<forall>r \<in> set_tree (refs_by_desc (bproc s p)). handle s r \<noteq> new_handle s p n"
    "(if binder_context_mgr_node s (proc_context (bproc s p)) = Some n then 0 else 1) \<le> new_handle s p n"
    "(if binder_context_mgr_node s (proc_context (bproc s p)) = Some n then 0 else 1) \<le> e \<Longrightarrow> e < new_handle s p n \<Longrightarrow>
       \<exists>r \<in> set_tree (refs_by_desc (bproc s p)). handle s r = e"
proof -
  let ?d = "if binder_context_mgr_node s (proc_context (bproc s p)) = Some n then 0 else 1 :: u32"
  note least = pick_desc_least [OF refs_wfD(1) [OF assms(1), of p], of ?d]
  have "?d \<le> new_handle s p n \<and> new_handle s p n \<notin> handle s ` set_tree (refs_by_desc (bproc s p)) \<and>
     (\<forall>e. ?d \<le> e \<and> e < new_handle s p n \<longrightarrow> e \<in> handle s ` set_tree (refs_by_desc (bproc s p)))"
    using least assms(2) unfolding new_handle_def by (auto split: if_splits)
  then show "\<forall>r \<in> set_tree (refs_by_desc (bproc s p)). handle s r \<noteq> new_handle s p n"
    "?d \<le> new_handle s p n"
    "?d \<le> e \<Longrightarrow> e < new_handle s p n \<Longrightarrow> \<exists>r \<in> set_tree (refs_by_desc (bproc s p)). handle s r = e"
    unfolding image_iff by metis+
qed

lemma new_handle_image:
  assumes "refs_wf s" "\<forall>r \<in> set_tree (refs_by_desc (bproc s p)). unat (handle s r) + 1 < 2 ^ 32"
  shows "let low = (if binder_context_mgr_node s (proc_context (bproc s p)) = Some n then 0 else 1)
    in low \<le> new_handle s p n \<and> new_handle s p n \<notin> handle s ` set_tree (refs_by_desc (bproc s p)) \<and>
       (\<forall>e. low \<le> e \<and> e < new_handle s p n \<longrightarrow> e \<in> handle s ` set_tree (refs_by_desc (bproc s p)))"
  unfolding Let_def image_iff using new_handle_least [OF assms(1,2), of n] by metis

lemma get_ref_for_node_new:
  assumes rb: "rbtree_ok env" and wf: "refs_wf s" and fresh: "\<forall>k. m \<notin> set (node_refs (bnode s k))"
    and room: "\<forall>r \<in> set_tree (refs_by_desc (bproc s p)). unat (handle s r) + 1 < 2 ^ 32"
    and none: "\<forall>r \<in> set_tree (refs_by_desc (bproc s p)). ref_node (bref s r) \<noteq> Some n"
  obtains s' t u where "binder_get_ref_for_node_olocked env p n (Some m) s = Some (Some m, s')"
    "rview s' = rview (add_ref m p n (Suc (binder_last_id s)) (new_handle s p n) t u s)" "refs_wf s'"
    "work_on s' = work_on s" "todo s' = todo s"
    "set_tree u = insert m (set_tree (refs_by_desc (bproc s p)))"
proof -
  let ?d = "new_handle s p n" and ?i = "Suc (binder_last_id s)"
  have nm: "m \<notin> set_tree (refs_by_desc (bproc s p))" "m \<notin> set_tree (refs_by_node (bproc s p))"
    using refs_wfD(6) [OF wf, of m p] refs_wfD(3) [OF wf, of p] fresh by auto
  define s3 where "s3 = upd_ref m (\<lambda>_. \<lparr>ref_data = \<lparr>ref_debug_id = ?i, desc = ?d, strong = 0, weak = 0\<rparr>,
                       ref_proc = p, ref_node = Some n, death = None\<rparr>) s"
  have keys: "ref_node_key s3 x = ref_node_key s x" "handle s3 x = handle s x" if "x \<noteq> m" for x
    using that by (auto simp: s3_def ref_node_key_def)
  have mk: "ref_node_key s3 m = n" "handle s3 m = ?d" by (auto simp: s3_def ref_node_key_def)
  have so: "sorted_wrt (<) (map (ref_node_key s3) (inorder (refs_by_node (bproc s p))))"
    "sorted_wrt (<) (map (handle s3) (inorder (refs_by_desc (bproc s p))))"
    using refs_wfD(1,2) [OF wf, of p] nm keys
    by (metis (mono_tags, lifting) map_cong set_inorder)+
  have "\<forall>x \<in> set_tree (refs_by_node (bproc s p)). ref_node_key s3 x \<noteq> n"
    using none refs_wfD(3) [OF wf, of p] search_ref_node(2) [OF wf, of n p]
      rb_search_None [OF refs_wfD(2) [OF wf, of p], of n] nm keys by metis
  from rb_link_fresh [OF so(1) this mk(1)] obtain t0 where t0: "rb_link (ref_node_key s3) n m (refs_by_node (bproc s p)) = Inr t0"
    "set_tree t0 = insert m (set_tree (refs_by_node (bproc s p)))" "sorted_wrt (<) (map (ref_node_key s3) (inorder t0))" .
  have "\<forall>x \<in> set_tree (refs_by_desc (bproc s p)). handle s3 x \<noteq> ?d"
    using new_handle_least(1) [OF wf room] nm keys by metis
  from rb_link_fresh [OF so(2) this mk(2)] obtain u0 where u0: "rb_link (handle s3) ?d m (refs_by_desc (bproc s p)) = Inr u0"
    "set_tree u0 = insert m (set_tree (refs_by_desc (bproc s p)))" "sorted_wrt (<) (map (handle s3) (inorder u0))" .
  let ?t = "rb_insert_color env t0" and ?u = "rb_insert_color env u0"
  let ?a = "add_ref m p n ?i ?d ?t ?u s"
  have a: "bref ?a = bref s3" "ref_node_key ?a = ref_node_key s3" by (auto simp: add_ref_def s3_def ref_node_key_def fun_eq_iff)
  have "refs_wf ?a"
    by (rule refs_wf_add [OF wf fresh]) (use t0 u0 rbtree_okD(1,3) [OF rb] in \<open>simp_all add: a\<close>)
  moreover have "rb_link (ref_node_key s) n m (refs_by_node (bproc s p)) = Inr t0"
    using t0(1) rb_link_cong [of "refs_by_node (bproc s p)" "ref_node_key s3" "ref_node_key s"] nm keys by metis
  moreover define s2 where "s2 = upd_ref m (\<lambda>_. \<lparr>ref_data = \<lparr>ref_debug_id = ?i, desc = ?d, strong = 0, weak = 0\<rparr>,
                       ref_proc = p, ref_node = Some n, death = None\<rparr>)
         (upd_proc p (refs_by_node_update (\<lambda>_. ?t)) ((binder_stats_created BINDER_STAT_REF s)\<lparr>binder_last_id := ?i\<rparr>))"
  define s' where "s' = upd_node n (node_refs_update (\<lambda>rs. m # rs)) (upd_proc p (refs_by_desc_update (\<lambda>_. ?u)) s2)"
  have v: "rview s' = rview ?a" "work_on s' = work_on s" "todo s' = todo s"
    by (auto simp: s'_def s2_def rview_def add_ref_def fun_eq_iff)
  have k: "handle s2 = handle s3" by (simp add: s2_def s3_def fun_eq_iff)
  have "binder_get_ref_for_node_olocked env p n (Some m) s = Some (Some m, s')"
    unfolding binder_get_ref_for_node_olocked_def Let_def option.case new_handle_def [symmetric] stats_sel
      calculation(2) sum.case s2_def [symmetric] k u0(1) s'_def ..
  moreover have "refs_wf s'" using refs_wf_rview [OF v(1)] calculation(1) by simp
  ultimately show ?thesis
    using that [of s' ?t ?u] v u0(2) rbtree_okD(3) [OF rb] by simp
qed

section \<open>Taking and dropping counts\<close>

lemma bump_internal_0 [simp]: "rview (bump_internal n 0 s) = rview s"
  by (auto simp: rview_def)

lemma rview_bump: "rview s = rview s' \<Longrightarrow> rview (bump_internal n k s) = rview (bump_internal n k s')"
  by (auto simp: rview_def fun_eq_iff)

lemma rview_set_counts: "rview s = rview s' \<Longrightarrow> rview (set_counts r st w s) = rview (set_counts r st w s')"
  by (auto simp: rview_def set_counts_def upd_ref_data_def fun_eq_iff)

lemma rview_bump_set_counts:
  "rview (set_counts r st w (bump_internal n k s)) = rview (bump_internal n k (set_counts r st w s))"
  by (auto simp: rview_def set_counts_def upd_ref_data_def fun_eq_iff bump_internal_def)

lemma ref_data_update_eq: "f (ref_data x) = g (ref_data x) \<Longrightarrow> ref_data_update f x = ref_data_update g x"
  by (cases x) simp

lemma upd_counts:
  "upd_ref_data r (strong_update f) s = set_counts r (f (ref_strong s r)) (ref_weak s r) s"
  "upd_ref_data r (weak_update f) s = set_counts r (ref_strong s r) (f (ref_weak s r)) s"
  unfolding set_counts_def upd_ref_data_def upd_ref_def
  by (rule arg_cong [where f = "\<lambda>x. s\<lparr>bref := (bref s)(r := x)\<rparr>"], rule ref_data_update_eq, simp)+

text \<open>The counts after one more, or one less, strong or weak use.\<close>

definition counts_plus :: "bool \<Rightarrow> int \<Rightarrow> nat \<Rightarrow> nat \<Rightarrow> driver \<Rightarrow> driver" where
  "counts_plus st k r n s =
     (let s' = set_counts r (if st then s32 (ref_strong s r + k) else ref_strong s r) (if st then ref_weak s r else s32 (ref_weak s r + k)) s
      in bump_internal n (of_bool (0 < ref_strong s' r) - of_bool (0 < ref_strong s r)) s')"

text \<open>Room for one more strong or weak use, also in the count of the node when it is the first strong one.\<close>

definition count_room :: "bool \<Rightarrow> driver \<Rightarrow> nat \<Rightarrow> nat \<Rightarrow> bool" where
  "count_room st s r n \<longleftrightarrow>
     (if st then ref_strong s r < 2 ^ 31 - 1 \<and> (ref_strong s r = 0 \<longrightarrow> internal_strong_refs (bnode s n) < 2 ^ 31 - 1)
      else ref_weak s r < 2 ^ 31 - 1)"

lemma counts_small:
  assumes "refs_wf s" "r \<in> set (node_refs (bnode s n))"
    "k = 1 \<and> count_room st s r n \<or> k = -1 \<and> (if st then 0 < ref_strong s r else 0 < ref_weak s r)"
  shows "st \<Longrightarrow> s32 (ref_strong s r + k) = ref_strong s r + k" "\<not> st \<Longrightarrow> s32 (ref_weak s r + k) = ref_weak s r + k"
  using refs_wfD(8,11) [OF assms(1,2)] assms(3) by (auto simp: count_room_def is_s32_def intro!: s32_id split: if_splits)

lemma counts_plus_wf:
  assumes "refs_wf s" "r \<in> set (node_refs (bnode s n))"
    "k = 1 \<and> count_room st s r n \<or> k = -1 \<and> (if st then 0 < ref_strong s r else 0 < ref_weak s r)"
  shows "refs_wf (counts_plus st k r n s)"
proof -
  let ?st = "if st then s32 (ref_strong s r + k) else ref_strong s r" and ?w = "if st then ref_weak s r else s32 (ref_weak s r + k)"
  have nn: "count_ok ?st" "count_ok ?w" "ref_strong s r = 0 \<Longrightarrow> 0 < ?st \<Longrightarrow> internal_strong_refs (bnode s n) < 2 ^ 31 - 1"
    using refs_wfD(8,11) [OF assms(1,2)] assms(3) counts_small [OF assms] by (auto simp: count_room_def split: if_splits)
  show ?thesis using refs_wf_counts [OF assms(1,2) nn] by (simp add: counts_plus_def Let_def)
qed

lemma inc_ref_spec:
  assumes wf: "refs_wf s" and r: "r \<in> set (node_refs (bnode s n))"
    and res: "binder_inc_ref_olocked r st tgt s = Some (e, s')" and room: "e = None \<Longrightarrow> count_room st s r n"
  shows "case e of None \<Rightarrow> rview s' = rview (counts_plus st 1 r n s) | Some e' \<Rightarrow> e' = EINVAL \<and> rview s' = rview s"
    "refs_wf s'"
proof -
  have rn: "ref_node (bref s r) = Some n" and nn: "0 \<le> ref_strong s r" "0 \<le> ref_weak s r"
    using refs_wfD(7,8) [OF wf r] by auto
  let ?first = "if st then ref_strong s r = 0 else ref_weak s r = 0"
  let ?f = "if st then strong_update (\<lambda>c. s32 (c + 1)) else weak_update (\<lambda>c. s32 (c + 1))"
  obtain s1 where s1: "(if ?first then binder_inc_node n st True tgt s else Some (None, s)) = Some (e, s1)"
    "s' = (case e of None \<Rightarrow> upd_ref_data r ?f s1 | Some _ \<Rightarrow> s1)"
    using res rn by (auto simp: binder_inc_ref_olocked_def Option.bind_eq_Some_conv split: option.splits)
  have v1: "rview s1 = rview (if ?first \<and> st \<and> e = None then bump_internal n 1 s else s)"
    using s1(1) inc_node_rview [of n st True tgt s e s1] by (auto simp: binder_inc_node_def split: if_splits)
  have eq: "e = None \<or> e = Some EINVAL"
    using s1(1) by (auto simp: binder_inc_node_def binder_inc_node_nilocked_def Let_def
        split: if_splits option.splits worklist.splits)
  have b1: "bref s1 = bref s" using rview_eqD(1) [OF v1] by (simp add: bump_internal_def)
  show "case e of None \<Rightarrow> rview s' = rview (counts_plus st 1 r n s) | Some e' \<Rightarrow> e' = EINVAL \<and> rview s' = rview s"
  proof (cases e)
    case None
    let ?st = "if st then s32 (ref_strong s r + 1) else ref_strong s r" and ?w = "if st then ref_weak s r else s32 (ref_weak s r + 1)"
    have "s' = set_counts r ?st ?w s1" using None s1(2) b1 by (simp add: upd_counts)
    then have "rview s' = rview (set_counts r ?st ?w (if ?first \<and> st then bump_internal n 1 s else s))"
      using rview_set_counts [OF v1] None by simp
    then show ?thesis
      using None nn room counts_small(1) [OF wf r, of 1 st] by (auto simp: counts_plus_def Let_def rview_bump_set_counts)
  next
    case (Some e')
    then show ?thesis using eq v1 s1(2) by auto
  qed
  then show "refs_wf s'"
    using wf room counts_plus_wf [OF wf r, of 1 st] refs_wf_rview [of s' s]
      refs_wf_rview [of s' "counts_plus st 1 r n s"] by (cases e) auto
qed

text \<open>Dropping a count on a node cannot hit the check on dead nodes when none of them is queued.\<close>

definition node_quiet :: "driver \<Rightarrow> nat \<Rightarrow> bool" where
  "node_quiet s n \<longleftrightarrow> node_proc (bnode s n) \<noteq> None \<or> work_on s (Node_work n) = None"

lemma bnode_wakeup [simp]: "bnode (binder_wakeup_proc_ilocked p s) = bnode s"
proof -
  have "bnode (foldl f u ts) = bnode u" if "\<And>u t. bnode (f u t) = bnode u" for f :: "driver \<Rightarrow> nat \<Rightarrow> driver" and ts u
    using that by (induction ts arbitrary: u) auto
  then show ?thesis
    by (auto simp: binder_wakeup_proc_ilocked_def binder_wakeup_thread_ilocked_def binder_select_thread_ilocked_def
        binder_wakeup_poll_threads_ilocked_def wake_up_interruptible_def split: option.splits list.splits)
qed

lemma dec_release_total:
  assumes "node_quiet s n"
  shows "\<exists>b s'. dec_node_release env n s = Some (b, s') \<and> node_quiet s' n"
proof (cases "node_proc (bnode s n)")
  case None
  then show ?thesis using assms by (auto simp: dec_node_release_def Let_def bug_on_def node_quiet_def)
next
  case (Some p)
  then show ?thesis
    by (auto simp: dec_node_release_def Let_def bug_on_def node_quiet_def binder_enqueue_work_ilocked_def
        binder_dequeue_work_ilocked_def split: option.splits)
qed

lemma dec_node_total:
  assumes "node_quiet s n"
  obtains b s' where "binder_dec_node_nilocked env n st inl s = Some (b, s')" "node_quiet s' n"
proof -
  have "node_quiet (dec_node_count n st inl s) n"
    using assms by (auto simp: node_quiet_def dec_node_count_def)
  from dec_release_total [OF this, of env] this
  have "\<exists>b s'. binder_dec_node_nilocked env n st inl s = Some (b, s') \<and> node_quiet s' n"
    by (auto simp: binder_dec_node_nilocked_def Let_def)
  with that show ?thesis by blast
qed

lemma refs_wf_upd_dead:
  assumes wf: "refs_wf s" and dead: "\<forall>k. r \<notin> set (node_refs (bnode s k))"
  shows "refs_wf (upd_ref r g s)" (is "refs_wf ?s")
proof -
  note D = refs_wfD [OF wf]
  have nm: "r \<notin> set_tree (refs_by_desc (bproc s q))" "r \<notin> set_tree (refs_by_node (bproc s q))" for q
    using D(6) [of r q] D(3) [of q] dead by auto
  have ref: "bref ?s x = (if x = r then g (bref s r) else bref s x)" for x by simp
  have m: "map (handle ?s) (inorder (refs_by_desc (bproc s q))) = map (handle s) (inorder (refs_by_desc (bproc s q)))"
    "map (ref_node_key ?s) (inorder (refs_by_node (bproc s q))) = map (ref_node_key s) (inorder (refs_by_node (bproc s q)))" for q
    using nm [of q] by (auto intro!: map_cong simp: ref_node_key_def)
  have so: "sorted_wrt (<) (map (handle ?s) (inorder (refs_by_desc (bproc s q))))"
    "sorted_wrt (<) (map (ref_node_key ?s) (inorder (refs_by_node (bproc s q))))" for q
    unfolding m by (rule D(1) D(2))+
  have live: "bref ?s x = bref s x" if "x \<in> set_tree (refs_by_desc (bproc s q))" for x q
    using nm(1) [of q] that by auto
  have "proc_refs_wf ?s q" for q
    unfolding proc_refs_wf_def using so [of q] D(3) [of q] live [of _ q] D(5) [of _ q] D(6) [of _ q] by simp
  moreover have lst: "bref ?s x = bref s x" if "x \<in> set (node_refs (bnode s k))" for x k
    using dead that by auto
  then have "{x \<in> set (node_refs (bnode s k)). 0 < ref_strong ?s x} = {x \<in> set (node_refs (bnode s k)). 0 < ref_strong s x}" for k
    using dead by auto
  then have "node_refs_wf ?s k" for k
    unfolding node_refs_wf_def using D(7,8,9,11) [of _ k] D(4) [of k] D(10) [of k] refs_wf_internal [OF wf, of k] lst [of _ k] by simp
  ultimately show ?thesis by (simp add: refs_wf_def)
qed

lemma rview_drop: "rview s = rview s' \<Longrightarrow> rview (drop_ref env r p n s) = rview (drop_ref env r p n s')"
  by (auto simp: rview_def drop_ref_def fun_eq_iff)

lemma rview_upd_ref: "rview s = rview s' \<Longrightarrow> rview (upd_ref r g s) = rview (upd_ref r g s')"
  by (auto simp: rview_def fun_eq_iff)

lemma cleanup_ref_spec:
  assumes wf: "refs_wf s" and r: "r \<in> set_tree (refs_by_desc (bproc s p))" "ref_node (bref s r) = Some n"
    and st: "ref_strong s r = 0" and q: "node_quiet s n"
  obtains s' where "binder_cleanup_ref_olocked env r s = Some s'"
    "rview s' = rview (drop_ref env r p n s) \<or>
     rview s' = rview (upd_ref r (ref_node_update (\<lambda>_. None)) (drop_ref env r p n s))"
    "ref_node (bref s' r) \<noteq> None \<Longrightarrow> node_refs (bnode s' n) = []" "bref s' r = bref s r \<or> ref_node (bref s' r) = None"
proof -
  have rp: "ref_proc (bref s r) = p" by (rule refs_wfD(5) [OF wf r(1)])
  have "node_quiet (drop_ref env r p n s) n" using q by (simp add: node_quiet_def drop_ref_def)
  then obtain b s4 where s4: "binder_dec_node_nilocked env n False True (drop_ref env r p n s) = Some (b, s4)"
    by (rule dec_node_total)
  note v4 = dec_node_rview [OF s4]
  let ?s5 = "if b then s4 else upd_ref r (ref_node_update (\<lambda>_. None)) s4"
  let ?s6 = "case death (bref ?s5 r) of None \<Rightarrow> ?s5
      | Some d \<Rightarrow> binder_stats_deleted BINDER_STAT_DEATH (binder_dequeue_work (Death_work d) ?s5)"
  let ?s7 = "binder_stats_deleted BINDER_STAT_REF ?s6"
  have eq: "binder_cleanup_ref_olocked env r s = Some ?s7"
    using s4 r(2) rp st by (simp add: binder_cleanup_ref_olocked_def drop_ref_def)
  have v7: "rview ?s7 = rview ?s5" by (simp split: option.splits)
  have v5: "rview s4 = rview (drop_ref env r p n s)" using v4(1) by simp
  have nr: "node_refs (bnode ?s7 n) = node_refs (bnode (drop_ref env r p n s) n)"
    using rview_eqD(2) [OF v7, of n] rview_eqD(2) [OF v5, of n] by simp
  have b7: "bref ?s7 = bref ?s5" by (rule rview_eqD(1) [OF v7])
  have b5: "bref s4 r = bref s r" using rview_eqD(1) [OF v5] by (simp add: drop_ref_def)
  show ?thesis
  proof (rule that [OF eq])
    show "rview ?s7 = rview (drop_ref env r p n s) \<or>
      rview ?s7 = rview (upd_ref r (ref_node_update (\<lambda>_. None)) (drop_ref env r p n s))"
      unfolding v7 using v5 rview_upd_ref [OF v5, of r] by auto
    show "ref_node (bref ?s7 r) \<noteq> None \<Longrightarrow> node_refs (bnode ?s7 n) = []"
      unfolding nr b7 using v4(2) by (cases b) auto
    show "bref ?s7 r = bref s r \<or> ref_node (bref ?s7 r) = None" unfolding b7 using b5 by simp
  qed
qed

lemma counts_plus_sel [simp]:
  "bproc (counts_plus st k r n s) = bproc s" "node_refs (bnode (counts_plus st k r n s) m) = node_refs (bnode s m)"
  "ref_node (bref (counts_plus st k r n s) x) = ref_node (bref s x)"
  "ref_strong (counts_plus st k r n s) r = (if st then s32 (ref_strong s r + k) else ref_strong s r)"
  "ref_weak (counts_plus st k r n s) r = (if st then ref_weak s r else s32 (ref_weak s r + k))"
  by (auto simp: counts_plus_def Let_def)

lemma drop_ref_sel:
  assumes "refs_wf s" "r \<in> set (node_refs (bnode s n))"
  shows "\<forall>k. r \<notin> set (node_refs (bnode (drop_ref env r p n s) k))"
  using refs_wf_one_node [OF assms] refs_wfD(4) [OF assms(1)] by (auto simp: drop_ref_def)

text \<open>The first half of dropping a count: the reference and, with its last strong use, the node.\<close>

lemma dec_ref_counts:
  assumes wf: "refs_wf s" and r: "r \<in> set (node_refs (bnode s n))" and q: "node_quiet s n"
    and pos: "if st then 0 < ref_strong s r else 0 < ref_weak s r"
  obtains s2 where "rview s2 = rview (counts_plus st (-1) r n s)" "node_quiet s2 n"
    "binder_dec_ref_olocked env r st s =
       (if ref_strong s2 r = 0 \<and> ref_weak s2 r = 0 then map_option (Pair True) (binder_cleanup_ref_olocked env r s2)
        else Some (False, s2))"
proof -
  have rn: "ref_node (bref s r) = Some n" and nn: "0 \<le> ref_strong s r" "0 \<le> ref_weak s r"
    using refs_wfD(7,8) [OF wf r] by auto
  define s1 where "s1 = set_counts r (ref_strong s r + (if st then -1 else 0)) (ref_weak s r + (if st then 0 else -1)) s"
  have c1: "ref_strong s1 r = ref_strong s r + (if st then -1 else 0)" by (simp add: s1_def)
  have q1: "node_quiet s1 n" using q by (simp add: node_quiet_def s1_def)
  have small: "is_s32 (ref_strong s r - 1)" "is_s32 (ref_weak s r - 1)"
    using nn refs_wfD(11) [OF wf r] by (simp_all add: is_s32_def)
  have one: "upd_ref_data r (if st then strong_update (\<lambda>c. s32 (c - 1)) else weak_update (\<lambda>c. s32 (c - 1))) s = s1"
    using small pos by (simp add: upd_counts s1_def)
  have rn1: "ref_node (bref s1 r) = Some n" using rn by (simp add: s1_def)
  have eq: "binder_dec_ref_olocked env r st s = do {
        s2 \<leftarrow> (if st \<and> ref_strong s1 r = 0 then binder_dec_node env n st True s1 else Some s1);
        if ref_strong s2 r = 0 \<and> ref_weak s2 r = 0 then map_option (Pair True) (binder_cleanup_ref_olocked env r s2)
        else Some (False, s2) }"
    unfolding binder_dec_ref_olocked_def one using pos rn1 by (auto split: if_splits)
  show ?thesis
  proof (cases "st \<and> ref_strong s1 r = 0")
    case False
    have "rview s1 = rview (counts_plus st (-1) r n s)"
      using False pos nn small by (auto simp: counts_plus_def Let_def s1_def)
    with that [of s1] eq q1 False show ?thesis by simp
  next
    case True
    obtain b s2 where s2: "binder_dec_node_nilocked env n st True s1 = Some (b, s2)" "node_quiet s2 n"
      by (rule dec_node_total [OF q1])
    have "\<not> b" using dec_node_rview(2) [OF s2(1)] r by (auto simp: s1_def)
    then have "binder_dec_node env n st True s1 = Some s2" using s2(1) by (simp add: binder_dec_node_def)
    moreover have "rview s2 = rview (counts_plus st (-1) r n s)"
      using dec_node_rview(1) [OF s2(1)] True pos c1 small by (auto simp: counts_plus_def Let_def s1_def)
    ultimately show ?thesis using that [of s2] eq s2(2) True by simp
  qed
qed

lemma dec_ref_spec:
  assumes rb: "rbtree_ok env" and wf: "refs_wf s" and r: "r \<in> set_tree (refs_by_desc (bproc s p))" "ref_node (bref s r) = Some n"
    and q: "node_quiet s n" and pos: "if st then 0 < ref_strong s r else 0 < ref_weak s r"
  defines "s1 \<equiv> counts_plus st (-1) r n s"
  obtains s' where "refs_wf s'"
    "binder_dec_ref_olocked env r st s = Some (ref_strong s1 r = 0 \<and> ref_weak s1 r = 0, s')"
    "\<not> (ref_strong s1 r = 0 \<and> ref_weak s1 r = 0) \<Longrightarrow> rview s' = rview s1"
    "ref_strong s1 r = 0 \<and> ref_weak s1 r = 0 \<Longrightarrow>
       (rview s' = rview (drop_ref env r p n s1) \<or>
        rview s' = rview (upd_ref r (ref_node_update (\<lambda>_. None)) (drop_ref env r p n s1))) \<and>
       (ref_node (bref s' r) \<noteq> None \<longrightarrow> node_refs (bnode s' n) = [])"
proof -
  have rn: "r \<in> set (node_refs (bnode s n))" using refs_wfD(6) [OF wf r(1)] r(2) by auto
  have wf1: "refs_wf s1" unfolding s1_def using counts_plus_wf [OF wf rn, of "-1" st] pos by simp
  obtain s2 where s2: "rview s2 = rview s1" "node_quiet s2 n"
    "binder_dec_ref_olocked env r st s =
       (if ref_strong s2 r = 0 \<and> ref_weak s2 r = 0 then map_option (Pair True) (binder_cleanup_ref_olocked env r s2)
        else Some (False, s2))"
    unfolding s1_def by (rule dec_ref_counts [OF wf rn q pos])
  note e = rview_eqD [OF s2(1)]
  have wf2: "refs_wf s2" using refs_wf_rview [OF s2(1)] wf1 by simp
  have r1: "r \<in> set_tree (refs_by_desc (bproc s1 p))" "ref_node (bref s1 r) = Some n" "r \<in> set (node_refs (bnode s1 n))"
    using r rn by (simp_all add: s1_def)
  show ?thesis
  proof (cases "ref_strong s1 r = 0 \<and> ref_weak s1 r = 0")
    case False
    then show ?thesis using that [of s2] s2 wf2 e(1) by auto
  next
    case True
    then have st0: "ref_strong s2 r = 0" "ref_weak s2 r = 0" using e(1) by auto
    obtain s' where s': "binder_cleanup_ref_olocked env r s2 = Some s'"
      "rview s' = rview (drop_ref env r p n s2) \<or>
       rview s' = rview (upd_ref r (ref_node_update (\<lambda>_. None)) (drop_ref env r p n s2))"
      "ref_node (bref s' r) \<noteq> None \<Longrightarrow> node_refs (bnode s' n) = []"
      using cleanup_ref_spec [OF wf2, of r p n env] r1 e st0 s2(2) by metis
    have dv: "rview (drop_ref env r p n s2) = rview (drop_ref env r p n s1)" by (rule rview_drop [OF s2(1)])
    have wd: "refs_wf (drop_ref env r p n s1)" by (rule refs_wf_drop [OF rb wf1 r1(1,2)]) (use True in simp)
    have v': "rview s' = rview (drop_ref env r p n s1) \<or>
        rview s' = rview (upd_ref r (ref_node_update (\<lambda>_. None)) (drop_ref env r p n s1))"
      using s'(2) dv rview_upd_ref [OF dv] by metis
    then have "refs_wf s'"
      using wd refs_wf_upd_dead [OF wd drop_ref_sel [OF wf1 r1(3)]] refs_wf_rview by metis
    with that [of s'] s2(3) st0 s' v' True show ?thesis by auto
  qed
qed

end
