(* ===== verification/Binder_Alloc_Free.thy ===== *)
theory Binder_Alloc_Free
  imports Binder_Alloc_Inv
begin

text \<open>
  Freeing: the freed buffer is merged with a free successor and a free predecessor, so that no
  two neighbours are ever both free, and goes back into the free tree under its new size. The
  release loop of a dying process frees every buffer and ends with one free buffer that spans
  the whole area.
\<close>

section \<open>Removing one buffer from the list\<close>

lemma skeleton_buffers: "skeleton (a\<lparr>buffers := l\<rparr>) = (skeleton a)\<lparr>buffers := l\<rparr>"
  by (simp add: skeleton_def)

lemma skeleton_free_buffers: "skeleton (a\<lparr>free_buffers := t\<rparr>) = (skeleton a)\<lparr>free_buffers := t\<rparr>"
  by (cases a) (simp add: skeleton_def)

lemma free_buffers_buffers_comm:
  "(a :: binder_alloc)\<lparr>free_buffers := t, buffers := l\<rparr> = a\<lparr>buffers := l, free_buffers := t\<rparr>"
  by (cases a) simp

lemma delete_free_buffer_spec:
  assumes "buffers a = xs @ p # c # ys" "distinct (buffers a)" "bb_free (bufs a p)"
  obtains a' where "binder_delete_free_buffer env a c = Some a'"
    "skeleton a' = skeleton (a\<lparr>buffers := xs @ p # ys\<rparr>)"
proof -
  have prev: "binder_buffer_prev a c = Some p"
    using list_prev_app [of c "xs @ [p]" ys] assms(1,2) by (auto simp: binder_buffer_prev_def)
  have rem: "remove1 c (xs @ p # c # ys) = xs @ p # ys"
    using remove1_app_mid [of c "xs @ [p]" ys] assms(1,2) by auto
  define a1 where "a1 = (if prev_buffer_end_page env a p \<noteq> buffer_start_page env a c \<and>
     \<not> (case binder_buffer_next a c of None \<Rightarrow> False
         | Some nxt \<Rightarrow> buffer_start_page env a nxt = buffer_start_page env a c) \<and>
     \<not> page_aligned env (ud_of a c)
     then snd (binder_update_page_range env a False (buffer_start_page env a c)
                 (buffer_start_page env a c + PAGE_SIZE env)) else a)"
  have sk: "skeleton a1 = skeleton a" by (simp add: a1_def)
  have "binder_delete_free_buffer env a c = Some (a1\<lparr>buffers := xs @ p # ys\<rparr>)"
    using prev assms rem skeleton_eqD(1) [OF sk]
    by (simp add: binder_delete_free_buffer_def Let_def flip: a1_def)
  with that show ?thesis by (simp add: skeleton_buffers sk)
qed

lemma size_after_removal:
  assumes "buffers a = xs @ p # c # ys" "distinct (buffers a)" "d \<noteq> p" "d \<noteq> c"
  shows "binder_alloc_buffer_size (a\<lparr>buffers := xs @ p # ys\<rparr>) d = binder_alloc_buffer_size a d"
  using list_next_insert [of xs p ys c d] assms
  by (auto simp: binder_alloc_buffer_size_def binder_buffer_next_def split: option.splits)

text \<open>
  The state while a buffer \<open>b\<close> is being freed: it is marked free but is in neither tree, and
  it may have free neighbours.
\<close>

definition loose :: "binder_alloc \<Rightarrow> nat \<Rightarrow> bool" where
  "loose a b \<longleftrightarrow> tiles (ba_buffer a) (area_end a) (buffers a) (ud_of a) \<and>
     b \<in> set (buffers a) \<and> bb_free (bufs a b) \<and> distinct (inorder (free_buffers a)) \<and>
     set_tree (free_buffers a) = {c \<in> set (buffers a). bb_free (bufs a c) \<and> c \<noteq> b} \<and>
     sorted (map (binder_alloc_buffer_size a) (inorder (free_buffers a))) \<and>
     allocated_tree_wf a \<and> sizes_fit a \<and>
     successively (\<lambda>x y. \<not> (bb_free (bufs a x) \<and> x \<noteq> b \<and> bb_free (bufs a y) \<and> y \<noteq> b)) (buffers a)"

lemma loose_skeleton:
  assumes "skeleton a' = skeleton a"
  shows "loose a' b = loose a b"
  by (simp add: loose_def allocated_tree_wf_def sizes_fit_def skeleton_eqD [OF assms])

text \<open>
  Removing \<open>c\<close> from the list while \<open>k\<close> is the buffer in flight afterwards; the free tree
  loses \<open>e\<close>. The two uses are: \<open>c = e\<close> is the successor and \<open>k\<close> the freed buffer, and
  \<open>c\<close> is the freed buffer and \<open>k = e\<close> its predecessor.
\<close>

lemma loose_remove:
  assumes rb: "rbtree_ok env" and l: "loose a b" and bs: "buffers a = xs @ p # c # ys"
    and fr: "bb_free (bufs a p)" "bb_free (bufs a c)"
    and who: "b = p \<and> e = c \<or> b = c \<and> e = p"
  shows "loose (a\<lparr>buffers := xs @ p # ys, free_buffers := rb_erase env e (free_buffers a)\<rparr>) p"
proof -
  let ?a = "a\<lparr>buffers := xs @ p # ys, free_buffers := rb_erase env e (free_buffers a)\<rparr>"
  have t: "tiles (ba_buffer a) (area_end a) (xs @ p # c # ys) (ud_of a)"
    and d: "distinct (buffers a)" "distinct (inorder (free_buffers a))"
    and F: "set_tree (free_buffers a) = {x \<in> set (buffers a). bb_free (bufs a x) \<and> x \<noteq> b}"
    and so: "sorted (map (binder_alloc_buffer_size a) (inorder (free_buffers a)))"
    and at: "allocated_tree_wf a" and sf: "sizes_fit a"
    using l bs by (auto simp: loose_def tiles_def)
  have pc: "p \<noteq> c" and nin: "p \<notin> set xs" "p \<notin> set ys" "c \<notin> set xs" "c \<notin> set ys" using d(1) bs by auto
  have size_eq: "binder_alloc_buffer_size ?a x = binder_alloc_buffer_size a x" if "x \<noteq> p" "x \<noteq> c" for x
    using size_after_removal [OF bs d(1) that] by simp
  have F': "set_tree (rb_erase env e (free_buffers a)) = {x \<in> set (xs @ p # ys). bb_free (bufs a x) \<and> x \<noteq> p}"
    using rbtree_okD(4) [OF rb d(2), of e] F who bs pc nin by auto
  have keys: "map (binder_alloc_buffer_size ?a) (remove1 e (inorder (free_buffers a)))
      = map (binder_alloc_buffer_size a) (remove1 e (inorder (free_buffers a)))"
    using d(2) F who by (intro map_cong refl size_eq) auto
  have so': "sorted (map (binder_alloc_buffer_size ?a) (inorder (rb_erase env e (free_buffers a))))"
    unfolding rbtree_okD(2) [OF rb d(2)] keys by (rule sorted_map_remove1 [OF so])
  have "binder_alloc_buffer_size ?a x = binder_alloc_buffer_size a x" if "\<not> bb_free (bufs a x)" for x
    using size_eq [of x] that fr by blast
  then have sf': "sizes_fit ?a"
    using sf fr bs by (simp add: sizes_fit_def)
  have at': "allocated_tree_wf ?a"
    using at bs fr by (auto simp: allocated_tree_wf_def)
  have c: "successively (\<lambda>x y. \<not> (bb_free (bufs a x) \<and> x \<noteq> b \<and> bb_free (bufs a y) \<and> y \<noteq> b)) (xs @ p # c # ys)"
    using l bs by (simp add: loose_def)
  have "successively (\<lambda>x y. \<not> (bb_free (bufs a x) \<and> x \<noteq> p \<and> bb_free (bufs a y) \<and> y \<noteq> p)) xs"
    "successively (\<lambda>x y. \<not> (bb_free (bufs a x) \<and> x \<noteq> p \<and> bb_free (bufs a y) \<and> y \<noteq> p)) ys"
    using c nin who by (auto simp: successively_append_iff successively_Cons elim!: successively_mono)
  then have su: "successively (\<lambda>x y. \<not> (bb_free (bufs a x) \<and> x \<noteq> p \<and> bb_free (bufs a y) \<and> y \<noteq> p)) (xs @ p # ys)"
    by (auto simp: successively_append_iff successively_Cons)
  show ?thesis
    unfolding loose_def
    using tiles_remove [OF t] fr(1) d(2) F' so' sf' at' su rbtree_okD(2) [OF rb d(2), of e] by simp
qed

lemma loose_insert:
  assumes rb: "rbtree_ok env" and l: "loose a b"
    and nx: "\<forall>n. binder_buffer_next a b = Some n \<longrightarrow> \<not> bb_free (bufs a n)"
    and pv: "\<forall>p. binder_buffer_prev a b = Some p \<longrightarrow> \<not> bb_free (bufs a p)"
  obtains a' where "binder_insert_free_buffer env a b = Some a'" "alloc_wf a'"
    "free_async_space a' = free_async_space a" "bufs a' = bufs a" "buffers a' = buffers a"
    "allocated_buffers a' = allocated_buffers a" "ba_buffer a' = ba_buffer a" "buffer_size a' = buffer_size a"
proof -
  have F: "distinct (inorder (free_buffers a))" "b \<notin> set_tree (free_buffers a)"
    "\<forall>c \<in> set_tree (free_buffers a). bb_free (bufs a c)" "bb_free (bufs a b)"
    "sorted (map (binder_alloc_buffer_size a) (inorder (free_buffers a)))"
    and b: "b \<in> set (buffers a)" and d: "distinct (buffers a)"
    using l by (auto simp: loose_def tiles_def)
  obtain u where u: "binder_insert_free_buffer env a b = Some (a\<lparr>free_buffers := u\<rparr>)"
    "distinct (inorder u)" "set_tree u = insert b (set_tree (free_buffers a))"
    "sorted (map (binder_alloc_buffer_size a) (inorder u))"
    by (rule insert_free_buffer_spec [OF rb F])
  obtain xs ys where bs: "buffers a = xs @ b # ys" "b \<notin> set xs" "b \<notin> set ys"
    using split_at_distinct [OF b d] by metis
  have "successively (\<lambda>x y. \<not> (bb_free (bufs a x) \<and> x \<noteq> b \<and> bb_free (bufs a y) \<and> y \<noteq> b)) (xs @ b # ys)"
    using l bs by (simp add: loose_def)
  then have "successively (\<lambda>x y. \<not> (bb_free (bufs a x) \<and> bb_free (bufs a y))) xs"
    "successively (\<lambda>x y. \<not> (bb_free (bufs a x) \<and> bb_free (bufs a y))) ys"
    using bs by (auto simp: successively_append_iff successively_Cons elim!: successively_mono)
  moreover have "ys \<noteq> [] \<Longrightarrow> \<not> bb_free (bufs a (hd ys))"
    using nx bs by (cases ys) (auto simp: binder_buffer_next_def)
  moreover have "xs \<noteq> [] \<Longrightarrow> \<not> bb_free (bufs a (last xs))"
    using pv bs by (auto simp: binder_buffer_prev_def)
  ultimately have co: "coalesced (a\<lparr>free_buffers := u\<rparr>)"
    using bs by (auto simp: coalesced_def successively_append_iff successively_Cons)
  have "alloc_wf (a\<lparr>free_buffers := u\<rparr>)"
    using co l u b by (auto simp: alloc_wf_def free_tree_wf_def loose_def allocated_tree_wf_def sizes_fit_def)
  with u(1) that show ?thesis by simp
qed

section \<open>The two merges\<close>

lemma merge_next_spec:
  assumes rb: "rbtree_ok env" and l: "loose a b"
  obtains a' where "merge_next env a b = Some a'" "loose a' b"
    "\<forall>n. binder_buffer_next a' b = Some n \<longrightarrow> \<not> bb_free (bufs a' n)"
    "free_async_space a' = free_async_space a" "bufs a' = bufs a"
    "allocated_buffers a' = allocated_buffers a" "ba_buffer a' = ba_buffer a" "buffer_size a' = buffer_size a"
proof -
  have b: "b \<in> set (buffers a)" "bb_free (bufs a b)" and d: "distinct (buffers a)"
    using l by (auto simp: loose_def tiles_def)
  obtain xs ys where bs: "buffers a = xs @ b # ys" "b \<notin> set xs" "b \<notin> set ys"
    using split_at_distinct [OF b(1) d] by metis
  show ?thesis
  proof (cases "\<exists>n zs. ys = n # zs \<and> bb_free (bufs a n)")
    case False
    then have "merge_next env a b = Some a" "\<forall>n. binder_buffer_next a b = Some n \<longrightarrow> \<not> bb_free (bufs a n)"
      using bs by (auto simp: merge_next_def binder_buffer_next_def split: list.splits)
    with l that show ?thesis by blast
  next
    case True
    then obtain n zs where ys: "ys = n # zs" "bb_free (bufs a n)" by blast
    let ?a1 = "a\<lparr>free_buffers := rb_erase env n (free_buffers a)\<rparr>"
    obtain a2 where a2: "binder_delete_free_buffer env ?a1 n = Some a2"
      "skeleton a2 = skeleton (?a1\<lparr>buffers := xs @ b # zs\<rparr>)"
      using delete_free_buffer_spec [of ?a1 xs b n zs env] bs ys d b by auto
    note sel = skeleton_eqD [OF a2(2), simplified]
    have "loose (?a1\<lparr>buffers := xs @ b # zs\<rparr>) b"
      using loose_remove [OF rb l, of xs b n zs n] bs ys b by (simp add: free_buffers_buffers_comm)
    then have "loose a2 b" by (simp add: loose_skeleton [OF a2(2)])
    moreover have "merge_next env a b = Some a2"
      using a2(1) bs ys by (simp add: merge_next_def binder_buffer_next_def)
    moreover have "\<not> bb_free (bufs a2 m)" if "binder_buffer_next a2 b = Some m" for m
    proof -
      have "\<exists>us. zs = m # us" using that bs by (auto simp: binder_buffer_next_def sel split: list.splits)
      moreover have "successively (\<lambda>x y. \<not> (bb_free (bufs a x) \<and> x \<noteq> b \<and> bb_free (bufs a y) \<and> y \<noteq> b)) (xs @ b # n # zs)"
        using l bs ys by (simp add: loose_def)
      ultimately show ?thesis
        using ys bs by (auto simp: successively_append_iff successively_Cons sel)
    qed
    ultimately show ?thesis using that sel by simp
  qed
qed

lemma merge_prev_spec:
  assumes rb: "rbtree_ok env" and l: "loose a b"
    and nx: "\<forall>n. binder_buffer_next a b = Some n \<longrightarrow> \<not> bb_free (bufs a n)"
  obtains a' b' where "merge_prev env a b = Some (a', b')" "loose a' b'"
    "\<forall>n. binder_buffer_next a' b' = Some n \<longrightarrow> \<not> bb_free (bufs a' n)"
    "\<forall>p. binder_buffer_prev a' b' = Some p \<longrightarrow> \<not> bb_free (bufs a' p)"
    "free_async_space a' = free_async_space a" "bufs a' = bufs a"
    "allocated_buffers a' = allocated_buffers a" "ba_buffer a' = ba_buffer a" "buffer_size a' = buffer_size a"
proof -
  have b: "b \<in> set (buffers a)" "bb_free (bufs a b)" and d: "distinct (buffers a)"
    using l by (auto simp: loose_def tiles_def)
  obtain xs ys where bs: "buffers a = xs @ b # ys" "b \<notin> set xs" "b \<notin> set ys"
    using split_at_distinct [OF b(1) d] by metis
  show ?thesis
  proof (cases "xs \<noteq> [] \<and> bb_free (bufs a (last xs))")
    case False
    then have "merge_prev env a b = Some (a, b)" "\<forall>p. binder_buffer_prev a b = Some p \<longrightarrow> \<not> bb_free (bufs a p)"
      using bs by (auto simp: merge_prev_def binder_buffer_prev_def)
    with l nx that show ?thesis by blast
  next
    case True
    then obtain ws p where xs: "xs = ws @ [p]" "bb_free (bufs a p)"
      by (metis append_butlast_last_id)
    have bs': "buffers a = ws @ p # b # ys" using bs xs by simp
    obtain a2 where a2: "binder_delete_free_buffer env a b = Some a2"
      "skeleton a2 = skeleton (a\<lparr>buffers := ws @ p # ys\<rparr>)"
      by (rule delete_free_buffer_spec [OF bs' d xs(2)])
    let ?a3 = "a2\<lparr>free_buffers := rb_erase env p (free_buffers a2)\<rparr>"
    note sel = skeleton_eqD [OF a2(2), simplified]
    have "skeleton ?a3 = skeleton (a\<lparr>buffers := ws @ p # ys, free_buffers := rb_erase env p (free_buffers a)\<rparr>)"
      using a2(2) sel(3) by (simp add: skeleton_free_buffers)
    from loose_skeleton [OF this, of p] loose_remove [OF rb l bs' xs(2) b(2), of p]
    have "loose ?a3 p" by simp
    moreover have "binder_buffer_prev a b = Some p"
      unfolding binder_buffer_prev_def bs(1) list_prev_app [OF bs(2,3)] by (simp add: xs)
    then have "merge_prev env a b = Some (?a3, p)"
      using a2(1) xs(2) by (simp add: merge_prev_def)
    moreover have "\<not> bb_free (bufs ?a3 n)" if nxt: "binder_buffer_next ?a3 p = Some n" for n
    proof -
      have "p \<notin> set ws" using d bs' by simp
      then have "binder_buffer_next ?a3 p = binder_buffer_next a b"
        unfolding binder_buffer_next_def bs(1) list_next_app [OF bs(2)] by (simp add: sel)
      then show ?thesis using nxt nx sel by simp
    qed
    moreover have "\<not> bb_free (bufs ?a3 q)" if "binder_buffer_prev ?a3 p = Some q" for q
    proof -
      have "q = last ws" "ws \<noteq> []"
        using that d bs' list_prev_app [of p ws ys] by (auto simp: binder_buffer_prev_def sel split: if_splits)
      moreover have "successively (\<lambda>x y. \<not> (bb_free (bufs a x) \<and> x \<noteq> b \<and> bb_free (bufs a y) \<and> y \<noteq> b)) (ws @ p # b # ys)"
        using l bs' by (simp add: loose_def)
      ultimately show ?thesis
        using xs d bs' last_in_set [of ws] by (auto simp: successively_append_iff sel)
    qed
    ultimately show ?thesis using that sel by simp
  qed
qed

section \<open>Freeing keeps the invariant\<close>

lemma loose_start:
  assumes rb: "rbtree_ok env" and wf: "alloc_wf a" and b: "b \<in> set (buffers a)" "\<not> bb_free (bufs a b)"
    and sk: "skeleton a2 = skeleton (a\<lparr>free_async_space := x\<rparr>)"
  shows "loose (set_buf b (bb_free_update (\<lambda>_. True))
           (a2\<lparr>allocated_buffers := rb_erase env b (allocated_buffers a2)\<rparr>)) b" (is "loose ?a3 b")
proof -
  note sel = skeleton_eqD [OF sk, simplified]
  note wfs = alloc_wf_dests [OF wf]
  have dA: "distinct (inorder (allocated_buffers a))" by (rule allocated_distinct [OF wfs(4)])
  have sel3: "buffers ?a3 = buffers a" "ba_buffer ?a3 = ba_buffer a" "buffer_size ?a3 = buffer_size a"
    "free_buffers ?a3 = free_buffers a" "ud_of ?a3 = ud_of a"
    "binder_alloc_buffer_size ?a3 = binder_alloc_buffer_size a"
    "allocated_buffers ?a3 = rb_erase env b (allocated_buffers a)"
    by (auto simp: sel fun_eq_iff)
  have fr: "bb_free (bufs ?a3 c) = (bb_free (bufs a c) \<or> c = b)" for c by (simp add: sel)
  have rec: "recorded_size (bufs ?a3 c) = recorded_size (bufs a c)" for c
    by (simp add: sel recorded_size_def)
  have "sorted_wrt (<) (map (ud_of a) (inorder (rb_erase env b (allocated_buffers a))))"
    using wfs(4) unfolding rbtree_okD(2) [OF rb dA]
    by (simp add: allocated_tree_wf_def sorted_wrt_map_remove1)
  moreover have "set_tree (rb_erase env b (allocated_buffers a)) = {c \<in> set (buffers a). \<not> (bb_free (bufs a c) \<or> c = b)}"
    using wfs(4) rbtree_okD(4) [OF rb dA, of b] by (auto simp: allocated_tree_wf_def)
  ultimately have "allocated_tree_wf ?a3"
    unfolding allocated_tree_wf_def sel3 fr by simp
  moreover have "sizes_fit ?a3"
    unfolding sizes_fit_def sel3 fr rec using wfs(5) by (simp add: sizes_fit_def)
  moreover have "successively (\<lambda>x y. \<not> ((bb_free (bufs a x) \<or> x = b) \<and> x \<noteq> b \<and> (bb_free (bufs a y) \<or> y = b) \<and> y \<noteq> b)) (buffers a)"
    using wfs(2) by (auto simp: coalesced_def elim: successively_mono)
  moreover have "set_tree (free_buffers a) = {c \<in> set (buffers a). (bb_free (bufs a c) \<or> c = b) \<and> c \<noteq> b}"
    using wfs(3) b by (auto simp: free_tree_wf_def)
  ultimately show ?thesis
    unfolding loose_def sel3 fr using wfs(1,3) b by (simp add: free_tree_wf_def)
qed

lemma free_not_bug:
  assumes wf: "alloc_wf a" and b: "b \<in> set (buffers a)" "\<not> bb_free (bufs a b)"
  shows "unat (recorded_size (bufs a b)) \<le> binder_alloc_buffer_size a b" "ba_buffer a \<le> ud_of a b"
    "ud_of a b \<le> area_end a"
proof -
  show "unat (recorded_size (bufs a b)) \<le> binder_alloc_buffer_size a b"
    using alloc_wf_dests(5) [OF wf] b by (simp add: sizes_fit_def)
  show "ba_buffer a \<le> ud_of a b" by (rule tiles_start [OF alloc_wf_dests(1) [OF wf] b(1)])
  show "ud_of a b \<le> area_end a" using tiles_end [OF alloc_wf_dests(1) [OF wf] b(1)] by simp
qed

definition free_post :: "kernel_env \<Rightarrow> binder_alloc \<Rightarrow> nat \<Rightarrow> binder_alloc \<Rightarrow> bool" where
  "free_post env a b a' \<longleftrightarrow>
     free_async_space a' = free_async_space a +
       (if async_transaction (bufs a b) then recorded_size (bufs a b) + sizeof_binder_buffer env else 0) \<and>
     bufs a' = (bufs a)(b := (bufs a b)\<lparr>bb_free := True\<rparr>) \<and>
     inorder (allocated_buffers a') = remove1 b (inorder (allocated_buffers a)) \<and>
     ba_buffer a' = ba_buffer a \<and> buffer_size a' = buffer_size a"

theorem free_buf_locked_spec:
  assumes rb: "rbtree_ok env" and wf: "alloc_wf a"
    and b: "b \<in> set (buffers a)" "\<not> bb_free (bufs a b)" "transaction (bufs a b) = None"
  obtains a' where "binder_free_buf_locked env a b = Some a'" "alloc_wf a'" "free_post env a b a'"
proof -
  define a1 where "a1 = (if async_transaction (bufs a b)
      then a\<lparr>free_async_space := free_async_space a + (recorded_size (bufs a b) + sizeof_binder_buffer env)\<rparr> else a)"
  define a2 where "a2 = snd (binder_update_page_range env a1 False (page_align env (user_data (bufs a b)))
               (page_mask env (user_data (bufs a b) + binder_alloc_buffer_size a b)))"
  define a3 where "a3 = set_buf b (bb_free_update (\<lambda>_. True))
               (a2\<lparr>allocated_buffers := rb_erase env b (allocated_buffers a2)\<rparr>)"
  have "a1 = a\<lparr>free_async_space := free_async_space a1\<rparr>" by (simp add: a1_def)
  then have sk: "skeleton a2 = skeleton (a\<lparr>free_async_space := free_async_space a1\<rparr>)"
    by (metis a2_def skeleton_update_page_range)
  note sel2 = skeleton_eqD [OF sk, simplified]
  have l3: "loose a3 b" unfolding a3_def by (rule loose_start [OF rb wf b(1,2) sk])
  obtain a4 where a4: "merge_next env a3 b = Some a4" "loose a4 b"
    "\<forall>n. binder_buffer_next a4 b = Some n \<longrightarrow> \<not> bb_free (bufs a4 n)"
    "free_async_space a4 = free_async_space a3" "bufs a4 = bufs a3"
    "allocated_buffers a4 = allocated_buffers a3" "ba_buffer a4 = ba_buffer a3" "buffer_size a4 = buffer_size a3"
    by (rule merge_next_spec [OF rb l3])
  obtain a5 b' where a5: "merge_prev env a4 b = Some (a5, b')" "loose a5 b'"
    "\<forall>n. binder_buffer_next a5 b' = Some n \<longrightarrow> \<not> bb_free (bufs a5 n)"
    "\<forall>p. binder_buffer_prev a5 b' = Some p \<longrightarrow> \<not> bb_free (bufs a5 p)"
    "free_async_space a5 = free_async_space a4" "bufs a5 = bufs a4"
    "allocated_buffers a5 = allocated_buffers a4" "ba_buffer a5 = ba_buffer a4" "buffer_size a5 = buffer_size a4"
    by (rule merge_prev_spec [OF rb a4(2,3)])
  obtain a6 where a6: "binder_insert_free_buffer env a5 b' = Some a6" "alloc_wf a6"
    "free_async_space a6 = free_async_space a5" "bufs a6 = bufs a5" "buffers a6 = buffers a5"
    "allocated_buffers a6 = allocated_buffers a5" "ba_buffer a6 = ba_buffer a5" "buffer_size a6 = buffer_size a5"
    by (rule loose_insert [OF rb a5(2,3,4)])
  have "binder_free_buf_locked env a b = Some a6"
    using free_not_bug [OF wf b(1,2)] b a4(1) a5(1) a6(1)
    by (simp add: binder_free_buf_locked_def Let_def a1_def a2_def a3_def)
  moreover have "free_post env a b a6"
    using a4 a5 a6 sel2 rbtree_okD(2) [OF rb allocated_distinct [OF alloc_wf_dests(4) [OF wf]]]
    by (simp add: free_post_def a3_def a1_def)
  ultimately show ?thesis using a6(2) that by blast
qed

end
