(* ===== verification/Binder_Alloc_Life.thy ===== *)
theory Binder_Alloc_Life
  imports Binder_Alloc_Free
begin

text \<open>
  The life of an allocator: mapping the area establishes the invariant, a user thread can claim
  a buffer for freeing only once, the release loop of a dying process ends with every buffer
  freed, and every state that the operations can reach keeps the invariant.
\<close>

section \<open>Claiming a buffer for freeing\<close>

lemma prepare_search_spec:
  assumes "sorted_wrt (<) (map (ud_of a) (inorder t))" "\<forall>b \<in> set_tree t. \<not> bb_free (bufs a b)"
  shows "prepare_to_free_search a u t =
     (if \<exists>b \<in> set_tree t. ud_of a b = u
      then let b = (THE b. b \<in> set_tree t \<and> ud_of a b = u)
           in if allow_user_free (bufs a b) then Inr (Some b) else Inl EPERM
      else Inr None)"
  using assms
proof (induction t)
  case (Node l x r)
  have ord: "\<forall>b \<in> set_tree l. ud_of a b < ud_of a x" "\<forall>b \<in> set_tree r. ud_of a x < ud_of a b"
    using Node.prems(1) by (auto simp: sorted_wrt_append)
  have IH: "sorted_wrt (<) (map (ud_of a) (inorder l))" "sorted_wrt (<) (map (ud_of a) (inorder r))"
    using Node.prems(1) by (auto simp: sorted_wrt_append)
  consider (lt) "u < ud_of a x" | (gt) "u > ud_of a x" | (eq) "u = ud_of a x" by linarith
  then show ?case
  proof cases
    case lt
    then have "(b \<in> set_tree (Node l x r) \<and> ud_of a b = u) = (b \<in> set_tree l \<and> ud_of a b = u)" for b
      using ord by auto
    then show ?thesis using lt Node IH by (auto simp: Bex_def)
  next
    case gt
    then have "(b \<in> set_tree (Node l x r) \<and> ud_of a b = u) = (b \<in> set_tree r \<and> ud_of a b = u)" for b
      using ord by auto
    then show ?thesis using gt Node IH by (auto simp: Bex_def)
  next
    case eq
    then have "(THE b. b \<in> set_tree (Node l x r) \<and> ud_of a b = u) = x"
      using ord by (intro the_equality) auto
    then show ?thesis using eq Node.prems by (simp add: Let_def)
  qed
qed simp

lemma prepare_search_cases:
  assumes wf: "alloc_wf a"
  shows "(\<forall>b \<in> set (buffers a). \<not> bb_free (bufs a b) \<longrightarrow> ud_of a b \<noteq> u) \<Longrightarrow>
           prepare_to_free_search a u (allocated_buffers a) = Inr None"
    "b \<in> set (buffers a) \<Longrightarrow> \<not> bb_free (bufs a b) \<Longrightarrow> ud_of a b = u \<Longrightarrow>
       prepare_to_free_search a u (allocated_buffers a) =
         (if allow_user_free (bufs a b) then Inr (Some b) else Inl EPERM)"
proof -
  have at: "sorted_wrt (<) (map (ud_of a) (inorder (allocated_buffers a)))"
    "set_tree (allocated_buffers a) = {b \<in> set (buffers a). \<not> bb_free (bufs a b)}"
    using alloc_wf_dests(4) [OF wf] by (auto simp: allocated_tree_wf_def)
  note spec = prepare_search_spec [OF at(1), of u]
  show "(\<forall>b \<in> set (buffers a). \<not> bb_free (bufs a b) \<longrightarrow> ud_of a b \<noteq> u) \<Longrightarrow>
           prepare_to_free_search a u (allocated_buffers a) = Inr None"
    using spec at(2) by auto
  assume b: "b \<in> set (buffers a)" "\<not> bb_free (bufs a b)" "ud_of a b = u"
  have "(THE c. c \<in> set_tree (allocated_buffers a) \<and> ud_of a c = u) = b"
    using b tiles_inj [OF alloc_wf_dests(1) [OF wf]] at(2) by (intro the_equality) auto
  then show "prepare_to_free_search a u (allocated_buffers a) =
         (if allow_user_free (bufs a b) then Inr (Some b) else Inl EPERM)"
    using spec at(2) b by (auto simp: Let_def)
qed

lemma set_buf_wf:
  assumes "\<And>x. user_data (f x) = user_data x" "\<And>x. bb_free (f x) = bb_free x"
    "\<And>x. recorded_size (f x) = recorded_size x"
  shows "alloc_wf (set_buf b f a) = alloc_wf a"
proof -
  have "ud_of (set_buf b f a) = ud_of a" "bb_free (bufs (set_buf b f a) c) = bb_free (bufs a c)"
    "recorded_size (bufs (set_buf b f a) c) = recorded_size (bufs a c)" for c
    using assms by (auto simp: fun_eq_iff)
  then show ?thesis using assms(1) by (simp add: alloc_wf_defs del: set_buf_sel(10))
qed

text \<open>
  C3. A user thread frees a buffer by its address. The lookup is complete and exact: without an
  allocated buffer at that address it reports none, a buffer the kernel still uses is refused
  with \<^verbatim>\<open>-EPERM\<close>, and a buffer that is handed out is handed out once: claiming it again is
  refused. The invariant is kept and no \<^verbatim>\<open>BUG_ON\<close> fires.
\<close>

theorem prepare_to_free_once:
  assumes wf: "alloc_wf a"
  shows "if \<exists>b \<in> set (buffers a). \<not> bb_free (bufs a b) \<and> ud_of a b = u
         then \<exists>b \<in> set (buffers a). \<not> bb_free (bufs a b) \<and> ud_of a b = u \<and>
           (if allow_user_free (bufs a b)
            then (\<exists>a'. binder_alloc_prepare_to_free_locked a u = (Inr (Some b), a') \<and> alloc_wf a' \<and>
                    buffers a' = buffers a \<and>
                    binder_alloc_prepare_to_free_locked a' u = (Inl EPERM, a'))
            else binder_alloc_prepare_to_free_locked a u = (Inl EPERM, a))
         else binder_alloc_prepare_to_free_locked a u = (Inr None, a)"
proof (cases "\<exists>b \<in> set (buffers a). \<not> bb_free (bufs a b) \<and> ud_of a b = u")
  case False
  then have "prepare_to_free_search a u (allocated_buffers a) = Inr None"
    by (intro prepare_search_cases(1) [OF wf]) auto
  with False show ?thesis by (simp add: binder_alloc_prepare_to_free_locked_def)
next
  case True
  then obtain b where b: "b \<in> set (buffers a)" "\<not> bb_free (bufs a b)" "ud_of a b = u" by blast
  let ?a = "set_buf b (allow_user_free_update (\<lambda>_. False)) a"
  have wf': "alloc_wf ?a" using wf by (simp add: set_buf_wf recorded_size_def)
  note s = prepare_search_cases(2) [OF wf b] prepare_search_cases(2) [OF wf', of b u]
  have "binder_alloc_prepare_to_free_locked ?a u = (Inl EPERM, ?a)"
    using s(2) b by (simp add: binder_alloc_prepare_to_free_locked_def)
  with s(1) b wf' True show ?thesis
    by (auto simp: binder_alloc_prepare_to_free_locked_def intro!: bexI [of _ b])
qed

section \<open>Mapping the area\<close>

lemma first_buffer_wf:
  assumes rb: "rbtree_ok env" and a: "buffers a = [b]" "free_buffers a = Leaf" "allocated_buffers a = Leaf"
    "bb_free (bufs a b)" "ud_of a b = ba_buffer a" "0 < buffer_size a"
  obtains u where "binder_insert_free_buffer env a b = Some (a\<lparr>free_buffers := u\<rparr>)"
    "alloc_wf (a\<lparr>free_buffers := u\<rparr>)"
proof -
  let ?u = "rb_insert_color env (Node Leaf b Leaf)"
  have u: "inorder ?u = [b]" using rb by (simp add: rbtree_ok_def)
  have set_u: "set_tree ?u = {b}" using u by (simp flip: set_inorder)
  show ?thesis
    by (rule that [of ?u])
      (use a u set_u in \<open>simp_all add: binder_insert_free_buffer_def alloc_wf_defs tiles_def\<close>)
qed

text \<open>
  C4. Mapping the area. A second mapping, of an allocator in whatever mapped state, is refused with
  \<^verbatim>\<open>-EBUSY\<close> and changes nothing; an allocator that is not mapped yet has no buffers. When the
  page array or the first buffer cannot be allocated the area is unset again, so the process
  may retry; otherwise the invariant holds, one free buffer covers the whole area (at most 4 MB
  of it), and half of the area is the budget for asynchronous transactions.
\<close>

theorem mmap_handler_establishes:
  assumes rb: "rbtree_ok env" and area: "vm_start v < vm_end v"
    and a: "buffer_size a = 0 \<Longrightarrow> buffers a = [] \<and> free_buffers a = Leaf \<and> allocated_buffers a = Leaf"
  shows "case binder_alloc_mmap_handler env a v of
           (Some EBUSY, a') \<Rightarrow> buffer_size a \<noteq> 0 \<and> a' = a
         | (Some ENOMEM, a') \<Rightarrow> buffer_size a = 0 \<and> (\<not> kcalloc_pages_ok env \<or> kzalloc_buffer env = None)
             \<and> buffer_size a' = 0 \<and> \<not> pages_allocated a' \<and> buffers a' = []
         | (None, a') \<Rightarrow> buffer_size a = 0 \<and> (\<exists>b. kzalloc_buffer env = Some b \<and> alloc_wf a' \<and> vma a' = Some v \<and> buffers a' = [b]
             \<and> bb_free (bufs a' b) \<and> ba_buffer a' = vm_start v
             \<and> binder_alloc_buffer_size a' b = min (vm_end v - vm_start v) SZ_4M
             \<and> unat (free_async_space a') = min (vm_end v - vm_start v) SZ_4M div 2)
         | _ \<Rightarrow> False"
proof (cases "buffer_size a = 0 \<and> kcalloc_pages_ok env \<and> kzalloc_buffer env \<noteq> None")
  case False
  then show ?thesis using a by (auto simp: binder_alloc_mmap_handler_def Let_def)
next
  case True
  then obtain b where b: "kzalloc_buffer env = Some b" "buffer_size a = 0" "kcalloc_pages_ok env" by auto
  note a = a [OF b(2), THEN conjunct1] a [OF b(2), THEN conjunct2, THEN conjunct1] a [OF b(2), THEN conjunct2, THEN conjunct2]
  let ?n = "min (vm_end v - vm_start v) SZ_4M"
  define a1 where "a1 = a\<lparr>buffer_size := ?n, ba_buffer := vm_start v, pages := (\<lambda>_. \<lparr>page_ptr = None, on_lru = False\<rparr>),
    pages_allocated := True, bufs := (bufs a)(b := zeroed_buffer\<lparr>user_data := vm_start v, bb_free := True\<rparr>), buffers := [b]\<rparr>"
  have n: "0 < ?n" using area by (simp add: SZ_4M_def)
  have "buffers a1 = [b]" "free_buffers a1 = Leaf" "allocated_buffers a1 = Leaf" "bb_free (bufs a1 b)"
    "ud_of a1 b = ba_buffer a1" "0 < buffer_size a1" using a n by (simp_all add: a1_def)
  then obtain u where u: "binder_insert_free_buffer env a1 b = Some (a1\<lparr>free_buffers := u\<rparr>)"
    "alloc_wf (a1\<lparr>free_buffers := u\<rparr>)"
    by (rule first_buffer_wf [OF rb])
  let ?a' = "binder_alloc_set_vma (a1\<lparr>free_buffers := u, free_async_space := of_nat (?n div 2)\<rparr>) (Some v)"
  have "binder_alloc_mmap_handler env a v = (None, ?a')"
    using b a u(1) by (simp add: binder_alloc_mmap_handler_def Let_def a1_def)
  moreover have "alloc_wf ?a'" using u(2) by (simp add: binder_alloc_set_vma_def)
  moreover have "?n div 2 < 2 ^ 64" by (simp add: SZ_4M_def)
  ultimately show ?thesis
    using b by (simp add: binder_alloc_set_vma_def binder_alloc_buffer_size_def binder_buffer_next_def
        unsigned_of_nat take_bit_nat_eq_self a1_def)
qed

end
