(* ===== verification/Binder_Alloc_Props.thy ===== *)
theory Binder_Alloc_Props
  imports Binder_Alloc_Life
begin

text \<open>
  Requests and replies of the allocator: the exact meaning of the overflow checks on the three
  sizes of a request, what an allocation and a release do to the whole allocator, and the
  budget for asynchronous transactions. A concrete kernel environment and a freshly mapped
  area show that the hypotheses can hold.
\<close>

section \<open>The overflow checks on request sizes\<close>

lemma mod_mult_div: "0 < m \<Longrightarrow> n mod (m * k) div m = n div m mod (k :: nat)"
  by (simp add: mod_mult2_eq)

lemma unat_align_ptr: "unat (align_ptr x) = round_up 8 (unat x) mod 2 ^ 64"
proof -
  have "(7 :: u64) = mask 3" by (simp add: mask_eq_exp_minus_1)
  then have "unat (align_ptr x) = 8 * (unat (x + 7) div 8)"
    unfolding align_ptr_def using unat_and_not_mask [of "x + 7" 3] by simp
  also have "unat (x + 7) = (unat x + 7) mod (8 * 2 ^ 61)" by (simp add: unat_word_ariths)
  also have "(unat x + 7) mod (8 * 2 ^ 61) div 8 = (unat x + 7) div 8 mod 2 ^ 61"
    by (rule mod_mult_div) simp
  also have "8 * ((unat x + 7) div 8 mod 2 ^ 61) = 8 * ((unat x + 7) div 8) mod (8 * 2 ^ 61)"
    by (rule mult_mod_right)
  finally show ?thesis by (simp add: round_up_def add.commute)
qed

lemma sum_wraps:
  fixes d x D X M :: nat
  assumes "d \<le> D" "D < d + 8" "x \<le> X" "X < x + 8" "8 dvd D" "8 dvd X" "d < M" "x < M" "8 dvd M" "8 < M"
  shows "((D mod M + X mod M) mod M < d \<or> (D mod M + X mod M) mod M < x) = (M \<le> D + X)"
proof -
  obtain k l m where klm: "D = 8 * k" "X = 8 * l" "M = 8 * m" using assms by (auto elim!: dvdE)
  consider "D = M" | "X = M" "D < M" | "D < M" "X < M" "M \<le> D + X" | "D + X < M"
    using assms klm by fastforce
  then show ?thesis
  proof cases
    case 1
    have "X mod M < d" using 1 assms klm by (cases "X = M") auto
    then show ?thesis using 1 by simp
  next
    case 2
    then show ?thesis using assms klm by auto
  next
    case 3
    then have "(D mod M + X mod M) mod M = D + X - M" by (simp add: mod_if)
    with 3 assms klm show ?thesis by auto
  next
    case 4
    then have "(D mod M + X mod M) mod M = D + X" by simp
    with 4 assms show ?thesis by auto
  qed
qed

definition request_size :: "u64 \<Rightarrow> u64 \<Rightarrow> u64 \<Rightarrow> nat" where
  "request_size d off ex = round_up 8 (unat d) + round_up 8 (unat off) + round_up 8 (unat ex)"

lemma new_buf_size_arith:
  "new_buf_size d off ex =
     (if request_size d off ex < 2 ^ 64 then Inr (of_nat (request_size d off ex)) else Inl EINVAL)"
proof -
  let ?D = "round_up 8 (unat d)" and ?O = "round_up 8 (unat off)" and ?E = "round_up 8 (unat ex)"
  have lt: "unat (x :: u64) < 2 ^ 64" for x using unsigned_less [of x] by simp
  have bd: "unat x \<le> round_up 8 (unat x)" "round_up 8 (unat x) < unat x + 8" for x :: u64
    by (simp_all add: round_up_ge round_up_less)
  have e1: "unat (align_ptr d + align_ptr off) = (?D mod 2 ^ 64 + ?O mod 2 ^ 64) mod 2 ^ 64"
    by (simp add: unat_word_ariths unat_align_ptr)
  have s1: "(align_ptr d + align_ptr off < d \<or> align_ptr d + align_ptr off < off) = (2 ^ 64 \<le> ?D + ?O)"
    unfolding word_less_nat_alt e1 by (rule sum_wraps) (simp_all add: bd lt [simplified])
  show ?thesis
  proof (cases "2 ^ 64 \<le> ?D + ?O")
    case True
    with s1 show ?thesis by (auto simp: new_buf_size_def request_size_def)
  next
    case False
    then have e2: "unat (align_ptr d + align_ptr off) = ?D + ?O" using e1 by simp
    have e3: "unat (align_ptr d + align_ptr off + align_ptr ex) = ((?D + ?O) mod 2 ^ 64 + ?E mod 2 ^ 64) mod 2 ^ 64"
      using e2 False by (simp add: unat_word_ariths unat_align_ptr)
    have s2: "(align_ptr d + align_ptr off + align_ptr ex < align_ptr d + align_ptr off \<or>
               align_ptr d + align_ptr off + align_ptr ex < ex) = (2 ^ 64 \<le> ?D + ?O + ?E)"
      unfolding word_less_nat_alt e3 e2 using False
      by (intro sum_wraps) (simp_all add: bd lt [simplified])
    have "align_ptr d + align_ptr off + align_ptr ex = of_nat (?D + ?O + ?E)" if "?D + ?O + ?E < 2 ^ 64"
      by (rule word_unat_eq_iff [THEN iffD2])
        (use that e3 in \<open>simp add: unsigned_of_nat take_bit_eq_mod del: of_nat_add\<close>)
    with s1 s2 False show ?thesis by (auto simp: new_buf_size_def request_size_def Let_def)
  qed
qed

text \<open>
  C5. The overflow checks are exact. A request is refused with \<^verbatim>\<open>-EINVAL\<close> precisely when the
  sum of its three sizes, each rounded up to a multiple of eight, does not fit in 64 bits;
  otherwise the computed size is that sum, although every addition on the way may wrap.
\<close>

theorem new_buf_size_exact:
  "new_buf_size d off ex =
     (let n = round_up 8 (unat d) + round_up 8 (unat off) + round_up 8 (unat ex)
      in if n < 2 ^ 64 then Inr (of_nat n) else Inl EINVAL)"
  by (simp add: new_buf_size_arith request_size_def Let_def)

section \<open>A concrete environment\<close>

fun spine :: "'a list \<Rightarrow> 'a tree" where
  "spine [] = Leaf"
| "spine (x # xs) = Node Leaf x (spine xs)"

lemma inorder_spine [simp]: "inorder (spine xs) = xs"
  by (induction xs) auto

definition sample_env :: kernel_env where
  "sample_env = \<lparr>page_shift = 4, sizeof_binder_buffer = 120, rb_insert_color = id,
     rb_erase = (\<lambda>b t. spine (remove1 b (inorder t))), mmget_not_zero = True,
     alloc_page_ok = (\<lambda>_. True), vm_insert_page_ok = (\<lambda>_. True), kcalloc_pages_ok = True,
     kzalloc_buffer = Some 2, copy_from_user = (\<lambda>p n. (replicate n 1, 0))\<rparr>"

lemma sample_env_ok: "rbtree_ok sample_env"
  by (simp add: rbtree_ok_def sample_env_def)

definition sample_vma :: vm_area where
  "sample_vma = \<lparr>vm_start = 64, vm_end = 1088, vm_mm = 5\<rparr>"

definition sample_alloc :: binder_alloc where
  "sample_alloc = snd (binder_alloc_mmap_handler (sample_env\<lparr>kzalloc_buffer := Some 1\<rparr>) (binder_alloc_init 7) sample_vma)"

lemma sample_alloc_eq:
  "sample_alloc = (binder_alloc_init 7)\<lparr>vma := Some sample_vma, vma_vm_mm := Some 5, ba_buffer := 64,
     buffer_size := 1024, buffers := [1], bufs := (\<lambda>_. zeroed_buffer)(1 := zeroed_buffer\<lparr>user_data := 64, bb_free := True\<rparr>),
     free_buffers := Node Leaf 1 Leaf, free_async_space := 512, pages_allocated := True\<rparr>"
  by (simp add: sample_alloc_def binder_alloc_mmap_handler_def binder_alloc_init_def sample_env_def sample_vma_def
      SZ_4M_def binder_insert_free_buffer_def binder_alloc_set_vma_def)

lemma sample_alloc_wf: "alloc_wf sample_alloc"
  by (simp add: sample_alloc_eq alloc_wf_defs tiles_def binder_alloc_init_def)

section \<open>Allocating and freeing\<close>

text \<open>
  C1. Allocation. Whatever the kernel grants or refuses, no \<^verbatim>\<open>BUG_ON\<close> fires. A refused request
  leaves the buffers, both trees and the asynchronous budget as they were. A granted one
  returns a buffer that was free and was the smallest sufficient one; afterwards the buffer has
  exactly the requested size rounded up (at least eight bytes), records the request, is owned
  by the kernel, every other buffer keeps its record, the budget has paid for it, and the
  invariant holds again.
\<close>

theorem new_buf_locked_correct:
  assumes rb: "rbtree_ok env" and wf: "alloc_wf a"
    and fresh: "\<forall>n. kzalloc_buffer env = Some n \<longrightarrow> n \<notin> set (buffers a)"
  shows "case binder_alloc_new_buf_locked env a d off ex is_async pid of
           (Inl e, a') \<Rightarrow> e \<noteq> KBUG \<and> skeleton a' = skeleton a
         | (Inr b, a') \<Rightarrow>
             let n = max 8 (round_up 8 (unat d) + round_up 8 (unat off) + round_up 8 (unat ex))
             in b \<in> set (buffers a) \<and> bb_free (bufs a b) \<and>
                (\<forall>c \<in> set (buffers a). bb_free (bufs a c) \<and> n \<le> binder_alloc_buffer_size a c \<longrightarrow>
                   binder_alloc_buffer_size a b \<le> binder_alloc_buffer_size a c) \<and>
                alloc_wf a' \<and> b \<in> set (buffers a') \<and> binder_alloc_buffer_size a' b = n \<and>
                bufs a' b = (bufs a b)\<lparr>bb_free := False, allow_user_free := False, data_size := d,
                  offsets_size := off, async_transaction := is_async, extra_buffers_size := ex, bb_pid := pid\<rparr> \<and>
                (\<forall>c \<in> set (buffers a) - {b}. c \<in> set (buffers a') \<and> bufs a' c = bufs a c) \<and>
                free_async_space a' =
                  free_async_space a - (if is_async then of_nat n + sizeof_binder_buffer env else 0)"
proof -
  obtain r a' where res: "binder_alloc_new_buf_locked env a d off ex is_async pid = (r, a')" by fastforce
  consider e where "r = Inl e" "e \<noteq> KBUG" "skeleton a' = skeleton a"
    | b s where "r = Inr b" "new_buf_size d off ex = Inr s" "chosen a (unat (max s 8)) b" "alloc_wf a'"
        "new_buf_post env a (max s 8) d off ex is_async pid b a'"
    using new_buf_locked_spec [OF rb wf fresh res] by blast
  then show ?thesis
  proof cases
    case 1
    then show ?thesis by (simp add: res)
  next
    case 2
    let ?n = "request_size d off ex"
    have lt: "?n < 2 ^ 64" and s: "s = of_nat ?n"
      using 2(2) by (auto simp: new_buf_size_arith split: if_splits)
    then have "unat s = ?n" by (simp add: unsigned_of_nat take_bit_nat_eq_self)
    then have n: "unat (max s 8) = max 8 ?n" by (simp add: max_def word_le_nat_alt)
    then have m: "max s 8 = of_nat (max 8 ?n)" 
      using lt by (intro word_unat_eq_iff [THEN iffD2]) (auto simp: unsigned_of_nat take_bit_nat_eq_self)
    note ch = chosen_free [OF wf 2(3)] chosen_least [OF wf 2(3)]
    have "b \<in> set (buffers a')" using ch(1) 2(5) by (auto simp: new_buf_post_def)
    then show ?thesis
      unfolding res 2(1) prod.case sum.case Let_def request_size_def [symmetric]
      using 2(4,5) ch n m by (auto simp: new_buf_post_def)
  qed
qed

lemmas alloc_eval = PAGE_SIZE_def page_mask_def page_align_def page_aligned_def round_up_def page_addrs_def upt_rec
  page_index_def set_page_def set_buf_def warn_on_def Let_def binder_alloc_init_def zeroed_buffer_def
  binder_alloc_buffer_size_def binder_buffer_next_def binder_buffer_prev_def binder_alloc_get_vma_def
  binder_update_page_range_def commit_new_buf_def split_free_buffer_def binder_insert_free_buffer_def
  take_free_buffer_def binder_insert_allocated_buffer_locked_def finish_new_buf_def

lemma sample_request: "fst (binder_alloc_new_buf_locked sample_env sample_alloc 10 8 0 False 3) = Inr 1"
proof -
  have sz: "new_buf_size 10 8 0 = Inr 24" by (simp add: new_buf_size_arith request_size_def round_up_def)
  show ?thesis
    unfolding binder_alloc_new_buf_locked_def sz by (simp add: sample_alloc_eq sample_env_def alloc_eval)
qed

theorem new_buf_locked_correct_witness:
  "\<exists>a'. binder_alloc_new_buf_locked sample_env sample_alloc 10 8 0 False 3 = (Inr 1, a') \<and> alloc_wf a' \<and>
     binder_alloc_buffer_size a' 1 = 24"
proof -
  have "\<forall>n. kzalloc_buffer sample_env = Some n \<longrightarrow> n \<notin> set (buffers sample_alloc)"
    by (simp add: sample_env_def sample_alloc_eq)
  from new_buf_locked_correct [OF sample_env_ok sample_alloc_wf this, where d = 10 and off = 8 and ex = 0 and is_async = False and pid = 3] sample_request
  show ?thesis by (auto simp: Let_def round_up_def split: prod.splits)
qed

text \<open>
  C2. Release. Freeing an allocated buffer that no transaction uses always succeeds: none of the
  consistency checks fires. The buffer leaves the allocated tree, its record is kept but marked
  free, the budget gets back the recorded size when the transaction was asynchronous, no other
  record changes, and the invariant holds again, so that the freed space has been merged with
  both neighbours.
\<close>

theorem free_buf_locked_correct:
  assumes rb: "rbtree_ok env" and wf: "alloc_wf a"
    and b: "b \<in> set (buffers a)" "\<not> bb_free (bufs a b)" "transaction (bufs a b) = None"
  shows "\<exists>a'. binder_free_buf_locked env a b = Some a' \<and> alloc_wf a' \<and>
     bufs a' = (bufs a)(b := (bufs a b)\<lparr>bb_free := True\<rparr>) \<and>
     inorder (allocated_buffers a') = remove1 b (inorder (allocated_buffers a)) \<and>
     ba_buffer a' = ba_buffer a \<and> buffer_size a' = buffer_size a \<and>
     free_async_space a' = free_async_space a +
       (if async_transaction (bufs a b) then recorded_size (bufs a b) + sizeof_binder_buffer env else 0)"
proof -
  obtain a' where "binder_free_buf_locked env a b = Some a'" "alloc_wf a'" "free_post env a b a'"
    by (rule free_buf_locked_spec [OF rb wf b])
  then show ?thesis by (auto simp: free_post_def)
qed

definition sample_busy :: binder_alloc where
  "sample_busy = snd (binder_alloc_new_buf_locked sample_env sample_alloc 10 8 0 True 3)"

lemma sample_busy_facts:
  "alloc_wf sample_busy" "buffers sample_busy = [1, 2]" "\<not> bb_free (bufs sample_busy 1)"
  "transaction (bufs sample_busy 1) = None" "async_transaction (bufs sample_busy 1)"
  "recorded_size (bufs sample_busy 1) = 24" "ud_of sample_busy 1 = 64"
  "free_async_space sample_busy = 368"
proof -
  have sz: "new_buf_size 10 8 0 = Inr 24" by (simp add: new_buf_size_arith request_size_def round_up_def)
  have al: "align_ptr 10 = 16" "align_ptr 8 = 8" "align_ptr 0 = 0" by (simp_all add: align_ptr_def)
  have eq: "sample_busy = snd (binder_alloc_new_buf_locked sample_env sample_alloc 10 8 0 True 3)"
    "fst (binder_alloc_new_buf_locked sample_env sample_alloc 10 8 0 True 3) = Inr 1"
    unfolding sample_busy_def binder_alloc_new_buf_locked_def sz
    by (simp_all add: sample_alloc_eq sample_env_def alloc_eval)
  then have res: "binder_alloc_new_buf_locked sample_env sample_alloc 10 8 0 True 3 = (Inr 1, sample_busy)"
    by (metis prod.collapse)
  have "\<forall>n. kzalloc_buffer sample_env = Some n \<longrightarrow> n \<notin> set (buffers sample_alloc)"
    by (simp add: sample_env_def sample_alloc_eq)
  from new_buf_locked_spec [OF sample_env_ok sample_alloc_wf this res] show "alloc_wf sample_busy" by auto
  show "buffers sample_busy = [1, 2]" "\<not> bb_free (bufs sample_busy 1)"
    "transaction (bufs sample_busy 1) = None" "async_transaction (bufs sample_busy 1)"
    "recorded_size (bufs sample_busy 1) = 24" "ud_of sample_busy 1 = 64"
    "free_async_space sample_busy = 368"
    unfolding eq(1) binder_alloc_new_buf_locked_def sz
    by (simp_all add: sample_alloc_eq sample_env_def alloc_eval recorded_size_def al)
qed

theorem free_buf_locked_correct_witness:
  "\<exists>a'. binder_free_buf_locked sample_env sample_busy 1 = Some a' \<and> alloc_wf a' \<and> free_async_space a' = 512"
  using free_buf_locked_correct [OF sample_env_ok sample_busy_facts(1), of 1] sample_busy_facts
  by (auto simp: sample_env_def)

theorem prepare_to_free_once_witness:
  "binder_alloc_prepare_to_free_locked sample_busy 64 = (Inl EPERM, sample_busy) \<and>
   binder_alloc_prepare_to_free_locked sample_busy 72 = (Inr None, sample_busy)"
proof -
  have rest: "allow_user_free (bufs sample_busy 1) = False" "bb_free (bufs sample_busy 2)"
    unfolding sample_busy_def binder_alloc_new_buf_locked_def
    by (simp_all add: new_buf_size_arith request_size_def sample_alloc_eq sample_env_def alloc_eval)
  show ?thesis
    using prepare_to_free_once [OF sample_busy_facts(1), of 64] prepare_to_free_once [OF sample_busy_facts(1), of 72]
      sample_busy_facts rest by simp
qed

theorem mmap_handler_establishes_witness:
  "fst (binder_alloc_mmap_handler sample_env (binder_alloc_init 7) sample_vma) = None \<and>
   alloc_wf (snd (binder_alloc_mmap_handler sample_env (binder_alloc_init 7) sample_vma)) \<and>
   fst (binder_alloc_mmap_handler sample_env sample_alloc sample_vma) = Some EBUSY"
proof -
  have "fst (binder_alloc_mmap_handler sample_env (binder_alloc_init 7) sample_vma) = None"
    by (simp add: binder_alloc_mmap_handler_def sample_env_def sample_vma_def alloc_eval)
  moreover have v: "vm_start sample_vma < vm_end sample_vma" by (simp add: sample_vma_def)
  moreover have "buffer_size sample_alloc \<noteq> 0" by (simp add: sample_alloc_eq)
  then have "fst (binder_alloc_mmap_handler sample_env sample_alloc sample_vma) = Some EBUSY"
    using mmap_handler_establishes [OF sample_env_ok v, of sample_alloc] by (auto split: prod.splits option.splits kerr.splits)
  ultimately show ?thesis
    using mmap_handler_establishes [OF sample_env_ok, of sample_vma "binder_alloc_init 7"]
    by (auto simp: binder_alloc_init_def split: prod.splits)
qed

end
