(* ===== verification/Binder_Ref_Props.thy ===== *)
theory Binder_Ref_Props
  imports Binder_Refs Binder_Alloc_Props
begin

text \<open>
  What a process sees of the reference bookkeeping: the handle it gets for a node, what
  acquiring and releasing through a handle do, and when a node can be freed.
\<close>

section \<open>The reference for a node\<close>

lemma inc_node_total:
  assumes "tgt = None \<or> tgt = Some (Thread_todo t)"
  obtains e s' where "binder_inc_node_nilocked n st inl tgt s = Some (e, s')"
proof -
  have deq: "work_on (binder_dequeue_work_ilocked w u) w = None" for w u
    by (auto simp: binder_dequeue_work_ilocked_def split: option.splits)
  have "\<exists>e s'. binder_inc_node_nilocked n st inl tgt s = Some (e, s')"
    using assms deq [of "Node_work n"]
    by (auto simp: binder_inc_node_nilocked_def Let_def binder_enqueue_deferred_thread_work_ilocked_def
        binder_enqueue_work_ilocked_def bug_on_def binder_warn_on_def)
  with that show ?thesis by blast
qed

lemma inc_ref_total:
  assumes "tgt = None \<or> tgt = Some (Thread_todo t)" "ref_node (bref s r) = Some n"
  obtains e s' where "binder_inc_ref_olocked r st tgt s = Some (e, s')"
proof -
  obtain e s' where "binder_inc_node_nilocked n st True tgt s = Some (e, s')"
    by (rule inc_node_total [OF assms(1)])
  then have "\<exists>e s'. binder_inc_ref_olocked r st tgt s = Some (e, s')"
    using assms(2) by (auto simp: binder_inc_ref_olocked_def binder_inc_node_def)
  with that show ?thesis by blast
qed

text \<open>
  C6. Getting a handle for a node. The call never hits the \<^verbatim>\<open>BUG()\<close> on a duplicate handle and
  keeps the bookkeeping consistent. A process that already refers to the node keeps its handle;
  otherwise it gets the smallest handle it does not use, where 0 is kept for the context
  manager. On success the requested count has grown by one; the only error is \<^verbatim>\<open>-EINVAL\<close>. The
  counts are \<^verbatim>\<open>int\<close>s, which the code increments without a check: neither the count of the reference
  nor the one of the node may be at its maximum before the call.
\<close>

theorem inc_ref_for_node_correct:
  assumes rb: "rbtree_ok env" and wf: "refs_wf s" and fresh: "\<forall>k. m \<notin> set (node_refs (bnode s k))"
    and room: "\<forall>r \<in> set_tree (refs_by_desc (bproc s p)). unat (handle s r) + 1 < 2 ^ 32"
    and tgt: "tgt = None \<or> tgt = Some (Thread_todo t)"
    and counts: "internal_strong_refs (bnode s n) < 2 ^ 31 - 1"
      "\<forall>r \<in> set_tree (refs_by_desc (bproc s p)). ref_node (bref s r) = Some n \<longrightarrow> (if st then ref_strong s r else ref_weak s r) < 2 ^ 31 - 1"
  shows "\<exists>res s' r. binder_inc_ref_for_node env p n (Some m) st tgt s = Some (res, s') \<and> refs_wf s' \<and>
     r \<in> set_tree (refs_by_desc (bproc s' p)) \<and> ref_node (bref s' r) = Some n \<and>
     (if \<exists>r0 \<in> set_tree (refs_by_desc (bproc s p)). ref_node (bref s r0) = Some n
      then r \<in> set_tree (refs_by_desc (bproc s p)) \<and> handle s' r = handle s r
      else r = m \<and>
        (let low = (if binder_context_mgr_node s (proc_context (bproc s p)) = Some n then 0 else 1); used = handle s ` set_tree (refs_by_desc (bproc s p))
         in low \<le> handle s' r \<and> handle s' r \<notin> used \<and> (\<forall>e. low \<le> e \<and> e < handle s' r \<longrightarrow> e \<in> used))) \<and>
     (case res of Inl e \<Rightarrow> e = EINVAL
      | Inr d \<Rightarrow> d = ref_data (bref s' r) \<and>
          (let old = (if r \<in> set_tree (refs_by_desc (bproc s p)) then (ref_strong s r, ref_weak s r) else (0, 0))
           in (strong d, weak d) = (fst old + (if st then 1 else 0), snd old + (if st then 0 else 1))))"
proof (cases "\<exists>r0 \<in> set_tree (refs_by_desc (bproc s p)). ref_node (bref s r0) = Some n")
  case True
  then obtain r where r: "r \<in> set_tree (refs_by_desc (bproc s p))" "ref_node (bref s r) = Some n" by blast
  have rn: "r \<in> set (node_refs (bnode s n))" using refs_wfD(6) [OF wf r(1)] r(2) by auto
  have found: "rb_search (ref_node_key s) n (refs_by_node (bproc s p)) = Some r"
    using search_ref_node(1) [OF wf] r by simp
  obtain e s' where s': "binder_inc_ref_olocked r st tgt s = Some (e, s')" by (rule inc_ref_total [OF tgt r(2)])
  have eq: "binder_inc_ref_for_node env p n (Some m) st tgt s =
      Some (case e of None \<Rightarrow> Inr (ref_data (bref s' r)) | Some e \<Rightarrow> Inl e, s')"
    using found s' by (simp add: binder_inc_ref_for_node_def binder_get_ref_for_node_olocked_def)
  have more: "count_room st s r n" using counts r by (auto simp: count_room_def)
  note sp = inc_ref_spec [OF wf rn s' more]
  note small = counts_small [OF wf rn, of 1 st]
  have v: "rview s' = rview (if e = None then counts_plus st 1 r n s else s)" "e = None \<or> e = Some EINVAL"
    using sp(1) by (auto split: option.splits)
  have "r \<in> set_tree (refs_by_desc (bproc s' p))" "ref_node (bref s' r) = Some n" "handle s' r = handle s r"
    "e = None \<Longrightarrow> ref_strong s' r = ref_strong s r + (if st then 1 else 0) \<and> ref_weak s' r = ref_weak s r + (if st then 0 else 1)"
    using r rview_eqD [OF v(1)] small more by (auto simp: counts_plus_def Let_def)
  then show ?thesis
    using True eq sp(2) r v(2) unfolding Let_def
    by (intro exI [of _ "case e of None \<Rightarrow> Inr (ref_data (bref s' r)) | Some e \<Rightarrow> Inl e"] exI [of _ s'] exI [of _ r])
      (auto split: option.splits)
next
  case False
  have none: "rb_search (ref_node_key s) n (refs_by_node (bproc s p)) = None"
    using search_ref_node(2) [OF wf, of n p] False by auto
  obtain s2 u w where s2: "binder_get_ref_for_node_olocked env p n (Some m) s = Some (Some m, s2)"
    "rview s2 = rview (add_ref m p n (Suc (binder_last_id s)) (new_handle s p n) u w s)" "refs_wf s2"
    "set_tree w = insert m (set_tree (refs_by_desc (bproc s p)))"
    by (rule get_ref_for_node_new [OF rb wf fresh room, of n]) (use False in auto)
  note e2 = rview_eqD [OF s2(2)]
  have nm: "m \<notin> set_tree (refs_by_desc (bproc s p))" using refs_wfD(6) [OF wf, of m p] fresh by auto
  have m2: "m \<in> set_tree (refs_by_desc (bproc s2 p))" "ref_node (bref s2 m) = Some n" "handle s2 m = new_handle s p n"
    "ref_strong s2 m = 0" "ref_weak s2 m = 0" "m \<in> set (node_refs (bnode s2 n))"
    using e2 s2(4) by (auto simp: add_ref_def)
  obtain e s' where s': "binder_inc_ref_olocked m st tgt s2 = Some (e, s')" by (rule inc_ref_total [OF tgt m2(2)])
  have eq: "binder_inc_ref_for_node env p n (Some m) st tgt s =
      Some (case e of None \<Rightarrow> Inr (ref_data (bref s' m)) | Some e \<Rightarrow> Inl e, s')"
    using none s' s2(1) by (simp add: binder_inc_ref_for_node_def binder_get_ref_for_node_olocked_def)
  have "internal_strong_refs (bnode s2 n) = internal_strong_refs (bnode s n)" using e2(3) [of n] by (simp add: add_ref_def)
  then have more: "count_room st s2 m n" using counts(1) m2(4,5) by (simp add: count_room_def)
  note sp = inc_ref_spec [OF s2(3) m2(6) s' more]
  have v: "rview s' = rview (if e = None then counts_plus st 1 m n s2 else s2)" "e = None \<or> e = Some EINVAL"
    using sp(1) by (auto split: option.splits)
  moreover have "m \<in> set_tree (refs_by_desc (bproc s' p))" "ref_node (bref s' m) = Some n" "handle s' m = new_handle s p n"
    "e = None \<Longrightarrow> ref_strong s' m = (if st then 1 else 0) \<and> ref_weak s' m = (if st then 0 else 1)"
    using m2 rview_eqD [OF v(1)] by (auto simp: counts_plus_def Let_def is_s32_def)
  ultimately show ?thesis
    using False eq sp(2) nm v(2) new_handle_image [OF wf room, of n] unfolding Let_def
    by (intro exI [of _ "case e of None \<Rightarrow> Inr (ref_data (bref s' m)) | Some e \<Rightarrow> Inl e"] exI [of _ s'] exI [of _ m])
      (auto split: option.splits)
qed

section \<open>What has been freed\<close>

definition fview :: "driver \<Rightarrow> nat list \<times> nat list" where
  "fview s = (freed_nodes s, freed_refs s)"

lemma fview_step [simp]:
  "fview (upd_node n f s) = fview s" "fview (upd_ref r g s) = fview s" "fview (upd_proc p h s) = fview s"
  "fview (binder_warn_on c s) = fview s" "fview (binder_stats_created ty s) = fview s"
  "fview (binder_stats_deleted ty s) = fview s" "fview (binder_dequeue_work_ilocked w s) = fview s"
  "fview (binder_dequeue_work w s) = fview s" "fview (wake_up_interruptible t b s) = fview s"
  "fview (s\<lparr>binder_dead_nodes := xs\<rparr>) = fview s" "fview (upd_ref_data r k s) = fview s"
  "fview (s\<lparr>todo := x, work_on := y\<rparr>) = fview s" "fview (dec_node_count n st inl s) = fview s"
  by (auto simp: fview_def binder_warn_on_def binder_stats_created_def binder_stats_deleted_def upd_ref_data_def
      binder_dequeue_work_ilocked_def binder_dequeue_work_def wake_up_interruptible_def dec_node_count_def
      split: option.splits)

lemma fview_foldl: "(\<And>s t. fview (f s t) = fview s) \<Longrightarrow> fview (foldl f s ts) = fview s"
  by (induction ts arbitrary: s) auto

lemma fview_wakeup [simp]: "fview (binder_wakeup_proc_ilocked p s) = fview s"
proof -
  have "fview (binder_wakeup_poll_threads_ilocked q b u) = fview u" for q b u
    unfolding binder_wakeup_poll_threads_ilocked_def by (rule fview_foldl) simp
  then show ?thesis
    by (auto simp: binder_wakeup_proc_ilocked_def binder_wakeup_thread_ilocked_def binder_select_thread_ilocked_def
        split: option.splits list.splits)
qed

definition node_unused :: "driver \<Rightarrow> nat \<Rightarrow> bool" where
  "node_unused s n \<longleftrightarrow> node_refs (bnode s n) = [] \<and> local_strong_refs (bnode s n) = 0 \<and>
     local_weak_refs (bnode s n) = 0 \<and> tmp_refs (bnode s n) = 0 \<and> work_on s (Node_work n) = None"

lemma bnode_work [simp]:
  "bnode (binder_dequeue_work_ilocked w s) = bnode s" "bnode (binder_dequeue_work w s) = bnode s"
  by (auto simp: binder_dequeue_work_def binder_dequeue_work_ilocked_def split: option.splits)

lemma dec_node_frees:
  assumes "binder_dec_node_nilocked env n st inl s = Some (b, s')"
  shows "fview s' = fview s" "b \<Longrightarrow> node_unused s' n"
proof -
  have rel: "fview v = fview u \<and> (c \<longrightarrow> node_unused v n)" if "dec_node_release env n u = Some (c, v)" for u v c
    using that by (auto simp: dec_node_release_def Let_def bug_on_def Option.bind_eq_Some_conv node_unused_def
        binder_enqueue_work_ilocked_def binder_dequeue_work_ilocked_def split: if_splits option.splits)
  have "(b = False \<and> s' = dec_node_count n st inl s) \<or> dec_node_release env n (dec_node_count n st inl s) = Some (b, s')"
    using assms by (auto simp: binder_dec_node_nilocked_def Let_def split: if_splits)
  with rel show "fview s' = fview s" "b \<Longrightarrow> node_unused s' n" by fastforce+
qed

lemma bref_dec_node: "binder_dec_node_nilocked env n st inl s = Some (b, s') \<Longrightarrow> bref s' = bref s"
  using rview_eqD(1) [OF dec_node_rview(1)] by (auto split: if_splits)

lemma cleanup_frees:
  assumes "binder_cleanup_ref_olocked env r s = Some s'"
  shows "fview s' = fview s" "ref_node (bref s' r) = Some m \<Longrightarrow> node_unused s' m"
proof -
  obtain n where n: "ref_node (bref s r) = Some n"
    using assms by (auto simp: binder_cleanup_ref_olocked_def split: option.splits)
  define s1 where "s1 = upd_proc (ref_proc (bref s r))
       (\<lambda>pr. pr\<lparr>refs_by_desc := rb_erase env r (refs_by_desc pr), refs_by_node := rb_erase env r (refs_by_node pr)\<rparr>) s"
  have b1: "bref s1 = bref s" "fview s1 = fview s" by (simp_all add: s1_def)
  obtain s2 where s2: "(if ref_strong s1 r \<noteq> 0 then map_option snd (binder_dec_node_nilocked env n True True s1) else Some s1) = Some s2"
    using assms n by (auto simp: binder_cleanup_ref_olocked_def Option.bind_eq_Some_conv s1_def split: if_splits)
  have e2: "bref s2 = bref s" "fview s2 = fview s"
    using s2 b1 by (auto split: if_splits dest: bref_dec_node dec_node_frees(1))
  define s3 where "s3 = upd_node n (node_refs_update (remove1 r)) s2"
  obtain b s4 where s4: "binder_dec_node_nilocked env n False True s3 = Some (b, s4)"
    using assms n s2 by (auto simp: binder_cleanup_ref_olocked_def Option.bind_eq_Some_conv s3_def s1_def split: if_splits)
  have e4: "bref s4 = bref s" "fview s4 = fview s" "b \<Longrightarrow> node_unused s4 n"
    using bref_dec_node [OF s4] dec_node_frees [OF s4] e2 by (auto simp: s3_def)
  let ?s5 = "if b then s4 else upd_ref r (ref_node_update (\<lambda>_. None)) s4"
  have s': "s' = binder_stats_deleted BINDER_STAT_REF (case death (bref ?s5 r) of None \<Rightarrow> ?s5
      | Some d \<Rightarrow> binder_stats_deleted BINDER_STAT_DEATH (binder_dequeue_work (Death_work d) ?s5))"
    using assms n s2 s4 unfolding binder_cleanup_ref_olocked_def s1_def s3_def by simp
  have "bnode s' = bnode s4" "bref s' = bref ?s5" "fview s' = fview s4" "work_on s4 (Node_work n) = None \<Longrightarrow> work_on s' (Node_work n) = None"
    unfolding s' by (auto simp: binder_dequeue_work_def binder_dequeue_work_ilocked_def split: option.splits)
  then show "fview s' = fview s" "ref_node (bref s' r) = Some m \<Longrightarrow> node_unused s' m"
    using e4 n by (auto simp: node_unused_def split: if_splits)
qed

lemma dec_ref_frees:
  assumes wf: "refs_wf s" and r: "r \<in> set_tree (refs_by_desc (bproc s p))"
    and res: "binder_dec_ref_olocked env r st s = Some (b, s')"
  shows "fview s' = fview s" "b \<Longrightarrow> ref_node (bref s' r) = Some m \<Longrightarrow> node_unused s' m"
proof -
  obtain n where n: "ref_node (bref s r) = Some n" "r \<in> set (node_refs (bnode s n))" using refs_wfD(6) [OF wf r] by blast
  define s1 where "s1 = upd_ref_data r (if st then strong_update (\<lambda>c. s32 (c - 1)) else weak_update (\<lambda>c. s32 (c - 1))) s"
  have n1: "ref_node (bref s1 r) = Some n" "node_refs (bnode s1 n) \<noteq> []" "fview s1 = fview s"
    using n by (auto simp: s1_def upd_ref_data_def)
  have dec: "fview s2 = fview s" if d: "binder_dec_node env n st True s1 = Some s2" for s2
  proof -
    obtain c u where u: "binder_dec_node_nilocked env n st True s1 = Some (c, u)" "s2 = (if c then binder_free_node n u else u)"
      using d by (auto simp: binder_dec_node_def Option.bind_eq_Some_conv)
    moreover have "\<not> c" using dec_node_rview(2) [OF u(1)] n1(2) by auto
    ultimately show ?thesis using dec_node_frees(1) [OF u(1)] n1(3) by simp
  qed
  have "fview s' = fview s \<and> (b \<longrightarrow> (\<exists>s2. binder_cleanup_ref_olocked env r s2 = Some s'))"
    using res n1 dec cleanup_frees(1)
    by (auto simp: binder_dec_ref_olocked_def Option.bind_eq_Some_conv simp flip: s1_def split: if_splits)
  then show "fview s' = fview s" "b \<Longrightarrow> ref_node (bref s' r) = Some m \<Longrightarrow> node_unused s' m"
    using cleanup_frees(2) by blast+
qed

lemma get_ref_live:
  assumes "refs_wf s" "binder_get_ref_olocked s p d st = Some r"
  shows "r \<in> set_tree (refs_by_desc (bproc s p))" "handle s r = d" "st \<Longrightarrow> ref_strong s r \<noteq> 0"
proof -
  have "rb_search (handle s) d (refs_by_desc (bproc s p)) = Some r \<and> \<not> (st \<and> ref_strong s r = 0)"
    using assms(2) by (auto simp: binder_get_ref_olocked_def split: option.splits if_splits)
  then show "r \<in> set_tree (refs_by_desc (bproc s p))" "handle s r = d" "st \<Longrightarrow> ref_strong s r \<noteq> 0"
    using search_handle [OF assms(1), of d p r] by auto
qed

lemma inc_ref_frees:
  assumes "binder_inc_ref_olocked r st tgt s = Some (e, s')"
  shows "fview s' = fview s"
proof -
  have "fview u' = fview u" if "binder_inc_node_nilocked n st inl tgt u = Some (e', u')" for n inl u u' e'
    using that by (auto simp: binder_inc_node_nilocked_def Let_def binder_enqueue_deferred_thread_work_ilocked_def
        binder_enqueue_work_ilocked_def bug_on_def split: if_splits option.splits worklist.splits)
  with assms show ?thesis
    by (fastforce simp: binder_inc_ref_olocked_def binder_inc_node_def Option.bind_eq_Some_conv
        split: option.splits if_splits)
qed

lemma update_ref_frees:
  assumes wf: "refs_wf s" and res: "binder_update_ref_for_handle env p d incr st s = Some (res, s')"
  shows "freed_nodes s' = freed_nodes s \<or> (\<exists>m. freed_nodes s' = m # freed_nodes s \<and> node_unused s' m)"
proof (cases "binder_get_ref_olocked s p d st")
  case None
  with res show ?thesis by (simp add: binder_update_ref_for_handle_def)
next
  case (Some r)
  note r = get_ref_live [OF wf Some]
  show ?thesis
  proof (cases incr)
    case True
    with Some res inc_ref_frees show ?thesis
      by (fastforce simp: binder_update_ref_for_handle_def Option.bind_eq_Some_conv fview_def)
  next
    case False
    then obtain b s1 where s1: "binder_dec_ref_olocked env r st s = Some (b, s1)" "s' = (if b then binder_free_ref r s1 else s1)"
      using Some res by (auto simp: binder_update_ref_for_handle_def Option.bind_eq_Some_conv)
    with dec_ref_frees [OF wf r(1) s1(1)] show ?thesis
      by (auto simp: binder_free_ref_def binder_free_node_def fview_def node_unused_def Let_def split: option.splits)
  qed
qed

text \<open>
  C8. No node is freed while it is in use. Whichever way a count on a node is dropped, at most
  one node is passed to \<^verbatim>\<open>kfree\<close>, and when one is, no reference is left on its list, no local
  count and no temporary count remains, and its work item is on no work list. In particular, releasing the last count of a handle
  cannot free the node twice.
\<close>

theorem node_freed_only_unused:
  assumes "refs_wf s"
    and "binder_dec_node env n st inl s = Some s' \<or> binder_dec_node_tmpref env n s = Some s' \<or>
         binder_put_node env n s = Some s' \<or> binder_update_ref_for_handle env p d incr st s = Some (res, s')"
  shows "freed_nodes s' = freed_nodes s \<or> (\<exists>m. freed_nodes s' = m # freed_nodes s \<and> node_unused s' m)"
proof -
  have free: "freed_nodes (binder_free_node k u) = k # freed_nodes u" "node_unused (binder_free_node k u) j = node_unused u j" for k j u
    by (simp_all add: binder_free_node_def node_unused_def)
  have dec: "freed_nodes v = freed_nodes u \<or> (\<exists>m. freed_nodes v = m # freed_nodes u \<and> node_unused v m)"
    if "binder_dec_node_nilocked env n a b u = Some (c, w)" "v = (if c then binder_free_node n w else w)" for u v w a b c
    using dec_node_frees [OF that(1)] that(2) free by (auto simp: fview_def)
  show ?thesis
    using assms(2)
  proof (elim disjE)
    assume "binder_dec_node env n st inl s = Some s'"
    then show ?thesis by (auto simp: binder_dec_node_def Option.bind_eq_Some_conv dest: dec)
  next
    assume "binder_dec_node_tmpref env n s = Some s'"
    then show ?thesis
      by (auto simp: binder_dec_node_tmpref_def bug_on_def Option.bind_eq_Some_conv split: if_splits dest: dec)
  next
    assume "binder_put_node env n s = Some s'"
    then show ?thesis
      by (auto simp: binder_put_node_def binder_dec_node_tmpref_def bug_on_def Option.bind_eq_Some_conv split: if_splits dest: dec)
  next
    assume "binder_update_ref_for_handle env p d incr st s = Some (res, s')"
    then show ?thesis by (rule update_ref_frees [OF assms(1)])
  qed
qed

section \<open>Releasing through a handle\<close>

lemma rview_free_ref: "rview (binder_free_ref r s) = rview s"
proof -
  have "rview (t\<lparr>freed_work := ws\<rparr>) = rview t" for t ws by (simp add: rview_def)
  then show ?thesis by (simp add: binder_free_ref_def Let_def split: option.splits)
qed

lemma live_drop:
  assumes "rbtree_ok env" "refs_wf s"
  shows "set_tree (refs_by_desc (bproc (drop_ref env r p n s) p)) = set_tree (refs_by_desc (bproc s p)) - {r}"
  using rbtree_okD(4) [OF assms(1) sorted_wrt_less_distinct [OF refs_wfD(1) [OF assms(2), of p]], of r]
  by (simp add: drop_ref_def)

lemma ref_data_drop: "ref_data (bref (drop_ref env r p n s) x) = ref_data (bref s x)"
  by (simp add: drop_ref_def)

lemma dropped_view:
  assumes "rview s2 = rview u \<or> rview s2 = rview (upd_ref r (ref_node_update f) u)"
  shows "refs_by_desc (bproc s2 p) = refs_by_desc (bproc u p)" "ref_data (bref s2 r) = ref_data (bref u r)"
  using assms by (auto simp: rview_def fun_eq_iff)

text \<open>
  C7. Releasing through a handle. A handle that is not in use, or one without a strong count when
  a strong one is dropped, gives \<^verbatim>\<open>-EINVAL\<close> and changes nothing; dropping a weak count that is
  not there changes nothing either. Otherwise exactly that count goes down by one, and when the
  last count of both kinds is gone the handle leaves the process; every other handle stays.
  The bookkeeping stays consistent and no \<^verbatim>\<open>BUG_ON\<close> fires.
\<close>

theorem dec_ref_for_handle_correct:
  assumes rb: "rbtree_ok env" and wf: "refs_wf s" and q: "\<forall>n. node_quiet s n"
  shows "\<exists>res s'. binder_dec_ref_for_handle env p d st s = Some (res, s') \<and> refs_wf s' \<and>
    (case binder_get_ref_olocked s p d st of
       None \<Rightarrow> res = Inl EINVAL \<and> s' = s
     | Some r \<Rightarrow> r \<in> set_tree (refs_by_desc (bproc s p)) \<and> handle s r = d \<and>
         (if \<not> st \<and> ref_weak s r = 0 then res = Inr (ref_data (bref s r)) \<and> s' = s
          else res = Inr \<lparr>ref_debug_id = ref_debug_id (ref_data (bref s r)), desc = d,
                  strong = ref_strong s r - (if st then 1 else 0), weak = ref_weak s r - (if st then 0 else 1)\<rparr> \<and>
               set_tree (refs_by_desc (bproc s' p)) = set_tree (refs_by_desc (bproc s p)) -
                 (if ref_strong s r + ref_weak s r = 1 then {r} else {})))"
proof (cases "binder_get_ref_olocked s p d st")
  case None
  then show ?thesis using wf by (simp add: binder_dec_ref_for_handle_def binder_update_ref_for_handle_def)
next
  case (Some r)
  note r = get_ref_live [OF wf Some]
  obtain n where n: "ref_node (bref s r) = Some n" "r \<in> set (node_refs (bnode s n))" using refs_wfD(6) [OF wf r(1)] by blast
  note nn = refs_wfD(8) [OF wf n(2)]
  show ?thesis
  proof (cases "\<not> st \<and> ref_weak s r = 0")
    case True
    then have "binder_dec_ref_olocked env r st s = Some (False, s)" by (simp add: binder_dec_ref_olocked_def)
    then show ?thesis using Some True wf r by (simp add: binder_dec_ref_for_handle_def binder_update_ref_for_handle_def)
  next
    case False
    then have pos: "if st then 0 < ref_strong s r else 0 < ref_weak s r" using r(3) nn by auto
    let ?s1 = "counts_plus st (-1) r n s"
    let ?last = "ref_strong ?s1 r = 0 \<and> ref_weak ?s1 r = 0"
    obtain s2 where s2: "refs_wf s2" "binder_dec_ref_olocked env r st s = Some (?last, s2)"
      "\<not> ?last \<Longrightarrow> rview s2 = rview ?s1"
      "?last \<Longrightarrow> (rview s2 = rview (drop_ref env r p n ?s1) \<or>
        rview s2 = rview (upd_ref r (ref_node_update (\<lambda>_. None)) (drop_ref env r p n ?s1)))"
      using dec_ref_spec [OF rb wf r(1) n(1) q [rule_format, of n] pos] by metis
    have wf1: "refs_wf ?s1" using counts_plus_wf [OF wf n(2), of "-1" st] pos by simp
    note small = counts_small [OF wf n(2), of "-1" st]
    have l: "?last \<longleftrightarrow> ref_strong s r + ref_weak s r = 1" using nn pos small by auto
    have live: "set_tree (refs_by_desc (bproc s2 p)) = set_tree (refs_by_desc (bproc s p)) - (if ?last then {r} else {})"
    proof (cases ?last)
      case True
      then show ?thesis using live_drop [OF rb wf1, of r p n] dropped_view(1) [OF s2(4) [OF True]] by simp
    next
      case no: False
      then show ?thesis using rview_eqD(4) [OF s2(3), of p] by auto
    qed
    have data: "ref_data (bref s2 r) = ref_data (bref ?s1 r)"
    proof (cases ?last)
      case True
      show ?thesis using dropped_view(2) [OF s2(4) [OF True]] by (simp add: ref_data_drop)
    next
      case no: False
      then show ?thesis using rview_eqD(1) [OF s2(3)] by simp
    qed
    have d1: "ref_data (bref ?s1 r) = \<lparr>ref_debug_id = ref_debug_id (ref_data (bref s r)), desc = d,
        strong = ref_strong s r - (if st then 1 else 0), weak = ref_weak s r - (if st then 0 else 1)\<rparr>"
      using r(2) small pos by (auto simp: counts_plus_def Let_def set_counts_def upd_ref_data_def bump_internal_def)
    define s' where "s' = (if ?last then binder_free_ref r s2 else s2)"
    have v: "rview s' = rview s2" by (simp add: rview_free_ref s'_def)
    have wf': "refs_wf s'" using refs_wf_rview [OF v] s2(1) by simp
    have live': "set_tree (refs_by_desc (bproc s' p)) = set_tree (refs_by_desc (bproc s p)) -
        (if ref_strong s r + ref_weak s r = 1 then {r} else {})"
      using live rview_eqD(4) [OF v, of p] unfolding l by simp
    have "binder_dec_ref_for_handle env p d st s = Some (Inr (ref_data (bref s2 r)), s')"
      using Some s2(2) by (simp add: binder_dec_ref_for_handle_def binder_update_ref_for_handle_def s'_def)
    then show ?thesis
      unfolding Some option.case if_not_P [OF False] data d1 using r(1,2) live' wf' by blast
  qed
qed

section \<open>A failed first reference\<close>

text \<open>
  C9. When a process gets its first reference to a node and the node refuses the count, the call
  reports \<^verbatim>\<open>-EINVAL\<close> but the new reference stays in both trees and on the node's list with both
  counts zero: the handle is taken, and neither kind of release through it can remove it again.
\<close>

theorem failed_inc_leaves_ref:
  assumes rb: "rbtree_ok env" and wf: "refs_wf s" and fresh: "\<forall>k. m \<notin> set (node_refs (bnode s k))"
    and room: "\<forall>r \<in> set_tree (refs_by_desc (bproc s p)). unat (handle s r) + 1 < 2 ^ 32"
    and none: "\<forall>r \<in> set_tree (refs_by_desc (bproc s p)). ref_node (bref s r) \<noteq> Some n"
    and res: "binder_inc_ref_for_node env p n (Some m) st None s = Some (Inl e, s')"
  shows "m \<in> set_tree (refs_by_desc (bproc s' p)) \<and> m \<in> set (node_refs (bnode s' n)) \<and>
     ref_strong s' m = 0 \<and> ref_weak s' m = 0 \<and>
     binder_dec_ref_for_handle env p (handle s' m) True s' = Some (Inl EINVAL, s') \<and>
     binder_dec_ref_for_handle env p (handle s' m) False s' = Some (Inr (ref_data (bref s' m)), s')"
proof -
  have "rb_search (ref_node_key s) n (refs_by_node (bproc s p)) = None"
    using search_ref_node(2) [OF wf, of n p] none by auto
  obtain s2 u w where s2: "binder_get_ref_for_node_olocked env p n (Some m) s = Some (Some m, s2)"
    "rview s2 = rview (add_ref m p n (Suc (binder_last_id s)) (new_handle s p n) u w s)" "refs_wf s2"
    "set_tree w = insert m (set_tree (refs_by_desc (bproc s p)))"
    by (rule get_ref_for_node_new [OF rb wf fresh room none])
  note e2 = rview_eqD [OF s2(2)]
  have m2: "m \<in> set_tree (refs_by_desc (bproc s2 p))" "ref_node (bref s2 m) = Some n"
    "ref_strong s2 m = 0" "ref_weak s2 m = 0" "m \<in> set (node_refs (bnode s2 n))"
    using e2 s2(4) by (auto simp: add_ref_def)
  obtain c v where v: "binder_inc_ref_olocked m st None s2 = Some (c, v)" using inc_ref_total [of None 0, OF _ m2(2)] by blast
  have "(case c of None \<Rightarrow> Inr (ref_data (bref v m)) | Some e \<Rightarrow> Inl e, v) = (Inl e, s')"
    using res s2(1) v \<open>rb_search _ _ _ = None\<close>
    by (simp add: binder_inc_ref_for_node_def binder_get_ref_for_node_olocked_def)
  then have "c = Some e" "v = s'" by (auto split: option.splits)
  with inc_ref_spec [OF s2(3) m2(5) v] have sv: "rview s' = rview s2" "refs_wf s'" by auto
  note e = rview_eqD [OF sv(1)]
  have m': "m \<in> set_tree (refs_by_desc (bproc s' p))" "ref_strong s' m = 0" "ref_weak s' m = 0" "m \<in> set (node_refs (bnode s' n))"
    using m2 e by auto
  have "rb_search (handle s') (handle s' m) (refs_by_desc (bproc s' p)) = Some m"
    using search_handle [OF sv(2)] m'(1) by simp
  then show ?thesis
    using m' by (simp add: binder_dec_ref_for_handle_def binder_update_ref_for_handle_def
        binder_get_ref_olocked_def binder_dec_ref_olocked_def)
qed

section \<open>A concrete driver state\<close>

definition blank_proc :: binder_proc where
  "blank_proc = \<lparr>proc_threads = Leaf, nodes = Leaf, refs_by_desc = Leaf, refs_by_node = Leaf, waiting_threads = [],
     proc_is_dead = False, proc_tmp_ref = 0, max_threads = 0, requested_threads = 0, requested_threads_started = 0,
     proc_context = 0, proc_pid = 0, proc_tsk = 0, deferred_work = 0, proc_alloc = binder_alloc_init 0\<rparr>"

definition blank_driver :: driver where
  "blank_driver = \<lparr>bnode = (\<lambda>_. zeroed_node),
     bref = (\<lambda>_. \<lparr>ref_data = \<lparr>ref_debug_id = 0, desc = 0, strong = 0, weak = 0\<rparr>, ref_proc = 0, ref_node = None, death = None\<rparr>),
     bproc = (\<lambda>_. blank_proc),
     bthread = (\<lambda>_. \<lparr>thread_proc = 0, thread_pid = 0, looper = 0, looper_need_return = False, transaction_stack = None,
        process_todo = False, return_error_cmd = 0, reply_error_cmd = 0, thread_tmp_ref = 0, thread_is_dead = False\<rparr>),
     btxn = (\<lambda>_. \<lparr>txn_from = None, from_parent = None, to_proc = None, to_thread = None, to_parent = None,
        need_reply = False, txn_buffer = None, txn_flags = 0, txn_code = 0, sender_euid = 0, security_ctx = 0, fd_fixups = []\<rparr>),
     todo = (\<lambda>_. []), work_on = (\<lambda>_. None), work_type = (\<lambda>_. BINDER_WORK_NODE),
     binder_context_mgr_node = (\<lambda>_. None), binder_context_mgr_uid = (\<lambda>_. None), binder_procs = [], binder_deferred_list = [],
     death_cookie = (\<lambda>_. 0), device_ref = (\<lambda>_. 1), binder_dead_nodes = [], binder_last_id = 0,
     obj_created = (\<lambda>_. 0), obj_deleted = (\<lambda>_. 0), freed_nodes = [], freed_refs = [], freed_txns = [],
     freed_threads = [], freed_procs = [], freed_devices = [], freed_work = [], fputs = [], closed_fds = [], woken = [], binder_warns = 0\<rparr>"

text \<open>Process 1 holds handle 1 on node 7 of process 2, with one strong count.\<close>

definition sample_driver :: driver where
  "sample_driver = blank_driver
     \<lparr>bnode := (\<lambda>_. zeroed_node)(7 := zeroed_node\<lparr>node_proc := Some 2, node_refs := [10], internal_strong_refs := 1\<rparr>),
      bref := (bref blank_driver)(10 := \<lparr>ref_data = \<lparr>ref_debug_id = 5, desc = 1, strong = 1, weak = 0\<rparr>,
        ref_proc = 1, ref_node = Some 7, death = None\<rparr>),
      bproc := (\<lambda>_. blank_proc)(1 := blank_proc\<lparr>refs_by_desc := Node Leaf 10 Leaf, refs_by_node := Node Leaf 10 Leaf\<rparr>,
        2 := blank_proc\<lparr>nodes := Node Leaf 7 Leaf\<rparr>)\<rparr>"

lemmas sample_driver_defs = sample_driver_def blank_driver_def blank_proc_def zeroed_node_def

lemma sample_driver_wf: "refs_wf sample_driver" "\<forall>n. node_quiet sample_driver n"
proof -
  have "{r. r = (10 :: nat) \<and> 0 < ref_strong sample_driver r} = {10}" by (auto simp: sample_driver_defs)
  then have "node_refs_wf sample_driver n" for n
    by (auto simp: node_refs_wf_def sample_driver_defs)
  moreover have "proc_refs_wf sample_driver p" for p
    by (auto simp: proc_refs_wf_def sample_driver_defs)
  ultimately show "refs_wf sample_driver" by (simp add: refs_wf_def)
  show "\<forall>n. node_quiet sample_driver n" by (simp add: node_quiet_def sample_driver_defs)
qed

theorem inc_ref_for_node_correct_witness:
  "\<exists>d s'. binder_inc_ref_for_node sample_env 1 9 (Some 11) True (Some (Thread_todo 3)) sample_driver = Some (Inr d, s') \<and>
     refs_wf s' \<and> desc d = 2 \<and> strong d = 1 \<and> weak d = 0"
proof -
  have pre: "\<forall>k. 11 \<notin> set (node_refs (bnode sample_driver k))"
    "\<forall>r \<in> set_tree (refs_by_desc (bproc sample_driver 1)). unat (handle sample_driver r) + 1 < 2 ^ 32"
    by (auto simp: sample_driver_defs)
  have counts: "internal_strong_refs (bnode sample_driver 9) < 2 ^ 31 - 1"
    "\<forall>r \<in> set_tree (refs_by_desc (bproc sample_driver 1)). ref_node (bref sample_driver r) = Some 9 \<longrightarrow>
       (if True then ref_strong sample_driver r else ref_weak sample_driver r) < 2 ^ 31 - 1"
    by (simp_all add: sample_driver_defs)
  have val: "map_option (map_sum id desc \<circ> fst)
      (binder_inc_ref_for_node sample_env 1 9 (Some 11) True (Some (Thread_todo 3)) sample_driver) = Some (Inr 2)"
    by code_simp
  have live: "set_tree (refs_by_desc (bproc sample_driver 1)) = {10}" "ref_node (bref sample_driver 10) = Some 7"
    by (simp_all add: sample_driver_defs)
  obtain res s' where "binder_inc_ref_for_node sample_env 1 9 (Some 11) True (Some (Thread_todo 3)) sample_driver = Some (res, s')"
    "map_sum id desc res = Inr 2" using val by auto
  then obtain d where d: "binder_inc_ref_for_node sample_env 1 9 (Some 11) True (Some (Thread_todo 3)) sample_driver = Some (Inr d, s')"
    "desc d = 2" by (cases res) auto
  from inc_ref_for_node_correct [OF sample_env_ok sample_driver_wf(1) pre _ counts, of "Some (Thread_todo 3)" 3, unfolded live(1) d(1)]
  show ?thesis using d live(2) by (auto simp: Let_def)
qed

theorem dec_ref_for_handle_correct_witness:
  "\<exists>s'. binder_dec_ref_for_handle sample_env 1 1 True sample_driver =
       Some (Inr \<lparr>ref_debug_id = 5, desc = 1, strong = 0, weak = 0\<rparr>, s') \<and> refs_wf s' \<and>
     set_tree (refs_by_desc (bproc s' 1)) = {}"
proof -
  have "binder_get_ref_olocked sample_driver 1 1 True = Some 10" "set_tree (refs_by_desc (bproc sample_driver 1)) = {10}"
    "ref_data (bref sample_driver 10) = \<lparr>ref_debug_id = 5, desc = 1, strong = 1, weak = 0\<rparr>"
    by (simp_all add: binder_get_ref_olocked_def sample_driver_defs)
  with dec_ref_for_handle_correct [OF sample_env_ok sample_driver_wf, of 1 1 True] show ?thesis by auto
qed

theorem node_freed_only_unused_witness:
  "\<exists>res s'. binder_update_ref_for_handle sample_env 1 1 False True sample_driver = Some (res, s') \<and>
     freed_nodes s' = [7] \<and> node_unused s' 7"
proof -
  have "map_option (freed_nodes \<circ> snd) (binder_update_ref_for_handle sample_env 1 1 False True sample_driver) = Some [7]"
    by code_simp
  then obtain res s' where r: "binder_update_ref_for_handle sample_env 1 1 False True sample_driver = Some (res, s')"
    "freed_nodes s' = [7]" by auto
  moreover have "freed_nodes sample_driver = []" by (simp add: sample_driver_defs)
  ultimately show ?thesis
    using node_freed_only_unused [OF sample_driver_wf(1), of sample_env 0 True True s' 1 1 False res] by auto
qed

theorem failed_inc_leaves_ref_witness:
  "\<exists>s'. binder_inc_ref_for_node sample_env 1 9 (Some 11) True None sample_driver = Some (Inl EINVAL, s') \<and>
     11 \<in> set_tree (refs_by_desc (bproc s' 1)) \<and> ref_strong s' 11 = 0 \<and> ref_weak s' 11 = 0"
proof -
  have pre: "\<forall>k. 11 \<notin> set (node_refs (bnode sample_driver k))"
    "\<forall>r \<in> set_tree (refs_by_desc (bproc sample_driver 1)). unat (handle sample_driver r) + 1 < 2 ^ 32"
    "\<forall>r \<in> set_tree (refs_by_desc (bproc sample_driver 1)). ref_node (bref sample_driver r) \<noteq> Some 9"
    by (auto simp: sample_driver_defs)
  have "map_option (map_sum id desc \<circ> fst)
      (binder_inc_ref_for_node sample_env 1 9 (Some 11) True None sample_driver) = Some (Inl EINVAL)"
    by code_simp
  then obtain res s' where "binder_inc_ref_for_node sample_env 1 9 (Some 11) True None sample_driver = Some (res, s')"
    "map_sum id desc res = Inl EINVAL" by auto
  then have r: "binder_inc_ref_for_node sample_env 1 9 (Some 11) True None sample_driver = Some (Inl EINVAL, s')"
    by (cases res) auto
  from failed_inc_leaves_ref [OF sample_env_ok sample_driver_wf(1) pre r] r show ?thesis by blast
qed

end
