(* ===== verification/Binder_Txn_Props.thy ===== *)
theory Binder_Txn_Props
  imports Binder_Txn Binder_Ref_Props Contracts
begin

text \<open>
  Work lists are queues, a transaction is delivered to exactly one place, and the error reply
  for a transaction that cannot be delivered reaches the first sender that is still alive.
\<close>

section \<open>Work lists\<close>

text \<open>A work item is on the list it says it is on, and on no other.\<close>

definition work_wf :: "driver \<Rightarrow> bool" where
  "work_wf s \<longleftrightarrow> (\<forall>l. distinct (todo s l)) \<and> (\<forall>w l. work_on s w = Some l \<longleftrightarrow> w \<in> set (todo s l))"

lemma work_wfD: "work_wf s \<Longrightarrow> w \<in> set (todo s l) \<longleftrightarrow> work_on s w = Some l" "work_wf s \<Longrightarrow> distinct (todo s l)"
  by (auto simp: work_wf_def)

lemma work_wfI: "(\<And>l. distinct (todo s l)) \<Longrightarrow> (\<And>w l. w \<in> set (todo s l) \<longleftrightarrow> work_on s w = Some l) \<Longrightarrow> work_wf s"
  by (auto simp: work_wf_def)

lemma enqueue_work_eq:
  "work_on s w = None \<Longrightarrow> binder_enqueue_work_ilocked w l s =
     Some (s\<lparr>todo := (todo s)(l := todo s l @ [w]), work_on := (work_on s)(w := Some l)\<rparr>)"
  by (simp add: binder_enqueue_work_ilocked_def bug_on_def)

lemma enqueue_work_wf:
  assumes "work_wf s" "work_on s w = None" "binder_enqueue_work_ilocked w l s = Some s'"
  shows "work_wf s'" "todo s' = (todo s)(l := todo s l @ [w])" "work_on s' = (work_on s)(w := Some l)"
proof -
  show eqs: "todo s' = (todo s)(l := todo s l @ [w])" "work_on s' = (work_on s)(w := Some l)"
    using assms enqueue_work_eq [of s w l] by auto
  show "work_wf s'"
    by (rule work_wfI) (use assms(1,2) in \<open>auto simp: eqs work_wfD\<close>)
qed

lemma dequeue_work_wf:
  assumes "work_wf s"
  shows "work_wf (binder_dequeue_work_ilocked w s)" "work_on (binder_dequeue_work_ilocked w s) w = None"
    "todo (binder_dequeue_work_ilocked w s) l = remove1 w (todo s l)"
proof -
  have off: "w \<notin> set (todo s k)" if "work_on s w \<noteq> Some k" for k using assms that by (simp add: work_wfD)
  show "work_on (binder_dequeue_work_ilocked w s) w = None"
    by (auto simp: binder_dequeue_work_ilocked_def split: option.splits)
  show "todo (binder_dequeue_work_ilocked w s) l = remove1 w (todo s l)"
    using off [of l] by (auto simp: binder_dequeue_work_ilocked_def remove1_idem split: option.splits)
  show "work_wf (binder_dequeue_work_ilocked w s)"
    by (rule work_wfI) (use assms in \<open>auto simp: work_wfD binder_dequeue_work_ilocked_def split: option.splits\<close>)
qed

definition take_work :: "worklist \<Rightarrow> driver \<Rightarrow> (work_id \<times> driver) option" where
  "take_work l s = (case binder_dequeue_work_head_ilocked l s of (None, _) \<Rightarrow> None | (Some w, s') \<Rightarrow> Some (w, s'))"

interpretation wl: fifo_items work_wf "\<lambda>s. todo s l" "\<lambda>w s. work_on s w = None"
  "\<lambda>w s. binder_enqueue_work_ilocked w l s" "take_work l" for l
proof
  fix s x y s' xs
  show "work_on s x = None \<Longrightarrow> binder_enqueue_work_ilocked x l s \<noteq> None" by (simp add: enqueue_work_eq)
  show "work_wf s \<Longrightarrow> work_on s x = None \<Longrightarrow> binder_enqueue_work_ilocked x l s = Some s' \<Longrightarrow>
      work_wf s' \<and> todo s' l = todo s l @ [x]"
    using enqueue_work_wf [of s x l s'] by simp
  show "todo s l = [] \<Longrightarrow> take_work l s = None"
    by (simp add: take_work_def binder_dequeue_work_head_ilocked_def)
  show "\<exists>s'. take_work l s = Some (x, s') \<and> work_wf s' \<and> todo s' l = xs" if "work_wf s" "todo s l = x # xs"
    using dequeue_work_wf [OF that(1), of x] that(2)
    by (simp add: take_work_def binder_dequeue_work_head_ilocked_def)
  show "work_wf s \<Longrightarrow> work_on s x = None \<Longrightarrow> work_on s y = None \<Longrightarrow> x \<noteq> y \<Longrightarrow>
      binder_enqueue_work_ilocked x l s = Some s' \<Longrightarrow> work_on s' y = None"
    using enqueue_work_wf [of s x l s'] by simp
qed

text \<open>
  C10. Work lists are first-in first-out and an item is never on two of them: queueing distinct
  idle items and then dequeueing everything returns the old items followed by the new ones in
  order, without hitting the assertion that an item is already queued, and leaves the list
  empty and the links consistent.
\<close>

theorem worklist_fifo:
  assumes "work_wf s" "distinct ws" "\<forall>w \<in> set ws. work_on s w = None"
  shows "\<exists>s' s''. fill (\<lambda>w s. binder_enqueue_work_ilocked w l s) ws s = Some s' \<and>
     drain (\<lambda>s. case binder_dequeue_work_head_ilocked l s of (None, _) \<Rightarrow> None | (Some w, s') \<Rightarrow> Some (w, s'))
       (length (todo s l @ ws)) s' = Some (todo s l @ ws, s'') \<and>
     work_wf s'' \<and> todo s'' l = []"
  using wl.fill_drain [OF assms, of l] unfolding take_work_def by blast

theorem worklist_fifo_witness:
  "\<exists>s' s''. fill (\<lambda>w s. binder_enqueue_work_ilocked w (Proc_todo 1) s) [Node_work 3, Txn_work 4] blank_driver = Some s' \<and>
     drain (\<lambda>s. case binder_dequeue_work_head_ilocked (Proc_todo 1) s of (None, _) \<Rightarrow> None | (Some w, s') \<Rightarrow> Some (w, s'))
       2 s' = Some ([Node_work 3, Txn_work 4], s'') \<and> work_wf s''"
proof -
  have pre: "work_wf blank_driver" "distinct [Node_work 3, Txn_work 4]"
    "\<forall>w \<in> set [Node_work 3, Txn_work 4]. work_on blank_driver w = None"
    by (simp_all add: work_wf_def blank_driver_def)
  have all: "todo blank_driver (Proc_todo 1) @ [Node_work 3, Txn_work 4] = [Node_work 3, Txn_work 4]"
    "length [Node_work 3, Txn_work 4] = 2" by (simp_all add: blank_driver_def)
  from worklist_fifo [OF pre, of "Proc_todo 1", unfolded all] show ?thesis by blast
qed

section \<open>Delivery\<close>

text \<open>Waking threads only adds to the record of wake-ups.\<close>

lemma wakeup_thread_sel [simp]:
  "todo (binder_wakeup_thread_ilocked p th sy s) = todo s" "work_on (binder_wakeup_thread_ilocked p th sy s) = work_on s"
  "bnode (binder_wakeup_thread_ilocked p th sy s) = bnode s" "bthread (binder_wakeup_thread_ilocked p th sy s) = bthread s"
proof -
  let ?f = "\<lambda>s t. if looper (bthread s t) AND BINDER_LOOPER_STATE_POLL \<noteq> 0 \<and> binder_available_for_proc_work_ilocked s t
                  then wake_up_interruptible t sy s else s"
  have "todo (foldl ?f u ts) = todo u \<and> work_on (foldl ?f u ts) = work_on u \<and> bnode (foldl ?f u ts) = bnode u
      \<and> bthread (foldl ?f u ts) = bthread u" for u ts
    by (induction ts arbitrary: u) (auto simp: wake_up_interruptible_def)
  then show "todo (binder_wakeup_thread_ilocked p th sy s) = todo s" "work_on (binder_wakeup_thread_ilocked p th sy s) = work_on s"
    "bnode (binder_wakeup_thread_ilocked p th sy s) = bnode s" "bthread (binder_wakeup_thread_ilocked p th sy s) = bthread s"
    by (auto simp: binder_wakeup_thread_ilocked_def binder_wakeup_poll_threads_ilocked_def wake_up_interruptible_def
        split: option.splits)
qed

lemma warn_on_sel [simp]:
  "todo (binder_warn_on c s) = todo s" "work_on (binder_warn_on c s) = work_on s" "bnode (binder_warn_on c s) = bnode s"
  "bthread (binder_warn_on c s) = bthread s" "bproc (binder_warn_on c s) = bproc s" "woken (binder_warn_on c s) = woken s"
  "btxn (binder_warn_on c s) = btxn s" "freed_txns (binder_warn_on c s) = freed_txns s" "fputs (binder_warn_on c s) = fputs s"
  by (simp_all add: binder_warn_on_def)

lemma upd_thread_sel [simp]:
  "todo (upd_thread t f s) = todo s" "work_on (upd_thread t f s) = work_on s" "bnode (upd_thread t f s) = bnode s"
  "bproc (upd_thread t f s) = bproc s" "btxn (upd_thread t f s) = btxn s" "woken (upd_thread t f s) = woken s"
  "bthread (upd_thread t f s) = (bthread s)(t := f (bthread s t))" "freed_txns (upd_thread t f s) = freed_txns s"
  by (simp_all add: upd_thread_def)

definition txn_destination :: "driver \<Rightarrow> nat \<Rightarrow> nat \<Rightarrow> nat \<Rightarrow> nat option \<Rightarrow> worklist" where
  "txn_destination s t n p th =
     (if one_way (btxn s t) \<and> has_async_transaction (bnode s n) then Async_todo n
      else case th of
             Some x \<Rightarrow> Thread_todo x
           | None \<Rightarrow> (case waiting_threads (bproc s p) of x # _ \<Rightarrow> Thread_todo x | [] \<Rightarrow> Proc_todo p))"

lemma upd_node_same: "has_async_transaction (bnode s n) \<Longrightarrow> upd_node n (has_async_transaction_update (\<lambda>_. True)) s = s"
proof -
  assume "has_async_transaction (bnode s n)"
  then have "has_async_transaction_update (\<lambda>_. True) (bnode s n) = bnode s n" by (cases "bnode s n") simp
  then show ?thesis by (simp add: upd_node_def)
qed

text \<open>
  C11. Delivering a transaction to a live process puts it at the end of exactly one work list and
  changes no other: the queue of the node when an asynchronous transaction to that node is
  already under way (then nobody is woken), else the given thread, else the first waiting
  thread, else the process. A thread that gets work is told to look at its list, and after an
  asynchronous transaction the node is marked busy. A dead target gets nothing, and nothing else
  changes, except that the node of an asynchronous transaction is marked busy there, too: the code
  sets the mark before it looks whether the target is dead.
\<close>

theorem proc_transaction_delivers:
  assumes wf: "work_wf s" "work_on s (Txn_work t) = None"
    and buf: "txn_buffer_of s t = Some buf" "target_node buf = Some n"
    and th: "one_way (btxn s t) \<longrightarrow> th = None"
  shows "\<exists>alive s'. binder_proc_transaction t p th s = Some (alive, s') \<and> work_wf s' \<and>
     (alive \<longleftrightarrow> \<not> (proc_is_dead (bproc s p) \<or> (\<exists>x. th = Some x \<and> thread_is_dead (bthread s x)))) \<and>
     (let dest = txn_destination s t n p th
      in todo s' = (if alive then (todo s)(dest := todo s dest @ [Txn_work t]) else todo s) \<and>
         (\<not> alive \<longrightarrow> s' = (if one_way (btxn s t) then upd_node n (has_async_transaction_update (\<lambda>_. True)) s else s)) \<and>
         (alive \<longrightarrow> (\<forall>x. dest = Thread_todo x \<longrightarrow> process_todo (bthread s' x))) \<and>
         (dest = Async_todo n \<longrightarrow> woken s' = woken s) \<and>
         (one_way (btxn s t) \<longrightarrow> has_async_transaction (bnode s' n)))"
proof -
  let ?pending = "one_way (btxn s t) \<and> has_async_transaction (bnode s n)"
  define s2 where "s2 = (if one_way (btxn s t) \<and> \<not> ?pending then upd_node n (has_async_transaction_update (\<lambda>_. True)) s else s)"
  define dest where "dest = txn_destination s t n p th"
  have sel2: "todo s2 = todo s" "work_on s2 = work_on s" "bproc s2 = bproc s" "bthread s2 = bthread s" "woken s2 = woken s"
    "one_way (btxn s t) \<Longrightarrow> has_async_transaction (bnode s2 n)"
    by (auto simp: s2_def upd_node_def)
  have eq: "binder_proc_transaction t p th s = queue_transaction t p th n (one_way (btxn s t)) ?pending s2"
    using buf th by (auto simp: binder_proc_transaction_def bug_on_def s2_def Let_def)
  have dead: "(proc_is_dead (bproc s2 p) \<or> (case th of None \<Rightarrow> False | Some x \<Rightarrow> thread_is_dead (bthread s2 x))) =
      (proc_is_dead (bproc s p) \<or> (\<exists>x. th = Some x \<and> thread_is_dead (bthread s x)))"
    using sel2 by (auto split: option.splits)
  show ?thesis
  proof (cases "proc_is_dead (bproc s p) \<or> (\<exists>x. th = Some x \<and> thread_is_dead (bthread s x))")
    case True
    then have "binder_proc_transaction t p th s = Some (False, s2)"
      unfolding eq queue_transaction_def dead by simp
    moreover have "work_wf s2" using wf sel2 by (simp add: work_wf_def)
    moreover have "s2 = (if one_way (btxn s t) then upd_node n (has_async_transaction_update (\<lambda>_. True)) s else s)"
      by (auto simp: s2_def upd_node_same)
    ultimately show ?thesis
      using True sel2 by (intro exI [of _ False] exI [of _ s2]) (simp add: Let_def)
  next
    case False
    define s3 where "s3 = (if th = None \<and> \<not> ?pending then snd (binder_select_thread_ilocked p s2) else s2)"
    define th' where "th' = (if th = None \<and> \<not> ?pending then fst (binder_select_thread_ilocked p s2) else th)"
    have dest': "dest = (case th' of Some x \<Rightarrow> Thread_todo x | None \<Rightarrow> if ?pending then Async_todo n else Proc_todo p)"
      using th sel2 by (auto simp: dest_def txn_destination_def th'_def binder_select_thread_ilocked_def
          split: option.splits list.splits)
    have sel3: "todo s3 = todo s" "work_on s3 = work_on s" "woken s3 = woken s" "bnode s3 = bnode s2" "bthread s3 = bthread s"
      using sel2 by (auto simp: s3_def binder_select_thread_ilocked_def upd_proc_def split: list.splits)
    let ?w = "Txn_work t"
    let ?enq = "case th' of Some x \<Rightarrow> binder_enqueue_thread_work_ilocked x ?w s3
       | None \<Rightarrow> binder_enqueue_work_ilocked ?w (if ?pending then Async_todo n else Proc_todo p) s3"
    obtain s4 where s4: "?enq = Some s4" "todo s4 = (todo s)(dest := todo s dest @ [?w])" "work_on s4 = (work_on s)(?w := Some dest)"
      "woken s4 = woken s" "bnode s4 = bnode s2" "\<forall>x. dest = Thread_todo x \<longrightarrow> process_todo (bthread s4 x)"
      using sel3 wf(2) by (cases th') (auto simp: binder_enqueue_thread_work_ilocked_def enqueue_work_eq dest' split: if_splits)
    define s5 where "s5 = (if ?pending then s4 else binder_wakeup_thread_ilocked p th' (\<not> one_way (btxn s t)) s4)"
    have sl: "(if th = None \<and> \<not> ?pending then binder_select_thread_ilocked p s2 else (th, s2)) = (th', s3)"
      by (simp add: s3_def th'_def)
    have "binder_proc_transaction t p th s = Some (True, s5)"
      unfolding eq queue_transaction_def dead if_not_P [OF False] sl Let_def prod.case s4(1) s5_def by simp
    moreover have "todo s5 = (todo s)(dest := todo s dest @ [?w])" "work_on s5 = (work_on s)(?w := Some dest)"
      "bnode s5 = bnode s2" "\<forall>x. dest = Thread_todo x \<longrightarrow> process_todo (bthread s5 x)" using s4 by (simp_all add: s5_def)
    moreover from this(1,2) have "work_wf s5"
      using wf by (intro work_wfI) (auto simp: work_wfD)
    moreover have "dest = Async_todo n \<Longrightarrow> woken s5 = woken s"
      using s4(4) dest' by (auto simp: s5_def split: option.splits if_splits)
    ultimately show ?thesis
      using False sel2(6) unfolding Let_def dest_def [symmetric] by (intro exI [of _ True] exI [of _ s5]) simp
  qed
qed

section \<open>The failed reply\<close>

lemma free_transaction_sel [simp]:
  "todo (binder_free_transaction t s) = todo s" "work_on (binder_free_transaction t s) = work_on s"
  "bthread (binder_free_transaction t s) = bthread s" "txn_from (btxn (binder_free_transaction t s) x) = txn_from (btxn s x)"
  "from_parent (btxn (binder_free_transaction t s) x) = from_parent (btxn s x)"
  "freed_txns (binder_free_transaction t s) = t # freed_txns s"
  by (auto simp: binder_free_transaction_def Let_def binder_free_txn_fixups_def binder_stats_deleted_def upd_txn_def
      clear_buffer_transaction_def upd_proc_def split: option.splits)

text \<open>The transactions from the undeliverable one up to the first whose sender is alive, or to the root.\<close>

fun reply_chain :: "driver \<Rightarrow> nat list \<Rightarrow> bool" where
  "reply_chain s [] = False"
| "reply_chain s [t] =
     (case txn_from (btxn s t) of
        None \<Rightarrow> from_parent (btxn s t) = None
      | Some th \<Rightarrow> transaction_stack (bthread s th) = Some t \<and> \<not> thread_is_dead (bthread s th)
          \<and> work_on s (Reply_error_work th) = None)"
| "reply_chain s (t # u # ts) =
     (txn_from (btxn s t) = None \<and> from_parent (btxn s t) = Some u \<and> reply_chain s (u # ts))"

lemma reply_chain_free: "reply_chain (binder_free_transaction t s) ts = reply_chain s ts"
  by (induction s ts rule: reply_chain.induct) (auto split: option.splits)

definition reply_delivered :: "driver \<Rightarrow> nat \<Rightarrow> u32 \<Rightarrow> driver \<Rightarrow> bool" where
  "reply_delivered s t e s' \<longleftrightarrow>
     (case txn_from (btxn s t) of
        None \<Rightarrow> todo s' = todo s
      | Some th \<Rightarrow>
          transaction_stack (bthread s' th) = from_parent (btxn s t) \<and>
          thread_tmp_ref (bthread s' th) = thread_tmp_ref (bthread s th) \<and>
          (if reply_error_cmd (bthread s th) = BR_OK
           then reply_error_cmd (bthread s' th) = e \<and> process_todo (bthread s' th) \<and>
                todo s' = (todo s)(Thread_todo th := todo s (Thread_todo th) @ [Reply_error_work th])
           else todo s' = todo s))"

lemma send_failed_reply_last:
  assumes "reply_chain s [t]"
  shows "\<exists>s'. send_failed_reply_loop (Suc fuel) env t e s = Some s' \<and> freed_txns s' = t # freed_txns s \<and> reply_delivered s t e s'"
proof (cases "txn_from (btxn s t)")
  case None
  with assms show ?thesis
    by (simp add: binder_get_txn_from_and_acq_inner_def binder_get_txn_from_def reply_delivered_def)
next
  case (Some th)
  with assms have th: "transaction_stack (bthread s th) = Some t" "\<not> thread_is_dead (bthread s th)"
    "work_on s (Reply_error_work th) = None" by auto
  show ?thesis
    using Some th
    by (auto simp: binder_get_txn_from_and_acq_inner_def binder_get_txn_from_def binder_pop_transaction_ilocked_def
        bug_on_def upd_txn_def binder_thread_dec_tmpref_def binder_enqueue_thread_work_ilocked_def enqueue_work_eq
        wake_up_interruptible_def reply_delivered_def Let_def)
qed

lemma send_failed_reply_chain:
  assumes "reply_chain s ts" "length ts \<le> fuel"
  shows "\<exists>s'. send_failed_reply_loop fuel env (hd ts) e s = Some s' \<and> freed_txns s' = rev ts @ freed_txns s \<and>
     reply_delivered s (last ts) e s'"
  using assms
proof (induction ts arbitrary: s fuel rule: induct_list012)
  case (2 t)
  then obtain k where "fuel = Suc k" by (cases fuel) auto
  with send_failed_reply_last [of s t k env e] 2 show ?case by auto
next
  case (3 t u ts)
  then obtain k where k: "fuel = Suc k" "length (u # ts) \<le> k" by (cases fuel) auto
  let ?s = "binder_free_transaction t s"
  have "reply_chain ?s (u # ts)" using 3(3) by (simp add: reply_chain_free)
  from 3(2) [OF this k(2)] obtain s' where s': "send_failed_reply_loop k env u e ?s = Some s'"
    "freed_txns s' = rev (u # ts) @ freed_txns ?s" "reply_delivered ?s (last (u # ts)) e s'" by auto
  have "send_failed_reply_loop fuel env t e s = Some s'"
    using 3(3) s'(1) k by (simp add: binder_get_txn_from_and_acq_inner_def binder_get_txn_from_def Let_def)
  moreover have "reply_delivered s (last (u # ts)) e s'" using s'(3) unfolding reply_delivered_def free_transaction_sel .
  ultimately show ?case using s'(2) by auto
qed simp

text \<open>
  C12. The error reply for a synchronous transaction that cannot be delivered terminates and
  reaches the right place: with as many rounds as there are transactions on the way, every
  transaction up to the first one with a live sender is freed once, that sender's stack is
  popped back to its previous transaction, and the error is queued to it unless it already
  holds one; without a live sender the chain is just freed. No \<^verbatim>\<open>BUG_ON\<close> fires and the
  temporary count taken on the sender is given back.
\<close>

theorem send_failed_reply_terminates:
  assumes "reply_chain s ts" "length ts \<le> fuel" "\<not> one_way (btxn s (hd ts))"
  shows "\<exists>s'. binder_send_failed_reply fuel env (hd ts) e s = Some s' \<and> freed_txns s' = rev ts @ freed_txns s \<and>
     (case txn_from (btxn s (last ts)) of
        None \<Rightarrow> todo s' = todo s
      | Some th \<Rightarrow>
          transaction_stack (bthread s' th) = from_parent (btxn s (last ts)) \<and>
          thread_tmp_ref (bthread s' th) = thread_tmp_ref (bthread s th) \<and>
          (if reply_error_cmd (bthread s th) = BR_OK
           then reply_error_cmd (bthread s' th) = e \<and> process_todo (bthread s' th) \<and>
                todo s' = (todo s)(Thread_todo th := todo s (Thread_todo th) @ [Reply_error_work th])
           else todo s' = todo s))"
  using send_failed_reply_chain [OF assms(1,2), of env e] assms(3)
  unfolding reply_delivered_def by (simp add: binder_send_failed_reply_def bug_on_def)

section \<open>Concrete runs\<close>

text \<open>A one-way transaction 4 with buffer 1 for node 7 of process 2, where thread 3 is waiting.\<close>

definition sample_txn_driver :: driver where
  "sample_txn_driver = sample_driver
     \<lparr>btxn := (btxn blank_driver)(4 := \<lparr>txn_from = None, from_parent = None, to_proc = Some 2, to_thread = None,
         to_parent = None, need_reply = False, txn_buffer = Some 1, txn_flags = TF_ONE_WAY, txn_code = 0, sender_euid = 0, security_ctx = 0, fd_fixups = []\<rparr>,
       5 := \<lparr>txn_from = None, from_parent = Some 6, to_proc = None, to_thread = None,
         to_parent = None, need_reply = True, txn_buffer = None, txn_flags = 0, txn_code = 0, sender_euid = 0, security_ctx = 0, fd_fixups = []\<rparr>,
       6 := \<lparr>txn_from = Some 3, from_parent = Some 8, to_proc = None, to_thread = None,
         to_parent = None, need_reply = True, txn_buffer = None, txn_flags = 0, txn_code = 0, sender_euid = 0, security_ctx = 0, fd_fixups = []\<rparr>),
      bproc := (bproc sample_driver)(2 := (bproc sample_driver 2)\<lparr>waiting_threads := [3],
        proc_alloc := set_buf 1 (target_node_update (\<lambda>_. Some 7)) (binder_alloc_init 0)\<rparr>),
      bthread := (bthread sample_driver)(3 := (fresh_thread 2 33)\<lparr>transaction_stack := Some 6\<rparr>)\<rparr>"

lemmas sample_txn_defs = sample_txn_driver_def sample_driver_defs

theorem proc_transaction_delivers_witness:
  "\<exists>s'. binder_proc_transaction 4 2 None sample_txn_driver = Some (True, s') \<and> work_wf s' \<and>
     todo s' = (\<lambda>_. [])(Thread_todo 3 := [Txn_work 4]) \<and> process_todo (bthread s' 3) \<and> has_async_transaction (bnode s' 7)"
proof -
  let ?buf = "zeroed_buffer\<lparr>target_node := Some 7\<rparr>"
  have pre: "work_wf sample_txn_driver" "work_on sample_txn_driver (Txn_work 4) = None"
    "txn_buffer_of sample_txn_driver 4 = Some ?buf" "target_node ?buf = Some 7"
    "one_way (btxn sample_txn_driver 4) \<longrightarrow> None = None"
    by (simp_all add: sample_txn_defs work_wf_def txn_buffer_of_def set_buf_def binder_alloc_init_def)
  have facts: "one_way (btxn sample_txn_driver 4)" "\<not> proc_is_dead (bproc sample_txn_driver 2)"
    "todo sample_txn_driver = (\<lambda>_. [])" "txn_destination sample_txn_driver 4 7 2 None = Thread_todo 3"
    by (simp_all add: sample_txn_defs one_way_def TF_ONE_WAY_def txn_destination_def)
  from proc_transaction_delivers [OF pre, of 2] facts show ?thesis by auto
qed

theorem send_failed_reply_terminates_witness:
  "\<exists>s'. binder_send_failed_reply 2 sample_env 5 BR_DEAD_REPLY sample_txn_driver = Some s' \<and> freed_txns s' = [6, 5] \<and>
     transaction_stack (bthread s' 3) = Some 8 \<and> reply_error_cmd (bthread s' 3) = BR_DEAD_REPLY"
proof -
  have "reply_chain sample_txn_driver [5, 6]" "length [5 :: nat, 6] \<le> 2" "\<not> one_way (btxn sample_txn_driver (hd [5, 6]))"
    by (simp_all add: sample_txn_defs fresh_thread_def one_way_def)
  from send_failed_reply_terminates [OF this, of sample_env BR_DEAD_REPLY] show ?thesis
    by (simp add: sample_txn_defs fresh_thread_def) blast
qed

end
