(* ===== verification/Binder_Object_Props.thy ===== *)
theory Binder_Object_Props
  imports Binder_Objects Binder_Txn_Props
begin

text \<open>
  The bytes of a transaction buffer: what a copy into and out of a buffer does to the mapped area,
  that every object the driver accepts lies inside the data of its buffer, that the objects it writes
  are read back, and that a pointer fixup writes inside the buffer only.
\<close>

section \<open>The mapped area as bytes\<close>

definition area_byte :: "kernel_env \<Rightarrow> binder_alloc \<Rightarrow> nat \<Rightarrow> u8 option" where
  "area_byte env a x = map_option (\<lambda>mem. mem (x mod PAGE_SIZE env)) (page_ptr (pages a (x div PAGE_SIZE env)))"

definition area_base :: "binder_alloc \<Rightarrow> nat \<Rightarrow> nat" where
  "area_base a b = user_data (bufs a b) - ba_buffer a"

definition only_pages :: "binder_alloc \<Rightarrow> binder_alloc \<Rightarrow> bool" where
  "only_pages a a' \<longleftrightarrow> a' = a\<lparr>pages := pages a'\<rparr>"

lemma only_pages_refl [simp]: "only_pages a a"
  by (simp add: only_pages_def)

lemma only_pages_trans [trans]: "only_pages a a' \<Longrightarrow> only_pages a' a'' \<Longrightarrow> only_pages a a''"
  by (metis only_pages_def binder_alloc.surjective binder_alloc.update_convs(11))

lemma only_pages_fields:
  assumes "only_pages a a'"
  shows "bufs a' = bufs a" "ba_buffer a' = ba_buffer a" "buffers a' = buffers a" "buffer_size a' = buffer_size a"
  using assms [unfolded only_pages_def] by (metis binder_alloc.select_convs binder_alloc.surjective binder_alloc.update_convs(11))+

lemma page_size_pos [simp]: "0 < PAGE_SIZE env"
  by (simp add: PAGE_SIZE_def)

lemma write_page_bytes:
  assumes "write_page index pgoff bs a = Some a'" "pgoff + length bs \<le> PAGE_SIZE env"
  shows "only_pages a a'" "area_byte env a' x = (if index * PAGE_SIZE env + pgoff \<le> x \<and> x < index * PAGE_SIZE env + pgoff + length bs
      then Some (bs ! (x - (index * PAGE_SIZE env + pgoff))) else area_byte env a x)"
proof -
  obtain mem where m: "page_ptr (pages a index) = Some mem"
      "a' = set_page index ((pages a index)\<lparr>page_ptr := Some (page_write pgoff bs mem)\<rparr>) a"
    using assms(1) by (auto simp: write_page_def split: option.splits)
  then show "only_pages a a'" by (simp add: only_pages_def set_page_def)
  show "area_byte env a' x = (if index * PAGE_SIZE env + pgoff \<le> x \<and> x < index * PAGE_SIZE env + pgoff + length bs
      then Some (bs ! (x - (index * PAGE_SIZE env + pgoff))) else area_byte env a x)"
  proof (cases "x div PAGE_SIZE env = index")
    case True
    then have x: "x = index * PAGE_SIZE env + x mod PAGE_SIZE env" by (metis div_mult_mod_eq)
    let ?r = "x mod PAGE_SIZE env"
    have "index * PAGE_SIZE env + pgoff \<le> x \<longleftrightarrow> pgoff \<le> ?r" "x < index * PAGE_SIZE env + pgoff + length bs \<longleftrightarrow> ?r < pgoff + length bs"
      "x - (index * PAGE_SIZE env + pgoff) = ?r - pgoff"
      using x by linarith+
    moreover have "area_byte env a x = Some (mem ?r)" "area_byte env a' x = Some (page_write pgoff bs mem ?r)"
      unfolding area_byte_def True by (simp_all add: m set_page_def)
    ultimately show ?thesis by (auto simp: page_write_def)
  next
    case False
    have out: "\<not> (index * PAGE_SIZE env + pgoff \<le> x \<and> x < index * PAGE_SIZE env + pgoff + length bs)"
    proof
      assume r: "index * PAGE_SIZE env + pgoff \<le> x \<and> x < index * PAGE_SIZE env + pgoff + length bs"
      have "index * PAGE_SIZE env \<le> x" "x < Suc index * PAGE_SIZE env" using r assms(2) by simp_all
      then have "x div PAGE_SIZE env = index" by (metis div_nat_eqI mult.commute)
      then show False using False by simp
    qed
    show ?thesis unfolding if_not_P [OF out] by (simp add: area_byte_def m(2) set_page_def False)
  qed
qed

lemma get_page_index:
  assumes "binder_alloc_get_page env a b off = (index, pgoff)"
  shows "index * PAGE_SIZE env + pgoff = area_base a b + off" "pgoff < PAGE_SIZE env"
  using assms by (auto simp: binder_alloc_get_page_def area_base_def Let_def add.commute)

lemma chunk_fits:
  assumes "binder_alloc_get_page env a b off = (index, pgoff)"
  shows "pgoff + chunk env a b off bytes \<le> PAGE_SIZE env"
  using get_page_index(2) [OF assms] assms by (simp add: chunk_def)

section \<open>Copying\<close>

lemma copy_loop_in:
  assumes "buffer_copy_loop env True b off k bytes ptr a = Some (ptr', a')" "k + bytes \<le> length ptr"
  shows "only_pages a a' \<and> (\<forall>x. area_byte env a' x = (if area_base a b + off \<le> x \<and> x < area_base a b + off + bytes
      then Some (ptr ! (k + (x - (area_base a b + off)))) else area_byte env a x))"
  using assms
proof (induction bytes arbitrary: off k a rule: less_induct)
  case (less bytes)
  show ?case
  proof (cases "bytes = 0")
    case True
    then show ?thesis using less.prems by (auto simp: buffer_copy_loop.simps)
  next
    case False
    obtain index pgoff where g: "binder_alloc_get_page env a b off = (index, pgoff)" by fastforce
    define n where "n = chunk env a b off bytes"
    have n: "0 < n" "n \<le> bytes" using False by (simp_all add: n_def chunk_pos chunk_le)
    obtain a1 where w: "write_page index pgoff (take n (drop k ptr)) a = Some a1"
        and r: "buffer_copy_loop env True b (off + n) (k + n) (bytes - n) ptr a1 = Some (ptr', a')"
      using less.prems(1) False g
      by (subst (asm) buffer_copy_loop.simps) (auto simp: n_def Let_def split: option.splits)
    have l: "length (take n (drop k ptr)) = n" using less.prems(2) n by simp
    note fit = chunk_fits [OF g, of bytes, folded n_def]
    note wp = write_page_bytes [OF w, of env, unfolded l, OF fit]
    have base: "area_base a1 b = area_base a b" using only_pages_fields [OF wp(1)] by (simp add: area_base_def)
    have ih: "only_pages a1 a' \<and> (\<forall>x. area_byte env a' x = (if area_base a1 b + (off + n) \<le> x \<and> x < area_base a1 b + (off + n) + (bytes - n)
        then Some (ptr ! (k + n + (x - (area_base a1 b + (off + n))))) else area_byte env a1 x))"
      using less.IH [OF _ r] n False less.prems(2) by simp
    show ?thesis
    proof (intro conjI allI)
      show "only_pages a a'" using wp(1) ih only_pages_trans by blast
      fix x
      show "area_byte env a' x = (if area_base a b + off \<le> x \<and> x < area_base a b + off + bytes
          then Some (ptr ! (k + (x - (area_base a b + off)))) else area_byte env a x)"
        using ih wp(2) [of x] n less.prems(2) get_page_index(1) [OF g] by (auto simp: base)
    qed
  qed
qed

definition area_bytes :: "kernel_env \<Rightarrow> binder_alloc \<Rightarrow> nat \<Rightarrow> nat \<Rightarrow> u8 list" where
  "area_bytes env a x n = map (\<lambda>i. the (area_byte env a i)) [x..<x + n]"

lemma area_bytes_length [simp]: "length (area_bytes env a x n) = n"
  by (simp add: area_bytes_def)

lemma area_bytes_append: "area_bytes env a x (m + n) = area_bytes env a x m @ area_bytes env a (x + m) n"
  using upt_add_eq_append [of x "x + m" n] by (simp add: area_bytes_def add.assoc)

lemma read_page_bytes:
  assumes "read_page index pgoff n a = Some bs" "pgoff + n \<le> PAGE_SIZE env"
  shows "bs = area_bytes env a (index * PAGE_SIZE env + pgoff) n"
proof -
  obtain mem where m: "page_ptr (pages a index) = Some mem" "bs = map mem [pgoff..<pgoff + n]"
    using assms(1) by (auto simp: read_page_def)
  show ?thesis
  proof (rule nth_equalityI)
    fix i assume "i < length bs"
    then have i: "pgoff + i < PAGE_SIZE env" "i < n" using m(2) assms(2) by simp_all
    have "(index * PAGE_SIZE env + (pgoff + i)) div PAGE_SIZE env = index" "(index * PAGE_SIZE env + (pgoff + i)) mod PAGE_SIZE env = pgoff + i"
      using i by simp_all
    then show "bs ! i = area_bytes env a (index * PAGE_SIZE env + pgoff) n ! i"
      using i m by (simp add: area_bytes_def area_byte_def add.assoc)
  qed (simp add: m(2))
qed

lemma copy_loop_out:
  assumes "buffer_copy_loop env False b off k bytes ptr a = Some (ptr', a')" "k + bytes \<le> length ptr"
  shows "a' = a \<and> ptr' = take k ptr @ area_bytes env a (area_base a b + off) bytes @ drop (k + bytes) ptr"
  using assms
proof (induction bytes arbitrary: off k ptr rule: less_induct)
  case (less bytes)
  show ?case
  proof (cases "bytes = 0")
    case True
    then show ?thesis using less.prems by (simp add: buffer_copy_loop.simps area_bytes_def)
  next
    case False
    obtain index pgoff where g: "binder_alloc_get_page env a b off = (index, pgoff)" by fastforce
    define n where "n = chunk env a b off bytes"
    have n: "0 < n" "n \<le> bytes" using False by (simp_all add: n_def chunk_pos chunk_le)
    obtain bs where w: "read_page index pgoff n a = Some bs"
        and r: "buffer_copy_loop env False b (off + n) (k + n) (bytes - n) (take k ptr @ bs @ drop (k + n) ptr) a = Some (ptr', a')"
      using less.prems(1) False g
      by (subst (asm) buffer_copy_loop.simps) (auto simp: n_def Let_def split: option.splits)
    have bs: "bs = area_bytes env a (area_base a b + off) n"
      using read_page_bytes [OF w chunk_fits [OF g, of bytes, folded n_def]] get_page_index(1) [OF g] by simp
    then have l: "length bs = n" by simp
    have ih: "a' = a \<and> ptr' = take (k + n) (take k ptr @ bs @ drop (k + n) ptr) @ area_bytes env a (area_base a b + (off + n)) (bytes - n)
        @ drop (k + n + (bytes - n)) (take k ptr @ bs @ drop (k + n) ptr)"
      using less.IH [OF _ r] n False less.prems(2) l by simp
    have "area_bytes env a (area_base a b + off) bytes = bs @ area_bytes env a (area_base a b + (off + n)) (bytes - n)"
      using area_bytes_append [of env a "area_base a b + off" n "bytes - n"] n bs by (simp add: add.assoc)
    then show ?thesis using ih n l less.prems(2) by (simp add: add.commute)
  qed
qed

text \<open>A part of the area whose pages are all there: then a copy does not fault.\<close>

definition mapped :: "kernel_env \<Rightarrow> binder_alloc \<Rightarrow> nat \<Rightarrow> nat \<Rightarrow> bool" where
  "mapped env a x n \<longleftrightarrow> (\<forall>i \<in> {x..<x + n}. area_byte env a i \<noteq> None)"

lemma mapped_sub: "mapped env a x n \<Longrightarrow> x \<le> y \<Longrightarrow> y + m \<le> x + n \<Longrightarrow> mapped env a y m"
  by (simp add: mapped_def)

lemma mapped_page:
  assumes "mapped env a (index * PAGE_SIZE env + pgoff) n" "0 < n" "pgoff < PAGE_SIZE env"
  shows "page_ptr (pages a index) \<noteq> None"
proof -
  have "area_byte env a (index * PAGE_SIZE env + pgoff) \<noteq> None" using assms by (simp add: mapped_def)
  then show ?thesis using assms(3) by (simp add: area_byte_def)
qed

lemma copy_out_total:
  assumes "mapped env a (area_base a b + off) bytes"
  shows "buffer_copy_loop env False b off k bytes ptr a \<noteq> None"
  using assms
proof (induction bytes arbitrary: off k ptr rule: less_induct)
  case (less bytes)
  show ?case
  proof (cases "bytes = 0")
    case True
    then show ?thesis by (simp add: buffer_copy_loop.simps)
  next
    case False
    obtain index pgoff where g: "binder_alloc_get_page env a b off = (index, pgoff)" by fastforce
    define n where "n = chunk env a b off bytes"
    have n: "0 < n" "n \<le> bytes" using False by (simp_all add: n_def chunk_pos chunk_le)
    have "page_ptr (pages a index) \<noteq> None"
      using mapped_page [of env a index pgoff bytes] get_page_index [OF g] less.prems False by simp
    then obtain mem where m: "page_ptr (pages a index) = Some mem" by auto
    have "mapped env a (area_base a b + (off + n)) (bytes - n)" using mapped_sub [OF less.prems] n by simp
    then have "buffer_copy_loop env False b (off + n) (k + n) (bytes - n) q a \<noteq> None" for q
      using less.IH [of "bytes - n"] n False by simp
    then show ?thesis
      using False g m by (subst buffer_copy_loop.simps) (simp add: n_def [symmetric] read_page_def)
  qed
qed

lemma buffer_get_read:
  assumes "buffer_get env a dest b off n = Some (Some bs)" "n \<le> length dest"
  shows "check_buffer a b (unat off) n" "bs = area_bytes env a (area_base a b + unat off) n @ drop n dest"
  using assms copy_loop_out [of env b "unat off" 0 n dest a]
  by (auto simp: buffer_get_def binder_alloc_copy_from_buffer_def binder_alloc_do_buffer_copy_def split: sum.splits if_splits option.splits)

lemma copy_out_none: "buffer_copy_loop env False b off k bytes ptr a = None \<longleftrightarrow> buffer_copy_loop env False b off k bytes ptr2 a = None"
proof (induction bytes arbitrary: off k ptr ptr2 rule: less_induct)
  case (less bytes)
  obtain index pgoff where g: "binder_alloc_get_page env a b off = (index, pgoff)" by fastforce
  have "bytes \<noteq> 0 \<Longrightarrow> bytes - chunk env a b off bytes < bytes" using chunk_pos [of bytes env a b off] by simp
  then show ?case
    using g less.IH [of "bytes - chunk env a b off bytes" "off + chunk env a b off bytes" "k + chunk env a b off bytes"]
    by (subst (1 2) buffer_copy_loop.simps) (auto simp: Let_def split: option.splits)
qed

lemma buffer_get_other:
  assumes "buffer_get env a dest b off n = Some (Some bs)" "n \<le> length dest" "n \<le> length dest2"
  shows "buffer_get env a dest2 b off n = Some (Some (area_bytes env a (area_base a b + unat off) n @ drop n dest2))"
proof -
  have "buffer_copy_loop env False b (unat off) 0 n dest a \<noteq> None" using assms(1)
    by (auto simp: buffer_get_def binder_alloc_copy_from_buffer_def binder_alloc_do_buffer_copy_def split: option.splits if_splits)
  then obtain ptr' a' where r: "buffer_copy_loop env False b (unat off) 0 n dest2 a = Some (ptr', a')"
    using copy_out_none [of env b "unat off" 0 n dest a dest2] by (cases "buffer_copy_loop env False b (unat off) 0 n dest2 a") auto
  then show ?thesis
    using copy_loop_out [OF r] buffer_get_read(1) [OF assms(1,2)] assms(3)
    by (simp add: buffer_get_def binder_alloc_copy_from_buffer_def binder_alloc_do_buffer_copy_def)
qed

lemma buffer_get_total:
  assumes "check_buffer a b (unat off) n" "mapped env a (area_base a b + unat off) n" "n \<le> length dest"
  shows "buffer_get env a dest b off n = Some (Some (area_bytes env a (area_base a b + unat off) n @ drop n dest))"
proof -
  obtain ptr' a' where r: "buffer_copy_loop env False b (unat off) 0 n dest a = Some (ptr', a')"
    using copy_out_total [OF assms(2)] by fastforce
  then show ?thesis
    using copy_loop_out [OF r] assms(1,3)
    by (simp add: buffer_get_def binder_alloc_copy_from_buffer_def binder_alloc_do_buffer_copy_def)
qed

lemma buffer_put_written:
  assumes "buffer_put env p b off bs s = Some (True, s')"
  defines "a \<equiv> proc_alloc (bproc s p)" and "a' \<equiv> proc_alloc (bproc s' p)"
  shows "check_buffer a b (unat off) (length bs)" "only_pages a a'" "s' = upd_proc p (proc_alloc_update (\<lambda>_. a')) s"
    "area_byte env a' x = (if area_base a b + unat off \<le> x \<and> x < area_base a b + unat off + length bs
       then Some (bs ! (x - (area_base a b + unat off))) else area_byte env a x)"
  using assms(1) copy_loop_in [of env b "unat off" 0 "length bs" bs a]
  by (auto simp: a_def a'_def buffer_put_def binder_alloc_copy_to_buffer_def binder_alloc_do_buffer_copy_def upd_proc_def
      split: sum.splits if_splits option.splits)

section \<open>Integers and types\<close>

lemma le_bytes_length [simp]: "length (le_bytes k n) = k"
  by (induction k arbitrary: n) simp_all

lemma le_bytes_nth_0: "0 < k \<Longrightarrow> le_bytes k n ! 0 = word_of_nat n"
  by (cases k) simp_all

lemma le_nat_bytes [simp]: "le_nat (le_bytes k n) = n mod 256 ^ k"
proof (induction k arbitrary: n)
  case (Suc k)
  have "n mod (256 * 256 ^ k) = 256 * (n div 256 mod 256 ^ k) + n mod 256" by (rule mod_mult2_eq)
  then show ?case using Suc by (simp add: unsigned_of_nat take_bit_eq_mod)
qed simp

lemma put_length [simp]: "length (put_u32 x) = 4" "length (put_u64 y) = 8"
  by (simp_all add: put_u32_def put_u64_def)

lemma get_put_u32 [simp]: "length xs = k \<Longrightarrow> get_u32 k (xs @ put_u32 v @ ys) = v"
  using unat_lt(1) [of v] by (simp add: get_u32_def put_u32_def)

lemma get_put_u64 [simp]: "length xs = k \<Longrightarrow> get_u64 k (xs @ put_u64 v @ ys) = v"
  using unat_lt(2) [of v] by (simp add: get_u64_def put_u64_def)

lemma get_u32_0 [simp]: "get_u32 0 (put_u32 v @ ys) = v"
  using get_put_u32 [of "[]"] by simp

lemma binder_type_of_code [simp]: "binder_type_of (binder_type_code ty) = Some ty"
  by (cases ty) (simp_all add: binder_type_of_def)

lemma binder_type_ofD: "binder_type_of c = Some ty \<Longrightarrow> binder_type_code ty = c"
  unfolding binder_type_of_def find_Some_iff by blast

lemma sizeof_object_bounds: "4 \<le> sizeof_object ty" "sizeof_object ty \<le> 40" "unat (sizeof_object ty) \<le> 40"
  by (cases ty; simp)+

section \<open>Reading objects\<close>

lemma word_le_minus:
  fixes off :: u64
  assumes "off \<le> ds - n" "n \<le> ds"
  shows "unat off + unat n \<le> unat ds"
  using assms by (simp add: word_le_nat_alt unat_sub)

lemma get_object_cases:
  assumes "binder_get_object env a b off obj = Some (n, obj')" "n \<noteq> 0"
  obtains ty where "binder_type_of (get_u32 0 obj') = Some ty" "n = sizeof_object ty"
    "off \<le> data_size (bufs a b) - n" "n \<le> data_size (bufs a b)" "off \<le> data_size (bufs a b)"
    "buffer_get env a obj b off (unat (min 40 (data_size (bufs a b) - off))) = Some (Some obj')"
proof -
  let ?m = "min 40 (data_size (bufs a b) - off)"
  have g: "\<not> (off > data_size (bufs a b) \<or> ?m < 4)"
    using assms by (auto simp: binder_get_object_def Let_def)
  obtain r where r: "buffer_get env a obj b off (unat ?m) = Some r"
    using assms(1) g by (auto simp: binder_get_object_def Let_def bind_eq_Some_conv)
  have r': "r = Some obj'"
    using assms g r by (cases r) (auto simp: binder_get_object_def Let_def split: option.splits)
  obtain ty where "binder_type_of (get_u32 0 obj') = Some ty"
    using assms g r r' by (auto simp: binder_get_object_def Let_def split: option.splits)
  then show thesis
    using that [of ty] assms g r r' by (auto simp: binder_get_object_def Let_def split: if_splits)
qed

lemma read_size_ge:
  assumes "unat off + unat n \<le> unat ds" "off \<le> ds" "unat n \<le> 40"
  shows "unat n \<le> unat (min 40 (ds - off :: u64))" "unat (min 40 (ds - off)) \<le> 40" "unat off + unat (min 40 (ds - off)) \<le> unat ds"
proof -
  have d: "unat (ds - off) = unat ds - unat off" using assms(2) by (simp add: word_le_nat_alt unat_sub)
  have m: "unat (min 40 (ds - off)) = min 40 (unat ds - unat off)" by (simp add: min_def word_le_nat_alt d)
  show "unat n \<le> unat (min 40 (ds - off :: u64))" "unat (min 40 (ds - off)) \<le> 40" "unat off + unat (min 40 (ds - off)) \<le> unat ds"
    using assms(1,3) unfolding m by simp_all
qed

lemma take_area_bytes: "m \<le> n \<Longrightarrow> take m (area_bytes env a x n) = area_bytes env a x m"
  using area_bytes_append [of env a x m "n - m"] by simp

lemma take_area_prefix: "m \<le> n \<Longrightarrow> take m (area_bytes env a x n @ rest) = area_bytes env a x m"
  by (simp add: take_area_bytes)

lemma get_object_bytes:
  assumes "binder_get_object env a b off obj = Some (n, obj')" "n \<noteq> 0" "length obj = 40"
  shows "\<exists>ty. binder_type_of (get_u32 0 obj') = Some ty \<and> n = sizeof_object ty \<and>
    unat off + unat n \<le> unat (data_size (bufs a b)) \<and> unat off mod 4 = 0 \<and>
    take (unat n) obj' = area_bytes env a (area_base a b + unat off) (unat n)"
proof -
  obtain ty where ty: "binder_type_of (get_u32 0 obj') = Some ty" "n = sizeof_object ty"
    and le: "off \<le> data_size (bufs a b) - n" "n \<le> data_size (bufs a b)" "off \<le> data_size (bufs a b)"
    and g: "buffer_get env a obj b off (unat (min 40 (data_size (bufs a b) - off))) = Some (Some obj')"
    using get_object_cases [OF assms(1,2)] by blast
  note bound = word_le_minus [OF le(1,2)]
  note rs = read_size_ge [OF bound le(3) sizeof_object_bounds(3) [of ty, folded ty(2)]]
  note r = buffer_get_read [OF g] 
  have l: "unat (min 40 (data_size (bufs a b) - off)) \<le> length obj" using rs(2) assms(3) by simp
  have al: "unat off mod 4 = 0" using r(1) [OF l] by (simp add: check_buffer_def Let_def)
  have tk: "take (unat n) obj' = area_bytes env a (area_base a b + unat off) (unat n)"
    unfolding r(2) [OF l] by (rule take_area_prefix [OF rs(1)])
  show ?thesis by (intro exI [of _ ty] conjI) (fact ty(1) ty(2) bound al tk)+
qed

text \<open>What was in the structure before does not matter.\<close>

lemma get_u32_take: "4 \<le> n \<Longrightarrow> get_u32 0 bs = get_u32 0 (take n bs)"
  by (simp add: get_u32_def min_def)

lemma get_object_uninit:
  assumes "binder_get_object env a b off obj = Some (n, o1)" "n \<noteq> 0" "length obj = 40" "length obj2 = 40"
  shows "\<exists>o2. binder_get_object env a b off obj2 = Some (n, o2) \<and> take (unat n) o2 = take (unat n) o1"
proof -
  obtain ty where ty: "binder_type_of (get_u32 0 o1) = Some ty" "n = sizeof_object ty"
    and le: "off \<le> data_size (bufs a b) - n" "n \<le> data_size (bufs a b)" "off \<le> data_size (bufs a b)"
    and g: "buffer_get env a obj b off (unat (min 40 (data_size (bufs a b) - off))) = Some (Some o1)"
    using get_object_cases [OF assms(1,2)] by blast
  let ?m = "unat (min 40 (data_size (bufs a b) - off))"
  note rs = read_size_ge [OF word_le_minus [OF le(1,2)] le(3) sizeof_object_bounds(3) [of ty, folded ty(2)]]
  have o1: "check_buffer a b (unat off) ?m" "o1 = area_bytes env a (area_base a b + unat off) ?m @ drop ?m obj"
    using buffer_get_read [OF g] rs(2) assms(3) by simp_all
  have g2: "buffer_get env a obj2 b off ?m = Some (Some (area_bytes env a (area_base a b + unat off) ?m @ drop ?m obj2))"
    using buffer_get_other [OF g] rs(2) assms(3,4) by simp
  let ?o2 = "area_bytes env a (area_base a b + unat off) ?m @ drop ?m obj2"
  have m4: "4 \<le> ?m" using rs(1) sizeof_object_bounds(1) [of ty] ty(2) by (simp add: word_le_nat_alt)
  have t: "get_u32 0 ?o2 = get_u32 0 o1"
    using get_u32_take [OF m4, of ?o2] get_u32_take [OF m4, of o1] o1(2) by simp
  have "\<not> min 40 (data_size (bufs a b) - off) < 4" "\<not> data_size (bufs a b) < off" using m4 le(3) by (simp_all add: word_less_nat_alt word_le_nat_alt)
  then have "binder_get_object env a b off obj2 = Some (n, ?o2)"
    using g2 t ty le by (simp add: binder_get_object_def Let_def)
  moreover have "take (unat n) ?o2 = take (unat n) o1" using o1(2) rs(1) by simp
  ultimately show ?thesis by blast
qed


text \<open>
  A buffer the driver may work on: it is not free, user space cannot free it under the driver, its
  data fits and its pages are there.
\<close>

definition ready_buffer :: "kernel_env \<Rightarrow> binder_alloc \<Rightarrow> nat \<Rightarrow> bool" where
  "ready_buffer env a b \<longleftrightarrow> \<not> bb_free (bufs a b) \<and> (\<not> allow_user_free (bufs a b) \<or> transaction (bufs a b) = None)
     \<and> unat (data_size (bufs a b)) \<le> binder_alloc_buffer_size a b \<and> mapped env a (area_base a b) (binder_alloc_buffer_size a b)"

lemma ready_check:
  "ready_buffer env a b \<Longrightarrow> check_buffer a b off n \<longleftrightarrow> off + n \<le> binder_alloc_buffer_size a b \<and> off mod 4 = 0"
  by (auto simp: ready_buffer_def check_buffer_def Let_def)

lemma ready_mapped:
  "ready_buffer env a b \<Longrightarrow> off + n \<le> binder_alloc_buffer_size a b \<Longrightarrow> mapped env a (area_base a b + off) n"
  using mapped_sub [of env a "area_base a b" "binder_alloc_buffer_size a b" "area_base a b + off" n]
  by (simp add: ready_buffer_def)

lemma ready_data: "ready_buffer env a b \<Longrightarrow> unat (data_size (bufs a b)) \<le> binder_alloc_buffer_size a b"
  by (simp add: ready_buffer_def)

lemma buffer_get_reject: "\<not> check_buffer a b (unat off) n \<Longrightarrow> buffer_get env a dest b off n = Some None"
  by (simp add: buffer_get_def binder_alloc_copy_from_buffer_def binder_alloc_do_buffer_copy_def)

text \<open>
  What lies at an offset, read off the bytes of the area: an aligned header with a known type tag,
  and room for the whole object inside the data.
\<close>

definition object_at :: "kernel_env \<Rightarrow> binder_alloc \<Rightarrow> nat \<Rightarrow> nat \<Rightarrow> (binder_type \<times> u8 list) option" where
  "object_at env a b off =
     (let ds = unat (data_size (bufs a b)); x = area_base a b + off
      in if off mod 4 \<noteq> 0 \<or> ds < off + 4 then None
         else case binder_type_of (get_u32 0 (area_bytes env a x 4)) of
                None \<Rightarrow> None
              | Some ty \<Rightarrow> if off + unat (sizeof_object ty) \<le> ds then Some (ty, area_bytes env a x (unat (sizeof_object ty))) else None)"

lemma word_le_minus_iff: "off \<le> ds - n \<and> n \<le> ds \<longleftrightarrow> unat off + unat n \<le> unat (ds :: u64)"
  by (auto simp: word_le_nat_alt unat_sub)

lemma get_object_eval:
  assumes "unat off + 4 \<le> unat (data_size (bufs a b))"
    and "buffer_get env a obj b off (unat (min 40 (data_size (bufs a b) - off))) = Some r"
  shows "binder_get_object env a b off obj =
    Some (case r of None \<Rightarrow> (0, obj)
          | Some obj' \<Rightarrow> (case binder_type_of (get_u32 0 obj') of
                           None \<Rightarrow> 0
                         | Some ty \<Rightarrow> if unat off + unat (sizeof_object ty) \<le> unat (data_size (bufs a b)) then sizeof_object ty else 0, obj'))"
proof -
  have le: "off \<le> data_size (bufs a b)" using assms(1) by (simp add: word_le_nat_alt)
  have "unat (4 :: u64) \<le> unat (min 40 (data_size (bufs a b) - off))"
    using assms(1) le by (simp add: min_def word_le_nat_alt unat_sub) arith
  then have "\<not> (data_size (bufs a b) < off \<or> min 40 (data_size (bufs a b) - off) < 4)"
    using le by (simp add: word_less_nat_alt word_le_nat_alt)
  then show ?thesis
    using assms(2) unfolding binder_get_object_def Let_def word_le_minus_iff by (auto split: option.splits)
qed

lemma get_object_outside:
  assumes "unat (data_size (bufs a b)) < unat off + 4"
  shows "binder_get_object env a b off obj = Some (0, obj)"
proof (cases "data_size (bufs a b) < off")
  case False
  then have "unat (min 40 (data_size (bufs a b) - off)) < 4"
    using assms by (simp add: min_def word_le_nat_alt unat_sub word_less_nat_alt) arith
  then show ?thesis by (simp add: binder_get_object_def Let_def word_less_nat_alt)
qed (simp add: binder_get_object_def)


lemma read_size_4:
  fixes off :: u64
  assumes "unat off + 4 \<le> unat ds"
  shows "4 \<le> unat (min 40 (ds - off))" "unat (min 40 (ds - off)) \<le> 40" "unat off + unat (min 40 (ds - off)) \<le> unat ds"
  using read_size_ge [of off "4 :: u64" ds] assms by (simp_all add: word_le_nat_alt)

lemma get_object_eq:
  assumes "ready_buffer env a b" "length obj = 40"
  shows "\<exists>n obj'. binder_get_object env a b off obj = Some (n, obj') \<and>
    (case object_at env a b (unat off) of
       None \<Rightarrow> n = 0
     | Some (ty, bs) \<Rightarrow> n = sizeof_object ty \<and> take (unat n) obj' = bs)"
proof (cases "unat (data_size (bufs a b)) < unat off + 4")
  case True
  then show ?thesis using get_object_outside [OF True] by (simp add: object_at_def Let_def)
next
  case False
  let ?ds = "data_size (bufs a b)" and ?x = "area_base a b + unat off"
  let ?m = "unat (min 40 (?ds - off))"
  have off: "unat off + 4 \<le> unat ?ds" using False by simp
  note m = read_size_4 [OF off]
  show ?thesis
  proof (cases "unat off mod 4 = 0")
    case False
    then have "\<not> check_buffer a b (unat off) ?m" by (simp add: check_buffer_def Let_def)
    then show ?thesis
      using get_object_eval [OF off buffer_get_reject] False by (simp add: object_at_def Let_def)
  next
    case True
    have fit: "unat off + ?m \<le> binder_alloc_buffer_size a b" using m(3) ready_data [OF assms(1)] by simp
    have g: "buffer_get env a obj b off ?m = Some (Some (area_bytes env a ?x ?m @ drop ?m obj))"
      using buffer_get_total [of a b off ?m env obj] ready_check [OF assms(1)] ready_mapped [OF assms(1) fit] fit True m(2) assms(2) by simp
    let ?obj = "area_bytes env a ?x ?m @ drop ?m obj"
    have t: "get_u32 0 ?obj = get_u32 0 (area_bytes env a ?x 4)"
      using get_u32_take [of 4 ?obj] take_area_prefix [OF m(1)] by simp
    show ?thesis
    proof (cases "binder_type_of (get_u32 0 (area_bytes env a ?x 4))")
      case None
      then show ?thesis using get_object_eval [OF off g] t True by (simp add: object_at_def Let_def)
    next
      case (Some ty)
      have "unat off + unat (sizeof_object ty) \<le> unat ?ds \<Longrightarrow> unat (sizeof_object ty) \<le> ?m"
        using read_size_ge(1) [of off "sizeof_object ty" ?ds] sizeof_object_bounds(3) [of ty] off by (simp add: word_le_nat_alt)
      then have "unat off + unat (sizeof_object ty) \<le> unat ?ds \<Longrightarrow>
          take (unat (sizeof_object ty)) ?obj = area_bytes env a ?x (unat (sizeof_object ty))"
        by (rule take_area_prefix)
      then show ?thesis
        using get_object_eval [OF off g] t True Some off by (simp add: object_at_def Let_def del: take_append)
    qed
  qed
qed

section \<open>Objects written and read back\<close>

lemma copy_in_total:
  assumes "mapped env a (area_base a b + off) bytes" "k + bytes \<le> length ptr"
  shows "buffer_copy_loop env True b off k bytes ptr a \<noteq> None"
  using assms
proof (induction bytes arbitrary: off k a rule: less_induct)
  case (less bytes)
  show ?case
  proof (cases "bytes = 0")
    case True
    then show ?thesis by (simp add: buffer_copy_loop.simps)
  next
    case False
    obtain index pgoff where g: "binder_alloc_get_page env a b off = (index, pgoff)" by fastforce
    define n where "n = chunk env a b off bytes"
    have n: "0 < n" "n \<le> bytes" using False by (simp_all add: n_def chunk_pos chunk_le)
    have l: "length (take n (drop k ptr)) = n" using less.prems(2) n by simp
    obtain a1 where w: "write_page index pgoff (take n (drop k ptr)) a = Some a1"
      using mapped_page [of env a index pgoff bytes] get_page_index [OF g] less.prems(1) False by (auto simp: write_page_def)
    note wp = write_page_bytes [OF w, of env, unfolded l, OF chunk_fits [OF g, of bytes, folded n_def]]
    have base: "area_base a1 b = area_base a b" using only_pages_fields [OF wp(1)] by (simp add: area_base_def)
    have "mapped env a1 (area_base a1 b + (off + n)) (bytes - n)"
      using less.prems(1) n(2) by (simp add: mapped_def base wp(2))
    then have "buffer_copy_loop env True b (off + n) (k + n) (bytes - n) ptr a1 \<noteq> None"
      using less.IH [of "bytes - n"] n False less.prems(2) by simp
    then show ?thesis
      using False g w by (subst buffer_copy_loop.simps) (simp add: n_def [symmetric])
  qed
qed

lemma buffer_put_total:
  assumes "ready_buffer env (proc_alloc (bproc s p)) b" "unat off mod 4 = 0"
    "unat off + length bs \<le> binder_alloc_buffer_size (proc_alloc (bproc s p)) b"
  obtains s' where "buffer_put env p b off bs s = Some (True, s')"
proof -
  let ?a = "proc_alloc (bproc s p)"
  obtain ptr' a' where "buffer_copy_loop env True b (unat off) 0 (length bs) bs ?a = Some (ptr', a')"
    using copy_in_total [OF ready_mapped [OF assms(1,3)], of 0 bs] by fastforce
  then have "\<exists>s'. buffer_put env p b off bs s = Some (True, s')"
    using ready_check [OF assms(1), of "unat off" "length bs"] assms(2,3)
    by (simp add: buffer_put_def binder_alloc_copy_to_buffer_def binder_alloc_do_buffer_copy_def)
  then show thesis using that by blast
qed

lemma area_bytes_written:
  assumes "\<And>x. area_byte env a' x = (if y \<le> x \<and> x < y + length bs then Some (bs ! (x - y)) else area_byte env a x)"
  shows "area_bytes env a' y (length bs) = bs"
  by (rule nth_equalityI) (simp_all add: area_bytes_def assms)


lemma ready_only_pages:
  assumes "ready_buffer env a b" "only_pages a a'" "\<And>x. area_byte env a x \<noteq> None \<Longrightarrow> area_byte env a' x \<noteq> None"
  shows "ready_buffer env a' b" "area_base a' b = area_base a b" "data_size (bufs a' b) = data_size (bufs a b)"
proof -
  note f = only_pages_fields [OF assms(2)]
  have "binder_alloc_buffer_size a' b = binder_alloc_buffer_size a b"
    by (cases "list_next (buffers a) b") (simp_all add: binder_alloc_buffer_size_def binder_buffer_next_def f)
  then show "ready_buffer env a' b" "area_base a' b = area_base a b" "data_size (bufs a' b) = data_size (bufs a b)"
    using assms(1,3) by (simp_all add: ready_buffer_def area_base_def mapped_def f)
qed

text \<open>
  A kind of object: how it is encoded, how it is read, and which of two values count as the same
  (the union of a flat object has only one valid half). The driver's copy in and
  \<^verbatim>\<open>binder_get_object\<close> then give the value back.
\<close>

locale wire_object =
  fixes enc :: "'o \<Rightarrow> u8 list"
    and dec :: "u8 list \<Rightarrow> 'o"
    and same :: "'o \<Rightarrow> 'o \<Rightarrow> bool"
    and ty :: binder_type
  assumes enc_length: "length (enc x) = unat (sizeof_object ty)"
    and enc_type: "get_u32 0 (enc x @ rest) = binder_type_code ty"
    and dec_enc: "same (dec (enc x @ rest)) x"
begin

lemma written_object_at:
  assumes "area_bytes env a (area_base a b + off) (length (enc x)) = enc x" "off mod 4 = 0"
    "off + length (enc x) \<le> unat (data_size (bufs a b))"
  shows "object_at env a b off = Some (ty, enc x)"
proof -
  have l: "4 \<le> length (enc x)" using sizeof_object_bounds(1) [of ty] by (simp add: enc_length word_le_nat_alt)
  have "area_bytes env a (area_base a b + off) 4 = take 4 (enc x)"
    using take_area_bytes [OF l, of env a "area_base a b + off"] assms(1) by simp
  then have "get_u32 0 (area_bytes env a (area_base a b + off) 4) = binder_type_code ty"
    using get_u32_take [of 4 "enc x"] enc_type [of x "[]"] by simp
  then show ?thesis using assms l by (simp add: object_at_def Let_def enc_length)
qed

lemma put_get:
  assumes "ready_buffer env (proc_alloc (bproc s p)) b" "unat off mod 4 = 0"
    "unat off + unat (sizeof_object ty) \<le> unat (data_size (bufs (proc_alloc (bproc s p)) b))"
  shows "\<exists>s' obj. buffer_put env p b off (enc x) s = Some (True, s') \<and>
    binder_get_object env (proc_alloc (bproc s' p)) b off uninit = Some (sizeof_object ty, obj) \<and>
    get_u32 0 obj = binder_type_code ty \<and> same (dec obj) x"
proof -
  let ?a = "proc_alloc (bproc s p)"
  have fit: "unat off + length (enc x) \<le> binder_alloc_buffer_size ?a b"
    using assms(3) ready_data [OF assms(1)] by (simp add: enc_length)
  obtain s' where p: "buffer_put env p b off (enc x) s = Some (True, s')"
    using buffer_put_total [OF assms(1,2) fit] by blast
  let ?a' = "proc_alloc (bproc s' p)"
  note w = buffer_put_written [OF p]
  have rd: "ready_buffer env ?a' b" and eq: "area_base ?a' b = area_base ?a b" "data_size (bufs ?a' b) = data_size (bufs ?a b)"
    using ready_only_pages [OF assms(1) w(2)] w(4) by simp_all
  have "object_at env ?a' b (unat off) = Some (ty, enc x)"
    using written_object_at [of env ?a' b "unat off" x] area_bytes_written [OF w(4)] assms(2,3) by (simp add: eq enc_length)
  then obtain obj where obj: "binder_get_object env ?a' b off uninit = Some (sizeof_object ty, obj)"
      "take (unat (sizeof_object ty)) obj = enc x"
    using get_object_eq [OF rd, of uninit off] by (auto simp: uninit_def)
  have "obj = enc x @ drop (unat (sizeof_object ty)) obj" using obj(2) by (metis append_take_drop_id)
  then have "get_u32 0 obj = binder_type_code ty" "same (dec obj) x" using enc_type dec_enc by metis+
  then show ?thesis using p obj(1) by blast
qed

end

definition same_flat :: "binder_type \<Rightarrow> flat_binder_object \<Rightarrow> flat_binder_object \<Rightarrow> bool" where
  "same_flat ty f g \<longleftrightarrow> fp_flags f = fp_flags g \<and> fp_cookie f = fp_cookie g
     \<and> (if is_handle_type ty then fp_handle f = fp_handle g else fp_binder f = fp_binder g)"

definition flat_type :: "binder_type \<Rightarrow> bool" where
  "flat_type ty \<longleftrightarrow> ty \<noteq> BINDER_TYPE_FD \<and> ty \<noteq> BINDER_TYPE_FDA \<and> ty \<noteq> BINDER_TYPE_PTR"

lemma get_u32_app: "length xs = n \<Longrightarrow> n \<le> k \<Longrightarrow> get_u32 k (xs @ ys) = get_u32 (k - n) ys"
  by (simp add: get_u32_def)

lemma get_u64_app: "length xs = n \<Longrightarrow> n \<le> k \<Longrightarrow> get_u64 k (xs @ ys) = get_u64 (k - n) ys"
  by (simp add: get_u64_def)

lemma get_u64_0 [simp]: "get_u64 0 (put_u64 v @ ys) = v"
  using get_put_u64 [of "[]"] by simp

lemmas layout = get_u32_app [of _ 4] get_u32_app [of _ 8] get_u64_app [of _ 4] get_u64_app [of _ 8]

lemma wire_flat: "flat_type ty \<Longrightarrow> wire_object (put_flat_binder_object ty) to_flat_binder_object (same_flat ty) ty"
  by unfold_locales
    (cases ty; simp add: flat_type_def put_flat_binder_object_def to_flat_binder_object_def same_flat_def is_handle_type_def layout)+

interpretation strong_binder: wire_object "put_flat_binder_object BINDER_TYPE_BINDER" to_flat_binder_object
    "same_flat BINDER_TYPE_BINDER" BINDER_TYPE_BINDER
  by (rule wire_flat) (simp add: flat_type_def)

interpretation strong_handle: wire_object "put_flat_binder_object BINDER_TYPE_HANDLE" to_flat_binder_object
    "same_flat BINDER_TYPE_HANDLE" BINDER_TYPE_HANDLE
  by (rule wire_flat) (simp add: flat_type_def)

interpretation fd_wire: wire_object put_binder_fd_object to_binder_fd_object "(=)" BINDER_TYPE_FD
  by unfold_locales (simp_all add: put_binder_fd_object_def to_binder_fd_object_def layout)

interpretation ptr_wire: wire_object put_binder_buffer_object to_binder_buffer_object "(=)" BINDER_TYPE_PTR
  by unfold_locales (simp_all add: put_binder_buffer_object_def to_binder_buffer_object_def layout)


section \<open>Pointer fixups\<close>

definition has_parent :: "binder_buffer_object \<Rightarrow> bool" where
  "has_parent bp \<longleftrightarrow> bbo_flags bp AND BINDER_BUFFER_FLAG_HAS_PARENT \<noteq> 0"

text \<open>Where the pointer to a child goes, as an offset into the transaction buffer.\<close>

definition fixup_offset :: "binder_alloc \<Rightarrow> nat \<Rightarrow> binder_buffer_object \<Rightarrow> binder_buffer_object \<Rightarrow> u64" where
  "fixup_offset a b bp parent = bbo_parent_offset bp + bbo_buffer parent - user_base a b"

lemma buffer_put_refused: "buffer_put env p b off bs s = Some (False, s') \<Longrightarrow> s' = s"
  by (auto simp: buffer_put_def split: sum.splits if_splits)

lemma fixup_parent_cases:
  assumes "binder_fixup_parent env p b bp off_start num_valid last_obj last_min s = Some (r, s')"
  obtains (unchanged) "s' = s" "r \<noteq> None \<or> \<not> has_parent bp"
  | (written) parent po where "r = None" "has_parent bp"
      "binder_validate_ptr env (proc_alloc (bproc s p)) b (bbo_parent bp) off_start num_valid = Some (Some (parent, po))"
      "binder_validate_fixup env (proc_alloc (bproc s p)) b off_start po (bbo_parent_offset bp) last_obj last_min = Some True"
      "8 \<le> bbo_length parent" "bbo_parent_offset bp \<le> bbo_length parent - 8"
      "buffer_put env p b (fixup_offset (proc_alloc (bproc s p)) b bp parent) (put_u64 (bbo_buffer bp)) s = Some (True, s')"
proof (cases "has_parent bp")
  case False
  then show thesis using assms unchanged by (simp add: binder_fixup_parent_def has_parent_def)
next
  case True
  let ?a = "proc_alloc (bproc s p)"
  obtain v where v: "binder_validate_ptr env ?a b (bbo_parent bp) off_start num_valid = Some v"
    using assms True by (auto simp: binder_fixup_parent_def has_parent_def Let_def bind_eq_Some_conv)
  show thesis
  proof (cases v)
    case None
    then show thesis using assms unchanged v True by (auto simp: binder_fixup_parent_def has_parent_def)
  next
    case (Some pp)
    obtain parent po where pp: "pp = (parent, po)" by fastforce
    obtain ok where ok: "binder_validate_fixup env ?a b off_start po (bbo_parent_offset bp) last_obj last_min = Some ok"
      using assms v True Some pp by (auto simp: binder_fixup_parent_def has_parent_def Let_def bind_eq_Some_conv)
    show thesis
    proof (cases "\<not> ok \<or> bbo_length parent < 8 \<or> bbo_parent_offset bp > bbo_length parent - 8")
      case True
      then show thesis using assms unchanged v ok Some pp \<open>has_parent bp\<close>
        by (auto simp: binder_fixup_parent_def has_parent_def Let_def split: if_splits)
    next
      case False
      then obtain put where put: "buffer_put env p b (fixup_offset ?a b bp parent) (put_u64 (bbo_buffer bp)) s = Some (put, s')"
          "r = (if put then None else Some EINVAL)"
        using assms v ok Some pp \<open>has_parent bp\<close>
        by (auto simp: binder_fixup_parent_def has_parent_def fixup_offset_def Let_def bind_eq_Some_conv)
      show thesis
      proof (cases put)
        case True
        then show thesis using written [of parent po] put v ok Some pp False \<open>has_parent bp\<close> by (simp add: not_less)
      next
        case False
        then show thesis using unchanged put buffer_put_refused by auto
      qed
    qed
  qed
qed

lemma validate_fixup_same:
  "po \<noteq> 0 \<Longrightarrow> binder_validate_fixup env a b off_start po off po last_min = Some (last_min \<le> off)"
  by (subst binder_validate_fixup_def, subst validate_fixup_loop.simps) simp

text \<open>A parent object at offset 0 is never accepted: the offset also stands for "no object yet".\<close>

lemma fixup_parent_at_zero:
  assumes "has_parent bp" "binder_validate_ptr env (proc_alloc (bproc s p)) b (bbo_parent bp) off_start num_valid = Some v"
  shows "binder_fixup_parent env p b bp off_start num_valid 0 last_min s = Some (Some EINVAL, s)"
  using assms by (cases v) (auto simp: binder_fixup_parent_def has_parent_def binder_validate_fixup_def)

lemma put_within:
  assumes "buffer_put env p b off bs s = Some (True, s')"
  shows "unat off + length bs \<le> binder_alloc_buffer_size (proc_alloc (bproc s p)) b"
  using buffer_put_written(1) [OF assms] by (auto simp: check_buffer_def Let_def)

section \<open>Properties\<close>

text \<open>
  C34. Which bytes of a transaction are taken for an object. In a buffer whose pages are present,
  \<^verbatim>\<open>binder_get_object\<close> never faults and accepts exactly what \<open>object_at\<close> finds: an object of a known
  type at an offset divisible by four that lies completely inside the data the sender declared. Its
  size is then returned and the structure holds the bytes of the buffer; whatever the uninitialised
  structure held before has no influence on the outcome.
\<close>

theorem get_object_spec:
  assumes "ready_buffer env a b" "length obj = 40"
  shows "\<exists>n obj'. binder_get_object env a b off obj = Some (n, obj') \<and>
    (case object_at env a b (unat off) of
       None \<Rightarrow> n = 0
     | Some (ty, bs) \<Rightarrow> n = sizeof_object ty \<and> take (unat n) obj' = bs)"
  using assms by (rule get_object_eq)


text \<open>
  C35. What the driver writes into a buffer it can read again. An object of each kind the driver
  writes back, copied to an aligned offset with room for it, is stored, and \<^verbatim>\<open>binder_get_object\<close> on
  the new content returns its size, its type tag and its fields; of the union in a flat object the
  half that its type selects.
\<close>

theorem objects_read_back:
  assumes "ready_buffer env (proc_alloc (bproc s p)) b" "unat off mod 4 = 0"
    "unat off + 40 \<le> unat (data_size (bufs (proc_alloc (bproc s p)) b))" "flat_type ty"
  shows "(\<exists>s' obj. buffer_put env p b off (put_flat_binder_object ty fp) s = Some (True, s') \<and>
            binder_get_object env (proc_alloc (bproc s' p)) b off uninit = Some (sizeof_object ty, obj) \<and>
            get_u32 0 obj = binder_type_code ty \<and> same_flat ty (to_flat_binder_object obj) fp) \<and>
         (\<exists>s' obj. buffer_put env p b off (put_binder_fd_object fdo) s = Some (True, s') \<and>
            binder_get_object env (proc_alloc (bproc s' p)) b off uninit = Some (sizeof_object BINDER_TYPE_FD, obj) \<and>
            get_u32 0 obj = binder_type_code BINDER_TYPE_FD \<and> to_binder_fd_object obj = fdo) \<and>
         (\<exists>s' obj. buffer_put env p b off (put_binder_buffer_object bbo) s = Some (True, s') \<and>
            binder_get_object env (proc_alloc (bproc s' p)) b off uninit = Some (sizeof_object BINDER_TYPE_PTR, obj) \<and>
            get_u32 0 obj = binder_type_code BINDER_TYPE_PTR \<and> to_binder_buffer_object obj = bbo)"
proof -
  have le: "unat off + unat (sizeof_object t) \<le> unat (data_size (bufs (proc_alloc (bproc s p)) b))" for t
    using assms(3) sizeof_object_bounds(3) [of t] by simp
  show ?thesis
    using wire_object.put_get [OF wire_flat [OF assms(4)] assms(1,2) le]
      fd_wire.put_get [OF assms(1,2) le] ptr_wire.put_get [OF assms(1,2) le] by blast
qed

text \<open>
  C36. A pointer fixup writes nothing but the pointer. When \<^verbatim>\<open>binder_fixup_parent\<close> fails, or the object
  has no parent, the driver is unchanged. When it succeeds on an object with a parent, the parent is
  a validated buffer object that has room for a pointer at the given offset, the eight bytes written
  lie inside the transaction buffer of the target and hold the address of the child, and no other
  byte of the area and no other part of the driver differs.
\<close>

theorem fixup_parent_safe:
  assumes "binder_fixup_parent env p b bp off_start num_valid last_obj last_min s = Some (r, s')"
  defines "a \<equiv> proc_alloc (bproc s p)" and "a' \<equiv> proc_alloc (bproc s' p)"
  shows "if r = None \<and> has_parent bp
    then \<exists>parent po. binder_validate_ptr env a b (bbo_parent bp) off_start num_valid = Some (Some (parent, po)) \<and>
           unat (bbo_parent_offset bp) + 8 \<le> unat (bbo_length parent) \<and>
           unat (fixup_offset a b bp parent) + 8 \<le> binder_alloc_buffer_size a b \<and>
           s' = upd_proc p (proc_alloc_update (\<lambda>_. a')) s \<and> only_pages a a' \<and>
           (\<forall>x. area_byte env a' x =
              (let y = area_base a b + unat (fixup_offset a b bp parent)
               in if y \<le> x \<and> x < y + 8 then Some (put_u64 (bbo_buffer bp) ! (x - y)) else area_byte env a x))
    else s' = s"
  using assms(1)
proof (cases rule: fixup_parent_cases)
  case unchanged
  then show ?thesis by auto
next
  case (written parent po)
  note w = buffer_put_written [OF written(7), folded a_def a'_def]
  have "unat (bbo_parent_offset bp) + 8 \<le> unat (bbo_length parent)"
    using word_le_minus [OF written(6,5)] by simp
  moreover have "unat (fixup_offset a b bp parent) + 8 \<le> binder_alloc_buffer_size a b"
    using put_within [OF written(7)] by (simp add: a_def)
  ultimately show ?thesis
    using written(1-3) w(2-4) by (auto simp: Let_def a_def)
qed


section \<open>Concrete runs\<close>

text \<open>
  A buffer with 96 bytes of data and one offset entry: a buffer object at offset 8 that describes 16
  bytes at offset 104 of the transaction buffer.
\<close>

definition sample_parent :: binder_buffer_object where
  "sample_parent = \<lparr>bbo_flags = 0, bbo_buffer = 168, bbo_length = 16, bbo_parent = 0, bbo_parent_offset = 0\<rparr>"

definition sample_child :: binder_buffer_object where
  "sample_child = \<lparr>bbo_flags = 1, bbo_buffer = 184, bbo_length = 8, bbo_parent = 0, bbo_parent_offset = 8\<rparr>"

definition sample_image :: "nat \<Rightarrow> u8" where
  "sample_image = page_write 96 (put_u64 8) (page_write 8 (put_binder_buffer_object sample_parent) (\<lambda>_. 0))"

definition sample_buffer_alloc :: binder_alloc where
  "sample_buffer_alloc = sample_alloc
     \<lparr>buffers := [3], bufs := (\<lambda>_. zeroed_buffer)(3 := zeroed_buffer\<lparr>user_data := 64, data_size := 96, offsets_size := 8\<rparr>),
      pages := (\<lambda>i. \<lparr>page_ptr = Some (\<lambda>j. sample_image (16 * i + j)), on_lru = False\<rparr>)\<rparr>"

definition sample_object_driver :: driver where
  "sample_object_driver = upd_proc 2 (proc_alloc_update (\<lambda>_. sample_buffer_alloc)) sample_driver"

lemma sample_object_alloc [simp]: "proc_alloc (bproc sample_object_driver 2) = sample_buffer_alloc"
  by (simp add: sample_object_driver_def upd_proc_def)

lemma sample_page_size [simp]: "PAGE_SIZE sample_env = 16"
  by (simp add: PAGE_SIZE_def sample_env_def)

lemma sample_buffer_facts [simp]:
  "area_base sample_buffer_alloc 3 = 0" "binder_alloc_buffer_size sample_buffer_alloc 3 = 1024"
  "data_size (bufs sample_buffer_alloc 3) = 96" "user_base sample_buffer_alloc 3 = 64"
  by (simp_all add: sample_buffer_alloc_def sample_alloc_eq area_base_def binder_alloc_buffer_size_def
      binder_buffer_next_def user_base_def)

lemma sample_byte [simp]: "area_byte sample_env sample_buffer_alloc x = Some (sample_image x)"
  by (simp add: area_byte_def sample_buffer_alloc_def)

lemma sample_object_ready: "ready_buffer sample_env sample_buffer_alloc 3"
proof -
  have "\<not> bb_free (bufs sample_buffer_alloc 3)" "\<not> allow_user_free (bufs sample_buffer_alloc 3)"
    by (simp_all add: sample_buffer_alloc_def zeroed_buffer_def)
  then show ?thesis by (simp add: ready_buffer_def mapped_def)
qed

lemma put_ptr_length [simp]: "length (put_binder_buffer_object bp) = 40"
  by (simp add: put_binder_buffer_object_def)

lemma area_bytes_nth: "i < n \<Longrightarrow> area_bytes env a x n ! i = the (area_byte env a (x + i))"
  by (simp add: area_bytes_def)

lemma sample_bytes:
  "area_bytes sample_env sample_buffer_alloc 96 8 = put_u64 8"
  "area_bytes sample_env sample_buffer_alloc 8 40 = put_binder_buffer_object sample_parent"
  by (rule nth_equalityI; simp add: area_bytes_nth sample_image_def page_write_def)+

lemma sample_object_at: "object_at sample_env sample_buffer_alloc 3 8 = Some (BINDER_TYPE_PTR, put_binder_buffer_object sample_parent)"
  using ptr_wire.written_object_at [of sample_env sample_buffer_alloc 3 8 sample_parent] sample_bytes(2) by simp

theorem get_object_spec_witness:
  "\<exists>obj'. binder_get_object sample_env sample_buffer_alloc 3 8 uninit = Some (40, obj') \<and>
     take 40 obj' = put_binder_buffer_object sample_parent"
proof -
  have "length uninit = 40" by (simp add: uninit_def)
  from get_object_spec [OF sample_object_ready this, of 8] sample_object_at show ?thesis by auto
qed

theorem objects_read_back_witness:
  "\<exists>s' obj. buffer_put sample_env 2 3 8 (put_flat_binder_object BINDER_TYPE_HANDLE \<lparr>fp_flags = 0, fp_binder = 0, fp_handle = 3, fp_cookie = 5\<rparr>)
       sample_object_driver = Some (True, s') \<and>
     binder_get_object sample_env (proc_alloc (bproc s' 2)) 3 8 uninit = Some (24, obj) \<and> fp_handle (to_flat_binder_object obj) = 3"
proof -
  have pre: "ready_buffer sample_env (proc_alloc (bproc sample_object_driver 2)) 3" "unat (8 :: u64) mod 4 = 0"
    "unat (8 :: u64) + 40 \<le> unat (data_size (bufs (proc_alloc (bproc sample_object_driver 2)) 3))" "flat_type BINDER_TYPE_HANDLE"
    using sample_object_ready by (simp_all add: flat_type_def)
  show ?thesis
    using objects_read_back [OF pre, of "\<lparr>fp_flags = 0, fp_binder = 0, fp_handle = 3, fp_cookie = 5\<rparr>"
        "\<lparr>pad_flags = 0, fdo_fd = 0, fdo_upper = 0, fdo_cookie = 0\<rparr>" sample_parent, THEN conjunct1]
    by (auto simp: same_flat_def is_handle_type_def)
qed

lemma sample_validate_ptr:
  "binder_validate_ptr sample_env sample_buffer_alloc 3 0 96 1 = Some (Some (sample_parent, 8))"
proof -
  have c: "check_buffer sample_buffer_alloc 3 96 8" using ready_check [OF sample_object_ready] by simp
  have m: "mapped sample_env sample_buffer_alloc 96 8" by (simp add: mapped_def)
  have g: "buffer_get sample_env sample_buffer_alloc (replicate 8 0) 3 96 8 = Some (Some (put_u64 8))"
    using buffer_get_total [of sample_buffer_alloc 3 96 8 sample_env "replicate 8 0"] c m sample_bytes(1) by simp
  have "get_u64 0 (put_u64 8) = 8" using get_u64_0 [of 8 "[]"] by simp
  moreover obtain obj where obj: "binder_get_object sample_env sample_buffer_alloc 3 8 uninit = Some (40, obj)"
      "take 40 obj = put_binder_buffer_object sample_parent"
    using get_object_eq [OF sample_object_ready, of uninit 8] sample_object_at by (auto simp: uninit_def)
  have "obj = put_binder_buffer_object sample_parent @ drop 40 obj" using obj(2) by (metis append_take_drop_id)
  then have "get_u32 0 obj = binder_type_code BINDER_TYPE_PTR" "to_binder_buffer_object obj = sample_parent"
    using ptr_wire.enc_type ptr_wire.dec_enc by metis+
  ultimately show ?thesis using g obj(1) by (simp add: binder_validate_ptr_def)
qed

theorem fixup_parent_safe_witness:
  "\<exists>s'. binder_fixup_parent sample_env 2 3 sample_child 96 1 8 0 sample_object_driver = Some (None, s') \<and>
     area_byte sample_env (proc_alloc (bproc s' 2)) 112 = Some 184 \<and>
     area_byte sample_env (proc_alloc (bproc s' 2)) 120 = Some (sample_image 120)"
proof -
  obtain s' where put: "buffer_put sample_env 2 3 112 (put_u64 184) sample_object_driver = Some (True, s')"
    using buffer_put_total [of sample_env sample_object_driver 2 3 112 "put_u64 184"] sample_object_ready by auto
  have hp: "has_parent sample_child" by (simp add: has_parent_def sample_child_def BINDER_BUFFER_FLAG_HAS_PARENT_def)
  have off: "fixup_offset sample_buffer_alloc 3 sample_child sample_parent = 112"
    by (simp add: fixup_offset_def sample_child_def sample_parent_def)
  have run: "binder_fixup_parent sample_env 2 3 sample_child 96 1 8 0 sample_object_driver = Some (None, s')"
    using sample_validate_ptr hp put off
    by (simp add: binder_fixup_parent_def has_parent_def fixup_offset_def validate_fixup_same sample_child_def sample_parent_def)
  have "put_u64 184 ! 0 = 184" using le_bytes_nth_0 [of 8] by (simp add: put_u64_def)
  moreover have child: "bbo_parent sample_child = 0" "bbo_buffer sample_child = 184" by (simp_all add: sample_child_def)
  have "area_byte sample_env (proc_alloc (bproc s' 2)) x =
      (if 112 \<le> x \<and> x < 120 then Some (put_u64 184 ! (x - 112)) else Some (sample_image x))" for x
    using fixup_parent_safe [OF run] hp off sample_validate_ptr by (simp add: child Let_def)
  ultimately show ?thesis using run by simp
qed

end
