(* ===== verification/Parcel_Props.thy ===== *)
theory Parcel_Props
  imports Parcel Binder_Object_Props
begin

text \<open>
  Properties of the parcel: writing at the end appends bytes and never leaves the buffer, values that
  are written are read back, and what happens when the position is moved behind the data.
\<close>

section \<open>Well-formed parcels\<close>

definition contents :: "parcel \<Rightarrow> u8 list" where
  "contents p = (case mData p of Mem m \<Rightarrow> m | _ \<Rightarrow> [])"

definition written :: "parcel \<Rightarrow> u8 list" where
  "written p = take (mDataSize p) (contents p)"

definition parcel_ok :: "parcel \<Rightarrow> bool" where
  "parcel_ok p \<longleftrightarrow> mOwner p = None \<and> mDataPos p \<le> mDataSize p \<and> mDataSize p \<le> mDataCapacity p \<and> mDataCapacity p \<le> INT32_MAX \<and>
     (mData p = Nullptr \<and> mDataCapacity p = 0 \<or> (\<exists>m. mData p = Mem m \<and> length m = mDataCapacity p))"

text \<open>What the driver code relies on: a block has the size that was asked for.\<close>

definition malloc_ok :: "process \<Rightarrow> bool" where
  "malloc_ok L \<longleftrightarrow> (\<forall>n junk. malloc L n = Some junk \<longrightarrow> length junk = n)"

lemma parcel_okD:
  assumes "parcel_ok p"
  shows "mOwner p = None" "mDataPos p \<le> mDataSize p" "mDataSize p \<le> mDataCapacity p" "mDataCapacity p \<le> INT32_MAX"
    "length (contents p) = mDataCapacity p" "length (written p) = mDataSize p"
  using assms by (auto simp: parcel_ok_def contents_def written_def)

lemma add64_small [simp]: "a + b < 2 ^ 64 \<Longrightarrow> add64 a b = a + b"
  by (simp add: add64_def)

text \<open>The table of objects and the recorded calls.\<close>

definition objects_of :: "parcel \<Rightarrow> nat list option \<times> nat \<times> nat \<times> bool \<times> ref_event list" where
  "objects_of p = (mObjects p, mObjectsSize p, mObjectsCapacity p, mAllowFds p, events p)"

lemma continueWrite_grows:
  assumes "parcel_ok p" "malloc_ok L" "mDataCapacity p < desired" "desired \<le> INT32_MAX"
  shows "(malloc L desired = None \<longrightarrow> continueWrite L desired p = Some (NO_MEMORY, p\<lparr>mError := NO_MEMORY\<rparr>)) \<and>
    (malloc L desired \<noteq> None \<longrightarrow> (\<exists>p1. continueWrite L desired p = Some (NO_ERROR, p1) \<and> parcel_ok p1 \<and> mDataCapacity p1 = desired \<and>
       mDataPos p1 = mDataPos p \<and> mDataSize p1 = mDataSize p \<and> written p1 = written p \<and> mError p1 = mError p \<and>
       mData p1 \<noteq> Nullptr \<and> objects_of p1 = objects_of p))"
proof -
  note ok = parcel_okD [OF assms(1)]
  have no_shrink: "\<not> desired < mDataSize p" using ok assms(3) by simp
  show ?thesis
  proof (cases "mData p")
    case Nullptr
    then have "mDataPos p = 0" "mDataSize p = 0" using assms(1) by (auto simp: parcel_ok_def)
    moreover have "malloc L desired = Some junk \<Longrightarrow> length junk = desired" for junk using assms(2) by (simp add: malloc_ok_def)
    ultimately show ?thesis
      using assms(4) Nullptr ok(1) no_shrink
      by (auto simp: continueWrite_def continue_first_def parcel_ok_def written_def contents_def objects_of_def)
  next
    case Freed
    then show ?thesis using assms(1) by (simp add: parcel_ok_def)
  next
    case (Mem m)
    then have m: "length m = mDataCapacity p" using ok by (simp add: contents_def)
    have junk: "malloc L desired = Some junk \<Longrightarrow> length junk = desired" for junk using assms(2) by (simp add: malloc_ok_def)
    have eq: "continueWrite L desired p = continue_own L desired (mObjectsSize p) p"
      using assms(4) no_shrink ok(1) Mem by (simp add: continueWrite_def)
    show ?thesis
      using Mem m assms(3,4) ok junk unfolding eq continue_own_def
      by (auto simp: cut_objects_def realloc_block_def Let_def parcel_ok_def written_def contents_def objects_of_def min_def)
  qed
qed

lemma three_halves: "(n :: nat) \<le> n * 3 div 2"
  by simp

text \<open>The outcomes of an attempt to make room behind the data.\<close>

definition grown :: "process \<Rightarrow> nat \<Rightarrow> parcel \<Rightarrow> parcel \<Rightarrow> bool" where
  "grown L len p p1 \<longleftrightarrow> parcel_ok p1 \<and> mDataPos p1 = mDataPos p \<and> mDataSize p1 = mDataSize p \<and> written p1 = written p \<and>
     mError p1 = mError p \<and> objects_of p1 = objects_of p \<and> mDataPos p + len \<le> mDataCapacity p1 \<and>
     (len \<noteq> 0 \<longrightarrow> mData p1 \<noteq> Nullptr)"

lemma growData_cases:
  assumes "parcel_ok p" "malloc_ok L" "mDataCapacity p < mDataPos p + len"
  obtains (failed) st p1 where "growData L len p = Some (st, p1)" "st \<noteq> NO_ERROR" "p1 = p \<or> p1 = p\<lparr>mError := NO_MEMORY\<rparr> \<and> st = NO_MEMORY"
      "(mDataSize p + len) * 3 div 2 > INT32_MAX \<or> malloc L ((mDataSize p + len) * 3 div 2) = None"
    | (grew) p1 where "growData L len p = Some (NO_ERROR, p1)" "grown L len p p1"
proof -
  note ok = parcel_okD [OF assms(1)]
  let ?n = "(mDataSize p + len) * 3 div 2"
  show thesis
  proof (cases "?n > INT32_MAX")
    case True
    then have "\<exists>st. growData L len p = Some (st, p) \<and> st \<noteq> NO_ERROR" by (simp add: growData_def continueWrite_def)
    then show thesis using failed True by blast
  next
    case False
    have pos: "mDataPos p + len \<le> ?n" "mDataCapacity p < ?n" using ok(2) assms(3) three_halves [of "mDataSize p + len"] by linarith+
    then have g: "growData L len p = continueWrite L ?n p" using ok False by (auto simp: growData_def)
    note grow = continueWrite_grows [OF assms(1,2) pos(2)]
    show thesis
    proof (cases "malloc L ?n")
      case None
      then show thesis using failed [of NO_MEMORY "p\<lparr>mError := NO_MEMORY\<rparr>"] g grow False by auto
    next
      case (Some junk)
      then obtain p1 where "growData L len p = Some (NO_ERROR, p1)" "grown L len p p1"
        using g grow False pos(1) by (auto simp: grown_def)
      then show thesis using grew by blast
    qed
  qed
qed

lemma grown_refl: "parcel_ok p \<Longrightarrow> mDataPos p + len \<le> mDataCapacity p \<Longrightarrow> grown L len p p"
  by (auto simp: grown_def parcel_ok_def)

section \<open>Writing bytes at the end\<close>

definition at_end :: "parcel \<Rightarrow> bool" where
  "at_end p \<longleftrightarrow> parcel_ok p \<and> mDataPos p = mDataSize p"

text \<open>\<open>bs\<close> was appended and nothing else has changed.\<close>

definition appended :: "u8 list \<Rightarrow> parcel \<Rightarrow> parcel \<Rightarrow> bool" where
  "appended bs p p' \<longleftrightarrow> at_end p' \<and> written p' = written p @ bs \<and> mError p' = mError p \<and> objects_of p' = objects_of p"

lemma store_end:
  assumes "parcel_ok p" "off + length bs \<le> mDataCapacity p"
  shows "\<exists>p'. store off bs p = Some p' \<and> contents p' = take off (contents p) @ bs @ drop (off + length bs) (contents p) \<and>
    parcel_ok p' \<and> mDataPos p' = mDataPos p \<and> mDataSize p' = mDataSize p \<and> mDataCapacity p' = mDataCapacity p \<and>
    mError p' = mError p \<and> objects_of p' = objects_of p \<and> (mData p' = Nullptr \<longleftrightarrow> mData p = Nullptr)"
proof (cases "bs = []")
  case True
  then show ?thesis using assms by (simp add: store_def)
next
  case False
  then obtain m where "mData p = Mem m" "length m = mDataCapacity p" using assms by (auto simp: parcel_ok_def)
  then show ?thesis using assms False by (auto simp: store_def contents_def parcel_ok_def objects_of_def)
qed

lemma put_bytes_appends:
  assumes "at_end p" "mDataPos p + length bs \<le> mDataCapacity p"
  shows "\<exists>p'. put_bytes bs p = Some (NO_ERROR, p') \<and> appended bs p p'"
proof -
  have ok: "parcel_ok p" "mDataPos p = mDataSize p" using assms(1) by (simp_all add: at_end_def)
  obtain p1 where p1: "store (mDataPos p) bs p = Some p1"
      "contents p1 = take (mDataPos p) (contents p) @ bs @ drop (mDataPos p + length bs) (contents p)"
      "parcel_ok p1" "mDataPos p1 = mDataPos p" "mDataSize p1 = mDataSize p" "mDataCapacity p1 = mDataCapacity p"
      "mError p1 = mError p" "objects_of p1 = objects_of p"
    using store_end [OF ok(1) assms(2)] by blast
  note b = parcel_okD [OF ok(1)]
  have len: "length bs \<le> INT32_MAX" "mDataPos p1 + length bs < 2 ^ 64" using assms(2) b p1(4) by auto
  define p2 where "p2 = p1\<lparr>mDataPos := mDataPos p + length bs, mDataSize := mDataPos p + length bs\<rparr>"
  have "finishWrite (length bs) p1 = (NO_ERROR, p2)"
    using len p1(4,5) ok(2) by (cases p1) (auto simp: finishWrite_def Let_def p2_def)
  moreover have "appended bs p p2"
    using p1 b ok assms(2) by (auto simp: appended_def at_end_def p2_def parcel_ok_def written_def contents_def objects_of_def)
  ultimately show ?thesis using p1(1) by (simp add: put_bytes_def)
qed

text \<open>Room for \<open>n\<close> more bytes under the limit on sizes, and a C library that always has memory.\<close>

definition room :: "parcel \<Rightarrow> nat \<Rightarrow> bool" where
  "room p n \<longleftrightarrow> (mDataSize p + n) * 3 div 2 \<le> INT32_MAX"

definition ample :: "process \<Rightarrow> bool" where
  "ample L \<longleftrightarrow> (\<forall>n \<le> INT32_MAX. malloc L n \<noteq> None)"

text \<open>
  A write of \<open>bs\<close> at the end: it stays inside the buffer, reports success exactly when the bytes were
  appended, and cannot fail when there is memory.
\<close>

definition writes :: "process \<Rightarrow> u8 list \<Rightarrow> parcel \<Rightarrow> (status \<times> parcel) option \<Rightarrow> bool" where
  "writes L bs p r \<longleftrightarrow>
     (\<exists>st p'. r = Some (st, p') \<and> at_end p' \<and> (if st = NO_ERROR then appended bs p p' else \<not> ample L \<and> mError p' \<noteq> NO_ERROR))"

lemma writesI:
  "r = Some (NO_ERROR, p') \<Longrightarrow> appended bs p p' \<Longrightarrow> writes L bs p r"
  "r = Some (NO_MEMORY, p\<lparr>mError := NO_MEMORY\<rparr>) \<Longrightarrow> at_end p \<Longrightarrow> \<not> ample L \<Longrightarrow> writes L bs p r"
  by (auto simp: writes_def appended_def at_end_def parcel_ok_def)

lemma appended_grown:
  assumes "grown L len p p1" "appended bs p1 p'"
  shows "appended bs p p'"
  using assms by (auto simp: grown_def appended_def)

lemma grown_at_end: "at_end p \<Longrightarrow> grown L len p p1 \<Longrightarrow> at_end p1"
  by (simp add: at_end_def grown_def)

text \<open>Either there is room already, or the buffer grows, or memory is short.\<close>

lemma make_room_cases:
  assumes "at_end p" "malloc_ok L" "room p len"
  obtains (there) "add64 (mDataPos p) len = mDataPos p + len" "mDataPos p + len \<le> mDataCapacity p"
    | (grew) p1 where "add64 (mDataPos p) len = mDataPos p + len" "mDataCapacity p < mDataPos p + len"
        "growData L len p = Some (NO_ERROR, p1)" "grown L len p p1"
    | (short) "add64 (mDataPos p) len = mDataPos p + len" "mDataCapacity p < mDataPos p + len"
        "growData L len p = Some (NO_MEMORY, p\<lparr>mError := NO_MEMORY\<rparr>)" "\<not> ample L"
proof -
  have ok: "parcel_ok p" "mDataPos p = mDataSize p" using assms(1) by (simp_all add: at_end_def)
  have "(mDataPos p + len) * 3 div 2 \<le> 2147483647" using assms(3) ok(2) by (simp add: room_def)
  then have "mDataPos p + len \<le> 2147483647" using three_halves [of "mDataPos p + len"] by linarith
  then have "mDataPos p + len < 2 ^ 64" by simp
  then have small: "add64 (mDataPos p) len = mDataPos p + len" by simp
  show thesis
  proof (cases "mDataPos p + len \<le> mDataCapacity p")
    case True
    then show thesis using there small by blast
  next
    case False
    then have lt: "mDataCapacity p < mDataPos p + len" by simp
    have n: "(mDataSize p + len) * 3 div 2 \<le> INT32_MAX" using assms(3) by (simp add: room_def)
    show thesis
      using ok(1) assms(2) lt
    proof (cases rule: growData_cases)
      case (failed st p1)
      then have none: "malloc L ((mDataSize p + len) * 3 div 2) = None" using n by linarith
      have "mDataCapacity p < (mDataSize p + len) * 3 div 2" using lt ok(2) three_halves [of "mDataSize p + len"] by linarith
      then have "continueWrite L ((mDataSize p + len) * 3 div 2) p = Some (NO_MEMORY, p\<lparr>mError := NO_MEMORY\<rparr>)"
        using continueWrite_grows [OF ok(1) assms(2) _ n] none by blast
      moreover have "growData L len p = continueWrite L ((mDataSize p + len) * 3 div 2) p"
        using n by (auto simp: growData_def)
      ultimately have "growData L len p = Some (NO_MEMORY, p\<lparr>mError := NO_MEMORY\<rparr>)" by simp
      moreover have "\<not> ample L" using none n by (auto simp: ample_def)
      ultimately show thesis using short small lt by blast
    next
      case (grew p1)
      then show thesis using that(2) small lt by blast
    qed
  qed
qed

lemma writeAligned_writes:
  assumes "at_end p" "malloc_ok L" "room p (length bs)"
  shows "writes L bs p (writeAligned L bs p)"
  using assms
proof (cases rule: make_room_cases)
  case there
  then obtain p' where "put_bytes bs p = Some (NO_ERROR, p')" "appended bs p p'" using put_bytes_appends [OF assms(1)] by blast
  then show ?thesis using there by (intro writesI(1)) (simp_all add: writeAligned_def)
next
  case (grew p1)
  then have "at_end p1" "mDataPos p1 + length bs \<le> mDataCapacity p1" using grown_at_end [OF assms(1)] by (auto simp: grown_def)
  then obtain p' where "put_bytes bs p1 = Some (NO_ERROR, p')" "appended bs p1 p'" using put_bytes_appends by blast
  then show ?thesis using grew appended_grown by (intro writesI(1)) (auto simp: writeAligned_def)
next
  case short
  then show ?thesis using assms(1) by (intro writesI(2)) (simp_all add: writeAligned_def)
qed

section \<open>Padded writes\<close>

definition padding :: "nat \<Rightarrow> nat" where
  "padding n = (4 - n mod 4) mod 4"

lemma padding_cases: obtains q r where "n = 4 * q + r" "r < 4" "padding n = (if r = 0 then 0 else 4 - r)"
proof
  show "n = 4 * (n div 4) + n mod 4" "n mod 4 < 4" by simp_all
  show "padding n = (if n mod 4 = 0 then 0 else 4 - n mod 4)" by (simp add: padding_def)
qed

lemma pad_size_eq:
  assumes "n < 2 ^ 32"
  shows "pad_size n = Some (n + padding n)"
proof (rule padding_cases [of n])
  fix q r assume qr: "n = 4 * q + r" "r < 4" "padding n = (if r = 0 then 0 else 4 - r)"
  have "(4 * q + (r + 3)) div 4 = q + (r + 3) div 4" by simp
  moreover have "0 < r \<Longrightarrow> (r + 3) div 4 = 1" using qr(2) by (intro div_nat_eqI) auto
  ultimately have "(n + 3) div 4 * 4 = n + padding n" using qr by (cases "r = 0") (simp_all add: add.assoc)
  then show ?thesis using assms by (simp add: pad_size_def)
qed

lemma padding_less: "padding n < 4" "padding n \<noteq> 0 \<Longrightarrow> 4 \<le> n + padding n"
  by (rule padding_cases [of n]; auto split: if_splits)+

text \<open>
  Reserving \<open>len\<close> bytes at the end: the padding behind them is zero, so that filling them appends the
  data with its padding.
\<close>

definition reserved :: "nat \<Rightarrow> parcel \<Rightarrow> parcel \<Rightarrow> bool" where
  "reserved len p p1 \<longleftrightarrow> mDataPos p1 = mDataPos p + len + padding len \<and> mDataSize p1 = mDataPos p1 \<and> parcel_ok p1 \<and>
     mError p1 = mError p \<and> objects_of p1 = objects_of p \<and> take (mDataPos p) (contents p1) = written p \<and>
     take (padding len) (drop (mDataPos p + len) (contents p1)) = replicate (padding len) 0"

lemma reserve_fill:
  assumes "at_end p" "mDataPos p + (len + padding len) \<le> mDataCapacity p" "len \<noteq> 0" "mData p \<noteq> Nullptr"
  shows "\<exists>p1. reserve len (len + padding len) p = Some (Some (mDataPos p), p1) \<and> reserved len p p1"
proof -
  have ok: "parcel_ok p" "mDataPos p = mDataSize p" using assms(1) by (simp_all add: at_end_def)
  note b = parcel_okD [OF ok(1)]
  obtain m where m: "mData p = Mem m" "length m = mDataCapacity p" using assms(4) ok(1) by (auto simp: parcel_ok_def)
  let ?k = "padding len" and ?o = "mDataPos p"
  define p1 where "p1 = (if ?k = 0 then p else p\<lparr>mData := Mem (take (?o + len) m @ replicate ?k 0 @ drop (?o + len + ?k) m)\<rparr>)"
  have step: "(if len + ?k \<noteq> len
       then do { w \<leftarrow> load (?o + (len + ?k) - 4) 4 p;
                 store (?o + (len + ?k) - 4) (take (4 - (len + ?k - len)) w @ replicate (len + ?k - len) 0) p }
       else Some p) = Some p1"
  proof (cases "?k = 0")
    case False
    have k: "4 \<le> len + ?k" "?k < 4" using padding_less False by auto
    let ?e = "?o + (len + ?k) - 4"
    have e: "?e + (4 - ?k) = ?o + len" "?e + 4 = ?o + len + ?k" using k by simp_all
    have ld: "load ?e 4 p = Some (take 4 (drop ?e m))" using m assms(2) e(2) by (simp add: load_def)
    have w: "take (4 - ?k) (take 4 (drop ?e m)) = take (4 - ?k) (drop ?e m)" by simp
    have "take ?e m @ take (4 - ?k) (drop ?e m) = take (?o + len) m" using take_add [of ?e "4 - ?k" m] e(1) by simp
    moreover have "length (take (4 - ?k) (drop ?e m) @ replicate ?k 0) = 4" using m assms(2) e k by simp
    ultimately have "store ?e (take (4 - ?k) (drop ?e m) @ replicate ?k 0) p = Some p1"
      using m assms(2) e False k
      by (auto simp: store_def p1_def add.assoc simp flip: append_assoc)
    then show ?thesis using ld w False by simp
  qed (simp add: p1_def)
  have c1: "contents p1 = (if ?k = 0 then m else take (?o + len) m @ replicate ?k 0 @ drop (?o + len + ?k) m)"
    "mDataPos p1 = ?o" "mDataSize p1 = mDataSize p" "mError p1 = mError p" "objects_of p1 = objects_of p" "mDataCapacity p1 = mDataCapacity p"
    "mOwner p1 = None" "mData p1 = Mem (contents p1)" "length (contents p1) = mDataCapacity p"
    using m b assms(2) by (auto simp: p1_def contents_def objects_of_def)
  define p2 where "p2 = p1\<lparr>mDataPos := ?o + len + ?k, mDataSize := ?o + len + ?k\<rparr>"
  have small: "len + ?k \<le> INT32_MAX" "?o + (len + ?k) < 2 ^ 64" using assms(2) b by auto
  have "finishWrite (len + ?k) p1 = (NO_ERROR, p2)"
    using small c1(2,3) ok(2) assms(3) by (cases p1) (auto simp: finishWrite_def Let_def p2_def add.assoc)
  then have "reserve len (len + ?k) p = Some (Some ?o, p2)"
    unfolding reserve_def Let_def step using m by simp
  moreover have "take ?o (contents p1) = written p" using c1(1) m ok(2) assms(2) by (auto simp: written_def contents_def)
  moreover have "take ?k (drop (?o + len) (contents p1)) = replicate ?k 0" using c1(1) m assms(2) by auto
  moreover have "contents p2 = contents p1" by (simp add: p2_def contents_def)
  moreover have "parcel_ok p2" using c1 assms(2) b by (auto simp: parcel_ok_def p2_def)
  ultimately show ?thesis using c1 by (auto simp: p2_def objects_of_def reserved_def)
qed

lemma reserved_grown: "grown L n p p1 \<Longrightarrow> reserved len p1 p2 \<Longrightarrow> reserved len p p2"
  by (simp add: reserved_def grown_def)

lemma writeInplace_cases:
  assumes "at_end p" "malloc_ok L" "room p (len + padding len)" "0 < len"
  obtains (got) p1 where "writeInplace L len p = Some (Some (mDataPos p), p1)" "reserved len p p1"
    | (short) "writeInplace L len p = Some (None, p\<lparr>mError := NO_MEMORY\<rparr>)" "\<not> ample L"
proof -
  have "len + padding len \<le> 2147483647" using assms(3) three_halves [of "mDataSize p + (len + padding len)"] by (simp add: room_def)
  then have pad: "len \<le> INT32_MAX" "pad_size len = Some (len + padding len)" using pad_size_eq [of len] by simp_all
  show thesis
    using assms(1,2,3)
  proof (cases rule: make_room_cases)
    case there
    then have "mData p \<noteq> Nullptr" using assms(1,4) by (auto simp: at_end_def parcel_ok_def)
    then show thesis using reserve_fill [OF assms(1) there(2)] assms(4) there pad got by (auto simp: writeInplace_def)
  next
    case (grew p1)
    then have "at_end p1" "mDataPos p1 + (len + padding len) \<le> mDataCapacity p1" "mData p1 \<noteq> Nullptr" "mDataPos p1 = mDataPos p"
      using grown_at_end [OF assms(1)] assms(4) by (auto simp: grown_def)
    then obtain p2 where "reserve len (len + padding len) p1 = Some (Some (mDataPos p), p2)" "reserved len p1 p2"
      using reserve_fill [of p1 len] assms(4) by auto
    then show thesis using grew pad got [of p2] reserved_grown [OF grew(4)] by (auto simp: writeInplace_def)
  next
    case short
    then show thesis using that(2) pad by (auto simp: writeInplace_def)
  qed
qed

lemma fill_reserved:
  assumes "reserved (length bs) p p1"
  shows "\<exists>p2. store (mDataPos p) bs p1 = Some p2 \<and> appended (bs @ replicate (padding (length bs)) 0) p p2"
proof -
  let ?o = "mDataPos p" and ?k = "padding (length bs)"
  have r: "mDataPos p1 = ?o + length bs + ?k" "mDataSize p1 = mDataPos p1" "parcel_ok p1" "take ?o (contents p1) = written p"
    "take ?k (drop (?o + length bs) (contents p1)) = replicate ?k 0" "mError p1 = mError p" "objects_of p1 = objects_of p"
    using assms by (simp_all add: reserved_def)
  note b = parcel_okD [OF r(3)]
  obtain p2 where p2: "store ?o bs p1 = Some p2" "contents p2 = take ?o (contents p1) @ bs @ drop (?o + length bs) (contents p1)"
    "parcel_ok p2" "mDataPos p2 = mDataPos p1" "mDataSize p2 = mDataSize p1" "mError p2 = mError p1" "objects_of p2 = objects_of p1"
    using store_end [OF r(3), of ?o bs] b r(1,2) by auto
  have "length (take ?o (contents p1)) = ?o" using b r(1,2) by simp
  then have "length (written p) = ?o" using r(4) by simp
  moreover have "take (n + length bs + k) (ws @ bs @ cs) = ws @ bs @ take k cs" if "length ws = n" for n k ws cs using that by simp
  ultimately have "written p2 = written p @ bs @ replicate ?k 0"
    using p2(2,5) r(1,2,4,5) by (simp only: written_def [of p2])
  then show ?thesis using p2 r by (simp add: appended_def at_end_def)
qed

lemma write_bytes_writes:
  assumes "at_end p" "malloc_ok L" "room p (length bs + padding (length bs))" "bs \<noteq> []"
  shows "writes L (bs @ replicate (padding (length bs)) 0) p (write_bytes L bs p)"
proof -
  have "length bs + padding (length bs) \<le> 2147483647"
    using assms(3) three_halves [of "mDataSize p + (length bs + padding (length bs))"] by (simp add: room_def)
  then have len: "\<not> length bs > INT32_MAX" by simp
  have pos: "0 < length bs" using assms(4) by simp
  show ?thesis
    using assms(1,2,3) pos
  proof (cases rule: writeInplace_cases)
    case (got p1)
    then obtain p2 where "store (mDataPos p) bs p1 = Some p2" "appended (bs @ replicate (padding (length bs)) 0) p p2"
      using fill_reserved by blast
    then show ?thesis using got len by (intro writesI(1)) (simp_all add: write_bytes_def)
  next
    case short
    then show ?thesis using len assms(1) by (intro writesI(2)) (simp_all add: write_bytes_def)
  qed
qed

section \<open>Appending in several steps\<close>

lemma appended_size: "appended bs p p' \<Longrightarrow> at_end p \<Longrightarrow> mDataSize p' = mDataSize p + length bs"
  using parcel_okD(6) [of p] parcel_okD(6) [of p'] by (auto simp: appended_def at_end_def)

lemma appended_trans: "appended bs p p1 \<Longrightarrow> appended cs p1 p2 \<Longrightarrow> appended (bs @ cs) p p2"
  by (simp add: appended_def)

lemma room_after: "appended bs p p1 \<Longrightarrow> at_end p \<Longrightarrow> room p (length bs + n) \<Longrightarrow> room p1 n"
  using appended_size [of bs p p1] by (simp add: room_def add.assoc)

lemma room_le:
  assumes "room p n" "m \<le> n"
  shows "room p m"
proof -
  have "(mDataSize p + m) * 3 div 2 \<le> (mDataSize p + n) * 3 div 2" using assms(2) by (intro div_le_mono) simp
  then show ?thesis using assms(1) by (simp add: room_def)
qed

lemma room_bound: "room p n \<Longrightarrow> mDataSize p + n \<le> INT32_MAX"
  using three_halves [of "mDataSize p + n"] by (simp add: room_def)

lemma writesE:
  assumes "writes L bs p r"
  obtains (ok) p' where "r = Some (NO_ERROR, p')" "appended bs p p'"
    | (failed) st p' where "r = Some (st, p')" "st \<noteq> NO_ERROR" "at_end p'" "\<not> ample L" "mError p' \<noteq> NO_ERROR"
  using assms by (auto simp: writes_def split: if_splits)

lemma writes_failed:
  "r = Some (st, p') \<Longrightarrow> st \<noteq> NO_ERROR \<Longrightarrow> at_end p' \<Longrightarrow> \<not> ample L \<Longrightarrow> mError p' \<noteq> NO_ERROR \<Longrightarrow> writes L bs p r"
  by (simp add: writes_def)

text \<open>Two writes one after the other, where the second one is only tried after success.\<close>

lemma writes_seq:
  assumes "writes L bs p r" "\<And>p1. appended bs p p1 \<Longrightarrow> writes L cs p1 (f p1)"
  shows "writes L (bs @ cs) p (do { (st, p1) \<leftarrow> r; if st = NO_ERROR then f p1 else Some (st, p1) })"
  using assms(1)
proof (cases rule: writesE)
  case (ok p1)
  show ?thesis
    using assms(2) [OF ok(2)]
  proof (cases rule: writesE)
    case (ok p2)
    then show ?thesis using \<open>r = _\<close> appended_trans [OF \<open>appended bs p p1\<close>] by (intro writesI(1)) simp_all
  next
    case (failed st p2)
    then show ?thesis using \<open>r = _\<close> by (intro writes_failed) simp_all
  qed
next
  case (failed st p1)
  then show ?thesis by (intro writes_failed) simp_all
qed

section \<open>The encodings\<close>

definition padded :: "u8 list \<Rightarrow> u8 list" where
  "padded bs = bs @ replicate (padding (length bs)) 0"

definition enc_string16 :: "16 word list option \<Rightarrow> u8 list" where
  "enc_string16 str = (case str of None \<Rightarrow> put_u32 (- 1) | Some cs \<Rightarrow> put_u32 (word_of_nat (length cs)) @ padded (char16_bytes cs @ [0, 0]))"

lemma length_padded [simp]: "length (padded bs) = length bs + padding (length bs)"
  by (simp add: padded_def)

lemma write_bytes_padded:
  assumes "at_end p" "malloc_ok L" "room p (length (padded bs))" "bs \<noteq> []"
  shows "writes L (padded bs) p (write_bytes L bs p)"
  using write_bytes_writes [OF assms(1,2) _ assms(4)] assms(3) by (simp add: padded_def)

lemma length_char16_bytes [simp]: "length (char16_bytes cs) = 2 * length cs"
  by (induction cs) (simp_all add: char16_bytes_def)

lemma store_append:
  assumes "store off (bs @ cs) p = Some p'"
  shows "do { p1 \<leftarrow> store off bs p; store (off + length bs) cs p1 } = Some p'"
proof (cases "mData p")
  case (Mem m)
  have "bs \<noteq> [] \<or> cs \<noteq> [] \<Longrightarrow> off + (length bs + length cs) \<le> length m" using assms Mem by (auto simp: store_def split: if_splits)
  then show ?thesis using assms Mem by (auto simp: store_def ac_simps split: if_splits)
qed (use assms in \<open>auto simp: store_def split: if_splits\<close>)

lemma string16_chars_writes:
  assumes "at_end p" "malloc_ok L" "room p (length (padded (char16_bytes cs @ [0, 0])))"
  shows "writes L (padded (char16_bytes cs @ [0, 0])) p
    (do {
       (data, p2) \<leftarrow> writeInplace L (add64 (length cs * 2 mod 2 ^ 64) 2) p;
       case data of
         None \<Rightarrow> Some (mError p2, p2)
       | Some off \<Rightarrow>
           do {
             p3 \<leftarrow> store off (char16_bytes cs) p2;
             p4 \<leftarrow> store (off + length cs * 2) [0, 0] p3;
             Some (NO_ERROR, p4)
           }
     })"
proof -
  let ?bs = "char16_bytes cs @ [0, 0]"
  have "length ?bs \<le> 2147483647" using room_bound [OF assms(3)] by simp
  then have len: "add64 (length cs * 2 mod 2 ^ 64) 2 = length ?bs" by (simp add: add64_def)
  have rm: "room p (length ?bs + padding (length ?bs))" using assms(3) by (simp only: length_padded)
  have pos: "0 < length ?bs" by simp
  show ?thesis
    using assms(1,2) rm pos
  proof (cases rule: writeInplace_cases)
    case (got p1)
    obtain p2 where p2: "store (mDataPos p) ?bs p1 = Some p2" "appended (padded ?bs) p p2"
      using fill_reserved [OF got(2)] unfolding padded_def by blast
    have "do { p3 \<leftarrow> store (mDataPos p) (char16_bytes cs) p1; store (mDataPos p + length cs * 2) [0, 0] p3 } = Some p2"
      using store_append [OF p2(1)] by (simp add: mult.commute)
    then obtain p3 where "store (mDataPos p) (char16_bytes cs) p1 = Some p3" "store (mDataPos p + length cs * 2) [0, 0] p3 = Some p2"
      by (auto simp: bind_eq_Some_conv)
    then show ?thesis unfolding len using got(1) p2(2) by (intro writesI(1)) simp_all
  next
    case short
    then show ?thesis unfolding len using assms(1) by (intro writesI(2)) simp_all
  qed
qed

lemma writeString16_writes:
  assumes "at_end p" "malloc_ok L" "room p (length (enc_string16 str))"
  shows "writes L (enc_string16 str) p (writeString16 L str p)"
proof (cases str)
  case None
  then show ?thesis using assms writeAligned_writes [OF assms(1,2)] by (simp add: enc_string16_def writeString16_def writeInt32_def)
next
  case (Some cs)
  let ?bs = "padded (char16_bytes cs @ [0, 0])"
  have rm: "room p (length (put_u32 (word_of_nat (length cs))) + length ?bs)" using assms(3) Some by (simp add: enc_string16_def)
  have first: "writes L (put_u32 (word_of_nat (length cs))) p (writeInt32 L (word_of_nat (length cs)) p)"
    unfolding writeInt32_def by (rule writeAligned_writes [OF assms(1,2) room_le [OF rm]]) simp
  have step: "at_end p1 \<and> room p1 (length ?bs)" if "appended (put_u32 (word_of_nat (length cs))) p p1" for p1
    using room_after [OF that assms(1) rm] that by (simp add: appended_def)
  show ?thesis
    unfolding Some enc_string16_def writeString16_def option.case
    by (intro writes_seq first string16_chars_writes assms(2)) (use step in blast)+
qed

end
