(* ===== verification/Parcel_Codec.thy ===== *)
theory Parcel_Codec
  imports Parcel_Props
begin

text \<open>
  Reading back what was written: the contract of a pair of write and read operations, its instances for the
  integers and strings of a parcel, and the round trip of a sequence of values.
\<close>

section \<open>Reading bytes\<close>

definition unread :: "parcel \<Rightarrow> u8 list" where
  "unread p = drop (mDataPos p) (written p)"

text \<open>The position has moved over \<open>n\<close> bytes; the data is untouched.\<close>

definition advanced :: "nat \<Rightarrow> parcel \<Rightarrow> parcel \<Rightarrow> bool" where
  "advanced n p p' \<longleftrightarrow> mDataPos p' = mDataPos p + n \<and> mDataSize p' = mDataSize p \<and> mDataCapacity p' = mDataCapacity p \<and>
     mData p' = mData p \<and> mOwner p' = mOwner p \<and> objects_of p' = objects_of p \<and> mError p' = mError p"

lemma advanced_trans: "advanced n p p1 \<Longrightarrow> advanced m p1 p2 \<Longrightarrow> advanced (n + m) p p2"
  by (simp add: advanced_def)

lemma unread_facts:
  assumes "parcel_ok p" "unread p = bs @ rest"
  shows "mDataPos p + length bs + length rest = mDataSize p" "mDataPos p + length bs \<le> INT32_MAX"
    "bs \<noteq> [] \<Longrightarrow> \<exists>m. mData p = Mem m \<and> length m = mDataCapacity p"
    "n \<le> length bs \<Longrightarrow> n \<noteq> 0 \<Longrightarrow> load (mDataPos p) n p = Some (take n bs)"
proof -
  note ok = parcel_okD [OF assms(1)]
  have "length (unread p) = mDataSize p - mDataPos p" using ok by (simp add: unread_def)
  then show sz: "mDataPos p + length bs + length rest = mDataSize p" using assms(2) ok by simp
  then show "mDataPos p + length bs \<le> INT32_MAX" using ok by simp
  show mem: "\<exists>m. mData p = Mem m \<and> length m = mDataCapacity p" if "bs \<noteq> []"
    using assms(1) sz that by (cases bs) (auto simp: parcel_ok_def)
  show "load (mDataPos p) n p = Some (take n bs)" if n: "n \<le> length bs" "n \<noteq> 0"
  proof -
    have "bs \<noteq> []" using n by auto
    then obtain m where m: "mData p = Mem m" "length m = mDataCapacity p" using mem by blast
    have "take n (unread p) = take n (drop (mDataPos p) m)"
      using m sz n(1) by (simp add: unread_def written_def contents_def drop_take min_def)
    moreover have "take n (unread p) = take n bs" using assms(2) n(1) by simp
    ultimately show ?thesis using m sz n(1) ok(3) by (simp add: load_def)
  qed
qed

lemma advanced_unread:
  assumes "parcel_ok p" "unread p = bs @ rest" "advanced (length bs) p p'"
  shows "parcel_ok p'" "unread p' = rest" "written p' = written p"
proof -
  have w: "written p' = written p" using assms(3) by (simp add: advanced_def written_def contents_def)
  then show "written p' = written p" .
  show "parcel_ok p'" using assms(1,3) unread_facts(1) [OF assms(1,2)] by (auto simp: advanced_def parcel_ok_def)
  have "unread p' = drop (length bs) (unread p)" using assms(3) w by (simp add: unread_def advanced_def add.commute)
  then show "unread p' = rest" using assms(2) by simp
qed

lemma readAligned_unread:
  assumes "parcel_ok p" "unread p = bs @ rest" "bs \<noteq> []"
  shows "\<exists>p'. readAligned (length bs) p = Some (NO_ERROR, bs, p') \<and> advanced (length bs) p p'"
proof -
  note u = unread_facts [OF assms(1,2)]
  have "mDataPos p + length bs \<le> 2147483647" using u(2) by simp
  then have "add64 (mDataPos p) (length bs) = mDataPos p + length bs" by simp
  then show ?thesis using u(1) u(4) [of "length bs"] assms(3) by (simp add: readAligned_def advanced_def objects_of_def)
qed

text \<open>Padded data: the padding is skipped.\<close>

lemma padded_unread:
  assumes "parcel_ok p" "unread p = padded bs @ rest"
  shows "length bs \<le> INT32_MAX" "pad_size (length bs) = Some (length (padded bs))"
    "add64 (mDataPos p) (length (padded bs)) = mDataPos p + length (padded bs)" "mDataPos p + length (padded bs) \<le> mDataSize p"
    "bs \<noteq> [] \<Longrightarrow> n \<le> length bs \<Longrightarrow> n \<noteq> 0 \<Longrightarrow> load (mDataPos p) n p = Some (take n bs)"
proof -
  note u = unread_facts [OF assms]
  have b: "mDataPos p + length (padded bs) \<le> 2147483647" using u(2) by simp
  then have len: "length bs \<le> 2147483647" by simp
  then show "length bs \<le> INT32_MAX" by simp
  show "pad_size (length bs) = Some (length (padded bs))" using len pad_size_eq [of "length bs"] by simp
  show "add64 (mDataPos p) (length (padded bs)) = mDataPos p + length (padded bs)" using b by simp
  show "mDataPos p + length (padded bs) \<le> mDataSize p" using u(1) by simp
  show "load (mDataPos p) n p = Some (take n bs)" if "bs \<noteq> []" "n \<le> length bs" "n \<noteq> 0"
  proof -
    have "take n (padded bs) = take n bs" using that(2) by (simp add: padded_def)
    then show ?thesis using u(4) [of n] that by simp
  qed
qed

lemma read_bytes_unread:
  assumes "parcel_ok p" "unread p = padded bs @ rest" "bs \<noteq> []"
  shows "\<exists>p'. read_bytes (length bs) p = Some (NO_ERROR, bs, p') \<and> advanced (length (padded bs)) p p'"
proof -
  note u = padded_unread [OF assms(1,2)]
  have "\<not> length bs > INT32_MAX" using u(1) by simp
  then show ?thesis
    using u(2-4) u(5) [of "length bs"] assms(3) by (simp add: read_bytes_def advanced_def objects_of_def)
qed

lemma readInplace_unread:
  assumes "parcel_ok p" "unread p = padded bs @ rest" "bs \<noteq> []"
  shows "\<exists>p'. readInplace (length bs) p = Some (Some (mDataPos p), p') \<and> advanced (length (padded bs)) p p'"
proof -
  note u = padded_unread [OF assms(1,2)]
  have "\<not> length bs > INT32_MAX" using u(1) by simp
  moreover have "mData p \<noteq> Nullptr" using unread_facts(3) [OF assms(1,2)] assms(3) by (auto simp: padded_def)
  ultimately show ?thesis using u(2-4) by (simp add: readInplace_def advanced_def objects_of_def)
qed

section \<open>The contract of a write and a read\<close>

primrec write_all :: "('v \<Rightarrow> parcel \<Rightarrow> (status \<times> parcel) option) \<Rightarrow> 'v list \<Rightarrow> parcel \<Rightarrow> (status \<times> parcel) option" where
  "write_all wr [] p = Some (NO_ERROR, p)"
| "write_all wr (v # vs) p = do { (st, p1) \<leftarrow> wr v p; if st = NO_ERROR then write_all wr vs p1 else Some (st, p1) }"

primrec read_all :: "('k \<Rightarrow> parcel \<Rightarrow> (status \<times> 'v \<times> parcel) option) \<Rightarrow> 'k list \<Rightarrow> parcel \<Rightarrow> (status \<times> 'v list \<times> parcel) option" where
  "read_all rd [] p = Some (NO_ERROR, [], p)"
| "read_all rd (k # ks) p =
     do {
       (st, v, p1) \<leftarrow> rd k p;
       if st = NO_ERROR then do { (st, vs, p2) \<leftarrow> read_all rd ks p1; Some (st, v # vs, p2) } else Some (st, [], p1)
     }"

locale parcel_codec =
  fixes wr :: "process \<Rightarrow> 'v \<Rightarrow> parcel \<Rightarrow> (status \<times> parcel) option"
    and rd :: "'k \<Rightarrow> parcel \<Rightarrow> (status \<times> 'v \<times> parcel) option"
    and kind :: "'v \<Rightarrow> 'k"
    and enc :: "'v \<Rightarrow> u8 list"
    and valid :: "'v \<Rightarrow> bool"
  assumes wr_appends: "at_end p \<Longrightarrow> malloc_ok L \<Longrightarrow> room p (length (enc v)) \<Longrightarrow> writes L (enc v) p (wr L v p)"
    and rd_takes: "valid v \<Longrightarrow> parcel_ok p \<Longrightarrow> unread p = enc v @ rest \<Longrightarrow>
          \<exists>p'. rd (kind v) p = Some (NO_ERROR, v, p') \<and> advanced (length (enc v)) p p'"
begin

lemma write_all_writes:
  assumes "at_end p" "malloc_ok L" "room p (length (concat (map enc vs)))"
  shows "writes L (concat (map enc vs)) p (write_all (wr L) vs p)"
  using assms(1,3)
proof (induction vs arbitrary: p)
  case Nil
  then show ?case by (intro writesI(1)) (simp_all add: appended_def)
next
  case (Cons v vs)
  have rm: "room p (length (enc v) + length (concat (map enc vs)))" using Cons.prems(2) by simp
  have first: "writes L (enc v) p (wr L v p)" using wr_appends [OF Cons.prems(1) assms(2)] room_le [OF rm] by simp
  have "writes L (concat (map enc vs)) p1 (write_all (wr L) vs p1)" if "appended (enc v) p p1" for p1
    using Cons.IH [of p1] room_after [OF that Cons.prems(1) rm] that by (simp add: appended_def)
  then show ?case using writes_seq [OF first] by simp
qed

lemma read_all_takes:
  assumes "\<forall>v \<in> set vs. valid v" "parcel_ok p" "unread p = concat (map enc vs) @ rest"
  shows "\<exists>p'. read_all rd (map kind vs) p = Some (NO_ERROR, vs, p') \<and> advanced (length (concat (map enc vs))) p p'"
  using assms
proof (induction vs arbitrary: p)
  case Nil
  then show ?case by (simp add: advanced_def)
next
  case (Cons v vs)
  have u: "unread p = enc v @ (concat (map enc vs) @ rest)" using Cons.prems(3) by simp
  obtain p1 where p1: "rd (kind v) p = Some (NO_ERROR, v, p1)" "advanced (length (enc v)) p p1"
    using rd_takes [OF _ Cons.prems(2) u] Cons.prems(1) by auto
  note a = advanced_unread [OF Cons.prems(2) u p1(2)]
  obtain p2 where "read_all rd (map kind vs) p1 = Some (NO_ERROR, vs, p2)" "advanced (length (concat (map enc vs))) p1 p2"
    using Cons.IH [OF _ a(1,2)] Cons.prems(1) by auto
  then show ?case using p1 advanced_trans [OF p1(2)] by auto
qed

lemma roundtrip:
  assumes "at_end p" "malloc_ok L" "ample L" "room p (length (concat (map enc vs)))" "\<forall>v \<in> set vs. valid v"
  shows "\<exists>p1 p2 p3. write_all (wr L) vs p = Some (NO_ERROR, p1) \<and> written p1 = written p @ concat (map enc vs) \<and>
    setDataPosition (mDataSize p) p1 = Some p2 \<and> read_all rd (map kind vs) p2 = Some (NO_ERROR, vs, p3) \<and> dataAvail p3 = Some 0"
proof -
  obtain p1 where p1: "write_all (wr L) vs p = Some (NO_ERROR, p1)" "appended (concat (map enc vs)) p p1"
    using write_all_writes [OF assms(1,2,4)] assms(3) by (cases rule: writesE) auto
  have at: "parcel_ok p1" "mDataPos p1 = mDataSize p1" "written p1 = written p @ concat (map enc vs)"
    "mDataSize p1 = mDataSize p + length (concat (map enc vs))"
    using p1(2) appended_size [OF p1(2) assms(1)] by (simp_all add: appended_def at_end_def)
  have "mDataSize p \<le> INT32_MAX" using room_bound [OF assms(4)] by simp
  then obtain p2 where p2: "setDataPosition (mDataSize p) p1 = Some p2" "p2 = p1\<lparr>mDataPos := mDataSize p, mNextObjectHint := 0\<rparr>"
    by (simp add: setDataPosition_def)
  have ok2: "parcel_ok p2" using at p2(2) by (auto simp: parcel_ok_def)
  have "length (written p) = mDataSize p" using assms(1) by (simp add: parcel_okD at_end_def)
  then have "unread p2 = concat (map enc vs) @ []" using at(3) p2(2) by (simp add: unread_def written_def contents_def)
  note u = this and r = read_all_takes [OF assms(5) ok2 this]
  obtain p3 where p3: "read_all rd (map kind vs) p2 = Some (NO_ERROR, vs, p3)" "advanced (length (concat (map enc vs))) p2 p3"
    using r by blast
  then have "mDataPos p3 = mDataSize p3" using p2(2) at(4) by (simp add: advanced_def)
  then show ?thesis using p1(1) at(3) p2(1) p3(1) by (auto simp: dataAvail_def dataSize_def)
qed

end

section \<open>Integers and strings\<close>

lemma advanced_load: "advanced n p p' \<Longrightarrow> load off k p' = load off k p"
  by (simp add: advanced_def load_def)

lemma words_of_bytes [simp]:
  "word_of_nat (le_nat [b]) = (b :: u8)" "word_of_nat (le_nat (le_bytes 2 (unat h))) = (h :: 16 word)"
  "word_of_nat (le_nat (put_u32 w)) = (w :: u32)" "word_of_nat (le_nat (put_u64 d)) = (d :: u64)"
proof -
  have "unat h < 65536" using unsigned_less [of h] by simp
  then show "word_of_nat (le_nat (le_bytes 2 (unat h))) = h" by simp
qed (use unat_lt(1) [of w] unat_lt(2) [of d] in \<open>simp_all add: put_u32_def put_u64_def\<close>)

lemma put_not_Nil [simp]: "put_u32 w \<noteq> []" "put_u64 d \<noteq> []"
  using put_length(1) [of w] put_length(2) [of d] by force+

lemma aligned_codec:
  assumes "unread p = bs @ rest" "parcel_ok p" "bs \<noteq> []" "n = length bs"
  shows "\<exists>p'. do { (st, bs, p1) \<leftarrow> readAligned n p; Some (st, f bs, p1) } = Some (NO_ERROR, f bs, p') \<and> advanced (length bs) p p'"
  using readAligned_unread [OF assms(2,1,3)] assms(4) by auto

lemma padded_codec:
  assumes "unread p = padded bs @ rest" "parcel_ok p" "bs \<noteq> []" "n = length bs"
  shows "\<exists>p'. do { (st, bs, p1) \<leftarrow> read_bytes n p; Some (st, f bs, p1) } = Some (NO_ERROR, f bs, p') \<and> advanced (length (padded bs)) p p'"
  using read_bytes_unread [OF assms(2,1,3)] assms(4) by auto

interpretation int8: parcel_codec writeInt8 "\<lambda>_. readInt8" "\<lambda>_. ()" "\<lambda>v. padded [v]" "\<lambda>_. True"
proof
  show "writes L (padded [v]) p (writeInt8 L v p)" if "at_end p" "malloc_ok L" "room p (length (padded [v]))" for p L v
    unfolding writeInt8_def by (rule write_bytes_padded [OF that]) simp
  show "\<exists>p'. readInt8 p = Some (NO_ERROR, v, p') \<and> advanced (length (padded [v])) p p'"
    if "parcel_ok p" "unread p = padded [v] @ rest" for p v rest
    using padded_codec [OF that(2,1), of 1 "\<lambda>bs. word_of_nat (le_nat bs) :: u8"] by (simp add: readInt8_def)
qed

interpretation int16: parcel_codec writeInt16 "\<lambda>_. readInt16" "\<lambda>_. ()" "\<lambda>v. padded (le_bytes 2 (unat v))" "\<lambda>_. True"
proof
  have ne: "le_bytes 2 (unat v) \<noteq> []" for v :: "16 word" by (simp add: numeral_2_eq_2)
  show "writes L (padded (le_bytes 2 (unat v))) p (writeInt16 L v p)"
    if "at_end p" "malloc_ok L" "room p (length (padded (le_bytes 2 (unat v))))" for p L and v :: "16 word"
    unfolding writeInt16_def by (rule write_bytes_padded [OF that ne])
  show "\<exists>p'. readInt16 p = Some (NO_ERROR, v, p') \<and> advanced (length (padded (le_bytes 2 (unat v)))) p p'"
    if "parcel_ok p" "unread p = padded (le_bytes 2 (unat v)) @ rest" for p rest and v :: "16 word"
    using padded_codec [OF that(2,1) ne, of 2 "\<lambda>bs. word_of_nat (le_nat bs) :: 16 word"]
    unfolding words_of_bytes readInt16_def by (simp del: le_nat_bytes)
qed

interpretation int32: parcel_codec writeInt32 "\<lambda>_. readInt32" "\<lambda>_. ()" put_u32 "\<lambda>_. True"
proof
  show "writes L (put_u32 v) p (writeInt32 L v p)" if "at_end p" "malloc_ok L" "room p (length (put_u32 v))" for p L v
    unfolding writeInt32_def by (rule writeAligned_writes [OF that])
  show "\<exists>p'. readInt32 p = Some (NO_ERROR, v, p') \<and> advanced (length (put_u32 v)) p p'"
    if "parcel_ok p" "unread p = put_u32 v @ rest" for p v rest
    using aligned_codec [OF that(2,1), of 4 "\<lambda>bs. word_of_nat (le_nat bs) :: u32"] put_length(1) [of v]
    by (auto simp: readInt32_def)
qed

interpretation int64: parcel_codec writeInt64 "\<lambda>_. readInt64" "\<lambda>_. ()" put_u64 "\<lambda>_. True"
proof
  show "writes L (put_u64 v) p (writeInt64 L v p)" if "at_end p" "malloc_ok L" "room p (length (put_u64 v))" for p L v
    unfolding writeInt64_def by (rule writeAligned_writes [OF that])
  show "\<exists>p'. readInt64 p = Some (NO_ERROR, v, p') \<and> advanced (length (put_u64 v)) p p'"
    if "parcel_ok p" "unread p = put_u64 v @ rest" for p v rest
    using aligned_codec [OF that(2,1), of 8 "\<lambda>bs. word_of_nat (le_nat bs) :: u64"] put_length(2) [of v]
    by (auto simp: readInt64_def)
qed

interpretation boolean: parcel_codec writeBool "\<lambda>_. readBool" "\<lambda>_. ()" "\<lambda>v. padded [if v then 1 else 0]" "\<lambda>_. True"
proof
  show "writes L (padded [if v then 1 else 0]) p (writeBool L v p)"
    if "at_end p" "malloc_ok L" "room p (length (padded [if v then 1 else 0 :: u8]))" for p L v
    unfolding writeBool_def using int8.wr_appends [OF that(1,2), of "if v then 1 else 0"] that(3) by simp
  show "\<exists>p'. readBool p = Some (NO_ERROR, v, p') \<and> advanced (length (padded [if v then 1 else 0 :: u8])) p p'"
    if "parcel_ok p" "unread p = padded [if v then 1 else 0] @ rest" for p v rest
    using int8.rd_takes [OF _ that] by (auto simp: readBool_def)
qed

definition read_cstring :: "parcel \<Rightarrow> (status \<times> u8 list \<times> parcel) option" where
  "read_cstring p =
     do { (str, p1) \<leftarrow> readCString p; Some (case str of None \<Rightarrow> (UNEXPECTED_NULL, [], p1) | Some s \<Rightarrow> (NO_ERROR, s, p1)) }"

interpretation cstring: parcel_codec writeCString "\<lambda>_. read_cstring" "\<lambda>_. ()" "\<lambda>v. padded (v @ [0])" "\<lambda>v. 0 \<notin> set v"
proof
  show "writes L (padded (v @ [0])) p (writeCString L v p)" if "at_end p" "malloc_ok L" "room p (length (padded (v @ [0])))" for p L v
    unfolding writeCString_def by (rule write_bytes_padded [OF that]) simp
  show "\<exists>p'. read_cstring p = Some (NO_ERROR, v, p') \<and> advanced (length (padded (v @ [0]))) p p'"
    if "0 \<notin> set v" "parcel_ok p" "unread p = padded (v @ [0]) @ rest" for p v rest
  proof -
    note u = padded_unread [OF that(2,3)] unread_facts [of p "unread p" "[]"]
    let ?str = "v @ 0 # replicate (padding (length v + 1)) 0 @ rest"
    have str: "unread p = ?str" using that(3) by (simp add: padded_def)
    have n: "mDataSize p - mDataPos p = length ?str" "mDataPos p < mDataSize p"
      using unread_facts(1) [OF that(2), of ?str "[]"] str by simp_all
    have "load (mDataPos p) (mDataSize p - mDataPos p) p = Some ?str"
      using unread_facts(4) [OF that(2), of ?str "[]" "length ?str"] str n by simp
    moreover have "takeWhile (\<lambda>c. c \<noteq> 0) ?str = v" using that(1) by (subst takeWhile_append2) auto
    ultimately have "readCString p = Some (Some v, p\<lparr>mDataPos := mDataPos p + length (padded (v @ [0]))\<rparr>)"
      using n(2) u(2,3) by (simp add: readCString_def)
    then show ?thesis by (simp add: read_cstring_def advanced_def objects_of_def)
  qed
qed

section \<open>Strings of 16 bit characters\<close>

lemma chars16_bytes [simp]: "chars16 (char16_bytes cs) = cs"
proof (induction cs)
  case (Cons c cs)
  have "le_bytes 2 (unat c) = [word_of_nat (unat c), word_of_nat (unat c div 256)]" by (simp add: numeral_2_eq_2)
  then show ?case using Cons words_of_bytes(2) [of c] by (simp add: char16_bytes_def)
qed (simp add: char16_bytes_def)

lemma sint_small: "n \<le> INT32_MAX \<Longrightarrow> sint (word_of_nat n :: u32) = int n"
  by (simp add: signed_of_nat signed_take_bit_int_eq_self)

lemma readString16_unread:
  assumes "parcel_ok p" "unread p = enc_string16 (Some cs) @ rest"
  shows "\<exists>p'. readString16 p = Some (NO_ERROR, cs, p') \<and> advanced (length (enc_string16 (Some cs))) p p'"
proof -
  let ?w = "word_of_nat (length cs) :: u32" and ?bs = "char16_bytes cs @ [0, 0]"
  have u: "unread p = put_u32 ?w @ (padded ?bs @ rest)" using assms(2) by (simp add: enc_string16_def)
  obtain p1 where p1: "readInt32 p = Some (NO_ERROR, ?w, p1)" "advanced 4 p p1"
    using int32.rd_takes [OF _ assms(1) u] by auto
  note a = advanced_unread [OF assms(1) u] p1(2)
  have p1ok: "parcel_ok p1" "unread p1 = padded ?bs @ rest" using a p1(2) by simp_all
  obtain p2 where p2: "readInplace (length ?bs) p1 = Some (Some (mDataPos p1), p2)" "advanced (length (padded ?bs)) p1 p2"
    using readInplace_unread [OF p1ok] by auto
  have len: "length ?bs \<le> INT32_MAX" using padded_unread(1) [OF p1ok] .
  then have sg: "sint ?w = int (length cs)" "int (length cs) < int INT32_MAX" using sint_small [of "length cs"] by simp_all
  have "load (mDataPos p1) (length cs * 2) p2 = Some (char16_bytes cs)" if "length cs \<noteq> 0"
    using padded_unread(5) [OF p1ok, of "length cs * 2"] that advanced_load [OF p2(2)] by simp
  moreover have "readString16Inplace p = Some (Some (mDataPos p1, length cs), p2)"
    using p1(1) p2(1) sg by (simp add: readString16Inplace_def mult.commute)
  ultimately have "readString16 p = Some (NO_ERROR, cs, p2)" by (simp add: readString16_def)
  then show ?thesis using advanced_trans [OF p1(2) p2(2)] by (auto simp: enc_string16_def)
qed

lemma position_back: "pos \<le> INT32_MAX \<Longrightarrow> unat (word_of_int (sint (word_of_nat pos :: u32)) :: u64) = pos"
  by (simp add: sint_small unsigned_of_nat take_bit_nat_eq_self)

interpretation string16: parcel_codec writeString16 "\<lambda>_. readNullableString16" "\<lambda>_. ()" enc_string16 "\<lambda>_. True"
proof
  show "writes L (enc_string16 v) p (writeString16 L v p)" if "at_end p" "malloc_ok L" "room p (length (enc_string16 v))" for p L v
    by (rule writeString16_writes [OF that])
  show "\<exists>p'. readNullableString16 p = Some (NO_ERROR, v, p') \<and> advanced (length (enc_string16 v)) p p'"
    if ok: "parcel_ok p" and u: "unread p = enc_string16 v @ rest" for p v rest
  proof (cases v)
    case None
    have "unread p = put_u32 (- 1) @ rest" using u None by (simp add: enc_string16_def)
    then obtain p' where "readInt32 p = Some (NO_ERROR, - 1, p')" "advanced 4 p p'"
      using int32.rd_takes [OF _ ok] by fastforce
    then show ?thesis using None by (simp add: readNullableString16_def enc_string16_def)
  next
    case (Some cs)
    let ?w = "word_of_nat (length cs) :: u32"
    have u1: "unread p = put_u32 ?w @ (padded (char16_bytes cs @ [0, 0]) @ rest)" using u Some by (simp add: enc_string16_def)
    obtain p1 where p1: "readInt32 p = Some (NO_ERROR, ?w, p1)" "advanced 4 p p1"
      using int32.rd_takes [OF _ ok u1] by auto
    have pos: "mDataPos p \<le> INT32_MAX" using parcel_okD [OF ok] by simp
    have "length (char16_bytes cs @ [0, 0]) \<le> INT32_MAX"
      using padded_unread(1) [of p1 "char16_bytes cs @ [0, 0]" rest] advanced_unread [OF ok u1, of p1] p1(2) by simp
    then have sg: "\<not> sint ?w < 0" using sint_small [of "length cs"] by simp
    define p2 where "p2 = p1\<lparr>mDataPos := mDataPos p, mNextObjectHint := 0\<rparr>"
    have p2: "setDataPosition (unat (word_of_int (sint (word_of_nat (mDataPos p) :: u32)) :: u64)) p1 = Some p2" "advanced 0 p p2"
      unfolding position_back [OF pos] using pos p1(2) by (simp_all add: setDataPosition_def p2_def advanced_def objects_of_def)
    have "parcel_ok p2" "unread p2 = enc_string16 (Some cs) @ rest"
      using advanced_unread [of p "[]" "unread p" p2] ok p2(2) u Some by simp_all
    then obtain p3 where "readString16 p2 = Some (NO_ERROR, cs, p3)" "advanced (length (enc_string16 (Some cs))) p2 p3"
      using readString16_unread by blast
    then show ?thesis using p1(1) p2 sg Some advanced_trans [OF p2(2)] by (auto simp: readNullableString16_def Let_def)
  qed
qed

section \<open>Sequences of values of any kind\<close>

datatype parcel_value =
  Int8 u8
| Int16 "16 word"
| Int32 u32
| Int64 u64
| Boolean bool
| CString "u8 list"
| String16 "16 word list option"

datatype value_kind = Kind8 | Kind16 | Kind32 | Kind64 | Kind_bool | Kind_cstring | Kind_string16

fun kind_of :: "parcel_value \<Rightarrow> value_kind" where
  "kind_of (Int8 _) = Kind8"
| "kind_of (Int16 _) = Kind16"
| "kind_of (Int32 _) = Kind32"
| "kind_of (Int64 _) = Kind64"
| "kind_of (Boolean _) = Kind_bool"
| "kind_of (CString _) = Kind_cstring"
| "kind_of (String16 _) = Kind_string16"

fun write_value :: "process \<Rightarrow> parcel_value \<Rightarrow> parcel \<Rightarrow> (status \<times> parcel) option" where
  "write_value L (Int8 v) = writeInt8 L v"
| "write_value L (Int16 v) = writeInt16 L v"
| "write_value L (Int32 v) = writeInt32 L v"
| "write_value L (Int64 v) = writeInt64 L v"
| "write_value L (Boolean v) = writeBool L v"
| "write_value L (CString v) = writeCString L v"
| "write_value L (String16 v) = writeString16 L v"

definition as_value :: "('a \<Rightarrow> parcel_value) \<Rightarrow> (status \<times> 'a \<times> parcel) option \<Rightarrow> (status \<times> parcel_value \<times> parcel) option" where
  "as_value c r = map_option (\<lambda>(st, v, p). (st, c v, p)) r"

fun read_value :: "value_kind \<Rightarrow> parcel \<Rightarrow> (status \<times> parcel_value \<times> parcel) option" where
  "read_value Kind8 p = as_value Int8 (readInt8 p)"
| "read_value Kind16 p = as_value Int16 (readInt16 p)"
| "read_value Kind32 p = as_value Int32 (readInt32 p)"
| "read_value Kind64 p = as_value Int64 (readInt64 p)"
| "read_value Kind_bool p = as_value Boolean (readBool p)"
| "read_value Kind_cstring p = as_value CString (read_cstring p)"
| "read_value Kind_string16 p = as_value String16 (readNullableString16 p)"

fun encode_value :: "parcel_value \<Rightarrow> u8 list" where
  "encode_value (Int8 v) = padded [v]"
| "encode_value (Int16 v) = padded (le_bytes 2 (unat v))"
| "encode_value (Int32 v) = put_u32 v"
| "encode_value (Int64 v) = put_u64 v"
| "encode_value (Boolean v) = padded [if v then 1 else 0]"
| "encode_value (CString v) = padded (v @ [0])"
| "encode_value (String16 v) = enc_string16 v"

fun valid_value :: "parcel_value \<Rightarrow> bool" where
  "valid_value (CString v) = (0 \<notin> set v)"
| "valid_value _ = True"

lemmas codec_simps = read_value.simps encode_value.simps kind_of.simps valid_value.simps

lemma as_value_takes:
  "\<exists>p'. r = Some (NO_ERROR, v, p') \<and> Q p' \<Longrightarrow> \<exists>p'. as_value c r = Some (NO_ERROR, c v, p') \<and> Q p'"
  by (auto simp: as_value_def)

interpretation any_value: parcel_codec write_value read_value kind_of encode_value valid_value
proof
  show "writes L (encode_value v) p (write_value L v p)" if "at_end p" "malloc_ok L" "room p (length (encode_value v))" for p L v
    using that int8.wr_appends int16.wr_appends int32.wr_appends int64.wr_appends boolean.wr_appends cstring.wr_appends
      string16.wr_appends by (cases v) (simp_all only: write_value.simps encode_value.simps)
  show "\<exists>p'. read_value (kind_of v) p = Some (NO_ERROR, v, p') \<and> advanced (length (encode_value v)) p p'"
    if "valid_value v" "parcel_ok p" "unread p = encode_value v @ rest" for v p rest
  proof (cases v)
    case (Int8 x)
    then show ?thesis using as_value_takes [OF int8.rd_takes [OF _ that(2)]] that(3) by (simp only: codec_simps)
  next
    case (Int16 x)
    then show ?thesis using as_value_takes [OF int16.rd_takes [OF _ that(2)]] that(3) by (simp only: codec_simps)
  next
    case (Int32 x)
    then show ?thesis using as_value_takes [OF int32.rd_takes [OF _ that(2)]] that(3) by (simp only: codec_simps)
  next
    case (Int64 x)
    then show ?thesis using as_value_takes [OF int64.rd_takes [OF _ that(2)]] that(3) by (simp only: codec_simps)
  next
    case (Boolean x)
    then show ?thesis using as_value_takes [OF boolean.rd_takes [OF _ that(2)]] that(3) by (simp only: codec_simps)
  next
    case (CString x)
    then show ?thesis using as_value_takes [OF cstring.rd_takes [OF _ that(2), of x rest]] that(1,3)
      by (simp only: codec_simps not_False_eq_True)
  next
    case (String16 x)
    then show ?thesis using as_value_takes [OF string16.rd_takes [OF _ that(2)]] that(3) by (simp only: codec_simps)
  qed
qed

lemma initState_at_end: "at_end (initState q)" "written (initState q) = []" "mDataSize (initState q) = 0"
  by (simp_all add: at_end_def parcel_ok_def initState_def clearCache_def written_def)

text \<open>A process whose allocator always has memory, and a sequence of values.\<close>

definition sample_process :: process where
  "sample_process = \<lparr>malloc = (\<lambda>n. Some (replicate n 0)), realloc_moves = (\<lambda>n. True), realloc_objects = (\<lambda>n. Some (replicate n 0)),
     calloc_objects = (\<lambda>n. True), getStrongProxyForHandle = (\<lambda>h. Some (unat h)), getWeakProxyForHandle = (\<lambda>h. Some (unat h)),
     peek = (\<lambda>a. None), native_handle_at = (\<lambda>a. None), native_handle_max_fds = 1024, native_handle_max_ints = 1024,
     flag_inherit_rt = 0x800, sched_policy_shift = 9\<rparr>"

definition sample_parcel :: parcel where
  "sample_parcel = \<lparr>mError = NO_ERROR, mData = Nullptr, mDataSize = 0, mDataCapacity = 0, mDataPos = 0, mObjects = None,
     mObjectsSize = 0, mObjectsCapacity = 0, mNextObjectHint = 0, mFdsKnown = True, mHasFds = False, mAllowFds = True, mOwner = None,
     mBufCachePos = 0, mBufCache = [], gParcelGlobalAllocSize = 0, gParcelGlobalAllocCount = 0, events = []\<rparr>"

lemma le_bytes_unfold:
  "le_bytes 2 n = [word_of_nat n, word_of_nat (n div 256)]"
  "le_bytes 4 n = [word_of_nat n, word_of_nat (n div 256), word_of_nat (n div 256 div 256), word_of_nat (n div 256 div 256 div 256)]"
proof -
  have n: "2 = Suc (Suc 0)" "4 = Suc (Suc (Suc (Suc 0)))" by simp_all
  show "le_bytes 2 n = [word_of_nat n, word_of_nat (n div 256)]" unfolding n(1) le_bytes.simps ..
  show "le_bytes 4 n = [word_of_nat n, word_of_nat (n div 256), word_of_nat (n div 256 div 256), word_of_nat (n div 256 div 256 div 256)]"
    unfolding n(2) le_bytes.simps ..
qed

lemma sample_process_ok: "malloc_ok sample_process" "ample sample_process"
  by (simp_all add: malloc_ok_def ample_def sample_process_def)

text \<open>
  C15. A parcel gives back what was written: in a new parcel, as long as the data stays below the size limit and
  memory can be had, any sequence of integers, booleans and strings (C strings without a zero character inside) is
  written without an error, and after setting the position to 0 the same sequence of reads returns exactly these
  values and leaves no data unread.
\<close>

theorem parcel_roundtrip:
  assumes "malloc_ok L" "ample L" "\<forall>v \<in> set vs. valid_value v" "length (concat (map encode_value vs)) * 3 div 2 \<le> INT32_MAX"
  shows "\<exists>p1 p2 p3. write_all (write_value L) vs (initState q) = Some (NO_ERROR, p1) \<and> written p1 = concat (map encode_value vs) \<and>
    setDataPosition 0 p1 = Some p2 \<and> read_all read_value (map kind_of vs) p2 = Some (NO_ERROR, vs, p3) \<and> dataAvail p3 = Some 0"
proof -
  have "room (initState q) (length (concat (map encode_value vs)))" unfolding room_def initState_at_end using assms(4) by simp
  then show ?thesis using any_value.roundtrip [OF initState_at_end(1) assms(1,2) _ assms(3), of q] by (simp add: initState_at_end)
qed

theorem parcel_roundtrip_witness:
  "\<exists>p1 p2 p3. write_all (write_value sample_process) [Int32 7, CString [104, 105], String16 (Some [65, 66]), String16 None, Boolean True]
      (initState sample_parcel) = Some (NO_ERROR, p1) \<and>
    written p1 = [7, 0, 0, 0, 104, 105, 0, 0, 2, 0, 0, 0, 65, 0, 66, 0, 0, 0, 0, 0, 255, 255, 255, 255, 1, 0, 0, 0] \<and>
    setDataPosition 0 p1 = Some p2 \<and>
    read_all read_value [Kind32, Kind_cstring, Kind_string16, Kind_string16, Kind_bool] p2 =
      Some (NO_ERROR, [Int32 7, CString [104, 105], String16 (Some [65, 66]), String16 None, Boolean True], p3) \<and> dataAvail p3 = Some 0"
proof -
  let ?vs = "[Int32 7, CString [104, 105], String16 (Some [65, 66]), String16 None, Boolean True]"
  have "unat (- 1 :: u32) = 4294967295" by (simp add: unsigned_minus_1_eq_mask mask_eq_exp_minus_1)
  then have m1: "put_u32 (- 1) = [255, 255, 255, 255]" unfolding put_u32_def le_bytes_unfold by simp
  have rep: "replicate 2 x = [x, x]" "replicate 3 x = [x, x, x]" for x :: u8 by (simp_all add: numeral_2_eq_2 numeral_3_eq_3)
  have enc: "concat (map encode_value ?vs) =
    [7, 0, 0, 0, 104, 105, 0, 0, 2, 0, 0, 0, 65, 0, 66, 0, 0, 0, 0, 0, 255, 255, 255, 255, 1, 0, 0, 0]"
    by (simp add: padded_def padding_def m1 rep enc_string16_def) (simp add: put_u32_def char16_bytes_def le_bytes_unfold rep)
  have "\<forall>v \<in> set ?vs. valid_value v" by simp
  then show ?thesis using parcel_roundtrip [OF sample_process_ok, of ?vs sample_parcel] unfolding enc by simp
qed

end
