(* ===== verification/Parcel_Objects.thy ===== *)
theory Parcel_Objects
  imports Parcel_Codec
begin

text \<open>
  The table of objects of a parcel: writing an object keeps it sorted and inside the data, the search with a hint
  finds exactly the objects in it, and a binder that was written is read hit.
\<close>

section \<open>The search for an object\<close>

declare forward_search.simps [simp del] backward_search.simps [simp del]

lemma forward_search_stops:
  assumes "opos < N"
  shows "forward_search OBJS N d opos < N"
    "forward_search OBJS N d opos = N - 1 \<or> \<not> OBJS ! forward_search OBJS N d opos < d"
proof -
  have "forward_search OBJS N d opos < N \<and> (forward_search OBJS N d opos = N - 1 \<or> \<not> OBJS ! forward_search OBJS N d opos < d)"
    using assms
  proof (induction OBJS N d opos rule: forward_search.induct)
    case (1 OBJS N d opos)
    show ?case
    proof (cases "opos < N - 1 \<and> OBJS ! opos < d")
      case True
      then have "forward_search OBJS N d opos = forward_search OBJS N d (opos + 1)" by (subst forward_search.simps) simp
      moreover have "opos + 1 < N" using True by linarith
      ultimately show ?thesis using 1(1) [OF True] by simp
    next
      case False
      then have "forward_search OBJS N d opos = opos" by (subst forward_search.simps) auto
      then show ?thesis using False 1(2) by auto
    qed
  qed
  then show "forward_search OBJS N d opos < N"
    "forward_search OBJS N d opos = N - 1 \<or> \<not> OBJS ! forward_search OBJS N d opos < d" by blast+
qed

lemma backward_search_stops:
  fixes OBJS d opos
  defines "r \<equiv> backward_search OBJS d opos"
  shows "r \<le> opos" "r < i \<Longrightarrow> i \<le> opos \<Longrightarrow> OBJS ! i > d" "r = 0 \<or> \<not> OBJS ! r > d"
proof -
  have "r \<le> opos \<and> (\<forall>i. r < i \<and> i \<le> opos \<longrightarrow> OBJS ! i > d) \<and> (r = 0 \<or> \<not> OBJS ! r > d)"
    unfolding r_def
  proof (induction OBJS d opos rule: backward_search.induct)
    case (1 OBJS d opos)
    show ?case
    proof (cases "opos > 0 \<and> OBJS ! opos > d")
      case True
      then have eq: "backward_search OBJS d opos = backward_search OBJS d (opos - 1)" by (subst backward_search.simps) simp
      have "OBJS ! i > d" if "i \<le> opos" "i \<le> opos - 1 \<longrightarrow> OBJS ! i > d" for i
        using that True by (cases "i = opos") auto
      then show ?thesis using 1 [OF True] unfolding eq by auto
    next
      case False
      then have eq: "backward_search OBJS d opos = opos" by (subst backward_search.simps) auto
      show ?thesis unfolding eq using False by auto
    qed
  qed
  then show "r \<le> opos" "r < i \<Longrightarrow> i \<le> opos \<Longrightarrow> OBJS ! i > d" "r = 0 \<or> \<not> OBJS ! r > d" by blast+
qed

lemma search_object_exact:
  assumes "mObjects p = Some OBJS" "mObjectsSize p \<le> length OBJS" "sorted_wrt (<) (take (mObjectsSize p) OBJS)"
  shows "\<exists>r. search_object p d = Some r \<and> (\<forall>i. r = Some i \<longleftrightarrow> i < mObjectsSize p \<and> OBJS ! i = d)"
proof (cases "mObjectsSize p = 0")
  case False
  let ?N = "mObjectsSize p"
  have mono: "OBJS ! i < OBJS ! j" if "i < j" "j < ?N" for i j
    using sorted_wrt_nth_less [OF assms(3), of i j] that assms(2) by simp
  have only: "i = j" if "i < ?N" "j < ?N" "OBJS ! i = OBJS ! j" for i j
    using that mono [of i j] mono [of j i] by (cases i j rule: linorder_cases) auto
  define start where "start = (if mNextObjectHint p < ?N then forward_search OBJS ?N d (mNextObjectHint p) else ?N - 1)"
  have f: "start < ?N" "start = ?N - 1 \<or> \<not> OBJS ! start < d"
    using forward_search_stops [of "mNextObjectHint p" ?N OBJS d] False by (auto simp: start_def)
  define hit where "hit = backward_search OBJS d start"
  note b = backward_search_stops [where OBJS = OBJS and d = d and opos = start, folded hit_def]
  have eq: "search_object p d = Some (if OBJS ! start = d then Some start else if OBJS ! hit = d then Some hit else None)"
    using False assms(1,2) by (simp add: search_object_def Let_def start_def hit_def)
  have "OBJS ! i \<noteq> d" if "i < ?N" "OBJS ! start \<noteq> d" "OBJS ! hit \<noteq> d" for i
  proof
    assume i: "OBJS ! i = d"
    have "start \<noteq> i" "hit \<noteq> i" using i that by auto
    then consider "start < i" | "i < start" "hit < i" | "i < start" "i < hit" by linarith
    then show False
    proof cases
      case 1
      then show False using f(2) mono [of start i] that(1) i by auto
    next
      case 2
      then show False using b(2) [of i] i by simp
    next
      case 3
      then have "OBJS ! i < OBJS ! hit" using mono [of i hit] b(1) f(1) by simp
      then show False using b(3) 3 i by simp
    qed
  qed
  then show ?thesis using f(1) b(1) eq by (auto intro: only split: if_splits)
qed (simp add: search_object_def)

section \<open>The table of objects\<close>

definition table :: "parcel \<Rightarrow> nat list" where
  "table p = (case mObjects p of None \<Rightarrow> [] | Some xs \<Rightarrow> take (mObjectsSize p) xs)"

definition objects_ok :: "parcel \<Rightarrow> bool" where
  "objects_ok p \<longleftrightarrow>
     (case mObjects p of
        None \<Rightarrow> mObjectsSize p = 0 \<and> mObjectsCapacity p = 0
      | Some xs \<Rightarrow> length xs = mObjectsCapacity p \<and> mObjectsSize p \<le> length xs)
     \<and> sorted_wrt (<) (table p) \<and> (\<forall>off \<in> set (table p). off + 24 \<le> mDataSize p)"

definition objects_malloc_ok :: "process \<Rightarrow> bool" where
  "objects_malloc_ok L \<longleftrightarrow> (\<forall>n junk. realloc_objects L n = Some junk \<longrightarrow> length junk = n)"

definition ample_objects :: "process \<Rightarrow> bool" where
  "ample_objects L \<longleftrightarrow> (\<forall>n. realloc_objects L n \<noteq> None)"

text \<open>Which objects are entered into the table.\<close>

definition tracked :: "u8 list \<Rightarrow> bool" where
  "tracked val =
     (case binder_type_of (get_u32 0 val) of
        None \<Rightarrow> False
      | Some BINDER_TYPE_FD \<Rightarrow> True
      | Some BINDER_TYPE_FDA \<Rightarrow> True
      | Some BINDER_TYPE_PTR \<Rightarrow> bbo_buffer (to_binder_buffer_object val) \<noteq> 0
      | Some _ \<Rightarrow> fp_binder (to_flat_binder_object val) \<noteq> 0)"

lemma sorted_below_length:
  assumes "sorted_wrt (<) (xs :: nat list)" "\<forall>x \<in> set xs. x < n"
  shows "length xs \<le> n"
proof -
  have "distinct xs" using assms(1) strict_sorted_iff by blast
  then have "length xs = card (set xs)" by (simp add: distinct_card)
  also have "\<dots> \<le> card {..<n}" using assms(2) by (intro card_mono) auto
  finally show ?thesis by simp
qed

lemma objects_size_bound:
  assumes "objects_ok p" "parcel_ok p"
  shows "mObjectsSize p \<le> INT32_MAX" "length (table p) = mObjectsSize p"
proof -
  show len: "length (table p) = mObjectsSize p" using assms(1) by (auto simp: objects_ok_def table_def split: option.splits)
  have "\<forall>x \<in> set (table p). x < INT32_MAX" using assms parcel_okD [OF assms(2)] by (fastforce simp: objects_ok_def)
  then have "length (table p) \<le> INT32_MAX" using assms(1) by (intro sorted_below_length) (auto simp: objects_ok_def)
  then show "mObjectsSize p \<le> INT32_MAX" using len by simp
qed

text \<open>The fields that hold the data.\<close>

definition data_of :: "parcel \<Rightarrow> status \<times> memory \<times> nat \<times> nat \<times> nat \<times> nat option" where
  "data_of p = (mError p, mData p, mDataSize p, mDataCapacity p, mDataPos p, mOwner p)"

lemma same_data:
  assumes "data_of p = data_of q"
  shows "at_end p \<longleftrightarrow> at_end q" "parcel_ok p \<longleftrightarrow> parcel_ok q" "written p = written q" "mDataPos p = mDataPos q" "mDataSize p = mDataSize q"
    "mDataCapacity p = mDataCapacity q"
  using assms by (auto simp: data_of_def at_end_def parcel_ok_def written_def contents_def)

lemma finishWrite_data:
  assumes "data_of p = data_of q"
  shows "data_of (snd (finishWrite n p)) = data_of (snd (finishWrite n q))" "fst (finishWrite n p) = fst (finishWrite n q)"
  using assms by (auto simp: data_of_def finishWrite_def Let_def)

lemma finishWrite_objects: "mObjects (snd (finishWrite n p)) = mObjects p" "mObjectsSize (snd (finishWrite n p)) = mObjectsSize p"
  "mObjectsCapacity (snd (finishWrite n p)) = mObjectsCapacity p"
  by (simp_all add: finishWrite_def Let_def)

lemma same_objects:
  assumes "mObjects q = mObjects p" "mObjectsSize q = mObjectsSize p" "mObjectsCapacity q = mObjectsCapacity p"
  shows "table q = table p" "objects_ok p \<Longrightarrow> mDataSize p \<le> mDataSize q \<Longrightarrow> objects_ok q"
proof -
  show t: "table q = table p" using assms by (simp add: table_def cong: option.case_cong)
  show "objects_ok q" if "objects_ok p" "mDataSize p \<le> mDataSize q"
    using that unfolding objects_ok_def t assms by fastforce
qed

lemma append_object_table:
  assumes "objects_ok p" "mObjectsSize p < mObjectsCapacity p" "mDataSize p \<le> off"
  shows "\<exists>p'. append_object off p = Some p' \<and> data_of p' = data_of p \<and> table p' = table p @ [off] \<and>
    (\<forall>q. mObjects q = mObjects p' \<longrightarrow> mObjectsSize q = mObjectsSize p' \<longrightarrow> mObjectsCapacity q = mObjectsCapacity p' \<longrightarrow>
      mDataSize q \<ge> off + 24 \<longrightarrow> objects_ok q)"
proof -
  obtain xs where xs: "mObjects p = Some xs" "length xs = mObjectsCapacity p"
    using assms(1,2) by (auto simp: objects_ok_def split: option.splits)
  define p' where "p' = p\<lparr>mObjects := Some (xs[mObjectsSize p := off]), mObjectsSize := mObjectsSize p + 1\<rparr>"
  have a: "append_object off p = Some p'" using xs assms(2) by (simp add: append_object_def p'_def)
  have t: "table p' = table p @ [off]"
    using xs assms(2) by (simp add: table_def p'_def take_Suc_conv_app_nth)
  have old: "\<forall>x \<in> set (table p). x + 24 \<le> mDataSize p" using assms(1) by (simp add: objects_ok_def)
  then have below: "\<forall>x \<in> set (table p). x < off" using assms(3) by fastforce
  then have srt: "sorted_wrt (<) (table p')" using assms(1) t by (simp add: objects_ok_def sorted_wrt_append)
  have "objects_ok q" if q: "mObjects q = mObjects p'" "mObjectsSize q = mObjectsSize p'" "mObjectsCapacity q = mObjectsCapacity p'"
    "mDataSize q \<ge> off + 24" for q
  proof -
    have "table q = table p'" using q by (simp add: table_def cong: option.case_cong)
    then show ?thesis using srt t old assms(2,3) q xs by (fastforce simp: objects_ok_def p'_def)
  qed
  then show ?thesis using a t by (auto simp: p'_def data_of_def)
qed

definition tables_like :: "parcel \<Rightarrow> parcel \<Rightarrow> bool" where
  "tables_like q p \<longleftrightarrow> mObjects q = mObjects p \<and> mObjectsSize q = mObjectsSize p \<and> mObjectsCapacity q = mObjectsCapacity p"

lemma acquire_keeps: "data_of (acquire_binder_object L obj p) = data_of p" "tables_like (acquire_binder_object L obj p) p"
  by (auto simp: acquire_binder_object_def event_def data_of_def tables_like_def Let_def split: option.splits binder_type.splits)

text \<open>The entry that an object gets.\<close>

definition indexed :: "u8 list \<Rightarrow> parcel \<Rightarrow> parcel \<Rightarrow> bool" where
  "indexed val p p' \<longleftrightarrow> data_of p' = data_of p \<and> table p' = table p @ (if tracked val then [mDataPos p] else []) \<and>
     (\<forall>q. tables_like q p' \<longrightarrow> mDataPos p + 24 \<le> mDataSize q \<longrightarrow> objects_ok q)"

lemma indexed_same:
  assumes "objects_ok p" "at_end p" "\<not> tracked val"
  shows "indexed val p p"
  using assms same_objects(2) [of _ p] by (auto simp: indexed_def tables_like_def at_end_def)

lemma index_object_table:
  assumes "objects_ok p" "at_end p" "mObjectsSize p < mObjectsCapacity p"
  shows "\<exists>p'. index_object L val p = Some p' \<and> indexed val p p'"
proof (cases "tracked val")
  case False
  then have "index_object L val p = Some p"
    by (auto simp: tracked_def index_object_def Let_def split: option.splits binder_type.splits)
  then show ?thesis using indexed_same [OF assms(1,2) False] by blast
next
  case True
  define p0 where "p0 = (if binder_type_of (get_u32 0 val) = Some BINDER_TYPE_FD then p\<lparr>mHasFds := True, mFdsKnown := True\<rparr> else p)"
  have p0: "data_of p0 = data_of p" "tables_like p0 p" by (simp_all add: p0_def data_of_def tables_like_def)
  have ok0: "objects_ok p0" "table p0 = table p" "mObjectsSize p0 < mObjectsCapacity p0" "mDataPos p0 = mDataPos p" "mDataSize p0 \<le> mDataPos p"
    using same_objects [of p0 p] p0 assms same_data [OF p0(1)] by (auto simp: tables_like_def at_end_def)
  obtain p1 where p1: "append_object (mDataPos p) p0 = Some p1" "data_of p1 = data_of p0" "table p1 = table p @ [mDataPos p]"
      "\<And>q. tables_like q p1 \<Longrightarrow> mDataPos p + 24 \<le> mDataSize q \<Longrightarrow> objects_ok q"
    using append_object_table [OF ok0(1,3,5)] ok0(2) by (auto simp: tables_like_def)
  obtain ty where ty: "binder_type_of (get_u32 0 val) = Some ty" using True by (auto simp: tracked_def split: option.splits)
  have "index_object L val p = Some p1 \<or> index_object L val p = Some (acquire_binder_object L val p1)"
    using True p1(1) ty by (cases ty) (simp_all add: tracked_def index_object_def Let_def p0_def)
  then obtain p2 where p2: "index_object L val p = Some p2" "p2 = p1 \<or> p2 = acquire_binder_object L val p1" by blast
  have "data_of p2 = data_of p1" "tables_like p2 p1" using p2(2) acquire_keeps by (auto simp: tables_like_def)
  moreover from this have "table p2 = table p1" by (intro same_objects(1)) (simp_all add: tables_like_def)
  ultimately show ?thesis using p1 p2(1) p0(1) True by (auto simp: indexed_def tables_like_def)
qed

text \<open>The outcome of writing an object.\<close>

definition object_written :: "u8 list \<Rightarrow> parcel \<Rightarrow> parcel \<Rightarrow> bool" where
  "object_written val p p' \<longleftrightarrow> at_end p' \<and> objects_ok p' \<and> written p' = written p @ val \<and>
     table p' = table p @ (if tracked val then [mDataPos p] else [])"

lemma put_object_written:
  assumes "at_end p" "objects_ok p" "mDataPos p + length val \<le> mDataCapacity p" "mObjectsSize p < mObjectsCapacity p" "24 \<le> length val"
    "binder_type_of (get_u32 0 val) = Some BINDER_TYPE_FD \<Longrightarrow> mAllowFds p"
  shows "\<exists>p'. put_object L val p = Some (NO_ERROR, p') \<and> object_written val p p'"
proof -
  have ok: "parcel_ok p" "mDataPos p = mDataSize p" using assms(1) by (simp_all add: at_end_def)
  obtain pa where pa: "put_bytes val p = Some (NO_ERROR, pa)" "appended val p pa" using put_bytes_appends [OF assms(1,3)] by blast
  obtain p1 where p1: "store (mDataPos p) val p = Some p1" "parcel_ok p1" "mDataPos p1 = mDataPos p" "mDataSize p1 = mDataSize p"
      "objects_of p1 = objects_of p"
    using store_end [OF ok(1) assms(3)] by blast
  have tl: "tables_like p1 p" "mAllowFds p1 = mAllowFds p" using p1(5) by (simp_all add: objects_of_def tables_like_def)
  have fin: "finishWrite (length val) p1 = (NO_ERROR, pa)" using pa(1) p1(1) by (simp add: put_bytes_def)
  have ok1: "objects_ok p1" "at_end p1" "mObjectsSize p1 < mObjectsCapacity p1"
    using same_objects(2) [of p1 p] tl assms(1,2,4) p1 ok by (simp_all add: tables_like_def at_end_def)
  obtain p2 where p2: "index_object L val p1 = Some p2" "indexed val p1 p2" using index_object_table [OF ok1] by blast
  define p3 where "p3 = snd (finishWrite (length val) p2)"
  have d: "data_of p2 = data_of p1" using p2(2) by (simp add: indexed_def)
  have res: "finishWrite (length val) p2 = (NO_ERROR, p3)" "data_of p3 = data_of pa"
    using finishWrite_data [OF d] fin by (auto simp: p3_def prod_eq_iff)
  have tl3: "tables_like p3 p2" using finishWrite_objects by (simp add: p3_def tables_like_def)
  have sz: "mDataSize p3 = mDataPos p + length val"
    using appended_size [OF pa(2) assms(1)] same_data(5) [OF res(2)] ok(2) by simp
  have "objects_ok p3" using p2(2) tl3 sz assms(5) p1(3) by (simp add: indexed_def)
  moreover have "table p3 = table p @ (if tracked val then [mDataPos p] else [])"
    using p2(2) same_objects(1) [of p3 p2] same_objects(1) [of p1 p] tl tl3 p1(3) by (simp add: indexed_def tables_like_def)
  moreover have "at_end p3" "written p3 = written p @ val"
    using pa(2) same_data(1,3) [OF res(2)] by (simp_all add: appended_def)
  ultimately have "object_written val p p3" by (simp add: object_written_def)
  moreover have "put_object L val p = Some (NO_ERROR, p3)"
    using p1(1) p2(1) res(1) assms(6) tl(2) by (auto simp: put_object_def Let_def)
  ultimately show ?thesis by blast
qed

lemma grow_objects_cases:
  assumes "objects_ok p" "parcel_ok p" "objects_malloc_ok L"
  obtains (grew) p' where "grow_objects L p = (NO_ERROR, p')" "data_of p' = data_of p" "objects_ok p'" "table p' = table p"
      "mObjectsSize p' < mObjectsCapacity p'" "mAllowFds p' = mAllowFds p"
    | (short) "grow_objects L p = (NO_MEMORY, p)" "\<not> ample_objects L"
proof -
  let ?N = "mObjectsSize p"
  have "?N \<le> 2147483647" using objects_size_bound(1) [OF assms(1,2)] by simp
  moreover from this have "(?N + 2) * 3 div 2 \<le> (2147483647 + 2) * 3 div 2" by (intro div_le_mono) simp
  ultimately have small: "\<not> ?N > SIZE_MAX - 2" "\<not> ?N + 2 > SIZE_MAX div 3" "\<not> (?N + 2) * 3 div 2 > SIZE_MAX div 8" by simp_all
  show thesis
  proof (cases "realloc_objects L ((?N + 2) * 3 div 2)")
    case None
    then show thesis using small by (intro short) (auto simp: grow_objects_def ample_objects_def)
  next
    case (Some junk)
    let ?n = "(?N + 2) * 3 div 2"
    have len: "length junk = ?n" "?N < ?n" using Some assms(3) three_halves [of "?N + 2"] by (auto simp: objects_malloc_ok_def)
    define xs where "xs = (case mObjects p of None \<Rightarrow> junk | Some xs \<Rightarrow> take ?n xs @ drop (length xs) junk)"
    define p' where "p' = p\<lparr>mObjects := Some xs, mObjectsCapacity := ?n\<rparr>"
    have g: "grow_objects L p = (NO_ERROR, p')" using Some small by (simp add: grow_objects_def p'_def xs_def Let_def cong: option.case_cong)
    have xs: "length xs = ?n" "table p' = table p"
      using assms(1) len by (auto simp: xs_def p'_def table_def objects_ok_def min_def split: option.splits)
    then have "objects_ok p'" using assms(1) len(2) unfolding objects_ok_def xs(2) by (simp add: p'_def)
    then show thesis using grew [OF g] xs len(2) by (simp add: p'_def data_of_def)
  qed
qed

lemma room_add64:
  assumes "at_end p" "room p n"
  shows "add64 (mDataPos p) n = mDataPos p + n"
proof -
  have "mDataPos p + n \<le> 2147483647" using assms room_bound [OF assms(2)] by (simp add: at_end_def)
  then show ?thesis by simp
qed

text \<open>Writing an object at the end, with enough memory.\<close>

lemma writeObject_written:
  assumes "at_end p" "objects_ok p" "malloc_ok L" "objects_malloc_ok L" "ample L" "ample_objects L" "room p (length val)" "24 \<le> length val"
    "binder_type_of (get_u32 0 val) = Some BINDER_TYPE_FD \<Longrightarrow> mAllowFds p"
  shows "\<exists>p'. writeObject L val p = Some (NO_ERROR, p') \<and> object_written val p p'"
proof -
  obtain p1 where p1: "(if add64 (mDataPos p) (length val) \<le> mDataCapacity p then Some (NO_ERROR, p) else growData L (length val) p) = Some (NO_ERROR, p1)"
      "grown L (length val) p p1"
    using assms(1,3,7)
  proof (cases rule: make_room_cases)
    case there
    then show thesis using that grown_refl assms(1) by (auto simp: at_end_def)
  next
    case (grew p1)
    then show thesis using that by auto
  qed (use assms(5) in simp)
  have o1: "tables_like p1 p" "mAllowFds p1 = mAllowFds p" "at_end p1" "written p1 = written p" "mDataSize p1 = mDataSize p" "mDataPos p1 = mDataPos p"
      "mDataPos p1 + length val \<le> mDataCapacity p1"
    using p1(2) grown_at_end [OF assms(1)] by (auto simp: grown_def objects_of_def tables_like_def)
  have ok1: "objects_ok p1" "table p1 = table p" using same_objects [of p1 p] o1 assms(2) by (simp_all add: tables_like_def)
  obtain p2 where p2: "(if mObjectsSize p < mObjectsCapacity p then (NO_ERROR, p1) else grow_objects L p1) = (NO_ERROR, p2)"
      "data_of p2 = data_of p1" "objects_ok p2" "table p2 = table p" "mObjectsSize p2 < mObjectsCapacity p2" "mAllowFds p2 = mAllowFds p"
  proof (cases "mObjectsSize p < mObjectsCapacity p")
    case True
    then show thesis using that [of p1] ok1 o1 by (simp add: tables_like_def)
  next
    case False
    have "parcel_ok p1" using o1(3) by (simp add: at_end_def)
    with ok1(1) show thesis
      using assms(4)
    proof (cases rule: grow_objects_cases)
      case (grew p2)
      then show thesis using that False ok1 o1 by simp
    qed (use assms(6) in simp)
  qed
  note sd = same_data [OF p2(2)]
  obtain p3 where "put_object L val p2 = Some (NO_ERROR, p3)" "object_written val p2 p3"
    using put_object_written [of p2 val L] sd o1 p2 assms(8,9) by auto
  then show ?thesis using p1(1) p2(1,4) sd o1 by (auto simp: writeObject_def Let_def object_written_def)
qed

section \<open>Binders\<close>

lemma object_read_back:
  assumes "at_end p" "object_written val p p1" "length val = n" "24 \<le> n" "tracked val \<or> (fp_cookie (to_flat_binder_object val) = 0 \<and>
      fp_binder (to_flat_binder_object val) = 0 \<and> binder_type_of (get_u32 0 val) \<in> {Some BINDER_TYPE_BINDER, Some BINDER_TYPE_HANDLE})"
    "setDataPosition (mDataPos p) p1 = Some p2"
  shows "\<exists>i p3. readObject n p2 = Some (Some val, i, p3) \<and> mDataPos p3 = mDataPos p + n"
proof -
  have p2: "p2 = p1\<lparr>mDataPos := mDataPos p, mNextObjectHint := 0\<rparr>" using assms(6) by (simp add: setDataPosition_def split: if_splits)
  have w: "at_end p1" "objects_ok p1" "written p1 = written p @ val" "table p1 = table p @ (if tracked val then [mDataPos p] else [])"
    using assms(2) by (simp_all add: object_written_def)
  have p: "length (written p) = mDataSize p" "mDataPos p = mDataSize p" using assms(1) by (simp_all add: at_end_def parcel_okD)
  have "length (written p1) = mDataSize p1" using w(1) by (simp add: at_end_def parcel_okD)
  then have sz: "mDataSize p1 = mDataPos p + n" using w(3) p assms(3) by simp
  have ok2: "parcel_ok p2" using w(1) sz p2 by (auto simp: at_end_def parcel_ok_def)
  have u: "unread p2 = val @ []" using w(3) p p2 by (simp add: unread_def written_def contents_def)
  note f = unread_facts [OF ok2 u]
  have ld: "load (mDataPos p) n p2 = Some val" using f(4) [of n] assms(3,4) p2 by simp
  have b: "mDataPos p + n \<le> 2147483647" using f(2) p2 assms(3) by simp
  have cond: "add64 (mDataPos p2) n \<le> mDataSize p2" "mDataPos p2 = mDataPos p" "add64 (mDataPos p) n = mDataPos p + n" using b p2 sz by simp_all
  show ?thesis
  proof (cases "tracked val")
    case False
    then show ?thesis using cond ld assms(5) by (auto simp: readObject_def)
  next
    case True
    have t: "table p2 = table p @ [mDataPos p]" using w(4) True same_objects(1) [of p2 p1] p2 by simp
    then obtain OBJS where OBJS: "mObjects p2 = Some OBJS" "take (mObjectsSize p2) OBJS = table p @ [mDataPos p]"
      by (auto simp: table_def split: option.splits)
    have "mObjectsSize p2 \<le> length OBJS" "sorted_wrt (<) (take (mObjectsSize p2) OBJS)"
      using w(2) OBJS p2 t by (auto simp: objects_ok_def table_def)
    note s = search_object_exact [OF OBJS(1) this, of "mDataPos p"]
    have "length (table p) < mObjectsSize p2 \<and> OBJS ! length (table p) = mDataPos p"
      using arg_cong [OF OBJS(2), of length] arg_cong [OF OBJS(2), of "\<lambda>xs. xs ! length (table p)"] by (auto simp: min_def split: if_splits)
    then have "search_object p2 (mDataPos p) = Some (Some (length (table p)))" using s by metis
    then show ?thesis using cond ld by (auto simp: readObject_def Let_def)
  qed
qed

text \<open>The object that stands for a binder, whether the driver will see it, and what the reader gets.\<close>

definition binder_object :: "process \<Rightarrow> binder_ptr \<Rightarrow> u8 list" where
  "binder_object L b =
     (case b of
        No_binder \<Rightarrow> put_flat_binder_object BINDER_TYPE_BINDER \<lparr>fp_flags = 0, fp_binder = 0, fp_handle = 0, fp_cookie = 0\<rparr>
      | Remote_binder h \<Rightarrow>
          put_flat_binder_object BINDER_TYPE_HANDLE
            \<lparr>fp_flags = 0x100, fp_binder = 0, fp_handle = (case h of None \<Rightarrow> 0 | Some h \<Rightarrow> h), fp_cookie = 0\<rparr>
      | Local_binder addr refs policy priority sid \<Rightarrow>
          put_flat_binder_object BINDER_TYPE_BINDER
            \<lparr>fp_flags = (word_of_int priority AND 0xff) OR 0x100 OR flag_inherit_rt L OR push_bit (sched_policy_shift L) (word_of_int policy AND 3)
                        OR (if sid then 0x1000 else 0),
             fp_binder = refs, fp_handle = 0, fp_cookie = addr\<rparr>)"

fun translated :: "binder_ptr \<Rightarrow> bool" where
  "translated No_binder = False"
| "translated (Local_binder addr refs policy priority sid) = True"
| "translated (Remote_binder h) = (h \<noteq> None \<and> h \<noteq> Some 0)"

fun read_as :: "process \<Rightarrow> binder_ptr \<Rightarrow> binder_value" where
  "read_as L No_binder = Null_binder"
| "read_as L (Local_binder addr refs policy priority sid) = (if addr = 0 then Null_binder else Pointer addr)"
| "read_as L (Remote_binder h) =
     (case getStrongProxyForHandle L (case h of None \<Rightarrow> 0 | Some h \<Rightarrow> h) of None \<Rightarrow> Null_binder | Some b \<Rightarrow> Proxy_binder b)"

fun has_refs :: "binder_ptr \<Rightarrow> bool" where
  "has_refs (Local_binder addr refs policy priority sid) = (refs \<noteq> 0)"
| "has_refs _ = True"

lemma flat_object:
  "length (put_flat_binder_object ty fp) = 24"
  "binder_type_of (get_u32 0 (put_flat_binder_object ty fp)) = Some ty"
  "fp_cookie (to_flat_binder_object (put_flat_binder_object ty fp)) = fp_cookie fp"
  "\<not> is_handle_type ty \<Longrightarrow> fp_binder (to_flat_binder_object (put_flat_binder_object ty fp)) = fp_binder fp"
  "is_handle_type ty \<Longrightarrow> fp_handle (to_flat_binder_object (put_flat_binder_object ty fp)) = fp_handle fp"
  using get_u64_0 [of _ "[]"] by (simp_all add: put_flat_binder_object_def to_flat_binder_object_def layout)

lemma le_nat_append: "le_nat (xs @ ys) = le_nat xs + 256 ^ length xs * le_nat ys"
  by (induction xs) (simp_all add: algebra_simps)

lemma handle_binder:
  assumes "is_handle_type ty"
  shows "fp_binder (to_flat_binder_object (put_flat_binder_object ty fp)) = 0 \<longleftrightarrow> fp_handle fp = 0"
proof -
  have h: "unat (fp_handle fp) < 4294967296" using unat_lt(1) [of "fp_handle fp"] by simp
  have "fp_binder (to_flat_binder_object (put_flat_binder_object ty fp)) = word_of_nat (unat (fp_handle fp))"
    using assms h by (simp add: put_flat_binder_object_def to_flat_binder_object_def layout)
      (simp add: get_u64_def put_u32_def le_nat_append)
  moreover have "word_of_nat n = (0 :: u64) \<longleftrightarrow> n = 0" if "n < 4294967296" for n
    using that by (simp add: word_of_nat_eq_0_iff nat_dvd_not_less) (auto dest!: dvd_imp_le)
  ultimately show ?thesis using h unat_eq_0 [of "fp_handle fp"] by metis
qed

lemma binder_object_facts:
  assumes "has_refs b"
  shows "length (binder_object L b) = 24" "binder_type_of (get_u32 0 (binder_object L b)) \<in> {Some BINDER_TYPE_BINDER, Some BINDER_TYPE_HANDLE}"
    "tracked (binder_object L b) \<longleftrightarrow> translated b"
    "\<not> translated b \<Longrightarrow> fp_cookie (to_flat_binder_object (binder_object L b)) = 0 \<and> fp_binder (to_flat_binder_object (binder_object L b)) = 0"
  using assms handle_binder [of BINDER_TYPE_HANDLE]
  by (cases b; auto simp: binder_object_def flat_object tracked_def is_handle_type_def split: option.splits)+

lemma unflatten_object:
  assumes "readObject 24 p = Some (Some (binder_object L b), i, p')"
  shows "unflatten_binder L p = Some (NO_ERROR, read_as L b, p')"
  using assms by (cases b) (simp_all add: unflatten_binder_def binder_object_def flat_object is_handle_type_def Let_def)

text \<open>
  C17. A binder that is written to a parcel is read back: at the end of a well-formed parcel with memory available,
  writing a strong binder succeeds, keeps the parcel and its table of objects well formed (offsets strictly ascending
  and inside the data) and enters the object into the table exactly if it is a local binder or a handle other than 0;
  reading at that position then finds the object and returns the address of the local binder, the proxy of the
  handle, or a null pointer for no binder.
\<close>

theorem binder_roundtrip:
  assumes "at_end p" "objects_ok p" "malloc_ok L" "objects_malloc_ok L" "ample L" "ample_objects L" "room p 24" "has_refs b"
  shows "\<exists>p1 p2 p3. writeStrongBinder L b p = Some (NO_ERROR, p1) \<and> at_end p1 \<and> objects_ok p1 \<and>
    table p1 = table p @ (if translated b then [mDataPos p] else []) \<and>
    setDataPosition (mDataPos p) p1 = Some p2 \<and> readNullableStrongBinder L p2 = Some (NO_ERROR, read_as L b, p3)"
proof -
  note f = binder_object_facts [OF assms(8), of L]
  have noFD: "binder_type_of (get_u32 0 (binder_object L b)) \<noteq> Some BINDER_TYPE_FD" using f(2) by auto
  obtain p1 where p1: "writeObject L (binder_object L b) p = Some (NO_ERROR, p1)" "object_written (binder_object L b) p p1"
    using writeObject_written [OF assms(1-6), of "binder_object L b"] assms(7) f(1) noFD by auto
  have w: "writeStrongBinder L b p = Some (NO_ERROR, p1)"
    using p1(1) by (cases b) (simp_all add: writeStrongBinder_def flatten_binder_def binder_object_def)
  have "mDataPos p \<le> INT32_MAX" using room_bound [OF assms(7)] assms(1) by (simp add: at_end_def)
  then obtain p2 where p2: "setDataPosition (mDataPos p) p1 = Some p2" by (simp add: setDataPosition_def)
  obtain i p3 where "readObject 24 p2 = Some (Some (binder_object L b), i, p3)"
    using object_read_back [OF assms(1) p1(2) f(1) _ _ p2] f(2-4) by auto
  then have "readNullableStrongBinder L p2 = Some (NO_ERROR, read_as L b, p3)"
    by (simp add: readNullableStrongBinder_def unflatten_object)
  then show ?thesis using w p1(2) p2 f(3) by (auto simp: object_written_def)
qed

lemma sample_objects_ok: "objects_malloc_ok sample_process" "ample_objects sample_process" "objects_ok (initState q)" "table (initState q) = []"
    "room (initState q) 24" "mDataPos (initState q) = 0"
  by (simp_all add: objects_malloc_ok_def ample_objects_def sample_process_def objects_ok_def initState_def clearCache_def table_def room_def)

theorem binder_roundtrip_witness:
  "\<exists>p1 p2 p3. writeStrongBinder sample_process (Remote_binder (Some 5)) (initState sample_parcel) = Some (NO_ERROR, p1) \<and> at_end p1 \<and>
    objects_ok p1 \<and> table p1 = [0] \<and> setDataPosition 0 p1 = Some p2 \<and>
    readNullableStrongBinder sample_process p2 = Some (NO_ERROR, Proxy_binder 5, p3)"
  using binder_roundtrip [OF initState_at_end(1) sample_objects_ok(3) sample_process_ok(1) sample_objects_ok(1) sample_process_ok(2)
      sample_objects_ok(2,5), of "Remote_binder (Some 5)" sample_parcel] sample_objects_ok(4,6)
  by (simp add: sample_process_def)

section \<open>What goes wrong\<close>

text \<open>
  The room for a write is computed from the size of the data and not from the position: behind a position that was
  moved past the data the value is stored outside of the enlarged buffer.
\<close>

lemma write_behind_data:
  assumes "parcel_ok p" "malloc_ok L" "mData p = Mem m" "malloc L n = Some junk" "n = (mDataSize p + 4) * 3 div 2"
    "mDataCapacity p < n" "n < pos" "pos \<le> INT32_MAX" "setDataPosition pos p = Some p1"
  shows "writeInt32 L v p1 = None"
proof -
  note ok = parcel_okD [OF assms(1)]
  have p1: "p1 = p\<lparr>mDataPos := pos, mNextObjectHint := 0\<rparr>" using assms(8,9) by (simp add: setDataPosition_def)
  have pos: "pos \<le> 2147483647" using assms(8) by simp
  then have far: "\<not> add64 (mDataPos p1) 4 \<le> mDataCapacity p1" using assms(6,7) p1 by simp
  have small: "\<not> n > INT32_MAX" "\<not> n < mDataSize p" using pos assms(6,7) ok(3) by simp_all
  have len: "length junk = n" "length m = mDataCapacity p" using assms(2,3,4) ok(5) by (auto simp: malloc_ok_def contents_def)
  have "mDataSize p + 4 \<le> 2147483647" using three_halves [of "mDataSize p + 4"] pos assms(5,7) by linarith
  then have "\<not> 4 > INT32_MAX" "\<not> 4 > SIZE_MAX - mDataSize p1" "\<not> mDataSize p1 + 4 > SIZE_MAX div 3" using p1 by simp_all
  then have "growData L 4 p1 = continueWrite L n p1" using p1 unfolding growData_def assms(5) by simp
  also have "\<dots> = continue_own L n (mObjectsSize p1) p1" using small p1 ok(1) assms(3) by (simp add: continueWrite_def)
  finally obtain p2 where p2: "growData L 4 p1 = Some (NO_ERROR, p2)" "mDataPos p2 = pos" "mData p2 = Mem (take n m @ drop (length m) junk)"
    using assms(3,4,6,7) p1 by (auto simp: continue_own_def cut_objects_def realloc_block_def Let_def)
  have "length (take n m @ drop (length m) junk) = n" using len assms(6) by simp
  then have "store pos (put_u32 v) p2 = None" using p2(3) assms(7) by (simp add: store_def)
  then show ?thesis using far p2(1,2) by (simp add: writeInt32_def writeAligned_def put_bytes_def)
qed

text \<open>
  Data that would exceed the size limit is dropped, but \<^verbatim>\<open>write\<close> reports success: \<^verbatim>\<open>growData\<close> refuses with an error that is
  not stored in \<^verbatim>\<open>mError\<close>, and \<^verbatim>\<open>write\<close> returns \<^verbatim>\<open>mError\<close>.
\<close>

lemma write_drops_silently:
  assumes "at_end p" "mError p = NO_ERROR" "length bs \<le> INT32_MAX" "mDataCapacity p < mDataPos p + length (padded bs)"
    "(mDataSize p + length (padded bs)) * 3 div 2 > INT32_MAX"
  shows "write_bytes L bs p = Some (NO_ERROR, p)"
proof -
  have ok: "parcel_ok p" "mDataPos p = mDataSize p" using assms(1) by (simp_all add: at_end_def)
  note b = parcel_okD [OF ok(1)]
  have len: "length bs \<le> 2147483647" "mDataSize p \<le> 2147483647" "padding (length bs) < 4" using assms(3) b padding_less(1) by simp_all
  then have pad: "pad_size (length bs) = Some (length (padded bs))" "mDataPos p + length (padded bs) \<le> 5000000000" "length (padded bs) \<le> 3000000000"
    using pad_size_eq [of "length bs"] ok(2) by simp_all
  have a: "add64 (mDataPos p) (length (padded bs)) = mDataPos p + length (padded bs)" using pad(2) by (simp del: length_padded)
  have "\<exists>st. growData L (length (padded bs)) p = Some (st, p) \<and> st \<noteq> NO_ERROR"
    using assms(5) by (simp add: growData_def continueWrite_def del: length_padded)
  then have "writeInplace L (length bs) p = Some (None, p)" using pad(1) a assms(3,4) by (auto simp: writeInplace_def simp del: length_padded)
  then show ?thesis using assms(2,3) by (simp add: write_bytes_def)
qed

text \<open>
  \<^verbatim>\<open>restartWrite\<close> reads the objects through the old pointer after \<^verbatim>\<open>realloc\<close> has moved the block, and keeps the pointer to
  the freed block when the size is 0.
\<close>

lemma restart_uses_freed:
  assumes "mOwner p = None" "mData p = Mem m" "malloc L n = Some junk" "realloc_moves L n" "0 < n" "n \<le> INT32_MAX" "0 < mObjectsSize p"
  shows "restartWrite L n p = None"
proof -
  obtain k where k: "mObjectsSize p = Suc k" using assms(7) by (cases "mObjectsSize p") auto
  have "flat_at (p\<lparr>mData := Freed\<rparr>) k = None" by (cases "object_offset (p\<lparr>mData := Freed\<rparr>) k") (simp_all add: flat_at_def load_def)
  then have "releaseObjects L (p\<lparr>mData := Freed\<rparr>) = None" using k by (simp add: releaseObjects_def)
  then show ?thesis using assms by (simp add: restartWrite_def realloc_block_def Let_def)
qed

lemma restart_empty_dangles:
  assumes "mOwner p = None" "mData p = Mem m" "mObjectsSize p = 0"
  shows "\<exists>p1. restartWrite L 0 p = Some (NO_ERROR, p1) \<and> mData p1 = Freed \<and> mDataCapacity p1 = mDataCapacity p \<and>
    (4 \<le> mDataCapacity p \<longrightarrow> writeInt32 L v p1 = None)"
  using assms by (auto simp: restartWrite_def realloc_block_def releaseObjects_def clearCache_def writeInt32_def writeAligned_def
      add64_def put_bytes_def store_def)

text \<open>Dropping all objects frees the table but keeps its capacity: the next object is stored through a null pointer.\<close>

lemma release_keeps_capacity: "mObjectsCapacity (parcel_release_object L obj p) = mObjectsCapacity p"
  by (auto simp: parcel_release_object_def event_def Let_def split: option.splits binder_type.splits)

lemma drop_objects_capacity: "drop_objects L i n p = Some p' \<Longrightarrow> mObjectsCapacity p' = mObjectsCapacity p"
  by (induction n arbitrary: i p) (auto simp: Let_def release_keeps_capacity bind_eq_Some_conv split: if_splits)

lemma stale_objects_capacity:
  assumes "0 < mObjectsSize p" "0 < mObjectsCapacity p" "cut_objects L 0 p = Some p'" "tracked val" "mAllowFds p'"
    "add64 (mDataPos p') (length val) \<le> mDataCapacity p'"
  shows "writeObject L val p' = None"
proof -
  have p': "mObjects p' = None" "mObjectsSize p' = 0" "mObjectsCapacity p' = mObjectsCapacity p"
    using assms(1,3) drop_objects_capacity [of L 0 "mObjectsSize p" p]
    by (auto simp: cut_objects_def clearCache_def Let_def bind_eq_Some_conv)
  have "index_object L val p1 = None" if "mObjects p1 = None" for p1
    using assms(4) that by (auto simp: tracked_def index_object_def append_object_def Let_def split: option.splits binder_type.splits)
  moreover have "mObjects p1 = None \<and> mAllowFds p1 = mAllowFds p'" if "store (mDataPos p') val p' = Some p1" for p1
    using that p'(1) by (auto simp: store_def split: memory.splits if_splits)
  ultimately have "put_object L val p' = None"
    using assms(5) by (cases "store (mDataPos p') val p'") (simp_all add: put_object_def)
  then show ?thesis using assms(2,6) p' by (simp add: writeObject_def Let_def)
qed

text \<open>The end of the range in \<^verbatim>\<open>findBuffer\<close> wraps around: a length close to \<open>2 ^ 64\<close> is accepted.\<close>

lemma find_buffer_wraps:
  assumes "ifo_buffer e \<le> ptr" "ptr < ifo_bufend e"
  shows "find_in_cache ptr (- ptr) suspect (e # es) = (NO_ERROR, Some (ifo_index e, ptr - ifo_buffer e))"
  using assms by simp

end
