(* ===== verification/Binder_Transact.thy ===== *)
theory Binder_Transact
  imports Binder_Objects
begin

text \<open>
  \<^verbatim>\<open>binder_transaction\<close>: finding the target of a call or a reply, allocating the transaction and its
  buffer, translating the objects, handing the transaction over, and undoing everything when a step
  fails. The labels of the source are functions here; the debug log of transactions and the nice
  values of the threads are not modelled.
\<close>

section \<open>Codes and data\<close>

definition BR_ERROR :: u32 where "BR_ERROR = 0x80047200"
definition BR_FAILED_REPLY :: u32 where "BR_FAILED_REPLY = 0x7211"
definition BR_TRANSACTION_COMPLETE :: u32 where "BR_TRANSACTION_COMPLETE = 0x7206"
definition TF_CLEAR_BUF :: u32 where "TF_CLEAR_BUF = 0x20"

text \<open>\<open>tr_target\<close> is the union of a handle and a pointer, \<open>tr_buffer\<close> and \<open>tr_offsets\<close> are \<^verbatim>\<open>data.ptr\<close>.\<close>

record binder_transaction_data =
  tr_target :: u64
  tr_cookie :: u64
  tr_code :: u32
  tr_flags :: u32
  tr_sender_pid :: int
  tr_sender_euid :: int
  tr_data_size :: u64
  tr_offsets_size :: u64
  tr_buffer :: u64
  tr_offsets :: u64

definition tr_handle :: "binder_transaction_data \<Rightarrow> u32" where
  "tr_handle tr = ucast (tr_target tr)"

definition tr_one_way :: "binder_transaction_data \<Rightarrow> bool" where
  "tr_one_way tr \<longleftrightarrow> tr_flags tr AND TF_ONE_WAY \<noteq> 0"

text \<open>What the call has found so far: \<^verbatim>\<open>in_reply_to\<close>, \<^verbatim>\<open>target_thread\<close>, \<^verbatim>\<open>target_proc\<close>, \<^verbatim>\<open>target_node\<close>.\<close>

record txn_target =
  tt_reply :: "nat option"
  tt_thread :: "nat option"
  tt_proc :: "nat option"
  tt_node :: "nat option"

definition no_target :: txn_target where
  "no_target = \<lparr>tt_reply = None, tt_thread = None, tt_proc = None, tt_node = None\<rparr>"

section \<open>The target\<close>

text \<open>\<open>Inl\<close> is an error code with what has to be released.\<close>

definition reply_target :: "nat \<Rightarrow> driver \<Rightarrow> ((u32 \<times> txn_target) + txn_target) \<times> driver" where
  "reply_target th s =
     (case transaction_stack (bthread s th) of
        None \<Rightarrow> (Inl (BR_FAILED_REPLY, no_target), s)
      | Some r \<Rightarrow>
          if to_thread (btxn s r) \<noteq> Some th then (Inl (BR_FAILED_REPLY, no_target), s)
          else case binder_get_txn_from_and_acq_inner r (upd_thread th (transaction_stack_update (\<lambda>_. to_parent (btxn s r))) s) of
                 (None, s1) \<Rightarrow> (Inl (BR_DEAD_REPLY, no_target\<lparr>tt_reply := Some r\<rparr>), s1)
               | (Some target, s1) \<Rightarrow>
                   if transaction_stack (bthread s1 target) \<noteq> Some r then (Inl (BR_FAILED_REPLY, no_target), s1)
                   else let p = thread_proc (bthread s1 target)
                        in (Inr \<lparr>tt_reply = Some r, tt_thread = Some target, tt_proc = Some p, tt_node = None\<rparr>,
                            upd_proc p (proc_tmp_ref_update (\<lambda>c. c + 1)) s1))"

text \<open>The node a call goes to: the one behind the handle, or the context manager.\<close>

definition call_node :: "nat \<Rightarrow> u32 \<Rightarrow> driver \<Rightarrow> ((u32 + nat \<times> nat) \<times> driver) option" where
  "call_node p handle s =
     (let found = (if handle \<noteq> 0
                   then (case binder_get_ref_olocked s p handle True of
                           None \<Rightarrow> Some (Inl BR_FAILED_REPLY)
                         | Some r \<Rightarrow> map_option Inr (ref_node (bref s r)))
                   else (case binder_context_mgr_node s (proc_context (bproc s p)) of
                           None \<Rightarrow> Some (Inl BR_DEAD_REPLY)
                         | Some n \<Rightarrow> Some (Inr n)))
      in do {
        f \<leftarrow> found;
        case f of
          Inl e \<Rightarrow> Some (Inl e, s)
        | Inr n \<Rightarrow> do { (r, s1) \<leftarrow> binder_get_node_refs_for_txn n s; Some (map_sum id (Pair n) r, s1) }
      })"

text \<open>Up the stack of the calling thread: a thread of the target process that waits for this one.\<close>

fun call_stack_thread :: "nat \<Rightarrow> nat \<Rightarrow> nat option \<Rightarrow> driver \<Rightarrow> (nat option \<times> driver) option" where
  "call_stack_thread fuel target None s = Some (None, s)"
| "call_stack_thread 0 target (Some t) s = None"
| "call_stack_thread (Suc fuel) target (Some t) s =
     (case txn_from (btxn s t) of
        Some from \<Rightarrow>
          if thread_proc (bthread s from) = target
          then Some (Some from, upd_thread from (thread_tmp_ref_update (\<lambda>c. c + 1)) s)
          else call_stack_thread fuel target (from_parent (btxn s t)) s
      | None \<Rightarrow> call_stack_thread fuel target (from_parent (btxn s t)) s)"

definition head_is_transaction :: "nat \<Rightarrow> driver \<Rightarrow> bool" where
  "head_is_transaction th s \<longleftrightarrow>
     (case todo s (Thread_todo th) of [] \<Rightarrow> False | w # _ \<Rightarrow> work_type s w = BINDER_WORK_TRANSACTION)"

definition call_target ::
  "nat \<Rightarrow> task_env \<Rightarrow> nat \<Rightarrow> nat \<Rightarrow> binder_transaction_data \<Rightarrow> driver
     \<Rightarrow> (((u32 \<times> txn_target) + txn_target) \<times> driver) option" where
  "call_target fuel T p th tr s0 =
     do {
       (found, s) \<leftarrow> call_node p (tr_handle tr) s0;
       case found of
         Inl e \<Rightarrow> Some (Inl (e, no_target), s)
       | Inr (n, target) \<Rightarrow>
           let tg = no_target\<lparr>tt_proc := Some target, tt_node := Some n\<rparr>
           in if tr_handle tr = 0 \<and> proc_pid (bproc s target) = proc_pid (bproc s p) then Some (Inl (BR_FAILED_REPLY, tg), s)
              else if p = target then Some (Inl (BR_FAILED_REPLY, tg), binder_warn_on True s)
              else if \<not> transaction_ok T (proc_tsk (bproc s p)) (proc_tsk (bproc s target))
              then Some (Inl (BR_FAILED_REPLY, tg), s)
              else if \<not> tr_one_way tr \<and> head_is_transaction th s then Some (Inl (BR_FAILED_REPLY, tg), s)
              else if \<not> tr_one_way tr
              then case transaction_stack (bthread s th) of
                     None \<Rightarrow> Some (Inr tg, s)
                   | Some tmp \<Rightarrow>
                       if to_thread (btxn s tmp) \<noteq> Some th then Some (Inl (BR_FAILED_REPLY, tg), s)
                       else do {
                         (x, s1) \<leftarrow> call_stack_thread fuel target (Some tmp) s;
                         Some (Inr (tg\<lparr>tt_thread := x\<rparr>), s1)
                       }
              else Some (Inr tg, s)
     }"

section \<open>Undoing\<close>

text \<open>From the labels \<^verbatim>\<open>err_alloc_t_failed\<close> to \<^verbatim>\<open>err_invalid_target_handle\<close> on.\<close>

definition err_target :: "nat \<Rightarrow> kernel_env \<Rightarrow> nat \<Rightarrow> txn_target \<Rightarrow> u32 \<Rightarrow> driver \<Rightarrow> driver option" where
  "err_target fuel env th tg return_error s =
     do {
       s \<leftarrow> (case tt_thread tg of None \<Rightarrow> Some s | Some x \<Rightarrow> binder_thread_dec_tmpref env x s);
       s \<leftarrow> (case tt_proc tg of None \<Rightarrow> Some s | Some p \<Rightarrow> binder_proc_dec_tmpref env p s);
       s \<leftarrow> (case tt_node tg of
              None \<Rightarrow> Some s
            | Some n \<Rightarrow> do { s \<leftarrow> binder_dec_node env n True False s; binder_dec_node_tmpref env n s });
       s \<leftarrow> bug_on (return_error_cmd (bthread s th) \<noteq> BR_OK) s;
       case tt_reply tg of
         Some r \<Rightarrow>
           do {
             s \<leftarrow> binder_enqueue_thread_work th (Return_error_work th)
                    (upd_thread th (return_error_cmd_update (\<lambda>_. BR_TRANSACTION_COMPLETE)) s);
             binder_send_failed_reply fuel env r return_error s
           }
       | None \<Rightarrow>
           binder_enqueue_thread_work th (Return_error_work th) (upd_thread th (return_error_cmd_update (\<lambda>_. return_error)) s)
     }"

text \<open>\<^verbatim>\<open>err_alloc_tcomplete_failed\<close>, and \<^verbatim>\<open>err_binder_alloc_buf_failed\<close> to \<^verbatim>\<open>err_get_secctx_failed\<close> before it.\<close>

definition err_txn :: "nat \<Rightarrow> kernel_env \<Rightarrow> nat \<Rightarrow> nat \<Rightarrow> txn_target \<Rightarrow> u32 \<Rightarrow> driver \<Rightarrow> driver option" where
  "err_txn fuel env t th tg return_error s =
     err_target fuel env th tg return_error (binder_stats_deleted BINDER_STAT_TRANSACTION (s\<lparr>freed_txns := t # freed_txns s\<rparr>))"

definition err_complete :: "nat \<Rightarrow> kernel_env \<Rightarrow> nat \<Rightarrow> nat \<Rightarrow> nat \<Rightarrow> txn_target \<Rightarrow> u32 \<Rightarrow> driver \<Rightarrow> driver option" where
  "err_complete fuel env t tc th tg return_error s =
     err_txn fuel env t th tg return_error
       (binder_stats_deleted BINDER_STAT_TRANSACTION_COMPLETE (s\<lparr>freed_work := Complete_work tc # freed_work s\<rparr>))"

text \<open>From \<^verbatim>\<open>err_translate_failed\<close> to \<^verbatim>\<open>err_copy_data_failed\<close>: \<open>failed_at\<close> is how far the objects were translated.\<close>

definition err_buffer ::
  "nat \<Rightarrow> kernel_env \<Rightarrow> task_env \<Rightarrow> nat \<Rightarrow> nat \<Rightarrow> nat \<Rightarrow> nat \<Rightarrow> nat \<Rightarrow> u64 \<Rightarrow> txn_target \<Rightarrow> u32 \<Rightarrow> driver \<Rightarrow> driver option" where
  "err_buffer fuel env T t tc th target b failed_at tg return_error s =
     do {
       s \<leftarrow> binder_transaction_buffer_release env T target b failed_at True (binder_free_txn_fixups t s);
       s \<leftarrow> (case tt_node tg of None \<Rightarrow> Some s | Some n \<Rightarrow> binder_dec_node_tmpref env n s);
       a \<leftarrow> binder_alloc_free_buf env (set_buf b (transaction_update (\<lambda>_. None)) (proc_alloc (bproc s target))) b;
       err_complete fuel env t tc th (tg\<lparr>tt_node := None\<rparr>) return_error (upd_proc target (proc_alloc_update (\<lambda>_. a)) s)
     }"

section \<open>The objects of the transaction\<close>

text \<open>Where the walk over the offsets stands: next free byte for buffers, last fixed-up parent and its minimum.\<close>

record xlate =
  sg_buf_offset :: u64
  last_fixup_obj_off :: u64
  last_fixup_min_off :: u64

definition txn_flat ::
  "kernel_env \<Rightarrow> task_env \<Rightarrow> binder_type \<Rightarrow> u8 list \<Rightarrow> u64 \<Rightarrow> u64 \<Rightarrow> nat \<Rightarrow> nat \<Rightarrow> nat \<Rightarrow> driver \<Rightarrow> (bool \<times> driver) option" where
  "txn_flat env T ty obj buffer_offset object_offset th target b s =
     (let fp = to_flat_binder_object obj;
          allowed = transfer_binder_ok T (proc_tsk (bproc s (thread_proc (bthread s th)))) (proc_tsk (bproc s target))
      in do {
        (res, s1) \<leftarrow>
          (if is_handle_type ty
           then binder_translate_handle env (kzalloc_ref T buffer_offset) allowed ty fp th target s
           else binder_translate_binder env (kzalloc_node T buffer_offset) (kzalloc_ref T buffer_offset) allowed ty fp th target s);
        case res of
          Inl e \<Rightarrow> Some (False, s1)
        | Inr (ty', fp') \<Rightarrow> buffer_put env target b object_offset (put_flat_binder_object ty' fp') s1
      })"

definition txn_fd ::
  "kernel_env \<Rightarrow> task_env \<Rightarrow> u8 list \<Rightarrow> u64 \<Rightarrow> nat \<Rightarrow> nat \<Rightarrow> nat option \<Rightarrow> nat \<Rightarrow> nat \<Rightarrow> driver \<Rightarrow> (bool \<times> driver) option" where
  "txn_fd env T obj object_offset t th in_reply_to target b s =
     (let fp = to_binder_fd_object obj
      in do {
        (e, s1) \<leftarrow> binder_translate_fd T (fdo_fd fp) (object_offset + 8) t th in_reply_to s;
        if e \<noteq> None then Some (False, s1)
        else buffer_put env target b object_offset (put_binder_fd_object (fp\<lparr>fdo_fd := 0, fdo_upper := 0\<rparr>)) s1
      })"

definition txn_fda ::
  "kernel_env \<Rightarrow> task_env \<Rightarrow> u8 list \<Rightarrow> u64 \<Rightarrow> u64 \<Rightarrow> xlate \<Rightarrow> nat \<Rightarrow> nat \<Rightarrow> nat option \<Rightarrow> nat \<Rightarrow> nat \<Rightarrow> driver
     \<Rightarrow> ((unit + xlate) \<times> driver) option" where
  "txn_fda env T obj off_start buffer_offset x t th in_reply_to target b s =
     (let fda = to_binder_fd_array_object obj; a = proc_alloc (bproc s target)
      in do {
        r \<leftarrow> binder_validate_ptr env a b (fda_parent fda) off_start ((buffer_offset - off_start) div 8);
        case r of
          None \<Rightarrow> Some (Inl (), s)
        | Some (parent, parent_offset) \<Rightarrow>
            do {
              ok \<leftarrow> binder_validate_fixup env a b off_start parent_offset (fda_parent_offset fda)
                      (last_fixup_obj_off x) (last_fixup_min_off x);
              if \<not> ok then Some (Inl (), s)
              else do {
                (e, s1) \<leftarrow> binder_translate_fd_array env T fda parent target b t th in_reply_to s;
                Some (if e \<noteq> None then Inl ()
                      else Inr (x\<lparr>last_fixup_obj_off := parent_offset,
                                 last_fixup_min_off := fda_parent_offset fda + 4 * num_fds fda\<rparr>), s1)
              }
            }
      })"

definition txn_ptr ::
  "kernel_env \<Rightarrow> u8 list \<Rightarrow> u64 \<Rightarrow> u64 \<Rightarrow> u64 \<Rightarrow> u64 \<Rightarrow> xlate \<Rightarrow> nat \<Rightarrow> nat \<Rightarrow> driver \<Rightarrow> ((unit + xlate) \<times> driver) option" where
  "txn_ptr env obj off_start buffer_offset object_offset sg_buf_end x target b s =
     (let bp = to_binder_buffer_object obj; a = proc_alloc (bproc s target)
      in if bbo_length bp > sg_buf_end - sg_buf_offset x then Some (Inl (), s)
         else do {
           (left, a') \<leftarrow> binder_alloc_copy_user_to_buffer env a b (unat (sg_buf_offset x)) (unat (bbo_buffer bp)) (unat (bbo_length bp));
           s1 \<leftarrow> Some (upd_proc target (proc_alloc_update (\<lambda>_. a')) s);
           if left \<noteq> 0 then Some (Inl (), s1)
           else let bp' = bp\<lparr>bbo_buffer := user_base a' b + sg_buf_offset x\<rparr>;
                    x' = x\<lparr>sg_buf_offset := sg_buf_offset x + align_ptr (bbo_length bp)\<rparr>
                in do {
                  (e, s2) \<leftarrow> binder_fixup_parent env target b bp' off_start ((buffer_offset - off_start) div 8)
                               (last_fixup_obj_off x) (last_fixup_min_off x) s1;
                  if e \<noteq> None then Some (Inl (), s2)
                  else do {
                    (put, s3) \<leftarrow> buffer_put env target b object_offset (put_binder_buffer_object bp') s2;
                    Some (if put then Inr (x'\<lparr>last_fixup_obj_off := object_offset, last_fixup_min_off := 0\<rparr>) else Inl (), s3)
                  }
                }
         })"

definition txn_object ::
  "kernel_env \<Rightarrow> task_env \<Rightarrow> u8 list \<Rightarrow> u64 \<Rightarrow> u64 \<Rightarrow> u64 \<Rightarrow> u64 \<Rightarrow> xlate \<Rightarrow> nat \<Rightarrow> nat \<Rightarrow> nat option \<Rightarrow> nat \<Rightarrow> nat \<Rightarrow> driver
     \<Rightarrow> ((unit + xlate) \<times> driver) option" where
  "txn_object env T obj off_start buffer_offset object_offset sg_buf_end x t th in_reply_to target b s =
     (case binder_type_of (get_u32 0 obj) of
        None \<Rightarrow> Some (Inl (), s)
      | Some BINDER_TYPE_FD \<Rightarrow>
          map_option (apfst (\<lambda>put. if put then Inr x else Inl ())) (txn_fd env T obj object_offset t th in_reply_to target b s)
      | Some BINDER_TYPE_FDA \<Rightarrow> txn_fda env T obj off_start buffer_offset x t th in_reply_to target b s
      | Some BINDER_TYPE_PTR \<Rightarrow> txn_ptr env obj off_start buffer_offset object_offset sg_buf_end x target b s
      | Some ty \<Rightarrow>
          map_option (apfst (\<lambda>put. if put then Inr x else Inl ()))
            (txn_flat env T ty obj buffer_offset object_offset th target b s))"

text \<open>The walk over the offsets: \<open>Inl\<close> the offset entry it failed at, \<open>Inr\<close> the end of the entries.\<close>

partial_function (option) txn_objects ::
  "kernel_env \<Rightarrow> task_env \<Rightarrow> u64 \<Rightarrow> u64 \<Rightarrow> u64 \<Rightarrow> u64 \<Rightarrow> u64 \<Rightarrow> xlate \<Rightarrow> nat \<Rightarrow> nat \<Rightarrow> nat option \<Rightarrow> nat \<Rightarrow> nat \<Rightarrow> driver
     \<Rightarrow> ((u64 + u64) \<times> driver) option" where
  "txn_objects env T off_start buffer_offset off_end off_min sg_buf_end x t th in_reply_to target b s =
     (if buffer_offset < off_end
      then do {
        r \<leftarrow> buffer_get env (proc_alloc (bproc s target)) (replicate 8 0) b buffer_offset 8;
        case r of
          None \<Rightarrow> Some (Inl buffer_offset, s)
        | Some bs \<Rightarrow>
            do {
              (object_size, obj) \<leftarrow> binder_get_object env (proc_alloc (bproc s target)) b (get_u64 0 bs) uninit;
              if object_size = 0 \<or> get_u64 0 bs < off_min then Some (Inl buffer_offset, s)
              else do {
                (res, s1) \<leftarrow> txn_object env T obj off_start buffer_offset (get_u64 0 bs) sg_buf_end x t th in_reply_to target b s;
                case res of
                  Inl u \<Rightarrow> Some (Inl buffer_offset, s1)
                | Inr x' \<Rightarrow> txn_objects env T off_start (buffer_offset + 8) off_end (get_u64 0 bs + object_size) sg_buf_end x'
                              t th in_reply_to target b s1
              }
            }
      }
      else Some (Inr buffer_offset, s))"

section \<open>Filling the buffer\<close>

text \<open>The security context of the sender goes behind everything else.\<close>

definition put_secctx ::
  "kernel_env \<Rightarrow> binder_transaction_data \<Rightarrow> u64 \<Rightarrow> u8 list \<Rightarrow> nat \<Rightarrow> nat \<Rightarrow> nat \<Rightarrow> driver \<Rightarrow> driver option" where
  "put_secctx env tr extra secctx t target b s =
     (let off = align_ptr (tr_data_size tr) + align_ptr (tr_offsets_size tr) + align_ptr extra - align_ptr (word_of_nat (length secctx))
      in do {
        (put, s1) \<leftarrow> buffer_put env target b off secctx s;
        Some (if put then upd_txn t (security_ctx_update (\<lambda>_. user_base (proc_alloc (bproc s target)) b + off)) s1
              else binder_warn_on True s1)
      })"

text \<open>The copies from user space and the checks on the sizes; the flag tells that all went well.\<close>

definition txn_copy :: "kernel_env \<Rightarrow> binder_transaction_data \<Rightarrow> u64 \<Rightarrow> nat \<Rightarrow> nat \<Rightarrow> driver \<Rightarrow> (bool \<times> driver) option" where
  "txn_copy env tr extra target b s =
     do {
       (left, a1) \<leftarrow> binder_alloc_copy_user_to_buffer env (proc_alloc (bproc s target)) b 0 (unat (tr_buffer tr)) (unat (tr_data_size tr));
       s1 \<leftarrow> Some (upd_proc target (proc_alloc_update (\<lambda>_. a1)) s);
       if left \<noteq> 0 then Some (False, s1)
       else do {
         (left, a2) \<leftarrow> binder_alloc_copy_user_to_buffer env a1 b (unat (align_ptr (tr_data_size tr))) (unat (tr_offsets tr))
                         (unat (tr_offsets_size tr));
         s2 \<leftarrow> Some (upd_proc target (proc_alloc_update (\<lambda>_. a2)) s1);
         Some (left = 0 \<and> tr_offsets_size tr AND 7 = 0 \<and> extra AND 7 = 0, s2)
       }
     }"

section \<open>Handing over\<close>

text \<open>The flag is false when the target died (\<^verbatim>\<open>err_dead_proc_or_thread\<close>).\<close>

definition txn_send ::
  "bool \<Rightarrow> nat \<Rightarrow> nat \<Rightarrow> nat \<Rightarrow> nat \<Rightarrow> txn_target \<Rightarrow> driver \<Rightarrow> (bool \<times> driver) option" where
  "txn_send reply t tc th target tg s0 =
     (let s = s0\<lparr>work_type := (work_type s0)(Complete_work tc := BINDER_WORK_TRANSACTION_COMPLETE, Txn_work t := BINDER_WORK_TRANSACTION)\<rparr>;
          async = (case txn_buffer (btxn s t) of None \<Rightarrow> False | Some b \<Rightarrow> async_transaction (bufs (proc_alloc (bproc s target)) b))
      in if reply
         then do {
           r \<leftarrow> tt_reply tg;
           x \<leftarrow> tt_thread tg;
           s1 \<leftarrow> binder_enqueue_thread_work th (Complete_work tc) s;
           if thread_is_dead (bthread s1 x) then Some (False, s1)
           else do {
             s2 \<leftarrow> bug_on async s1;
             s3 \<leftarrow> binder_pop_transaction_ilocked (Some x) r s2;
             s4 \<leftarrow> binder_enqueue_thread_work_ilocked x (Txn_work t) s3;
             Some (True, binder_free_transaction r (wake_up_interruptible x True s4))
           }
         }
         else if \<not> one_way (btxn s t)
         then do {
           s1 \<leftarrow> bug_on async s;
           s2 \<leftarrow> binder_enqueue_deferred_thread_work_ilocked th (Complete_work tc) s1;
           s3 \<leftarrow> Some (upd_thread th (transaction_stack_update (\<lambda>_. Some t))
                    (upd_txn t (\<lambda>x. x\<lparr>need_reply := True, from_parent := transaction_stack (bthread s2 th)\<rparr>) s2));
           (alive, s4) \<leftarrow> binder_proc_transaction t target (tt_thread tg) s3;
           if alive then Some (True, s4)
           else map_option (Pair False) (binder_pop_transaction_ilocked (Some th) t s4)
         }
         else do {
           s1 \<leftarrow> bug_on (tt_node tg = None) s;
           s2 \<leftarrow> bug_on (\<not> async) s1;
           s3 \<leftarrow> binder_enqueue_thread_work th (Complete_work tc) s2;
           binder_proc_transaction t target None s3
         })"

text \<open>The success path: the temporary references of the call are dropped.\<close>

definition txn_done :: "kernel_env \<Rightarrow> nat \<Rightarrow> txn_target \<Rightarrow> driver \<Rightarrow> driver option" where
  "txn_done env target tg s =
     do {
       s \<leftarrow> (case tt_thread tg of None \<Rightarrow> Some s | Some x \<Rightarrow> binder_thread_dec_tmpref env x s);
       s \<leftarrow> binder_proc_dec_tmpref env target s;
       case tt_node tg of None \<Rightarrow> Some s | Some n \<Rightarrow> binder_dec_node_tmpref env n s
     }"

section \<open>The whole call\<close>

definition zeroed_txn :: struct_binder_transaction where
  "zeroed_txn = \<lparr>txn_from = None, from_parent = None, to_proc = None, to_thread = None, to_parent = None,
     need_reply = False, txn_buffer = None, txn_flags = 0, txn_code = 0, sender_euid = 0, security_ctx = 0, fd_fixups = []\<rparr>"

text \<open>After the buffer \<open>b\<close> was allocated.\<close>

definition txn_with_buffer ::
  "nat \<Rightarrow> kernel_env \<Rightarrow> task_env \<Rightarrow> nat \<Rightarrow> binder_transaction_data \<Rightarrow> bool \<Rightarrow> u64 \<Rightarrow> u8 list option
     \<Rightarrow> nat \<Rightarrow> nat \<Rightarrow> nat \<Rightarrow> nat \<Rightarrow> txn_target \<Rightarrow> driver \<Rightarrow> driver option" where
  "txn_with_buffer fuel env T th tr reply extra secctx t tc target b tg s0 =
     (let off_start = align_ptr (tr_data_size tr); off_end = off_start + tr_offsets_size tr;
          sg = align_ptr off_end;
          sg_end = sg + extra - (case secctx of None \<Rightarrow> 0 | Some bs \<Rightarrow> align_ptr (word_of_nat (length bs)))
      in do {
        s1 \<leftarrow> (case secctx of None \<Rightarrow> Some s0 | Some bs \<Rightarrow> put_secctx env tr extra bs t target b s0);
        s2 \<leftarrow> Some (upd_proc target (proc_alloc_update (set_buf b (\<lambda>x. x\<lparr>transaction := Some t, target_node := tt_node tg,
                        clear_on_free := (txn_flags (btxn s1 t) AND TF_CLEAR_BUF \<noteq> 0)\<rparr>))) s1);
        (copied, s3) \<leftarrow> txn_copy env tr extra target b s2;
        if \<not> copied then err_buffer fuel env T t tc th target b 0 tg BR_FAILED_REPLY s3
        else do {
          (res, s4) \<leftarrow> txn_objects env T off_start off_start off_end 0 sg_end
                         \<lparr>sg_buf_offset = sg, last_fixup_obj_off = 0, last_fixup_min_off = 0\<rparr> t th (tt_reply tg) target b s3;
          case res of
            Inl failed_at \<Rightarrow> err_buffer fuel env T t tc th target b failed_at tg BR_FAILED_REPLY s4
          | Inr reached \<Rightarrow>
              do {
                (alive, s5) \<leftarrow> txn_send reply t tc th target tg s4;
                if alive then txn_done env target tg s5
                else err_buffer fuel env T t tc th target b reached tg BR_DEAD_REPLY (binder_dequeue_work (Complete_work tc) s5)
              }
        }
      })"

text \<open>After the target was found and the two structures were allocated.\<close>

definition txn_with_memory ::
  "nat \<Rightarrow> kernel_env \<Rightarrow> task_env \<Rightarrow> nat \<Rightarrow> nat \<Rightarrow> binder_transaction_data \<Rightarrow> bool \<Rightarrow> u64
     \<Rightarrow> nat \<Rightarrow> nat \<Rightarrow> nat \<Rightarrow> txn_target \<Rightarrow> driver \<Rightarrow> driver option" where
  "txn_with_memory fuel env T p th tr reply extra t tc target tg s0 =
     (let s = upd_txn t (\<lambda>x. x\<lparr>txn_from := (if \<not> reply \<and> \<not> tr_one_way tr then Some th else None),
                 sender_euid := task_euid T (proc_tsk (bproc s0 p)), to_proc := Some target, to_thread := tt_thread tg,
                 txn_code := tr_code tr, txn_flags := tr_flags tr\<rparr>) s0;
          wants = (case tt_node tg of None \<Rightarrow> False | Some n \<Rightarrow> txn_security_ctx (bnode s n));
          ctx = (if wants then map_sum id Some (secctx_of T (proc_tsk (bproc s p))) else Inr None)
      in case ctx of
           Inl e \<Rightarrow> err_complete fuel env t tc th tg BR_FAILED_REPLY s
         | Inr secctx \<Rightarrow>
             let added = (case secctx of None \<Rightarrow> 0 | Some bs \<Rightarrow> align_ptr (word_of_nat (length bs))); extra' = extra + added
             in if extra' < added then err_complete fuel env t tc th tg BR_FAILED_REPLY s
                else case binder_alloc_new_buf env (proc_alloc (bproc s target)) (tr_data_size tr) (tr_offsets_size tr) extra'
                            (\<not> reply \<and> tr_one_way tr) (tgid T) of
                       (Inl e, a) \<Rightarrow>
                         if e = KBUG then None
                         else err_complete fuel env t tc th tg (if e = ESRCH then BR_DEAD_REPLY else BR_FAILED_REPLY)
                                (upd_proc target (proc_alloc_update (\<lambda>_. a)) s)
                     | (Inr b, a) \<Rightarrow>
                         txn_with_buffer fuel env T th tr reply extra' secctx t tc target b tg
                           (upd_txn t (txn_buffer_update (\<lambda>_. Some b)) (upd_proc target (proc_alloc_update (\<lambda>_. a)) s)))"

definition binder_transaction ::
  "nat \<Rightarrow> kernel_env \<Rightarrow> task_env \<Rightarrow> nat \<Rightarrow> nat \<Rightarrow> binder_transaction_data \<Rightarrow> bool \<Rightarrow> u64 \<Rightarrow> driver \<Rightarrow> driver option" where
  "binder_transaction fuel env T p th tr reply extra s0 =
     do {
       (found, s) \<leftarrow> (if reply then Some (reply_target th (s0\<lparr>binder_last_id := Suc (binder_last_id s0)\<rparr>))
                      else call_target fuel T p th tr (s0\<lparr>binder_last_id := Suc (binder_last_id s0)\<rparr>));
       case found of
         Inl (e, tg) \<Rightarrow> err_target fuel env th tg e s
       | Inr tg \<Rightarrow>
           do {
             target \<leftarrow> tt_proc tg;
             case kzalloc_txn T of
               None \<Rightarrow> err_target fuel env th tg BR_FAILED_REPLY s
             | Some t \<Rightarrow>
                 let s1 = binder_stats_created BINDER_STAT_TRANSACTION (upd_txn t (\<lambda>_. zeroed_txn)
                            (s\<lparr>work_on := (work_on s)(Txn_work t := None)\<rparr>))
                 in (case kzalloc_complete T of
                       None \<Rightarrow> err_txn fuel env t th tg BR_FAILED_REPLY s1
                     | Some tc \<Rightarrow>
                         txn_with_memory fuel env T p th tr reply extra t tc target tg
                           (binder_stats_created BINDER_STAT_TRANSACTION_COMPLETE
                              (s1\<lparr>work_on := (work_on s1)(Complete_work tc := None)\<rparr>)))
           }
     }"

end
