(* ===== verification/Binder_Commands.thy ===== *)
theory Binder_Commands
  imports Binder_Transact
begin

text \<open>
  \<^verbatim>\<open>binder_thread_write\<close>: the commands of a user thread, one function per group of \<^verbatim>\<open>case\<close> labels, and
  the loop over the command buffer. An \<open>Inl\<close> result ends the loop with an error code; the outer
  \<open>None\<close> is a kernel fault or a loop that does not end. Messages about user errors are left out.
\<close>

section \<open>Freeing a buffer\<close>

definition binder_free_buf :: "kernel_env \<Rightarrow> task_env \<Rightarrow> nat \<Rightarrow> nat \<Rightarrow> driver \<Rightarrow> driver option" where
  "binder_free_buf env T p b s0 =
     (let buf = bufs (proc_alloc (bproc s0 p)) b;
          s = (case transaction buf of
                 None \<Rightarrow> s0
               | Some t \<Rightarrow> clear_buffer_transaction p b (upd_txn t (txn_buffer_update (\<lambda>_. None)) s0))
      in do {
        s1 \<leftarrow> (if async_transaction buf
               then (case target_node buf of
                       None \<Rightarrow> Some s
                     | Some n \<Rightarrow>
                         do {
                           s \<leftarrow> bug_on (\<not> has_async_transaction (bnode s n)) s;
                           s \<leftarrow> bug_on (node_proc (bnode s n) \<noteq> Some p) s;
                           case binder_dequeue_work_head_ilocked (Async_todo n) s of
                             (None, s') \<Rightarrow> Some (upd_node n (has_async_transaction_update (\<lambda>_. False)) s')
                           | (Some w, s') \<Rightarrow> map_option (binder_wakeup_proc_ilocked p) (binder_enqueue_work_ilocked w (Proc_todo p) s')
                         })
               else Some s);
        s2 \<leftarrow> binder_transaction_buffer_release env T p b 0 False s1;
        a \<leftarrow> binder_alloc_free_buf env (proc_alloc (bproc s2 p)) b;
        Some (upd_proc p (proc_alloc_update (\<lambda>_. a)) s2)
      })"

definition cmd_free_buffer :: "kernel_env \<Rightarrow> task_env \<Rightarrow> nat \<Rightarrow> u64 \<Rightarrow> driver \<Rightarrow> driver option" where
  "cmd_free_buffer env T p data_ptr s =
     (case binder_alloc_prepare_to_free (proc_alloc (bproc s p)) (unat data_ptr) of
        (Inl e, a) \<Rightarrow> if e = KBUG then None else Some s
      | (Inr None, a) \<Rightarrow> Some s
      | (Inr (Some b), a) \<Rightarrow> binder_free_buf env T p b (upd_proc p (proc_alloc_update (\<lambda>_. a)) s))"

section \<open>Reference counts\<close>

text \<open>\<^verbatim>\<open>BC_INCREFS\<close>, \<^verbatim>\<open>BC_ACQUIRE\<close>, \<^verbatim>\<open>BC_RELEASE\<close>, \<^verbatim>\<open>BC_DECREFS\<close>; handle 0 is the context manager.\<close>

definition cmd_refs ::
  "kernel_env \<Rightarrow> task_env \<Rightarrow> bool \<Rightarrow> bool \<Rightarrow> nat \<Rightarrow> u32 \<Rightarrow> driver \<Rightarrow> (kerr option \<times> driver) option" where
  "cmd_refs env T increment strong' p handle s =
     (let by_handle = (\<lambda>s. map_option (\<lambda>(r, s'). (None, s')) (binder_update_ref_for_handle env p handle increment strong' s))
      in if increment \<and> handle = 0
         then case binder_context_mgr_node s (proc_context (bproc s p)) of
                None \<Rightarrow> by_handle s
              | Some n \<Rightarrow>
                  if node_proc (bnode s n) = Some p then Some (Some EINVAL, s)
                  else do {
                    (r, s1) \<leftarrow> binder_inc_ref_for_node env p n (kzalloc_ref T 0) strong' None s;
                    case r of Inr d \<Rightarrow> Some (None, s1) | Inl e \<Rightarrow> by_handle s1
                  }
         else by_handle s)"

text \<open>\<^verbatim>\<open>BC_INCREFS_DONE\<close> and \<^verbatim>\<open>BC_ACQUIRE_DONE\<close>: user space has taken the count the driver asked it to take.\<close>

definition cmd_refs_done :: "kernel_env \<Rightarrow> bool \<Rightarrow> nat \<Rightarrow> u64 \<Rightarrow> u64 \<Rightarrow> driver \<Rightarrow> driver option" where
  "cmd_refs_done env acquire p ptr cookie s =
     (case binder_get_node p ptr s of
        (None, s1) \<Rightarrow> Some s1
      | (Some n, s1) \<Rightarrow>
          if cookie \<noteq> node_cookie (bnode s1 n)
             \<or> \<not> (if acquire then pending_strong_ref (bnode s1 n) else pending_weak_ref (bnode s1 n))
          then binder_put_node env n s1
          else do {
            s2 \<leftarrow> Some (upd_node n (if acquire then pending_strong_ref_update (\<lambda>_. False) else pending_weak_ref_update (\<lambda>_. False)) s1);
            (free_node, s3) \<leftarrow> binder_dec_node_nilocked env n acquire False s2;
            binder_put_node env n (binder_warn_on free_node s3)
          })"

section \<open>Threads\<close>

definition cmd_register_looper :: "nat \<Rightarrow> nat \<Rightarrow> driver \<Rightarrow> driver" where
  "cmd_register_looper p th s =
     (let s1 = (if looper (bthread s th) AND BINDER_LOOPER_STATE_ENTERED \<noteq> 0 \<or> requested_threads (bproc s p) = 0
                then upd_thread th (looper_update (\<lambda>l. l OR BINDER_LOOPER_STATE_INVALID)) s
                else upd_proc p (\<lambda>pr. pr\<lparr>requested_threads := requested_threads pr - 1,
                                       requested_threads_started := requested_threads_started pr + 1\<rparr>) s)
      in upd_thread th (looper_update (\<lambda>l. l OR BINDER_LOOPER_STATE_REGISTERED)) s1)"

definition cmd_enter_looper :: "nat \<Rightarrow> driver \<Rightarrow> driver" where
  "cmd_enter_looper th s =
     (let s1 = (if looper (bthread s th) AND BINDER_LOOPER_STATE_REGISTERED \<noteq> 0
                then upd_thread th (looper_update (\<lambda>l. l OR BINDER_LOOPER_STATE_INVALID)) s else s)
      in upd_thread th (looper_update (\<lambda>l. l OR BINDER_LOOPER_STATE_ENTERED)) s1)"

definition cmd_exit_looper :: "nat \<Rightarrow> driver \<Rightarrow> driver" where
  "cmd_exit_looper th s = upd_thread th (looper_update (\<lambda>l. l OR BINDER_LOOPER_STATE_EXITED)) s"

section \<open>Death notifications\<close>

text \<open>A work item for this thread if it is a looper, else for the process.\<close>

definition enqueue_own_work :: "nat \<Rightarrow> nat \<Rightarrow> work_id \<Rightarrow> driver \<Rightarrow> driver option" where
  "enqueue_own_work p th w s =
     (if looper (bthread s th) AND (BINDER_LOOPER_STATE_REGISTERED OR BINDER_LOOPER_STATE_ENTERED) \<noteq> 0
      then binder_enqueue_thread_work_ilocked th w s
      else map_option (binder_wakeup_proc_ilocked p) (binder_enqueue_work_ilocked w (Proc_todo p) s))"

text \<open>Without memory for the notification the thread gets \<^verbatim>\<open>BR_ERROR\<close>.\<close>

definition cmd_request_death ::
  "task_env \<Rightarrow> nat \<Rightarrow> nat \<Rightarrow> u32 \<Rightarrow> u64 \<Rightarrow> driver \<Rightarrow> driver option" where
  "cmd_request_death T p th handle cookie s =
     (case kzalloc_death T of
        None \<Rightarrow> binder_enqueue_thread_work th (Return_error_work th)
                  (upd_thread th (return_error_cmd_update (\<lambda>_. BR_ERROR))
                     (binder_warn_on (return_error_cmd (bthread s th) \<noteq> BR_OK) s))
      | Some d \<Rightarrow>
          (case binder_get_ref_olocked s p handle False of
             None \<Rightarrow> Some (s\<lparr>freed_work := Death_work d # freed_work s\<rparr>)
           | Some r \<Rightarrow>
               if death (bref s r) \<noteq> None then Some (s\<lparr>freed_work := Death_work d # freed_work s\<rparr>)
               else let s1 = binder_stats_created BINDER_STAT_DEATH s;
                        s2 = upd_ref r (death_update (\<lambda>_. Some d))
                               (s1\<lparr>work_on := (work_on s1)(Death_work d := None), death_cookie := (death_cookie s1)(d := cookie)\<rparr>)
                    in (case ref_node (bref s r) of
                          None \<Rightarrow> None
                        | Some n \<Rightarrow>
                            if node_proc (bnode s2 n) = None
                            then map_option (binder_wakeup_proc_ilocked p)
                                   (binder_enqueue_work_ilocked (Death_work d) (Proc_todo p)
                                      (s2\<lparr>work_type := (work_type s2)(Death_work d := BINDER_WORK_DEAD_BINDER)\<rparr>))
                            else Some s2)))"

definition cmd_clear_death :: "nat \<Rightarrow> nat \<Rightarrow> u32 \<Rightarrow> u64 \<Rightarrow> driver \<Rightarrow> driver option" where
  "cmd_clear_death p th handle cookie s =
     (case binder_get_ref_olocked s p handle False of
        None \<Rightarrow> Some s
      | Some r \<Rightarrow>
          (case death (bref s r) of
             None \<Rightarrow> Some s
           | Some d \<Rightarrow>
               if death_cookie s d \<noteq> cookie then Some s
               else let s1 = upd_ref r (death_update (\<lambda>_. None)) s
                    in if work_on s1 (Death_work d) = None
                       then enqueue_own_work p th (Death_work d)
                              (s1\<lparr>work_type := (work_type s1)(Death_work d := BINDER_WORK_CLEAR_DEATH_NOTIFICATION)\<rparr>)
                       else do {
                         s2 \<leftarrow> bug_on (work_type s1 (Death_work d) \<noteq> BINDER_WORK_DEAD_BINDER) s1;
                         Some (s2\<lparr>work_type := (work_type s2)(Death_work d := BINDER_WORK_DEAD_BINDER_AND_CLEAR)\<rparr>)
                       }))"

text \<open>The search in \<^verbatim>\<open>delivered_death\<close>; \<^verbatim>\<open>container_of\<close> is meaningful because only notifications get there.\<close>

definition delivered_with_cookie :: "nat \<Rightarrow> u64 \<Rightarrow> driver \<Rightarrow> nat option" where
  "delivered_with_cookie p cookie s =
     (case List.find (\<lambda>w. case w of Death_work d \<Rightarrow> death_cookie s d = cookie | _ \<Rightarrow> False) (todo s (Delivered_death p)) of
        Some (Death_work d) \<Rightarrow> Some d
      | _ \<Rightarrow> None)"

definition cmd_dead_binder_done :: "nat \<Rightarrow> nat \<Rightarrow> u64 \<Rightarrow> driver \<Rightarrow> driver option" where
  "cmd_dead_binder_done p th cookie s =
     (case delivered_with_cookie p cookie s of
        None \<Rightarrow> Some s
      | Some d \<Rightarrow>
          let s1 = binder_dequeue_work_ilocked (Death_work d) s
          in if work_type s1 (Death_work d) = BINDER_WORK_DEAD_BINDER_AND_CLEAR
             then enqueue_own_work p th (Death_work d)
                    (s1\<lparr>work_type := (work_type s1)(Death_work d := BINDER_WORK_CLEAR_DEATH_NOTIFICATION)\<rparr>)
             else Some s1)"

section \<open>The command loop\<close>

definition BC_TRANSACTION :: u32 where "BC_TRANSACTION = 0x40406300"
definition BC_REPLY :: u32 where "BC_REPLY = 0x40406301"
definition BC_FREE_BUFFER :: u32 where "BC_FREE_BUFFER = 0x40086303"
definition BC_INCREFS :: u32 where "BC_INCREFS = 0x40046304"
definition BC_ACQUIRE :: u32 where "BC_ACQUIRE = 0x40046305"
definition BC_RELEASE :: u32 where "BC_RELEASE = 0x40046306"
definition BC_DECREFS :: u32 where "BC_DECREFS = 0x40046307"
definition BC_INCREFS_DONE :: u32 where "BC_INCREFS_DONE = 0x40106308"
definition BC_ACQUIRE_DONE :: u32 where "BC_ACQUIRE_DONE = 0x40106309"
definition BC_REGISTER_LOOPER :: u32 where "BC_REGISTER_LOOPER = 0x630b"
definition BC_ENTER_LOOPER :: u32 where "BC_ENTER_LOOPER = 0x630c"
definition BC_EXIT_LOOPER :: u32 where "BC_EXIT_LOOPER = 0x630d"
definition BC_REQUEST_DEATH_NOTIFICATION :: u32 where "BC_REQUEST_DEATH_NOTIFICATION = 0x400c630e"
definition BC_CLEAR_DEATH_NOTIFICATION :: u32 where "BC_CLEAR_DEATH_NOTIFICATION = 0x400c630f"
definition BC_DEAD_BINDER_DONE :: u32 where "BC_DEAD_BINDER_DONE = 0x40086310"
definition BC_TRANSACTION_SG :: u32 where "BC_TRANSACTION_SG = 0x40486311"
definition BC_REPLY_SG :: u32 where "BC_REPLY_SG = 0x40486312"

text \<open>
  The command buffer in user memory (\<open>None\<close>: not readable) and, per command, the answers of the
  kernel while it is carried out.
\<close>

record write_env =
  get_user_u32 :: "u64 \<Rightarrow> u32 option"
  get_user_u64 :: "u64 \<Rightarrow> u64 option"
  get_user_tr :: "u64 \<Rightarrow> binder_transaction_data option"
  during :: "u64 \<Rightarrow> kernel_env \<times> task_env"

definition fault :: "'a option \<Rightarrow> ('a \<Rightarrow> ((kerr + u64) \<times> driver) option) \<Rightarrow> driver \<Rightarrow> ((kerr + u64) \<times> driver) option" where
  "fault x k s = (case x of None \<Rightarrow> Some (Inl EFAULT, s) | Some v \<Rightarrow> k v)"

definition advance :: "u64 \<Rightarrow> driver option \<Rightarrow> ((kerr + u64) \<times> driver) option" where
  "advance ptr r = map_option (Pair (Inr ptr)) r"

text \<open>One command whose code was read; \<open>ptr\<close> points behind the code. \<open>Inr\<close> is the address of the next one.\<close>

definition write_command ::
  "nat \<Rightarrow> write_env \<Rightarrow> nat \<Rightarrow> nat \<Rightarrow> u32 \<Rightarrow> u64 \<Rightarrow> driver \<Rightarrow> ((kerr + u64) \<times> driver) option" where
  "write_command fuel W p th cmd ptr s =
     (let (env, T) = during W ptr in
      if cmd = BC_INCREFS \<or> cmd = BC_ACQUIRE \<or> cmd = BC_RELEASE \<or> cmd = BC_DECREFS
      then fault (get_user_u32 W ptr) (\<lambda>target.
             map_option (\<lambda>(e, s'). (case e of None \<Rightarrow> Inr (ptr + 4) | Some x \<Rightarrow> Inl x, s'))
               (cmd_refs env T (cmd = BC_INCREFS \<or> cmd = BC_ACQUIRE) (cmd = BC_ACQUIRE \<or> cmd = BC_RELEASE) p target s)) s
      else if cmd = BC_INCREFS_DONE \<or> cmd = BC_ACQUIRE_DONE
      then fault (get_user_u64 W ptr) (\<lambda>node_ptr.
             fault (get_user_u64 W (ptr + 8)) (\<lambda>cookie.
               advance (ptr + 16) (cmd_refs_done env (cmd = BC_ACQUIRE_DONE) p node_ptr cookie s)) s) s
      else if cmd = BC_FREE_BUFFER
      then fault (get_user_u64 W ptr) (\<lambda>data_ptr. advance (ptr + 8) (cmd_free_buffer env T p data_ptr s)) s
      else if cmd = BC_TRANSACTION_SG \<or> cmd = BC_REPLY_SG
      then fault (get_user_tr W ptr) (\<lambda>tr.
             fault (get_user_u64 W (ptr + 64)) (\<lambda>buffers_size.
               advance (ptr + 72) (binder_transaction fuel env T p th tr (cmd = BC_REPLY_SG) buffers_size s)) s) s
      else if cmd = BC_TRANSACTION \<or> cmd = BC_REPLY
      then fault (get_user_tr W ptr) (\<lambda>tr. advance (ptr + 64) (binder_transaction fuel env T p th tr (cmd = BC_REPLY) 0 s)) s
      else if cmd = BC_REGISTER_LOOPER then Some (Inr ptr, cmd_register_looper p th s)
      else if cmd = BC_ENTER_LOOPER then Some (Inr ptr, cmd_enter_looper th s)
      else if cmd = BC_EXIT_LOOPER then Some (Inr ptr, cmd_exit_looper th s)
      else if cmd = BC_REQUEST_DEATH_NOTIFICATION \<or> cmd = BC_CLEAR_DEATH_NOTIFICATION
      then fault (get_user_u32 W ptr) (\<lambda>target.
             fault (get_user_u64 W (ptr + 4)) (\<lambda>cookie.
               advance (ptr + 12)
                 (if cmd = BC_REQUEST_DEATH_NOTIFICATION then cmd_request_death T p th target cookie s
                  else cmd_clear_death p th target cookie s)) s) s
      else if cmd = BC_DEAD_BINDER_DONE
      then fault (get_user_u64 W ptr) (\<lambda>cookie. advance (ptr + 8) (cmd_dead_binder_done p th cookie s)) s
      else Some (Inl EINVAL, s))"

text \<open>The loop: the error, how much of the buffer was consumed, and the state.\<close>

partial_function (option) write_loop ::
  "nat \<Rightarrow> write_env \<Rightarrow> nat \<Rightarrow> nat \<Rightarrow> u64 \<Rightarrow> u64 \<Rightarrow> u64 \<Rightarrow> u64 \<Rightarrow> driver \<Rightarrow> (kerr option \<times> u64 \<times> driver) option" where
  "write_loop fuel W p th buffer ptr end' consumed s =
     (if ptr < end' \<and> return_error_cmd (bthread s th) = BR_OK
      then case get_user_u32 W ptr of
             None \<Rightarrow> Some (Some EFAULT, consumed, s)
           | Some cmd \<Rightarrow>
               do {
                 (r, s1) \<leftarrow> write_command fuel W p th cmd (ptr + 4) s;
                 case r of
                   Inl e \<Rightarrow> Some (Some e, consumed, s1)
                 | Inr ptr' \<Rightarrow> write_loop fuel W p th buffer ptr' end' (ptr' - buffer) s1
               }
      else Some (None, consumed, s))"

definition binder_thread_write ::
  "nat \<Rightarrow> write_env \<Rightarrow> nat \<Rightarrow> nat \<Rightarrow> u64 \<Rightarrow> u64 \<Rightarrow> u64 \<Rightarrow> driver \<Rightarrow> (kerr option \<times> u64 \<times> driver) option" where
  "binder_thread_write fuel W p th buffer sz consumed s =
     write_loop fuel W p th buffer (buffer + consumed) (buffer + sz) consumed s"

end
