(* ===== verification/Binder_Read.thy ===== *)
theory Binder_Read
  imports Binder_Commands
begin

text \<open>
  \<^verbatim>\<open>binder_thread_read\<close>: waiting for work, turning work items into return codes in the buffer of the
  user thread, and asking for a new thread. \<open>sched\<close> stands for \<^verbatim>\<open>schedule()\<close>: what the rest of the system
  does to the driver while the thread sleeps, and whether a signal is pending afterwards.
\<close>

section \<open>Return codes\<close>

definition BR_TRANSACTION_SEC_CTX :: u32 where "BR_TRANSACTION_SEC_CTX = 0x80487202"
definition BR_TRANSACTION :: u32 where "BR_TRANSACTION = 0x80407202"
definition BR_REPLY :: u32 where "BR_REPLY = 0x80407203"
definition BR_INCREFS :: u32 where "BR_INCREFS = 0x80107207"
definition BR_ACQUIRE :: u32 where "BR_ACQUIRE = 0x80107208"
definition BR_RELEASE :: u32 where "BR_RELEASE = 0x80107209"
definition BR_DECREFS :: u32 where "BR_DECREFS = 0x8010720a"
definition BR_NOOP :: u32 where "BR_NOOP = 0x720c"
definition BR_SPAWN_LOOPER :: u32 where "BR_SPAWN_LOOPER = 0x720d"
definition BR_DEAD_BINDER :: u32 where "BR_DEAD_BINDER = 0x8008720f"
definition BR_CLEAR_DEATH_NOTIFICATION_DONE :: u32 where "BR_CLEAR_DEATH_NOTIFICATION_DONE = 0x80087210"

text \<open>What is written to the user buffer, item by item.\<close>

datatype binder_return =
    Return_code u32
  | Return_node u32 u64 u64
  | Return_death u32 u64
  | Return_txn u32 binder_transaction_data u64
  | Return_part u32 nat

text \<open>
  \<open>Return_part cmd n\<close> is what a write that fails on the way leaves behind: the code \<open>cmd\<close> and some of the bytes
  behind it, no more than \<open>n\<close> bytes in all.
\<close>

text \<open>\<open>put_ok\<close> tells which addresses of the user buffer can be written, \<open>while_at\<close> what the kernel answers there.\<close>

record read_env =
  put_ok :: "u64 \<Rightarrow> bool"
  copy_tr_ok :: "u64 \<Rightarrow> bool"
  while_at :: "u64 \<Rightarrow> kernel_env \<times> task_env"
  non_block :: bool
  sched :: "driver \<Rightarrow> bool \<times> driver"

section \<open>Waiting\<close>

partial_function (option) binder_wait_for_work ::
  "(driver \<Rightarrow> bool \<times> driver) \<Rightarrow> nat \<Rightarrow> bool \<Rightarrow> driver \<Rightarrow> (kerr option \<times> driver) option" where
  "binder_wait_for_work schedule th do_proc_work s =
     (if binder_has_work_ilocked s th do_proc_work then Some (None, s)
      else let p = thread_proc (bthread s th);
               (signal, s1) = schedule (if do_proc_work then upd_proc p (waiting_threads_update ((#) th)) s else s);
               s2 = upd_proc p (waiting_threads_update (remove1 th)) s1
           in if signal then Some (Some ERESTARTSYS, s2)
              else binder_wait_for_work schedule th do_proc_work s2)"

section \<open>One work item\<close>

text \<open>
  \<open>Continue\<close> and \<open>Finish\<close> carry the write position and the items so far; \<open>Return\<close> leaves at once with an error and
  the items that are in the user buffer nevertheless.
\<close>

datatype read_step =
    Continue u64 "binder_return list"
  | Finish u64 "binder_return list"
  | Return kerr "binder_return list"

definition binder_put_node_cmd ::
  "read_env \<Rightarrow> u32 \<Rightarrow> u64 \<Rightarrow> u64 \<Rightarrow> u64 \<Rightarrow> binder_return list
     \<Rightarrow> kerr \<times> binder_return list + u64 \<times> binder_return list" where
  "binder_put_node_cmd R cmd node_ptr' cookie ptr out =
     (if \<not> put_ok R ptr then Inl (EFAULT, out)
      else if \<not> put_ok R (ptr + 4) then Inl (EFAULT, out @ [Return_part cmd 4])
      else if \<not> put_ok R (ptr + 12) then Inl (EFAULT, out @ [Return_part cmd 12])
      else Inr (ptr + 20, out @ [Return_node cmd node_ptr' cookie]))"

fun put_node_cmds ::
  "read_env \<Rightarrow> u32 list \<Rightarrow> u64 \<Rightarrow> u64 \<Rightarrow> u64 \<Rightarrow> binder_return list \<Rightarrow> read_step" where
  "put_node_cmds R [] node_ptr' cookie ptr out = Continue ptr out"
| "put_node_cmds R (cmd # cmds) node_ptr' cookie ptr out =
     (case binder_put_node_cmd R cmd node_ptr' cookie ptr out of
        Inl (e, out') \<Rightarrow> Return e out'
      | Inr (ptr', out') \<Rightarrow> put_node_cmds R cmds node_ptr' cookie ptr' out')"

definition node_cmds :: "bool \<Rightarrow> bool \<Rightarrow> bool \<Rightarrow> bool \<Rightarrow> u32 list" where
  "node_cmds strong' weak' had_strong had_weak =
     (if weak' \<and> \<not> had_weak then [BR_INCREFS] else []) @ (if strong' \<and> \<not> had_strong then [BR_ACQUIRE] else [])
     @ (if \<not> strong' \<and> had_strong then [BR_RELEASE] else []) @ (if \<not> weak' \<and> had_weak then [BR_DECREFS] else [])"

definition node_tell :: "bool \<Rightarrow> bool \<Rightarrow> binder_node \<Rightarrow> binder_node" where
  "node_tell strong' weak' nd =
     (let n1 = (if weak' \<and> \<not> has_weak_ref nd
                then nd\<lparr>has_weak_ref := True, pending_weak_ref := True, local_weak_refs := s32 (local_weak_refs nd + 1)\<rparr> else nd);
          n2 = (if strong' \<and> \<not> has_strong_ref nd
                then n1\<lparr>has_strong_ref := True, pending_strong_ref := True, local_strong_refs := s32 (local_strong_refs nd + 1)\<rparr> else n1);
          n3 = (if \<not> strong' \<and> has_strong_ref nd then n2\<lparr>has_strong_ref := False\<rparr> else n2)
      in if \<not> weak' \<and> has_weak_ref nd then n3\<lparr>has_weak_ref := False\<rparr> else n3)"

definition read_node ::
  "read_env \<Rightarrow> kernel_env \<Rightarrow> nat \<Rightarrow> nat \<Rightarrow> u64 \<Rightarrow> binder_return list \<Rightarrow> driver \<Rightarrow> (read_step \<times> driver) option" where
  "read_node R env p n ptr out s =
     (let nd = bnode s n;
          strong' = (internal_strong_refs nd \<noteq> 0 \<or> local_strong_refs nd \<noteq> 0);
          weak' = (node_refs nd \<noteq> [] \<or> local_weak_refs nd \<noteq> 0 \<or> tmp_refs nd \<noteq> 0 \<or> strong');
          s1 = upd_node n (node_tell strong' weak') s;
          s2 = (if \<not> weak' \<and> \<not> strong' then binder_free_node n (upd_proc p (nodes_update (rb_erase env n)) s1) else s1)
      in if node_proc nd \<noteq> Some p then None
         else Some (put_node_cmds R (node_cmds strong' weak' (has_strong_ref nd) (has_weak_ref nd)) (node_ptr nd) (node_cookie nd) ptr out, s2))"

definition read_death ::
  "read_env \<Rightarrow> nat \<Rightarrow> nat \<Rightarrow> u64 \<Rightarrow> binder_return list \<Rightarrow> driver \<Rightarrow> (read_step \<times> driver) option" where
  "read_death R p d ptr out s =
     (let clear = (work_type s (Death_work d) = BINDER_WORK_CLEAR_DEATH_NOTIFICATION);
          cmd = (if clear then BR_CLEAR_DEATH_NOTIFICATION_DONE else BR_DEAD_BINDER);
          out' = out @ [Return_death cmd (death_cookie s d)]
      in do {
        s1 \<leftarrow> (if clear then Some (binder_stats_deleted BINDER_STAT_DEATH (s\<lparr>freed_work := Death_work d # freed_work s\<rparr>))
               else binder_enqueue_work_ilocked (Death_work d) (Delivered_death p) s);
        Some (if \<not> put_ok R ptr then Return EFAULT out
              else if \<not> put_ok R (ptr + 4) then Return EFAULT (out @ [Return_part cmd 4])
              else if clear then Continue (ptr + 12) out' else Finish (ptr + 12) out', s1)
      })"

definition set_error_cmd :: "work_id \<Rightarrow> driver \<Rightarrow> (u32 \<times> driver) option" where
  "set_error_cmd w s =
     (case w of
        Return_error_work x \<Rightarrow> Some (return_error_cmd (bthread s x), upd_thread x (return_error_cmd_update (\<lambda>_. BR_OK)) s)
      | Reply_error_work x \<Rightarrow> Some (reply_error_cmd (bthread s x), upd_thread x (reply_error_cmd_update (\<lambda>_. BR_OK)) s)
      | _ \<Rightarrow> None)"

definition read_error ::
  "read_env \<Rightarrow> work_id \<Rightarrow> u64 \<Rightarrow> binder_return list \<Rightarrow> driver \<Rightarrow> (read_step \<times> driver) option" where
  "read_error R w ptr out s =
     do {
       (cmd, s1) \<leftarrow> set_error_cmd w s;
       Some (if put_ok R ptr then (Continue (ptr + 4) (out @ [Return_code cmd]), binder_warn_on (cmd = BR_OK) s1)
             else (Return EFAULT out, binder_warn_on (cmd = BR_OK) s))
     }"

definition read_complete ::
  "read_env \<Rightarrow> work_id \<Rightarrow> u64 \<Rightarrow> binder_return list \<Rightarrow> driver \<Rightarrow> read_step \<times> driver" where
  "read_complete R w ptr out s =
     (if put_ok R ptr then Continue (ptr + 4) (out @ [Return_code BR_TRANSACTION_COMPLETE]) else Return EFAULT out,
      binder_stats_deleted BINDER_STAT_TRANSACTION_COMPLETE (s\<lparr>freed_work := w # freed_work s\<rparr>))"

section \<open>Receiving a transaction\<close>

definition opt_dec_tmpref :: "kernel_env \<Rightarrow> nat option \<Rightarrow> driver \<Rightarrow> driver option" where
  "opt_dec_tmpref env from s = (case from of None \<Rightarrow> Some s | Some x \<Rightarrow> binder_thread_dec_tmpref env x s)"

text \<open>\<^verbatim>\<open>trd\<close> and the return code, before the descriptors are installed.\<close>

definition txn_header :: "task_env \<Rightarrow> nat option \<Rightarrow> binder_buffer \<Rightarrow> struct_binder_transaction \<Rightarrow> driver \<Rightarrow> binder_transaction_data" where
  "txn_header T from buf t s =
     \<lparr>tr_target = (case target_node buf of None \<Rightarrow> 0 | Some n \<Rightarrow> node_ptr (bnode s n)),
      tr_cookie = (case target_node buf of None \<Rightarrow> 0 | Some n \<Rightarrow> node_cookie (bnode s n)),
      tr_code = txn_code t, tr_flags = txn_flags t,
      tr_sender_pid = (case from of None \<Rightarrow> 0 | Some x \<Rightarrow> task_tgid_nr T (proc_tsk (bproc s (thread_proc (bthread s x))))),
      tr_sender_euid = sender_euid t, tr_data_size = data_size buf, tr_offsets_size = offsets_size buf,
      tr_buffer = word_of_nat (user_data buf), tr_offsets = word_of_nat (user_data buf) + align_ptr (data_size buf)\<rparr>"

text \<open>The descriptors could not be installed: the sender gets an error, the buffer goes.\<close>

definition read_fixups_failed ::
  "nat \<Rightarrow> read_env \<Rightarrow> kernel_env \<Rightarrow> task_env \<Rightarrow> nat \<Rightarrow> nat \<Rightarrow> nat \<Rightarrow> nat option \<Rightarrow> bool \<Rightarrow> u64 \<Rightarrow> binder_return list \<Rightarrow> driver
     \<Rightarrow> (read_step \<times> driver) option" where
  "read_fixups_failed fuel R env T p t b from is_reply ptr out s =
     do {
       s1 \<leftarrow> opt_dec_tmpref env from s;
       s2 \<leftarrow> binder_cleanup_transaction fuel env t BR_FAILED_REPLY (clear_buffer_transaction p b s1);
       s3 \<leftarrow> binder_free_buf env T p b s2;
       Some (if \<not> is_reply then Continue ptr out
             else if put_ok R ptr then Finish (ptr + 4) (out @ [Return_code BR_FAILED_REPLY]) else Return EFAULT out, s3)
     }"

text \<open>The transaction is in the user buffer: the receiver owes a reply, or the transaction is done.\<close>

definition read_received :: "kernel_env \<Rightarrow> nat \<Rightarrow> nat \<Rightarrow> nat \<Rightarrow> nat \<Rightarrow> nat option \<Rightarrow> bool \<Rightarrow> driver \<Rightarrow> driver option" where
  "read_received env p th t b from is_reply s =
     do {
       s1 \<leftarrow> opt_dec_tmpref env from s;
       s2 \<leftarrow> Some (upd_proc p (proc_alloc_update (set_buf b (allow_user_free_update (\<lambda>_. True)))) s1);
       Some (if \<not> is_reply \<and> \<not> one_way (btxn s2 t)
             then upd_thread th (transaction_stack_update (\<lambda>_. Some t))
                    (upd_txn t (\<lambda>x. x\<lparr>to_parent := transaction_stack (bthread s2 th), to_thread := Some th\<rparr>) s2)
             else binder_free_transaction t s2)
     }"

definition read_transaction ::
  "nat \<Rightarrow> read_env \<Rightarrow> kernel_env \<Rightarrow> task_env \<Rightarrow> nat \<Rightarrow> nat \<Rightarrow> nat \<Rightarrow> u64 \<Rightarrow> binder_return list \<Rightarrow> driver
     \<Rightarrow> (read_step \<times> driver) option" where
  "read_transaction fuel R env T p th t ptr out s =
     do {
       b \<leftarrow> txn_buffer (btxn s t);
       let buf = bufs (proc_alloc (bproc s p)) b;
       let is_reply = (target_node buf = None);
       let (from, s1) = binder_get_txn_from t s;
       (e, s2) \<leftarrow> binder_apply_fd_fixups env T p t s1;
       if e \<noteq> None then read_fixups_failed fuel R env T p t b from is_reply ptr out s2
       else let tr = txn_header T from buf (btxn s2 t) s1; ctx = security_ctx (btxn s2 t);
                cmd = (if ctx \<noteq> 0 then BR_TRANSACTION_SEC_CTX else if is_reply then BR_REPLY else BR_TRANSACTION)
            in if \<not> put_ok R ptr \<or> \<not> copy_tr_ok R (ptr + 4)
               then do {
                 s3 \<leftarrow> opt_dec_tmpref env from s2;
                 s4 \<leftarrow> binder_cleanup_transaction fuel env t BR_FAILED_REPLY s3;
                 Some (Return EFAULT (if put_ok R ptr then out @ [Return_part cmd (4 + (if ctx \<noteq> 0 then 72 else 64))] else out), s4)
               }
               else do {
                 s3 \<leftarrow> read_received env p th t b from (cmd = BR_REPLY) s2;
                 Some (Finish (ptr + 4 + (if ctx \<noteq> 0 then 72 else 64)) (out @ [Return_txn cmd tr ctx]), s3)
               }
     }"

section \<open>The read loop\<close>

definition read_work ::
  "nat \<Rightarrow> read_env \<Rightarrow> nat \<Rightarrow> nat \<Rightarrow> work_id \<Rightarrow> u64 \<Rightarrow> binder_return list \<Rightarrow> driver \<Rightarrow> (read_step \<times> driver) option" where
  "read_work fuel R p th w ptr out s =
     (let (env, T) = while_at R ptr in
      case work_type s w of
        BINDER_WORK_TRANSACTION \<Rightarrow>
          (case w of Txn_work t \<Rightarrow> read_transaction fuel R env T p th t ptr out s | _ \<Rightarrow> None)
      | BINDER_WORK_RETURN_ERROR \<Rightarrow> read_error R w ptr out s
      | BINDER_WORK_TRANSACTION_COMPLETE \<Rightarrow> Some (read_complete R w ptr out s)
      | BINDER_WORK_NODE \<Rightarrow> (case w of Node_work n \<Rightarrow> read_node R env p n ptr out s | _ \<Rightarrow> None)
      | _ \<Rightarrow> (case w of Death_work d \<Rightarrow> read_death R p d ptr out s | _ \<Rightarrow> None))"

definition pick_list :: "nat \<Rightarrow> nat \<Rightarrow> bool \<Rightarrow> driver \<Rightarrow> worklist option" where
  "pick_list p th wait_for_proc_work s =
     (if \<not> binder_worklist_empty_ilocked s (Thread_todo th) then Some (Thread_todo th)
      else if \<not> binder_worklist_empty_ilocked s (Proc_todo p) \<and> wait_for_proc_work then Some (Proc_todo p)
      else None)"

text \<open>
  \<open>retry\<close> is true at the label of that name. \<^verbatim>\<open>end - ptr < sizeof(tr) + 4\<close> compares as unsigned numbers.
\<close>

partial_function (option) read_loop ::
  "nat \<Rightarrow> read_env \<Rightarrow> nat \<Rightarrow> nat \<Rightarrow> u64 \<Rightarrow> u64 \<Rightarrow> bool \<Rightarrow> bool \<Rightarrow> u64 \<Rightarrow> binder_return list \<Rightarrow> driver
     \<Rightarrow> (read_step \<times> driver) option" where
  "read_loop fuel R p th buffer end' retry wait_for_proc_work ptr out s =
     (if retry
      then let wfp = binder_available_for_proc_work_ilocked s th;
               s1 = upd_thread th (looper_update (\<lambda>l. l OR BINDER_LOOPER_STATE_WAITING)) s
           in do {
             (e, s2) \<leftarrow> (if non_block R then Some (if binder_has_work s1 th wfp then None else Some EAGAIN, s1)
                         else binder_wait_for_work (sched R) th wfp s1);
             case e of
               Some x \<Rightarrow> Some (Return x out, upd_thread th (looper_update (\<lambda>l. l AND NOT BINDER_LOOPER_STATE_WAITING)) s2)
             | None \<Rightarrow> read_loop fuel R p th buffer end' False wfp ptr out
                         (upd_thread th (looper_update (\<lambda>l. l AND NOT BINDER_LOOPER_STATE_WAITING)) s2)
           }
      else case pick_list p th wait_for_proc_work s of
             None \<Rightarrow>
               if ptr - buffer = 4 \<and> \<not> looper_need_return (bthread s th)
               then read_loop fuel R p th buffer end' True wait_for_proc_work ptr out s
               else Some (Finish ptr out, s)
           | Some l \<Rightarrow>
               if end' - ptr < 76 then Some (Finish ptr out, s)
               else (case binder_dequeue_work_head_ilocked l s of
                       (None, s1) \<Rightarrow> None
                     | (Some w, s1) \<Rightarrow>
                         do {
                           s2 \<leftarrow> Some (if binder_worklist_empty_ilocked s1 (Thread_todo th)
                                       then upd_thread th (process_todo_update (\<lambda>_. False)) s1 else s1);
                           (r, s3) \<leftarrow> read_work fuel R p th w ptr out s2;
                           case r of
                             Continue ptr' out' \<Rightarrow> read_loop fuel R p th buffer end' False wait_for_proc_work ptr' out' s3
                           | Finish ptr' out' \<Rightarrow> Some (Finish ptr' out', s3)
                           | Return e out' \<Rightarrow> Some (Return e out', s3)
                         }))"

text \<open>The end of a read: one more thread is asked for when none is free and the limit allows it.\<close>

definition wants_looper :: "nat \<Rightarrow> nat \<Rightarrow> driver \<Rightarrow> bool" where
  "wants_looper p th s \<longleftrightarrow>
     requested_threads (bproc s p) = 0 \<and> waiting_threads (bproc s (thread_proc (bthread s th))) = []
     \<and> requested_threads_started (bproc s p) < max_threads (bproc s p)
     \<and> looper (bthread s th) AND (BINDER_LOOPER_STATE_REGISTERED OR BINDER_LOOPER_STATE_ENTERED) \<noteq> 0"

text \<open>
  The result: the error, the bytes consumed, the items written, whether \<^verbatim>\<open>BR_SPAWN_LOOPER\<close> was put at
  the start of the buffer, and the state. An error return leaves the consumed bytes as they were, although
  items have been written.
\<close>

definition binder_thread_read ::
  "nat \<Rightarrow> read_env \<Rightarrow> nat \<Rightarrow> nat \<Rightarrow> u64 \<Rightarrow> u64 \<Rightarrow> u64 \<Rightarrow> driver
     \<Rightarrow> (kerr option \<times> u64 \<times> binder_return list \<times> bool \<times> driver) option" where
  "binder_thread_read fuel R p th buffer sz consumed s0 =
     (let ptr = buffer + consumed; end' = buffer + sz in
      if consumed = 0 \<and> \<not> put_ok R ptr then Some (Some EFAULT, consumed, [], False, s0)
      else do {
        (r, s) \<leftarrow> read_loop fuel R p th buffer end' True False (if consumed = 0 then ptr + 4 else ptr)
                    (if consumed = 0 then [Return_code BR_NOOP] else []) s0;
        case r of
          Finish ptr' out \<Rightarrow>
            if wants_looper p th s
            then let s' = upd_proc p (requested_threads_update (\<lambda>c. c + 1)) s
                 in Some (if put_ok R buffer then (None, ptr' - buffer, out, True, s') else (Some EFAULT, ptr' - buffer, out, False, s'))
            else Some (None, ptr' - buffer, out, False, s)
        | Return e out \<Rightarrow> Some (Some e, consumed, out, False, s)
        | Continue ptr' out \<Rightarrow> None
      })"

end
