(* ===== verification/Binder_Ioctl.thy ===== *)
theory Binder_Ioctl
  imports Binder_Read
begin

text \<open>
  The entry points of the driver: the ioctl commands, poll, mmap, open, flush and release, and the
  deferred work that tears a process down. A file is the process in its \<^verbatim>\<open>private_data\<close>; the wait on
  \<^verbatim>\<open>binder_user_error_wait\<close> (a debugging aid), debugfs files and the debug module are not modelled.
\<close>

section \<open>Write and read\<close>

record binder_write_read =
  write_size :: u64
  write_consumed :: u64
  write_buffer :: u64
  read_size :: u64
  read_consumed :: u64
  read_buffer :: u64

text \<open>
  What one ioctl call sees of user space and the kernel. \<open>from_user\<close> is the argument structure
  (\<open>None\<close>: not readable), \<open>to_user_ok\<close> tells whether it can be written back.
\<close>

record ioctl_env =
  iw :: write_env
  ir :: read_env
  ik :: kernel_env
  arg_bwr :: "binder_write_read option"
  arg_int :: "int option"
  arg_fbo :: "flat_binder_object option"
  arg_info :: "(u32 \<times> u32 \<times> u32 \<times> u32 \<times> u32 \<times> u32) option"
  arg_ptr :: "u64 option"
  to_user_ok :: bool
  current_pid :: int
  current_euid :: int
  set_context_mgr_ok :: "nat \<Rightarrow> kerr option"
  kzalloc_thread :: "nat option"
  kzalloc_mgr_node :: "nat option"

text \<open>What the call leaves in the user structure.\<close>

datatype ioctl_out =
    Out_none
  | Out_bwr binder_write_read "binder_return list" bool
  | Out_version int
  | Out_info u32 int int
  | Out_debug u64 u64 bool bool

definition back_to_user :: "ioctl_env \<Rightarrow> kerr option \<Rightarrow> ioctl_out \<Rightarrow> kerr option \<times> ioctl_out" where
  "back_to_user I ret out = (if to_user_ok I then (ret, out) else (Some EFAULT, Out_none))"

definition wake_for_rest :: "nat \<Rightarrow> driver \<Rightarrow> driver" where
  "wake_for_rest p s = (if \<not> binder_worklist_empty_ilocked s (Proc_todo p) then binder_wakeup_proc_ilocked p s else s)"

definition binder_ioctl_write_read ::
  "nat \<Rightarrow> ioctl_env \<Rightarrow> nat \<Rightarrow> nat \<Rightarrow> driver \<Rightarrow> ((kerr option \<times> ioctl_out) \<times> driver) option" where
  "binder_ioctl_write_read fuel I p th s0 =
     (case arg_bwr I of
        None \<Rightarrow> Some ((Some EFAULT, Out_none), s0)
      | Some bwr \<Rightarrow>
          do {
            (e, wc, s1) \<leftarrow> (if write_size bwr > 0
                            then binder_thread_write fuel (iw I) p th (write_buffer bwr) (write_size bwr) (write_consumed bwr) s0
                            else Some (None, write_consumed bwr, s0));
            let bwr1 = bwr\<lparr>write_consumed := wc\<rparr>;
            if e \<noteq> None then Some (back_to_user I e (Out_bwr (bwr1\<lparr>read_consumed := 0\<rparr>) [] False), s1)
            else if read_size bwr > 0
            then do {
              (e', rc, out, spawn, s2) \<leftarrow>
                binder_thread_read fuel (ir I) p th (read_buffer bwr) (read_size bwr) (read_consumed bwr) s1;
              Some (back_to_user I e' (Out_bwr (bwr1\<lparr>read_consumed := rc\<rparr>) out spawn), wake_for_rest p s2)
            }
            else Some (back_to_user I None (Out_bwr bwr1 [] False), s1)
          })"

section \<open>The context manager and information requests\<close>

definition make_ctx_mgr :: "ioctl_env \<Rightarrow> nat \<Rightarrow> flat_binder_object option \<Rightarrow> driver \<Rightarrow> (kerr option \<times> driver) option" where
  "make_ctx_mgr I p fbo s =
     (case binder_new_node (ik I) p (kzalloc_mgr_node I) fbo s of
        (None, s1) \<Rightarrow> Some (Some ENOMEM, s1)
      | (Some n, s1) \<Rightarrow>
          do {
            s2 \<leftarrow> Some (upd_node n (\<lambda>x. x\<lparr>local_weak_refs := s32 (local_weak_refs x + 1), local_strong_refs := s32 (local_strong_refs x + 1),
                                         has_strong_ref := True, has_weak_ref := True\<rparr>) s1);
            s3 \<leftarrow> Some (s2\<lparr>binder_context_mgr_node := (binder_context_mgr_node s2)(proc_context (bproc s2 p) := Some n)\<rparr>);
            map_option (Pair None) (binder_put_node (ik I) n s3)
          })"

definition binder_ioctl_set_ctx_mgr ::
  "ioctl_env \<Rightarrow> nat \<Rightarrow> flat_binder_object option \<Rightarrow> driver \<Rightarrow> (kerr option \<times> driver) option" where
  "binder_ioctl_set_ctx_mgr I p fbo s =
     (let c = proc_context (bproc s p)
      in if binder_context_mgr_node s c \<noteq> None then Some (Some EBUSY, s)
         else case set_context_mgr_ok I (proc_tsk (bproc s p)) of
                Some e \<Rightarrow> Some (Some e, s)
              | None \<Rightarrow>
                  (case binder_context_mgr_uid s c of
                     Some uid \<Rightarrow> if uid \<noteq> current_euid I then Some (Some EPERM, s) else make_ctx_mgr I p fbo s
                   | None \<Rightarrow> make_ctx_mgr I p fbo
                               (s\<lparr>binder_context_mgr_uid := (binder_context_mgr_uid s)(c := Some (current_euid I))\<rparr>)))"

definition binder_ioctl_get_node_info_for_ref ::
  "kernel_env \<Rightarrow> nat \<Rightarrow> u32 \<times> u32 \<times> u32 \<times> u32 \<times> u32 \<times> u32 \<Rightarrow> driver \<Rightarrow> ((kerr + ioctl_out) \<times> driver) option" where
  "binder_ioctl_get_node_info_for_ref env p info s =
     (case info of (handle, sc, wc, r1, r2, r3) \<Rightarrow>
        if sc \<noteq> 0 \<or> wc \<noteq> 0 \<or> r1 \<noteq> 0 \<or> r2 \<noteq> 0 \<or> r3 \<noteq> 0 then Some (Inl EINVAL, s)
        else if (case binder_context_mgr_node s (proc_context (bproc s p)) of
                   None \<Rightarrow> True | Some m \<Rightarrow> node_proc (bnode s m) \<noteq> Some p) then Some (Inl EPERM, s)
        else case binder_get_node_from_ref p handle True s of
               (None, s1) \<Rightarrow> Some (Inl EINVAL, s1)
             | (Some (n, _), s1) \<Rightarrow>
                 map_option (Pair (Inr (Out_info handle (local_strong_refs (bnode s1 n) + internal_strong_refs (bnode s1 n))
                                          (local_weak_refs (bnode s1 n)))))
                   (binder_put_node env n s1))"

definition binder_ioctl_get_node_debug_info :: "nat \<Rightarrow> u64 \<Rightarrow> driver \<Rightarrow> ioctl_out" where
  "binder_ioctl_get_node_debug_info p ptr s =
     (case List.find (\<lambda>n. node_ptr (bnode s n) > ptr) (inorder (nodes (bproc s p))) of
        None \<Rightarrow> Out_debug 0 0 False False
      | Some n \<Rightarrow> Out_debug (node_ptr (bnode s n)) (node_cookie (bnode s n)) (has_strong_ref (bnode s n)) (has_weak_ref (bnode s n)))"

section \<open>The ioctl entry point\<close>

definition BINDER_WRITE_READ :: u32 where "BINDER_WRITE_READ = 0xc0306201"
definition BINDER_SET_MAX_THREADS :: u32 where "BINDER_SET_MAX_THREADS = 0x40046205"
definition BINDER_SET_CONTEXT_MGR :: u32 where "BINDER_SET_CONTEXT_MGR = 0x40046207"
definition BINDER_THREAD_EXIT :: u32 where "BINDER_THREAD_EXIT = 0x40046208"
definition BINDER_VERSION :: u32 where "BINDER_VERSION = 0xc0046209"
definition BINDER_GET_NODE_DEBUG_INFO :: u32 where "BINDER_GET_NODE_DEBUG_INFO = 0xc018620b"
definition BINDER_GET_NODE_INFO_FOR_REF :: u32 where "BINDER_GET_NODE_INFO_FOR_REF = 0xc018620c"
definition BINDER_SET_CONTEXT_MGR_EXT :: u32 where "BINDER_SET_CONTEXT_MGR_EXT = 0x4018620d"

text \<open>The flag of the result tells that the thread is still there.\<close>

definition ioctl_command ::
  "nat \<Rightarrow> ioctl_env \<Rightarrow> nat \<Rightarrow> nat \<Rightarrow> u32 \<Rightarrow> driver \<Rightarrow> ((kerr option \<times> ioctl_out) \<times> bool \<times> driver) option" where
  "ioctl_command fuel I p th cmd s =
     (if cmd = BINDER_WRITE_READ then map_option (\<lambda>(r, s'). (r, True, s')) (binder_ioctl_write_read fuel I p th s)
      else if cmd = BINDER_SET_MAX_THREADS
      then Some (case arg_int I of
                   None \<Rightarrow> ((Some EINVAL, Out_none), True, s)
                 | Some m \<Rightarrow> ((None, Out_none), True, upd_proc p (max_threads_update (\<lambda>_. m)) s))
      else if cmd = BINDER_SET_CONTEXT_MGR_EXT
      then (case arg_fbo I of
              None \<Rightarrow> Some ((Some EINVAL, Out_none), True, s)
            | Some fbo \<Rightarrow> map_option (\<lambda>(e, s'). ((e, Out_none), True, s')) (binder_ioctl_set_ctx_mgr I p (Some fbo) s))
      else if cmd = BINDER_SET_CONTEXT_MGR
      then map_option (\<lambda>(e, s'). ((e, Out_none), True, s')) (binder_ioctl_set_ctx_mgr I p None s)
      else if cmd = BINDER_THREAD_EXIT
      then map_option (\<lambda>(k, s'). ((None, Out_none), False, s')) (binder_thread_release fuel (ik I) p th s)
      else if cmd = BINDER_VERSION
      then Some (if to_user_ok I then ((None, Out_version 8), True, s) else ((Some EINVAL, Out_none), True, s))
      else if cmd = BINDER_GET_NODE_INFO_FOR_REF
      then (case arg_info I of
              None \<Rightarrow> Some ((Some EFAULT, Out_none), True, s)
            | Some info \<Rightarrow>
                map_option (\<lambda>(r, s'). (case r of Inl e \<Rightarrow> (Some e, Out_none) | Inr out \<Rightarrow> back_to_user I None out, True, s'))
                  (binder_ioctl_get_node_info_for_ref (ik I) p info s))
      else if cmd = BINDER_GET_NODE_DEBUG_INFO
      then Some (case arg_ptr I of
                   None \<Rightarrow> ((Some EFAULT, Out_none), True, s)
                 | Some ptr \<Rightarrow> (back_to_user I None (binder_ioctl_get_node_debug_info p ptr s), True, s))
      else Some ((Some EINVAL, Out_none), True, s))"

definition binder_ioctl ::
  "nat \<Rightarrow> ioctl_env \<Rightarrow> nat \<Rightarrow> u32 \<Rightarrow> driver \<Rightarrow> ((kerr option \<times> ioctl_out) \<times> driver) option" where
  "binder_ioctl fuel I p cmd s0 =
     (case binder_get_thread (ik I) p (current_pid I) (kzalloc_thread I) s0 of
        (None, s) \<Rightarrow> Some ((Some ENOMEM, Out_none), s)
      | (Some th, s) \<Rightarrow>
          map_option (\<lambda>(r, there, s'). (r, if there then upd_thread th (looper_need_return_update (\<lambda>_. False)) s' else s'))
            (ioctl_command fuel I p th cmd s))"

section \<open>Poll, mmap, open\<close>

definition binder_poll :: "ioctl_env \<Rightarrow> nat \<Rightarrow> driver \<Rightarrow> bool option \<times> driver" where
  "binder_poll I p s0 =
     (case binder_get_thread (ik I) p (current_pid I) (kzalloc_thread I) s0 of
        (None, s) \<Rightarrow> (None, s)
      | (Some th, s) \<Rightarrow>
          let s1 = upd_thread th (looper_update (\<lambda>l. l OR BINDER_LOOPER_STATE_POLL)) s;
              wait_for_proc_work = binder_available_for_proc_work_ilocked s1 th
          in (Some (binder_has_work s1 th wait_for_proc_work), s1))"

text \<open>\<open>forbidden\<close> is the test of \<^verbatim>\<open>vm_flags\<close> against \<^verbatim>\<open>FORBIDDEN_MMAP_FLAGS\<close>.\<close>

definition binder_mmap :: "kernel_env \<Rightarrow> nat \<Rightarrow> bool \<Rightarrow> vm_area \<Rightarrow> nat \<Rightarrow> driver \<Rightarrow> kerr option \<times> driver" where
  "binder_mmap env leader forbidden v p s =
     (if proc_tsk (bproc s p) \<noteq> leader then (Some EINVAL, s)
      else if forbidden then (Some EPERM, s)
      else let (e, a) = binder_alloc_mmap_handler env (proc_alloc (bproc s p)) v
           in (e, upd_proc p (proc_alloc_update (\<lambda>_. a)) s))"

definition binder_vma_close :: "nat \<Rightarrow> driver \<Rightarrow> driver" where
  "binder_vma_close p s = upd_proc p (proc_alloc_update binder_alloc_vma_close) s"

definition fresh_proc :: "int \<Rightarrow> nat \<Rightarrow> nat \<Rightarrow> binder_proc" where
  "fresh_proc pid tsk c = \<lparr>proc_threads = Leaf, nodes = Leaf, refs_by_desc = Leaf, refs_by_node = Leaf, waiting_threads = [],
     proc_is_dead = False, proc_tmp_ref = 0, max_threads = 0, requested_threads = 0, requested_threads_started = 0,
     proc_context = c, proc_pid = pid, proc_tsk = tsk, deferred_work = 0, proc_alloc = binder_alloc_init pid\<rparr>"

definition binder_open :: "nat option \<Rightarrow> int \<Rightarrow> nat \<Rightarrow> nat \<Rightarrow> driver \<Rightarrow> kerr option \<times> driver" where
  "binder_open new_proc pid tsk c s =
     (case new_proc of
        None \<Rightarrow> (Some ENOMEM, s)
      | Some p \<Rightarrow>
          (None, binder_stats_created BINDER_STAT_PROC (upd_proc p (\<lambda>_. fresh_proc pid tsk c)
             (s\<lparr>todo := (todo s)(Proc_todo p := [], Delivered_death p := []), binder_procs := p # binder_procs s,
                device_ref := (device_ref s)(c := device_ref s c + 1)\<rparr>))))"

section \<open>Deferred work\<close>

definition BINDER_DEFERRED_FLUSH :: u32 where "BINDER_DEFERRED_FLUSH = 0x01"
definition BINDER_DEFERRED_RELEASE :: u32 where "BINDER_DEFERRED_RELEASE = 0x02"

definition binder_defer_work :: "nat \<Rightarrow> u32 \<Rightarrow> driver \<Rightarrow> driver" where
  "binder_defer_work p defer s =
     (let s1 = upd_proc p (deferred_work_update (\<lambda>d. d OR defer)) s
      in if p \<in> set (binder_deferred_list s1) then s1 else s1\<lparr>binder_deferred_list := p # binder_deferred_list s1\<rparr>)"

definition binder_flush :: "nat \<Rightarrow> driver \<Rightarrow> driver" where
  "binder_flush p s = binder_defer_work p BINDER_DEFERRED_FLUSH s"

definition binder_release :: "nat \<Rightarrow> driver \<Rightarrow> driver" where
  "binder_release p s = binder_defer_work p BINDER_DEFERRED_RELEASE s"

definition binder_deferred_flush :: "nat \<Rightarrow> driver \<Rightarrow> driver" where
  "binder_deferred_flush p s =
     foldl (\<lambda>s th. let s1 = upd_thread th (looper_need_return_update (\<lambda>_. True)) s
                   in if looper (bthread s1 th) AND BINDER_LOOPER_STATE_WAITING \<noteq> 0 then wake_up_interruptible th False s1 else s1)
       s (inorder (proc_threads (bproc s p)))"

text \<open>The three loops of \<^verbatim>\<open>binder_deferred_release\<close>: each takes the first element until none is left.\<close>

fun release_threads :: "nat \<Rightarrow> kernel_env \<Rightarrow> nat \<Rightarrow> driver \<Rightarrow> driver option" where
  "release_threads 0 env p s = None"
| "release_threads (Suc fuel) env p s =
     (case rb_first (proc_threads (bproc s p)) of
        None \<Rightarrow> Some s
      | Some th \<Rightarrow> do { (k, s1) \<leftarrow> binder_thread_release fuel env p th s; release_threads fuel env p s1 })"

fun release_nodes :: "nat \<Rightarrow> kernel_env \<Rightarrow> nat \<Rightarrow> nat \<Rightarrow> driver \<Rightarrow> driver option" where
  "release_nodes 0 env p incoming s = None"
| "release_nodes (Suc fuel) env p incoming s =
     (case rb_first (nodes (bproc s p)) of
        None \<Rightarrow> Some s
      | Some n \<Rightarrow>
          do {
            (incoming', s1) \<leftarrow> binder_node_release fuel env n incoming
               (upd_proc p (nodes_update (rb_erase env n)) (binder_inc_node_tmpref_ilocked n s));
            release_nodes fuel env p incoming' s1
          })"

fun release_refs :: "nat \<Rightarrow> kernel_env \<Rightarrow> nat \<Rightarrow> driver \<Rightarrow> driver option" where
  "release_refs 0 env p s = None"
| "release_refs (Suc fuel) env p s =
     (case rb_first (refs_by_desc (bproc s p)) of
        None \<Rightarrow> Some s
      | Some r \<Rightarrow> do { s1 \<leftarrow> binder_cleanup_ref_olocked env r s; release_refs fuel env p (binder_free_ref r s1) })"

definition forget_ctx_mgr :: "nat \<Rightarrow> driver \<Rightarrow> driver" where
  "forget_ctx_mgr p s =
     (let c = proc_context (bproc s p)
      in case binder_context_mgr_node s c of
           None \<Rightarrow> s
         | Some n \<Rightarrow> if node_proc (bnode s n) = Some p
                     then s\<lparr>binder_context_mgr_node := (binder_context_mgr_node s)(c := None)\<rparr> else s)"

definition binder_deferred_release :: "nat \<Rightarrow> kernel_env \<Rightarrow> nat \<Rightarrow> driver \<Rightarrow> driver option" where
  "binder_deferred_release fuel env p s0 =
     do {
       s1 \<leftarrow> Some (forget_ctx_mgr p (s0\<lparr>binder_procs := remove1 p (binder_procs s0)\<rparr>));
       s2 \<leftarrow> release_threads fuel env p (upd_proc p (\<lambda>x. x\<lparr>proc_tmp_ref := proc_tmp_ref x + 1, proc_is_dead := True\<rparr>) s1);
       s3 \<leftarrow> release_nodes fuel env p 0 s2;
       s4 \<leftarrow> release_refs fuel env p s3;
       s5 \<leftarrow> binder_release_work fuel env (Proc_todo p) s4;
       s6 \<leftarrow> binder_release_work fuel env (Delivered_death p) s5;
       binder_proc_dec_tmpref env p s6
     }"

fun binder_deferred_func :: "nat \<Rightarrow> kernel_env \<Rightarrow> driver \<Rightarrow> driver option" where
  "binder_deferred_func 0 env s = None"
| "binder_deferred_func (Suc fuel) env s =
     (case binder_deferred_list s of
        [] \<Rightarrow> Some s
      | p # ps \<Rightarrow>
          let defer = deferred_work (bproc s p);
              s1 = upd_proc p (deferred_work_update (\<lambda>_. 0)) (s\<lparr>binder_deferred_list := ps\<rparr>);
              s2 = (if defer AND BINDER_DEFERRED_FLUSH \<noteq> 0 then binder_deferred_flush p s1 else s1)
          in do {
            s3 \<leftarrow> (if defer AND BINDER_DEFERRED_RELEASE \<noteq> 0 then binder_deferred_release fuel env p s2 else Some s2);
            binder_deferred_func fuel env s3
          })"

end
