(* ===== verification/Binder_Frame.thy ===== *)
theory Binder_Frame
  imports Binder_Ioctl
begin

text \<open>
  What the operations of the driver leave alone in the processes: the thread limits and counters and
  the identity of every process. Only \<^verbatim>\<open>BC_REGISTER_LOOPER\<close>, the end of a read, \<^verbatim>\<open>BINDER_SET_MAX_THREADS\<close>
  and open change them; every other operation keeps them, whatever it returns.
\<close>

section \<open>Keeping\<close>

type_synonym proc_key = "int \<times> int \<times> int \<times> nat \<times> int \<times> nat"

definition key_of :: "binder_proc \<Rightarrow> proc_key" where
  "key_of pr = (max_threads pr, requested_threads pr, requested_threads_started pr, proc_context pr, proc_pid pr, proc_tsk pr)"

definition keys :: "driver \<Rightarrow> nat \<Rightarrow> proc_key" where
  "keys s = (\<lambda>p. key_of (bproc s p))"

definition kept :: "('r \<Rightarrow> driver) \<Rightarrow> (nat \<Rightarrow> proc_key) \<Rightarrow> 'r option \<Rightarrow> bool" where
  "kept pr k m \<longleftrightarrow> (\<forall>r. m = Some r \<longrightarrow> keys (pr r) = k)"

named_theorems keeps \<open>operations that keep the keys of all processes\<close>
named_theorems keep_rules \<open>how results are composed\<close>

lemma keptD: "m = Some r \<Longrightarrow> kept pr k m \<Longrightarrow> keys (pr r) = k"
  by (simp add: kept_def)

lemma keptI: "(\<And>r. m = Some r \<Longrightarrow> keys (pr r) = k) \<Longrightarrow> kept pr k m"
  by (simp add: kept_def)

lemma kept_Some [keep_rules]: "keys (pr r) = k \<Longrightarrow> kept pr k (Some r)"
  by (simp add: kept_def)

lemma kept_None [keep_rules]: "kept pr k None"
  by (simp add: kept_def)

lemma kept_bind1 [keep_rules]:
  "kept id k m \<Longrightarrow> (\<And>s. keys s = k \<Longrightarrow> kept pr k (f s)) \<Longrightarrow> kept pr k (m \<bind> f)"
  by (auto simp: kept_def bind_eq_Some_conv)

lemma kept_bind2 [keep_rules]:
  "kept snd k m \<Longrightarrow> (\<And>x s. keys s = k \<Longrightarrow> kept pr k (f (x, s))) \<Longrightarrow> kept pr k (m \<bind> f)"
  by (fastforce simp: kept_def bind_eq_Some_conv)

lemma kept_bind3 [keep_rules]:
  "kept (snd \<circ> snd) k m \<Longrightarrow> (\<And>x y s. keys s = k \<Longrightarrow> kept pr k (f (x, y, s))) \<Longrightarrow> kept pr k (m \<bind> f)"
  by (fastforce simp: kept_def bind_eq_Some_conv)

lemma kept_bind_any: "(\<And>x. kept pr k (f x)) \<Longrightarrow> kept pr k (m \<bind> f)"
  by (auto simp: kept_def bind_eq_Some_conv)

lemma kept_bind_nat [keep_rules]: "(\<And>x :: nat. kept pr k (f x)) \<Longrightarrow> kept pr k (m \<bind> f)"
  by (rule kept_bind_any)

lemma kept_bind_nat_option [keep_rules]: "(\<And>x :: nat option. kept pr k (f x)) \<Longrightarrow> kept pr k (m \<bind> f)"
  by (rule kept_bind_any)

lemma kept_bind_bool [keep_rules]: "(\<And>x :: bool. kept pr k (f x)) \<Longrightarrow> kept pr k (m \<bind> f)"
  by (rule kept_bind_any)

lemma kept_bind_bytes [keep_rules]: "(\<And>x :: u8 list option. kept pr k (f x)) \<Longrightarrow> kept pr k (m \<bind> f)"
  by (rule kept_bind_any)

lemma kept_bind_object [keep_rules]: "(\<And>n :: u64. \<And>obj :: u8 list. kept pr k (f (n, obj))) \<Longrightarrow> kept pr k (m \<bind> f)"
  by (rule kept_bind_any) fastforce

lemma kept_bind_alloc [keep_rules]: "(\<And>x :: binder_alloc. kept pr k (f x)) \<Longrightarrow> kept pr k (m \<bind> f)"
  by (rule kept_bind_any)

lemma kept_bind_copied [keep_rules]: "(\<And>n :: nat. \<And>a :: binder_alloc. kept pr k (f (n, a))) \<Longrightarrow> kept pr k (m \<bind> f)"
  by (rule kept_bind_any) fastforce

lemma kept_bind_parent [keep_rules]: "(\<And>x :: (binder_buffer_object \<times> u64) option. kept pr k (f x)) \<Longrightarrow> kept pr k (m \<bind> f)"
  by (rule kept_bind_any)

lemma kept_map1 [keep_rules]: "kept id k m \<Longrightarrow> (\<And>s. keys s = k \<Longrightarrow> keys (pr (f s)) = k) \<Longrightarrow> kept pr k (map_option f m)"
  by (auto simp: kept_def)

lemma kept_map2 [keep_rules]: "kept snd k m \<Longrightarrow> (\<And>x s. keys s = k \<Longrightarrow> keys (pr (f (x, s))) = k) \<Longrightarrow> kept pr k (map_option f m)"
  by (fastforce simp: kept_def)

lemma kept_if [keep_rules]: "(c \<Longrightarrow> kept pr k a) \<Longrightarrow> (\<not> c \<Longrightarrow> kept pr k b) \<Longrightarrow> kept pr k (if c then a else b)"
  by simp

lemma kept_option [keep_rules]:
  "kept pr k a \<Longrightarrow> (\<And>y. kept pr k (f y)) \<Longrightarrow> kept pr k (case x of None \<Rightarrow> a | Some y \<Rightarrow> f y)"
  by (simp split: option.split)

lemma kept_sum [keep_rules]:
  "(\<And>y. kept pr k (g y)) \<Longrightarrow> (\<And>y. kept pr k (f y)) \<Longrightarrow> kept pr k (case x of Inl y \<Rightarrow> g y | Inr y \<Rightarrow> f y)"
  by (simp split: sum.split)

lemma kept_list [keep_rules]:
  "kept pr k a \<Longrightarrow> (\<And>y ys. kept pr k (f y ys)) \<Longrightarrow> kept pr k (case x of [] \<Rightarrow> a | y # ys \<Rightarrow> f y ys)"
  by (simp split: list.split)

lemma kept_pair [keep_rules]: "kept pr k (f x y) \<Longrightarrow> kept pr k (case (x, y) of (a, b) \<Rightarrow> f a b)"
  by simp

lemma kept_bug_on [keeps]: "keys s = k \<Longrightarrow> kept id k (bug_on c s)"
  by (simp add: bug_on_def kept_def)

section \<open>Plain updates\<close>

lemma keys_upd [simp]:
  "keys (upd_node n f s) = keys s" "keys (upd_ref r g s) = keys s" "keys (upd_thread t h s) = keys s" "keys (upd_txn x i s) = keys s"
  by (simp_all add: keys_def upd_node_def upd_ref_def upd_thread_def upd_txn_def)

lemma keys_upd_proc [simp]: "key_of (f (bproc s p)) = key_of (bproc s p) \<Longrightarrow> keys (upd_proc p f s) = keys s"
  by (auto simp: keys_def upd_proc_def)

lemma key_of_upd [simp]:
  "key_of (waiting_threads_update f1 pr) = key_of pr" "key_of (nodes_update f2 pr) = key_of pr"
  "key_of (refs_by_desc_update f3 pr) = key_of pr" "key_of (refs_by_node_update f4 pr) = key_of pr"
  "key_of (proc_tmp_ref_update f5 pr) = key_of pr" "key_of (proc_alloc_update f6 pr) = key_of pr"
  "key_of (proc_threads_update f7 pr) = key_of pr" "key_of (proc_is_dead_update f8 pr) = key_of pr"
  "key_of (deferred_work_update f9 pr) = key_of pr"
  by (simp_all add: key_of_def)

lemma keys_field [simp]:
  "keys (todo_update f1 s) = keys s" "keys (work_on_update f2 s) = keys s" "keys (work_type_update f3 s) = keys s"
  "keys (binder_context_mgr_node_update f4 s) = keys s" "keys (binder_context_mgr_uid_update f5 s) = keys s"
  "keys (binder_procs_update f6 s) = keys s" "keys (binder_deferred_list_update f7 s) = keys s"
  "keys (death_cookie_update f8 s) = keys s" "keys (device_ref_update f9 s) = keys s"
  "keys (binder_dead_nodes_update g1 s) = keys s" "keys (binder_last_id_update g2 s) = keys s"
  "keys (obj_created_update g3 s) = keys s" "keys (obj_deleted_update g4 s) = keys s"
  "keys (freed_nodes_update g5 s) = keys s" "keys (freed_refs_update g6 s) = keys s" "keys (freed_txns_update g7 s) = keys s"
  "keys (freed_threads_update g8 s) = keys s" "keys (freed_procs_update g9 s) = keys s" "keys (freed_devices_update h1 s) = keys s"
  "keys (freed_work_update h2 s) = keys s" "keys (fputs_update h3 s) = keys s" "keys (closed_fds_update h4 s) = keys s"
  "keys (woken_update h5 s) = keys s" "keys (binder_warns_update h6 s) = keys s"
  by (simp_all add: keys_def)

lemma keys_stats [simp]:
  "keys (binder_warn_on c s) = keys s" "keys (binder_stats_created ty s) = keys s" "keys (binder_stats_deleted ty s) = keys s"
  by (simp_all add: binder_warn_on_def binder_stats_created_def binder_stats_deleted_def)

section \<open>Work lists and wake-up\<close>

lemma enqueue_keeps [keeps]: "keys s = k \<Longrightarrow> kept id k (binder_enqueue_work_ilocked w l s)"
  unfolding binder_enqueue_work_ilocked_def by (intro keep_rules keeps) simp_all

lemma enqueue_thread_keeps [keeps]:
  "keys s = k \<Longrightarrow> kept id k (binder_enqueue_deferred_thread_work_ilocked t w s)"
  "keys s = k \<Longrightarrow> kept id k (binder_enqueue_thread_work_ilocked t w s)"
  "keys s = k \<Longrightarrow> kept id k (binder_enqueue_thread_work t w s)"
  unfolding binder_enqueue_deferred_thread_work_ilocked_def binder_enqueue_thread_work_ilocked_def binder_enqueue_thread_work_def
  by (intro keep_rules keeps; simp)+

lemma keys_dequeue [simp]:
  "keys (binder_dequeue_work_ilocked w s) = keys s" "keys (binder_dequeue_work w s) = keys s"
  "keys (snd (binder_dequeue_work_head_ilocked l s)) = keys s"
  by (auto simp: binder_dequeue_work_ilocked_def binder_dequeue_work_def binder_dequeue_work_head_ilocked_def split: option.splits list.splits)

lemma keys_wake [simp]: "keys (wake_up_interruptible t sync s) = keys s"
  by (simp add: wake_up_interruptible_def)

lemma keys_foldl: "(\<And>s x. keys (f s x) = keys s) \<Longrightarrow> keys (foldl f s xs) = keys s"
  by (induction xs arbitrary: s) simp_all

lemma keys_wakeup [simp]:
  "keys (binder_wakeup_poll_threads_ilocked p sync s) = keys s" "keys (snd (binder_select_thread_ilocked p s)) = keys s"
  "keys (binder_wakeup_thread_ilocked p th sync s) = keys s" "keys (binder_wakeup_proc_ilocked p s) = keys s"
proof -
  show a: "keys (binder_wakeup_poll_threads_ilocked p sync s) = keys s" for p sync s
    unfolding binder_wakeup_poll_threads_ilocked_def by (rule keys_foldl) simp
  show b: "keys (snd (binder_select_thread_ilocked p s)) = keys s"
    by (auto simp: binder_select_thread_ilocked_def split: list.split)
  show c: "keys (binder_wakeup_thread_ilocked p th sync s) = keys s" for p th sync s
    by (auto simp: binder_wakeup_thread_ilocked_def a split: option.split)
  show "keys (binder_wakeup_proc_ilocked p s) = keys s"
    using b by (simp add: binder_wakeup_proc_ilocked_def split_def Let_def c)
qed

section \<open>Nodes and references\<close>

lemma keys_node [simp]:
  "keys (binder_inc_node_tmpref_ilocked n s) = keys s" "keys (binder_inc_node_tmpref n s) = keys s"
  "keys (snd (binder_get_node_ilocked p ptr s)) = keys s" "keys (snd (binder_get_node p ptr s)) = keys s"
  "keys (binder_free_node n s) = keys s" "keys (dec_node_count n strong' internal s) = keys s" "keys (binder_free_ref r s) = keys s"
  "keys (upd_ref_data r f s) = keys s" "keys (snd (binder_get_node_from_ref p d need_strong_ref s)) = keys s"
  by (auto simp: binder_inc_node_tmpref_ilocked_def binder_inc_node_tmpref_def binder_get_node_ilocked_def binder_get_node_def
      binder_free_node_def dec_node_count_def binder_free_ref_def upd_ref_data_def binder_get_node_from_ref_def Let_def split: option.splits)

lemma keys_new_node [simp]: "keys (snd (binder_init_node_ilocked env p m fp s)) = keys s" "keys (snd (binder_new_node env p nn fp s)) = keys s"
proof -
  show a: "keys (snd (binder_init_node_ilocked env p m fp s)) = keys s" for m
    unfolding binder_init_node_ilocked_def Let_def
    by (cases "rb_link (\<lambda>n. node_ptr (bnode s n)) (case fp of None \<Rightarrow> 0 | Some f \<Rightarrow> fp_binder f) m (nodes (bproc s p))") simp_all
  show "keys (snd (binder_new_node env p nn fp s)) = keys s"
    by (auto simp: binder_new_node_def a Let_def split_def split: option.split)
qed

lemma inc_node_keeps [keeps]:
  "keys s = k \<Longrightarrow> kept snd k (binder_inc_node_nilocked n strong' internal target_list s)"
  "keys s = k \<Longrightarrow> kept snd k (binder_inc_node n strong' internal target_list s)"
proof -
  show a: "keys s = k \<Longrightarrow> kept snd k (binder_inc_node_nilocked n strong' internal target_list s)"
    unfolding binder_inc_node_nilocked_def Let_def
    by (intro keep_rules keeps; (simp; fail)?; (auto split: worklist.split intro!: keep_rules keeps)?)
  then show "keys s = k \<Longrightarrow> kept snd k (binder_inc_node n strong' internal target_list s)"
    by (simp add: binder_inc_node_def)
qed


lemma dec_node_release_keeps [keeps]: "keys s = k \<Longrightarrow> kept snd k (dec_node_release env n s)"
  unfolding dec_node_release_def Let_def by (intro keep_rules keeps; simp)

lemma dec_node_keeps [keeps]:
  "keys s = k \<Longrightarrow> kept snd k (binder_dec_node_nilocked env n strong' internal s)"
  "keys s = k \<Longrightarrow> kept id k (binder_dec_node env n strong' internal s)"
  "keys s = k \<Longrightarrow> kept id k (binder_dec_node_tmpref env n s)"
  "keys s = k \<Longrightarrow> kept id k (binder_put_node env n s)"
proof -
  have a [keeps]: "keys s = k \<Longrightarrow> kept snd k (binder_dec_node_nilocked env n strong' internal s)" for strong' internal s
    unfolding binder_dec_node_nilocked_def Let_def by (intro keep_rules keeps; simp)
  show "keys s = k \<Longrightarrow> kept snd k (binder_dec_node_nilocked env n strong' internal s)" by (rule a)
  show "keys s = k \<Longrightarrow> kept id k (binder_dec_node env n strong' internal s)"
    unfolding binder_dec_node_def by (intro keep_rules a; simp add: kept_Some)
  show b: "keys s = k \<Longrightarrow> kept id k (binder_dec_node_tmpref env n s)"
    unfolding binder_dec_node_tmpref_def by (intro keep_rules keeps a; simp add: kept_Some)
  then show "keys s = k \<Longrightarrow> kept id k (binder_put_node env n s)" by (simp add: binder_put_node_def)
qed

lemma get_ref_for_node_keeps [keeps]: "keys s = k \<Longrightarrow> kept snd k (binder_get_ref_for_node_olocked env p n new_ref s)"
  unfolding binder_get_ref_for_node_olocked_def Let_def by (intro keep_rules keeps; simp)

lemma cleanup_ref_keeps [keeps]: "keys s = k \<Longrightarrow> kept id k (binder_cleanup_ref_olocked env r s)"
  unfolding binder_cleanup_ref_olocked_def by (intro keep_rules keeps; simp add: kept_Some split: option.split)

lemma ref_counts_keep [keeps]:
  "keys s = k \<Longrightarrow> kept snd k (binder_inc_ref_olocked r strong' target_list s)"
  "keys s = k \<Longrightarrow> kept snd k (binder_dec_ref_olocked env r strong' s)"
  unfolding binder_inc_ref_olocked_def binder_dec_ref_olocked_def
  by (intro keep_rules keeps; simp add: kept_Some split: option.split)+

lemma update_ref_keeps [keeps]: "keys s = k \<Longrightarrow> kept snd k (binder_update_ref_for_handle env p d increment strong' s)"
  unfolding binder_update_ref_for_handle_def by (intro keep_rules keeps; simp add: kept_Some)

lemma dec_ref_keeps [keeps]: "keys s = k \<Longrightarrow> kept snd k (binder_dec_ref_for_handle env p d strong' s)"
  unfolding binder_dec_ref_for_handle_def by (rule keeps)

lemma inc_ref_for_node_keeps [keeps]: "keys s = k \<Longrightarrow> kept snd k (binder_inc_ref_for_node env p n new_ref strong' target_list s)"
  unfolding binder_inc_ref_for_node_def by (intro keep_rules keeps; simp add: kept_Some)

section \<open>Threads and transactions\<close>

lemma free_proc_keeps [keeps]:
  "keys s = k \<Longrightarrow> kept id k (binder_free_proc env p s)"
  "keys s = k \<Longrightarrow> kept id k (binder_proc_dec_tmpref env p s)"
proof -
  have a: "keys s = k \<Longrightarrow> kept id k (binder_free_proc env p s)" for s
    unfolding binder_free_proc_def Let_def split_def by (intro keep_rules keeps; simp)
  show "keys s = k \<Longrightarrow> kept id k (binder_free_proc env p s)" by (rule a)
  show "keys s = k \<Longrightarrow> kept id k (binder_proc_dec_tmpref env p s)"
    unfolding binder_proc_dec_tmpref_def Let_def by (intro keep_rules a; simp)
qed

lemma free_thread_keeps [keeps]: "keys s = k \<Longrightarrow> kept id k (binder_free_thread env t s)"
  unfolding binder_free_thread_def by (intro keep_rules keeps; simp)

lemma thread_dec_keeps [keeps]: "keys s = k \<Longrightarrow> kept id k (binder_thread_dec_tmpref env t s)"
  unfolding binder_thread_dec_tmpref_def Let_def by (intro keep_rules keeps; simp)

lemma pop_keeps [keeps]: "keys s = k \<Longrightarrow> kept id k (binder_pop_transaction_ilocked th t s)"
  unfolding binder_pop_transaction_ilocked_def by (intro keep_rules keeps; simp)

lemma keys_txn [simp]:
  "keys (snd (binder_get_txn_from t s)) = keys s" "keys (snd (binder_get_txn_from_and_acq_inner t s)) = keys s"
  "keys (binder_free_txn_fixups t s) = keys s" "keys (clear_buffer_transaction p b s) = keys s" "keys (binder_free_transaction t s) = keys s"
  by (auto simp: binder_get_txn_from_def binder_get_txn_from_and_acq_inner_def binder_free_txn_fixups_def clear_buffer_transaction_def
      binder_free_transaction_def Let_def split: option.splits)

lemma failed_reply_loop_keeps: "keys s = k \<Longrightarrow> kept id k (send_failed_reply_loop fuel env t e s)"
  by (induction fuel arbitrary: t s) (auto simp: split_def Let_def intro!: keep_rules keeps)

lemma failed_reply_keeps [keeps]: "keys s = k \<Longrightarrow> kept id k (binder_send_failed_reply fuel env t e s)"
  unfolding binder_send_failed_reply_def by (intro keep_rules keeps failed_reply_loop_keeps; simp)

lemma cleanup_transaction_keeps [keeps]: "keys s = k \<Longrightarrow> kept id k (binder_cleanup_transaction fuel env t e s)"
  unfolding binder_cleanup_transaction_def by (intro keep_rules keeps; simp)

lemma proc_transaction_keeps [keeps]: "keys s = k \<Longrightarrow> kept snd k (binder_proc_transaction t p th s)"
proof -
  have "keys s = k \<Longrightarrow> kept snd k (queue_transaction t p th n oneway pending s)" for n oneway pending s
    unfolding queue_transaction_def Let_def split_def by (intro keep_rules keeps; simp)
  then show "keys s = k \<Longrightarrow> kept snd k (binder_proc_transaction t p th s)"
    unfolding binder_proc_transaction_def Let_def by (intro keep_rules keeps; simp)
qed

lemma node_refs_for_txn_keeps [keeps]: "keys s = k \<Longrightarrow> kept snd k (binder_get_node_refs_for_txn n s)"
  unfolding binder_get_node_refs_for_txn_def by (intro keep_rules keeps; simp add: kept_Some)

lemma translate_keeps [keeps]:
  "keys s = k \<Longrightarrow> kept snd k (binder_translate_binder env nn nr allowed ty fp th target s)"
  "keys s = k \<Longrightarrow> kept snd k (binder_translate_handle env nr allowed ty fp th target s)"
proof -
  show "keys s = k \<Longrightarrow> kept snd k (binder_translate_binder env nn nr allowed ty fp th target s)"
    unfolding binder_translate_binder_def Let_def split_def by (intro keep_rules keeps; simp split: option.split)
  show "keys s = k \<Longrightarrow> kept snd k (binder_translate_handle env nr allowed ty fp th target s)"
    unfolding binder_translate_handle_def split_def by (intro keep_rules keeps; simp)
qed

lemma keys_get_thread [simp]: "keys (snd (binder_get_thread env p pid new_thread s)) = keys s"
proof -
  have "keys (snd (binder_get_thread_ilocked env p pid nt s)) = keys s" for nt s
    by (auto simp: binder_get_thread_ilocked_def Let_def split: option.split sum.split)
  then show ?thesis by (auto simp: binder_get_thread_def Let_def split_def split: option.split)
qed

lemma release_one_keeps [keeps]: "keys s = k \<Longrightarrow> kept id k (release_one_work fuel env w s)"
  unfolding release_one_work_def
  by (cases "work_type s w"; cases w; simp) (intro keep_rules keeps; simp)+

lemma release_work_keeps [keeps]: "keys s = k \<Longrightarrow> kept id k (binder_release_work fuel env l s)"
  by (induction fuel arbitrary: s) (auto simp: split_def intro!: keep_rules keeps)

lemma detach_keeps [keeps]: "keys s = k \<Longrightarrow> kept snd k (detach_transactions fuel th t i s)"
  by (induction fuel th t i s rule: detach_transactions.induct)
    (auto simp: Let_def intro!: keep_rules split: option.split)

lemma thread_release_keeps [keeps]: "keys s = k \<Longrightarrow> kept snd k (binder_thread_release fuel env p th s)"
  unfolding binder_thread_release_def by (intro keep_rules keeps; simp)

lemma notify_keeps [keeps]: "keys s = k \<Longrightarrow> kept id k (notify_deaths rs s)"
  by (induction rs arbitrary: s) (auto intro!: keep_rules keeps)

lemma node_release_keeps [keeps]: "keys s = k \<Longrightarrow> kept snd k (binder_node_release fuel env n i s)"
  unfolding binder_node_release_def by (intro keep_rules keeps; simp)


section \<open>Objects\<close>

lemma buffer_put_keeps [keeps]: "keys s = k \<Longrightarrow> kept snd k (buffer_put env p b off bs s)"
  unfolding buffer_put_def by (intro keep_rules; simp)

lemma fixup_parent_keeps [keeps]: "keys s = k \<Longrightarrow> kept snd k (binder_fixup_parent env p b bp os nv lo lm s)"
  unfolding binder_fixup_parent_def Let_def split_def by (intro keep_rules keeps; simp)

lemma keys_fd_close [simp]: "keys (binder_deferred_fd_close T fd s) = keys s"
  by (simp add: binder_deferred_fd_close_def)

lemma translate_fd_keeps [keeps]: "keys s = k \<Longrightarrow> kept snd k (binder_translate_fd T fd off t th r s)"
  unfolding binder_translate_fd_def by (intro keep_rules keeps; simp)

lemma translate_fds_keeps [keeps]: "keys s = k \<Longrightarrow> kept snd k (translate_fds env T n off p b t th r s)"
  by (induction n arbitrary: off s) (auto intro!: keep_rules keeps)

lemma translate_fd_array_keeps [keeps]: "keys s = k \<Longrightarrow> kept snd k (binder_translate_fd_array env T fda parent p b t th r s)"
  unfolding binder_translate_fd_array_def Let_def by (intro keep_rules keeps; simp)

lemma apply_fds_keeps [keeps]: "keys s = k \<Longrightarrow> kept (snd \<circ> snd) k (apply_fds env T p b i fs s)"
  by (induction fs arbitrary: i s) (auto intro!: keep_rules keeps)

lemma undo_fds_keeps [keeps]: "keys s = k \<Longrightarrow> kept id k (undo_fds env T failed p b i fs s)"
proof (induction fs arbitrary: i s)
  case (Cons f fs)
  then show ?case by (cases i; cases f) (auto intro!: keep_rules keeps split: option.split)
qed (simp add: kept_Some)

lemma apply_fixups_keeps [keeps]: "keys s = k \<Longrightarrow> kept snd k (binder_apply_fd_fixups env T p t s)"
  unfolding binder_apply_fd_fixups_def by (intro keep_rules keeps; simp)

lemma close_fds_keeps [keeps]: "keys s = k \<Longrightarrow> kept id k (close_fds env T n off p b s)"
  by (induction n arbitrary: off s) (auto intro!: keep_rules keeps split: option.split)

lemma release_object_keeps [keeps]: "keys s = k \<Longrightarrow> kept id k (release_object env T obj os bo p b s)"
proof -
  have "keys s = k \<Longrightarrow> kept id k (release_fd_array env T fda os nv p b s)" for fda os nv
    unfolding release_fd_array_def split_def by (intro keep_rules keeps; simp)
  then show "keys s = k \<Longrightarrow> kept id k (release_object env T obj os bo p b s)"
    unfolding release_object_def split_def by (intro keep_rules keeps; simp)
qed

lemma release_objects_keeps [keeps]: "keys s = k \<Longrightarrow> kept id k (release_objects env T p b os bo oe s)"
proof (rule keptI)
  have "release_objects env T p b os bo oe s = Some s' \<Longrightarrow> keys (id s') = keys s" for s'
  proof (erule release_objects.raw_induct [rotated, where P = "\<lambda>env T p b os bo oe s s'. keys (id s') = keys s"], goal_cases)
    case (1 f env T p b os bo oe s s')
    have ih: "keys s1 = k \<Longrightarrow> kept id k (f env T p b os bo' oe s1)" for s1 bo' k using 1(1) by (auto intro: keptI)
    show ?case by (rule keptD [OF 1(2)]) (intro keep_rules keeps ih; simp)
  qed
  then show "keys s = k \<Longrightarrow> release_objects env T p b os bo oe s = Some s' \<Longrightarrow> keys (id s') = k" for s' by simp
qed

lemma buffer_release_keeps [keeps]: "keys s = k \<Longrightarrow> kept id k (binder_transaction_buffer_release env T p b failed_at is_failure s)"
  unfolding binder_transaction_buffer_release_def Let_def by (intro keep_rules keeps; simp)

section \<open>The transaction call\<close>

lemma keys_reply_target [simp]: "keys (snd (reply_target th s)) = keys s"
  unfolding reply_target_def Let_def split_def by (auto split: option.split)

lemma call_node_keeps [keeps]: "keys s = k \<Longrightarrow> kept snd k (call_node p handle s)"
  unfolding call_node_def Let_def by (intro keep_rules kept_bind_any keeps; simp)

lemma call_stack_keeps [keeps]: "keys s = k \<Longrightarrow> kept snd k (call_stack_thread fuel target t s)"
  by (induction fuel target t s rule: call_stack_thread.induct) (auto intro!: keep_rules split: option.split)

lemma call_target_keeps [keeps]: "keys s = k \<Longrightarrow> kept snd k (call_target fuel T p th tr s)"
  unfolding call_target_def Let_def by (intro keep_rules keeps; (simp; fail)?; (auto split: prod.split sum.split intro!: keep_rules keeps)?)

lemma err_keeps [keeps]:
  "keys s = k \<Longrightarrow> kept id k (err_target fuel env th tg e s)"
  "keys s = k \<Longrightarrow> kept id k (err_txn fuel env t th tg e s)"
  "keys s = k \<Longrightarrow> kept id k (err_complete fuel env t tc th tg e s)"
proof -
  have a: "keys s = k \<Longrightarrow> kept id k (err_target fuel env th tg e s)" for s
    unfolding err_target_def by (intro keep_rules keeps; simp)
  show "keys s = k \<Longrightarrow> kept id k (err_target fuel env th tg e s)" by (rule a)
  show "keys s = k \<Longrightarrow> kept id k (err_txn fuel env t th tg e s)" "keys s = k \<Longrightarrow> kept id k (err_complete fuel env t tc th tg e s)"
    unfolding err_txn_def err_complete_def by (intro a; simp)+
qed

lemma err_buffer_keeps [keeps]: "keys s = k \<Longrightarrow> kept id k (err_buffer fuel env T t tc th target b fa tg e s)"
  unfolding err_buffer_def by (intro keep_rules keeps; simp)

lemma txn_flat_keeps [keeps]: "keys s = k \<Longrightarrow> kept snd k (txn_flat env T ty obj bo oo th target b s)"
  unfolding txn_flat_def Let_def split_def by (intro keep_rules keeps; simp)

lemma txn_fd_keeps [keeps]: "keys s = k \<Longrightarrow> kept snd k (txn_fd env T obj oo t th r target b s)"
  unfolding txn_fd_def Let_def by (intro keep_rules keeps; simp)

lemma txn_fda_keeps [keeps]: "keys s = k \<Longrightarrow> kept snd k (txn_fda env T obj os bo x t th r target b s)"
  unfolding txn_fda_def Let_def split_def by (intro keep_rules keeps; simp)

lemma txn_ptr_keeps [keeps]: "keys s = k \<Longrightarrow> kept snd k (txn_ptr env obj os bo oo se x target b s)"
  unfolding txn_ptr_def Let_def split_def by (intro keep_rules keeps; simp)

lemma txn_object_keeps [keeps]: "keys s = k \<Longrightarrow> kept snd k (txn_object env T obj os bo oo se x t th r target b s)"
  unfolding txn_object_def by (auto intro!: keep_rules keeps split: option.split binder_type.split)


lemmas txn_objects_induct = txn_objects.raw_induct
  [where xa = "(((((((((((((env, T), os), bo), oe), om), se), x), t), th), r), target), b), s)"
    for env T os bo oe om se x t th r target b s, unfolded prod.case]

lemma txn_objects_keeps [keeps]: "keys s = k \<Longrightarrow> kept snd k (txn_objects env T os bo oe om se x t th r target b s)"
proof (rule keptI)
  have "txn_objects env T os bo oe om se x t th r target b s = Some y \<Longrightarrow> keys (snd y) = keys s" for y
  proof (erule txn_objects_induct [rotated, where P = "\<lambda>env T os bo oe om se x t th r target b s y. keys (snd y) = keys s"], goal_cases)
    case (1 f env T os bo oe om se x t th r target b s y)
    have ih: "keys s1 = k \<Longrightarrow> kept snd k (f env T os bo' oe om' se x' t th r target b s1)" for s1 bo' om' x' k
      using 1(1) by (auto intro: keptI)
    show ?case by (rule keptD [OF 1(2)]) (intro keep_rules keeps ih; simp)
  qed
  then show "keys s = k \<Longrightarrow> txn_objects env T os bo oe om se x t th r target b s = Some y \<Longrightarrow> keys (snd y) = k" for y by simp
qed

lemma put_secctx_keeps [keeps]: "keys s = k \<Longrightarrow> kept id k (put_secctx env tr extra ctx t target b s)"
  unfolding put_secctx_def Let_def by (intro keep_rules keeps; simp)

lemma txn_copy_keeps [keeps]: "keys s = k \<Longrightarrow> kept snd k (txn_copy env tr extra target b s)"
  unfolding txn_copy_def by (intro keep_rules keeps; simp)

lemma txn_send_keeps [keeps]: "keys s = k \<Longrightarrow> kept snd k (txn_send reply t tc th target tg s)"
  unfolding txn_send_def Let_def by (intro keep_rules keeps; simp)

lemma txn_done_keeps [keeps]: "keys s = k \<Longrightarrow> kept id k (txn_done env target tg s)"
  unfolding txn_done_def by (intro keep_rules keeps; simp)

lemma txn_with_buffer_keeps [keeps]:
  "keys s = k \<Longrightarrow> kept id k (txn_with_buffer fuel env T th tr reply extra secctx t tc target b tg s)"
  unfolding txn_with_buffer_def Let_def by (intro keep_rules keeps; simp)

lemma txn_with_memory_keeps [keeps]:
  "keys s = k \<Longrightarrow> kept id k (txn_with_memory fuel env T p th tr reply extra t tc target tg s)"
  unfolding txn_with_memory_def Let_def split_def by (intro keep_rules keeps; simp)

lemma transaction_keeps [keeps]:
  "keys s = k \<Longrightarrow> kept id k (Binder_Transact.binder_transaction fuel env T p th tr reply extra s)"
  unfolding binder_transaction_def Let_def split_def by (intro keep_rules keeps; simp)

section \<open>Commands\<close>

lemma free_buf_keeps [keeps]: "keys s = k \<Longrightarrow> kept id k (binder_free_buf env T p b s)"
  unfolding binder_free_buf_def Let_def split_def by (intro keep_rules keeps; simp split: option.split)

lemma cmd_free_keeps [keeps]: "keys s = k \<Longrightarrow> kept id k (cmd_free_buffer env T p ptr s)"
  unfolding cmd_free_buffer_def split_def by (intro keep_rules keeps; simp)

lemma cmd_refs_keeps [keeps]: "keys s = k \<Longrightarrow> kept snd k (cmd_refs env T inc strong' p h s)"
  unfolding cmd_refs_def Let_def split_def by (intro keep_rules keeps; simp)

lemma cmd_refs_done_keeps [keeps]: "keys s = k \<Longrightarrow> kept id k (cmd_refs_done env acquire p ptr cookie s)"
  unfolding cmd_refs_done_def split_def by (intro keep_rules keeps; simp)

lemma keys_loopers [simp]: "keys (cmd_enter_looper th s) = keys s" "keys (cmd_exit_looper th s) = keys s"
  by (simp_all add: cmd_enter_looper_def cmd_exit_looper_def Let_def)

lemma own_work_keeps [keeps]: "keys s = k \<Longrightarrow> kept id k (enqueue_own_work p th w s)"
  unfolding enqueue_own_work_def by (intro keep_rules keeps; simp)

lemma death_cmds_keep [keeps]:
  "keys s = k \<Longrightarrow> kept id k (cmd_request_death T p th h cookie s)"
  "keys s = k \<Longrightarrow> kept id k (cmd_clear_death p th h cookie s)"
  "keys s = k \<Longrightarrow> kept id k (cmd_dead_binder_done p th cookie s)"
  unfolding cmd_request_death_def cmd_clear_death_def cmd_dead_binder_done_def Let_def
  by (intro keep_rules keeps; simp)+

section \<open>Reading\<close>

lemma read_node_keeps [keeps]: "keys s = k \<Longrightarrow> kept snd k (read_node R env p n ptr out s)"
  unfolding read_node_def Let_def by (intro keep_rules keeps; simp)

lemma read_death_keeps [keeps]: "keys s = k \<Longrightarrow> kept snd k (read_death R p d ptr out s)"
  unfolding read_death_def Let_def by (intro keep_rules keeps; simp)

lemma read_error_keeps [keeps]: "keys s = k \<Longrightarrow> kept snd k (read_error R w ptr out s)"
proof -
  have "keys s = k \<Longrightarrow> kept snd k (set_error_cmd w s)" unfolding set_error_cmd_def by (auto intro!: keep_rules split: work_id.split)
  then show "keys s = k \<Longrightarrow> kept snd k (read_error R w ptr out s)"
    unfolding read_error_def by (intro keep_rules keeps; simp)
qed

lemma keys_read_complete [simp]: "keys (snd (read_complete R w ptr out s)) = keys s"
  by (simp add: read_complete_def)

lemma opt_dec_keeps [keeps]: "keys s = k \<Longrightarrow> kept id k (opt_dec_tmpref env from s)"
  unfolding opt_dec_tmpref_def by (intro keep_rules keeps; simp)

lemma read_transaction_keeps [keeps]: "keys s = k \<Longrightarrow> kept snd k (read_transaction fuel R env T p th t ptr out s)"
proof -
  have [keeps]: "keys s = k \<Longrightarrow> kept snd k (read_fixups_failed fuel R env T p t b frm is_reply ptr out s)" for b frm is_reply s
    unfolding read_fixups_failed_def by (intro keep_rules keeps; simp)
  have [keeps]: "keys s = k \<Longrightarrow> kept id k (read_received env p th t b frm is_reply s)" for b frm is_reply s
    unfolding read_received_def by (intro keep_rules keeps; simp)
  show "keys s = k \<Longrightarrow> kept snd k (read_transaction fuel R env T p th t ptr out s)"
    unfolding read_transaction_def Let_def split_def by (intro keep_rules keeps; simp)
qed

lemma read_work_keeps [keeps]: "keys s = k \<Longrightarrow> kept snd k (read_work fuel R p th w ptr out s)"
  unfolding read_work_def Let_def split_def
  by (cases "work_type s w"; cases w; simp) (intro keep_rules keeps; simp)+

section \<open>Deferred work\<close>

lemma keys_deferred [simp]:
  "keys (binder_defer_work p defer s) = keys s" "keys (binder_deferred_flush p s) = keys s" "keys (forget_ctx_mgr p s) = keys s"
  "keys (wake_for_rest p s) = keys s" "keys (binder_vma_close p s) = keys s"
  by (auto simp: binder_defer_work_def binder_deferred_flush_def forget_ctx_mgr_def wake_for_rest_def binder_vma_close_def Let_def
      intro!: keys_foldl split: option.split)

lemma release_loops_keep [keeps]:
  "keys s = k \<Longrightarrow> kept id k (release_threads fuel env p s)"
  "keys s = k \<Longrightarrow> kept id k (release_nodes fuel env p incoming s)"
  "keys s = k \<Longrightarrow> kept id k (release_refs fuel env p s)"
proof -
  show "keys s = k \<Longrightarrow> kept id k (release_threads fuel env p s)"
    by (induction fuel arbitrary: s) (auto intro!: keep_rules keeps)
  show "keys s = k \<Longrightarrow> kept id k (release_nodes fuel env p incoming s)"
    by (induction fuel arbitrary: s incoming) (auto intro!: keep_rules keeps)
  show "keys s = k \<Longrightarrow> kept id k (release_refs fuel env p s)"
    by (induction fuel arbitrary: s) (auto intro!: keep_rules keeps)
qed

lemma deferred_release_keeps [keeps]: "keys s = k \<Longrightarrow> kept id k (binder_deferred_release fuel env p s)"
  unfolding binder_deferred_release_def by (intro keep_rules keeps; simp)

lemma deferred_func_keeps [keeps]: "keys s = k \<Longrightarrow> kept id k (binder_deferred_func fuel env s)"
  by (induction fuel arbitrary: s) (auto simp: Let_def intro!: keep_rules keeps split: list.split)

end
