(* ===== verification/Binder_Pool.thy ===== *)
theory Binder_Pool
  imports Binder_Frame Binder_Txn_Props
begin

text \<open>
  The driver as a machine that runs its entry points one after the other, where a thread that sleeps
  in a read lets any number of other entry points run, and the invariant of the thread pool of every
  process over all runs of this machine.
\<close>

section \<open>The thread pool\<close>

text \<open>
  At most one thread is asked for at a time (the comment on \<^verbatim>\<open>requested_threads\<close> in
  \<^verbatim>\<open>struct binder_proc\<close>), and the threads started and asked for stay within the limit, as long as
  nobody lowers the limit (\<open>lim\<close>).
\<close>

definition pool_key_ok :: "bool \<Rightarrow> proc_key \<Rightarrow> bool" where
  "pool_key_ok lim = (\<lambda>(limit, requested, started, _). (requested = 0 \<or> requested = 1) \<and> 0 \<le> started
     \<and> (lim \<longrightarrow> requested + started \<le> limit))"

definition pool_ok :: "bool \<Rightarrow> driver \<Rightarrow> bool" where
  "pool_ok lim s \<longleftrightarrow> (\<forall>p. pool_key_ok lim (keys s p))"

definition pooled :: "bool \<Rightarrow> ('r \<Rightarrow> driver) \<Rightarrow> 'r option \<Rightarrow> bool" where
  "pooled lim pr m \<longleftrightarrow> (\<forall>r. m = Some r \<longrightarrow> pool_ok lim (pr r))"

lemma pool_ok_keys: "keys s' = keys s \<Longrightarrow> pool_ok lim s \<Longrightarrow> pool_ok lim s'"
  by (simp add: pool_ok_def)

lemma pooled_kept: "pool_ok lim s \<Longrightarrow> kept pr (keys s) m \<Longrightarrow> pooled lim pr m"
  by (auto simp: pooled_def kept_def pool_ok_def)

lemma pooledD: "m = Some r \<Longrightarrow> pooled lim pr m \<Longrightarrow> pool_ok lim (pr r)"
  by (simp add: pooled_def)

lemma pooledI: "(\<And>r. m = Some r \<Longrightarrow> pool_ok lim (pr r)) \<Longrightarrow> pooled lim pr m"
  by (simp add: pooled_def)

named_theorems pool_rules \<open>how results with the invariant are composed\<close>

lemma pooled_Some [pool_rules]: "pool_ok lim (pr r) \<Longrightarrow> pooled lim pr (Some r)" "pooled lim pr None"
  by (simp_all add: pooled_def)

lemma pooled_bind1 [pool_rules]:
  "pooled lim id m \<Longrightarrow> (\<And>s. pool_ok lim s \<Longrightarrow> pooled lim pr (f s)) \<Longrightarrow> pooled lim pr (m \<bind> f)"
  by (auto simp: pooled_def bind_eq_Some_conv)

lemma pooled_bind2 [pool_rules]:
  "pooled lim snd m \<Longrightarrow> (\<And>x s. pool_ok lim s \<Longrightarrow> pooled lim pr (f (x, s))) \<Longrightarrow> pooled lim pr (m \<bind> f)"
  by (fastforce simp: pooled_def bind_eq_Some_conv)

lemma pooled_bind3 [pool_rules]:
  "pooled lim (snd \<circ> snd) m \<Longrightarrow> (\<And>x y s. pool_ok lim s \<Longrightarrow> pooled lim pr (f (x, y, s))) \<Longrightarrow> pooled lim pr (m \<bind> f)"
  by (fastforce simp: pooled_def bind_eq_Some_conv)

lemma pooled_map2 [pool_rules]:
  "pooled lim snd m \<Longrightarrow> (\<And>x s. pool_ok lim s \<Longrightarrow> pool_ok lim (pr (f (x, s)))) \<Longrightarrow> pooled lim pr (map_option f m)"
  by (fastforce simp: pooled_def)

lemma pooled_map3 [pool_rules]:
  "pooled lim (snd \<circ> snd) m \<Longrightarrow> (\<And>x y s. pool_ok lim s \<Longrightarrow> pool_ok lim (pr (f (x, y, s)))) \<Longrightarrow> pooled lim pr (map_option f m)"
  by (fastforce simp: pooled_def)

lemma pooled_cases [pool_rules]:
  "(c \<Longrightarrow> pooled lim pr a) \<Longrightarrow> (\<not> c \<Longrightarrow> pooled lim pr b) \<Longrightarrow> pooled lim pr (if c then a else b)"
  "pooled lim pr a \<Longrightarrow> (\<And>y. pooled lim pr (f y)) \<Longrightarrow> pooled lim pr (case x of None \<Rightarrow> a | Some y \<Rightarrow> f y)"
  "(\<And>y. pooled lim pr (g y)) \<Longrightarrow> (\<And>y. pooled lim pr (h y)) \<Longrightarrow> pooled lim pr (case z of Inl y \<Rightarrow> g y | Inr y \<Rightarrow> h y)"
  "pooled lim pr (i u v) \<Longrightarrow> pooled lim pr (case (u, v) of (a, b) \<Rightarrow> i a b)"
  by (simp_all split: option.split sum.split)

lemma pool_ok_keep [pool_rules]:
  "pool_ok lim s \<Longrightarrow> pool_ok lim (upd_thread t h s)"
  "pool_ok lim s \<Longrightarrow> pool_ok lim (wake_for_rest p s)"
  "pool_ok lim s \<Longrightarrow> pool_ok lim (snd (binder_dequeue_work_head_ilocked l s))"
  by (simp_all add: pool_ok_def)

lemma pool_ok_upd_proc:
  "pool_ok lim s \<Longrightarrow> pool_key_ok lim (key_of (f (bproc s p))) \<Longrightarrow> pool_ok lim (upd_proc p f s)"
  by (simp add: pool_ok_def keys_def upd_proc_def)

lemma pool_ok_proc: "pool_ok lim s \<Longrightarrow> pool_key_ok lim (key_of (bproc s p))"
  by (simp add: pool_ok_def keys_def)

section \<open>Writing\<close>

lemma register_looper_pool: "pool_ok lim s \<Longrightarrow> pool_ok lim (cmd_register_looper p th s)"
  using pool_ok_proc [of lim s p] unfolding cmd_register_looper_def Let_def
  by (auto intro!: pool_ok_keys [OF keys_upd(3)] pool_ok_upd_proc simp: key_of_def pool_key_ok_def)

lemma kept_fault [keep_rules]: "keys s = k \<Longrightarrow> (\<And>v. kept snd k (f v)) \<Longrightarrow> kept snd k (fault x f s)"
  by (simp add: fault_def kept_def split: option.split)

lemma kept_advance [keep_rules]: "kept id k m \<Longrightarrow> kept snd k (advance ptr m)"
  by (auto simp: advance_def kept_def)

lemma write_command_keeps: "cmd \<noteq> BC_REGISTER_LOOPER \<Longrightarrow> keys s = k \<Longrightarrow> kept snd k (write_command fuel W p th cmd ptr s)"
  unfolding write_command_def Let_def split_def by (intro keep_rules keeps; simp)

lemma write_command_pool:
  assumes "pool_ok lim s"
  shows "pooled lim snd (write_command fuel W p th cmd ptr s)"
proof (cases "cmd = BC_REGISTER_LOOPER")
  case True
  then have "write_command fuel W p th cmd ptr s = Some (Inr ptr, cmd_register_looper p th s)"
    by (simp add: write_command_def split_def Let_def BC_INCREFS_def BC_ACQUIRE_def BC_RELEASE_def BC_DECREFS_def BC_INCREFS_DONE_def
        BC_ACQUIRE_DONE_def BC_FREE_BUFFER_def BC_TRANSACTION_SG_def BC_REPLY_SG_def BC_TRANSACTION_def BC_REPLY_def BC_REGISTER_LOOPER_def)
  then show ?thesis using register_looper_pool [OF assms] by (simp add: pooled_def)
next
  case False
  then show ?thesis using pooled_kept [OF assms write_command_keeps] by simp
qed

lemma write_loop_pool:
  assumes "write_loop fuel W p th buffer ptr end' consumed s = Some y" "pool_ok lim s"
  shows "pool_ok lim (snd (snd y))"
proof -
  have "pool_ok lim s \<longrightarrow> pool_ok lim (snd (snd y))"
    using assms(1)
  proof (rule write_loop.raw_induct [rotated, where P = "\<lambda>fuel W p th buffer ptr end' consumed s y. pool_ok lim s \<longrightarrow> pool_ok lim (snd (snd y))"], goal_cases)
    case (1 f fuel W p th buffer ptr end' consumed s y)
    have ih: "pool_ok lim s1 \<Longrightarrow> pooled lim (snd \<circ> snd) (f fuel W p th buffer ptr' end' c s1)" for ptr' c s1
      using 1(1) by (auto intro: pooledI)
    show ?case
    proof
      assume "pool_ok lim s"
      then have "pool_ok lim ((snd \<circ> snd) y)"
        by - (rule pooledD [OF 1(2)], intro pool_rules write_command_pool ih; simp)
      then show "pool_ok lim (snd (snd y))" by simp
    qed
  qed
  then show ?thesis using assms(2) by simp
qed

section \<open>Waiting and reading\<close>

definition sched_ok :: "bool \<Rightarrow> (driver \<Rightarrow> bool \<times> driver) \<Rightarrow> bool" where
  "sched_ok lim schedule \<longleftrightarrow> (\<forall>s. pool_ok lim s \<longrightarrow> pool_ok lim (snd (schedule s)))"

lemma wait_pool:
  assumes "binder_wait_for_work schedule th do_proc_work s = Some y" "pool_ok lim s" "sched_ok lim schedule"
  shows "pool_ok lim (snd y)"
proof -
  have "sched_ok lim schedule \<longrightarrow> pool_ok lim s \<longrightarrow> pool_ok lim (snd y)"
    using assms(1)
  proof (rule binder_wait_for_work.raw_induct [rotated, where P = "\<lambda>schedule th w s y. sched_ok lim schedule \<longrightarrow> pool_ok lim s \<longrightarrow> pool_ok lim (snd y)"], goal_cases)
    case (1 f schedule th w s y)
    show ?case
    proof (intro impI)
      assume sc: "sched_ok lim schedule" and ok: "pool_ok lim s"
      let ?p = "thread_proc (bthread s th)"
      let ?q = "schedule (if w then upd_proc ?p (waiting_threads_update ((#) th)) s else s)"
      have "pool_ok lim (if w then upd_proc ?p (waiting_threads_update ((#) th)) s else s)"
        using ok by (auto intro: pool_ok_keys [OF keys_upd_proc])
      then have "pool_ok lim (snd ?q)" using sc by (simp add: sched_ok_def)
      then have "pool_ok lim (upd_proc ?p (waiting_threads_update (remove1 th)) (snd ?q))"
        by (rule pool_ok_keys [OF keys_upd_proc, rotated]) simp
      then show "pool_ok lim (snd y)"
        using 1 ok sc by (auto simp: Let_def split_def split: if_splits)
    qed
  qed
  then show ?thesis using assms by simp
qed


lemma read_loop_pool:
  assumes "read_loop fuel R p th buffer end' retry wpw ptr out s = Some y" "pool_ok lim s" "sched_ok lim (sched R)"
  shows "pool_ok lim (snd y)"
proof -
  have "sched_ok lim (sched R) \<longrightarrow> pool_ok lim s \<longrightarrow> pool_ok lim (snd y)"
    using assms(1)
  proof (rule read_loop.raw_induct [rotated, where P = "\<lambda>fuel R p th buffer end' retry wpw ptr out s y. sched_ok lim (sched R) \<longrightarrow> pool_ok lim s \<longrightarrow> pool_ok lim (snd y)"], goal_cases)
    case (1 f fuel R p th buffer end' retry wpw ptr out s y)
    show ?case
    proof (intro impI)
      assume sc: "sched_ok lim (sched R)" and ok: "pool_ok lim s"
      have ih: "pool_ok lim s1 \<Longrightarrow> pooled lim snd (f fuel R p th buffer end' retry' wpw' ptr' out' s1)" for retry' wpw' ptr' out' s1
        using 1(1) sc by (auto intro: pooledI)
      have wait: "pool_ok lim s1 \<Longrightarrow> pooled lim snd (binder_wait_for_work (sched R) th w s1)" for w s1
        using wait_pool sc by (blast intro: pooledI)
      have work: "pool_ok lim s1 \<Longrightarrow> pooled lim snd (read_work fuel R p th w ptr' out' s1)" for w ptr' out' s1
        by (rule pooled_kept [OF _ read_work_keeps [OF refl]])
      have step: "pooled lim snd (case r of Continue ptr' out' \<Rightarrow> f fuel R p th buffer end' False wpw ptr' out' s1
          | Finish ptr' out' \<Rightarrow> Some (Finish ptr' out', s1) | Return e out' \<Rightarrow> Some (Return e out', s1))" if "pool_ok lim s1" for r s1
        using that ih by (cases r) (simp_all add: pooled_Some)
      show "pool_ok lim (snd y)"
        by (rule pooledD [OF 1(2) [unfolded Let_def split_def]])
          (intro pool_rules ih wait work; simp add: ok step split_def pool_rules)
    qed
  qed
  then show ?thesis using assms by simp
qed


lemma spawn_pool: "pool_ok lim s \<Longrightarrow> wants_looper p th s \<Longrightarrow> pool_ok lim (upd_proc p (requested_threads_update (\<lambda>c. c + 1)) s)"
  using pool_ok_proc [of lim s p]
  by (auto intro!: pool_ok_upd_proc simp: key_of_def pool_key_ok_def wants_looper_def)

lemma thread_read_pool:
  assumes "pool_ok lim s" "sched_ok lim (sched R)"
  shows "pooled lim (snd \<circ> snd \<circ> snd \<circ> snd) (binder_thread_read fuel R p th buffer sz consumed s)"
proof -
  have loop: "pooled lim snd (read_loop fuel R p th buffer end' retry w ptr out s)" for end' retry w ptr out
    using read_loop_pool assms by (blast intro: pooledI)
  show ?thesis
    unfolding binder_thread_read_def Let_def
    by (intro pool_rules loop; (simp add: assms)?)
      (auto simp: pooled_def intro: spawn_pool split: read_step.splits if_splits)
qed


section \<open>Entry points\<close>

lemma write_read_pool:
  assumes "pool_ok lim s" "sched_ok lim (sched (ir I))"
  shows "pooled lim snd (binder_ioctl_write_read fuel I p th s)"
proof (cases "arg_bwr I")
  case (Some bwr)
  let ?w = "if write_size bwr > 0
            then binder_thread_write fuel (iw I) p th (write_buffer bwr) (write_size bwr) (write_consumed bwr) s
            else Some (None, write_consumed bwr, s)"
  have w: "pooled lim (snd \<circ> snd) ?w"
    using assms(1) write_loop_pool by (auto simp: binder_thread_write_def intro!: pooledI)
  have r: "pooled lim (snd \<circ> snd \<circ> snd \<circ> snd) (binder_thread_read fuel (ir I) p th b z c s1)" if "pool_ok lim s1" for b z c s1
    using thread_read_pool [OF that assms(2)] .
  show ?thesis
    unfolding binder_ioctl_write_read_def Some option.case Let_def
    by (intro pool_rules w; simp add: pool_rules)
      (auto simp: pooled_def bind_eq_Some_conv intro!: pool_rules dest: pooledD [OF _ r])
qed (simp add: binder_ioctl_write_read_def assms pool_rules)

lemma make_ctx_mgr_keeps [keeps]: "keys s = k \<Longrightarrow> kept snd k (make_ctx_mgr I p fbo s)"
  unfolding make_ctx_mgr_def split_def by (intro keep_rules keeps; simp)

lemma set_ctx_mgr_keeps [keeps]: "keys s = k \<Longrightarrow> kept snd k (binder_ioctl_set_ctx_mgr I p fbo s)"
  unfolding binder_ioctl_set_ctx_mgr_def Let_def by (intro keep_rules keeps; simp)

lemma node_info_keeps [keeps]: "keys s = k \<Longrightarrow> kept snd k (binder_ioctl_get_node_info_for_ref env p info s)"
  unfolding binder_ioctl_get_node_info_for_ref_def split_def by (intro keep_rules keeps; simp)

lemma set_max_pool: "pool_ok False s \<Longrightarrow> pool_ok False (upd_proc p (max_threads_update (\<lambda>_. m)) s)"
  using pool_ok_proc [of False s p] by (auto intro!: pool_ok_upd_proc simp: key_of_def pool_key_ok_def)

lemma ioctl_other_keeps:
  "cmd \<noteq> BINDER_WRITE_READ \<Longrightarrow> cmd \<noteq> BINDER_SET_MAX_THREADS \<Longrightarrow> keys s = k \<Longrightarrow> kept (snd \<circ> snd) k (ioctl_command fuel I p th cmd s)"
  unfolding ioctl_command_def by (intro keep_rules keeps; simp split: option.split sum.split)

lemma ioctl_command_pool:
  assumes "pool_ok lim s" "sched_ok lim (sched (ir I))" "lim \<Longrightarrow> cmd \<noteq> BINDER_SET_MAX_THREADS"
  shows "pooled lim (snd \<circ> snd) (ioctl_command fuel I p th cmd s)"
proof -
  consider "cmd = BINDER_WRITE_READ" | "cmd = BINDER_SET_MAX_THREADS" "cmd \<noteq> BINDER_WRITE_READ" "\<not> lim"
    | "cmd \<noteq> BINDER_WRITE_READ" "cmd \<noteq> BINDER_SET_MAX_THREADS" using assms(3) by blast
  then show ?thesis
  proof cases
    case 1
    then show ?thesis
      unfolding ioctl_command_def by (auto intro!: pool_rules write_read_pool assms)
  next
    case 2
    then show ?thesis
      using assms(1) set_max_pool by (auto simp: ioctl_command_def intro!: pool_rules split: option.split)
  next
    case 3
    then show ?thesis using pooled_kept [OF assms(1) ioctl_other_keeps [OF 3 refl]] by simp
  qed
qed

lemma ioctl_pool:
  assumes "pool_ok lim s" "sched_ok lim (sched (ir I))" "lim \<Longrightarrow> cmd \<noteq> BINDER_SET_MAX_THREADS"
  shows "pooled lim snd (binder_ioctl fuel I p cmd s)"
proof -
  have "pool_ok lim (snd (binder_get_thread (ik I) p (current_pid I) (kzalloc_thread I) s))"
    by (rule pool_ok_keys [OF _ assms(1)]) simp
  then show ?thesis
    unfolding binder_ioctl_def split_def using ioctl_command_pool [OF _ assms(2,3)]
    by (intro pool_rules; (simp add: pool_rules)?)
qed

lemma open_pool: "pool_ok lim s \<Longrightarrow> pool_ok lim (snd (binder_open new_proc pid tsk c s))"
  by (auto simp: binder_open_def pool_ok_def keys_def upd_proc_def fresh_proc_def key_of_def pool_key_ok_def binder_stats_created_def
      split: option.split)

lemma keys_poll [simp]: "keys (snd (binder_poll I p s)) = keys s"
  by (simp add: binder_poll_def split_def Let_def split: option.split)

lemma keys_mmap [simp]: "keys (snd (binder_mmap env leader forbidden v p s)) = keys s"
  by (simp add: binder_mmap_def split_def Let_def)


section \<open>The machine\<close>

text \<open>
  One run of the driver. Every ioctl may let the calling thread sleep; what happens meanwhile is
  itself a run. \<open>c\<close> tells whether \<^verbatim>\<open>BINDER_SET_MAX_THREADS\<close> may occur. \<open>fuel\<close> is any bound on the loops over
  transaction stacks and object trees that suffices for the call to return.
\<close>

inductive driver_run :: "bool \<Rightarrow> driver \<Rightarrow> driver \<Rightarrow> bool" for c :: bool where
  run_idle: "driver_run c s s"
| run_ioctl: "driver_run c s s1 \<Longrightarrow> cmd = BINDER_SET_MAX_THREADS \<longrightarrow> c \<Longrightarrow> (\<And>x. driver_run c x (snd (sched (ir I) x)))
    \<Longrightarrow> binder_ioctl fuel I p cmd s1 = Some (r, s2) \<Longrightarrow> driver_run c s s2"
| run_poll: "driver_run c s s1 \<Longrightarrow> binder_poll I p s1 = (r1, s2) \<Longrightarrow> driver_run c s s2"
| run_open: "driver_run c s s1 \<Longrightarrow> binder_open new_proc pid tsk ctx s1 = (r2, s2) \<Longrightarrow> driver_run c s s2"
| run_mmap: "driver_run c s s1 \<Longrightarrow> binder_mmap env leader forbidden v p s1 = (r3, s2) \<Longrightarrow> driver_run c s s2"
| run_vma_close: "driver_run c s s1 \<Longrightarrow> driver_run c s (binder_vma_close p s1)"
| run_flush: "driver_run c s s1 \<Longrightarrow> driver_run c s (binder_flush p s1)"
| run_release: "driver_run c s s1 \<Longrightarrow> driver_run c s (binder_release p s1)"
| run_deferred: "driver_run c s s1 \<Longrightarrow> binder_deferred_func fuel env s1 = Some s2 \<Longrightarrow> driver_run c s s2"

lemma run_pool: "driver_run c s s' \<Longrightarrow> pool_ok (\<not> c) s \<Longrightarrow> pool_ok (\<not> c) s'"
proof (induction rule: driver_run.induct)
  case (run_ioctl s s1 cmd I fuel p r s2)
  have "sched_ok (\<not> c) (sched (ir I))" using run_ioctl.IH(2) by (simp add: sched_ok_def)
  then have "pooled (\<not> c) snd (binder_ioctl fuel I p cmd s1)"
    using ioctl_pool [of "\<not> c" s1 I cmd] run_ioctl.IH(1) run_ioctl.prems run_ioctl.hyps(2) by blast
  from pooledD [OF run_ioctl.hyps(4) this] show ?case by simp
next
  case (run_deferred s s1 fuel env s2)
  then show ?case using pool_ok_keys keptD [OF run_deferred.hyps(2) deferred_func_keeps [OF refl]] by auto
next
  case (run_open s s1 new_proc pid tsk ctx r2 s2)
  then show ?case using open_pool [of "\<not> c" s1 new_proc pid tsk ctx] by simp
next
  case (run_poll s s1 I p r1 s2)
  then show ?case using pool_ok_keys [OF keys_poll, of "\<not> c" s1 I p] by simp
next
  case (run_mmap s s1 env leader forbidden v p r3 s2)
  then show ?case using pool_ok_keys [OF keys_mmap, of "\<not> c" s1 env leader forbidden v p] by simp
qed (simp_all add: binder_flush_def binder_release_def pool_ok_def)

text \<open>
  C37. The thread pool. Over every run of the driver, in every process: the driver has at most one
  outstanding request for a new looper thread, and the count of threads started for such requests is
  never negative; and if nobody changes a limit on the way, the threads started together with the
  outstanding request never exceed \<^verbatim>\<open>max_threads\<close>. This holds whatever other calls run while threads
  sleep, whatever the objects of the transactions contain and whichever allocations fail.
\<close>

theorem thread_pool_bounded:
  assumes "driver_run c s s'"
    and "\<forall>p. requested_threads (bproc s p) \<in> {0, 1} \<and> 0 \<le> requested_threads_started (bproc s p) \<and>
           requested_threads (bproc s p) + requested_threads_started (bproc s p) \<le> max_threads (bproc s p)"
  shows "requested_threads (bproc s' p) \<in> {0, 1} \<and> 0 \<le> requested_threads_started (bproc s' p) \<and>
    (\<not> c \<longrightarrow> requested_threads (bproc s' p) + requested_threads_started (bproc s' p) \<le> max_threads (bproc s' p))"
proof -
  have "pool_ok (\<not> c) s" using assms(2) by (auto simp: pool_ok_def keys_def key_of_def pool_key_ok_def)
  then show ?thesis
    using pool_ok_proc [OF run_pool [OF assms(1)], of p] by (auto simp: key_of_def pool_key_ok_def)
qed


section \<open>A concrete run\<close>

text \<open>A kernel that grants everything, user memory that cannot be read, and a scheduler that delivers a signal.\<close>

definition sample_task :: task_env where
  "sample_task = \<lparr>group_leader = 0, fget = (\<lambda>_. None), transfer_file_ok = (\<lambda>_ _ _. True), kzalloc_fixup = (\<lambda>_. True),
     kzalloc_twcb = (\<lambda>_. True), close_fd_get_file = (\<lambda>_. None), get_unused_fd = (\<lambda>_. None), tgid = 0, task_euid = (\<lambda>_. 0),
     task_tgid_nr = (\<lambda>_. 0), transaction_ok = (\<lambda>_ _. True), transfer_binder_ok = (\<lambda>_ _. True), secctx_of = (\<lambda>_. Inr []),
     kzalloc_txn = None, kzalloc_complete = None, kzalloc_death = None, kzalloc_node = (\<lambda>_. None), kzalloc_ref = (\<lambda>_. None)\<rparr>"

definition sample_ioctl :: ioctl_env where
  "sample_ioctl = \<lparr>iw = \<lparr>get_user_u32 = (\<lambda>_. None), get_user_u64 = (\<lambda>_. None), get_user_tr = (\<lambda>_. None), during = (\<lambda>_. (sample_env, sample_task))\<rparr>,
     ir = \<lparr>put_ok = (\<lambda>_. True), copy_tr_ok = (\<lambda>_. True), while_at = (\<lambda>_. (sample_env, sample_task)), non_block = False, sched = (\<lambda>s. (True, s))\<rparr>,
     ik = sample_env, arg_bwr = None, arg_int = None, arg_fbo = None, arg_info = None, arg_ptr = None, to_user_ok = True,
     current_pid = 33, current_euid = 0, set_context_mgr_ok = (\<lambda>_. None), kzalloc_thread = Some 5, kzalloc_mgr_node = None\<rparr>"

text \<open>A process opens the device, asks for the version and closes it again.\<close>

theorem thread_pool_bounded_witness:
  "\<exists>s'. driver_run False blank_driver s' \<and> binder_deferred_list s' = [4] \<and> requested_threads (bproc s' 4) \<in> {0, 1}"
proof -
  let ?s1 = "snd (binder_open (Some 4) 33 7 0 blank_driver)"
  have o: "binder_open (Some 4) 33 7 0 blank_driver = (None, ?s1)" by (simp add: binder_open_def)
  have d: "binder_deferred_list ?s1 = []"
    by (simp add: binder_open_def blank_driver_def binder_stats_created_def upd_proc_def)
  have "proc_threads (bproc ?s1 4) = Leaf"
    by (simp add: binder_open_def binder_stats_created_def upd_proc_def fresh_proc_def)
  then obtain s3 where g: "binder_get_thread sample_env 4 33 (Some 5) ?s1 = (Some 5, s3)" "binder_deferred_list s3 = []"
    using d by (simp add: binder_get_thread_def binder_get_thread_ilocked_def Let_def upd_thread_def upd_proc_def binder_stats_created_def)
  have "ioctl_command 0 sample_ioctl 4 5 BINDER_VERSION s3 = Some ((None, Out_version 8), True, s3)"
    by (simp add: ioctl_command_def sample_ioctl_def BINDER_VERSION_def BINDER_WRITE_READ_def BINDER_SET_MAX_THREADS_def
        BINDER_SET_CONTEXT_MGR_EXT_def BINDER_SET_CONTEXT_MGR_def BINDER_THREAD_EXIT_def)
  moreover have "ik sample_ioctl = sample_env" "current_pid sample_ioctl = 33" "kzalloc_thread sample_ioctl = Some 5"
    by (simp_all add: sample_ioctl_def)
  ultimately have i: "binder_ioctl 0 sample_ioctl 4 BINDER_VERSION ?s1 =
      Some ((None, Out_version 8), upd_thread 5 (looper_need_return_update (\<lambda>_. False)) s3)" (is "_ = Some (_, ?s2)")
    using g by (simp add: binder_ioctl_def)
  have d2: "binder_deferred_list ?s2 = []" using g by (simp add: upd_thread_def)
  have "driver_run False x (snd (sched (ir sample_ioctl) x))" for x by (simp add: sample_ioctl_def run_idle)
  then have "driver_run False blank_driver ?s2"
    using run_ioctl [OF run_open [OF run_idle o] _ _ i] by (simp add: BINDER_VERSION_def BINDER_SET_MAX_THREADS_def)
  then have run: "driver_run False blank_driver (binder_release 4 ?s2)" by (rule run_release)
  have "\<forall>p. requested_threads (bproc blank_driver p) \<in> {0, 1} \<and> 0 \<le> requested_threads_started (bproc blank_driver p) \<and>
      requested_threads (bproc blank_driver p) + requested_threads_started (bproc blank_driver p) \<le> max_threads (bproc blank_driver p)"
    by (simp add: blank_driver_def blank_proc_def)
  from thread_pool_bounded [OF run this, of 4] have "requested_threads (bproc (binder_release 4 ?s2) 4) \<in> {0, 1}" by blast
  moreover have "binder_deferred_list (binder_release 4 ?s2) = [4]"
    using d2 by (simp add: binder_release_def binder_defer_work_def upd_proc_def Let_def)
  ultimately show ?thesis using run by blast
qed

end
