(* ===== verification/Binder_Read_Props.thy ===== *)
theory Binder_Read_Props
  imports Binder_Pool
begin

text \<open>
  What \<^verbatim>\<open>binder_thread_read\<close> writes into the buffer of the reader: where each item lies, and that the
  items stay inside the buffer.
\<close>

section \<open>Sizes\<close>

fun item_size :: "binder_return \<Rightarrow> nat" where
  "item_size (Return_code cmd) = 4"
| "item_size (Return_node cmd ptr cookie) = 20"
| "item_size (Return_death cmd cookie) = 12"
| "item_size (Return_txn cmd tr ctx) = 4 + (if ctx \<noteq> 0 then 72 else 64)"
| "item_size (Return_part cmd n) = n"

definition total_size :: "binder_return list \<Rightarrow> nat" where
  "total_size items = sum_list (map item_size items)"

lemma total_size_simps [simp]: "total_size [] = 0" "total_size (x # xs) = item_size x + total_size xs" "total_size (xs @ ys) = total_size xs + total_size ys"
  by (simp_all add: total_size_def)

text \<open>A step that writes at most \<open>n\<close> bytes, directly behind what is there.\<close>

definition grown :: "nat \<Rightarrow> u64 \<Rightarrow> binder_return list \<Rightarrow> u64 \<Rightarrow> binder_return list \<Rightarrow> bool" where
  "grown n ptr out ptr' out' \<longleftrightarrow> (\<exists>items. out' = out @ items \<and> total_size items \<le> n \<and> ptr' = ptr + word_of_nat (total_size items))"

fun step_grown :: "nat \<Rightarrow> u64 \<Rightarrow> binder_return list \<Rightarrow> read_step \<Rightarrow> bool" where
  "step_grown n ptr out (Continue ptr' out') = grown n ptr out ptr' out'"
| "step_grown n ptr out (Finish ptr' out') = grown n ptr out ptr' out'"
| "step_grown n ptr out (Return e out') = (\<exists>items. out' = out @ items \<and> total_size items \<le> n)"

lemma return_same [simp]: "\<exists>items. out = out @ items \<and> total_size items \<le> n"
  by (rule exI [of _ "[]"]) simp

lemma return_item: "item_size x \<le> n \<Longrightarrow> \<exists>items. out @ [x] = out @ items \<and> total_size items \<le> n"
  by (rule exI [of _ "[x]"]) simp

lemma grown_return: "grown m ptr out p o' \<Longrightarrow> step_grown n p o' (Return e out') \<Longrightarrow> step_grown (m + n) ptr out (Return e out')"
proof -
  assume "grown m ptr out p o'" "step_grown n p o' (Return e out')"
  then obtain xs ys where "o' = out @ xs" "total_size xs \<le> m" "out' = o' @ ys" "total_size ys \<le> n" by (auto simp: grown_def)
  then show ?thesis by (auto intro!: exI [of _ "xs @ ys"])
qed

lemma grown_same [simp]: "grown n ptr out ptr out"
  by (simp add: grown_def exI [of _ "[]"])

lemma grown_item: "item_size x \<le> n \<Longrightarrow> ptr' = ptr + word_of_nat (item_size x) \<Longrightarrow> grown n ptr out ptr' (out @ [x])"
  unfolding grown_def by (rule exI [of _ "[x]"]) simp

lemma grown_trans:
  assumes "grown m ptr out p o'" "grown n p o' ptr' out'"
  shows "grown (m + n) ptr out ptr' out'"
proof -
  obtain xs ys where "o' = out @ xs" "total_size xs \<le> m" "p = ptr + word_of_nat (total_size xs)"
      "out' = o' @ ys" "total_size ys \<le> n" "ptr' = p + word_of_nat (total_size ys)"
    using assms by (auto simp: grown_def)
  then show ?thesis unfolding grown_def by (intro exI [of _ "xs @ ys"]) (simp add: add.assoc)
qed

lemma grown_mono: "grown m ptr out ptr' out' \<Longrightarrow> m \<le> n \<Longrightarrow> grown n ptr out ptr' out'"
  by (auto simp: grown_def)

section \<open>One work item\<close>

lemma put_node_cmds_grown: "step_grown (20 * length cmds) ptr out (put_node_cmds R cmds np cookie ptr out)"
proof (induction cmds arbitrary: ptr out)
  case (Cons c cmds)
  show ?case
  proof (cases "put_ok R ptr \<and> put_ok R (ptr + 4) \<and> put_ok R (ptr + 12)")
    case True
    let ?r = "put_node_cmds R cmds np cookie (ptr + 20) (out @ [Return_node c np cookie])"
    have a: "grown 20 ptr out (ptr + 20) (out @ [Return_node c np cookie])" by (rule grown_item) simp_all
    show ?thesis
      using Cons [of "ptr + 20" "out @ [Return_node c np cookie]"] grown_trans [OF a] grown_return [OF a] True
      by (cases ?r) (auto simp: binder_put_node_cmd_def simp del: step_grown.simps(3))
  qed (auto simp: binder_put_node_cmd_def intro!: return_item)
qed simp

lemma read_node_grown: "read_node R env p n ptr out s = Some (r, s') \<Longrightarrow> step_grown 76 ptr out r"
proof -
  assume a: "read_node R env p n ptr out s = Some (r, s')"
  have "length (node_cmds a b c d) \<le> 2" for a b c d by (simp add: node_cmds_def)
  moreover have "node_proc (bnode s n) = Some p" using a by (cases "node_proc (bnode s n) = Some p") (simp_all add: read_node_def Let_def)
  with a have "\<exists>u v w x np cookie. r = put_node_cmds R (node_cmds u v w x) np cookie ptr out"
    by (simp only: read_node_def Let_def option.inject prod.inject if_False simp_thms) blast
  ultimately obtain cmds np cookie where r: "r = put_node_cmds R cmds np cookie ptr out" and "length cmds \<le> 2" by blast
  then show ?thesis
    using put_node_cmds_grown [of cmds ptr out R np cookie] unfolding r [symmetric] by (cases r) (auto elim: grown_mono)
qed

lemma read_death_grown: "read_death R p d ptr out s = Some (r, s') \<Longrightarrow> step_grown 76 ptr out r"
  by (auto simp: read_death_def Let_def bind_eq_Some_conv intro!: grown_item return_item split: if_splits)

lemma read_error_grown: "read_error R w ptr out s = Some (r, s') \<Longrightarrow> step_grown 76 ptr out r"
  by (auto simp: read_error_def bind_eq_Some_conv intro!: grown_item return_item split: if_splits)

lemma read_complete_grown: "step_grown 76 ptr out (fst (read_complete R w ptr out s))"
  by (auto simp: read_complete_def intro!: grown_item)

text \<open>Every result of a step writes at most 76 bytes.\<close>

definition fits :: "u64 \<Rightarrow> binder_return list \<Rightarrow> (read_step \<times> driver) option \<Rightarrow> bool" where
  "fits ptr out m \<longleftrightarrow> (\<forall>r s'. m = Some (r, s') \<longrightarrow> step_grown 76 ptr out r)"

lemma fits_rules:
  "step_grown 76 ptr out r \<Longrightarrow> fits ptr out (Some (r, s))"
  "(\<And>x. fits ptr out (f x)) \<Longrightarrow> fits ptr out (m \<bind> f)"
  "(c \<Longrightarrow> fits ptr out a) \<Longrightarrow> (\<not> c \<Longrightarrow> fits ptr out b) \<Longrightarrow> fits ptr out (if c then a else b)"
  by (auto simp: fits_def bind_eq_Some_conv)

lemma read_transaction_fits: "fits ptr out (read_transaction fuel R env T p th t ptr out s)"
proof -
  have f: "fits ptr out (read_fixups_failed fuel R env T p t b frm is_reply ptr out s1)" for b frm is_reply s1
    unfolding read_fixups_failed_def by (intro fits_rules) (auto intro!: grown_item)
  have g: "step_grown 76 ptr out (Finish (ptr + 4 + (if ctx \<noteq> 0 then 72 else 64)) (out @ [Return_txn cmd tr ctx]))" for cmd tr ctx
    unfolding step_grown.simps by (rule grown_item) simp_all
  show ?thesis
    unfolding read_transaction_def Let_def split_def by (intro fits_rules f g) (auto intro!: return_item)
qed

lemma read_transaction_grown: "read_transaction fuel R env T p th t ptr out s = Some (r, s') \<Longrightarrow> step_grown 76 ptr out r"
  using read_transaction_fits by (force simp: fits_def)

lemma read_work_grown: "read_work fuel R p th w ptr out s = Some (r, s') \<Longrightarrow> step_grown 76 ptr out r"
  using read_transaction_grown read_error_grown read_node_grown read_death_grown read_complete_grown [of ptr out R w s]
  unfolding read_work_def Let_def split_def
  by (cases "work_type s w"; cases w; force)


section \<open>The loop\<close>

definition inside :: "u64 \<Rightarrow> u64 \<Rightarrow> binder_return list \<Rightarrow> u64 \<Rightarrow> binder_return list \<Rightarrow> bool" where
  "inside end' ptr out ptr' out' \<longleftrightarrow> (\<exists>items. out' = out @ items \<and> unat ptr' = unat ptr + total_size items \<and> unat ptr' \<le> unat end')"

fun step_inside :: "u64 \<Rightarrow> u64 \<Rightarrow> binder_return list \<Rightarrow> read_step \<Rightarrow> bool" where
  "step_inside end' ptr out (Continue ptr' out') = inside end' ptr out ptr' out'"
| "step_inside end' ptr out (Finish ptr' out') = inside end' ptr out ptr' out'"
| "step_inside end' ptr out (Return e out') = (\<exists>items. out' = out @ items \<and> unat ptr + total_size items \<le> unat end')"

lemma return_inside: "step_grown n ptr out (Return e out') \<Longrightarrow> unat ptr + n \<le> unat end' \<Longrightarrow> step_inside end' ptr out (Return e out')"
  by fastforce

lemma grown_inside:
  assumes "grown n ptr out ptr' out'" "unat ptr + n \<le> unat end'"
  shows "inside end' ptr out ptr' out'"
proof -
  obtain items where i: "out' = out @ items" "total_size items \<le> n" "ptr' = ptr + word_of_nat (total_size items)"
    using assms(1) by (auto simp: grown_def)
  have "unat ptr + total_size items < 2 ^ 64" using i(2) assms(2) unat_lt(2) [of end'] by simp
  then have "unat ptr' = unat ptr + total_size items"
    unfolding i(3) by (simp add: unat_word_ariths unsigned_of_nat take_bit_eq_mod)
  then show ?thesis unfolding inside_def using i assms(2) by auto
qed

lemma inside_trans: "inside end' ptr out p o' \<Longrightarrow> step_inside end' p o' r \<Longrightarrow> step_inside end' ptr out r"
  by (cases r) (auto simp: inside_def add.assoc)

lemma room_76: "ptr \<le> end' \<Longrightarrow> \<not> end' - ptr < 76 \<Longrightarrow> unat ptr + 76 \<le> unat (end' :: u64)"
  by (simp add: word_less_nat_alt word_le_nat_alt unat_sub)

lemma read_loop_inside:
  assumes "read_loop fuel R p th buffer end' retry w ptr out s = Some y" "ptr \<le> end'"
  shows "step_inside end' ptr out (fst y)"
proof -
  have "ptr \<le> end' \<longrightarrow> step_inside end' ptr out (fst y)"
    using assms(1)
  proof (rule read_loop.raw_induct [rotated, where P = "\<lambda>fuel R p th buffer end' retry w ptr out s y. ptr \<le> end' \<longrightarrow> step_inside end' ptr out (fst y)"], goal_cases)
    case (1 f fuel R p th buffer end' retry w ptr out s y)
    show ?case
    proof
      assume le: "ptr \<le> end'"
      show "step_inside end' ptr out (fst y)"
      proof (cases retry)
        case True
        then obtain e v s2 where y: "(case e of Some x \<Rightarrow> Some (Return x out, upd_thread th (looper_update (\<lambda>l. l AND NOT BINDER_LOOPER_STATE_WAITING)) s2)
            | None \<Rightarrow> f fuel R p th buffer end' False v ptr out
                (upd_thread th (looper_update (\<lambda>l. l AND NOT BINDER_LOOPER_STATE_WAITING)) s2)) = Some y"
          using 1(2) by (auto simp: Let_def bind_eq_Some_conv simp del: not_None_eq)
        then show ?thesis using 1(1) le by (cases e) (auto simp: word_le_nat_alt intro!: exI [of _ "[]"])
      next
        case False
        show ?thesis
        proof (cases "pick_list p th w s")
          case None
          then show ?thesis using 1(2) 1(1) le False by (auto simp: inside_def word_le_nat_alt split: if_splits)
        next
          case (Some l)
          show ?thesis
          proof (cases "end' - ptr < 76")
            case True
            then show ?thesis using 1(2) False Some le by (auto simp: inside_def word_le_nat_alt)
          next
            case room: False
            obtain wk s1 where d: "binder_dequeue_work_head_ilocked l s = (wk, s1)" by fastforce
            obtain wi where wi: "wk = Some wi" using 1(2) False Some room d by (cases wk) simp_all
            define s2 where "s2 = (if binder_worklist_empty_ilocked s1 (Thread_todo th)
              then upd_thread th (process_todo_update (\<lambda>_. False)) s1 else s1)"
            obtain r s3 where rw: "read_work fuel R p th wi ptr out s2 = Some (r, s3)"
                and rest: "(case r of Continue ptr' out' \<Rightarrow> f fuel R p th buffer end' False w ptr' out' s3
                    | Finish ptr' out' \<Rightarrow> Some (Finish ptr' out', s3) | Return e out' \<Rightarrow> Some (Return e out', s3)) = Some y"
              using 1(2) False Some room d wi unfolding s2_def by (auto simp: bind_eq_Some_conv)
            have "step_inside end' ptr out r"
              using read_work_grown [OF rw] grown_inside [OF _ room_76 [OF le room]] return_inside [OF _ room_76 [OF le room]]
              by (cases r) auto
            then show ?thesis
            proof (cases r)
              case (Continue ptr' out')
              then have i: "inside end' ptr out ptr' out'" using \<open>step_inside end' ptr out r\<close> by simp
              then have "ptr' \<le> end'" by (auto simp: inside_def word_le_nat_alt)
              then have "step_inside end' ptr' out' (fst y)" using rest 1(1) Continue by simp
              then show ?thesis using inside_trans [OF i] by simp
            qed (use rest in auto)
          qed
        qed
      qed
    qed
  qed
  then show ?thesis using assms(2) by simp
qed


text \<open>
  C38. The read buffer. When the buffer of a read has room for at least one code, does not wrap
  around the address space and was not filled beyond its end before, then whatever work is delivered
  and whichever write fails, all bytes are written inside the buffer, back to back from the old read position
  on. A read without error reports the old position plus the sizes of the items. A read that returns an error
  reports the old position, although items may be in the buffer by then, unless the error is that of the
  request for a new thread, which comes last. A fresh read starts with \<^verbatim>\<open>BR_NOOP\<close>, so that this request,
  which is put over the first code, destroys nothing.
\<close>

theorem thread_read_in_buffer:
  assumes "binder_thread_read fuel R p th buffer sz consumed s = Some (e, consumed', out, spawn, s')"
    and "unat buffer + unat sz < 2 ^ 64" "4 \<le> sz" "consumed \<le> sz"
  shows "unat consumed + total_size out \<le> unat sz \<and> consumed' \<le> sz \<and>
    (unat consumed' = unat consumed + total_size out \<or> e \<noteq> None \<and> consumed' = consumed) \<and>
    (consumed = 0 \<and> spawn \<longrightarrow> (\<exists>rest. out = Return_code BR_NOOP # rest))"
proof -
  let ?ptr = "if consumed = 0 then buffer + 4 else buffer + consumed"
  let ?out = "if consumed = 0 then [Return_code BR_NOOP] else []"
  have end': "unat (buffer + sz) = unat buffer + unat sz" using assms(2) by (simp add: unat_word_ariths)
  have c: "unat consumed \<le> unat sz" "4 \<le> unat sz" using assms(3,4) by (simp_all add: word_le_nat_alt)
  have ptr: "unat ?ptr = unat buffer + unat consumed + total_size ?out"
    using assms(2) c by (simp add: unat_word_ariths)
  have le: "?ptr \<le> buffer + sz" using ptr c by (simp add: word_le_nat_alt end')
  show ?thesis
  proof (cases "consumed = 0 \<and> \<not> put_ok R (buffer + consumed)")
    case True
    then show ?thesis using assms(1,4) by (auto simp: binder_thread_read_def Let_def)
  next
    case False
    obtain r s1 where loop: "read_loop fuel R p th buffer (buffer + sz) True False ?ptr ?out s = Some (r, s1)"
        and rest: "(case r of
          Finish ptr' out \<Rightarrow>
            if wants_looper p th s1
            then let s' = upd_proc p (requested_threads_update (\<lambda>c. c + 1)) s1
                 in Some (if put_ok R buffer then (None, ptr' - buffer, out, True, s') else (Some EFAULT, ptr' - buffer, out, False, s'))
            else Some (None, ptr' - buffer, out, False, s1)
        | Return e out \<Rightarrow> Some (Some e, consumed, out, False, s1)
        | Continue ptr' out \<Rightarrow> None) = Some (e, consumed', out, spawn, s')"
      using assms(1) False by (auto simp: binder_thread_read_def Let_def bind_eq_Some_conv split del: if_split split: if_split_asm)
    have i: "step_inside (buffer + sz) ?ptr ?out r" using read_loop_inside [OF loop le] by simp
    show ?thesis
    proof (cases r)
      case (Finish ptr' out')
      obtain items where o': "out' = ?out @ items" and p': "unat ptr' = unat ?ptr + total_size items" "unat ptr' \<le> unat buffer + unat sz"
        using i unfolding Finish step_inside.simps inside_def end' by blast
      have res: "consumed' = ptr' - buffer" "out = out'"
        using rest Finish by (auto simp: Let_def split: if_splits)
      have "buffer \<le> ptr'" using p'(1) unfolding ptr by (simp add: word_le_nat_alt)
      then have "unat consumed' = unat ptr' - unat buffer" by (simp add: res unat_sub word_le_nat_alt)
      then have "unat consumed' = unat consumed + total_size out" using p'(1) o' res unfolding ptr by simp
      moreover have "consumed' \<le> sz" using \<open>unat consumed' = unat ptr' - unat buffer\<close> p'(2) by (simp add: word_le_nat_alt)
      ultimately show ?thesis using o' res by (auto simp: word_le_nat_alt)
    next
      case (Return e' out')
      then obtain items where o': "out' = ?out @ items" and le': "unat ?ptr + total_size items \<le> unat (buffer + sz)" using i by auto
      have "unat consumed + total_size out' \<le> unat sz" using le' unfolding ptr end' o' by simp
      then show ?thesis using rest Return assms(4) by auto
    qed (use rest in auto)
  qed
qed

section \<open>A concrete read\<close>

text \<open>Thread 3 has a failed transaction to report; its buffer holds 100 bytes.\<close>

definition sample_reader :: read_env where
  "sample_reader = \<lparr>put_ok = (\<lambda>_. True), copy_tr_ok = (\<lambda>_. True), while_at = (\<lambda>_. (sample_env, sample_task)), non_block = True,
     sched = (\<lambda>s. (True, s))\<rparr>"

definition sample_read_driver :: driver where
  "sample_read_driver = sample_driver
     \<lparr>bthread := (bthread sample_driver)(3 := (fresh_thread 2 33)\<lparr>return_error_cmd := BR_FAILED_REPLY, process_todo := True\<rparr>),
      todo := (\<lambda>_. [])(Thread_todo 3 := [Return_error_work 3]), work_on := (\<lambda>_. None)(Return_error_work 3 := Some (Thread_todo 3)),
      work_type := (\<lambda>_. BINDER_WORK_RETURN_ERROR)\<rparr>"

lemmas sample_read_defs = sample_read_driver_def sample_driver_defs sample_reader_def fresh_thread_def

lemmas read_eval = binder_available_for_proc_work_ilocked_def binder_worklist_empty_ilocked_def binder_has_work_def
  binder_has_work_ilocked_def pick_list_def binder_dequeue_work_head_ilocked_def binder_dequeue_work_ilocked_def upd_thread_def
  read_work_def read_error_def set_error_cmd_def binder_warn_on_def

lemma failed_is_not_ok [simp]: "BR_FAILED_REPLY \<noteq> BR_OK"
  by (simp add: BR_FAILED_REPLY_def BR_OK_def)

lemma sample_read_loop:
  assumes "\<not> end' - 1004 < 76"
  shows "\<exists>s'. read_loop 0 sample_reader 2 3 1000 end' True False 1004 [Return_code BR_NOOP] sample_read_driver =
     Some (Finish 1008 [Return_code BR_NOOP, Return_code BR_FAILED_REPLY], s')"
proof -
  note eval = read_eval sample_read_defs Let_def assms
  show ?thesis
    by (subst read_loop.simps, simp add: eval, subst read_loop.simps, simp add: eval, subst read_loop.simps, simp add: eval)
qed

theorem thread_read_in_buffer_witness:
  "\<exists>c' spawn s'. binder_thread_read 0 sample_reader 2 3 1000 100 0 sample_read_driver =
     Some (None, c', [Return_code BR_NOOP, Return_code BR_FAILED_REPLY], spawn, s') \<and> unat c' = 8"
proof -
  have "\<exists>c' spawn s'. binder_thread_read 0 sample_reader 2 3 1000 100 0 sample_read_driver =
      Some (None, c', [Return_code BR_NOOP, Return_code BR_FAILED_REPLY], spawn, s')"
    using sample_read_loop [of 1100] by (auto simp: binder_thread_read_def Let_def) (auto simp: sample_reader_def)
  then obtain c' spawn s' where r: "binder_thread_read 0 sample_reader 2 3 1000 100 0 sample_read_driver =
      Some (None, c', [Return_code BR_NOOP, Return_code BR_FAILED_REPLY], spawn, s')" by blast
  from thread_read_in_buffer [OF this] show ?thesis using r by simp
qed

text \<open>
  The condition on the size is needed: in a buffer of two bytes \<^verbatim>\<open>BR_NOOP\<close> already lies beyond the end,
  \<^verbatim>\<open>end - ptr\<close> is then a huge unsigned number, and the driver writes eight bytes.
\<close>

lemma short_buffer_overrun:
  "\<exists>e spawn s'. binder_thread_read 0 sample_reader 2 3 1000 2 0 sample_read_driver =
     Some (e, 8, [Return_code BR_NOOP, Return_code BR_FAILED_REPLY], spawn, s')"
  using sample_read_loop [of 1002] by (auto simp: binder_thread_read_def Let_def) (auto simp: sample_reader_def)

end
