(* ===== verification/Binder_Death.thy ===== *)
theory Binder_Death
  imports Binder_Read_Props
begin

text \<open>
  Death notifications as a protocol: the states a notification goes through between the request and
  the last message, and that every handler of the driver that moves a notification makes exactly the
  step the protocol allows and writes exactly the message that belongs to it.
\<close>

section \<open>The protocol\<close>

text \<open>
  \<open>Armed\<close>: allocated (just requested, or reported and acknowledged) and on no list. \<open>Pending\<close>: queued for
  the process, \<open>Reported\<close>: delivered and not yet acknowledged; the flag tells that user space has asked to
  clear it meanwhile. \<open>Clearing\<close>: the confirmation of the clear is queued. \<open>Gone\<close>: the structure is freed.
\<close>

datatype death_state = Armed | Pending bool | Reported bool | Clearing | Gone

text \<open>
  What happens to a notification: user space requests it (the flag: the node is dead already) or is
  refused; the node dies; user space clears it; it is read out (the flags: user memory took the code,
  and the cookie); user space acknowledges it; the reference it belongs to is dropped; or the list it is
  on is thrown away with its thread or process.
\<close>

datatype death_event =
    Requested bool u64 | Refused | Node_died | Cleared | Read_out bool bool | Acknowledged | Ref_dropped | Discarded

fun death_next :: "death_event \<Rightarrow> death_state \<Rightarrow> death_state option" where
  "death_next (Requested dead c) Armed = Some (if dead then Pending False else Armed)"
| "death_next Refused Armed = Some Gone"
| "death_next Node_died Armed = Some (Pending False)"
| "death_next Cleared Armed = Some Clearing"
| "death_next Cleared (Pending False) = Some (Pending True)"
| "death_next Cleared (Reported False) = Some (Reported True)"
| "death_next (Read_out a b) (Pending c) = Some (Reported c)"
| "death_next (Read_out a b) Clearing = Some Gone"
| "death_next Acknowledged (Reported False) = Some Armed"
| "death_next Acknowledged (Reported True) = Some Clearing"
| "death_next Ref_dropped Gone = None"
| "death_next Ref_dropped _ = Some Gone"
| "death_next Discarded (Pending c) = Some (if c then Gone else Armed)"
| "death_next Discarded (Reported c) = Some (if c then Gone else Armed)"
| "death_next Discarded Clearing = Some Gone"
| "death_next _ _ = None"

fun death_message :: "death_state \<Rightarrow> u32" where
  "death_message Clearing = BR_CLEAR_DEATH_NOTIFICATION_DONE"
| "death_message _ = BR_DEAD_BINDER"

text \<open>What the reader finds in its buffer after an event, and the cookie the notification carries.\<close>

fun death_output :: "death_event \<Rightarrow> death_state \<Rightarrow> u64 \<Rightarrow> binder_return list" where
  "death_output (Read_out a b) st c =
     (if \<not> a then [] else if \<not> b then [Return_part (death_message st) 4] else [Return_death (death_message st) c])"
| "death_output _ st c = []"

fun next_cookie :: "death_event \<Rightarrow> u64 \<Rightarrow> u64" where
  "next_cookie (Requested dead c) old = c"
| "next_cookie _ old = old"

section \<open>What the driver's state says of one notification\<close>

text \<open>The list it is on, the type of its work item, whether it was freed, and its cookie.\<close>

type_synonym death_view = "worklist option \<times> binder_work_type \<times> bool \<times> u64"

definition dview :: "driver \<Rightarrow> nat \<Rightarrow> death_view" where
  "dview s d = (work_on s (Death_work d), work_type s (Death_work d), Death_work d \<in> set (freed_work s), death_cookie s d)"

fun view_state :: "death_view \<Rightarrow> death_state" where
  "view_state (l, ty, freed, c) =
     (if freed then Gone
      else case l of
             None \<Rightarrow> Armed
           | Some l \<Rightarrow>
               if ty = BINDER_WORK_CLEAR_DEATH_NOTIFICATION then Clearing
               else (case l of
                       Delivered_death p \<Rightarrow> Reported (ty = BINDER_WORK_DEAD_BINDER_AND_CLEAR)
                     | _ \<Rightarrow> Pending (ty = BINDER_WORK_DEAD_BINDER_AND_CLEAR)))"

fun view_ok :: "death_view \<Rightarrow> bool" where
  "view_ok (l, ty, freed, c) \<longleftrightarrow> \<not> freed \<and>
     (case l of
        None \<Rightarrow> True
      | Some (Delivered_death p) \<Rightarrow> ty \<in> {BINDER_WORK_DEAD_BINDER, BINDER_WORK_DEAD_BINDER_AND_CLEAR}
      | Some _ \<Rightarrow> ty \<in> {BINDER_WORK_DEAD_BINDER, BINDER_WORK_DEAD_BINDER_AND_CLEAR, BINDER_WORK_CLEAR_DEATH_NOTIFICATION})"

definition death_state :: "driver \<Rightarrow> nat \<Rightarrow> death_state" where
  "death_state s d = view_state (dview s d)"

text \<open>The notification is allocated, on at most one list, and its type fits the list.\<close>

definition death_wf :: "driver \<Rightarrow> nat \<Rightarrow> bool" where
  "death_wf s d \<longleftrightarrow> work_wf s \<and> view_ok (dview s d)"

section \<open>What the helpers leave alone\<close>

text \<open>Two states that agree on the work items.\<close>

definition works :: "driver \<Rightarrow> (work_id \<Rightarrow> worklist option) \<times> (worklist \<Rightarrow> work_id list) \<times>
    (work_id \<Rightarrow> binder_work_type) \<times> work_id list \<times> (nat \<Rightarrow> u64)" where
  "works s = (work_on s, todo s, work_type s, freed_work s, death_cookie s)"

lemma works_eqD:
  assumes "works s = works s'"
  shows "work_wf s = work_wf s'" "dview s d = dview s' d"
  using assms by (simp_all add: works_def work_wf_def dview_def)

lemma works_step [simp]:
  "works (upd_ref r f s) = works s" "works (upd_thread t g s) = works s" "works (upd_node n h s) = works s"
  "works (upd_proc p k s) = works s" "works (binder_warn_on c s) = works s"
  "works (binder_stats_created ty s) = works s" "works (binder_stats_deleted ty s) = works s"
  "works (binder_free_node n s) = works s" "works (s\<lparr>binder_dead_nodes := ns\<rparr>) = works s" "works (s\<lparr>freed_refs := rs\<rparr>) = works s"
  by (simp_all add: works_def upd_ref_def upd_thread_def upd_node_def upd_proc_def binder_warn_on_def binder_stats_created_def
      binder_stats_deleted_def binder_free_node_def)

lemma works_foldl: "(\<And>s x. works (f s x) = works s) \<Longrightarrow> works (foldl f s xs) = works s"
  by (induction xs arbitrary: s) simp_all

lemma works_wakeup [simp]: "works (binder_wakeup_proc_ilocked p s) = works s"
proof -
  have "works (binder_wakeup_poll_threads_ilocked p sync s) = works s" for sync s
    unfolding binder_wakeup_poll_threads_ilocked_def by (rule works_foldl) (simp add: works_def wake_up_interruptible_def)
  then show ?thesis
    by (simp add: binder_wakeup_proc_ilocked_def binder_select_thread_ilocked_def binder_wakeup_thread_ilocked_def works_def upd_proc_def
        wake_up_interruptible_def split: list.split)
qed

lemma view_frame [simp]:
  "dview (upd_ref r f s) d = dview s d" "dview (upd_thread t g s) d = dview s d" "dview (upd_node n h s) d = dview s d"
  "dview (upd_proc p k s) d = dview s d" "dview (binder_warn_on c s) d = dview s d"
  "dview (binder_stats_created ty s) d = dview s d" "dview (binder_stats_deleted ty s) d = dview s d"
  "dview (binder_free_node n s) d = dview s d" "dview (s\<lparr>binder_dead_nodes := ns\<rparr>) d = dview s d"
  "dview (s\<lparr>freed_refs := rs\<rparr>) d = dview s d" "dview (binder_wakeup_proc_ilocked p s) d = dview s d"
  by (rule works_eqD, simp)+

lemma work_wf_frame [simp]:
  "work_wf (upd_ref r f s) = work_wf s" "work_wf (upd_thread t g s) = work_wf s" "work_wf (upd_node n h s) = work_wf s"
  "work_wf (upd_proc p k s) = work_wf s" "work_wf (binder_warn_on c s) = work_wf s"
  "work_wf (binder_stats_created ty s) = work_wf s" "work_wf (binder_stats_deleted ty s) = work_wf s"
  "work_wf (binder_free_node n s) = work_wf s" "work_wf (s\<lparr>binder_dead_nodes := ns\<rparr>) = work_wf s"
  "work_wf (s\<lparr>freed_refs := rs\<rparr>) = work_wf s" "work_wf (binder_wakeup_proc_ilocked p s) = work_wf s"
  by (rule works_eqD, simp)+

lemma work_wf_other [simp]:
  "work_wf (s\<lparr>work_type := ty\<rparr>) = work_wf s" "work_wf (s\<lparr>freed_work := ws\<rparr>) = work_wf s" "work_wf (s\<lparr>death_cookie := cs\<rparr>) = work_wf s"
  by (simp_all add: work_wf_def)

lemma view_changes:
  assumes "dview s d = (l, ty, freed, c)"
  shows "dview (s\<lparr>work_type := (work_type s)(Death_work d := ty')\<rparr>) d = (l, ty', freed, c)"
    "dview (s\<lparr>freed_work := Death_work d # freed_work s\<rparr>) d = (l, ty, True, c)"
  using assms by (simp_all add: dview_def)

text \<open>Queueing and unlinking a work item.\<close>

lemma enqueue_view:
  assumes "binder_enqueue_work_ilocked w k s = Some s'" "dview s d = (l, ty, freed, c)"
  shows "work_wf s \<Longrightarrow> work_wf s'" "w = Death_work d \<Longrightarrow> l = None \<and> dview s' d = (Some k, ty, freed, c)"
    "w \<noteq> Death_work d \<Longrightarrow> dview s' d = (l, ty, freed, c)"
proof -
  have free: "work_on s w = None" using assms(1) by (simp add: binder_enqueue_work_ilocked_def bug_on_def split: if_splits)
  show "work_wf s \<Longrightarrow> work_wf s'" using enqueue_work_wf(1) [OF _ free assms(1)] by simp
  show "w = Death_work d \<Longrightarrow> l = None \<and> dview s' d = (Some k, ty, freed, c)"
    "w \<noteq> Death_work d \<Longrightarrow> dview s' d = (l, ty, freed, c)"
    using assms enqueue_work_eq [OF free, of k] free by (auto simp: dview_def)
qed

lemma dequeue_view:
  assumes "dview s d = (l, ty, freed, c)"
  shows "dview (binder_dequeue_work_ilocked w s) d = (if w = Death_work d then None else l, ty, freed, c)"
  using assms by (auto simp: dview_def binder_dequeue_work_ilocked_def split: option.split)

lemma head_view:
  assumes "work_wf s" "binder_dequeue_work_head_ilocked k s = (Some (Death_work d), s1)" "dview s d = (l, ty, freed, c)"
  shows "l = Some k" "work_wf s1" "dview s1 d = (None, ty, freed, c)"
proof -
  have eq: "s1 = binder_dequeue_work_ilocked (Death_work d) s" "Death_work d \<in> set (todo s k)"
    using assms(2) by (auto simp: binder_dequeue_work_head_ilocked_def split: list.splits)
  show "l = Some k" using work_wfD(1) [OF assms(1)] eq(2) assms(3) by (simp add: dview_def)
  show "work_wf s1" "dview s1 d = (None, ty, freed, c)"
    using dequeue_work_wf(1) [OF assms(1)] dequeue_view [OF assms(3), of "Death_work d"] eq(1) by simp_all
qed

lemma own_work_view:
  assumes "enqueue_own_work p th (Death_work d) s = Some s'" "dview s d = (l, ty, freed, c)" "work_wf s"
  obtains k where "k = Thread_todo th \<or> k = Proc_todo p" "l = None" "dview s' d = (Some k, ty, freed, c)" "work_wf s'"
proof -
  have "\<exists>c s1. binder_enqueue_work_ilocked (Death_work d) (Thread_todo th) (binder_warn_on c s) = Some s1 \<and> works s' = works s1 \<or>
      binder_enqueue_work_ilocked (Death_work d) (Proc_todo p) s = Some s1 \<and> works s' = works s1"
    using assms(1) works_step(2) works_wakeup
    by (fastforce simp: enqueue_own_work_def binder_enqueue_thread_work_ilocked_def bind_eq_Some_conv split: if_splits)
  then obtain k u s1 where "k = Thread_todo th \<or> k = Proc_todo p" and u: "works u = works s"
    and e: "binder_enqueue_work_ilocked (Death_work d) k u = Some s1" and s': "works s' = works s1"
    using works_step(5) by metis
  moreover have "dview u d = (l, ty, freed, c)" "work_wf u" using works_eqD [OF u] assms(2,3) by simp_all
  ultimately show ?thesis using that [of k] enqueue_view [OF e] works_eqD [OF s'] by simp
qed

lemma dec_node_view:
  assumes "binder_dec_node_nilocked env n st inl s = Some (b, s')" "work_wf s"
  shows "work_wf s'" "dview s' d = dview s d" "bref s' = bref s"
proof -
  let ?s = "dec_node_count n st inl s"
  have s: "works ?s = works s" by (simp add: dec_node_count_def)
  obtain l ty freed c where v: "dview ?s d = (l, ty, freed, c)" by (cases "dview ?s d")
  have "work_wf s' \<and> dview s' d = dview ?s d" if "dec_node_release env n ?s = Some (b, s')"
    using that enqueue_view [of "Node_work n" _ ?s _ d, OF _ v] dequeue_view [OF v, of "Node_work n"]
      dequeue_work_wf(1) [of ?s "Node_work n"] works_eqD(1) [OF s] assms(2) v
    by (auto simp: dec_node_release_def Let_def bind_eq_Some_conv bug_on_def split: option.splits if_splits)
  then have "work_wf s' \<and> dview s' d = dview ?s d"
    using assms works_eqD(1) [OF s] by (auto simp: binder_dec_node_nilocked_def Let_def split: if_splits)
  then show "work_wf s'" "dview s' d = dview s d" using works_eqD(2) [OF s] by simp_all
  show "bref s' = bref s" using rview_eqD(1) [OF dec_node_rview(1) [OF assms(1)]] by (simp split: if_splits)
qed

section \<open>The handlers\<close>

lemma delivered_found:
  assumes "delivered_with_cookie p cookie s = Some d"
  shows "Death_work d \<in> set (todo s (Delivered_death p))"
proof -
  obtain w where w: "List.find (\<lambda>w. case w of Death_work d \<Rightarrow> death_cookie s d = cookie | _ \<Rightarrow> False) (todo s (Delivered_death p)) = Some w"
    using assms by (auto simp: delivered_with_cookie_def split: option.splits)
  then have "w = Death_work d" using assms by (cases w) (simp_all add: delivered_with_cookie_def)
  with w show ?thesis unfolding find_Some_iff by (metis nth_mem)
qed

text \<open>
  The handlers of one notification \<open>d\<close> of process \<open>p\<close>: what they are called on, the event they stand for
  and what they write to the reader. \<open>handled_dropped\<close> is the end of a reference, by its last count or by the
  release of its process; \<open>handled_discarded\<close> is one round of \<^verbatim>\<open>binder_release_work\<close> on the lists of a thread
  or process that goes.
\<close>

fun written :: "read_step \<Rightarrow> binder_return list" where
  "written (Continue ptr out) = out"
| "written (Finish ptr out) = out"
| "written (Return e out) = out"

inductive death_handled :: "nat \<Rightarrow> nat \<Rightarrow> death_event \<Rightarrow> binder_return list \<Rightarrow> driver \<Rightarrow> driver \<Rightarrow> bool" for p d where
  handled_requested: "kzalloc_death T = Some d \<Longrightarrow> binder_get_ref_olocked s p h False = Some r \<Longrightarrow> death (bref s r) = None \<Longrightarrow>
    ref_node (bref s r) = Some n \<Longrightarrow> cmd_request_death T p th h cookie s = Some s' \<Longrightarrow>
    death_handled p d (Requested (node_proc (bnode s n) = None) cookie) [] s s'"
| handled_refused: "kzalloc_death T = Some d \<Longrightarrow>
    (case binder_get_ref_olocked s p h False of None \<Rightarrow> True | Some r \<Rightarrow> death (bref s r) \<noteq> None) \<Longrightarrow>
    cmd_request_death T p th h cookie s = Some s' \<Longrightarrow> death_handled p d Refused [] s s'"
| handled_died: "death (bref s r) = Some d \<Longrightarrow> notify_deaths [r] s = Some s' \<Longrightarrow> death_handled p d Node_died [] s s'"
| handled_clear: "binder_get_ref_olocked s p h False = Some r \<Longrightarrow> death (bref s r) = Some d \<Longrightarrow>
    cmd_clear_death p th h (death_cookie s d) s = Some s' \<Longrightarrow> death_handled p d Cleared [] s s'"
| handled_done: "delivered_with_cookie p cookie s = Some d \<Longrightarrow> cmd_dead_binder_done p th cookie s = Some s' \<Longrightarrow>
    death_handled p d Acknowledged [] s s'"
| handled_read: "l = Thread_todo th \<or> l = Proc_todo p \<Longrightarrow> binder_dequeue_work_head_ilocked l s = (Some (Death_work d), s1) \<Longrightarrow>
    read_death R p d ptr [] s1 = Some (r, s') \<Longrightarrow>
    death_handled p d (Read_out (put_ok R ptr) (put_ok R (ptr + 4))) (written r) s s'"
| handled_dropped: "death (bref s r) = Some d \<Longrightarrow> binder_cleanup_ref_olocked env r s = Some s1 \<Longrightarrow>
    death_handled p d Ref_dropped [] s (binder_free_ref r s1)"
| handled_discarded: "l = Thread_todo th \<or> l = Proc_todo p \<or> l = Delivered_death p \<Longrightarrow>
    binder_dequeue_work_head_ilocked l s = (Some (Death_work d), s1) \<Longrightarrow> release_one_work fuel env (Death_work d) s1 = Some s' \<Longrightarrow>
    death_handled p d Discarded [] s s'"

text \<open>One step of the protocol on the views before and after.\<close>

definition view_step :: "death_event \<Rightarrow> death_view \<Rightarrow> death_view \<Rightarrow> bool" where
  "view_step ev v v' \<longleftrightarrow> death_next ev (view_state v) = Some (view_state v') \<and>
     snd (snd (snd v')) = next_cookie ev (snd (snd (snd v))) \<and>
     (if view_state v' = Gone then fst v' = None else view_ok v')"

lemma request_step:
  assumes "kzalloc_death T = Some d" "binder_get_ref_olocked s p h False = Some r" "death (bref s r) = None"
    "ref_node (bref s r) = Some n" "cmd_request_death T p th h cookie s = Some s'" "death_wf s d" "death_state s d = Armed"
  shows "work_wf s' \<and> view_step (Requested (node_proc (bnode s n) = None) cookie) (dview s d) (dview s' d)"
proof -
  let ?u = "binder_stats_created BINDER_STAT_DEATH s"
  let ?s = "upd_ref r (death_update (\<lambda>_. Some d)) (?u
      \<lparr>work_on := (work_on ?u)(Death_work d := None), death_cookie := (death_cookie ?u)(d := cookie)\<rparr>)"
  obtain ty c where v: "dview s d = (None, ty, False, c)" "work_wf s"
    using assms(6,7) by (cases "dview s d") (auto simp: death_wf_def death_state_def split: if_splits option.splits worklist.splits)
  have on: "work_on s (Death_work d) = None" using v(1) by (simp add: dview_def)
  have s2: "dview ?s d = (None, ty, False, cookie)" "work_wf ?s" "node_proc (bnode ?s n) = node_proc (bnode s n)"
    using v on by (simp_all add: dview_def work_wf_def fun_upd_idem upd_ref_def binder_stats_created_def)
  show ?thesis
  proof (cases "node_proc (bnode s n) = None")
    case True
    let ?t = "?s\<lparr>work_type := (work_type ?s)(Death_work d := BINDER_WORK_DEAD_BINDER)\<rparr>"
    obtain s1 where s1: "binder_enqueue_work_ilocked (Death_work d) (Proc_todo p) ?t = Some s1" "s' = binder_wakeup_proc_ilocked p s1"
      using assms(1-5) True s2(3) by (auto simp: cmd_request_death_def Let_def)
    show ?thesis
      using enqueue_view [OF s1(1) view_changes(1) [OF s2(1)]] s2(2) v(1) True s1(2) by (simp add: view_step_def)
  next
    case False
    then have "s' = ?s" using assms(1-5) s2(3) by (auto simp: cmd_request_death_def Let_def)
    then show ?thesis using s2 v(1) False by (simp add: view_step_def)
  qed
qed

lemma clear_step:
  assumes "binder_get_ref_olocked s p h False = Some r" "death (bref s r) = Some d"
    "cmd_clear_death p th h (death_cookie s d) s = Some s'" "death_wf s d"
  shows "work_wf s' \<and> view_step Cleared (dview s d) (dview s' d)"
proof -
  let ?s = "upd_ref r (death_update (\<lambda>_. None)) s"
  obtain l ty c where v: "dview s d = (l, ty, False, c)" "work_wf s" "view_ok (l, ty, False, c)"
    using assms(4) by (cases "dview s d") (simp add: death_wf_def)
  have on: "work_on ?s (Death_work d) = l" "work_type ?s (Death_work d) = ty" "dview ?s d = (l, ty, False, c)"
    using v(1) works_step(1) [of r "death_update (\<lambda>_. None)" s] by (simp_all add: dview_def works_def)
  show ?thesis
  proof (cases l)
    case None
    have e: "enqueue_own_work p th (Death_work d)
        (?s\<lparr>work_type := (work_type ?s)(Death_work d := BINDER_WORK_CLEAR_DEATH_NOTIFICATION)\<rparr>) = Some s'"
      using assms(1-3) None on by (simp add: cmd_clear_death_def Let_def)
    show ?thesis
      by (rule own_work_view [OF e view_changes(1) [OF on(3)]]) (use v None in \<open>auto simp: view_step_def\<close>)
  next
    case (Some k)
    then have "ty = BINDER_WORK_DEAD_BINDER"
        "s' = ?s\<lparr>work_type := (work_type ?s)(Death_work d := BINDER_WORK_DEAD_BINDER_AND_CLEAR)\<rparr>"
      using assms(1-3) on by (auto simp: cmd_clear_death_def Let_def bug_on_def split: if_splits)
    then show ?thesis
      using view_changes(1) [OF on(3), of BINDER_WORK_DEAD_BINDER_AND_CLEAR] v Some by (cases k) (simp_all add: view_step_def)
  qed
qed

lemma done_step:
  assumes "delivered_with_cookie p cookie s = Some d" "cmd_dead_binder_done p th cookie s = Some s'" "death_wf s d"
  shows "work_wf s' \<and> view_step Acknowledged (dview s d) (dview s' d)"
proof -
  let ?s = "binder_dequeue_work_ilocked (Death_work d) s"
  obtain l ty c where v: "dview s d = (l, ty, False, c)" "work_wf s" "view_ok (l, ty, False, c)"
    using assms(3) by (cases "dview s d") (simp add: death_wf_def)
  have l: "l = Some (Delivered_death p)" using delivered_found [OF assms(1)] work_wfD(1) [OF v(2)] v(1) by (simp add: dview_def)
  have s1: "dview ?s d = (None, ty, False, c)" "work_wf ?s" "work_type ?s (Death_work d) = ty"
    using dequeue_view [OF v(1), of "Death_work d"] dequeue_work_wf(1) [OF v(2)] by (simp_all add: dview_def)
  show ?thesis
  proof (cases "ty = BINDER_WORK_DEAD_BINDER_AND_CLEAR")
    case True
    then have e: "enqueue_own_work p th (Death_work d)
        (?s\<lparr>work_type := (work_type ?s)(Death_work d := BINDER_WORK_CLEAR_DEATH_NOTIFICATION)\<rparr>) = Some s'"
      using assms(1,2) s1(3) by (simp add: cmd_dead_binder_done_def Let_def)
    show ?thesis
      by (rule own_work_view [OF e view_changes(1) [OF s1(1)]]) (use v l s1 True in \<open>auto simp: view_step_def\<close>)
  next
    case False
    then have "s' = ?s" using assms(1,2) s1(3) by (simp add: cmd_dead_binder_done_def Let_def)
    then show ?thesis using False v l s1 by (simp add: view_step_def)
  qed
qed

lemma died_step:
  assumes "death (bref s r) = Some d" "notify_deaths [r] s = Some s'" "death_wf s d"
  shows "work_wf s' \<and> view_step Node_died (dview s d) (dview s' d)"
proof -
  let ?s = "s\<lparr>work_type := (work_type s)(Death_work d := BINDER_WORK_DEAD_BINDER)\<rparr>"
  obtain l ty c where v: "dview s d = (l, ty, False, c)" "work_wf s"
    using assms(3) by (cases "dview s d") (simp add: death_wf_def)
  obtain s1 where s1: "binder_enqueue_work_ilocked (Death_work d) (Proc_todo (ref_proc (bref s r))) ?s = Some s1"
      "s' = binder_wakeup_proc_ilocked (ref_proc (bref s1 r)) s1"
    using assms(1,2) by (auto simp: bind_eq_Some_conv bug_on_def split: if_splits)
  show ?thesis using enqueue_view [OF s1(1) view_changes(1) [OF v(1)]] v s1(2) by (simp add: view_step_def)
qed

lemma read_out_step:
  assumes "k = Thread_todo th \<or> k = Proc_todo p" "binder_dequeue_work_head_ilocked k s = (Some (Death_work d), s1)"
    "read_death R p d ptr [] s1 = Some (r, s')" "death_wf s d"
  defines "ev \<equiv> Read_out (put_ok R ptr) (put_ok R (ptr + 4))"
  shows "work_wf s' \<and> view_step ev (dview s d) (dview s' d) \<and>
    written r = death_output ev (death_state s d) (death_cookie s d)"
proof -
  obtain l ty c where v: "dview s d = (l, ty, False, c)" "work_wf s" "view_ok (l, ty, False, c)"
    using assms(4) by (cases "dview s d") (simp add: death_wf_def)
  note h = head_view [OF v(2) assms(2) v(1)]
  have t: "work_type s1 (Death_work d) = ty" "death_cookie s1 d = c" "death_cookie s d = c"
    using h(3) v(1) by (simp_all add: dview_def)
  have st: "death_state s d = (if ty = BINDER_WORK_CLEAR_DEATH_NOTIFICATION then Clearing else Pending (ty = BINDER_WORK_DEAD_BINDER_AND_CLEAR))"
    using assms(1) v(1) h(1) by (auto simp: death_state_def)
  have w: "written r = death_output ev (death_state s d) (death_cookie s d)"
    using assms(3) t by (auto simp: read_death_def Let_def ev_def st bind_eq_Some_conv split: if_splits)
  show ?thesis
  proof (cases "ty = BINDER_WORK_CLEAR_DEATH_NOTIFICATION")
    case True
    then have "s' = binder_stats_deleted BINDER_STAT_DEATH (s1\<lparr>freed_work := Death_work d # freed_work s1\<rparr>)"
      using assms(3) t(1) by (auto simp: read_death_def Let_def)
    then show ?thesis using view_changes(2) [OF h(3)] h v w st True by (simp add: view_step_def ev_def death_state_def)
  next
    case False
    then have "binder_enqueue_work_ilocked (Death_work d) (Delivered_death p) s1 = Some s'"
      using assms(3) t(1) by (auto simp: read_death_def Let_def bind_eq_Some_conv)
    from enqueue_view [OF this h(3)] show ?thesis
      using h v w st False assms(1) by (auto simp: view_step_def ev_def death_state_def)
  qed
qed

lemma cleanup_view:
  assumes "binder_cleanup_ref_olocked env r s = Some s'" "death (bref s r) = Some d" "work_wf s" "dview s d = (l, ty, freed, c)"
  shows "work_wf s'" "dview s' d = (None, ty, freed, c)" "death (bref s' r) = Some d"
proof -
  obtain n where n: "ref_node (bref s r) = Some n" using assms(1) by (auto simp: binder_cleanup_ref_olocked_def split: option.splits)
  define s1 where "s1 = upd_proc (ref_proc (bref s r))
      (\<lambda>pr. pr\<lparr>refs_by_desc := rb_erase env r (refs_by_desc pr), refs_by_node := rb_erase env r (refs_by_node pr)\<rparr>) s"
  obtain s2 b s4 where if2: "(if strong (ref_data (bref s1 r)) \<noteq> 0
      then map_option snd (binder_dec_node_nilocked env n True True s1) else Some s1) = Some s2"
    and s4: "binder_dec_node_nilocked env n False True (upd_node n (node_refs_update (remove1 r)) s2) = Some (b, s4)"
    and s': "s' = binder_stats_deleted BINDER_STAT_REF
      (case death (bref (if b then s4 else upd_ref r (ref_node_update (\<lambda>_. None)) s4) r) of
         None \<Rightarrow> if b then s4 else upd_ref r (ref_node_update (\<lambda>_. None)) s4
       | Some d \<Rightarrow> binder_stats_deleted BINDER_STAT_DEATH
           (binder_dequeue_work (Death_work d) (if b then s4 else upd_ref r (ref_node_update (\<lambda>_. None)) s4)))"
    using assms(1) unfolding binder_cleanup_ref_olocked_def n option.case s1_def
    by (clarsimp simp: bind_eq_Some_conv split del: if_split)
  have s2: "s2 = s1 \<or> (\<exists>b. binder_dec_node_nilocked env n True True s1 = Some (b, s2))" using if2 by (auto split: if_splits)
  have n: "works s1 = works s" "bref s1 = bref s" by (simp_all add: s1_def)
  have w1: "work_wf s1" "dview s1 d = (l, ty, freed, c)" using works_eqD [OF n(1)] assms(3,4) by simp_all
  then have w2: "work_wf s2" "dview s2 d = (l, ty, freed, c)" "bref s2 = bref s"
    using s2 n(2) dec_node_view(1,3) [of env n True True s1 _ s2] dec_node_view(2) [of env n True True s1 _ s2 d] by auto
  have w4: "work_wf s4" "dview s4 d = (l, ty, freed, c)" "bref s4 = bref s"
    using dec_node_view(1,3) [OF s4] dec_node_view(2) [OF s4, of d] w2 by simp_all
  let ?s5 = "if b then s4 else upd_ref r (ref_node_update (\<lambda>_. None)) s4"
  have w5: "work_wf ?s5" "dview ?s5 d = (l, ty, freed, c)" "death (bref ?s5 r) = Some d"
    using w4 assms(2) by simp_all
  have eq: "s' = binder_stats_deleted BINDER_STAT_REF (binder_stats_deleted BINDER_STAT_DEATH (binder_dequeue_work (Death_work d) ?s5))"
    using s' w5(3) by simp
  show "work_wf s'" "dview s' d = (None, ty, freed, c)"
    using eq dequeue_work_wf(1) [OF w5(1), of "Death_work d"] dequeue_view [OF w5(2), of "Death_work d"]
    by (simp_all add: binder_dequeue_work_def)
  have "bref (binder_dequeue_work (Death_work d) ?s5) = bref ?s5"
    by (simp add: binder_dequeue_work_def binder_dequeue_work_ilocked_def split: option.split)
  then show "death (bref s' r) = Some d" using eq w5(3) by (simp add: binder_stats_deleted_def)
qed

lemma dropped_step:
  assumes "death (bref s r) = Some d" "binder_cleanup_ref_olocked env r s = Some s1" "death_wf s d"
  shows "work_wf (binder_free_ref r s1) \<and> view_step Ref_dropped (dview s d) (dview (binder_free_ref r s1) d)"
proof -
  obtain l ty c where v: "dview s d = (l, ty, False, c)" "work_wf s" "view_ok (l, ty, False, c)"
    using assms(3) by (cases "dview s d") (simp add: death_wf_def)
  note cl = cleanup_view [OF assms(2,1) v(2,1)]
  let ?s = "case ref_node (bref s1 r) of None \<Rightarrow> s1 | Some n \<Rightarrow> binder_free_node n s1"
  have s: "dview ?s d = (None, ty, False, c)" "work_wf ?s" using cl by (simp_all split: option.split)
  have "view_state (l, ty, False, c) \<noteq> Gone" by (auto split: option.split worklist.split)
  then have "death_next Ref_dropped (view_state (l, ty, False, c)) = Some Gone" by (cases "view_state (l, ty, False, c)") simp_all
  then show ?thesis
    using view_changes(2) [OF s(1)] s(2) v(1) cl(3) by (simp add: binder_free_ref_def Let_def view_step_def del: view_state.simps) simp
qed

lemma discarded_step:
  assumes "k = Thread_todo th \<or> k = Proc_todo p \<or> k = Delivered_death p" "binder_dequeue_work_head_ilocked k s = (Some (Death_work d), s1)"
    "release_one_work fuel env (Death_work d) s1 = Some s'" "death_wf s d"
  shows "work_wf s' \<and> view_step Discarded (dview s d) (dview s' d)"
proof -
  obtain l ty c where v: "dview s d = (l, ty, False, c)" "work_wf s" "view_ok (l, ty, False, c)"
    using assms(4) by (cases "dview s d") (simp add: death_wf_def)
  note h = head_view [OF v(2) assms(2) v(1)]
  have t: "work_type s1 (Death_work d) = ty" using h(3) by (simp add: dview_def)
  have ty: "ty \<in> {BINDER_WORK_DEAD_BINDER, BINDER_WORK_DEAD_BINDER_AND_CLEAR, BINDER_WORK_CLEAR_DEATH_NOTIFICATION}"
    using v(3) h(1) assms(1) by auto
  have "s' = (if ty = BINDER_WORK_DEAD_BINDER then s1 else binder_stats_deleted BINDER_STAT_DEATH (s1\<lparr>freed_work := Death_work d # freed_work s1\<rparr>))"
    using assms(3) t ty by (auto simp: release_one_work_def)
  then show ?thesis using view_changes(2) [OF h(3)] h v assms(1) ty by (auto simp: view_step_def)
qed

lemma handled_step:
  assumes "death_handled p d ev msgs s s'" "death_wf s d" "(\<exists>dead c. ev = Requested dead c) \<or> ev = Refused \<Longrightarrow> death_state s d = Armed"
  shows "work_wf s' \<and> view_step ev (dview s d) (dview s' d) \<and> msgs = death_output ev (death_state s d) (death_cookie s d)"
  using assms(1)
proof cases
  case (handled_requested T h r n th cookie)
  then show ?thesis using request_step [OF handled_requested(3-7) assms(2)] assms(3) by simp
next
  case (handled_refused T h th cookie)
  then have s': "s' = s\<lparr>freed_work := Death_work d # freed_work s\<rparr>" by (auto simp: cmd_request_death_def split: option.splits)
  obtain ty c where v: "dview s d = (None, ty, False, c)" "work_wf s"
    using assms(2,3) handled_refused(1) by (cases "dview s d") (auto simp: death_wf_def death_state_def split: if_splits option.splits worklist.splits)
  show ?thesis using view_changes(2) [OF v(1)] v s' handled_refused(1,2) by (simp add: view_step_def)
next
  case (handled_died r)
  then show ?thesis using died_step [OF handled_died(3,4) assms(2)] by simp
next
  case (handled_clear h r th)
  then show ?thesis using clear_step [OF handled_clear(3-5) assms(2)] by simp
next
  case (handled_done cookie th)
  then show ?thesis using done_step [OF handled_done(3,4) assms(2)] by simp
next
  case (handled_read l th s1 R ptr r)
  then show ?thesis using read_out_step [OF handled_read(3-5) assms(2)] by simp
next
  case (handled_dropped r env s1)
  then show ?thesis using dropped_step [OF handled_dropped(4,5) assms(2)] by simp
next
  case (handled_discarded l th s1 fuel env)
  then show ?thesis using discarded_step [OF handled_discarded(3-5) assms(2)] by simp
qed

text \<open>
  C39. The death notification protocol. Every handler that moves a notification takes it through a step of
  the protocol: a request arms a fresh notification with its cookie, or queues it at once when the node is
  already dead, and a refused request frees it; the death of the node queues it once; reading it out writes
  exactly \<^verbatim>\<open>BR_DEAD_BINDER\<close>, or \<^verbatim>\<open>BR_CLEAR_DEATH_NOTIFICATION_DONE\<close> when it was cleared, with the cookie of the
  request (only what user memory takes of it when a write fails: the notification moves on all the same);
  no other handler writes anything; a clear before the death is confirmed at once, a clear after it waits
  for the acknowledgement; dropping the reference unlinks the notification from whatever list it is on and
  frees it; throwing away a list frees what was cleared and unlinks the others, which the reference still
  owns. A handler that meets a notification in any other state stops at a \<^verbatim>\<open>BUG_ON\<close>. The work lists stay
  consistent, so that the property holds again for the next step, and a freed notification is on no list.
\<close>

theorem death_protocol:
  assumes "death_handled p d ev msgs s s'" "death_wf s d"
    and "(\<exists>dead c. ev = Requested dead c) \<or> ev = Refused \<Longrightarrow> death_state s d = Armed"
  shows "death_next ev (death_state s d) = Some (death_state s' d) \<and>
    msgs = death_output ev (death_state s d) (death_cookie s d) \<and>
    death_cookie s' d = next_cookie ev (death_cookie s d) \<and>
    (if death_state s' d = Gone then work_wf s' \<and> work_on s' (Death_work d) = None else death_wf s' d)"
  using handled_step [OF assms] by (auto simp: view_step_def death_state_def death_wf_def) (auto simp: dview_def)

definition sample_death_driver :: driver where
  "sample_death_driver = sample_driver\<lparr>bref := (bref sample_driver)(10 := (bref sample_driver 10)\<lparr>death := Some 6\<rparr>)\<rparr>"

theorem death_protocol_witness:
  "\<exists>s'. death_handled 1 6 Node_died [] sample_death_driver s' \<and> death_state s' 6 = Pending False \<and> death_wf s' 6"
proof -
  let ?s = sample_death_driver
  have free: "work_on ?s (Death_work 6) = None" "death (bref ?s 10) = Some 6"
    by (simp_all add: sample_death_driver_def sample_driver_defs)
  then obtain s' where "notify_deaths [10] ?s = Some s'"
    by (simp add: bug_on_def binder_enqueue_work_ilocked_def)
  from handled_died [OF free(2) this] have h: "death_handled 1 6 Node_died [] ?s s'" .
  have wf: "death_wf ?s 6" "death_state ?s 6 = Armed"
    by (simp_all add: death_wf_def work_wf_def death_state_def dview_def sample_death_driver_def sample_driver_defs)
  have "death_state s' 6 = Pending False" using death_protocol [OF h wf(1)] wf(2) by simp
  then show ?thesis using death_protocol [OF h wf(1)] h by (intro exI [of _ s']) simp
qed

end
