(* ===== verification/Dynamic_Array.thy ===== *)
theory Dynamic_Array
  imports Array_Containers
begin

text \<open>
  \<^verbatim>\<open>DynamicArray.c\<close>: an array that doubles its capacity when it is full. \<open>realloc\<close> is a parameter:
  the new cells hold the old values as far as they reach, the rest is arbitrary. \<^verbatim>\<open>SortDA\<close>
  hands the array to \<^verbatim>\<open>qsort\<close> with a byte-string comparison and is not modelled.
\<close>

type_synonym array_realloc = "int list \<Rightarrow> nat \<Rightarrow> int list option"

record DA =
  da :: "int list"
  da_length :: int
  da_capacity :: int

definition CreateDA :: "array_malloc \<Rightarrow> DA" where
  "CreateDA malloc = \<lparr>da = cells (malloc 5), da_length = 0, da_capacity = 5\<rparr>"

definition double_DA :: "array_realloc \<Rightarrow> DA \<Rightarrow> DA option" where
  "double_DA realloc s = do {
     c \<leftarrow> checked 32 (da_capacity s * 2);
     Some (s\<lparr>da_capacity := c, da := cells (realloc (da s) (nat c))\<rparr>)
   }"

definition memcpy_ints :: "int list \<Rightarrow> int list \<Rightarrow> int \<Rightarrow> int list option" where
  "memcpy_ints dst src n =
     (if 0 \<le> n \<and> nat n \<le> length src \<and> nat n \<le> length dst then Some (take (nat n) src @ drop (nat n) dst) else None)"

definition InitDA :: "array_realloc \<Rightarrow> DA \<Rightarrow> int list \<Rightarrow> int \<Rightarrow> DA option" where
  "InitDA realloc s tmp sz = do {
     s \<leftarrow> (if sz + da_length s \<ge> da_capacity s then double_DA realloc s else Some s);
     d \<leftarrow> memcpy_ints (da s) tmp sz;
     Some (s\<lparr>da_length := sz, da := d\<rparr>)
   }"

definition PrintDA :: "DA \<Rightarrow> int list option" where
  "PrintDA s = print_range (da s) 0 (da_length s)"

definition InsertTailDA :: "array_realloc \<Rightarrow> int \<Rightarrow> DA \<Rightarrow> DA option" where
  "InsertTailDA realloc num s = do {
     s \<leftarrow> (if da_length s \<ge> da_capacity s then double_DA realloc s else Some s);
     d \<leftarrow> wr (da s) (da_length s) num;
     Some (s\<lparr>da := d, da_length := da_length s + 1\<rparr>)
   }"

definition InsertFrontDA :: "array_realloc \<Rightarrow> int \<Rightarrow> DA \<Rightarrow> DA option" where
  "InsertFrontDA realloc num s = do {
     s \<leftarrow> (if da_length s \<ge> da_capacity s then double_DA realloc s else Some s);
     d \<leftarrow> shift_right (da s) (da_length s) 0;
     d \<leftarrow> wr d 0 num;
     Some (s\<lparr>da := d, da_length := da_length s + 1\<rparr>)
   }"

definition InsertCenterDA :: "array_realloc \<Rightarrow> int \<Rightarrow> int \<Rightarrow> DA \<Rightarrow> DA option" where
  "InsertCenterDA realloc index num s = do {
     s \<leftarrow> (if da_length s \<ge> da_capacity s then double_DA realloc s else Some s);
     d \<leftarrow> shift_right (da s) (da_length s) index;
     d \<leftarrow> wr d index num;
     Some (s\<lparr>da := d, da_length := da_length s + 1\<rparr>)
   }"

definition DeleteFrontDA :: "DA \<Rightarrow> DA option" where
  "DeleteFrontDA s = do {
     d \<leftarrow> shift_left (da s) 0 (da_length s);
     Some (s\<lparr>da := d, da_length := da_length s - 1\<rparr>)
   }"

definition DeleteTailDA :: "DA \<Rightarrow> DA" where
  "DeleteTailDA s = s\<lparr>da_length := da_length s - 1\<rparr>"

function delete_loop :: "int \<Rightarrow> int \<Rightarrow> DA \<Rightarrow> DA option" where
  "delete_loop num i s =
     (if i < da_length s
      then do {
        v \<leftarrow> rd (da s) i;
        if v = num
        then do {
          d \<leftarrow> shift_left (da s) i (da_length s);
          delete_loop num (i + 1) (s\<lparr>da := d, da_length := da_length s - 1\<rparr>)
        }
        else delete_loop num (i + 1) s
      }
      else Some s)"
  by pat_completeness auto
termination by (relation "measure (\<lambda>(num, i, s). nat (da_length s - i))") auto

declare delete_loop.simps [simp del]

definition DeleteCenterDA :: "int \<Rightarrow> DA \<Rightarrow> DA option" where
  "DeleteCenterDA num s = delete_loop num 0 s"

section \<open>Contents\<close>

definition realloc_ok :: "array_realloc \<Rightarrow> bool" where
  "realloc_ok realloc \<longleftrightarrow> (\<forall>xs n ys. realloc xs n = Some ys \<longrightarrow>
     length ys = n \<and> take (min n (length xs)) ys = take (min n (length xs)) xs)"

definition DA_wf :: "DA \<Rightarrow> bool" where
  "DA_wf s \<longleftrightarrow> 0 \<le> da_length s \<and> da_length s \<le> da_capacity s \<and> 1 \<le> da_capacity s \<and> length (da s) = nat (da_capacity s)"

definition DA_contents :: "DA \<Rightarrow> int list" where
  "DA_contents s = take (nat (da_length s)) (da s)"

text \<open>Growing succeeds: the doubled capacity is an \<^verbatim>\<open>int\<close> and \<^verbatim>\<open>realloc\<close> finds the memory.\<close>

definition can_grow :: "array_realloc \<Rightarrow> DA \<Rightarrow> bool" where
  "can_grow realloc s \<longleftrightarrow>
     (da_length s < da_capacity s \<or> in_int 32 (da_capacity s * 2) \<and> realloc (da s) (nat (da_capacity s * 2)) \<noteq> None)"

lemma CreateDA_wf: "malloc 5 = Some xs \<Longrightarrow> length xs = 5 \<Longrightarrow> DA_wf (CreateDA malloc) \<and> DA_contents (CreateDA malloc) = []"
  by (simp add: CreateDA_def DA_wf_def DA_contents_def cells_def)

lemma make_room:
  assumes "DA_wf s" "realloc_ok realloc" "can_grow realloc s"
  obtains t n where "(if da_length s \<ge> da_capacity s then double_DA realloc s else Some s) = Some t"
    "da_length t = int n" "n < length (da t)" "int (length (da t)) = da_capacity t" "take n (da t) = DA_contents s"
    "n = length (DA_contents s)"
proof (cases "da_length s < da_capacity s")
  case True
  with assms(1) show ?thesis by (intro that [of s "nat (da_length s)"]) (auto simp: DA_wf_def DA_contents_def)
next
  case False
  then obtain ys where ys: "realloc (da s) (nat (da_capacity s * 2)) = Some ys" "in_int 32 (da_capacity s * 2)"
    using assms(3) by (auto simp: can_grow_def)
  have "length ys = nat (da_capacity s * 2) \<and> take (min (nat (da_capacity s * 2)) (length (da s))) ys =
      take (min (nat (da_capacity s * 2)) (length (da s))) (da s)"
    using assms(2) ys(1) unfolding realloc_ok_def by blast
  moreover have "min (nat (da_capacity s * 2)) (length (da s)) = length (da s)" using assms(1) by (auto simp: DA_wf_def)
  ultimately have "length ys = nat (da_capacity s * 2)" "take (length (da s)) ys = da s" by simp_all
  with False assms(1) ys show ?thesis
    by (intro that [of "s\<lparr>da_capacity := da_capacity s * 2, da := ys\<rparr>" "nat (da_length s)"])
      (auto simp: double_DA_def DA_wf_def DA_contents_def cells_def)
qed

lemma insert_shifted:
  assumes "i \<le> n" "n < length d" "take n d = xs"
  shows "shift_right d (int n) (int i) \<bind> (\<lambda>d. wr d (int i) x) =
    Some (take i xs @ x # drop i xs @ drop (Suc n) d)"
proof -
  have "take i d = take i xs" "take (n - i) (drop i d) = drop i xs"
    using assms by (auto simp: drop_take)
  moreover have "(take (Suc i) d)[i := x] = take i d @ [x]" using assms
    by (metis le_less_trans take_Suc_update take_update_swap)
  ultimately show ?thesis using assms
    by (simp add: shift_right_eq list_update_append)
qed

lemma DeleteFrontDA_contents:
  assumes "DA_wf s" "DA_contents s = x # xs" "da_length s < da_capacity s"
  shows "\<exists>s'. DeleteFrontDA s = Some s' \<and> DA_wf s' \<and> DA_contents s' = xs"
proof -
  obtain n where n: "da_length s = int n" "n < length (da s)" using assms by (auto simp: DA_wf_def elim!: nonneg_int_cases)
  have tk: "take n (da s) = x # xs" using assms(2) n by (simp add: DA_contents_def)
  then obtain m ys where m: "n = Suc m" "da s = x # ys" by (cases n; cases "da s") auto
  have "shift_left (da s) 0 (int n) = Some (take n ys @ drop n (da s))"
    using shift_left_eq [of 0 n "da s"] n m by simp
  moreover have "take m (take n ys @ drop n (da s)) = xs" "nat (int n - 1) = m" using tk m n by auto
  ultimately show ?thesis using assms(1) n m by (auto simp: DeleteFrontDA_def DA_wf_def DA_contents_def)
qed

text \<open>
  What \<^verbatim>\<open>DeleteCenterDA\<close> removes: the element that moves into the place of a removed one is not
  looked at again.
\<close>

fun delete_skipping :: "int \<Rightarrow> int list \<Rightarrow> int list" where
  "delete_skipping num [] = []"
| "delete_skipping num [x] = (if x = num then [] else [x])"
| "delete_skipping num (x # y # ys) = (if x = num then y # delete_skipping num ys else x # delete_skipping num (y # ys))"

text \<open>One round of the loop, when the element at hand is to be removed.\<close>

lemma delete_hit:
  assumes "DA_wf s" "da_length s = int n" "n < length (da s)" "i < n" "da s ! i = num"
  obtains t where "delete_loop num (int i) s = delete_loop num (int (Suc i)) t" "DA_wf t" "da_length t = int n - 1"
    "da_length t < da_capacity t" "DA_contents t = take i (DA_contents s) @ drop (Suc i) (DA_contents s)"
proof -
  define d where "d = take i (da s) @ take (n - i) (drop (Suc i) (da s)) @ drop n (da s)"
  define t where "t = s\<lparr>da := d, da_length := int n - 1\<rparr>"
  have sh: "shift_left (da s) (int i) (int n) = Some d" using assms shift_left_eq [of i n "da s"] by (simp add: d_def)
  obtain m where m: "n = Suc m" "i \<le> m" using assms(4) by (cases n) auto
  have "take m (take i (da s) @ take (n - i) (drop (Suc i) (da s)) @ drop n (da s)) =
      take i (da s) @ take (m - i) (drop (Suc i) (da s))" using m assms(3) by simp
  then have "DA_contents t = take i (DA_contents s) @ drop (Suc i) (DA_contents s)"
    using m assms(2) by (simp add: t_def d_def DA_contents_def drop_take min_def nat_add_distrib)
  moreover have "DA_wf t" "da_length t = int n - 1" "da_length t < da_capacity t"
    using assms m by (auto simp: t_def d_def DA_wf_def)
  moreover have "delete_loop num (int i) s = delete_loop num (int (Suc i)) t"
    using assms sh by (subst delete_loop.simps) (simp add: t_def add.commute)
  ultimately show ?thesis using that by blast
qed

lemma delete_skipping_miss: "x \<noteq> num \<Longrightarrow> delete_skipping num (x # zs) = x # delete_skipping num zs"
  by (cases zs) auto

lemma delete_loop_contents:
  assumes "DA_wf s" "da_length s = int n" "n < length (da s)" "i \<le> n"
  shows "\<exists>s'. delete_loop num (int i) s = Some s' \<and> DA_wf s' \<and>
    DA_contents s' = take i (DA_contents s) @ delete_skipping num (drop i (DA_contents s))"
  using assms
proof (induction "n - i" arbitrary: s i n rule: less_induct)
  case less
  let ?xs = "DA_contents s"
  have xs: "?xs = take n (da s)" "length ?xs = n" using less.prems by (auto simp: DA_contents_def)
  show ?case
  proof (cases "i < n")
    case False
    then show ?thesis using xs less.prems by (subst delete_loop.simps) simp
  next
    case True
    have here: "drop i ?xs = da s ! i # drop (Suc i) ?xs" "take (Suc i) ?xs = take i ?xs @ [da s ! i]"
      using True xs less.prems(3) by (simp_all add: Cons_nth_drop_Suc [symmetric] take_Suc_conv_app_nth)
    show ?thesis
    proof (cases "da s ! i = num")
      case False
      have "delete_loop num (int i) s = delete_loop num (int (Suc i)) s"
        using True False less.prems by (subst delete_loop.simps) (simp add: add.commute)
      moreover have "n - Suc i < n - i" using True by simp
      ultimately show ?thesis using less.hyps [of n "Suc i" s] less.prems True here delete_skipping_miss [OF False] by simp
    next
      case hit: True
      obtain t where t: "delete_loop num (int i) s = delete_loop num (int (Suc i)) t" "DA_wf t" "da_length t = int n - 1"
        "da_length t < da_capacity t" "DA_contents t = take i ?xs @ drop (Suc i) ?xs"
        using delete_hit [OF less.prems(1-3) True hit] by blast
      have l: "da_length t = int (n - 1)" "n - 1 < length (da t)" using t(2-4) True by (auto simp: DA_wf_def)
      show ?thesis
      proof (cases "Suc i < n")
        case last: False
        then have "delete_loop num (int (Suc i)) t = Some t" using t(3) by (subst delete_loop.simps) simp
        moreover have "drop (Suc i) ?xs = []" using last xs(2) by simp
        ultimately show ?thesis using t(1,2,5) here(1) hit by simp
      next
        case inner: True
        then obtain y ys where ys: "drop (Suc i) ?xs = y # ys" using xs(2) by (cases "drop (Suc i) ?xs") auto
        have "(n - 1) - Suc i < n - i" "Suc i \<le> n - 1" using inner by auto
        from less.hyps [OF this(1) t(2) l this(2)] t(1,5) here(1) hit ys xs(2) inner show ?thesis by auto
      qed
    qed
  qed
qed

section \<open>Inserting and deleting\<close>

text \<open>
  Inserting into the growing array, wherever it is done, inserts into the sequence of its
  elements and keeps every other element, whether or not the array has to be doubled, and
  never writes outside of it.
\<close>

theorem dynamic_array_inserts:
  assumes "DA_wf s" "realloc_ok realloc" "can_grow realloc s" "i \<le> length (DA_contents s)"
  shows "(\<exists>s'. InsertTailDA realloc x s = Some s' \<and> DA_wf s' \<and> DA_contents s' = DA_contents s @ [x]) \<and>
    (\<exists>s'. InsertFrontDA realloc x s = Some s' \<and> DA_wf s' \<and> DA_contents s' = x # DA_contents s) \<and>
    (\<exists>s'. InsertCenterDA realloc (int i) x s = Some s' \<and> DA_wf s' \<and>
      DA_contents s' = take i (DA_contents s) @ x # drop i (DA_contents s))"
proof -
  obtain t n where t: "(if da_length s \<ge> da_capacity s then double_DA realloc s else Some s) = Some t"
    "da_length t = int n" "n < length (da t)" "int (length (da t)) = da_capacity t" "take n (da t) = DA_contents s"
    "n = length (DA_contents s)"
    using make_room [OF assms(1-3)] by blast
  have ok: "DA_wf (t\<lparr>da := d, da_length := int n + 1\<rparr>)" "DA_contents (t\<lparr>da := d, da_length := int n + 1\<rparr>) = take (Suc n) d"
    if "length d = length (da t)" for d using t(2-4) that by (auto simp: DA_wf_def DA_contents_def nat_add_distrib)
  have mid: "shift_right (da t) (int n) (int j) \<bind> (\<lambda>d. wr d (int j) x) =
      Some (take j (DA_contents s) @ x # drop j (DA_contents s) @ drop (Suc n) (da t))" if "j \<le> n" for j
    using insert_shifted [OF that t(3,5)] .
  have ins: "\<exists>s'. (shift_right (da t) (int n) (int j) \<bind> (\<lambda>d. wr d (int j) x) \<bind>
       (\<lambda>d. Some (t\<lparr>da := d, da_length := int n + 1\<rparr>))) = Some s' \<and> DA_wf s' \<and>
       DA_contents s' = take j (DA_contents s) @ x # drop j (DA_contents s)" if "j \<le> n" for j
    using mid [OF that] t(3,6) that ok by (simp add: Suc_diff_le)
  have "\<exists>s'. InsertTailDA realloc x s = Some s' \<and> DA_wf s' \<and> DA_contents s' = DA_contents s @ [x]"
    using t ok [of "(da t)[n := x]"] by (simp add: InsertTailDA_def take_Suc_update)
  moreover have "\<exists>s'. InsertFrontDA realloc x s = Some s' \<and> DA_wf s' \<and> DA_contents s' = x # DA_contents s"
    using ins [of 0] t(1,2) unfolding InsertFrontDA_def by (simp del: One_nat_def)
  moreover have "\<exists>s'. InsertCenterDA realloc (int i) x s = Some s' \<and> DA_wf s' \<and>
      DA_contents s' = take i (DA_contents s) @ x # drop i (DA_contents s)"
    using ins [of i] t(1,2,6) assms(4) unfolding InsertCenterDA_def by simp
  ultimately show ?thesis by blast
qed

text \<open>A \<^verbatim>\<open>realloc\<close> that fills new cells with 7, for concrete runs.\<close>

definition sample_realloc :: array_realloc where
  "sample_realloc xs n = Some (take n xs @ replicate (n - length xs) 7)"

lemma sample_realloc_ok: "realloc_ok sample_realloc"
  by (auto simp: realloc_ok_def sample_realloc_def min_def)

theorem dynamic_array_inserts_witness:
  "\<exists>s'. InsertCenterDA sample_realloc 1 9 \<lparr>da = [4, 5], da_length = 2, da_capacity = 2\<rparr> = Some s' \<and> DA_contents s' = [4, 9, 5]"
proof -
  let ?s = "\<lparr>da = [4, 5], da_length = 2, da_capacity = 2\<rparr>"
  have "DA_wf ?s" "can_grow sample_realloc ?s" "DA_contents ?s = [4, 5]"
    by (simp_all add: DA_wf_def can_grow_def sample_realloc_def in_int_def DA_contents_def)
  with dynamic_array_inserts [of ?s sample_realloc 1 9] sample_realloc_ok show ?thesis by auto
qed

text \<open>
  Deleting a number from the growing array. While a cell is free behind the elements, the
  loop stays inside the array, and it removes every occurrence except those that directly
  follow a removed one: of a run of equal numbers every second one survives.
\<close>

theorem delete_center_skips:
  assumes "DA_wf s" "da_length s < da_capacity s"
  shows "\<exists>s'. DeleteCenterDA num s = Some s' \<and> DA_wf s' \<and> DA_contents s' = delete_skipping num (DA_contents s)"
proof -
  have "da_length s = int (nat (da_length s))" "nat (da_length s) < length (da s)" using assms by (auto simp: DA_wf_def)
  from delete_loop_contents [OF assms(1) this, of 0 num] show ?thesis by (simp add: DeleteCenterDA_def)
qed

theorem delete_center_skips_witness:
  "\<exists>s'. DeleteCenterDA 3 \<lparr>da = [1, 3, 3, 2, 3, 0], da_length = 5, da_capacity = 6\<rparr> = Some s' \<and> DA_contents s' = [1, 3, 2]"
  using delete_center_skips [of "\<lparr>da = [1, 3, 3, 2, 3, 0], da_length = 5, da_capacity = 6\<rparr>" 3]
  by (auto simp: DA_wf_def DA_contents_def)

end
