(* ===== verification/Linked_Lists.thy ===== *)
theory Linked_Lists
  imports C_Memory Contracts
begin

text \<open>
  The linked containers: the queue of \<^verbatim>\<open>LinkedListQuene.c\<close> and the stack of \<^verbatim>\<open>LinkedListStack.c\<close>,
  both on a heap of nodes behind a header node.
\<close>

section \<open>Splicing nodes in and out of a list\<close>

text \<open>The list seen from one of its nodes \<open>p\<close>, with the header counted as a node.\<close>

lemma list_at_mid:
  assumes "hdr # as = us @ [p]"
  shows "list_at h hdr (as @ bs) \<longleftrightarrow> chain h (Some hdr) us (Some p) \<and>
    (\<exists>c. h p = Some c \<and> chain h (nextp c) bs None) \<and> distinct (us @ p # bs)"
proof -
  have eq: "hdr # as @ bs = us @ p # bs" using arg_cong [OF assms, of "\<lambda>xs. xs @ bs"] by simp
  show ?thesis unfolding list_at_def eq by (auto simp: chain_append split: option.splits)
qed

lemma last_split:
  assumes "p = last (hdr # as)"
  obtains us where "hdr # as = us @ [p]"
proof
  show "hdr # as = butlast (hdr # as) @ [p]" unfolding assms by (rule append_butlast_last_id [symmetric]) simp
qed

lemma link_after:
  assumes "list_at h hdr (as @ bs)" "t \<notin> set (hdr # as @ bs)" "p = last (hdr # as)" "h p = Some c" "nextp c = nextp d"
  shows "list_at (h(t \<mapsto> d, p \<mapsto> c\<lparr>nextp := Some t\<rparr>)) hdr (as @ t # bs)"
proof -
  obtain us where us: "hdr # as = us @ [p]" by (rule last_split [OF assms(3)])
  from assms(2) have "t \<notin> set (us @ p # bs)" using arg_cong [OF us, of set] by auto
  with assms(1,4,5) show ?thesis unfolding list_at_mid [OF us] by auto
qed

lemma unlink_after:
  assumes "list_at h hdr (as @ t # bs)" "p = last (hdr # as)" "h p = Some c" "h t = Some d"
  shows "list_at (h(p \<mapsto> c\<lparr>nextp := nextp d\<rparr>, t := None)) hdr (as @ bs)"
proof -
  obtain us where us: "hdr # as = us @ [p]" by (rule last_split [OF assms(2)])
  from assms(1,3,4) show ?thesis unfolding list_at_mid [OF us] by auto
qed

lemma fresh_node:
  assumes "malloc_ok malloc" "malloc h = Some (t, c)" "list_at h hdr as"
  shows "t \<notin> set (hdr # as)" "h t = None"
  using assms list_atD(3) [OF assms(3)] unfolding malloc_ok_def by blast+

lemma list_at_unique: "list_at h hdr as \<Longrightarrow> list_at h hdr bs \<Longrightarrow> as = bs"
  using chain_unique [of h "Some hdr" "hdr # as" "hdr # bs"] by (simp add: list_at_def)

lemma list_at_last:
  assumes "list_at h hdr as" "p = last (hdr # as)"
  shows "\<exists>c. h p = Some c \<and> nextp c = None"
proof -
  obtain us where us: "hdr # as = us @ [p]" by (rule last_split [OF assms(2)])
  from assms(1) list_at_mid [OF us, of h "[]"] show ?thesis by auto
qed

lemma walk_end_list:
  assumes "list_at h hdr as" "p = last (hdr # as)"
  shows "walk_end h hdr = Some p"
proof -
  obtain us where us: "hdr # as = us @ [p]" by (rule last_split [OF assms(2)])
  from assms(1) show ?thesis unfolding list_at_def us by (intro walk_end_chain) auto
qed

lemma walk_before_list:
  assumes "list_at h hdr (as @ t # bs)" "p = last (hdr # as)"
  shows "walk_before h (Some t) hdr = Some p"
proof -
  obtain us where us: "hdr # as = us @ [p]" by (rule last_split [OF assms(2)])
  have l: "chain h (Some hdr) us (Some p)" "\<exists>c. h p = Some c \<and> chain h (nextp c) (t # bs) None"
    "distinct (us @ p # t # bs)" using assms(1) unfolding list_at_mid [OF us] by auto
  then have "chain h (Some hdr) (us @ [p]) (Some t)" by (auto simp: chain_snoc)
  with l(3) show ?thesis by (intro walk_before_chain) auto
qed

lemma map_elem_upd [simp]: "a \<notin> set as \<Longrightarrow> map (elem_at (h(a := c))) as = map (elem_at h) as"
  by (auto simp: elem_at_def)

lemma elem_at_next [simp]: "h p = Some c \<Longrightarrow> elem_at (h(p \<mapsto> c\<lparr>nextp := q\<rparr>)) = elem_at h"
  by (auto simp: elem_at_def)

section \<open>LinkedListQuene.c\<close>

definition CreateLLQ :: "int allocator \<Rightarrow> int heap \<Rightarrow> (nat \<times> int heap) option" where
  "CreateLLQ malloc h = do {
     (hdr, c) \<leftarrow> malloc h;
     h \<leftarrow> set_next hdr None (h(hdr \<mapsto> c));
     Some (hdr, h)
   }"

definition push_LLQ :: "int allocator \<Rightarrow> nat \<Rightarrow> int \<Rightarrow> int heap \<Rightarrow> int heap option" where
  "push_LLQ malloc quene x h = do {
     p \<leftarrow> walk_end h quene;
     (tmp, c) \<leftarrow> malloc h;
     h \<leftarrow> set_element tmp x (h(tmp \<mapsto> c));
     h \<leftarrow> set_next tmp None h;
     set_next p (Some tmp) h
   }"

definition pop_LLQ :: "nat \<Rightarrow> int heap \<Rightarrow> (int \<times> int heap) option" where
  "pop_LLQ quene h = do {
     n \<leftarrow> get_next h quene;
     first \<leftarrow> n;
     val \<leftarrow> get_element h first;
     n \<leftarrow> get_next h first;
     h \<leftarrow> set_next quene n h;
     h \<leftarrow> free_cell first h;
     Some (val, h)
   }"

definition ShowLLQ :: "nat \<Rightarrow> int heap \<Rightarrow> int list option" where
  "ShowLLQ quene h = do { p \<leftarrow> get_next h quene; elements_from h p }"

section \<open>LinkedListStack.c\<close>

definition CreateLLS :: "int allocator \<Rightarrow> int heap \<Rightarrow> (nat \<times> int heap) option" where
  "CreateLLS malloc h = do {
     (p, c) \<leftarrow> malloc h;
     h \<leftarrow> set_next p None (h(p \<mapsto> c));
     Some (p, h)
   }"

definition push_LLS :: "int allocator \<Rightarrow> nat \<Rightarrow> int \<Rightarrow> int heap \<Rightarrow> int heap option" where
  "push_LLS malloc header x h = do {
     p \<leftarrow> walk_end h header;
     (tmp, c) \<leftarrow> malloc h;
     h \<leftarrow> set_element tmp x (h(tmp \<mapsto> c));
     h \<leftarrow> set_next p (Some tmp) h;
     set_next tmp None h
   }"

definition pop_LLS :: "nat \<Rightarrow> int heap \<Rightarrow> (int \<times> int heap) option" where
  "pop_LLS header h = do {
     n \<leftarrow> get_next h header;
     p \<leftarrow> n;
     p \<leftarrow> walk_end h p;
     pre \<leftarrow> walk_before h (Some p) header;
     n \<leftarrow> get_next h p;
     h \<leftarrow> set_next pre n h;
     val \<leftarrow> get_element h p;
     h \<leftarrow> free_cell p h;
     Some (val, h)
   }"

definition ShowStack :: "nat \<Rightarrow> int heap \<Rightarrow> int list option" where
  "ShowStack header h = do { p \<leftarrow> get_next h header; elements_from h p }"

section \<open>Both keep their contracts\<close>

text \<open>What the printing functions show is the abstract contents.\<close>

definition linked :: "nat \<Rightarrow> 'a heap \<Rightarrow> bool" where
  "linked hdr h \<longleftrightarrow> (\<exists>as. list_at h hdr as)"

definition listed :: "nat \<Rightarrow> 'a heap \<Rightarrow> 'a list" where
  "listed hdr h = (case get_next h hdr of None \<Rightarrow> [] | Some p \<Rightarrow> (case elements_from h p of None \<Rightarrow> [] | Some xs \<Rightarrow> xs))"

lemma listed_eq:
  assumes "list_at h hdr as"
  shows "listed hdr h = map (elem_at h) as"
proof -
  obtain c where "h hdr = Some c" "chain h (nextp c) as None" using list_atD(1) [OF assms] by blast
  with elements_from_chain [of h "nextp c" as] show ?thesis by (simp add: listed_def get_next_def)
qed

lemma Show_listed: "linked hdr h \<Longrightarrow> ShowLLQ hdr h = Some (listed hdr h) \<and> ShowStack hdr h = Some (listed hdr h)"
  by (auto simp: linked_def ShowLLQ_def ShowStack_def listed_def get_next_def list_at_def elements_from_chain split: option.splits)

lemma push_list:
  assumes "malloc_ok malloc" "list_at h hdr as" "malloc h = Some (t, c)"
  shows "\<exists>h'. push_LLQ malloc hdr x h = Some h' \<and> push_LLS malloc hdr x h = Some h' \<and>
    list_at h' hdr (as @ [t]) \<and> map (elem_at h') (as @ [t]) = map (elem_at h) as @ [x]"
proof -
  define p where "p = last (hdr # as)"
  note fresh = fresh_node [OF assms(1,3,2)]
  obtain d where d: "h p = Some d" "nextp d = None" using list_at_last [OF assms(2) p_def] by blast
  let ?n = "\<lparr>element = x, nextp = None\<rparr>"
  let ?h = "h(t \<mapsto> ?n, p \<mapsto> d\<lparr>nextp := Some t\<rparr>)"
  have "p \<in> set (hdr # as)" unfolding p_def by (rule last_in_set) simp
  then have ne: "t \<noteq> p" "t \<notin> set as" using fresh(1) by auto
  have cell: "c\<lparr>element := x, nextp := None\<rparr> = ?n" "c\<lparr>nextp := None, element := x\<rparr> = ?n" by (cases c, simp)+
  have "walk_end h hdr = Some p" by (rule walk_end_list [OF assms(2) p_def])
  then have eq: "push_LLQ malloc hdr x h = Some ?h" "push_LLS malloc hdr x h = Some ?h"
    using assms(3) ne d fun_upd_twist [of t p h "Some ?n"]
    by (simp_all add: push_LLQ_def push_LLS_def set_next_def set_element_def cell)
  have "list_at ?h hdr (as @ [t])"
    using link_after [of h hdr as "[]" t p d ?n] assms(2) fresh d p_def by simp
  moreover have "map (elem_at ?h) (as @ [t]) = map (elem_at h) as @ [x]"
    using ne d(1) by (auto simp: elem_at_def)
  ultimately show ?thesis using eq by blast
qed

lemma pop_LLQ_list:
  assumes "list_at h hdr (t # bs)"
  shows "\<exists>h'. pop_LLQ hdr h = Some (elem_at h t, h') \<and> list_at h' hdr bs \<and> map (elem_at h') bs = map (elem_at h) bs"
proof -
  obtain c where c: "h hdr = Some c" "chain h (nextp c) (t # bs) None" using list_atD(1) [OF assms] by blast
  then obtain d where d: "h t = Some d" "nextp c = Some t" by (auto split: option.splits)
  have ne: "t \<noteq> hdr" "t \<notin> set bs" "hdr \<notin> set bs" using assms by (auto simp: list_at_def)
  let ?h = "h(hdr \<mapsto> c\<lparr>nextp := nextp d\<rparr>, t := None)"
  have "list_at ?h hdr bs" using unlink_after [of h hdr "[]" t bs hdr c d] assms c d by simp
  moreover have "pop_LLQ hdr h = Some (elem_at h t, ?h)"
    using c d ne by (simp add: pop_LLQ_def get_next_def get_element_def set_next_def free_cell_def elem_at_def)
  moreover have "map (elem_at ?h) bs = map (elem_at h) bs" using ne c by (auto simp: elem_at_def)
  ultimately show ?thesis by blast
qed

lemma pop_LLS_list:
  assumes "list_at h hdr (as @ [t])"
  shows "\<exists>h'. pop_LLS hdr h = Some (elem_at h t, h') \<and> list_at h' hdr as \<and> map (elem_at h') as = map (elem_at h) as"
proof -
  define p where "p = last (hdr # as)"
  obtain us where us: "hdr # as = us @ [p]" by (rule last_split [OF p_def])
  obtain c where c: "h p = Some c" using assms unfolding list_at_mid [OF us] by blast
  obtain d where d: "h t = Some d" "nextp d = None" using list_at_last [OF assms, of t] by auto
  have "t \<notin> set (hdr # as)" using assms by (auto simp: list_at_def)
  moreover have "p \<in> set (hdr # as)" unfolding p_def by (rule last_in_set) simp
  ultimately have ne: "t \<noteq> p" "t \<notin> set as" by auto
  obtain c0 q where q: "h hdr = Some c0" "nextp c0 = Some q" "chain h (Some q) (as @ [t]) None"
    using list_atD(1) [OF assms] by (cases as) auto
  let ?h = "h(p \<mapsto> c\<lparr>nextp := nextp d\<rparr>, t := None)"
  have "list_at ?h hdr as" using unlink_after [of h hdr as t "[]" p c d] assms c d p_def by simp
  moreover have "pop_LLS hdr h = Some (elem_at h t, ?h)"
    using c d ne q walk_end_chain [OF q(3)] walk_before_list [OF assms p_def]
    by (simp add: pop_LLS_def get_next_def get_element_def set_next_def free_cell_def elem_at_def)
  moreover have "map (elem_at ?h) as = map (elem_at h) as" using ne c by (auto simp: elem_at_def)
  ultimately show ?thesis by blast
qed

definition room_on_heap :: "'a allocator \<Rightarrow> 'b \<Rightarrow> 'a heap \<Rightarrow> bool" where
  "room_on_heap malloc x h \<longleftrightarrow> malloc h \<noteq> None"

text \<open>
  The two interpretations hold for every allocator that returns unused memory; an allocator
  that does not has no instance here, so it is restricted to its proper answers.
\<close>

definition sane :: "'a allocator \<Rightarrow> 'a allocator" where
  "sane malloc h = (case malloc h of None \<Rightarrow> None | Some (a, c) \<Rightarrow> if h a = None then Some (a, c) else None)"

lemma sane_ok: "malloc_ok (sane malloc)"
  by (auto simp: malloc_ok_def sane_def split: option.splits if_splits)

lemma sane_id: "malloc_ok malloc \<Longrightarrow> sane malloc = malloc"
  by (rule ext) (auto simp: malloc_ok_def sane_def split: option.splits)

interpretation llq: fifo "linked hdr" "listed hdr" "room_on_heap (sane malloc)" "push_LLQ (sane malloc) hdr" "pop_LLQ hdr" for malloc hdr
proof
  fix h x h' y ys
  show "push_LLQ (sane malloc) hdr x h \<noteq> None" if "linked hdr h" "room_on_heap (sane malloc) x h"
    using push_list [OF sane_ok] that by (fastforce simp: linked_def room_on_heap_def)
  show "linked hdr h' \<and> listed hdr h' = listed hdr h @ [x]"
    if "linked hdr h" "room_on_heap (sane malloc) x h" "push_LLQ (sane malloc) hdr x h = Some h'"
    using push_list [OF sane_ok, of h hdr _ malloc _ _ x] that by (fastforce simp: linked_def room_on_heap_def listed_eq)
  show "\<exists>s'. pop_LLQ hdr h = Some (y, s') \<and> linked hdr s' \<and> listed hdr s' = ys" if "linked hdr h" "listed hdr h = y # ys"
    using that pop_LLQ_list by (fastforce simp: linked_def listed_eq map_eq_Cons_conv)
qed

interpretation lls: lifo "linked hdr" "\<lambda>h. rev (listed hdr h)" "room_on_heap (sane malloc)" "push_LLS (sane malloc) hdr" "pop_LLS hdr" for malloc hdr
proof
  fix h x h' y ys
  show "push_LLS (sane malloc) hdr x h \<noteq> None" if "linked hdr h" "room_on_heap (sane malloc) x h"
    using push_list [OF sane_ok] that by (fastforce simp: linked_def room_on_heap_def)
  show "linked hdr h' \<and> rev (listed hdr h') = x # rev (listed hdr h)"
    if "linked hdr h" "room_on_heap (sane malloc) x h" "push_LLS (sane malloc) hdr x h = Some h'"
    using push_list [OF sane_ok, of h hdr _ malloc _ _ x] that by (fastforce simp: linked_def room_on_heap_def listed_eq)
  show "\<exists>s'. pop_LLS hdr h = Some (y, s') \<and> linked hdr s' \<and> rev (listed hdr s') = ys"
    if l: "linked hdr h" and c: "rev (listed hdr h) = y # ys"
  proof -
    obtain as where as: "list_at h hdr as" using l by (auto simp: linked_def)
    with c have "map (elem_at h) as = rev ys @ [y]" by (simp add: listed_eq rev_swap)
    then obtain bs t where "as = bs @ [t]" "map (elem_at h) bs = rev ys" "elem_at h t = y" by (auto simp: map_eq_append_conv)
    with pop_LLS_list [of h hdr bs t] as show ?thesis by (auto simp: linked_def listed_eq)
  qed
qed

text \<open>An allocator that never runs out and hands out the addresses below a bound upwards, for concrete runs.\<close>

definition bump :: "nat \<Rightarrow> int allocator" where
  "bump lim h = (case filter (\<lambda>a. h a = None) [0..<lim] of [] \<Rightarrow> None | a # _ \<Rightarrow> Some (a, \<lparr>element = 0, nextp = None\<rparr>))"

lemma bump_ok: "malloc_ok (bump lim)"
  unfolding malloc_ok_def
proof (intro allI impI)
  fix h a c
  assume "bump lim h = Some (a, c)"
  then obtain as where "filter (\<lambda>a. h a = None) [0..<lim] = a # as" by (auto simp: bump_def split: list.splits)
  then have "a \<in> set (filter (\<lambda>a. h a = None) [0..<lim])" by (simp only: list.set insert_iff simp_thms)
  then show "h a = None" by simp
qed

text \<open>
  C16. The linked queue: whatever sequence of insertions and removals an ideal queue can do, the
  C code does on its heap without touching freed or null memory, returning the same elements,
  and its printing function afterwards shows the remaining elements.
\<close>

theorem linked_queue_runs:
  assumes "malloc_ok malloc" "linked hdr h" "room_for (room_on_heap malloc) (push_LLQ malloc hdr) (pop_LLQ hdr) ops h"
    "run list_put list_get ops (listed hdr h) = Some (out, xs)"
  shows "\<exists>h'. run (push_LLQ malloc hdr) (pop_LLQ hdr) ops h = Some (out, h') \<and> linked hdr h' \<and> ShowLLQ hdr h' = Some xs"
  using llq.run_refines [of hdr h malloc ops out xs] assms Show_listed by (auto simp: sane_id)

theorem linked_queue_runs_witness:
  "\<exists>h'. run (push_LLQ (bump 9) 0) (pop_LLQ 0) [Add 3, Add 4, Take, Add 5, Take] [0 \<mapsto> \<lparr>element = 7, nextp = None\<rparr>] = Some ([3, 4], h') \<and>
     ShowLLQ 0 h' = Some [5]"
proof -
  let ?h = "[0 \<mapsto> \<lparr>element = 7 :: int, nextp = None\<rparr>]"
  have l: "list_at ?h 0 []" by (simp add: list_at_def)
  then have "linked 0 ?h" "listed 0 ?h = []" by (auto simp: linked_def listed_eq)
  moreover have "room_for (room_on_heap (bump 9)) (push_LLQ (bump 9) 0) (pop_LLQ 0) [Add 3, Add 4, Take, Add 5, Take] ?h"
    by (simp add: room_on_heap_def bump_def upt_rec push_LLQ_def pop_LLQ_def walk_end.simps get_next_def set_next_def
        set_element_def get_element_def free_cell_def)
  ultimately show ?thesis
    using linked_queue_runs [OF bump_ok, of 0 ?h 9 "[Add 3, Add 4, Take, Add 5, Take]" "[3, 4]" "[5]"] by (auto simp: list_put_def)
qed

text \<open>
  The linked stack: the same for an ideal stack; popping walks to the last node, unlinks and
  frees it, and what is printed afterwards is the stack from the bottom up.
\<close>

theorem linked_stack_runs:
  assumes "malloc_ok malloc" "linked hdr h" "room_for (room_on_heap malloc) (push_LLS malloc hdr) (pop_LLS hdr) ops h"
    "run list_push list_get ops (rev (listed hdr h)) = Some (out, xs)"
  shows "\<exists>h'. run (push_LLS malloc hdr) (pop_LLS hdr) ops h = Some (out, h') \<and> linked hdr h' \<and> ShowStack hdr h' = Some (rev xs)"
  using lls.stack_run_refines [of hdr h malloc ops out xs] assms Show_listed by (auto simp: sane_id rev_swap)

theorem linked_stack_runs_witness:
  "\<exists>h'. run (push_LLS (bump 9) 0) (pop_LLS 0) [Add 3, Add 4, Take, Add 5, Take] [0 \<mapsto> \<lparr>element = 7, nextp = None\<rparr>] = Some ([4, 5], h') \<and>
     ShowStack 0 h' = Some [3]"
proof -
  let ?h = "[0 \<mapsto> \<lparr>element = 7 :: int, nextp = None\<rparr>]"
  have l: "list_at ?h 0 []" by (simp add: list_at_def)
  then have "linked 0 ?h" "listed 0 ?h = []" by (auto simp: linked_def listed_eq)
  moreover have "room_for (room_on_heap (bump 9)) (push_LLS (bump 9) 0) (pop_LLS 0) [Add 3, Add 4, Take, Add 5, Take] ?h"
    by (simp add: room_on_heap_def bump_def upt_rec push_LLS_def pop_LLS_def walk_end.simps walk_before.simps get_next_def set_next_def
        set_element_def get_element_def free_cell_def)
  ultimately show ?thesis
    using linked_stack_runs [OF bump_ok, of 0 ?h 9 "[Add 3, Add 4, Take, Add 5, Take]" "[4, 5]" "[3]"] by (auto simp: list_push_def)
qed

end
