(* ===== verification/Single_List.thy ===== *)
theory Single_List
  imports Linked_Lists
begin

text \<open>
  \<^verbatim>\<open>Single_linked_list.c\<close>: a list of nodes behind a header, with insertion at either end or in
  order, search, deletion, change of an element, and the merge of two lists by relinking.
\<close>

section \<open>The operations\<close>

definition CreatHeader :: "int allocator \<Rightarrow> int heap \<Rightarrow> (nat \<times> int heap) option" where
  "CreatHeader malloc h = do {
     (p, c) \<leftarrow> malloc h;
     h \<leftarrow> set_next p None (h(p \<mapsto> c));
     Some (p, h)
   }"

text \<open>The message that is printed: whether the list is empty.\<close>

definition JudgeIsEmpty :: "nat \<Rightarrow> int heap \<Rightarrow> bool option" where
  "JudgeIsEmpty header h = do { n \<leftarrow> get_next h header; Some (n = None) }"

definition InsertFront :: "int allocator \<Rightarrow> nat \<Rightarrow> int \<Rightarrow> int heap \<Rightarrow> int heap option" where
  "InsertFront malloc header x h = do {
     (tmp, c) \<leftarrow> malloc h;
     h \<leftarrow> set_element tmp x (h(tmp \<mapsto> c));
     n \<leftarrow> get_next h header;
     h \<leftarrow> set_next tmp n h;
     set_next header (Some tmp) h
   }"

definition InsertTail :: "int allocator \<Rightarrow> nat \<Rightarrow> int \<Rightarrow> int heap \<Rightarrow> int heap option" where
  "InsertTail malloc header x h = do {
     (tmp, c) \<leftarrow> malloc h;
     h \<leftarrow> set_element tmp x (h(tmp \<mapsto> c));
     h \<leftarrow> set_next tmp None h;
     p \<leftarrow> walk_end h header;
     set_next p (Some tmp) h
   }"

text \<open>\<^verbatim>\<open>while ((p->next != NULL) && (p->next->element) < x) p = p->next;\<close>\<close>

partial_function (option) walk_below :: "int heap \<Rightarrow> int \<Rightarrow> nat \<Rightarrow> nat option" where
  "walk_below h x p = do {
     n \<leftarrow> get_next h p;
     case n of
       None \<Rightarrow> Some p
     | Some q \<Rightarrow> do { e \<leftarrow> get_element h q; if e < x then walk_below h x q else Some p }
   }"

definition InsertOrder :: "int allocator \<Rightarrow> nat \<Rightarrow> int \<Rightarrow> int heap \<Rightarrow> int heap option" where
  "InsertOrder malloc header x h = do {
     (tmp, c) \<leftarrow> malloc h;
     h \<leftarrow> set_element tmp x (h(tmp \<mapsto> c));
     n \<leftarrow> get_next h header;
     at_front \<leftarrow> (case n of None \<Rightarrow> Some True | Some q \<Rightarrow> do { e \<leftarrow> get_element h q; Some (e \<ge> x) });
     if at_front
     then do {
       h \<leftarrow> set_next tmp n h;
       set_next header (Some tmp) h
     }
     else do {
       q \<leftarrow> n;
       p \<leftarrow> walk_below h x q;
       m \<leftarrow> get_next h p;
       h \<leftarrow> set_next tmp m h;
       set_next p (Some tmp) h
     }
   }"

text \<open>\<^verbatim>\<open>while (p != NULL && p->element != x) p = p->next;\<close>, alone and with the counter.\<close>

partial_function (option) find_from :: "int heap \<Rightarrow> int \<Rightarrow> nat option \<Rightarrow> nat option option" where
  "find_from h x p =
     (case p of
        None \<Rightarrow> Some None
      | Some a \<Rightarrow> do { c \<leftarrow> h a; if element c \<noteq> x then find_from h x (nextp c) else Some p })"

definition Find_SLL :: "nat \<Rightarrow> int \<Rightarrow> int heap \<Rightarrow> nat option option" where
  "Find_SLL header x h = do { n \<leftarrow> get_next h header; find_from h x n }"

partial_function (option) find_count :: "int heap \<Rightarrow> int \<Rightarrow> int \<Rightarrow> nat option \<Rightarrow> (int \<times> nat option) option" where
  "find_count h x cnt p =
     (case p of
        None \<Rightarrow> Some (cnt, None)
      | Some a \<Rightarrow> do { c \<leftarrow> h a; if element c \<noteq> x then find_count h x (cnt + 1) (nextp c) else Some (cnt, p) })"

definition FindNodeth :: "nat \<Rightarrow> int \<Rightarrow> int heap \<Rightarrow> int option" where
  "FindNodeth header x h = do {
     n \<leftarrow> get_next h header;
     (cnt, p) \<leftarrow> find_count h x 1 n;
     Some (if p = None then -1 else cnt)
   }"

text \<open>The Boolean result says whether the element was there (otherwise a message is printed).\<close>

definition Delete_SLL :: "nat \<Rightarrow> int \<Rightarrow> int heap \<Rightarrow> (bool \<times> int heap) option" where
  "Delete_SLL header x h = do {
     p \<leftarrow> Find_SLL header x h;
     pre \<leftarrow> walk_before h p header;
     case p of
       Some a \<Rightarrow> do {
         n \<leftarrow> get_next h a;
         h \<leftarrow> set_next pre n h;
         h \<leftarrow> free_cell a h;
         Some (True, h)
       }
     | None \<Rightarrow> Some (False, h)
   }"

partial_function (option) modify_from :: "int \<Rightarrow> int \<Rightarrow> nat option \<Rightarrow> int heap \<Rightarrow> int heap option" where
  "modify_from x y p h =
     (case p of
        None \<Rightarrow> Some h
      | Some a \<Rightarrow> do { c \<leftarrow> h a; if element c = x then set_element a y h else modify_from x y (nextp c) h })"

definition Modify :: "nat \<Rightarrow> int \<Rightarrow> int \<Rightarrow> int heap \<Rightarrow> int heap option" where
  "Modify header x y h = do { n \<leftarrow> get_next h header; modify_from x y n h }"

partial_function (option) merge_loop :: "nat option \<Rightarrow> nat option \<Rightarrow> nat \<Rightarrow> int heap \<Rightarrow> int heap option" where
  "merge_loop p1 p2 p3 h =
     (case p1 of
        None \<Rightarrow> set_next p3 p2 h
      | Some a \<Rightarrow> (case p2 of
          None \<Rightarrow> set_next p3 p1 h
        | Some b \<Rightarrow> do {
            ea \<leftarrow> get_element h a;
            eb \<leftarrow> get_element h b;
            if ea < eb
            then do { h \<leftarrow> set_next p3 p1 h; n \<leftarrow> get_next h a; merge_loop n p2 a h }
            else do { h \<leftarrow> set_next p3 p2 h; n \<leftarrow> get_next h b; merge_loop p1 n b h }
          }))"

definition Merge_SLL :: "int allocator \<Rightarrow> nat \<Rightarrow> nat \<Rightarrow> int heap \<Rightarrow> (nat \<times> int heap) option" where
  "Merge_SLL malloc header1 header2 h = do {
     (h3, c) \<leftarrow> malloc h;
     h \<leftarrow> Some (h(h3 \<mapsto> c));
     p1 \<leftarrow> get_next h header1;
     p2 \<leftarrow> get_next h header2;
     h \<leftarrow> merge_loop p1 p2 h3 h;
     Some (h3, h)
   }"

definition PrintList :: "nat \<Rightarrow> int heap \<Rightarrow> int list option" where
  "PrintList header h = do { p \<leftarrow> get_next h header; elements_from h p }"

declare walk_below.simps [code] find_from.simps [code] find_count.simps [code] modify_from.simps [code] merge_loop.simps [code]

section \<open>Loops on chains\<close>

lemma PrintList_listed: "linked hdr h \<Longrightarrow> PrintList hdr h = Some (listed hdr h)"
  using Show_listed by (simp add: PrintList_def ShowLLQ_def)

lemma elem_at_Some: "h a = Some c \<Longrightarrow> elem_at h a = element c"
  by (simp add: elem_at_def)

text \<open>The position before which \<open>x\<close> belongs.\<close>

lemma walk_below_chain:
  assumes "chain h (Some p) (p # as @ bs) None" "\<forall>a \<in> set as. elem_at h a < x" "bs = [] \<or> elem_at h (hd bs) \<ge> x"
  shows "walk_below h x p = Some (last (p # as))"
  using assms
proof (induction as arbitrary: p)
  case Nil
  then show ?case
    by (subst walk_below.simps) (cases bs; auto simp: get_next_def get_element_def elem_at_def split: option.splits)
next
  case (Cons a as)
  then show ?case
    by (subst walk_below.simps) (auto simp: get_next_def get_element_def elem_at_def split: option.splits)
qed

lemma find_from_chain:
  "chain h p as None \<Longrightarrow> find_from h x p = Some (List.find (\<lambda>a. elem_at h a = x) as)"
proof (induction as arbitrary: p)
  case Nil
  then show ?case by (subst find_from.simps) simp
next
  case (Cons a as)
  then show ?case by (subst find_from.simps) (auto simp: elem_at_def split: option.splits)
qed

lemma find_count_chain:
  "chain h p as None \<Longrightarrow> find_count h x n p =
     Some (n + int (length (takeWhile (\<lambda>a. elem_at h a \<noteq> x) as)), List.find (\<lambda>a. elem_at h a = x) as)"
proof (induction as arbitrary: p n)
  case Nil
  then show ?case by (subst find_count.simps) simp
next
  case (Cons a as)
  then show ?case by (subst find_count.simps) (auto simp: elem_at_def split: option.splits)
qed

lemma find_split:
  assumes "List.find (\<lambda>a. P a) as = Some t"
  obtains us vs where "as = us @ t # vs" "\<forall>a \<in> set us. \<not> P a" "P t"
  using assms by (auto simp: find_Some_iff) (metis id_take_nth_drop in_set_conv_nth length_take less_le_trans min.cobounded1 min_less_iff_conj nth_take)

lemma insort_split: "\<forall>y \<in> set us. y < x \<Longrightarrow> vs = [] \<or> x \<le> hd vs \<Longrightarrow> insort x (us @ vs) = us @ x # vs"
  for x :: int by (induction us; cases vs) auto

section \<open>Inserting\<close>

text \<open>Linking a new node behind the node \<open>p\<close> of a list.\<close>

lemma link_new:
  assumes "list_at h hdr (as @ bs)" "h t = None" "p = last (hdr # as)"
  obtains h' where "(do { h \<leftarrow> set_element t x (h(t \<mapsto> c)); n \<leftarrow> get_next h p; h \<leftarrow> set_next t n h; set_next p (Some t) h }) = Some h'"
    "list_at h' hdr (as @ t # bs)" "map (elem_at h') (as @ t # bs) = map (elem_at h) as @ x # map (elem_at h) bs"
proof -
  have live: "\<And>a. a \<in> set (hdr # as @ bs) \<Longrightarrow> h a \<noteq> None" by (rule list_atD(3) [OF assms(1)])
  then have t: "t \<notin> set (hdr # as @ bs)" using assms(2) by blast
  have "p \<in> set (hdr # as)" unfolding assms(3) by (rule last_in_set) simp
  then have p: "p \<in> set (hdr # as @ bs)" by auto
  then obtain d where d: "h p = Some d" using live by blast
  have ne: "t \<noteq> p" using p t by metis
  let ?n = "c\<lparr>element := x, nextp := nextp d\<rparr>"
  let ?h = "h(t \<mapsto> ?n, p \<mapsto> d\<lparr>nextp := Some t\<rparr>)"
  have "(do { h \<leftarrow> set_element t x (h(t \<mapsto> c)); n \<leftarrow> get_next h p; h \<leftarrow> set_next t n h; set_next p (Some t) h }) = Some ?h"
    using ne d by (simp add: set_element_def set_next_def get_next_def)
  moreover have "list_at ?h hdr (as @ t # bs)"
    using link_after [OF assms(1) t assms(3) d, of ?n] by simp
  moreover have "map (elem_at ?h) (as @ t # bs) = map (elem_at h) as @ x # map (elem_at h) bs"
    using t ne d by (auto simp: elem_at_def)
  ultimately show ?thesis using that by blast
qed

lemma list_at_new: "list_at h hdr as \<Longrightarrow> h t = None \<Longrightarrow> list_at (h(t \<mapsto> c)) hdr as"
  using list_atD(3) [of h hdr as t] unfolding list_at_def by (subst chain_upd) auto

lemma map_elem_new: "list_at h hdr as \<Longrightarrow> h t = None \<Longrightarrow> map (elem_at (h(t \<mapsto> c))) as = map (elem_at h) as"
  using list_atD(3) [of h hdr as t] by (intro map_elem_upd) auto

lemma listed_at: "list_at h hdr as \<Longrightarrow> linked hdr h \<and> PrintList hdr h = Some (map (elem_at h) as)"
  using listed_eq PrintList_listed by (fastforce simp: linked_def)

lemma InsertFront_list:
  assumes "malloc_ok malloc" "malloc h = Some (t, c)" "list_at h hdr as"
  shows "\<exists>h'. InsertFront malloc hdr x h = Some h' \<and> list_at h' hdr (t # as) \<and> map (elem_at h') (t # as) = x # map (elem_at h) as"
proof -
  note t = fresh_node(2) [OF assms]
  obtain h' where h': "(do { h \<leftarrow> set_element t x (h(t \<mapsto> c)); n \<leftarrow> get_next h hdr; h \<leftarrow> set_next t n h; set_next hdr (Some t) h }) = Some h'"
    "list_at h' hdr ([] @ t # as)" "map (elem_at h') ([] @ t # as) = map (elem_at h) [] @ x # map (elem_at h) as"
    using link_new [of h hdr "[]" as t hdr x c] assms(3) t by auto
  then show ?thesis using assms(2) by (simp add: InsertFront_def)
qed

lemma InsertTail_list:
  assumes "malloc_ok malloc" "malloc h = Some (t, c)" "list_at h hdr as"
  shows "\<exists>h'. InsertTail malloc hdr x h = Some h' \<and> list_at h' hdr (as @ [t]) \<and> map (elem_at h') (as @ [t]) = map (elem_at h) as @ [x]"
proof -
  note t = fresh_node [OF assms]
  obtain h' where h': "push_LLQ malloc hdr x h = Some h'" "list_at h' hdr (as @ [t])" "map (elem_at h') (as @ [t]) = map (elem_at h) as @ [x]"
    using push_list [OF assms(1,3,2)] by blast
  let ?h = "h(t \<mapsto> c\<lparr>element := x, nextp := None\<rparr>)"
  have "walk_end ?h hdr = walk_end h hdr"
    using walk_end_list [OF assms(3) refl] walk_end_list [OF list_at_new [OF assms(3) t(2)] refl] by simp
  then have "InsertTail malloc hdr x h = push_LLQ malloc hdr x h"
    using assms(2) walk_end_list [OF assms(3) refl] by (simp add: InsertTail_def push_LLQ_def set_element_def set_next_def)
  with h' show ?thesis by auto
qed

lemma InsertOrder_list:
  assumes "malloc_ok malloc" "malloc h = Some (t, c)" "list_at h hdr as"
  shows "\<exists>h' bs. InsertOrder malloc hdr x h = Some h' \<and> list_at h' hdr bs \<and> map (elem_at h') bs = insort x (map (elem_at h) as)"
proof -
  note t = fresh_node [OF assms]
  define us where "us = takeWhile (\<lambda>a. elem_at h a < x) as"
  define vs where "vs = dropWhile (\<lambda>a. elem_at h a < x) as"
  have as: "as = us @ vs" by (simp add: us_def vs_def)
  have us: "\<forall>a \<in> set us. elem_at h a < x" by (auto simp: us_def dest: set_takeWhileD)
  have vs: "vs = [] \<or> elem_at h (hd vs) \<ge> x" using hd_dropWhile [of "\<lambda>a. elem_at h a < x" as] unfolding vs_def by linarith
  have ins: "insort x (map (elem_at h) as) = map (elem_at h) us @ x # map (elem_at h) vs"
    unfolding as map_append using us vs by (intro insort_split) (auto, cases vs, auto)
  define p where "p = last (hdr # us)"
  define h1 where "h1 = h(t \<mapsto> c\<lparr>element := x\<rparr>)"
  have h1: "set_element t x (h(t \<mapsto> c)) = Some h1" by (simp add: h1_def set_element_def)
  have l1: "list_at h1 hdr (us @ vs)" unfolding h1_def using list_at_new [OF assms(3) t(2)] as by simp
  have e1: "elem_at h1 a = elem_at h a" if "a \<in> set as" for a using that t(1) by (auto simp: h1_def elem_at_def)
  obtain d where d: "h1 hdr = Some d" "chain h1 (nextp d) (us @ vs) None" using list_atD(1) [OF l1] by blast
  obtain h' where h': "(do { h \<leftarrow> set_element t x (h(t \<mapsto> c)); n \<leftarrow> get_next h p; h \<leftarrow> set_next t n h; set_next p (Some t) h }) = Some h'"
    "list_at h' hdr (us @ t # vs)" "map (elem_at h') (us @ t # vs) = map (elem_at h) us @ x # map (elem_at h) vs"
    using link_new [of h hdr us vs t p x c] assms(3) t(2) as p_def by auto
  have "InsertOrder malloc hdr x h = Some h'"
  proof (cases us)
    case Nil
    then have "p = hdr" by (simp add: p_def)
    moreover have "nextp d = None \<or> (\<exists>q e. nextp d = Some q \<and> h1 q = Some e \<and> element e \<ge> x)"
      using d(2) vs e1 [of "hd vs"] Nil as by (cases vs) (auto simp: elem_at_def split: option.splits)
    ultimately show ?thesis using h'(1) assms(2) h1 d(1) by (auto simp: InsertOrder_def get_next_def get_element_def)
  next
    case (Cons u ws)
    then obtain e where e: "nextp d = Some u" "h1 u = Some e" "element e < x"
      using d(2) us e1 as by (fastforce simp: elem_at_def split: option.splits)
    have "vs = [] \<or> elem_at h1 (hd vs) \<ge> x" using vs e1 [of "hd vs"] as by (cases vs) auto
    then have "walk_below h1 x u = Some p"
      using walk_below_chain [of h1 u ws vs x] d(2) e(1) Cons us vs e1 as by (auto simp: p_def)
    then show ?thesis using h'(1) assms(2) h1 d(1) e by (simp add: InsertOrder_def get_next_def get_element_def)
  qed
  with h' ins show ?thesis by auto
qed

text \<open>
  Inserting into the single linked list: in front, at the end, or in order, the printed list
  afterwards is the old one with the element there; in order means before the first element
  that is not smaller, so a sorted list stays sorted.
\<close>

theorem single_list_inserts:
  assumes "malloc_ok malloc" "malloc h \<noteq> None" "linked hdr h" "PrintList hdr h = Some xs"
  shows "(\<exists>h'. InsertFront malloc hdr x h = Some h' \<and> linked hdr h' \<and> PrintList hdr h' = Some (x # xs)) \<and>
    (\<exists>h'. InsertTail malloc hdr x h = Some h' \<and> linked hdr h' \<and> PrintList hdr h' = Some (xs @ [x])) \<and>
    (\<exists>h'. InsertOrder malloc hdr x h = Some h' \<and> linked hdr h' \<and> PrintList hdr h' = Some (insort x xs))"
proof -
  obtain t c where m: "malloc h = Some (t, c)" using assms(2) by auto
  obtain as where as: "list_at h hdr as" using assms(3) by (auto simp: linked_def)
  have xs: "xs = map (elem_at h) as" using assms(4) listed_at [OF as] by simp
  from InsertFront_list [OF assms(1) m as] InsertTail_list [OF assms(1) m as] InsertOrder_list [OF assms(1) m as, of x] xs
  show ?thesis by (metis listed_at)
qed

theorem single_list_inserts_witness:
  "\<exists>h'. InsertOrder (bump 5) 0 4 [0 \<mapsto> \<lparr>element = 7, nextp = Some 2\<rparr>, 2 \<mapsto> \<lparr>element = 3, nextp = Some 1\<rparr>, 1 \<mapsto> \<lparr>element = 9, nextp = None\<rparr>] = Some h' \<and>
     PrintList 0 h' = Some [3, 4, 9]"
proof -
  let ?h = "[0 \<mapsto> \<lparr>element = 7 :: int, nextp = Some 2\<rparr>, 2 \<mapsto> \<lparr>element = 3, nextp = Some 1\<rparr>, 1 \<mapsto> \<lparr>element = 9, nextp = None\<rparr>]"
  have l: "list_at ?h 0 [2, 1]" by (simp add: list_at_def)
  have p: "PrintList 0 ?h = Some [3, 9]" using listed_at [OF l] by (simp add: elem_at_def)
  have m: "bump 5 ?h \<noteq> None" by (simp add: bump_def upt_rec)
  show ?thesis using single_list_inserts [OF bump_ok m _ p, of 4] listed_at [OF l] by auto
qed

section \<open>Searching, deleting, changing\<close>

lemma Delete_SLL_list:
  assumes "list_at h hdr as"
  shows "\<exists>h' bs. Delete_SLL hdr x h = Some (x \<in> elem_at h ` set as, h') \<and> list_at h' hdr bs \<and>
    map (elem_at h') bs = remove1 x (map (elem_at h) as)"
proof -
  obtain d where d: "h hdr = Some d" "chain h (nextp d) as None" using list_atD(1) [OF assms] by blast
  have find: "Find_SLL hdr x h = Some (List.find (\<lambda>a. elem_at h a = x) as)"
    using find_from_chain [OF d(2)] d(1) by (simp add: Find_SLL_def get_next_def)
  show ?thesis
  proof (cases "List.find (\<lambda>a. elem_at h a = x) as")
    case None
    then have no: "x \<notin> elem_at h ` set as" by (auto simp: find_None_iff)
    define p where "p = last (hdr # as)"
    obtain us where us: "hdr # as = us @ [p]" by (rule last_split [OF p_def])
    have "walk_before h None hdr = Some p"
      using assms unfolding list_at_def us by (intro walk_before_chain) auto
    with None find no assms show ?thesis by (auto simp: Delete_SLL_def remove1_idem)
  next
    case (Some t)
    then obtain us vs where sp: "as = us @ t # vs" "\<forall>a \<in> set us. elem_at h a \<noteq> x" "elem_at h t = x" by (rule find_split)
    define p where "p = last (hdr # us)"
    have l: "list_at h hdr (us @ t # vs)" using assms sp by simp
    have "p \<in> set (hdr # us)" unfolding p_def by (rule last_in_set) simp
    then have "p \<noteq> t" "p \<in> set (hdr # us @ t # vs)" "t \<notin> set us" "t \<notin> set vs" using l by (auto simp: list_at_def)
    moreover obtain c where c: "h p = Some c" using list_atD(3) [OF l] calculation(2) by blast
    moreover obtain e where e: "h t = Some e" using list_atD(3) [OF l, of t] by auto
    ultimately have "Delete_SLL hdr x h = Some (True, h(p \<mapsto> c\<lparr>nextp := nextp e\<rparr>, t := None))"
      using find Some walk_before_list [OF l p_def] by (simp add: Delete_SLL_def get_next_def set_next_def free_cell_def)
    moreover have "list_at (h(p \<mapsto> c\<lparr>nextp := nextp e\<rparr>, t := None)) hdr (us @ vs)" by (rule unlink_after [OF l p_def c e])
    moreover have "map (elem_at (h(p \<mapsto> c\<lparr>nextp := nextp e\<rparr>, t := None))) (us @ vs) = map (elem_at h) (us @ vs)"
      using \<open>t \<notin> set us\<close> \<open>t \<notin> set vs\<close> c by (auto simp: elem_at_def)
    moreover have "remove1 x (map (elem_at h) as) = map (elem_at h) (us @ vs)" "x \<in> elem_at h ` set as"
      using sp by (auto simp: remove1_append)
    ultimately show ?thesis by auto
  qed
qed

lemma modify_from_chain:
  "chain h p as None \<Longrightarrow> modify_from x y p h =
     (case List.find (\<lambda>a. elem_at h a = x) as of None \<Rightarrow> Some h | Some t \<Rightarrow> set_element t y h)"
proof (induction as arbitrary: p)
  case Nil
  then show ?case by (subst modify_from.simps) simp
next
  case (Cons a as)
  then show ?case by (subst modify_from.simps) (auto simp: elem_at_def split: option.splits)
qed

lemma chain_element: "h a = Some c \<Longrightarrow> chain (h(a \<mapsto> c\<lparr>element := x\<rparr>)) p as q = chain h p as q"
  by (induction as arbitrary: p) (auto split: option.splits)

fun replace1 :: "'a \<Rightarrow> 'a \<Rightarrow> 'a list \<Rightarrow> 'a list" where
  "replace1 x y [] = []"
| "replace1 x y (z # zs) = (if z = x then y # zs else z # replace1 x y zs)"

lemma replace1_append: "x \<notin> set us \<Longrightarrow> replace1 x y (us @ vs) = us @ replace1 x y vs"
  by (induction us) auto

lemma replace1_idle: "x \<notin> set us \<Longrightarrow> replace1 x y us = us"
  using replace1_append [of x us y "[]"] by simp

lemma Modify_list:
  assumes "list_at h hdr as"
  shows "\<exists>h'. Modify hdr x y h = Some h' \<and> list_at h' hdr as \<and> map (elem_at h') as = replace1 x y (map (elem_at h) as)"
proof -
  obtain d where d: "h hdr = Some d" "chain h (nextp d) as None" using list_atD(1) [OF assms] by blast
  have eq: "Modify hdr x y h = (case List.find (\<lambda>a. elem_at h a = x) as of None \<Rightarrow> Some h | Some t \<Rightarrow> set_element t y h)"
    using modify_from_chain [OF d(2)] d(1) by (simp add: Modify_def get_next_def)
  show ?thesis
  proof (cases "List.find (\<lambda>a. elem_at h a = x) as")
    case None
    then have "x \<notin> set (map (elem_at h) as)" by (auto simp: find_None_iff)
    with None eq assms show ?thesis by (simp add: replace1_idle)
  next
    case (Some t)
    then obtain us vs where sp: "as = us @ t # vs" "\<forall>a \<in> set us. elem_at h a \<noteq> x" "elem_at h t = x" by (rule find_split)
    obtain e where e: "h t = Some e" using list_atD(3) [OF assms, of t] sp by auto
    have "t \<notin> set us" "t \<notin> set vs" using assms sp(1) by (auto simp: list_at_def)
    then have "map (elem_at (h(t \<mapsto> e\<lparr>element := y\<rparr>))) as = map (elem_at h) us @ y # map (elem_at h) vs"
      using sp(1) by (auto simp: elem_at_def)
    moreover have "replace1 x y (map (elem_at h) as) = map (elem_at h) us @ y # map (elem_at h) vs"
      using sp replace1_append [of x "map (elem_at h) us"] by force
    ultimately show ?thesis using eq Some e assms by (simp add: set_element_def list_at_def chain_element del: chain.simps)
  qed
qed

text \<open>
  Searching, deleting and changing: the position reported is that of the first occurrence
  (counted from 1), or -1; deletion removes the first occurrence, frees its node and reports
  whether there was one; changing replaces the first occurrence. Nothing is done out of bounds
  of the list, also when the element is missing.
\<close>

theorem single_list_updates:
  assumes "linked hdr h" "PrintList hdr h = Some xs"
  shows "FindNodeth hdr x h = Some (if x \<in> set xs then 1 + int (length (takeWhile (\<lambda>z. z \<noteq> x) xs)) else -1) \<and>
    (\<exists>h'. Delete_SLL hdr x h = Some (x \<in> set xs, h') \<and> linked hdr h' \<and> PrintList hdr h' = Some (remove1 x xs)) \<and>
    (\<exists>h'. Modify hdr x y h = Some h' \<and> linked hdr h' \<and> PrintList hdr h' = Some (replace1 x y xs))"
proof -
  obtain as where as: "list_at h hdr as" using assms(1) by (auto simp: linked_def)
  have xs: "xs = map (elem_at h) as" using assms(2) listed_at [OF as] by simp
  obtain d where d: "h hdr = Some d" "chain h (nextp d) as None" using list_atD(1) [OF as] by blast
  have "length (takeWhile (\<lambda>z. z \<noteq> x) xs) = length (takeWhile (\<lambda>a. elem_at h a \<noteq> x) as)"
    by (simp add: xs takeWhile_map comp_def)
  moreover have "List.find (\<lambda>a. elem_at h a = x) as = None \<longleftrightarrow> x \<notin> set xs" by (auto simp: find_None_iff xs)
  ultimately have "FindNodeth hdr x h = Some (if x \<in> set xs then 1 + int (length (takeWhile (\<lambda>z. z \<noteq> x) xs)) else -1)"
    using find_count_chain [OF d(2), of x 1] d(1) by (simp add: FindNodeth_def get_next_def)
  moreover have "\<exists>h'. Delete_SLL hdr x h = Some (x \<in> set xs, h') \<and> linked hdr h' \<and> PrintList hdr h' = Some (remove1 x xs)"
    using Delete_SLL_list [OF as, of x] listed_at xs by (metis list.set_map)
  moreover have "\<exists>h'. Modify hdr x y h = Some h' \<and> linked hdr h' \<and> PrintList hdr h' = Some (replace1 x y xs)"
    using Modify_list [OF as, of x y] listed_at xs by metis
  ultimately show ?thesis by blast
qed

theorem single_list_updates_witness:
  "FindNodeth 0 9 [0 \<mapsto> \<lparr>element = 7, nextp = Some 2\<rparr>, 2 \<mapsto> \<lparr>element = 3, nextp = Some 1\<rparr>, 1 \<mapsto> \<lparr>element = 9, nextp = None\<rparr>] = Some 2"
proof -
  let ?h = "[0 \<mapsto> \<lparr>element = 7 :: int, nextp = Some 2\<rparr>, 2 \<mapsto> \<lparr>element = 3, nextp = Some 1\<rparr>, 1 \<mapsto> \<lparr>element = 9, nextp = None\<rparr>]"
  have l: "list_at ?h 0 [2, 1]" by (simp add: list_at_def)
  have p: "linked 0 ?h" "PrintList 0 ?h = Some [3, 9]" using listed_at [OF l] by (simp_all add: elem_at_def)
  show ?thesis using single_list_updates [OF p, of 9] by simp
qed

section \<open>Merging\<close>

fun merged :: "('a \<Rightarrow> int) \<Rightarrow> 'a list \<Rightarrow> 'a list \<Rightarrow> 'a list" where
  "merged f [] bs = bs"
| "merged f as [] = as"
| "merged f (a # as) (b # bs) = (if f a < f b then a # merged f as (b # bs) else b # merged f (a # as) bs)"

lemma merged_Nil [simp]: "merged f as [] = as"
  by (cases as) auto

lemma mset_merged: "mset (merged f as bs) = mset as + mset bs"
  by (induction f as bs rule: merged.induct) auto

lemma set_merged [simp]: "set (merged f as bs) = set as \<union> set bs"
  by (induction f as bs rule: merged.induct) auto

lemma map_merged: "map f (merged f as bs) = merged (\<lambda>x. x) (map f as) (map f bs)"
  by (induction f as bs rule: merged.induct) auto

lemma sorted_merged: "sorted xs \<Longrightarrow> sorted ys \<Longrightarrow> sorted (merged (\<lambda>x. x) xs ys)" for xs ys :: "int list"
  by (induction "\<lambda>x :: int. x" xs ys rule: merged.induct) (auto simp: mset_merged)

lemma merged_cong: "(\<And>a. a \<in> set as \<union> set bs \<Longrightarrow> f a = g a) \<Longrightarrow> merged f as bs = merged g as bs"
  by (induction f as bs rule: merged.induct) auto

text \<open>The relinking loop keeps every element and leaves the rest of the heap alone.\<close>

lemma merge_loop_chain:
  assumes "chain h p1 as None" "chain h p2 bs None" "distinct (p3 # as @ bs)" "h p3 = Some c"
  shows "\<exists>h'. merge_loop p1 p2 p3 h = Some h' \<and> chain h' (Some p3) (p3 # merged (elem_at h) as bs) None \<and>
    (\<forall>a. elem_at h' a = elem_at h a) \<and> (\<forall>a. a \<notin> set (p3 # as @ bs) \<longrightarrow> h' a = h a)"
  using assms
proof (induction "length as + length bs" arbitrary: as bs p1 p2 p3 h c)
  case (0 as bs)
  then show ?case by (subst merge_loop.simps) (auto simp: set_next_def elem_at_def)
next
  case (Suc n as bs)
  show ?case
  proof (cases "as = [] \<or> bs = []")
    case True
    then show ?thesis using Suc.prems
      by (subst merge_loop.simps) (cases p1; cases p2; auto simp: set_next_def elem_at_def neq_Nil_conv)
  next
    case False
    then obtain a as' b bs' where ab: "as = a # as'" "bs = b # bs'" by (auto simp: neq_Nil_conv)
    obtain ca cb where c: "p1 = Some a" "h a = Some ca" "chain h (nextp ca) as' None" "p2 = Some b" "h b = Some cb" "chain h (nextp cb) bs' None"
      using Suc.prems ab by (auto split: option.splits)
    let ?q = "if element ca < element cb then a else b"
    define h1 where "h1 = h(p3 \<mapsto> c\<lparr>nextp := Some ?q\<rparr>)"
    have e1: "elem_at h1 = elem_at h" using Suc.prems(4) by (simp add: h1_def)
    have ne: "p3 \<noteq> a" "p3 \<noteq> b" "p3 \<notin> set as" "p3 \<notin> set bs" using Suc.prems(3) ab by auto
    then have ch: "chain h1 p1 as None" "chain h1 p2 bs None" "chain h1 (nextp ca) as' None" "chain h1 (nextp cb) bs' None" "h1 a = Some ca" "h1 b = Some cb"
      using c Suc.prems(1,2) ab by (simp_all add: h1_def)
    have eab: "elem_at h a = element ca" "elem_at h b = element cb" using c by (auto simp: elem_at_def)
    show ?thesis
    proof (cases "element ca < element cb")
      case True
      have "n = length as' + length bs" "distinct (a # as' @ bs)" using Suc.hyps(2) Suc.prems(3) ab by auto
      from Suc.hyps(1) [OF this(1) ch(3,2) this(2) ch(5)] obtain h' where h': "merge_loop (nextp ca) p2 a h1 = Some h'"
        "chain h' (Some a) (a # merged (elem_at h) as' bs) None" "\<forall>x. elem_at h' x = elem_at h x" "\<forall>x. x \<notin> set (a # as' @ bs) \<longrightarrow> h' x = h1 x"
        unfolding e1 by blast
      have "merge_loop p1 p2 p3 h = Some h'" using c ne True h'(1) Suc.prems(4)
        by (subst merge_loop.simps) (simp add: set_next_def get_next_def get_element_def h1_def)
      moreover have "h' p3 = Some (c\<lparr>nextp := Some a\<rparr>)" using h'(4) ne ab True by (simp add: h1_def)
      ultimately show ?thesis using h' ab eab True by (auto simp: h1_def)
    next
      case False
      have "n = length as + length bs'" "distinct (b # as @ bs')" using Suc.hyps(2) Suc.prems(3) ab by auto
      from Suc.hyps(1) [OF this(1) ch(1,4) this(2) ch(6)] obtain h' where h': "merge_loop p1 (nextp cb) b h1 = Some h'"
        "chain h' (Some b) (b # merged (elem_at h) as bs') None" "\<forall>x. elem_at h' x = elem_at h x" "\<forall>x. x \<notin> set (b # as @ bs') \<longrightarrow> h' x = h1 x"
        unfolding e1 by blast
      have "merge_loop p1 p2 p3 h = Some h'" using c ne False h'(1) Suc.prems(4)
        by (subst merge_loop.simps) (simp add: set_next_def get_next_def get_element_def h1_def)
      moreover have "h' p3 = Some (c\<lparr>nextp := Some b\<rparr>)" using h'(4) ne ab False by (simp add: h1_def)
      ultimately show ?thesis using h' ab eab False by (auto simp: h1_def)
    qed
  qed
qed

text \<open>
  C20. Merging two sorted lists that share no node gives, under a new header, the sorted list of
  all their elements, made of the old nodes.
\<close>

theorem merge_lists_sorted:
  assumes "malloc_ok malloc" "malloc h \<noteq> None" "list_at h hdr1 as" "list_at h hdr2 bs" "set (hdr1 # as) \<inter> set (hdr2 # bs) = {}"
    "sorted (map (elem_at h) as)" "sorted (map (elem_at h) bs)"
  shows "\<exists>hdr3 h' xs. Merge_SLL malloc hdr1 hdr2 h = Some (hdr3, h') \<and> linked hdr3 h' \<and> PrintList hdr3 h' = Some xs \<and>
    sorted xs \<and> mset xs = mset (map (elem_at h) as) + mset (map (elem_at h) bs)"
proof -
  obtain t c where m: "malloc h = Some (t, c)" using assms(2) by auto
  note fresh = fresh_node [OF assms(1) m assms(3)] fresh_node [OF assms(1) m assms(4)]
  let ?h = "h(t \<mapsto> c)"
  obtain c1 c2 where c12: "h hdr1 = Some c1" "chain h (nextp c1) as None" "h hdr2 = Some c2" "chain h (nextp c2) bs None"
    using list_atD(1) [OF assms(3)] list_atD(1) [OF assms(4)] by blast
  have "chain ?h (nextp c1) as None" "chain ?h (nextp c2) bs None" using c12 fresh by simp_all
  moreover have "distinct (t # as @ bs)" using fresh assms(3-5) by (auto simp: list_at_def)
  ultimately obtain h' where h': "merge_loop (nextp c1) (nextp c2) t ?h = Some h'"
    "chain h' (Some t) (t # merged (elem_at ?h) as bs) None" "\<forall>a. elem_at h' a = elem_at ?h a"
    using merge_loop_chain [of ?h "nextp c1" as "nextp c2" bs t c] by auto
  have mm: "merged (elem_at ?h) as bs = merged (elem_at h) as bs" using fresh by (intro merged_cong) (auto simp: elem_at_def)
  have "distinct (t # merged (elem_at h) as bs)"
    using \<open>distinct (t # as @ bs)\<close> mset_eq_imp_distinct_iff [of "merged (elem_at h) as bs" "as @ bs"] by (auto simp: mset_merged)
  then have l: "list_at h' t (merged (elem_at h) as bs)" using h'(2) mm by (simp add: list_at_def)
  have "map (elem_at h') (merged (elem_at h) as bs) = map (elem_at h) (merged (elem_at h) as bs)"
    using h'(3) fresh by (auto simp: elem_at_def)
  then have "PrintList t h' = Some (merged (\<lambda>x. x) (map (elem_at h) as) (map (elem_at h) bs))"
    using listed_at [OF l] by (simp add: map_merged)
  moreover have "t \<noteq> hdr1" "t \<noteq> hdr2" using fresh by auto
  then have "Merge_SLL malloc hdr1 hdr2 h = Some (t, h')" using m c12 h'(1) by (simp add: Merge_SLL_def get_next_def)
  ultimately show ?thesis using listed_at [OF l] sorted_merged [OF assms(6,7)] mset_merged by blast
qed

theorem merge_lists_sorted_witness:
  "\<exists>hdr3 h' xs. Merge_SLL (bump 9) 0 1
     [0 \<mapsto> \<lparr>element = 0, nextp = Some 2\<rparr>, 1 \<mapsto> \<lparr>element = 0, nextp = Some 3\<rparr>, 2 \<mapsto> \<lparr>element = 8, nextp = None\<rparr>, 3 \<mapsto> \<lparr>element = 5, nextp = None\<rparr>] =
       Some (hdr3, h') \<and> PrintList hdr3 h' = Some xs \<and> sorted xs \<and> mset xs = {#5, 8#}"
proof -
  let ?h = "[0 \<mapsto> \<lparr>element = 0 :: int, nextp = Some 2\<rparr>, 1 \<mapsto> \<lparr>element = 0, nextp = Some 3\<rparr>, 2 \<mapsto> \<lparr>element = 8, nextp = None\<rparr>, 3 \<mapsto> \<lparr>element = 5, nextp = None\<rparr>]"
  have "bump 9 ?h \<noteq> None" "list_at ?h 0 [2]" "list_at ?h 1 [3]" "set (0 # [2]) \<inter> set (1 # [3]) = ({} :: nat set)"
    by (simp_all add: bump_def upt_rec list_at_def)
  from merge_lists_sorted [OF bump_ok this] show ?thesis by (auto simp: elem_at_def add_mset_commute)
qed

end
