(* ===== verification/Sorting_Programs.thy ===== *)
theory Sorting_Programs
  imports C_Memory
begin

text \<open>
  The in-place sorts: \<^verbatim>\<open>BubbleSort.c\<close>, \<^verbatim>\<open>InsertionSort.c\<close>, \<^verbatim>\<open>SelectionSort.c\<close>, \<^verbatim>\<open>QuickSort.c\<close> and
  \<^verbatim>\<open>ShellSort.c\<close>. Array accesses outside of the array give \<open>None\<close>.
\<close>

section \<open>The programs\<close>

definition Swap :: "int list \<Rightarrow> int \<Rightarrow> int \<Rightarrow> int list option" where
  "Swap arr i j = do {
     temp \<leftarrow> rd arr i;
     b \<leftarrow> rd arr j;
     arr \<leftarrow> wr arr i b;
     wr arr j temp
   }"

function bubble_pass :: "int list \<Rightarrow> int \<Rightarrow> int \<Rightarrow> int list option" where
  "bubble_pass arr j n =
     (if j < n
      then do {
        a \<leftarrow> rd arr j;
        b \<leftarrow> rd arr (j + 1);
        arr \<leftarrow> (if a > b then Swap arr j (j + 1) else Some arr);
        bubble_pass arr (j + 1) n
      }
      else Some arr)"
  by pat_completeness auto
termination by (relation "measure (\<lambda>(arr, j, n). nat (n - j))") auto

function bubble_rounds :: "int list \<Rightarrow> int \<Rightarrow> int \<Rightarrow> int list option" where
  "bubble_rounds arr i sz =
     (if i < sz - 1 then do { arr \<leftarrow> bubble_pass arr 0 (sz - i - 1); bubble_rounds arr (i + 1) sz } else Some arr)"
  by pat_completeness auto
termination by (relation "measure (\<lambda>(arr, i, sz). nat (sz - i))") auto

definition BubbleSort :: "int list \<Rightarrow> int \<Rightarrow> int list option" where
  "BubbleSort arr sz = bubble_rounds arr 0 sz"

function bubble_pass_flag :: "int list \<Rightarrow> int \<Rightarrow> int \<Rightarrow> bool \<Rightarrow> (int list \<times> bool) option" where
  "bubble_pass_flag arr j n flag =
     (if j < n
      then do {
        a \<leftarrow> rd arr j;
        b \<leftarrow> rd arr (j + 1);
        (arr, flag) \<leftarrow> (if a > b then do { arr \<leftarrow> Swap arr j (j + 1); Some (arr, True) } else Some (arr, flag));
        bubble_pass_flag arr (j + 1) n flag
      }
      else Some (arr, flag))"
  by pat_completeness auto
termination by (relation "measure (\<lambda>(arr, j, n, flag). nat (n - j))") auto

function bubble_rounds_flag :: "int list \<Rightarrow> int \<Rightarrow> int \<Rightarrow> int list option" where
  "bubble_rounds_flag arr i sz =
     (if i < sz - 1
      then do {
        (arr, flag) \<leftarrow> bubble_pass_flag arr 0 (sz - i - 1) False;
        if \<not> flag then Some arr else bubble_rounds_flag arr (i + 1) sz
      }
      else Some arr)"
  by pat_completeness auto
termination by (relation "measure (\<lambda>(arr, i, sz). nat (sz - i))") auto

definition BubbleSortWithFlag :: "int list \<Rightarrow> int \<Rightarrow> int list option" where
  "BubbleSortWithFlag arr sz = bubble_rounds_flag arr 0 sz"

function insertion_shift :: "int list \<Rightarrow> int \<Rightarrow> int \<Rightarrow> (int list \<times> int) option" where
  "insertion_shift arr base j =
     (if j \<ge> 0
      then do {
        v \<leftarrow> rd arr j;
        if v > base then do { arr \<leftarrow> wr arr (j + 1) v; insertion_shift arr base (j - 1) } else Some (arr, j)
      }
      else Some (arr, j))"
  by pat_completeness auto
termination by (relation "measure (\<lambda>(arr, base, j). nat (j + 1))") auto

function insertion_rounds :: "int list \<Rightarrow> int \<Rightarrow> int \<Rightarrow> int list option" where
  "insertion_rounds arr i sz =
     (if i < sz
      then do {
        base \<leftarrow> rd arr i;
        (arr, j) \<leftarrow> insertion_shift arr base (i - 1);
        arr \<leftarrow> wr arr (j + 1) base;
        insertion_rounds arr (i + 1) sz
      }
      else Some arr)"
  by pat_completeness auto
termination by (relation "measure (\<lambda>(arr, i, sz). nat (sz - i))") auto

definition InsertionSort :: "int list \<Rightarrow> int \<Rightarrow> int list option" where
  "InsertionSort arr sz = insertion_rounds arr 1 sz"

function min_index :: "int list \<Rightarrow> int \<Rightarrow> int \<Rightarrow> int \<Rightarrow> int option" where
  "min_index arr m j sz =
     (if j < sz
      then do { a \<leftarrow> rd arr j; b \<leftarrow> rd arr m; min_index arr (if a < b then j else m) (j + 1) sz }
      else Some m)"
  by pat_completeness auto
termination by (relation "measure (\<lambda>(arr, m, j, sz). nat (sz - j))") auto

function selection_rounds :: "int list \<Rightarrow> int \<Rightarrow> int \<Rightarrow> int list option" where
  "selection_rounds arr i sz =
     (if i < sz
      then do { m \<leftarrow> min_index arr i (i + 1) sz; arr \<leftarrow> Swap arr i m; selection_rounds arr (i + 1) sz }
      else Some arr)"
  by pat_completeness auto
termination by (relation "measure (\<lambda>(arr, i, sz). nat (sz - i))") auto

definition SelectionSort :: "int list \<Rightarrow> int \<Rightarrow> int list option" where
  "SelectionSort arr sz = selection_rounds arr 0 sz"

function partition_loop :: "int list \<Rightarrow> int \<Rightarrow> int \<Rightarrow> int \<Rightarrow> int \<Rightarrow> (int list \<times> int) option" where
  "partition_loop arr pivot i j rgt =
     (if j < rgt
      then do {
        v \<leftarrow> rd arr j;
        if v \<le> pivot
        then do { arr \<leftarrow> Swap arr (i + 1) j; partition_loop arr pivot (i + 1) (j + 1) rgt }
        else partition_loop arr pivot i (j + 1) rgt
      }
      else Some (arr, i))"
  by pat_completeness auto
termination by (relation "measure (\<lambda>(arr, pivot, i, j, rgt). nat (rgt - j))") auto

definition Partition :: "int list \<Rightarrow> int \<Rightarrow> int \<Rightarrow> (int \<times> int list) option" where
  "Partition arr lft rgt = do {
     pivot \<leftarrow> rd arr rgt;
     (arr, i) \<leftarrow> partition_loop arr pivot (lft - 1) lft rgt;
     arr \<leftarrow> Swap arr (i + 1) rgt;
     Some (i + 1, arr)
   }"

partial_function (option) QuickSort :: "int list \<Rightarrow> int \<Rightarrow> int \<Rightarrow> int list option" where
  "QuickSort arr lft rgt =
     (if lft \<ge> rgt then Some arr
      else do {
        (pivot, arr) \<leftarrow> Partition arr lft rgt;
        arr \<leftarrow> QuickSort arr lft (pivot - 1);
        QuickSort arr (pivot + 1) rgt
      })"

partial_function (option) shell_shift :: "int list \<Rightarrow> int \<Rightarrow> int \<Rightarrow> int \<Rightarrow> (int list \<times> int) option" where
  "shell_shift arr temp j gap =
     (if j \<ge> gap
      then do {
        v \<leftarrow> rd arr (j - gap);
        if v > temp then do { arr \<leftarrow> wr arr j v; shell_shift arr temp (j - gap) gap } else Some (arr, j)
      }
      else Some (arr, j))"

partial_function (option) shell_pass :: "int list \<Rightarrow> int \<Rightarrow> int \<Rightarrow> int \<Rightarrow> int list option" where
  "shell_pass arr i gap sz =
     (if i < sz
      then do {
        temp \<leftarrow> rd arr i;
        (arr, j) \<leftarrow> shell_shift arr temp i gap;
        arr \<leftarrow> wr arr j temp;
        i \<leftarrow> checked 32 (i + gap);
        shell_pass arr i gap sz
      }
      else Some arr)"

partial_function (option) shell_rounds :: "int list \<Rightarrow> int \<Rightarrow> int \<Rightarrow> int list option" where
  "shell_rounds arr gap sz =
     (if gap > 0 then do { arr \<leftarrow> shell_pass arr gap gap sz; shell_rounds arr (drop_bit 1 gap) sz } else Some arr)"

definition ShellSort :: "int list \<Rightarrow> int \<Rightarrow> int list option" where
  "ShellSort arr sz = shell_rounds arr (drop_bit 1 sz) sz"

declare bubble_pass.simps [simp del] bubble_rounds.simps [simp del] bubble_pass_flag.simps [simp del]
  bubble_rounds_flag.simps [simp del] insertion_shift.simps [simp del] insertion_rounds.simps [simp del]
  min_index.simps [simp del] selection_rounds.simps [simp del] partition_loop.simps [simp del]
declare QuickSort.simps [code] shell_shift.simps [code] shell_pass.simps [code] shell_rounds.simps [code]

section \<open>Permuting a segment\<close>

definition permutes_seg :: "nat \<Rightarrow> nat \<Rightarrow> 'a list \<Rightarrow> 'a list \<Rightarrow> bool" where
  "permutes_seg l r xs ys \<longleftrightarrow> length ys = length xs \<and> mset ys = mset xs \<and> (\<forall>k < length xs. k < l \<or> r \<le> k \<longrightarrow> ys ! k = xs ! k)"

lemma permutes_seg_refl [simp, intro]: "permutes_seg l r xs xs"
  by (simp add: permutes_seg_def)

lemma permutes_seg_trans: "permutes_seg l r xs ys \<Longrightarrow> permutes_seg l r ys zs \<Longrightarrow> permutes_seg l r xs zs"
  by (auto simp: permutes_seg_def)

lemma permutes_seg_weaken: "permutes_seg l r xs ys \<Longrightarrow> l' \<le> l \<Longrightarrow> r \<le> r' \<Longrightarrow> permutes_seg l' r' xs ys"
  by (auto simp: permutes_seg_def)

lemma permutes_segD:
  "permutes_seg l r xs ys \<Longrightarrow> length ys = length xs" "permutes_seg l r xs ys \<Longrightarrow> mset ys = mset xs"
  "permutes_seg l r xs ys \<Longrightarrow> k < l \<or> r \<le> k \<Longrightarrow> k < length xs \<Longrightarrow> ys ! k = xs ! k"
  by (auto simp: permutes_seg_def)

text \<open>The segment keeps its values.\<close>

lemma permutes_seg_values:
  assumes "permutes_seg l r xs ys" "l \<le> r" "r \<le> length xs"
  shows "(!) ys ` {l..<r} = (!) xs ` {l..<r}"
proof -
  have len: "length ys = length xs" using assms by (simp add: permutes_seg_def)
  have parts: "zs = take l zs @ take (r - l) (drop l zs) @ drop r zs" for zs :: "'a list"
    using assms(2) by (metis append_take_drop_id drop_drop le_add_diff_inverse2)
  have "take l ys = take l xs" "drop r ys = drop r xs"
    using assms by (auto intro!: nth_equalityI simp: permutes_seg_def)
  moreover have "mset ys = mset xs" using assms by (simp add: permutes_seg_def)
  ultimately have "mset (take (r - l) (drop l ys)) = mset (take (r - l) (drop l xs))"
    using parts [of ys] parts [of xs] by (metis add_left_cancel add_right_cancel mset_append)
  then have "set (take (r - l) (drop l ys)) = set (take (r - l) (drop l xs))" by (metis set_mset_mset)
  moreover have "set (take (r - l) (drop l zs)) = (!) zs ` {l..<r}" if "length zs = length xs" for zs :: "'a list"
  proof -
    have "take (r - l) (drop l zs) = map ((!) zs) [l..<r]"
      using assms that by (intro nth_equalityI) auto
    then show ?thesis by simp
  qed
  ultimately show ?thesis using len by simp
qed

lemma Swap_eq:
  "i < length arr \<Longrightarrow> j < length arr \<Longrightarrow> Swap arr (int i) (int j) = Some (arr[i := arr ! j, j := arr ! i])"
  by (simp add: Swap_def)

lemma swap_permutes:
  "l \<le> i \<Longrightarrow> i < r \<Longrightarrow> l \<le> j \<Longrightarrow> j < r \<Longrightarrow> r \<le> length arr \<Longrightarrow> permutes_seg l r arr (arr[i := arr ! j, j := arr ! i])"
  by (auto simp: permutes_seg_def mset_swap nth_list_update)

text \<open>What a sort promises; several sorts are interchangeable.\<close>

locale array_sort =
  fixes sort_it :: "int list \<Rightarrow> int \<Rightarrow> int list option"
    and fits :: "nat \<Rightarrow> bool"
  assumes sorts: "fits (length xs) \<Longrightarrow> \<exists>ys. sort_it xs (int (length xs)) = Some ys \<and> sorted ys \<and> mset ys = mset xs"
begin

lemma sort_it_sort: "fits (length xs) \<Longrightarrow> sort_it xs (int (length xs)) = Some (sort xs)"
  using sorts [of xs] properties_for_sort by metis

end

section \<open>Bubble sort\<close>

text \<open>After a pass over the first \<open>n + 1\<close> elements the largest of them is last.\<close>

lemma bubble_pass_spec:
  assumes "j \<le> n" "n < length arr" "\<forall>k < j. arr ! k \<le> arr ! j"
  shows "\<exists>ys. bubble_pass arr (int j) (int n) = Some ys \<and> permutes_seg 0 (Suc n) arr ys \<and> (\<forall>k < n. ys ! k \<le> ys ! n)"
  using assms
proof (induction "n - j" arbitrary: j arr)
  case 0
  then show ?case by (subst bubble_pass.simps) auto
next
  case (Suc d)
  define arr1 where "arr1 = (if arr ! j > arr ! Suc j then arr[j := arr ! Suc j, Suc j := arr ! j] else arr)"
  have j: "j < n" using Suc.hyps(2) by simp
  then have sw: "Swap arr (int j) (int j + 1) = Some (arr[j := arr ! Suc j, Suc j := arr ! j])"
    using Swap_eq [of j arr "Suc j"] Suc.prems by (simp add: add.commute)
  have step: "bubble_pass arr (int j) (int n) = bubble_pass arr1 (int (Suc j)) (int n)"
    using j sw Suc.prems by (subst bubble_pass.simps) (simp add: arr1_def add.commute)
  have "permutes_seg 0 (Suc n) arr arr1" using j Suc.prems by (auto simp: arr1_def intro!: swap_permutes)
  moreover have "\<forall>k < Suc j. arr1 ! k \<le> arr1 ! Suc j"
  proof (intro allI impI)
    fix k assume "k < Suc j"
    then show "arr1 ! k \<le> arr1 ! Suc j" using j Suc.prems(2) spec [OF Suc.prems(3), of k]
      by (cases "k = j") (auto simp: arr1_def nth_list_update)
  qed
  moreover have "length arr1 = length arr" by (simp add: arr1_def)
  moreover have "d = n - Suc j" using Suc.hyps(2) by simp
  ultimately obtain ys where "bubble_pass arr1 (int (Suc j)) (int n) = Some ys" "permutes_seg 0 (Suc n) arr1 ys" "\<forall>k < n. ys ! k \<le> ys ! n"
    using Suc.hyps(1) [of "Suc j" arr1] Suc.prems(2) j by auto
  then show ?case using step permutes_seg_trans [OF \<open>permutes_seg 0 (Suc n) arr arr1\<close>] by metis
qed

text \<open>The part behind position \<open>n\<close> is finished.\<close>

definition tail_done :: "nat \<Rightarrow> int list \<Rightarrow> bool" where
  "tail_done n xs \<longleftrightarrow> (\<forall>i j. i < j \<and> n < j \<and> j < length xs \<longrightarrow> xs ! i \<le> xs ! j)"

lemma tail_done_0: "tail_done 0 xs \<Longrightarrow> sorted xs"
  by (auto simp: tail_done_def sorted_iff_nth_mono_less)

lemma tail_done_step:
  assumes "tail_done (Suc n) xs" "permutes_seg 0 (Suc (Suc n)) xs ys" "\<forall>k < Suc n. ys ! k \<le> ys ! Suc n" "Suc n < length xs"
  shows "tail_done n ys"
  unfolding tail_done_def
proof (intro allI impI)
  fix i j assume ij: "i < j \<and> n < j \<and> j < length ys"
  have len: "length ys = length xs" using assms(2) by (rule permutes_segD(1))
  have keep: "ys ! k = xs ! k" if "Suc n < k" "k < length xs" for k using permutes_segD(3) [OF assms(2)] that by simp
  show "ys ! i \<le> ys ! j"
  proof (cases "j = Suc n")
    case True
    then show ?thesis using ij assms(3) by simp
  next
    case False
    then have j: "Suc n < j" "ys ! j = xs ! j" using ij len keep by auto
    obtain m where "m < j" "ys ! i = xs ! m"
    proof (cases "i \<le> Suc n")
      case True
      then have "ys ! i \<in> (!) xs ` {0..<Suc (Suc n)}" using permutes_seg_values [OF assms(2)] assms(4) by auto
      then obtain m where "m < Suc (Suc n)" "ys ! i = xs ! m" by auto
      with j(1) that [of m] show ?thesis by simp
    qed (use keep ij len that in auto)
    then show ?thesis using assms(1) j ij len by (simp add: tail_done_def)
  qed
qed

lemma bubble_rounds_spec:
  assumes "i + n + 1 = length arr" "tail_done n arr"
  shows "\<exists>ys. bubble_rounds arr (int i) (int (length arr)) = Some ys \<and> sorted ys \<and> mset ys = mset arr"
  using assms
proof (induction n arbitrary: i arr)
  case 0
  then show ?case by (subst bubble_rounds.simps) (use tail_done_0 in auto)
next
  case (Suc n)
  have eq: "int (length arr) - int i - 1 = int (Suc n)" using Suc.prems(1) by simp
  obtain ys where ys: "bubble_pass arr 0 (int (Suc n)) = Some ys" "permutes_seg 0 (Suc (Suc n)) arr ys" "\<forall>k < Suc n. ys ! k \<le> ys ! Suc n"
    using bubble_pass_spec [of 0 "Suc n" arr] Suc.prems(1) by auto
  have "bubble_rounds arr (int i) (int (length arr)) = bubble_rounds ys (int (Suc i)) (int (length ys))"
    using ys(1) permutes_segD(1) [OF ys(2)] Suc.prems(1) by (subst bubble_rounds.simps, unfold eq) (simp add: add.commute)
  moreover have "tail_done n ys" using tail_done_step [OF Suc.prems(2) ys(2,3)] Suc.prems(1) by simp
  ultimately show ?case using Suc.IH [of "Suc i" ys] Suc.prems(1) permutes_segD(1,2) [OF ys(2)] by simp
qed

text \<open>The flag only records whether a pass has swapped anything.\<close>

lemma bubble_pass_flag_spec:
  assumes "j \<le> n" "n < length arr" "\<not> flag \<longrightarrow> (\<forall>k < j. arr ! k \<le> arr ! Suc k)"
  shows "\<exists>flag'. bubble_pass_flag arr (int j) (int n) flag = map_option (\<lambda>ys. (ys, flag')) (bubble_pass arr (int j) (int n)) \<and>
    (flag \<longrightarrow> flag') \<and> (\<not> flag' \<longrightarrow> bubble_pass arr (int j) (int n) = Some arr \<and> (\<forall>k < n. arr ! k \<le> arr ! Suc k))"
  using assms
proof (induction "n - j" arbitrary: j arr flag)
  case 0
  have "bubble_pass_flag arr (int j) (int n) flag = Some (arr, flag)" "bubble_pass arr (int j) (int n) = Some arr"
    using 0 by (subst bubble_pass_flag.simps bubble_pass.simps, simp)+
  then show ?case using 0 by auto
next
  case (Suc d)
  have j: "j < n" and d: "d = n - Suc j" using Suc.hyps(2) by simp_all
  have sw: "Swap arr (int j) (int j + 1) = Some (arr[j := arr ! Suc j, Suc j := arr ! j])"
    using Swap_eq [of j arr "Suc j"] Suc.prems j by (simp add: add.commute)
  show ?case
  proof (cases "arr ! j > arr ! Suc j")
    case True
    define arr1 where "arr1 = arr[j := arr ! Suc j, Suc j := arr ! j]"
    have "bubble_pass_flag arr (int j) (int n) flag = bubble_pass_flag arr1 (int (Suc j)) (int n) True"
      "bubble_pass arr (int j) (int n) = bubble_pass arr1 (int (Suc j)) (int n)"
      using j sw Suc.prems True by (subst bubble_pass_flag.simps bubble_pass.simps, simp add: arr1_def add.commute)+
    with Suc.hyps(1) [OF d, of arr1 True] Suc.prems j show ?thesis by (auto simp: arr1_def)
  next
    case False
    then have "bubble_pass_flag arr (int j) (int n) flag = bubble_pass_flag arr (int (Suc j)) (int n) flag"
      "bubble_pass arr (int j) (int n) = bubble_pass arr (int (Suc j)) (int n)"
      using j sw Suc.prems by (subst bubble_pass_flag.simps bubble_pass.simps, simp add: add.commute)+
    with Suc.hyps(1) [OF d, of arr flag] Suc.prems j False show ?thesis by (auto simp: less_Suc_eq)
  qed
qed

lemma tail_done_prefix_sorted:
  assumes "tail_done n xs" "\<forall>k < n. xs ! k \<le> xs ! Suc k"
  shows "sorted xs"
  unfolding sorted_iff_nth_Suc
proof (intro allI impI)
  fix i assume "Suc i < length xs"
  then show "xs ! i \<le> xs ! Suc i" using assms by (cases "i < n") (auto simp: tail_done_def)
qed

lemma bubble_rounds_flag_spec:
  assumes "i + n + 1 = length arr" "tail_done n arr"
  shows "\<exists>ys. bubble_rounds_flag arr (int i) (int (length arr)) = Some ys \<and> sorted ys \<and> mset ys = mset arr"
  using assms
proof (induction n arbitrary: i arr)
  case 0
  then show ?case by (subst bubble_rounds_flag.simps) (use tail_done_0 in auto)
next
  case (Suc n)
  have eq: "int (length arr) - int i - 1 = int (Suc n)" using Suc.prems(1) by simp
  obtain ys where ys: "bubble_pass arr 0 (int (Suc n)) = Some ys" "permutes_seg 0 (Suc (Suc n)) arr ys" "\<forall>k < Suc n. ys ! k \<le> ys ! Suc n"
    using bubble_pass_spec [of 0 "Suc n" arr] Suc.prems(1) by auto
  obtain flag where flag: "bubble_pass_flag arr 0 (int (Suc n)) False = Some (ys, flag)" "\<not> flag \<longrightarrow> ys = arr \<and> (\<forall>k < Suc n. arr ! k \<le> arr ! Suc k)"
    using bubble_pass_flag_spec [of 0 "Suc n" arr False] ys(1) Suc.prems(1) by auto
  show ?case
  proof (cases flag)
    case True
    have "tail_done n ys" using tail_done_step [OF Suc.prems(2) ys(2,3)] Suc.prems(1) by simp
    moreover have "bubble_rounds_flag arr (int i) (int (length arr)) = bubble_rounds_flag ys (int (Suc i)) (int (length ys))"
      using True flag(1) permutes_segD(1) [OF ys(2)] Suc.prems(1) by (subst bubble_rounds_flag.simps, unfold eq) (simp add: add.commute)
    ultimately show ?thesis using Suc.IH [of "Suc i" ys] Suc.prems(1) permutes_segD(1,2) [OF ys(2)] by simp
  next
    case False
    then have "bubble_rounds_flag arr (int i) (int (length arr)) = Some arr"
      using flag Suc.prems(1) by (subst bubble_rounds_flag.simps, unfold eq) simp
    with False show ?thesis using tail_done_prefix_sorted [OF Suc.prems(2)] flag(2) by simp
  qed
qed

lemma tail_done_init: "tail_done (length xs - 1) xs"
  by (auto simp: tail_done_def)

lemma bubble_empty: "BubbleSort [] 0 = Some []" "BubbleSortWithFlag [] 0 = Some []"
  by (simp_all add: BubbleSort_def BubbleSortWithFlag_def bubble_rounds.simps bubble_rounds_flag.simps)

interpretation bubble: array_sort BubbleSort "\<lambda>_. True"
proof
  show "\<exists>ys. BubbleSort xs (int (length xs)) = Some ys \<and> sorted ys \<and> mset ys = mset xs" for xs
    using bubble_rounds_spec [OF _ tail_done_init, of 0 xs] bubble_empty
    by (cases "xs = []") (simp_all add: BubbleSort_def)
qed

interpretation bubble_flag: array_sort BubbleSortWithFlag "\<lambda>_. True"
proof
  show "\<exists>ys. BubbleSortWithFlag xs (int (length xs)) = Some ys \<and> sorted ys \<and> mset ys = mset xs" for xs
    using bubble_rounds_flag_spec [OF _ tail_done_init, of 0 xs] bubble_empty
    by (cases "xs = []") (simp_all add: BubbleSortWithFlag_def)
qed

section \<open>Insertion sort and Shell sort\<close>

lemma insort_snoc_less: "x < v \<Longrightarrow> insort x (xs @ [v]) = insort x xs @ [v]" for x :: int
  by (induction xs) auto

lemma insort_snoc_all:
  assumes "sorted xs" "\<forall>y \<in> set xs. y \<le> (x :: int)"
  shows "insort x xs = xs @ [x]"
proof -
  have "sort (x # xs) = xs @ [x]" using assms by (intro properties_for_sort) (auto simp: sorted_append)
  then show ?thesis using assms(1) by (simp add: sorted_sort_id)
qed

text \<open>
  The shifting loop leaves a hole where the saved element belongs. With any gap the multiset is
  kept; with gap 1 and a sorted prefix the element is inserted in order.
\<close>

lemma shell_shift_spec:
  assumes "j < length arr" "0 < g"
  shows "\<exists>ys k. shell_shift arr temp (int j) (int g) = Some (ys, int k) \<and> k \<le> j \<and> length ys = length arr \<and>
    mset (ys[k := temp]) = mset (arr[j := temp]) \<and>
    (g = 1 \<longrightarrow> sorted (take j arr) \<longrightarrow> take (Suc j) (ys[k := temp]) = insort temp (take j arr) \<and> drop (Suc j) (ys[k := temp]) = drop (Suc j) arr)"
  using assms(1)
proof (induction j arbitrary: arr rule: less_induct)
  case (less j)
  show ?case
  proof (cases "g \<le> j \<and> arr ! (j - g) > temp")
    case False
    then have "shell_shift arr temp (int j) (int g) = Some (arr, int j)"
      using less.prems by (subst shell_shift.simps) (auto simp flip: of_nat_diff)
    moreover have "insort temp (take j arr) = take j arr @ [temp]" if "g = 1" "sorted (take j arr)"
    proof (rule insort_snoc_all [OF that(2)], rule ballI)
      fix y assume "y \<in> set (take j arr)"
      then obtain i where i: "i < j" "y = arr ! i" using less.prems by (auto simp: in_set_conv_nth)
      then have "take j arr ! i \<le> take j arr ! (j - 1)" using that(2) less.prems by (intro sorted_nth_mono) auto
      moreover have "arr ! (j - 1) \<le> temp" using False that(1) i by auto
      ultimately show "y \<le> temp" using i less.prems by simp
    qed
    ultimately show ?thesis using less.prems by (auto simp: take_Suc_update)
  next
    case True
    define arr1 where "arr1 = arr[j := arr ! (j - g)]"
    have lt: "j - g < j" "j - g < length arr1" using True assms(2) less.prems by (auto simp: arr1_def)
    have step: "shell_shift arr temp (int j) (int g) = shell_shift arr1 temp (int (j - g)) (int g)"
      using True less.prems lt by (subst shell_shift.simps) (auto simp: arr1_def simp flip: of_nat_diff)
    obtain ys k where IH: "shell_shift arr1 temp (int (j - g)) (int g) = Some (ys, int k)" "k \<le> j - g" "length ys = length arr1"
      "mset (ys[k := temp]) = mset (arr1[j - g := temp])"
      "g = 1 \<longrightarrow> sorted (take (j - g) arr1) \<longrightarrow> take (Suc (j - g)) (ys[k := temp]) = insort temp (take (j - g) arr1) \<and>
         drop (Suc (j - g)) (ys[k := temp]) = drop (Suc (j - g)) arr1"
      using less.IH [OF lt] by blast
    have "mset (arr1[j - g := temp]) = mset (arr[j := temp])"
      using mset_swap [of "j - g" "arr[j := temp]" j] lt less.prems by (simp add: arr1_def list_update_swap)
    moreover have "take (Suc j) (ys[k := temp]) = insort temp (take j arr) \<and> drop (Suc j) (ys[k := temp]) = drop (Suc j) arr"
      if "g = 1" "sorted (take j arr)"
    proof -
      obtain m where m: "j = Suc m" using True that(1) assms(2) by (cases j) auto
      let ?v = "arr ! m" and ?zs = "ys[k := temp]"
      have tk: "take j arr = take m arr @ [?v]" using m less.prems by (simp add: take_Suc_conv_app_nth)
      have "sorted (take m arr)" using that(2) tk by (simp add: sorted_append)
      then have zs: "take j ?zs = insort temp (take m arr)" "drop j ?zs = ?v # drop (Suc j) arr"
        using IH(5) m that(1) less.prems by (auto simp: arr1_def drop_update_cancel Cons_nth_drop_Suc [symmetric])
      have len: "j < length ?zs" using IH(3) less.prems by (simp add: arr1_def)
      then have "?zs ! j # drop (Suc j) ?zs = ?v # drop (Suc j) arr" using zs(2) by (simp add: Cons_nth_drop_Suc)
      moreover have "take (Suc j) ?zs = take j ?zs @ [?zs ! j]" using len by (rule take_Suc_conv_app_nth)
      moreover have "temp < ?v" using True m that(1) by simp
      ultimately show ?thesis using zs(1) tk insort_snoc_less by simp
    qed
    ultimately show ?thesis using step IH(1-4) by (auto simp: arr1_def)
  qed
qed

lemma insertion_is_shell:
  "insertion_shift arr base (j - 1) = map_option (\<lambda>(ys, k). (ys, k - 1)) (shell_shift arr base j 1)"
proof (induction "nat j" arbitrary: j arr)
  case 0
  then show ?case by (subst insertion_shift.simps, subst shell_shift.simps) simp
next
  case (Suc n)
  then have "n = nat (j - 1)" by simp
  note IH = Suc.hyps(1) [OF this]
  from Suc.hyps(2) IH show ?case
    by (subst insertion_shift.simps, subst shell_shift.simps)
      (cases "rd arr (j - 1)"; cases "wr arr j (the (rd arr (j - 1)))"; simp)
qed

text \<open>One round of insertion with gap 1 (the last of Shell sort's, and all of insertion sort's).\<close>

lemma shell_round:
  assumes "i < length arr" "0 < g"
  obtains ys where "(do { temp \<leftarrow> rd arr (int i); (arr, j) \<leftarrow> shell_shift arr temp (int i) (int g); wr arr j temp }) = Some ys"
    "length ys = length arr" "mset ys = mset arr" "g = 1 \<Longrightarrow> sorted (take i arr) \<Longrightarrow> sorted (take (Suc i) ys)"
proof -
  obtain ys k where k: "shell_shift arr (arr ! i) (int i) (int g) = Some (ys, int k)" "k \<le> i" "length ys = length arr"
    "mset (ys[k := arr ! i]) = mset (arr[i := arr ! i])"
    "g = 1 \<longrightarrow> sorted (take i arr) \<longrightarrow> take (Suc i) (ys[k := arr ! i]) = insort (arr ! i) (take i arr) \<and> drop (Suc i) (ys[k := arr ! i]) = drop (Suc i) arr"
    using shell_shift_spec [OF assms] by blast
  then show ?thesis using assms by (intro that [of "ys[k := arr ! i]"]) (auto simp: sorted_insort)
qed

lemma shell_pass_spec:
  assumes "0 < g"
  shows "length arr + g \<le> 2 ^ 31 \<Longrightarrow> \<exists>ys. shell_pass arr (int i) (int g) (int (length arr)) = Some ys \<and> length ys = length arr \<and> mset ys = mset arr \<and>
    (g = 1 \<longrightarrow> sorted (take i arr) \<longrightarrow> sorted ys)"
proof (induction "length arr - i" arbitrary: i arr rule: less_induct)
  case less
  show ?case
  proof (cases "i < length arr")
    case False
    then show ?thesis by (subst shell_pass.simps) auto
  next
    case True
    obtain zs where zs: "(do { temp \<leftarrow> rd arr (int i); (arr, j) \<leftarrow> shell_shift arr temp (int i) (int g); wr arr j temp }) = Some zs"
      "length zs = length arr" "mset zs = mset arr" "g = 1 \<longrightarrow> sorted (take i arr) \<longrightarrow> sorted (take (Suc i) zs)"
      by (rule shell_round [OF True assms]) blast
    have nxt: "checked 32 (int i + int g) = Some (int (i + g))" using True less.prems by (simp add: in_int_def)
    have "shell_pass arr (int i) (int g) (int (length arr)) = shell_pass zs (int (i + g)) (int g) (int (length zs))"
      using True zs(1,2) nxt by (subst shell_pass.simps) (auto simp: Option.bind_eq_Some_conv split: prod.splits)
    moreover have "length zs - (i + g) < length arr - i" using True assms zs(2) by simp
    ultimately show ?thesis using less.hyps [of zs "i + g"] less.prems zs(2-4) by auto
  qed
qed

lemma insertion_rounds_spec:
  "sorted (take i arr) \<Longrightarrow> \<exists>ys. insertion_rounds arr (int i) (int (length arr)) = Some ys \<and> sorted ys \<and> mset ys = mset arr"
proof (induction "length arr - i" arbitrary: i arr rule: less_induct)
  case less
  show ?case
  proof (cases "i < length arr")
    case False
    then show ?thesis using less.prems by (subst insertion_rounds.simps) auto
  next
    case True
    obtain zs where zs: "(do { temp \<leftarrow> rd arr (int i); (arr, j) \<leftarrow> shell_shift arr temp (int i) (int 1); wr arr j temp }) = Some zs"
      "length zs = length arr" "mset zs = mset arr" "sorted (take (Suc i) zs)"
      using shell_round [OF True, of 1] less.prems by auto
    have "insertion_rounds arr (int i) (int (length arr)) = insertion_rounds zs (int (Suc i)) (int (length zs))"
      using True zs(1,2) by (subst insertion_rounds.simps)
        (auto simp: insertion_is_shell Option.bind_eq_Some_conv add.commute split: prod.splits)
    moreover have "length zs - Suc i < length arr - i" using True zs(2) by simp
    ultimately show ?thesis using less.hyps [of zs "Suc i"] zs(2-4) by auto
  qed
qed

interpretation insertion: array_sort InsertionSort "\<lambda>_. True"
proof
  show "\<exists>ys. InsertionSort xs (int (length xs)) = Some ys \<and> sorted ys \<and> mset ys = mset xs" for xs
    using insertion_rounds_spec [of 1 xs] by (cases xs) (simp_all add: InsertionSort_def)
qed

text \<open>
  The gaps halve down to 1. The rounds with larger gaps only permute; the last one sorts. A
  single element, with no round at all, is sorted.
\<close>

lemma shell_rounds_spec:
  "0 < g \<Longrightarrow> length arr + g \<le> 2 ^ 31 \<Longrightarrow> \<exists>ys. shell_rounds arr (int g) (int (length arr)) = Some ys \<and> mset ys = mset arr \<and> sorted ys"
proof (induction g arbitrary: arr rule: less_induct)
  case (less g)
  obtain zs where zs: "shell_pass arr (int g) (int g) (int (length arr)) = Some zs" "length zs = length arr" "mset zs = mset arr"
    "g = 1 \<longrightarrow> sorted (take g arr) \<longrightarrow> sorted zs"
    using shell_pass_spec [OF less.prems, of g] by blast
  have half: "drop_bit (Suc 0) (int g) = int (g div 2)" by (simp add: drop_bit_eq_div zdiv_int)
  have step: "shell_rounds arr (int g) (int (length arr)) = shell_rounds zs (int (g div 2)) (int (length zs))"
    using zs(1,2) less.prems by (subst shell_rounds.simps) (simp add: half)
  show ?case
  proof (cases "g = 1")
    case True
    have "sorted (take 1 arr)" by (cases arr) auto
    moreover have "shell_rounds zs 0 (int (length zs)) = Some zs" by (subst shell_rounds.simps) simp
    ultimately show ?thesis using step zs True by simp
  next
    case False
    then have "g div 2 < g" "0 < g div 2" using less.prems by auto
    with less.IH [of "g div 2" zs] less.prems(2) step zs show ?thesis by simp
  qed
qed

interpretation shell: array_sort ShellSort "\<lambda>n. n + n div 2 \<le> 2 ^ 31"
proof
  show "\<exists>ys. ShellSort xs (int (length xs)) = Some ys \<and> sorted ys \<and> mset ys = mset xs" if "length xs + length xs div 2 \<le> 2 ^ 31" for xs
  proof (cases "length xs \<le> 1")
    case True
    then have "sorted xs" "length xs div 2 = 0" by (cases xs; auto)+
    then show ?thesis by (simp add: ShellSort_def drop_bit_eq_div shell_rounds.simps flip: zdiv_int)
  next
    case False
    then have "0 < length xs div 2" by auto
    moreover have "drop_bit 1 (int (length xs)) = int (length xs div 2)" by (simp add: drop_bit_eq_div zdiv_int)
    ultimately show ?thesis using shell_rounds_spec [of "length xs div 2" xs] that by (auto simp: ShellSort_def)
  qed
qed

section \<open>Selection sort\<close>

lemma min_index_spec:
  assumes "m < j" "j \<le> length arr" "\<forall>k. l \<le> k \<and> k < j \<longrightarrow> arr ! m \<le> arr ! k" "l \<le> m"
  shows "\<exists>m'. min_index arr (int m) (int j) (int (length arr)) = Some (int m') \<and> l \<le> m' \<and> m' < length arr \<and>
    (\<forall>k. l \<le> k \<and> k < length arr \<longrightarrow> arr ! m' \<le> arr ! k)"
  using assms
proof (induction "length arr - j" arbitrary: m j)
  case 0
  then show ?case by (subst min_index.simps) auto
next
  case (Suc d)
  define m1 where "m1 = (if arr ! j < arr ! m then j else m)"
  have j: "j < length arr" "d = length arr - Suc j" using Suc.hyps(2) by simp_all
  have "min_index arr (int m) (int j) (int (length arr)) = min_index arr (int m1) (int (Suc j)) (int (length arr))"
    using j Suc.prems by (subst min_index.simps) (simp add: m1_def add.commute)
  moreover have "m1 < Suc j" "l \<le> m1" "\<forall>k. l \<le> k \<and> k < Suc j \<longrightarrow> arr ! m1 \<le> arr ! k"
    using Suc.prems by (auto simp: m1_def less_Suc_eq dest: order.strict_implies_order order.trans)
  ultimately show ?case using Suc.hyps(1) [OF j(2), of m1] j(1) by auto
qed

text \<open>The first \<open>i\<close> elements are finished.\<close>

definition head_done :: "nat \<Rightarrow> int list \<Rightarrow> bool" where
  "head_done n xs \<longleftrightarrow> (\<forall>i j. i < j \<and> i < n \<and> j < length xs \<longrightarrow> xs ! i \<le> xs ! j)"

lemma head_done_step:
  assumes "head_done i arr" "i \<le> m" "m < length arr" "\<forall>k. i \<le> k \<and> k < length arr \<longrightarrow> arr ! m \<le> arr ! k"
  shows "head_done (Suc i) (arr[i := arr ! m, m := arr ! i])"
  using assms unfolding head_done_def by (auto simp: nth_list_update less_Suc_eq)

lemma selection_rounds_spec:
  "head_done i arr \<Longrightarrow> i \<le> length arr \<Longrightarrow>
   \<exists>ys. selection_rounds arr (int i) (int (length arr)) = Some ys \<and> sorted ys \<and> mset ys = mset arr"
proof (induction "length arr - i" arbitrary: i arr)
  case 0
  then have "sorted arr" by (auto simp: sorted_iff_nth_mono_less head_done_def)
  then show ?case using 0 by (subst selection_rounds.simps) auto
next
  case (Suc d)
  have i: "i < length arr" using Suc.hyps(2) by simp
  obtain m where m: "min_index arr (int i) (int (Suc i)) (int (length arr)) = Some (int m)" "i \<le> m" "m < length arr"
    "\<forall>k. i \<le> k \<and> k < length arr \<longrightarrow> arr ! m \<le> arr ! k"
  proof -
    have "\<forall>k. i \<le> k \<and> k < Suc i \<longrightarrow> arr ! i \<le> arr ! k" by (auto simp: less_Suc_eq)
    with min_index_spec [of i "Suc i" arr i] i that show ?thesis by auto
  qed
  let ?ys = "arr[i := arr ! m, m := arr ! i]"
  have "selection_rounds arr (int i) (int (length arr)) = selection_rounds ?ys (int (Suc i)) (int (length ?ys))"
    using m i Swap_eq [of i arr m] by (subst selection_rounds.simps) (simp add: add.commute)
  moreover have "d = length ?ys - Suc i" "mset ?ys = mset arr" using Suc.hyps(2) mset_swap [of m arr i] m i by simp_all
  ultimately show ?case using Suc.hyps(1) [of ?ys "Suc i"] head_done_step [OF Suc.prems(1) m(2-4)] i by simp
qed

interpretation selection: array_sort SelectionSort "\<lambda>_. True"
proof
  show "\<exists>ys. SelectionSort xs (int (length xs)) = Some ys \<and> sorted ys \<and> mset ys = mset xs" for xs
    using selection_rounds_spec [of 0 xs] by (simp add: SelectionSort_def head_done_def)
qed

section \<open>Quicksort\<close>

text \<open>
  While the loop runs, the cells from \<open>l\<close> to before \<open>s\<close> (the code's \<^verbatim>\<open>i + 1\<close>) are at most the
  pivot and those from \<open>s\<close> to before \<open>j\<close> are above it.
\<close>

lemma partition_loop_spec:
  assumes "l \<le> s" "s \<le> j" "j \<le> r" "r < length arr"
    "\<forall>k. l \<le> k \<and> k < s \<longrightarrow> arr ! k \<le> p" "\<forall>k. s \<le> k \<and> k < j \<longrightarrow> arr ! k > p"
  shows "\<exists>ys t. partition_loop arr p (int s - 1) (int j) (int r) = Some (ys, int t - 1) \<and> l \<le> t \<and> t \<le> r \<and> permutes_seg l r arr ys \<and>
    (\<forall>k. l \<le> k \<and> k < t \<longrightarrow> ys ! k \<le> p) \<and> (\<forall>k. t \<le> k \<and> k < r \<longrightarrow> ys ! k > p)"
  using assms
proof (induction "r - j" arbitrary: s j arr)
  case 0
  then show ?case by (subst partition_loop.simps) auto
next
  case (Suc d)
  have j: "j < r" "d = r - Suc j" using Suc.hyps(2) by simp_all
  show ?case
  proof (cases "arr ! j \<le> p")
    case True
    let ?arr = "arr[s := arr ! j, j := arr ! s]"
    have "partition_loop arr p (int s - 1) (int j) (int r) = partition_loop ?arr p (int (Suc s) - 1) (int (Suc j)) (int r)"
      using True j Suc.prems Swap_eq [of s arr j] by (subst partition_loop.simps) (simp add: add.commute)
    moreover have "permutes_seg l r arr ?arr" using Suc.prems j by (intro swap_permutes) auto
    moreover have "\<forall>k. l \<le> k \<and> k < Suc s \<longrightarrow> ?arr ! k \<le> p" "\<forall>k. Suc s \<le> k \<and> k < Suc j \<longrightarrow> ?arr ! k > p"
      using Suc.prems j True by (auto simp: nth_list_update less_Suc_eq)
    ultimately show ?thesis using Suc.hyps(1) [OF j(2), of "Suc s" ?arr] Suc.prems j permutes_seg_trans
      by (smt (verit) Suc_leI Suc_le_mono le_SucI length_list_update)
  next
    case False
    then have "partition_loop arr p (int s - 1) (int j) (int r) = partition_loop arr p (int s - 1) (int (Suc j)) (int r)"
      using j Suc.prems by (subst partition_loop.simps) (simp add: add.commute)
    moreover have "\<forall>k. s \<le> k \<and> k < Suc j \<longrightarrow> arr ! k > p" using Suc.prems(6) False by (auto simp: less_Suc_eq)
    ultimately show ?thesis using Suc.hyps(1) [OF j(2), of s arr] Suc.prems j by auto
  qed
qed

lemma Partition_spec:
  assumes "l \<le> r" "r < length arr"
  obtains ys t where "Partition arr (int l) (int r) = Some (int t, ys)" "l \<le> t" "t \<le> r" "permutes_seg l (Suc r) arr ys"
    "\<forall>k. l \<le> k \<and> k < t \<longrightarrow> ys ! k \<le> ys ! t" "\<forall>k. t < k \<and> k \<le> r \<longrightarrow> ys ! t < ys ! k"
proof -
  obtain zs t where zs: "partition_loop arr (arr ! r) (int l - 1) (int l) (int r) = Some (zs, int t - 1)" "l \<le> t" "t \<le> r"
    "permutes_seg l r arr zs" "\<forall>k. l \<le> k \<and> k < t \<longrightarrow> zs ! k \<le> arr ! r" "\<forall>k. t \<le> k \<and> k < r \<longrightarrow> zs ! k > arr ! r"
    using partition_loop_spec [of l l l r arr "arr ! r"] assms by auto
  have z: "length zs = length arr" "zs ! r = arr ! r" using permutes_segD [OF zs(4)] assms by auto
  let ?ys = "zs[t := zs ! r, r := zs ! t]"
  have "Partition arr (int l) (int r) = Some (int t, ?ys)"
    using zs(1,3) z assms Swap_eq [of t zs r] by (simp add: Partition_def)
  moreover have "permutes_seg l (Suc r) arr ?ys"
    using permutes_seg_trans [OF permutes_seg_weaken [OF zs(4), of l "Suc r"] swap_permutes [of l t "Suc r" r zs]] zs(2,3) z(1) assms by simp
  moreover have "\<forall>k. l \<le> k \<and> k < t \<longrightarrow> ?ys ! k \<le> ?ys ! t" "\<forall>k. t < k \<and> k \<le> r \<longrightarrow> ?ys ! t < ?ys ! k"
    using zs(2,3,5,6) z assms by (auto simp: nth_list_update)
  ultimately show ?thesis using that zs(2,3) by blast
qed

definition seg_sorted :: "nat \<Rightarrow> nat \<Rightarrow> int list \<Rightarrow> bool" where
  "seg_sorted l r xs \<longleftrightarrow> (\<forall>i j. l \<le> i \<and> i < j \<and> j < r \<longrightarrow> xs ! i \<le> xs ! j)"

text \<open>Two sorted halves around a pivot that separates them.\<close>

lemma quick_combine:
  assumes part: "permutes_seg l t ys us" "permutes_seg (Suc t) r us vs" "seg_sorted l t us" "seg_sorted (Suc t) r vs"
    and piv: "\<forall>k. l \<le> k \<and> k < t \<longrightarrow> ys ! k \<le> ys ! t" "\<forall>k. t < k \<and> k < r \<longrightarrow> ys ! t < ys ! k"
    and le: "l \<le> t" "t < r" "r \<le> length ys"
  shows "seg_sorted l r vs"
proof -
  have low: "vs ! k = us ! k" if "k \<le> t" for k using permutes_segD [OF part(2)] permutes_segD(1) [OF part(1)] that le by auto
  have t: "us ! t = ys ! t" using permutes_segD(3) [OF part(1), of t] le by auto
  have L: "vs ! k \<le> ys ! t" if "l \<le> k" "k \<le> t" for k
  proof (cases "k = t")
    case False
    then have "us ! k \<in> (!) ys ` {l..<t}" using permutes_seg_values [OF part(1)] that le by auto
    with low that piv(1) show ?thesis by auto
  qed (use low t in simp)
  have R: "ys ! t \<le> vs ! k" if "t < k" "k < r" for k
  proof -
    have len: "length us = length ys" using part(1) by (rule permutes_segD(1))
    have "vs ! k \<in> (!) us ` {Suc t..<r}" using permutes_seg_values [OF part(2)] that le len by auto
    then obtain m where "t < m" "m < r" "vs ! k = us ! m" by (auto simp: Suc_le_eq)
    moreover have "us ! m = ys ! m" using permutes_segD(3) [OF part(1), of m] calculation le by simp
    ultimately show ?thesis using piv(2) by (simp add: less_imp_le)
  qed
  show ?thesis unfolding seg_sorted_def
  proof (intro allI impI)
    fix i j assume ij: "l \<le> i \<and> i < j \<and> j < r"
    consider "j < t" | "i \<le> t" "t \<le> j" | "t < i" by linarith
    then show "vs ! i \<le> vs ! j"
    proof cases
      case 1
      then show ?thesis using part(3) low ij by (simp add: seg_sorted_def)
    next
      case 2
      then show ?thesis using L [of i] R [of j] low t ij by (cases "j = t") auto
    next
      case 3
      then show ?thesis using part(4) ij by (simp add: seg_sorted_def)
    qed
  qed
qed

lemma QuickSort_spec:
  "r \<le> length arr \<Longrightarrow> \<exists>ys. QuickSort arr (int l) (int r - 1) = Some ys \<and> permutes_seg l r arr ys \<and> seg_sorted l r ys"
proof (induction "r - l" arbitrary: l r arr rule: less_induct)
  case less
  show ?case
  proof (cases "Suc l < r")
    case False
    then show ?thesis by (subst QuickSort.simps) (auto simp: seg_sorted_def)
  next
    case True
    then obtain q where q: "r = Suc q" "l \<le> q" by (cases r) auto
    obtain ys t where ys: "Partition arr (int l) (int q) = Some (int t, ys)" "l \<le> t" "t \<le> q" "permutes_seg l r arr ys"
      "\<forall>k. l \<le> k \<and> k < t \<longrightarrow> ys ! k \<le> ys ! t" "\<forall>k. t < k \<and> k \<le> q \<longrightarrow> ys ! t < ys ! k"
      using Partition_spec [of l q arr] q less.prems by (metis Suc_le_eq)
    have len: "length ys = length arr" using ys(4) by (rule permutes_segD(1))
    have meas: "t - l < r - l" "r - Suc t < r - l" using ys(2,3) q by simp_all
    obtain us where us: "QuickSort ys (int l) (int t - 1) = Some us" "permutes_seg l t ys us" "seg_sorted l t us"
      using less.hyps [OF meas(1), of ys] ys(3) q less.prems len by auto
    have len': "length us = length arr" using permutes_segD(1) [OF us(2)] len by simp
    obtain vs where vs: "QuickSort us (int (Suc t)) (int r - 1) = Some vs" "permutes_seg (Suc t) r us vs" "seg_sorted (Suc t) r vs"
      using less.hyps [OF meas(2), of us] less.prems len' by auto
    have "seg_sorted l r vs"
      using quick_combine [OF us(2) vs(2) us(3) vs(3) ys(5)] ys(2,3,6) q less.prems len by (simp add: less_Suc_eq_le)
    moreover have "permutes_seg l r arr vs"
      using permutes_seg_trans [OF ys(4) permutes_seg_trans [OF permutes_seg_weaken [OF us(2)] permutes_seg_weaken [OF vs(2)]]] ys(2,3) q by auto
    moreover have "QuickSort arr (int l) (int r - 1) = Some vs"
      using True ys(1) us(1) vs(1) q by (subst QuickSort.simps) (simp add: add.commute)
    ultimately show ?thesis by blast
  qed
qed

interpretation quick: array_sort "\<lambda>arr sz. QuickSort arr 0 (sz - 1)" "\<lambda>_. True"
proof
  fix xs
  obtain ys where ys: "QuickSort xs 0 (int (length xs) - 1) = Some ys" "permutes_seg 0 (length xs) xs ys" "seg_sorted 0 (length xs) ys"
    using QuickSort_spec [of "length xs" xs 0] by auto
  have "sorted ys" using ys(3) permutes_segD(1) [OF ys(2)] by (auto simp: seg_sorted_def sorted_iff_nth_mono_less)
  then show "\<exists>ys. QuickSort xs 0 (int (length xs) - 1) = Some ys \<and> sorted ys \<and> mset ys = mset xs"
    using ys permutes_segD(2) by blast
qed

section \<open>All sorts agree\<close>

text \<open>
  C21. Each of the six in-place sorts terminates, stays inside the array and leaves the same
  result, the sorted permutation of the input, for every array in which one and a half times the
  length still is an \<^verbatim>\<open>int\<close>: in a longer one the index of Shell sort, which advances by \<^verbatim>\<open>gap\<close>, overflows.
  This includes Shell sort, although its inner loop visits only every \<^verbatim>\<open>gap\<close>-th element: the last
  round, with gap 1, is an insertion sort.
\<close>

theorem sorts_agree:
  assumes "length arr + length arr div 2 \<le> 2 ^ 31"
  shows "BubbleSort arr (int (length arr)) = Some (sort arr) \<and> BubbleSortWithFlag arr (int (length arr)) = Some (sort arr) \<and>
   InsertionSort arr (int (length arr)) = Some (sort arr) \<and> SelectionSort arr (int (length arr)) = Some (sort arr) \<and>
   QuickSort arr 0 (int (length arr) - 1) = Some (sort arr) \<and> ShellSort arr (int (length arr)) = Some (sort arr)"
  using bubble.sort_it_sort bubble_flag.sort_it_sort insertion.sort_it_sort selection.sort_it_sort quick.sort_it_sort
    shell.sort_it_sort [OF assms] by blast

theorem sorts_agree_witness:
  "QuickSort [3, 1, 2] 0 2 = Some [1, 2, 3] \<and> ShellSort [3, 1, 2] 3 = Some [1, 2, 3] \<and> BubbleSort [3, 1, 2] 3 = Some [1, 2, 3]"
  using sorts_agree [of "[3, 1, 2]"] by simp

end
