(* ===== verification/Subsequence.thy ===== *)
theory Subsequence
  imports C_Memory
begin

text \<open>
  The three programs for the largest sum of consecutive elements: \<^verbatim>\<open>Exhaustive.c\<close>,
  \<^verbatim>\<open>Divide_and_conquer.c\<close> and \<^verbatim>\<open>Best.c\<close>. Sums that leave the range of \<^verbatim>\<open>int\<close> give \<open>None\<close>.
\<close>

section \<open>The programs\<close>

function best_loop :: "int list \<Rightarrow> int \<Rightarrow> int \<Rightarrow> int \<Rightarrow> int \<Rightarrow> int option" where
  "best_loop A i N thissum maxsum =
     (if i < N
      then do {
        a \<leftarrow> rd A i;
        thissum \<leftarrow> checked 32 (thissum + a);
        if thissum > maxsum then best_loop A (i + 1) N thissum thissum
        else if thissum < 0 then best_loop A (i + 1) N 0 maxsum
        else best_loop A (i + 1) N thissum maxsum
      }
      else Some maxsum)"
  by pat_completeness auto
termination by (relation "measure (\<lambda>(A, i, N, t, m). nat (N - i))") auto

definition MaxSubSequenceSum_best :: "int list \<Rightarrow> int \<Rightarrow> int option" where
  "MaxSubSequenceSum_best A N = best_loop A 0 N 0 0"

function exhaustive_inner :: "int list \<Rightarrow> int \<Rightarrow> int \<Rightarrow> int \<Rightarrow> int \<Rightarrow> int option" where
  "exhaustive_inner A j N thissum maxsum =
     (if j < N
      then do {
        a \<leftarrow> rd A j;
        thissum \<leftarrow> checked 32 (thissum + a);
        exhaustive_inner A (j + 1) N thissum (if maxsum < thissum then thissum else maxsum)
      }
      else Some maxsum)"
  by pat_completeness auto
termination by (relation "measure (\<lambda>(A, j, N, t, m). nat (N - j))") auto

function exhaustive_outer :: "int list \<Rightarrow> int \<Rightarrow> int \<Rightarrow> int \<Rightarrow> int option" where
  "exhaustive_outer A i N maxsum =
     (if i < N then do { m \<leftarrow> exhaustive_inner A i N 0 maxsum; exhaustive_outer A (i + 1) N m } else Some maxsum)"
  by pat_completeness auto
termination by (relation "measure (\<lambda>(A, i, N, m). nat (N - i))") auto

definition MaxSubsequenceSum_exhaustive :: "int list \<Rightarrow> int \<Rightarrow> int option" where
  "MaxSubsequenceSum_exhaustive A N = exhaustive_outer A 0 N 0"

definition Max3 :: "int \<Rightarrow> int \<Rightarrow> int \<Rightarrow> int" where
  "Max3 MaxLeftSum MaxRightSum MaxBorderSum =
     (let m = (if MaxLeftSum > MaxRightSum then MaxLeftSum else MaxRightSum)
      in if m > MaxBorderSum then m else MaxBorderSum)"

function left_border :: "int list \<Rightarrow> int \<Rightarrow> int \<Rightarrow> int \<Rightarrow> int \<Rightarrow> int option" where
  "left_border A i lft bsum maxsum =
     (if i \<ge> lft
      then do {
        a \<leftarrow> rd A i;
        bsum \<leftarrow> checked 32 (bsum + a);
        left_border A (i - 1) lft bsum (if bsum > maxsum then bsum else maxsum)
      }
      else Some maxsum)"
  by pat_completeness auto
termination by (relation "measure (\<lambda>(A, i, l, t, m). nat (i + 1 - l))") auto

function right_border :: "int list \<Rightarrow> int \<Rightarrow> int \<Rightarrow> int \<Rightarrow> int \<Rightarrow> int option" where
  "right_border A i rgt bsum maxsum =
     (if i \<le> rgt
      then do {
        a \<leftarrow> rd A i;
        bsum \<leftarrow> checked 32 (bsum + a);
        right_border A (i + 1) rgt bsum (if bsum > maxsum then bsum else maxsum)
      }
      else Some maxsum)"
  by pat_completeness auto
termination by (relation "measure (\<lambda>(A, i, r, t, m). nat (r + 1 - i))") auto

partial_function (option) MaxSubSum :: "int list \<Rightarrow> int \<Rightarrow> int \<Rightarrow> int option" where
  "MaxSubSum A lft rgt = do {
     s \<leftarrow> checked 32 (lft + rgt);
     let mid = cdiv s 2 in
     if lft = rgt
     then do { a \<leftarrow> rd A lft; Some (if a > 0 then a else 0) }
     else do {
       MaxLeftSum \<leftarrow> MaxSubSum A lft mid;
       MaxRightSum \<leftarrow> MaxSubSum A (mid + 1) rgt;
       MaxLeftBorderSum \<leftarrow> left_border A mid lft 0 0;
       MaxRightBorderSum \<leftarrow> right_border A (mid + 1) rgt 0 0;
       b \<leftarrow> checked 32 (MaxLeftBorderSum + MaxRightBorderSum);
       Some (Max3 MaxLeftSum MaxRightSum b)
     }
   }"

definition MaxSubsequenceSum_divide :: "int list \<Rightarrow> int \<Rightarrow> int option" where
  "MaxSubsequenceSum_divide A N = MaxSubSum A 0 (N - 1)"

declare best_loop.simps [simp del] exhaustive_inner.simps [simp del] exhaustive_outer.simps [simp del]
  left_border.simps [simp del] right_border.simps [simp del]
declare MaxSubSum.simps [code]

section \<open>Largest segment, prefix and suffix sums\<close>

definition max_seg :: "int list \<Rightarrow> int \<Rightarrow> bool" where
  "max_seg xs m \<longleftrightarrow> (\<exists>us vs ws. xs = us @ vs @ ws \<and> m = sum_list vs) \<and> (\<forall>us vs ws. xs = us @ vs @ ws \<longrightarrow> sum_list vs \<le> m)"

definition max_pre :: "int list \<Rightarrow> int \<Rightarrow> bool" where
  "max_pre xs m \<longleftrightarrow> (\<exists>us vs. xs = us @ vs \<and> m = sum_list us) \<and> (\<forall>us vs. xs = us @ vs \<longrightarrow> sum_list us \<le> m)"

definition max_suf :: "int list \<Rightarrow> int \<Rightarrow> bool" where
  "max_suf xs m \<longleftrightarrow> max_pre (rev xs) m"

definition weight :: "int list \<Rightarrow> int" where
  "weight xs = sum_list (map abs xs)"

lemma weight_simps [simp]: "weight [] = 0" "weight (x # xs) = \<bar>x\<bar> + weight xs" "weight (xs @ ys) = weight xs + weight ys"
  by (simp_all add: weight_def)

lemma weight_nonneg [simp]: "0 \<le> weight xs"
  by (induction xs) auto

lemma weight_rev [simp]: "weight (rev xs) = weight xs"
  by (induction xs) auto

lemma abs_sum_weight: "\<bar>sum_list xs\<bar> \<le> weight xs"
  by (induction xs) (auto simp: abs_triangle_ineq [THEN order.trans])

lemma in_int_32: "\<bar>x\<bar> < 2 ^ 31 \<Longrightarrow> in_int 32 x"
  by (auto simp: in_int_def)

lemma max_pre_Nil [simp]: "max_pre [] m \<longleftrightarrow> m = 0"
  by (auto simp: max_pre_def)

lemma max_pre_Cons: "max_pre xs m \<Longrightarrow> max_pre (x # xs) (max 0 (x + m))"
  unfolding max_pre_def
proof (elim conjE exE, intro conjI allI impI)
  fix us vs assume m: "\<forall>us vs. xs = us @ vs \<longrightarrow> sum_list us \<le> m" and w: "xs = us @ vs" "m = sum_list us"
  show "\<exists>us vs. x # xs = us @ vs \<and> max 0 (x + m) = sum_list us"
  proof (cases "0 \<le> x + m")
    case True
    then show ?thesis using w by (intro exI [of _ "x # us"] exI [of _ vs]) simp
  next
    case False
    then show ?thesis by (intro exI [of _ "[]"] exI [of _ "x # xs"]) simp
  qed
  fix us' vs' assume "x # xs = us' @ vs'"
  then show "sum_list us' \<le> max 0 (x + m)" using m by (cases us') fastforce+
qed

lemma max_pre_unique: "max_pre xs m \<Longrightarrow> max_pre xs n \<Longrightarrow> m = n"
  unfolding max_pre_def by (metis order.antisym)

lemma max_pre_exists: "\<exists>m. max_pre xs m"
  by (induction xs) (auto dest: max_pre_Cons)

lemma max_pre_bounds: "max_pre xs m \<Longrightarrow> 0 \<le> m \<and> m \<le> weight xs"
proof -
  assume m: "max_pre xs m"
  then obtain us vs where "xs = us @ vs" "m = sum_list us" by (auto simp: max_pre_def)
  moreover have "sum_list [] \<le> m" using m unfolding max_pre_def by (metis append_Nil)
  ultimately show ?thesis using abs_sum_weight [of us] by (simp, smt (verit) weight_nonneg)
qed

lemma max_seg_unique: "max_seg xs m \<Longrightarrow> max_seg xs n \<Longrightarrow> m = n"
  unfolding max_seg_def by (metis order.antisym)

text \<open>A segment of two parts put together lies in one of them or crosses the border.\<close>

lemma max_seg_append:
  assumes "max_seg xs a" "max_seg ys b" "max_suf xs c" "max_pre ys d"
  shows "max_seg (xs @ ys) (max (max a b) (c + d))"
proof -
  have suf: "\<exists>us vs. xs = us @ vs \<and> c = sum_list vs" "\<And>us vs. xs = us @ vs \<Longrightarrow> sum_list vs \<le> c"
    using assms(3) unfolding max_suf_def max_pre_def by (metis rev_append rev_rev_ident sum_list_rev)+
  have le: "sum_list vs \<le> max (max a b) (c + d)" if eq: "xs @ ys = us @ vs @ ws" for us vs ws
  proof -
    from eq consider zs where "xs = us @ vs @ zs" | zs where "ys = zs @ vs @ ws" | p q where "xs = us @ p" "vs = p @ q" "ys = q @ ws"
      by (auto simp: append_eq_append_conv2)
    then show ?thesis
    proof cases
      case 1
      then have "sum_list vs \<le> a" using assms(1) unfolding max_seg_def by blast
      then show ?thesis by simp
    next
      case 2
      then have "sum_list vs \<le> b" using assms(2) unfolding max_seg_def by blast
      then show ?thesis by simp
    next
      case 3
      then have "sum_list p \<le> c" "sum_list q \<le> d" using suf(2) assms(4) unfolding max_pre_def by blast+
      with 3 show ?thesis by simp
    qed
  qed
  have "\<exists>us vs ws. xs @ ys = us @ vs @ ws \<and> k = sum_list vs" if "k = a \<or> k = b \<or> k = c + d" for k
  proof -
    obtain u1 v1 w1 u2 v2 w2 where ab: "xs = u1 @ v1 @ w1" "a = sum_list v1" "ys = u2 @ v2 @ w2" "b = sum_list v2"
      using assms(1,2) unfolding max_seg_def by blast
    obtain u3 v3 u4 v4 where cd: "xs = u3 @ v3" "c = sum_list v3" "ys = u4 @ v4" "d = sum_list u4"
      using suf(1) assms(4) unfolding max_pre_def by blast
    have "xs @ ys = u1 @ v1 @ (w1 @ ys)" "xs @ ys = (xs @ u2) @ v2 @ w2" "xs @ ys = u3 @ (v3 @ u4) @ v4" using ab cd by simp_all
    then show ?thesis using that ab(2,4) cd(2,4) by (metis sum_list.append)
  qed
  with le show ?thesis unfolding max_seg_def by (auto simp: max_def)
qed

lemma max_seg_single: "max_seg [x] (max 0 x)"
proof -
  have "[x] = [] @ [x] @ []" "[x] = [] @ [] @ [x]" by simp_all
  then have "\<exists>us vs ws. [x] = us @ vs @ ws \<and> max 0 x = sum_list vs"
    by (cases "0 \<le> x") (metis add.right_neutral max_def sum_list.Cons sum_list.Nil nle_le)+
  then show ?thesis by (auto simp: max_seg_def append_eq_Cons_conv Cons_eq_append_conv)
qed

lemma max_seg_Nil: "max_seg [] m \<longleftrightarrow> m = 0"
  by (auto simp: max_seg_def)

lemma max_suf_snoc: "max_suf xs m \<Longrightarrow> max_suf (xs @ [x]) (max 0 (m + x))"
  using max_pre_Cons [of "rev xs" m x] by (simp add: max_suf_def add.commute)

lemma max_seg_snoc:
  assumes "max_seg xs a" "max_suf xs c"
  shows "max_seg (xs @ [x]) (max a (max 0 (c + x)))"
proof -
  have "max_pre [x] (max 0 x)" using max_pre_Cons [of "[]" 0 x] by simp
  from max_seg_append [OF assms(1) max_seg_single assms(2) this]
  have seg: "max_seg (xs @ [x]) (max (max a (max 0 x)) (c + max 0 x))" .
  have "0 \<le> a" "0 \<le> c" "c \<le> a"
  proof -
    show "0 \<le> a" using assms(1) unfolding max_seg_def by (metis append_Nil append_Nil2 sum_list.Nil)
    show "0 \<le> c" using max_pre_bounds assms(2) by (simp add: max_suf_def)
    obtain us vs where "rev xs = us @ vs" "c = sum_list us" using assms(2) by (auto simp: max_suf_def max_pre_def)
    then have "xs = rev vs @ rev us @ []" "c = sum_list (rev us)" by (simp_all add: rev_swap sum_list_rev)
    then show "c \<le> a" using assms(1) unfolding max_seg_def by blast
  qed
  then have "max (max a (max 0 x)) (c + max 0 x) = max a (max 0 (c + x))" by (auto simp: max_def)
  with seg show ?thesis by simp
qed

section \<open>The loops\<close>

text \<open>The values that a segment of the array can add up to fit into an \<^verbatim>\<open>int\<close>.\<close>

lemma best_loop_spec:
  assumes "A = xs @ ys" "max_suf xs c" "max_seg xs m" "weight A < 2 ^ 31"
  shows "\<exists>m'. best_loop A (int (length xs)) (int (length A)) c m = Some m' \<and> max_seg A m'"
  using assms
proof (induction ys arbitrary: xs c m)
  case Nil
  then show ?case by (subst best_loop.simps) simp
next
  case (Cons y ys)
  have c: "0 \<le> c" "c \<le> weight xs" using max_pre_bounds [of "rev xs" c] Cons.prems(2) by (simp_all add: max_suf_def)
  have "\<bar>c + y\<bar> < 2 ^ 31" using c Cons.prems(1,4) by simp (smt (verit) weight_nonneg)
  then have add: "checked 32 (c + y) = Some (c + y)" by (intro checked_Some in_int_32)
  have rd: "rd A (int (length xs)) = Some y" using Cons.prems(1) by simp
  have m: "0 \<le> m" using Cons.prems(3) unfolding max_seg_def by (metis append_Nil append_Nil2 sum_list.Nil)
  have "best_loop A (int (length xs)) (int (length A)) c m =
      best_loop A (int (length (xs @ [y]))) (int (length A)) (max 0 (c + y)) (max m (max 0 (c + y)))"
    using add rd m Cons.prems(1) by (subst best_loop.simps) (auto simp: max_def add.commute)
  with Cons.IH [OF _ max_suf_snoc [OF Cons.prems(2)] max_seg_snoc [OF Cons.prems(3,2)] Cons.prems(4)] Cons.prems(1)
  show ?case by simp
qed

text \<open>
  The three other loops extend a sum \<open>t\<close> element by element and keep the largest sum seen; \<open>m\<close>
  is at least \<open>t\<close> at any time. They differ in direction and in how the end is written.
\<close>

lemma extend_step:
  assumes "max_pre (y # ys) p" "max_pre ys q" "t \<le> m" "\<bar>t\<bar> + weight (y # ys) < 2 ^ 31"
  shows "checked 32 (t + y) = Some (t + y)" "\<bar>t + y\<bar> + weight ys < 2 ^ 31" "max m (t + p) = max (max m (t + y)) (t + y + q)"
proof -
  have "p = max 0 (y + q)" using max_pre_unique [OF assms(1) max_pre_Cons [OF assms(2)]] .
  moreover have "0 \<le> q" using max_pre_bounds [OF assms(2)] by simp
  ultimately show "max m (t + p) = max (max m (t + y)) (t + y + q)" using assms(3) by (auto simp: max_def)
  have "0 \<le> weight ys" by simp
  with assms(4) show "\<bar>t + y\<bar> + weight ys < 2 ^ 31" unfolding weight_simps by linarith
  with \<open>0 \<le> weight ys\<close> have "\<bar>t + y\<bar> < 2 ^ 31" by linarith
  then show "checked 32 (t + y) = Some (t + y)" by (intro checked_Some in_int_32)
qed

lemma exhaustive_inner_spec:
  assumes "A = xs @ ys" "max_pre ys p" "t \<le> m" "\<bar>t\<bar> + weight ys < 2 ^ 31"
  shows "exhaustive_inner A (int (length xs)) (int (length A)) t m = Some (max m (t + p))"
  using assms
proof (induction ys arbitrary: xs t m p)
  case Nil
  then show ?case by (subst exhaustive_inner.simps) simp
next
  case (Cons y ys)
  obtain q where q: "max_pre ys q" using max_pre_exists by blast
  note e = extend_step [OF Cons.prems(2) q Cons.prems(3,4)]
  have "exhaustive_inner A (int (length xs)) (int (length A)) t m =
      exhaustive_inner A (int (length (xs @ [y]))) (int (length A)) (t + y) (max m (t + y))"
    using Cons.prems(1) e(1) by (subst exhaustive_inner.simps) (simp add: max_def add.commute)
  also have "\<dots> = Some (max (max m (t + y)) (t + y + q))"
    by (rule Cons.IH) (use Cons.prems(1) q e(2) in auto)
  finally show ?case using e(3) by simp
qed

lemma right_border_spec:
  assumes "A = xs @ ys @ zs" "max_pre ys p" "t \<le> m" "\<bar>t\<bar> + weight ys < 2 ^ 31"
  shows "right_border A (int (length xs)) (int (length (xs @ ys)) - 1) t m = Some (max m (t + p))"
  using assms
proof (induction ys arbitrary: xs t m p)
  case Nil
  then show ?case by (subst right_border.simps) simp
next
  case (Cons y ys)
  obtain q where q: "max_pre ys q" using max_pre_exists by blast
  note e = extend_step [OF Cons.prems(2) q Cons.prems(3,4)]
  have "right_border A (int (length xs)) (int (length (xs @ y # ys)) - 1) t m =
      right_border A (int (length (xs @ [y]))) (int (length ((xs @ [y]) @ ys)) - 1) (t + y) (max m (t + y))"
    using Cons.prems(1) e(1) by (subst right_border.simps) (simp add: max_def add.commute)
  also have "\<dots> = Some (max (max m (t + y)) (t + y + q))"
    by (rule Cons.IH) (use Cons.prems(1) q e(2) in auto)
  finally show ?case using e(3) by simp
qed

lemma left_border_spec:
  assumes "A = xs @ rev ys @ zs" "max_pre ys p" "t \<le> m" "\<bar>t\<bar> + weight ys < 2 ^ 31"
  shows "left_border A (int (length (xs @ ys)) - 1) (int (length xs)) t m = Some (max m (t + p))"
  using assms
proof (induction ys arbitrary: zs t m p)
  case Nil
  then show ?case by (subst left_border.simps) simp
next
  case (Cons y ys)
  obtain q where q: "max_pre ys q" using max_pre_exists by blast
  note e = extend_step [OF Cons.prems(2) q Cons.prems(3,4)]
  have "rd A (int (length (xs @ ys))) = Some y" using Cons.prems(1) by (simp add: rd_def nth_append nat_add_distrib)
  then have "left_border A (int (length (xs @ y # ys)) - 1) (int (length xs)) t m =
      left_border A (int (length (xs @ ys)) - 1) (int (length xs)) (t + y) (max m (t + y))"
    using e(1) by (subst left_border.simps) (simp add: max_def)
  also have "\<dots> = Some (max (max m (t + y)) (t + y + q))"
    by (rule Cons.IH [of "y # zs"]) (use Cons.prems(1) q e(2) in auto)
  finally show ?case using e(3) by simp
qed

lemma max_seg_Cons:
  assumes "max_seg xs a" "max_pre (x # xs) p"
  shows "max_seg (x # xs) (max a p)"
proof -
  have "\<exists>us vs ws. x # xs = us @ vs @ ws \<and> k = sum_list vs" if "k = a \<or> k = p" for k
    using assms that unfolding max_seg_def max_pre_def by (metis append_Cons append_Nil)
  moreover have "sum_list vs \<le> max a p" if "x # xs = us @ vs @ ws" for us vs ws
  proof (cases us)
    case Nil
    then have "sum_list vs \<le> p" using that assms(2) unfolding max_pre_def by (metis append_Nil)
    then show ?thesis by simp
  next
    case (Cons u us')
    then have "xs = us' @ vs @ ws" using that by simp
    then have "sum_list vs \<le> a" using assms(1) unfolding max_seg_def by blast
    then show ?thesis by simp
  qed
  ultimately show ?thesis unfolding max_seg_def by (auto simp: max_def)
qed

text \<open>The outer loop handles the starting points one by one.\<close>

lemma exhaustive_outer_spec:
  assumes "A = xs @ ys" "max_seg ys s" "0 \<le> m" "weight A < 2 ^ 31"
  shows "exhaustive_outer A (int (length xs)) (int (length A)) m = Some (max m s)"
  using assms
proof (induction ys arbitrary: xs m s)
  case Nil
  then show ?case by (subst exhaustive_outer.simps) (simp add: max_seg_Nil)
next
  case (Cons y ys)
  obtain p where p: "max_pre (y # ys) p" using max_pre_exists by blast
  have "\<exists>a. max_seg zs a" for zs
    by (induction zs) (use max_seg_Nil max_seg_Cons max_pre_exists in blast)+
  then obtain a where a: "max_seg ys a" by blast
  have s: "s = max a p" using max_seg_unique [OF Cons.prems(2) max_seg_Cons [OF a p]] .
  have "0 \<le> weight xs" by simp
  then have "weight (y # ys) < 2 ^ 31" using Cons.prems(1,4) by (simp, linarith)
  then have "exhaustive_inner A (int (length xs)) (int (length A)) 0 m = Some (max m p)"
    using exhaustive_inner_spec [OF Cons.prems(1) p Cons.prems(3)] by simp
  then have "exhaustive_outer A (int (length xs)) (int (length A)) m = exhaustive_outer A (int (length (xs @ [y]))) (int (length A)) (max m p)"
    using Cons.prems(1) by (subst exhaustive_outer.simps) (simp add: add.commute)
  also have "\<dots> = Some (max (max m p) a)" by (rule Cons.IH) (use Cons.prems a in auto)
  finally show ?case using s by (simp add: max.assoc max.commute)
qed

lemma MaxSubSum_step:
  assumes "checked 32 (l + r) = Some (l + r)" "cdiv (l + r) 2 = k - 1" "l \<noteq> r" "MaxSubSum A l (k - 1) = Some a" "MaxSubSum A k r = Some b"
    "left_border A (k - 1) l 0 0 = Some c" "right_border A k r 0 0 = Some d" "checked 32 (c + d) = Some (c + d)"
  shows "MaxSubSum A l r = Some (Max3 a b (c + d))"
  using assms by (subst MaxSubSum.simps) simp

text \<open>Divide and conquer on the segment \<open>ys\<close> of the array.\<close>

lemma MaxSubSum_spec:
  assumes "A = xs @ ys @ zs" "ys \<noteq> []" "weight A < 2 ^ 31" "length A < 2 ^ 30"
  shows "\<exists>m. MaxSubSum A (int (length xs)) (int (length (xs @ ys)) - 1) = Some m \<and> max_seg ys m"
  using assms
proof (induction "length ys" arbitrary: xs ys zs rule: less_induct)
  case less
  let ?l = "int (length xs)" and ?r = "int (length (xs @ ys)) - 1"
  have sum: "checked 32 (?l + ?r) = Some (?l + ?r)"
    using less.prems(1,4) by (intro checked_Some) (auto simp: in_int_def)
  show ?case
  proof (cases "length ys = 1")
    case True
    then obtain y where "ys = [y]" by (auto simp: length_Suc_conv)
    moreover have "max 0 y = (if y > 0 then y else 0)" by auto
    ultimately show ?thesis using sum max_seg_single [of y] less.prems(1)
      by (subst MaxSubSum.simps) simp
  next
    case False
    then have len: "1 < length ys" using less.prems(2) by (cases ys) auto
    define n where "n = (length ys + 1) div 2"
    define us where "us = take n ys"
    define vs where "vs = drop n ys"
    have n: "0 < n" "n < length ys" using len by (auto simp: n_def)
    have uv: "ys = us @ vs" "length us = n" "us \<noteq> []" "vs \<noteq> []" "length us < length ys" "length vs < length ys"
      using n by (auto simp: us_def vs_def)
    have mid: "cdiv (?l + ?r) 2 = int (length (xs @ us)) - 1"
      using len uv(2) by (simp add: n_def zdiv_int)
    obtain a where a: "MaxSubSum A ?l (int (length (xs @ us)) - 1) = Some a" "max_seg us a"
      using less.hyps [of us xs "vs @ zs"] less.prems uv by auto
    obtain b where b: "MaxSubSum A (int (length (xs @ us))) ?r = Some b" "max_seg vs b"
      using less.hyps [of vs "xs @ us" zs] less.prems uv by (auto simp: algebra_simps)
    obtain c d where cd: "max_pre (rev us) c" "max_pre vs d" using max_pre_exists by blast
    have w: "weight us < 2 ^ 31" "weight vs < 2 ^ 31" "weight us + weight vs < 2 ^ 31"
    proof -
      have "weight xs + (weight us + (weight vs + weight zs)) < 2 ^ 31" using less.prems(1,3) uv(1) by simp
      with weight_nonneg [of xs] weight_nonneg [of us] weight_nonneg [of vs] weight_nonneg [of zs]
      show "weight us < 2 ^ 31" "weight vs < 2 ^ 31" "weight us + weight vs < 2 ^ 31" by linarith+
    qed
    have "left_border A (int (length (xs @ us)) - 1) ?l 0 0 = Some c"
      using left_border_spec [of A xs "rev us" "vs @ zs" c 0 0] less.prems(1) uv(1) cd(1) w(1) max_pre_bounds [OF cd(1)] by simp
    moreover have "right_border A (int (length (xs @ us))) ?r 0 0 = Some d"
      using right_border_spec [of A "xs @ us" vs zs d 0 0] less.prems(1) uv(1) cd(2) w(2) max_pre_bounds [OF cd(2)] by (simp add: algebra_simps)
    moreover have "checked 32 (c + d) = Some (c + d)"
      using max_pre_bounds [OF cd(1)] max_pre_bounds [OF cd(2)] w(3) by (intro checked_Some in_int_32) simp
    ultimately have "MaxSubSum A ?l ?r = Some (Max3 a b (c + d))"
      using sum mid a(1) b(1) len by (intro MaxSubSum_step) auto
    moreover have "max_seg ys (Max3 a b (c + d))"
      using max_seg_append [OF a(2) b(2) _ cd(2), of c] cd(1) uv(1) by (simp add: max_suf_def Max3_def max_def Let_def split: if_splits)
    ultimately show ?thesis by blast
  qed
qed

section \<open>The three programs agree\<close>

text \<open>
  C22. On a non-empty array whose absolute values add up to less than \<open>2\<^sup>31\<close>, the exhaustive
  search, divide and conquer and the linear scan terminate without overflow and return the same
  number: the largest sum of a (possibly empty) run of consecutive elements.
\<close>

theorem max_subsequence_programs_agree:
  assumes "A \<noteq> []" "sum_list (map abs A) < 2 ^ 31" "length A < 2 ^ 30"
  shows "\<exists>m. MaxSubsequenceSum_exhaustive A (int (length A)) = Some m \<and> MaxSubsequenceSum_divide A (int (length A)) = Some m \<and>
    MaxSubSequenceSum_best A (int (length A)) = Some m \<and>
    (\<exists>us vs ws. A = us @ vs @ ws \<and> m = sum_list vs) \<and> (\<forall>us vs ws. A = us @ vs @ ws \<longrightarrow> sum_list vs \<le> m)"
proof -
  have w: "weight A < 2 ^ 31" using assms(2) by (simp add: weight_def)
  obtain m where m: "MaxSubsequenceSum_divide A (int (length A)) = Some m" "max_seg A m"
    using MaxSubSum_spec [of A "[]" A "[]"] assms(1,3) w by (auto simp: MaxSubsequenceSum_divide_def)
  obtain k where "MaxSubSequenceSum_best A (int (length A)) = Some k" "max_seg A k"
    using best_loop_spec [of A "[]" A 0 0] w by (auto simp: MaxSubSequenceSum_best_def max_suf_def max_seg_Nil)
  moreover have "k = m" using max_seg_unique calculation(2) m(2) by blast
  moreover have "0 \<le> m" using m(2) unfolding max_seg_def by (metis append_Nil append_Nil2 sum_list.Nil)
  then have "MaxSubsequenceSum_exhaustive A (int (length A)) = Some m"
    using exhaustive_outer_spec [of A "[]" A m 0] m(2) w by (simp add: MaxSubsequenceSum_exhaustive_def)
  ultimately show ?thesis using m(1) m(2) [unfolded max_seg_def] by (intro exI [of _ m] conjI) simp_all
qed

theorem max_subsequence_programs_agree_witness:
  "\<exists>m. MaxSubSequenceSum_best [4, -3, 5, -2, -1, 2, 6, -2] 8 = Some m \<and> MaxSubsequenceSum_divide [4, -3, 5, -2, -1, 2, 6, -2] 8 = Some m \<and> 11 \<le> m"
proof -
  let ?A = "[4, -3, 5, -2, -1, 2, 6, -2] :: int list"
  have "?A \<noteq> []" "sum_list (map abs ?A) < 2 ^ 31" "length ?A < 2 ^ 30" by simp_all
  then obtain m where m: "MaxSubSequenceSum_best ?A (int (length ?A)) = Some m" "MaxSubsequenceSum_divide ?A (int (length ?A)) = Some m"
    "\<forall>us vs ws. ?A = us @ vs @ ws \<longrightarrow> sum_list vs \<le> m"
    using max_subsequence_programs_agree [of ?A] by blast
  have "11 \<le> m" using m(3) [rule_format, of "[]" "[4, -3, 5, -2, -1, 2, 6]" "[-2]"] by simp
  with m(1,2) show ?thesis by simp
qed

end
