(* ===== verification/RK817_Fields.thy ===== *)
theory RK817_Fields
  imports C_Memory "HOL-Library.Word" "HOL-Library.Multiset"
begin

unbundle bit_operations_syntax

text \<open>
  The register fields of the RK817/RK809 fuel gauge (\<^verbatim>\<open>rk817_battery.c\<close>): the enumeration of the
  fields and the table that gives each its register and bit range. The kernel's
  \<^verbatim>\<open>regmap_field_read\<close> and \<^verbatim>\<open>regmap_field_write\<close> are parameters of the driver model; the locale
  \<open>register_fields\<close> states what the driver relies on for the fields it uses as storage, and its
  interpretation shows that a register file addressed through the table of the source fulfils it.
\<close>

section \<open>Integers of the kernel\<close>

text \<open>
  A value stored in a \<^verbatim>\<open>u32\<close>, \<^verbatim>\<open>u16\<close> or \<^verbatim>\<open>u8\<close> is truncated to its width, as one stored in an \<^verbatim>\<open>int\<close> is by \<open>s32\<close>.
\<close>

definition u32 :: "int \<Rightarrow> int" where
  "u32 x = x mod 4294967296"

definition u16 :: "int \<Rightarrow> int" where
  "u16 x = x mod 65536"

definition u8 :: "int \<Rightarrow> int" where
  "u8 x = x mod 256"

text \<open>\<^verbatim>\<open>DIV(x)\<close> of the driver, and a division that stops on a zero divisor.\<close>

definition DIV :: "int \<Rightarrow> int" where
  "DIV x = (if x \<noteq> 0 then x else 1)"

definition divz :: "int \<Rightarrow> int \<Rightarrow> int option" where
  "divz a b = (if b = 0 then None else Some (cdiv a b))"

lemma u_range [simp]:
  "0 \<le> u32 x" "u32 x < 4294967296" "0 \<le> u16 x" "u16 x < 65536" "0 \<le> u8 x" "u8 x < 256"
  by (simp_all add: u32_def u16_def u8_def)

lemma u_id [simp]:
  "0 \<le> x \<Longrightarrow> x < 4294967296 \<Longrightarrow> u32 x = x" "0 \<le> x \<Longrightarrow> x < 65536 \<Longrightarrow> u16 x = x" "0 \<le> x \<Longrightarrow> x < 256 \<Longrightarrow> u8 x = x"
  by (simp_all add: u32_def u16_def u8_def)

lemma DIV_nz [simp]: "DIV x \<noteq> 0" "x \<noteq> 0 \<Longrightarrow> DIV x = x"
  by (simp_all add: DIV_def)

lemma divz_DIV [simp]: "divz a (DIV x) = Some (cdiv a (DIV x))"
  by (simp add: divz_def)

section \<open>The fields\<close>

text \<open>
  The enumeration: its members are the indices of the table, in the order of the source.
\<close>

type_synonym rk817_battery_fields = nat

abbreviation (input) ADC_SLP_RATE :: rk817_battery_fields where "ADC_SLP_RATE \<equiv> 0"
abbreviation (input) BAT_CUR_ADC_EN :: rk817_battery_fields where "BAT_CUR_ADC_EN \<equiv> 1"
abbreviation (input) BAT_VOL_ADC_EN :: rk817_battery_fields where "BAT_VOL_ADC_EN \<equiv> 2"
abbreviation (input) USB_VOL_ADC_EN :: rk817_battery_fields where "USB_VOL_ADC_EN \<equiv> 3"
abbreviation (input) TS_ADC_EN :: rk817_battery_fields where "TS_ADC_EN \<equiv> 4"
abbreviation (input) SYS_VOL_ADC_EN :: rk817_battery_fields where "SYS_VOL_ADC_EN \<equiv> 5"
abbreviation (input) GG_EN :: rk817_battery_fields where "GG_EN \<equiv> 6"
abbreviation (input) CUR_ADC_DITH_SEL :: rk817_battery_fields where "CUR_ADC_DITH_SEL \<equiv> 7"
abbreviation (input) CUR_ADC_DIH_EN :: rk817_battery_fields where "CUR_ADC_DIH_EN \<equiv> 8"
abbreviation (input) CUR_ADC_CHOP_EN :: rk817_battery_fields where "CUR_ADC_CHOP_EN \<equiv> 9"
abbreviation (input) CUR_ADC_CHOP_SEL :: rk817_battery_fields where "CUR_ADC_CHOP_SEL \<equiv> 10"
abbreviation (input) CUR_ADC_CHOP_VREF_EN :: rk817_battery_fields where "CUR_ADC_CHOP_VREF_EN \<equiv> 11"
abbreviation (input) CUR_ADC_VCOM_SEL :: rk817_battery_fields where "CUR_ADC_VCOM_SEL \<equiv> 12"
abbreviation (input) CUR_ADC_VCOM_BUF_INC :: rk817_battery_fields where "CUR_ADC_VCOM_BUF_INC \<equiv> 13"
abbreviation (input) CUR_ADC_VREF_BUF_INC :: rk817_battery_fields where "CUR_ADC_VREF_BUF_INC \<equiv> 14"
abbreviation (input) CUR_ADC_BIAS_DEC :: rk817_battery_fields where "CUR_ADC_BIAS_DEC \<equiv> 15"
abbreviation (input) CUR_ADC_IBIAS_SEL :: rk817_battery_fields where "CUR_ADC_IBIAS_SEL \<equiv> 16"
abbreviation (input) VOL_ADC_EXT_VREF_EN :: rk817_battery_fields where "VOL_ADC_EXT_VREF_EN \<equiv> 17"
abbreviation (input) VOL_ADC_DITH_SEL :: rk817_battery_fields where "VOL_ADC_DITH_SEL \<equiv> 18"
abbreviation (input) VOL_ADC_DITH_EN :: rk817_battery_fields where "VOL_ADC_DITH_EN \<equiv> 19"
abbreviation (input) VOL_ADC_CHOP_EN :: rk817_battery_fields where "VOL_ADC_CHOP_EN \<equiv> 20"
abbreviation (input) VOL_ADC_CHOP_SEL :: rk817_battery_fields where "VOL_ADC_CHOP_SEL \<equiv> 21"
abbreviation (input) VOL_ADC_CHOP_VREF_EN :: rk817_battery_fields where "VOL_ADC_CHOP_VREF_EN \<equiv> 22"
abbreviation (input) VOL_ADC_VCOM_SEL :: rk817_battery_fields where "VOL_ADC_VCOM_SEL \<equiv> 23"
abbreviation (input) VOL_ADC_VCOM_BUF_INC :: rk817_battery_fields where "VOL_ADC_VCOM_BUF_INC \<equiv> 24"
abbreviation (input) VOL_ADC_VREF_BUF_INC :: rk817_battery_fields where "VOL_ADC_VREF_BUF_INC \<equiv> 25"
abbreviation (input) VOL_ADC_IBIAS_SEL :: rk817_battery_fields where "VOL_ADC_IBIAS_SEL \<equiv> 26"
abbreviation (input) RLX_CUR_FILTER :: rk817_battery_fields where "RLX_CUR_FILTER \<equiv> 27"
abbreviation (input) TS_FUN :: rk817_battery_fields where "TS_FUN \<equiv> 28"
abbreviation (input) VOL_ADC_TSCUR_SEL :: rk817_battery_fields where "VOL_ADC_TSCUR_SEL \<equiv> 29"
abbreviation (input) VOL_CALIB_UPD :: rk817_battery_fields where "VOL_CALIB_UPD \<equiv> 30"
abbreviation (input) CUR_CALIB_UPD :: rk817_battery_fields where "CUR_CALIB_UPD \<equiv> 31"
abbreviation (input) CUR_OUT_MOD :: rk817_battery_fields where "CUR_OUT_MOD \<equiv> 32"
abbreviation (input) VOL_OUT_MOD :: rk817_battery_fields where "VOL_OUT_MOD \<equiv> 33"
abbreviation (input) FRAME_SMP_INTERV :: rk817_battery_fields where "FRAME_SMP_INTERV \<equiv> 34"
abbreviation (input) ADC_OFF_CAL_INTERV :: rk817_battery_fields where "ADC_OFF_CAL_INTERV \<equiv> 35"
abbreviation (input) RLX_SPT :: rk817_battery_fields where "RLX_SPT \<equiv> 36"
abbreviation (input) OCV_UPD :: rk817_battery_fields where "OCV_UPD \<equiv> 37"
abbreviation (input) RELAX_STS :: rk817_battery_fields where "RELAX_STS \<equiv> 38"
abbreviation (input) RELAX_VOL2_UPD :: rk817_battery_fields where "RELAX_VOL2_UPD \<equiv> 39"
abbreviation (input) RELAX_VOL1_UPD :: rk817_battery_fields where "RELAX_VOL1_UPD \<equiv> 40"
abbreviation (input) BAT_CON :: rk817_battery_fields where "BAT_CON \<equiv> 41"
abbreviation (input) QMAX_UPD_SOFT :: rk817_battery_fields where "QMAX_UPD_SOFT \<equiv> 42"
abbreviation (input) TERM_UPD :: rk817_battery_fields where "TERM_UPD \<equiv> 43"
abbreviation (input) OCV_STS :: rk817_battery_fields where "OCV_STS \<equiv> 44"
abbreviation (input) RELAX_THRE_H :: rk817_battery_fields where "RELAX_THRE_H \<equiv> 45"
abbreviation (input) RELAX_THRE_L :: rk817_battery_fields where "RELAX_THRE_L \<equiv> 46"
abbreviation (input) RELAX_VOL1_H :: rk817_battery_fields where "RELAX_VOL1_H \<equiv> 47"
abbreviation (input) RELAX_VOL1_L :: rk817_battery_fields where "RELAX_VOL1_L \<equiv> 48"
abbreviation (input) RELAX_VOL2_H :: rk817_battery_fields where "RELAX_VOL2_H \<equiv> 49"
abbreviation (input) RELAX_VOL2_L :: rk817_battery_fields where "RELAX_VOL2_L \<equiv> 50"
abbreviation (input) RELAX_CUR1_H :: rk817_battery_fields where "RELAX_CUR1_H \<equiv> 51"
abbreviation (input) RELAX_CUR1_L :: rk817_battery_fields where "RELAX_CUR1_L \<equiv> 52"
abbreviation (input) RELAX_CUR2_H :: rk817_battery_fields where "RELAX_CUR2_H \<equiv> 53"
abbreviation (input) RELAX_CUR2_L :: rk817_battery_fields where "RELAX_CUR2_L \<equiv> 54"
abbreviation (input) OCV_THRE_VOL :: rk817_battery_fields where "OCV_THRE_VOL \<equiv> 55"
abbreviation (input) OCV_VOL_H :: rk817_battery_fields where "OCV_VOL_H \<equiv> 56"
abbreviation (input) OCV_VOL_L :: rk817_battery_fields where "OCV_VOL_L \<equiv> 57"
abbreviation (input) OCV_VOL0_H :: rk817_battery_fields where "OCV_VOL0_H \<equiv> 58"
abbreviation (input) OCV_VOL0_L :: rk817_battery_fields where "OCV_VOL0_L \<equiv> 59"
abbreviation (input) OCV_CUR_H :: rk817_battery_fields where "OCV_CUR_H \<equiv> 60"
abbreviation (input) OCV_CUR_L :: rk817_battery_fields where "OCV_CUR_L \<equiv> 61"
abbreviation (input) OCV_CUR0_H :: rk817_battery_fields where "OCV_CUR0_H \<equiv> 62"
abbreviation (input) OCV_CUR0_L :: rk817_battery_fields where "OCV_CUR0_L \<equiv> 63"
abbreviation (input) PWRON_VOL_H :: rk817_battery_fields where "PWRON_VOL_H \<equiv> 64"
abbreviation (input) PWRON_VOL_L :: rk817_battery_fields where "PWRON_VOL_L \<equiv> 65"
abbreviation (input) PWRON_CUR_H :: rk817_battery_fields where "PWRON_CUR_H \<equiv> 66"
abbreviation (input) PWRON_CUR_L :: rk817_battery_fields where "PWRON_CUR_L \<equiv> 67"
abbreviation (input) OFF_CNT :: rk817_battery_fields where "OFF_CNT \<equiv> 68"
abbreviation (input) Q_INIT_H3 :: rk817_battery_fields where "Q_INIT_H3 \<equiv> 69"
abbreviation (input) Q_INIT_H2 :: rk817_battery_fields where "Q_INIT_H2 \<equiv> 70"
abbreviation (input) Q_INIT_L1 :: rk817_battery_fields where "Q_INIT_L1 \<equiv> 71"
abbreviation (input) Q_INIT_L0 :: rk817_battery_fields where "Q_INIT_L0 \<equiv> 72"
abbreviation (input) Q_PRESS_H3 :: rk817_battery_fields where "Q_PRESS_H3 \<equiv> 73"
abbreviation (input) Q_PRESS_H2 :: rk817_battery_fields where "Q_PRESS_H2 \<equiv> 74"
abbreviation (input) Q_PRESS_L1 :: rk817_battery_fields where "Q_PRESS_L1 \<equiv> 75"
abbreviation (input) Q_PRESS_L0 :: rk817_battery_fields where "Q_PRESS_L0 \<equiv> 76"
abbreviation (input) BAT_VOL_H :: rk817_battery_fields where "BAT_VOL_H \<equiv> 77"
abbreviation (input) BAT_VOL_L :: rk817_battery_fields where "BAT_VOL_L \<equiv> 78"
abbreviation (input) BAT_CUR_H :: rk817_battery_fields where "BAT_CUR_H \<equiv> 79"
abbreviation (input) BAT_CUR_L :: rk817_battery_fields where "BAT_CUR_L \<equiv> 80"
abbreviation (input) BAT_TS_H :: rk817_battery_fields where "BAT_TS_H \<equiv> 81"
abbreviation (input) BAT_TS_L :: rk817_battery_fields where "BAT_TS_L \<equiv> 82"
abbreviation (input) USB_VOL_H :: rk817_battery_fields where "USB_VOL_H \<equiv> 83"
abbreviation (input) USB_VOL_L :: rk817_battery_fields where "USB_VOL_L \<equiv> 84"
abbreviation (input) SYS_VOL_H :: rk817_battery_fields where "SYS_VOL_H \<equiv> 85"
abbreviation (input) SYS_VOL_L :: rk817_battery_fields where "SYS_VOL_L \<equiv> 86"
abbreviation (input) Q_MAX_H3 :: rk817_battery_fields where "Q_MAX_H3 \<equiv> 87"
abbreviation (input) Q_MAX_H2 :: rk817_battery_fields where "Q_MAX_H2 \<equiv> 88"
abbreviation (input) Q_MAX_L1 :: rk817_battery_fields where "Q_MAX_L1 \<equiv> 89"
abbreviation (input) Q_MAX_L0 :: rk817_battery_fields where "Q_MAX_L0 \<equiv> 90"
abbreviation (input) Q_TERM_H3 :: rk817_battery_fields where "Q_TERM_H3 \<equiv> 91"
abbreviation (input) Q_TERM_H2 :: rk817_battery_fields where "Q_TERM_H2 \<equiv> 92"
abbreviation (input) Q_TERM_L1 :: rk817_battery_fields where "Q_TERM_L1 \<equiv> 93"
abbreviation (input) Q_TERM_L0 :: rk817_battery_fields where "Q_TERM_L0 \<equiv> 94"
abbreviation (input) Q_OCV_H3 :: rk817_battery_fields where "Q_OCV_H3 \<equiv> 95"
abbreviation (input) Q_OCV_H2 :: rk817_battery_fields where "Q_OCV_H2 \<equiv> 96"
abbreviation (input) Q_OCV_L1 :: rk817_battery_fields where "Q_OCV_L1 \<equiv> 97"
abbreviation (input) Q_OCV_L0 :: rk817_battery_fields where "Q_OCV_L0 \<equiv> 98"
abbreviation (input) OCV_CNT :: rk817_battery_fields where "OCV_CNT \<equiv> 99"
abbreviation (input) SLEEP_CON_SAMP_CUR_H :: rk817_battery_fields where "SLEEP_CON_SAMP_CUR_H \<equiv> 100"
abbreviation (input) SLEEP_CON_SAMP_CUR_L :: rk817_battery_fields where "SLEEP_CON_SAMP_CUR_L \<equiv> 101"
abbreviation (input) CAL_OFFSET_H :: rk817_battery_fields where "CAL_OFFSET_H \<equiv> 102"
abbreviation (input) CAL_OFFSET_L :: rk817_battery_fields where "CAL_OFFSET_L \<equiv> 103"
abbreviation (input) VCALIB0_H :: rk817_battery_fields where "VCALIB0_H \<equiv> 104"
abbreviation (input) VCALIB0_L :: rk817_battery_fields where "VCALIB0_L \<equiv> 105"
abbreviation (input) VCALIB1_H :: rk817_battery_fields where "VCALIB1_H \<equiv> 106"
abbreviation (input) VCALIB1_L :: rk817_battery_fields where "VCALIB1_L \<equiv> 107"
abbreviation (input) IOFFSET_H :: rk817_battery_fields where "IOFFSET_H \<equiv> 108"
abbreviation (input) IOFFSET_L :: rk817_battery_fields where "IOFFSET_L \<equiv> 109"
abbreviation (input) BAT_R0 :: rk817_battery_fields where "BAT_R0 \<equiv> 110"
abbreviation (input) SOC_REG0 :: rk817_battery_fields where "SOC_REG0 \<equiv> 111"
abbreviation (input) SOC_REG1 :: rk817_battery_fields where "SOC_REG1 \<equiv> 112"
abbreviation (input) SOC_REG2 :: rk817_battery_fields where "SOC_REG2 \<equiv> 113"
abbreviation (input) REMAIN_CAP_REG2 :: rk817_battery_fields where "REMAIN_CAP_REG2 \<equiv> 114"
abbreviation (input) REMAIN_CAP_REG1 :: rk817_battery_fields where "REMAIN_CAP_REG1 \<equiv> 115"
abbreviation (input) REMAIN_CAP_REG0 :: rk817_battery_fields where "REMAIN_CAP_REG0 \<equiv> 116"
abbreviation (input) NEW_FCC_REG2 :: rk817_battery_fields where "NEW_FCC_REG2 \<equiv> 117"
abbreviation (input) NEW_FCC_REG1 :: rk817_battery_fields where "NEW_FCC_REG1 \<equiv> 118"
abbreviation (input) NEW_FCC_REG0 :: rk817_battery_fields where "NEW_FCC_REG0 \<equiv> 119"
abbreviation (input) RESET_MODE :: rk817_battery_fields where "RESET_MODE \<equiv> 120"
abbreviation (input) FG_INIT :: rk817_battery_fields where "FG_INIT \<equiv> 121"
abbreviation (input) HALT_CNT_REG :: rk817_battery_fields where "HALT_CNT_REG \<equiv> 122"
abbreviation (input) CALC_REST_REGL :: rk817_battery_fields where "CALC_REST_REGL \<equiv> 123"
abbreviation (input) CALC_REST_REGH :: rk817_battery_fields where "CALC_REST_REGH \<equiv> 124"
abbreviation (input) VOL_ADC_B3 :: rk817_battery_fields where "VOL_ADC_B3 \<equiv> 125"
abbreviation (input) VOL_ADC_B2 :: rk817_battery_fields where "VOL_ADC_B2 \<equiv> 126"
abbreviation (input) VOL_ADC_B1 :: rk817_battery_fields where "VOL_ADC_B1 \<equiv> 127"
abbreviation (input) VOL_ADC_B0 :: rk817_battery_fields where "VOL_ADC_B0 \<equiv> 128"
abbreviation (input) VOL_ADC_K3 :: rk817_battery_fields where "VOL_ADC_K3 \<equiv> 129"
abbreviation (input) VOL_ADC_K2 :: rk817_battery_fields where "VOL_ADC_K2 \<equiv> 130"
abbreviation (input) VOL_ADC_K1 :: rk817_battery_fields where "VOL_ADC_K1 \<equiv> 131"
abbreviation (input) VOL_ADC_K0 :: rk817_battery_fields where "VOL_ADC_K0 \<equiv> 132"
abbreviation (input) BAT_EXS :: rk817_battery_fields where "BAT_EXS \<equiv> 133"
abbreviation (input) CHG_STS :: rk817_battery_fields where "CHG_STS \<equiv> 134"
abbreviation (input) BAT_OVP_STS :: rk817_battery_fields where "BAT_OVP_STS \<equiv> 135"
abbreviation (input) CHRG_IN_CLAMP :: rk817_battery_fields where "CHRG_IN_CLAMP \<equiv> 136"
abbreviation (input) CHIP_NAME_H :: rk817_battery_fields where "CHIP_NAME_H \<equiv> 137"
abbreviation (input) CHIP_NAME_L :: rk817_battery_fields where "CHIP_NAME_L \<equiv> 138"
abbreviation (input) PLUG_IN_STS :: rk817_battery_fields where "PLUG_IN_STS \<equiv> 139"
abbreviation (input) F_MAX_FIELDS :: rk817_battery_fields where "F_MAX_FIELDS \<equiv> 140"

datatype reg_field = REG_FIELD (reg: nat) (lsb: nat) (msb: nat)

definition rk817_battery_reg_fields :: "reg_field list" where
  "rk817_battery_reg_fields =
   [REG_FIELD 0x50 0 0,
    REG_FIELD 0x50 2 2,
    REG_FIELD 0x50 3 3,
    REG_FIELD 0x50 4 4,
    REG_FIELD 0x50 5 5,
    REG_FIELD 0x50 6 6,
    REG_FIELD 0x50 7 7,
    REG_FIELD 0x51 1 3,
    REG_FIELD 0x51 4 4,
    REG_FIELD 0x51 5 5,
    REG_FIELD 0x51 6 6,
    REG_FIELD 0x51 7 7,
    REG_FIELD 0x52 0 1,
    REG_FIELD 0x52 2 2,
    REG_FIELD 0x52 3 3,
    REG_FIELD 0x52 4 4,
    REG_FIELD 0x52 5 6,
    REG_FIELD 0x53 0 0,
    REG_FIELD 0x53 1 3,
    REG_FIELD 0x53 4 4,
    REG_FIELD 0x53 5 5,
    REG_FIELD 0x53 6 6,
    REG_FIELD 0x53 7 7,
    REG_FIELD 0x54 0 1,
    REG_FIELD 0x54 2 2,
    REG_FIELD 0x54 3 3,
    REG_FIELD 0x54 5 6,
    REG_FIELD 0x55 0 1,
    REG_FIELD 0x55 3 3,
    REG_FIELD 0x55 4 5,
    REG_FIELD 0x55 6 6,
    REG_FIELD 0x55 7 7,
    REG_FIELD 0x56 0 0,
    REG_FIELD 0x56 1 1,
    REG_FIELD 0x56 2 3,
    REG_FIELD 0x56 4 5,
    REG_FIELD 0x56 6 7,
    REG_FIELD 0x57 0 0,
    REG_FIELD 0x57 1 1,
    REG_FIELD 0x57 2 2,
    REG_FIELD 0x57 3 3,
    REG_FIELD 0x57 4 4,
    REG_FIELD 0x57 5 5,
    REG_FIELD 0x57 6 6,
    REG_FIELD 0x57 7 7,
    REG_FIELD 0x58 0 7,
    REG_FIELD 0x59 0 7,
    REG_FIELD 0x5A 0 7,
    REG_FIELD 0x5B 0 7,
    REG_FIELD 0x5C 0 7,
    REG_FIELD 0x5D 0 7,
    REG_FIELD 0x5E 0 7,
    REG_FIELD 0x5F 0 7,
    REG_FIELD 0x60 0 7,
    REG_FIELD 0x61 0 7,
    REG_FIELD 0x62 0 7,
    REG_FIELD 0x63 0 7,
    REG_FIELD 0x64 0 7,
    REG_FIELD 0x65 0 7,
    REG_FIELD 0x66 0 7,
    REG_FIELD 0x67 0 7,
    REG_FIELD 0x68 0 7,
    REG_FIELD 0x69 0 7,
    REG_FIELD 0x6A 0 7,
    REG_FIELD 0x6B 0 7,
    REG_FIELD 0x6C 0 7,
    REG_FIELD 0x6D 0 7,
    REG_FIELD 0x6E 0 7,
    REG_FIELD 0x6F 0 7,
    REG_FIELD 0x70 0 7,
    REG_FIELD 0x71 0 7,
    REG_FIELD 0x72 0 7,
    REG_FIELD 0x73 0 7,
    REG_FIELD 0x74 0 7,
    REG_FIELD 0x75 0 7,
    REG_FIELD 0x76 0 7,
    REG_FIELD 0x77 0 7,
    REG_FIELD 0x78 0 7,
    REG_FIELD 0x79 0 7,
    REG_FIELD 0x7A 0 7,
    REG_FIELD 0x7B 0 7,
    REG_FIELD 0x7C 0 7,
    REG_FIELD 0x7D 0 7,
    REG_FIELD 0x7E 0 7,
    REG_FIELD 0x7F 0 7,
    REG_FIELD 0x80 0 7,
    REG_FIELD 0x81 0 7,
    REG_FIELD 0x82 0 7,
    REG_FIELD 0x83 0 7,
    REG_FIELD 0x84 0 7,
    REG_FIELD 0x85 0 7,
    REG_FIELD 0x86 0 7,
    REG_FIELD 0x87 0 7,
    REG_FIELD 0x88 0 7,
    REG_FIELD 0x89 0 7,
    REG_FIELD 0x8A 0 7,
    REG_FIELD 0x8B 0 7,
    REG_FIELD 0x8C 0 7,
    REG_FIELD 0x8D 0 7,
    REG_FIELD 0x8E 0 7,
    REG_FIELD 0x8F 0 7,
    REG_FIELD 0x90 0 7,
    REG_FIELD 0x91 0 7,
    REG_FIELD 0x92 0 7,
    REG_FIELD 0x93 0 7,
    REG_FIELD 0x94 0 7,
    REG_FIELD 0x95 0 7,
    REG_FIELD 0x96 0 7,
    REG_FIELD 0x97 0 7,
    REG_FIELD 0x98 0 7,
    REG_FIELD 0x99 0 7,
    REG_FIELD 0x9A 0 7,
    REG_FIELD 0x9B 0 7,
    REG_FIELD 0x9C 0 7,
    REG_FIELD 0x9F 0 7,
    REG_FIELD 0x9E 0 7,
    REG_FIELD 0x9D 0 7,
    REG_FIELD 0xA2 0 7,
    REG_FIELD 0xA1 0 7,
    REG_FIELD 0xA0 0 7,
    REG_FIELD 0xA3 0 3,
    REG_FIELD 0xA5 7 7,
    REG_FIELD 0xA6 0 7,
    REG_FIELD 0xA7 0 7,
    REG_FIELD 0xA8 0 7,
    REG_FIELD 0xA9 0 7,
    REG_FIELD 0xAA 0 7,
    REG_FIELD 0xAB 0 7,
    REG_FIELD 0xAC 0 7,
    REG_FIELD 0xAD 0 7,
    REG_FIELD 0xAE 0 7,
    REG_FIELD 0xAF 0 7,
    REG_FIELD 0xB0 0 7,
    REG_FIELD 0xEB 7 7,
    REG_FIELD 0xEB 4 6,
    REG_FIELD 0xEB 3 3,
    REG_FIELD 0xEB 2 2,
    REG_FIELD 0xED 0 7,
    REG_FIELD 0xEE 0 7,
    REG_FIELD 0xF0 6 6]"

text \<open>No two fields of the table share a bit.\<close>

definition overlap :: "reg_field \<Rightarrow> reg_field \<Rightarrow> bool" where
  "overlap a b \<longleftrightarrow> reg a = reg b \<and> lsb a \<le> msb b \<and> lsb b \<le> msb a"

lemma reg_fields_length [simp]: "length rk817_battery_reg_fields = 140"
  by (simp add: rk817_battery_reg_fields_def)

text \<open>In the order of their addresses each field ends before the next one begins.\<close>

definition before :: "reg_field \<Rightarrow> reg_field \<Rightarrow> bool" where
  "before a b \<longleftrightarrow> 8 * reg a + msb a < 8 * reg b + lsb b"

text \<open>The table lists three runs of fields (\<^verbatim>\<open>REMAIN_CAP\<close>, \<^verbatim>\<open>NEW_FCC\<close>, the charge status) downwards.\<close>

definition by_address :: "reg_field list \<Rightarrow> reg_field list" where
  "by_address xs = take 114 xs @ rev (take 3 (drop 114 xs)) @ rev (take 3 (drop 117 xs)) @ take 13 (drop 120 xs)
     @ rev (take 4 (drop 133 xs)) @ drop 137 xs"

lemma reg_fields_wf: "\<forall>a \<in> set rk817_battery_reg_fields. lsb a \<le> msb a \<and> msb a < 8"
  by (simp add: rk817_battery_reg_fields_def)

lemma by_address_successive: "successively before (by_address rk817_battery_reg_fields)"
  by (simp add: rk817_battery_reg_fields_def by_address_def before_def)

lemma mset_by_address: "mset (by_address xs) = mset xs"
proof -
  have drops: "drop m xs = take n (drop m xs) @ drop (n + m) xs" for m n
    using append_take_drop_id [of n "drop m xs"] by simp
  have "xs = take 114 xs @ take 3 (drop 114 xs) @ take 3 (drop 117 xs) @ take 13 (drop 120 xs) @ take 4 (drop 133 xs) @ drop 137 xs"
    using append_take_drop_id [of 114 xs] drops [of 114 3] drops [of 117 3] drops [of 120 13] drops [of 133 4] by simp
  then have "mset xs = mset (take 114 xs @ take 3 (drop 114 xs) @ take 3 (drop 117 xs) @ take 13 (drop 120 xs) @ take 4 (drop 133 xs) @ drop 137 xs)"
    by simp
  then show ?thesis by (simp only: by_address_def mset_append mset_rev)
qed

lemma before_sorted: "sorted_wrt before (by_address rk817_battery_reg_fields)"
proof -
  have "successively before xs \<Longrightarrow> \<forall>a \<in> set xs. lsb a \<le> msb a \<Longrightarrow> sorted_wrt before xs" for xs
  proof (induction xs rule: induct_list012)
    case (3 a b xs)
    then have s: "sorted_wrt before (b # xs)" and ab: "before a b" and b: "lsb b \<le> msb b" by simp_all
    have "before a x" if "before b x" for x using ab b that by (simp add: before_def)
    then show ?case using s ab by simp
  qed simp_all
  then show ?thesis using by_address_successive reg_fields_wf mset_eq_setD [OF mset_by_address] by simp
qed

lemma sorted_wrt_pairs:
  "sorted_wrt before xs \<Longrightarrow> \<forall>a \<in> set xs. lsb a \<le> msb a \<Longrightarrow>
   distinct xs \<and> (\<forall>a \<in> set xs. \<forall>b \<in> set xs. a \<noteq> b \<longrightarrow> before a b \<or> before b a)"
  by (induction xs) (auto simp: before_def dest!: bspec)

lemma reg_fields_pairs:
  "distinct rk817_battery_reg_fields"
  "a \<in> set rk817_battery_reg_fields \<Longrightarrow> b \<in> set rk817_battery_reg_fields \<Longrightarrow> a \<noteq> b \<Longrightarrow> before a b \<or> before b a"
  using sorted_wrt_pairs [OF before_sorted] reg_fields_wf mset_eq_setD [OF mset_by_address] mset_eq_imp_distinct_iff [OF mset_by_address]
  by auto

lemma fields_disjoint:
  assumes "f < 140" "g < 140" "f \<noteq> g"
  shows "\<not> overlap (rk817_battery_reg_fields ! f) (rk817_battery_reg_fields ! g)"
proof -
  let ?a = "rk817_battery_reg_fields ! f" and ?b = "rk817_battery_reg_fields ! g"
  have "?a \<noteq> ?b" using reg_fields_pairs(1) assms by (simp add: nth_eq_iff_index_eq)
  then have "before ?a ?b \<or> before ?b ?a" using reg_fields_pairs(2) assms by simp
  then show ?thesis by (auto simp: before_def overlap_def)
qed

section \<open>Fields as storage\<close>

text \<open>
  The fields the driver uses as memory: what it writes there it expects to read back later. The
  status fields change by themselves and nothing is assumed of them.
\<close>

definition stored_field :: "rk817_battery_fields \<Rightarrow> bool" where
  "stored_field f \<longleftrightarrow> f \<in> {SOC_REG0, SOC_REG1, SOC_REG2, REMAIN_CAP_REG0, REMAIN_CAP_REG1, REMAIN_CAP_REG2,
     NEW_FCC_REG0, NEW_FCC_REG1, NEW_FCC_REG2, CAL_OFFSET_H, CAL_OFFSET_L, HALT_CNT_REG,
     Q_MAX_H3, Q_MAX_H2, Q_MAX_L1, Q_MAX_L0}"

locale register_fields =
  fixes rread :: "'d \<Rightarrow> rk817_battery_fields \<Rightarrow> int \<times> int"
    and rwrite :: "'d \<Rightarrow> rk817_battery_fields \<Rightarrow> int \<Rightarrow> 'd \<times> int"
  assumes read_back: "stored_field f \<Longrightarrow> 0 \<le> v \<Longrightarrow> v < 256 \<Longrightarrow> rread (fst (rwrite d f v)) f = (0, v)"
    and read_other: "stored_field f \<Longrightarrow> g < F_MAX_FIELDS \<Longrightarrow> g \<noteq> f \<Longrightarrow> rread (fst (rwrite d g v)) f = rread d f"

text \<open>
  The gauge measures the current: a write to another field does not change the reading, and the driver
  never writes to the two fields that hold it.
\<close>

locale measured_current =
  fixes rread :: "'d \<Rightarrow> rk817_battery_fields \<Rightarrow> int \<times> int"
    and rwrite :: "'d \<Rightarrow> rk817_battery_fields \<Rightarrow> int \<Rightarrow> 'd \<times> int"
  assumes current_kept: "f \<in> {BAT_CUR_H, BAT_CUR_L} \<Longrightarrow> g < F_MAX_FIELDS \<Longrightarrow> g \<notin> {BAT_CUR_H, BAT_CUR_L} \<Longrightarrow>
    rread (fst (rwrite d g v)) f = rread d f"

section \<open>A register file\<close>

text \<open>
  What \<^verbatim>\<open>regmap_field_read\<close> and \<^verbatim>\<open>regmap_field_write\<close> are documented to do on a device whose
  registers are bytes: a read shifts and masks, a write changes the bits of the field only.
\<close>

type_synonym reg_file = "nat \<Rightarrow> int"

definition field_get :: "reg_file \<Rightarrow> rk817_battery_fields \<Rightarrow> int \<times> int" where
  "field_get d f = (let r = rk817_battery_reg_fields ! f in (0, take_bit (msb r + 1 - lsb r) (drop_bit (lsb r) (d (reg r)))))"

definition field_put :: "reg_file \<Rightarrow> rk817_battery_fields \<Rightarrow> int \<Rightarrow> reg_file \<times> int" where
  "field_put d f v =
     (let r = rk817_battery_reg_fields ! f; m = push_bit (lsb r) (mask (msb r + 1 - lsb r))
      in (d(reg r := (d (reg r) AND NOT m) OR (push_bit (lsb r) v AND m)), 0))"

lemma field_get_put:
  assumes "f < 140" "lsb (rk817_battery_reg_fields ! f) = 0" "msb (rk817_battery_reg_fields ! f) = 7" "0 \<le> v" "v < 256"
  shows "field_get (fst (field_put d f v)) f = (0, v)"
proof -
  have "take_bit 8 ((x AND NOT (mask 8)) OR (v AND mask 8)) = take_bit 8 v" for x :: int
    by (rule bit_eqI) (auto simp: bit_simps)
  moreover have "take_bit 8 v = v" using assms by (simp add: take_bit_int_eq_self)
  ultimately show ?thesis using assms by (simp add: field_get_def field_put_def Let_def numeral_eq_Suc)
qed

lemma field_get_put_other:
  assumes "f < 140" "g < 140" "g \<noteq> f"
  shows "field_get (fst (field_put d g v)) f = field_get d f"
proof -
  let ?a = "rk817_battery_reg_fields ! g" and ?b = "rk817_battery_reg_fields ! f"
  have wf: "lsb ?a \<le> msb ?a" "lsb ?b \<le> msb ?b" using reg_fields_wf assms by auto
  have "\<not> overlap ?a ?b" using fields_disjoint assms by blast
  then consider "reg ?a \<noteq> reg ?b" | "msb ?b < lsb ?a" | "msb ?a < lsb ?b" by (auto simp: overlap_def)
  then show ?thesis
  proof cases
    case 1
    then show ?thesis by (simp add: field_get_def field_put_def Let_def)
  next
    case 2
    then show ?thesis using wf
      by (auto simp: field_get_def field_put_def Let_def bit_simps intro!: bit_eqI)
  next
    case 3
    then show ?thesis using wf
      by (auto simp: field_get_def field_put_def Let_def bit_simps intro!: bit_eqI)
  qed
qed

lemma stored_8_bits:
  assumes "stored_field f"
  shows "f < 140 \<and> lsb (rk817_battery_reg_fields ! f) = 0 \<and> msb (rk817_battery_reg_fields ! f) = 7"
  using assms by (auto simp: stored_field_def rk817_battery_reg_fields_def)

interpretation bytes: register_fields field_get field_put
  by unfold_locales (simp_all add: stored_8_bits field_get_put field_get_put_other)

interpretation byte_current: measured_current field_get field_put
  by unfold_locales (auto simp: field_get_put_other)

end
