(* ===== verification/RK817_State.thy ===== *)
theory RK817_State
  imports RK817_Fields
begin

text \<open>
  The state of the fuel gauge driver (\<^verbatim>\<open>rk817_battery.c\<close>): the platform data, the battery device,
  the enumerations of modes and charge states, and the parts of the kernel the driver calls, which
  are parameters: the register map, the clocks, and the power supplies registered with the class.

  The function-local \<^verbatim>\<open>static\<close> variables of the source are the fields \<open>static_\<dots>\<close> of the device, and
  the calls of \<^verbatim>\<open>power_supply_changed\<close> are counted. Fields of \<^verbatim>\<open>struct rk817_battery_device\<close> that no
  modelled function reads or writes (kernel objects, unused debug values) are left out.
\<close>

section \<open>Constants\<close>

abbreviation (input) "MAX_INTERPOLATE \<equiv> 1000 :: int"
abbreviation (input) "MAX_PERCENTAGE \<equiv> 100 :: int"
abbreviation (input) "MAX_INT \<equiv> 0x7FFF :: int"
abbreviation (input) "MIN_FCC \<equiv> 500 :: int"
abbreviation (input) "CAP_INVALID \<equiv> 0x80 :: int"
abbreviation (input) "RK809_ID \<equiv> 0x8090 :: int"
abbreviation (input) "RK817_ID \<equiv> 0x8170 :: int"

datatype work_mode = MODE_ZERO | MODE_FINISH | MODE_SMOOTH_CHRG | MODE_SMOOTH_DISCHRG | MODE_SMOOTH

text \<open>\<^verbatim>\<open>enum charge_status\<close>; the value comes from a register field and is kept as a number.\<close>

abbreviation (input) "CHRG_OFF \<equiv> 0 :: int"
abbreviation (input) "DEAD_CHRG \<equiv> 1 :: int"
abbreviation (input) "TRICKLE_CHRG \<equiv> 2 :: int"
abbreviation (input) "CC_OR_CV_CHRG \<equiv> 3 :: int"
abbreviation (input) "CHARGE_FINISH \<equiv> 4 :: int"

text \<open>\<^verbatim>\<open>enum bat_mode\<close>; the value may come from the device tree and is kept as a number.\<close>

abbreviation (input) "MODE_BATTARY \<equiv> 0 :: int"
abbreviation (input) "MODE_VIRTUAL \<equiv> 1 :: int"

section \<open>What the driver calls\<close>

datatype power_supply_type = POWER_SUPPLY_TYPE_USB | POWER_SUPPLY_TYPE_MAINS | POWER_SUPPLY_TYPE_OTHER

record 'd kernel =
  regmap_field_read :: "'d \<Rightarrow> rk817_battery_fields \<Rightarrow> int \<times> int"
  regmap_field_write :: "'d \<Rightarrow> rk817_battery_fields \<Rightarrow> int \<Rightarrow> 'd \<times> int"
  boottime :: int
  rtc_read_time :: "int \<times> int"
  rtc_valid_tm :: int
  class_devices :: "(nat \<times> power_supply_type) list"
  psy_online :: "nat \<Rightarrow> int \<times> int"

section \<open>The device\<close>

record battery_platform_data =
  ocv_table :: "int list"
  ocv_size :: int
  pwroff_vol :: int
  monitor_sec :: int
  zero_algorithm_vol :: int
  zero_reserve_dsoc :: int
  pd_bat_res :: int
  design_capacity :: int
  design_qmax :: int
  sleep_enter_current :: int
  sleep_exit_current :: int
  sleep_filter_current :: int
  max_soc_offset :: int
  bat_mode :: int
  fb_temp :: int
  energy_mode :: int
  sample_res :: int
  bat_res_up :: int
  bat_res_down :: int
  design_max_voltage :: int
  low_pwr_sleep :: int

record 'd rk817_battery_device =
  regs :: 'd
  usb_psy :: "nat option"
  ac_psy :: "nat option"
  pdata :: battery_platform_data
  res_div :: int
  bat_res :: int
  is_first_power_on :: bool
  chrg_status :: int
  is_initialized :: bool
  ac_in :: int
  usb_in :: int
  current_avg :: int
  voltage_usb :: int
  voltage_sys :: int
  voltage_avg :: int
  voltage_ocv :: int
  voltage_relax :: int
  voltage_k :: int
  voltage_b :: int
  remain_cap :: int
  design_cap :: int
  nac :: int
  fcc :: int
  qmax :: int
  dsoc :: int
  rsoc :: int
  fake_offline :: int
  age_ocv_soc :: int
  age_allow_update :: bool
  age_level :: int
  age_ocv_cap :: int
  pwron_voltage :: int
  age_voltage :: int
  age_adjust_cap :: int
  age_keep_sec :: int
  zero_timeout_cnt :: int
  zero_remain_cap :: int
  zero_dsoc :: int
  zero_linek :: int
  zero_drop_sec :: int
  shtd_drop_sec :: int
  zero_voltage_avg :: int
  zero_current_avg :: int
  zero_vsys :: int
  zero_dead_voltage :: int
  zero_dead_soc :: int
  zero_dead_cap :: int
  zero_batvol_to_ocv :: int
  zero_batocv_to_soc :: int
  zero_batocv_to_cap :: int
  zero_xsoc :: int
  finish_base :: int
  rtc_base :: int
  sm_remain_cap :: int
  sm_linek :: int
  smooth_soc :: int
  sleep_sum_cap :: int
  sleep_dischrg_sec :: int
  sleep_sum_sec :: int
  sleep_chrg_online :: bool
  sleep_chrg_status :: int
  s2r :: bool
  work_mode :: work_mode
  temperature :: int
  monitor_ms :: int
  pwroff_min :: int
  halt_cnt :: int
  is_halt :: bool
  is_max_soc_offset :: bool
  is_ocv_calib :: bool
  is_force_calib :: bool
  last_dsoc :: int
  ocv_pre_dsoc :: int
  ocv_new_dsoc :: int
  force_pre_dsoc :: int
  force_new_dsoc :: int
  dbg_pwr_dsoc :: int
  dbg_pwr_rsoc :: int
  dbg_pwr_vol :: int
  dbg_meet_soc :: int
  dbg_calc_dsoc :: int
  dbg_calc_rsoc :: int
  is_charging :: int
  charge_count :: int
  plugin_trigger :: int
  plugout_trigger :: int
  chip_id :: int
  is_register_chg_psy :: int
  change :: bool
  static_last_soc :: int
  static_old_cap :: int
  static_old_soc :: int
  static_time :: int
  bat_changed :: nat
  chg_changed :: nat

section \<open>A zeroed device\<close>

text \<open>
  The device as \<^verbatim>\<open>devm_kzalloc\<close> hands it to the probe function, with the initial values of the
  \<^verbatim>\<open>static\<close> variables, and the platform data likewise.
\<close>

definition zeroed_battery :: "'d \<Rightarrow> battery_platform_data \<Rightarrow> 'd rk817_battery_device" where
  "zeroed_battery d p =
    \<lparr>regs = d, usb_psy = None, ac_psy = None, pdata = p, res_div = 0, bat_res = 0,
     is_first_power_on = False, chrg_status = 0, is_initialized = False, ac_in = 0, usb_in = 0,
     current_avg = 0, voltage_usb = 0, voltage_sys = 0, voltage_avg = 0, voltage_ocv = 0,
     voltage_relax = 0, voltage_k = 0, voltage_b = 0, remain_cap = 0, design_cap = 0, nac = 0,
     fcc = 0, qmax = 0, dsoc = 0, rsoc = 0, fake_offline = 0, age_ocv_soc = 0,
     age_allow_update = False, age_level = 0, age_ocv_cap = 0, pwron_voltage = 0,
     age_voltage = 0, age_adjust_cap = 0, age_keep_sec = 0, zero_timeout_cnt = 0,
     zero_remain_cap = 0, zero_dsoc = 0, zero_linek = 0, zero_drop_sec = 0, shtd_drop_sec = 0,
     zero_voltage_avg = 0, zero_current_avg = 0, zero_vsys = 0, zero_dead_voltage = 0,
     zero_dead_soc = 0, zero_dead_cap = 0, zero_batvol_to_ocv = 0, zero_batocv_to_soc = 0,
     zero_batocv_to_cap = 0, zero_xsoc = 0, finish_base = 0, rtc_base = 0, sm_remain_cap = 0,
     sm_linek = 0, smooth_soc = 0, sleep_sum_cap = 0, sleep_dischrg_sec = 0, sleep_sum_sec = 0,
     sleep_chrg_online = False, sleep_chrg_status = 0, s2r = False, work_mode = MODE_ZERO,
     temperature = 0, monitor_ms = 0, pwroff_min = 0, halt_cnt = 0, is_halt = False,
     is_max_soc_offset = False, is_ocv_calib = False, is_force_calib = False, last_dsoc = 0,
     ocv_pre_dsoc = 0, ocv_new_dsoc = 0, force_pre_dsoc = 0, force_new_dsoc = 0,
     dbg_pwr_dsoc = 0, dbg_pwr_rsoc = 0, dbg_pwr_vol = 0, dbg_meet_soc = 0, dbg_calc_dsoc = 0,
     dbg_calc_rsoc = 0, is_charging = 0, charge_count = 0, plugin_trigger = 0,
     plugout_trigger = 0, chip_id = 0, is_register_chg_psy = 0, change = False,
     static_last_soc = - 1, static_old_cap = 0, static_old_soc = - 1, static_time = 0,
     bat_changed = 0, chg_changed = 0\<rparr>"

definition zeroed_pdata :: battery_platform_data where
  "zeroed_pdata =
    \<lparr>ocv_table = [], ocv_size = 0, pwroff_vol = 0, monitor_sec = 0, zero_algorithm_vol = 0,
     zero_reserve_dsoc = 0, pd_bat_res = 0, design_capacity = 0, design_qmax = 0,
     sleep_enter_current = 0, sleep_exit_current = 0, sleep_filter_current = 0,
     max_soc_offset = 0, bat_mode = 0, fb_temp = 0, energy_mode = 0, sample_res = 0,
     bat_res_up = 0, bat_res_down = 0, design_max_voltage = 0, low_pwr_sleep = 0\<rparr>"

text \<open>A kernel over the register file of the field table, with nothing else attached.\<close>

definition byte_kernel :: "int \<Rightarrow> reg_file kernel" where
  "byte_kernel t = \<lparr>regmap_field_read = field_get, regmap_field_write = field_put, boottime = t, rtc_read_time = (0, t),
     rtc_valid_tm = 0, class_devices = [], psy_online = (\<lambda>_. (0, 0))\<rparr>"

lemma byte_kernel_ok: "register_fields (regmap_field_read (byte_kernel t)) (regmap_field_write (byte_kernel t))"
  using bytes.register_fields_axioms by (simp add: byte_kernel_def)

end
