(* ===== verification/RK817_Gauge.thy ===== *)
theory RK817_Gauge
  imports RK817_State
begin

text \<open>
  The measuring half of the fuel gauge driver: register access, voltages and currents, the coulomb
  counter, the table that turns an open-circuit voltage into a state of charge, and the values the
  driver keeps in registers across a reboot. A division whose divisor can be zero in the source is
  \<open>None\<close> there; everything else is truncated to the type the source stores it in.
\<close>

section \<open>Time, interpolation and scaling\<close>

definition get_boot_sec :: "'d kernel \<Rightarrow> int" where
  "get_boot_sec E = boottime E"

definition base2sec :: "'d kernel \<Rightarrow> int \<Rightarrow> int" where
  "base2sec E x = (if x \<noteq> 0 then if get_boot_sec E > x then get_boot_sec E - x else 0 else 0)"

text \<open>The loop index of \<^verbatim>\<open>interpolate\<close> is a \<^verbatim>\<open>u8\<close>: a table of more than 255 entries may loop forever.\<close>

partial_function (option) interpolate_scan :: "int \<Rightarrow> int list \<Rightarrow> int \<Rightarrow> int \<Rightarrow> int option" where
  "interpolate_scan v table n i =
     (if i < n
      then do { t \<leftarrow> rd table i; if u32 v < t then Some i else interpolate_scan v table n (u8 (i + 1)) }
      else Some i)"

definition interpolate :: "int \<Rightarrow> int list \<Rightarrow> int \<Rightarrow> int option" where
  "interpolate v table n =
     do { i \<leftarrow> interpolate_scan v table n 0;
          d \<leftarrow> (if 0 < i \<and> i < n
               then do { lo \<leftarrow> rd table (i - 1);
                         hi \<leftarrow> rd table i;
                         k \<leftarrow> divz MAX_INTERPOLATE (n - 1);
                         let d = u16 (u32 (u32 (v - lo) * k));
                         if u32 (hi - lo) = 0 then None
                         else Some (u16 (u16 (d div u32 (hi - lo)) + (i - 1) * k)) }
               else do { k \<leftarrow> divz (MAX_INTERPOLATE + cdiv n 2) n; Some (u16 (i * k)) });
          Some (if d > 1000 then 1000 else d) }"

definition ab_div_c :: "int \<Rightarrow> int \<Rightarrow> int \<Rightarrow> int" where
  "ab_div_c a b c =
     (let sign = bit (a XOR b XOR c) 31;
          ans = (if c \<noteq> 0
                 then let c' = (if sign then u32 (- c) else c);
                          tmp = s32 (u32 (u32 (a * b) + drop_bit 1 c') div c')
                      in if tmp < MAX_INT then u32 tmp else MAX_INT
                 else MAX_INT)
      in s32 (if sign then u32 (- ans) else ans))"

section \<open>Register access\<close>

definition rk817_bat_field_read :: "'d kernel \<Rightarrow> 'd rk817_battery_device \<Rightarrow> rk817_battery_fields \<Rightarrow> int" where
  "rk817_bat_field_read E b f = (let (ret, val) = regmap_field_read E (regs b) f in if ret < 0 then ret else val)"

definition rk817_bat_field_write ::
    "'d kernel \<Rightarrow> rk817_battery_fields \<Rightarrow> int \<Rightarrow> 'd rk817_battery_device \<Rightarrow> 'd rk817_battery_device" where
  "rk817_bat_field_write E f v b = b\<lparr>regs := fst (regmap_field_write E (regs b) f v)\<rparr>"

definition rk817_is_bat_exist :: "'d kernel \<Rightarrow> 'd rk817_battery_device \<Rightarrow> bool" where
  "rk817_is_bat_exist E b = (if chip_id b = RK817_ID then rk817_bat_field_read E b BAT_EXS \<noteq> 0 else True)"

text \<open>\<^verbatim>\<open>val = read(H) << 8; val |= read(L)\<close>, the pattern of every 16-bit quantity.\<close>

definition read_pair :: "'d kernel \<Rightarrow> 'd rk817_battery_device \<Rightarrow> rk817_battery_fields \<Rightarrow> rk817_battery_fields \<Rightarrow> int" where
  "read_pair E b h l = s32 (push_bit 8 (rk817_bat_field_read E b h)) OR rk817_bat_field_read E b l"

definition rk817_bat_get_coffset :: "'d kernel \<Rightarrow> 'd rk817_battery_device \<Rightarrow> int" where
  "rk817_bat_get_coffset E b = read_pair E b CAL_OFFSET_H CAL_OFFSET_L"

definition rk817_bat_set_coffset :: "'d kernel \<Rightarrow> int \<Rightarrow> 'd rk817_battery_device \<Rightarrow> 'd rk817_battery_device" where
  "rk817_bat_set_coffset E v b =
     rk817_bat_field_write E CAL_OFFSET_L (v AND 255) (rk817_bat_field_write E CAL_OFFSET_H (drop_bit 8 v AND 255) b)"

definition rk817_bat_get_ioffset :: "'d kernel \<Rightarrow> 'd rk817_battery_device \<Rightarrow> int" where
  "rk817_bat_get_ioffset E b = read_pair E b IOFFSET_H IOFFSET_L"

definition rk817_bat_current_calibration :: "'d kernel \<Rightarrow> 'd rk817_battery_device \<Rightarrow> 'd rk817_battery_device" where
  "rk817_bat_current_calibration E b = rk817_bat_set_coffset E (rk817_bat_get_ioffset E b) b"

definition rk817_bat_get_vaclib0 :: "'d kernel \<Rightarrow> 'd rk817_battery_device \<Rightarrow> int" where
  "rk817_bat_get_vaclib0 E b = read_pair E b VCALIB0_H VCALIB0_L"

definition rk817_bat_get_vaclib1 :: "'d kernel \<Rightarrow> 'd rk817_battery_device \<Rightarrow> int" where
  "rk817_bat_get_vaclib1 E b = read_pair E b VCALIB1_H VCALIB1_L"

definition rk817_bat_init_voltage_kb :: "'d kernel \<Rightarrow> 'd rk817_battery_device \<Rightarrow> 'd rk817_battery_device" where
  "rk817_bat_init_voltage_kb E b =
     (let vcalib0 = rk817_bat_get_vaclib0 E b; vcalib1 = rk817_bat_get_vaclib1 E b;
          (top_mv, low_mv) = (if chip_id b = RK809_ID then (1050, 600) else (4025, 2300));
          k = cdiv ((top_mv - low_mv) * 1000) (DIV (s32 (vcalib1 - vcalib0)))
      in b\<lparr>voltage_k := k, voltage_b := s32 (top_mv - cdiv (s32 (k * vcalib1)) 1000)\<rparr>)"

section \<open>Voltages\<close>

definition rk817_bat_restart_relax :: "'d kernel \<Rightarrow> 'd rk817_battery_device \<Rightarrow> 'd rk817_battery_device" where
  "rk817_bat_restart_relax E b =
     rk817_bat_field_write E RELAX_VOL2_UPD 0 (rk817_bat_field_write E RELAX_VOL1_UPD 0 b)"

definition is_rk817_bat_relax_mode :: "'d kernel \<Rightarrow> 'd rk817_battery_device \<Rightarrow> bool" where
  "is_rk817_bat_relax_mode E b \<longleftrightarrow>
     u8 (rk817_bat_field_read E b RELAX_STS) \<noteq> 0 \<and> u8 (rk817_bat_field_read E b RELAX_VOL1_UPD) \<noteq> 0 \<and>
     u8 (rk817_bat_field_read E b RELAX_VOL2_UPD) \<noteq> 0"

definition scaled :: "'d rk817_battery_device \<Rightarrow> int \<Rightarrow> int" where
  "scaled b v = s32 (cdiv (s32 (voltage_k b * v)) 1000 + voltage_b b)"

definition rk817_bat_get_relax_vol1 :: "'d kernel \<Rightarrow> 'd rk817_battery_device \<Rightarrow> int" where
  "rk817_bat_get_relax_vol1 E b = u16 (scaled b (u16 (read_pair E b RELAX_VOL1_H RELAX_VOL1_L)))"

definition rk817_bat_get_relax_vol2 :: "'d kernel \<Rightarrow> 'd rk817_battery_device \<Rightarrow> int" where
  "rk817_bat_get_relax_vol2 E b = u16 (scaled b (u16 (read_pair E b RELAX_VOL2_H RELAX_VOL2_L)))"

definition rk817_bat_get_relax_voltage :: "'d kernel \<Rightarrow> 'd rk817_battery_device \<Rightarrow> int" where
  "rk817_bat_get_relax_voltage E b =
     (if \<not> is_rk817_bat_relax_mode E b then 0
      else if rk817_bat_get_relax_vol1 E b > rk817_bat_get_relax_vol2 E b then rk817_bat_get_relax_vol1 E b
      else rk817_bat_get_relax_vol2 E b)"

text \<open>\<^verbatim>\<open>CURRENT_TO_ADC(current, samp_res)\<close> on a \<^verbatim>\<open>u32\<close> current; the result is stored in an \<^verbatim>\<open>int\<close>.\<close>

definition CURRENT_TO_ADC :: "int \<Rightarrow> int \<Rightarrow> int" where
  "CURRENT_TO_ADC cur res = s32 (u32 (u32 (cur * 1000) * res) div 172)"

definition rk817_bat_set_relax_sample :: "'d kernel \<Rightarrow> 'd rk817_battery_device \<Rightarrow> 'd rk817_battery_device" where
  "rk817_bat_set_relax_sample E b =
     (let enter_thres = CURRENT_TO_ADC (sleep_enter_current (pdata b)) (res_div b);
          filter_thres = CURRENT_TO_ADC (sleep_filter_current (pdata b)) (res_div b);
          b1 = rk817_bat_field_write E RELAX_THRE_H (drop_bit 8 enter_thres AND 255) b;
          b2 = rk817_bat_field_write E RELAX_THRE_L (enter_thres AND 255) b1;
          b3 = rk817_bat_field_write E SLEEP_CON_SAMP_CUR_H (drop_bit 8 filter_thres AND 255) b2;
          b4 = rk817_bat_field_write E SLEEP_CON_SAMP_CUR_L (filter_thres AND 255) b3
      in rk817_bat_restart_relax E b4)"

definition rk817_bat_ocv_thre :: "'d kernel \<Rightarrow> int \<Rightarrow> 'd rk817_battery_device \<Rightarrow> 'd rk817_battery_device" where
  "rk817_bat_ocv_thre E v b = rk817_bat_field_write E OCV_THRE_VOL v b"

text \<open>The resistor divider of the RK809 board; \<^verbatim>\<open>bat_res_down\<close> is zero when the device tree lacks it.\<close>

definition rk809_divider :: "'d rk817_battery_device \<Rightarrow> int \<Rightarrow> int option" where
  "rk809_divider b vol =
     (if chip_id b = RK809_ID
      then do { q \<leftarrow> divz (u32 (u32 vol * bat_res_up (pdata b))) (bat_res_down (pdata b)); Some (s32 (q + u32 vol)) }
      else Some vol)"

definition rk817_bat_get_ocv_voltage :: "'d kernel \<Rightarrow> 'd rk817_battery_device \<Rightarrow> int option" where
  "rk817_bat_get_ocv_voltage E b = rk809_divider b (scaled b (read_pair E b OCV_VOL_H OCV_VOL_L))"

definition rk817_bat_get_ocv0_voltage0 :: "'d kernel \<Rightarrow> 'd rk817_battery_device \<Rightarrow> int option" where
  "rk817_bat_get_ocv0_voltage0 E b = rk809_divider b (scaled b (read_pair E b OCV_VOL0_H OCV_VOL0_L))"

definition rk817_bat_get_pwron_voltage :: "'d kernel \<Rightarrow> 'd rk817_battery_device \<Rightarrow> int option" where
  "rk817_bat_get_pwron_voltage E b = rk809_divider b (scaled b (read_pair E b PWRON_VOL_H PWRON_VOL_L))"

definition rk817_bat_get_battery_voltage :: "'d kernel \<Rightarrow> 'd rk817_battery_device \<Rightarrow> int option" where
  "rk817_bat_get_battery_voltage E b = rk809_divider b (scaled b (read_pair E b BAT_VOL_H BAT_VOL_L))"

definition rk817_bat_get_USB_voltage ::
    "'d kernel \<Rightarrow> 'd rk817_battery_device \<Rightarrow> (int \<times> 'd rk817_battery_device) option" where
  "rk817_bat_get_USB_voltage E b =
     (let b' = rk817_bat_field_write E USB_VOL_ADC_EN 1 b
      in do { vol \<leftarrow> rk809_divider b' (cdiv (s32 (scaled b' (read_pair E b' USB_VOL_H USB_VOL_L) * 60)) 46);
              Some (vol, b') })"

definition rk817_bat_get_sys_voltage :: "'d kernel \<Rightarrow> 'd rk817_battery_device \<Rightarrow> int option" where
  "rk817_bat_get_sys_voltage E b =
     rk809_divider b (cdiv (s32 (scaled b (read_pair E b SYS_VOL_H SYS_VOL_L) * 60)) 46)"

section \<open>Currents\<close>

text \<open>\<^verbatim>\<open>ADC_TO_CURRENT\<close> after the sign correction \<^verbatim>\<open>if (val & 0x8000) val -= 0x10000\<close>.\<close>

definition ADC_TO_CURRENT :: "int \<Rightarrow> int \<Rightarrow> int option" where
  "ADC_TO_CURRENT adc res = divz (cdiv (s32 (adc * 172)) 1000) res"

definition adc_current :: "'d rk817_battery_device \<Rightarrow> int \<Rightarrow> int option" where
  "adc_current b val =
     ADC_TO_CURRENT (if val AND 0x8000 \<noteq> 0 then s32 (val - 0x10000) else val) (res_div b)"

definition rk817_bat_get_avg_current :: "'d kernel \<Rightarrow> 'd rk817_battery_device \<Rightarrow> int option" where
  "rk817_bat_get_avg_current E b = adc_current b (read_pair E b BAT_CUR_H BAT_CUR_L)"

definition rk817_bat_get_relax_cur1 :: "'d kernel \<Rightarrow> 'd rk817_battery_device \<Rightarrow> int option" where
  "rk817_bat_get_relax_cur1 E b = adc_current b (read_pair E b RELAX_CUR1_H RELAX_CUR1_L)"

text \<open>The second assignment of the source is \<^verbatim>\<open>=\<close> and not \<^verbatim>\<open>|=\<close>: the high byte is dropped.\<close>

definition rk817_bat_get_relax_cur2 :: "'d kernel \<Rightarrow> 'd rk817_battery_device \<Rightarrow> int option" where
  "rk817_bat_get_relax_cur2 E b = adc_current b (rk817_bat_field_read E b RELAX_CUR2_L)"

definition rk817_bat_get_relax_current :: "'d kernel \<Rightarrow> 'd rk817_battery_device \<Rightarrow> int option" where
  "rk817_bat_get_relax_current E b =
     (if \<not> is_rk817_bat_relax_mode E b then Some 0
      else do { c1 \<leftarrow> rk817_bat_get_relax_cur1 E b; c2 \<leftarrow> rk817_bat_get_relax_cur2 E b;
                Some (if c1 < c2 then c1 else c2) })"

definition rk817_bat_get_ocv_current :: "'d kernel \<Rightarrow> 'd rk817_battery_device \<Rightarrow> int option" where
  "rk817_bat_get_ocv_current E b = adc_current b (read_pair E b OCV_CUR_H OCV_CUR_L)"

definition rk817_bat_get_ocv_current0 :: "'d kernel \<Rightarrow> 'd rk817_battery_device \<Rightarrow> int option" where
  "rk817_bat_get_ocv_current0 E b = adc_current b (read_pair E b OCV_CUR0_H OCV_CUR0_L)"

definition rk817_bat_get_pwron_current :: "'d kernel \<Rightarrow> 'd rk817_battery_device \<Rightarrow> int option" where
  "rk817_bat_get_pwron_current E b = adc_current b (read_pair E b PWRON_CUR_H PWRON_CUR_L)"

section \<open>The coulomb counter\<close>

definition rk817_bat_remain_cap_is_valid :: "'d kernel \<Rightarrow> 'd rk817_battery_device \<Rightarrow> bool" where
  "rk817_bat_remain_cap_is_valid E b \<longleftrightarrow> rk817_bat_field_read E b Q_PRESS_H3 AND CAP_INVALID = 0"

definition read_quad ::
    "'d kernel \<Rightarrow> 'd rk817_battery_device \<Rightarrow> rk817_battery_fields \<Rightarrow> rk817_battery_fields \<Rightarrow> rk817_battery_fields \<Rightarrow> rk817_battery_fields \<Rightarrow> int" where
  "read_quad E b h3 h2 l1 l0 =
     u32 (push_bit 24 (rk817_bat_field_read E b h3)) OR u32 (push_bit 16 (rk817_bat_field_read E b h2)) OR
     u32 (push_bit 8 (rk817_bat_field_read E b l1)) OR u32 (rk817_bat_field_read E b l0)"

definition write_quad ::
    "'d kernel \<Rightarrow> rk817_battery_fields \<Rightarrow> rk817_battery_fields \<Rightarrow> rk817_battery_fields \<Rightarrow> rk817_battery_fields \<Rightarrow> int \<Rightarrow> 'd rk817_battery_device \<Rightarrow> 'd rk817_battery_device" where
  "write_quad E h3 h2 l1 l0 v b =
     rk817_bat_field_write E l0 (v AND 255) (rk817_bat_field_write E l1 (drop_bit 8 v AND 255)
       (rk817_bat_field_write E h2 (drop_bit 16 v AND 255) (rk817_bat_field_write E h3 (drop_bit 24 v AND 255) b)))"

definition rk817_bat_get_capacity_uah :: "'d kernel \<Rightarrow> 'd rk817_battery_device \<Rightarrow> int option" where
  "rk817_bat_get_capacity_uah E b =
     (if rk817_bat_remain_cap_is_valid E b
      then divz (u32 (read_quad E b Q_PRESS_H3 Q_PRESS_H2 Q_PRESS_L1 Q_PRESS_L0 div 3600 * 172)) (u32 (res_div b))
      else Some 0)"

definition rk817_bat_get_capacity_mah :: "'d kernel \<Rightarrow> 'd rk817_battery_device \<Rightarrow> int option" where
  "rk817_bat_get_capacity_mah E b =
     (if rk817_bat_remain_cap_is_valid E b
      then divz (u32 (read_quad E b Q_PRESS_H3 Q_PRESS_H2 Q_PRESS_L1 Q_PRESS_L0 div 1000 * 172) div 3600) (u32 (res_div b))
      else Some 0)"

definition CAPACITY_TO_ADC :: "int \<Rightarrow> int \<Rightarrow> int" where
  "CAPACITY_TO_ADC capacity res = u32 (u32 (u32 (capacity * res) * 3600) div 172 * 1000)"

definition rk817_bat_init_coulomb_cap ::
    "'d kernel \<Rightarrow> int \<Rightarrow> 'd rk817_battery_device \<Rightarrow> 'd rk817_battery_device option" where
  "rk817_bat_init_coulomb_cap E capacity b =
     (let cap = CAPACITY_TO_ADC (u32 capacity) (res_div b);
          b1 = write_quad E Q_INIT_H3 Q_INIT_H2 Q_INIT_L1 Q_INIT_L0 cap b
      in do { r \<leftarrow> divz (u32 (u32 capacity * 1000 * 100)) (u32 (fcc b1));
              Some (b1\<lparr>rsoc := s32 r, remain_cap := u32 (u32 capacity * 1000)\<rparr>) })"

definition write_triple ::
    "'d kernel \<Rightarrow> rk817_battery_fields \<Rightarrow> rk817_battery_fields \<Rightarrow> rk817_battery_fields \<Rightarrow> int \<Rightarrow> 'd rk817_battery_device \<Rightarrow> 'd rk817_battery_device" where
  "write_triple E r2 r1 r0 v b =
     rk817_bat_field_write E r0 (v AND 255) (rk817_bat_field_write E r1 (drop_bit 8 v AND 255)
       (rk817_bat_field_write E r2 (drop_bit 16 v AND 255) b))"

definition rk817_bat_save_cap :: "'d kernel \<Rightarrow> int \<Rightarrow> 'd rk817_battery_device \<Rightarrow> 'd rk817_battery_device" where
  "rk817_bat_save_cap E capacity b =
     (let capacity = (if capacity \<ge> qmax b then qmax b else capacity);
          capacity = (if capacity \<le> 0 then 0 else capacity)
      in if static_old_cap b = u32 capacity then b
         else write_triple E REMAIN_CAP_REG2 REMAIN_CAP_REG1 REMAIN_CAP_REG0 capacity (b\<lparr>static_old_cap := u32 capacity\<rparr>))"

definition rk817_bat_update_qmax :: "'d kernel \<Rightarrow> int \<Rightarrow> 'd rk817_battery_device \<Rightarrow> 'd rk817_battery_device" where
  "rk817_bat_update_qmax E capacity b =
     (write_quad E Q_MAX_H3 Q_MAX_H2 Q_MAX_L1 Q_MAX_L0 (CAPACITY_TO_ADC (u32 capacity) (res_div b)) b)\<lparr>qmax := s32 (u32 capacity)\<rparr>"

text \<open>Here the four bytes are put together in an \<^verbatim>\<open>int\<close> and divided as one.\<close>

definition rk817_bat_get_qmax :: "'d kernel \<Rightarrow> 'd rk817_battery_device \<Rightarrow> (int \<times> 'd rk817_battery_device) option" where
  "rk817_bat_get_qmax E b =
     (let val = s32 (read_quad E b Q_MAX_H3 Q_MAX_H2 Q_MAX_L1 Q_MAX_L0)
      in do { c \<leftarrow> divz (cdiv (s32 (cdiv val 1000 * 172)) 3600) (res_div b);
              Some (s32 (u32 c), b\<lparr>qmax := s32 (u32 c)\<rparr>) })"

definition rk817_bat_save_fcc :: "'d kernel \<Rightarrow> int \<Rightarrow> 'd rk817_battery_device \<Rightarrow> 'd rk817_battery_device" where
  "rk817_bat_save_fcc E c b = write_triple E NEW_FCC_REG2 NEW_FCC_REG1 NEW_FCC_REG0 c b"

definition rk817_bat_get_fcc :: "'d kernel \<Rightarrow> 'd rk817_battery_device \<Rightarrow> int \<times> 'd rk817_battery_device" where
  "rk817_bat_get_fcc E b =
     (let c = u32 (push_bit 16 (rk817_bat_field_read E b NEW_FCC_REG2)) OR
              u32 (push_bit 8 (rk817_bat_field_read E b NEW_FCC_REG1)) OR u32 (rk817_bat_field_read E b NEW_FCC_REG0)
      in if c < MIN_FCC
         then (s32 (design_capacity (pdata b)), rk817_bat_save_fcc E (s32 (design_capacity (pdata b))) b)
         else if c > design_qmax (pdata b)
         then (s32 (design_qmax (pdata b)), rk817_bat_save_fcc E (s32 (design_qmax (pdata b))) b)
         else (s32 c, b))"

definition rk817_bat_get_rsoc :: "'d kernel \<Rightarrow> 'd rk817_battery_device \<Rightarrow> int option" where
  "rk817_bat_get_rsoc E b =
     do { c \<leftarrow> rk817_bat_get_capacity_uah E b; Some (cdiv (s32 (s32 c * 100)) (DIV (fcc b))) }"

definition rk817_bat_get_off_count :: "'d kernel \<Rightarrow> 'd rk817_battery_device \<Rightarrow> int" where
  "rk817_bat_get_off_count E b = rk817_bat_field_read E b OFF_CNT"

definition rk817_bat_get_ocv_count :: "'d kernel \<Rightarrow> 'd rk817_battery_device \<Rightarrow> int" where
  "rk817_bat_get_ocv_count E b = rk817_bat_field_read E b OCV_CNT"

section \<open>Open-circuit voltage\<close>

definition rk817_bat_vol_to_soc :: "'d rk817_battery_device \<Rightarrow> int \<Rightarrow> int option" where
  "rk817_bat_vol_to_soc b voltage =
     do { t \<leftarrow> interpolate voltage (ocv_table (pdata b)) (ocv_size (pdata b));
          Some (ab_div_c t MAX_PERCENTAGE MAX_INTERPOLATE) }"

definition rk817_bat_vol_to_cap :: "'d rk817_battery_device \<Rightarrow> int \<Rightarrow> int option" where
  "rk817_bat_vol_to_cap b voltage =
     do { t \<leftarrow> interpolate voltage (ocv_table (pdata b)) (ocv_size (pdata b));
          Some (ab_div_c t (u32 (fcc b)) MAX_INTERPOLATE) }"

section \<open>Values kept across a reboot\<close>

definition rk817_bat_save_dsoc :: "'d kernel \<Rightarrow> int \<Rightarrow> 'd rk817_battery_device \<Rightarrow> 'd rk817_battery_device" where
  "rk817_bat_save_dsoc E save_soc b =
     (if static_last_soc b \<noteq> save_soc
      then (rk817_bat_field_write E SOC_REG2 (drop_bit 16 save_soc AND 255)
             (rk817_bat_field_write E SOC_REG1 (drop_bit 8 save_soc AND 255)
               (rk817_bat_field_write E SOC_REG0 (save_soc AND 255) b)))\<lparr>static_last_soc := save_soc\<rparr>
      else b)"

definition rk817_bat_get_prev_dsoc :: "'d kernel \<Rightarrow> 'd rk817_battery_device \<Rightarrow> int" where
  "rk817_bat_get_prev_dsoc E b =
     rk817_bat_field_read E b SOC_REG0 OR s32 (push_bit 8 (rk817_bat_field_read E b SOC_REG1)) OR
     s32 (push_bit 16 (rk817_bat_field_read E b SOC_REG2))"

definition is_rk817_bat_first_pwron :: "'d kernel \<Rightarrow> 'd rk817_battery_device \<Rightarrow> bool \<times> 'd rk817_battery_device" where
  "is_rk817_bat_first_pwron E b =
     (if rk817_bat_field_read E b BAT_CON \<noteq> 0 then (True, rk817_bat_field_write E BAT_CON 0 b) else (False, b))"

section \<open>Charge state\<close>

definition rk817_bat_get_charge_status :: "'d kernel \<Rightarrow> 'd rk817_battery_device \<Rightarrow> int" where
  "rk817_bat_get_charge_status E b =
     (if chip_id b = RK809_ID
      then if u32 (voltage_avg b) > design_max_voltage (pdata b) \<and> current_avg b > 0 \<and>
              (current_avg b < 500 \<or> cdiv (rsoc b) 1000 = 100)
           then CHARGE_FINISH
           else if plugin_trigger b \<noteq> 0 then CC_OR_CV_CHRG else CHRG_OFF
      else let status = rk817_bat_field_read E b CHG_STS
           in if status = CC_OR_CV_CHRG \<and> rsoc b = 100 * 1000 then CHARGE_FINISH else status)"

definition rk817_bat_fake_finish_mode :: "'d kernel \<Rightarrow> 'd rk817_battery_device \<Rightarrow> bool" where
  "rk817_bat_fake_finish_mode E b \<longleftrightarrow>
     rsoc b = 100 \<and> rk817_bat_get_charge_status E b = CC_OR_CV_CHRG \<and> \<bar>current_avg b\<bar> \<le> 100"

definition get_charge_status :: "'d kernel \<Rightarrow> 'd rk817_battery_device \<Rightarrow> int" where
  "get_charge_status E b = rk817_bat_get_charge_status E b"

definition is_rk817_bat_ocv_valid :: "'d rk817_battery_device \<Rightarrow> bool" where
  "is_rk817_bat_ocv_valid b \<longleftrightarrow> \<not> is_initialized b \<and> pwroff_min b \<ge> 30"

end
