(* ===== verification/RK817_Init.thy ===== *)
theory RK817_Init
  imports RK817_Gauge
begin

text \<open>
  Start-up of the fuel gauge driver: the device tree, the set-up of the gauge, the choice of the
  first display charge, and the initialisation of the display algorithm.
\<close>

section \<open>Device tree\<close>

text \<open>The kernel's device-tree accessors: \<open>Inl\<close> is a negative return value.\<close>

record device_tree =
  of_find_property :: "string \<Rightarrow> int option"
  of_property_read_u32 :: "string \<Rightarrow> int + int"
  of_property_read_u32_array :: "string \<Rightarrow> int \<Rightarrow> int + int list"

abbreviation (input) "ENOMEM \<equiv> 12 :: int"
abbreviation (input) "EINVAL \<equiv> 22 :: int"

text \<open>An optional property: the old value stays when it is missing.\<close>

definition of_u32 :: "device_tree \<Rightarrow> string \<Rightarrow> int \<Rightarrow> int" where
  "of_u32 T name old = (case of_property_read_u32 T name of Inl _ \<Rightarrow> old | Inr v \<Rightarrow> v)"

definition default_pdata :: battery_platform_data where
  "default_pdata = zeroed_pdata
     \<lparr>pd_bat_res := 135, monitor_sec := 5, pwroff_vol := 3400, sleep_exit_current := 300, sleep_enter_current := 300,
      sleep_filter_current := 100, bat_mode := MODE_BATTARY, max_soc_offset := 60, fb_temp := 12, energy_mode := 0,
      zero_reserve_dsoc := 10 * 1000, sample_res := 20\<rparr>"

definition parse_optional :: "device_tree \<Rightarrow> battery_platform_data \<Rightarrow> battery_platform_data" where
  "parse_optional T p = p
     \<lparr>sample_res := of_u32 T ''sample_res'' (sample_res p), fb_temp := of_u32 T ''fb_temperature'' (fb_temp p),
      energy_mode := of_u32 T ''energy_mode'' (energy_mode p), max_soc_offset := of_u32 T ''max_soc_offset'' (max_soc_offset p),
      monitor_sec := of_u32 T ''monitor_sec'' (monitor_sec p),
      zero_algorithm_vol := of_u32 T ''zero_algorithm_vol'' (zero_algorithm_vol p),
      zero_reserve_dsoc := u32 (of_u32 T ''zero_reserve_dsoc'' (zero_reserve_dsoc p) * 1000),
      bat_mode := of_u32 T ''virtual_power'' (bat_mode p)\<rparr>"

definition parse_thresholds :: "device_tree \<Rightarrow> battery_platform_data \<Rightarrow> battery_platform_data" where
  "parse_thresholds T p = p
     \<lparr>pd_bat_res := of_u32 T ''bat_res'' (pd_bat_res p),
      sleep_enter_current := of_u32 T ''sleep_enter_current'' (sleep_enter_current p),
      sleep_exit_current := of_u32 T ''sleep_exit_current'' (sleep_exit_current p),
      sleep_filter_current := of_u32 T ''sleep_filter_current'' (sleep_filter_current p),
      pwroff_vol := of_u32 T ''power_off_thresd'' (pwroff_vol p), low_pwr_sleep := of_u32 T ''low_power_sleep'' (low_pwr_sleep p)\<rparr>"

definition parse_rk809 :: "device_tree \<Rightarrow> 'd rk817_battery_device \<Rightarrow> 'd rk817_battery_device" where
  "parse_rk809 T b =
     (if chip_id b = RK809_ID
      then b\<lparr>pdata := (pdata b)\<lparr>bat_res_up := of_u32 T ''bat_res_up'' (bat_res_up (pdata b)),
               bat_res_down := of_u32 T ''bat_res_down'' (bat_res_down (pdata b)),
               design_max_voltage := of_u32 T ''design_max_voltage'' (design_max_voltage (pdata b))\<rparr>,
             is_register_chg_psy := s32 (of_u32 T ''register_chg_psy'' (is_register_chg_psy b))\<rparr>
      else b)"

text \<open>\<open>mem1\<close> and \<open>mem2\<close> tell whether the two allocations succeed; on an error the device keeps what was set so far.\<close>

definition rk817_bat_parse_dt ::
    "'d kernel \<Rightarrow> device_tree \<Rightarrow> bool \<Rightarrow> bool \<Rightarrow> 'd rk817_battery_device \<Rightarrow> int \<times> 'd rk817_battery_device" where
  "rk817_bat_parse_dt E T mem1 mem2 b =
     (if \<not> mem1 then (- ENOMEM, b)
      else let b = b\<lparr>pdata := default_pdata\<rparr> in
      case of_find_property T ''ocv_table'' of None \<Rightarrow> (- EINVAL, b) | Some len \<Rightarrow>
      let n = len div 4; b = b\<lparr>pdata := (pdata b)\<lparr>ocv_size := n\<rparr>\<rparr> in
      if n \<le> 0 then (- EINVAL, b)
      else if \<not> mem2 then (- ENOMEM, b)
      else case of_property_read_u32_array T ''ocv_table'' n of Inl ret \<Rightarrow> (ret, b) | Inr table \<Rightarrow>
      let b = b\<lparr>pdata := (pdata b)\<lparr>ocv_table := table\<rparr>\<rparr> in
      case of_property_read_u32 T ''design_capacity'' of Inl ret \<Rightarrow> (ret, b) | Inr c \<Rightarrow>
      let b = b\<lparr>pdata := (pdata b)\<lparr>design_capacity := c\<rparr>\<rparr> in
      case of_property_read_u32 T ''design_qmax'' of Inl ret \<Rightarrow> (ret, b) | Inr q \<Rightarrow>
      let b = b\<lparr>pdata := parse_optional T ((pdata b)\<lparr>design_qmax := q\<rparr>)\<rparr>;
          b = (if \<not> rk817_is_bat_exist E b then b\<lparr>pdata := (pdata b)\<lparr>bat_mode := MODE_VIRTUAL\<rparr>\<rparr> else b)
      in (0, parse_rk809 T (b\<lparr>pdata := parse_thresholds T (pdata b)\<rparr>)))"

section \<open>Gauge set-up\<close>

definition rk817_bat_gas_gaugle_enable :: "'d kernel \<Rightarrow> 'd rk817_battery_device \<Rightarrow> 'd rk817_battery_device" where
  "rk817_bat_gas_gaugle_enable E b = rk817_bat_field_write E GG_EN 1 b"

definition rk817_bat_gg_con_init :: "'d kernel \<Rightarrow> 'd rk817_battery_device \<Rightarrow> 'd rk817_battery_device" where
  "rk817_bat_gg_con_init E b =
     rk817_bat_field_write E CUR_OUT_MOD 0 (rk817_bat_field_write E VOL_OUT_MOD 0
       (rk817_bat_field_write E ADC_OFF_CAL_INTERV 0 (rk817_bat_field_write E RLX_SPT 0 b)))"

definition rk817_bat_adc_init :: "'d kernel \<Rightarrow> 'd rk817_battery_device \<Rightarrow> 'd rk817_battery_device" where
  "rk817_bat_adc_init E b =
     rk817_bat_field_write E BAT_CUR_ADC_EN 1 (rk817_bat_field_write E BAT_VOL_ADC_EN 1
       (rk817_bat_field_write E USB_VOL_ADC_EN 1 (rk817_bat_field_write E TS_ADC_EN 1
         (rk817_bat_field_write E SYS_VOL_ADC_EN 1 b))))"

definition rk817_bat_init_info :: "'d rk817_battery_device \<Rightarrow> 'd rk817_battery_device" where
  "rk817_bat_init_info b = b
     \<lparr>design_cap := s32 (design_capacity (pdata b)), qmax := s32 (design_qmax (pdata b)), bat_res := s32 (pd_bat_res (pdata b)),
      monitor_ms := u32 (monitor_sec (pdata b) * 1000), res_div := (if sample_res (pdata b) = 20 then 2 else 1)\<rparr>"

definition rk817_bat_get_prev_cap :: "'d kernel \<Rightarrow> 'd rk817_battery_device \<Rightarrow> int" where
  "rk817_bat_get_prev_cap E b =
     s32 (push_bit 16 (rk817_bat_field_read E b REMAIN_CAP_REG2)) OR
     s32 (push_bit 8 (rk817_bat_field_read E b REMAIN_CAP_REG1)) OR rk817_bat_field_read E b REMAIN_CAP_REG0"

definition rk817_bat_get_halt_cnt :: "'d kernel \<Rightarrow> 'd rk817_battery_device \<Rightarrow> int" where
  "rk817_bat_get_halt_cnt E b = u8 (rk817_bat_field_read E b HALT_CNT_REG)"

definition rk817_bat_inc_halt_cnt :: "'d kernel \<Rightarrow> 'd rk817_battery_device \<Rightarrow> 'd rk817_battery_device" where
  "rk817_bat_inc_halt_cnt E b =
     rk817_bat_field_write E HALT_CNT_REG (u8 (u8 (rk817_bat_field_read E b HALT_CNT_REG) + 1)) b"

definition is_rk817_bat_last_halt :: "'d kernel \<Rightarrow> 'd rk817_battery_device \<Rightarrow> (bool \<times> 'd rk817_battery_device) option" where
  "is_rk817_bat_last_halt E b =
     do { c \<leftarrow> rk817_bat_get_capacity_mah E b;
          Some (if \<bar>s32 (s32 c - rk817_bat_get_prev_cap E b)\<bar> > cdiv (fcc b) 10
                then (True, rk817_bat_inc_halt_cnt E b) else (False, b)) }"

definition is_rk817_bat_initialized :: "'d kernel \<Rightarrow> 'd rk817_battery_device \<Rightarrow> bool \<times> 'd rk817_battery_device" where
  "is_rk817_bat_initialized E b =
     (if u8 (rk817_bat_field_read E b FG_INIT) \<noteq> 0 then (True, rk817_bat_field_write E FG_INIT 0 b) else (False, b))"

section \<open>Preparing the display algorithm\<close>

definition sm_slope :: "int \<Rightarrow> int \<Rightarrow> int \<Rightarrow> int" where
  "sm_slope cur d r =
     (let delta = \<bar>s32 (d - r)\<bar>; diff = s32 (delta * 3)
      in if cur > 0
         then if d < r then cdiv (s32 (1000 * s32 (delta + diff))) (DIV diff)
              else if d > r then cdiv (s32 (1000 * diff)) (DIV (s32 (delta + diff)))
              else 1000
         else if d < r then cdiv (s32 (- 1000 * diff)) (DIV (s32 (delta + diff)))
              else if d > r then cdiv (s32 (- 1000 * s32 (delta + diff))) (DIV diff)
              else - 1000)"

definition rk817_bat_calc_sm_linek :: "'d kernel \<Rightarrow> 'd rk817_battery_device \<Rightarrow> 'd rk817_battery_device option" where
  "rk817_bat_calc_sm_linek E b =
     do { cur \<leftarrow> rk817_bat_get_avg_current E b;
          let diff = s32 (\<bar>s32 (dsoc b - rsoc b)\<bar> * 3);
          Some (b\<lparr>dbg_meet_soc := (if dsoc b \<ge> rsoc b then s32 (dsoc b - diff) else s32 (rsoc b - diff)),
                  sm_linek := sm_slope cur (dsoc b) (rsoc b), sm_remain_cap := s32 (remain_cap b),
                  dbg_calc_dsoc := dsoc b, dbg_calc_rsoc := rsoc b\<rparr>) }"

definition rk817_bat_smooth_algo_prepare :: "'d kernel \<Rightarrow> 'd rk817_battery_device \<Rightarrow> 'd rk817_battery_device option" where
  "rk817_bat_smooth_algo_prepare E b = rk817_bat_calc_sm_linek E (b\<lparr>smooth_soc := dsoc b\<rparr>)"

definition rk817_bat_finish_algo_prepare :: "'d kernel \<Rightarrow> 'd rk817_battery_device \<Rightarrow> 'd rk817_battery_device" where
  "rk817_bat_finish_algo_prepare E b = b\<lparr>finish_base := (if get_boot_sec E \<noteq> 0 then get_boot_sec E else 1)\<rparr>"

definition rk817_bat_init_dsoc_algorithm :: "'d kernel \<Rightarrow> 'd rk817_battery_device \<Rightarrow> 'd rk817_battery_device option" where
  "rk817_bat_init_dsoc_algorithm E b =
     (let b0 = b\<lparr>dsoc := (if dsoc b \<ge> 100 * 1000 then 100 * 1000 else if dsoc b \<le> 0 then 0 else dsoc b)\<rparr>
      in do { v \<leftarrow> rk817_bat_get_battery_voltage E b0;
              let b1 = b0\<lparr>voltage_avg := v\<rparr>;
              c \<leftarrow> rk817_bat_get_avg_current E b1;
              let b2 = b1\<lparr>current_avg := c\<rparr>;
              if get_charge_status E b2 = CHARGE_FINISH
              then Some ((rk817_bat_finish_algo_prepare E b2)\<lparr>work_mode := MODE_FINISH\<rparr>)
              else do { b3 \<leftarrow> rk817_bat_smooth_algo_prepare E b2; Some (b3\<lparr>work_mode := MODE_SMOOTH\<rparr>) } })"

section \<open>The first display charge\<close>

definition rk817_bat_first_pwron :: "'d kernel \<Rightarrow> 'd rk817_battery_device \<Rightarrow> 'd rk817_battery_device option" where
  "rk817_bat_first_pwron E b =
     do { s \<leftarrow> rk817_bat_vol_to_soc b (pwron_voltage b);
          let b1 = b\<lparr>rsoc := s32 (s * 1000), dsoc := s32 (s * 1000), fcc := s32 (design_capacity (pdata b))\<rparr>;
          c \<leftarrow> rk817_bat_vol_to_cap b1 (pwron_voltage b1);
          let b2 = rk817_bat_update_qmax E (qmax b1) (b1\<lparr>nac := c\<rparr>);
          Some (rk817_bat_save_fcc E (fcc b2) b2) }"

text \<open>The case of a power-off of at least 30 minutes: the open-circuit voltage replaces the saved values.\<close>

definition pwron_ocv_calib :: "'d kernel \<Rightarrow> int \<Rightarrow> 'd rk817_battery_device \<Rightarrow> (int \<times> int \<times> 'd rk817_battery_device) option" where
  "pwron_ocv_calib E pre_soc b =
     do { ocv_vol \<leftarrow> rk817_bat_get_ocv_voltage E b;
          ocv_soc \<leftarrow> rk817_bat_vol_to_soc b ocv_vol;
          ocv_cap \<leftarrow> rk817_bat_vol_to_cap b ocv_vol;
          let b = b\<lparr>ocv_pre_dsoc := pre_soc, ocv_new_dsoc := ocv_soc\<rparr>;
          Some (if \<bar>s32 (ocv_soc - pre_soc)\<bar> \<ge> max_soc_offset (pdata b)
                then (ocv_soc, ocv_cap, b\<lparr>is_max_soc_offset := True\<rparr>) else (pre_soc, ocv_cap, b)) }"

definition pwron_force_calib :: "'d kernel \<Rightarrow> int \<Rightarrow> int \<Rightarrow> 'd rk817_battery_device \<Rightarrow> (int \<times> int \<times> 'd rk817_battery_device) option" where
  "pwron_force_calib E pre_soc pre_cap b =
     do { ocv_vol \<leftarrow> rk817_bat_get_ocv_voltage E b;
          ocv_soc \<leftarrow> rk817_bat_vol_to_soc b ocv_vol;
          ocv_cap \<leftarrow> rk817_bat_vol_to_cap b ocv_vol;
          let b = b\<lparr>force_pre_dsoc := pre_soc, force_new_dsoc := ocv_soc\<rparr>;
          Some (if \<bar>s32 (ocv_soc - pre_soc)\<bar> \<ge> 80 then (ocv_soc, ocv_cap, b\<lparr>is_force_calib := True\<rparr>) else (pre_soc, pre_cap, b)) }"

text \<open>\<^verbatim>\<open>rk817_bat_not_first_pwron\<close>: what it finds in the registers, then which charge it takes over.\<close>

definition pwron_flags :: "'d kernel \<Rightarrow> 'd rk817_battery_device \<Rightarrow> (int \<times> int \<times> int \<times> 'd rk817_battery_device) option" where
  "pwron_flags E b =
     (let (f, b) = rk817_bat_get_fcc E b; b = b\<lparr>fcc := f\<rparr>;
          pre_soc = rk817_bat_get_prev_dsoc E b; pre_cap = rk817_bat_get_prev_cap E b
      in do { now_cap \<leftarrow> map_option s32 (rk817_bat_get_capacity_mah E b);
              (halt, b) \<leftarrow> is_rk817_bat_last_halt E (b\<lparr>remain_cap := u32 (pre_cap * 1000)\<rparr>);
              let b = b\<lparr>is_halt := halt, halt_cnt := rk817_bat_get_halt_cnt E b\<rparr>;
              let (ini, b) = is_rk817_bat_initialized E b;
              let b = b\<lparr>is_initialized := ini\<rparr>;
              Some (pre_soc, pre_cap, now_cap, b\<lparr>is_ocv_calib := is_rk817_bat_ocv_valid b\<rparr>) })"

definition pwron_choice ::
    "'d kernel \<Rightarrow> int \<Rightarrow> int \<Rightarrow> int \<Rightarrow> 'd rk817_battery_device \<Rightarrow> (int \<times> int \<times> 'd rk817_battery_device) option" where
  "pwron_choice E pre_soc pre_cap now_cap b =
     (if is_halt b
      then let now_cap = (if now_cap < 0 then 0 else now_cap)
           in do { b \<leftarrow> rk817_bat_init_coulomb_cap E now_cap b; Some (rsoc b, now_cap, b) }
      else if is_initialized b then Some (pre_soc, pre_cap, b)
      else if is_ocv_calib b then pwron_ocv_calib E pre_soc b
      else if pwroff_min b > 0 then pwron_force_calib E pre_soc pre_cap b
      else Some (pre_soc, pre_cap, b))"

definition rk817_bat_not_first_pwron :: "'d kernel \<Rightarrow> 'd rk817_battery_device \<Rightarrow> 'd rk817_battery_device option" where
  "rk817_bat_not_first_pwron E b =
     do { (pre_soc, pre_cap, now_cap, b) \<leftarrow> pwron_flags E b;
          (pre_soc, pre_cap, b) \<leftarrow> pwron_choice E pre_soc pre_cap now_cap b;
          Some (b\<lparr>dsoc := pre_soc, nac := (if pre_cap < 0 then 0 else pre_cap)\<rparr>) }"

definition rk817_bat_rsoc_init :: "'d kernel \<Rightarrow> 'd rk817_battery_device \<Rightarrow> 'd rk817_battery_device option" where
  "rk817_bat_rsoc_init E b =
     (let (first, b) = is_rk817_bat_first_pwron E b;
          b = b\<lparr>is_first_power_on := first\<rparr>;
          b = b\<lparr>pwroff_min := u32 (rk817_bat_get_off_count E b)\<rparr>
      in do { v \<leftarrow> rk817_bat_get_pwron_voltage E b;
              let b = b\<lparr>pwron_voltage := v\<rparr>;
              b \<leftarrow> (if is_first_power_on b then rk817_bat_first_pwron E b else rk817_bat_not_first_pwron E b);
              let b = rk817_bat_save_dsoc E (dsoc b) b;
              Some (if (is_initialized b \<or> is_ocv_calib b) \<and> cdiv (rsoc b) 1000 = 100 \<and> dsoc b < 100 * 1000
                    then rk817_bat_save_dsoc E (100 * 1000) (b\<lparr>dsoc := 100 * 1000\<rparr>) else b) })"

definition rk817_bat_init_fg :: "'d kernel \<Rightarrow> 'd rk817_battery_device \<Rightarrow> 'd rk817_battery_device option" where
  "rk817_bat_init_fg E b =
     (let b = rk817_bat_gg_con_init E (rk817_bat_gas_gaugle_enable E (rk817_bat_adc_init E b));
          b = rk817_bat_ocv_thre E 255 (rk817_bat_set_relax_sample E (rk817_bat_init_voltage_kb E b))
      in do { b \<leftarrow> rk817_bat_rsoc_init E b;
              b \<leftarrow> rk817_bat_init_coulomb_cap E (nac b) b;
              b \<leftarrow> rk817_bat_init_dsoc_algorithm E b;
              (q, b) \<leftarrow> rk817_bat_get_qmax E b;
              let b = b\<lparr>qmax := q\<rparr>;
              v \<leftarrow> rk817_bat_get_battery_voltage E b;
              let b = b\<lparr>voltage_avg := v\<rparr>;
              vs \<leftarrow> rk817_bat_get_sys_voltage E b;
              let b = b\<lparr>voltage_sys := vs\<rparr>;
              vo \<leftarrow> rk817_bat_get_ocv_voltage E b;
              let b = b\<lparr>voltage_ocv := vo\<rparr>;
              let b = b\<lparr>voltage_relax := rk817_bat_get_relax_voltage E b\<rparr>;
              c \<leftarrow> rk817_bat_get_avg_current E b;
              Some (b\<lparr>current_avg := c, dbg_pwr_dsoc := dsoc b, dbg_pwr_rsoc := rsoc b, dbg_pwr_vol := voltage_avg b,
                      temperature := 188\<rparr>) })"

end
