(* ===== verification/RK817_Display.thy ===== *)
theory RK817_Display
  imports RK817_Init
begin

text \<open>
  The periodic half of the fuel gauge driver: one run of \<^verbatim>\<open>rk817_battery_work\<close> reads the gauge, checks
  for low power, moves the displayed charge (\<^verbatim>\<open>dsoc\<close>, in thousandths of a percent) with one of three
  algorithms, reports the change and saves it. The model keeps the order of the calls and every
  early return; \<^verbatim>\<open>DBG\<close> output is left out, and a division by zero is \<open>None\<close>.
\<close>

section \<open>Power supplies and reported properties\<close>

text \<open>\<^verbatim>\<open>class_for_each_device\<close> stops at the first device for which the callback returns a non-zero value.\<close>

definition find_psy :: "'d kernel \<Rightarrow> power_supply_type \<Rightarrow> nat option \<Rightarrow> nat option" where
  "find_psy E t old = (case old of Some p \<Rightarrow> Some p | None \<Rightarrow> map_option fst (List.find (\<lambda>(p, t'). t' = t) (class_devices E)))"

definition rk817_bat_get_chrg_psy :: "'d kernel \<Rightarrow> 'd rk817_battery_device \<Rightarrow> 'd rk817_battery_device" where
  "rk817_bat_get_chrg_psy E b =
     b\<lparr>usb_psy := find_psy E POWER_SUPPLY_TYPE_USB (usb_psy b), ac_psy := find_psy E POWER_SUPPLY_TYPE_MAINS (ac_psy b)\<rparr>"

definition psy_state :: "'d kernel \<Rightarrow> nat option \<Rightarrow> int \<Rightarrow> int" where
  "psy_state E psy old = (case psy of None \<Rightarrow> old | Some p \<Rightarrow> let (ret, v) = psy_online E p in if ret = 0 then u8 v else old)"

definition rk817_bat_get_charge_state :: "'d kernel \<Rightarrow> 'd rk817_battery_device \<Rightarrow> int \<times> 'd rk817_battery_device" where
  "rk817_bat_get_charge_state E b =
     (let b = (if usb_psy b = None \<or> ac_psy b = None then rk817_bat_get_chrg_psy E b else b);
          b = b\<lparr>usb_in := psy_state E (usb_psy b) (usb_in b), ac_in := psy_state E (ac_psy b) (ac_in b)\<rparr>
      in (if usb_in b \<noteq> 0 \<or> ac_in b \<noteq> 0 then 1 else 0, b))"

definition rk817_get_capacity_leve :: "'d rk817_battery_device \<Rightarrow> int" where
  "rk817_get_capacity_leve b =
     (if bat_mode (pdata b) = MODE_VIRTUAL then 3
      else let d = cdiv (s32 (dsoc b + 500)) 1000
           in if d < 1 then 1 else if d \<le> 20 then 2 else if d \<le> 70 then 3 else if d \<le> 90 then 4 else 5)"

definition rk817_battery_time_to_full :: "'d rk817_battery_device \<Rightarrow> int" where
  "rk817_battery_time_to_full b =
     (if bat_mode (pdata b) = MODE_VIRTUAL then 3600
      else if voltage_avg b > 0
      then let c = s32 (design_cap b - remain_cap b div 1000); c = (if c < 0 then 0 else c)
           in cdiv (s32 (3600 * c)) (voltage_avg b)
      else 3600 * 24)"

datatype power_supply_property =
    POWER_SUPPLY_PROP_STATUS | POWER_SUPPLY_PROP_CURRENT_NOW | POWER_SUPPLY_PROP_VOLTAGE_NOW | POWER_SUPPLY_PROP_HEALTH
  | POWER_SUPPLY_PROP_CAPACITY | POWER_SUPPLY_PROP_CAPACITY_LEVEL | POWER_SUPPLY_PROP_TEMP | POWER_SUPPLY_PROP_CHARGE_COUNTER
  | POWER_SUPPLY_PROP_CHARGE_FULL | POWER_SUPPLY_PROP_CHARGE_FULL_DESIGN | POWER_SUPPLY_PROP_TIME_TO_FULL_NOW
  | POWER_SUPPLY_PROP_VOLTAGE_MAX | POWER_SUPPLY_PROP_CURRENT_MAX | POWER_SUPPLY_PROP_ONLINE | POWER_SUPPLY_PROP_OTHER

abbreviation (input) "POWER_SUPPLY_STATUS_CHARGING \<equiv> 1 :: int"
abbreviation (input) "POWER_SUPPLY_STATUS_DISCHARGING \<equiv> 2 :: int"
abbreviation (input) "POWER_SUPPLY_STATUS_FULL \<equiv> 4 :: int"

text \<open>\<open>Inl\<close> is the negative return value; reading the status may update the device.\<close>

definition rk817_battery_get_property ::
    "'d kernel \<Rightarrow> power_supply_property \<Rightarrow> 'd rk817_battery_device \<Rightarrow> (int + int) \<times> 'd rk817_battery_device" where
  "rk817_battery_get_property E psp b =
     (let virt = (bat_mode (pdata b) = MODE_VIRTUAL) in
      case psp of
        POWER_SUPPLY_PROP_CURRENT_NOW \<Rightarrow> (Inr (if virt then 1000 * 1000 else s32 (current_avg b * 1000)), b)
      | POWER_SUPPLY_PROP_VOLTAGE_NOW \<Rightarrow> (Inr (if virt then 3888 * 1000 else s32 (voltage_avg b * 1000)), b)
      | POWER_SUPPLY_PROP_CAPACITY \<Rightarrow> (Inr (if virt then 66 else cdiv (s32 (dsoc b + 500)) 1000), b)
      | POWER_SUPPLY_PROP_CAPACITY_LEVEL \<Rightarrow> (Inr (rk817_get_capacity_leve b), b)
      | POWER_SUPPLY_PROP_HEALTH \<Rightarrow> (Inr 1, b)
      | POWER_SUPPLY_PROP_TEMP \<Rightarrow> (Inr (if virt then 188 else temperature b), b)
      | POWER_SUPPLY_PROP_STATUS \<Rightarrow>
          if virt then (Inr POWER_SUPPLY_STATUS_CHARGING, b)
          else if dsoc b = 100 * 1000 then (Inr POWER_SUPPLY_STATUS_FULL, b)
          else if chip_id b \<noteq> RK809_ID
          then let (st, b) = rk817_bat_get_charge_state E b
               in (Inr (if st \<noteq> 0 then POWER_SUPPLY_STATUS_CHARGING else POWER_SUPPLY_STATUS_DISCHARGING), b)
          else (Inr (if plugin_trigger b \<noteq> 0 then POWER_SUPPLY_STATUS_CHARGING else POWER_SUPPLY_STATUS_DISCHARGING), b)
      | POWER_SUPPLY_PROP_CHARGE_COUNTER \<Rightarrow> (Inr (s32 (charge_count b)), b)
      | POWER_SUPPLY_PROP_CHARGE_FULL \<Rightarrow> (Inr (s32 (design_capacity (pdata b) * 1000)), b)
      | POWER_SUPPLY_PROP_CHARGE_FULL_DESIGN \<Rightarrow> (Inr (s32 (design_capacity (pdata b) * 1000)), b)
      | POWER_SUPPLY_PROP_TIME_TO_FULL_NOW \<Rightarrow> (Inr (rk817_battery_time_to_full b), b)
      | POWER_SUPPLY_PROP_VOLTAGE_MAX \<Rightarrow> (Inr (4500 * 1000), b)
      | POWER_SUPPLY_PROP_CURRENT_MAX \<Rightarrow> (Inr (5000 * 1000), b)
      | _ \<Rightarrow> (Inl (- EINVAL), b))"

definition rk809_chg_get_property :: "'d rk817_battery_device \<Rightarrow> power_supply_property \<Rightarrow> int + int" where
  "rk809_chg_get_property b psp =
     (let online = (if plugin_trigger b \<noteq> 0 then 1 else 0) in
      case psp of
        POWER_SUPPLY_PROP_ONLINE \<Rightarrow> Inr online
      | POWER_SUPPLY_PROP_STATUS \<Rightarrow> Inr (if online \<noteq> (0::int) then POWER_SUPPLY_STATUS_CHARGING else POWER_SUPPLY_STATUS_DISCHARGING)
      | _ \<Rightarrow> Inl (- EINVAL))"

definition rk817_bat_power_supply_changed :: "'d rk817_battery_device \<Rightarrow> 'd rk817_battery_device" where
  "rk817_bat_power_supply_changed b =
     (let b = b\<lparr>dsoc := (if dsoc b > 100 * 1000 then 100 * 1000 else if dsoc b < 0 then 0 else dsoc b)\<rparr>
      in if dsoc b = static_old_soc b \<and> \<not> change b then b
         else b\<lparr>change := False, static_old_soc := dsoc b, last_dsoc := dsoc b, bat_changed := Suc (bat_changed b)\<rparr>)"

definition rk809_plug_in_isr :: "'d rk817_battery_device \<Rightarrow> 'd rk817_battery_device" where
  "rk809_plug_in_isr b =
     (let b = b\<lparr>plugin_trigger := 1, plugout_trigger := 0, bat_changed := Suc (bat_changed b)\<rparr>
      in if is_register_chg_psy b \<noteq> 0 then b\<lparr>chg_changed := Suc (chg_changed b)\<rparr> else b)"

definition rk809_plug_out_isr :: "'d rk817_battery_device \<Rightarrow> 'd rk817_battery_device" where
  "rk809_plug_out_isr b =
     (let b = b\<lparr>plugin_trigger := 0, plugout_trigger := 1, bat_changed := Suc (bat_changed b)\<rparr>
      in if is_register_chg_psy b \<noteq> 0 then b\<lparr>chg_changed := Suc (chg_changed b)\<rparr> else b)"

section \<open>Reading the gauge\<close>

definition rk817_bat_update_charging_status :: "'d kernel \<Rightarrow> 'd rk817_battery_device \<Rightarrow> 'd rk817_battery_device" where
  "rk817_bat_update_charging_status E b =
     (let (st, b) = rk817_bat_get_charge_state E b
      in if st = is_charging b then b
         else b\<lparr>change := True, is_charging := st, charge_count := (if st \<noteq> 0 then charge_count b + 1 else charge_count b)\<rparr>)"

text \<open>The measurements of \<^verbatim>\<open>rk817_bat_update_info\<close>, and its treatment of a counter above the full charge capacity.\<close>

definition read_gauge :: "'d kernel \<Rightarrow> 'd rk817_battery_device \<Rightarrow> 'd rk817_battery_device option" where
  "read_gauge E b =
     do { v \<leftarrow> rk817_bat_get_battery_voltage E b;
          let b = b\<lparr>voltage_avg := v\<rparr>;
          vs \<leftarrow> rk817_bat_get_sys_voltage E b;
          let b = b\<lparr>voltage_sys := vs\<rparr>;
          c \<leftarrow> rk817_bat_get_avg_current E b;
          let b = b\<lparr>current_avg := c\<rparr>;
          let b = b\<lparr>voltage_relax := rk817_bat_get_relax_voltage E b\<rparr>;
          r \<leftarrow> rk817_bat_get_rsoc E b;
          let b = b\<lparr>rsoc := r\<rparr>;
          cap \<leftarrow> rk817_bat_get_capacity_uah E b;
          Some (b\<lparr>remain_cap := cap\<rparr>) }"

definition reset_overfull :: "'d kernel \<Rightarrow> 'd rk817_battery_device \<Rightarrow> 'd rk817_battery_device option" where
  "reset_overfull E b =
     (if remain_cap b div 1000 > u32 (fcc b)
      then do { b \<leftarrow> rk817_bat_init_coulomb_cap E (u32 (fcc b + 100)) (b\<lparr>sm_remain_cap := s32 (fcc b * 1000)\<rparr>);
                b \<leftarrow> rk817_bat_init_coulomb_cap E (u32 (fcc b)) b;
                _ \<leftarrow> rk817_bat_get_capacity_mah E b;
                Some b }
      else Some b)"

definition rk817_bat_update_info :: "'d kernel \<Rightarrow> 'd rk817_battery_device \<Rightarrow> 'd rk817_battery_device option" where
  "rk817_bat_update_info E b =
     do { b \<leftarrow> read_gauge E b;
          (vu, b) \<leftarrow> rk817_bat_get_USB_voltage E b;
          let b = b\<lparr>voltage_usb := vu\<rparr>;
          let b = rk817_bat_update_charging_status E (b\<lparr>chrg_status := get_charge_status E b\<rparr>);
          b \<leftarrow> reset_overfull E b;
          Some (if chrg_status b \<noteq> CHARGE_FINISH then b\<lparr>finish_base := get_boot_sec E\<rparr> else b) }"

definition rk817_bat_save_data :: "'d kernel \<Rightarrow> 'd rk817_battery_device \<Rightarrow> 'd rk817_battery_device" where
  "rk817_bat_save_data E b = (let b = rk817_bat_save_dsoc E (dsoc b) b in rk817_bat_save_cap E (remain_cap b div 1000) b)"

definition rk817_bat_lowpwr_check :: "'d kernel \<Rightarrow> 'd rk817_battery_device \<Rightarrow> 'd rk817_battery_device" where
  "rk817_bat_lowpwr_check E b =
     (let pwr_off_thresd = s32 (pwroff_vol (pdata b))
      in if current_avg b < 0 \<and> voltage_avg b < pwr_off_thresd
         then let b = (if static_time b = 0 then b\<lparr>static_time := get_boot_sec E\<rparr> else b)
              in if (base2sec E (static_time b) > 60 \<or> voltage_avg b \<le> s32 (pwr_off_thresd - 50)) \<and> base2sec E (static_time b) > 60
                 then b\<lparr>fake_offline := 1,
                        dsoc := (if voltage_avg b \<le> s32 (pwr_off_thresd - 50) then s32 (dsoc b - 1000) else dsoc b)\<rparr>
                 else b
         else b\<lparr>static_time := 0, fake_offline := 0\<rparr>)"

section \<open>The smooth algorithm\<close>

definition rk817_bat_calc_smooth_dischrg :: "'d rk817_battery_device \<Rightarrow> 'd rk817_battery_device" where
  "rk817_bat_calc_smooth_dischrg b =
     (let b = (if smooth_soc b < 0 then b\<lparr>smooth_soc := 0\<rparr> else b); tmp_soc = cdiv (smooth_soc b) 1000
      in if tmp_soc \<noteq> cdiv (dsoc b) 1000
         then if smooth_soc b > dsoc b then b
              else let b = (if s32 (smooth_soc b + 1000) > dsoc b then b\<lparr>dsoc := smooth_soc b\<rparr> else b\<lparr>dsoc := s32 (dsoc b - 1000)\<rparr>)
                   in if dsoc b \<le> 0 then b\<lparr>dsoc := 0\<rparr> else b
         else b)"

text \<open>The branch of \<^verbatim>\<open>rk817_bat_smooth_algorithm\<close> for a rising charge; the flag tells that it returns early.\<close>

definition smooth_chrg :: "'d rk817_battery_device \<Rightarrow> 'd rk817_battery_device \<times> bool" where
  "smooth_chrg b =
     (let b = (if smooth_soc b < 0 then b\<lparr>smooth_soc := 0\<rparr> else b); tmp_soc = cdiv (smooth_soc b) 1000
      in if tmp_soc \<noteq> cdiv (dsoc b) 1000
         then if smooth_soc b < dsoc b then (b, True)
              else (b\<lparr>dsoc := (if smooth_soc b \<le> 0 then 0 else smooth_soc b)\<rparr>, False)
         else (b, False))"

text \<open>\<^verbatim>\<open>rk817_bat_smooth_algorithm\<close> after the slope and the remaining capacity were brought up to date.\<close>

definition smooth_move :: "'d kernel \<Rightarrow> 'd rk817_battery_device \<Rightarrow> 'd rk817_battery_device option" where
  "smooth_move E b =
     (let delta_cap = s32 (remain_cap b - sm_remain_cap b)
      in if delta_cap = 0 then Some b
         else let ydsoc = cdiv (s32 (sm_linek b * \<bar>cdiv delta_cap 10\<bar>)) (DIV (fcc b))
              in if ydsoc = 0 then Some b
                 else let b = b\<lparr>sm_remain_cap := s32 (remain_cap b), smooth_soc := s32 (smooth_soc b + ydsoc)\<rparr>;
                          (b, ret) = (if ydsoc < 0 then (rk817_bat_calc_smooth_dischrg b, False) else smooth_chrg b)
                      in if ret then Some b
                         else if s2r b then rk817_bat_calc_sm_linek E (b\<lparr>s2r := False\<rparr>)
                         else Some b)"

definition rk817_bat_smooth_algorithm :: "'d kernel \<Rightarrow> 'd rk817_battery_device \<Rightarrow> 'd rk817_battery_device option" where
  "rk817_bat_smooth_algorithm E b =
     do { b \<leftarrow> (if s32 (sm_linek b * current_avg b) \<le> 0 then rk817_bat_calc_sm_linek E b else Some b);
          cap \<leftarrow> rk817_bat_get_capacity_uah E b;
          smooth_move E (b\<lparr>remain_cap := cap\<rparr>) }"

section \<open>The zero algorithm\<close>

text \<open>The reserve \<^verbatim>\<open>min_gap_xsoc\<close> and the slope \<^verbatim>\<open>zero_linek\<close> that \<^verbatim>\<open>rk817_bat_calc_zero_linek\<close> chooses.\<close>

definition zero_min_gap :: "'d rk817_battery_device \<Rightarrow> int \<Rightarrow> int \<Rightarrow> int" where
  "zero_min_gap b cur xsoc =
     (let g = (if \<bar>cur\<bar> > 1400 then 3 else if \<bar>cur\<bar> > 600 then 5 else 10)
      in if xsoc \<le> 30 \<and> u32 (dsoc b) \<ge> zero_reserve_dsoc (pdata b) then g + 5 else g)"

definition zero_slope :: "'d rk817_battery_device \<Rightarrow> int \<Rightarrow> int \<Rightarrow> int" where
  "zero_slope b xsoc min_gap_xsoc =
     (let d = cdiv (dsoc b) 1000;
          linek = cdiv (s32 (zero_dsoc b + cdiv xsoc 2)) (DIV xsoc)
      in if energy_mode (pdata b) \<noteq> 0 \<and> xsoc - d \<ge> 3 \<and> d \<le> 10 \<and> linek < 300 then 300
         else if xsoc - d \<ge> min_gap_xsoc \<or> (xsoc - d \<ge> 5 \<and> d \<le> 10 \<and> xsoc > 15)
         then if xsoc \<le> 20 \<and> u32 d \<ge> zero_reserve_dsoc (pdata b) then 1200
              else if xsoc - d \<ge> 2 * min_gap_xsoc then 400
              else if xsoc - d \<ge> 3 + min_gap_xsoc then 600
              else 800
         else if linek > 1800 \<and> d > 70 then 1800
         else if linek > 1000 \<and> linek < 1200 then 1200
         else if d \<le> 15 \<and> dsoc b > 5 \<and> linek \<le> 1200 then if xsoc - d \<ge> min_gap_xsoc then 800 else 1200
         else if linek < 1000 \<and> d \<ge> 5
         then if xsoc - d < min_gap_xsoc then 1200 else if \<bar>current_avg b\<bar> > 500 then 900 else 1000
         else if linek < 1000 \<and> d \<le> 5 then if xsoc - d \<le> 3 then 1200 else 800
         else linek)"

text \<open>The last part of \<^verbatim>\<open>rk817_bat_calc_zero_linek\<close>: no charge left above the dead voltage.\<close>

definition zero_drop :: "'d kernel \<Rightarrow> 'd rk817_battery_device \<Rightarrow> 'd rk817_battery_device" where
  "zero_drop E b =
     (let b = b\<lparr>zero_linek := 1000, zero_drop_sec := (if zero_drop_sec b = 0 then get_boot_sec E else zero_drop_sec b)\<rparr>
      in if base2sec E (zero_drop_sec b) \<ge> 15
         then let d = s32 (dsoc b - 1000); d = (if d < 0 then 0 else d)
              in b\<lparr>zero_drop_sec := 0, dsoc := d, zero_dsoc := d\<rparr>
         else b)"

definition zero_shutdown :: "'d kernel \<Rightarrow> int \<Rightarrow> int \<Rightarrow> 'd rk817_battery_device \<Rightarrow> 'd rk817_battery_device" where
  "zero_shutdown E vol pwroff b =
     (if vol < s32 (pwroff - 70)
      then let b = b\<lparr>shtd_drop_sec := (if shtd_drop_sec b = 0 then get_boot_sec E else shtd_drop_sec b)\<rparr>
           in if base2sec E (shtd_drop_sec b) > 30 then b\<lparr>shtd_drop_sec := 0, dsoc := 0\<rparr> else b
      else b\<lparr>shtd_drop_sec := 0\<rparr>)"

definition rk817_bat_calc_zero_linek :: "'d kernel \<Rightarrow> 'd rk817_battery_device \<Rightarrow> 'd rk817_battery_device option" where
  "rk817_bat_calc_zero_linek E b =
     (let pwroff = (if \<bar>current_avg b\<bar> < 400 \<and> cdiv (dsoc b) 1000 > 5
                    then s32 (pwroff_vol (pdata b) + 50) else s32 (pwroff_vol (pdata b)))
      in do { vol \<leftarrow> rk817_bat_get_battery_voltage E b;
              cur \<leftarrow> rk817_bat_get_avg_current E b;
              let vsys = s32 (vol + cdiv (s32 (cur * 50)) 1000);
              _ \<leftarrow> divz (s32 (s32 (vol - vsys) * 1000)) cur;
              let dead_voltage = s32 (pwroff - cdiv (s32 (cur * s32 (bat_res b + 50))) 1000);
              let ocv_voltage = s32 (vol - cdiv (s32 (cur * bat_res b)) 1000);
              dead_soc \<leftarrow> rk817_bat_vol_to_soc b dead_voltage;
              dead_cap \<leftarrow> rk817_bat_vol_to_cap b dead_voltage;
              ocv_soc \<leftarrow> rk817_bat_vol_to_soc b ocv_voltage;
              ocv_cap \<leftarrow> rk817_bat_vol_to_cap b ocv_voltage;
              let xsoc = s32 (ocv_soc - dead_soc);
              let b = b\<lparr>zero_voltage_avg := vol, zero_current_avg := cur, zero_vsys := vsys,
                        zero_dead_voltage := dead_voltage, zero_dead_soc := dead_soc, zero_dead_cap := dead_cap,
                        zero_batvol_to_ocv := ocv_voltage, zero_batocv_to_soc := ocv_soc, zero_batocv_to_cap := ocv_cap,
                        zero_xsoc := xsoc, zero_remain_cap := s32 (remain_cap b), zero_timeout_cnt := 0\<rparr>;
              let b = (if cdiv (dsoc b) 1000 \<le> 1 \<and> xsoc > 0 then b\<lparr>zero_linek := 400, zero_drop_sec := 0\<rparr>
                       else if xsoc \<ge> 0
                       then b\<lparr>zero_drop_sec := 0, zero_linek := zero_slope b xsoc (zero_min_gap b cur xsoc)\<rparr>
                       else zero_drop E b);
              Some (zero_shutdown E vol pwroff b) })"

definition rk817_bat_zero_algo_prepare :: "'d kernel \<Rightarrow> 'd rk817_battery_device \<Rightarrow> 'd rk817_battery_device option" where
  "rk817_bat_zero_algo_prepare E b =
     rk817_bat_calc_zero_linek E (if cdiv (zero_dsoc b) 1000 \<noteq> cdiv (smooth_soc b) 1000 then b\<lparr>zero_dsoc := smooth_soc b\<rparr> else b)"

definition rk817_bat_calc_zero_algorithm :: "'d rk817_battery_device \<Rightarrow> 'd rk817_battery_device" where
  "rk817_bat_calc_zero_algorithm b =
     (if cdiv (zero_dsoc b) 1000 = cdiv (dsoc b) 1000 then b
      else if zero_dsoc b > dsoc b then b
      else if zero_dsoc b < s32 (dsoc b - 1000) then b\<lparr>dsoc := s32 (dsoc b - 1000)\<rparr>
      else b\<lparr>dsoc := zero_dsoc b\<rparr>)"

definition rk817_bat_zero_algorithm :: "'d kernel \<Rightarrow> 'd rk817_battery_device \<Rightarrow> 'd rk817_battery_device option" where
  "rk817_bat_zero_algorithm E b =
     (let b = b\<lparr>zero_timeout_cnt := s32 (zero_timeout_cnt b + 1)\<rparr>;
          delta_cap = s32 (zero_remain_cap b - remain_cap b);
          delta_soc = cdiv (cdiv (s32 (zero_linek b * delta_cap)) (DIV (fcc b))) 10
      in do { b \<leftarrow> (if delta_soc \<ge> 10 \<or> zero_timeout_cnt b > 100 \<or> zero_linek b = 0
                   then rk817_bat_calc_zero_linek E
                          (rk817_bat_calc_zero_algorithm (b\<lparr>zero_timeout_cnt := 0, zero_dsoc := s32 (zero_dsoc b - delta_soc)\<rparr>))
                   else Some b);
              if cdiv (rsoc b) 1000 < 1 \<and> zero_batocv_to_cap b > cdiv (fcc b) 100
              then do { b \<leftarrow> rk817_bat_init_coulomb_cap E (zero_batocv_to_cap b) b; rk817_bat_calc_zero_linek E b }
              else Some b })"

section \<open>The finish algorithm\<close>

definition u64 :: "int \<Rightarrow> int" where
  "u64 x = x mod 18446744073709551616"

definition finish_step :: "'d kernel \<Rightarrow> 'd rk817_battery_device \<Rightarrow> 'd rk817_battery_device option" where
  "finish_step E b =
     (let b = (if finish_base b = 0 then b\<lparr>finish_base := get_boot_sec E\<rparr> else b);
          finish_current = (if s32 (rsoc b - dsoc b) > 20 then 1500 else 1000);
          finish_sec = base2sec E (finish_base b);
          soc_sec = u64 (cdiv (cdiv (s32 (fcc b * 3600)) 100) (DIV finish_current));
          plus_soc = s32 (finish_sec div DIV soc_sec)
      in if finish_sec > soc_sec
         then if soc_sec = 0 then None
              else let rest = s32 (finish_sec mod soc_sec)
                   in Some (b\<lparr>dsoc := s32 (dsoc b + plus_soc * 1000),
                             finish_base := (if get_boot_sec E > u64 rest then get_boot_sec E - rest else get_boot_sec E)\<rparr>)
         else Some b)"

definition rk817_bat_finish_algorithm :: "'d kernel \<Rightarrow> 'd rk817_battery_device \<Rightarrow> 'd rk817_battery_device option" where
  "rk817_bat_finish_algorithm E b =
     do { b \<leftarrow> (if remain_cap b \<noteq> u32 (fcc b) \<and> get_charge_status E b = CHARGE_FINISH
               then do { b \<leftarrow> rk817_bat_init_coulomb_cap E (u32 (fcc b))
                            (b\<lparr>age_adjust_cap := s32 (age_adjust_cap b + (fcc b * 1000 - remain_cap b))\<rparr>);
                         _ \<leftarrow> rk817_bat_get_capacity_mah E b;
                         Some b }
               else Some b);
          if dsoc b < 100 * 1000
          then do { b \<leftarrow> finish_step E b;
                    Some (if cdiv (rsoc b) 1000 = 100 \<and> dsoc b < 100 * 1000
                          then rk817_bat_save_dsoc E (100 * 1000) (b\<lparr>dsoc := 100 * 1000\<rparr>) else b) }
          else Some b }"

section \<open>The display state machine\<close>

definition below_zero_vol :: "'d rk817_battery_device \<Rightarrow> bool" where
  "below_zero_vol b \<longleftrightarrow> current_avg b < 0 \<and> u32 (voltage_avg b) < zero_algorithm_vol (pdata b)"

definition charge_done :: "'d kernel \<Rightarrow> 'd rk817_battery_device \<Rightarrow> bool" where
  "charge_done E b \<longleftrightarrow> get_charge_status E b = CHARGE_FINISH \<or> rk817_bat_fake_finish_mode E b"

definition to_mode :: "work_mode \<Rightarrow> 'd rk817_battery_device option \<Rightarrow> 'd rk817_battery_device option" where
  "to_mode m r = map_option (\<lambda>b. b\<lparr>work_mode := m\<rparr>) r"

definition rk817_bat_display_smooth :: "'d kernel \<Rightarrow> 'd rk817_battery_device \<Rightarrow> 'd rk817_battery_device option" where
  "rk817_bat_display_smooth E b =
     (if s2r b \<and> \<not> sleep_chrg_online b
      then do { b \<leftarrow> rk817_bat_zero_algo_prepare E (b\<lparr>s2r := False\<rparr>); rk817_bat_smooth_algo_prepare E b }
      else if work_mode b = MODE_FINISH
      then do { b \<leftarrow> rk817_bat_finish_algorithm E b;
                if \<not> charge_done E b
                then if below_zero_vol b then to_mode MODE_ZERO (rk817_bat_zero_algo_prepare E b)
                     else to_mode MODE_SMOOTH (rk817_bat_smooth_algo_prepare E b)
                else Some b }
      else if work_mode b = MODE_ZERO
      then do { b \<leftarrow> rk817_bat_zero_algorithm E b;
                if u32 (voltage_avg b) \<ge> u32 (zero_algorithm_vol (pdata b) + 50) \<or> current_avg b \<ge> 0
                then to_mode MODE_SMOOTH (rk817_bat_smooth_algo_prepare E b)
                else if charge_done E b then to_mode MODE_FINISH (Some (rk817_bat_finish_algo_prepare E b))
                else Some b }
      else do { b \<leftarrow> rk817_bat_smooth_algorithm E b;
                if below_zero_vol b then to_mode MODE_ZERO (rk817_bat_zero_algo_prepare E b)
                else if charge_done E b then to_mode MODE_FINISH (Some (rk817_bat_finish_algo_prepare E b))
                else Some b })"

definition rk817_battery_work :: "'d kernel \<Rightarrow> 'd rk817_battery_device \<Rightarrow> 'd rk817_battery_device option" where
  "rk817_battery_work E b =
     do { b \<leftarrow> rk817_bat_update_info E b;
          b \<leftarrow> rk817_bat_display_smooth E (rk817_bat_lowpwr_check E b);
          let b = rk817_bat_save_data E (rk817_bat_power_supply_changed b);
          Some (if rk817_bat_field_read E b CUR_CALIB_UPD \<noteq> 0
                then rk817_bat_field_write E CUR_CALIB_UPD 1 (rk817_bat_init_voltage_kb E (rk817_bat_current_calibration E b))
                else b) }"

end
