(* ===== verification/RK817_Sleep.thy ===== *)
theory RK817_Sleep
  imports RK817_Display
begin

text \<open>
  Suspend and resume of the fuel gauge driver (\<^verbatim>\<open>rk817_battery.c\<close>): what is saved before sleeping, and
  how the charge lost during sleep is estimated when the system wakes up. Work queues and wake locks
  are the kernel's; the event that runs a handler is part of the step relation of the properties.
\<close>

definition rk817_get_rtc_sec :: "'d kernel \<Rightarrow> int" where
  "rk817_get_rtc_sec E = (let (err, t) = rtc_read_time E in if err \<noteq> 0 then 0 else if rtc_valid_tm E \<noteq> 0 then 0 else t)"

definition rk817_bat_pm_suspend :: "'d kernel \<Rightarrow> 'd rk817_battery_device \<Rightarrow> 'd rk817_battery_device option" where
  "rk817_bat_pm_suspend E b =
     (let b = b\<lparr>s2r := False\<rparr>; b = b\<lparr>sleep_chrg_status := u8 (get_charge_status E b)\<rparr>
      in do { c \<leftarrow> rk817_bat_get_avg_current E b;
              let b = b\<lparr>current_avg := c,
                        sleep_chrg_online := (c > 0 \<or> sleep_chrg_status b = CC_OR_CV_CHRG \<or> sleep_chrg_status b = CHARGE_FINISH)\<rparr>;
              cap \<leftarrow> rk817_bat_get_capacity_uah E b;
              let b = b\<lparr>remain_cap := cap\<rparr>;
              r \<leftarrow> rk817_bat_get_rsoc E b;
              let b = b\<lparr>rsoc := r, rtc_base := rk817_get_rtc_sec E\<rparr>;
              let b = rk817_bat_save_data E b;
              let b = (if sleep_chrg_status b \<noteq> CHARGE_FINISH then b\<lparr>finish_base := get_boot_sec E\<rparr> else b);
              if work_mode b = MODE_ZERO \<and> current_avg b \<ge> 0
              then if sleep_chrg_status b = CHARGE_FINISH
                   then Some (b\<lparr>work_mode := MODE_FINISH, finish_base := get_boot_sec E\<rparr>)
                   else rk817_bat_smooth_algo_prepare E (b\<lparr>work_mode := MODE_SMOOTH\<rparr>)
              else Some b })"

definition rk817_bat_rtc_sleep_sec :: "'d kernel \<Rightarrow> 'd rk817_battery_device \<Rightarrow> int" where
  "rk817_bat_rtc_sleep_sec E b =
     (let interval_sec = s32 (rk817_get_rtc_sec E - rtc_base b) in if interval_sec > 0 then interval_sec else 0)"

definition rk817_bat_relife_age_flag :: "'d kernel \<Rightarrow> 'd rk817_battery_device \<Rightarrow> 'd rk817_battery_device option" where
  "rk817_bat_relife_age_flag E b =
     (if voltage_relax b \<le> 0 then Some b
      else do { s \<leftarrow> rk817_bat_vol_to_soc b (voltage_relax b);
                c \<leftarrow> rk817_bat_vol_to_cap b (voltage_relax b);
                let ocv_soc = u8 s;
                Some (if \<not> age_allow_update b \<and> ocv_soc \<le> 10
                      then b\<lparr>age_voltage := voltage_relax b, age_ocv_cap := u8 c, age_ocv_soc := ocv_soc, age_adjust_cap := 0,
                             age_level := (if ocv_soc \<le> 1 then 100 else if ocv_soc < 5 then 90 else 80),
                             age_allow_update := True, age_keep_sec := get_boot_sec E\<rparr>
                      else b) })"

definition rk817_bat_init_capacity :: "'d kernel \<Rightarrow> int \<Rightarrow> 'd rk817_battery_device \<Rightarrow> 'd rk817_battery_device option" where
  "rk817_bat_init_capacity E cap b =
     (let delta_cap = s32 (u32 cap - remain_cap b)
      in if delta_cap = 0 then Some b
         else do { b \<leftarrow> rk817_bat_init_coulomb_cap E (u32 cap) (b\<lparr>age_adjust_cap := s32 (age_adjust_cap b + delta_cap)\<rparr>);
                   b \<leftarrow> rk817_bat_smooth_algo_prepare E b;
                   rk817_bat_zero_algo_prepare E b })"

definition rk817_bat_relax_vol_calib :: "'d kernel \<Rightarrow> 'd rk817_battery_device \<Rightarrow> 'd rk817_battery_device option" where
  "rk817_bat_relax_vol_calib E b =
     do { _ \<leftarrow> rk817_bat_vol_to_soc b (voltage_relax b);
          cap \<leftarrow> rk817_bat_vol_to_cap b (voltage_relax b);
          rk817_bat_init_capacity E cap b }"

text \<open>
  \<^verbatim>\<open>rk817_bat_sleep_dischrg\<close> in its four parts: the recalibration, the new display charge when it was
  not above the real one, when it was, and the reserve at low voltage.
\<close>

definition sleep_calib :: "'d kernel \<Rightarrow> 'd rk817_battery_device \<Rightarrow> (bool \<times> 'd rk817_battery_device) option" where
  "sleep_calib E b =
     (if voltage_relax b \<ge> voltage_avg b
      then do { b \<leftarrow> rk817_bat_relax_vol_calib E b;
                b \<leftarrow> rk817_bat_relife_age_flag E (rk817_bat_restart_relax E b);
                Some (True, b) }
      else Some (False, b))"

definition sleep_below :: "'d rk817_battery_device \<Rightarrow> int \<times> 'd rk817_battery_device" where
  "sleep_below b =
     (let sleep_cur = (if low_pwr_sleep (pdata b) \<noteq> 0 then 1 else 6);
          b = b\<lparr>sleep_sum_cap := s32 (u64 (sleep_cur * sleep_dischrg_sec b) div 3600)\<rparr>;
          sleep_soc = cdiv (s32 (sleep_sum_cap b * 100)) (DIV (fcc b));
          tgt_dsoc = s32 (dsoc b - s32 (sleep_soc * 1000));
          d = (if sleep_soc > 0
               then if cdiv (dsoc b) 1000 < 5 then s32 (dsoc b - 1000)
                    else if cdiv tgt_dsoc 1000 < 5 \<and> cdiv (dsoc b) 1000 \<ge> 5
                    then if cdiv (dsoc b) 1000 = 5 then s32 (dsoc b - 1000) else 5 * 1000
                    else if cdiv tgt_dsoc 1000 > 5 then tgt_dsoc
                    else dsoc b
               else dsoc b)
      in (sleep_soc, b\<lparr>dsoc := d\<rparr>))"

definition sleep_above :: "'d rk817_battery_device \<Rightarrow> int \<times> 'd rk817_battery_device" where
  "sleep_above b =
     (let sleep_cur = (if low_pwr_sleep (pdata b) \<noteq> 0 then 20 else 40);
          b = b\<lparr>sleep_sum_cap := s32 (u64 (sleep_cur * sleep_dischrg_sec b) div 3600)\<rparr>;
          sleep_soc = cdiv (sleep_sum_cap b) (DIV (cdiv (fcc b) 100));
          gap_soc = s32 (dsoc b - rsoc b);
          d = (if cdiv gap_soc 1000 > sleep_soc
               then if s32 (gap_soc - 5000) > s32 (sleep_soc * 2 * 1000) then s32 (dsoc b - s32 (sleep_soc * 2 * 1000))
                    else s32 (dsoc b - s32 (sleep_soc * 1000))
               else rsoc b)
      in (sleep_soc, b\<lparr>dsoc := d\<rparr>))"

definition sleep_reserve :: "int \<Rightarrow> bool \<Rightarrow> int \<Rightarrow> 'd rk817_battery_device \<Rightarrow> 'd rk817_battery_device" where
  "sleep_reserve pwroff updated sleep_soc b =
     (let b = (if voltage_avg b \<le> s32 (pwroff - 70) then b\<lparr>dsoc := 0\<rparr> else b);
          b = (if updated \<and> sleep_soc \<noteq> 0 \<and> s32 (rsoc b - dsoc b) < 5000 \<and> dsoc b < 40 * 1000
               then b\<lparr>dsoc := s32 (dsoc b - 1000)\<rparr> else b)
      in if dsoc b \<le> 0 then b\<lparr>dsoc := 0\<rparr> else b)"

definition rk817_bat_sleep_dischrg :: "'d kernel \<Rightarrow> 'd rk817_battery_device \<Rightarrow> (int \<times> 'd rk817_battery_device) option" where
  "rk817_bat_sleep_dischrg E b =
     (let pwroff = s32 (pwroff_vol (pdata b))
      in do { (updated, b) \<leftarrow> sleep_calib E b;
              let (sleep_soc, b) = (if dsoc b \<le> rsoc b then sleep_below b else sleep_above b);
              Some (sleep_soc, sleep_reserve pwroff updated sleep_soc b) })"

text \<open>\<^verbatim>\<open>rk817_bat_resume_work\<close>: the measurements first.\<close>

definition resume_measure :: "'d kernel \<Rightarrow> 'd rk817_battery_device \<Rightarrow> 'd rk817_battery_device option" where
  "resume_measure E b =
     do { c \<leftarrow> rk817_bat_get_avg_current E b;
          let b = b\<lparr>current_avg := c\<rparr>;
          let b = b\<lparr>voltage_relax := rk817_bat_get_relax_voltage E b\<rparr>;
          v \<leftarrow> rk817_bat_get_battery_voltage E b;
          let b = b\<lparr>voltage_avg := v\<rparr>;
          cap \<leftarrow> rk817_bat_get_capacity_uah E b;
          let b = b\<lparr>remain_cap := cap\<rparr>;
          r \<leftarrow> rk817_bat_get_rsoc E b;
          Some (b\<lparr>rsoc := r\<rparr>) }"

definition rk817_bat_resume_work :: "'d kernel \<Rightarrow> 'd rk817_battery_device \<Rightarrow> 'd rk817_battery_device option" where
  "rk817_bat_resume_work E b =
     do { b \<leftarrow> resume_measure E (b\<lparr>s2r := True\<rparr>);
          let interval_sec = rk817_bat_rtc_sleep_sec E b;
          let b = b\<lparr>sleep_sum_sec := u64 (sleep_sum_sec b + interval_sec)\<rparr>;
          let pwroff = s32 (pwroff_vol (pdata b));
          let time_step = (if \<not> sleep_chrg_online b then if voltage_avg b \<le> s32 (pwroff + 50) then 600 else 3600 else 0);
          let b = (if \<not> sleep_chrg_online b then b\<lparr>sleep_dischrg_sec := u64 (sleep_dischrg_sec b + interval_sec)\<rparr> else b);
          b \<leftarrow> (if \<not> sleep_chrg_online b \<and> sleep_dischrg_sec b > time_step
               then do { (s, b) \<leftarrow> rk817_bat_sleep_dischrg E b;
                         Some (if s \<noteq> 0 then b\<lparr>sleep_dischrg_sec := 0\<rparr> else b) }
               else Some b);
          Some (rk817_bat_save_data E b) }"

end
