(* ===== verification/RK817_Gauge_Props.thy ===== *)
theory RK817_Gauge_Props
  imports RK817_Gauge
begin

text \<open>
  Properties of the measuring half of the fuel gauge: the open-circuit voltage table gives a
  monotone percentage, and the values the driver keeps in registers are read back as written.
\<close>

section \<open>Interpolation\<close>

lemma div_less_int: "0 < (g::int) \<Longrightarrow> a < g * k \<Longrightarrow> a div g < k"
proof -
  assume g: "0 < g" and a: "a < g * k"
  have "g * (a div g) \<le> a" using mult_div_mod_eq [of g a] pos_mod_sign [OF g, of a] by linarith
  then have "g * (a div g) < g * k" using a by linarith
  then show ?thesis using g by simp
qed

lemma mult_div_le_int: "0 < (g::int) \<Longrightarrow> g * (a div g) \<le> a"
  using mult_div_mod_eq [of g a] pos_mod_sign [of g a] by linarith

text \<open>
  A table as the device tree documents it: strictly increasing voltages, entries and voltage steps
  that fit the 16-bit intermediate value, and a length for which the last entry means full.
\<close>

definition ocv_table_ok :: "int list \<Rightarrow> bool" where
  "ocv_table_ok table \<longleftrightarrow>
     (let n = int (length table) in
       2 \<le> n \<and> n \<le> 255 \<and> sorted_wrt (<) table \<and> 0 \<le> hd table \<and> last table < 2147483648 \<and>
       (\<forall>i < length table - 1. (table ! Suc i - table ! i) * (1000 div (n - 1)) < 65536) \<and>
       1000 \<le> n * ((1000 + n div 2) div n))"

definition rank :: "int \<Rightarrow> int list \<Rightarrow> nat" where
  "rank v table = length (takeWhile (\<lambda>t. t \<le> v) table)"

lemma interpolate_scan_rank:
  assumes "length table \<le> 255" "j \<le> length table"
  shows "interpolate_scan v table (int (length table)) (int j) = Some (int (j + length (takeWhile (\<lambda>t. t \<le> u32 v) (drop j table))))"
  using assms
proof (induction "length table - j" arbitrary: j)
  case 0
  then show ?case by (subst interpolate_scan.simps) simp
next
  case (Suc d)
  then have j: "j < length table" by simp
  have eq: "u8 (int j + 1) = int (Suc j)" using j Suc.prems by simp
  have "interpolate_scan v table (int (length table)) (int (Suc j))
      = Some (int (Suc j + length (takeWhile (\<lambda>t. t \<le> u32 v) (drop (Suc j) table))))"
    using Suc.hyps(2) Suc.prems by (intro Suc.hyps(1)) auto
  then show ?case using j Suc.prems
    by (subst interpolate_scan.simps) (auto simp: eq [simplified] Cons_nth_drop_Suc [symmetric])
qed

lemma rank_le: "rank v table \<le> length table"
  by (simp add: rank_def length_takeWhile_le)

lemma rank_mono: "v \<le> v' \<Longrightarrow> rank v table \<le> rank v' table"
  unfolding rank_def by (induction table) auto

lemma rank_bounds:
  assumes "0 < rank v table" "rank v table < length table"
  shows "table ! (rank v table - 1) \<le> v" "v < table ! rank v table"
proof -
  have "takeWhile (\<lambda>t. t \<le> v) table ! (rank v table - 1) \<in> set (takeWhile (\<lambda>t. t \<le> v) table)"
    using assms by (intro nth_mem) (simp add: rank_def)
  then show "table ! (rank v table - 1) \<le> v"
    using assms by (metis (no_types, lifting) diff_less less_numeral_extra(1) rank_def set_takeWhileD takeWhile_nth)
  show "v < table ! rank v table"
    using nth_length_takeWhile [of "\<lambda>t. t \<le> v" table] assms by (simp add: rank_def)
qed

lemma sorted_last_max: "sorted_wrt (<) (xs :: int list) \<Longrightarrow> \<forall>x \<in> set xs. x \<le> last xs"
  by (induction xs rule: rev_induct) (auto simp: sorted_wrt_append)

text \<open>The value of the table between two entries, without the truncations.\<close>

definition piece :: "int list \<Rightarrow> int \<Rightarrow> nat \<Rightarrow> int" where
  "piece table v i =
     (let k = 1000 div (int (length table) - 1); lo = table ! (i - 1); hi = table ! i
      in if i = 0 then 0 else if i < length table then (v - lo) * k div (hi - lo) + (int i - 1) * k else 1000)"

lemma piece_range:
  assumes ok: "ocv_table_ok table" and i: "0 < i" "i < length table" and v: "table ! (i - 1) \<le> v" "v < table ! i"
  shows "(int i - 1) * (1000 div (int (length table) - 1)) \<le> piece table v i"
    and "piece table v i < int i * (1000 div (int (length table) - 1))"
    and "int i * (1000 div (int (length table) - 1)) \<le> 1000"
proof -
  let ?k = "1000 div (int (length table) - 1)"
  define g where "g = table ! i - table ! (i - 1)"
  define x where "x = v - table ! (i - 1)"
  have n: "2 \<le> int (length table)" "int (length table) \<le> 255" using ok by (auto simp: ocv_table_ok_def Let_def)
  have k: "0 < ?k" using n by (simp add: pos_imp_zdiv_pos_iff)
  have x: "0 \<le> x" "x < g" using v by (auto simp: x_def g_def)
  have "x * ?k < g * ?k" using x k by simp
  then have "x * ?k div g < ?k" using x by (intro div_less_int) auto
  moreover have "0 \<le> x * ?k div g" using x k by (simp add: pos_imp_zdiv_nonneg_iff)
  moreover have p: "piece table v i = x * ?k div g + (int i - 1) * ?k"
    using i by (simp add: piece_def Let_def x_def g_def)
  ultimately show "(int i - 1) * ?k \<le> piece table v i" "piece table v i < int i * ?k"
    by (simp_all add: algebra_simps)
  have "int i * ?k \<le> (int (length table) - 1) * ?k" using i k by (intro mult_right_mono) auto
  also have "\<dots> \<le> 1000" using n by (simp add: mult_div_le_int)
  finally show "int i * ?k \<le> 1000" .
qed

lemma ocv_entries:
  assumes "ocv_table_ok table" "i < length table"
  shows "0 \<le> table ! i" "table ! i < 2147483648"
proof -
  have s: "sorted_wrt (<) table" and ne: "table \<noteq> []" and b: "0 \<le> hd table" "last table < 2147483648"
    using assms by (auto simp: ocv_table_ok_def Let_def)
  have le: "table ! a \<le> table ! c" if "a \<le> c" "c < length table" for a c
    using that sorted_wrt_nth_less [OF s, of a c] by (cases "a = c") auto
  show "0 \<le> table ! i" using le [of 0 i] assms b ne by (simp add: hd_conv_nth)
  show "table ! i < 2147483648" using le [of i "length table - 1"] assms b ne by (simp add: last_conv_nth Suc_leI le_diff_conv2)
qed

lemma interpolate_piece:
  assumes ok: "ocv_table_ok table" and v: "0 \<le> v" "v < 2147483648"
  shows "interpolate v table (int (length table)) = Some (piece table v (rank v table))"
proof -
  let ?n = "int (length table)" and ?i = "rank v table"
  let ?k = "1000 div (?n - 1)"
  have n: "2 \<le> ?n" "?n \<le> 255" and full: "1000 \<le> ?n * ((1000 + ?n div 2) div ?n)"
    and gap: "\<And>i. i < length table - 1 \<Longrightarrow> (table ! Suc i - table ! i) * ?k < 65536"
    using ok by (auto simp: ocv_table_ok_def Let_def)
  have scan: "interpolate_scan v table ?n 0 = Some (int ?i)"
    using interpolate_scan_rank [of table 0 v] n v by (simp add: rank_def)
  consider "?i = 0" | "0 < ?i" "?i < length table" | "?i = length table" using rank_le [of v table] by linarith
  then show ?thesis
  proof cases
    case 1
    then show ?thesis using n by (auto simp: interpolate_def scan piece_def divz_def)
  next
    case 2
    note b0 = rank_bounds [OF 2]
    define lo hi where lo_def: "lo = table ! (?i - 1)" and hi_def: "hi = table ! ?i"
    note b = b0 [folded lo_def hi_def]
    have e: "0 \<le> lo" "lo < 2147483648" "0 \<le> hi" "hi < 2147483648"
      using ocv_entries [OF ok, of ?i] ocv_entries [OF ok, of "?i - 1"] 2 by (auto simp: lo_def hi_def)
    have k: "0 < ?k" using n by (simp add: pos_imp_zdiv_pos_iff)
    have rds: "rd table (int ?i - 1) = Some lo" "rd table (int ?i) = Some hi"
      using 2 by (simp_all add: rd_def nat_diff_distrib lo_def hi_def)
    have dk: "divz 1000 (?n - 1) = Some ?k" using n by (simp add: divz_def)
    have d: "(v - lo) * ?k \<le> (hi - lo) * ?k" using b k by (intro mult_right_mono) auto
    have small: "(hi - lo) * ?k < 65536" using gap [of "?i - 1"] 2 by (simp add: lo_def hi_def)
    have d0: "0 \<le> (v - lo) * ?k" using b k by simp
    have t1: "u16 (u32 (u32 (v - lo) * ?k)) = (v - lo) * ?k" using d d0 small b e by simp
    have t2: "u32 (hi - lo) = hi - lo" "hi - lo \<noteq> 0" using b e by simp_all
    note r = piece_range [OF ok 2 b0]
    have p: "piece table v ?i = (v - lo) * ?k div (hi - lo) + (int ?i - 1) * ?k"
      using 2 by (simp add: piece_def Let_def lo_def hi_def)
    have q: "0 \<le> (v - lo) * ?k div (hi - lo)" using d0 b by (simp add: pos_imp_zdiv_nonneg_iff)
    have i0: "0 \<le> (int ?i - 1) * ?k" using 2 k by simp
    have t3: "u16 (u16 ((v - lo) * ?k div (hi - lo)) + (int ?i - 1) * ?k) = piece table v ?i"
      unfolding p using r(2,3) p q i0 by simp
    show ?thesis using 2 r(2,3) t2 by (simp add: interpolate_def scan rds dk t1 t2 t3)
  next
    case 3
    have n0: "0 < ?n" using n by linarith
    have c: "?n * ((1000 + ?n div 2) div ?n) \<le> 1000 + ?n div 2" by (rule mult_div_le_int [OF n0])
    have "u16 (?n * ((1000 + ?n div 2) div ?n)) = ?n * ((1000 + ?n div 2) div ?n)" using c full n by (intro u_id) linarith+
    then show ?thesis using 3 n0 full by (simp add: interpolate_def scan piece_def divz_def)
  qed
qed

lemma piece_rank_range:
  assumes ok: "ocv_table_ok table"
  shows "0 \<le> piece table v (rank v table)" "piece table v (rank v table) \<le> 1000"
proof -
  consider "rank v table = 0" | "0 < rank v table" "rank v table < length table" | "rank v table = length table" "0 < rank v table"
    using rank_le [of v table] by linarith
  then have "0 \<le> piece table v (rank v table) \<and> piece table v (rank v table) \<le> 1000"
  proof cases
    case 2
    have "0 \<le> (int (rank v table) - 1) * (1000 div (int (length table) - 1))" using 2 by (simp add: pos_imp_zdiv_nonneg_iff)
    then show ?thesis using piece_range [OF ok 2 rank_bounds [OF 2]] by linarith
  qed (simp_all add: piece_def)
  then show "0 \<le> piece table v (rank v table)" "piece table v (rank v table) \<le> 1000" by auto
qed

lemma piece_rank_mono:
  assumes ok: "ocv_table_ok table" and le: "v \<le> v'"
  shows "piece table v (rank v table) \<le> piece table v' (rank v' table)"
proof -
  let ?i = "rank v table" and ?j = "rank v' table" and ?k = "1000 div (int (length table) - 1)"
  have ij: "?i \<le> ?j" by (rule rank_mono [OF le])
  have n: "2 \<le> int (length table)" using ok by (simp add: ocv_table_ok_def Let_def)
  have k: "0 \<le> ?k" using n by (simp add: pos_imp_zdiv_nonneg_iff)
  consider "?i = 0" | "?j = length table" "0 < ?j" | "0 < ?i" "?j < length table"
    using ij rank_le [of v' table] n by linarith
  then show ?thesis
  proof cases
    case 1
    then show ?thesis using piece_rank_range(1) [OF ok, of v'] by (simp add: piece_def)
  next
    case 2
    then show ?thesis using piece_rank_range(2) [OF ok, of v] by (simp add: piece_def Let_def)
  next
    case 3
    have i: "0 < ?i" "?i < length table" and j: "0 < ?j" "?j < length table" using 3 ij by auto
    show ?thesis
    proof (cases "?i = ?j")
      case True
      have "(v - table ! (?j - 1)) * ?k \<le> (v' - table ! (?j - 1)) * ?k" using le k by (intro mult_right_mono) auto
      then have "(v - table ! (?j - 1)) * ?k div (table ! ?j - table ! (?j - 1)) \<le> (v' - table ! (?j - 1)) * ?k div (table ! ?j - table ! (?j - 1))"
        using rank_bounds [OF j] by (intro zdiv_mono1) auto
      then show ?thesis using j by (simp add: True piece_def Let_def)
    next
      case False
      have "int ?i * ?k \<le> (int ?j - 1) * ?k" using False ij k by (intro mult_right_mono) auto
      then show ?thesis
        using piece_range(2) [OF ok i rank_bounds [OF i]] piece_range(1) [OF ok j rank_bounds [OF j]] by linarith
    qed
  qed
qed

lemma ab_div_c_1000:
  assumes "0 \<le> a" "a \<le> 1000" "0 \<le> b" "b < 32767"
  shows "ab_div_c a b 1000 = (a * b + 500) div 1000"
proof -
  have "a * b \<le> 1000 * b" using assms by (intro mult_right_mono) auto
  then have ab: "0 \<le> a * b" "a * b < 32767000" using assms by auto
  have nb: "\<not> bit (a XOR b XOR 1000) 31"
  proof -
    have "\<not> bit a 31" "\<not> bit b 31" using assms by (simp_all add: bit_iff_odd div_pos_pos_trivial)
    moreover have "\<not> bit (1000::int) 31" by (simp add: bit_iff_odd)
    ultimately show ?thesis by (simp add: bit_xor_iff)
  qed
  have q: "(a * b + 500) div 1000 < 32767" "0 \<le> (a * b + 500) div 1000"
    using ab assms \<open>a * b \<le> 1000 * b\<close> by (simp_all add: div_less_int pos_imp_zdiv_nonneg_iff)
  have d: "drop_bit 1 (1000::int) = 500" by (simp add: drop_bit_eq_div)
  have "s32 ((a * b + 500) div 1000) = (a * b + 500) div 1000" using q by (simp add: is_s32_def)
  then show ?thesis using ab q nb unfolding ab_div_c_def Let_def d by simp
qed

text \<open>A negative voltage is compared as a large unsigned number, so that a result is returned for it as well.\<close>

lemma interpolate_total:
  assumes ok: "ocv_table_ok table" and v: "is_s32 v"
  shows "\<exists>d. interpolate v table (int (length table)) = Some d"
proof (cases "0 \<le> v")
  case True
  then show ?thesis using interpolate_piece [OF ok] v by (simp add: is_s32_def)
next
  case False
  have n: "2 \<le> length table" "length table \<le> 255" using ok by (simp_all add: ocv_table_ok_def Let_def)
  have "u32 v = v + 4294967296" using False v mod_add_self2 [of v 4294967296] mod_pos_pos_trivial [of "v + 4294967296" 4294967296]
    by (simp add: u32_def is_s32_def)
  then have "x \<le> u32 v" if "x \<in> set table" for x
    using ocv_entries(2) [OF ok] that v by (force simp: in_set_conv_nth is_s32_def)
  then have "takeWhile (\<lambda>t. t \<le> u32 v) table = table" by (simp add: takeWhile_eq_all_conv)
  then have "interpolate_scan v table (int (length table)) 0 = Some (int (length table))"
    using interpolate_scan_rank [OF n(2) le0, of v] by (simp only: drop_0 add_0 int_ops)
  then show ?thesis using n by (auto simp: interpolate_def divz_def)
qed

section \<open>Bytes in registers\<close>

lemma byte_mask: "(x::int) AND 255 = take_bit 8 x"
  by (simp add: take_bit_eq_mask mask_eq_exp_minus_1)

lemma byte_range: "0 \<le> (x::int) AND 255" "(x::int) AND 255 < 256"
  using take_bit_nonnegative [of 8 x] take_bit_int_less_exp [of 8 x] by (simp_all add: byte_mask)

lemma byte_shift:
  assumes "0 \<le> c" "c < 256"
  shows "s32 (push_bit 8 c) = push_bit 8 c" "s32 (push_bit 16 c) = push_bit 16 c"
    "u32 (push_bit 8 c) = push_bit 8 c" "u32 (push_bit 16 c) = push_bit 16 c" "u32 (push_bit 24 c) = push_bit 24 c" "u32 c = c"
  using assms by (simp_all add: push_bit_eq_mult is_s32_def)

lemma bytes_24:
  fixes x :: int
  shows "(x AND 255) OR push_bit 8 (drop_bit 8 x AND 255) OR push_bit 16 (drop_bit 16 x AND 255) = take_bit 24 x"
proof (rule bit_eqI)
  fix n
  show "bit ((x AND 255) OR push_bit 8 (drop_bit 8 x AND 255) OR push_bit 16 (drop_bit 16 x AND 255)) n = bit (take_bit 24 x) n"
    by (cases "n < 16"; cases "n < 24"; auto simp: byte_mask bit_simps)
qed

lemma bytes_32:
  fixes x :: int
  shows "push_bit 24 (drop_bit 24 x AND 255) OR push_bit 16 (drop_bit 16 x AND 255) OR push_bit 8 (drop_bit 8 x AND 255) OR (x AND 255) = take_bit 32 x"
proof (rule bit_eqI)
  fix n
  show "bit (push_bit 24 (drop_bit 24 x AND 255) OR push_bit 16 (drop_bit 16 x AND 255) OR push_bit 8 (drop_bit 8 x AND 255) OR (x AND 255)) n = bit (take_bit 32 x) n"
    by (cases "n < 16"; cases "n < 24"; cases "n < 32"; auto simp: byte_mask bit_simps)
qed

text \<open>The bytes of a value below \<open>2 ^ 24\<close>, named so that a proof need not look into them.\<close>

lemma three_bytes:
  fixes x :: int
  assumes "0 \<le> x" "x < 16777216"
  obtains b0 b1 b2 where "x AND 255 = b0" "drop_bit 8 x AND 255 = b1" "drop_bit 16 x AND 255 = b2"
    "0 \<le> b0" "b0 < 256" "0 \<le> b1" "b1 < 256" "0 \<le> b2" "b2 < 256"
    "b0 OR push_bit 8 b1 OR push_bit 16 b2 = x" "push_bit 16 b2 OR push_bit 8 b1 OR b0 = x"
proof
  show "(x AND 255) OR push_bit 8 (drop_bit 8 x AND 255) OR push_bit 16 (drop_bit 16 x AND 255) = x"
    unfolding bytes_24 using assms by (simp add: take_bit_int_eq_self)
  then show "push_bit 16 (drop_bit 16 x AND 255) OR push_bit 8 (drop_bit 8 x AND 255) OR (x AND 255) = x"
    by (simp only: or.assoc or.commute or.left_commute)
qed (rule refl byte_range)+

abbreviation regmap_ok :: "'d kernel \<Rightarrow> bool" where
  "regmap_ok E \<equiv> register_fields (regmap_field_read E) (regmap_field_write E)"

lemma field_read_write:
  assumes "regmap_ok E" "stored_field f"
  shows "0 \<le> v \<Longrightarrow> v < 256 \<Longrightarrow> rk817_bat_field_read E (rk817_bat_field_write E f v b) f = v"
    and "g < F_MAX_FIELDS \<Longrightarrow> g \<noteq> f \<Longrightarrow> rk817_bat_field_read E (rk817_bat_field_write E g w b) f = rk817_bat_field_read E b f"
  using register_fields.read_back [OF assms] register_fields.read_other [OF assms]
  by (simp_all add: rk817_bat_field_read_def rk817_bat_field_write_def)

lemma field_read_regs: "regs b = regs b' \<Longrightarrow> rk817_bat_field_read E b f = rk817_bat_field_read E b' f"
  by (simp add: rk817_bat_field_read_def)

lemma field_write_fields [simp]:
  "static_last_soc (rk817_bat_field_write E f v b) = static_last_soc b"
  "static_old_cap (rk817_bat_field_write E f v b) = static_old_cap b"
  "pdata (rk817_bat_field_write E f v b) = pdata b" "qmax (rk817_bat_field_write E f v b) = qmax b"
  "res_div (rk817_bat_field_write E f v b) = res_div b"
  by (simp_all add: rk817_bat_field_write_def)

text \<open>The saved display charge: the registers hold the last value given to \<^verbatim>\<open>save_dsoc\<close>.\<close>

definition soc_saved :: "'d kernel \<Rightarrow> 'd rk817_battery_device \<Rightarrow> bool" where
  "soc_saved E b \<longleftrightarrow> static_last_soc b = - 1 \<or> rk817_bat_get_prev_dsoc E b = static_last_soc b"

lemma save_dsoc_reads_back:
  assumes E: "regmap_ok E" and b: "soc_saved E b" and x: "0 \<le> x" "x < 16777216"
  shows "rk817_bat_get_prev_dsoc E (rk817_bat_save_dsoc E x b) = x" "soc_saved E (rk817_bat_save_dsoc E x b)"
proof -
  have st: "stored_field SOC_REG0" "stored_field SOC_REG1" "stored_field SOC_REG2" by (simp_all add: stored_field_def)
  have upd: "rk817_bat_field_read E (c\<lparr>static_last_soc := y\<rparr>) f = rk817_bat_field_read E c f" for c y f
    by (rule field_read_regs) simp
  show 1: "rk817_bat_get_prev_dsoc E (rk817_bat_save_dsoc E x b) = x"
  proof (cases "static_last_soc b = x")
    case True
    then show ?thesis using b x by (auto simp: soc_saved_def rk817_bat_save_dsoc_def)
  next
    case False
    obtain b0 b1 b2 where bs: "x AND 255 = b0" "drop_bit 8 x AND 255 = b1" "drop_bit 16 x AND 255 = b2"
        "0 \<le> b0" "b0 < 256" "0 \<le> b1" "b1 < 256" "0 \<le> b2" "b2 < 256" "b0 OR push_bit 8 b1 OR push_bit 16 b2 = x"
      using three_bytes [OF x] by metis
    show ?thesis using False unfolding rk817_bat_get_prev_dsoc_def rk817_bat_save_dsoc_def bs(1-3)
      by (simp add: upd byte_shift bs(4-)
          field_read_write [OF E st(1)] field_read_write [OF E st(2)] field_read_write [OF E st(3)])
  qed
  show "soc_saved E (rk817_bat_save_dsoc E x b)"
    using 1 x by (auto simp: soc_saved_def rk817_bat_save_dsoc_def)
qed

lemma save_dsoc_frame [simp]:
  "dsoc (rk817_bat_save_dsoc E x b) = dsoc b" "pdata (rk817_bat_save_dsoc E x b) = pdata b"
  by (simp_all add: rk817_bat_save_dsoc_def rk817_bat_field_write_def)

lemma saves_dsoc_read_back:
  assumes "regmap_ok E" "soc_saved E b" "xs \<noteq> []" "\<forall>x \<in> set xs. 0 \<le> x \<and> x < 16777216"
  shows "rk817_bat_get_prev_dsoc E (fold (rk817_bat_save_dsoc E) xs b) = last xs"
  using assms
proof (induction xs arbitrary: b)
  case (Cons x xs)
  then have "rk817_bat_get_prev_dsoc E (rk817_bat_save_dsoc E x b) = x" "soc_saved E (rk817_bat_save_dsoc E x b)"
    using save_dsoc_reads_back [OF Cons.prems(1,2), of x] by simp_all
  then show ?case using Cons by (cases "xs = []") auto
qed simp

lemma write_triple_reads_back:
  assumes E: "regmap_ok E" and st: "stored_field r0" "stored_field r1" "stored_field r2"
    and ne: "r0 \<noteq> r1" "r0 \<noteq> r2" "r1 \<noteq> r2" and x: "0 \<le> x" "x < 16777216"
  shows "\<exists>b0 b1 b2. rk817_bat_field_read E (write_triple E r2 r1 r0 x b) r0 = b0 \<and>
     rk817_bat_field_read E (write_triple E r2 r1 r0 x b) r1 = b1 \<and>
     rk817_bat_field_read E (write_triple E r2 r1 r0 x b) r2 = b2 \<and>
     0 \<le> b0 \<and> b0 < 256 \<and> 0 \<le> b1 \<and> b1 < 256 \<and> 0 \<le> b2 \<and> b2 < 256 \<and> push_bit 16 b2 OR push_bit 8 b1 OR b0 = x"
proof -
  obtain b0 b1 b2 where bs: "x AND 255 = b0" "drop_bit 8 x AND 255 = b1" "drop_bit 16 x AND 255 = b2"
      "0 \<le> b0" "b0 < 256" "0 \<le> b1" "b1 < 256" "0 \<le> b2" "b2 < 256" "push_bit 16 b2 OR push_bit 8 b1 OR b0 = x"
    using three_bytes [OF x] by metis
  have lt: "r0 < F_MAX_FIELDS" "r1 < F_MAX_FIELDS" "r2 < F_MAX_FIELDS" using stored_8_bits [OF st(1)] stored_8_bits [OF st(2)] stored_8_bits [OF st(3)] by simp_all
  note w0 = field_read_write [OF E st(1)] and w1 = field_read_write [OF E st(2)] and w2 = field_read_write [OF E st(3)]
  have "rk817_bat_field_read E (write_triple E r2 r1 r0 x b) r0 = b0"
    unfolding write_triple_def bs(1-3) by (rule w0(1) [OF bs(4,5)])
  moreover have "rk817_bat_field_read E (write_triple E r2 r1 r0 x b) r1 = b1"
    unfolding write_triple_def bs(1-3) w1(2) [OF lt(1) ne(1)] by (rule w1(1) [OF bs(6,7)])
  moreover have "rk817_bat_field_read E (write_triple E r2 r1 r0 x b) r2 = b2"
    unfolding write_triple_def bs(1-3) w2(2) [OF lt(1) ne(2)] w2(2) [OF lt(2) ne(3)] by (rule w2(1) [OF bs(8,9)])
  ultimately show ?thesis using bs(4-) by blast
qed

text \<open>What \<^verbatim>\<open>get_fcc\<close> makes of the capacity it finds in the registers.\<close>

definition valid_fcc :: "battery_platform_data \<Rightarrow> int \<Rightarrow> int" where
  "valid_fcc p c = (if c < MIN_FCC then design_capacity p else if c > design_qmax p then design_qmax p else c)"

lemma get_fcc_save_fcc:
  assumes E: "regmap_ok E" and c: "0 \<le> c" "c < 16777216"
    and p: "0 \<le> design_capacity (pdata b)" "design_capacity (pdata b) < 2147483648" "design_qmax (pdata b) < 2147483648" "0 \<le> design_qmax (pdata b)"
  shows "rk817_bat_get_fcc E (rk817_bat_save_fcc E c b) =
     (valid_fcc (pdata b) c,
      if valid_fcc (pdata b) c = c \<and> c \<ge> MIN_FCC then rk817_bat_save_fcc E c b
      else rk817_bat_save_fcc E (valid_fcc (pdata b) c) (rk817_bat_save_fcc E c b))"
proof -
  have st: "stored_field NEW_FCC_REG0" "stored_field NEW_FCC_REG1" "stored_field NEW_FCC_REG2" by (simp_all add: stored_field_def)
  obtain b0 b1 b2 where r: "rk817_bat_field_read E (rk817_bat_save_fcc E c b) NEW_FCC_REG0 = b0"
      "rk817_bat_field_read E (rk817_bat_save_fcc E c b) NEW_FCC_REG1 = b1"
      "rk817_bat_field_read E (rk817_bat_save_fcc E c b) NEW_FCC_REG2 = b2"
      "0 \<le> b0" "b0 < 256" "0 \<le> b1" "b1 < 256" "0 \<le> b2" "b2 < 256" "push_bit 16 b2 OR push_bit 8 b1 OR b0 = c"
    using write_triple_reads_back [OF E st _ _ _ c, of b] unfolding rk817_bat_save_fcc_def by auto
  have pd: "pdata (rk817_bat_save_fcc E c b) = pdata b" by (simp add: rk817_bat_save_fcc_def write_triple_def)
  have s: "s32 y = y" if "0 \<le> y" "y < 2147483648" for y using that by (simp add: is_s32_def)
  show ?thesis unfolding rk817_bat_get_fcc_def r(1-3)
    using p c r(4-) by (simp add: Let_def byte_shift valid_fcc_def pd s)
qed

section \<open>Properties\<close>

text \<open>
  C23. The open-circuit voltage gives a state of charge: with a table as documented, for every
  voltage \<^verbatim>\<open>rk817_bat_vol_to_soc\<close> returns a percentage between 0 and 100, which never falls when the
  voltage rises, is 0 below the first and 100 from the last entry on, and \<^verbatim>\<open>rk817_bat_vol_to_cap\<close>
  returns a capacity between 0 and the full charge capacity that is monotone as well.\<close>

theorem ocv_soc_monotone:
  assumes ok: "ocv_table_ok (ocv_table (pdata b))" "ocv_size (pdata b) = int (length (ocv_table (pdata b)))"
    and f: "0 \<le> fcc b" "fcc b < 32767" and v: "0 \<le> v" "v \<le> v'" "v' < 2147483648"
  shows "\<exists>s s' c c'. rk817_bat_vol_to_soc b v = Some s \<and> rk817_bat_vol_to_soc b v' = Some s' \<and>
      rk817_bat_vol_to_cap b v = Some c \<and> rk817_bat_vol_to_cap b v' = Some c' \<and>
      0 \<le> s \<and> s \<le> s' \<and> s' \<le> 100 \<and> 0 \<le> c \<and> c \<le> c' \<and> c' \<le> fcc b \<and>
      (v < hd (ocv_table (pdata b)) \<longrightarrow> s = 0 \<and> c = 0) \<and> (last (ocv_table (pdata b)) \<le> v' \<longrightarrow> s' = 100 \<and> c' = fcc b)"
proof -
  let ?t = "ocv_table (pdata b)"
  define p q where "p = piece ?t v (rank v ?t)" and "q = piece ?t v' (rank v' ?t)"
  have pq: "0 \<le> p" "p \<le> q" "q \<le> 1000"
    using piece_rank_range [OF ok(1)] piece_rank_mono [OF ok(1) v(2)] by (simp_all add: p_def q_def)
  have i: "interpolate v ?t (ocv_size (pdata b)) = Some p" "interpolate v' ?t (ocv_size (pdata b)) = Some q"
    using interpolate_piece [OF ok(1)] v ok(2) by (simp_all add: p_def q_def)
  have mono: "(p * x + 500) div 1000 \<le> (q * x + 500) div 1000 \<and> (q * x + 500) div 1000 \<le> x \<and> 0 \<le> (p * x + 500) div 1000"
    if "0 \<le> x" for x
  proof -
    have "p * x \<le> q * x" "q * x \<le> 1000 * x" "0 \<le> p * x" using pq that by (simp_all add: mult_right_mono)
    then show ?thesis by (auto simp: zdiv_mono1)
  qed
  have ne: "?t \<noteq> []" using ok by (auto simp: ocv_table_ok_def Let_def)
  have lowv: "p = 0" if "v < hd ?t" using that ne by (cases ?t) (simp_all add: p_def rank_def piece_def)
  have high: "q = 1000" if "last ?t \<le> v'"
  proof -
    have s: "sorted_wrt (<) ?t" using ok by (simp add: ocv_table_ok_def Let_def)
    have "\<forall>x \<in> set ?t. x \<le> last ?t" using s by (rule sorted_last_max)
    then have "takeWhile (\<lambda>t. t \<le> v') ?t = ?t" using that by (auto simp: takeWhile_eq_all_conv)
    then have "rank v' ?t = length ?t" by (simp only: rank_def)
    then show ?thesis using ne by (simp add: q_def piece_def)
  qed
  show ?thesis using mono [of 100] mono [of "fcc b"] pq f lowv high
    by (simp add: rk817_bat_vol_to_soc_def rk817_bat_vol_to_cap_def i ab_div_c_1000)
qed

definition sample_pdata :: battery_platform_data where
  "sample_pdata = zeroed_pdata\<lparr>ocv_table :=
     [3400, 3513, 3578, 3687, 3734, 3752, 3763, 3766, 3771, 3784, 3804, 3836, 3885, 3925, 3962, 4005, 4063, 4114, 4169, 4227, 4303],
     ocv_size := 21, design_capacity := 4000, design_qmax := 4200, pwroff_vol := 3400, zero_algorithm_vol := 3850,
     zero_reserve_dsoc := 10000, pd_bat_res := 100, sample_res := 20\<rparr>"

lemma sample_table_ok: "ocv_table_ok (ocv_table sample_pdata)"
proof -
  have "\<forall>i \<in> {..<20}. (ocv_table sample_pdata ! Suc i - ocv_table sample_pdata ! i) * (1000 div 20) < 65536"
    by (simp add: sample_pdata_def lessThan_nat_numeral lessThan_Suc numeral_eq_Suc)
  then show ?thesis by (simp add: ocv_table_ok_def Let_def sample_pdata_def)
qed

definition sample_battery :: "reg_file rk817_battery_device" where
  "sample_battery = (zeroed_battery (\<lambda>_. 0) sample_pdata)\<lparr>fcc := 4000, qmax := 4200, res_div := 2, bat_res := 100\<rparr>"

lemma sample_fields [simp]:
  "pdata sample_battery = sample_pdata" "fcc sample_battery = 4000" "static_last_soc sample_battery = - 1"
  by (simp_all add: sample_battery_def zeroed_battery_def)

theorem ocv_soc_monotone_witness:
  "\<exists>s s'. rk817_bat_vol_to_soc sample_battery 3500 = Some s \<and> rk817_bat_vol_to_soc sample_battery 4400 = Some s' \<and> s \<le> s' \<and> s' = 100"
proof -
  have "ocv_size sample_pdata = int (length (ocv_table sample_pdata))" "last (ocv_table sample_pdata) \<le> 4400"
    by (simp_all add: sample_pdata_def)
  then show ?thesis using ocv_soc_monotone [of sample_battery 3500 4400] sample_table_ok by auto
qed

text \<open>
  C24. The display charge survives a reboot: whatever sequence of values the driver saves, reading
  the registers back gives the last one, although \<^verbatim>\<open>save_dsoc\<close> skips the write when its static
  variable says the value is already there.\<close>

theorem saved_dsoc_survives:
  assumes "register_fields (regmap_field_read E) (regmap_field_write E)" "static_last_soc b = - 1"
    and "xs \<noteq> []" "\<forall>x \<in> set xs. 0 \<le> x \<and> x < 16777216"
  shows "rk817_bat_get_prev_dsoc E (fold (rk817_bat_save_dsoc E) xs b) = last xs"
  using assms by (intro saves_dsoc_read_back) (simp_all add: soc_saved_def)

theorem saved_dsoc_survives_witness:
  "rk817_bat_get_prev_dsoc (byte_kernel 0) (fold (rk817_bat_save_dsoc (byte_kernel 0)) [70500, 70500, 69000] sample_battery) = 69000"
  using saved_dsoc_survives [OF byte_kernel_ok, of sample_battery "[70500, 70500, 69000]" 0] by simp

text \<open>
  C25. The learned full charge capacity round trips through its registers with the checks of
  \<^verbatim>\<open>rk817_bat_get_fcc\<close>: a plausible capacity is returned as saved, one below \<^verbatim>\<open>MIN_FCC\<close> is replaced by the
  design capacity, one above the design maximum by that maximum, and the replacement is saved, so
  that reading a second time gives the same value.\<close>

theorem fcc_roundtrip:
  assumes "register_fields (regmap_field_read E) (regmap_field_write E)" "0 \<le> c" "c < 16777216"
    and "500 \<le> design_capacity (pdata b)" "design_capacity (pdata b) \<le> design_qmax (pdata b)" "design_qmax (pdata b) < 16777216"
  shows "fst (rk817_bat_get_fcc E (rk817_bat_save_fcc E c b))
           = (if c < 500 then design_capacity (pdata b) else min c (design_qmax (pdata b))) \<and>
         (case rk817_bat_get_fcc E (rk817_bat_save_fcc E c b) of (v, b') \<Rightarrow> rk817_bat_get_fcc E b' = (v, b'))"
proof -
  let ?v = "valid_fcc (pdata b) c"
  have v: "0 \<le> ?v" "?v < 16777216" "?v \<ge> 500" "valid_fcc (pdata b) ?v = ?v" using assms by (auto simp: valid_fcc_def)
  have pd: "pdata (rk817_bat_save_fcc E c b) = pdata b" by (simp add: rk817_bat_save_fcc_def write_triple_def)
  have 1: "rk817_bat_get_fcc E (rk817_bat_save_fcc E c b) =
     (?v, if ?v = c \<and> c \<ge> 500 then rk817_bat_save_fcc E c b else rk817_bat_save_fcc E ?v (rk817_bat_save_fcc E c b))"
    using get_fcc_save_fcc [OF assms(1-3), of b] assms by simp
  have 2: "rk817_bat_get_fcc E (rk817_bat_save_fcc E ?v b') = (?v, rk817_bat_save_fcc E ?v b')" if "pdata b' = pdata b" for b'
    using get_fcc_save_fcc [OF assms(1) v(1,2), of b'] assms v that by simp
  show ?thesis using 1 2 [of b] 2 [OF pd] v by (auto simp: valid_fcc_def)
qed

theorem fcc_roundtrip_witness:
  "fst (rk817_bat_get_fcc (byte_kernel 0) (rk817_bat_save_fcc (byte_kernel 0) 3900 sample_battery)) = 3900 \<and>
   fst (rk817_bat_get_fcc (byte_kernel 0) (rk817_bat_save_fcc (byte_kernel 0) 20 sample_battery)) = 4000"
  using fcc_roundtrip [OF byte_kernel_ok, of 3900 sample_battery 0] fcc_roundtrip [OF byte_kernel_ok, of 20 sample_battery 0]
  by (simp add: sample_pdata_def)

end
