(* ===== verification/RK817_Frame.thy ===== *)
theory RK817_Frame
  imports RK817_Sleep RK817_Gauge_Props
begin

text \<open>
  What the operations of the fuel gauge driver leave alone: the platform data, the full charge
  capacity, the chip and its scaling, the mode, the registers with the saved display charge, and the
  reading of the current.
\<close>

definition soc_of :: "'d kernel \<Rightarrow> 'd \<Rightarrow> int" where
  "soc_of E d =
     (let rd = (\<lambda>f. let (ret, val) = regmap_field_read E d f in if ret < 0 then ret else val)
      in rd SOC_REG0 OR s32 (push_bit 8 (rd SOC_REG1)) OR s32 (push_bit 16 (rd SOC_REG2)))"

lemma prev_dsoc_soc_of: "rk817_bat_get_prev_dsoc E b = soc_of E (regs b)"
  by (simp add: rk817_bat_get_prev_dsoc_def rk817_bat_field_read_def soc_of_def Let_def)

definition current_of :: "'d kernel \<Rightarrow> 'd \<Rightarrow> (int \<times> int) \<times> int \<times> int" where
  "current_of E d = (regmap_field_read E d BAT_CUR_H, regmap_field_read E d BAT_CUR_L)"

abbreviation measured :: "'d kernel \<Rightarrow> bool" where
  "measured E \<equiv> measured_current (regmap_field_read E) (regmap_field_write E)"

definition frame :: "'d kernel \<Rightarrow> 'd rk817_battery_device \<Rightarrow> 'd rk817_battery_device \<Rightarrow> bool" where
  "frame E b b' \<longleftrightarrow> pdata b' = pdata b \<and> fcc b' = fcc b \<and> chip_id b' = chip_id b \<and> res_div b' = res_div b \<and>
     work_mode b' = work_mode b \<and> sleep_dischrg_sec b' = sleep_dischrg_sec b \<and>
     static_last_soc b' = static_last_soc b \<and> soc_of E (regs b') = soc_of E (regs b) \<and>
     (measured E \<longrightarrow> current_of E (regs b') = current_of E (regs b))"

named_theorems frames "operations that keep the frame"

lemma frame_refl [simp]: "frame E b b"
  by (simp add: frame_def)

lemma frame_trans: "frame E a b \<Longrightarrow> frame E b c \<Longrightarrow> frame E a c"
  by (simp add: frame_def)

lemma soc_saved_frame: "frame E b b' \<Longrightarrow> soc_saved E b \<Longrightarrow> soc_saved E b'"
  by (simp add: frame_def soc_saved_def prev_dsoc_soc_of)

lemma soc_of_write:
  assumes "regmap_ok E" "g < F_MAX_FIELDS" "g \<notin> {SOC_REG0, SOC_REG1, SOC_REG2}"
  shows "soc_of E (regs (rk817_bat_field_write E g v b)) = soc_of E (regs b)"
proof -
  have "stored_field SOC_REG0" "stored_field SOC_REG1" "stored_field SOC_REG2" by (simp_all add: stored_field_def)
  then show ?thesis
    using assms register_fields.read_other [OF assms(1)] by (simp add: soc_of_def rk817_bat_field_write_def)
qed

lemma current_of_write:
  assumes "g < F_MAX_FIELDS" "g \<notin> {BAT_CUR_H, BAT_CUR_L}" "measured E"
  shows "current_of E (regs (rk817_bat_field_write E g v b)) = current_of E (regs b)"
  using measured_current.current_kept [OF assms(3) _ assms(1,2)] by (simp add: current_of_def rk817_bat_field_write_def)

lemma field_write_frame:
  assumes "regmap_ok E" "g < F_MAX_FIELDS" "g \<notin> {SOC_REG0, SOC_REG1, SOC_REG2}" "g \<notin> {BAT_CUR_H, BAT_CUR_L}"
  shows "frame E b (rk817_bat_field_write E g v b)"
  using soc_of_write [OF assms(1-3), of v b] current_of_write [OF assms(2,4), of E v b] by (simp add: frame_def) (simp add: rk817_bat_field_write_def)

lemma field_write_other [simp]:
  "dsoc (rk817_bat_field_write E f v b) = dsoc b" "remain_cap (rk817_bat_field_write E f v b) = remain_cap b"
  "rsoc (rk817_bat_field_write E f v b) = rsoc b" "current_avg (rk817_bat_field_write E f v b) = current_avg b"
  by (simp_all add: rk817_bat_field_write_def)

section \<open>Every result of a fallible operation\<close>

definition opt_all :: "('a \<Rightarrow> bool) \<Rightarrow> 'a option \<Rightarrow> bool" where
  "opt_all P m \<longleftrightarrow> (\<forall>x. m = Some x \<longrightarrow> P x)"

lemma opt_allD: "opt_all P m \<Longrightarrow> m = Some x \<Longrightarrow> P x"
  by (simp add: opt_all_def)

lemma opt_all_simps [simp]: "opt_all P (Some x) = P x" "opt_all P None"
  by (simp_all add: opt_all_def)

lemma opt_bind: "opt_all (\<lambda>x. opt_all P (f x)) m \<Longrightarrow> opt_all P (m \<bind> f)"
  by (auto simp: opt_all_def bind_eq_Some_conv)

lemma opt_bind_any: "(\<And>x. opt_all P (f x)) \<Longrightarrow> opt_all P (m \<bind> f)"
  by (auto simp: opt_all_def bind_eq_Some_conv)

lemma opt_conseq: "opt_all Q m \<Longrightarrow> (\<And>x. Q x \<Longrightarrow> P x) \<Longrightarrow> opt_all P m"
  by (simp add: opt_all_def)

lemma opt_after: "opt_all Q m \<Longrightarrow> (\<And>x. Q x \<Longrightarrow> opt_all P (f x)) \<Longrightarrow> opt_all P (m \<bind> f)"
  by (auto simp: opt_all_def bind_eq_Some_conv)

lemma opt_if: "(c \<Longrightarrow> opt_all P a) \<Longrightarrow> (\<not> c \<Longrightarrow> opt_all P b) \<Longrightarrow> opt_all P (if c then a else b)"
  by simp

section \<open>Operations that keep the frame and the display charge\<close>

definition keeps :: "'d kernel \<Rightarrow> 'd rk817_battery_device \<Rightarrow> 'd rk817_battery_device \<Rightarrow> bool" where
  "keeps E b b' \<longleftrightarrow> frame E b b' \<and> dsoc b' = dsoc b"

lemma keeps_trans: "keeps E a b \<Longrightarrow> keeps E b c \<Longrightarrow> keeps E a c"
  using frame_trans by (auto simp: keeps_def)

lemma keeps_frame: "keeps E b b' \<Longrightarrow> frame E b b'"
  by (simp add: keeps_def)

lemmas keep_defs = keeps_def frame_def

lemma write_keeps:
  "regmap_ok E \<Longrightarrow> g < F_MAX_FIELDS \<Longrightarrow> g \<notin> {SOC_REG0, SOC_REG1, SOC_REG2} \<Longrightarrow>
    g \<notin> {BAT_CUR_H, BAT_CUR_L} \<Longrightarrow> keeps E b (rk817_bat_field_write E g v b)"
  by (simp add: keeps_def field_write_frame)

lemma init_coulomb_cap_keeps:
  assumes E: "regmap_ok E"
  shows "opt_all (keeps E b) (rk817_bat_init_coulomb_cap E c b)"
proof -
  let ?b1 = "write_quad E Q_INIT_H3 Q_INIT_H2 Q_INIT_L1 Q_INIT_L0 (CAPACITY_TO_ADC (u32 c) (res_div b)) b"
  have "keeps E b ?b1" unfolding write_quad_def
    by (intro keeps_trans [OF _ write_keeps [OF E]]) (simp_all add: keeps_def)
  then show ?thesis unfolding rk817_bat_init_coulomb_cap_def Let_def
    by (intro opt_bind_any) (simp add: keep_defs)
qed

lemma save_cap_keeps:
  assumes E: "regmap_ok E"
  shows "keeps E b (rk817_bat_save_cap E c b)"
proof -
  have "keeps E b (write_triple E REMAIN_CAP_REG2 REMAIN_CAP_REG1 REMAIN_CAP_REG0 v (b\<lparr>static_old_cap := x\<rparr>))" for v x
    unfolding write_triple_def
    by (intro keeps_trans [OF _ write_keeps [OF E]]) (simp_all add: keep_defs)
  then show ?thesis by (simp add: rk817_bat_save_cap_def Let_def) (simp add: keeps_def)
qed

lemma calc_sm_linek_keeps: "opt_all (keeps E b) (rk817_bat_calc_sm_linek E b)"
  unfolding rk817_bat_calc_sm_linek_def Let_def by (intro opt_bind_any) (simp add: keep_defs)

lemma smooth_prepare_keeps: "opt_all (keeps E b) (rk817_bat_smooth_algo_prepare E b)"
  unfolding rk817_bat_smooth_algo_prepare_def
  by (rule opt_conseq [OF calc_sm_linek_keeps]) (simp add: keep_defs)

lemma finish_prepare_keeps: "keeps E b (rk817_bat_finish_algo_prepare E b)"
  by (simp add: rk817_bat_finish_algo_prepare_def keep_defs)

lemma update_charging_keeps: "keeps E b (rk817_bat_update_charging_status E b)"
proof -
  obtain s b' where s: "rk817_bat_get_charge_state E b = (s, b')" by fastforce
  then have "keeps E b b'"
    by (auto simp: rk817_bat_get_charge_state_def rk817_bat_get_chrg_psy_def Let_def keep_defs)
  then show ?thesis by (simp add: rk817_bat_update_charging_status_def s keep_defs)
qed

lemma voltage_kb_keeps: "keeps E b (rk817_bat_init_voltage_kb E b)"
  by (simp add: rk817_bat_init_voltage_kb_def Let_def keep_defs)

lemma current_calibration_keeps: "regmap_ok E \<Longrightarrow> keeps E b (rk817_bat_current_calibration E b)"
  unfolding rk817_bat_current_calibration_def rk817_bat_set_coffset_def
  by (intro keeps_trans [OF _ write_keeps]) (simp_all add: keeps_def)

lemma USB_voltage_keeps:
  assumes "regmap_ok E"
  shows "opt_all (\<lambda>(v, b'). keeps E b b') (rk817_bat_get_USB_voltage E b)"
  unfolding rk817_bat_get_USB_voltage_def Let_def
  by (intro opt_bind_any) (simp add: write_keeps [OF assms])

lemma read_gauge_keeps: "opt_all (keeps E b) (read_gauge E b)"
  unfolding read_gauge_def Let_def by (intro opt_bind_any) (simp add: keep_defs)

lemma reset_overfull_keeps:
  assumes E: "regmap_ok E"
  shows "opt_all (keeps E b) (reset_overfull E b)"
  unfolding reset_overfull_def
proof (intro opt_if)
  show "opt_all (keeps E b) (rk817_bat_init_coulomb_cap E (u32 (fcc b + 100)) (b\<lparr>sm_remain_cap := s32 (fcc b * 1000)\<rparr>) \<bind>
     (\<lambda>b. rk817_bat_init_coulomb_cap E (u32 (fcc b)) b \<bind> (\<lambda>b. rk817_bat_get_capacity_mah E b \<bind> (\<lambda>_. Some b))))"
  proof (rule opt_after [OF init_coulomb_cap_keeps [OF E]], rule opt_after [OF init_coulomb_cap_keeps [OF E]], rule opt_bind_any)
    fix b1 b2 assume "keeps E (b\<lparr>sm_remain_cap := s32 (fcc b * 1000)\<rparr>) b1" "keeps E b1 b2"
    then show "opt_all (keeps E b) (Some b2)" by (simp add: keep_defs)
  qed
qed (simp add: keeps_def)

lemma update_info_keeps:
  assumes E: "regmap_ok E"
  shows "opt_all (keeps E b) (rk817_bat_update_info E b)"
  unfolding rk817_bat_update_info_def Let_def
proof (rule opt_after [OF read_gauge_keeps], rule opt_after [OF USB_voltage_keeps [OF E]], clarify,
       rule opt_after [OF reset_overfull_keeps [OF E]])
  fix b1 v b2 b3
  assume 1: "keeps E b b1" "keeps E b1 b2"
    and 3: "keeps E (rk817_bat_update_charging_status E (b2\<lparr>voltage_usb := v, chrg_status := get_charge_status E (b2\<lparr>voltage_usb := v\<rparr>)\<rparr>)) b3"
  have "keeps E b2 (b2\<lparr>voltage_usb := v, chrg_status := x\<rparr>)" for x by (simp add: keep_defs)
  then have "keeps E b b3" using 1 3 update_charging_keeps keeps_trans by metis
  then show "opt_all (keeps E b) (Some (if chrg_status b3 \<noteq> CHARGE_FINISH then b3\<lparr>finish_base := get_boot_sec E\<rparr> else b3))"
    by (simp add: keep_defs)
qed

lemma save_dsoc_saved:
  assumes "regmap_ok E" "soc_saved E b" "0 \<le> dsoc b" "dsoc b \<le> 100000"
  shows "soc_saved E (rk817_bat_save_data E b)" "rk817_bat_get_prev_dsoc E (rk817_bat_save_data E b) = dsoc b"
    "dsoc (rk817_bat_save_data E b) = dsoc b"
proof -
  let ?b = "rk817_bat_save_dsoc E (dsoc b) b"
  have k: "keeps E ?b (rk817_bat_save_data E b)" using save_cap_keeps [OF assms(1)] by (simp add: rk817_bat_save_data_def Let_def)
  have s: "rk817_bat_get_prev_dsoc E ?b = dsoc b" "soc_saved E ?b"
    using save_dsoc_reads_back [OF assms(1,2), of "dsoc b"] assms by simp_all
  show "soc_saved E (rk817_bat_save_data E b)" using k s(2) soc_saved_frame keeps_frame by blast
  show "rk817_bat_get_prev_dsoc E (rk817_bat_save_data E b) = dsoc b" using k s(1) by (simp add: keep_defs prev_dsoc_soc_of)
  show "dsoc (rk817_bat_save_data E b) = dsoc b" using k by (simp add: keeps_def)
qed

end
