(* ===== verification/RK817_Machine.thy ===== *)
theory RK817_Machine
  imports RK817_Frame
begin

text \<open>
  The fuel gauge driver as a state machine: its events are the periodic work, suspend, resume, the
  plug interrupts and changes the hardware makes to its own registers. The invariant bounds the
  display charge, names the modes the driver can be in, and ties the saved charge to the registers.
\<close>

section \<open>How the display charge moves\<close>

definition lowers :: "'d kernel \<Rightarrow> 'd rk817_battery_device \<Rightarrow> 'd rk817_battery_device \<Rightarrow> bool" where
  "lowers E b b' \<longleftrightarrow> frame E b b' \<and> (- 1000000 \<le> dsoc b \<and> dsoc b \<le> 100000 \<longrightarrow> min 0 (dsoc b) \<le> dsoc b' \<and> dsoc b' \<le> max 0 (dsoc b))"

lemmas lower_defs = lowers_def frame_def

lemma lowers_trans: "lowers E a b \<Longrightarrow> lowers E b c \<Longrightarrow> lowers E a c"
  unfolding lowers_def by (elim conjE, intro conjI, erule frame_trans, assumption) linarith

lemma keeps_lowers: "keeps E b b' \<Longrightarrow> lowers E b b'"
  by (simp add: keeps_def lowers_def)

lemma zero_drop_lowers: "lowers E b (zero_drop E b)"
proof -
  have "s32 (dsoc b - 1000) = dsoc b - 1000" if "- 1000000 \<le> dsoc b" "dsoc b \<le> 100000" using that by (simp add: is_s32_def)
  then show ?thesis by (auto simp: zero_drop_def Let_def lower_defs)
qed

lemma zero_shutdown_lowers: "lowers E b (zero_shutdown E v p b)"
  by (simp add: zero_shutdown_def Let_def lower_defs)

lemma calc_zero_linek_lowers: "opt_all (lowers E b) (rk817_bat_calc_zero_linek E b)"
proof -
  have step: "lowers E b (zero_shutdown E v p (if c1 then b1\<lparr>zero_linek := k1, zero_drop_sec := k2\<rparr>
      else if c2 then b1\<lparr>zero_drop_sec := k3, zero_linek := k4\<rparr> else zero_drop E b1))"
    if "keeps E b b1" for b1 v p c1 c2 k1 k2 k3 k4
  proof -
    have "lowers E b1 (if c1 then b1\<lparr>zero_linek := k1, zero_drop_sec := k2\<rparr>
      else if c2 then b1\<lparr>zero_drop_sec := k3, zero_linek := k4\<rparr> else zero_drop E b1)"
      using zero_drop_lowers [of E b1] by (simp add: lower_defs)
    then show ?thesis by (rule lowers_trans [OF lowers_trans [OF keeps_lowers [OF that]] zero_shutdown_lowers])
  qed
  show ?thesis unfolding rk817_bat_calc_zero_linek_def Let_def
    by (intro opt_bind_any) (simp only: opt_all_simps, rule step, simp add: keep_defs)
qed

lemma zero_prepare_lowers: "opt_all (lowers E b) (rk817_bat_zero_algo_prepare E b)"
  unfolding rk817_bat_zero_algo_prepare_def
  by (rule opt_conseq [OF calc_zero_linek_lowers]) (simp add: lower_defs split: if_splits)

lemma zero_algorithm_frame:
  assumes E: "regmap_ok E"
  shows "opt_all (frame E b) (rk817_bat_zero_algorithm E b)"
proof -
  have linek: "opt_all (frame E b) (rk817_bat_calc_zero_linek E c)" if "frame E b c" for c
    by (rule opt_conseq [OF calc_zero_linek_lowers]) (use that in \<open>simp add: lower_defs\<close>)
  have alg: "frame E c (rk817_bat_calc_zero_algorithm c)" for c
    by (simp add: rk817_bat_calc_zero_algorithm_def frame_def)
  have first: "opt_all (frame E b) (if g then rk817_bat_calc_zero_linek E (rk817_bat_calc_zero_algorithm c) else Some d)"
    if "frame E b c" "frame E b d" for g c d
    using that by (intro opt_if linek frame_trans [OF _ alg]) simp_all
  have second: "opt_all (frame E b) (if g then rk817_bat_init_coulomb_cap E x c \<bind> rk817_bat_calc_zero_linek E else Some c)"
    if c: "frame E b c" for g x c
  proof (rule opt_if, rule opt_after [OF init_coulomb_cap_keeps [OF E]])
    fix d assume "keeps E c d"
    then show "opt_all (frame E b) (rk817_bat_calc_zero_linek E d)" using c keeps_frame frame_trans linek by blast
  qed (simp add: c)
  show ?thesis unfolding rk817_bat_zero_algorithm_def Let_def
    by (rule opt_after [OF first second]) (simp_all add: frame_def)
qed

lemma smooth_parts_frame: "frame E b (rk817_bat_calc_smooth_dischrg b)" "frame E b (fst (smooth_chrg b))"
  by (simp_all add: rk817_bat_calc_smooth_dischrg_def smooth_chrg_def Let_def frame_def)

lemma smooth_algorithm_frame: "opt_all (frame E b) (rk817_bat_smooth_algorithm E b)"
proof -
  have first: "opt_all (frame E b) (if g then rk817_bat_calc_sm_linek E b else Some b)" for g
    by (rule opt_if, rule opt_conseq [OF calc_sm_linek_keeps]) (simp_all add: keeps_def)
  have tail: "opt_all (frame E b) (case p of (d, ret) \<Rightarrow> if ret then Some d
       else if s2r d then rk817_bat_calc_sm_linek E (d\<lparr>s2r := False\<rparr>) else Some d)"
    if "frame E b (fst p)" for p
  proof -
    obtain d ret where p: "p = (d, ret)" by fastforce
    have "opt_all (frame E b) (rk817_bat_calc_sm_linek E (d\<lparr>s2r := False\<rparr>))"
      by (rule opt_conseq [OF calc_sm_linek_keeps]) (use that p in \<open>simp add: keep_defs\<close>)
    then show ?thesis using that p by simp
  qed
  have both: "frame E b (fst (if g then (rk817_bat_calc_smooth_dischrg (c\<lparr>remain_cap := x, sm_remain_cap := y, smooth_soc := z\<rparr>), False)
       else smooth_chrg (c\<lparr>remain_cap := x, sm_remain_cap := y, smooth_soc := z\<rparr>)))" if "frame E b c" for c g x y z
  proof -
    have "frame E b (c\<lparr>remain_cap := x, sm_remain_cap := y, smooth_soc := z\<rparr>)" using that by (simp add: frame_def)
    then show ?thesis using smooth_parts_frame frame_trans by (cases g) (simp, blast)+
  qed
  show ?thesis unfolding rk817_bat_smooth_algorithm_def smooth_move_def Let_def
    by (rule opt_after [OF first], intro opt_bind_any opt_if tail both) (simp_all add: frame_def)
qed

text \<open>The finish algorithm may save the charge itself; the other parts do not touch the saved value.\<close>

definition carries :: "'d kernel \<Rightarrow> 'd rk817_battery_device \<Rightarrow> 'd rk817_battery_device \<Rightarrow> bool" where
  "carries E b b' \<longleftrightarrow> pdata b' = pdata b \<and> fcc b' = fcc b \<and> chip_id b' = chip_id b \<and> res_div b' = res_div b \<and>
     work_mode b' = work_mode b \<and> (soc_saved E b \<longrightarrow> soc_saved E b') \<and>
     (measured E \<longrightarrow> current_of E (regs b') = current_of E (regs b))"

lemma frame_carries: "frame E b b' \<Longrightarrow> carries E b b'"
  using soc_saved_frame by (auto simp: carries_def frame_def)

lemma carries_trans: "carries E a b \<Longrightarrow> carries E b c \<Longrightarrow> carries E a c"
  by (simp add: carries_def)

lemma save_dsoc_carries:
  assumes "regmap_ok E" "0 \<le> x" "x < 16777216"
  shows "carries E b (rk817_bat_save_dsoc E x b)"
proof -
  have "measured E \<Longrightarrow> current_of E (regs (rk817_bat_save_dsoc E x b)) = current_of E (regs b)"
    by (simp add: rk817_bat_save_dsoc_def write_triple_def current_of_write)
  then show ?thesis using save_dsoc_reads_back(2) [OF assms(1) _ assms(2,3)]
    by (auto simp: carries_def) (auto simp: rk817_bat_save_dsoc_def rk817_bat_field_write_def)
qed

lemma finish_step_frame: "opt_all (frame E b) (finish_step E b)"
  unfolding finish_step_def Let_def by (intro opt_if) (simp_all add: frame_def)

lemma finish_algorithm_carries:
  assumes E: "regmap_ok E"
  shows "opt_all (carries E b) (rk817_bat_finish_algorithm E b)"
proof -
  have first: "opt_all (frame E b) (if g then rk817_bat_init_coulomb_cap E x (b\<lparr>age_adjust_cap := y\<rparr>) \<bind>
      (\<lambda>b. rk817_bat_get_capacity_mah E b \<bind> (\<lambda>_. Some b)) else Some b)" for g x y
  proof (rule opt_if, rule opt_after [OF init_coulomb_cap_keeps [OF E]], rule opt_bind_any)
    fix c assume "keeps E (b\<lparr>age_adjust_cap := y\<rparr>) c"
    then show "opt_all (frame E b) (Some c)" by (simp add: keep_defs)
  qed simp
  have second: "opt_all (carries E b) (if dsoc c < 100 * 1000 then finish_step E c \<bind> (\<lambda>b. Some (if cdiv (rsoc b) 1000 = 100 \<and> dsoc b < 100 * 1000
      then rk817_bat_save_dsoc E (100 * 1000) (b\<lparr>dsoc := 100 * 1000\<rparr>) else b)) else Some c)" if c: "frame E b c" for c
  proof (rule opt_if, rule opt_after [OF finish_step_frame])
    fix d assume "frame E c d"
    then have f: "frame E b (d\<lparr>dsoc := 100 * 1000\<rparr>)" "frame E b d" using c by (simp_all add: frame_def)
    have "carries E (d\<lparr>dsoc := 100 * 1000\<rparr>) (rk817_bat_save_dsoc E (100 * 1000) (d\<lparr>dsoc := 100 * 1000\<rparr>))"
      by (rule save_dsoc_carries [OF E]) simp_all
    then have "carries E b (rk817_bat_save_dsoc E (100 * 1000) (d\<lparr>dsoc := 100 * 1000\<rparr>))"
      using f(1) frame_carries carries_trans by blast
    then show "opt_all (carries E b) (Some (if cdiv (rsoc d) 1000 = 100 \<and> dsoc d < 100 * 1000
      then rk817_bat_save_dsoc E (100 * 1000) (d\<lparr>dsoc := 100 * 1000\<rparr>) else d))" using frame_carries [OF f(2)] by simp
  qed (use c frame_carries in auto)
  show ?thesis unfolding rk817_bat_finish_algorithm_def by (rule opt_after [OF first], erule second)
qed

text \<open>One run of the display state machine: the next mode is one of the three the driver uses.\<close>

definition mode_ok :: "'d kernel \<Rightarrow> 'd rk817_battery_device \<Rightarrow> 'd rk817_battery_device \<Rightarrow> bool" where
  "mode_ok E b b' \<longleftrightarrow> pdata b' = pdata b \<and> fcc b' = fcc b \<and> chip_id b' = chip_id b \<and> res_div b' = res_div b \<and>
     (work_mode b' = work_mode b \<or> work_mode b' \<in> {MODE_ZERO, MODE_FINISH, MODE_SMOOTH}) \<and> (soc_saved E b \<longrightarrow> soc_saved E b')"

lemma carries_mode_ok: "carries E b b' \<Longrightarrow> mode_ok E b b'"
  by (simp add: carries_def mode_ok_def)

lemma to_mode_ok:
  assumes "opt_all (frame E c) m" "carries E b c" "md \<in> {MODE_ZERO, MODE_FINISH, MODE_SMOOTH}"
  shows "opt_all (mode_ok E b) (to_mode md m)"
proof (cases m)
  case (Some d)
  then have f: "frame E c d" using assms by simp
  then have "frame E c (d\<lparr>work_mode := work_mode c\<rparr>)" by (simp add: frame_def)
  then have "soc_saved E c \<longrightarrow> soc_saved E (d\<lparr>work_mode := md\<rparr>)"
    using soc_saved_frame [of E c "d\<lparr>work_mode := work_mode c\<rparr>"] by (simp add: soc_saved_def prev_dsoc_soc_of)
  then show ?thesis using f Some assms(2,3) by (simp add: to_mode_def mode_ok_def carries_def frame_def)
qed (simp add: to_mode_def)

lemma display_smooth_mode_ok:
  assumes E: "regmap_ok E"
  shows "opt_all (mode_ok E b) (rk817_bat_display_smooth E b)"
proof -
  have sm: "opt_all (frame E c) (rk817_bat_smooth_algo_prepare E c)" for c
    by (rule opt_conseq [OF smooth_prepare_keeps keeps_frame])
  have ze: "opt_all (frame E c) (rk817_bat_zero_algo_prepare E c)" for c
    by (rule opt_conseq [OF zero_prepare_lowers]) (simp add: lowers_def)
  have fi: "opt_all (frame E c) (Some (rk817_bat_finish_algo_prepare E c))" for c
    using finish_prepare_keeps keeps_frame by simp blast
  show ?thesis unfolding rk817_bat_display_smooth_def
  proof (intro opt_if)
    show "opt_all (mode_ok E b) (rk817_bat_zero_algo_prepare E (b\<lparr>s2r := False\<rparr>) \<bind> rk817_bat_smooth_algo_prepare E)"
    proof (rule opt_after [OF ze], rule opt_conseq [OF sm])
      fix c d assume "frame E (b\<lparr>s2r := False\<rparr>) c" "frame E c d"
      then have "frame E b d" by (simp add: frame_def)
      then show "mode_ok E b d" by (intro carries_mode_ok frame_carries)
    qed
  next
    show "opt_all (mode_ok E b) (rk817_bat_finish_algorithm E b \<bind> (\<lambda>b. if \<not> charge_done E b then if below_zero_vol b
        then to_mode MODE_ZERO (rk817_bat_zero_algo_prepare E b) else to_mode MODE_SMOOTH (rk817_bat_smooth_algo_prepare E b) else Some b))"
      by (rule opt_after [OF finish_algorithm_carries [OF E]]) (intro opt_if to_mode_ok [OF ze] to_mode_ok [OF sm]; simp add: carries_mode_ok)
  next
    show "opt_all (mode_ok E b) (rk817_bat_zero_algorithm E b \<bind> (\<lambda>b.
        if u32 (voltage_avg b) \<ge> u32 (zero_algorithm_vol (pdata b) + 50) \<or> current_avg b \<ge> 0 then to_mode MODE_SMOOTH (rk817_bat_smooth_algo_prepare E b)
        else if charge_done E b then to_mode MODE_FINISH (Some (rk817_bat_finish_algo_prepare E b)) else Some b))"
      by (rule opt_after [OF opt_conseq [OF zero_algorithm_frame [OF E] frame_carries]], assumption)
        (intro opt_if to_mode_ok [OF sm] to_mode_ok [OF fi]; simp add: carries_mode_ok)
  next
    show "opt_all (mode_ok E b) (rk817_bat_smooth_algorithm E b \<bind> (\<lambda>b.
        if below_zero_vol b then to_mode MODE_ZERO (rk817_bat_zero_algo_prepare E b)
        else if charge_done E b then to_mode MODE_FINISH (Some (rk817_bat_finish_algo_prepare E b)) else Some b))"
      by (rule opt_after [OF opt_conseq [OF smooth_algorithm_frame frame_carries]], assumption)
        (intro opt_if to_mode_ok [OF ze] to_mode_ok [OF fi]; simp add: carries_mode_ok)
  qed
qed

section \<open>Sleep\<close>

text \<open>The real charge is bounded when the full charge capacity is at least \<^verbatim>\<open>MIN_FCC\<close>.\<close>

definition rsoc_ok :: "'d rk817_battery_device \<Rightarrow> bool" where
  "rsoc_ok b \<longleftrightarrow> - 10000000 \<le> rsoc b \<and> rsoc b \<le> 10000000"

lemma cdiv_bound:
  assumes "\<bar>a\<bar> \<le> n * f" "0 < f"
  shows "\<bar>cdiv a f\<bar> \<le> n"
proof -
  have "\<bar>a\<bar> div f \<le> n * f div f" using assms by (intro zdiv_mono1) auto
  then have "\<bar>a\<bar> div f \<le> n" using assms by simp
  moreover have "0 \<le> \<bar>a\<bar> div f" using assms by (simp add: pos_imp_zdiv_nonneg_iff)
  ultimately show ?thesis using assms by (auto simp: cdiv_def sgn_if abs_mult)
qed

lemma get_rsoc_bound:
  assumes "rk817_bat_get_rsoc E b = Some r" "500 \<le> fcc b"
  shows "- 10000000 \<le> r \<and> r \<le> 10000000"
proof -
  obtain c where r: "r = cdiv (s32 (s32 c * 100)) (fcc b)"
    using assms by (auto simp: rk817_bat_get_rsoc_def bind_eq_Some_conv)
  have "\<bar>s32 (s32 c * 100)\<bar> \<le> 10000000 * 500" using s32_range [of "s32 c * 100"] unfolding is_s32_def by linarith
  also have "\<dots> \<le> 10000000 * fcc b" using assms by simp
  finally have "\<bar>r\<bar> \<le> 10000000" unfolding r using assms by (intro cdiv_bound) auto
  then show ?thesis by linarith
qed

lemma init_coulomb_cap_rsoc:
  assumes "500 \<le> fcc b" "fcc b < 2147483648"
  shows "opt_all rsoc_ok (rk817_bat_init_coulomb_cap E c b)"
proof -
  have f: "fcc (write_quad E x1 x2 x3 x4 v b) = fcc b" for x1 x2 x3 x4 v by (simp add: write_quad_def rk817_bat_field_write_def)
  have q: "s32 (cdiv (u32 x) (fcc b)) = cdiv (u32 x) (fcc b)" "\<bar>cdiv (u32 x) (fcc b)\<bar> \<le> 10000000" for x
  proof -
    have "\<bar>u32 x\<bar> \<le> 10000000 * 500" using u_range(1,2) [of x] by linarith
    also have "\<dots> \<le> 10000000 * fcc b" using assms by simp
    finally show b: "\<bar>cdiv (u32 x) (fcc b)\<bar> \<le> 10000000" using assms by (intro cdiv_bound) auto
    then have "is_s32 (cdiv (u32 x) (fcc b))" unfolding is_s32_def by linarith
    then show "s32 (cdiv (u32 x) (fcc b)) = cdiv (u32 x) (fcc b)" by simp
  qed
  have ok: "rsoc_ok (c'\<lparr>rsoc := s32 (cdiv (u32 x) (fcc b)), remain_cap := y\<rparr>)" for c' :: "'a rk817_battery_device" and x y
    unfolding q(1) rsoc_ok_def using q(2) [of x] by simp linarith
  have d: "divz y (u32 (fcc b)) = Some (cdiv y (fcc b))" for y using assms by (simp add: divz_def)
  show ?thesis unfolding rk817_bat_init_coulomb_cap_def Let_def f d by (simp only: bind.bind_lunit opt_all_simps ok)
qed

lemma same_rsoc:
  "opt_all (\<lambda>b'. rsoc b' = rsoc b) (rk817_bat_smooth_algo_prepare E b)"
  "opt_all (\<lambda>b'. rsoc b' = rsoc b) (rk817_bat_zero_algo_prepare E b)"
  "opt_all (\<lambda>b'. rsoc b' = rsoc b) (rk817_bat_relife_age_flag E b)"
proof -
  show "opt_all (\<lambda>b'. rsoc b' = rsoc b) (rk817_bat_smooth_algo_prepare E b)"
    unfolding rk817_bat_smooth_algo_prepare_def rk817_bat_calc_sm_linek_def Let_def by (intro opt_bind_any) simp
  have "rsoc (zero_shutdown E v p c) = rsoc c" "rsoc (zero_drop E c) = rsoc c" for v p c
    by (simp_all add: zero_shutdown_def zero_drop_def Let_def)
  then show "opt_all (\<lambda>b'. rsoc b' = rsoc b) (rk817_bat_zero_algo_prepare E b)"
    unfolding rk817_bat_zero_algo_prepare_def rk817_bat_calc_zero_linek_def Let_def by (intro opt_bind_any) simp
  show "opt_all (\<lambda>b'. rsoc b' = rsoc b) (rk817_bat_relife_age_flag E b)"
    unfolding rk817_bat_relife_age_flag_def Let_def by (intro opt_if opt_bind_any) simp_all
qed

lemma relife_keeps: "opt_all (keeps E b) (rk817_bat_relife_age_flag E b)"
  unfolding rk817_bat_relife_age_flag_def Let_def by (intro opt_if opt_bind_any) (simp_all add: keep_defs)

lemma restart_relax_keeps: "regmap_ok E \<Longrightarrow> keeps E b (rk817_bat_restart_relax E b)" "rsoc (rk817_bat_restart_relax E b) = rsoc b"
  unfolding rk817_bat_restart_relax_def by (intro keeps_trans [OF _ write_keeps]; simp add: keeps_def) simp

text \<open>Waking up: the recalibration lowers the display charge at most, and keeps the real charge bounded.\<close>

definition woken :: "'d kernel \<Rightarrow> 'd rk817_battery_device \<Rightarrow> 'd rk817_battery_device \<Rightarrow> bool" where
  "woken E b b' \<longleftrightarrow> lowers E b b' \<and> (500 \<le> fcc b \<and> fcc b < 2147483648 \<and> rsoc_ok b \<longrightarrow> rsoc_ok b')"

lemma opt_conj: "opt_all P m \<Longrightarrow> opt_all Q m \<Longrightarrow> opt_all (\<lambda>x. P x \<and> Q x) m"
  by (simp add: opt_all_def)

lemma woken_trans: "woken E a b \<Longrightarrow> woken E b c \<Longrightarrow> woken E a c"
proof -
  assume ab: "woken E a b" and bc: "woken E b c"
  have l: "lowers E a b" "lowers E b c" using ab bc by (simp_all add: woken_def)
  have "lowers E a c" by (rule lowers_trans [OF l])
  moreover have "fcc b = fcc a" using l(1) by (simp add: lowers_def frame_def)
  ultimately show "woken E a c" using ab bc by (simp add: woken_def)
qed

lemma prepare_woken:
  "opt_all (woken E b) (rk817_bat_smooth_algo_prepare E b)" "opt_all (woken E b) (rk817_bat_zero_algo_prepare E b)"
  "opt_all (woken E b) (rk817_bat_relife_age_flag E b)"
  by (rule opt_conseq [OF opt_conj [OF smooth_prepare_keeps same_rsoc(1)]], simp add: woken_def rsoc_ok_def keeps_lowers)
    (rule opt_conseq [OF opt_conj [OF zero_prepare_lowers same_rsoc(2)]], simp add: woken_def rsoc_ok_def,
     rule opt_conseq [OF opt_conj [OF relife_keeps same_rsoc(3)]], simp add: woken_def rsoc_ok_def keeps_lowers)

lemma init_capacity_woken:
  assumes E: "regmap_ok E"
  shows "opt_all (woken E b) (rk817_bat_init_capacity E c b)"
  unfolding rk817_bat_init_capacity_def Let_def
proof (intro opt_if)
  let ?b = "b\<lparr>age_adjust_cap := s32 (age_adjust_cap b + s32 (u32 c - remain_cap b))\<rparr>"
  have init: "opt_all (woken E b) (rk817_bat_init_coulomb_cap E (u32 c) ?b)"
  proof (cases "500 \<le> fcc b \<and> fcc b < 2147483648")
    case True
    then show ?thesis using opt_conj [OF init_coulomb_cap_keeps [OF E, of ?b "u32 c"] init_coulomb_cap_rsoc [of ?b E "u32 c"]]
      by (auto elim!: opt_conseq simp: woken_def keeps_def lowers_def frame_def)
  next
    case False
    then show ?thesis using init_coulomb_cap_keeps [OF E, of ?b "u32 c"]
      by (auto elim!: opt_conseq simp: woken_def keeps_def lowers_def frame_def)
  qed
  show "opt_all (woken E b) (rk817_bat_init_coulomb_cap E (u32 c) ?b \<bind> (\<lambda>b. rk817_bat_smooth_algo_prepare E b \<bind> rk817_bat_zero_algo_prepare E))"
    by (rule opt_after [OF init], rule opt_after [OF prepare_woken(1)], rule opt_conseq [OF prepare_woken(2)]) (blast intro: woken_trans)
qed (simp add: woken_def lowers_def)

lemma sleep_calib_woken:
  assumes E: "regmap_ok E"
  shows "opt_all (\<lambda>(u, b'). woken E b b') (sleep_calib E b)"
proof -
  have relax: "opt_all (woken E b) (rk817_bat_relax_vol_calib E b)"
    unfolding rk817_bat_relax_vol_calib_def by (intro opt_bind_any init_capacity_woken [OF E])
  have restart: "woken E c (rk817_bat_restart_relax E c)" for c
    using restart_relax_keeps(1) [OF E] keeps_lowers by (auto simp: woken_def rsoc_ok_def restart_relax_keeps(2))
  show ?thesis unfolding sleep_calib_def
  proof (rule opt_if, rule opt_after [OF relax], rule opt_after [OF prepare_woken(3)])
    fix c d assume "woken E b c" "woken E (rk817_bat_restart_relax E c) d"
    then have "woken E b d" using restart woken_trans by blast
    then show "opt_all (\<lambda>(u, b'). woken E b b') (Some (True, d))" by simp
  qed (simp add: woken_def lowers_def)
qed

text \<open>The estimate of the charge lost in sleep does not overflow for at most three years of sleep.\<close>

abbreviation (input) "sleep_limit \<equiv> 100000000 :: int"

lemma sleep_sum:
  assumes "0 \<le> t" "t \<le> sleep_limit" "0 \<le> k" "k \<le> 40"
  shows "s32 (u64 (k * t) div 3600) = k * t div 3600" "0 \<le> k * t div 3600" "k * t div 3600 \<le> k * 27778"
proof -
  have kt: "0 \<le> k * t" "k * t \<le> k * sleep_limit" "k * sleep_limit \<le> 4000000000" using assms by (simp_all add: mult_left_mono)
  have "k * t div 3600 \<le> k * sleep_limit div 3600" using kt by (intro zdiv_mono1) auto
  also have "\<dots> \<le> k * 27778" using assms by simp
  finally show le: "k * t div 3600 \<le> k * 27778" .
  show ge: "0 \<le> k * t div 3600" using kt by simp
  have "u64 (k * t) = k * t" using kt by (simp add: u64_def)
  moreover have "is_s32 (k * t div 3600)" using le ge assms unfolding is_s32_def by linarith
  ultimately show "s32 (u64 (k * t) div 3600) = k * t div 3600" by simp
qed

lemma sleep_choice:
  fixes d x :: int
  assumes "D \<Longrightarrow> 5000 \<le> d" "G \<Longrightarrow> 0 \<le> x" "x \<le> d" "0 \<le> d"
  shows "- 1000 \<le> (if A then if B then d - 1000 else if C \<and> D then if F then d - 1000 else 5000 else if G then x else d else d) \<and>
    (if A then if B then d - 1000 else if C \<and> D then if F then d - 1000 else 5000 else if G then x else d else d) \<le> d"
  using assms by auto

lemma rounded:
  fixes d :: int
  assumes "0 \<le> d" "d \<le> 100000"
  shows "0 \<le> (d + 500) div 1000" "(d + 500) div 1000 \<le> 100" "\<bar>1000 * ((d + 500) div 1000) - d\<bar> \<le> 500"
proof -
  define q where "q = (d + 500) div 1000"
  have "1000 * q + (d + 500) mod 1000 = d + 500" "0 \<le> (d + 500) mod 1000" "(d + 500) mod 1000 < 1000"
    unfolding q_def by simp_all
  then show "0 \<le> (d + 500) div 1000" "(d + 500) div 1000 \<le> 100" "\<bar>1000 * ((d + 500) div 1000) - d\<bar> \<le> 500"
    using assms unfolding q_def [symmetric] by linarith+
qed

lemma sleep_below_dsoc:
  assumes d: "0 \<le> dsoc b" "dsoc b \<le> 100000" and f: "500 \<le> fcc b" and t: "0 \<le> sleep_dischrg_sec b" "sleep_dischrg_sec b \<le> sleep_limit"
  shows "- 1000 \<le> dsoc (snd (sleep_below b)) \<and> dsoc (snd (sleep_below b)) \<le> dsoc b"
proof -
  define k :: int where "k = (if low_pwr_sleep (pdata b) \<noteq> 0 then 1 else 6)"
  have k: "0 \<le> k" "k \<le> 6" by (simp_all add: k_def)
  define c where "c = k * sleep_dischrg_sec b div 3600"
  have c: "s32 (u64 (k * sleep_dischrg_sec b) div 3600) = c" "0 \<le> c" "c \<le> 166668"
    using sleep_sum [OF t, of k] k unfolding c_def by linarith+
  define s where "s = c * 100 div fcc b"
  have c100: "s32 (c * 100) = c * 100" using c by (simp add: is_s32_def)
  have s0: "0 \<le> s" using c f by (simp add: s_def pos_imp_zdiv_nonneg_iff)
  have "s \<le> c * 100" using zdiv_mono2 [of "c * 100" 1 "fcc b"] c f by (simp add: s_def)
  then have sle: "s * 1000 \<le> 16666800000" "s \<le> 16666800" using c by linarith+
  have "s < 40000" unfolding s_def using c f by (intro div_less_int) linarith+
  then have t1: "s32 (s * 1000) = s * 1000" and t2: "s32 (dsoc b - s * 1000) = dsoc b - s * 1000"
    using s0 d by (simp_all add: is_s32_def)
  have t3: "s32 (dsoc b - 1000) = dsoc b - 1000" using d by (simp add: is_s32_def)
  have q: "cdiv (c * 100) (DIV (fcc b)) = s" using c f by (simp add: s_def)
  have pos: "0 \<le> x" if "5 < cdiv x 1000" for x
  proof (rule ccontr)
    assume "\<not> 0 \<le> x"
    then have "cdiv x 1000 = - (\<bar>x\<bar> div 1000)" by (simp add: cdiv_def sgn_if)
    then show False using that pos_imp_zdiv_nonneg_iff [of 1000 "\<bar>x\<bar>"] by linarith
  qed
  have dd: "cdiv (dsoc b) 1000 = dsoc b div 1000" using d by simp
  define x where "x = dsoc b - s * 1000"
  have x: "x \<le> dsoc b" using s0 by (simp add: x_def)
  have "dsoc (snd (sleep_below b)) = (if s > 0 then if dsoc b div 1000 < 5 then dsoc b - 1000
       else if cdiv x 1000 < 5 \<and> dsoc b div 1000 \<ge> 5 then if dsoc b div 1000 = 5 then dsoc b - 1000 else 5000
       else if cdiv x 1000 > 5 then x else dsoc b else dsoc b)"
    by (simp add: sleep_below_def Let_def k_def [symmetric] c(1) c100 q t1 t2 t3 dd x_def)
  moreover have "5000 \<le> dsoc b" if "5 \<le> dsoc b div 1000" using that by linarith
  ultimately show ?thesis using sleep_choice [OF _ pos x d(1)] by (simp only:)
qed

lemma sleep_above_dsoc:
  assumes d: "0 \<le> dsoc b" "dsoc b \<le> 100000" and f: "500 \<le> fcc b" and t: "0 \<le> sleep_dischrg_sec b" "sleep_dischrg_sec b \<le> sleep_limit"
    and r: "rsoc_ok b" "rsoc b < dsoc b"
  shows "- 1000000000 \<le> dsoc (snd (sleep_above b)) \<and> dsoc (snd (sleep_above b)) \<le> dsoc b"
proof -
  define k :: int where "k = (if low_pwr_sleep (pdata b) \<noteq> 0 then 20 else 40)"
  have k: "0 \<le> k" "k \<le> 40" by (simp_all add: k_def)
  define c where "c = k * sleep_dischrg_sec b div 3600"
  have c: "s32 (u64 (k * sleep_dischrg_sec b) div 3600) = c" "0 \<le> c" "c \<le> 1111120"
    using sleep_sum [OF t, of k] k unfolding c_def by linarith+
  define s where "s = c div (fcc b div 100)"
  have f5: "5 \<le> fcc b div 100" using f by simp
  have s0: "0 \<le> s" using c f5 by (simp add: s_def pos_imp_zdiv_nonneg_iff)
  have "s \<le> c div 5" unfolding s_def using f5 c by (intro zdiv_mono2) auto
  then have s1: "s \<le> 222224" using c by simp
  have q: "cdiv c (DIV (cdiv (fcc b) 100)) = s" using c f f5 by (simp add: s_def)
  have t1: "s32 (s * 1000) = s * 1000" "s32 (2000 * s) = 2000 * s"
    "s32 (dsoc b - s * 1000) = dsoc b - s * 1000" "s32 (dsoc b - 2000 * s) = dsoc b - 2000 * s"
    using s0 s1 d by (simp_all add: is_s32_def)
  show ?thesis using s0 s1 d r
    by (simp add: sleep_above_def Let_def k_def [symmetric] c(1) q t1 rsoc_ok_def)
qed

lemma sleep_parts_frame: "frame E b (snd (sleep_below b))" "frame E b (snd (sleep_above b))"
  by (simp_all add: sleep_below_def sleep_above_def Let_def frame_def)

lemma dsoc_upd_frame: "frame E b c \<Longrightarrow> frame E b (c\<lparr>dsoc := x\<rparr>)"
  by (simp add: frame_def)

lemma sleep_reserve_range:
  assumes "- 1000000000 \<le> dsoc e" "dsoc e \<le> 100000"
  shows "0 \<le> dsoc (sleep_reserve p u s e)" "dsoc (sleep_reserve p u s e) \<le> max 0 (dsoc e)" "frame E e (sleep_reserve p u s e)"
proof -
  have "s32 (dsoc e - 1000) = dsoc e - 1000" using assms by (simp add: is_s32_def)
  then show "0 \<le> dsoc (sleep_reserve p u s e)" "dsoc (sleep_reserve p u s e) \<le> max 0 (dsoc e)"
    by (auto simp: sleep_reserve_def Let_def is_s32_def)
  show "frame E e (sleep_reserve p u s e)" by (simp add: sleep_reserve_def Let_def frame_def)
qed

lemma sleep_dischrg_range:
  assumes E: "regmap_ok E" and d: "0 \<le> dsoc b" "dsoc b \<le> 100000" and f: "500 \<le> fcc b" "fcc b < 2147483648"
    and t: "0 \<le> sleep_dischrg_sec b" "sleep_dischrg_sec b \<le> sleep_limit" and r: "rsoc_ok b"
  shows "opt_all (\<lambda>(s, c). frame E b c \<and> 0 \<le> dsoc c \<and> dsoc c \<le> dsoc b) (rk817_bat_sleep_dischrg E b)"
  unfolding rk817_bat_sleep_dischrg_def Let_def
proof (rule opt_after [OF sleep_calib_woken [OF E]], clarify)
  fix u c assume w: "woken E b c"
  have fr: "frame E b c" and dc: "0 \<le> dsoc c" "dsoc c \<le> dsoc b" and rc: "rsoc_ok c"
    using w d f r by (auto simp: woken_def lowers_def)
  have fc: "500 \<le> fcc c" and tc: "0 \<le> sleep_dischrg_sec c" "sleep_dischrg_sec c \<le> sleep_limit"
    using fr f t by (simp_all add: frame_def)
  obtain s e where se: "(if dsoc c \<le> rsoc c then sleep_below c else sleep_above c) = (s, e)" by fastforce
  have e: "e = snd (if dsoc c \<le> rsoc c then sleep_below c else sleep_above c)" using se by simp
  have fe: "frame E b e" using frame_trans [OF fr sleep_parts_frame(1)] frame_trans [OF fr sleep_parts_frame(2)] by (simp add: e)
  have de: "- 1000000000 \<le> dsoc e \<and> dsoc e \<le> dsoc c"
  proof (cases "dsoc c \<le> rsoc c")
    case True
    then show ?thesis using sleep_below_dsoc [OF dc(1) _ fc tc] dc d by (simp add: e)
  next
    case False
    then show ?thesis using sleep_above_dsoc [OF dc(1) _ fc tc rc] dc d by (simp add: e)
  qed
  note g = sleep_reserve_range [where e = e and u = u and s = s]
  have "frame E b (sleep_reserve p u s e)" for p using frame_trans [OF fe g(3)] de dc d by simp
  moreover have "0 \<le> dsoc (sleep_reserve p u s e) \<and> dsoc (sleep_reserve p u s e) \<le> dsoc b" for p
    using g(1,2) [of p] de dc d by (auto simp: max_def split: if_splits)
  ultimately show "opt_all (\<lambda>(s, c). frame E b c \<and> 0 \<le> dsoc c \<and> dsoc c \<le> dsoc b)
     (case if dsoc c \<le> rsoc c then sleep_below c else sleep_above c of
        (s, e) \<Rightarrow> Some (s, sleep_reserve (s32 (pwroff_vol (pdata b))) u s e))"
    unfolding se by simp
qed

section \<open>The step relation\<close>

text \<open>The registers changed by the hardware are those the driver does not use as storage.\<close>

definition hw_change :: "'d kernel \<Rightarrow> 'd \<Rightarrow> 'd \<Rightarrow> bool" where
  "hw_change K d d' \<longleftrightarrow> (\<forall>f. stored_field f \<longrightarrow> regmap_field_read K d' f = regmap_field_read K d f)"

text \<open>The kernel during one event: the register access is the same, time and power supplies are arbitrary.\<close>

definition same_regmap :: "'d kernel \<Rightarrow> 'd kernel \<Rightarrow> bool" where
  "same_regmap K E \<longleftrightarrow> regmap_field_read E = regmap_field_read K \<and> regmap_field_write E = regmap_field_write K"

inductive battery_step :: "'d kernel \<Rightarrow> 'd rk817_battery_device \<Rightarrow> 'd rk817_battery_device \<Rightarrow> bool" for K where
  work: "same_regmap K E \<Longrightarrow> rk817_battery_work E b = Some b' \<Longrightarrow> battery_step K b b'"
| suspend: "same_regmap K E \<Longrightarrow> rk817_bat_pm_suspend E b = Some b' \<Longrightarrow> battery_step K b b'"
| resume: "same_regmap K E \<Longrightarrow> 0 \<le> sleep_dischrg_sec b \<Longrightarrow> sleep_dischrg_sec b + rk817_bat_rtc_sleep_sec E b \<le> sleep_limit \<Longrightarrow>
    rk817_bat_resume_work E b = Some b' \<Longrightarrow> battery_step K b b'"
| plug_in: "battery_step K b (rk809_plug_in_isr b)"
| plug_out: "battery_step K b (rk809_plug_out_isr b)"
| hardware: "hw_change K (regs b) d \<Longrightarrow> battery_step K b (b\<lparr>regs := d\<rparr>)"

inductive_cases battery_stepE: "battery_step K b b'"

definition battery_inv :: "'d kernel \<Rightarrow> 'd rk817_battery_device \<Rightarrow> bool" where
  "battery_inv K b \<longleftrightarrow> 0 \<le> dsoc b \<and> dsoc b \<le> 100000 \<and> work_mode b \<in> {MODE_ZERO, MODE_FINISH, MODE_SMOOTH} \<and>
     500 \<le> fcc b \<and> fcc b < 2147483648 \<and> soc_saved K b"

lemma same_regmap_soc: "same_regmap K E \<Longrightarrow> soc_of E d = soc_of K d" "same_regmap K E \<Longrightarrow> soc_saved E b = soc_saved K b"
  "same_regmap K E \<Longrightarrow> regmap_ok K \<Longrightarrow> regmap_ok E"
  by (simp_all add: same_regmap_def soc_of_def soc_saved_def prev_dsoc_soc_of)

lemma changed_range: "0 \<le> dsoc (rk817_bat_power_supply_changed b) \<and> dsoc (rk817_bat_power_supply_changed b) \<le> 100000"
  by (simp add: rk817_bat_power_supply_changed_def Let_def)

lemma lowpwr_frame: "frame E b (rk817_bat_lowpwr_check E b)"
  by (simp add: rk817_bat_lowpwr_check_def Let_def frame_def)

lemma changed_frame: "frame E b (rk817_bat_power_supply_changed b)"
  by (simp add: rk817_bat_power_supply_changed_def Let_def frame_def)

lemma save_data_carries:
  assumes "regmap_ok E" "0 \<le> dsoc b" "dsoc b \<le> 100000"
  shows "carries E b (rk817_bat_save_data E b)"
  using carries_trans [OF save_dsoc_carries [OF assms(1), of "dsoc b" b]] frame_carries [OF keeps_frame [OF save_cap_keeps [OF assms(1)]]] assms
  unfolding rk817_bat_save_data_def Let_def by auto

lemma calib_keeps:
  assumes "regmap_ok E"
  shows "keeps E b (if g then rk817_bat_field_write E CUR_CALIB_UPD 1 (rk817_bat_init_voltage_kb E (rk817_bat_current_calibration E b)) else b)"
proof (cases g)
  case True
  then show ?thesis using keeps_trans [OF keeps_trans [OF current_calibration_keeps [OF assms] voltage_kb_keeps] write_keeps [OF assms]] by simp
qed (simp add: keeps_def)

lemma work_inv:
  assumes E: "regmap_ok E" and inv: "battery_inv E b"
  shows "opt_all (\<lambda>b'. battery_inv E b' \<and> rk817_bat_get_prev_dsoc E b' = dsoc b' \<and> pdata b' = pdata b) (rk817_battery_work E b)"
  unfolding rk817_battery_work_def Let_def
proof (rule opt_after [OF update_info_keeps [OF E]], rule opt_after [OF display_smooth_mode_ok [OF E]])
  fix c d assume c: "keeps E b c" and d: "mode_ok E (rk817_bat_lowpwr_check E c) d"
  let ?e = "rk817_bat_power_supply_changed d"
  let ?f = "rk817_bat_save_data E ?e"
  have m: "mode_ok E b d" using d c lowpwr_frame [of E c] soc_saved_frame [of E b "rk817_bat_lowpwr_check E c"] frame_trans [OF keeps_frame [OF c] lowpwr_frame]
    by (auto simp: mode_ok_def keep_defs)
  have s: "soc_saved E ?e" using m inv soc_saved_frame [OF changed_frame] by (auto simp: mode_ok_def battery_inv_def)
  note r = changed_range [of d]
  note sv = save_dsoc_saved [OF E s]
  have cf: "carries E ?e ?f" using save_data_carries [OF E] r by blast
  have inv_f: "battery_inv E ?f"
    using m inv sv r cf changed_frame [of E d] by (auto simp: battery_inv_def mode_ok_def carries_def frame_def)
  have p: "rk817_bat_get_prev_dsoc E ?f = dsoc ?f" using sv r by simp
  have pd: "pdata ?f = pdata b" using m cf changed_frame [of E d] by (simp add: mode_ok_def carries_def frame_def)
  have "battery_inv E g \<and> rk817_bat_get_prev_dsoc E g = dsoc g \<and> pdata g = pdata b" if "keeps E ?f g" for g
    using that inv_f p pd soc_saved_frame [of E ?f g] by (auto simp: battery_inv_def keep_defs prev_dsoc_soc_of)
  then show "opt_all (\<lambda>b'. battery_inv E b' \<and> rk817_bat_get_prev_dsoc E b' = dsoc b' \<and> pdata b' = pdata b)
     (Some (if rk817_bat_field_read E ?f CUR_CALIB_UPD \<noteq> 0 then rk817_bat_field_write E CUR_CALIB_UPD 1
        (rk817_bat_init_voltage_kb E (rk817_bat_current_calibration E ?f)) else ?f))"
    using calib_keeps [OF E] by (simp only: opt_all_simps)
qed

lemma suspend_inv:
  assumes E: "regmap_ok E" and inv: "battery_inv E b"
  shows "opt_all (\<lambda>b'. battery_inv E b' \<and> rk817_bat_get_prev_dsoc E b' = dsoc b') (rk817_bat_pm_suspend E b)"
proof -
  let ?P = "\<lambda>b'. battery_inv E b' \<and> rk817_bat_get_prev_dsoc E b' = dsoc b'"
  have saved: "?P (rk817_bat_save_data E c)" if "keeps E b c" for c
  proof -
    have c: "battery_inv E c" using that inv soc_saved_frame [of E b c] by (auto simp: battery_inv_def keep_defs)
    then have "carries E c (rk817_bat_save_data E c)" using save_data_carries [OF E] by (simp add: battery_inv_def)
    then show ?thesis using c save_dsoc_saved [OF E, of c] by (auto simp: battery_inv_def carries_def)
  qed
  have mode: "?P (c\<lparr>work_mode := m, finish_base := x\<rparr>)" if "?P c" "m \<in> {MODE_ZERO, MODE_FINISH, MODE_SMOOTH}" for c m x
    using that by (auto simp: battery_inv_def soc_saved_def prev_dsoc_soc_of)
  have base: "?P (if g then c\<lparr>finish_base := x\<rparr> else c)" if "?P c" for c g x
    using that by (auto simp: battery_inv_def soc_saved_def prev_dsoc_soc_of)
  have prep: "opt_all ?P (rk817_bat_smooth_algo_prepare E (c\<lparr>work_mode := MODE_SMOOTH\<rparr>))" if "?P c" for c
  proof (rule opt_conseq [OF smooth_prepare_keeps])
    have c: "?P (c\<lparr>work_mode := MODE_SMOOTH\<rparr>)" using that by (auto simp: battery_inv_def soc_saved_def prev_dsoc_soc_of)
    fix d assume "keeps E (c\<lparr>work_mode := MODE_SMOOTH\<rparr>) d"
    then show "?P d" using c soc_saved_frame [of E "c\<lparr>work_mode := MODE_SMOOTH\<rparr>" d] by (auto simp: battery_inv_def keep_defs prev_dsoc_soc_of)
  qed
  show ?thesis unfolding rk817_bat_pm_suspend_def Let_def
    by (intro opt_bind_any opt_if prep base saved; (simp only: opt_all_simps)?; (intro mode base saved)?)
      (simp_all add: keep_defs)
qed

lemma save_data_inv:
  assumes E: "regmap_ok E" and inv: "battery_inv E c"
  shows "battery_inv E (rk817_bat_save_data E c)" "rk817_bat_get_prev_dsoc E (rk817_bat_save_data E c) = dsoc (rk817_bat_save_data E c)"
proof -
  have "carries E c (rk817_bat_save_data E c)" using save_data_carries [OF E] inv by (simp add: battery_inv_def)
  then show "battery_inv E (rk817_bat_save_data E c)" "rk817_bat_get_prev_dsoc E (rk817_bat_save_data E c) = dsoc (rk817_bat_save_data E c)"
    using inv save_dsoc_saved [OF E, of c] by (auto simp: battery_inv_def carries_def)
qed

lemma resume_measure_keeps:
  "opt_all (\<lambda>c. keeps E b c \<and> rtc_base c = rtc_base b \<and> (500 \<le> fcc b \<longrightarrow> rsoc_ok c)) (resume_measure E b)"
proof -
  have r: "opt_all (\<lambda>r. 500 \<le> fcc c \<longrightarrow> - 10000000 \<le> r \<and> r \<le> 10000000) (rk817_bat_get_rsoc E c)" for c
    using get_rsoc_bound [of E c] by (simp add: opt_all_def)
  show ?thesis unfolding resume_measure_def Let_def
    by (rule opt_bind_any, rule opt_bind_any, rule opt_bind_any, rule opt_after [OF r]) (simp add: keep_defs rsoc_ok_def)
qed

lemma resume_inv:
  assumes E: "regmap_ok E" and inv: "battery_inv E b"
    and t: "0 \<le> sleep_dischrg_sec b" "sleep_dischrg_sec b + rk817_bat_rtc_sleep_sec E b \<le> sleep_limit"
  shows "opt_all (\<lambda>b'. battery_inv E b' \<and> rk817_bat_get_prev_dsoc E b' = dsoc b') (rk817_bat_resume_work E b)"
  unfolding rk817_bat_resume_work_def Let_def
proof (rule opt_after [OF resume_measure_keeps], rule opt_after [where Q = "battery_inv E"])
  fix c assume c: "keeps E (b\<lparr>s2r := True\<rparr>) c \<and> rtc_base c = rtc_base (b\<lparr>s2r := True\<rparr>) \<and> (500 \<le> fcc (b\<lparr>s2r := True\<rparr>) \<longrightarrow> rsoc_ok c)"
  have kc: "keeps E b c" and rb: "rtc_base c = rtc_base b" and rc: "rsoc_ok c"
    using c inv by (auto simp: keep_defs battery_inv_def)
  have ic: "battery_inv E c" using kc inv soc_saved_frame [of E b c] by (auto simp: battery_inv_def keep_defs)
  have sec: "rk817_bat_rtc_sleep_sec E c = rk817_bat_rtc_sleep_sec E b" "0 \<le> rk817_bat_rtc_sleep_sec E b"
    using rb by (simp_all add: rk817_bat_rtc_sleep_sec_def Let_def)
  let ?n = "rk817_bat_rtc_sleep_sec E c"
  let ?d = "c\<lparr>sleep_sum_sec := u64 (sleep_sum_sec c + ?n)\<rparr>"
  let ?e = "if \<not> sleep_chrg_online ?d then ?d\<lparr>sleep_dischrg_sec := u64 (sleep_dischrg_sec ?d + ?n)\<rparr> else ?d"
  have n: "u64 (sleep_dischrg_sec c + ?n) = sleep_dischrg_sec b + rk817_bat_rtc_sleep_sec E b"
    using sec t kc by (simp add: u64_def keep_defs)
  have ie: "battery_inv E ?e" using ic by (simp add: battery_inv_def soc_saved_def prev_dsoc_soc_of)
  have dis: "opt_all (\<lambda>(s, c). frame E ?e c \<and> 0 \<le> dsoc c \<and> dsoc c \<le> dsoc ?e) (rk817_bat_sleep_dischrg E ?e)"
    using ie sleep_dischrg_range [OF E, of ?e] n t sec rc kc by (simp add: battery_inv_def rsoc_ok_def keep_defs)
  show "opt_all (battery_inv E) (if \<not> sleep_chrg_online ?e \<and> ts < sleep_dischrg_sec ?e
      then rk817_bat_sleep_dischrg E ?e \<bind> (\<lambda>(s, b). Some (if s \<noteq> 0 then b\<lparr>sleep_dischrg_sec := 0\<rparr> else b)) else Some ?e)" for ts
  proof (rule opt_if, rule opt_after [OF dis], clarify)
    fix s g assume g: "frame E ?e g" "0 \<le> dsoc g" "dsoc g \<le> dsoc ?e"
    then have "battery_inv E g" using ie soc_saved_frame [OF g(1)] by (auto simp: battery_inv_def frame_def)
    then show "opt_all (battery_inv E) (Some (if s \<noteq> 0 then g\<lparr>sleep_dischrg_sec := 0\<rparr> else g))"
      by (simp add: battery_inv_def soc_saved_def prev_dsoc_soc_of)
  qed (simp only: opt_all_simps ie)
qed (simp add: save_data_inv [OF E])

lemma hardware_inv:
  assumes "hw_change K (regs b) d" "battery_inv K b"
  shows "battery_inv K (b\<lparr>regs := d\<rparr>)"
proof -
  have "stored_field SOC_REG0" "stored_field SOC_REG1" "stored_field SOC_REG2" by (simp_all add: stored_field_def)
  then have "soc_of K d = soc_of K (regs b)" using assms(1) by (simp add: hw_change_def soc_of_def)
  then show ?thesis using assms(2) by (simp add: battery_inv_def soc_saved_def prev_dsoc_soc_of)
qed

lemma plug_inv: "battery_inv K b \<Longrightarrow> battery_inv K (rk809_plug_in_isr b)" "battery_inv K b \<Longrightarrow> battery_inv K (rk809_plug_out_isr b)"
  by (simp_all add: battery_inv_def soc_saved_def prev_dsoc_soc_of rk809_plug_in_isr_def rk809_plug_out_isr_def Let_def)

lemma same_regmap_inv: "same_regmap K E \<Longrightarrow> battery_inv E b = battery_inv K b" "same_regmap K E \<Longrightarrow> rk817_bat_get_prev_dsoc E b = rk817_bat_get_prev_dsoc K b"
  by (simp_all add: battery_inv_def same_regmap_soc prev_dsoc_soc_of)

lemma step_inv:
  assumes K: "regmap_ok K" and s: "battery_step K b b'" and inv: "battery_inv K b"
  shows "battery_inv K b'"
  using s
proof (cases rule: battery_step.cases)
  case (work E)
  note E = same_regmap_soc(3) [OF work(1) K] and eq = same_regmap_inv(1) [OF work(1)]
  show ?thesis using opt_allD [OF work_inv [OF E] work(2)] inv by (simp add: eq)
next
  case (suspend E)
  note E = same_regmap_soc(3) [OF suspend(1) K] and eq = same_regmap_inv(1) [OF suspend(1)]
  show ?thesis using opt_allD [OF suspend_inv [OF E] suspend(2)] inv by (simp add: eq)
next
  case (resume E)
  note E = same_regmap_soc(3) [OF resume(1) K] and eq = same_regmap_inv(1) [OF resume(1)]
  show ?thesis using opt_allD [OF resume_inv [OF E _ resume(2,3)] resume(4)] inv by (simp add: eq)
next
  case plug_in
  then show ?thesis using plug_inv(1) [OF inv] by simp
next
  case plug_out
  then show ?thesis using plug_inv(2) [OF inv] by simp
next
  case (hardware d)
  then show ?thesis using hardware_inv inv by simp
qed

section \<open>Properties\<close>

text \<open>
  C26. The driver keeps its display charge sound under every sequence of events: after any number of
  periodic runs, suspends, resumes (with at most three years of accumulated sleep), plug interrupts
  and hardware updates of the measuring registers, the display charge lies between 0 and 100 percent,
  the mode is one of the three the driver uses, and the saved charge in the registers agrees with the
  variable that suppresses repeated writes.\<close>

theorem battery_invariant:
  assumes "register_fields (regmap_field_read K) (regmap_field_write K)" "battery_inv K b" "(battery_step K)\<^sup>*\<^sup>* b b'"
  shows "battery_inv K b'"
  using assms(3,2) by (induction rule: rtranclp_induct) (blast intro: step_inv [OF assms(1)])+

definition plugged_in :: "reg_file rk817_battery_device" where
  "plugged_in = rk809_plug_out_isr (rk809_plug_in_isr sample_battery)"

theorem battery_invariant_witness: "battery_inv (byte_kernel 0) plugged_in"
proof -
  have "battery_inv (byte_kernel 0) sample_battery"
    by (simp add: battery_inv_def soc_saved_def sample_battery_def zeroed_battery_def)
  moreover have "(battery_step (byte_kernel 0))\<^sup>*\<^sup>* sample_battery plugged_in"
    unfolding plugged_in_def by (meson battery_step.plug_in battery_step.plug_out converse_rtranclp_into_rtranclp rtranclp.rtrancl_refl)
  ultimately show ?thesis using battery_invariant [OF byte_kernel_ok] by blast
qed

end
