(* ===== verification/RK817_Total.thy ===== *)
theory RK817_Total
  imports RK817_Machine
begin

text \<open>
  When the fuel gauge driver returns: the divisions of the periodic work, and the one that fails when
  no current flows.
\<close>

section \<open>Operations that return\<close>

definition returns :: "'a option \<Rightarrow> bool" where
  "returns m \<longleftrightarrow> (\<exists>x. m = Some x)"

lemma returns_Some [simp]: "returns (Some x)" "returns (Some x \<bind> f) = returns (f x)"
  by (simp_all add: returns_def)

lemma returns_bind: "returns m \<Longrightarrow> (\<And>x. m = Some x \<Longrightarrow> returns (f x)) \<Longrightarrow> returns (m \<bind> f)"
  by (auto simp: returns_def)

lemma returns_after: "returns m \<Longrightarrow> opt_all Q m \<Longrightarrow> (\<And>x. Q x \<Longrightarrow> returns (f x)) \<Longrightarrow> returns (m \<bind> f)"
  by (auto simp: returns_def opt_all_def)

lemma returns_if: "(c \<Longrightarrow> returns a) \<Longrightarrow> (\<not> c \<Longrightarrow> returns b) \<Longrightarrow> returns (if c then a else b)"
  by simp

lemma returns_divz: "b \<noteq> 0 \<Longrightarrow> returns (divz a b)"
  by (simp add: returns_def divz_def)

text \<open>
  A device that was set up as the probe function leaves it: not the RK809 board, a sampling resistor,
  a plausible capacity and a documented voltage table.
\<close>

definition ready :: "'d rk817_battery_device \<Rightarrow> bool" where
  "ready b \<longleftrightarrow> chip_id b \<noteq> 0x8090 \<and> res_div b \<in> {1, 2} \<and> 500 \<le> fcc b \<and> fcc b < 32767 \<and>
     ocv_table_ok (ocv_table (pdata b)) \<and> ocv_size (pdata b) = int (length (ocv_table (pdata b)))"

lemma frame_ready: "frame E b b' \<Longrightarrow> ready b = ready b'"
  by (simp add: frame_def ready_def)

lemma voltages_return:
  assumes "ready b"
  shows "returns (rk817_bat_get_battery_voltage E b)" "returns (rk817_bat_get_sys_voltage E b)"
    "returns (rk817_bat_get_USB_voltage E b)"
  using assms
  by (simp_all add: ready_def rk817_bat_get_battery_voltage_def rk817_bat_get_sys_voltage_def rk817_bat_get_USB_voltage_def
      rk809_divider_def rk817_bat_field_write_def Let_def)

lemma readings_return:
  assumes "ready b"
  shows "returns (rk817_bat_get_avg_current E b)" "returns (rk817_bat_get_capacity_uah E b)"
    "returns (rk817_bat_get_capacity_mah E b)" "returns (rk817_bat_get_rsoc E b)"
  using assms
  by (auto simp: ready_def rk817_bat_get_avg_current_def adc_current_def ADC_TO_CURRENT_def rk817_bat_get_capacity_uah_def
      rk817_bat_get_capacity_mah_def rk817_bat_get_rsoc_def returns_def divz_def)

lemma init_coulomb_returns: "ready b \<Longrightarrow> returns (rk817_bat_init_coulomb_cap E c b)"
  by (simp add: rk817_bat_init_coulomb_cap_def Let_def write_quad_def rk817_bat_field_write_def ready_def divz_def)

lemma prepare_returns: "ready b \<Longrightarrow> returns (rk817_bat_smooth_algo_prepare E b)" "ready b \<Longrightarrow> returns (rk817_bat_calc_sm_linek E b)"
proof -
  show calc: "returns (rk817_bat_calc_sm_linek E b)" if "ready b" for b
    unfolding rk817_bat_calc_sm_linek_def Let_def by (rule returns_bind [OF readings_return(1) [OF that]]) simp
  show "returns (rk817_bat_smooth_algo_prepare E b)" if "ready b"
    unfolding rk817_bat_smooth_algo_prepare_def using that by (intro calc) (simp add: ready_def)
qed

lemma vol_to_returns:
  assumes "ready b" "is_s32 v"
  shows "returns (rk817_bat_vol_to_soc b v)" "returns (rk817_bat_vol_to_cap b v)"
  using interpolate_total [of "ocv_table (pdata b)" v] assms
  by (auto simp: rk817_bat_vol_to_soc_def rk817_bat_vol_to_cap_def ready_def returns_def)

lemma zero_linek_returns:
  assumes r: "ready b" and c: "rk817_bat_get_avg_current E b = Some c" "c \<noteq> 0"
  shows "returns (rk817_bat_calc_zero_linek E b)"
  unfolding rk817_bat_calc_zero_linek_def Let_def c(1)
  by (rule returns_bind [OF voltages_return(1) [OF r]], simp only: returns_Some,
      rule returns_bind [OF returns_divz [OF c(2)]], intro returns_bind vol_to_returns r s32_range) simp

lemma zero_linek_fails:
  assumes "rk817_bat_get_avg_current E b = Some 0"
  shows "rk817_bat_calc_zero_linek E b = None"
  by (cases "rk817_bat_get_battery_voltage E b") (simp_all add: rk817_bat_calc_zero_linek_def Let_def assms divz_def)

text \<open>The gauge measures some current.\<close>

definition flows :: "'d kernel \<Rightarrow> 'd rk817_battery_device \<Rightarrow> bool" where
  "flows E b \<longleftrightarrow> rk817_bat_get_avg_current E b \<noteq> Some 0"

lemma avg_current_cong:
  assumes "current_of E (regs b') = current_of E (regs b)" "res_div b' = res_div b"
  shows "rk817_bat_get_avg_current E b' = rk817_bat_get_avg_current E b"
  using assms by (simp add: rk817_bat_get_avg_current_def read_pair_def rk817_bat_field_read_def current_of_def adc_current_def)

lemma carries_ready: "carries E b b' \<Longrightarrow> ready b \<Longrightarrow> ready b'" "measured E \<Longrightarrow> carries E b b' \<Longrightarrow> flows E b \<Longrightarrow> flows E b'"
  using avg_current_cong [of E b' b] by (simp_all add: carries_def ready_def flows_def)

lemma frame_flows: "measured E \<Longrightarrow> frame E b b' \<Longrightarrow> flows E b \<Longrightarrow> flows E b'"
  using carries_ready(2) frame_carries by blast

lemma zero_linek_total: "ready b \<Longrightarrow> flows E b \<Longrightarrow> returns (rk817_bat_calc_zero_linek E b)"
  using readings_return(1) [of b E] zero_linek_returns [of b E] by (auto simp: flows_def returns_def)

lemma zero_prepare_total:
  assumes "measured E" "ready b" "flows E b"
  shows "returns (rk817_bat_zero_algo_prepare E b)"
  unfolding rk817_bat_zero_algo_prepare_def
  by (rule zero_linek_total) (use assms in \<open>simp_all add: ready_def frame_flows [OF assms(1) _ assms(3)] frame_def\<close>)

section \<open>The algorithms return\<close>

lemma calc_sm_linek_frame: "opt_all (frame E b) (rk817_bat_calc_sm_linek E b)"
  by (rule opt_conseq [OF calc_sm_linek_keeps]) (rule keeps_frame)

lemma calc_zero_linek_frame: "frame E b c \<Longrightarrow> opt_all (frame E b) (rk817_bat_calc_zero_linek E c)"
  by (rule opt_conseq [OF calc_zero_linek_lowers]) (use frame_trans in \<open>auto simp: lowers_def\<close>)

lemma zero_algorithm_total:
  assumes E: "regmap_ok E" "measured E" and r: "ready b" "flows E b"
  shows "returns (rk817_bat_zero_algorithm E b)"
proof -
  have alg: "frame E c (rk817_bat_calc_zero_algorithm c)" for c by (simp add: rk817_bat_calc_zero_algorithm_def frame_def)
  have first: "returns (if g then rk817_bat_calc_zero_linek E (rk817_bat_calc_zero_algorithm c) else Some d)"
      "opt_all (frame E b) (if g then rk817_bat_calc_zero_linek E (rk817_bat_calc_zero_algorithm c) else Some d)"
    if "frame E b c" "frame E b d" for g c d
  proof -
    have f: "frame E b (rk817_bat_calc_zero_algorithm c)" using frame_trans [OF that(1) alg] .
    show "returns (if g then rk817_bat_calc_zero_linek E (rk817_bat_calc_zero_algorithm c) else Some d)"
      using zero_linek_total [OF _ frame_flows [OF E(2) f r(2)]] frame_ready [OF f] r by simp
    show "opt_all (frame E b) (if g then rk817_bat_calc_zero_linek E (rk817_bat_calc_zero_algorithm c) else Some d)"
      using calc_zero_linek_frame [OF f] that by simp
  qed
  have second: "returns (if g then rk817_bat_init_coulomb_cap E x c \<bind> rk817_bat_calc_zero_linek E else Some c)" if c: "frame E b c" for g x c
  proof (rule returns_if, rule returns_after [OF init_coulomb_returns init_coulomb_cap_keeps [OF E(1)]])
    show "ready c" using frame_ready [OF c] r by simp
    then show "returns (rk817_bat_calc_zero_linek E d)" if "keeps E c d" for d
      using zero_linek_total [OF _ frame_flows [OF E(2) frame_trans [OF c keeps_frame [OF that]] r(2)]]
        frame_ready [OF keeps_frame [OF that]] by simp
  qed simp
  show ?thesis unfolding rk817_bat_zero_algorithm_def Let_def
    by (rule returns_after [OF first(1) first(2) second]) (simp_all add: frame_def)
qed

lemma smooth_algorithm_total:
  assumes r: "ready b"
  shows "returns (rk817_bat_smooth_algorithm E b)"
proof -
  have first: "returns (if g then rk817_bat_calc_sm_linek E b else Some b)" "opt_all (frame E b) (if g then rk817_bat_calc_sm_linek E b else Some b)" for g
    using prepare_returns(2) [OF r, of E] calc_sm_linek_frame [of E b] by simp_all
  have tail: "returns (case p of (d, ret) \<Rightarrow> if ret then Some d else if s2r d then rk817_bat_calc_sm_linek E (d\<lparr>s2r := False\<rparr>) else Some d)"
    if "ready (fst p)" for p :: "'a rk817_battery_device \<times> bool"
    using that prepare_returns(2) [of "fst p\<lparr>s2r := False\<rparr>" E] by (cases p) (simp add: ready_def)
  have both: "ready (fst (if g then (rk817_bat_calc_smooth_dischrg (c\<lparr>remain_cap := x, sm_remain_cap := y, smooth_soc := z\<rparr>), False)
       else smooth_chrg (c\<lparr>remain_cap := x, sm_remain_cap := y, smooth_soc := z\<rparr>)))" if "ready c" for c :: "'a rk817_battery_device" and g x y z
    using that frame_ready [OF smooth_parts_frame(1)] frame_ready [OF smooth_parts_frame(2)]
    by (simp add: rk817_bat_calc_smooth_dischrg_def smooth_chrg_def Let_def ready_def)
  have cap: "returns (rk817_bat_get_capacity_uah E c)" if "frame E b c" for c
    using readings_return(2) frame_ready [OF that] r by blast
  show ?thesis unfolding rk817_bat_smooth_algorithm_def smooth_move_def Let_def
    by (rule returns_after [OF first], rule returns_bind [OF cap], assumption, intro returns_if tail both)
      (use frame_ready r in \<open>auto\<close>)
qed

lemma finish_step_total: "ready b \<Longrightarrow> returns (finish_step E b)"
proof -
  assume r: "ready b"
  have f: "500 \<le> fcc b" "fcc b < 32767" using r by (simp_all add: ready_def)
  have e: "s32 (fcc b * 3600) = fcc b * 3600" using f by (simp add: is_s32_def)
  have "18000 \<le> fcc b * 3600 div 100" using f by simp
  then have "12 \<le> fcc b * 3600 div 100 div 1500" "18 \<le> fcc b * 3600 div 100 div 1000"
    using zdiv_mono1 [of 18000 "fcc b * 3600 div 100" 1500] zdiv_mono1 [of 18000 "fcc b * 3600 div 100" 1000] by simp_all
  moreover have "fcc b * 3600 div 100 div 1500 < 18446744073709551616" "fcc b * 3600 div 100 div 1000 < 18446744073709551616"
    using f by linarith+
  ultimately have nz: "u64 (cdiv (cdiv (s32 (fcc b * 3600)) 100) (DIV (if g then 1500 else 1000))) \<noteq> 0" for g
    using f by (simp add: e u64_def DIV_def)
  have fc: "fcc (if g then b\<lparr>finish_base := x\<rparr> else b) = fcc b" for g x by simp
  show ?thesis unfolding finish_step_def Let_def fc by (intro returns_if) (simp_all only: returns_Some nz)
qed

lemma finish_algorithm_total:
  assumes E: "regmap_ok E" and r: "ready b"
  shows "returns (rk817_bat_finish_algorithm E b)"
proof -
  have first: "returns (if g then rk817_bat_init_coulomb_cap E x c \<bind> (\<lambda>b. rk817_bat_get_capacity_mah E b \<bind> (\<lambda>_. Some b)) else Some b)"
      "opt_all ready (if g then rk817_bat_init_coulomb_cap E x c \<bind> (\<lambda>b. rk817_bat_get_capacity_mah E b \<bind> (\<lambda>_. Some b)) else Some b)"
    if "ready c" for g x c
  proof -
    have k: "opt_all ready (rk817_bat_init_coulomb_cap E x c)"
      by (rule opt_conseq [OF init_coulomb_cap_keeps [OF E]]) (use frame_ready keeps_frame that in blast)
    show "returns (if g then rk817_bat_init_coulomb_cap E x c \<bind> (\<lambda>b. rk817_bat_get_capacity_mah E b \<bind> (\<lambda>_. Some b)) else Some b)"
      by (rule returns_if, rule returns_after [OF init_coulomb_returns [OF that] k], rule returns_bind [OF readings_return(3)]) simp_all
    show "opt_all ready (if g then rk817_bat_init_coulomb_cap E x c \<bind> (\<lambda>b. rk817_bat_get_capacity_mah E b \<bind> (\<lambda>_. Some b)) else Some b)"
      by (rule opt_if, rule opt_after [OF k], rule opt_bind_any) (simp_all add: r)
  qed
  have age: "ready (b\<lparr>age_adjust_cap := x\<rparr>)" for x using r by (simp add: ready_def)
  show ?thesis unfolding rk817_bat_finish_algorithm_def
    by (rule returns_after [OF first(1) [OF age] first(2) [OF age]], rule returns_if, rule returns_bind [OF finish_step_total]) simp_all
qed

lemma to_mode_returns: "returns m \<Longrightarrow> returns (to_mode md m)"
  by (auto simp: returns_def to_mode_def)

lemma display_smooth_total:
  assumes E: "regmap_ok E" "measured E" and r: "ready b" "flows E b"
  shows "returns (rk817_bat_display_smooth E b)"
proof -
  note ze = zero_prepare_total [OF E(2)] and sm = prepare_returns(1)
  have ready: "ready c" "flows E c" if "carries E b c" for c using carries_ready(1) [OF that r(1)] carries_ready(2) [OF E(2) that r(2)] by simp_all
  have "carries E b (b\<lparr>s2r := False\<rparr>)" by (rule frame_carries) (simp add: frame_def)
  note r' = ready [OF this]
  have zf: "opt_all (carries E b) (rk817_bat_zero_algorithm E b)" "opt_all (carries E b) (rk817_bat_smooth_algorithm E b)"
    by (rule opt_conseq [OF zero_algorithm_frame [OF E(1)] frame_carries], assumption)
      (rule opt_conseq [OF smooth_algorithm_frame frame_carries])
  have zp: "opt_all ready (rk817_bat_zero_algo_prepare E (b\<lparr>s2r := False\<rparr>))"
    by (rule opt_conseq [OF zero_prepare_lowers]) (use r'(1) frame_ready in \<open>auto simp: lowers_def\<close>)
  note after = returns_after [OF finish_algorithm_total [OF E(1) r(1)] finish_algorithm_carries [OF E(1)]]
    returns_after [OF zero_algorithm_total [OF E r] zf(1)] returns_after [OF smooth_algorithm_total [OF r(1)] zf(2)]
  have nxt: "returns (to_mode MODE_ZERO (rk817_bat_zero_algo_prepare E c))" "returns (to_mode MODE_SMOOTH (rk817_bat_smooth_algo_prepare E c))"
    "returns (to_mode MODE_FINISH (Some d))" if "carries E b c" for c d
    using ze [OF ready [OF that]] sm [OF ready(1) [OF that]] by (simp_all add: to_mode_returns)
  show ?thesis unfolding rk817_bat_display_smooth_def
  proof (intro returns_if)
    show "returns (rk817_bat_zero_algo_prepare E (b\<lparr>s2r := False\<rparr>) \<bind> rk817_bat_smooth_algo_prepare E)"
      by (rule returns_after [OF ze [OF r'] zp]) (rule sm)
  qed (rule after; intro returns_if nxt returns_Some; assumption)+
qed

lemma update_info_total:
  assumes E: "regmap_ok E" and r: "ready b"
  shows "returns (rk817_bat_update_info E b)"
proof -
  have gauge: "returns (read_gauge E b)" unfolding read_gauge_def Let_def
    by (intro returns_bind voltages_return readings_return returns_Some) (use r in \<open>simp_all add: ready_def\<close>)
  have over: "returns (reset_overfull E c)" if "ready c" for c
  proof -
    have c': "ready (c\<lparr>sm_remain_cap := x\<rparr>)" for x using that by (simp add: ready_def)
    have k: "opt_all ready (rk817_bat_init_coulomb_cap E x d)" if "ready d" for x d
      by (rule opt_conseq [OF init_coulomb_cap_keeps [OF E]]) (use frame_ready keeps_frame that in blast)
    show ?thesis unfolding reset_overfull_def
    proof (rule returns_if, rule returns_after [OF init_coulomb_returns [OF c'] k [OF c']])
      fix d :: "'a rk817_battery_device" assume d: "ready d"
      show "returns (rk817_bat_init_coulomb_cap E (u32 (fcc d)) d \<bind> (\<lambda>b. rk817_bat_get_capacity_mah E b \<bind> (\<lambda>_. Some b)))"
        by (rule returns_after [OF init_coulomb_returns [OF d] k [OF d]], rule returns_bind [OF readings_return(3)]) simp_all
    qed simp
  qed
  show ?thesis unfolding rk817_bat_update_info_def Let_def
  proof (rule returns_after [OF gauge read_gauge_keeps])
    fix c assume "keeps E b c"
    then have c: "ready c" using frame_ready keeps_frame r by blast
    show "returns (rk817_bat_get_USB_voltage E c \<bind> (\<lambda>(vu, b). reset_overfull E (rk817_bat_update_charging_status E
        (b\<lparr>voltage_usb := vu, chrg_status := get_charge_status E (b\<lparr>voltage_usb := vu\<rparr>)\<rparr>)) \<bind>
        (\<lambda>b. Some (if chrg_status b \<noteq> CHARGE_FINISH then b\<lparr>finish_base := get_boot_sec E\<rparr> else b))))"
    proof (rule returns_after [OF voltages_return(3) [OF c] USB_voltage_keeps [OF E]], clarify, rule returns_bind [OF over])
      fix v d assume "keeps E c d"
      then have "ready (d\<lparr>voltage_usb := v, chrg_status := x\<rparr>)" for x using c frame_ready keeps_frame [of E c d] by (auto simp: ready_def frame_def keeps_def)
      then show "ready (rk817_bat_update_charging_status E (d\<lparr>voltage_usb := v, chrg_status := get_charge_status E (d\<lparr>voltage_usb := v\<rparr>)\<rparr>))"
        using frame_ready [OF keeps_frame [OF update_charging_keeps]] by blast
    qed simp
  qed
qed

lemma work_total:
  assumes E: "regmap_ok E" "measured E" and r: "ready b" "flows E b"
  shows "returns (rk817_battery_work E b)"
  unfolding rk817_battery_work_def Let_def
proof (rule returns_after [OF update_info_total [OF E(1) r(1)] update_info_keeps [OF E(1)]], rule returns_bind [OF display_smooth_total [OF E]])
  fix c assume "keeps E b c"
  then have "frame E b (rk817_bat_lowpwr_check E c)" using frame_trans [OF keeps_frame lowpwr_frame] by blast
  then show "ready (rk817_bat_lowpwr_check E c)" "flows E (rk817_bat_lowpwr_check E c)"
    using frame_ready frame_flows [OF E(2)] r by blast+
qed simp

section \<open>Properties\<close>

text \<open>
  C27. One run of \<^verbatim>\<open>rk817_battery_work\<close> reports what it saves: when it returns, the registers hold the
  display charge, and \<^verbatim>\<open>POWER_SUPPLY_PROP_CAPACITY\<close> is that charge rounded to a percentage between 0
  and 100. Only in the virtual mode, without a battery, it is the constant 66.\<close>

theorem battery_work_reports:
  assumes "register_fields (regmap_field_read E) (regmap_field_write E)" "battery_inv E b"
    and "rk817_battery_work E b = Some b'"
  shows "rk817_bat_get_prev_dsoc E b' = dsoc b' \<and>
    (\<exists>c. rk817_battery_get_property E POWER_SUPPLY_PROP_CAPACITY b' = (Inr c, b') \<and>
      (if bat_mode (pdata b) = MODE_VIRTUAL then c = 66
       else 0 \<le> c \<and> c \<le> 100 \<and> \<bar>1000 * c - dsoc b'\<bar> \<le> 500))"
proof -
  have i: "battery_inv E b'" "rk817_bat_get_prev_dsoc E b' = dsoc b'" "pdata b' = pdata b"
    using opt_allD [OF work_inv [OF assms(1,2)] assms(3)] by simp_all
  then have d: "0 \<le> dsoc b'" "dsoc b' \<le> 100000" by (simp_all add: battery_inv_def)
  have "s32 (dsoc b' + 500) = dsoc b' + 500" using d by (simp add: is_s32_def)
  then have "rk817_battery_get_property E POWER_SUPPLY_PROP_CAPACITY b' =
      (Inr (if bat_mode (pdata b) = MODE_VIRTUAL then 66 else (dsoc b' + 500) div 1000), b')"
    using d i(3) by (simp add: rk817_battery_get_property_def)
  then show ?thesis using i(2) rounded [OF d] by simp
qed

text \<open>
  C28. The zero algorithm divides by the measured current (\<^verbatim>\<open>powerpatch_res\<close>): on a device that is set
  up as documented \<^verbatim>\<open>rk817_bat_calc_zero_linek\<close> returns if and only if the current is not zero.\<close>

theorem zero_linek_needs_current:
  assumes "ready b"
  shows "rk817_bat_calc_zero_linek E b = None \<longleftrightarrow> rk817_bat_get_avg_current E b = Some 0"
proof
  assume "rk817_bat_calc_zero_linek E b = None"
  then show "rk817_bat_get_avg_current E b = Some 0"
    using readings_return(1) [OF assms, of E] zero_linek_returns [OF assms, of E] by (auto simp: returns_def)
qed (rule zero_linek_fails)

lemma sample_ready: "ready sample_battery"
  by (simp add: ready_def sample_battery_def zeroed_battery_def sample_table_ok) (simp add: sample_pdata_def)

theorem zero_linek_needs_current_witness: "rk817_bat_calc_zero_linek (byte_kernel 0) sample_battery = None"
proof -
  have z: "field_get (\<lambda>_. 0) f = (0, 0)" for f by (simp add: field_get_def Let_def)
  have "rk817_bat_get_avg_current (byte_kernel 0) sample_battery = Some 0"
    by (simp add: rk817_bat_get_avg_current_def read_pair_def rk817_bat_field_read_def byte_kernel_def sample_battery_def
        zeroed_battery_def adc_current_def ADC_TO_CURRENT_def divz_def z cdiv_def s32_def)
  then show ?thesis using zero_linek_needs_current [OF sample_ready, of "byte_kernel 0"] by simp
qed

text \<open>
  C29. The periodic work comes back: on a device of the RK817 kind that is set up as documented (\<open>ready\<close>: a
  sampling resistor, a capacity between 500 and 32766 mAh, a rising voltage table), with registers that
  store what is written and a measured current that other writes leave alone, one run of
  \<^verbatim>\<open>rk817_battery_work\<close> returns in every mode and at every charge, if the current measured in this run is not
  zero. (With a current of zero the zero algorithm divides by it.)\<close>

theorem battery_work_total:
  assumes "register_fields (regmap_field_read E) (regmap_field_write E)"
    and "measured_current (regmap_field_read E) (regmap_field_write E)"
    and "ready b" "rk817_bat_get_avg_current E b \<noteq> Some 0"
  shows "\<exists>b'. rk817_battery_work E b = Some b'"
  using work_total [OF assms(1-3)] assms(4) by (simp add: returns_def flows_def)

text \<open>The register file with a discharge current in its two bytes.\<close>

definition drained_battery :: "reg_file rk817_battery_device" where
  "drained_battery = sample_battery\<lparr>regs := (\<lambda>_. 0)(reg (rk817_battery_reg_fields ! BAT_CUR_H) := 255)\<rparr>"

lemma byte_kernel_measured: "measured (byte_kernel t)"
  using byte_current.measured_current_axioms by (simp add: byte_kernel_def)

lemma drained_reading:
  assumes "regs b = regs drained_battery" "res_div b = 2"
  shows "rk817_bat_get_avg_current (byte_kernel t) b = Some (- 22)"
proof -
  have "field_get (regs drained_battery) BAT_CUR_H = (0, 255)" "field_get (regs drained_battery) BAT_CUR_L = (0, 0)"
    by (simp_all add: field_get_def drained_battery_def rk817_battery_reg_fields_def)
  then have p: "read_pair (byte_kernel t) b BAT_CUR_H BAT_CUR_L = 65280"
    using assms(1) by (simp add: read_pair_def rk817_bat_field_read_def byte_kernel_def push_bit_eq_mult is_s32_def)
  have m: "(65280::int) AND 32768 \<noteq> 0" by simp
  show ?thesis unfolding rk817_bat_get_avg_current_def p adc_current_def ADC_TO_CURRENT_def
    using assms by (auto simp: m divz_def cdiv_def s32_def)
qed

lemma drained: "ready drained_battery" "rk817_bat_get_avg_current (byte_kernel t) drained_battery \<noteq> Some 0"
  "battery_inv K drained_battery"
  using sample_ready drained_reading [of drained_battery t]
  by (simp_all add: drained_battery_def ready_def battery_inv_def soc_saved_def sample_battery_def zeroed_battery_def)

theorem battery_work_total_witness: "\<exists>b'. rk817_battery_work (byte_kernel 0) drained_battery = Some b'"
  by (rule battery_work_total [OF byte_kernel_ok byte_kernel_measured drained(1,2)])

theorem battery_work_reports_witness:
  "\<exists>b' c. rk817_battery_work (byte_kernel 0) drained_battery = Some b' \<and> rk817_bat_get_prev_dsoc (byte_kernel 0) b' = dsoc b' \<and>
     fst (rk817_battery_get_property (byte_kernel 0) POWER_SUPPLY_PROP_CAPACITY b') = Inr c \<and> \<bar>1000 * c - dsoc b'\<bar> \<le> 500"
proof -
  obtain b' where w: "rk817_battery_work (byte_kernel 0) drained_battery = Some b'"
    using work_total [OF byte_kernel_ok byte_kernel_measured drained(1)] drained(2) by (auto simp: returns_def flows_def)
  have "bat_mode (pdata drained_battery) = 0" by (simp add: drained_battery_def sample_pdata_def zeroed_pdata_def)
  then show ?thesis using battery_work_reports [OF byte_kernel_ok drained(3) w] w by auto
qed

end
