(* ===== verification/RK817_Charge_Props.thy ===== *)
theory RK817_Charge_Props
  imports RK817_Total
begin

text \<open>
  How fast the displayed charge moves, what the driver displays after a long power-off, and what it
  makes of the device tree.
\<close>

section \<open>The slope\<close>

lemma cdiv_scaled: "0 < k \<Longrightarrow> 0 < n \<Longrightarrow> 0 \<le> m \<Longrightarrow> cdiv (m * k) (n * k) = m div n" "0 < k \<Longrightarrow> 0 < n \<Longrightarrow> 0 < m \<Longrightarrow> cdiv (- (m * k)) (n * k) = - (m div n)"
  by (auto simp: cdiv_def sgn_if mult_less_0_iff)

lemma sm_slope_values:
  assumes "\<bar>d - r\<bar> \<le> 500000"
  shows "sm_slope c d r = (if c > 0 then if d < r then 1333 else if d > r then 750 else 1000
                           else if d < r then - 750 else if d > r then - 1333 else - 1000)"
proof (cases "d = r")
  case False
  define k where "k = \<bar>d - r\<bar>"
  have k: "0 < k" "k \<le> 500000" using False assms by (simp_all add: k_def)
  have t: "s32 (d - r) = d - r" "s32 (k * 3) = k * 3" "s32 (k + k * 3) = 4 * k" "s32 (1000 * (4 * k)) = 4000 * k" "s32 (1000 * (k * 3)) = 3000 * k"
    "s32 (- 1000 * (4 * k)) = - (4000 * k)" "s32 (- 1000 * (k * 3)) = - (3000 * k)"
    using k assms by (simp_all add: is_s32_def abs_le_iff)
  have q: "cdiv (4000 * k) (DIV (k * 3)) = 1333" "cdiv (3000 * k) (DIV (4 * k)) = 750"
    "cdiv (- (4000 * k)) (DIV (k * 3)) = - 1333" "cdiv (- (3000 * k)) (DIV (4 * k)) = - 750"
    using k cdiv_scaled [of k 3 4000] cdiv_scaled [of k 4 3000] by (simp_all add: mult.commute)
  show ?thesis using False unfolding sm_slope_def Let_def t(1) k_def [symmetric] t(2,3)
    by (simp only: t(4-) q)
qed (simp add: sm_slope_def)

section \<open>Discharging\<close>

lemma cdiv_1000_mono: "0 \<le> x \<Longrightarrow> x \<le> y \<Longrightarrow> cdiv x 1000 \<le> cdiv y 1000"
  by (simp add: zdiv_mono1)

lemma smooth_dischrg_gradual:
  assumes d: "0 \<le> dsoc b" "dsoc b \<le> 100000" and s: "smooth_soc b \<le> 10000000"
  shows "max 0 (dsoc b - 1000) \<le> dsoc (rk817_bat_calc_smooth_dischrg b) \<and> dsoc (rk817_bat_calc_smooth_dischrg b) \<le> dsoc b"
proof -
  define c where "c = (if smooth_soc b < 0 then b\<lparr>smooth_soc := 0\<rparr> else b)"
  have c: "dsoc c = dsoc b" "0 \<le> smooth_soc c" "smooth_soc c \<le> 10000000" using s by (simp_all add: c_def)
  have t: "s32 (smooth_soc c + 1000) = smooth_soc c + 1000" "s32 (dsoc c - 1000) = dsoc c - 1000"
    using c d by (simp_all add: is_s32_def)
  have "dsoc (rk817_bat_calc_smooth_dischrg b) =
     (if cdiv (smooth_soc c) 1000 \<noteq> cdiv (dsoc c) 1000
      then if smooth_soc c > dsoc c then dsoc c
           else max 0 (if smooth_soc c + 1000 > dsoc c then smooth_soc c else dsoc c - 1000)
      else dsoc c)"
    unfolding rk817_bat_calc_smooth_dischrg_def Let_def c_def [symmetric] t by (simp add: max_def)
  then show ?thesis using d c by (simp add: max_def)
qed

lemma zero_algorithm_falls:
  assumes E: "regmap_ok E" and d: "0 \<le> dsoc b" "dsoc b \<le> 100000"
    and z: "- 900000 \<le> zero_dsoc b - cdiv (cdiv (s32 (zero_linek b * s32 (zero_remain_cap b - remain_cap b))) (DIV (fcc b))) 10"
      "zero_dsoc b - cdiv (cdiv (s32 (zero_linek b * s32 (zero_remain_cap b - remain_cap b))) (DIV (fcc b))) 10 \<le> 1000000"
  shows "opt_all (\<lambda>b'. dsoc b' \<le> dsoc b) (rk817_bat_zero_algorithm E b)"
proof -
  let ?y = "cdiv (cdiv (s32 (zero_linek b * s32 (zero_remain_cap b - remain_cap b))) (DIV (fcc b))) 10"
  let ?Q = "\<lambda>c. - 1000000 \<le> dsoc c \<and> dsoc c \<le> dsoc b"
  have lin: "opt_all ?Q (rk817_bat_calc_zero_linek E c)" if "?Q c" for c
    by (rule opt_conseq [OF calc_zero_linek_lowers]) (use that d in \<open>auto simp: lowers_def max_def min_def split: if_splits\<close>)
  have alg: "?Q (rk817_bat_calc_zero_algorithm c)" if c: "dsoc c = dsoc b" "zero_dsoc c = s32 (zero_dsoc b - ?y)" for c
  proof -
    have "s32 (zero_dsoc b - ?y) = zero_dsoc b - ?y" "s32 (dsoc b - 1000) = dsoc b - 1000" using z d by (simp_all add: is_s32_def)
    then show ?thesis using c z d by (simp add: rk817_bat_calc_zero_algorithm_def)
  qed
  have co: "opt_all ?Q (rk817_bat_init_coulomb_cap E x c \<bind> rk817_bat_calc_zero_linek E)" if "?Q c" for x c
    by (rule opt_after [OF init_coulomb_cap_keeps [OF E]], rule lin) (use that in \<open>simp add: keeps_def\<close>)
  have "opt_all ?Q (rk817_bat_zero_algorithm E b)" unfolding rk817_bat_zero_algorithm_def Let_def
    by (rule opt_after [where Q = ?Q], intro opt_if lin alg; simp add: d(1) order_trans [OF _ d(1)]) (use co in auto)
  then show ?thesis by (rule opt_conseq) simp
qed

lemma smooth_move_falls:
  assumes d: "0 \<le> dsoc b" "dsoc b \<le> 100000" and f: "500 \<le> fcc b" and s: "0 \<le> smooth_soc b" "smooth_soc b \<le> 100000"
    and k: "- 1333 \<le> sm_linek b" "sm_linek b < 0"
    and cap: "0 \<le> sm_remain_cap b" "sm_remain_cap b \<le> 10000000" "0 \<le> remain_cap b" "remain_cap b \<le> 10000000"
  shows "opt_all (\<lambda>b'. max 0 (dsoc b - 1000) \<le> dsoc b' \<and> dsoc b' \<le> dsoc b) (smooth_move E b)"
proof -
  let ?P = "\<lambda>b'. max 0 (dsoc b - 1000) \<le> dsoc b' \<and> dsoc b' \<le> dsoc b"
  let ?delta = "s32 (remain_cap b - sm_remain_cap b)"
  define y where "y = cdiv (s32 (sm_linek b * \<bar>cdiv ?delta 10\<bar>)) (DIV (fcc b))"
  have "\<bar>cdiv ?delta 10\<bar> \<le> 1000000" using cap by (intro cdiv_bound) (simp_all add: is_s32_def abs_le_iff)
  then obtain x where x: "\<bar>cdiv ?delta 10\<bar> = x" "0 \<le> x" "x \<le> 1000000" by auto
  have "- 1333 * x \<le> sm_linek b * x" using k x by (intro mult_right_mono) auto
  moreover have "sm_linek b * x \<le> 0" using k x by (simp add: mult_nonpos_nonneg)
  ultimately have kx: "- 1333000000 \<le> sm_linek b * x" "sm_linek b * x \<le> 0" using x by linarith+
  then have "s32 (sm_linek b * x) = sm_linek b * x" by (simp add: is_s32_def)
  moreover have "\<bar>cdiv (sm_linek b * x) (fcc b)\<bar> \<le> 3000000" using kx f by (intro cdiv_bound) (linarith+)
  moreover have "cdiv (sm_linek b * x) (fcc b) \<le> 0" using kx f by (auto simp: cdiv_def sgn_if pos_imp_zdiv_nonneg_iff)
  ultimately have y: "y \<le> 0" "- 3000000 \<le> y" using f by (simp_all add: y_def x(1) abs_le_iff)
  let ?e = "b\<lparr>sm_remain_cap := s32 (remain_cap b), smooth_soc := s32 (smooth_soc b + y)\<rparr>"
  have "s32 (smooth_soc b + y) = smooth_soc b + y" using y s by (simp add: is_s32_def)
  then have P: "?P (rk817_bat_calc_smooth_dischrg ?e)" using smooth_dischrg_gradual [of ?e] y s d by simp
  have lin: "opt_all ?P (rk817_bat_calc_sm_linek E (g\<lparr>s2r := False\<rparr>))" if "?P g" for g
    by (rule opt_conseq [OF calc_sm_linek_keeps]) (use that in \<open>simp add: keep_defs\<close>)
  have P0: "?P b" using d by simp
  show ?thesis unfolding smooth_move_def Let_def y_def [symmetric]
  proof (intro opt_if)
    assume "y \<noteq> 0"
    then have "y < 0" using y by simp
    then show "opt_all ?P (case if y < 0 then (rk817_bat_calc_smooth_dischrg ?e, False) else smooth_chrg ?e of
        (b, ret) \<Rightarrow> if ret then Some b else if s2r b then rk817_bat_calc_sm_linek E (b\<lparr>s2r := False\<rparr>) else Some b)"
      using P lin [OF P] by simp
  qed (use P0 in simp_all)
qed

lemma capacity_uah_cong:
  assumes "regs c = regs b" "res_div c = res_div b"
  shows "rk817_bat_get_capacity_uah E c = rk817_bat_get_capacity_uah E b"
proof -
  have "rk817_bat_field_read E c = rk817_bat_field_read E b" using assms by (simp add: fun_eq_iff rk817_bat_field_read_def)
  then show ?thesis using assms(2) by (simp only: rk817_bat_get_capacity_uah_def rk817_bat_remain_cap_is_valid_def read_quad_def)
qed

lemma smooth_algorithm_falls:
  assumes d: "0 \<le> dsoc b" "dsoc b \<le> 100000" and r: "\<bar>rsoc b\<bar> \<le> 200000" and f: "500 \<le> fcc b"
    and s: "0 \<le> smooth_soc b" "smooth_soc b \<le> 100000"
    and cur: "current_avg b < 0" "- 1000000 \<le> current_avg b" "rk817_bat_get_avg_current E b = Some c" "c \<le> 0"
    and k: "\<bar>sm_linek b\<bar> \<le> 1333" and cap: "0 \<le> sm_remain_cap b" "sm_remain_cap b \<le> 10000000" "0 \<le> remain_cap b" "remain_cap b \<le> 10000000"
    and q: "rk817_bat_get_capacity_uah E b = Some n" "0 \<le> n" "n \<le> 10000000"
  shows "opt_all (\<lambda>b'. max 0 (dsoc b - 1000) \<le> dsoc b' \<and> dsoc b' \<le> dsoc b) (rk817_bat_smooth_algorithm E b)"
proof -
  let ?Q = "\<lambda>c :: 'a rk817_battery_device. dsoc c = dsoc b \<and> fcc c = fcc b \<and> regs c = regs b \<and> res_div c = res_div b \<and> smooth_soc c = smooth_soc b \<and>
     - 1333 \<le> sm_linek c \<and> sm_linek c < 0 \<and> 0 \<le> sm_remain_cap c \<and> sm_remain_cap c \<le> 10000000"
  have "\<bar>sm_linek b * current_avg b\<bar> \<le> 1333 * 1000000"
    unfolding abs_mult using k cur(1,2) by (intro mult_mono) (auto simp: abs_le_iff)
  then have prod: "s32 (sm_linek b * current_avg b) = sm_linek b * current_avg b" by (simp add: is_s32_def abs_le_iff)
  have first: "opt_all ?Q (if s32 (sm_linek b * current_avg b) \<le> 0 then rk817_bat_calc_sm_linek E b else Some b)"
  proof (rule opt_if)
    have "- 1333 \<le> sm_slope c (dsoc b) (rsoc b)" "sm_slope c (dsoc b) (rsoc b) < 0" "s32 (remain_cap b) = remain_cap b"
      using sm_slope_values [of "dsoc b" "rsoc b" c] d r cur(4) cap by (auto simp: is_s32_def abs_le_iff)
    then show "opt_all ?Q (rk817_bat_calc_sm_linek E b)"
      using cap by (simp add: rk817_bat_calc_sm_linek_def cur(3) Let_def)
    assume "\<not> s32 (sm_linek b * current_avg b) \<le> 0"
    then have "0 < sm_linek b * current_avg b" using prod by simp
    then have "sm_linek b < 0" using cur(1) by (simp add: zero_less_mult_iff)
    then show "opt_all ?Q (Some b)" using k cap by (simp add: abs_le_iff)
  qed
  show ?thesis unfolding rk817_bat_smooth_algorithm_def
  proof (rule opt_after [OF first])
    fix g :: "'a rk817_battery_device" assume g: "?Q g"
    have "rk817_bat_get_capacity_uah E g = Some n" using capacity_uah_cong [of g b E] g q(1) by simp
    then show "opt_all (\<lambda>b'. max 0 (dsoc b - 1000) \<le> dsoc b' \<and> dsoc b' \<le> dsoc b)
        (rk817_bat_get_capacity_uah E g \<bind> (\<lambda>cap. smooth_move E (g\<lparr>remain_cap := cap\<rparr>)))"
      using smooth_move_falls [of "g\<lparr>remain_cap := n\<rparr>" E] g d f s q by simp
  qed
qed

section \<open>Power-on after a long time\<close>

lemma interpolate_range: "interpolate v t n = Some d \<Longrightarrow> 0 \<le> d \<and> d \<le> 1000"
proof -
  have "opt_all (\<lambda>d. 0 \<le> d \<and> d \<le> 1000) (interpolate v t n)" unfolding interpolate_def Let_def
    by (rule opt_bind_any, rule opt_after [where Q = "\<lambda>d. 0 \<le> d"], intro opt_if opt_bind_any) simp_all
  then show "interpolate v t n = Some d \<Longrightarrow> 0 \<le> d \<and> d \<le> 1000" by (rule opt_allD)
qed

lemma vol_to_soc_range: "opt_all (\<lambda>s. 0 \<le> s \<and> s \<le> 100) (rk817_bat_vol_to_soc b v)"
proof -
  have "0 \<le> ab_div_c d 100 1000 \<and> ab_div_c d 100 1000 \<le> 100" if "0 \<le> d \<and> d \<le> 1000" for d
    using ab_div_c_1000 [of d 100] that zdiv_mono1 [of "d * 100 + 500" 100500 1000] by (simp add: pos_imp_zdiv_nonneg_iff)
  then show ?thesis using interpolate_range by (auto simp: rk817_bat_vol_to_soc_def opt_all_def bind_eq_Some_conv)
qed

lemma pwron_ocv_calib_unit:
  assumes "1000 \<le> pre" "pre \<le> 100000" "max_soc_offset (pdata b) \<le> 900"
  shows "opt_all (\<lambda>(soc, cap, b'). 0 \<le> soc \<and> soc \<le> 100 \<and> pdata b' = pdata b) (pwron_ocv_calib E pre b)"
  unfolding pwron_ocv_calib_def Let_def
proof (rule opt_bind_any, rule opt_after [OF vol_to_soc_range], rule opt_bind_any)
  fix v s c :: int assume s: "0 \<le> s \<and> s \<le> 100"
  then have "s32 (s - pre) = s - pre" using assms by (simp add: is_s32_def)
  then show "opt_all (\<lambda>(soc, cap, b'). 0 \<le> soc \<and> soc \<le> 100 \<and> pdata b' = pdata b)
     (Some (if max_soc_offset (pdata (b\<lparr>ocv_pre_dsoc := pre, ocv_new_dsoc := s\<rparr>)) \<le> \<bar>s32 (s - pre)\<bar>
       then (s, c, b\<lparr>ocv_pre_dsoc := pre, ocv_new_dsoc := s, is_max_soc_offset := True\<rparr>)
       else (pre, c, b\<lparr>ocv_pre_dsoc := pre, ocv_new_dsoc := s\<rparr>)))"
    using s assms by (auto simp: abs_if)
qed

text \<open>What \<^verbatim>\<open>rk817_bat_not_first_pwron\<close> finds before it chooses.\<close>

lemma pwron_flags_start:
  assumes E: "regmap_ok E"
  shows "opt_all (\<lambda>(p, q, n, d). p = rk817_bat_get_prev_dsoc E b \<and> pwroff_min d = pwroff_min b \<and> pdata d = pdata b \<and>
      is_ocv_calib d = (\<not> is_initialized d \<and> 30 \<le> pwroff_min d)) (pwron_flags E b)"
proof -
  have save: "keeps E b (rk817_bat_save_fcc E x b)" for x unfolding rk817_bat_save_fcc_def write_triple_def
    by (intro keeps_trans [OF _ write_keeps [OF E]]) (simp_all add: keeps_def)
  have off: "pwroff_min (rk817_bat_field_write E f v c) = pwroff_min c" "pdata (rk817_bat_field_write E f v c) = pdata c" for f v and c :: "'a rk817_battery_device"
    by (simp_all add: rk817_bat_field_write_def)
  obtain f c where fc: "rk817_bat_get_fcc E b = (f, c)" by fastforce
  then have c: "keeps E b c" "pwroff_min c = pwroff_min b"
    using save by (auto simp: rk817_bat_get_fcc_def Let_def keeps_def rk817_bat_save_fcc_def write_triple_def off split: if_splits)
  then have k: "rk817_bat_get_prev_dsoc E (c\<lparr>fcc := f\<rparr>) = rk817_bat_get_prev_dsoc E b" "pdata c = pdata b"
    by (simp_all add: prev_dsoc_soc_of keep_defs)
  have halt: "opt_all (\<lambda>(h, d). pwroff_min d = pwroff_min b \<and> pdata d = pdata b) (is_rk817_bat_last_halt E (c\<lparr>fcc := f, remain_cap := x\<rparr>))" for x
    using c(2) k(2) unfolding is_rk817_bat_last_halt_def
    by (intro opt_bind_any) (simp add: rk817_bat_inc_halt_cnt_def off)
  show ?thesis unfolding pwron_flags_def fc Let_def prod.case k(1)
    by (rule opt_bind_any, rule opt_after [OF halt])
      (auto simp: is_rk817_bat_initialized_def off is_rk817_bat_ocv_valid_def)
qed

lemma pwron_choice_unit:
  assumes "1000 \<le> p" "p \<le> 100000" "max_soc_offset (pdata d) \<le> 900" "30 \<le> pwroff_min d" "is_ocv_calib d = (\<not> is_initialized d \<and> 30 \<le> pwroff_min d)"
  shows "opt_all (\<lambda>(s, c, b'). \<not> is_halt b' \<and> \<not> is_initialized b' \<longrightarrow> 0 \<le> s \<and> s \<le> 100 \<and> pdata b' = pdata d) (pwron_choice E p q n d)"
  unfolding pwron_choice_def Let_def
proof (intro opt_if)
  have halt: "opt_all (\<lambda>b'. is_halt b' = is_halt d) (rk817_bat_init_coulomb_cap E c d)" for c
    unfolding rk817_bat_init_coulomb_cap_def Let_def
    by (intro opt_bind_any) (simp add: write_quad_def rk817_bat_field_write_def)
  assume "is_halt d"
  then show "opt_all (\<lambda>(s, c, b'). \<not> is_halt b' \<and> \<not> is_initialized b' \<longrightarrow> 0 \<le> s \<and> s \<le> 100 \<and> pdata b' = pdata d)
      (rk817_bat_init_coulomb_cap E (if n < 0 then 0 else n) d \<bind> (\<lambda>b. Some (rsoc b, if n < 0 then 0 else n, b)))"
    by (intro opt_after [OF halt]) simp
next
  show "opt_all (\<lambda>(s, c, b'). \<not> is_halt b' \<and> \<not> is_initialized b' \<longrightarrow> 0 \<le> s \<and> s \<le> 100 \<and> pdata b' = pdata d) (pwron_ocv_calib E p d)"
    by (rule opt_conseq [OF pwron_ocv_calib_unit [OF assms(1-3)]]) auto
qed (use assms(4,5) in auto)

section \<open>Properties\<close>

text \<open>
  C30. The smoothed display moves at 4/3 of the real speed when it lags behind the real charge, at 3/4
  when it is ahead, and at the real speed when they agree; the sign follows the direction of the current.\<close>

theorem smooth_slope:
  assumes "\<bar>dsoc b - rsoc b\<bar> \<le> 500000" "rk817_bat_get_avg_current E b = Some c"
  shows "\<exists>b'. rk817_bat_calc_sm_linek E b = Some b' \<and> sm_remain_cap b' = s32 (remain_cap b) \<and>
    sm_linek b' = (if c > 0 then if dsoc b < rsoc b then 1333 else if dsoc b > rsoc b then 750 else 1000
                   else if dsoc b < rsoc b then - 750 else if dsoc b > rsoc b then - 1333 else - 1000)"
  using sm_slope_values [OF assms(1), of c] assms(2) by (simp add: rk817_bat_calc_sm_linek_def Let_def)

definition falling :: "reg_file rk817_battery_device" where
  "falling = drained_battery\<lparr>dsoc := 50000, rsoc := 48000, current_avg := - 300, smooth_soc := 50000, sm_linek := - 1000,
     sm_remain_cap := 2000000, remain_cap := 2000000, zero_dsoc := 50000, zero_linek := 5000, zero_remain_cap := 2010000\<rparr>"

lemma falling_fields [simp]:
  "dsoc falling = 50000" "rsoc falling = 48000" "res_div falling = 2" "regs falling = regs drained_battery" "fcc falling = 4000" "remain_cap falling = 2000000"
  by (simp_all add: falling_def drained_battery_def sample_battery_def zeroed_battery_def)

lemma falling_current: "rk817_bat_get_avg_current (byte_kernel 0) falling = Some (- 22)"
  using drained_reading [of falling] by simp

theorem smooth_slope_witness:
  "\<exists>b'. rk817_bat_calc_sm_linek (byte_kernel 0) falling = Some b' \<and> sm_linek b' = - 1333"
  using smooth_slope [of falling "byte_kernel 0", OF _ falling_current] by auto

definition discharging :: "'d kernel \<Rightarrow> 'd rk817_battery_device \<Rightarrow> bool" where
  "discharging E b \<longleftrightarrow> 0 \<le> dsoc b \<and> dsoc b \<le> 100000 \<and> \<bar>rsoc b\<bar> \<le> 200000 \<and> 500 \<le> fcc b \<and> 0 \<le> smooth_soc b \<and> smooth_soc b \<le> 100000 \<and>
     current_avg b < 0 \<and> - 1000000 \<le> current_avg b \<and> \<bar>sm_linek b\<bar> \<le> 1333 \<and>
     0 \<le> sm_remain_cap b \<and> sm_remain_cap b \<le> 10000000 \<and> 0 \<le> remain_cap b \<and> remain_cap b \<le> 10000000 \<and>
     (case rk817_bat_get_avg_current E b of None \<Rightarrow> False | Some c \<Rightarrow> c \<le> 0) \<and>
     (case rk817_bat_get_capacity_uah E b of None \<Rightarrow> False | Some n \<Rightarrow> 0 \<le> n \<and> n \<le> 10000000)"

text \<open>
  C31. While the battery discharges the display only falls. One run of the smooth algorithm lowers it by at most
  one percent and never below zero; \<open>discharging\<close> asks for a display between 0 and 100 percent, capacities up to
  10 Ah, a slope as \<^verbatim>\<open>rk817_bat_calc_sm_linek\<close> computes it and a current that does not charge. One run of the zero
  algorithm does not raise it, for every slope, as long as its 32-bit product of slope and consumed capacity does not
  overflow and \<^verbatim>\<open>zero_dsoc\<close> is within 400 percent.\<close>

theorem discharge_never_rises:
  assumes "register_fields (regmap_field_read E) (regmap_field_write E)" "discharging E b"
  shows "(\<forall>b'. rk817_bat_smooth_algorithm E b = Some b' \<longrightarrow> max 0 (dsoc b - 1000) \<le> dsoc b' \<and> dsoc b' \<le> dsoc b) \<and>
    (\<forall>b'. \<bar>zero_dsoc b\<bar> \<le> 400000 \<and> 0 \<le> zero_remain_cap b \<and> zero_remain_cap b \<le> 10000000 \<and>
      is_s32 (zero_linek b * (zero_remain_cap b - remain_cap b)) \<and>
      rk817_bat_zero_algorithm E b = Some b' \<longrightarrow> dsoc b' \<le> dsoc b)"
proof (intro conjI allI impI)
  obtain c n where cn: "rk817_bat_get_avg_current E b = Some c" "c \<le> 0" "rk817_bat_get_capacity_uah E b = Some n" "0 \<le> n" "n \<le> 10000000"
    using assms(2) by (auto simp: discharging_def split: option.splits)
  have sm: "opt_all (\<lambda>b'. max 0 (dsoc b - 1000) \<le> dsoc b' \<and> dsoc b' \<le> dsoc b) (rk817_bat_smooth_algorithm E b)"
    by (rule smooth_algorithm_falls [OF _ _ _ _ _ _ _ _ cn(1,2) _ _ _ _ _ cn(3-5)]) (use assms(2) in \<open>simp_all add: discharging_def\<close>)
  fix b'
  assume "rk817_bat_smooth_algorithm E b = Some b'"
  then show "max 0 (dsoc b - 1000) \<le> dsoc b'" "dsoc b' \<le> dsoc b" using opt_allD [OF sm] by simp_all
next
  fix b'
  assume z: "\<bar>zero_dsoc b\<bar> \<le> 400000 \<and> 0 \<le> zero_remain_cap b \<and> zero_remain_cap b \<le> 10000000 \<and>
      is_s32 (zero_linek b * (zero_remain_cap b - remain_cap b)) \<and> rk817_bat_zero_algorithm E b = Some b'"
  have d: "0 \<le> dsoc b" "dsoc b \<le> 100000" "500 \<le> fcc b" "0 \<le> remain_cap b" "remain_cap b \<le> 10000000"
    using assms(2) by (simp_all add: discharging_def)
  define m where "m = zero_remain_cap b - remain_cap b"
  have m: "s32 m = m" "s32 (zero_linek b * m) = zero_linek b * m" using z d by (simp_all add: m_def is_s32_def)
  have "\<bar>zero_linek b * m\<bar> \<le> 2147483648" using z by (simp add: m_def is_s32_def abs_le_iff)
  then have "\<bar>zero_linek b * m\<bar> \<le> 4294968 * fcc b" using d by linarith
  then have "\<bar>cdiv (zero_linek b * m) (fcc b)\<bar> \<le> 4294968" using d by (intro cdiv_bound) auto
  then have y: "\<bar>cdiv (cdiv (zero_linek b * m) (fcc b)) 10\<bar> \<le> 429497" by (intro cdiv_bound [where n = 429497 and f = 10]) linarith+
  have "opt_all (\<lambda>b'. dsoc b' \<le> dsoc b) (rk817_bat_zero_algorithm E b)"
    by (rule zero_algorithm_falls [OF assms(1) d(1,2)])
      (use y z d(3) m in \<open>simp_all add: m_def [symmetric] abs_le_iff\<close>)
  then show "dsoc b' \<le> dsoc b" using z opt_allD by fast
qed

lemma falling_capacity: "rk817_bat_get_capacity_uah (byte_kernel 0) falling = Some 0"
proof -
  have "rk817_bat_field_read (byte_kernel 0) falling f = 0" if "f \<in> {Q_PRESS_H3, Q_PRESS_H2, Q_PRESS_L1, Q_PRESS_L0}" for f
    using that by (auto simp: rk817_bat_field_read_def byte_kernel_def field_get_def drained_battery_def rk817_battery_reg_fields_def)
  then show ?thesis by (simp add: rk817_bat_get_capacity_uah_def rk817_bat_remain_cap_is_valid_def read_quad_def divz_def)
qed

theorem discharge_never_rises_witness:
  "(\<exists>b'. rk817_bat_smooth_algorithm (byte_kernel 0) falling = Some b' \<and> 49000 \<le> dsoc b' \<and> dsoc b' \<le> 50000) \<and>
   (\<exists>b'. rk817_bat_zero_algorithm (byte_kernel 0) falling = Some b' \<and> dsoc b' \<le> 50000)"
proof -
  have r: "ready falling" using drained(1) by (simp add: falling_def ready_def)
  then obtain b' c' where b': "rk817_bat_smooth_algorithm (byte_kernel 0) falling = Some b'" "rk817_bat_zero_algorithm (byte_kernel 0) falling = Some c'"
    using smooth_algorithm_total [OF r, of "byte_kernel 0"] zero_algorithm_total [OF byte_kernel_ok byte_kernel_measured r, of 0] falling_current
    by (auto simp: returns_def flows_def)
  have d: "discharging (byte_kernel 0) falling"
    unfolding discharging_def falling_current falling_capacity
    by simp (simp add: falling_def drained_battery_def sample_battery_def zeroed_battery_def)
  have z: "\<bar>zero_dsoc falling\<bar> \<le> 400000" "0 \<le> zero_remain_cap falling" "zero_remain_cap falling \<le> 10000000"
    "is_s32 (zero_linek falling * (zero_remain_cap falling - remain_cap falling))"
    by (simp_all add: falling_def is_s32_def)
  from discharge_never_rises [OF byte_kernel_ok d] show ?thesis using b' z by auto
qed

text \<open>
  C32. After a power-off of at least half an hour the driver mixes up its units: the saved display
  charge is in thousandths of a percent, the charge from the open-circuit voltage in percent, and the
  code compares and assigns them without conversion. If the saved charge was between one and a hundred percent and the
  calibration by the voltage is taken (the driver finds that the system did not halt last time and that the boot loader
  has not initialised the gauge), with a \<^verbatim>\<open>max_soc_offset\<close> of at most 900 (the default is 60) and a real battery, then the
  display shows 0 percent when \<^verbatim>\<open>rk817_bat_not_first_pwron\<close> is done, whatever the voltage says.\<close>

theorem long_poweroff_shows_zero:
  assumes "register_fields (regmap_field_read E) (regmap_field_write E)" "rk817_bat_not_first_pwron E b = Some b'"
    and "30 \<le> pwroff_min b" "1000 \<le> rk817_bat_get_prev_dsoc E b" "rk817_bat_get_prev_dsoc E b \<le> 100000"
    and "\<not> is_halt b'" "\<not> is_initialized b'"
    and "max_soc_offset (pdata b) \<le> 900" "bat_mode (pdata b) \<noteq> MODE_VIRTUAL"
  shows "0 \<le> dsoc b' \<and> dsoc b' \<le> 100 \<and> fst (rk817_battery_get_property E POWER_SUPPLY_PROP_CAPACITY b') = Inr 0"
proof -
  have "opt_all (\<lambda>b'. \<not> is_halt b' \<and> \<not> is_initialized b' \<longrightarrow> 0 \<le> dsoc b' \<and> dsoc b' \<le> 100 \<and> pdata b' = pdata b) (rk817_bat_not_first_pwron E b)"
    unfolding rk817_bat_not_first_pwron_def
  proof (rule opt_after [OF pwron_flags_start [OF assms(1)]], clarify)
    fix q n :: int and d :: "'a rk817_battery_device"
    assume d: "pwroff_min d = pwroff_min b" "pdata d = pdata b" "is_ocv_calib d = (\<not> is_initialized d \<and> 30 \<le> pwroff_min d)"
    have "opt_all (\<lambda>(s, c, b'). \<not> is_halt b' \<and> \<not> is_initialized b' \<longrightarrow> 0 \<le> s \<and> s \<le> 100 \<and> pdata b' = pdata d)
        (pwron_choice E (rk817_bat_get_prev_dsoc E b) q n d)"
      by (rule pwron_choice_unit [OF assms(4,5) _ _ d(3)]) (simp_all add: d(1,2) assms(3,8))
    then show "opt_all (\<lambda>b'. \<not> is_halt b' \<and> \<not> is_initialized b' \<longrightarrow> 0 \<le> dsoc b' \<and> dsoc b' \<le> 100 \<and> pdata b' = pdata b)
        (pwron_choice E (rk817_bat_get_prev_dsoc E b) q n d \<bind>
          (\<lambda>(pre_soc, pre_cap, b). Some (b\<lparr>dsoc := pre_soc, nac := if pre_cap < 0 then 0 else pre_cap\<rparr>)))"
      by (rule opt_after) (simp add: d(2) split_beta)
  qed
  from opt_allD [OF this assms(2)] have d: "0 \<le> dsoc b'" "dsoc b' \<le> 100" "pdata b' = pdata b" using assms(6,7) by simp_all
  then have "s32 (dsoc b' + 500) = dsoc b' + 500" by (simp add: is_s32_def)
  then show ?thesis using d assms(9) by (simp add: rk817_battery_get_property_def)
qed

text \<open>A register file: half charged when it was switched off, a capacity of 4000 mAh, the voltage of a full battery.\<close>

definition rested :: "reg_file rk817_battery_device" where
  "rested = (zeroed_battery ((\<lambda>_. 0)(reg (rk817_battery_reg_fields ! SOC_REG0) := 0x50, reg (rk817_battery_reg_fields ! SOC_REG1) := 0xC3,
       reg (rk817_battery_reg_fields ! NEW_FCC_REG1) := 0x0F, reg (rk817_battery_reg_fields ! NEW_FCC_REG0) := 0xA0,
       reg (rk817_battery_reg_fields ! OCV_VOL_H) := 0x10)) (sample_pdata\<lparr>max_soc_offset := 60\<rparr>))
     \<lparr>res_div := 2, pwroff_min := 60, voltage_k := 1050\<rparr>"

lemma rested_read:
  assumes "regs b = regs rested" "f \<in> {SOC_REG0, SOC_REG1, SOC_REG2, NEW_FCC_REG0, NEW_FCC_REG1, NEW_FCC_REG2, REMAIN_CAP_REG0, REMAIN_CAP_REG1,
    REMAIN_CAP_REG2, Q_PRESS_H3, Q_PRESS_H2, Q_PRESS_L1, Q_PRESS_L0, FG_INIT, HALT_CNT_REG}"
  shows "rk817_bat_field_read (byte_kernel 0) b f =
    (if f = SOC_REG0 then 0x50 else if f = SOC_REG1 then 0xC3 else if f = NEW_FCC_REG1 then 0x0F else if f = NEW_FCC_REG0 then 0xA0 else 0)"
  using assms by (auto simp: rk817_bat_field_read_def byte_kernel_def field_get_def rested_def zeroed_battery_def rk817_battery_reg_fields_def)

lemma rested_soc: "rk817_bat_get_prev_dsoc (byte_kernel 0) rested = 50000"
  by (simp add: rk817_bat_get_prev_dsoc_def rested_read push_bit_eq_mult is_s32_def)

lemma rested_flags:
  "\<exists>d. pwron_flags (byte_kernel 0) rested = Some (50000, 0, 0, d) \<and> is_ocv_calib d \<and> \<not> is_halt d \<and> \<not> is_initialized d \<and>
     pdata d = pdata rested \<and> chip_id d = 0 \<and> voltage_k d = 1050"
proof -
  have q: "design_qmax (pdata rested) = 4200" by (simp add: rested_def zeroed_battery_def sample_pdata_def)
  have fc: "rk817_bat_get_fcc (byte_kernel 0) rested = (4000, rested)"
    by (simp add: rk817_bat_get_fcc_def rested_read Let_def q push_bit_eq_mult u32_def is_s32_def)
  have cap: "rk817_bat_get_capacity_mah (byte_kernel 0) b = Some 0" if "res_div b = 2" "regs b = regs rested" for b
    using that by (simp add: rk817_bat_get_capacity_mah_def rk817_bat_remain_cap_is_valid_def read_quad_def rested_read divz_def)
  have prev: "rk817_bat_get_prev_cap (byte_kernel 0) b = 0" "rk817_bat_get_prev_dsoc (byte_kernel 0) b = 50000" if "regs b = regs rested" for b
    using that by (simp_all add: rk817_bat_get_prev_cap_def rk817_bat_get_prev_dsoc_def rested_read push_bit_eq_mult is_s32_def)
  have halt: "is_rk817_bat_last_halt (byte_kernel 0) b = Some (False, b)" if "res_div b = 2" "fcc b = 4000" "regs b = regs rested" for b
    using that by (simp add: is_rk817_bat_last_halt_def cap prev is_s32_def)
  have ini: "is_rk817_bat_initialized (byte_kernel 0) b = (False, b)" if "regs b = regs rested" for b
    using that by (simp add: is_rk817_bat_initialized_def rested_read u8_def)
  have r: "res_div rested = 2" "pwroff_min rested = 60" "chip_id rested = 0" "voltage_k rested = 1050" by (simp_all add: rested_def zeroed_battery_def)
  show ?thesis
    by (simp add: pwron_flags_def fc prev cap halt ini r is_rk817_bat_ocv_valid_def is_s32_def Let_def)
qed

lemma rested_pwron: "\<exists>b'. rk817_bat_not_first_pwron (byte_kernel 0) rested = Some b' \<and> \<not> is_initialized b' \<and> \<not> is_halt b'"
proof -
  obtain d where d: "pwron_flags (byte_kernel 0) rested = Some (50000, 0, 0, d)" "is_ocv_calib d" "\<not> is_halt d" "\<not> is_initialized d"
      "pdata d = pdata rested" "chip_id d = 0" "voltage_k d = 1050"
    using rested_flags by auto
  have t: "ocv_table (pdata d) = ocv_table sample_pdata" "ocv_size (pdata d) = int (length (ocv_table sample_pdata))"
    by (simp_all add: d(5) rested_def zeroed_battery_def sample_pdata_def)
  obtain v where v: "rk817_bat_get_ocv_voltage (byte_kernel 0) d = Some v" "is_s32 v"
    using d(6) by (simp add: rk817_bat_get_ocv_voltage_def rk809_divider_def scaled_def)
  obtain x where "interpolate v (ocv_table (pdata d)) (ocv_size (pdata d)) = Some x"
    using interpolate_total [OF sample_table_ok v(2)] t by auto
  then obtain s c where sc: "rk817_bat_vol_to_soc d v = Some s" "rk817_bat_vol_to_cap d v = Some c"
    by (simp add: rk817_bat_vol_to_soc_def rk817_bat_vol_to_cap_def)
  show ?thesis using d(2-5)
    by (simp add: rk817_bat_not_first_pwron_def d(1) pwron_choice_def pwron_ocv_calib_def v(1) sc Let_def)
qed

theorem long_poweroff_shows_zero_witness:
  "\<exists>b'. rk817_bat_get_prev_dsoc (byte_kernel 0) rested = 50000 \<and> rk817_bat_not_first_pwron (byte_kernel 0) rested = Some b' \<and>
     fst (rk817_battery_get_property (byte_kernel 0) POWER_SUPPLY_PROP_CAPACITY b') = Inr 0"
proof -
  obtain b' where b': "rk817_bat_not_first_pwron (byte_kernel 0) rested = Some b'" "\<not> is_halt b'" "\<not> is_initialized b'"
    using rested_pwron by auto
  have "max_soc_offset (pdata rested) \<le> 900" "bat_mode (pdata rested) = 0" "pwroff_min rested = 60"
    by (simp_all add: rested_def zeroed_battery_def sample_pdata_def zeroed_pdata_def)
  then show ?thesis using long_poweroff_shows_zero [OF byte_kernel_ok b'(1) _ _ _ b'(2,3)] b' rested_soc by auto
qed

text \<open>
  The device tree is accepted exactly when the voltage table, the design capacity and the design
  maximum are there and memory was available. Then the required values are taken over; an optional
  reserve is converted to thousandths of a percent, but the default for a missing one is converted a
  second time, which makes it ten thousand percent.\<close>

theorem parse_dt_result:
  assumes neg: "\<And>name e. of_property_read_u32 T name = Inl e \<Longrightarrow> e < 0" "\<And>name n e. of_property_read_u32_array T name n = Inl e \<Longrightarrow> e < 0"
    and p: "rk817_bat_parse_dt E T mem1 mem2 b = (ret, b')"
  shows "(ret = 0 \<longleftrightarrow> mem1 \<and> mem2 \<and> (\<exists>len table c q. of_find_property T ''ocv_table'' = Some len \<and> 4 \<le> len \<and>
            of_property_read_u32_array T ''ocv_table'' (len div 4) = Inr table \<and>
            of_property_read_u32 T ''design_capacity'' = Inr c \<and> of_property_read_u32 T ''design_qmax'' = Inr q)) \<and>
         (ret = 0 \<longrightarrow>
            of_property_read_u32_array T ''ocv_table'' (ocv_size (pdata b')) = Inr (ocv_table (pdata b')) \<and>
            of_property_read_u32 T ''design_capacity'' = Inr (design_capacity (pdata b')) \<and>
            of_property_read_u32 T ''design_qmax'' = Inr (design_qmax (pdata b')) \<and>
            zero_reserve_dsoc (pdata b') =
              (case of_property_read_u32 T ''zero_reserve_dsoc'' of Inr v \<Rightarrow> u32 (v * 1000) | Inl _ \<Rightarrow> 10000000))"
proof -
  have rk809: "ocv_size (pdata (parse_rk809 T d)) = ocv_size (pdata d)" "ocv_table (pdata (parse_rk809 T d)) = ocv_table (pdata d)"
    "design_capacity (pdata (parse_rk809 T d)) = design_capacity (pdata d)" "design_qmax (pdata (parse_rk809 T d)) = design_qmax (pdata d)"
    "zero_reserve_dsoc (pdata (parse_rk809 T d)) = zero_reserve_dsoc (pdata d)" for d :: "'a rk817_battery_device"
    by (simp_all add: parse_rk809_def)
  show ?thesis
  proof (cases "mem1 \<and> mem2 \<and> (\<exists>len. of_find_property T ''ocv_table'' = Some len \<and> 4 \<le> len)")
    case False
    then have "ret \<noteq> 0" using p
      by (auto simp: rk817_bat_parse_dt_def Let_def pos_imp_zdiv_pos_iff not_le split: option.splits if_splits)
    then show ?thesis using False by auto
  next
    case True
    then obtain len where len: "of_find_property T ''ocv_table'' = Some len" "4 \<le> len" and m: mem1 mem2 by auto
    have n: "\<not> len div 4 \<le> 0" using len by (simp add: pos_imp_zdiv_pos_iff)
    show ?thesis
    proof (cases "of_property_read_u32_array T ''ocv_table'' (len div 4)")
      case (Inl e)
      then show ?thesis using p neg(2) [OF Inl] len m n by (auto simp: rk817_bat_parse_dt_def Let_def)
    next
      case t: (Inr table)
      show ?thesis
      proof (cases "of_property_read_u32 T ''design_capacity''")
        case (Inl e)
        then show ?thesis using p neg(1) [OF Inl] len m n t by (auto simp: rk817_bat_parse_dt_def Let_def)
      next
        case c: (Inr c)
        show ?thesis
        proof (cases "of_property_read_u32 T ''design_qmax''")
          case (Inl e)
          then show ?thesis using p neg(1) [OF Inl] len m n t c by (auto simp: rk817_bat_parse_dt_def Let_def)
        next
          case q: (Inr q)
          define P where "P = (default_pdata\<lparr>ocv_size := len div 4, ocv_table := table, design_capacity := c, design_qmax := q\<rparr>)"
          define d where "d = (if \<not> rk817_is_bat_exist E (b\<lparr>pdata := parse_optional T P\<rparr>)
             then b\<lparr>pdata := (parse_optional T P)\<lparr>bat_mode := MODE_VIRTUAL\<rparr>\<rparr> else b\<lparr>pdata := parse_optional T P\<rparr>)"
          have r: "ret = 0" "b' = parse_rk809 T (d\<lparr>pdata := parse_thresholds T (pdata d)\<rparr>)"
            using p len m n t c q
            by (cases "rk817_is_bat_exist E (b\<lparr>pdata := parse_optional T P\<rparr>)"; simp add: rk817_bat_parse_dt_def Let_def P_def d_def)+
          have "ocv_size (pdata b') = len div 4" "ocv_table (pdata b') = table" "design_capacity (pdata b') = c" "design_qmax (pdata b') = q"
            "zero_reserve_dsoc (pdata b') = u32 (of_u32 T ''zero_reserve_dsoc'' 10000 * 1000)"
            by (simp_all add: r(2) rk809 d_def P_def parse_optional_def parse_thresholds_def default_pdata_def)
          then show ?thesis using r(1) len m t c q by (auto simp: of_u32_def u32_def split: sum.split)
        qed
      qed
    qed
  qed
qed

definition sample_tree :: device_tree where
  "sample_tree = \<lparr>of_find_property = (\<lambda>n. if n = ''ocv_table'' then Some 84 else None),
     of_property_read_u32 = (\<lambda>n. if n = ''design_capacity'' then Inr 4000 else if n = ''design_qmax'' then Inr 4200 else Inl (- 22)),
     of_property_read_u32_array = (\<lambda>_ _. Inr (ocv_table sample_pdata))\<rparr>"

theorem parse_dt_result_witness:
  "fst (rk817_bat_parse_dt (byte_kernel 0) sample_tree True True sample_battery) = 0 \<and>
   zero_reserve_dsoc (pdata (snd (rk817_bat_parse_dt (byte_kernel 0) sample_tree True True sample_battery))) = 10000000"
proof -
  obtain ret b' where p: "rk817_bat_parse_dt (byte_kernel 0) sample_tree True True sample_battery = (ret, b')" by fastforce
  have neg: "\<And>name e. of_property_read_u32 sample_tree name = Inl e \<Longrightarrow> e < 0" "\<And>name n e. of_property_read_u32_array sample_tree name n = Inl e \<Longrightarrow> e < 0"
    by (auto simp: sample_tree_def split: if_splits)
  show ?thesis using parse_dt_result [OF neg p] unfolding p by (simp add: sample_tree_def)
qed

end
