(* ===== verification/RK817_Charger.thy ===== *)
theory RK817_Charger
  imports RK817_Fields "HOL-Library.Monad_Syntax"
begin

text \<open>
  The RK817 charger driver (\<^verbatim>\<open>rk817_charger.c\<close>): the charger registers, input and charge limits, the
  reaction to USB, DC and OTG events, the device tree, probe, suspend, resume and shutdown.

  The kernel is a parameter: the register map and the regulator work on a hardware state, gpio and
  extcon answers are functions. Calls whose effect lies in the kernel (interrupt enabling, work
  queues, notifiers, reports to the power supply class) are recorded in the field \<open>calls\<close>, newest first.
  Using the regulator when it could not be obtained is a dereferenced error pointer: \<open>None\<close>.
\<close>

section \<open>Fields and enumerations\<close>

datatype rk817_charge_fields =
  BOOST_EN | OTG_EN | OTG_SLP_EN | CHRG_CLK_SEL
| CHRG_EN | CHRG_VOL_SEL | CHRG_CT_EN | CHRG_CUR_SEL
| USB_VLIM_EN | USB_VLIM_SEL | USB_ILIM_EN | USB_ILIM_SEL
| SYS_CAN_SD | USB_SYS_EN | BAT_OVP_EN | CHRG_TERM_ANA_DIG
| CHRG_TERM_ANA_SEL
| CHRG_TERM_DIG
| BAT_HTS_TS | BAT_LTS_TS
| CHRG_TIMER_TRIKL_EN | CHRG_TIMER_TRIKL
| CHRG_TIMER_CCCV_EN | CHRG_TIMER_CCCV
| BAT_EXS | CHG_STS | BAT_OVP_STS | CHRG_IN_CLAMP
| USB_EXS | USB_EFF
| BAT_DIS_ILIM_STS | BAT_SYS_CMP_DLY | BAT_DIS_ILIM_EN
| BAT_DISCHRG_ILIM
| PLUG_IN_STS | SOC_REG0 | SOC_REG1 | SOC_REG2

fun rk817_charge_reg_fields :: "rk817_charge_fields \<Rightarrow> reg_field" where
  "rk817_charge_reg_fields SOC_REG0 = REG_FIELD 0x9A 0 7"
| "rk817_charge_reg_fields SOC_REG1 = REG_FIELD 0x9B 0 7"
| "rk817_charge_reg_fields SOC_REG2 = REG_FIELD 0x9C 0 7"
| "rk817_charge_reg_fields BOOST_EN = REG_FIELD 0xB4 1 5"
| "rk817_charge_reg_fields OTG_EN = REG_FIELD 0xB4 2 6"
| "rk817_charge_reg_fields OTG_SLP_EN = REG_FIELD 0xB5 6 6"
| "rk817_charge_reg_fields CHRG_EN = REG_FIELD 0xE4 7 7"
| "rk817_charge_reg_fields CHRG_VOL_SEL = REG_FIELD 0xE4 4 6"
| "rk817_charge_reg_fields CHRG_CT_EN = REG_FIELD 0xE4 3 3"
| "rk817_charge_reg_fields CHRG_CUR_SEL = REG_FIELD 0xE4 0 2"
| "rk817_charge_reg_fields USB_VLIM_EN = REG_FIELD 0xE5 7 7"
| "rk817_charge_reg_fields USB_VLIM_SEL = REG_FIELD 0xE5 4 6"
| "rk817_charge_reg_fields USB_ILIM_EN = REG_FIELD 0xE5 3 3"
| "rk817_charge_reg_fields USB_ILIM_SEL = REG_FIELD 0xE5 0 2"
| "rk817_charge_reg_fields SYS_CAN_SD = REG_FIELD 0xE6 7 7"
| "rk817_charge_reg_fields USB_SYS_EN = REG_FIELD 0xE6 6 6"
| "rk817_charge_reg_fields BAT_OVP_EN = REG_FIELD 0xE6 3 3"
| "rk817_charge_reg_fields CHRG_TERM_ANA_DIG = REG_FIELD 0xE6 2 2"
| "rk817_charge_reg_fields CHRG_TERM_ANA_SEL = REG_FIELD 0xE6 0 1"
| "rk817_charge_reg_fields CHRG_TERM_DIG = REG_FIELD 0xE7 0 7"
| "rk817_charge_reg_fields BAT_HTS_TS = REG_FIELD 0xE8 0 7"
| "rk817_charge_reg_fields BAT_LTS_TS = REG_FIELD 0xE9 0 7"
| "rk817_charge_reg_fields CHRG_TIMER_TRIKL_EN = REG_FIELD 0xEA 7 7"
| "rk817_charge_reg_fields CHRG_TIMER_TRIKL = REG_FIELD 0xEA 4 6"
| "rk817_charge_reg_fields CHRG_TIMER_CCCV_EN = REG_FIELD 0xEA 3 3"
| "rk817_charge_reg_fields CHRG_TIMER_CCCV = REG_FIELD 0xEA 0 2"
| "rk817_charge_reg_fields BAT_EXS = REG_FIELD 0xEB 7 7"
| "rk817_charge_reg_fields CHG_STS = REG_FIELD 0xEB 4 6"
| "rk817_charge_reg_fields BAT_OVP_STS = REG_FIELD 0xEB 3 3"
| "rk817_charge_reg_fields CHRG_IN_CLAMP = REG_FIELD 0xEB 2 2"
| "rk817_charge_reg_fields USB_EXS = REG_FIELD 0xEB 1 1"
| "rk817_charge_reg_fields USB_EFF = REG_FIELD 0xEB 0 0"
| "rk817_charge_reg_fields BAT_DIS_ILIM_STS = REG_FIELD 0xEC 6 6"
| "rk817_charge_reg_fields BAT_SYS_CMP_DLY = REG_FIELD 0xEC 4 5"
| "rk817_charge_reg_fields BAT_DIS_ILIM_EN = REG_FIELD 0xEC 3 3"
| "rk817_charge_reg_fields BAT_DISCHRG_ILIM = REG_FIELD 0xEC 0 2"
| "rk817_charge_reg_fields PLUG_IN_STS = REG_FIELD 0xF0 6 6"
| "rk817_charge_reg_fields CHRG_CLK_SEL = REG_FIELD 0xF3 6 6"

text \<open>The values written to the fields, as the enumerations of the source number them.\<close>

abbreviation (input) "CHRG_CUR_1000MA \<equiv> 0 :: int"
abbreviation (input) "CHRG_CUR_1500MA \<equiv> 1 :: int"
abbreviation (input) "CHRG_CUR_2000MA \<equiv> 2 :: int"
abbreviation (input) "CHRG_CUR_2500MA \<equiv> 3 :: int"
abbreviation (input) "CHRG_CUR_3000MA \<equiv> 5 :: int"
abbreviation (input) "CHRG_CUR_3500MA \<equiv> 6 :: int"
abbreviation (input) "CHRG_CUR_500MA \<equiv> 7 :: int"
abbreviation (input) "CHRG_VOL_4100MV \<equiv> 0 :: int"
abbreviation (input) "INPUT_VOL_4000MV \<equiv> 0 :: int"
abbreviation (input) "INPUT_CUR_450MA \<equiv> 0 :: int"
abbreviation (input) "INPUT_CUR_80MA \<equiv> 1 :: int"
abbreviation (input) "INPUT_CUR_850MA \<equiv> 2 :: int"
abbreviation (input) "INPUT_CUR_1500MA \<equiv> 3 :: int"
abbreviation (input) "INPUT_CUR_1750MA \<equiv> 4 :: int"
abbreviation (input) "INPUT_CUR_2000MA \<equiv> 5 :: int"
abbreviation (input) "INPUT_CUR_2500MA \<equiv> 6 :: int"
abbreviation (input) "INPUT_CUR_3000MA \<equiv> 7 :: int"
abbreviation (input) "CHRG_CLK_2M \<equiv> 1 :: int"
abbreviation (input) "CHRG_TERM_150MA \<equiv> 0 :: int"
abbreviation (input) "CHRG_TERM_200MA \<equiv> 1 :: int"
abbreviation (input) "CHRG_TERM_300MA \<equiv> 2 :: int"
abbreviation (input) "CHRG_TERM_400MA \<equiv> 3 :: int"
abbreviation (input) "CHRG_ANALOG \<equiv> 0 :: int"
abbreviation (input) "DISABLE \<equiv> 0 :: int"
abbreviation (input) "ENABLE \<equiv> 1 :: int"
abbreviation (input) "OFFLINE \<equiv> 0 :: int"
abbreviation (input) "ONLINE \<equiv> 1 :: int"
abbreviation (input) "INPUT_450MA \<equiv> 450 :: int"
abbreviation (input) "INPUT_1500MA \<equiv> 1500 :: int"

datatype charger_t =
  USB_TYPE_UNKNOWN_CHARGER | USB_TYPE_NONE_CHARGER | USB_TYPE_USB_CHARGER | USB_TYPE_AC_CHARGER
| USB_TYPE_CDP_CHARGER | DC_TYPE_DC_CHARGER | DC_TYPE_NONE_CHARGER

text \<open>The events of the battery charging detection; any other number is \<open>Other_event\<close>.\<close>

datatype bc_port_type =
  USB_BC_TYPE_DISCNT | USB_BC_TYPE_SDP | USB_BC_TYPE_DCP | USB_BC_TYPE_CDP
| USB_OTG_POWER_ON | USB_OTG_POWER_OFF | Other_event

datatype extcon_cable =
  EXTCON_CHG_USB_SDP | EXTCON_CHG_USB_DCP | EXTCON_CHG_USB_CDP | EXTCON_USB_VBUS_EN | EXTCON_USB

datatype psy_status =
  POWER_SUPPLY_STATUS_UNKNOWN | POWER_SUPPLY_STATUS_CHARGING | POWER_SUPPLY_STATUS_DISCHARGING | POWER_SUPPLY_STATUS_FULL

datatype psy_property =
  POWER_SUPPLY_PROP_ONLINE | POWER_SUPPLY_PROP_STATUS | POWER_SUPPLY_PROP_VOLTAGE_MAX | POWER_SUPPLY_PROP_CURRENT_MAX
| POWER_SUPPLY_PROP_other

datatype psy_value = Number int | Status psy_status

section \<open>State\<close>

datatype charger_work = Dc_work | Usb_work | Host_work | Discnt_work | Irq_work

datatype charger_queue = Usb_charger_wq | Dc_charger_wq

datatype notifier = Cable_cg_nb | Cable_host_nb | Cable_discnt_nb | Bc_nb

datatype psy_id = Usb_psy | Ac_psy

datatype kernel_call =
  Power_supply_changed psy_id
| Disable_irq int
| Enable_irq int
| Enable_irq_wake int
| Irq_trigger_high int bool
| Queue_delayed_work charger_queue charger_work int
| Schedule_delayed_work charger_work int
| Cancel_delayed_work_sync charger_work
| Destroy_workqueue charger_queue
| Flush_workqueue charger_queue
| Extcon_register_notifier extcon_cable notifier
| Extcon_unregister_notifier extcon_cable notifier
| Bc_notifier_unregister notifier

record charger_platform_data =
  pd_max_input_current :: int
  pd_min_input_voltage :: int
  pd_max_chrg_current :: int
  pd_max_chrg_voltage :: int
  pd_chrg_finish_cur :: int
  pd_chrg_term_mode :: int
  power_dc2otg :: int
  dc_det_level :: int
  dc_det_pin :: int
  support_dc_det :: bool
  virtual_power :: int
  sample_res :: int
  otg5v_suspend_enable :: int
  extcon :: bool
  gate_function_disable :: int

record 'd rk817_charger =
  hw :: 'd
  otg5v_ok :: bool
  pdata :: charger_platform_data
  bc_event :: bc_port_type
  usb_charger :: charger_t
  dc_charger :: charger_t
  ac_in :: int
  usb_in :: int
  otg_in :: int
  dc_in :: int
  prop_status :: psy_status
  max_input_current :: int
  min_input_voltage :: int
  max_chrg_current :: int
  max_chrg_voltage :: int
  chrg_finish_cur :: int
  chrg_term_mode :: int
  res_div :: int
  otg_slp_state :: int
  plugin_trigger :: int
  plugout_trigger :: int
  plugin_irq :: int
  plugout_irq :: int
  calls :: "kernel_call list"

text \<open>What the handlers ask the kernel; \<open>extcon_get_state\<close> counts the calls of one handler.\<close>

record 'd charge_kernel =
  regmap_field_read :: "'d \<Rightarrow> rk817_charge_fields \<Rightarrow> int \<times> int"
  regmap_field_write :: "'d \<Rightarrow> rk817_charge_fields \<Rightarrow> int \<Rightarrow> 'd \<times> int"
  regulator_is_enabled :: "'d \<Rightarrow> int"
  regulator_enable :: "'d \<Rightarrow> 'd \<times> int"
  regulator_disable :: "'d \<Rightarrow> 'd \<times> int"
  gpio_is_valid :: "int \<Rightarrow> bool"
  gpio_get_value :: "int \<Rightarrow> int"
  extcon_get_state :: "nat \<Rightarrow> extcon_cable \<Rightarrow> int"

definition call :: "kernel_call \<Rightarrow> 'd rk817_charger \<Rightarrow> 'd rk817_charger" where
  "call k c = c\<lparr>calls := k # calls c\<rparr>"

section \<open>Reported properties\<close>

definition rk817_charge_ac_get_property :: "psy_property \<Rightarrow> 'd rk817_charger \<Rightarrow> psy_value option" where
  "rk817_charge_ac_get_property psp c =
     (case psp of
        POWER_SUPPLY_PROP_ONLINE \<Rightarrow> Some (Number (if virtual_power (pdata c) \<noteq> 0 then 1 else ac_in c OR dc_in c))
      | POWER_SUPPLY_PROP_STATUS \<Rightarrow>
          Some (Status (if virtual_power (pdata c) \<noteq> 0 then POWER_SUPPLY_STATUS_CHARGING else prop_status c))
      | POWER_SUPPLY_PROP_VOLTAGE_MAX \<Rightarrow> Some (Number (s32 (max_chrg_voltage c * 1000)))
      | POWER_SUPPLY_PROP_CURRENT_MAX \<Rightarrow> Some (Number (s32 (max_chrg_current c * 1000)))
      | POWER_SUPPLY_PROP_other \<Rightarrow> None)"

definition rk817_charge_usb_get_property :: "psy_property \<Rightarrow> 'd rk817_charger \<Rightarrow> psy_value option" where
  "rk817_charge_usb_get_property psp c =
     (case psp of
        POWER_SUPPLY_PROP_ONLINE \<Rightarrow> Some (Number (if virtual_power (pdata c) \<noteq> 0 then 1 else usb_in c))
      | POWER_SUPPLY_PROP_STATUS \<Rightarrow>
          Some (Status (if virtual_power (pdata c) \<noteq> 0 then POWER_SUPPLY_STATUS_CHARGING else prop_status c))
      | POWER_SUPPLY_PROP_VOLTAGE_MAX \<Rightarrow> Some (Number (s32 (max_chrg_voltage c)))
      | POWER_SUPPLY_PROP_CURRENT_MAX \<Rightarrow> Some (Number (s32 (max_chrg_current c)))
      | POWER_SUPPLY_PROP_other \<Rightarrow> None)"

section \<open>Registers and regulator\<close>

definition rk817_charge_field_read :: "'d charge_kernel \<Rightarrow> rk817_charge_fields \<Rightarrow> 'd rk817_charger \<Rightarrow> int" where
  "rk817_charge_field_read K f c = (let (ret, val) = regmap_field_read K (hw c) f in if ret < 0 then ret else val)"

definition rk817_charge_field_write :: "'d charge_kernel \<Rightarrow> rk817_charge_fields \<Rightarrow> int \<Rightarrow> 'd rk817_charger \<Rightarrow> 'd rk817_charger" where
  "rk817_charge_field_write K f v c = c\<lparr>hw := fst (regmap_field_write K (hw c) f (u32 v))\<rparr>"

definition rk817_charge_get_otg_state :: "'d charge_kernel \<Rightarrow> 'd rk817_charger \<Rightarrow> int option" where
  "rk817_charge_get_otg_state K c = (if otg5v_ok c then Some (regulator_is_enabled K (hw c)) else None)"

definition rk817_charge_boost_disable :: "'d charge_kernel \<Rightarrow> 'd rk817_charger \<Rightarrow> 'd rk817_charger" where
  "rk817_charge_boost_disable K = rk817_charge_field_write K BOOST_EN 0x10"

definition rk817_charge_boost_enable :: "'d charge_kernel \<Rightarrow> 'd rk817_charger \<Rightarrow> 'd rk817_charger" where
  "rk817_charge_boost_enable K = rk817_charge_field_write K BOOST_EN 0x11"

definition rk817_charge_otg_disable :: "'d charge_kernel \<Rightarrow> 'd rk817_charger \<Rightarrow> 'd rk817_charger option" where
  "rk817_charge_otg_disable K c = (if otg5v_ok c then Some (c\<lparr>hw := fst (regulator_disable K (hw c))\<rparr>) else None)"

definition rk817_charge_otg_enable :: "'d charge_kernel \<Rightarrow> 'd rk817_charger \<Rightarrow> 'd rk817_charger option" where
  "rk817_charge_otg_enable K c = (if otg5v_ok c then Some (c\<lparr>hw := fst (regulator_enable K (hw c))\<rparr>) else None)"

definition rk817_charge_get_otg_slp_state :: "'d charge_kernel \<Rightarrow> 'd rk817_charger \<Rightarrow> int" where
  "rk817_charge_get_otg_slp_state K c = rk817_charge_field_read K OTG_SLP_EN c AND 1"

definition rk817_charge_otg_slp_disable :: "'d charge_kernel \<Rightarrow> 'd rk817_charger \<Rightarrow> 'd rk817_charger" where
  "rk817_charge_otg_slp_disable K = rk817_charge_field_write K OTG_SLP_EN 0"

definition rk817_charge_otg_slp_enable :: "'d charge_kernel \<Rightarrow> 'd rk817_charger \<Rightarrow> 'd rk817_charger" where
  "rk817_charge_otg_slp_enable K = rk817_charge_field_write K OTG_SLP_EN 1"

definition rk817_charge_get_charge_state :: "'d charge_kernel \<Rightarrow> 'd rk817_charger \<Rightarrow> int" where
  "rk817_charge_get_charge_state K = rk817_charge_field_read K CHRG_EN"

definition rk817_charge_enable_charge :: "'d charge_kernel \<Rightarrow> 'd rk817_charger \<Rightarrow> 'd rk817_charger" where
  "rk817_charge_enable_charge K = rk817_charge_field_write K CHRG_EN ENABLE"

definition rk817_charge_usb_to_sys_enable :: "'d charge_kernel \<Rightarrow> 'd rk817_charger \<Rightarrow> 'd rk817_charger" where
  "rk817_charge_usb_to_sys_enable K = rk817_charge_field_write K USB_SYS_EN ENABLE"

definition rk817_charge_sys_can_sd_disable :: "'d charge_kernel \<Rightarrow> 'd rk817_charger \<Rightarrow> 'd rk817_charger" where
  "rk817_charge_sys_can_sd_disable K = rk817_charge_field_write K SYS_CAN_SD DISABLE"

definition rk817_charge_get_charge_status :: "'d charge_kernel \<Rightarrow> 'd rk817_charger \<Rightarrow> int" where
  "rk817_charge_get_charge_status K = rk817_charge_field_read K CHG_STS"

definition rk817_charge_get_plug_in_status :: "'d charge_kernel \<Rightarrow> 'd rk817_charger \<Rightarrow> int" where
  "rk817_charge_get_plug_in_status K = rk817_charge_field_read K PLUG_IN_STS"

definition rk817_charge_set_charge_clock :: "'d charge_kernel \<Rightarrow> int \<Rightarrow> 'd rk817_charger \<Rightarrow> 'd rk817_charger" where
  "rk817_charge_set_charge_clock K clock = rk817_charge_field_write K CHRG_CLK_SEL clock"

definition is_battery_exist :: "'d charge_kernel \<Rightarrow> 'd rk817_charger \<Rightarrow> int" where
  "is_battery_exist K = rk817_charge_field_read K BAT_EXS"

section \<open>Limits\<close>

definition rk817_charge_set_chrg_voltage :: "'d charge_kernel \<Rightarrow> int \<Rightarrow> 'd rk817_charger \<Rightarrow> 'd rk817_charger" where
  "rk817_charge_set_chrg_voltage K chrg_vol c =
     (if chrg_vol < 4100 \<or> chrg_vol > 4500 then c
      else rk817_charge_field_write K CHRG_VOL_SEL (CHRG_VOL_4100MV + cdiv (chrg_vol - 4100) 50) c)"

text \<open>A current outside of the range is only logged.\<close>

definition chrg_current_sel :: "int \<Rightarrow> int" where
  "chrg_current_sel chrg_current =
     (if chrg_current < 1000 then CHRG_CUR_500MA
      else if chrg_current < 1500 then CHRG_CUR_1000MA
      else if chrg_current < 2000 then CHRG_CUR_1500MA
      else if chrg_current < 2500 then CHRG_CUR_2000MA
      else if chrg_current < 3000 then CHRG_CUR_2500MA
      else if chrg_current < 3500 then CHRG_CUR_3000MA
      else CHRG_CUR_3500MA)"

definition rk817_charge_set_chrg_current :: "'d charge_kernel \<Rightarrow> int \<Rightarrow> 'd rk817_charger \<Rightarrow> 'd rk817_charger" where
  "rk817_charge_set_chrg_current K chrg_current = rk817_charge_field_write K CHRG_CUR_SEL (chrg_current_sel chrg_current)"

definition rk817_charge_vlimit_enable :: "'d charge_kernel \<Rightarrow> 'd rk817_charger \<Rightarrow> 'd rk817_charger" where
  "rk817_charge_vlimit_enable K = rk817_charge_field_write K USB_VLIM_EN ENABLE"

definition rk817_charge_set_input_voltage :: "'d charge_kernel \<Rightarrow> int \<Rightarrow> 'd rk817_charger \<Rightarrow> 'd rk817_charger" where
  "rk817_charge_set_input_voltage K input_voltage c =
     rk817_charge_vlimit_enable K
       (rk817_charge_field_write K USB_VLIM_SEL (INPUT_VOL_4000MV + cdiv (s32 (input_voltage - 4000)) 100) c)"

definition rk817_charge_ilimit_enable :: "'d charge_kernel \<Rightarrow> 'd rk817_charger \<Rightarrow> 'd rk817_charger" where
  "rk817_charge_ilimit_enable K = rk817_charge_field_write K USB_ILIM_EN ENABLE"

definition input_current_sel :: "int \<Rightarrow> int" where
  "input_current_sel input_current =
     (if input_current < 450 then INPUT_CUR_80MA
      else if input_current < 850 then INPUT_CUR_450MA
      else if input_current < 1500 then INPUT_CUR_850MA
      else if input_current < 1750 then INPUT_CUR_1500MA
      else if input_current < 2000 then INPUT_CUR_1750MA
      else if input_current < 2500 then INPUT_CUR_2000MA
      else if input_current < 3000 then INPUT_CUR_2500MA
      else INPUT_CUR_3000MA)"

definition rk817_charge_set_input_current :: "'d charge_kernel \<Rightarrow> int \<Rightarrow> 'd rk817_charger \<Rightarrow> 'd rk817_charger" where
  "rk817_charge_set_input_current K input_current c =
     rk817_charge_ilimit_enable K (rk817_charge_field_write K USB_ILIM_SEL (input_current_sel input_current) c)"

definition rk817_charge_set_chrg_term_mod :: "'d charge_kernel \<Rightarrow> int \<Rightarrow> 'd rk817_charger \<Rightarrow> 'd rk817_charger" where
  "rk817_charge_set_chrg_term_mod K mode = rk817_charge_field_write K CHRG_TERM_ANA_DIG mode"

definition term_current_sel :: "int \<Rightarrow> int" where
  "term_current_sel chrg_current =
     (if chrg_current < 200 then CHRG_TERM_150MA
      else if chrg_current < 300 then CHRG_TERM_200MA
      else if chrg_current < 400 then CHRG_TERM_300MA
      else CHRG_TERM_400MA)"

definition rk817_charge_set_term_current_analog :: "'d charge_kernel \<Rightarrow> int \<Rightarrow> 'd rk817_charger \<Rightarrow> 'd rk817_charger" where
  "rk817_charge_set_term_current_analog K chrg_current = rk817_charge_field_write K CHRG_TERM_ANA_SEL (term_current_sel chrg_current)"

definition term_current_adc :: "int \<Rightarrow> int \<Rightarrow> int" where
  "term_current_adc chrg_current samp_res =
     (let value = cdiv (s32 (s32 (chrg_current * 1000) * samp_res)) 172
      in u8 (drop_bit 5 (value AND push_bit 5 0xff)))"

definition rk817_charge_set_term_current_digital :: "'d charge_kernel \<Rightarrow> int \<Rightarrow> 'd rk817_charger \<Rightarrow> 'd rk817_charger" where
  "rk817_charge_set_term_current_digital K chrg_current c =
     rk817_charge_field_write K CHRG_TERM_DIG (term_current_adc chrg_current (res_div c)) c"

definition rk817_charge_set_chrg_finish_condition :: "'d charge_kernel \<Rightarrow> 'd rk817_charger \<Rightarrow> 'd rk817_charger" where
  "rk817_charge_set_chrg_finish_condition K c =
     (let c1 = (if chrg_term_mode c = CHRG_ANALOG then rk817_charge_set_term_current_analog K (s32 (chrg_finish_cur c)) c
                else rk817_charge_set_term_current_digital K (s32 (chrg_finish_cur c)) c)
      in rk817_charge_set_chrg_term_mod K (s32 (chrg_term_mode c1)) c1)"

definition rk817_charge_online :: "'d rk817_charger \<Rightarrow> int" where
  "rk817_charge_online c = ac_in c OR usb_in c OR dc_in c"

definition rk817_charge_get_dsoc :: "'d charge_kernel \<Rightarrow> 'd rk817_charger \<Rightarrow> int" where
  "rk817_charge_get_dsoc K c =
     (let soc_save = rk817_charge_field_read K SOC_REG0 c;
          soc_save = soc_save OR s32 (push_bit 8 (rk817_charge_field_read K SOC_REG1 c));
          soc_save = soc_save OR s32 (push_bit 16 (rk817_charge_field_read K SOC_REG2 c))
      in cdiv soc_save 1000)"

definition rk817_charge_set_otg_in :: "int \<Rightarrow> 'd rk817_charger \<Rightarrow> 'd rk817_charger" where
  "rk817_charge_set_otg_in online c = c\<lparr>otg_in := u8 online\<rparr>"

section \<open>Chargers and OTG\<close>

definition supplies_changed :: "'d rk817_charger \<Rightarrow> 'd rk817_charger" where
  "supplies_changed c = call (Power_supply_changed Ac_psy) (call (Power_supply_changed Usb_psy) c)"

definition apply_charger :: "'d charge_kernel \<Rightarrow> charger_t \<Rightarrow> 'd rk817_charger \<Rightarrow> 'd rk817_charger" where
  "apply_charger K charger c =
     (case charger of
        USB_TYPE_NONE_CHARGER \<Rightarrow>
          (let c1 = c\<lparr>usb_in := 0, ac_in := 0\<rparr>;
               c2 = (if dc_in c1 = 0
                     then rk817_charge_set_input_current K INPUT_450MA (c1\<lparr>prop_status := POWER_SUPPLY_STATUS_DISCHARGING\<rparr>)
                     else c1)
           in supplies_changed c2)
      | USB_TYPE_USB_CHARGER \<Rightarrow>
          (let c1 = c\<lparr>usb_in := 1, ac_in := 0, prop_status := POWER_SUPPLY_STATUS_CHARGING\<rparr>;
               c2 = (if dc_in c1 = 0 then rk817_charge_set_input_current K INPUT_450MA c1 else c1)
           in supplies_changed c2)
      | USB_TYPE_AC_CHARGER \<Rightarrow>
          (let c1 = c\<lparr>ac_in := 1, usb_in := 0, prop_status := POWER_SUPPLY_STATUS_CHARGING\<rparr>
           in supplies_changed (rk817_charge_set_input_current K (s32 (max_input_current c1)) c1))
      | USB_TYPE_CDP_CHARGER \<Rightarrow>
          (let c1 = c\<lparr>ac_in := 1, usb_in := 0, prop_status := POWER_SUPPLY_STATUS_CHARGING\<rparr>
           in supplies_changed (rk817_charge_set_input_current K INPUT_1500MA c1))
      | DC_TYPE_DC_CHARGER \<Rightarrow>
          (let c1 = c\<lparr>dc_in := 1, prop_status := POWER_SUPPLY_STATUS_CHARGING\<rparr>
           in supplies_changed (rk817_charge_set_input_current K (s32 (max_input_current c1)) c1))
      | DC_TYPE_NONE_CHARGER \<Rightarrow>
          (let c1 = c\<lparr>dc_in := 0\<rparr>;
               c2 = (if rk817_charge_get_plug_in_status K c1 = 0
                     then rk817_charge_set_input_current K INPUT_450MA
                            (c1\<lparr>ac_in := 0, usb_in := 0, prop_status := POWER_SUPPLY_STATUS_DISCHARGING\<rparr>)
                     else if usb_in c1 \<noteq> 0
                     then (rk817_charge_set_input_current K INPUT_450MA c1)\<lparr>prop_status := POWER_SUPPLY_STATUS_CHARGING\<rparr>
                     else c1)
           in supplies_changed c2)
      | USB_TYPE_UNKNOWN_CHARGER \<Rightarrow>
          rk817_charge_set_input_current K INPUT_450MA (c\<lparr>prop_status := POWER_SUPPLY_STATUS_DISCHARGING\<rparr>))"

definition rk817_charge_set_chrg_param :: "'d charge_kernel \<Rightarrow> charger_t \<Rightarrow> 'd rk817_charger \<Rightarrow> 'd rk817_charger" where
  "rk817_charge_set_chrg_param K charger c =
     (let c1 = apply_charger K charger c
      in if rk817_charge_online c1 \<noteq> 0 \<and> rk817_charge_get_dsoc K c1 = 100
         then c1\<lparr>prop_status := POWER_SUPPLY_STATUS_FULL\<rparr> else c1)"

definition plug_irqs_off :: "'d rk817_charger \<Rightarrow> 'd rk817_charger" where
  "plug_irqs_off c = call (Disable_irq (plugout_irq c)) (call (Disable_irq (plugin_irq c)) c)"

definition plug_irqs_on :: "'d rk817_charger \<Rightarrow> 'd rk817_charger" where
  "plug_irqs_on c = call (Enable_irq (plugout_irq c)) (call (Enable_irq (plugin_irq c)) c)"

definition rk817_charge_set_otg_state :: "'d charge_kernel \<Rightarrow> bc_port_type \<Rightarrow> 'd rk817_charger \<Rightarrow> 'd rk817_charger option" where
  "rk817_charge_set_otg_state K state c =
     (case state of
        USB_OTG_POWER_ON \<Rightarrow>
          if otg_in c \<noteq> 0 then Some c
          else do {
            s \<leftarrow> rk817_charge_get_otg_state K c;
            if s = 0
            then do {
              c1 \<leftarrow> rk817_charge_otg_enable K c;
              s1 \<leftarrow> rk817_charge_get_otg_state K c1;
              Some (if s1 = 0 then c1 else plug_irqs_off c1)
            }
            else Some (plug_irqs_off c)
          }
      | USB_OTG_POWER_OFF \<Rightarrow>
          if otg_in c = 0 then Some c
          else do {
            s \<leftarrow> rk817_charge_get_otg_state K c;
            if s \<noteq> 0
            then do {
              c1 \<leftarrow> rk817_charge_otg_disable K c;
              s1 \<leftarrow> rk817_charge_get_otg_state K c1;
              Some (if s1 \<noteq> 0 then c1 else plug_irqs_on c1)
            }
            else Some (plug_irqs_on c)
          }
      | _ \<Rightarrow> Some c)"

section \<open>DC adapter\<close>

definition rk817_charge_dc_det_isr :: "'d charge_kernel \<Rightarrow> int \<Rightarrow> 'd rk817_charger \<Rightarrow> 'd rk817_charger" where
  "rk817_charge_dc_det_isr K irq c =
     call (Queue_delayed_work Dc_charger_wq Dc_work 10)
       (call (Irq_trigger_high irq (gpio_get_value K (dc_det_pin (pdata c)) = 0)) c)"

definition rk817_charge_get_dc_state :: "'d charge_kernel \<Rightarrow> 'd rk817_charger \<Rightarrow> charger_t" where
  "rk817_charge_get_dc_state K c =
     (if \<not> gpio_is_valid K (dc_det_pin (pdata c)) then DC_TYPE_NONE_CHARGER
      else if u32 (gpio_get_value K (dc_det_pin (pdata c))) = dc_det_level (pdata c) then DC_TYPE_DC_CHARGER
      else DC_TYPE_NONE_CHARGER)"

definition rk817_charge_dc_det_worker :: "'d charge_kernel \<Rightarrow> 'd rk817_charger \<Rightarrow> 'd rk817_charger option" where
  "rk817_charge_dc_det_worker K c =
     (if rk817_charge_get_dc_state K c = DC_TYPE_DC_CHARGER
      then do {
        let c1 = rk817_charge_set_chrg_param K DC_TYPE_DC_CHARGER c;
        c2 \<leftarrow> (if otg_in c1 \<noteq> 0 \<and> power_dc2otg (pdata c1) \<noteq> 0 then rk817_charge_set_otg_state K USB_OTG_POWER_OFF c1 else Some c1);
        Some (rk817_charge_boost_disable K c2)
      }
      else let c1 = rk817_charge_boost_enable K (rk817_charge_set_chrg_param K DC_TYPE_NONE_CHARGER c)
           in if otg_in c1 \<noteq> 0 then rk817_charge_set_otg_state K USB_OTG_POWER_ON c1 else Some c1)"

section \<open>USB events\<close>

definition rk817_charge_host_evt_worker :: "'d charge_kernel \<Rightarrow> 'd rk817_charger \<Rightarrow> 'd rk817_charger option" where
  "rk817_charge_host_evt_worker K c =
     (if extcon_get_state K 0 EXTCON_USB_VBUS_EN > 0
      then do {
        c1 \<leftarrow> (if dc_in c \<noteq> 0 \<and> power_dc2otg (pdata c) \<noteq> 0
               then if otg_in c \<noteq> 0 then rk817_charge_set_otg_state K USB_OTG_POWER_OFF c else Some c
               else rk817_charge_set_otg_state K USB_OTG_POWER_ON c);
        Some (rk817_charge_set_otg_in ONLINE c1)
      }
      else if extcon_get_state K 1 EXTCON_USB_VBUS_EN = 0
      then do {
        c1 \<leftarrow> rk817_charge_set_otg_state K USB_OTG_POWER_OFF c;
        Some (rk817_charge_set_otg_in OFFLINE c1)
      }
      else Some c)"

definition rk817_charger_evt_worker :: "'d charge_kernel \<Rightarrow> 'd rk817_charger \<Rightarrow> 'd rk817_charger" where
  "rk817_charger_evt_worker K c =
     (let charger = (if extcon_get_state K 0 EXTCON_CHG_USB_SDP > 0 then USB_TYPE_USB_CHARGER
                     else if extcon_get_state K 1 EXTCON_CHG_USB_DCP > 0 then USB_TYPE_AC_CHARGER
                     else if extcon_get_state K 2 EXTCON_CHG_USB_CDP > 0 then USB_TYPE_CDP_CHARGER
                     else USB_TYPE_UNKNOWN_CHARGER)
      in if charger \<noteq> USB_TYPE_UNKNOWN_CHARGER
         then rk817_charge_set_chrg_param K charger (c\<lparr>usb_charger := charger\<rparr>) else c)"

definition rk817_charge_discnt_evt_worker :: "'d charge_kernel \<Rightarrow> 'd rk817_charger \<Rightarrow> 'd rk817_charger" where
  "rk817_charge_discnt_evt_worker K c =
     (if extcon_get_state K 0 EXTCON_USB = 0 then rk817_charge_set_chrg_param K USB_TYPE_NONE_CHARGER c else c)"

definition rk817_charge_bc_evt_worker :: "'d charge_kernel \<Rightarrow> 'd rk817_charger \<Rightarrow> 'd rk817_charger option" where
  "rk817_charge_bc_evt_worker K c =
     (case bc_event c of
        USB_BC_TYPE_DISCNT \<Rightarrow> Some (rk817_charge_set_chrg_param K USB_TYPE_NONE_CHARGER c)
      | USB_BC_TYPE_SDP \<Rightarrow> Some (rk817_charge_set_chrg_param K USB_TYPE_USB_CHARGER c)
      | USB_BC_TYPE_DCP \<Rightarrow> Some (rk817_charge_set_chrg_param K USB_TYPE_AC_CHARGER c)
      | USB_BC_TYPE_CDP \<Rightarrow> Some (rk817_charge_set_chrg_param K USB_TYPE_CDP_CHARGER c)
      | USB_OTG_POWER_ON \<Rightarrow>
          if power_dc2otg (pdata c) \<noteq> 0 \<and> dc_in c \<noteq> 0 then Some c else rk817_charge_set_otg_state K USB_OTG_POWER_ON c
      | USB_OTG_POWER_OFF \<Rightarrow> rk817_charge_set_otg_state K USB_OTG_POWER_OFF c
      | Other_event \<Rightarrow> Some c)"

definition rk817_charger_evt_notifier :: "'d rk817_charger \<Rightarrow> 'd rk817_charger" where
  "rk817_charger_evt_notifier = call (Queue_delayed_work Usb_charger_wq Usb_work 10)"

definition rk817_charge_host_evt_notifier :: "'d rk817_charger \<Rightarrow> 'd rk817_charger" where
  "rk817_charge_host_evt_notifier = call (Queue_delayed_work Usb_charger_wq Host_work 10)"

definition rk817_charge_discnt_evt_notfier :: "'d rk817_charger \<Rightarrow> 'd rk817_charger" where
  "rk817_charge_discnt_evt_notfier = call (Queue_delayed_work Usb_charger_wq Discnt_work 10)"

definition rk817_charge_bc_evt_notifier :: "bc_port_type \<Rightarrow> 'd rk817_charger \<Rightarrow> 'd rk817_charger" where
  "rk817_charge_bc_evt_notifier event c = call (Queue_delayed_work Usb_charger_wq Usb_work 10) (c\<lparr>bc_event := event\<rparr>)"

text \<open>The function of \<open>Usb_work\<close> is set once, by \<^verbatim>\<open>rk817_charge_usb_init\<close>.\<close>

definition usb_worker :: "'d charge_kernel \<Rightarrow> 'd rk817_charger \<Rightarrow> 'd rk817_charger option" where
  "usb_worker K c = (if extcon (pdata c) then Some (rk817_charger_evt_worker K c) else rk817_charge_bc_evt_worker K c)"

section \<open>Plug interrupts\<close>

definition rk817_charge_irq_delay_work :: "'d charge_kernel \<Rightarrow> 'd rk817_charger \<Rightarrow> 'd rk817_charger" where
  "rk817_charge_irq_delay_work K c =
     (if plugin_trigger c \<noteq> 0
      then let c1 = c\<lparr>plugin_trigger := 0\<rparr>
           in if extcon (pdata c1) then call (Queue_delayed_work Usb_charger_wq Usb_work 10) c1 else c1
      else if plugout_trigger c \<noteq> 0
      then rk817_charge_set_chrg_param K DC_TYPE_NONE_CHARGER
             (rk817_charge_set_chrg_param K USB_TYPE_NONE_CHARGER (c\<lparr>plugout_trigger := 0\<rparr>))
      else c)"

definition rk817_plug_in_isr :: "'d rk817_charger \<Rightarrow> 'd rk817_charger" where
  "rk817_plug_in_isr c = call (Queue_delayed_work Usb_charger_wq Irq_work 10) (c\<lparr>plugin_trigger := 1\<rparr>)"

definition rk817_plug_out_isr :: "'d rk817_charger \<Rightarrow> 'd rk817_charger" where
  "rk817_plug_out_isr c = call (Queue_delayed_work Usb_charger_wq Irq_work 10) (c\<lparr>plugout_trigger := 1\<rparr>)"

section \<open>Suspend and resume\<close>

definition rk817_charge_pm_suspend :: "'d charge_kernel \<Rightarrow> 'd rk817_charger \<Rightarrow> 'd rk817_charger" where
  "rk817_charge_pm_suspend K c =
     (let c1 = c\<lparr>otg_slp_state := u8 (rk817_charge_get_otg_slp_state K c)\<rparr>
      in if otg5v_suspend_enable (pdata c1) \<noteq> 0 \<and>
            (otg_in c1 \<noteq> 0 \<and> dc_in c1 = 0 \<or> otg_in c1 \<noteq> 0 \<and> dc_in c1 \<noteq> 0 \<and> power_dc2otg (pdata c1) = 0)
         then rk817_charge_otg_slp_enable K c1
         else rk817_charge_otg_slp_disable K c1)"

definition rk817_charge_pm_resume :: "'d charge_kernel \<Rightarrow> 'd rk817_charger \<Rightarrow> 'd rk817_charger" where
  "rk817_charge_pm_resume K c = (if otg_slp_state c \<noteq> 0 then rk817_charge_otg_slp_enable K c else c)"

section \<open>Device tree and initialisation\<close>

text \<open>
  The device tree and the answers of the kernel during the probe: error numbers are negative, 0 is
  success.
\<close>

record charger_tree =
  has_extcon :: bool
  of_property_read_u32 :: "string \<Rightarrow> int option"
  has_dc_det_gpio :: bool
  of_get_named_gpio :: int
  gpio_active_low :: bool

record charger_probe =
  of_match :: bool
  kzalloc_charge :: bool
  regmap_valid :: bool
  field_alloc :: "nat \<Rightarrow> int"
  kzalloc_pdata :: bool
  regulator_get :: bool
  register_psy :: "psy_id \<Rightarrow> int"
  gpio_request :: int
  gpio_direction_input :: int
  gpio_to_irq :: int
  request_dc_irq :: int
  get_edev :: int
  register_notifier :: "extcon_cable \<Rightarrow> int"
  bc_notifier_register :: "int + bc_port_type"
  plug_in_virq :: int
  plug_out_virq :: int
  request_plug_in :: int
  request_plug_out :: int

definition tree_u32 :: "charger_tree \<Rightarrow> string \<Rightarrow> int \<Rightarrow> int" where
  "tree_u32 T name old = (case of_property_read_u32 T name of None \<Rightarrow> old | Some v \<Rightarrow> v)"

definition zeroed_charger_pdata :: charger_platform_data where
  "zeroed_charger_pdata =
     \<lparr>pd_max_input_current = 0, pd_min_input_voltage = 0, pd_max_chrg_current = 0, pd_max_chrg_voltage = 0,
      pd_chrg_finish_cur = 0, pd_chrg_term_mode = 0, power_dc2otg = 0, dc_det_level = 0, dc_det_pin = 0,
      support_dc_det = False, virtual_power = 0, sample_res = 0, otg5v_suspend_enable = 0, extcon = False,
      gate_function_disable = 0\<rparr>"

definition parse_charger_pdata :: "charger_tree \<Rightarrow> charger_platform_data" where
  "parse_charger_pdata T = zeroed_charger_pdata
     \<lparr>pd_max_chrg_current := tree_u32 T ''max_chrg_current'' 1400, pd_max_input_current := tree_u32 T ''max_input_current'' 2000,
      pd_max_chrg_voltage := tree_u32 T ''max_chrg_voltage'' 4200, pd_min_input_voltage := tree_u32 T ''min_input_voltage'' 4500,
      pd_chrg_finish_cur := tree_u32 T ''chrg_finish_cur'' 150, pd_chrg_term_mode := tree_u32 T ''chrg_term_mode'' 1,
      extcon := has_extcon T, virtual_power := s32 (tree_u32 T ''virtual_power'' 0), power_dc2otg := tree_u32 T ''power_dc2otg'' 0,
      sample_res := s32 (tree_u32 T ''sample_res'' 10), otg5v_suspend_enable := s32 (tree_u32 T ''otg5v_suspend_enable'' 1),
      gate_function_disable := s32 (tree_u32 T ''gate_function_disable'' 0)\<rparr>"

definition rk817_charge_parse_dt ::
    "'d charge_kernel \<Rightarrow> charger_tree \<Rightarrow> charger_probe \<Rightarrow> 'd rk817_charger \<Rightarrow> int \<times> 'd rk817_charger" where
  "rk817_charge_parse_dt K T E c =
     (if \<not> kzalloc_pdata E then (- 12, c)
      else let c1 = c\<lparr>pdata := parse_charger_pdata T\<rparr>;
               c2 = (if is_battery_exist K c1 = 0 then c1\<lparr>pdata := (pdata c1)\<lparr>virtual_power := 1\<rparr>\<rparr> else c1);
               c3 = c2\<lparr>res_div := (if sample_res (pdata c2) = 10 then 1 else 2)\<rparr>
           in if \<not> has_dc_det_gpio T then (0, c3\<lparr>pdata := (pdata c3)\<lparr>support_dc_det := False\<rparr>\<rparr>)
              else let c4 = c3\<lparr>pdata := (pdata c3)\<lparr>support_dc_det := True, dc_det_pin := of_get_named_gpio T\<rparr>\<rparr>
                   in if gpio_is_valid K (dc_det_pin (pdata c4))
                      then (0, c4\<lparr>pdata := (pdata c4)\<lparr>dc_det_level := (if gpio_active_low T then 0 else 1)\<rparr>\<rparr>)
                      else (- 22, c4))"

definition rk817_charge_get_otg5v_regulator :: "charger_probe \<Rightarrow> 'd rk817_charger \<Rightarrow> 'd rk817_charger" where
  "rk817_charge_get_otg5v_regulator E c = c\<lparr>otg5v_ok := regulator_get E\<rparr>"

definition charge_limits :: "'d charge_kernel \<Rightarrow> 'd rk817_charger \<Rightarrow> 'd rk817_charger" where
  "charge_limits K c =
     (let c1 = c\<lparr>max_chrg_current := pd_max_chrg_current (pdata c), max_input_current := pd_max_input_current (pdata c),
                max_chrg_voltage := pd_max_chrg_voltage (pdata c), min_input_voltage := pd_min_input_voltage (pdata c),
                chrg_finish_cur := pd_chrg_finish_cur (pdata c), chrg_term_mode := pd_chrg_term_mode (pdata c)\<rparr>;
          c2 = rk817_charge_set_input_voltage K (s32 (min_input_voltage c1)) c1;
          c3 = rk817_charge_set_chrg_voltage K (s32 (max_chrg_voltage c2)) c2;
          c4 = rk817_charge_set_chrg_current K (s32 (max_chrg_current c3)) c3
      in rk817_charge_set_chrg_finish_condition K c4)"

definition rk817_charge_pre_init :: "'d charge_kernel \<Rightarrow> 'd rk817_charger \<Rightarrow> 'd rk817_charger option" where
  "rk817_charge_pre_init K c =
     do {
       let c1 = charge_limits K c;
       s \<leftarrow> rk817_charge_get_otg_state K c1;
       c2 \<leftarrow> (if s \<noteq> 0 then rk817_charge_otg_disable K c1 else Some c1);
       let c3 = rk817_charge_set_otg_in OFFLINE (rk817_charge_field_write K OTG_EN 0x10 c2);
       let c4 = (if gate_function_disable (pdata c3) = 0 then rk817_charge_sys_can_sd_disable K c3 else c3);
       Some (rk817_charge_set_charge_clock K CHRG_CLK_2M (rk817_charge_enable_charge K (rk817_charge_usb_to_sys_enable K c4)))
     }"

definition rk817_charge_init_power_supply :: "charger_probe \<Rightarrow> int" where
  "rk817_charge_init_power_supply E = (if register_psy E Usb_psy < 0 then register_psy E Usb_psy
     else if register_psy E Ac_psy < 0 then register_psy E Ac_psy else 0)"

definition rk817_charge_init_dc :: "'d charge_kernel \<Rightarrow> charger_probe \<Rightarrow> 'd rk817_charger \<Rightarrow> int \<times> 'd rk817_charger" where
  "rk817_charge_init_dc K E c =
     (let c1 = c\<lparr>dc_charger := DC_TYPE_NONE_CHARGER\<rparr>
      in if \<not> support_dc_det (pdata c1) then (0, c1)
         else if gpio_request E < 0 then (gpio_request E, c1)
         else if gpio_direction_input E \<noteq> 0 then (gpio_direction_input E, c1)
         else let level = gpio_get_value K (dc_det_pin (pdata c1));
                  c2 = c1\<lparr>dc_charger := (if u32 level = dc_det_level (pdata c1) then DC_TYPE_DC_CHARGER else DC_TYPE_NONE_CHARGER)\<rparr>
              in if request_dc_irq E \<noteq> 0 then (request_dc_irq E, c2)
                 else let c3 = call (Enable_irq_wake (gpio_to_irq E)) c2
                      in (0, if dc_charger c3 \<noteq> DC_TYPE_NONE_CHARGER then rk817_charge_set_chrg_param K (dc_charger c3) c3 else c3))"

text \<open>
  Notifiers are registered in the order of the list; when one fails the earlier ones are taken back
  in the order they were registered.
\<close>

definition typec_notifiers :: "(extcon_cable \<times> notifier) list" where
  "typec_notifiers = [(EXTCON_CHG_USB_SDP, Cable_cg_nb), (EXTCON_CHG_USB_DCP, Cable_cg_nb), (EXTCON_CHG_USB_CDP, Cable_cg_nb),
     (EXTCON_USB_VBUS_EN, Cable_host_nb), (EXTCON_USB, Cable_discnt_nb)]"

fun unregister_all :: "(extcon_cable \<times> notifier) list \<Rightarrow> 'd rk817_charger \<Rightarrow> 'd rk817_charger" where
  "unregister_all [] c = c"
| "unregister_all ((cable, nb) # rest) c = unregister_all rest (call (Extcon_unregister_notifier cable nb) c)"

fun register_all ::
    "charger_probe \<Rightarrow> (extcon_cable \<times> notifier) list \<Rightarrow> (extcon_cable \<times> notifier) list \<Rightarrow> 'd rk817_charger \<Rightarrow> int \<times> 'd rk817_charger" where
  "register_all E done_nbs [] c = (0, c)"
| "register_all E done_nbs ((cable, nb) # rest) c =
     (if register_notifier E cable < 0 then (register_notifier E cable, unregister_all done_nbs c)
      else register_all E (done_nbs @ [(cable, nb)]) rest (call (Extcon_register_notifier cable nb) c))"

definition rk817_charge_usb_init :: "'d charge_kernel \<Rightarrow> charger_probe \<Rightarrow> 'd rk817_charger \<Rightarrow> int \<times> 'd rk817_charger" where
  "rk817_charge_usb_init K E c =
     (if extcon (pdata c)
      then if get_edev E < 0 then (get_edev E, c) else register_all E [] typec_notifiers c
      else case bc_notifier_register E of
             Inl _ \<Rightarrow> (- 22, c)
           | Inr bc_type \<Rightarrow>
               let charger = (case bc_type of
                                USB_BC_TYPE_DISCNT \<Rightarrow> USB_TYPE_NONE_CHARGER
                              | USB_BC_TYPE_SDP \<Rightarrow> USB_TYPE_USB_CHARGER
                              | USB_BC_TYPE_CDP \<Rightarrow> USB_TYPE_USB_CHARGER
                              | USB_BC_TYPE_DCP \<Rightarrow> USB_TYPE_AC_CHARGER
                              | _ \<Rightarrow> USB_TYPE_NONE_CHARGER);
                   c1 = c\<lparr>usb_charger := charger\<rparr>
               in (0, if dc_charger c1 \<noteq> DC_TYPE_NONE_CHARGER then rk817_charge_set_chrg_param K (usb_charger c1) c1 else c1))"

definition rk817_charge_init_irqs :: "charger_probe \<Rightarrow> 'd rk817_charger \<Rightarrow> int \<times> 'd rk817_charger" where
  "rk817_charge_init_irqs E c =
     (if plug_in_virq E < 0 then (plug_in_virq E, c)
      else if plug_out_virq E < 0 then (plug_out_virq E, c)
      else if request_plug_in E \<noteq> 0 then (request_plug_in E, c)
      else if request_plug_out E \<noteq> 0 then (request_plug_out E, c)
      else (0, c\<lparr>plugin_irq := plug_in_virq E, plugout_irq := plug_out_virq E\<rparr>))"

definition cancel_works :: "charger_work list \<Rightarrow> 'd rk817_charger \<Rightarrow> 'd rk817_charger" where
  "cancel_works ws c = foldl (\<lambda>c w. call (Cancel_delayed_work_sync w) c) c ws"

definition unregister_events :: "'d rk817_charger \<Rightarrow> 'd rk817_charger" where
  "unregister_events c = (if extcon (pdata c) then unregister_all typec_notifiers c else call (Bc_notifier_unregister Bc_nb) c)"

definition irq_fail :: "'d rk817_charger \<Rightarrow> 'd rk817_charger" where
  "irq_fail c =
     (let c1 = (if extcon (pdata c) then cancel_works [Host_work, Discnt_work] c else c);
          c2 = cancel_works [Usb_work, Dc_work, Irq_work] c1;
          c3 = call (Destroy_workqueue Dc_charger_wq) (call (Destroy_workqueue Usb_charger_wq) c2)
      in unregister_events c3)"

text \<open>The device as \<^verbatim>\<open>devm_kzalloc\<close> gives it.\<close>

definition zeroed_charger :: "'d \<Rightarrow> 'd rk817_charger" where
  "zeroed_charger d =
     \<lparr>hw = d, otg5v_ok = False, pdata = zeroed_charger_pdata, bc_event = USB_BC_TYPE_DISCNT, usb_charger = USB_TYPE_UNKNOWN_CHARGER,
      dc_charger = USB_TYPE_UNKNOWN_CHARGER, ac_in = 0, usb_in = 0, otg_in = 0, dc_in = 0,
      prop_status = POWER_SUPPLY_STATUS_UNKNOWN, max_input_current = 0, min_input_voltage = 0, max_chrg_current = 0,
      max_chrg_voltage = 0, chrg_finish_cur = 0, chrg_term_mode = 0, res_div = 0, otg_slp_state = 0, plugin_trigger = 0,
      plugout_trigger = 0, plugin_irq = 0, plugout_irq = 0, calls = []\<rparr>"

text \<open>The field handles are allocated one after the other; the first error is returned.\<close>

fun alloc_fields :: "charger_probe \<Rightarrow> nat list \<Rightarrow> int" where
  "alloc_fields E [] = 0"
| "alloc_fields E (i # is) = (if field_alloc E i < 0 then field_alloc E i else alloc_fields E is)"

definition probe_events :: "'d charge_kernel \<Rightarrow> charger_probe \<Rightarrow> 'd rk817_charger \<Rightarrow> int \<times> 'd rk817_charger" where
  "probe_events K E c =
     (let ret = rk817_charge_init_power_supply E
      in if ret \<noteq> 0 then (ret, c)
         else let (ret, c1) = rk817_charge_init_dc K E c
              in if ret \<noteq> 0 then (ret, c1)
                 else let (ret, c2) = rk817_charge_usb_init K E c1
                      in if ret \<noteq> 0 then (ret, c2)
                         else let (ret, c3) = rk817_charge_init_irqs E c2
                              in if ret \<noteq> 0 then (ret, irq_fail c3)
                                 else (0, if extcon (pdata c3)
                                          then call (Schedule_delayed_work Usb_work 0) (call (Schedule_delayed_work Host_work 0) c3)
                                          else c3))"

text \<open>The result is \<open>None\<close> when the driver uses a regulator it did not get.\<close>

definition rk817_charge_probe ::
    "'d charge_kernel \<Rightarrow> charger_tree \<Rightarrow> charger_probe \<Rightarrow> 'd \<Rightarrow> (int \<times> 'd rk817_charger) option" where
  "rk817_charge_probe K T E d =
     (if \<not> of_match E then Some (- 19, zeroed_charger d)
      else if \<not> kzalloc_charge E then Some (- 22, zeroed_charger d)
      else if \<not> regmap_valid E then Some (- 22, zeroed_charger d)
      else if alloc_fields E [0..<38] \<noteq> 0 then Some (alloc_fields E [0..<38], zeroed_charger d)
      else let (ret, c) = rk817_charge_parse_dt K T E (zeroed_charger d)
           in if ret < 0 then Some (ret, c)
              else do {
                c1 \<leftarrow> rk817_charge_pre_init K (rk817_charge_get_otg5v_regulator E c);
                Some (probe_events K E c1)
              })"

definition rk817_charger_shutdown :: "'d charge_kernel \<Rightarrow> 'd rk817_charger \<Rightarrow> 'd rk817_charger option" where
  "rk817_charger_shutdown K c =
     do {
       let c1 = (if extcon (pdata c) then cancel_works [Host_work, Discnt_work] c else c);
       c2 \<leftarrow> rk817_charge_set_otg_state K USB_OTG_POWER_OFF c1;
       let c3 = plug_irqs_off (rk817_charge_boost_disable K c2);
       let c4 = cancel_works [Usb_work, Dc_work, Irq_work] c3;
       let c5 = call (Flush_workqueue Dc_charger_wq) (call (Flush_workqueue Usb_charger_wq) c4);
       Some (unregister_events c5)
     }"

end
