(* ===== verification/RK817_Charger_Props.thy ===== *)
theory RK817_Charger_Props
  imports RK817_Charger
begin

text \<open>
  Properties of the charger driver: what the driver relies on of the registers and the regulator
  (locale \<open>charge_registers\<close>), its interpretation on a register file with the field table of the source,
  the input current limit over every run of the driver, the limits programmed at start-up, and the
  behaviour of the OTG supply.
\<close>

section \<open>Registers\<close>

definition width :: "rk817_charge_fields \<Rightarrow> nat" where
  "width f = msb (rk817_charge_reg_fields f) + 1 - lsb (rk817_charge_reg_fields f)"

text \<open>The fields that only the driver changes.\<close>

definition control_field :: "rk817_charge_fields \<Rightarrow> bool" where
  "control_field f \<longleftrightarrow> f \<in> {CHRG_EN, CHRG_VOL_SEL, CHRG_CUR_SEL, USB_VLIM_EN, USB_VLIM_SEL, USB_ILIM_EN, USB_ILIM_SEL,
     CHRG_TERM_ANA_DIG, CHRG_TERM_ANA_SEL, CHRG_TERM_DIG, OTG_SLP_EN, USB_SYS_EN, SYS_CAN_SD, CHRG_CLK_SEL}"

text \<open>
  The register map stores the low bits of a value and leaves the other fields alone, and switching
  the OTG regulator does not change the charger's control fields.
\<close>

locale charge_registers =
  fixes rread :: "'d \<Rightarrow> rk817_charge_fields \<Rightarrow> int \<times> int"
    and rwrite :: "'d \<Rightarrow> rk817_charge_fields \<Rightarrow> int \<Rightarrow> 'd \<times> int"
    and otg_on :: "'d \<Rightarrow> 'd \<times> int"
    and otg_off :: "'d \<Rightarrow> 'd \<times> int"
  assumes read_back: "control_field f \<Longrightarrow> rread (fst (rwrite d f v)) f = (0, v mod 2 ^ width f)"
    and read_other: "control_field f \<Longrightarrow> \<not> overlap (rk817_charge_reg_fields f) (rk817_charge_reg_fields g) \<Longrightarrow>
      rread (fst (rwrite d g v)) f = rread d f"
    and otg_keeps: "control_field f \<Longrightarrow> rread (fst (otg_on d)) f = rread d f" "control_field f \<Longrightarrow> rread (fst (otg_off d)) f = rread d f"

text \<open>A register file of bytes and a regulator, with what the register map is documented to do.\<close>

type_synonym charger_hw = "reg_file \<times> bool"

definition hw_read :: "charger_hw \<Rightarrow> rk817_charge_fields \<Rightarrow> int \<times> int" where
  "hw_read d f = (let r = rk817_charge_reg_fields f in (0, take_bit (msb r + 1 - lsb r) (drop_bit (lsb r) (fst d (reg r)))))"

definition hw_write :: "charger_hw \<Rightarrow> rk817_charge_fields \<Rightarrow> int \<Rightarrow> charger_hw \<times> int" where
  "hw_write d f v =
     (let r = rk817_charge_reg_fields f; m = push_bit (lsb r) (mask (msb r + 1 - lsb r))
      in (((fst d)(reg r := (fst d (reg r) AND NOT m) OR (push_bit (lsb r) v AND m)), snd d), 0))"

lemma fields_ordered: "lsb (rk817_charge_reg_fields f) \<le> msb (rk817_charge_reg_fields f)"
  by (cases f) simp_all

lemma hw_read_write: "hw_read (fst (hw_write d f v)) f = (0, v mod 2 ^ width f)"
proof -
  let ?r = "rk817_charge_reg_fields f"
  let ?w = "msb ?r + 1 - lsb ?r" and ?m = "push_bit (lsb ?r) (mask (msb ?r + 1 - lsb ?r)) :: int"
  have "take_bit ?w (drop_bit (lsb ?r) ((x AND NOT ?m) OR (push_bit (lsb ?r) v AND ?m))) = take_bit ?w v" for x
    by (rule bit_eqI) (auto simp: bit_simps)
  then show ?thesis by (simp add: hw_read_def hw_write_def Let_def width_def take_bit_eq_mod)
qed

lemma hw_read_other:
  assumes "\<not> overlap (rk817_charge_reg_fields f) (rk817_charge_reg_fields g)"
  shows "hw_read (fst (hw_write d g v)) f = hw_read d f"
proof -
  let ?a = "rk817_charge_reg_fields g" and ?b = "rk817_charge_reg_fields f"
  from assms consider "reg ?a \<noteq> reg ?b" | "msb ?b < lsb ?a" | "msb ?a < lsb ?b" by (auto simp: overlap_def)
  then show ?thesis
  proof cases
    case 1
    then show ?thesis by (simp add: hw_read_def hw_write_def Let_def)
  next
    case 2
    then show ?thesis using fields_ordered [of f]
      by (auto simp: hw_read_def hw_write_def Let_def bit_simps intro!: bit_eqI)
  next
    case 3
    then show ?thesis using fields_ordered [of g]
      by (auto simp: hw_read_def hw_write_def Let_def bit_simps intro!: bit_eqI)
  qed
qed

interpretation charger_bytes: charge_registers hw_read hw_write "\<lambda>d. ((fst d, True), 0)" "\<lambda>d. ((fst d, False), 0)"
  by unfold_locales (simp_all add: hw_read_write hw_read_other, simp_all add: hw_read_def)

abbreviation charge_bus :: "'d charge_kernel \<Rightarrow> bool" where
  "charge_bus K \<equiv> charge_registers (regmap_field_read K) (regmap_field_write K) (regulator_enable K) (regulator_disable K)"

section \<open>The input current limit\<close>

text \<open>What the two limit fields hold, and the limit in mA they stand for.\<close>

definition ilim :: "'d charge_kernel \<Rightarrow> 'd rk817_charger \<Rightarrow> (int \<times> int) \<times> (int \<times> int)" where
  "ilim K c = (regmap_field_read K (hw c) USB_ILIM_SEL, regmap_field_read K (hw c) USB_ILIM_EN)"

definition milliamps :: "int \<Rightarrow> int" where
  "milliamps sel = (if sel = 0 then 450 else if sel = 1 then 80 else if sel = 2 then 850 else if sel = 3 then 1500
     else if sel = 4 then 1750 else if sel = 5 then 2000 else if sel = 6 then 2500 else 3000)"

definition input_limit :: "'d charge_kernel \<Rightarrow> 'd rk817_charger \<Rightarrow> int option" where
  "input_limit K c = (if snd (ilim K c) = (0, 1) then Some (milliamps (snd (fst (ilim K c)))) else None)"

lemma input_current_sel_range: "0 \<le> input_current_sel x \<and> input_current_sel x < 8"
  by (simp add: input_current_sel_def)

lemma milliamps_sel: "80 \<le> x \<Longrightarrow> milliamps (input_current_sel x) \<le> x"
  by (simp add: input_current_sel_def milliamps_def)

text \<open>The flags and the limit are all that the invariant looks at.\<close>

definition flags :: "'d rk817_charger \<Rightarrow> int \<times> int \<times> int \<times> int" where
  "flags c = (usb_in c, ac_in c, dc_in c, max_input_current c)"

named_theorems charger_keeps

lemma write_ilim [charger_keeps]:
  "charge_bus K \<Longrightarrow> f \<noteq> USB_ILIM_SEL \<Longrightarrow> f \<noteq> USB_ILIM_EN \<Longrightarrow> ilim K (rk817_charge_field_write K f v c) = ilim K c"
  unfolding ilim_def rk817_charge_field_write_def
  by (cases f) (simp_all add: charge_registers.read_other control_field_def overlap_def)

lemma write_flags [charger_keeps, simp]: "flags (rk817_charge_field_write K f v c) = flags c"
  by (simp add: flags_def rk817_charge_field_write_def)

lemma call_keeps [charger_keeps, simp]: "flags (call k c) = flags c" "ilim K (call k c) = ilim K c" "hw (call k c) = hw c"
  "dc_charger (call k c) = dc_charger c"
  by (simp_all add: flags_def ilim_def call_def)

lemma set_input_current_ilim [charger_keeps]:
  assumes "charge_bus K"
  shows "ilim K (rk817_charge_set_input_current K x c) = ((0, input_current_sel x), (0, 1))"
    "flags (rk817_charge_set_input_current K x c) = flags c"
proof -
  have sel: "input_current_sel x mod 8 = input_current_sel x" "u32 (input_current_sel x) = input_current_sel x"
    using input_current_sel_range [of x] by (simp_all add: u32_def)
  show "ilim K (rk817_charge_set_input_current K x c) = ((0, input_current_sel x), (0, 1))"
    unfolding ilim_def rk817_charge_set_input_current_def rk817_charge_ilimit_enable_def rk817_charge_field_write_def
    by (simp add: charge_registers.read_other [OF assms] charge_registers.read_back [OF assms] control_field_def overlap_def width_def sel)
  show "flags (rk817_charge_set_input_current K x c) = flags c"
    by (simp add: rk817_charge_set_input_current_def rk817_charge_ilimit_enable_def)
qed

text \<open>
  While only a USB port supplies the device the limit is that of a USB port; with an adapter it is
  1500 mA or the configured maximum.
\<close>

fun inv_of :: "int \<Rightarrow> int \<times> int \<times> int \<times> int \<Rightarrow> (int \<times> int) \<times> (int \<times> int) \<Rightarrow> bool" where
  "inv_of M (usb, ac, dc, m) l \<longleftrightarrow>
     m = M \<and> usb \<in> {0, 1} \<and> ac \<in> {0, 1} \<and> dc \<in> {0, 1} \<and> \<not> (usb = 1 \<and> ac = 1) \<and>
     (usb = 1 \<and> dc = 0 \<longrightarrow> l = ((0, input_current_sel 450), (0, 1))) \<and>
     (ac = 1 \<or> dc = 1 \<longrightarrow> l = ((0, input_current_sel 1500), (0, 1)) \<or> l = ((0, input_current_sel (s32 m)), (0, 1)))"

definition charger_inv :: "'d charge_kernel \<Rightarrow> int \<Rightarrow> 'd rk817_charger \<Rightarrow> bool" where
  "charger_inv K M c \<longleftrightarrow> inv_of M (flags c) (ilim K c)"

lemma charger_inv_cong: "flags c' = flags c \<Longrightarrow> ilim K c' = ilim K c \<Longrightarrow> charger_inv K M c' = charger_inv K M c"
  by (simp add: charger_inv_def)

lemma ilim_field [simp]:
  "ilim K (c\<lparr>prop_status := x\<rparr>) = ilim K c" "ilim K (c\<lparr>usb_in := y\<rparr>) = ilim K c" "ilim K (c\<lparr>ac_in := y\<rparr>) = ilim K c"
  "ilim K (c\<lparr>dc_in := y\<rparr>) = ilim K c" "ilim K (c\<lparr>otg_in := y\<rparr>) = ilim K c" "ilim K (c\<lparr>usb_charger := z\<rparr>) = ilim K c"
  by (simp_all add: ilim_def)

lemma flags_field [simp]:
  "flags (c\<lparr>prop_status := x\<rparr>) = flags c" "flags (c\<lparr>otg_in := y\<rparr>) = flags c" "flags (c\<lparr>usb_charger := z\<rparr>) = flags c"
  "flags (c\<lparr>usb_in := y\<rparr>) = (y, snd (flags c))" "flags (c\<lparr>ac_in := y\<rparr>) = (fst (flags c), y, snd (snd (flags c)))"
  "flags (c\<lparr>dc_in := y\<rparr>) = (fst (flags c), fst (snd (flags c)), y, snd (snd (snd (flags c))))"
  by (simp_all add: flags_def)

lemma supplies_changed_keeps [simp]: "flags (supplies_changed c) = flags c" "ilim K (supplies_changed c) = ilim K c"
  by (simp_all add: supplies_changed_def)

text \<open>What each kind of charger does to the flags and the limit.\<close>

definition next_view :: "bool \<Rightarrow> charger_t \<Rightarrow> (int \<times> int \<times> int \<times> int) \<times> (int \<times> int) \<times> (int \<times> int) \<Rightarrow>
    (int \<times> int \<times> int \<times> int) \<times> (int \<times> int) \<times> (int \<times> int)" where
  "next_view plugged charger v =
     (let ((usb, ac, dc, m), l) = v; set_to = (\<lambda>x. ((0, input_current_sel x), (0, 1)))
      in case charger of
           USB_TYPE_NONE_CHARGER \<Rightarrow> ((0, 0, dc, m), if dc = 0 then set_to 450 else l)
         | USB_TYPE_USB_CHARGER \<Rightarrow> ((1, 0, dc, m), if dc = 0 then set_to 450 else l)
         | USB_TYPE_AC_CHARGER \<Rightarrow> ((0, 1, dc, m), set_to (s32 m))
         | USB_TYPE_CDP_CHARGER \<Rightarrow> ((0, 1, dc, m), set_to 1500)
         | DC_TYPE_DC_CHARGER \<Rightarrow> ((usb, ac, 1, m), set_to (s32 m))
         | DC_TYPE_NONE_CHARGER \<Rightarrow>
             if \<not> plugged then ((0, 0, 0, m), set_to 450)
             else if usb \<noteq> 0 then ((usb, ac, 0, m), set_to 450) else ((usb, ac, 0, m), l)
         | USB_TYPE_UNKNOWN_CHARGER \<Rightarrow> ((usb, ac, dc, m), set_to 450))"

lemma apply_charger_view:
  assumes "charge_bus K"
  shows "(flags (apply_charger K charger c), ilim K (apply_charger K charger c)) =
    next_view (rk817_charge_get_plug_in_status K c \<noteq> 0) charger (flags c, ilim K c)"
proof -
  obtain usb ac dc m where f: "flags c = (usb, ac, dc, m)" by (cases "flags c")
  then have sel: "usb_in c = usb" "ac_in c = ac" "dc_in c = dc" "max_input_current c = m" by (simp_all add: flags_def)
  have plug: "rk817_charge_get_plug_in_status K (c\<lparr>dc_in := 0\<rparr>) = rk817_charge_get_plug_in_status K c"
    by (simp add: rk817_charge_get_plug_in_status_def rk817_charge_field_read_def)
  note eval = apply_charger_def next_view_def Let_def set_input_current_ilim [OF assms] f sel plug
  show ?thesis
  proof (cases charger)
    case DC_TYPE_NONE_CHARGER
    then show ?thesis by (cases "rk817_charge_get_plug_in_status K c = 0"; cases "usb = 0") (simp_all add: eval)
  next
    case USB_TYPE_NONE_CHARGER
    then show ?thesis by (cases "dc = 0") (simp_all add: eval)
  next
    case USB_TYPE_USB_CHARGER
    then show ?thesis by (cases "dc = 0") (simp_all add: eval)
  qed (simp_all add: eval)
qed

lemma next_view_inv: "inv_of M f l \<Longrightarrow> charger \<noteq> USB_TYPE_UNKNOWN_CHARGER \<Longrightarrow> case_prod (inv_of M) (next_view b charger (f, l))"
  by (cases f; cases charger) (auto simp: next_view_def)

lemma set_chrg_param_inv:
  assumes "charge_bus K" "charger_inv K M c" "charger \<noteq> USB_TYPE_UNKNOWN_CHARGER"
  shows "charger_inv K M (rk817_charge_set_chrg_param K charger c)"
proof -
  have "charger_inv K M (apply_charger K charger c)"
    using next_view_inv [OF assms(2) [unfolded charger_inv_def] assms(3)] apply_charger_view [OF assms(1), of charger c]
    unfolding charger_inv_def by (metis case_prod_conv)
  then show ?thesis
    by (simp add: rk817_charge_set_chrg_param_def Let_def charger_inv_def)
qed

section \<open>The other handlers leave the limit alone\<close>

lemma irqs_keep [simp]:
  "flags (plug_irqs_off c) = flags c" "ilim K (plug_irqs_off c) = ilim K c"
  "flags (plug_irqs_on c) = flags c" "ilim K (plug_irqs_on c) = ilim K c"
  by (simp_all add: plug_irqs_off_def plug_irqs_on_def)

lemma otg_switch_keeps:
  assumes "charge_bus K"
  shows "rk817_charge_otg_enable K c = Some c' \<Longrightarrow> flags c' = flags c \<and> ilim K c' = ilim K c"
    "rk817_charge_otg_disable K c = Some c' \<Longrightarrow> flags c' = flags c \<and> ilim K c' = ilim K c"
  using charge_registers.otg_keeps [OF assms]
  by (auto simp: rk817_charge_otg_enable_def rk817_charge_otg_disable_def ilim_def flags_def control_field_def split: if_splits)

lemma otg_state_keeps:
  assumes "charge_bus K" "rk817_charge_set_otg_state K st c = Some c'"
  shows "flags c' = flags c \<and> ilim K c' = ilim K c"
proof -
  note sw = otg_switch_keeps [OF assms(1)]
  show ?thesis
  proof (cases st)
    case USB_OTG_POWER_ON
    then show ?thesis using assms(2) sw(1)
      by (fastforce simp: rk817_charge_set_otg_state_def bind_eq_Some_conv split: if_splits)
  next
    case USB_OTG_POWER_OFF
    then show ?thesis using assms(2) sw(2)
      by (fastforce simp: rk817_charge_set_otg_state_def bind_eq_Some_conv split: if_splits)
  qed (use assms(2) in \<open>simp_all add: rk817_charge_set_otg_state_def\<close>)
qed

lemma otg_state_inv: "charge_bus K \<Longrightarrow> rk817_charge_set_otg_state K st c = Some c' \<Longrightarrow> charger_inv K M c \<Longrightarrow> charger_inv K M c'"
  using otg_state_keeps charger_inv_cong by metis

section \<open>Runs of the driver\<close>

text \<open>
  Interrupts, notifiers, works, suspend and resume in any order. Between two of them the levels of the
  pins and the states of the cables change at will, and so does the hardware except for the fields
  that only the driver changes.
\<close>

definition answering :: "'d charge_kernel \<Rightarrow> (int \<Rightarrow> int) \<Rightarrow> (nat \<Rightarrow> extcon_cable \<Rightarrow> int) \<Rightarrow> 'd charge_kernel" where
  "answering K g e = K\<lparr>gpio_get_value := g, extcon_get_state := e\<rparr>"

inductive charger_step :: "'d charge_kernel \<Rightarrow> 'd rk817_charger \<Rightarrow> 'd rk817_charger \<Rightarrow> bool" for K where
  step_hardware: "(\<And>f. control_field f \<Longrightarrow> regmap_field_read K d f = regmap_field_read K (hw c) f) \<Longrightarrow> charger_step K c (c\<lparr>hw := d\<rparr>)"
| step_dc_isr: "charger_step K c (rk817_charge_dc_det_isr (answering K g e) irq c)"
| step_plug_in: "charger_step K c (rk817_plug_in_isr c)"
| step_plug_out: "charger_step K c (rk817_plug_out_isr c)"
| step_notifier: "n \<in> {rk817_charger_evt_notifier, rk817_charge_host_evt_notifier, rk817_charge_discnt_evt_notfier} \<Longrightarrow> charger_step K c (n c)"
| step_bc_notifier: "charger_step K c (rk817_charge_bc_evt_notifier event c)"
| step_dc_work: "rk817_charge_dc_det_worker (answering K g e) c = Some c' \<Longrightarrow> charger_step K c c'"
| step_usb_work: "usb_worker (answering K g e) c = Some c' \<Longrightarrow> charger_step K c c'"
| step_host_work: "rk817_charge_host_evt_worker (answering K g e) c = Some c' \<Longrightarrow> charger_step K c c'"
| step_discnt_work: "charger_step K c (rk817_charge_discnt_evt_worker (answering K g e) c)"
| step_irq_work: "charger_step K c (rk817_charge_irq_delay_work (answering K g e) c)"
| step_suspend: "charger_step K c (rk817_charge_pm_suspend K c)"
| step_resume: "charger_step K c (rk817_charge_pm_resume K c)"

lemma answering_simps [simp]:
  "charge_bus (answering K g e) = charge_bus K" "charger_inv (answering K g e) = charger_inv K"
  by (simp_all add: answering_def charger_inv_def ilim_def fun_eq_iff)

lemma inv_fields [simp]:
  "charger_inv K M (call k c) = charger_inv K M c" "charger_inv K M (c\<lparr>otg_in := y\<rparr>) = charger_inv K M c"
  "charger_inv K M (c\<lparr>usb_charger := z\<rparr>) = charger_inv K M c" "charger_inv K M (c\<lparr>plugin_trigger := y\<rparr>) = charger_inv K M c"
  "charger_inv K M (c\<lparr>plugout_trigger := y\<rparr>) = charger_inv K M c" "charger_inv K M (c\<lparr>bc_event := b\<rparr>) = charger_inv K M c"
  "charger_inv K M (c\<lparr>otg_slp_state := y\<rparr>) = charger_inv K M c" "charger_inv K M (rk817_charge_set_otg_in y c) = charger_inv K M c"
  "charger_inv K M (c\<lparr>dc_charger := z\<rparr>) = charger_inv K M c" "charger_inv K M (c\<lparr>plugin_irq := y\<rparr>) = charger_inv K M c"
  "charger_inv K M (c\<lparr>plugout_irq := y\<rparr>) = charger_inv K M c"
  by (simp_all add: charger_inv_def flags_def ilim_def call_def rk817_charge_set_otg_in_def)

lemma write_inv:
  "charge_bus K \<Longrightarrow> f \<noteq> USB_ILIM_SEL \<Longrightarrow> f \<noteq> USB_ILIM_EN \<Longrightarrow> charger_inv K M (rk817_charge_field_write K f v c) = charger_inv K M c"
  by (simp add: charger_inv_def write_ilim)

lemma dc_worker_inv:
  assumes "charge_bus K" "charger_inv K M c" "rk817_charge_dc_det_worker K c = Some c'"
  shows "charger_inv K M c'"
proof -
  note param = set_chrg_param_inv [OF assms(1,2)]
  show ?thesis
  proof (cases "rk817_charge_get_dc_state K c = DC_TYPE_DC_CHARGER")
    case True
    then show ?thesis
      using assms(3) param [of DC_TYPE_DC_CHARGER] otg_state_inv [OF assms(1)]
      by (auto simp: rk817_charge_dc_det_worker_def Let_def rk817_charge_boost_disable_def write_inv [OF assms(1)]
          bind_eq_Some_conv split: if_splits)
  next
    case False
    then show ?thesis
      using assms(3) param [of DC_TYPE_NONE_CHARGER] otg_state_inv [OF assms(1)]
      by (auto simp: rk817_charge_dc_det_worker_def Let_def rk817_charge_boost_enable_def write_inv [OF assms(1)] split: if_splits)
  qed
qed

lemma usb_worker_inv:
  assumes "charge_bus K" "charger_inv K M c" "usb_worker K c = Some c'"
  shows "charger_inv K M c'"
proof (cases "extcon (pdata c)")
  case True
  then show ?thesis
    using assms(3) set_chrg_param_inv [OF assms(1)] assms(2)
    by (auto simp: usb_worker_def rk817_charger_evt_worker_def Let_def)
next
  case False
  then show ?thesis
    using assms(3) set_chrg_param_inv [OF assms(1,2)] otg_state_inv [OF assms(1)] assms(2)
    by (auto simp: usb_worker_def rk817_charge_bc_evt_worker_def split: bc_port_type.splits if_splits)
qed

lemma host_worker_inv:
  assumes "charge_bus K" "charger_inv K M c" "rk817_charge_host_evt_worker K c = Some c'"
  shows "charger_inv K M c'"
  using assms(2,3) otg_state_inv [OF assms(1)]
  by (auto simp: rk817_charge_host_evt_worker_def bind_eq_Some_conv split: if_splits)

lemma charger_step_inv:
  assumes "charge_bus K" "charger_step K c c'" "charger_inv K M c"
  shows "charger_inv K M c'"
  using assms(2)
proof cases
  case (step_hardware d)
  then have "ilim K (c\<lparr>hw := d\<rparr>) = ilim K c" "flags (c\<lparr>hw := d\<rparr>) = flags c" by (simp_all add: ilim_def flags_def control_field_def)
  then show ?thesis using charger_inv_cong assms(3) step_hardware(1) by blast
next
  case (step_dc_work g e)
  then show ?thesis using dc_worker_inv [of "answering K g e"] assms(1,3) by simp
next
  case (step_usb_work g e)
  then show ?thesis using usb_worker_inv [of "answering K g e"] assms(1,3) by simp
next
  case (step_host_work g e)
  then show ?thesis using host_worker_inv [of "answering K g e"] assms(1,3) by simp
next
  case (step_discnt_work g e)
  then show ?thesis using set_chrg_param_inv [of "answering K g e"] assms(1,3) by (simp add: rk817_charge_discnt_evt_worker_def)
next
  case (step_irq_work g e)
  then show ?thesis using set_chrg_param_inv [of "answering K g e"] assms(1,3) by (simp add: rk817_charge_irq_delay_work_def Let_def)
next
  case step_suspend
  then show ?thesis
    using assms(1,3) by (simp add: rk817_charge_pm_suspend_def Let_def rk817_charge_otg_slp_enable_def rk817_charge_otg_slp_disable_def write_inv)
next
  case step_resume
  then show ?thesis using assms(1,3) by (simp add: rk817_charge_pm_resume_def rk817_charge_otg_slp_enable_def write_inv)
qed (use assms(3) in \<open>auto simp: rk817_charge_dc_det_isr_def rk817_plug_in_isr_def rk817_plug_out_isr_def rk817_charge_bc_evt_notifier_def
      rk817_charger_evt_notifier_def rk817_charge_host_evt_notifier_def rk817_charge_discnt_evt_notfier_def\<close>)

lemma run_inv: "(charger_step K)\<^sup>*\<^sup>* c c' \<Longrightarrow> charge_bus K \<Longrightarrow> charger_inv K M c \<Longrightarrow> charger_inv K M c'"
  by (induction rule: rtranclp_induct) (auto intro: charger_step_inv)

section \<open>Start-up\<close>

lemma inv_start: "flags c = (0, 0, 0, M) \<Longrightarrow> charger_inv K M c"
  by (simp add: charger_inv_def)

lemma limits_flags [simp]:
  "flags (rk817_charge_set_input_voltage K v c) = flags c" "flags (rk817_charge_set_chrg_voltage K v c) = flags c"
  "flags (rk817_charge_set_chrg_current K v c) = flags c" "flags (rk817_charge_set_chrg_finish_condition K c) = flags c"
  by (simp_all add: rk817_charge_set_input_voltage_def rk817_charge_set_chrg_voltage_def Let_def
      rk817_charge_set_chrg_current_def rk817_charge_set_chrg_finish_condition_def rk817_charge_set_term_current_analog_def
      rk817_charge_set_term_current_digital_def rk817_charge_set_chrg_term_mod_def rk817_charge_vlimit_enable_def)

lemma charge_limits_flags: "flags (charge_limits K c) = (usb_in c, ac_in c, dc_in c, pd_max_input_current (pdata c))"
  by (simp add: charge_limits_def Let_def) (simp add: flags_def)

lemma pre_init_flags:
  assumes "rk817_charge_pre_init K c = Some c'"
  shows "flags c' = (usb_in c, ac_in c, dc_in c, pd_max_input_current (pdata c))"
proof -
  have "flags c2 = flags c1" if "rk817_charge_otg_disable K c1 = Some c2" for c1 c2
    using that by (auto simp: rk817_charge_otg_disable_def flags_def split: if_splits)
  then show ?thesis
    using assms charge_limits_flags [of K c]
    by (auto simp: rk817_charge_pre_init_def Let_def bind_eq_Some_conv rk817_charge_set_charge_clock_def rk817_charge_enable_charge_def
        rk817_charge_usb_to_sys_enable_def rk817_charge_sys_can_sd_disable_def rk817_charge_set_otg_in_def split: if_splits)
qed

lemma register_all_inv:
  "charger_inv K M (unregister_all ns c) = charger_inv K M c"
  "charger_inv K M (snd (register_all E ds ns c)) = charger_inv K M c"
proof -
  show un: "charger_inv K M (unregister_all ns c) = charger_inv K M c" for ns c
    by (induction ns c rule: unregister_all.induct) simp_all
  show "charger_inv K M (snd (register_all E ds ns c)) = charger_inv K M c"
    by (induction E ds ns c rule: register_all.induct) (simp_all add: un)
qed

lemma init_dc_inv:
  assumes "charge_bus K" "charger_inv K M c"
  shows "charger_inv K M (snd (rk817_charge_init_dc K E c))"
  using assms(2) set_chrg_param_inv [OF assms(1)] by (simp add: rk817_charge_init_dc_def Let_def)

lemma usb_init_inv:
  assumes "charge_bus K" "charger_inv K M c"
  shows "charger_inv K M (snd (rk817_charge_usb_init K E c))"
  using assms(2) set_chrg_param_inv [OF assms(1)]
  by (auto simp: rk817_charge_usb_init_def Let_def register_all_inv split: sum.splits bc_port_type.splits)

lemma irq_fail_inv: "charger_inv K M (irq_fail c) = charger_inv K M c"
  by (simp add: irq_fail_def cancel_works_def unregister_events_def Let_def register_all_inv)

lemma probe_events_inv:
  assumes "charge_bus K" "charger_inv K M c"
  shows "charger_inv K M (snd (probe_events K E c))"
proof -
  obtain r1 c1 where dc: "rk817_charge_init_dc K E c = (r1, c1)" by (cases "rk817_charge_init_dc K E c")
  obtain r2 c2 where usb: "rk817_charge_usb_init K E c1 = (r2, c2)" by (cases "rk817_charge_usb_init K E c1")
  have inv1: "charger_inv K M c1" using init_dc_inv [OF assms, of E] dc by simp
  have inv2: "charger_inv K M c2" using usb_init_inv [OF assms(1) inv1, of E] usb by simp
  show ?thesis
    using assms(2) inv1 inv2 by (simp add: probe_events_def Let_def dc usb rk817_charge_init_irqs_def irq_fail_inv)
qed

lemma parse_dt_flags:
  assumes "rk817_charge_parse_dt K T E (zeroed_charger d) = (ret, c)" "0 \<le> ret"
  shows "flags (c\<lparr>otg5v_ok := b\<rparr>) = (0, 0, 0, 0)" "pd_max_input_current (pdata c) = tree_u32 T ''max_input_current'' 2000"
  using assms
  by (auto simp: rk817_charge_parse_dt_def Let_def zeroed_charger_def parse_charger_pdata_def flags_def split: if_splits)

lemma probe_inv:
  assumes "charge_bus K" "rk817_charge_probe K T E d = Some (0, c)"
  shows "charger_inv K (tree_u32 T ''max_input_current'' 2000) c"
proof -
  obtain ret c0 where dt: "rk817_charge_parse_dt K T E (zeroed_charger d) = (ret, c0)"
    by (cases "rk817_charge_parse_dt K T E (zeroed_charger d)")
  with assms(2) obtain c1 where pre: "0 \<le> ret" "rk817_charge_pre_init K (rk817_charge_get_otg5v_regulator E c0) = Some c1"
    "probe_events K E c1 = (0, c)"
    by (auto simp: rk817_charge_probe_def bind_eq_Some_conv not_less split: if_splits)
  have "flags c1 = (0, 0, 0, tree_u32 T ''max_input_current'' 2000)"
    using pre_init_flags [OF pre(2)] parse_dt_flags(1) [OF dt pre(1), of "regulator_get E"] parse_dt_flags(2) [OF dt pre(1)]
    by (simp add: rk817_charge_get_otg5v_regulator_def flags_def)
  from inv_start [OF this] show ?thesis using probe_events_inv [OF assms(1)] pre(3) by (metis snd_conv)
qed

text \<open>
  C40. The current the device draws. After a successful probe, over every sequence of interrupts, cable
  and charger events, works, suspends, resumes and changes of the hardware: the device is never
  marked as supplied by a USB port and by a USB adapter at once; while a USB port is its only supply
  the input current limit is enabled and is 450 mA; and while an adapter supplies it, the limit is
  enabled and exceeds neither 1500 mA nor the configured maximum, whichever is larger.
\<close>

theorem input_current_limited:
  assumes "charge_registers (regmap_field_read K) (regmap_field_write K) (regulator_enable K) (regulator_disable K)"
    and "rk817_charge_probe K T E d = Some (0, c)" "(charger_step K)\<^sup>*\<^sup>* c c'"
    and "m = tree_u32 T ''max_input_current'' 2000" "80 \<le> m" "m < 2 ^ 31"
  shows "\<not> (usb_in c' = 1 \<and> ac_in c' = 1) \<and>
    (usb_in c' = 1 \<and> dc_in c' = 0 \<longrightarrow> input_limit K c' = Some 450) \<and>
    (ac_in c' = 1 \<or> dc_in c' = 1 \<longrightarrow> (\<exists>x. input_limit K c' = Some x \<and> x \<le> max 1500 m))"
proof -
  have "inv_of m (flags c') (ilim K c')"
    using run_inv [OF assms(3,1) probe_inv [OF assms(1,2)]] assms(4) by (simp add: charger_inv_def)
  moreover have "s32 m = m" using assms(5,6) by (simp add: is_s32_def)
  moreover have "milliamps (input_current_sel m) \<le> m" "milliamps (input_current_sel 1500) = 1500"
    "milliamps (input_current_sel 450) = 450"
    using milliamps_sel [OF assms(5)] by (simp_all add: milliamps_def input_current_sel_def)
  ultimately show ?thesis by (auto simp: flags_def input_limit_def)
qed

section \<open>A machine\<close>

definition sample_charge_kernel :: "charger_hw charge_kernel" where
  "sample_charge_kernel = \<lparr>regmap_field_read = hw_read, regmap_field_write = hw_write, regulator_is_enabled = (\<lambda>d. if snd d then 1 else 0),
     regulator_enable = (\<lambda>d. ((fst d, True), 0)), regulator_disable = (\<lambda>d. ((fst d, False), 0)), gpio_is_valid = (\<lambda>_. True),
     gpio_get_value = (\<lambda>_. 0), extcon_get_state = (\<lambda>_ _. 0)\<rparr>"

definition sample_charger_tree :: charger_tree where
  "sample_charger_tree = \<lparr>has_extcon = False, of_property_read_u32 = (\<lambda>_. None), has_dc_det_gpio = False, of_get_named_gpio = 0, gpio_active_low = False\<rparr>"

definition sample_probe :: charger_probe where
  "sample_probe = \<lparr>of_match = True, kzalloc_charge = True, regmap_valid = True, field_alloc = (\<lambda>_. 0), kzalloc_pdata = True,
     regulator_get = True, register_psy = (\<lambda>_. 0), gpio_request = 0, gpio_direction_input = 0, gpio_to_irq = 0, request_dc_irq = 0,
     get_edev = 0, register_notifier = (\<lambda>_. 0), bc_notifier_register = Inr USB_BC_TYPE_DISCNT, plug_in_virq = 40, plug_out_virq = 41,
     request_plug_in = 0, request_plug_out = 0\<rparr>"

lemma sample_charge_bus: "charge_bus sample_charge_kernel"
  using charger_bytes.charge_registers_axioms by (simp add: sample_charge_kernel_def)

lemma alloc_fields_0: "(\<And>i. field_alloc E i = 0) \<Longrightarrow> alloc_fields E is = 0"
  by (induction "is") simp_all

lemma write_setup [simp]:
  "pdata (rk817_charge_field_write K f v c) = pdata c" "otg5v_ok (rk817_charge_field_write K f v c) = otg5v_ok c"
  by (simp_all add: rk817_charge_field_write_def)

lemma limits_setup [simp]:
  "pdata (rk817_charge_set_input_voltage K v c) = pdata c" "otg5v_ok (rk817_charge_set_input_voltage K v c) = otg5v_ok c"
  "pdata (rk817_charge_set_chrg_voltage K v c) = pdata c" "otg5v_ok (rk817_charge_set_chrg_voltage K v c) = otg5v_ok c"
  "pdata (rk817_charge_set_chrg_current K v c) = pdata c" "otg5v_ok (rk817_charge_set_chrg_current K v c) = otg5v_ok c"
  "pdata (rk817_charge_set_chrg_finish_condition K c) = pdata c" "otg5v_ok (rk817_charge_set_chrg_finish_condition K c) = otg5v_ok c"
  by (simp_all add: rk817_charge_set_input_voltage_def rk817_charge_set_chrg_voltage_def Let_def
      rk817_charge_set_chrg_current_def rk817_charge_set_chrg_finish_condition_def rk817_charge_set_term_current_analog_def
      rk817_charge_set_term_current_digital_def rk817_charge_set_chrg_term_mod_def rk817_charge_vlimit_enable_def)

lemma charge_limits_fields: "pdata (charge_limits K c) = pdata c" "otg5v_ok (charge_limits K c) = otg5v_ok c"
  by (simp_all add: charge_limits_def Let_def)

lemma pre_init_returns:
  assumes "otg5v_ok c"
  shows "\<exists>c'. rk817_charge_pre_init K c = Some c' \<and> pdata c' = pdata c"
  using assms
  by (auto simp: rk817_charge_pre_init_def Let_def rk817_charge_get_otg_state_def rk817_charge_otg_disable_def charge_limits_fields
      rk817_charge_set_charge_clock_def rk817_charge_enable_charge_def rk817_charge_usb_to_sys_enable_def
      rk817_charge_sys_can_sd_disable_def rk817_charge_set_otg_in_def)

lemma sample_probe_works:
  "\<exists>c. rk817_charge_probe sample_charge_kernel sample_charger_tree sample_probe d = Some (0, c) \<and> \<not> extcon (pdata c)"
proof -
  let ?c0 = "rk817_charge_get_otg5v_regulator sample_probe (snd (rk817_charge_parse_dt sample_charge_kernel sample_charger_tree sample_probe (zeroed_charger d)))"
  have dt: "fst (rk817_charge_parse_dt sample_charge_kernel sample_charger_tree sample_probe (zeroed_charger d)) = 0"
    "\<not> extcon (pdata ?c0)" "otg5v_ok ?c0" "\<not> support_dc_det (pdata ?c0)"
    by (simp_all add: rk817_charge_parse_dt_def Let_def sample_probe_def sample_charger_tree_def rk817_charge_get_otg5v_regulator_def
        zeroed_charger_def parse_charger_pdata_def)
  then obtain c1 where pre: "rk817_charge_pre_init sample_charge_kernel ?c0 = Some c1" "pdata c1 = pdata ?c0"
    using pre_init_returns by blast
  have "\<exists>c. probe_events sample_charge_kernel sample_probe c1 = (0, c) \<and> \<not> extcon (pdata c)"
    using dt pre(2)
    by (simp add: probe_events_def Let_def rk817_charge_init_power_supply_def rk817_charge_init_dc_def rk817_charge_usb_init_def
        rk817_charge_init_irqs_def sample_probe_def)
  moreover have "rk817_charge_probe sample_charge_kernel sample_charger_tree sample_probe d = Some (probe_events sample_charge_kernel sample_probe c1)"
    using dt(1) pre(1)
    by (cases "rk817_charge_parse_dt sample_charge_kernel sample_charger_tree sample_probe (zeroed_charger d)")
      (simp add: rk817_charge_probe_def alloc_fields_0 sample_probe_def)
  ultimately show ?thesis by simp
qed

theorem input_current_limited_witness:
  "\<exists>c c'. rk817_charge_probe sample_charge_kernel sample_charger_tree sample_probe (\<lambda>_. 0, False) = Some (0, c) \<and>
     (charger_step sample_charge_kernel)\<^sup>*\<^sup>* c c' \<and> usb_in c' = 1 \<and>
     (dc_in c' = 0 \<longrightarrow> input_limit sample_charge_kernel c' = Some 450)"
proof -
  let ?K = sample_charge_kernel
  obtain c where c: "rk817_charge_probe ?K sample_charger_tree sample_probe (\<lambda>_. 0, False) = Some (0, c)" "\<not> extcon (pdata c)"
    using sample_probe_works by blast
  let ?K' = "answering ?K (\<lambda>_. 0) (\<lambda>_ _. 0)"
  let ?c1 = "rk817_charge_bc_evt_notifier USB_BC_TYPE_SDP c" and ?c2 = "rk817_charge_set_chrg_param ?K' USB_TYPE_USB_CHARGER"
  have "usb_worker ?K' ?c1 = Some (?c2 ?c1)"
    using c(2) by (simp add: usb_worker_def rk817_charge_bc_evt_worker_def rk817_charge_bc_evt_notifier_def call_def)
  then have run: "(charger_step ?K)\<^sup>*\<^sup>* c (?c2 ?c1)"
    using step_bc_notifier step_usb_work by (metis converse_rtranclp_into_rtranclp r_into_rtranclp)
  have "fst (flags (apply_charger ?K' USB_TYPE_USB_CHARGER x)) = 1" for x
    using apply_charger_view [of ?K' USB_TYPE_USB_CHARGER x] sample_charge_bus
    by (cases "flags x") (simp add: next_view_def Let_def prod_eq_iff)
  then have "usb_in (?c2 ?c1) = 1" by (simp add: rk817_charge_set_chrg_param_def Let_def flags_def)
  moreover have "tree_u32 sample_charger_tree ''max_input_current'' 2000 = 2000" by (simp add: tree_u32_def sample_charger_tree_def)
  ultimately show ?thesis
    using input_current_limited [OF sample_charge_bus c(1) run refl] c(1) run by auto
qed

section \<open>A charging port and the DC adapter\<close>

lemma set_chrg_param_view:
  assumes "charge_bus K"
  shows "(flags (rk817_charge_set_chrg_param K charger c), ilim K (rk817_charge_set_chrg_param K charger c)) =
    next_view (rk817_charge_get_plug_in_status K c \<noteq> 0) charger (flags c, ilim K c)"
  using apply_charger_view [OF assms, of charger c] by (simp add: rk817_charge_set_chrg_param_def Let_def)

text \<open>
  A charging port that stays connected while the DC adapter comes and goes ends up with the limit of
  the adapter instead of its own 1500 mA.
\<close>

lemma cdp_limit_lost:
  assumes "charge_bus K" "flags c = (0, 0, 0, m)"
    and "c1 = rk817_charge_set_chrg_param K USB_TYPE_CDP_CHARGER c" "c2 = rk817_charge_set_chrg_param K DC_TYPE_DC_CHARGER c1"
    and "rk817_charge_get_plug_in_status K c2 \<noteq> 0" "c3 = rk817_charge_set_chrg_param K DC_TYPE_NONE_CHARGER c2"
  shows "ilim K c1 = ((0, input_current_sel 1500), (0, 1)) \<and>
    flags c3 = (0, 1, 0, m) \<and> ilim K c3 = ((0, input_current_sel (s32 m)), (0, 1))"
proof -
  note view = set_chrg_param_view [OF assms(1)]
  have 1: "flags c1 = (0, 1, 0, m)" "ilim K c1 = ((0, input_current_sel 1500), (0, 1))"
    using view [of USB_TYPE_CDP_CHARGER c] assms(2,3) by (simp_all add: next_view_def Let_def)
  have 2: "flags c2 = (0, 1, 1, m)" "ilim K c2 = ((0, input_current_sel (s32 m)), (0, 1))"
    using view [of DC_TYPE_DC_CHARGER c1] 1 assms(4) by (simp_all add: next_view_def Let_def)
  show ?thesis using view [of DC_TYPE_NONE_CHARGER c2] 1(2) 2 assms(5,6) by (simp add: next_view_def Let_def)
qed

section \<open>Limits at start-up\<close>

text \<open>
  The charge voltage is rounded down to a step of 50 mV between 4100 mV and 4450 mV. The accepted
  4500 mV does not fit into the field and selects 4100 mV.
\<close>

lemma chrg_voltage_selected:
  assumes "charge_bus K" "4100 \<le> v" "v \<le> 4500"
  shows "regmap_field_read K (hw (rk817_charge_set_chrg_voltage K v c)) CHRG_VOL_SEL = (0, ((v - 4100) div 50) mod 8)"
proof -
  have "0 \<le> (v - 4100) div 50" "(v - 4100) div 50 \<le> 8" using assms(2,3) by simp_all
  then show ?thesis
    using assms charge_registers.read_back [OF assms(1), of CHRG_VOL_SEL]
    by (simp add: rk817_charge_set_chrg_voltage_def rk817_charge_field_write_def control_field_def width_def cdiv_nonneg)
qed

lemma chrg_voltage_below:
  assumes "charge_bus K" "4100 \<le> v" "v < 4500"
  shows "\<exists>sel. regmap_field_read K (hw (rk817_charge_set_chrg_voltage K v c)) CHRG_VOL_SEL = (0, sel) \<and>
    4100 + 50 * sel \<le> v \<and> v < 4100 + 50 * sel + 50"
proof -
  have "((v - 4100) div 50) mod 8 = (v - 4100) div 50" using assms(2,3) by simp
  moreover have "4100 + 50 * ((v - 4100) div 50) \<le> v" "v < 4100 + 50 * ((v - 4100) div 50) + 50" by linarith+
  ultimately show ?thesis using chrg_voltage_selected [OF assms(1,2)] assms(3) by auto
qed

lemma chrg_voltage_4500:
  "charge_bus K \<Longrightarrow> regmap_field_read K (hw (rk817_charge_set_chrg_voltage K 4500 c)) CHRG_VOL_SEL = (0, 0)"
  using chrg_voltage_selected [of K 4500 c] by simp

text \<open>Likewise an input voltage outside of 4000 mV to 4700 mV selects an unrelated limit.\<close>

lemma input_voltage_selected:
  assumes "charge_bus K" "4000 \<le> v" "v < 2 ^ 31"
  shows "regmap_field_read K (hw (rk817_charge_set_input_voltage K v c)) USB_VLIM_SEL = (0, ((v - 4000) div 100) mod 8)"
proof -
  have "s32 (v - 4000) = v - 4000" using assms(2,3) by (simp add: is_s32_def)
  moreover have "0 \<le> (v - 4000) div 100" "(v - 4000) div 100 < 4294967296" using assms(2,3) by simp_all
  ultimately show ?thesis
    using assms(2) charge_registers.read_back [OF assms(1), of USB_VLIM_SEL] charge_registers.read_other [OF assms(1), of USB_VLIM_SEL USB_VLIM_EN]
    by (simp add: rk817_charge_set_input_voltage_def rk817_charge_vlimit_enable_def rk817_charge_field_write_def control_field_def
        overlap_def width_def cdiv_nonneg)
qed

section \<open>The OTG supply\<close>

text \<open>
  Removing the DC adapter never switches the OTG supply on, although the comment in the source says
  that it is powered on anyway: the request is ignored because the flag \<open>otg_in\<close> is still set.
\<close>

lemma dc_out_keeps_otg:
  assumes "rk817_charge_get_dc_state K c \<noteq> DC_TYPE_DC_CHARGER"
  shows "rk817_charge_dc_det_worker K c = Some (rk817_charge_boost_enable K (rk817_charge_set_chrg_param K DC_TYPE_NONE_CHARGER c))"
  using assms by (simp add: rk817_charge_dc_det_worker_def rk817_charge_set_otg_state_def Let_def)

text \<open>
  With battery charging detection, \<open>otg_in\<close> is never set, so that the request to switch the OTG supply
  off does nothing.
\<close>

lemma bc_otg_off_ignored:
  "otg_in c = 0 \<Longrightarrow> bc_event c = USB_OTG_POWER_OFF \<Longrightarrow> rk817_charge_bc_evt_worker K c = Some c"
  by (simp add: rk817_charge_bc_evt_worker_def rk817_charge_set_otg_state_def)

end
