(* ===== verification/Spec2Isabelle.thy ===== *)
theory Spec2Isabelle
  imports Search_Trees Hash_Tables Tree_Walks Graph_Search Heap_Array Number_Programs Parcel_Objects Binder_Object_Props Binder_Death Dynamic_Array Single_List Sorting_Programs Subsequence RK817_Charge_Props RK817_Charger_Props
begin

text \<open>
  Verification of the C code of the repository.

  \<^bold>\<open>Parts of the program.\<close> The repository collects three bodies of C code that do not call each other:
  the Android Binder driver (\<^verbatim>\<open>Chapter_1_In-depth_Analysis_of_Binder\<close>), the RK817/RK809 fuel gauge and
  charger drivers (\<^verbatim>\<open>Linux_Develop/Drivers/Power/Supply\<close>), and programs on data structures and algorithms
  (\<^verbatim>\<open>Data_Structure_and_Algorithms\<close>). Within the Binder driver, \<^verbatim>\<open>binder.c\<close> keeps processes, threads, nodes,
  references and transactions and asks \<^verbatim>\<open>binder_alloc.c\<close> for the buffers that carry the data. Within the
  fuel gauge, \<^verbatim>\<open>rk817_battery.c\<close> reads the measuring registers through the kernel's register map, turns
  them into a charge, and reports it to the power supply class.

  \<^bold>\<open>Conventions.\<close> Kernel addresses and sizes are 64-bit words; the \<^verbatim>\<open>int\<close>, \<^verbatim>\<open>u32\<close>, \<^verbatim>\<open>u16\<close> and \<^verbatim>\<open>u8\<close> values of the
  fuel gauge are integers that are reduced to their width (\<open>s32\<close>, \<open>u32\<close>, \<open>u16\<close>, \<open>u8\<close>) where the source
  stores or combines them, and so are the reference counts of the Binder driver (temporary counts of
  processes and threads are 32-bit words). The counters of the thread pool are plain integers: C37 keeps them between
  0 and \<^verbatim>\<open>max_threads\<close>. The kernel compiles with wrapping signed arithmetic, so that overflow is
  reduction and not an error; the programs on data structures run on unbounded element values, because
  they only compare and copy them; where an index or a sum can leave the width of \<^verbatim>\<open>int\<close> (the step of Shell sort, the
  doubled capacity of the dynamic array, consecutive sums) it is checked. A C
  failure is a value: an error code is an \<open>Inl\<close>; a \<^verbatim>\<open>BUG_ON\<close>, an access outside of an array, a NULL or freed
  pointer and a division by zero are \<open>None\<close> (or the outcome the theory names). Locks, tracing, statistics
  and debug output have no effect in the model. What the source calls and the repository does not hold
  (red-black trees, page allocation, register map, clocks, device tree, \<^verbatim>\<open>malloc\<close> and \<^verbatim>\<open>realloc\<close>) is a
  parameter of the definitions, with its documented behaviour as a named hypothesis and a concrete
  instance in the witnesses.

  \<^bold>\<open>Shared theories.\<close> \<^verbatim>\<open>Prelude\<close> holds the machine types, lemmas on intrusive lists and words, and the lemma
  collections. \<^verbatim>\<open>Contracts\<close> states the interfaces that several components promise as locales: \<open>fifo\<close>,
  \<open>fifo_checked\<close>, \<open>fifo_items\<close>, \<open>fifo_default\<close>, \<open>lifo\<close>, \<open>key_set\<close> and \<open>key_set_del\<close>; their clients' lemmas are proved there once. \<^verbatim>\<open>C_Memory\<close> is the heap
  and array model of the data structure programs.

  \<^bold>\<open>Binder buffer allocator.\<close> \<^verbatim>\<open>Binder_Alloc\<close> models every state-changing operation of \<^verbatim>\<open>binder_alloc.c\<close>: the
  record \<open>binder_alloc\<close> with its buffer list, the tree of free buffers by size, the tree of allocated
  buffers by address, the pages and the asynchronous budget. \<^verbatim>\<open>Binder_Alloc_Inv\<close>, \<^verbatim>\<open>_Free\<close>, \<^verbatim>\<open>_Life\<close> and \<^verbatim>\<open>_Props\<close>
  show the structural invariant (the buffers tile the area, no two free neighbours, both trees exact),
  best fit, exact overflow checks, release without double free, and set-up and teardown (C1 to C5).

  \<^bold>\<open>Binder driver.\<close> \<^verbatim>\<open>Binder_State\<close>: processes, threads, nodes, references and transactions as records in
  maps from object identities, the work lists and the choice of a thread to wake. \<^verbatim>\<open>Binder_Nodes\<close>: node
  and reference counts, the two reference trees of a process, handle numbers. \<^verbatim>\<open>Binder_Txn\<close>: transaction
  stacks, delivery, translation of objects, failed replies, thread and node release. The union inside
  \<^verbatim>\<open>flat_binder_object\<close> is kept as separate fields. \<^verbatim>\<open>Binder_Refs\<close> and \<^verbatim>\<open>Binder_Ref_Props\<close> show that handles
  are the least free ones, that the tables stay consistent while no count is at its maximum, and that a node is freed only
  when unused (C6 to C9); \<^verbatim>\<open>Binder_Txn_Props\<close> that work lists are queues (an interpretation of \<open>fifo_items\<close>), that a
  transaction is delivered once, and that a failed reply ends (C10 to C12).

  \<^bold>\<open>Binder protocol.\<close> \<^verbatim>\<open>Binder_Objects\<close>: the byte layout of the objects in a buffer (64 bit, little-endian),
  \<^verbatim>\<open>binder_get_object\<close>, validation of parents and fixups, file descriptors, release of a buffer's references.
  \<^verbatim>\<open>Binder_Transact\<close>: \<^verbatim>\<open>binder_transaction\<close> with its error labels. \<^verbatim>\<open>Binder_Commands\<close>: every \<^verbatim>\<open>BC_\<close> command and
  \<^verbatim>\<open>binder_thread_write\<close>. \<^verbatim>\<open>Binder_Read\<close>: every \<^verbatim>\<open>BR_\<close> return and \<^verbatim>\<open>binder_thread_read\<close>. \<^verbatim>\<open>Binder_Ioctl\<close>: ioctl,
  poll, mmap, open, flush, release and deferred work. The answers of the kernel during a command
  (allocations, user memory, file tables) are functions of the position in the buffer (\<open>during\<close>,
  \<open>while_at\<close>); \<open>sched\<close> stands for all that other threads do while a reader sleeps. \<^verbatim>\<open>Binder_Object_Props\<close>
  shows that exactly the valid objects are accepted, that they are read back as written and that a
  fixup stays inside its parent (C34 to C36; the locale \<open>wire_object\<close> is interpreted on the object
  formats). \<^verbatim>\<open>Binder_Frame\<close> collects what each operation leaves alone; \<^verbatim>\<open>Binder_Pool\<close> shows the bound on
  the thread pool over every run (C37), \<^verbatim>\<open>Binder_Read_Props\<close> that reads stay inside the user's buffer, on error paths too
  (C38), \<^verbatim>\<open>Binder_Death\<close> that all handlers of death notifications refine one protocol with exact messages (C39). The fuel of the walks
  over transaction chains and trees is a parameter; C12 shows that the length of the chain is enough.

  \<^bold>\<open>Parcel.\<close> \<^verbatim>\<open>Parcel\<close>: the state of \<^verbatim>\<open>libhwbinder/Parcel.cpp\<close> (data, position, object table, ownership of the memory)
  and its operations: growing, writing and reading of scalars, byte blocks, strings and buffers, binders and
  handles, release. \<^verbatim>\<open>Parcel_Props\<close>: the well-formedness of the state and that the operations keep it.
  \<^verbatim>\<open>Parcel_Codec\<close>: the locale \<open>parcel_codec\<close> of a value that is read back as written, interpreted on every kind of
  value, and the round trip of a whole message (C15). \<^verbatim>\<open>Parcel_Objects\<close>: the same for binders (C17).

  \<^bold>\<open>Data structures and algorithms.\<close> \<^verbatim>\<open>Array_Containers\<close>, \<^verbatim>\<open>Linked_Lists\<close>: the two array queues, two array
  stacks and the linked queue and stack, all interpretations of the contracts (C13, C16).
  \<^verbatim>\<open>Dynamic_Array\<close> and \<^verbatim>\<open>Single_List\<close> (C20) give each operation its effect on the sequence of elements.
  \<^verbatim>\<open>Search_Trees\<close>: the binary search tree and the balanced tree, whose insertions keep order, exact heights and
  balance (C19); their deletions do not, and lemmas show what is lost. \<^verbatim>\<open>Hash_Tables\<close>: separate chaining is a
  set (C18, an interpretation of \<open>key_set_del\<close>), double hashing may run forever and loses keys. \<^verbatim>\<open>Tree_Walks\<close>:
  traversals, the level order (C14), and that the post-order of an expression tree gives back the text it
  was built from. \<^verbatim>\<open>Graph_Search\<close>: breadth-first search on the queue of \<^verbatim>\<open>Array_Containers\<close> (C33).
  \<^verbatim>\<open>Heap_Array\<close>: insertion keeps the heap order where the array has room. \<^verbatim>\<open>Number_Programs\<close>: greatest common
  divisor, powers, binary search, trial division and the sieves, which leave their arrays. \<^verbatim>\<open>Sorting_Programs\<close> (C21) proves six sorts through the locale \<open>array_sort\<close>, and \<^verbatim>\<open>Subsequence\<close> (C22)
  the equivalence of three programs for the largest consecutive sum. Loops are recursion with a measure
  or \<open>partial_function (option)\<close>, and the theorems state that they return.

  \<^bold>\<open>Fuel gauge.\<close> \<^verbatim>\<open>RK817_Fields\<close>: the register fields with their addresses and bits, the locale
  \<open>register_fields\<close> (what the register map promises), the locale \<open>measured_current\<close> (writes leave the measured current
  alone) and their interpretations on a file of bytes.
  \<^verbatim>\<open>RK817_State\<close>: platform data and device; the function-local statics are fields of the device.
  \<^verbatim>\<open>RK817_Gauge\<close>: voltages, currents, the coulomb counter, the voltage table. \<^verbatim>\<open>RK817_Init\<close>: device tree and
  first display charge. \<^verbatim>\<open>RK817_Display\<close>: one run of \<^verbatim>\<open>rk817_battery_work\<close> with its smooth, zero and finish
  algorithms, the reported properties and the plug interrupts. \<^verbatim>\<open>RK817_Sleep\<close>: suspend and resume. Reading a
  register does not change the device. \<^verbatim>\<open>RK817_Gauge_Props\<close>: a monotone charge from the voltage table and
  values that survive a reboot (C23 to C25). \<^verbatim>\<open>RK817_Frame\<close> and \<^verbatim>\<open>RK817_Machine\<close>: what each operation leaves
  alone, and the invariant of the event-driven machine \<open>battery_step\<close> (C26). \<^verbatim>\<open>RK817_Total\<close>: when a run
  returns and what it reports (C27 to C29). \<^verbatim>\<open>RK817_Charge_Props\<close>: the speed of the display, its direction,
  the first charge after a long power-off (C30 to C32), and what the device tree has to hold.

  \<^bold>\<open>Charger.\<close> \<^verbatim>\<open>RK817_Charger\<close>: \<^verbatim>\<open>rk817_charger.c\<close> on a hardware state with registers and the OTG regulator; the
  calls into the kernel (interrupts, works, notifiers, reports) are recorded in order.
  \<^verbatim>\<open>RK817_Charger_Props\<close>: the locale \<open>charge_registers\<close> with its interpretation on a file of bytes, the input
  current limit over every run of \<open>charger_step\<close> (C40), and lemmas on the programmed voltages, on the
  OTG supply and on a charging port beside the DC adapter, where the code departs from its purpose.

  \<^bold>\<open>Bounds.\<close> The voltage table is strictly increasing with 2 to 255 entries (its index is a \<^verbatim>\<open>u8\<close>) and the full
  charge capacity is below 32767 mAh where products must not wrap; a resume accumulates at most three
  years of sleep (\<open>sleep_limit\<close>), beyond which the \<^verbatim>\<open>int\<close> of the lost charge wraps; the discharge theorem (C31)
  bounds capacities by 10 Ah and, for the zero algorithm, asks that the product of slope and consumed capacity fits in 32
  bits. C32 is about the branch of the power-on that calibrates by the voltage; its conditions are spelled out there.

  \<^bold>\<open>Not modelled.\<close> In \<^verbatim>\<open>binder.c\<close>: debugfs output, the transaction log, per-command statistics, thread
  priorities, the wait on \<^verbatim>\<open>binder_user_error_wait\<close> and module initialisation; the wake-up of pollers
  (\<^verbatim>\<open>POLLFREE\<close>) is the kernel's. In \<^verbatim>\<open>rk817_battery.c\<close>:
  allocation and registration in probe, interrupt set-up, the calibration timer (its work function
  returns at once), debug output. The power supply class (\<^verbatim>\<open>power_supply_core.c\<close> and its neighbours) registers devices with
  the kernel's driver core and prints attributes. The remaining C++ sources (threads of hwbinder, ServiceManager) rest on
  Android libraries that are not in the repository; \<^verbatim>\<open>main\<close> functions are fixed demonstrations.
\<close>

end
